(* ===== verification/Prelude.thy ===== *)
theory Prelude
  imports Main "HOL-Library.AList" "HOL-Library.Sublist" "HOL-Library.Word"
begin

text \<open>
  Shared vocabulary of the development: how the Rust standard library's strings, hash maps,
  vectors and results are represented, and the generic lemmas the component theories use.

  A Rust \<open>String\<close> is the list of its UTF-8 bytes (type \<open>string\<close>). Every separator and pattern
  the modelled code searches for is ASCII or a complete UTF-8 sequence, so searching bytes and
  searching characters agree. A \<open>HashMap\<close> is an association list with distinct keys; the order
  of the list stands for the iteration order of the map, which Rust leaves unspecified, and the
  theorems hold for every such order.
\<close>

section \<open>Results, times and hash maps\<close>

type_synonym ('e, 'a) rust_result = "'e + 'a"

text \<open>Identifiers of type \<open>Uuid\<close> are represented by their canonical text, which is what
  \<open>Display\<close> prints and \<open>Uuid::parse_str\<close> reads.\<close>

type_synonym uuid = string

text \<open>A \<open>DateTime<Utc>\<close> is a signed number of nanoseconds since the epoch, a \<open>Duration\<close> and an
  \<open>Instant\<close> (monotonic clock) are unsigned numbers of nanoseconds.\<close>

type_synonym date_time = int
type_synonym duration = nat
type_synonym instant = nat
type_synonym u64 = "64 word"
type_synonym u32 = "32 word"

definition from_millis :: "nat \<Rightarrow> duration" where
  "from_millis ms = ms * 1000000"

definition from_secs :: "nat \<Rightarrow> duration" where
  "from_secs s = s * 1000000000"

definition as_millis :: "duration \<Rightarrow> nat" where
  "as_millis d = d div 1000000"

definition as_secs :: "duration \<Rightarrow> nat" where
  "as_secs d = d div 1000000000"

text \<open>\<open>Instant::elapsed\<close> saturates at zero, as subtraction on \<open>nat\<close> does.\<close>

definition elapsed_since :: "instant \<Rightarrow> instant \<Rightarrow> duration" where
  "elapsed_since now start = now - start"

text \<open>\<open>signed_duration_since(..).to_std().unwrap_or(ZERO)\<close>: a negative difference becomes zero.\<close>

definition utc_elapsed :: "date_time \<Rightarrow> date_time \<Rightarrow> duration" where
  "utc_elapsed now since = nat (now - since)"

text \<open>\<open>DateTime::timestamp\<close> and \<open>timestamp_millis\<close>: whole seconds and milliseconds since the
  epoch, rounded towards minus infinity.\<close>

definition timestamp :: "date_time \<Rightarrow> int" where
  "timestamp t = t div 1000000000"

definition timestamp_millis :: "date_time \<Rightarrow> int" where
  "timestamp_millis t = t div 1000000"

type_synonym ('k, 'v) hash_map = "('k \<times> 'v) list"

abbreviation hm_get :: "('k, 'v) hash_map \<Rightarrow> 'k \<Rightarrow> 'v option" where
  "hm_get m k \<equiv> map_of m k"

abbreviation hm_insert :: "'k \<Rightarrow> 'v \<Rightarrow> ('k, 'v) hash_map \<Rightarrow> ('k, 'v) hash_map" where
  "hm_insert k v m \<equiv> AList.update k v m"

abbreviation hm_remove :: "'k \<Rightarrow> ('k, 'v) hash_map \<Rightarrow> ('k, 'v) hash_map" where
  "hm_remove k m \<equiv> AList.delete k m"

abbreviation hm_contains :: "('k, 'v) hash_map \<Rightarrow> 'k \<Rightarrow> bool" where
  "hm_contains m k \<equiv> k \<in> fst ` set m"

text \<open>\<open>*map.entry(k).or_insert(0) += 1\<close>.\<close>

definition count_in :: "'k \<Rightarrow> ('k, nat) hash_map \<Rightarrow> ('k, nat) hash_map" where
  "count_in k m = hm_insert k (case hm_get m k of None \<Rightarrow> 1 | Some n \<Rightarrow> n + 1) m"

abbreviation hm_wf :: "('k, 'v) hash_map \<Rightarrow> bool" where
  "hm_wf m \<equiv> distinct (map fst m)"

text \<open>\<open>Result::and_then\<close> (the \<open>?\<close> operator), \<open>map_err\<close> and \<open>Option::ok_or_else\<close>.\<close>

fun and_then :: "('e, 'a) rust_result \<Rightarrow> ('a \<Rightarrow> ('e, 'b) rust_result) \<Rightarrow> ('e, 'b) rust_result" where
  "and_then (Inl e) f = Inl e"
| "and_then (Inr a) f = f a"

fun map_err :: "('e \<Rightarrow> 'f) \<Rightarrow> ('e, 'a) rust_result \<Rightarrow> ('f, 'a) rust_result" where
  "map_err g (Inl e) = Inl (g e)"
| "map_err g (Inr a) = Inr a"

fun ok_or :: "'e \<Rightarrow> 'a option \<Rightarrow> ('e, 'a) rust_result" where
  "ok_or e None = Inl e"
| "ok_or e (Some a) = Inr a"

fun unwrap_or :: "'a option \<Rightarrow> 'a \<Rightarrow> 'a" where
  "unwrap_or None d = d"
| "unwrap_or (Some a) d = a"

text \<open>Collecting an iterator of results, or the \<open>?\<close> operator in a loop over it: the first error wins.\<close>

fun collect_results :: "('e, 'a) rust_result list \<Rightarrow> ('e, 'a list) rust_result" where
  "collect_results [] = Inr []"
| "collect_results (r # rs) = and_then r (\<lambda>a. and_then (collect_results rs) (\<lambda>as. Inr (a # as)))"

text \<open>A call that returns or panics.\<close>

datatype 'a call = Returns 'a | Panics

fun call_then :: "'a call \<Rightarrow> ('a \<Rightarrow> 'b call) \<Rightarrow> 'b call" where
  "call_then (Returns a) f = f a"
| "call_then Panics f = Panics"

section \<open>Strings\<close>

abbreviation starts_with :: "string \<Rightarrow> string \<Rightarrow> bool" where
  "starts_with s p \<equiv> prefix p s"

abbreviation ends_with :: "string \<Rightarrow> string \<Rightarrow> bool" where
  "ends_with s p \<equiv> suffix p s"

abbreviation str_contains :: "string \<Rightarrow> string \<Rightarrow> bool" where
  "str_contains s p \<equiv> sublist p s"

text \<open>\<open>str::split(c).collect()\<close>: always at least one part.\<close>

fun split_on :: "char \<Rightarrow> string \<Rightarrow> string list" where
  "split_on c [] = [[]]"
| "split_on c (x # xs) =
     (if x = c then [] # split_on c xs
      else (case split_on c xs of [] \<Rightarrow> [[x]] | y # ys \<Rightarrow> (x # y) # ys))"

text \<open>\<open>splitn(2, c)\<close> when \<open>c\<close> occurs: the text before the first \<open>c\<close> and the text after it.\<close>

fun split_once :: "char \<Rightarrow> string \<Rightarrow> (string \<times> string) option" where
  "split_once c [] = None"
| "split_once c (x # xs) =
     (if x = c then Some ([], xs)
      else map_option (\<lambda>(a, b). (x # a, b)) (split_once c xs))"

fun join :: "string \<Rightarrow> string list \<Rightarrow> string" where
  "join sep [] = []"
| "join sep [s] = s"
| "join sep (s # t # ts) = s @ sep @ join sep (t # ts)"

text \<open>\<open>str::replace(pat, with)\<close> for a non-empty pattern: left to right, non-overlapping.\<close>

function replace_all :: "string \<Rightarrow> string \<Rightarrow> string \<Rightarrow> string" where
  "replace_all pat w s =
     (if pat = [] \<or> s = [] then s
      else if prefix pat s then w @ replace_all pat w (drop (length pat) s)
      else hd s # replace_all pat w (tl s))"
  by pat_completeness auto
termination
  by (relation "measure (\<lambda>(pat, w, s). length s)") (auto simp: prefix_def)

declare replace_all.simps [simp del]

text \<open>\<open>str::strip_prefix\<close> and \<open>str::strip_suffix\<close>.\<close>

definition strip_prefix :: "string \<Rightarrow> string \<Rightarrow> string option" where
  "strip_prefix p s = (if prefix p s then Some (drop (length p) s) else None)"

definition strip_suffix :: "string \<Rightarrow> string \<Rightarrow> string option" where
  "strip_suffix p s = (if suffix p s then Some (take (length s - length p) s) else None)"

text \<open>\<open>str::to_lowercase\<close> on ASCII letters. Multi-byte characters are left alone: the strings
  the code compares the result with contain none of the ASCII letters that a non-ASCII character
  lowers to, or are compared on bytes that lowering does not change.\<close>

definition lower_char :: "char \<Rightarrow> char" where
  "lower_char c =
     (let n = (of_char c :: nat) in if 65 \<le> n \<and> n \<le> 90 then char_of (n + 32) else c)"

definition to_lowercase :: "string \<Rightarrow> string" where
  "to_lowercase = map lower_char"

text \<open>Decimal digits of an unsigned integer, as \<open>format!("{}", n)\<close> prints them.\<close>

fun show_nat :: "nat \<Rightarrow> string" where
  "show_nat n = (if n < 10 then [char_of (n + 48)] else show_nat (n div 10) @ [char_of (n mod 10 + 48)])"

declare show_nat.simps [simp del]

definition show_int :: "int \<Rightarrow> string" where
  "show_int i = (if i < 0 then ''-'' @ show_nat (nat (- i)) else show_nat (nat i))"

section \<open>Generic lemmas\<close>

subsection \<open>Hash maps\<close>

lemma length_map_filter_all: "(\<And>x. x \<in> set xs \<Longrightarrow> f x \<noteq> None) \<Longrightarrow> length (List.map_filter f xs) = length xs"
proof (induction xs)
  case (Cons x xs)
  from Cons.prems [of x] obtain y where "f x = Some y" by auto
  with Cons show ?case by (simp add: List.map_filter_simps)
qed (simp add: List.map_filter_simps)

lemma hm_get_insert [simp]:
  "map_of (AList.update k v m) = (map_of m)(k \<mapsto> v)"
  by (rule update_conv')

lemma hm_get_remove [simp]:
  "map_of (AList.delete k m) = (map_of m)(k := None)"
  by (rule delete_conv')

lemma hm_wf_insert [intro, simp]: "distinct (map fst m) \<Longrightarrow> distinct (map fst (AList.update k v m))"
  by (rule distinct_update)

lemma hm_wf_remove [intro, simp]: "distinct (map fst m) \<Longrightarrow> distinct (map fst (AList.delete k m))"
  by (rule distinct_delete)

lemma hm_get_None_iff: "map_of m k = None \<longleftrightarrow> k \<notin> fst ` set m"
  by (rule map_of_eq_None_iff)

lemma hm_get_Some_iff: "distinct (map fst m) \<Longrightarrow> map_of m k = Some v \<longleftrightarrow> (k, v) \<in> set m"
  by simp

lemma hm_keys_insert: "fst ` set (AList.update k v m) = insert k (fst ` set m)"
  by (induction m) auto

lemma hm_length_insert:
  "length (AList.update k v m) = (if k \<in> fst ` set m then length m else Suc (length m))"
  by (induction m) auto

lemma hm_length_remove_le: "length (AList.delete k m) \<le> length m"
  by (simp add: length_delete_le)

lemma hm_length_remove_less: "k \<in> fst ` set m \<Longrightarrow> length (AList.delete k m) < length m"
  by (auto simp: AList.delete_eq intro!: length_filter_less)

text \<open>\<open>HashMap::retain\<close> is a filter on the entries.\<close>

lemma hm_get_filter:
  "distinct (map fst m) \<Longrightarrow>
   map_of (filter P m) k = (case map_of m k of None \<Rightarrow> None | Some v \<Rightarrow> if P (k, v) then Some v else None)"
proof (induction m)
  case (Cons a m)
  show ?case
  proof (cases "fst a = k")
    case True
    with Cons.prems have "map_of m k = None" by (auto simp: map_of_eq_None_iff)
    with True Cons show ?thesis by (cases a) auto
  next
    case False
    with Cons show ?thesis by (cases a) auto
  qed
qed simp

lemma count_in_fold:
  "hm_get (fold (\<lambda>x. count_in (f x)) xs m) k =
     (if k \<in> f ` set xs then Some ((case hm_get m k of None \<Rightarrow> 0 | Some n \<Rightarrow> n) + length (filter (\<lambda>x. f x = k) xs))
      else hm_get m k)"
proof (induction xs arbitrary: m)
  case (Cons x xs)
  have "hm_get (count_in (f x) m) k = (if f x = k then Some ((case hm_get m k of None \<Rightarrow> 0 | Some n \<Rightarrow> n) + 1) else hm_get m k)"
    by (auto simp: count_in_def split: option.splits)
  then show ?case by (auto simp: Cons.IH filter_empty_conv image_iff split: option.splits) (metis | fastforce)+
qed simp

subsection \<open>Results\<close>

lemma and_then_Inr_iff [simp]: "and_then r f = Inr b \<longleftrightarrow> (\<exists>a. r = Inr a \<and> f a = Inr b)"
  by (cases r) auto

lemma map_err_Inr_iff [simp]: "map_err g r = Inr a \<longleftrightarrow> r = Inr a"
  by (cases r) auto

lemma ok_or_Inr_iff [simp]: "ok_or e m = Inr a \<longleftrightarrow> m = Some a"
  by (cases m) auto

lemma collect_results_Inr_iff: "collect_results rs = Inr xs \<longleftrightarrow> rs = map Inr xs"
  by (induction rs arbitrary: xs) (auto simp: Cons_eq_map_conv)

lemma collect_results_map_Inr [simp]: "collect_results (map Inr xs) = Inr xs"
  by (simp add: collect_results_Inr_iff)

subsection \<open>Strings\<close>

lemma split_on_nonempty [simp]: "split_on c s \<noteq> []"
  by (induction s) (auto split: list.splits)

lemma split_on_no_sep: "c \<notin> set s \<Longrightarrow> split_on c s = [s]"
  by (induction s) auto

lemma split_on_append: "c \<notin> set a \<Longrightarrow> split_on c (a @ c # b) = a # split_on c b"
  by (induction a) auto

lemma join_Cons: "ts \<noteq> [] \<Longrightarrow> join sep (s # ts) = s @ sep @ join sep ts"
  by (cases ts) auto

lemma join_Cons_head: "join sep ((x # s) # ts) = x # join sep (s # ts)"
  by (cases ts) auto

lemma join_split_on: "join [c] (split_on c s) = s"
proof (induction s)
  case (Cons x xs)
  then show ?case
    by (cases "split_on c xs") (auto simp: join_Cons join_Cons_head)
qed simp

lemma split_on_join: "ss \<noteq> [] \<Longrightarrow> \<forall>s \<in> set ss. c \<notin> set s \<Longrightarrow> split_on c (join [c] ss) = ss"
proof (induction ss rule: induct_list012)
  case (3 s t ss)
  then show ?case by (simp add: split_on_append)
qed (simp_all add: split_on_no_sep)

lemma split_on_parts: "p \<in> set (split_on c s) \<Longrightarrow> c \<notin> set p"
proof (induction s arbitrary: p)
  case (Cons x xs)
  then show ?case by (cases "split_on c xs") (auto split: if_splits)
qed simp

lemma split_once_append: "c \<notin> set a \<Longrightarrow> split_once c (a @ c # b) = Some (a, b)"
  by (induction a) auto

lemma split_once_None_iff: "split_once c s = None \<longleftrightarrow> c \<notin> set s"
  by (induction s) auto

lemma split_once_Some: "split_once c s = Some (a, b) \<Longrightarrow> s = a @ c # b \<and> c \<notin> set a"
  by (induction s arbitrary: a) (auto split: if_splits)

lemma strip_prefix_Some [simp]: "strip_prefix p s = Some r \<longleftrightarrow> s = p @ r"
  by (auto simp: strip_prefix_def prefix_def)

lemma strip_suffix_Some [simp]: "strip_suffix p s = Some r \<longleftrightarrow> s = r @ p"
  by (auto simp: strip_suffix_def suffix_def)

lemma to_lowercase_Nil [simp]: "to_lowercase [] = []"
  by (simp add: to_lowercase_def)

lemma length_to_lowercase [simp]: "length (to_lowercase s) = length s"
  by (simp add: to_lowercase_def)

lemma lower_char_idem: "lower_char (lower_char c) = lower_char c"
proof (cases "65 \<le> (of_char c :: nat) \<and> (of_char c :: nat) \<le> 90")
  case True
  then have "(of_char (char_of ((of_char c :: nat) + 32) :: char) :: nat) = of_char c + 32"
    by (simp add: of_char_of)
  with True show ?thesis by (simp add: lower_char_def Let_def)
next
  case False
  then have "lower_char c = c" by (simp add: lower_char_def Let_def, blast)
  then show ?thesis by simp
qed

lemma to_lowercase_idem [simp]: "to_lowercase (to_lowercase s) = to_lowercase s"
  by (simp add: to_lowercase_def lower_char_idem)

lemma replace_all_absent:
  "\<not> sublist pat s \<Longrightarrow> replace_all pat w s = s"
proof (induction pat w s rule: replace_all.induct)
  case (1 pat w s)
  show ?case
  proof (cases "pat = [] \<or> s = []")
    case True
    then show ?thesis by (simp add: replace_all.simps [of pat w s])
  next
    case False
    then obtain x xs where s: "s = x # xs" by (cases s) auto
    have np: "\<not> prefix pat s" using "1.prems" by (auto simp: prefix_imp_sublist)
    moreover have "\<not> sublist pat xs" using "1.prems" s by (auto simp: sublist_Cons_right)
    ultimately show ?thesis using 1 False s by (simp add: replace_all.simps [of pat w "x # xs"])
  qed
qed

subsection \<open>Lists\<close>

lemma drop_excess_length: "length (drop (length xs - n) xs) \<le> n"
  by simp

lemma list_ex_Not: "list_ex P xs \<longleftrightarrow> \<not> list_all (\<lambda>x. \<not> P x) xs"
  by (simp add: list_ex_iff list_all_iff)

end
