(* ===== verification/DataSource.thy ===== *)
theory DataSource
  imports Prelude
begin

text \<open>
  The unified data source identifiers of \<open>heramind-core/src/datasource/mod.rs\<close>: three-part ids
  \<open>type:id:field\<close>, their storage key, its parser, and the extension command form
  \<open>extension:id:command:field\<close>.
\<close>

datatype data_source_type = Device | Extension | Transform

record data_source_id =
  source_type :: data_source_type
  source_id :: string
  field_path :: string

definition ds_extension :: "string \<Rightarrow> string \<Rightarrow> data_source_id" where
  "ds_extension extension_id metric =
     \<lparr>source_type = Extension, source_id = extension_id, field_path = metric\<rparr>"

definition ds_device :: "string \<Rightarrow> string \<Rightarrow> data_source_id" where
  "ds_device device_id metric =
     \<lparr>source_type = Device, source_id = device_id, field_path = metric\<rparr>"

definition ds_transform :: "string \<Rightarrow> string \<Rightarrow> data_source_id" where
  "ds_transform transform_id field =
     \<lparr>source_type = Transform, source_id = transform_id, field_path = field\<rparr>"

definition type_of_part :: "string \<Rightarrow> data_source_type option" where
  "type_of_part p =
     (if p = ''device'' then Some Device
      else if p = ''extension'' then Some Extension
      else if p = ''transform'' then Some Transform
      else None)"

definition ds_parse :: "string \<Rightarrow> data_source_id option" where
  "ds_parse s =
     (case split_on CHR '':'' s of
        [p0, p1, p2] \<Rightarrow>
          (case type_of_part p0 of
             None \<Rightarrow> None
           | Some t \<Rightarrow> Some \<lparr>source_type = t, source_id = p1, field_path = p2\<rparr>)
      | _ \<Rightarrow> None)"

fun type_part :: "data_source_type \<Rightarrow> string" where
  "type_part Device = ''device''"
| "type_part Extension = ''extension''"
| "type_part Transform = ''transform''"

definition storage_key :: "data_source_id \<Rightarrow> string" where
  "storage_key d = type_part (source_type d) @ '':'' @ source_id d @ '':'' @ field_path d"

fun type_display :: "data_source_type \<Rightarrow> string" where
  "type_display Device = ''Device''"
| "type_display Extension = ''Extension''"
| "type_display Transform = ''Transform''"

definition display_name :: "data_source_id \<Rightarrow> string" where
  "display_name d = type_display (source_type d) @ '' '' @ source_id d @ '' / '' @ field_path d"

definition source_part :: "data_source_id \<Rightarrow> string" where
  "source_part d = type_part (source_type d) @ '':'' @ source_id d"

definition metric_part :: "data_source_id \<Rightarrow> string" where
  "metric_part d = field_path d"

definition extension_command :: "string \<Rightarrow> string \<Rightarrow> string \<Rightarrow> data_source_id" where
  "extension_command extension_id command field =
     \<lparr>source_type = Extension, source_id = extension_id, field_path = command @ ''.'' @ field\<rparr>"

definition parse_extension_command :: "string \<Rightarrow> data_source_id option" where
  "parse_extension_command s =
     (case split_on CHR '':'' s of
        [p0, p1, p2, p3] \<Rightarrow>
          if p0 = ''extension''
          then Some \<lparr>source_type = Extension, source_id = p1, field_path = p2 @ ''.'' @ p3\<rparr>
          else None
      | _ \<Rightarrow> None)"

definition as_extension_command_parts ::
    "data_source_id \<Rightarrow> (string \<times> string \<times> string) option" where
  "as_extension_command_parts d =
     (if source_type d \<noteq> Extension then None
      else map_option (\<lambda>(c, f). (source_id d, c, f)) (split_once CHR ''.'' (field_path d)))"

text \<open>\<open>Display\<close> prints the variant name of the type (\<open>{:?}\<close>), not the key's lower-case part.\<close>

definition ds_fmt :: "data_source_id \<Rightarrow> string" where
  "ds_fmt d = type_display (source_type d) @ '':'' @ source_id d @ '':'' @ field_path d"

section \<open>Lemmas\<close>

definition colon_free :: "data_source_id \<Rightarrow> bool" where
  "colon_free d \<longleftrightarrow> CHR '':'' \<notin> set (source_id d) \<and> CHR '':'' \<notin> set (field_path d)"

lemma type_of_part_type_part [simp]: "type_of_part (type_part t) = Some t"
  by (cases t) (simp_all add: type_of_part_def)

lemma type_of_part_Some: "type_of_part p = Some t \<longleftrightarrow> p = type_part t"
  by (cases t) (auto simp: type_of_part_def split: if_splits)

lemma colon_notin_type_part [simp]: "CHR '':'' \<notin> set (type_part t)"
  by (cases t) auto

lemma type_part_inject [simp]: "type_part s = type_part t \<longleftrightarrow> s = t"
  by (cases s; cases t) auto

lemma split_storage_key:
  "colon_free d \<Longrightarrow>
   split_on CHR '':'' (storage_key d) = [type_part (source_type d), source_id d, field_path d]"
  by (simp add: storage_key_def colon_free_def split_on_append split_on_no_sep)

lemma parse_of_storage_key: "colon_free d \<Longrightarrow> ds_parse (storage_key d) = Some d"
  by (simp add: ds_parse_def split_storage_key)

lemma storage_key_of_parse:
  assumes "ds_parse s = Some d"
  shows "storage_key d = s \<and> colon_free d"
proof -
  from assms obtain p0 p1 p2 t where
    sp: "split_on CHR '':'' s = [p0, p1, p2]" and t: "type_of_part p0 = Some t"
    and d: "d = \<lparr>source_type = t, source_id = p1, field_path = p2\<rparr>"
    by (auto simp: ds_parse_def split: list.splits option.splits)
  have "s = join '':'' [p0, p1, p2]" using join_split_on [of "CHR '':''" s] sp by simp
  moreover have "CHR '':'' \<notin> set p1" "CHR '':'' \<notin> set p2"
    using split_on_parts [of p1 "CHR '':''" s] split_on_parts [of p2 "CHR '':''" s] sp by auto
  ultimately show ?thesis
    using t d by (simp add: storage_key_def colon_free_def type_of_part_Some)
qed

lemma storage_key_inj: "colon_free d \<Longrightarrow> colon_free e \<Longrightarrow> storage_key d = storage_key e \<Longrightarrow> d = e"
  by (metis parse_of_storage_key option.inject)

section \<open>Properties\<close>

text \<open>A string parses as a data source id exactly when it is the storage key of that id and
  neither part of the id contains a colon: parsing and printing are inverse on such ids, and no
  other string is accepted.\<close>

lemma ds_parse_iff:
  "ds_parse s = Some d \<longleftrightarrow>
     (storage_key d = s \<and> CHR '':'' \<notin> set (source_id d) \<and> CHR '':'' \<notin> set (field_path d))"
  using parse_of_storage_key storage_key_of_parse by (auto simp: colon_free_def)

text \<open>An extension command id splits back into its extension, command and field whenever the
  command name has no dot, and the legacy four-part text of the same command parses to that id
  whenever no part contains a colon.\<close>

lemma extension_command_round_trip:
  assumes "CHR ''.'' \<notin> set c"
    and "CHR '':'' \<notin> set e" and "CHR '':'' \<notin> set c" and "CHR '':'' \<notin> set f"
  shows "as_extension_command_parts (extension_command e c f) = Some (e, c, f)
    \<and> parse_extension_command (''extension:'' @ e @ '':'' @ c @ '':'' @ f)
        = Some (extension_command e c f)"
proof
  show "as_extension_command_parts (extension_command e c f) = Some (e, c, f)"
    using assms(1) split_once_append [of "CHR ''.''" c f]
    by (simp add: as_extension_command_parts_def extension_command_def)
  have "split_on CHR '':'' (''extension'' @ CHR '':'' # e @ CHR '':'' # c @ CHR '':'' # f)
      = [''extension'', e, c, f]"
    using assms by (subst split_on_append, simp) (simp add: split_on_append split_on_no_sep)
  then show "parse_extension_command (''extension:'' @ e @ '':'' @ c @ '':'' @ f)
      = Some (extension_command e c f)"
    by (simp add: parse_extension_command_def extension_command_def)
qed

end
