(* ===== verification/Float64.thy ===== *)
theory Float64
  imports Prelude
begin

text \<open>
  The \<open>f64\<close> operations the modelled code uses. A finite double is an integer multiple of
  \<open>2 ^ -1074\<close>, so \<open>Fin i\<close> stands for the value \<open>i * 2 ^ -1074\<close>; comparisons are exact and
  subtraction rounds to nearest, ties to even, at 53 significant bits, overflowing to an infinity
  at \<open>2 ^ 1024\<close>. The two signed zeros are identified: they compare equal, and no modelled
  operation distinguishes them.
\<close>

datatype f64 = NaN | PosInf | NegInf | Fin int

definition is_nan :: "f64 \<Rightarrow> bool" where
  "is_nan x = (x = NaN)"

fun f64_lt :: "f64 \<Rightarrow> f64 \<Rightarrow> bool" where
  "f64_lt NaN _ = False"
| "f64_lt _ NaN = False"
| "f64_lt PosInf _ = False"
| "f64_lt _ NegInf = False"
| "f64_lt NegInf _ = True"
| "f64_lt _ PosInf = True"
| "f64_lt (Fin i) (Fin j) = (i < j)"

fun f64_eq :: "f64 \<Rightarrow> f64 \<Rightarrow> bool" where
  "f64_eq NaN _ = False"
| "f64_eq a b = (a = b)"

definition f64_le :: "f64 \<Rightarrow> f64 \<Rightarrow> bool" where
  "f64_le a b = (f64_lt a b \<or> f64_eq a b)"

text \<open>Rounding of an exact multiple of \<open>2 ^ -1074\<close> to the nearest double.\<close>

fun bit_length :: "nat \<Rightarrow> nat" where
  "bit_length n = (if n = 0 then 0 else Suc (bit_length (n div 2)))"

declare bit_length.simps [simp del]

definition round_half_even :: "nat \<Rightarrow> nat \<Rightarrow> nat" where
  "round_half_even n k =
     (let q = n div 2 ^ k; r = n mod 2 ^ k
      in if 2 * r < 2 ^ k \<or> (2 * r = 2 ^ k \<and> even q) then q else Suc q)"

definition round_mantissa :: "nat \<Rightarrow> nat" where
  "round_mantissa n =
     (let k = bit_length n - 53 in if k = 0 then n else round_half_even n k * 2 ^ k)"

definition f64_unit :: int where
  "f64_unit = 2 ^ 1074"

definition f64_overflow :: int where
  "f64_overflow = 2 ^ 2098"

definition f64_round :: "int \<Rightarrow> f64" where
  "f64_round i =
     (let m = int (round_mantissa (nat \<bar>i\<bar>))
      in if m < f64_overflow then Fin (sgn i * m) else if 0 < i then PosInf else NegInf)"

fun f64_neg :: "f64 \<Rightarrow> f64" where
  "f64_neg NaN = NaN"
| "f64_neg PosInf = NegInf"
| "f64_neg NegInf = PosInf"
| "f64_neg (Fin i) = Fin (- i)"

fun f64_sub :: "f64 \<Rightarrow> f64 \<Rightarrow> f64" where
  "f64_sub NaN _ = NaN"
| "f64_sub _ NaN = NaN"
| "f64_sub PosInf PosInf = NaN"
| "f64_sub PosInf _ = PosInf"
| "f64_sub NegInf NegInf = NaN"
| "f64_sub NegInf _ = NegInf"
| "f64_sub (Fin _) PosInf = NegInf"
| "f64_sub (Fin _) NegInf = PosInf"
| "f64_sub (Fin i) (Fin j) = f64_round (i - j)"

fun f64_abs :: "f64 \<Rightarrow> f64" where
  "f64_abs NaN = NaN"
| "f64_abs PosInf = PosInf"
| "f64_abs NegInf = PosInf"
| "f64_abs (Fin i) = Fin \<bar>i\<bar>"

text \<open>Multiplication: the exact product of two finite doubles is a multiple of \<open>2 ^ -2148\<close>; it is
  rounded to 53 bits or to a multiple of \<open>2 ^ -1074\<close>, whichever is coarser.\<close>

definition f64_round_product :: "int \<Rightarrow> f64" where
  "f64_round_product p =
     (let n = nat \<bar>p\<bar>; k = max (bit_length n - 53) 1074; m = int (round_half_even n k * 2 ^ (k - 1074))
      in if m < f64_overflow then Fin (sgn p * m) else if 0 < p then PosInf else NegInf)"

definition f64_infinity :: "bool \<Rightarrow> f64" where
  "f64_infinity negative = (if negative then NegInf else PosInf)"

fun f64_mul :: "f64 \<Rightarrow> f64 \<Rightarrow> f64" where
  "f64_mul NaN _ = NaN"
| "f64_mul _ NaN = NaN"
| "f64_mul (Fin i) (Fin j) = f64_round_product (i * j)"
| "f64_mul (Fin i) b = (if i = 0 then NaN else f64_infinity ((i < 0) \<noteq> (b = NegInf)))"
| "f64_mul a (Fin j) = (if j = 0 then NaN else f64_infinity ((a = NegInf) \<noteq> (j < 0)))"
| "f64_mul a b = f64_infinity ((a = NegInf) \<noteq> (b = NegInf))"

text \<open>Addition, and division: the exact quotient of two finite doubles is rounded to 53 bits or to a multiple of
  \<open>2 ^ -1074\<close>. Since zeros have no sign here, a division by zero takes the sign of the dividend.\<close>

definition f64_add :: "f64 \<Rightarrow> f64 \<Rightarrow> f64" where
  "f64_add a b = f64_sub a (f64_neg b)"

definition f64_round_quotient :: "nat \<Rightarrow> nat \<Rightarrow> nat" where
  "f64_round_quotient n d =
     (let k = bit_length (n div d) - 53; q = n div (d * 2 ^ k); r = n mod (d * 2 ^ k)
      in (if 2 * r < d * 2 ^ k \<or> (2 * r = d * 2 ^ k \<and> even q) then q else Suc q) * 2 ^ k)"

fun f64_div :: "f64 \<Rightarrow> f64 \<Rightarrow> f64" where
  "f64_div NaN _ = NaN"
| "f64_div _ NaN = NaN"
| "f64_div (Fin i) (Fin j) =
     (if j = 0 then (if i = 0 then NaN else f64_infinity (i < 0))
      else let m = int (f64_round_quotient (nat (\<bar>i\<bar> * f64_unit)) (nat \<bar>j\<bar>))
           in if m < f64_overflow then Fin (sgn i * sgn j * m) else f64_infinity ((i < 0) \<noteq> (j < 0)))"
| "f64_div (Fin i) _ = Fin 0"
| "f64_div a (Fin j) = f64_infinity ((a = NegInf) \<noteq> (j < 0))"
| "f64_div _ _ = NaN"

text \<open>\<open>f64::ceil\<close>.\<close>

fun f64_ceil :: "f64 \<Rightarrow> f64" where
  "f64_ceil (Fin i) = Fin (- (- i div f64_unit) * f64_unit)"
| "f64_ceil a = a"

text \<open>\<open>f64::max\<close> and \<open>f64::min\<close> ignore a NaN operand; \<open>as u64\<close> truncates and saturates, NaN becoming 0.\<close>

definition f64_max :: "f64 \<Rightarrow> f64 \<Rightarrow> f64" where
  "f64_max a b = (if a = NaN then b else if b = NaN then a else if f64_lt a b then b else a)"

definition f64_min :: "f64 \<Rightarrow> f64 \<Rightarrow> f64" where
  "f64_min a b = (if a = NaN then b else if b = NaN then a else if f64_lt b a then b else a)"

fun f64_as_u64 :: "f64 \<Rightarrow> nat" where
  "f64_as_u64 NaN = 0"
| "f64_as_u64 PosInf = 2 ^ 64 - 1"
| "f64_as_u64 NegInf = 0"
| "f64_as_u64 (Fin i) = min (nat (i div f64_unit)) (2 ^ 64 - 1)"

text \<open>Literals: an integer that is exactly representable, and the double nearest to
  \<open>0.0001\<close>, which is \<open>7378697629483821 * 2 ^ -66\<close>.\<close>

definition f64_of_int :: "int \<Rightarrow> f64" where
  "f64_of_int i = f64_round (i * f64_unit)"

definition f64_epsilon :: f64 where
  "f64_epsilon = Fin (7378697629483821 * 2 ^ 1008)"

section \<open>Facts about the operations\<close>

lemma f64_lt_irrefl [simp]: "\<not> f64_lt a a"
  by (cases a) auto

lemma f64_lt_trans: "f64_lt a b \<Longrightarrow> f64_lt b c \<Longrightarrow> f64_lt a c"
  by (cases a; cases b; cases c) auto

lemma f64_lt_asym: "f64_lt a b \<Longrightarrow> \<not> f64_lt b a"
  by (cases a; cases b) auto

lemma f64_le_trans: "f64_le a b \<Longrightarrow> f64_le b c \<Longrightarrow> f64_le a c"
  by (cases a; cases b; cases c) (auto simp: f64_le_def)

lemma f64_not_lt_iff: "\<not> is_nan a \<Longrightarrow> \<not> is_nan b \<Longrightarrow> \<not> f64_lt a b \<longleftrightarrow> f64_le b a"
  by (cases a; cases b) (auto simp: is_nan_def f64_le_def)

lemma f64_nan_le [simp]: "\<not> f64_le NaN a" "\<not> f64_le a NaN"
  by (cases a; simp add: f64_le_def)+

lemma f64_nan_lt [simp]: "\<not> f64_lt NaN a" "\<not> f64_lt a NaN"
  by (cases a; simp)+

lemma bit_length_0 [simp]: "bit_length 0 = 0"
  by (simp add: bit_length.simps [of 0])

lemma bit_length_le: "n < 2 ^ b \<Longrightarrow> bit_length n \<le> b"
proof (induction n arbitrary: b rule: bit_length.induct)
  case (1 n)
  show ?case
  proof (cases "n = 0")
    case False
    with "1.prems" obtain c where b: "b = Suc c" by (cases b) auto
    with "1.prems" have "n div 2 < 2 ^ c" by simp
    with 1 False have "bit_length (n div 2) \<le> c" by simp
    with False b show ?thesis by (simp add: bit_length.simps [of n])
  qed simp
qed

text \<open>Rounding leaves every representable value alone.\<close>

lemma round_mantissa_exact:
  assumes "m < 2 ^ 53"
  shows "round_mantissa (m * 2 ^ k) = m * 2 ^ k"
proof -
  define K where "K = bit_length (m * 2 ^ k) - 53"
  have "m * 2 ^ k < 2 ^ 53 * 2 ^ k" using assms by simp
  then have "m * 2 ^ k < 2 ^ (53 + k)" by (simp only: power_add)
  then have "bit_length (m * 2 ^ k) \<le> 53 + k" by (rule bit_length_le)
  then have "K \<le> k" by (simp add: K_def)
  then have "(2::nat) ^ K dvd m * 2 ^ k" by (simp add: le_imp_power_dvd)
  then show ?thesis
    by (simp add: round_mantissa_def K_def [symmetric] Let_def round_half_even_def)
qed

lemma f64_overflow_pos [simp]: "0 < f64_overflow"
  by (simp add: f64_overflow_def)

lemma f64_round_0 [simp]: "f64_round 0 = Fin 0"
  using round_mantissa_exact [of 0 0] by (simp add: f64_round_def Let_def)

lemma f64_round_neg: "f64_round (- i) = f64_neg (f64_round i)"
proof (cases "i = 0")
  case False
  then show ?thesis by (auto simp: f64_round_def Let_def)
qed simp

lemma f64_of_int_exact:
  assumes "\<bar>i\<bar> < 2 ^ 53"
  shows "f64_of_int i = Fin (i * f64_unit)"
proof -
  have "f64_unit = int (2 ^ 1074)" by (simp only: f64_unit_def of_nat_power of_nat_numeral)
  then obtain k where k: "f64_unit = int (2 ^ k)" "k = 1074" by blast
  have n: "nat \<bar>i * f64_unit\<bar> = nat \<bar>i\<bar> * 2 ^ k"
    by (simp add: k(1) abs_mult nat_mult_distrib nat_power_eq)
  have "nat \<bar>i\<bar> < 2 ^ 53" using assms by (simp add: nat_less_iff)
  then have r: "int (round_mantissa (nat \<bar>i * f64_unit\<bar>)) = \<bar>i\<bar> * f64_unit"
    unfolding n by (simp add: round_mantissa_exact k(1))
  have "\<bar>i\<bar> * f64_unit < 2 ^ 53 * f64_unit" using assms by (simp add: k(1))
  moreover have "2 ^ 53 * f64_unit < f64_overflow"
    unfolding f64_unit_def f64_overflow_def power_add [symmetric] by (rule power_strict_increasing) simp_all
  ultimately have lt: "\<bar>i\<bar> * f64_unit < f64_overflow" by simp
  have "sgn (i * f64_unit) * (\<bar>i\<bar> * f64_unit) = i * f64_unit"
    by (simp add: k(1) sgn_mult abs_sgn mult.assoc [symmetric])
  with lt show ?thesis
    unfolding f64_of_int_def f64_round_def r by (simp add: Let_def)
qed

lemma f64_abs_neg [simp]: "f64_abs (f64_neg a) = f64_abs a"
  by (cases a) auto

lemma f64_sub_swap: "f64_sub a b = f64_neg (f64_sub b a)"
proof (cases "\<exists>i j. a = Fin i \<and> b = Fin j")
  case True
  then obtain i j where "a = Fin i" "b = Fin j" by blast
  then show ?thesis using f64_round_neg [of "j - i"] by simp
next
  case False
  then show ?thesis by (cases a; cases b) auto
qed

lemma f64_abs_sub_commute: "f64_abs (f64_sub a b) = f64_abs (f64_sub b a)"
  using arg_cong [OF f64_sub_swap [of a b], of f64_abs] by simp

lemma f64_sub_self: "f64_sub a a = (case a of Fin _ \<Rightarrow> Fin 0 | _ \<Rightarrow> NaN)"
  by (cases a) auto

lemma f64_abs_nan_iff [simp]: "f64_abs a = NaN \<longleftrightarrow> a = NaN"
  by (cases a) auto

lemma f64_epsilon_finite [simp]: "f64_epsilon \<noteq> NaN"
  by (simp add: f64_epsilon_def)

end
