(* ===== verification/Json.thy ===== *)
theory Json
  imports Float64
begin

text \<open>
  JSON values as the \<open>serde_json\<close> crate represents them with the \<open>preserve_order\<close> feature the
  workspace enables: an object is an insertion-ordered map, here an association list with distinct
  keys. Inserting an existing key replaces its value in place, inserting a new key appends it,
  which is what \<^const>\<open>AList.update\<close> does. Printing and parsing of JSON text belong to that crate
  and are parameters wherever the code needs them.
\<close>

datatype json =
    JNull
  | JBool bool
  | JInt int
  | JFloat f64
  | JString string
  | JArray "json list"
  | JObject "(string \<times> json) list"

fun as_object :: "json \<Rightarrow> (string \<times> json) list option" where
  "as_object (JObject m) = Some m"
| "as_object _ = None"

lemma as_object_Some [simp]: "as_object j = Some m \<longleftrightarrow> j = JObject m"
  by (cases j) auto

text \<open>\<open>json!\<close> of a double gives \<open>null\<close> for what JSON has no number for.\<close>

definition json_of_f64 :: "f64 \<Rightarrow> json" where
  "json_of_f64 f = (case f of Fin _ \<Rightarrow> JFloat f | _ \<Rightarrow> JNull)"

section \<open>Paths in JSON values\<close>

fun json_at :: "string list \<Rightarrow> json \<Rightarrow> json option" where
  "json_at [] j = Some j"
| "json_at (k # ks) (JObject m) = Option.bind (hm_get m k) (json_at ks)"
| "json_at (k # ks) _ = None"

fun is_object :: "json \<Rightarrow> bool" where
  "is_object (JObject _) = True"
| "is_object _ = False"

end
