(* ===== verification/RuleModels.thy ===== *)
theory RuleModels
  imports DataSource Json
begin

text \<open>
  The rule data model of \<open>heramind-rules/src/models.rs\<close>: values, comparison and logical
  operators with their text forms, condition trees and their evaluation, actions, triggers, the
  compiled rule with its runtime state, and the serde helpers for durations and data source ids.

  Three things the code takes from elsewhere are fields of the record \<open>text_env\<close>, an argument of
  the definitions that need them: the decimal text of an \<open>f64\<close>, compiling a regular expression
  (crate \<open>regex\<close>; \<open>None\<close> for a malformed pattern) and matching with a compiled one.
\<close>

record 'r text_env =
  fmt_f64 :: "f64 \<Rightarrow> string"
  regex_new :: "string \<Rightarrow> 'r option"
  regex_is_match :: "'r \<Rightarrow> string \<Rightarrow> bool"

type_synonym rule_id = uuid

section \<open>Values and operators\<close>

datatype rule_value = Number f64 | Text string

fun as_number :: "rule_value \<Rightarrow> f64 option" where
  "as_number (Number v) = Some v"
| "as_number (Text _) = None"

fun as_text :: "rule_value \<Rightarrow> string option" where
  "as_text (Text s) = Some s"
| "as_text (Number _) = None"

datatype comparison_operator =
    GreaterThan | LessThan | GreaterEqual | LessEqual | Equal | NotEqual
  | Contains | StartsWith | EndsWith | Regex

definition op_deserialize :: "string \<Rightarrow> comparison_operator option" where
  "op_deserialize text =
     (let s = to_lowercase text in
      if s \<in> {''>'', ''greater_than'', ''gt''} then Some GreaterThan
      else if s \<in> {''<'', ''less_than'', ''lt''} then Some LessThan
      else if s \<in> {''>='', ''greater_equal'', ''gte'', ''greater_than_or_equal''} then Some GreaterEqual
      else if s \<in> {''<='', ''less_equal'', ''lte'', ''less_than_or_equal''} then Some LessEqual
      else if s \<in> {''=='', ''equal'', ''eq''} then Some Equal
      else if s \<in> {''!='', ''not_equal'', ''ne''} then Some NotEqual
      else if s = ''contains'' then Some Contains
      else if s \<in> {''starts_with'', ''startswith''} then Some StartsWith
      else if s \<in> {''ends_with'', ''endswith''} then Some EndsWith
      else if s \<in> {''regex'', ''matches''} then Some Regex
      else None)"

fun op_evaluate :: "comparison_operator \<Rightarrow> f64 \<Rightarrow> f64 \<Rightarrow> bool" where
  "op_evaluate GreaterThan l r = f64_lt r l"
| "op_evaluate LessThan l r = f64_lt l r"
| "op_evaluate GreaterEqual l r = f64_le r l"
| "op_evaluate LessEqual l r = f64_le l r"
| "op_evaluate Equal l r = f64_lt (f64_abs (f64_sub l r)) f64_epsilon"
| "op_evaluate NotEqual l r = f64_le f64_epsilon (f64_abs (f64_sub l r))"
| "op_evaluate Contains l r = False"
| "op_evaluate StartsWith l r = False"
| "op_evaluate EndsWith l r = False"
| "op_evaluate Regex l r = False"

text \<open>String comparison, first as the code means it, then as it runs: with the process-wide cache
  of compiled patterns, which the second definition threads through.\<close>

fun evaluate_str :: "'r text_env \<Rightarrow> comparison_operator \<Rightarrow> string \<Rightarrow> string \<Rightarrow> bool" where
  "evaluate_str env Equal l r = (l = r)"
| "evaluate_str env NotEqual l r = (l \<noteq> r)"
| "evaluate_str env Contains l r = str_contains l r"
| "evaluate_str env StartsWith l r = starts_with l r"
| "evaluate_str env EndsWith l r = ends_with l r"
| "evaluate_str env Regex l r =
     (case regex_new env r of Some rx \<Rightarrow> regex_is_match env rx l | None \<Rightarrow> False)"
| "evaluate_str env GreaterThan l r = False"
| "evaluate_str env LessThan l r = False"
| "evaluate_str env GreaterEqual l r = False"
| "evaluate_str env LessEqual l r = False"

definition evaluate_str_cached ::
    "'r text_env \<Rightarrow> (string, 'r) hash_map \<Rightarrow> comparison_operator \<Rightarrow> string \<Rightarrow> string
      \<Rightarrow> bool \<times> (string, 'r) hash_map" where
  "evaluate_str_cached env cache op l r =
     (if op \<noteq> Regex then (evaluate_str env op l r, cache)
      else case hm_get cache r of
        Some rx \<Rightarrow> (regex_is_match env rx l, cache)
      | None \<Rightarrow>
          (case regex_new env r of
             Some rx \<Rightarrow> (regex_is_match env rx l, if hm_contains cache r then cache else hm_insert r rx cache)
           | None \<Rightarrow> (False, cache)))"

definition is_string_op :: "comparison_operator \<Rightarrow> bool" where
  "is_string_op op \<longleftrightarrow> op \<in> {Contains, StartsWith, EndsWith, Regex}"

fun symbol :: "comparison_operator \<Rightarrow> string" where
  "symbol GreaterThan = ''>''"
| "symbol LessThan = ''<''"
| "symbol GreaterEqual = ''>=''"
| "symbol LessEqual = ''<=''"
| "symbol Equal = ''==''"
| "symbol NotEqual = ''!=''"
| "symbol Contains = ''contains''"
| "symbol StartsWith = ''starts_with''"
| "symbol EndsWith = ''ends_with''"
| "symbol Regex = ''regex''"

datatype logical_operator = And | Or | Not

definition logical_deserialize :: "string \<Rightarrow> logical_operator option" where
  "logical_deserialize text =
     (let s = to_lowercase text in
      if s = ''and'' then Some And
      else if s = ''or'' then Some Or
      else if s = ''not'' then Some Not
      else None)"

text \<open>\<open>#[serde(rename_all = "snake_case")]\<close> on the serializer.\<close>

fun logical_serialize :: "logical_operator \<Rightarrow> string" where
  "logical_serialize And = ''and''"
| "logical_serialize Or = ''or''"
| "logical_serialize Not = ''not''"

datatype threshold_num_or_bool = TNum f64 | TBool bool

fun deserialize_threshold :: "threshold_num_or_bool \<Rightarrow> f64" where
  "deserialize_threshold (TNum n) = n"
| "deserialize_threshold (TBool b) = (if b then f64_of_int 1 else f64_of_int 0)"

section \<open>Conditions\<close>

datatype rule_condition =
    Comparison data_source_id comparison_operator f64 "string option"
  | Range data_source_id f64 f64
  | Logical logical_operator "rule_condition list"

fun extract_sources :: "rule_condition \<Rightarrow> data_source_id list" where
  "extract_sources (Comparison src _ _ _) = [src]"
| "extract_sources (Range src _ _) = [src]"
| "extract_sources (Logical _ cs) = concat (map extract_sources cs)"

type_synonym value_source = "data_source_id \<Rightarrow> rule_value option"

fun evaluate :: "'r text_env \<Rightarrow> value_source \<Rightarrow> rule_condition \<Rightarrow> bool" where
  "evaluate env get (Comparison src op threshold threshold_value) =
     (case get src of
        Some (Number v) \<Rightarrow> op_evaluate op v threshold
      | Some (Text s) \<Rightarrow>
          (let fallback = fmt_f64 env threshold;
               t = (case threshold_value of Some tv \<Rightarrow> tv | None \<Rightarrow> fallback)
           in evaluate_str env op s t)
      | None \<Rightarrow> False)"
| "evaluate env get (Range src mn mx) =
     (case get src of
        Some rv \<Rightarrow> (case as_number rv of Some v \<Rightarrow> f64_le mn v \<and> f64_le v mx | None \<Rightarrow> False)
      | None \<Rightarrow> False)"
| "evaluate env get (Logical And cs) = list_all (evaluate env get) cs"
| "evaluate env get (Logical Or cs) = list_ex (evaluate env get) cs"
| "evaluate env get (Logical Not cs) = (\<not> list_ex (evaluate env get) cs)"

section \<open>Actions, triggers and rules\<close>

datatype execute_target = TargetDevice | TargetExtension

datatype notify_severity = NInfo | NWarning | NCritical | NEmergency

datatype rule_action =
    Notify string notify_severity
  | Execute string execute_target string json
  | TriggerAgent string "string option" "json option"

fun action_type :: "rule_action \<Rightarrow> string" where
  "action_type (Notify _ _) = ''notify''"
| "action_type (Execute _ _ _ _) = ''execute''"
| "action_type (TriggerAgent _ _ _) = ''trigger_agent''"

datatype rule_trigger =
    DataChange "data_source_id list"
  | Schedule string
  | Manual

definition sources_of :: "rule_condition option \<Rightarrow> data_source_id list" where
  "sources_of c = (case c of Some cond \<Rightarrow> extract_sources cond | None \<Rightarrow> [])"

definition trigger_from_condition :: "rule_condition option \<Rightarrow> rule_trigger" where
  "trigger_from_condition c = DataChange (sources_of c)"

record rule_state =
  trigger_count :: u64
  last_triggered :: "date_time option"
  condition_since :: "date_time option"

definition rule_state_default :: rule_state where
  "rule_state_default = \<lparr>trigger_count = 0, last_triggered = None, condition_since = None\<rparr>"

record compiled_rule =
  rule_id :: uuid
  name :: string
  description :: "string option"
  enabled :: bool
  tags :: "string list"
  trigger :: rule_trigger
  condition :: "rule_condition option"
  actions :: "rule_action list"
  cooldown :: duration
  for_duration :: "duration option"
  state :: rule_state
  dsl_preview :: string
  ui_source :: "json option"
  created_at :: date_time
  updated_at :: date_time

text \<open>\<open>CompiledRule::new\<close>: the fresh id and the current time are arguments.\<close>

definition compiled_rule_new :: "uuid \<Rightarrow> date_time \<Rightarrow> string \<Rightarrow> compiled_rule" where
  "compiled_rule_new fresh now nm =
     \<lparr>rule_id = fresh, name = nm, description = None, enabled = True, tags = [],
      trigger = Manual, condition = None, actions = [], cooldown = from_secs 60,
      for_duration = None, state = rule_state_default, dsl_preview = [], ui_source = None,
      created_at = now, updated_at = now\<rparr>"

record rule_execution_result =
  res_rule_id :: uuid
  res_rule_name :: string
  success :: bool
  actions_executed :: "string list"
  error :: "string option"
  duration_ms :: u64
  triggered_at :: date_time

section \<open>Serde helpers\<close>

definition default_cooldown :: duration where
  "default_cooldown = from_secs 60"

text \<open>\<open>d.as_millis() as u64\<close> keeps the low 64 bits.\<close>

definition serialize_duration :: "duration \<Rightarrow> u64" where
  "serialize_duration d = of_nat (as_millis d)"

definition deserialize_duration :: "u64 \<Rightarrow> duration" where
  "deserialize_duration ms = from_millis (unat ms)"

definition serialize_duration_opt :: "duration option \<Rightarrow> u64 option" where
  "serialize_duration_opt d = map_option (\<lambda>x. of_nat (as_millis x)) d"

definition deserialize_duration_opt :: "u64 option \<Rightarrow> duration option" where
  "deserialize_duration_opt d = map_option (\<lambda>ms. from_millis (unat ms)) d"

text \<open>The \<open>datasource_id_serde\<close> modules: an id is its storage key, a bad key is an error.\<close>

definition ds_serialize :: "data_source_id \<Rightarrow> string" where
  "ds_serialize d = storage_key d"

definition ds_deserialize :: "string \<Rightarrow> (string, data_source_id) rust_result" where
  "ds_deserialize key =
     (case ds_parse key of
        Some d \<Rightarrow> Inr d
      | None \<Rightarrow> Inl (''invalid DataSourceId: '' @ key))"

definition ds_vec_serialize :: "data_source_id list \<Rightarrow> string list" where
  "ds_vec_serialize v = map storage_key v"

fun ds_vec_deserialize :: "string list \<Rightarrow> (string, data_source_id list) rust_result" where
  "ds_vec_deserialize [] = Inr []"
| "ds_vec_deserialize (key # keys) =
     (case ds_deserialize key of
        Inl e \<Rightarrow> Inl e
      | Inr d \<Rightarrow> (case ds_vec_deserialize keys of Inl e \<Rightarrow> Inl e | Inr ds \<Rightarrow> Inr (d # ds)))"

section \<open>Lemmas\<close>

lemma evaluate_cong:
  "(\<forall>d \<in> set (extract_sources c). p d = q d) \<Longrightarrow> evaluate env p c = evaluate env q c"
proof (induction c)
  case (Logical op cs)
  then have "\<forall>c \<in> set cs. evaluate env p c = evaluate env q c" by fastforce
  then show ?case by (cases op) (auto simp: list_all_iff list_ex_iff)
qed auto

text \<open>Conditions without a NOT, the ones whose verdict can only be helped by more data.\<close>

fun not_free :: "rule_condition \<Rightarrow> bool" where
  "not_free (Comparison _ _ _ _) = True"
| "not_free (Range _ _ _) = True"
| "not_free (Logical op cs) = (op \<noteq> Not \<and> list_all not_free cs)"

lemma evaluate_mono:
  assumes "p \<subseteq>\<^sub>m q"
  shows "not_free c \<Longrightarrow> evaluate env p c \<Longrightarrow> evaluate env q c"
proof (induction c)
  case (Comparison src op t tv)
  then show ?case using assms
    by (cases "p src") (auto simp: map_le_def dom_def)
next
  case (Range src a b)
  then show ?case using assms
    by (cases "p src") (auto simp: map_le_def dom_def)
next
  case (Logical op cs)
  then show ?case
    by (cases op) (auto simp: list_all_iff list_ex_iff)
qed

lemma evaluate_missing_leaf:
  "get src = None \<Longrightarrow> \<not> evaluate env get (Comparison src op t tv) \<and> \<not> evaluate env get (Range src a b)"
  by simp

definition cache_coherent :: "'r text_env \<Rightarrow> (string, 'r) hash_map \<Rightarrow> bool" where
  "cache_coherent env cache \<longleftrightarrow> (\<forall>p rx. hm_get cache p = Some rx \<longrightarrow> regex_new env p = Some rx)"

lemma op_deserialize_symbol: "op_deserialize (symbol op) = Some op"
  by (cases op; simp only: symbol.simps; code_simp)

lemma op_deserialize_lower: "op_deserialize (to_lowercase s) = op_deserialize s"
  by (simp add: op_deserialize_def)

lemma serialize_duration_unat:
  "as_millis d < 2 ^ 64 \<Longrightarrow> unat (serialize_duration d) = as_millis d"
  by (simp add: serialize_duration_def unat_of_nat)

lemma ds_vec_round_trip:
  "list_all colon_free v \<Longrightarrow> ds_vec_deserialize (ds_vec_serialize v) = Inr v"
  by (induction v) (auto simp: ds_vec_serialize_def ds_deserialize_def parse_of_storage_key)

section \<open>Properties\<close>

text \<open>The verdict of a condition depends only on the data sources it mentions: two value
  providers that agree on the extracted sources give the same verdict. This is what makes an index
  from sources to rules sufficient for re-evaluation.\<close>

lemma evaluate_depends_on_sources:
  assumes "\<forall>d \<in> set (extract_sources c). get d = get' d"
  shows "evaluate env get c = evaluate env get' c"
  using assms by (rule evaluate_cong)

definition example_env :: "unit text_env" where
  "example_env = \<lparr>fmt_f64 = (\<lambda>_. ''0''), regex_new = (\<lambda>p. if p = ''a+'' then Some () else None),
     regex_is_match = (\<lambda>_ s. CHR ''a'' \<in> set s)\<rparr>"

text \<open>A condition without NOT is monotone in the available data: if it holds, it still holds
  when sources that had no value get one. Missing data can therefore withhold an alarm of such a
  rule but never raise one.\<close>

lemma evaluate_monotone:
  assumes "not_free c" and "get \<subseteq>\<^sub>m get'" and "evaluate env get c"
  shows "evaluate env get' c"
  using evaluate_mono [OF assms(2) assms(1) assms(3)] .

text \<open>Numeric equality with tolerance is symmetric, and the NOT EQUAL operator is its exact
  complement unless the difference is not a number (a NaN operand, or two equal infinities), in
  which case both operators are false.\<close>

lemma numeric_equality_complement:
  "op_evaluate Equal l r = op_evaluate Equal r l
   \<and> op_evaluate NotEqual l r = (\<not> op_evaluate Equal l r \<and> \<not> is_nan (f64_sub l r))"
proof
  show "op_evaluate Equal l r = op_evaluate Equal r l"
    by (simp add: f64_abs_sub_commute [of l r])
  show "op_evaluate NotEqual l r = (\<not> op_evaluate Equal l r \<and> \<not> is_nan (f64_sub l r))"
    using f64_not_lt_iff [of "f64_abs (f64_sub l r)" f64_epsilon]
    by (cases "f64_sub l r = NaN") (simp_all add: is_nan_def)
qed

text \<open>The symbol each operator is serialized with deserializes to the same operator, and
  deserialization ignores the case of the text.\<close>

lemma operator_text_round_trip:
  "op_deserialize (symbol op) = Some op \<and> op_deserialize (to_lowercase s) = op_deserialize s"
  by (simp add: op_deserialize_symbol op_deserialize_lower)

text \<open>The process-wide cache of compiled patterns is transparent: starting from a cache whose
  entries are the compilations of their keys, string comparison gives the same verdict as without
  a cache and leaves such a cache behind.\<close>

lemma regex_cache_transparent:
  assumes "cache_coherent env cache"
  shows "fst (evaluate_str_cached env cache op l r) = evaluate_str env op l r
    \<and> cache_coherent env (snd (evaluate_str_cached env cache op l r))"
proof (cases "hm_get cache r")
  case None
  then show ?thesis
    using assms by (auto simp: evaluate_str_cached_def cache_coherent_def split: option.splits)
next
  case (Some rx)
  with assms have "regex_new env r = Some rx" by (simp add: cache_coherent_def)
  with Some assms show ?thesis by (auto simp: evaluate_str_cached_def)
qed

text \<open>A duration written to JSON and read back is truncated to whole milliseconds, for every
  duration below 2 to the 64 milliseconds.\<close>

lemma duration_round_trip:
  assumes "as_millis d < 2 ^ 64"
  shows "deserialize_duration (serialize_duration d) = d - d mod 1000000"
proof -
  have "deserialize_duration (serialize_duration d) = d div 1000000 * 1000000"
    using serialize_duration_unat [OF assms] by (simp add: deserialize_duration_def from_millis_def as_millis_def)
  then show ?thesis by (simp add: minus_mod_eq_div_mult)
qed

end
