(* ===== verification/ValueProvider.thy ===== *)
theory ValueProvider
  imports RuleModels
begin

text \<open>
  The value providers rules are evaluated against: \<open>InMemoryValueProvider\<close> of
  \<open>heramind-rules/src/engine.rs\<close> and \<open>UnifiedValueProvider\<close> of
  \<open>heramind-rules/src/unified_provider.rs\<close>, a bounded cache of last known values with an optional
  time to live. The trait \<open>ValueProvider\<close> is the locale \<open>value_provider\<close>; both providers interpret
  it. Clock readings (milliseconds since the epoch) are arguments.
\<close>

section \<open>The in-memory provider\<close>

type_synonym in_memory_provider = "(string, rule_value) hash_map"

definition mem_new :: in_memory_provider where
  "mem_new = []"

definition mem_set_value :: "string \<Rightarrow> f64 \<Rightarrow> in_memory_provider \<Rightarrow> in_memory_provider" where
  "mem_set_value source_key v p = hm_insert source_key (Number v) p"

definition mem_set_string_value :: "string \<Rightarrow> string \<Rightarrow> in_memory_provider \<Rightarrow> in_memory_provider" where
  "mem_set_string_value source_key v p = hm_insert source_key (Text v) p"

definition mem_get_by_source :: "in_memory_provider \<Rightarrow> data_source_id \<Rightarrow> rule_value option" where
  "mem_get_by_source p src = hm_get p (storage_key src)"

section \<open>The unified provider\<close>

record cache_entry =
  ce_value :: rule_value
  ce_timestamp :: int
  ttl_ms :: u64

definition cache_entry_new :: "int \<Rightarrow> rule_value \<Rightarrow> u64 \<Rightarrow> cache_entry" where
  "cache_entry_new now v ttl = \<lparr>ce_value = v, ce_timestamp = now, ttl_ms = ttl\<rparr>"

text \<open>\<open>ttl_ms as i64\<close> reinterprets the bits, hence \<^const>\<open>sint\<close>.\<close>

definition is_expired :: "int \<Rightarrow> cache_entry \<Rightarrow> bool" where
  "is_expired now e = (if ttl_ms e = 0 then False else now - ce_timestamp e > sint (ttl_ms e))"

definition MAX_CACHE_ENTRIES :: nat where
  "MAX_CACHE_ENTRIES = 4096"

type_synonym cache_key = "string \<times> string \<times> string"

record unified_value_provider =
  cache :: "(cache_key, cache_entry) hash_map"
  default_ttl_ms :: u64

definition uvp_new :: unified_value_provider where
  "uvp_new = \<lparr>cache = [], default_ttl_ms = 0\<rparr>"

definition with_ttl :: "u64 \<Rightarrow> unified_value_provider \<Rightarrow> unified_value_provider" where
  "with_ttl ttl p = p\<lparr>default_ttl_ms := ttl\<rparr>"

text \<open>\<open>Iterator::min_by_key\<close>: the first of the minimal elements.\<close>

fun min_by_key :: "('a \<Rightarrow> 'b::linorder) \<Rightarrow> 'a list \<Rightarrow> 'a option" where
  "min_by_key f [] = None"
| "min_by_key f (x # xs) =
     (case min_by_key f xs of None \<Rightarrow> Some x | Some y \<Rightarrow> if f y < f x then Some y else Some x)"

definition evict_oldest :: "(cache_key, cache_entry) hash_map \<Rightarrow> (cache_key, cache_entry) hash_map" where
  "evict_oldest m =
     (case min_by_key (\<lambda>(_, e). ce_timestamp e) m of
        None \<Rightarrow> m
      | Some (k, _) \<Rightarrow> hm_remove k m)"

definition update_rule_value_with_ttl ::
    "int \<Rightarrow> string \<Rightarrow> string \<Rightarrow> string \<Rightarrow> rule_value \<Rightarrow> u64
      \<Rightarrow> unified_value_provider \<Rightarrow> unified_value_provider" where
  "update_rule_value_with_ttl now st sid metric v ttl p =
     (let c = hm_insert (st, sid, metric) (cache_entry_new now v ttl) (cache p)
      in p\<lparr>cache := (if length c > MAX_CACHE_ENTRIES then evict_oldest c else c)\<rparr>)"

definition update_rule_value ::
    "int \<Rightarrow> string \<Rightarrow> string \<Rightarrow> string \<Rightarrow> rule_value
      \<Rightarrow> unified_value_provider \<Rightarrow> unified_value_provider" where
  "update_rule_value now st sid metric v p =
     update_rule_value_with_ttl now st sid metric v (default_ttl_ms p) p"

definition update_value ::
    "int \<Rightarrow> string \<Rightarrow> string \<Rightarrow> string \<Rightarrow> f64 \<Rightarrow> unified_value_provider \<Rightarrow> unified_value_provider" where
  "update_value now st sid metric v p = update_rule_value now st sid metric (Number v) p"

definition update_string_value ::
    "int \<Rightarrow> string \<Rightarrow> string \<Rightarrow> string \<Rightarrow> string \<Rightarrow> unified_value_provider \<Rightarrow> unified_value_provider" where
  "update_string_value now st sid metric v p = update_rule_value now st sid metric (Text v) p"

definition update_from_data_source_id ::
    "int \<Rightarrow> data_source_id \<Rightarrow> f64 \<Rightarrow> unified_value_provider \<Rightarrow> unified_value_provider" where
  "update_from_data_source_id now d v p =
     update_value now (type_part (source_type d)) (source_id d) (field_path d) v p"

definition update_string_from_data_source_id ::
    "int \<Rightarrow> data_source_id \<Rightarrow> string \<Rightarrow> unified_value_provider \<Rightarrow> unified_value_provider" where
  "update_string_from_data_source_id now d v p =
     update_string_value now (type_part (source_type d)) (source_id d) (field_path d) v p"

definition update_device_value ::
    "int \<Rightarrow> string \<Rightarrow> string \<Rightarrow> f64 \<Rightarrow> unified_value_provider \<Rightarrow> unified_value_provider" where
  "update_device_value now device_id metric v p = update_value now ''device'' device_id metric v p"

definition update_extension_value ::
    "int \<Rightarrow> string \<Rightarrow> string \<Rightarrow> f64 \<Rightarrow> unified_value_provider \<Rightarrow> unified_value_provider" where
  "update_extension_value now extension_id metric v p = update_value now ''extension'' extension_id metric v p"

definition update_extension_command_value ::
    "int \<Rightarrow> string \<Rightarrow> string \<Rightarrow> string \<Rightarrow> f64 \<Rightarrow> unified_value_provider \<Rightarrow> unified_value_provider" where
  "update_extension_command_value now extension_id command field v p =
     update_value now ''extension'' extension_id (command @ ''.'' @ field) v p"

definition get_source_values ::
    "int \<Rightarrow> string \<Rightarrow> string \<Rightarrow> unified_value_provider \<Rightarrow> (string, rule_value) hash_map" where
  "get_source_values now st sid p =
     map (\<lambda>((_, _, m), e). (m, ce_value e))
       (filter (\<lambda>(_, e). \<not> is_expired now e)
         (filter (\<lambda>((t, i, _), _). t = st \<and> i = sid) (cache p)))"

definition get_device_values ::
    "int \<Rightarrow> string \<Rightarrow> unified_value_provider \<Rightarrow> (string, rule_value) hash_map" where
  "get_device_values now device_id p = get_source_values now ''device'' device_id p"

definition get_extension_values ::
    "int \<Rightarrow> string \<Rightarrow> unified_value_provider \<Rightarrow> (string, rule_value) hash_map" where
  "get_extension_values now extension_id p = get_source_values now ''extension'' extension_id p"

definition cache_key_of :: "data_source_id \<Rightarrow> cache_key" where
  "cache_key_of d = (type_part (source_type d), source_id d, field_path d)"

definition get_by_source :: "int \<Rightarrow> unified_value_provider \<Rightarrow> data_source_id \<Rightarrow> rule_value option" where
  "get_by_source now p src =
     (case hm_get (cache p) (cache_key_of src) of
        Some e \<Rightarrow> if \<not> is_expired now e then Some (ce_value e) else None
      | None \<Rightarrow> None)"

text \<open>Writing a value of either kind through a data source id.\<close>

fun write_source :: "int \<Rightarrow> data_source_id \<Rightarrow> rule_value \<Rightarrow> unified_value_provider \<Rightarrow> unified_value_provider" where
  "write_source now d (Number v) p = update_from_data_source_id now d v p"
| "write_source now d (Text v) p = update_string_from_data_source_id now d v p"

fun mem_write_source :: "data_source_id \<Rightarrow> rule_value \<Rightarrow> in_memory_provider \<Rightarrow> in_memory_provider" where
  "mem_write_source d (Number v) p = mem_set_value (storage_key d) v p"
| "mem_write_source d (Text v) p = mem_set_string_value (storage_key d) v p"

section \<open>The provider interface\<close>

text \<open>A provider reads values by data source id and accepts writes; \<open>slot\<close> is the place a source is
  kept at and \<open>room\<close> says that a write needs no eviction and does not expire at once.\<close>

locale value_provider =
  fixes read :: "'p \<Rightarrow> data_source_id \<Rightarrow> rule_value option"
    and wr :: "data_source_id \<Rightarrow> rule_value \<Rightarrow> 'p \<Rightarrow> 'p"
    and slot :: "data_source_id \<Rightarrow> 'k"
    and room :: "'p \<Rightarrow> data_source_id \<Rightarrow> bool"
  assumes read_same: "room p d \<Longrightarrow> read (wr d v p) d = Some v"
    and read_other: "room p d \<Longrightarrow> slot e \<noteq> slot d \<Longrightarrow> read (wr d v p) e = read p e"
begin

lemma verdict_unaffected:
  assumes "room p d" and "slot d \<notin> slot ` set (extract_sources c)"
  shows "evaluate env (read (wr d v p)) c = evaluate env (read p) c"
proof (rule evaluate_cong, rule ballI)
  fix e assume "e \<in> set (extract_sources c)"
  with assms(2) have "slot e \<noteq> slot d" by (metis imageI)
  with assms(1) show "read (wr d v p) e = read p e" by (rule read_other)
qed

lemma verdict_of_written:
  assumes "room p d"
  shows "evaluate env (read (wr d (Number x) p)) (Comparison d op t tv) = op_evaluate op x t"
  using read_same [OF assms, of "Number x"] by simp

end

section \<open>Lemmas on the cache\<close>

lemma min_by_key_in_set: "min_by_key f xs = Some x \<Longrightarrow> x \<in> set xs"
  by (induction xs arbitrary: x) (auto split: option.splits if_splits)

lemma min_by_key_None_iff [simp]: "min_by_key f xs = None \<longleftrightarrow> xs = []"
  by (cases xs) (auto split: option.splits)

lemma min_by_key_le: "min_by_key f xs = Some x \<Longrightarrow> y \<in> set xs \<Longrightarrow> f x \<le> f y"
  by (induction xs arbitrary: x) (force split: option.splits if_splits)+

lemma evict_oldest_wf [simp]: "hm_wf m \<Longrightarrow> hm_wf (evict_oldest m)"
  by (auto simp: evict_oldest_def split: option.splits)

lemma evict_oldest_length: "m \<noteq> [] \<Longrightarrow> length (evict_oldest m) < length m"
proof -
  assume "m \<noteq> []"
  then obtain k e where ke: "min_by_key (\<lambda>(_, e). ce_timestamp e) m = Some (k, e)"
    by (cases "min_by_key (\<lambda>(_, e). ce_timestamp e) m") auto
  then have "k \<in> fst ` set m" by (metis min_by_key_in_set fst_conv imageI)
  with ke show ?thesis by (simp add: evict_oldest_def hm_length_remove_less)
qed

lemma evict_oldest_keeps_newer:
  assumes wf: "hm_wf m" and e: "hm_get m k = Some e"
    and older: "hm_get m k' = Some e'" "ce_timestamp e' < ce_timestamp e"
  shows "hm_get (evict_oldest m) k = Some e"
proof -
  from older have "m \<noteq> []" by auto
  then obtain j d where jd: "min_by_key (\<lambda>(_, e). ce_timestamp e) m = Some (j, d)"
    by (cases "min_by_key (\<lambda>(_, e). ce_timestamp e) m") auto
  from min_by_key_le [OF jd map_of_SomeD [OF older(1)]] older(2)
  have "ce_timestamp d < ce_timestamp e" by simp
  moreover have "hm_get m j = Some d"
    using min_by_key_in_set [OF jd] wf by simp
  ultimately have "j \<noteq> k" using e by auto
  with jd e show ?thesis by (simp add: evict_oldest_def)
qed

lemma update_rule_value_with_ttl_cache:
  "cache (update_rule_value_with_ttl now st sid m v ttl p) =
     (let c = hm_insert (st, sid, m) (cache_entry_new now v ttl) (cache p)
      in if length c > MAX_CACHE_ENTRIES then evict_oldest c else c)"
  by (simp add: update_rule_value_with_ttl_def Let_def)

definition uvp_inv :: "unified_value_provider \<Rightarrow> bool" where
  "uvp_inv p \<longleftrightarrow> hm_wf (cache p) \<and> length (cache p) \<le> MAX_CACHE_ENTRIES"

lemma uvp_inv_new: "uvp_inv uvp_new"
  by (simp add: uvp_inv_def uvp_new_def MAX_CACHE_ENTRIES_def)

lemma uvp_inv_update:
  assumes "uvp_inv p"
  shows "uvp_inv (update_rule_value_with_ttl now st sid m v ttl p)"
proof -
  let ?c = "hm_insert (st, sid, m) (cache_entry_new now v ttl) (cache p)"
  have wf: "hm_wf ?c" using assms by (simp add: uvp_inv_def)
  have len: "length ?c \<le> Suc MAX_CACHE_ENTRIES"
    using assms by (simp add: uvp_inv_def hm_length_insert)
  have "length (evict_oldest ?c) \<le> MAX_CACHE_ENTRIES" if "length ?c > MAX_CACHE_ENTRIES"
    using evict_oldest_length [of ?c] that len by fastforce
  with wf show ?thesis
    by (auto simp: uvp_inv_def update_rule_value_with_ttl_cache Let_def)
qed

text \<open>Room for a source: its slot is there already or the cache is below its cap, and the time to
  live is not negative as an \<open>i64\<close>.\<close>

definition uvp_room :: "unified_value_provider \<Rightarrow> data_source_id \<Rightarrow> bool" where
  "uvp_room p d \<longleftrightarrow>
     (hm_contains (cache p) (cache_key_of d) \<and> length (cache p) \<le> MAX_CACHE_ENTRIES
      \<or> length (cache p) < MAX_CACHE_ENTRIES)
     \<and> 0 \<le> sint (default_ttl_ms p)"

lemma write_source_cache:
  "uvp_room p d \<Longrightarrow>
   cache (write_source now d v p) =
     hm_insert (cache_key_of d) (cache_entry_new now v (default_ttl_ms p)) (cache p)"
  by (cases v) (auto simp: update_from_data_source_id_def update_string_from_data_source_id_def
      update_value_def update_string_value_def update_rule_value_def update_rule_value_with_ttl_def
      cache_key_of_def uvp_room_def hm_length_insert Let_def)

lemma cache_key_of_inject [simp]: "cache_key_of d = cache_key_of e \<longleftrightarrow> d = e"
  by (cases d; cases e) (auto simp: cache_key_of_def)

interpretation mem: value_provider mem_get_by_source mem_write_source storage_key "\<lambda>_ _. True"
proof unfold_locales
  show "mem_get_by_source (mem_write_source d v p) d = Some v" for p d v
    by (cases v) (simp_all add: mem_get_by_source_def mem_set_value_def mem_set_string_value_def)
  show "mem_get_by_source (mem_write_source d v p) e = mem_get_by_source p e"
    if "storage_key e \<noteq> storage_key d" for p d e v
    using that by (cases v) (simp_all add: mem_get_by_source_def mem_set_value_def mem_set_string_value_def)
qed

interpretation uni: value_provider "get_by_source now" "write_source now" cache_key_of uvp_room for now
proof unfold_locales
  show "get_by_source now (write_source now d v p) d = Some v" if "uvp_room p d" for p d v
    using that by (simp add: get_by_source_def write_source_cache is_expired_def cache_entry_new_def uvp_room_def)
  show "get_by_source now (write_source now d v p) e = get_by_source now p e"
    if "uvp_room p d" "cache_key_of e \<noteq> cache_key_of d" for p d e v
    using that by (simp add: get_by_source_def write_source_cache)
qed

section \<open>Properties\<close>

text \<open>One update of the provider, and a run of updates.\<close>

type_synonym cache_update = "int \<times> cache_key \<times> rule_value \<times> u64"

fun run_updates :: "cache_update list \<Rightarrow> unified_value_provider \<Rightarrow> unified_value_provider" where
  "run_updates [] p = p"
| "run_updates ((now, (st, sid, m), v, ttl) # us) p =
     run_updates us (update_rule_value_with_ttl now st sid m v ttl p)"

lemma run_updates_inv: "uvp_inv p \<Longrightarrow> uvp_inv (run_updates us p)"
  by (induction us p rule: run_updates.induct) (auto intro: uvp_inv_update)

text \<open>However many updates arrive, for however many distinct sources, a provider that starts
  empty never caches more than the fixed number of entries, and never two entries for one key.\<close>

lemma cache_bounded:
  "length (cache (run_updates us uvp_new)) \<le> MAX_CACHE_ENTRIES
   \<and> distinct (map fst (cache (run_updates us uvp_new)))"
  using run_updates_inv [OF uvp_inv_new, of us] by (simp add: uvp_inv_def)

text \<open>Read your write: a value written when every cached entry is older, even if the write had
  to evict an entry, is read back at any later time until its time to live has passed, and for
  ever when the time to live is zero.\<close>

lemma read_your_write:
  assumes "uvp_inv p" and "\<forall>e \<in> snd ` set (cache p). ce_timestamp e < now"
  shows "get_by_source t (update_rule_value_with_ttl now (type_part (source_type d)) (source_id d) (field_path d) v ttl p) d
    = (if ttl = 0 \<or> t - now \<le> sint ttl then Some v else None)"
proof -
  let ?k = "cache_key_of d" and ?e = "cache_entry_new now v ttl"
  let ?c = "hm_insert ?k ?e (cache p)"
  have "hm_get (if length ?c > MAX_CACHE_ENTRIES then evict_oldest ?c else ?c) ?k = Some ?e"
  proof (cases "length ?c > MAX_CACHE_ENTRIES")
    case True
    then have new: "?k \<notin> fst ` set (cache p)" and "cache p \<noteq> []"
      using assms(1) by (auto simp: uvp_inv_def hm_length_insert MAX_CACHE_ENTRIES_def split: if_splits)
    then obtain k' e' where k': "(k', e') \<in> set (cache p)" by (cases "cache p") auto
    with assms(1) new have "hm_get ?c k' = Some e'" "k' \<noteq> ?k"
      by (auto simp: uvp_inv_def image_iff)
    moreover have "ce_timestamp e' < ce_timestamp ?e"
      using assms(2) k' by (force simp: cache_entry_new_def)
    ultimately have "hm_get (evict_oldest ?c) ?k = Some ?e"
      using assms(1) by (intro evict_oldest_keeps_newer [of _ _ _ k' e']) (auto simp: uvp_inv_def)
    with True show ?thesis by simp
  next
    case False
    then show ?thesis by simp
  qed
  then show ?thesis
    by (auto simp: get_by_source_def update_rule_value_with_ttl_cache Let_def cache_key_of_def
        is_expired_def cache_entry_new_def)
qed

text \<open>Writing one source changes the verdict of no condition that does not mention it, as long
  as the write needs no eviction.\<close>

lemma write_leaves_other_conditions:
  assumes "uvp_room p d" and "d \<notin> set (extract_sources c)"
  shows "evaluate env (get_by_source now (write_source now d v p)) c = evaluate env (get_by_source now p) c"
  by (rule uni.verdict_unaffected [OF assms(1)]) (use assms(2) in \<open>auto simp: image_iff\<close>)

end
