(* ===== verification/RuleActions.thy ===== *)
theory RuleActions
  imports RuleModels
begin

text \<open>
  The executors rule actions use: \<open>DeviceActionExecutor\<close> of \<open>device_integration.rs\<close>, which retries a
  device command with exponential backoff, and \<open>ExtensionActionExecutor\<close> of
  \<open>extension_integration.rs\<close>. The device service and the extension registry answer as functions of
  the call; the device service may answer each attempt differently, so its answer also depends on
  the number of the attempt. \<open>f64::powi\<close>, whose precision Rust leaves unspecified, is a parameter.
\<close>

section \<open>Device commands\<close>

record retry_config =
  max_retries :: u32
  initial_delay_ms :: u64
  backoff_multiplier :: f64
  max_delay_ms :: u64

definition retry_config_default :: retry_config where
  "retry_config_default =
     \<lparr>max_retries = 3, initial_delay_ms = 1000, backoff_multiplier = f64_of_int 2, max_delay_ms = 10000\<rparr>"

definition delay_for_attempt :: "(f64 \<Rightarrow> int \<Rightarrow> f64) \<Rightarrow> retry_config \<Rightarrow> nat \<Rightarrow> duration" where
  "delay_for_attempt pow_int cfg attempt =
     (if attempt = 0 then from_millis 0
      else
        let delay_ms = f64_as_u64 (f64_min
              (f64_mul (f64_of_int (uint (initial_delay_ms cfg))) (pow_int (backoff_multiplier cfg) (int attempt - 1)))
              (f64_of_int (uint (max_delay_ms cfg))))
        in from_millis delay_ms)"

type_synonym params = "(string, json) hash_map"

type_synonym device_service = "nat \<Rightarrow> string \<Rightarrow> string \<Rightarrow> params \<Rightarrow> (string, json option) rust_result"

record device_action_executor =
  de_device_service :: "device_service option"
  de_retry_config :: retry_config

definition with_device_service :: "device_service \<Rightarrow> device_action_executor" where
  "with_device_service svc = \<lparr>de_device_service = Some svc, de_retry_config = retry_config_default\<rparr>"

definition is_error_retryable :: "string \<Rightarrow> bool" where
  "is_error_retryable err =
     (let e = to_lowercase err
      in \<not> (str_contains e ''not found'' \<or> str_contains e ''invalid parameter''
            \<or> str_contains e ''permission denied'' \<or> str_contains e ''unauthorized''))"

text \<open>The loop: \<open>left\<close> attempts remain, the next one is number \<open>attempt\<close>. The first component of the
  result lists the delays slept and so counts the calls made.\<close>

fun retry_loop ::
    "(nat \<Rightarrow> duration) \<Rightarrow> (nat \<Rightarrow> (string, 'v) rust_result) option \<Rightarrow> nat \<Rightarrow> nat \<Rightarrow> string
      \<Rightarrow> duration list \<times> (string, 'v) rust_result" where
  "retry_loop delay svc 0 attempt last_error = ([], Inl last_error)"
| "retry_loop delay svc (Suc left) attempt last_error =
     (let slept = (if attempt > 0 then delay attempt else 0) in
      case svc of
        None \<Rightarrow> ([slept], Inl ''No device service configured'')
      | Some send \<Rightarrow>
          (case send attempt of
             Inr r \<Rightarrow> ([slept], Inr r)
           | Inl e \<Rightarrow>
               if \<not> is_error_retryable e then ([slept], Inl e)
               else let (ds, res) = retry_loop delay svc left (Suc attempt) e in (slept # ds, res)))"

text \<open>\<open>max_retries + 1\<close> is computed at 32 bits.\<close>

definition execute_command_with_retry ::
    "(f64 \<Rightarrow> int \<Rightarrow> f64) \<Rightarrow> device_action_executor \<Rightarrow> string \<Rightarrow> string \<Rightarrow> params
      \<Rightarrow> duration list \<times> (string, json option) rust_result" where
  "execute_command_with_retry pow_int ex device_id command ps =
     retry_loop (delay_for_attempt pow_int (de_retry_config ex))
       (map_option (\<lambda>svc attempt. svc attempt device_id command ps) (de_device_service ex))
       (unat (max_retries (de_retry_config ex) + 1)) 0 []"

section \<open>Extension commands\<close>

record extension_command_action =
  ea_extension_id :: string
  ea_command :: string
  ea_args :: json
  ea_timeout_ms :: "u64 option"

definition extension_command_action_new :: "string \<Rightarrow> string \<Rightarrow> extension_command_action" where
  "extension_command_action_new ext cmd =
     \<lparr>ea_extension_id = ext, ea_command = cmd, ea_args = JObject [], ea_timeout_ms = None\<rparr>"

definition with_args :: "json \<Rightarrow> extension_command_action \<Rightarrow> extension_command_action" where
  "with_args a x = x\<lparr>ea_args := a\<rparr>"

definition with_timeout :: "u64 \<Rightarrow> extension_command_action \<Rightarrow> extension_command_action" where
  "with_timeout t x = x\<lparr>ea_timeout_ms := Some t\<rparr>"

text \<open>\<open>xr_execute\<close> answers with the time the command takes; a command that takes longer than the
  timeout is abandoned.\<close>

record extension_registry =
  xr_has_extension :: "string \<Rightarrow> bool"
  xr_execute :: "string \<Rightarrow> string \<Rightarrow> json \<Rightarrow> duration \<times> (string, json) rust_result"

record execution_result =
  xe_success :: bool
  xe_extension_id :: string
  xe_command :: string
  xe_result :: json
  xe_duration_ms :: nat
  xe_error :: "string option"

definition extension_execute ::
    "extension_registry \<Rightarrow> extension_command_action \<Rightarrow> (string, execution_result) rust_result" where
  "extension_execute reg a =
     (if \<not> xr_has_extension reg (ea_extension_id a)
      then Inl (''Extension not found: '' @ ea_extension_id a)
      else
        let (took, answer) = xr_execute reg (ea_extension_id a) (ea_command a) (ea_args a);
            result = (case ea_timeout_ms a of
                        Some ms \<Rightarrow>
                          if took > from_millis (unat ms)
                          then Inl (''Command timed out after '' @ show_nat (unat ms) @ ''ms'') else answer
                      | None \<Rightarrow> answer)
        in and_then result (\<lambda>v.
           Inr \<lparr>xe_success = True, xe_extension_id = ea_extension_id a, xe_command = ea_command a,
                xe_result = v, xe_duration_ms = as_millis took, xe_error = None\<rparr>))"

section \<open>Lemmas\<close>

text \<open>The attempt at which the loop stops: the first that does not fail retryably.\<close>

definition stops_at :: "(nat \<Rightarrow> (string, 'v) rust_result) \<Rightarrow> nat \<Rightarrow> nat \<Rightarrow> bool" where
  "stops_at send i j \<longleftrightarrow> (\<forall>k. i \<le> k \<and> k < j \<longrightarrow> (\<exists>e. send k = Inl e \<and> is_error_retryable e))
     \<and> (\<forall>e. send j = Inl e \<longrightarrow> \<not> is_error_retryable e)"

lemma retry_loop_stops:
  assumes "stops_at send i j" "i \<le> j" "j < i + left"
  shows "retry_loop delay (Some send) left i err = (map (\<lambda>k. if k > 0 then delay k else 0) [i..<Suc j], send j)"
  using assms
proof (induction left arbitrary: i err)
  case (Suc left)
  show ?case
  proof (cases "i = j")
    case True
    with Suc.prems show ?thesis by (cases "send j") (auto simp: stops_at_def)
  next
    case False
    with Suc.prems obtain e where e: "send i = Inl e" "is_error_retryable e" by (force simp: stops_at_def)
    have "stops_at send (Suc i) j" using Suc.prems(1) by (auto simp: stops_at_def)
    then have "retry_loop delay (Some send) left (Suc i) e = (map (\<lambda>k. if k > 0 then delay k else 0) [Suc i..<Suc j], send j)"
      using Suc.IH Suc.prems False by simp
    with e Suc.prems False show ?thesis by (simp add: upt_conv_Cons [of i "Suc j"] del: upt_Suc)
  qed
qed simp

lemma retry_loop_exhausted:
  assumes "\<forall>k. i \<le> k \<and> k < i + left \<longrightarrow> (\<exists>e. send k = Inl e \<and> is_error_retryable e)"
  shows "retry_loop delay (Some send) left i err =
    (map (\<lambda>k. if k > 0 then delay k else 0) [i..<i + left], if left = 0 then Inl err else send (i + left - 1))"
  using assms
proof (induction left arbitrary: i err)
  case (Suc left)
  obtain e where e: "send i = Inl e" "is_error_retryable e" using Suc.prems by force
  have "retry_loop delay (Some send) left (Suc i) e =
    (map (\<lambda>k. if k > 0 then delay k else 0) [Suc i..<Suc i + left], if left = 0 then Inl e else send (Suc i + left - 1))"
    using Suc.IH Suc.prems by simp
  with e show ?case by (simp add: upt_conv_Cons [of i "Suc (i + left)"] del: upt_Suc)
qed simp

section \<open>Properties\<close>

text \<open>A device command that works at attempt \<open>j\<close>, all earlier attempts having failed with errors that
  are worth retrying, returns the result of attempt \<open>j\<close> after exactly \<open>j + 1\<close> calls, as long as \<open>j\<close> is
  within the configured number of retries; and an error that is not worth retrying ends the loop at
  once. The delays slept are those of the backoff formula.\<close>

lemma retry_first_answer:
  assumes "de_device_service ex = Some svc" and "max_retries (de_retry_config ex) = n" and "n \<noteq> - 1" and "j \<le> unat n"
    and "stops_at (\<lambda>k. svc k dev cmd ps) 0 j"
  shows "execute_command_with_retry pow_int ex dev cmd ps =
    (map (\<lambda>k. if k > 0 then delay_for_attempt pow_int (de_retry_config ex) k else 0) [0..<Suc j], svc j dev cmd ps)"
proof -
  have "n + 1 \<noteq> 0" using assms(3) by (metis add.inverse_unique add.commute)
  then have "unat (n + 1) = unat n + 1" by (metis add.commute unatSuc Suc_eq_plus1)
  with assms show ?thesis
    by (simp add: execute_command_with_retry_def retry_loop_stops [where j = j] del: upt_Suc retry_loop.simps)
qed

text \<open>The number of calls is bounded: if every attempt fails with an error worth retrying, the
  command is tried exactly \<open>max_retries + 1\<close> times and the last error is returned.\<close>

lemma retry_exhausted:
  assumes "de_device_service ex = Some svc" and "max_retries (de_retry_config ex) = n" and "n \<noteq> - 1"
    and "\<forall>k. k \<le> unat n \<longrightarrow> (\<exists>e. svc k dev cmd ps = Inl e \<and> is_error_retryable e)"
  shows "length (fst (execute_command_with_retry pow_int ex dev cmd ps)) = unat n + 1
    \<and> snd (execute_command_with_retry pow_int ex dev cmd ps) = svc (unat n) dev cmd ps"
proof -
  have "n + 1 \<noteq> 0" using assms(3) by (metis add.inverse_unique add.commute)
  then have "unat (n + 1) = unat n + 1" by (metis add.commute unatSuc Suc_eq_plus1)
  with assms(1,2) retry_loop_exhausted [of 0 "unat n + 1" "\<lambda>k. svc k dev cmd ps"] assms(4) show ?thesis
    by (simp add: execute_command_with_retry_def less_Suc_eq_le del: upt_Suc retry_loop.simps)
qed

end
