(* ===== verification/Redb.thy ===== *)
theory Redb
  imports Prelude
begin

text \<open>
  The embedded key-value store \<open>redb\<close>, a third-party crate: its operations are a record the stores
  of the program take as an argument, and \<open>redb_laws\<close> names the documented behaviour the stores rely
  on, with \<open>contents\<close> the tables of a database. Every operation may fail with an error text; the laws
  speak only of calls that succeed. A transaction works on a snapshot, so an operation that returns
  early leaves the database as it was.
\<close>

record 'd redb =
  begin_write :: "'d \<Rightarrow> (string, 'd) rust_result"
  begin_read :: "'d \<Rightarrow> (string, 'd) rust_result"
  open_write :: "string \<Rightarrow> 'd \<Rightarrow> (string, 'd) rust_result"
  open_read :: "string \<Rightarrow> 'd \<Rightarrow> (string, 'd) rust_result"
  tbl_insert :: "string \<Rightarrow> string \<Rightarrow> string \<Rightarrow> 'd \<Rightarrow> (string, 'd) rust_result"
  tbl_remove :: "string \<Rightarrow> string \<Rightarrow> 'd \<Rightarrow> (string, bool \<times> 'd) rust_result"
  tbl_get :: "string \<Rightarrow> string \<Rightarrow> 'd \<Rightarrow> (string, string option) rust_result"
  tbl_iter :: "string \<Rightarrow> 'd \<Rightarrow> (string, (string, string \<times> string) rust_result list) rust_result"
  commit :: "'d \<Rightarrow> (string, 'd) rust_result"

type_synonym 'd contents = "'d \<Rightarrow> string \<Rightarrow> string \<Rightarrow> string option"

definition snapshot_ok :: "'d contents \<Rightarrow> ('d \<Rightarrow> (string, 'd) rust_result) \<Rightarrow> bool" where
  "snapshot_ok c f \<longleftrightarrow> (\<forall>d d'. f d = Inr d' \<longrightarrow> c d' = c d)"

definition redb_laws :: "'d redb \<Rightarrow> 'd contents \<Rightarrow> bool" where
  "redb_laws rd c \<longleftrightarrow>
     snapshot_ok c (begin_write rd) \<and> snapshot_ok c (begin_read rd) \<and> snapshot_ok c (commit rd) \<and>
     (\<forall>t. snapshot_ok c (open_write rd t) \<and> snapshot_ok c (open_read rd t)) \<and>
     (\<forall>t k v d d'. tbl_insert rd t k v d = Inr d' \<longrightarrow> c d' = (c d)(t := (c d t)(k \<mapsto> v))) \<and>
     (\<forall>t k d b d'. tbl_remove rd t k d = Inr (b, d') \<longrightarrow>
        c d' = (c d)(t := (c d t)(k := None)) \<and> b = (c d t k \<noteq> None)) \<and>
     (\<forall>t k d r. tbl_get rd t k d = Inr r \<longrightarrow> r = c d t k) \<and>
     (\<forall>t d kvs. tbl_iter rd t d = Inr (map Inr kvs) \<longrightarrow> distinct (map fst kvs) \<and> map_of kvs = c d t)"

lemma redb_snapshots:
  assumes "redb_laws rd c"
  shows "begin_write rd d = Inr d' \<Longrightarrow> c d' = c d"
    and "begin_read rd d = Inr d' \<Longrightarrow> c d' = c d"
    and "open_write rd t d = Inr d' \<Longrightarrow> c d' = c d"
    and "open_read rd t d = Inr d' \<Longrightarrow> c d' = c d"
    and "commit rd d = Inr d' \<Longrightarrow> c d' = c d"
  using assms by (auto simp: redb_laws_def snapshot_ok_def)

lemma redb_insert: "redb_laws rd c \<Longrightarrow> tbl_insert rd t k v d = Inr d' \<Longrightarrow> c d' = (c d)(t := (c d t)(k \<mapsto> v))"
  by (simp add: redb_laws_def)

lemma redb_remove:
  "redb_laws rd c \<Longrightarrow> tbl_remove rd t k d = Inr (b, d') \<Longrightarrow>
   c d' = (c d)(t := (c d t)(k := None)) \<and> b = (c d t k \<noteq> None)"
  by (simp add: redb_laws_def)

lemma redb_get: "redb_laws rd c \<Longrightarrow> tbl_get rd t k d = Inr r \<Longrightarrow> r = c d t k"
  by (simp add: redb_laws_def)

lemma redb_iter:
  "redb_laws rd c \<Longrightarrow> tbl_iter rd t d = Inr (map Inr kvs) \<Longrightarrow> distinct (map fst kvs) \<and> map_of kvs = c d t"
  by (simp add: redb_laws_def)

text \<open>An in-memory database that satisfies the laws, used to show that they can hold.\<close>

type_synonym mem_db = "(string \<times> string, string) hash_map"

definition mem_contents :: "mem_db contents" where
  "mem_contents d t k = hm_get d (t, k)"

definition mem_entries :: "string \<Rightarrow> mem_db \<Rightarrow> (string \<times> string) list" where
  "mem_entries t d = map (\<lambda>((u, k), v). (k, v)) (filter (\<lambda>((u, k), v). u = t) (AList.clearjunk d))"

definition mem_redb :: "mem_db redb" where
  "mem_redb =
     \<lparr>begin_write = Inr, begin_read = Inr, open_write = (\<lambda>t. Inr), open_read = (\<lambda>t. Inr),
      tbl_insert = (\<lambda>t k v d. Inr (hm_insert (t, k) v d)),
      tbl_remove = (\<lambda>t k d. Inr (hm_get d (t, k) \<noteq> None, hm_remove (t, k) d)),
      tbl_get = (\<lambda>t k d. Inr (hm_get d (t, k))),
      tbl_iter = (\<lambda>t d. Inr (map Inr (mem_entries t d))),
      commit = Inr\<rparr>"

lemma mem_iter_get:
  "map_of (map (\<lambda>((u, k), v). (k, v)) (filter (\<lambda>((u, k), v). u = t) d)) = (\<lambda>k. map_of d (t, k))"
  by (induction d) auto

lemma mem_iter_keys:
  "distinct (map fst d) \<Longrightarrow>
   distinct (map fst (map (\<lambda>((u, k), v). (k, v)) (filter (\<lambda>((u, k), v). u = t) d)))"
  by (induction d) (auto simp: image_iff)

lemma mem_redb_laws: "redb_laws mem_redb mem_contents"
proof -
  have "map_of (mem_entries t d) = mem_contents d t" for d t
    by (simp add: mem_entries_def mem_iter_get mem_contents_def map_of_clearjunk fun_eq_iff)
  moreover have "distinct (map fst (mem_entries t d))" for d t
    using mem_iter_keys [of "AList.clearjunk d" t] by (simp add: mem_entries_def)
  moreover have "kvs = mem_entries t d" if "map Inr (mem_entries t d) = (map Inr kvs :: (string, string \<times> string) rust_result list)"
    for t d kvs using that by (simp add: inj_map_eq_map)
  ultimately show ?thesis
    by (auto simp: redb_laws_def snapshot_ok_def mem_redb_def mem_contents_def fun_eq_iff)
qed

text \<open>\<open>map_err(|e| format!("<what>: {}", e))\<close>.\<close>

definition ctx :: "string \<Rightarrow> (string, 'a) rust_result \<Rightarrow> (string, 'a) rust_result" where
  "ctx what r = map_err (\<lambda>e. what @ '': '' @ e) r"

lemma ctx_Inr_iff [simp]: "ctx what r = Inr a \<longleftrightarrow> r = Inr a"
  by (simp add: ctx_def)

text \<open>\<open>Result::ok\<close>.\<close>

fun ok :: "('e, 'a) rust_result \<Rightarrow> 'a option" where
  "ok (Inr a) = Some a"
| "ok (Inl _) = None"

lemma ok_Some_iff [simp]: "ok r = Some a \<longleftrightarrow> r = Inr a"
  by (cases r) auto

text \<open>Reading a whole table: the decoded values of its entries.\<close>

lemma decoded_table:
  assumes "distinct (map fst kvs)" and "map_of kvs = tbl"
  shows "set (List.map_filter (\<lambda>(_, v). dec v) kvs) = ran (\<lambda>i. Option.bind (tbl i) dec)"
    and "length (filter P (List.map_filter (\<lambda>(_, v). dec v) kvs)) = card {i. \<exists>x. Option.bind (tbl i) dec = Some x \<and> P x}"
proof -
  have "(k, v) \<in> set kvs \<longleftrightarrow> tbl k = Some v" for k v using assms by auto
  then show "set (List.map_filter (\<lambda>(_, v). dec v) kvs) = ran (\<lambda>i. Option.bind (tbl i) dec)"
    by (auto simp: List.map_filter_def ran_def bind_eq_Some_conv image_iff) (metis option.sel case_prod_conv)+
  have "length (filter P (List.map_filter (\<lambda>(_, v). dec v) kvs)) = length (filter (\<lambda>(k, v). \<exists>x. dec v = Some x \<and> P x) kvs)"
    by (induction kvs) (auto simp: List.map_filter_def split: option.splits)
  also have "\<dots> = card (fst ` set (filter (\<lambda>(k, v). \<exists>x. dec v = Some x \<and> P x) kvs))"
    using assms(1) by (metis (no_types, lifting) distinct_card distinct_map_filter length_map set_map)
  also have "fst ` set (filter (\<lambda>(k, v). \<exists>x. dec v = Some x \<and> P x) kvs) = {i. \<exists>x. Option.bind (tbl i) dec = Some x \<and> P x}"
    using \<open>\<And>k v. (k, v) \<in> set kvs \<longleftrightarrow> tbl k = Some v\<close> by (force simp: bind_eq_Some_conv image_iff)
  finally show "length (filter P (List.map_filter (\<lambda>(_, v). dec v) kvs)) = card {i. \<exists>x. Option.bind (tbl i) dec = Some x \<and> P x}" .
qed

end
