(* ===== verification/RuleStore.thy ===== *)
theory RuleStore
  imports RuleModels Redb
begin

text \<open>
  \<open>RuleStore\<close> of \<open>heramind-rules/src/store.rs\<close>: rules and execution history in a database. The JSON
  codecs of rules and results are parameters.
\<close>

section \<open>The store\<close>

datatype store_error = Database string | Serialization string | RuleNotFound string | Io string

record rule_codec =
  rule_to_vec :: "compiled_rule \<Rightarrow> (string, string) rust_result"
  rule_from_slice :: "string \<Rightarrow> (string, compiled_rule) rust_result"
  result_to_vec :: "rule_execution_result \<Rightarrow> (string, string) rust_result"
  result_from_slice :: "string \<Rightarrow> (string, rule_execution_result) rust_result"

definition rule_codec_laws :: "rule_codec \<Rightarrow> bool" where
  "rule_codec_laws cd \<longleftrightarrow>
     (\<forall>r v. rule_to_vec cd r = Inr v \<longrightarrow> rule_from_slice cd v = Inr r) \<and>
     (\<forall>r v. result_to_vec cd r = Inr v \<longrightarrow> result_from_slice cd v = Inr r)"

definition RULES_TABLE :: string where
  "RULES_TABLE = ''rules''"

definition RULE_HISTORY_TABLE :: string where
  "RULE_HISTORY_TABLE = ''rule_history''"

text \<open>The \<open>From\<close> conversions that \<open>?\<close> applies.\<close>

definition db_err :: "(string, 'a) rust_result \<Rightarrow> (store_error, 'a) rust_result" where
  "db_err r = map_err Database r"

definition ser_err :: "(string, 'a) rust_result \<Rightarrow> (store_error, 'a) rust_result" where
  "ser_err r = map_err Serialization r"

lemma db_err_Inr_iff [simp]: "db_err r = Inr a \<longleftrightarrow> r = Inr a"
  by (simp add: db_err_def)

lemma ser_err_Inr_iff [simp]: "ser_err r = Inr a \<longleftrightarrow> r = Inr a"
  by (simp add: ser_err_def)

definition rule_key :: "rule_id \<Rightarrow> string" where
  "rule_key i = ''rule:'' @ i"

definition rs_save :: "'d redb \<Rightarrow> rule_codec \<Rightarrow> compiled_rule \<Rightarrow> 'd \<Rightarrow> (store_error, 'd) rust_result" where
  "rs_save rd cd rule db =
     and_then (ser_err (rule_to_vec cd rule)) (\<lambda>v.
     and_then (db_err (begin_write rd db)) (\<lambda>w.
     and_then (db_err (open_write rd RULES_TABLE w)) (\<lambda>w.
     and_then (db_err (tbl_insert rd RULES_TABLE (rule_key (compiled_rule.rule_id rule)) v w)) (\<lambda>w.
     db_err (commit rd w)))))"

definition rs_load ::
    "'d redb \<Rightarrow> rule_codec \<Rightarrow> rule_id \<Rightarrow> 'd \<Rightarrow> (store_error, compiled_rule option) rust_result" where
  "rs_load rd cd i db =
     and_then (db_err (begin_read rd db)) (\<lambda>t.
     and_then (db_err (open_read rd RULES_TABLE t)) (\<lambda>t.
     and_then (db_err (tbl_get rd RULES_TABLE (rule_key i) t)) (\<lambda>r.
     case r of
       Some v \<Rightarrow> and_then (ser_err (rule_from_slice cd v)) (\<lambda>rule. Inr (Some rule))
     | None \<Rightarrow> Inr None)))"

definition rs_delete :: "'d redb \<Rightarrow> rule_id \<Rightarrow> 'd \<Rightarrow> (store_error, bool \<times> 'd) rust_result" where
  "rs_delete rd i db =
     and_then (db_err (begin_write rd db)) (\<lambda>w.
     and_then (db_err (open_write rd RULES_TABLE w)) (\<lambda>w.
     and_then (db_err (tbl_remove rd RULES_TABLE (rule_key i) w)) (\<lambda>(existed, w).
     and_then (db_err (commit rd w)) (\<lambda>db'. Inr (existed, db')))))"

text \<open>A table that cannot be opened for reading does not exist yet.\<close>

definition rs_list_all :: "'d redb \<Rightarrow> rule_codec \<Rightarrow> 'd \<Rightarrow> (store_error, compiled_rule list) rust_result" where
  "rs_list_all rd cd db =
     and_then (db_err (begin_read rd db)) (\<lambda>t.
     case open_read rd RULES_TABLE t of
       Inl _ \<Rightarrow> Inr []
     | Inr t \<Rightarrow>
         and_then (db_err (tbl_iter rd RULES_TABLE t)) (\<lambda>es.
         collect_results (map (\<lambda>e. and_then (db_err e) (\<lambda>(_, v). ser_err (rule_from_slice cd v))) es)))"

definition history_key :: "date_time \<Rightarrow> rule_id \<Rightarrow> string" where
  "history_key at i = ''history:'' @ show_int (timestamp_millis at) @ '':'' @ i"

definition rs_save_history ::
    "'d redb \<Rightarrow> rule_codec \<Rightarrow> rule_execution_result \<Rightarrow> 'd \<Rightarrow> (store_error, 'd) rust_result" where
  "rs_save_history rd cd res db =
     and_then (ser_err (result_to_vec cd res)) (\<lambda>v.
     and_then (db_err (begin_write rd db)) (\<lambda>w.
     and_then (db_err (open_write rd RULE_HISTORY_TABLE w)) (\<lambda>w.
     and_then (db_err (tbl_insert rd RULE_HISTORY_TABLE (history_key (triggered_at res) (res_rule_id res)) v w)) (\<lambda>w.
     db_err (commit rd w)))))"

definition rs_load_history ::
    "'d redb \<Rightarrow> rule_codec \<Rightarrow> rule_id \<Rightarrow> 'd \<Rightarrow> (store_error, rule_execution_result list) rust_result" where
  "rs_load_history rd cd i db =
     and_then (db_err (begin_read rd db)) (\<lambda>t.
     case open_read rd RULE_HISTORY_TABLE t of
       Inl _ \<Rightarrow> Inr []
     | Inr t \<Rightarrow>
         and_then (db_err (tbl_iter rd RULE_HISTORY_TABLE t)) (\<lambda>es.
         and_then (collect_results (map (\<lambda>e. and_then (db_err e) (\<lambda>(_, v). ser_err (result_from_slice cd v))) es)) (\<lambda>rs.
         Inr (sort_key (\<lambda>r. - triggered_at r) (filter (\<lambda>r. res_rule_id r = i) rs)))))"

definition rs_count_history_since ::
    "'d redb \<Rightarrow> rule_codec \<Rightarrow> int \<Rightarrow> 'd \<Rightarrow> (store_error, nat) rust_result" where
  "rs_count_history_since rd cd since db =
     and_then (db_err (begin_read rd db)) (\<lambda>t.
     case open_read rd RULE_HISTORY_TABLE t of
       Inl _ \<Rightarrow> Inr 0
     | Inr t \<Rightarrow>
         and_then (db_err (tbl_iter rd RULE_HISTORY_TABLE t)) (\<lambda>es.
         and_then (collect_results (map db_err es)) (\<lambda>kvs.
         Inr (length (filter (\<lambda>(_, v).
            case result_from_slice cd v of
              Inr entry \<Rightarrow> timestamp (triggered_at entry) \<ge> since \<and> actions_executed entry \<noteq> []
            | Inl _ \<Rightarrow> False) kvs)))))"

text \<open>The order of \<open>str\<close> is the lexicographic order of bytes.\<close>

fun str_less :: "string \<Rightarrow> string \<Rightarrow> bool" where
  "str_less xs [] = False"
| "str_less [] (y # ys) = True"
| "str_less (x # xs) (y # ys) = ((of_char x :: nat) < of_char y \<or> x = y \<and> str_less xs ys)"

fun remove_keys :: "'d redb \<Rightarrow> string \<Rightarrow> string list \<Rightarrow> 'd \<Rightarrow> (store_error, 'd) rust_result" where
  "remove_keys rd t [] w = Inr w"
| "remove_keys rd t (k # ks) w = and_then (db_err (tbl_remove rd t k w)) (\<lambda>(_, w). remove_keys rd t ks w)"

definition cutoff_key :: "date_time \<Rightarrow> nat \<Rightarrow> string" where
  "cutoff_key now older_than_days = history_key (now - int older_than_days * 86400000000000) []"

definition expired_keys :: "string \<Rightarrow> (string, string \<times> string) rust_result list \<Rightarrow> string list" where
  "expired_keys ck es =
     concat (map (\<lambda>e. case e of Inr (k, _) \<Rightarrow> if str_less k ck then [k] else [] | Inl _ \<Rightarrow> []) es)"

definition rs_cleanup_history ::
    "'d redb \<Rightarrow> date_time \<Rightarrow> nat \<Rightarrow> 'd \<Rightarrow> (store_error, nat \<times> 'd) rust_result" where
  "rs_cleanup_history rd now older_than_days db =
     and_then (db_err (begin_write rd db)) (\<lambda>w.
     and_then (db_err (open_write rd RULE_HISTORY_TABLE w)) (\<lambda>w.
     and_then (db_err (tbl_iter rd RULE_HISTORY_TABLE w)) (\<lambda>es.
     let keys_to_remove = expired_keys (cutoff_key now older_than_days) es in
     and_then (remove_keys rd RULE_HISTORY_TABLE keys_to_remove w) (\<lambda>w.
     and_then (db_err (commit rd w)) (\<lambda>db'. Inr (length keys_to_remove, db'))))))"

section \<open>Lemmas\<close>

lemma rule_key_inject [simp]: "rule_key i = rule_key j \<longleftrightarrow> i = j"
  by (simp add: rule_key_def)

lemma rs_save_contents:
  assumes L: "redb_laws rd c" and "rs_save rd cd rule db = Inr db'"
  obtains v where "rule_to_vec cd rule = Inr v"
    and "c db' = (c db)(RULES_TABLE := (c db RULES_TABLE)(rule_key (compiled_rule.rule_id rule) \<mapsto> v))"
  using assms(2) by (auto simp: rs_save_def redb_snapshots [OF L] redb_insert [OF L])

lemma rs_delete_contents:
  assumes L: "redb_laws rd c" and "rs_delete rd i db = Inr (b, db')"
  shows "b = (c db RULES_TABLE (rule_key i) \<noteq> None)"
    and "c db' = (c db)(RULES_TABLE := (c db RULES_TABLE)(rule_key i := None))"
proof -
  from assms(2) obtain w1 w2 w3 where "begin_write rd db = Inr w1" "open_write rd RULES_TABLE w1 = Inr w2"
    and rm: "tbl_remove rd RULES_TABLE (rule_key i) w2 = Inr (b, w3)" and "commit rd w3 = Inr db'"
    by (auto simp: rs_delete_def)
  with redb_remove [OF L rm]
  show "b = (c db RULES_TABLE (rule_key i) \<noteq> None)"
    "c db' = (c db)(RULES_TABLE := (c db RULES_TABLE)(rule_key i := None))"
    by (simp_all add: redb_snapshots [OF L])
qed

lemma rs_load_contents:
  assumes L: "redb_laws rd c" and "rs_load rd cd i db = Inr r"
  shows "r = None \<longleftrightarrow> c db RULES_TABLE (rule_key i) = None"
    and "r = Some rule \<Longrightarrow> \<exists>v. c db RULES_TABLE (rule_key i) = Some v \<and> rule_from_slice cd v = Inr rule"
proof -
  from assms(2) obtain t u x where rd: "begin_read rd db = Inr t" "open_read rd RULES_TABLE t = Inr u"
    "tbl_get rd RULES_TABLE (rule_key i) u = Inr x"
    and r: "(case x of Some v \<Rightarrow> and_then (ser_err (rule_from_slice cd v)) (\<lambda>rule. Inr (Some rule)) | None \<Rightarrow> Inr None) = Inr r"
    by (auto simp: rs_load_def)
  have x: "x = c db RULES_TABLE (rule_key i)" using redb_get [OF L rd(3)] rd by (simp add: redb_snapshots [OF L])
  from r show "r = None \<longleftrightarrow> c db RULES_TABLE (rule_key i) = None" unfolding x [symmetric] by (auto split: option.splits)
  from r show "\<exists>v. c db RULES_TABLE (rule_key i) = Some v \<and> rule_from_slice cd v = Inr rule" if "r = Some rule"
    using that unfolding x [symmetric] by (auto split: option.splits)
qed

subsection \<open>Order of history keys\<close>

lemma str_less_prefix: "str_less (p @ a) (p @ b) = str_less a b"
  by (induction p) auto

lemma str_less_append: "length a = length b \<Longrightarrow> a \<noteq> b \<Longrightarrow> str_less (a @ x) (b @ y) = str_less a b"
  by (induction a b rule: list_induct2) auto

lemma show_nat_small: "n < 10 \<Longrightarrow> show_nat n = [char_of (n + 48)]"
  by (simp add: show_nat.simps [of n])

lemma show_nat_step: "\<not> n < 10 \<Longrightarrow> show_nat n = show_nat (n div 10) @ [char_of (n mod 10 + 48)]"
  by (simp add: show_nat.simps [of n])

lemma show_nat_nonempty [simp]: "show_nat n \<noteq> []"
  by (subst show_nat.simps) simp

lemma digit_of_char: "d < 10 \<Longrightarrow> (of_char (char_of (d + 48 :: nat)) :: nat) = d + 48"
  by simp

lemma digit_inject: "d < 10 \<Longrightarrow> e < 10 \<Longrightarrow> (char_of (d + 48 :: nat) :: char) = char_of (e + 48) \<longleftrightarrow> d = e"
  by (metis add_right_cancel digit_of_char)

lemma show_nat_length1: "length (show_nat n) = 1 \<longleftrightarrow> n < 10"
  by (cases "n < 10") (simp_all add: show_nat_small show_nat_step)

text \<open>Two numbers with the same number of digits compare as their decimal texts do.\<close>

lemma show_nat_order:
  "length (show_nat a) = length (show_nat b) \<Longrightarrow>
   (show_nat a = show_nat b \<longleftrightarrow> a = b) \<and> (str_less (show_nat a) (show_nat b) \<longleftrightarrow> a < b)"
proof (induction a arbitrary: b rule: show_nat.induct)
  case (1 a)
  show ?case
  proof (cases "a < 10")
    case True
    then have "b < 10" using 1 by (metis show_nat_length1)
    with True show ?thesis by (auto simp: show_nat_small digit_inject digit_of_char)
  next
    case False
    then have b: "\<not> b < 10" using 1 by (metis show_nat_length1)
    have IH: "(show_nat (a div 10) = show_nat (b div 10) \<longleftrightarrow> a div 10 = b div 10)
        \<and> (str_less (show_nat (a div 10)) (show_nat (b div 10)) \<longleftrightarrow> a div 10 < b div 10)"
      and len: "length (show_nat (a div 10)) = length (show_nat (b div 10))"
      using 1 False b by (auto simp: show_nat_step [of a] show_nat_step [of b])
    have ab: "a = 10 * (a div 10) + a mod 10" "b = 10 * (b div 10) + b mod 10" by simp_all
    show ?thesis
    proof (cases "a div 10 = b div 10")
      case True
      then have "str_less (show_nat a) (show_nat b) \<longleftrightarrow> a mod 10 < b mod 10"
        "show_nat a = show_nat b \<longleftrightarrow> a mod 10 = b mod 10"
        using False b
        by (simp_all add: show_nat_step [of a] show_nat_step [of b] str_less_prefix digit_of_char digit_inject)
      with True ab show ?thesis by (metis add_left_cancel add_less_cancel_left)
    next
      case div: False
      then have "show_nat (a div 10) \<noteq> show_nat (b div 10)" using IH by simp
      then have "str_less (show_nat a) (show_nat b) \<longleftrightarrow> a div 10 < b div 10" "show_nat a \<noteq> show_nat b"
        using False b len IH by (simp_all add: show_nat_step [of a] show_nat_step [of b] str_less_append)
      moreover have "a div 10 < b div 10 \<longleftrightarrow> a < b" using div by (metis div_le_mono linorder_not_le order_le_less)
      ultimately show ?thesis using div by auto
    qed
  qed
qed

lemma show_nat_length: "10 ^ k \<le> n \<Longrightarrow> n < 10 ^ Suc k \<Longrightarrow> length (show_nat n) = Suc k"
proof (induction k arbitrary: n)
  case 0
  then show ?case by (simp add: show_nat_small)
next
  case (Suc k)
  then have "10 ^ k \<le> n div 10" "n div 10 < 10 ^ Suc k" by auto
  with Suc have "length (show_nat (n div 10)) = Suc k" by blast
  moreover have "\<not> n < 10" using Suc.prems by (metis le_trans not_le one_le_numeral power_increasing power_one_right Suc_le_mono le0 One_nat_def)
  ultimately show ?case by (simp add: show_nat_step [of n])
qed

lemma history_key_order:
  assumes "0 \<le> timestamp_millis a" "0 \<le> timestamp_millis b"
    and "length (show_nat (nat (timestamp_millis a))) = length (show_nat (nat (timestamp_millis b)))"
  shows "str_less (history_key a i) (history_key b []) \<longleftrightarrow> timestamp_millis a < timestamp_millis b"
proof -
  let ?x = "show_nat (nat (timestamp_millis a))" and ?y = "show_nat (nat (timestamp_millis b))"
  have k: "str_less (history_key a i) (history_key b []) = str_less (?x @ '':'' @ i) (?y @ '':'')"
    using assms(1,2) str_less_prefix [of "''history:''"] by (simp add: history_key_def show_int_def)
  show ?thesis
  proof (cases "?x = ?y")
    case True
    then have "\<not> str_less (?x @ '':'' @ i) (?y @ '':'')" using str_less_prefix [of ?y "'':'' @ i" "'':''"] by simp
    with True show ?thesis using k show_nat_order [OF assms(3)] assms(1,2) by simp
  next
    case False
    then show ?thesis
      using k str_less_append [OF assms(3) False] show_nat_order [OF assms(3)] assms(1,2) by auto
  qed
qed

section \<open>The store as a map of rules\<close>

definition abs_rules :: "'d contents \<Rightarrow> rule_codec \<Rightarrow> 'd \<Rightarrow> rule_id \<Rightarrow> compiled_rule option" where
  "abs_rules c cd db i =
     (case c db RULES_TABLE (rule_key i) of
        None \<Rightarrow> None
      | Some v \<Rightarrow> (case rule_from_slice cd v of Inr r \<Rightarrow> Some r | Inl _ \<Rightarrow> None))"

lemma abs_rules_save:
  assumes "redb_laws rd c" "rule_codec_laws cd" "rs_save rd cd rule db = Inr db'"
  shows "abs_rules c cd db' = (abs_rules c cd db)(compiled_rule.rule_id rule \<mapsto> rule)"
proof -
  from rs_save_contents [OF assms(1,3)] obtain v where "rule_to_vec cd rule = Inr v"
    "c db' = (c db)(RULES_TABLE := (c db RULES_TABLE)(rule_key (compiled_rule.rule_id rule) \<mapsto> v))" by blast
  with assms(2) show ?thesis by (auto simp: abs_rules_def fun_eq_iff rule_codec_laws_def)
qed

lemma abs_rules_delete:
  assumes "redb_laws rd c" "rs_delete rd i db = Inr (b, db')"
  shows "abs_rules c cd db' = (abs_rules c cd db)(i := None)"
  using rs_delete_contents [OF assms] by (auto simp: abs_rules_def fun_eq_iff)

lemma abs_rules_load:
  assumes "redb_laws rd c" "rs_load rd cd i db = Inr r"
  shows "r = abs_rules c cd db i"
  using rs_load_contents [OF assms] by (cases r) (auto simp: abs_rules_def)

section \<open>Properties\<close>

text \<open>The store implements a map of rules: whenever the operations succeed, saving a rule updates
  the map at its identifier, deleting removes it, and loading reads it, for any database and codec
  with their documented behaviour.\<close>

lemma rule_store_refines_map:
  assumes "redb_laws rd c" and "rule_codec_laws cd"
  shows "(\<forall>rule db db'. rs_save rd cd rule db = Inr db' \<longrightarrow>
        abs_rules c cd db' = (abs_rules c cd db)(compiled_rule.rule_id rule \<mapsto> rule))
    \<and> (\<forall>i b db db'. rs_delete rd i db = Inr (b, db') \<longrightarrow> abs_rules c cd db' = (abs_rules c cd db)(i := None))
    \<and> (\<forall>i db r. rs_load rd cd i db = Inr r \<longrightarrow> r = abs_rules c cd db i)"
  using abs_rules_save [OF assms] abs_rules_delete [OF assms(1)] abs_rules_load [OF assms(1)] by blast

definition example_rule :: compiled_rule where
  "example_rule = compiled_rule_new ''r1'' 0 ''hot''"

definition example_rule_codec :: rule_codec where
  "example_rule_codec = \<lparr>
     rule_to_vec = (\<lambda>r. if r = example_rule then Inr ''r'' else Inl ''unsupported''),
     rule_from_slice = (\<lambda>v. Inr example_rule),
     result_to_vec = (\<lambda>_. Inl ''unsupported''), result_from_slice = (\<lambda>_. Inl ''unsupported'')\<rparr>"

text \<open>History is cleaned up by age: although the keys are compared as texts, a history entry is
  older than the cutoff key exactly when its time in milliseconds is smaller, for all times between
  the years 2001 and 2286, where millisecond timestamps have thirteen digits.\<close>

lemma history_cleanup_by_age:
  assumes "timestamp_millis at \<in> {10 ^ 12 ..< 10 ^ 13}"
    and "timestamp_millis (now - int days * 86400000000000) \<in> {10 ^ 12 ..< 10 ^ 13}"
  shows "str_less (history_key at i) (cutoff_key now days) \<longleftrightarrow>
    timestamp_millis at < timestamp_millis (now - int days * 86400000000000)"
proof -
  have "length (show_nat (nat x)) = Suc 12" if "x \<in> {10 ^ 12 ..< 10 ^ 13}" for x :: int
    using that by (intro show_nat_length) (auto simp: le_nat_iff nat_less_iff)
  with assms show ?thesis unfolding cutoff_key_def by (intro history_key_order) auto
qed

end
