(* ===== verification/Messages.thy ===== *)
theory Messages
  imports Json
begin

text \<open>
  The notification data model: \<open>heramind-messages/src/message.rs\<close> (severities, statuses, messages
  and their constructors), \<open>channels/filter.rs\<close> (which messages a channel wants) and the conversion
  of \<open>manager.rs\<close> to and from the stored form of \<open>heramind-storage/src/messages.rs\<close>. Fresh
  identifiers and clock readings are arguments.
\<close>

section \<open>Message types, severities and statuses\<close>

datatype message_type = Notification

fun message_type_as_str :: "message_type \<Rightarrow> string" where
  "message_type_as_str Notification = ''notification''"

definition message_type_from_string :: "string \<Rightarrow> message_type option" where
  "message_type_from_string s = (if to_lowercase s = ''notification'' then Some Notification else None)"

datatype message_severity = Info | Warning | Critical | Emergency

fun severity_as_str :: "message_severity \<Rightarrow> string" where
  "severity_as_str Info = ''info''"
| "severity_as_str Warning = ''warning''"
| "severity_as_str Critical = ''critical''"
| "severity_as_str Emergency = ''emergency''"

fun severity_display_name :: "message_severity \<Rightarrow> string" where
  "severity_display_name Info = ''Info''"
| "severity_display_name Warning = ''Warning''"
| "severity_display_name Critical = ''Critical''"
| "severity_display_name Emergency = ''Emergency''"

text \<open>The Chinese names the parser accepts, as UTF-8 bytes.\<close>

definition zh_info :: string where
  "zh_info = [CHR 0xE4, CHR 0xBF, CHR 0xA1, CHR 0xE6, CHR 0x81, CHR 0xAF]"

definition zh_warning :: string where
  "zh_warning = [CHR 0xE8, CHR 0xAD, CHR 0xA6, CHR 0xE5, CHR 0x91, CHR 0x8A]"

definition zh_critical :: string where
  "zh_critical = [CHR 0xE4, CHR 0xB8, CHR 0xA5, CHR 0xE9, CHR 0x87, CHR 0x8D]"

definition zh_emergency :: string where
  "zh_emergency = [CHR 0xE7, CHR 0xB4, CHR 0xA7, CHR 0xE6, CHR 0x80, CHR 0xA5]"

definition severity_from_string :: "string \<Rightarrow> message_severity option" where
  "severity_from_string s =
     (let l = to_lowercase s in
      if l = ''info'' \<or> l = zh_info then Some Info
      else if l = ''warning'' \<or> l = ''warn'' \<or> l = zh_warning then Some Warning
      else if l = ''critical'' \<or> l = ''crit'' \<or> l = zh_critical then Some Critical
      else if l = ''emergency'' \<or> l = ''emerg'' \<or> l = zh_emergency then Some Emergency
      else None)"

fun severity_level :: "message_severity \<Rightarrow> nat" where
  "severity_level Info = 0"
| "severity_level Warning = 1"
| "severity_level Critical = 2"
| "severity_level Emergency = 3"

definition severity_deserialize :: "string \<Rightarrow> (string, message_severity) rust_result" where
  "severity_deserialize s = ok_or (''invalid severity: '' @ s) (severity_from_string s)"

text \<open>The derived \<open>Ord\<close> compares the variants in declaration order.\<close>

lemma severity_level_inject [simp]: "severity_level a = severity_level b \<longleftrightarrow> a = b"
  by (cases a; cases b) auto

instantiation message_severity :: linorder
begin

definition less_eq_message_severity :: "message_severity \<Rightarrow> message_severity \<Rightarrow> bool" where
  "less_eq_message_severity a b \<longleftrightarrow> severity_level a \<le> severity_level b"

definition less_message_severity :: "message_severity \<Rightarrow> message_severity \<Rightarrow> bool" where
  "less_message_severity a b \<longleftrightarrow> severity_level a < severity_level b"

instance
  by standard (auto simp: less_eq_message_severity_def less_message_severity_def)

end

datatype message_status = Active | Acknowledged | Resolved | Archived

fun status_as_str :: "message_status \<Rightarrow> string" where
  "status_as_str Active = ''active''"
| "status_as_str Acknowledged = ''acknowledged''"
| "status_as_str Resolved = ''resolved''"
| "status_as_str Archived = ''archived''"

fun status_display_name :: "message_status \<Rightarrow> string" where
  "status_display_name Active = ''Active''"
| "status_display_name Acknowledged = ''Acknowledged''"
| "status_display_name Resolved = ''Resolved''"
| "status_display_name Archived = ''Archived''"

definition zh_active :: string where
  "zh_active = [CHR 0xE6, CHR 0xB4, CHR 0xBB, CHR 0xE8, CHR 0xB7, CHR 0x83]"

definition zh_acknowledged :: string where
  "zh_acknowledged =
     [CHR 0xE5, CHR 0xB7, CHR 0xB2, CHR 0xE7, CHR 0xA1, CHR 0xAE, CHR 0xE8, CHR 0xAE, CHR 0xA4]"

definition zh_resolved :: string where
  "zh_resolved =
     [CHR 0xE5, CHR 0xB7, CHR 0xB2, CHR 0xE8, CHR 0xA7, CHR 0xA3, CHR 0xE5, CHR 0x86, CHR 0xB3]"

definition zh_archived :: string where
  "zh_archived =
     [CHR 0xE5, CHR 0xB7, CHR 0xB2, CHR 0xE5, CHR 0xBD, CHR 0x92, CHR 0xE6, CHR 0xA1, CHR 0xA3]"

definition status_from_string :: "string \<Rightarrow> message_status option" where
  "status_from_string s =
     (let l = to_lowercase s in
      if l = ''active'' \<or> l = zh_active then Some Active
      else if l = ''acknowledged'' \<or> l = zh_acknowledged then Some Acknowledged
      else if l = ''resolved'' \<or> l = zh_resolved then Some Resolved
      else if l = ''archived'' \<or> l = zh_archived then Some Archived
      else None)"

definition status_deserialize :: "string \<Rightarrow> (string, message_status) rust_result" where
  "status_deserialize s = ok_or (''invalid status: '' @ s) (status_from_string s)"

section \<open>Messages\<close>

record message =
  msg_id :: uuid
  msg_category :: string
  msg_severity :: message_severity
  msg_title :: string
  msg_message :: string
  msg_source :: string
  msg_source_type :: string
  msg_timestamp :: date_time
  msg_status :: message_status
  msg_metadata :: "json option"
  msg_tags :: "string list"

definition message_new ::
    "uuid \<Rightarrow> date_time \<Rightarrow> string \<Rightarrow> message_severity \<Rightarrow> string \<Rightarrow> string \<Rightarrow> string \<Rightarrow> message" where
  "message_new fresh now cat sev t msg src =
     \<lparr>msg_id = fresh, msg_category = cat, msg_severity = sev, msg_title = t, msg_message = msg,
      msg_source = src, msg_source_type = ''system'', msg_timestamp = now, msg_status = Active,
      msg_metadata = None, msg_tags = []\<rparr>"

definition message_alert ::
    "uuid \<Rightarrow> date_time \<Rightarrow> message_severity \<Rightarrow> string \<Rightarrow> string \<Rightarrow> string \<Rightarrow> message" where
  "message_alert fresh now sev t msg src = message_new fresh now ''alert'' sev t msg src"

definition message_system :: "uuid \<Rightarrow> date_time \<Rightarrow> string \<Rightarrow> string \<Rightarrow> message" where
  "message_system fresh now t msg = message_new fresh now ''system'' Info t msg ''system''"

definition message_system_with_severity ::
    "uuid \<Rightarrow> date_time \<Rightarrow> message_severity \<Rightarrow> string \<Rightarrow> string \<Rightarrow> message" where
  "message_system_with_severity fresh now sev t msg = message_new fresh now ''system'' sev t msg ''system''"

definition message_business :: "uuid \<Rightarrow> date_time \<Rightarrow> string \<Rightarrow> string \<Rightarrow> string \<Rightarrow> message" where
  "message_business fresh now t msg src = message_new fresh now ''business'' Info t msg src"

definition message_device ::
    "uuid \<Rightarrow> date_time \<Rightarrow> message_severity \<Rightarrow> string \<Rightarrow> string \<Rightarrow> string \<Rightarrow> message" where
  "message_device fresh now sev t msg device_id =
     (let m = message_alert fresh now sev t msg device_id
      in m\<lparr>msg_source_type := ''device'', msg_tags := msg_tags m @ [''device'']\<rparr>)"

definition message_rule ::
    "uuid \<Rightarrow> date_time \<Rightarrow> message_severity \<Rightarrow> string \<Rightarrow> string \<Rightarrow> string \<Rightarrow> message" where
  "message_rule fresh now sev t msg rid =
     (let m = message_alert fresh now sev t msg rid
      in m\<lparr>msg_source_type := ''rule'', msg_tags := msg_tags m @ [''rule'']\<rparr>)"

definition with_status :: "message_status \<Rightarrow> message \<Rightarrow> message" where
  "with_status s m = m\<lparr>msg_status := s\<rparr>"

definition with_metadata :: "json \<Rightarrow> message \<Rightarrow> message" where
  "with_metadata j m = m\<lparr>msg_metadata := Some j\<rparr>"

definition with_tags :: "string list \<Rightarrow> message \<Rightarrow> message" where
  "with_tags ts m = m\<lparr>msg_tags := ts\<rparr>"

definition msg_acknowledge :: "message \<Rightarrow> message" where
  "msg_acknowledge m = m\<lparr>msg_status := Acknowledged\<rparr>"

definition msg_resolve :: "message \<Rightarrow> message" where
  "msg_resolve m = m\<lparr>msg_status := Resolved\<rparr>"

definition msg_archive :: "message \<Rightarrow> message" where
  "msg_archive m = m\<lparr>msg_status := Archived\<rparr>"

definition msg_is_active :: "message \<Rightarrow> bool" where
  "msg_is_active m \<longleftrightarrow> msg_status m = Active"

section \<open>Channel filters\<close>

record channel_filter =
  source_types :: "string list"
  categories :: "string list"
  min_severity :: "message_severity option"

definition filter_default :: channel_filter where
  "filter_default = \<lparr>source_types = [], categories = [], min_severity = None\<rparr>"

definition filter_matches :: "channel_filter \<Rightarrow> message \<Rightarrow> bool" where
  "filter_matches f m =
     (if source_types f \<noteq> [] \<and> msg_source_type m \<notin> set (source_types f) then False
      else if categories f \<noteq> [] \<and> msg_category m \<notin> set (categories f) then False
      else case min_severity f of
             Some min_sev \<Rightarrow> if msg_severity m < min_sev then False else True
           | None \<Rightarrow> True)"

definition serialize_option_severity :: "message_severity option \<Rightarrow> string option" where
  "serialize_option_severity v = map_option severity_as_str v"

definition deserialize_option_severity ::
    "string option \<Rightarrow> (string, message_severity option) rust_result" where
  "deserialize_option_severity opt =
     (case opt of
        Some s \<Rightarrow> and_then (severity_deserialize s) (\<lambda>v. Inr (Some v))
      | None \<Rightarrow> Inr None)"

section \<open>Stored messages\<close>

record stored_message =
  sm_id :: string
  sm_category :: string
  sm_severity :: string
  sm_title :: string
  sm_message :: string
  sm_source :: string
  sm_source_type :: "string option"
  sm_status :: string
  sm_tags :: "string list option"
  sm_metadata :: "json option"
  sm_timestamp :: int
  sm_acknowledged_at :: "int option"
  sm_resolved_at :: "int option"
  sm_acknowledged_by :: "string option"

definition stored_message_new ::
    "int \<Rightarrow> string \<Rightarrow> string \<Rightarrow> string \<Rightarrow> string \<Rightarrow> string \<Rightarrow> string \<Rightarrow> stored_message" where
  "stored_message_new now ident category severity title msg src =
     \<lparr>sm_id = ident, sm_category = category, sm_severity = severity, sm_title = title, sm_message = msg,
      sm_source = src, sm_source_type = None, sm_status = ''active'', sm_tags = None, sm_metadata = None,
      sm_timestamp = now, sm_acknowledged_at = None, sm_resolved_at = None, sm_acknowledged_by = None\<rparr>"

definition sm_acknowledge :: "int \<Rightarrow> string option \<Rightarrow> stored_message \<Rightarrow> stored_message" where
  "sm_acknowledge now who m =
     m\<lparr>sm_status := ''acknowledged'', sm_acknowledged_at := Some now, sm_acknowledged_by := who\<rparr>"

definition sm_resolve :: "int \<Rightarrow> stored_message \<Rightarrow> stored_message" where
  "sm_resolve now m = m\<lparr>sm_status := ''resolved'', sm_resolved_at := Some now\<rparr>"

definition sm_archive :: "stored_message \<Rightarrow> stored_message" where
  "sm_archive m = m\<lparr>sm_status := ''archived''\<rparr>"

text \<open>\<open>Uuid::parse_str\<close> and \<open>DateTime::from_timestamp(secs, 0)\<close>, which belong to the crates \<open>uuid\<close>
  and \<open>chrono\<close>, are parameters.\<close>

record message_env =
  uuid_parse :: "string \<Rightarrow> uuid option"
  from_timestamp :: "int \<Rightarrow> date_time option"

definition stored_to_message :: "message_env \<Rightarrow> uuid \<Rightarrow> date_time \<Rightarrow> stored_message \<Rightarrow> message" where
  "stored_to_message env fresh now s =
     \<lparr>msg_id = unwrap_or (uuid_parse env (sm_id s)) fresh,
      msg_category = sm_category s,
      msg_severity = unwrap_or (severity_from_string (sm_severity s)) Info,
      msg_title = sm_title s,
      msg_message = sm_message s,
      msg_source = sm_source s,
      msg_source_type = unwrap_or (sm_source_type s) ''system'',
      msg_timestamp = unwrap_or (from_timestamp env (sm_timestamp s)) now,
      msg_status = unwrap_or (status_from_string (sm_status s)) Active,
      msg_metadata = sm_metadata s,
      msg_tags = unwrap_or (sm_tags s) []\<rparr>"

definition message_to_stored :: "message \<Rightarrow> stored_message" where
  "message_to_stored m =
     \<lparr>sm_id = msg_id m,
      sm_category = msg_category m,
      sm_severity = severity_as_str (msg_severity m),
      sm_title = msg_title m,
      sm_message = msg_message m,
      sm_source = msg_source m,
      sm_source_type = Some (msg_source_type m),
      sm_status = status_as_str (msg_status m),
      sm_tags = (if msg_tags m = [] then None else Some (msg_tags m)),
      sm_metadata = msg_metadata m,
      sm_timestamp = timestamp (msg_timestamp m),
      sm_acknowledged_at = None, sm_resolved_at = None, sm_acknowledged_by = None\<rparr>"

section \<open>Lemmas\<close>

lemmas zh_defs = zh_info_def zh_warning_def zh_critical_def zh_emergency_def
  zh_active_def zh_acknowledged_def zh_resolved_def zh_archived_def

lemma severity_from_as_str [simp]: "severity_from_string (severity_as_str v) = Some v"
  by (cases v) (simp_all add: severity_from_string_def to_lowercase_def lower_char_def zh_defs)

lemma status_from_as_str [simp]: "status_from_string (status_as_str v) = Some v"
  by (cases v) (simp_all add: status_from_string_def to_lowercase_def lower_char_def zh_defs)

lemma severity_from_display_name: "severity_from_string (severity_display_name v) = Some v"
  by (cases v; simp only:; code_simp)

lemma status_from_display_name: "status_from_string (status_display_name v) = Some v"
  by (cases v; simp only:; code_simp)

lemma severity_as_str_inject [simp]: "severity_as_str a = severity_as_str b \<longleftrightarrow> a = b"
  by (metis severity_from_as_str option.inject)

lemma filter_default_matches [simp]: "filter_matches filter_default m"
  by (simp add: filter_matches_def filter_default_def)

lemma filter_matches_mono:
  assumes "filter_matches f m" "msg_severity m \<le> v"
  shows "filter_matches f (m\<lparr>msg_severity := v\<rparr>)"
  using assms by (auto simp: filter_matches_def split: option.splits if_splits)

section \<open>Properties\<close>

text \<open>Persistence round trip: whatever the message, storing it and loading it back gives the same
  identifier, category, severity, texts, status, tags and metadata; only the time is cut to whole
  seconds. The hypotheses say that the identifier's text is one \<open>Uuid::parse_str\<close> reads back and
  that the time is in \<open>chrono\<close>'s range.\<close>

lemma stored_message_round_trip:
  assumes "uuid_parse env (msg_id m) = Some (msg_id m)"
    and "from_timestamp env (timestamp (msg_timestamp m)) = Some (timestamp (msg_timestamp m) * 1000000000)"
  shows "stored_to_message env fresh now (message_to_stored m) =
    m\<lparr>msg_timestamp := msg_timestamp m - msg_timestamp m mod 1000000000\<rparr>"
  using assms
  by (simp add: stored_to_message_def message_to_stored_def timestamp_def minus_mod_eq_div_mult)

definition example_message_env :: message_env where
  "example_message_env = \<lparr>uuid_parse = Some, from_timestamp = (\<lambda>s. Some (s * 1000000000))\<rparr>"

end
