(* ===== verification/Schema.thy ===== *)
theory Schema
  imports Redb
begin

text \<open>
  The version stamp and rollback guard every database of the storage layer passes when it is opened,
  \<open>heramind-storage/src/schema.rs\<close>. The stamp is a \<open>u64\<close> in a table of its own; how \<open>redb\<close> encodes it
  as bytes is the pair \<open>u64_bytes\<close>, \<open>u64_value\<close>.
\<close>

definition CURRENT_SCHEMA_VERSION :: u64 where
  "CURRENT_SCHEMA_VERSION = 1"

definition SCHEMA_META_TABLE :: string where
  "SCHEMA_META_TABLE = ''schema_meta''"

definition VERSION_KEY :: string where
  "VERSION_KEY = ''version''"

record u64_codec =
  u64_bytes :: "u64 \<Rightarrow> string"
  u64_value :: "string \<Rightarrow> u64"

definition u64_codec_laws :: "u64_codec \<Rightarrow> bool" where
  "u64_codec_laws cd \<longleftrightarrow> (\<forall>v. u64_value cd (u64_bytes cd v) = v)"

text \<open>The reading part: a table that cannot be opened counts as an unstamped database.\<close>

definition stored_version :: "'d redb \<Rightarrow> u64_codec \<Rightarrow> 'd \<Rightarrow> (string, u64 option) rust_result" where
  "stored_version rd cd db =
     and_then (begin_read rd db) (\<lambda>t.
       case open_read rd SCHEMA_META_TABLE t of
         Inr t' \<Rightarrow> and_then (tbl_get rd SCHEMA_META_TABLE VERSION_KEY t') (\<lambda>v. Inr (map_option (u64_value cd) v))
       | Inl _ \<Rightarrow> Inr None)"

definition newer_version_error :: "u64 \<Rightarrow> string" where
  "newer_version_error v =
     ''database schema version '' @ show_nat (unat v) @ '' is NEWER than this build supports (''
     @ show_nat (unat CURRENT_SCHEMA_VERSION)
     @ ''). The data was written by a newer HeraMind ''
     @ [CHR 0xE2, CHR 0x80, CHR 0x94]
     @ '' upgrade the server instead of rolling back (opening it now would silently destroy newer-format rows on the next save).''"

definition stamp :: "'d redb \<Rightarrow> u64_codec \<Rightarrow> 'd \<Rightarrow> (string, 'd) rust_result" where
  "stamp rd cd db =
     and_then (begin_write rd db) (\<lambda>w.
     and_then (open_write rd SCHEMA_META_TABLE w) (\<lambda>w.
     and_then (tbl_insert rd SCHEMA_META_TABLE VERSION_KEY (u64_bytes cd CURRENT_SCHEMA_VERSION) w) (\<lambda>w.
     commit rd w)))"

definition check_or_stamp :: "'d redb \<Rightarrow> u64_codec \<Rightarrow> 'd \<Rightarrow> (string, 'd) rust_result" where
  "check_or_stamp rd cd db =
     and_then (stored_version rd cd db) (\<lambda>stored.
       case stored of
         Some v \<Rightarrow> if v > CURRENT_SCHEMA_VERSION then Inl (newer_version_error v) else stamp rd cd db
       | None \<Rightarrow> stamp rd cd db)"

section \<open>Lemmas\<close>

definition version_of :: "u64_codec \<Rightarrow> 'd contents \<Rightarrow> 'd \<Rightarrow> u64 option" where
  "version_of cd c db = map_option (u64_value cd) (c db SCHEMA_META_TABLE VERSION_KEY)"

lemma stored_version_reads:
  assumes "redb_laws rd c" and "stored_version rd cd db = Inr v"
    and "\<forall>d. \<exists>d'. open_read rd SCHEMA_META_TABLE d = Inr d'"
  shows "v = version_of cd c db"
  using assms redb_snapshots(2,4) [OF assms(1)] redb_get [OF assms(1)]
  by (auto simp: stored_version_def version_of_def and_then_Inr_iff split: sum.splits) (metis sum.distinct(1))+

lemma stamp_contents:
  assumes "redb_laws rd c" and "stamp rd cd db = Inr db'"
  shows "c db' = (c db)(SCHEMA_META_TABLE := (c db SCHEMA_META_TABLE)(VERSION_KEY \<mapsto> u64_bytes cd CURRENT_SCHEMA_VERSION))"
  using assms(2) redb_snapshots(1,3,5) [OF assms(1)] redb_insert [OF assms(1)]
  by (auto simp: stamp_def and_then_Inr_iff)

section \<open>Properties\<close>

text \<open>No silent downgrade: if the version table of an existing database can be opened, a database
  stamped by a newer build is refused (the guard fails and there is no database to go on with), and
  one that passes is stamped with the version of this build and otherwise unchanged. Hypotheses:
  documented behaviour of the database and its integer encoding, and that opening the version table
  does not fail.\<close>

lemma rollback_guard:
  assumes "redb_laws rd c" and "u64_codec_laws cd" and "\<forall>d. \<exists>d'. open_read rd SCHEMA_META_TABLE d = Inr d'"
  shows "((\<exists>v. version_of cd c db = Some v \<and> CURRENT_SCHEMA_VERSION < v) \<longrightarrow> (\<exists>e. check_or_stamp rd cd db = Inl e))
    \<and> (\<forall>db'. check_or_stamp rd cd db = Inr db' \<longrightarrow>
         version_of cd c db' = Some CURRENT_SCHEMA_VERSION \<and> (\<forall>t. t \<noteq> SCHEMA_META_TABLE \<longrightarrow> c db' t = c db t))"
proof (intro conjI)
  show "(\<exists>v. version_of cd c db = Some v \<and> CURRENT_SCHEMA_VERSION < v) \<longrightarrow> (\<exists>e. check_or_stamp rd cd db = Inl e)"
    using stored_version_reads [OF assms(1) _ assms(3)]
    by (cases "stored_version rd cd db") (auto simp: check_or_stamp_def)
  show "\<forall>db'. check_or_stamp rd cd db = Inr db' \<longrightarrow>
      version_of cd c db' = Some CURRENT_SCHEMA_VERSION \<and> (\<forall>t. t \<noteq> SCHEMA_META_TABLE \<longrightarrow> c db' t = c db t)"
    using stamp_contents [OF assms(1)] assms(2)
    by (auto simp: check_or_stamp_def and_then_Inr_iff version_of_def u64_codec_laws_def split: option.splits if_splits)
qed

definition unary_codec :: u64_codec where
  "unary_codec = \<lparr>u64_bytes = (\<lambda>v. replicate (unat v) CHR ''1''), u64_value = (\<lambda>s. of_nat (length s))\<rparr>"

end
