(* ===== verification/MessageStore.thy ===== *)
theory MessageStore
  imports Messages Schema
begin

text \<open>
  \<open>MessageStore\<close> of \<open>heramind-storage/src/messages.rs\<close>: the message table, its history and the index
  of active messages, over the database operations of \<open>Redb\<close> and a JSON codec for stored messages.
\<close>

section \<open>The store\<close>

text \<open>\<open>serde_json::to_string\<close> and \<open>from_str\<close> at \<open>StoredMessage\<close>.\<close>

record sm_codec =
  sm_to_json :: "stored_message \<Rightarrow> (string, string) rust_result"
  sm_from_json :: "string \<Rightarrow> (string, stored_message) rust_result"

definition sm_codec_laws :: "sm_codec \<Rightarrow> bool" where
  "sm_codec_laws cd \<longleftrightarrow> (\<forall>m j. sm_to_json cd m = Inr j \<longrightarrow> sm_from_json cd j = Inr m)"

definition MESSAGES_TABLE :: string where
  "MESSAGES_TABLE = ''messages''"

definition HISTORY_TABLE :: string where
  "HISTORY_TABLE = ''messages_history''"

definition ACTIVE_TABLE :: string where
  "ACTIVE_TABLE = ''messages_active''"

definition sm_is_active :: "stored_message \<Rightarrow> bool" where
  "sm_is_active m \<longleftrightarrow> sm_status m = ''active''"

definition open_messages :: "'d redb \<Rightarrow> 'd \<Rightarrow> (string, 'd) rust_result" where
  "open_messages rd w = ctx ''Failed to open messages table'' (open_write rd MESSAGES_TABLE w)"

definition open_active :: "'d redb \<Rightarrow> 'd \<Rightarrow> (string, 'd) rust_result" where
  "open_active rd w = ctx ''Failed to open active table'' (open_write rd ACTIVE_TABLE w)"

text \<open>\<open>MessageStore::open\<close>, given the database that \<open>Database::create\<close> returned.\<close>

definition ms_open :: "'d redb \<Rightarrow> u64_codec \<Rightarrow> 'd \<Rightarrow> (string, 'd) rust_result" where
  "ms_open rd ucd db =
     and_then (ctx ''schema version'' (check_or_stamp rd ucd db)) (\<lambda>db.
     and_then (ctx ''Failed to begin write'' (begin_write rd db)) (\<lambda>w.
     and_then (open_messages rd w) (\<lambda>w.
     and_then (ctx ''Failed to open history table'' (open_write rd HISTORY_TABLE w)) (\<lambda>w.
     and_then (open_active rd w) (\<lambda>w.
     ctx ''Failed to commit'' (commit rd w))))))"

definition index_inserted :: "'d redb \<Rightarrow> stored_message \<Rightarrow> 'd \<Rightarrow> (string, 'd) rust_result" where
  "index_inserted rd msg w =
     (if sm_is_active msg
      then and_then (open_active rd w) (\<lambda>w.
             ctx ''Failed to index active message'' (tbl_insert rd ACTIVE_TABLE (sm_id msg) ''1'' w))
      else Inr w)"

definition ms_insert :: "'d redb \<Rightarrow> sm_codec \<Rightarrow> stored_message \<Rightarrow> 'd \<Rightarrow> (string, 'd) rust_result" where
  "ms_insert rd cd msg db =
     and_then (ctx ''Failed to begin write'' (begin_write rd db)) (\<lambda>w.
     and_then (ctx ''Failed to serialize message'' (sm_to_json cd msg)) (\<lambda>json.
     and_then (open_messages rd w) (\<lambda>w.
     and_then (ctx ''Failed to insert message'' (tbl_insert rd MESSAGES_TABLE (sm_id msg) json w)) (\<lambda>w.
     and_then (index_inserted rd msg w) (\<lambda>w.
     and_then (ctx ''Failed to open history table'' (open_write rd HISTORY_TABLE w)) (\<lambda>w.
     and_then (ctx ''Failed to add to history''
                 (tbl_insert rd HISTORY_TABLE (show_int (sm_timestamp msg) @ ''_'' @ sm_id msg) json w)) (\<lambda>w.
     ctx ''Failed to commit'' (commit rd w))))))))"

definition ms_get ::
    "'d redb \<Rightarrow> sm_codec \<Rightarrow> string \<Rightarrow> 'd \<Rightarrow> (string, stored_message option) rust_result" where
  "ms_get rd cd ident db =
     and_then (ctx ''Failed to begin read'' (begin_read rd db)) (\<lambda>r.
     and_then (ctx ''Failed to open messages table'' (open_read rd MESSAGES_TABLE r)) (\<lambda>r.
     case tbl_get rd MESSAGES_TABLE ident r of
       Inr (Some json) \<Rightarrow>
         and_then (ctx ''Failed to deserialize message'' (sm_from_json cd json)) (\<lambda>m. Inr (Some m))
     | Inr None \<Rightarrow> Inr None
     | Inl e \<Rightarrow> Inl (''Failed to read message: '' @ e)))"

definition was_active :: "sm_codec \<Rightarrow> string option \<Rightarrow> bool" where
  "was_active cd v =
     (case v of
        Some json \<Rightarrow> (case sm_from_json cd json of Inr m \<Rightarrow> sm_is_active m | Inl _ \<Rightarrow> False)
      | None \<Rightarrow> False)"

definition update_active_index :: "'d redb \<Rightarrow> stored_message \<Rightarrow> bool \<Rightarrow> 'd \<Rightarrow> (string, 'd) rust_result" where
  "update_active_index rd msg was w =
     (if sm_is_active msg
      then ctx ''Failed to index active message'' (tbl_insert rd ACTIVE_TABLE (sm_id msg) ''1'' w)
      else if was
      then and_then (ctx ''Failed to update active index'' (tbl_remove rd ACTIVE_TABLE (sm_id msg) w)) (\<lambda>(_, w). Inr w)
      else Inr w)"

definition ms_update :: "'d redb \<Rightarrow> sm_codec \<Rightarrow> stored_message \<Rightarrow> 'd \<Rightarrow> (string, 'd) rust_result" where
  "ms_update rd cd msg db =
     and_then (ctx ''Failed to begin write'' (begin_write rd db)) (\<lambda>w.
     and_then (ctx ''Failed to serialize message'' (sm_to_json cd msg)) (\<lambda>json.
     and_then (open_messages rd w) (\<lambda>w.
     and_then (ctx ''Failed to read message'' (tbl_get rd MESSAGES_TABLE (sm_id msg) w)) (\<lambda>old.
     and_then (open_messages rd w) (\<lambda>w.
     and_then (ctx ''Failed to update message'' (tbl_insert rd MESSAGES_TABLE (sm_id msg) json w)) (\<lambda>w.
     and_then (open_active rd w) (\<lambda>w.
     and_then (update_active_index rd msg (was_active cd old) w) (\<lambda>w.
     ctx ''Failed to commit'' (commit rd w)))))))))"

definition unindex_deleted :: "'d redb \<Rightarrow> string \<Rightarrow> bool \<Rightarrow> 'd \<Rightarrow> (string, 'd) rust_result" where
  "unindex_deleted rd ident existed w =
     (if existed
      then and_then (open_active rd w) (\<lambda>w.
           and_then (ctx ''Failed to update active index'' (tbl_remove rd ACTIVE_TABLE ident w)) (\<lambda>(_, w). Inr w))
      else Inr w)"

definition ms_delete :: "'d redb \<Rightarrow> string \<Rightarrow> 'd \<Rightarrow> (string, bool \<times> 'd) rust_result" where
  "ms_delete rd ident db =
     and_then (ctx ''Failed to begin write'' (begin_write rd db)) (\<lambda>w.
     and_then (open_messages rd w) (\<lambda>w.
     and_then (ctx ''Failed to remove message'' (tbl_remove rd MESSAGES_TABLE ident w)) (\<lambda>(existed, w).
     and_then (unindex_deleted rd ident existed w) (\<lambda>w.
     and_then (ctx ''Failed to commit'' (commit rd w)) (\<lambda>db'. Inr (existed, db'))))))"

text \<open>Reading the whole message table: the loop stops at the first entry that cannot be read.\<close>

definition read_entries ::
    "sm_codec \<Rightarrow> (string, string \<times> string) rust_result list \<Rightarrow> (string, (string \<times> stored_message) list) rust_result" where
  "read_entries cd es =
     collect_results (map (\<lambda>e. and_then (ctx ''Failed to read entry'' e) (\<lambda>(k, v).
       and_then (ctx ''Failed to deserialize'' (sm_from_json cd v)) (\<lambda>m. Inr (k, m)))) es)"

definition ms_list :: "'d redb \<Rightarrow> sm_codec \<Rightarrow> 'd \<Rightarrow> (string, stored_message list) rust_result" where
  "ms_list rd cd db =
     and_then (ctx ''Failed to begin read'' (begin_read rd db)) (\<lambda>r.
     and_then (ctx ''Failed to open messages table'' (open_read rd MESSAGES_TABLE r)) (\<lambda>r.
     and_then (ctx ''Failed to iterate'' (tbl_iter rd MESSAGES_TABLE r)) (\<lambda>es.
     and_then (read_entries cd es) (\<lambda>kms.
     Inr (sort_key (\<lambda>m. - sm_timestamp m) (map snd kms))))))"

definition active_entry ::
    "'d redb \<Rightarrow> sm_codec \<Rightarrow> 'd \<Rightarrow> string \<times> string \<Rightarrow> (string, stored_message list) rust_result" where
  "active_entry rd cd r = (\<lambda>(k, _).
     and_then (ctx ''Failed to read message'' (tbl_get rd MESSAGES_TABLE k r)) (\<lambda>v.
     case v of
       Some json \<Rightarrow> and_then (ctx ''Failed to deserialize'' (sm_from_json cd json)) (\<lambda>m. Inr [m])
     | None \<Rightarrow> Inr []))"

definition ms_list_active :: "'d redb \<Rightarrow> sm_codec \<Rightarrow> 'd \<Rightarrow> (string, stored_message list) rust_result" where
  "ms_list_active rd cd db =
     and_then (ctx ''Failed to begin read'' (begin_read rd db)) (\<lambda>r.
     and_then (ctx ''Failed to open active table'' (open_read rd ACTIVE_TABLE r)) (\<lambda>r.
     and_then (ctx ''Failed to open messages table'' (open_read rd MESSAGES_TABLE r)) (\<lambda>r.
     and_then (ctx ''Failed to iterate'' (tbl_iter rd ACTIVE_TABLE r)) (\<lambda>es.
     and_then (collect_results (map (\<lambda>e. and_then (ctx ''Failed to read entry'' e) (active_entry rd cd r)) es)) (\<lambda>mss.
     Inr (sort_key (\<lambda>m. - sm_timestamp m) (concat mss)))))))"

definition ms_list_by_status ::
    "'d redb \<Rightarrow> sm_codec \<Rightarrow> string \<Rightarrow> 'd \<Rightarrow> (string, stored_message list) rust_result" where
  "ms_list_by_status rd cd st db =
     and_then (ms_list rd cd db) (\<lambda>ms. Inr (filter (\<lambda>m. sm_status m = st) ms))"

definition ms_list_by_category ::
    "'d redb \<Rightarrow> sm_codec \<Rightarrow> string \<Rightarrow> 'd \<Rightarrow> (string, stored_message list) rust_result" where
  "ms_list_by_category rd cd cat db =
     and_then (ms_list rd cd db) (\<lambda>ms. Inr (filter (\<lambda>m. sm_category m = cat) ms))"

definition ms_list_by_severity ::
    "'d redb \<Rightarrow> sm_codec \<Rightarrow> string \<Rightarrow> 'd \<Rightarrow> (string, stored_message list) rust_result" where
  "ms_list_by_severity rd cd sev db =
     and_then (ms_list rd cd db) (\<lambda>ms. Inr (filter (\<lambda>m. sm_severity m = sev) ms))"

fun remove_all :: "'d redb \<Rightarrow> string list \<Rightarrow> 'd \<Rightarrow> (string, 'd) rust_result" where
  "remove_all rd [] w = Inr w"
| "remove_all rd (k # ks) w =
     and_then (ctx ''Failed to remove message'' (tbl_remove rd MESSAGES_TABLE k w)) (\<lambda>(_, w). remove_all rd ks w)"

text \<open>Entries removed with \<open>.ok()\<close>: a failure is dropped.\<close>

fun remove_ok :: "'d redb \<Rightarrow> string \<Rightarrow> string list \<Rightarrow> 'd \<Rightarrow> 'd" where
  "remove_ok rd t [] w = w"
| "remove_ok rd t (k # ks) w =
     remove_ok rd t ks (case tbl_remove rd t k w of Inr (_, w') \<Rightarrow> w' | Inl _ \<Rightarrow> w)"

definition ms_cleanup_old ::
    "'d redb \<Rightarrow> sm_codec \<Rightarrow> date_time \<Rightarrow> int \<Rightarrow> 'd \<Rightarrow> (string, nat \<times> 'd) rust_result" where
  "ms_cleanup_old rd cd now older_than_days db =
     (let cutoff = timestamp now - older_than_days * 86400 in
      and_then (ctx ''Failed to begin write'' (begin_write rd db)) (\<lambda>w.
      and_then (open_messages rd w) (\<lambda>w.
      and_then (ctx ''Failed to iterate'' (tbl_iter rd MESSAGES_TABLE w)) (\<lambda>es.
      and_then (read_entries cd es) (\<lambda>kms.
      let to_remove = map fst (filter (\<lambda>(_, m). sm_timestamp m < cutoff) kms) in
      and_then (open_messages rd w) (\<lambda>w.
      and_then (remove_all rd to_remove w) (\<lambda>w.
      and_then (open_active rd w) (\<lambda>w.
      and_then (ctx ''Failed to commit'' (commit rd (remove_ok rd ACTIVE_TABLE to_remove w))) (\<lambda>db'.
      Inr (length to_remove, db'))))))))))"

text \<open>\<open>iter.flatten()\<close> drops the entries that cannot be read.\<close>

definition flatten_keys :: "(string, string \<times> string) rust_result list \<Rightarrow> string list" where
  "flatten_keys es = concat (map (\<lambda>e. case e of Inr (k, _) \<Rightarrow> [k] | Inl _ \<Rightarrow> []) es)"

definition ms_clear :: "'d redb \<Rightarrow> 'd \<Rightarrow> (string, 'd) rust_result" where
  "ms_clear rd db =
     and_then (ctx ''Failed to begin write'' (begin_write rd db)) (\<lambda>w.
     and_then (open_messages rd w) (\<lambda>w.
     and_then (ctx ''Failed to iterate'' (tbl_iter rd MESSAGES_TABLE w)) (\<lambda>ms.
     and_then (open_active rd w) (\<lambda>w.
     and_then (ctx ''Failed to iterate'' (tbl_iter rd ACTIVE_TABLE w)) (\<lambda>as.
     and_then (open_messages rd w) (\<lambda>w.
     and_then (open_active rd (remove_ok rd MESSAGES_TABLE (flatten_keys ms) w)) (\<lambda>w.
     ctx ''Failed to commit'' (commit rd (remove_ok rd ACTIVE_TABLE (flatten_keys as) w)))))))))"

record message_stats =
  st_total :: nat
  st_active :: nat
  st_by_category :: "(string, nat) hash_map"
  st_by_severity :: "(string, nat) hash_map"
  st_by_status :: "(string, nat) hash_map"

definition ms_get_stats :: "'d redb \<Rightarrow> sm_codec \<Rightarrow> 'd \<Rightarrow> (string, message_stats) rust_result" where
  "ms_get_stats rd cd db =
     and_then (ms_list rd cd db) (\<lambda>all.
     and_then (ms_list_active rd cd db) (\<lambda>active.
     Inr \<lparr>st_total = length all, st_active = length active,
          st_by_category = fold (\<lambda>m. count_in (sm_category m)) all [],
          st_by_severity = fold (\<lambda>m. count_in (sm_severity m)) all [],
          st_by_status = fold (\<lambda>m. count_in (sm_status m)) all []\<rparr>))"

section \<open>What the operations do to the tables\<close>

lemmas table_names = MESSAGES_TABLE_def HISTORY_TABLE_def ACTIVE_TABLE_def

lemma table_names_distinct [simp]:
  "MESSAGES_TABLE \<noteq> ACTIVE_TABLE" "ACTIVE_TABLE \<noteq> MESSAGES_TABLE"
  "MESSAGES_TABLE \<noteq> HISTORY_TABLE" "HISTORY_TABLE \<noteq> MESSAGES_TABLE"
  "ACTIVE_TABLE \<noteq> HISTORY_TABLE" "HISTORY_TABLE \<noteq> ACTIVE_TABLE"
  by (simp_all add: table_names)

lemma open_contents:
  assumes "redb_laws rd c"
  shows "open_messages rd w = Inr w' \<Longrightarrow> c w' = c w" "open_active rd w = Inr w' \<Longrightarrow> c w' = c w"
  using redb_snapshots [OF assms] by (auto simp: open_messages_def open_active_def)

lemma index_inserted_contents:
  assumes L: "redb_laws rd c" and "index_inserted rd msg w = Inr w'"
  shows "c w' = (c w)(ACTIVE_TABLE :=
      (if sm_is_active msg then (c w ACTIVE_TABLE)(sm_id msg \<mapsto> ''1'') else c w ACTIVE_TABLE))"
  using assms(2) by (auto simp: index_inserted_def open_contents [OF L] redb_insert [OF L] split: if_splits)

lemma ms_insert_contents:
  assumes L: "redb_laws rd c" and "ms_insert rd cd msg db = Inr db'"
  obtains json where "sm_to_json cd msg = Inr json"
    and "c db' MESSAGES_TABLE = (c db MESSAGES_TABLE)(sm_id msg \<mapsto> json)"
    and "c db' ACTIVE_TABLE =
      (if sm_is_active msg then (c db ACTIVE_TABLE)(sm_id msg \<mapsto> ''1'') else c db ACTIVE_TABLE)"
  using assms(2)
  by (auto simp: ms_insert_def redb_snapshots [OF L] open_contents [OF L] redb_insert [OF L]
      index_inserted_contents [OF L])

lemma update_active_index_contents:
  assumes L: "redb_laws rd c" and "update_active_index rd msg was w = Inr w'"
  shows "c w' = (c w)(ACTIVE_TABLE :=
      (if sm_is_active msg then (c w ACTIVE_TABLE)(sm_id msg \<mapsto> ''1'')
       else if was then (c w ACTIVE_TABLE)(sm_id msg := None) else c w ACTIVE_TABLE))"
  using assms(2) by (auto simp: update_active_index_def redb_insert [OF L] dest: redb_remove [OF L] split: if_splits)

lemma unindex_deleted_contents:
  assumes L: "redb_laws rd c" and "unindex_deleted rd ident b w = Inr w'"
  shows "c w' = (c w)(ACTIVE_TABLE := (if b then (c w ACTIVE_TABLE)(ident := None) else c w ACTIVE_TABLE))"
  using assms(2) by (auto simp: unindex_deleted_def open_contents [OF L] dest: redb_remove [OF L] split: if_splits)

lemma ms_update_contents:
  assumes L: "redb_laws rd c" and "ms_update rd cd msg db = Inr db'"
  obtains json where "sm_to_json cd msg = Inr json"
    and "c db' MESSAGES_TABLE = (c db MESSAGES_TABLE)(sm_id msg \<mapsto> json)"
    and "c db' ACTIVE_TABLE =
      (if sm_is_active msg then (c db ACTIVE_TABLE)(sm_id msg \<mapsto> ''1'')
       else if was_active cd (c db MESSAGES_TABLE (sm_id msg)) then (c db ACTIVE_TABLE)(sm_id msg := None)
       else c db ACTIVE_TABLE)"
proof -
  from assms(2) obtain w1 json w2 old w3 w4 w5 w6 where
    st: "begin_write rd db = Inr w1" "open_messages rd w1 = Inr w2" "open_messages rd w2 = Inr w3"
      "tbl_insert rd MESSAGES_TABLE (sm_id msg) json w3 = Inr w4" "open_active rd w4 = Inr w5" "commit rd w6 = Inr db'"
    and json: "sm_to_json cd msg = Inr json"
    and old: "tbl_get rd MESSAGES_TABLE (sm_id msg) w2 = Inr old"
    and idx: "update_active_index rd msg (was_active cd old) w5 = Inr w6"
    by (auto simp: ms_update_def)
  have "old = c db MESSAGES_TABLE (sm_id msg)"
    using redb_get [OF L old] st by (simp add: redb_snapshots [OF L] open_contents [OF L])
  moreover have "c w5 = (c db)(MESSAGES_TABLE := (c db MESSAGES_TABLE)(sm_id msg \<mapsto> json))"
    using st by (simp add: redb_snapshots [OF L] open_contents [OF L] redb_insert [OF L])
  moreover have "c db' = c w6" using st by (simp add: redb_snapshots [OF L])
  ultimately show thesis
    using that [OF json] update_active_index_contents [OF L idx] by simp
qed

lemma ms_delete_contents:
  assumes L: "redb_laws rd c" and "ms_delete rd ident db = Inr (b, db')"
  shows "b = (c db MESSAGES_TABLE ident \<noteq> None)"
    and "c db' MESSAGES_TABLE = (c db MESSAGES_TABLE)(ident := None)"
    and "c db' ACTIVE_TABLE = (if b then (c db ACTIVE_TABLE)(ident := None) else c db ACTIVE_TABLE)"
proof -
  from assms(2) obtain w1 w2 w3 w4 where
    st: "begin_write rd db = Inr w1" "open_messages rd w1 = Inr w2"
      "tbl_remove rd MESSAGES_TABLE ident w2 = Inr (b, w3)" "commit rd w4 = Inr db'"
    and idx: "unindex_deleted rd ident b w3 = Inr w4"
    by (auto simp: ms_delete_def)
  have "c w3 = (c db)(MESSAGES_TABLE := (c db MESSAGES_TABLE)(ident := None))"
    and b: "b = (c db MESSAGES_TABLE ident \<noteq> None)"
    using redb_remove [OF L st(3)] st by (simp_all add: redb_snapshots [OF L] open_contents [OF L])
  with unindex_deleted_contents [OF L idx] redb_snapshots(5) [OF L st(4)]
  show "c db' MESSAGES_TABLE = (c db MESSAGES_TABLE)(ident := None)"
    "c db' ACTIVE_TABLE = (if b then (c db ACTIVE_TABLE)(ident := None) else c db ACTIVE_TABLE)"
    by simp_all
  show "b = (c db MESSAGES_TABLE ident \<noteq> None)" by (rule b)
qed

section \<open>The index of active messages\<close>

definition active_index_ok :: "'d contents \<Rightarrow> sm_codec \<Rightarrow> 'd \<Rightarrow> bool" where
  "active_index_ok c cd d \<longleftrightarrow>
     (\<forall>k. c d ACTIVE_TABLE k \<noteq> None \<longleftrightarrow> was_active cd (c d MESSAGES_TABLE k))"

lemma was_active_encoded:
  "sm_codec_laws cd \<Longrightarrow> sm_to_json cd m = Inr j \<Longrightarrow> was_active cd (Some j) = sm_is_active m"
  by (simp add: sm_codec_laws_def was_active_def)

lemma was_active_iff:
  "was_active cd v \<longleftrightarrow> (\<exists>j m. v = Some j \<and> sm_from_json cd j = Inr m \<and> sm_is_active m)"
  by (auto simp: was_active_def split: option.splits sum.splits)

lemma was_active_None [simp]: "\<not> was_active cd None"
  by (simp add: was_active_def)

section \<open>Listings\<close>

lemma collect_results_map:
  "collect_results (map f es) = Inr ys \<longleftrightarrow> list_all2 (\<lambda>e y. f e = Inr y) es ys"
  by (induction es arbitrary: ys) (auto simp: list_all2_Cons1)

text \<open>A loop over the entries of a table that reaches its end has read every entry.\<close>

lemma entries_read:
  assumes "list_all2 (\<lambda>e y. and_then (ctx what e) (f :: _ \<Rightarrow> (string, _) rust_result) = Inr y) es ys"
  shows "\<exists>kvs. es = map Inr kvs \<and> list_all2 (\<lambda>kv y. f kv = Inr y) kvs ys"
  using assms
proof (induction es ys rule: list_all2_induct)
  case (Cons e es y ys)
  then obtain kvs kv where "es = map Inr kvs" "list_all2 (\<lambda>kv y. f kv = Inr y) kvs ys" "e = Inr kv" "f kv = Inr y"
    by auto
  then show ?case by (intro exI [of _ "kv # kvs"]) simp
qed simp

lemma entries_set:
  assumes "redb_laws rd c" "tbl_iter rd t d = Inr (map Inr kvs)"
  shows "set kvs = {(k, v). c d t k = Some v}"
  using redb_iter [OF assms] by (auto simp: map_of_eq_Some_iff [symmetric])

lemma list_all2_set1: "list_all2 P xs ys \<Longrightarrow> x \<in> set xs \<Longrightarrow> \<exists>y \<in> set ys. P x y"
  by (induction xs ys rule: list_all2_induct) auto

lemma list_all2_set2: "list_all2 P xs ys \<Longrightarrow> y \<in> set ys \<Longrightarrow> \<exists>x \<in> set xs. P x y"
  by (induction xs ys rule: list_all2_induct) auto

datatype store_op = SInsert stored_message | SUpdate stored_message | SDelete string | SCleanup date_time int | SClear

text \<open>One call of the store: a call that fails returns before the commit, so the database stays.\<close>

fun store_step :: "'d redb \<Rightarrow> sm_codec \<Rightarrow> store_op \<Rightarrow> 'd \<Rightarrow> 'd" where
  "store_step rd cd (SInsert m) db = (case ms_insert rd cd m db of Inr db' \<Rightarrow> db' | Inl _ \<Rightarrow> db)"
| "store_step rd cd (SUpdate m) db = (case ms_update rd cd m db of Inr db' \<Rightarrow> db' | Inl _ \<Rightarrow> db)"
| "store_step rd cd (SDelete k) db = (case ms_delete rd k db of Inr (_, db') \<Rightarrow> db' | Inl _ \<Rightarrow> db)"
| "store_step rd cd (SCleanup now days) db = (case ms_cleanup_old rd cd now days db of Inr (_, db') \<Rightarrow> db' | Inl _ \<Rightarrow> db)"
| "store_step rd cd SClear db = (case ms_clear rd db of Inr db' \<Rightarrow> db' | Inl _ \<Rightarrow> db)"

text \<open>Clean-up and clear drop the failures of single entries; this says that there are none: every removal of a key
  and every entry of a listing succeeds.\<close>

definition sweeps_succeed :: "'d redb \<Rightarrow> bool" where
  "sweeps_succeed rd \<longleftrightarrow> (\<forall>t k w. \<not> isl (tbl_remove rd t k w)) \<and> (\<forall>t w es. tbl_iter rd t w = Inr es \<longrightarrow> list_all (\<lambda>e. \<not> isl e) es)"

fun store_op_ok :: "'d redb \<Rightarrow> store_op \<Rightarrow> bool" where
  "store_op_ok rd (SInsert m) = sm_is_active m"
| "store_op_ok rd (SCleanup now days) = sweeps_succeed rd"
| "store_op_ok rd SClear = sweeps_succeed rd"
| "store_op_ok rd _ = True"

lemma not_isl_Inr: "\<not> isl r \<Longrightarrow> \<exists>a. r = Inr a"
  by (cases r) auto

lemma all_entries_read: "list_all (\<lambda>e. \<not> isl e) es \<Longrightarrow> \<exists>kvs. es = map Inr kvs"
proof (induction es)
  case (Cons e es)
  then obtain kv kvs where "e = Inr kv" "es = map Inr kvs" using not_isl_Inr [of e] by auto
  then show ?case by (intro exI [of _ "kv # kvs"]) simp
qed simp

lemma remove_all_contents:
  assumes L: "redb_laws rd c" and "remove_all rd ks w = Inr w'"
  shows "c w' = (c w)(MESSAGES_TABLE := (\<lambda>k. if k \<in> set ks then None else c w MESSAGES_TABLE k))"
  using assms(2)
proof (induction ks arbitrary: w)
  case (Cons k ks)
  then obtain b u where r: "tbl_remove rd MESSAGES_TABLE k w = Inr (b, u)" and rest: "remove_all rd ks u = Inr w'" by auto
  show ?case unfolding Cons.IH [OF rest] using redb_remove [OF L r] by (auto simp: fun_eq_iff)
qed simp

lemma remove_ok_contents:
  assumes L: "redb_laws rd c" and S: "sweeps_succeed rd"
  shows "c (remove_ok rd t ks w) = (c w)(t := (\<lambda>k. if k \<in> set ks then None else c w t k))"
proof (induction ks arbitrary: w)
  case (Cons k ks)
  obtain b u where r: "tbl_remove rd t k w = Inr (b, u)"
    using S not_isl_Inr [of "tbl_remove rd t k w"] by (auto simp: sweeps_succeed_def)
  show ?case unfolding remove_ok.simps r by (simp add: Cons.IH redb_remove [OF L r] fun_eq_iff)
qed simp

lemma read_entries_keys:
  assumes "read_entries cd (map Inr kvs) = Inr kms"
  shows "list_all2 (\<lambda>(k, v) (k', m). k' = k \<and> sm_from_json cd v = Inr m) kvs kms"
  using assms unfolding read_entries_def collect_results_map list_all2_map1 by (rule list_all2_mono) auto

text \<open>A clean-up removes the old messages from both tables.\<close>

lemma ms_cleanup_contents:
  assumes L: "redb_laws rd c" and S: "sweeps_succeed rd" and "ms_cleanup_old rd cd now days db = Inr (n, db')"
  obtains ks where
    "\<And>k. k \<in> set ks \<longleftrightarrow> (\<exists>j m. c db MESSAGES_TABLE k = Some j \<and> sm_from_json cd j = Inr m \<and> sm_timestamp m < timestamp now - days * 86400)"
    and "c db' MESSAGES_TABLE = (\<lambda>k. if k \<in> set ks then None else c db MESSAGES_TABLE k)"
    and "c db' ACTIVE_TABLE = (\<lambda>k. if k \<in> set ks then None else c db ACTIVE_TABLE k)"
proof -
  let ?cut = "timestamp now - days * 86400"
  from assms(3) obtain w w1 es kms w2 w3 w4 where
    st: "begin_write rd db = Inr w" "open_messages rd w = Inr w1" "tbl_iter rd MESSAGES_TABLE w1 = Inr es"
    and kms: "read_entries cd es = Inr kms" and "open_messages rd w1 = Inr w2"
    and rest: "remove_all rd (map fst (filter (\<lambda>(_, m). sm_timestamp m < ?cut) kms)) w2 = Inr w3" "open_active rd w3 = Inr w4"
      "commit rd (remove_ok rd ACTIVE_TABLE (map fst (filter (\<lambda>(_, m). sm_timestamp m < ?cut) kms)) w4) = Inr db'"
    by (auto simp: ms_cleanup_old_def Let_def)
  let ?ks = "map fst (filter (\<lambda>(_, m). sm_timestamp m < ?cut) kms)"
  obtain kvs where kvs: "es = map Inr kvs" using S st(3) all_entries_read [of es] by (auto simp: sweeps_succeed_def)
  have c1: "c w1 = c db" using st by (simp add: redb_snapshots [OF L] open_contents [OF L])
  have c2: "c w2 = c db" using \<open>open_messages rd w1 = Inr w2\<close> c1 by (simp add: open_contents [OF L])
  have kv: "set kvs = {(k, v). c db MESSAGES_TABLE k = Some v}"
    using entries_set [OF L st(3) [unfolded kvs]] c1 by simp
  note l2 = read_entries_keys [OF kms [unfolded kvs]]
  show thesis
  proof (rule that)
    show "k \<in> set ?ks \<longleftrightarrow> (\<exists>j m. c db MESSAGES_TABLE k = Some j \<and> sm_from_json cd j = Inr m \<and> sm_timestamp m < ?cut)" for k
    proof
      assume "k \<in> set ?ks"
      then obtain m where "(k, m) \<in> set kms" "sm_timestamp m < ?cut" by auto
      with list_all2_set2 [OF l2, of "(k, m)"] kv show "\<exists>j m. c db MESSAGES_TABLE k = Some j \<and> sm_from_json cd j = Inr m \<and> sm_timestamp m < ?cut"
        by auto
    next
      assume "\<exists>j m. c db MESSAGES_TABLE k = Some j \<and> sm_from_json cd j = Inr m \<and> sm_timestamp m < ?cut"
      then obtain j m where "(k, j) \<in> set kvs" "sm_from_json cd j = Inr m" "sm_timestamp m < ?cut" using kv by auto
      with list_all2_set1 [OF l2 this(1)] show "k \<in> set ?ks" by force
    qed
    show "c db' MESSAGES_TABLE = (\<lambda>k. if k \<in> set ?ks then None else c db MESSAGES_TABLE k)"
      "c db' ACTIVE_TABLE = (\<lambda>k. if k \<in> set ?ks then None else c db ACTIVE_TABLE k)"
    proof -
      have "c w4 = (c db)(MESSAGES_TABLE := (\<lambda>k. if k \<in> set ?ks then None else c db MESSAGES_TABLE k))"
        unfolding open_contents(2) [OF L rest(2)] remove_all_contents [OF L rest(1)] c2 ..
      then show "c db' MESSAGES_TABLE = (\<lambda>k. if k \<in> set ?ks then None else c db MESSAGES_TABLE k)"
        "c db' ACTIVE_TABLE = (\<lambda>k. if k \<in> set ?ks then None else c db ACTIVE_TABLE k)"
        unfolding redb_snapshots(5) [OF L rest(3)] remove_ok_contents [OF L S] by (simp_all cong: if_cong)
    qed
  qed
qed

lemma flatten_keys_map [simp]: "flatten_keys (map Inr kvs) = map fst kvs"
  by (induction kvs) (auto simp: flatten_keys_def)

lemma ms_clear_contents:
  assumes L: "redb_laws rd c" and S: "sweeps_succeed rd" and "ms_clear rd db = Inr db'"
  shows "c db' MESSAGES_TABLE = Map.empty" and "c db' ACTIVE_TABLE = Map.empty"
proof -
  from assms(3) obtain w w1 ms w2 as w3 w4 where
    st: "begin_write rd db = Inr w" "open_messages rd w = Inr w1" "tbl_iter rd MESSAGES_TABLE w1 = Inr ms"
      "open_active rd w1 = Inr w2" "tbl_iter rd ACTIVE_TABLE w2 = Inr as" "open_messages rd w2 = Inr w3"
      "open_active rd (remove_ok rd MESSAGES_TABLE (flatten_keys ms) w3) = Inr w4"
      "commit rd (remove_ok rd ACTIVE_TABLE (flatten_keys as) w4) = Inr db'"
    by (auto simp: ms_clear_def)
  obtain mkvs akvs where kvs: "ms = map Inr mkvs" "as = map Inr akvs"
    using S st(3,5) all_entries_read [of ms] all_entries_read [of as] by (auto simp: sweeps_succeed_def)
  have c: "c w1 = c db" "c w2 = c db" "c w3 = c db"
    using st(1,2,4,6) by (simp_all add: redb_snapshots [OF L] open_contents [OF L])
  have gone: "k \<notin> fst ` set mkvs \<Longrightarrow> c db MESSAGES_TABLE k = None" "k \<notin> fst ` set akvs \<Longrightarrow> c db ACTIVE_TABLE k = None" for k
    using entries_set [OF L st(3) [unfolded kvs]] entries_set [OF L st(5) [unfolded kvs]] c(1,2) by force+
  show "c db' MESSAGES_TABLE = Map.empty" "c db' ACTIVE_TABLE = Map.empty"
    using st(7,8) gone c(3)
    by (auto simp: redb_snapshots [OF L] open_contents [OF L] remove_ok_contents [OF L S] kvs fun_eq_iff)
qed

lemma store_step_index:
  assumes L: "redb_laws rd c" and C: "sm_codec_laws cd" and "store_op_ok rd op" and I: "active_index_ok c cd db"
  shows "active_index_ok c cd (store_step rd cd op db)"
proof (cases op)
  case (SInsert m)
  show ?thesis
  proof (cases "ms_insert rd cd m db")
    case (Inr db')
    from ms_insert_contents [OF L this] obtain j where
      "sm_to_json cd m = Inr j" "c db' MESSAGES_TABLE = (c db MESSAGES_TABLE)(sm_id m \<mapsto> j)"
      "c db' ACTIVE_TABLE = (c db ACTIVE_TABLE)(sm_id m \<mapsto> ''1'')"
      using assms(3) SInsert by auto
    with Inr I SInsert assms(3) show ?thesis
      by (auto simp: active_index_ok_def was_active_encoded [OF C])
  qed (use I SInsert in simp)
next
  case (SUpdate m)
  show ?thesis
  proof (cases "ms_update rd cd m db")
    case (Inr db')
    from ms_update_contents [OF L this] obtain j where
      "sm_to_json cd m = Inr j" "c db' MESSAGES_TABLE = (c db MESSAGES_TABLE)(sm_id m \<mapsto> j)"
      "c db' ACTIVE_TABLE = (if sm_is_active m then (c db ACTIVE_TABLE)(sm_id m \<mapsto> ''1'')
       else if was_active cd (c db MESSAGES_TABLE (sm_id m)) then (c db ACTIVE_TABLE)(sm_id m := None)
       else c db ACTIVE_TABLE)" by blast
    with Inr I SUpdate show ?thesis
      by (auto simp: active_index_ok_def was_active_encoded [OF C])
  qed (use I SUpdate in simp)
next
  case (SDelete k)
  show ?thesis
  proof (cases "ms_delete rd k db")
    case (Inr r)
    obtain b db' where r: "r = (b, db')" by (cases r)
    from ms_delete_contents [OF L Inr [unfolded r]] I have "active_index_ok c cd db'"
      by (auto simp: active_index_ok_def)
    with Inr r SDelete show ?thesis by simp
  qed (use I SDelete in simp)
next
  case (SCleanup now days)
  show ?thesis
  proof (cases "ms_cleanup_old rd cd now days db")
    case (Inr r)
    obtain n db' where r: "r = (n, db')" by (cases r)
    from assms(3) SCleanup have "sweeps_succeed rd" by simp
    from ms_cleanup_contents [OF L this Inr [unfolded r]] I have "active_index_ok c cd db'"
      by (metis (no_types, lifting) active_index_ok_def was_active_None)
    with Inr r SCleanup show ?thesis by simp
  qed (use I SCleanup in simp)
next
  case SClear
  show ?thesis
  proof (cases "ms_clear rd db")
    case (Inr db')
    from assms(3) SClear have "sweeps_succeed rd" by simp
    from ms_clear_contents [OF L this Inr] have "active_index_ok c cd db'" by (simp add: active_index_ok_def)
    with Inr SClear show ?thesis by simp
  qed (use I SClear in simp)
qed

lemma store_run_index:
  assumes "redb_laws rd c" "sm_codec_laws cd" "list_all (store_op_ok rd) ops" "active_index_ok c cd db"
  shows "active_index_ok c cd (fold (store_step rd cd) ops db)"
  using assms(3,4) by (induction ops arbitrary: db) (auto intro: store_step_index [OF assms(1,2)])

lemma ms_list_complete:
  assumes L: "redb_laws rd c" and "ms_list rd cd db = Inr ms"
  shows "m \<in> set ms \<longleftrightarrow> (\<exists>k j. c db MESSAGES_TABLE k = Some j \<and> sm_from_json cd j = Inr m)"
    and "sorted_wrt (\<lambda>a b. sm_timestamp b \<le> sm_timestamp a) ms"
proof -
  from assms(2) obtain q r es kms where "begin_read rd db = Inr q" "open_read rd MESSAGES_TABLE q = Inr r"
    and it: "tbl_iter rd MESSAGES_TABLE r = Inr es" and kms: "read_entries cd es = Inr kms"
    and ms: "sort_key (\<lambda>m. - sm_timestamp m) (map snd kms) = ms"
    unfolding ms_list_def and_then_Inr_iff ctx_Inr_iff sum.inject by blast
  then have r: "c r = c db" "tbl_iter rd MESSAGES_TABLE r = Inr es" by (simp_all add: redb_snapshots [OF L])
  from entries_read [OF kms [unfolded read_entries_def collect_results_map]] obtain kvs where
    kvs: "es = map Inr kvs" and
    l2: "list_all2 (\<lambda>kv y. (\<lambda>(k, v). and_then (ctx ''Failed to deserialize'' (sm_from_json cd v)) (\<lambda>m. Inr (k, m))) kv = Inr y) kvs kms"
    by blast
  have S: "set kvs = {(k, v). c db MESSAGES_TABLE k = Some v}"
    using entries_set [OF L r(2) [unfolded kvs]] r(1) by simp
  show "m \<in> set ms \<longleftrightarrow> (\<exists>k j. c db MESSAGES_TABLE k = Some j \<and> sm_from_json cd j = Inr m)"
  proof
    assume "m \<in> set ms"
    then obtain k where "(k, m) \<in> set kms" using ms by force
    from list_all2_set2 [OF l2 this] S show "\<exists>k j. c db MESSAGES_TABLE k = Some j \<and> sm_from_json cd j = Inr m"
      by auto
  next
    assume "\<exists>k j. c db MESSAGES_TABLE k = Some j \<and> sm_from_json cd j = Inr m"
    then obtain k j where "(k, j) \<in> set kvs" "sm_from_json cd j = Inr m" using S by auto
    with list_all2_set1 [OF l2 this(1)] show "m \<in> set ms" using ms by force
  qed
  have "sorted (map (\<lambda>m. - sm_timestamp m) ms)" unfolding ms [symmetric] by (rule sorted_sort_key)
  then show "sorted_wrt (\<lambda>a b. sm_timestamp b \<le> sm_timestamp a) ms"
    by (simp add: sorted_map)
qed

lemma active_entry_Inr:
  assumes "redb_laws rd c" "active_entry rd cd r (k, v) = Inr ms"
  shows "m \<in> set ms \<longleftrightarrow> (\<exists>j. c r MESSAGES_TABLE k = Some j \<and> sm_from_json cd j = Inr m)"
proof -
  from assms(2) obtain v where "tbl_get rd MESSAGES_TABLE k r = Inr v" by (auto simp: active_entry_def)
  with redb_get [OF assms(1) this] assms(2) show ?thesis by (auto simp: active_entry_def split: option.splits)
qed

lemma ms_list_active_complete:
  assumes L: "redb_laws rd c" and "ms_list_active rd cd db = Inr ms"
  shows "m \<in> set ms \<longleftrightarrow>
    (\<exists>k j. c db ACTIVE_TABLE k \<noteq> None \<and> c db MESSAGES_TABLE k = Some j \<and> sm_from_json cd j = Inr m)"
proof -
  from assms(2) obtain p q r es mss where "begin_read rd db = Inr p" "open_read rd ACTIVE_TABLE p = Inr q"
    "open_read rd MESSAGES_TABLE q = Inr r" and it: "tbl_iter rd ACTIVE_TABLE r = Inr es"
    and mss: "collect_results (map (\<lambda>e. and_then (ctx ''Failed to read entry'' e) (active_entry rd cd r)) es) = Inr mss"
    and ms: "sort_key (\<lambda>m. - sm_timestamp m) (concat mss) = ms"
    unfolding ms_list_active_def and_then_Inr_iff ctx_Inr_iff sum.inject by blast
  then have r: "c r = c db" "tbl_iter rd ACTIVE_TABLE r = Inr es" by (simp_all add: redb_snapshots [OF L])
  from entries_read [OF mss [unfolded collect_results_map]] obtain kvs where
    kvs: "es = map Inr kvs" and l2: "list_all2 (\<lambda>kv y. active_entry rd cd r kv = Inr y) kvs mss"
    by blast
  have S: "set kvs = {(k, v). c db ACTIVE_TABLE k = Some v}"
    using entries_set [OF L r(2) [unfolded kvs]] r(1) by simp
  show ?thesis
  proof
    assume "m \<in> set ms"
    then obtain ys where ys: "ys \<in> set mss" "m \<in> set ys" using ms by auto
    from list_all2_set2 [OF l2 ys(1)] obtain k v where "(k, v) \<in> set kvs" "active_entry rd cd r (k, v) = Inr ys"
      by auto
    with S r(1) ys(2) show "\<exists>k j. c db ACTIVE_TABLE k \<noteq> None \<and> c db MESSAGES_TABLE k = Some j \<and> sm_from_json cd j = Inr m"
      by (auto simp: active_entry_Inr [OF L])
  next
    assume "\<exists>k j. c db ACTIVE_TABLE k \<noteq> None \<and> c db MESSAGES_TABLE k = Some j \<and> sm_from_json cd j = Inr m"
    then obtain k j v where k: "(k, v) \<in> set kvs" "c r MESSAGES_TABLE k = Some j" "sm_from_json cd j = Inr m"
      using S r(1) by auto
    from list_all2_set1 [OF l2 k(1)] obtain ys where "ys \<in> set mss" "active_entry rd cd r (k, v) = Inr ys" by auto
    moreover from this(2) k have "m \<in> set ys" by (auto simp: active_entry_Inr [OF L])
    ultimately show "m \<in> set ms" using ms by auto
  qed
qed

section \<open>Properties\<close>

text \<open>C13. The index of active messages is right after every run of inserts of active messages, updates,
  deletes, clean-ups and clears, whichever of the calls failed: listing the active messages gives exactly
  the messages of the full listing whose status is active. Clean-up and clear ignore a failure on a single
  entry; where one is in the run, single entries do not fail. The hypotheses on the database and on
  the JSON codec are their documented behaviour, and the run starts from a consistent store.\<close>

theorem active_listing_correct:
  assumes "redb_laws rd c" and "sm_codec_laws cd" and "active_index_ok c cd db"
    and "list_all (store_op_ok rd) ops"
    and "ms_list rd cd (fold (store_step rd cd) ops db) = Inr everything"
    and "ms_list_active rd cd (fold (store_step rd cd) ops db) = Inr active"
  shows "set active = {m \<in> set everything. sm_is_active m}"
proof -
  let ?d = "fold (store_step rd cd) ops db"
  have idx: "c ?d ACTIVE_TABLE k \<noteq> None \<longleftrightarrow> was_active cd (c ?d MESSAGES_TABLE k)" for k
    using store_run_index [OF assms(1,2,4,3)] by (simp add: active_index_ok_def)
  show ?thesis
    unfolding set_eq_iff mem_Collect_eq ms_list_complete(1) [OF assms(1,5)]
      ms_list_active_complete [OF assms(1,6)] idx was_active_iff
    by fastforce
qed

definition example_stored :: "string \<Rightarrow> stored_message" where
  "example_stored st = \<lparr>sm_id = ''a'', sm_category = ''alert'', sm_severity = ''info'', sm_title = ''t'',
     sm_message = ''m'', sm_source = ''s'', sm_source_type = None, sm_status = st, sm_tags = None,
     sm_metadata = None, sm_timestamp = 7, sm_acknowledged_at = None, sm_resolved_at = None,
     sm_acknowledged_by = None\<rparr>"

definition example_codec :: sm_codec where
  "example_codec = \<lparr>sm_to_json = (\<lambda>m. if m = example_stored (sm_status m) then Inr (sm_status m) else Inl ''unsupported''),
     sm_from_json = (\<lambda>j. Inr (example_stored j))\<rparr>"

lemma example_codec_laws: "sm_codec_laws example_codec"
  by (auto simp: sm_codec_laws_def example_codec_def split: if_splits)

lemma mem_sweeps: "sweeps_succeed mem_redb"
  by (auto simp: sweeps_succeed_def mem_redb_def list_all_iff)

theorem active_listing_correct_witness:
  "set [] = {m \<in> set [example_stored ''resolved'']. sm_is_active m}"
proof (rule active_listing_correct [OF mem_redb_laws example_codec_laws, of "[]"
      "[SInsert (example_stored ''active''), SUpdate (example_stored ''resolved''), SCleanup 0 1]"])
  show "active_index_ok mem_contents example_codec []"
    by (simp add: active_index_ok_def mem_contents_def)
  show "list_all (store_op_ok mem_redb) [SInsert (example_stored ''active''), SUpdate (example_stored ''resolved''), SCleanup 0 1]"
    using mem_sweeps by (simp add: sm_is_active_def example_stored_def)
qed (simp_all add: sm_is_active_def example_stored_def example_codec_def mem_redb_def active_entry_def mem_entries_def
    ms_insert_def ms_update_def ms_cleanup_old_def timestamp_def ms_list_def ms_list_active_def open_messages_def open_active_def ctx_def
    index_inserted_def update_active_index_def was_active_def read_entries_def table_names AList.clearjunk.simps)

end
