(* ===== verification/ChannelRegistry.thy ===== *)
theory ChannelRegistry
  imports MessageStore
begin

text \<open>
  \<open>ChannelRegistry\<close> of \<open>heramind-messages/src/channels/mod.rs\<close>: the notification channels with their
  configurations, enabled overrides, recipients and filters, kept in memory and in a database.
  A channel is what the trait \<open>MessageChannel\<close> lets the registry see of it; sending is a parameter of
  the code that sends. The email factory and the JSON codecs are parameters as well.
\<close>

section \<open>State\<close>

datatype msg_error =
    NotFound string
  | ChannelDisabled string
  | SendFailed string
  | Storage string
  | InvalidConfiguration string
  | ValidationError string
  | Other string

fun msg_error_fmt :: "msg_error \<Rightarrow> string" where
  "msg_error_fmt (NotFound s) = ''Not found: '' @ s"
| "msg_error_fmt (ChannelDisabled s) = ''Channel disabled: '' @ s"
| "msg_error_fmt (SendFailed s) = ''Send failed: '' @ s"
| "msg_error_fmt (Storage s) = ''Storage failed: '' @ s"
| "msg_error_fmt (InvalidConfiguration s) = ''Invalid configuration: '' @ s"
| "msg_error_fmt (ValidationError s) = ''Validation error: '' @ s"
| "msg_error_fmt (Other s) = ''Other: '' @ s"

record channel =
  ch_name :: string
  ch_type :: string
  ch_is_enabled :: bool
  ch_conf :: json

record stored_channel_config =
  sc_name :: string
  sc_channel_type :: string
  sc_config :: json
  sc_enabled :: bool
  sc_filter :: channel_filter

record 'd channel_registry =
  cr_channels :: "(string, channel) hash_map"
  cr_configs :: "(string, json) hash_map"
  cr_enabled_states :: "(string, bool) hash_map"
  cr_recipients :: "(string, string list) hash_map"
  cr_storage :: "'d option"

record 'd registry_env =
  re_db :: "'d redb"
  sc_to_json :: "stored_channel_config \<Rightarrow> (string, string) rust_result"
  sc_from_json :: "string \<Rightarrow> (string, stored_channel_config) rust_result"
  rcp_to_json :: "string list \<Rightarrow> (string, string) rust_result"
  rcp_from_json :: "string \<Rightarrow> (string, string list) rust_result"
  email_create :: "json \<Rightarrow> (msg_error, channel) rust_result"

definition CHANNELS :: string where
  "CHANNELS = ''channels''"

definition RECIPIENTS :: string where
  "RECIPIENTS = ''recipients''"

definition storage_ctx :: "string \<Rightarrow> (string, 'a) rust_result \<Rightarrow> (msg_error, 'a) rust_result" where
  "storage_ctx what r = map_err (\<lambda>e. Storage (what @ '': '' @ e)) r"

lemma storage_ctx_Inr_iff [simp]: "storage_ctx what r = Inr a \<longleftrightarrow> r = Inr a"
  by (simp add: storage_ctx_def)

definition registry_new :: "'d channel_registry" where
  "registry_new = \<lparr>cr_channels = [], cr_configs = [], cr_enabled_states = [], cr_recipients = [], cr_storage = None\<rparr>"

text \<open>\<open>with_storage\<close>, given the database that \<open>Database::create\<close> returned.\<close>

definition registry_with_storage :: "'d registry_env \<Rightarrow> 'd \<Rightarrow> (msg_error, 'd channel_registry) rust_result" where
  "registry_with_storage env db =
     and_then (storage_ctx ''Failed to begin write'' (begin_write (re_db env) db)) (\<lambda>w.
     and_then (storage_ctx ''Failed to open channels table'' (open_write (re_db env) CHANNELS w)) (\<lambda>w.
     and_then (storage_ctx ''Failed to open recipients table'' (open_write (re_db env) RECIPIENTS w)) (\<lambda>w.
     and_then (storage_ctx ''Failed to commit'' (commit (re_db env) w)) (\<lambda>db'.
     Inr (registry_new\<lparr>cr_storage := Some db'\<rparr>)))))"

section \<open>Persistence\<close>

definition save_channel ::
    "'d registry_env \<Rightarrow> stored_channel_config \<Rightarrow> 'd channel_registry \<Rightarrow> (msg_error, 'd channel_registry) rust_result" where
  "save_channel env stored r =
     (case cr_storage r of
        None \<Rightarrow> Inr r
      | Some db \<Rightarrow>
          and_then (storage_ctx ''Failed to serialize channel config'' (sc_to_json env stored)) (\<lambda>json.
          and_then (storage_ctx ''Failed to begin write'' (begin_write (re_db env) db)) (\<lambda>w.
          and_then (storage_ctx ''Failed to open channels table'' (open_write (re_db env) CHANNELS w)) (\<lambda>w.
          and_then (storage_ctx ''Failed to save channel config''
                      (tbl_insert (re_db env) CHANNELS (sc_name stored) json w)) (\<lambda>w.
          and_then (storage_ctx ''Failed to commit'' (commit (re_db env) w)) (\<lambda>db'.
          Inr (r\<lparr>cr_storage := Some db'\<rparr>)))))))"

definition delete_channel ::
    "'d registry_env \<Rightarrow> string \<Rightarrow> 'd channel_registry \<Rightarrow> (msg_error, 'd channel_registry) rust_result" where
  "delete_channel env name r =
     (case cr_storage r of
        None \<Rightarrow> Inr r
      | Some db \<Rightarrow>
          and_then (storage_ctx ''Failed to begin write'' (begin_write (re_db env) db)) (\<lambda>w.
          and_then (storage_ctx ''Failed to open channels table'' (open_write (re_db env) CHANNELS w)) (\<lambda>w.
          and_then (storage_ctx ''Failed to delete channel config'' (tbl_remove (re_db env) CHANNELS name w)) (\<lambda>(_, w).
          and_then (storage_ctx ''Failed to commit'' (commit (re_db env) w)) (\<lambda>db'.
          Inr (r\<lparr>cr_storage := Some db'\<rparr>))))))"

definition get_filter :: "'d registry_env \<Rightarrow> string \<Rightarrow> 'd channel_registry \<Rightarrow> channel_filter" where
  "get_filter env name r =
     (case cr_storage r of
        None \<Rightarrow> filter_default
      | Some db \<Rightarrow>
          (case and_then (begin_read (re_db env) db) (\<lambda>t.
                and_then (open_read (re_db env) CHANNELS t) (\<lambda>t. tbl_get (re_db env) CHANNELS name t)) of
             Inr (Some v) \<Rightarrow> (case sc_from_json env v of Inr stored \<Rightarrow> sc_filter stored | Inl _ \<Rightarrow> filter_default)
           | _ \<Rightarrow> filter_default))"

definition set_filter ::
    "'d registry_env \<Rightarrow> string \<Rightarrow> channel_filter \<Rightarrow> 'd channel_registry \<Rightarrow> (msg_error, 'd channel_registry) rust_result" where
  "set_filter env name f r =
     (case cr_storage r of
        None \<Rightarrow> Inr r
      | Some db \<Rightarrow>
          and_then (storage_ctx ''Failed to begin read'' (begin_read (re_db env) db)) (\<lambda>t.
          and_then (storage_ctx ''Failed to open channels table'' (open_read (re_db env) CHANNELS t)) (\<lambda>t.
          and_then (storage_ctx ''Failed to read channel'' (tbl_get (re_db env) CHANNELS name t)) (\<lambda>existing.
          case existing of
            None \<Rightarrow> Inr r
          | Some v \<Rightarrow>
              and_then (storage_ctx ''Failed to deserialize channel config'' (sc_from_json env v)) (\<lambda>stored.
              and_then (storage_ctx ''Failed to serialize channel config''
                          (sc_to_json env (stored\<lparr>sc_filter := f\<rparr>))) (\<lambda>json.
              and_then (storage_ctx ''Failed to begin write'' (begin_write (re_db env) db)) (\<lambda>w.
              and_then (storage_ctx ''Failed to open channels table'' (open_write (re_db env) CHANNELS w)) (\<lambda>w.
              and_then (storage_ctx ''Failed to save channel filter'' (tbl_insert (re_db env) CHANNELS name json w)) (\<lambda>w.
              and_then (storage_ctx ''Failed to commit'' (commit (re_db env) w)) (\<lambda>db'.
              Inr (r\<lparr>cr_storage := Some db'\<rparr>)))))))))))"

text \<open>\<open>load_persisted\<close>: every failure is logged and gives an empty answer; entries that cannot be read
  or parsed are skipped.\<close>

definition load_configs ::
    "'d registry_env \<Rightarrow> (string, string \<times> string) rust_result list \<Rightarrow> stored_channel_config list" where
  "load_configs env es =
     concat (map (\<lambda>e. case e of
         Inr (_, v) \<Rightarrow> (case sc_from_json env v of Inr stored \<Rightarrow> [stored] | Inl _ \<Rightarrow> [])
       | Inl _ \<Rightarrow> []) es)"

definition load_persisted ::
    "'d registry_env \<Rightarrow> 'd channel_registry \<Rightarrow> stored_channel_config list \<times> 'd channel_registry" where
  "load_persisted env r =
     (case cr_storage r of
        None \<Rightarrow> ([], r)
      | Some db \<Rightarrow>
          (case and_then (begin_read (re_db env) db) (\<lambda>t.
                and_then (open_read (re_db env) CHANNELS t) (\<lambda>t. tbl_iter (re_db env) CHANNELS t)) of
             Inl _ \<Rightarrow> ([], r)
           | Inr es \<Rightarrow>
               let configs = load_configs env es
               in (configs, r\<lparr>cr_configs := fold (\<lambda>s. hm_insert (sc_name s) (sc_config s)) configs (cr_configs r)\<rparr>)))"

section \<open>Channels\<close>

definition register :: "channel \<Rightarrow> 'd channel_registry \<Rightarrow> 'd channel_registry" where
  "register ch r = r\<lparr>cr_channels := hm_insert (ch_name ch) ch (cr_channels r)\<rparr>"

definition register_with_config ::
    "'d registry_env \<Rightarrow> string \<Rightarrow> channel \<Rightarrow> json \<Rightarrow> 'd channel_registry \<Rightarrow> 'd channel_registry" where
  "register_with_config env name ch config r =
     (let r1 = r\<lparr>cr_channels := hm_insert name ch (cr_channels r), cr_configs := hm_insert name config (cr_configs r)\<rparr>;
          existing_filter = get_filter env name r1;
          stored = \<lparr>sc_name = name, sc_channel_type = ch_type ch, sc_config = config,
                    sc_enabled = ch_is_enabled ch, sc_filter = existing_filter\<rparr>
      in case save_channel env stored r1 of Inr r2 \<Rightarrow> r2 | Inl _ \<Rightarrow> r1)"

text \<open>\<open>a || b\<close> does not evaluate \<open>b\<close> when \<open>a\<close> holds: the configuration is removed only when no
  channel was.\<close>

definition unregister :: "'d registry_env \<Rightarrow> string \<Rightarrow> 'd channel_registry \<Rightarrow> bool \<times> 'd channel_registry" where
  "unregister env name r =
     (let (removed, r1) =
        (if hm_contains (cr_channels r) name then (True, r\<lparr>cr_channels := hm_remove name (cr_channels r)\<rparr>)
         else (hm_contains (cr_configs r) name, r\<lparr>cr_configs := hm_remove name (cr_configs r)\<rparr>))
      in (removed,
          if removed then (case delete_channel env name r1 of Inr r2 \<Rightarrow> r2 | Inl _ \<Rightarrow> r1) else r1))"

definition get_channel :: "string \<Rightarrow> 'd channel_registry \<Rightarrow> channel option" where
  "get_channel name r = hm_get (cr_channels r) name"

definition list_names :: "'d channel_registry \<Rightarrow> string list" where
  "list_names r = map fst (cr_channels r)"

definition registry_len :: "'d channel_registry \<Rightarrow> nat" where
  "registry_len r = length (cr_channels r)"

definition registry_is_empty :: "'d channel_registry \<Rightarrow> bool" where
  "registry_is_empty r \<longleftrightarrow> cr_channels r = []"

record channel_info =
  ci_name :: string
  ci_channel_type :: string
  ci_enabled :: bool
  ci_config :: "json option"
  ci_recipients :: "string list option"

definition info_of :: "'d channel_registry \<Rightarrow> string \<Rightarrow> channel \<Rightarrow> channel_info" where
  "info_of r name ch =
     \<lparr>ci_name = name, ci_channel_type = ch_type ch,
      ci_enabled = unwrap_or (hm_get (cr_enabled_states r) name) (ch_is_enabled ch),
      ci_config = hm_get (cr_configs r) name,
      ci_recipients = (if ch_type ch = ''email'' then hm_get (cr_recipients r) name else None)\<rparr>"

definition get_info :: "string \<Rightarrow> 'd channel_registry \<Rightarrow> channel_info option" where
  "get_info name r = map_option (info_of r name) (hm_get (cr_channels r) name)"

definition list_info :: "'d channel_registry \<Rightarrow> channel_info list" where
  "list_info r = map (\<lambda>(name, ch). info_of r name ch) (cr_channels r)"

record channel_stats =
  cs_total :: nat
  cs_enabled :: nat
  cs_disabled :: nat
  cs_by_type :: "(string, nat) hash_map"

definition registry_get_stats :: "'d channel_registry \<Rightarrow> channel_stats" where
  "registry_get_stats r =
     (let enabled_count = length (filter (\<lambda>(name, ch). unwrap_or (hm_get (cr_enabled_states r) name) (ch_is_enabled ch))
                            (cr_channels r))
      in \<lparr>cs_total = length (cr_channels r), cs_enabled = enabled_count,
          cs_disabled = length (cr_channels r) - enabled_count,
          cs_by_type = fold (\<lambda>(_, ch). count_in (ch_type ch)) (cr_channels r) []\<rparr>)"

definition channel_set_enabled ::
    "'d registry_env \<Rightarrow> string \<Rightarrow> bool \<Rightarrow> 'd channel_registry
      \<Rightarrow> (msg_error, unit) rust_result \<times> 'd channel_registry" where
  "channel_set_enabled env name enabled r =
     (case hm_get (cr_channels r) name of
        None \<Rightarrow> (Inl (NotFound (''Channel not found: '' @ name)), r)
      | Some ch \<Rightarrow>
          let r1 = r\<lparr>cr_enabled_states := hm_insert name enabled (cr_enabled_states r)\<rparr>
          in case hm_get (cr_configs r) name of
               None \<Rightarrow> (Inr (), r1)
             | Some config \<Rightarrow>
                 let stored = \<lparr>sc_name = name, sc_channel_type = ch_type ch, sc_config = config,
                               sc_enabled = enabled, sc_filter = get_filter env name r1\<rparr>
                 in case save_channel env stored r1 of Inr r2 \<Rightarrow> (Inr (), r2) | Inl e \<Rightarrow> (Inl e, r1))"

definition is_enabled_effective :: "string \<Rightarrow> 'd channel_registry \<Rightarrow> bool" where
  "is_enabled_effective name r =
     (case hm_get (cr_enabled_states r) name of
        Some enabled \<Rightarrow> enabled
      | None \<Rightarrow> (case hm_get (cr_channels r) name of Some ch \<Rightarrow> ch_is_enabled ch | None \<Rightarrow> False))"

section \<open>Recipients\<close>

definition get_recipients :: "string \<Rightarrow> 'd channel_registry \<Rightarrow> string list" where
  "get_recipients name r = unwrap_or (hm_get (cr_recipients r) name) []"

definition email_config :: "string \<Rightarrow> bool \<Rightarrow> string list \<Rightarrow> json \<Rightarrow> json" where
  "email_config name enabled recipients config =
     (case config of
        JObject obj \<Rightarrow>
          JObject (hm_insert ''name'' (JString name) (hm_insert ''enabled'' (JBool enabled)
            (hm_insert ''recipients'' (JArray (map JString recipients)) obj)))
      | _ \<Rightarrow> config)"

definition recreate_email_channel ::
    "'d registry_env \<Rightarrow> string \<Rightarrow> 'd channel_registry \<Rightarrow> (msg_error, 'd channel_registry) rust_result" where
  "recreate_email_channel env name r =
     and_then (ok_or (NotFound (''Channel not found: '' @ name)) (hm_get (cr_channels r) name)) (\<lambda>ch.
     and_then (ok_or (InvalidConfiguration ''Channel config not found'') (hm_get (cr_configs r) name)) (\<lambda>config.
     let enabled = unwrap_or (hm_get (cr_enabled_states r) name) (ch_is_enabled ch);
         new_config = email_config name enabled (get_recipients name r) config
     in and_then (email_create env new_config) (\<lambda>new_channel.
        Inr (r\<lparr>cr_channels := hm_insert name new_channel (cr_channels r)\<rparr>))))"

definition save_recipients ::
    "'d registry_env \<Rightarrow> string \<Rightarrow> 'd channel_registry \<Rightarrow> (msg_error, 'd channel_registry) rust_result" where
  "save_recipients env name r =
     (case cr_storage r of
        None \<Rightarrow> Inr r
      | Some db \<Rightarrow>
          and_then (storage_ctx ''Failed to serialize recipients'' (rcp_to_json env (get_recipients name r))) (\<lambda>json.
          and_then (storage_ctx ''Failed to begin write'' (begin_write (re_db env) db)) (\<lambda>w.
          and_then (storage_ctx ''Failed to open recipients table'' (open_write (re_db env) RECIPIENTS w)) (\<lambda>w.
          and_then (storage_ctx ''Failed to save recipients'' (tbl_insert (re_db env) RECIPIENTS name json w)) (\<lambda>w.
          and_then (storage_ctx ''Failed to commit'' (commit (re_db env) w)) (\<lambda>db'.
          Inr (r\<lparr>cr_storage := Some db'\<rparr>)))))))"

text \<open>The last part of \<open>add_recipient\<close> and \<open>remove_recipient\<close>: recreate an email channel, undo the
  change in memory when that fails, and save.\<close>

definition apply_recipients ::
    "'d registry_env \<Rightarrow> string \<Rightarrow> string \<Rightarrow> string list \<Rightarrow> 'd channel_registry
      \<Rightarrow> (msg_error, unit) rust_result \<times> 'd channel_registry" where
  "apply_recipients env name channel_type undo r =
     (case (if channel_type = ''email'' then recreate_email_channel env name r else Inr r) of
        Inl e \<Rightarrow> (Inl e, r\<lparr>cr_recipients := hm_insert name undo (cr_recipients r)\<rparr>)
      | Inr r1 \<Rightarrow> (case save_recipients env name r1 of Inr r2 \<Rightarrow> (Inr (), r2) | Inl e \<Rightarrow> (Inl e, r1)))"

definition add_recipient ::
    "'d registry_env \<Rightarrow> string \<Rightarrow> string \<Rightarrow> 'd channel_registry
      \<Rightarrow> (msg_error, unit) rust_result \<times> 'd channel_registry" where
  "add_recipient env name email r =
     (case hm_get (cr_channels r) name of
        None \<Rightarrow> (Inl (NotFound (''Channel not found: '' @ name)), r)
      | Some ch \<Rightarrow>
          if CHR ''@'' \<notin> set email \<or> email = [] then (Inl (InvalidConfiguration ''Invalid email address''), r)
          else
            let old = get_recipients name r;
                r0 = (if hm_contains (cr_recipients r) name then r
                      else r\<lparr>cr_recipients := hm_insert name [] (cr_recipients r)\<rparr>)
            in if email \<in> set old then (Inl (InvalidConfiguration ''Recipient already exists''), r0)
               else apply_recipients env name (ch_type ch) (filter (\<lambda>x. x \<noteq> email) (old @ [email]))
                      (r0\<lparr>cr_recipients := hm_insert name (old @ [email]) (cr_recipients r0)\<rparr>))"

definition remove_recipient ::
    "'d registry_env \<Rightarrow> string \<Rightarrow> string \<Rightarrow> 'd channel_registry
      \<Rightarrow> (msg_error, unit) rust_result \<times> 'd channel_registry" where
  "remove_recipient env name email r =
     (case hm_get (cr_channels r) name of
        None \<Rightarrow> (Inl (NotFound (''Channel not found: '' @ name)), r)
      | Some ch \<Rightarrow>
          (case hm_get (cr_recipients r) name of
             None \<Rightarrow> (Inl (NotFound (''Recipient not found: '' @ email)), r)
           | Some old \<Rightarrow>
               let new = filter (\<lambda>x. x \<noteq> email) old in
               if length new < length old
               then apply_recipients env name (ch_type ch) (new @ [email])
                      (r\<lparr>cr_recipients := hm_insert name new (cr_recipients r)\<rparr>)
               else (Inl (NotFound (''Recipient not found: '' @ email)),
                     r\<lparr>cr_recipients := hm_insert name new (cr_recipients r)\<rparr>)))"

definition load_recipients :: "'d registry_env \<Rightarrow> string \<Rightarrow> 'd channel_registry \<Rightarrow> 'd channel_registry" where
  "load_recipients env name r =
     (case cr_storage r of
        None \<Rightarrow> r
      | Some db \<Rightarrow>
          (case and_then (begin_read (re_db env) db) (\<lambda>t.
                and_then (open_read (re_db env) RECIPIENTS t) (\<lambda>t. tbl_get (re_db env) RECIPIENTS name t)) of
             Inr (Some v) \<Rightarrow>
               (case rcp_from_json env v of
                  Inr loaded \<Rightarrow> r\<lparr>cr_recipients := hm_insert name loaded (cr_recipients r)\<rparr>
                | Inl _ \<Rightarrow> r)
           | _ \<Rightarrow> r))"

fun load_recipient_entries ::
    "'d registry_env \<Rightarrow> (string, string \<times> string) rust_result list \<Rightarrow> (string, string list) hash_map
      \<Rightarrow> (string, string list) hash_map" where
  "load_recipient_entries env [] m = m"
| "load_recipient_entries env (Inl _ # es) m = load_recipient_entries env es m"
| "load_recipient_entries env (Inr (k, v) # es) m =
     load_recipient_entries env es
       (case rcp_from_json env v of Inr loaded \<Rightarrow> hm_insert k loaded m | Inl _ \<Rightarrow> m)"

definition load_all_recipients :: "'d registry_env \<Rightarrow> 'd channel_registry \<Rightarrow> 'd channel_registry" where
  "load_all_recipients env r =
     (case cr_storage r of
        None \<Rightarrow> r
      | Some db \<Rightarrow>
          (case and_then (begin_read (re_db env) db) (\<lambda>t.
                and_then (open_read (re_db env) RECIPIENTS t) (\<lambda>t. tbl_iter (re_db env) RECIPIENTS t)) of
             Inl _ \<Rightarrow> r
           | Inr es \<Rightarrow> r\<lparr>cr_recipients := load_recipient_entries env es (cr_recipients r)\<rparr>))"

section \<open>Filters in storage\<close>

definition registry_laws :: "'d registry_env \<Rightarrow> 'd contents \<Rightarrow> bool" where
  "registry_laws env c \<longleftrightarrow>
     redb_laws (re_db env) c \<and> (\<forall>s j. sc_to_json env s = Inr j \<longrightarrow> sc_from_json env j = Inr s)"

text \<open>Reads of the database do not fail. (A failing read makes \<open>get_filter\<close> answer the default.)\<close>

definition reads_ok :: "'d redb \<Rightarrow> bool" where
  "reads_ok rd \<longleftrightarrow> (\<forall>d t k. begin_read rd d \<in> range Inr \<and> open_read rd t d \<in> range Inr \<and> tbl_get rd t k d \<in> range Inr)"

definition decode_filter :: "'d registry_env \<Rightarrow> string option \<Rightarrow> channel_filter" where
  "decode_filter env v =
     (case v of
        Some j \<Rightarrow> (case sc_from_json env j of Inr stored \<Rightarrow> sc_filter stored | Inl _ \<Rightarrow> filter_default)
      | None \<Rightarrow> filter_default)"

definition stored_entry :: "'d contents \<Rightarrow> string \<Rightarrow> 'd channel_registry \<Rightarrow> string option" where
  "stored_entry c name r = (case cr_storage r of None \<Rightarrow> None | Some db \<Rightarrow> c db CHANNELS name)"

lemma get_filter_stored:
  assumes "registry_laws env c" "reads_ok (re_db env)"
  shows "get_filter env name r = decode_filter env (stored_entry c name r)"
proof (cases "cr_storage r")
  case (Some db)
  have L: "redb_laws (re_db env) c" using assms(1) by (simp add: registry_laws_def)
  obtain t u v where *: "begin_read (re_db env) db = Inr t" "open_read (re_db env) CHANNELS t = Inr u"
    "tbl_get (re_db env) CHANNELS name u = Inr v"
    using assms(2) unfolding reads_ok_def by (metis rangeE)
  then have "v = c db CHANNELS name" using redb_get [OF L] redb_snapshots [OF L] by metis
  with * Some show ?thesis
    by (auto simp: get_filter_def decode_filter_def stored_entry_def split: option.splits)
qed (simp add: get_filter_def decode_filter_def stored_entry_def)

lemma CHANNELS_RECIPIENTS [simp]: "CHANNELS \<noteq> RECIPIENTS" "RECIPIENTS \<noteq> CHANNELS"
  by (simp_all add: CHANNELS_def RECIPIENTS_def)

lemma save_channel_entry:
  assumes L: "registry_laws env c" and "save_channel env s r = Inr r'"
  shows "decode_filter env (stored_entry c n r') =
      (if n = sc_name s \<and> cr_storage r \<noteq> None then sc_filter s else decode_filter env (stored_entry c n r))"
proof (cases "cr_storage r")
  case (Some db)
  have R: "redb_laws (re_db env) c" using L by (simp add: registry_laws_def)
  from assms(2) Some obtain j w1 w2 w3 db' where *: "sc_to_json env s = Inr j"
    "begin_write (re_db env) db = Inr w1" "open_write (re_db env) CHANNELS w1 = Inr w2"
    "tbl_insert (re_db env) CHANNELS (sc_name s) j w2 = Inr w3" "commit (re_db env) w3 = Inr db'"
    and r': "r' = r\<lparr>cr_storage := Some db'\<rparr>"
    by (auto simp: save_channel_def)
  then have "c db' CHANNELS = (c db CHANNELS)(sc_name s \<mapsto> j)"
    by (simp add: redb_snapshots [OF R] redb_insert [OF R])
  moreover have "sc_from_json env j = Inr s" using L * by (simp add: registry_laws_def)
  ultimately show ?thesis using Some r' by (simp add: stored_entry_def decode_filter_def)
qed (use assms(2) in \<open>simp add: save_channel_def\<close>)

lemma save_channel_memory:
  assumes "save_channel env s r = Inr r'"
  shows "cr_channels r' = cr_channels r" "cr_configs r' = cr_configs r"
    "cr_enabled_states r' = cr_enabled_states r" "cr_recipients r' = cr_recipients r"
  using assms by (auto simp: save_channel_def split: option.splits)

lemma save_recipients_entry:
  assumes R: "redb_laws (re_db env) c" and "save_recipients env name r = Inr r'"
  shows "stored_entry c n r' = stored_entry c n r" "cr_enabled_states r' = cr_enabled_states r"
proof -
  show "stored_entry c n r' = stored_entry c n r"
  proof (cases "cr_storage r")
    case (Some db)
    from assms(2) Some obtain j w1 w2 w3 db' where *:
      "begin_write (re_db env) db = Inr w1" "open_write (re_db env) RECIPIENTS w1 = Inr w2"
      "tbl_insert (re_db env) RECIPIENTS name j w2 = Inr w3" "commit (re_db env) w3 = Inr db'"
      and r': "r' = r\<lparr>cr_storage := Some db'\<rparr>"
      by (auto simp: save_recipients_def)
    then show ?thesis using Some r'
      by (simp add: redb_snapshots [OF R] redb_insert [OF R] stored_entry_def)
  qed (use assms(2) in \<open>simp add: save_recipients_def\<close>)
  show "cr_enabled_states r' = cr_enabled_states r"
    using assms(2) by (auto simp: save_recipients_def split: option.splits)
qed

lemma delete_channel_entry:
  assumes R: "redb_laws (re_db env) c" and "delete_channel env name r = Inr r'" and "n \<noteq> name"
  shows "stored_entry c n r' = stored_entry c n r"
proof (cases "cr_storage r")
  case (Some db)
  from assms(2) Some obtain b w1 w2 w3 db' where *:
    "begin_write (re_db env) db = Inr w1" "open_write (re_db env) CHANNELS w1 = Inr w2"
    "tbl_remove (re_db env) CHANNELS name w2 = Inr (b, w3)" "commit (re_db env) w3 = Inr db'"
    and r': "r' = r\<lparr>cr_storage := Some db'\<rparr>"
    by (auto simp: delete_channel_def)
  then show ?thesis using Some r' assms(3) redb_remove [OF R *(3)]
    by (simp add: redb_snapshots [OF R] stored_entry_def)
qed (use assms(2) in \<open>simp add: delete_channel_def\<close>)

lemma delete_channel_enabled:
  "delete_channel env name r = Inr r' \<Longrightarrow> cr_enabled_states r' = cr_enabled_states r"
  by (auto simp: delete_channel_def split: option.splits)

lemma set_filter_entry:
  assumes L: "registry_laws env c" and "set_filter env name f r = Inr r'"
  shows "decode_filter env (stored_entry c n r') =
      (if n = name \<and> stored_entry c n r \<noteq> None then f else decode_filter env (stored_entry c n r))"
proof (cases "cr_storage r")
  case (Some db)
  have R: "redb_laws (re_db env) c" using L by (simp add: registry_laws_def)
  from assms(2) Some obtain t u v where rd:
    "begin_read (re_db env) db = Inr t" "open_read (re_db env) CHANNELS t = Inr u"
    "tbl_get (re_db env) CHANNELS name u = Inr v"
    by (auto simp: set_filter_def)
  then have v: "v = c db CHANNELS name" using redb_get [OF R rd(3)] by (simp add: redb_snapshots [OF R])
  show ?thesis
  proof (cases v)
    case None
    with assms(2) Some rd v show ?thesis by (auto simp: set_filter_def storage_ctx_def stored_entry_def)
  next
    case (Some old)
    with assms(2) \<open>cr_storage r = Some db\<close> rd obtain s j w1 w2 w3 db' where *:
      "sc_to_json env (s\<lparr>sc_filter := f\<rparr>) = Inr j"
      "begin_write (re_db env) db = Inr w1" "open_write (re_db env) CHANNELS w1 = Inr w2"
      "tbl_insert (re_db env) CHANNELS name j w2 = Inr w3" "commit (re_db env) w3 = Inr db'"
      and r': "r' = r\<lparr>cr_storage := Some db'\<rparr>"
      by (auto simp: set_filter_def)
    then have "c db' CHANNELS = (c db CHANNELS)(name \<mapsto> j)"
      by (simp add: redb_snapshots [OF R] redb_insert [OF R])
    moreover have "sc_from_json env j = Inr (s\<lparr>sc_filter := f\<rparr>)" using L * by (simp add: registry_laws_def)
    ultimately show ?thesis using Some \<open>cr_storage r = Some db\<close> r' v
      by (simp add: stored_entry_def decode_filter_def)
  qed
qed (use assms(2) in \<open>simp add: set_filter_def stored_entry_def\<close>)

section \<open>Runs of registry operations\<close>

datatype registry_op =
    RRegister channel
  | RRegisterWithConfig string channel json
  | RUnregister string
  | RSetEnabled string bool
  | RSetFilter string channel_filter
  | RAddRecipient string string
  | RRemoveRecipient string string

fun registry_step :: "'d registry_env \<Rightarrow> registry_op \<Rightarrow> 'd channel_registry \<Rightarrow> 'd channel_registry" where
  "registry_step env (RRegister ch) r = register ch r"
| "registry_step env (RRegisterWithConfig n ch cfg) r = register_with_config env n ch cfg r"
| "registry_step env (RUnregister n) r = snd (unregister env n r)"
| "registry_step env (RSetEnabled n b) r = snd (channel_set_enabled env n b r)"
| "registry_step env (RSetFilter n f) r = (case set_filter env n f r of Inr r' \<Rightarrow> r' | Inl _ \<Rightarrow> r)"
| "registry_step env (RAddRecipient n e) r = snd (add_recipient env n e r)"
| "registry_step env (RRemoveRecipient n e) r = snd (remove_recipient env n e r)"

fun sets_filter :: "string \<Rightarrow> registry_op \<Rightarrow> bool" where
  "sets_filter n (RUnregister m) = (m = n)"
| "sets_filter n (RSetFilter m f) = (m = n)"
| "sets_filter n _ = False"

fun sets_enabled :: "string \<Rightarrow> registry_op \<Rightarrow> bool" where
  "sets_enabled n (RSetEnabled m b) = (m = n)"
| "sets_enabled n _ = False"

lemma stored_entry_memory [simp]:
  "stored_entry c n (r\<lparr>cr_channels := x\<rparr>) = stored_entry c n r"
  "stored_entry c n (r\<lparr>cr_configs := y\<rparr>) = stored_entry c n r"
  "stored_entry c n (r\<lparr>cr_enabled_states := z\<rparr>) = stored_entry c n r"
  "stored_entry c n (r\<lparr>cr_recipients := u\<rparr>) = stored_entry c n r"
  by (simp_all add: stored_entry_def)

lemma recreate_memory:
  "recreate_email_channel env name r = Inr r' \<Longrightarrow>
   stored_entry c n r' = stored_entry c n r \<and> cr_enabled_states r' = cr_enabled_states r"
  by (auto simp: recreate_email_channel_def Let_def)

lemma apply_recipients_entry:
  assumes "redb_laws (re_db env) c"
  shows "stored_entry c n (snd (apply_recipients env name ty undo r)) = stored_entry c n r"
    and "cr_enabled_states (snd (apply_recipients env name ty undo r)) = cr_enabled_states r"
  by (auto simp: apply_recipients_def save_recipients_entry [OF assms] dest: recreate_memory
      split: sum.splits if_splits)

lemma save_filter_kept:
  assumes "registry_laws env c" "reads_ok (re_db env)" "save_channel env s r = Inr r'"
    "sc_filter s = get_filter env (sc_name s) r"
  shows "decode_filter env (stored_entry c n r') = decode_filter env (stored_entry c n r)"
  using save_channel_entry [OF assms(1,3), of n] assms(4) by (simp add: get_filter_stored [OF assms(1,2)])

lemma registry_step_filter:
  assumes L: "registry_laws env c" and R: "reads_ok (re_db env)" and "\<not> sets_filter n op"
  shows "decode_filter env (stored_entry c n (registry_step env op r)) = decode_filter env (stored_entry c n r)"
proof -
  have D: "redb_laws (re_db env) c" using L by (simp add: registry_laws_def)
  show ?thesis
  proof (cases op)
    case (RRegisterWithConfig m ch cfg)
    then show ?thesis
      by (auto simp: register_with_config_def Let_def dest!: save_filter_kept [OF L R, where n = n] split: sum.splits)
  next
    case (RSetEnabled m b)
    then show ?thesis
      by (auto simp: channel_set_enabled_def Let_def dest!: save_filter_kept [OF L R, where n = n]
          split: sum.splits option.splits)
  next
    case (RUnregister m)
    then show ?thesis using assms(3)
      by (auto simp: unregister_def dest!: delete_channel_entry [OF D, where n = n] split: sum.splits)
  next
    case (RSetFilter m f)
    then show ?thesis using assms(3) by (auto simp: set_filter_entry [OF L] split: sum.splits)
  qed (auto simp: register_def add_recipient_def remove_recipient_def Let_def apply_recipients_entry [OF D]
      split: option.splits)
qed

lemma registry_run_filter:
  assumes "registry_laws env c" "reads_ok (re_db env)" "list_all (\<lambda>op. \<not> sets_filter n op) ops"
  shows "decode_filter env (stored_entry c n (fold (registry_step env) ops r)) = decode_filter env (stored_entry c n r)"
  using assms(3) by (induction ops arbitrary: r) (auto simp: registry_step_filter [OF assms(1,2)])

lemma registry_step_enabled:
  assumes D: "redb_laws (re_db env) c" and "\<not> sets_enabled n op"
  shows "hm_get (cr_enabled_states (registry_step env op r)) n = hm_get (cr_enabled_states r) n"
proof (cases op)
  case (RSetEnabled m b)
  then show ?thesis using assms(2)
    by (auto simp: channel_set_enabled_def Let_def save_channel_memory split: option.splits sum.splits)
next
  case (RUnregister m)
  then show ?thesis by (auto simp: unregister_def delete_channel_enabled split: sum.splits)
next
  case (RSetFilter m f)
  then show ?thesis by (auto simp: set_filter_def split: sum.splits option.splits)
qed (auto simp: register_def register_with_config_def add_recipient_def remove_recipient_def Let_def
    save_channel_memory apply_recipients_entry [OF D] split: option.splits sum.splits)

lemma registry_run_enabled:
  assumes "redb_laws (re_db env) c" "list_all (\<lambda>op. \<not> sets_enabled n op) ops"
  shows "hm_get (cr_enabled_states (fold (registry_step env) ops r)) n = hm_get (cr_enabled_states r) n"
  using assms(2) by (induction ops arbitrary: r) (auto simp: registry_step_enabled [OF assms(1)])

section \<open>An example registry\<close>

text \<open>A registry over the in-memory database, with a codec that knows three configurations; it shows
  that the hypotheses of the properties can hold.\<close>

definition example_filter :: channel_filter where
  "example_filter = \<lparr>source_types = [], categories = [''alert''], min_severity = Some Critical\<rparr>"

definition example_decode :: "string \<Rightarrow> stored_channel_config" where
  "example_decode j = \<lparr>sc_name = ''a'', sc_channel_type = ''webhook'', sc_config = JNull,
     sc_enabled = (j \<noteq> ''off''), sc_filter = (if j = ''new'' then filter_default else example_filter)\<rparr>"

definition example_registry_env :: "mem_db registry_env" where
  "example_registry_env = \<lparr>re_db = mem_redb,
     sc_to_json = (\<lambda>s. if s = example_decode ''new'' then Inr ''new'' else if s = example_decode ''on'' then Inr ''on''
                       else if s = example_decode ''off'' then Inr ''off'' else Inl ''unsupported''),
     sc_from_json = (\<lambda>j. Inr (example_decode j)),
     rcp_to_json = (\<lambda>_. Inl ''unsupported''), rcp_from_json = (\<lambda>_. Inl ''unsupported''),
     email_create = (\<lambda>_. Inl (SendFailed ''unsupported''))\<rparr>"

definition example_channel :: "string \<Rightarrow> channel" where
  "example_channel n = \<lparr>ch_name = n, ch_type = ''webhook'', ch_is_enabled = True, ch_conf = JNull\<rparr>"

section \<open>Properties\<close>

text \<open>A configured filter stays: once a filter has been set for a persisted channel, no sequence
  of registrations, re-registrations, enable and disable calls, recipient changes, and changes of
  other channels replaces it, whichever of these calls fail to write; only unregistering this
  channel or setting its filter again does. Hypotheses: documented behaviour of the database and
  the JSON codec, and reads that do not fail.\<close>

lemma channel_filter_survives:
  assumes "registry_laws env c" and "reads_ok (re_db env)"
    and "set_filter env n f r = Inr r0" and "stored_entry c n r \<noteq> None"
    and "list_all (\<lambda>op. \<not> sets_filter n op) ops"
  shows "get_filter env n (fold (registry_step env) ops r0) = f"
  using registry_run_filter [OF assms(1,2,5)] set_filter_entry [OF assms(1,3), of n] assms(4)
  by (simp add: get_filter_stored [OF assms(1,2)])

text \<open>A toggle stays: after a successful enable or disable of a channel, delivery sees exactly that
  state, whatever registrations, re-registrations, filter and recipient changes follow, until the
  next toggle of the same channel. It even outlives the removal of the channel: a channel created
  later under the same name inherits the override.\<close>

lemma channel_toggle_sticks:
  assumes "redb_laws (re_db env) c" and "channel_set_enabled env n b r = (Inr (), r0)"
    and "list_all (\<lambda>op. \<not> sets_enabled n op) ops"
  shows "is_enabled_effective n (fold (registry_step env) ops r0) = b"
proof -
  have "hm_get (cr_enabled_states r0) n = Some b"
    using assms(2) by (auto simp: channel_set_enabled_def Let_def save_channel_memory split: option.splits sum.splits)
  with registry_run_enabled [OF assms(1,3), of r0] show ?thesis by (simp add: is_enabled_effective_def)
qed

text \<open>What is reported is what is routed: the enabled flag in a channel's information and the
  enabled count of the statistics are the effective state that delivery consults.\<close>

lemma reported_state_is_effective:
  assumes "hm_wf (cr_channels r)"
  shows "cs_enabled (registry_get_stats r) = length (filter (\<lambda>n. is_enabled_effective n r) (list_names r))
    \<and> cs_enabled (registry_get_stats r) + cs_disabled (registry_get_stats r) = registry_len r
    \<and> (\<forall>i \<in> set (list_info r). ci_enabled i = is_enabled_effective (ci_name i) r)"
proof -
  have eff: "unwrap_or (hm_get (cr_enabled_states r) n) (ch_is_enabled ch) = is_enabled_effective n r"
    if "(n, ch) \<in> set (cr_channels r)" for n ch
  proof -
    have "hm_get (cr_channels r) n = Some ch" using that assms by simp
    then show ?thesis by (cases "hm_get (cr_enabled_states r) n") (simp_all add: is_enabled_effective_def)
  qed
  have "filter (\<lambda>(n, ch). unwrap_or (hm_get (cr_enabled_states r) n) (ch_is_enabled ch)) (cr_channels r)
      = filter ((\<lambda>n. is_enabled_effective n r) \<circ> fst) (cr_channels r)"
    by (rule filter_cong) (auto simp: eff)
  then have "cs_enabled (registry_get_stats r) = length (filter (\<lambda>n. is_enabled_effective n r) (list_names r))"
    by (simp add: registry_get_stats_def Let_def list_names_def filter_map)
  moreover have "cs_enabled (registry_get_stats r) + cs_disabled (registry_get_stats r) = registry_len r"
    by (simp add: registry_get_stats_def Let_def registry_len_def)
  moreover have "ci_enabled i = is_enabled_effective (ci_name i) r" if "i \<in> set (list_info r)" for i
    using that eff by (auto simp: list_info_def info_of_def)
  ultimately show ?thesis by blast
qed

end
