(* ===== verification/TimeGate.thy ===== *)
theory TimeGate
  imports Prelude
begin

text \<open>
  The contract of a rate limiter that remembers, per key, when it last let an event through: the
  rule engine's cooldown table and the message manager's duplicate cache are two implementations.
  An attempt reads the clock when it decides and again when it records, which the code does with
  two separate calls; \<open>clocked\<close> says that these readings do not go backwards along a run.
\<close>

text \<open>A run of attempts \<open>(event, decision time, record time, end time)\<close>, in the order in which the
  code performs them, and the admitted ones.\<close>

type_synonym 'e gate_event = "'e \<times> int \<times> int \<times> int"

fun gate_run ::
    "('e \<Rightarrow> int \<Rightarrow> int \<Rightarrow> int \<Rightarrow> 's \<Rightarrow> bool \<times> 's) \<Rightarrow> 'e gate_event list \<Rightarrow> 's
      \<Rightarrow> 'e gate_event list \<times> 's" where
  "gate_run attempt [] s = ([], s)"
| "gate_run attempt ((e, t, t', t'') # xs) s =
     (let (ok, s') = attempt e t t' t'' s; (adm, s'') = gate_run attempt xs s'
      in (if ok then (e, t, t', t'') # adm else adm, s''))"

fun clocked :: "int \<Rightarrow> 'e gate_event list \<Rightarrow> bool" where
  "clocked now [] = True"
| "clocked now ((e, t, t', t'') # xs) = (now \<le> t \<and> t \<le> t' \<and> t' \<le> t'' \<and> clocked t'' xs)"

text \<open>Two admitted events of one key keep the distance of that key's window, measured from the time
  the first was recorded to the time the second was decided.\<close>

definition spaced :: "('e \<Rightarrow> 'k) \<Rightarrow> ('k \<Rightarrow> int) \<Rightarrow> 'e gate_event list \<Rightarrow> bool" where
  "spaced key window adm \<longleftrightarrow>
     sorted_wrt (\<lambda>(e, t, t', t'') (f, u, u', u''). key f = key e \<longrightarrow> window (key e) \<le> u - t') adm"

lemma spaced_Nil [simp]: "spaced key w []"
  by (simp add: spaced_def)

lemma spaced_Cons: "spaced key w ((e, t, t', t'') # adm) \<longleftrightarrow>
    (\<forall>f u u' u''. (f, u, u', u'') \<in> set adm \<longrightarrow> key f = key e \<longrightarrow> w (key e) \<le> u - t') \<and> spaced key w adm"
  by (auto simp: spaced_def)

locale time_gate =
  fixes key :: "'e \<Rightarrow> 'k"
    and last_seen :: "'s \<Rightarrow> 'k \<Rightarrow> int option"
    and attempt :: "'e \<Rightarrow> int \<Rightarrow> int \<Rightarrow> int \<Rightarrow> 's \<Rightarrow> bool \<times> 's"
    and window :: "'k \<Rightarrow> int"
    and ok :: "'s \<Rightarrow> bool"
    and origin :: int
  assumes admit_spaced:
      "\<lbrakk>ok s; origin \<le> t; attempt e t t' t'' s = (True, s'); last_seen s (key e) = Some u\<rbrakk>
        \<Longrightarrow> window (key e) \<le> t - u \<or> window (key e) \<le> 0"
    and admit_records: "\<lbrakk>ok s; origin \<le> t; attempt e t t' t'' s = (True, s'); t \<le> t'; t' \<le> t''\<rbrakk>
        \<Longrightarrow> last_seen s' (key e) = Some t' \<or> window (key e) \<le> t'' - t'"
    and admit_others: "\<lbrakk>ok s; origin \<le> t; attempt e t t' t'' s = (True, s'); t \<le> t'; t' \<le> t''; j \<noteq> key e; last_seen s j = Some u\<rbrakk>
        \<Longrightarrow> last_seen s' j = Some u \<or> window j \<le> t'' - u"
    and reject_keeps: "\<lbrakk>ok s; attempt e t t' t'' s = (False, s')\<rbrakk> \<Longrightarrow> last_seen s' = last_seen s"
    and ok_step: "\<lbrakk>ok s; attempt e t t' t'' s = (b, s')\<rbrakk> \<Longrightarrow> ok s'"
begin

text \<open>What a state at time \<open>now\<close> knows of an admission recorded at \<open>r\<close>: it is still there, or a later one
  is, or the window has passed.\<close>

definition remembers :: "'s \<Rightarrow> 'k \<Rightarrow> int \<Rightarrow> int \<Rightarrow> bool" where
  "remembers s k r now \<longleftrightarrow> (\<exists>u. last_seen s k = Some u \<and> r \<le> u) \<or> window k \<le> now - r"

lemma remembers_step:
  assumes "ok s" "origin \<le> now" "attempt e t t' t'' s = (b, s')" "remembers s k r now" "now \<le> t" "t \<le> t'" "t' \<le> t''" "r \<le> now"
  shows "remembers s' k r t''"
proof (cases b)
  case False
  with assms reject_keeps [of s e t t' t'' s'] show ?thesis by (auto simp: remembers_def)
next
  case True
  show ?thesis
  proof (cases "key e = k")
    case True
    with \<open>b\<close> assms admit_records [of s t e t' t'' s'] show ?thesis by (fastforce simp: remembers_def)
  next
    case False
    with \<open>b\<close> assms admit_others [of s t e t' t'' s' k] show ?thesis
      unfolding remembers_def by fastforce
  qed
qed

lemma admitted_after:
  assumes "ok s" "origin \<le> now" "clocked now xs" "remembers s k r now" "r \<le> now"
    "(f, u, u', u'') \<in> set (fst (gate_run attempt xs s))" "key f = k"
  shows "window k \<le> u - r"
  using assms(1-6)
proof (induction xs arbitrary: s now)
  case (Cons x xs)
  obtain e t t' t'' where x: "x = (e, t, t', t'')" by (cases x) auto
  obtain b s' where at: "attempt e t t' t'' s = (b, s')" by (cases "attempt e t t' t'' s")
  have tt: "now \<le> t" "t \<le> t'" "t' \<le> t''" "clocked t'' xs" using Cons.prems x by auto
  have rem: "remembers s' k r t''"
    using remembers_step [OF Cons.prems(1,2) at Cons.prems(4) tt(1-3) Cons.prems(5)] .
  have "b \<and> (f, u, u', u'') = x \<or> (f, u, u', u'') \<in> set (fst (gate_run attempt xs s'))"
    using Cons.prems(6) x at by (auto split: prod.splits if_splits)
  then show ?case
  proof
    assume "b \<and> (f, u, u', u'') = x"
    then have "e = f" "t = u" "b" using x by auto
    then show ?thesis
      using Cons.prems(2,4,5) admit_spaced [of s u f t' t'' s'] at Cons.prems(1) tt assms(7)
      by (fastforce simp: remembers_def)
  next
    assume "(f, u, u', u'') \<in> set (fst (gate_run attempt xs s'))"
    then show ?thesis
      using Cons.IH [OF ok_step [OF Cons.prems(1) at] _ tt(4) rem] Cons.prems(2,5) tt by simp
  qed
qed simp

lemma gate_spaced:
  assumes "ok s" "origin \<le> now" "clocked now xs"
  shows "spaced key window (fst (gate_run attempt xs s))"
  using assms
proof (induction xs arbitrary: s now)
  case (Cons x xs)
  obtain e t t' t'' where x: "x = (e, t, t', t'')" by (cases x) auto
  obtain b s' where at: "attempt e t t' t'' s = (b, s')" by (cases "attempt e t t' t'' s")
  have tt: "now \<le> t" "t \<le> t'" "t' \<le> t''" "clocked t'' xs" and ok': "ok s'"
    using Cons.prems x ok_step [OF Cons.prems(1) at] by auto
  have "window (key e) \<le> u - t'"
    if "b" "(f, u, u', u'') \<in> set (fst (gate_run attempt xs s'))" "key f = key e" for f u u' u''
  proof -
    have "remembers s' (key e) t' t''"
      using admit_records [of s t e t' t'' s'] at that(1) Cons.prems(1,2) tt by (auto simp: remembers_def)
    then show ?thesis using admitted_after [OF ok' _ tt(4) _ tt(3) that(2,3)] Cons.prems(2) tt by simp
  qed
  then show ?case
    using Cons.IH [OF ok' _ tt(4)] Cons.prems(2) tt x at by (auto simp: spaced_Cons split: prod.splits)
qed simp

end

end
