(* ===== verification/Events.thy ===== *)
theory Events
  imports Json
begin

text \<open>
  The events that flow over the event bus, \<open>heramind-core/src/event.rs\<close>: every variant of
  \<open>HeraMindEvent\<close> with its fields in the order of the source, its classification predicates, the
  values of metrics with their conversions, and the metadata of an event.

  \<open>i64\<close> time stamps are \<open>int\<close>; an \<open>f32\<close> is the \<open>f64\<close> of the same value.
\<close>

section \<open>Metric values\<close>

type_synonym f32 = f64

datatype metric_value = Float f64 | Integer int | Boolean bool | String string | Json json

text \<open>\<open>as i64\<close> truncates towards zero and saturates; NaN becomes 0.\<close>

fun f64_as_i64 :: "f64 \<Rightarrow> int" where
  "f64_as_i64 NaN = 0"
| "f64_as_i64 PosInf = 2 ^ 63 - 1"
| "f64_as_i64 NegInf = - (2 ^ 63)"
| "f64_as_i64 (Fin i) = max (- (2 ^ 63)) (min (2 ^ 63 - 1) (sgn i * (\<bar>i\<bar> div f64_unit)))"

fun metric_as_f64 :: "metric_value \<Rightarrow> f64 option" where
  "metric_as_f64 (Float v) = Some v"
| "metric_as_f64 (Integer v) = Some (f64_of_int v)"
| "metric_as_f64 (Boolean v) = Some (if v then f64_of_int 1 else f64_of_int 0)"
| "metric_as_f64 _ = None"

fun metric_as_i64 :: "metric_value \<Rightarrow> int option" where
  "metric_as_i64 (Integer v) = Some v"
| "metric_as_i64 (Float v) = Some (f64_as_i64 v)"
| "metric_as_i64 (Boolean v) = Some (if v then 1 else 0)"
| "metric_as_i64 _ = None"

fun metric_as_bool :: "metric_value \<Rightarrow> bool option" where
  "metric_as_bool (Boolean v) = Some v"
| "metric_as_bool (Integer v) = Some (v \<noteq> 0)"
| "metric_as_bool (Float v) = Some (\<not> f64_eq v (f64_of_int 0))"
| "metric_as_bool (String v) = Some (v \<noteq> [])"
| "metric_as_bool (Json v) = Some (v \<noteq> JNull)"

fun metric_as_str :: "metric_value \<Rightarrow> string option" where
  "metric_as_str (String v) = Some v"
| "metric_as_str _ = None"

fun metric_is_numeric :: "metric_value \<Rightarrow> bool" where
  "metric_is_numeric (Float _) = True"
| "metric_is_numeric (Integer _) = True"
| "metric_is_numeric _ = False"

text \<open>The derived codec is \<open>untagged\<close>: a value is written without its variant, and read by trying the
  variants in the order of the declaration. A JSON number, integral or not, is read as an \<open>f64\<close> by
  the first variant; a double that is not finite is written as \<open>null\<close>.\<close>

fun metric_serialize :: "metric_value \<Rightarrow> json" where
  "metric_serialize (Float f) = json_of_f64 f"
| "metric_serialize (Integer i) = JInt i"
| "metric_serialize (Boolean b) = JBool b"
| "metric_serialize (String s) = JString s"
| "metric_serialize (Json v) = v"

fun read_f64 :: "json \<Rightarrow> f64 option" where
  "read_f64 (JFloat f) = Some f"
| "read_f64 (JInt i) = Some (f64_of_int i)"
| "read_f64 _ = None"

fun read_i64 :: "json \<Rightarrow> int option" where
  "read_i64 (JInt i) = (if - (2 ^ 63) \<le> i \<and> i < 2 ^ 63 then Some i else None)"
| "read_i64 _ = None"

fun read_bool :: "json \<Rightarrow> bool option" where
  "read_bool (JBool b) = Some b"
| "read_bool _ = None"

fun read_string :: "json \<Rightarrow> string option" where
  "read_string (JString s) = Some s"
| "read_string _ = None"

definition metric_deserialize :: "json \<Rightarrow> metric_value" where
  "metric_deserialize j =
     (case read_f64 j of Some f \<Rightarrow> Float f | None \<Rightarrow>
      case read_i64 j of Some i \<Rightarrow> Integer i | None \<Rightarrow>
      case read_bool j of Some b \<Rightarrow> Boolean b | None \<Rightarrow>
      case read_string j of Some s \<Rightarrow> String s | None \<Rightarrow> Json j)"

section \<open>Events\<close>

record proposed_action =
  pa_action_type :: string
  pa_description :: string
  pa_parameters :: json

definition control_device :: "string \<Rightarrow> string \<Rightarrow> json \<Rightarrow> proposed_action" where
  "control_device device_id command params =
     \<lparr>pa_action_type = ''control_device'', pa_description = ''Control device '' @ device_id,
      pa_parameters = JObject [(''device_id'', JString device_id), (''command'', JString command), (''params'', params)]\<rparr>"

definition notify_user :: "string \<Rightarrow> proposed_action" where
  "notify_user message =
     \<lparr>pa_action_type = ''notify_user'', pa_description = ''Notify the user'',
      pa_parameters = JObject [(''message'', JString message)]\<rparr>"

datatype (plugins only: code) heramind_event =
    DeviceOnline string string int
  | DeviceOffline string "string option" int
  | DeviceTransportOnline string string int
  | DeviceTransportOffline string string "string option" int
  | DeviceMetric string string metric_value int "f32 option" "bool option"
  | DeviceCommandResult string string bool "json option" int
  | DeviceDiscovered string string "string option" json json bool int
  | ModelDownloadProgress string u64 "u64 option" string "string option"
  | SystemUpgradeProgress string string "string option" "u64 option" "u64 option" "string option" "string option"
  | RuleEvaluated string string bool int
  | RuleTriggered string string f64 "string list" int
  | RuleExecuted string string bool u64 int
  | AlertCreated string string string string int
  | AlertAcknowledged string string int
  | MessageCreated string string string string int
  | MessageAcknowledged string string int
  | MessageResolved string int
  | ImMessageReceived string string string string string int
  | AgentExecutionStarted string string string string int
  | AgentThinking string string u32 string string "json option" int
  | AgentDecision string string string string string f32 int
  | AgentProgress string string string string "f32 option" "string option" int
  | AgentExecutionCompleted string string bool u64 "string option" int
  | AgentMemoryUpdated string string int
  | PeriodicReviewTriggered string string int
  | LlmDecisionProposed string string string string "proposed_action list" f32 int
  | LlmDecisionExecuted string bool "json option" int
  | DashboardUpdated string string int
  | UserMessage string string int
  | LlmResponse string string "string list" u64 int
  | ToolExecutionStart string json "string option" int
  | ToolExecutionSuccess string json json u64 "string option" int
  | ToolExecutionFailure string json string string u64 "string option" int
  | ExtensionOutput string string metric_value int "(string, string) hash_map option" "f32 option"
  | ExtensionLifecycle string string "string option" int
  | ExtensionCommandStarted string string string string json int
  | ExtensionCommandCompleted string string string string json "json list" u64 int
  | ExtensionCommandFailed string string string string string u64 int
  | DataChanged string string string int
  | Custom string json
  | AgentStreamChunk string json int
  | AgentStreamEnd string string "string option" int

primrec event_type_name :: "heramind_event \<Rightarrow> string" where
  "event_type_name (DeviceOnline _ _ _) = ''DeviceOnline''"
| "event_type_name (DeviceOffline _ _ _) = ''DeviceOffline''"
| "event_type_name (DeviceTransportOnline _ _ _) = ''DeviceTransportOnline''"
| "event_type_name (DeviceTransportOffline _ _ _ _) = ''DeviceTransportOffline''"
| "event_type_name (DeviceMetric _ _ _ _ _ _) = ''DeviceMetric''"
| "event_type_name (DeviceCommandResult _ _ _ _ _) = ''DeviceCommandResult''"
| "event_type_name (DeviceDiscovered _ _ _ _ _ _ _) = ''DeviceDiscovered''"
| "event_type_name (ModelDownloadProgress _ _ _ _ _) = ''ModelDownloadProgress''"
| "event_type_name (SystemUpgradeProgress _ _ _ _ _ _ _) = ''SystemUpgradeProgress''"
| "event_type_name (RuleEvaluated _ _ _ _) = ''RuleEvaluated''"
| "event_type_name (RuleTriggered _ _ _ _ _) = ''RuleTriggered''"
| "event_type_name (RuleExecuted _ _ _ _ _) = ''RuleExecuted''"
| "event_type_name (AlertCreated _ _ _ _ _) = ''AlertCreated''"
| "event_type_name (AlertAcknowledged _ _ _) = ''AlertAcknowledged''"
| "event_type_name (MessageCreated _ _ _ _ _) = ''MessageCreated''"
| "event_type_name (MessageAcknowledged _ _ _) = ''MessageAcknowledged''"
| "event_type_name (MessageResolved _ _) = ''MessageResolved''"
| "event_type_name (ImMessageReceived _ _ _ _ _ _) = ''ImMessageReceived''"
| "event_type_name (AgentExecutionStarted _ _ _ _ _) = ''AgentExecutionStarted''"
| "event_type_name (AgentThinking _ _ _ _ _ _ _) = ''AgentThinking''"
| "event_type_name (AgentDecision _ _ _ _ _ _ _) = ''AgentDecision''"
| "event_type_name (AgentProgress _ _ _ _ _ _ _) = ''AgentProgress''"
| "event_type_name (AgentExecutionCompleted _ _ _ _ _ _) = ''AgentExecutionCompleted''"
| "event_type_name (AgentMemoryUpdated _ _ _) = ''AgentMemoryUpdated''"
| "event_type_name (PeriodicReviewTriggered _ _ _) = ''PeriodicReviewTriggered''"
| "event_type_name (LlmDecisionProposed _ _ _ _ _ _ _) = ''LlmDecisionProposed''"
| "event_type_name (LlmDecisionExecuted _ _ _ _) = ''LlmDecisionExecuted''"
| "event_type_name (DashboardUpdated _ _ _) = ''DashboardUpdated''"
| "event_type_name (UserMessage _ _ _) = ''UserMessage''"
| "event_type_name (LlmResponse _ _ _ _ _) = ''LlmResponse''"
| "event_type_name (ToolExecutionStart _ _ _ _) = ''ToolExecutionStart''"
| "event_type_name (ToolExecutionSuccess _ _ _ _ _ _) = ''ToolExecutionSuccess''"
| "event_type_name (ToolExecutionFailure _ _ _ _ _ _ _) = ''ToolExecutionFailure''"
| "event_type_name (ExtensionOutput _ _ _ _ _ _) = ''ExtensionOutput''"
| "event_type_name (ExtensionLifecycle _ _ _ _) = ''ExtensionLifecycle''"
| "event_type_name (ExtensionCommandStarted _ _ _ _ _ _) = ''ExtensionCommandStarted''"
| "event_type_name (ExtensionCommandCompleted _ _ _ _ _ _ _ _) = ''ExtensionCommandCompleted''"
| "event_type_name (ExtensionCommandFailed _ _ _ _ _ _ _) = ''ExtensionCommandFailed''"
| "event_type_name (DataChanged _ _ _ _) = ''DataChanged''"
| "event_type_name (Custom _ _) = ''Custom''"
| "event_type_name (AgentStreamChunk _ _ _) = ''AgentStreamChunk''"
| "event_type_name (AgentStreamEnd _ _ _ _) = ''AgentStreamEnd''"

definition type_name_owned :: "heramind_event \<Rightarrow> string" where
  "type_name_owned e = (case e of Custom event_type _ \<Rightarrow> event_type | _ \<Rightarrow> event_type_name e)"

text \<open>\<open>timestamp\<close> reads the clock for the three variants that carry none.\<close>

primrec event_timestamp :: "date_time \<Rightarrow> heramind_event \<Rightarrow> int" where
  "event_timestamp now (DeviceOnline _ _ ts) = ts"
| "event_timestamp now (DeviceOffline _ _ ts) = ts"
| "event_timestamp now (DeviceTransportOnline _ _ ts) = ts"
| "event_timestamp now (DeviceTransportOffline _ _ _ ts) = ts"
| "event_timestamp now (DeviceMetric _ _ _ ts _ _) = ts"
| "event_timestamp now (DeviceCommandResult _ _ _ _ ts) = ts"
| "event_timestamp now (DeviceDiscovered _ _ _ _ _ _ ts) = ts"
| "event_timestamp now (ModelDownloadProgress _ _ _ _ _) = timestamp now"
| "event_timestamp now (SystemUpgradeProgress _ _ _ _ _ _ _) = timestamp now"
| "event_timestamp now (RuleEvaluated _ _ _ ts) = ts"
| "event_timestamp now (RuleTriggered _ _ _ _ ts) = ts"
| "event_timestamp now (RuleExecuted _ _ _ _ ts) = ts"
| "event_timestamp now (AlertCreated _ _ _ _ ts) = ts"
| "event_timestamp now (AlertAcknowledged _ _ ts) = ts"
| "event_timestamp now (MessageCreated _ _ _ _ ts) = ts"
| "event_timestamp now (MessageAcknowledged _ _ ts) = ts"
| "event_timestamp now (MessageResolved _ ts) = ts"
| "event_timestamp now (ImMessageReceived _ _ _ _ _ ts) = ts"
| "event_timestamp now (AgentExecutionStarted _ _ _ _ ts) = ts"
| "event_timestamp now (AgentThinking _ _ _ _ _ _ ts) = ts"
| "event_timestamp now (AgentDecision _ _ _ _ _ _ ts) = ts"
| "event_timestamp now (AgentProgress _ _ _ _ _ _ ts) = ts"
| "event_timestamp now (AgentExecutionCompleted _ _ _ _ _ ts) = ts"
| "event_timestamp now (AgentMemoryUpdated _ _ ts) = ts"
| "event_timestamp now (PeriodicReviewTriggered _ _ ts) = ts"
| "event_timestamp now (LlmDecisionProposed _ _ _ _ _ _ ts) = ts"
| "event_timestamp now (LlmDecisionExecuted _ _ _ ts) = ts"
| "event_timestamp now (DashboardUpdated _ _ ts) = ts"
| "event_timestamp now (UserMessage _ _ ts) = ts"
| "event_timestamp now (LlmResponse _ _ _ _ ts) = ts"
| "event_timestamp now (ToolExecutionStart _ _ _ ts) = ts"
| "event_timestamp now (ToolExecutionSuccess _ _ _ _ _ ts) = ts"
| "event_timestamp now (ToolExecutionFailure _ _ _ _ _ _ ts) = ts"
| "event_timestamp now (ExtensionOutput _ _ _ ts _ _) = ts"
| "event_timestamp now (ExtensionLifecycle _ _ _ ts) = ts"
| "event_timestamp now (ExtensionCommandStarted _ _ _ _ _ ts) = ts"
| "event_timestamp now (ExtensionCommandCompleted _ _ _ _ _ _ _ ts) = ts"
| "event_timestamp now (ExtensionCommandFailed _ _ _ _ _ _ ts) = ts"
| "event_timestamp now (DataChanged _ _ _ ts) = ts"
| "event_timestamp now (Custom _ _) = timestamp now"
| "event_timestamp now (AgentStreamChunk _ _ ts) = ts"
| "event_timestamp now (AgentStreamEnd _ _ _ ts) = ts"

definition is_device_event :: "heramind_event \<Rightarrow> bool" where
  "is_device_event e = (case e of
       DeviceOnline _ _ _ \<Rightarrow> True
     | DeviceOffline _ _ _ \<Rightarrow> True
     | DeviceTransportOnline _ _ _ \<Rightarrow> True
     | DeviceTransportOffline _ _ _ _ \<Rightarrow> True
     | DeviceMetric _ _ _ _ _ _ \<Rightarrow> True
     | DeviceCommandResult _ _ _ _ _ \<Rightarrow> True
     | DeviceDiscovered _ _ _ _ _ _ _ \<Rightarrow> True
     | _ \<Rightarrow> False)"

definition is_rule_event :: "heramind_event \<Rightarrow> bool" where
  "is_rule_event e = (case e of
       RuleEvaluated _ _ _ _ \<Rightarrow> True
     | RuleTriggered _ _ _ _ _ \<Rightarrow> True
     | RuleExecuted _ _ _ _ _ \<Rightarrow> True
     | _ \<Rightarrow> False)"

definition is_agent_event :: "heramind_event \<Rightarrow> bool" where
  "is_agent_event e = (case e of
       AgentExecutionStarted _ _ _ _ _ \<Rightarrow> True
     | AgentThinking _ _ _ _ _ _ _ \<Rightarrow> True
     | AgentDecision _ _ _ _ _ _ _ \<Rightarrow> True
     | AgentProgress _ _ _ _ _ _ _ \<Rightarrow> True
     | AgentExecutionCompleted _ _ _ _ _ _ \<Rightarrow> True
     | AgentMemoryUpdated _ _ _ \<Rightarrow> True
     | _ \<Rightarrow> False)"

definition is_llm_event :: "heramind_event \<Rightarrow> bool" where
  "is_llm_event e = (case e of
       AgentExecutionStarted _ _ _ _ _ \<Rightarrow> True
     | AgentThinking _ _ _ _ _ _ _ \<Rightarrow> True
     | AgentDecision _ _ _ _ _ _ _ \<Rightarrow> True
     | AgentProgress _ _ _ _ _ _ _ \<Rightarrow> True
     | AgentExecutionCompleted _ _ _ _ _ _ \<Rightarrow> True
     | AgentMemoryUpdated _ _ _ \<Rightarrow> True
     | PeriodicReviewTriggered _ _ _ \<Rightarrow> True
     | LlmDecisionProposed _ _ _ _ _ _ _ \<Rightarrow> True
     | LlmDecisionExecuted _ _ _ _ \<Rightarrow> True
     | UserMessage _ _ _ \<Rightarrow> True
     | LlmResponse _ _ _ _ _ \<Rightarrow> True
     | ToolExecutionStart _ _ _ _ \<Rightarrow> True
     | ToolExecutionSuccess _ _ _ _ _ _ \<Rightarrow> True
     | ToolExecutionFailure _ _ _ _ _ _ _ \<Rightarrow> True
     | _ \<Rightarrow> False)"

definition is_alert_event :: "heramind_event \<Rightarrow> bool" where
  "is_alert_event e = (case e of
       AlertCreated _ _ _ _ _ \<Rightarrow> True
     | AlertAcknowledged _ _ _ \<Rightarrow> True
     | _ \<Rightarrow> False)"

definition is_message_event :: "heramind_event \<Rightarrow> bool" where
  "is_message_event e = (case e of
       MessageCreated _ _ _ _ _ \<Rightarrow> True
     | MessageAcknowledged _ _ _ \<Rightarrow> True
     | MessageResolved _ _ \<Rightarrow> True
     | _ \<Rightarrow> False)"

definition is_tool_event :: "heramind_event \<Rightarrow> bool" where
  "is_tool_event e = (case e of
       ToolExecutionStart _ _ _ _ \<Rightarrow> True
     | ToolExecutionSuccess _ _ _ _ _ _ \<Rightarrow> True
     | ToolExecutionFailure _ _ _ _ _ _ _ \<Rightarrow> True
     | _ \<Rightarrow> False)"

definition is_extension_event :: "heramind_event \<Rightarrow> bool" where
  "is_extension_event e = (case e of
       ExtensionOutput _ _ _ _ _ _ \<Rightarrow> True
     | ExtensionLifecycle _ _ _ _ \<Rightarrow> True
     | ExtensionCommandStarted _ _ _ _ _ _ \<Rightarrow> True
     | ExtensionCommandCompleted _ _ _ _ _ _ _ _ \<Rightarrow> True
     | ExtensionCommandFailed _ _ _ _ _ _ _ \<Rightarrow> True
     | _ \<Rightarrow> False)"

definition is_model_download_progress :: "heramind_event \<Rightarrow> bool" where
  "is_model_download_progress e = (case e of
       ModelDownloadProgress _ _ _ _ _ \<Rightarrow> True
     | _ \<Rightarrow> False)"

definition is_virtual_device_metric :: "bool option \<Rightarrow> string \<Rightarrow> bool" where
  "is_virtual_device_metric is_virtual metric = (unwrap_or is_virtual False \<or> starts_with metric ''transform.'')"

definition is_virtual_metric :: "heramind_event \<Rightarrow> bool" where
  "is_virtual_metric e = (case e of
       DeviceMetric _ metric _ _ _ is_virtual \<Rightarrow> unwrap_or is_virtual False \<or> starts_with metric ''transform.''
     | _ \<Rightarrow> False)"

section \<open>Metadata\<close>

record event_metadata =
  em_event_id :: uuid
  em_correlation_id :: "string option"
  em_causation_id :: "string option"
  em_source :: string
  em_timestamp :: int

definition metadata_new :: "uuid \<Rightarrow> date_time \<Rightarrow> string \<Rightarrow> event_metadata" where
  "metadata_new fresh now source =
     \<lparr>em_event_id = fresh, em_correlation_id = None, em_causation_id = None, em_source = source,
      em_timestamp = timestamp now\<rparr>"

definition with_correlation_id :: "string \<Rightarrow> event_metadata \<Rightarrow> event_metadata" where
  "with_correlation_id i m = m\<lparr>em_correlation_id := Some i\<rparr>"

definition with_causation_id :: "string \<Rightarrow> event_metadata \<Rightarrow> event_metadata" where
  "with_causation_id i m = m\<lparr>em_causation_id := Some i\<rparr>"


section \<open>Classification\<close>

lemma device_event_by_name: "is_device_event e \<longleftrightarrow> starts_with (event_type_name e) ''Device''"
  by (cases e) (simp_all add: is_device_event_def)

lemma rule_event_by_name: "is_rule_event e \<longleftrightarrow> starts_with (event_type_name e) ''Rule''"
  by (cases e) (simp_all add: is_rule_event_def)

lemma agent_events_are_llm_events: "is_agent_event e \<Longrightarrow> is_llm_event e"
  by (cases e) (simp_all add: is_agent_event_def is_llm_event_def)

lemma tool_events_are_llm_events: "is_tool_event e \<Longrightarrow> is_llm_event e"
  by (cases e) (simp_all add: is_tool_event_def is_llm_event_def)

lemma virtual_metric_is_device_event: "is_virtual_metric e \<Longrightarrow> is_device_event e"
  by (cases e) (simp_all add: is_virtual_metric_def is_device_event_def)

section \<open>The codec of metric values\<close>

lemma metric_deserialize_simps [simp]:
  "metric_deserialize JNull = Json JNull"
  "metric_deserialize (JBool b) = Boolean b"
  "metric_deserialize (JInt i) = Float (f64_of_int i)"
  "metric_deserialize (JFloat f) = Float f"
  "metric_deserialize (JString t) = String t"
  "metric_deserialize (JArray xs) = Json (JArray xs)"
  "metric_deserialize (JObject m) = Json (JObject m)"
  by (simp_all add: metric_deserialize_def)

text \<open>Types of metric values across the wire: a deserialized metric is never an \<open>Integer\<close>; writing a
  value and reading it back gives the same variant and value exactly for finite floats, booleans,
  strings and structured JSON, and an integer comes back as a float of the same numeric reading.\<close>

lemma metric_codec_types:
  "metric_deserialize j \<noteq> Integer i
   \<and> (metric_deserialize (metric_serialize v) = v \<longleftrightarrow>
        (case v of Float f \<Rightarrow> \<not> f = NaN \<and> f \<noteq> PosInf \<and> f \<noteq> NegInf
         | Integer _ \<Rightarrow> False | Boolean _ \<Rightarrow> True | String _ \<Rightarrow> True
         | Json w \<Rightarrow> (case w of JNull \<Rightarrow> True | JArray _ \<Rightarrow> True | JObject _ \<Rightarrow> True | _ \<Rightarrow> False)))
   \<and> metric_as_f64 (metric_deserialize (metric_serialize (Integer i))) = metric_as_f64 (Integer i)"
proof -
  have "metric_deserialize j \<noteq> Integer i" by (cases j) simp_all
  moreover have "metric_deserialize (metric_serialize (Float f)) = Float f \<longleftrightarrow> f \<noteq> NaN \<and> f \<noteq> PosInf \<and> f \<noteq> NegInf" for f
    by (cases f) (simp_all add: json_of_f64_def)
  moreover have "metric_deserialize w = Json w \<longleftrightarrow>
      (case w of JNull \<Rightarrow> True | JArray _ \<Rightarrow> True | JObject _ \<Rightarrow> True | _ \<Rightarrow> False)" for w
    by (cases w) simp_all
  ultimately show ?thesis by (cases v) simp_all
qed

end
