(* ===== verification/MessageManager.thy ===== *)
theory MessageManager
  imports ChannelRegistry TimeGate Events
begin

text \<open>
  \<open>MessageManager\<close> of \<open>heramind-messages/src/manager.rs\<close>: messages in memory and in the store, delivery
  through the channels with suppression of duplicates, and status changes. Two fields of the state
  record what the manager does to the outside: \<open>mm_sent\<close> the calls of \<open>channel.send\<close> with their
  outcome, \<open>mm_published\<close> the events given to the event bus. Clock readings are arguments.
\<close>

section \<open>State\<close>

record 'd manager_env =
  me_reg :: "'d registry_env"
  me_store :: "'d redb"
  me_codec :: sm_codec
  me_msg :: message_env
  me_send :: "channel \<Rightarrow> message \<Rightarrow> (msg_error, unit) rust_result"
  me_factory :: "string \<Rightarrow> (json \<Rightarrow> (msg_error, channel) rust_result) option"

record 'd message_manager =
  mm_messages :: "(uuid, message) hash_map"
  mm_storage :: "'d option"
  mm_channels :: "'d channel_registry"
  mm_event_bus :: bool
  mm_dedup_cache :: "(string, date_time) hash_map"
  mm_sent :: "(string \<times> message \<times> (msg_error, unit) rust_result) list"
  mm_published :: "heramind_event list"

definition DEDUP_INTERVAL_SECS :: int where
  "DEDUP_INTERVAL_SECS = 60"

definition manager_new :: "'d message_manager" where
  "manager_new = \<lparr>mm_messages = [], mm_storage = None, mm_channels = registry_new, mm_event_bus = False,
     mm_dedup_cache = [], mm_sent = [], mm_published = []\<rparr>"

text \<open>\<open>with_storage\<close>, given the two opened databases; \<open>fresh\<close> and \<open>now\<close> stand for the identifier and the
  time a record with an unreadable one gets.\<close>

definition load_messages ::
    "message_env \<Rightarrow> uuid \<Rightarrow> date_time \<Rightarrow> stored_message list \<Rightarrow> (uuid, message) hash_map" where
  "load_messages env fresh now stored_msgs =
     fold (\<lambda>s m. case uuid_parse env (sm_id s) of
             Some ident \<Rightarrow> hm_insert ident (stored_to_message env fresh now s) m
           | None \<Rightarrow> m) stored_msgs []"

definition manager_with_storage ::
    "'d manager_env \<Rightarrow> uuid \<Rightarrow> date_time \<Rightarrow> 'd \<Rightarrow> 'd \<Rightarrow> (msg_error, 'd message_manager) rust_result" where
  "manager_with_storage env fresh now store_db channel_db =
     (let messages = (case ms_list (me_store env) (me_codec env) store_db of
                        Inr stored_msgs \<Rightarrow> load_messages (me_msg env) fresh now stored_msgs
                      | Inl _ \<Rightarrow> [])
      in and_then (map_err (\<lambda>e. Storage (''Failed to create channel registry: '' @ msg_error_fmt e))
                     (registry_with_storage (me_reg env) channel_db)) (\<lambda>channels.
         Inr (manager_new\<lparr>mm_messages := messages, mm_storage := Some store_db, mm_channels := channels\<rparr>)))"

definition set_event_bus :: "'d message_manager \<Rightarrow> 'd message_manager" where
  "set_event_bus s = s\<lparr>mm_event_bus := True\<rparr>"

section \<open>Restoring channels\<close>

definition restore_config :: "stored_channel_config \<Rightarrow> string list \<Rightarrow> json" where
  "restore_config stored recipients =
     (case sc_config stored of
        JObject obj \<Rightarrow>
          let obj1 = hm_insert ''name'' (JString (sc_name stored)) (hm_insert ''enabled'' (JBool (sc_enabled stored)) obj)
          in JObject (if sc_channel_type stored = ''email'' \<and> recipients \<noteq> []
                      then hm_insert ''recipients'' (JArray (map JString recipients)) obj1 else obj1)
      | j \<Rightarrow> j)"

definition restore_channel ::
    "'d manager_env \<Rightarrow> stored_channel_config \<Rightarrow> 'd channel_registry \<Rightarrow> 'd channel_registry" where
  "restore_channel env stored r =
     (case me_factory env (sc_channel_type stored) of
        None \<Rightarrow> r
      | Some create \<Rightarrow>
          (case create (restore_config stored (get_recipients (sc_name stored) r)) of
             Inl _ \<Rightarrow> r
           | Inr ch \<Rightarrow>
               let r1 = register_with_config (me_reg env) (sc_name stored) ch (sc_config stored) r;
                   r2 = (if sc_enabled stored then r1
                         else snd (channel_set_enabled (me_reg env) (sc_name stored) False r1))
               in if sc_filter stored \<noteq> filter_default
                  then (case set_filter (me_reg env) (sc_name stored) (sc_filter stored) r2 of Inr r3 \<Rightarrow> r3 | Inl _ \<Rightarrow> r2)
                  else r2))"

definition load_persisted_channels :: "'d manager_env \<Rightarrow> 'd message_manager \<Rightarrow> 'd message_manager" where
  "load_persisted_channels env s =
     (let (configs, r1) = load_persisted (me_reg env) (mm_channels s);
          r2 = load_all_recipients (me_reg env) r1
      in s\<lparr>mm_channels := fold (restore_channel env) configs r2\<rparr>)"

section \<open>Creating messages\<close>

text \<open>\<open>Duration::num_seconds\<close> rounds towards zero.\<close>

definition num_seconds :: "int \<Rightarrow> int" where
  "num_seconds d = (if d < 0 then - ((- d) div 1000000000) else d div 1000000000)"

definition dedup_key :: "message \<Rightarrow> string" where
  "dedup_key m = msg_title m @ ''|'' @ msg_source m @ ''|'' @ severity_as_str (msg_severity m)"

definition sent_recently :: "date_time \<Rightarrow> message \<Rightarrow> 'd message_manager \<Rightarrow> bool" where
  "sent_recently now m s =
     (case hm_get (mm_dedup_cache s) (dedup_key m) of
        Some last_sent \<Rightarrow> num_seconds (now - last_sent) < DEDUP_INTERVAL_SECS
      | None \<Rightarrow> False)"

text \<open>The loop over the channel names.\<close>

fun send_through ::
    "'d manager_env \<Rightarrow> message \<Rightarrow> 'd channel_registry \<Rightarrow> string list
      \<Rightarrow> (string \<times> message \<times> (msg_error, unit) rust_result) list" where
  "send_through env m r [] = []"
| "send_through env m r (n # ns) =
     (case get_channel n r of
        Some ch \<Rightarrow>
          if is_enabled_effective n r \<and> filter_matches (get_filter (me_reg env) n r) m
          then (n, m, me_send env ch m) # send_through env m r ns
          else send_through env m r ns
      | None \<Rightarrow> send_through env m r ns)"

definition publish_if :: "heramind_event \<Rightarrow> 'd message_manager \<Rightarrow> 'd message_manager" where
  "publish_if ev s = (if mm_event_bus s then s\<lparr>mm_published := mm_published s @ [ev]\<rparr> else s)"

definition record_sent :: "date_time \<Rightarrow> date_time \<Rightarrow> message \<Rightarrow> 'd message_manager \<Rightarrow> 'd message_manager" where
  "record_sent recorded pruned m s =
     (let cutoff = pruned - DEDUP_INTERVAL_SECS * 5 * 1000000000
      in s\<lparr>mm_dedup_cache := filter (\<lambda>(_, ts). ts > cutoff) (hm_insert (dedup_key m) recorded (mm_dedup_cache s))\<rparr>)"

text \<open>\<open>MessageStore\<close> errors are printed with the storage crate's prefix.\<close>

definition store_insert ::
    "'d manager_env \<Rightarrow> message \<Rightarrow> 'd message_manager \<Rightarrow> (msg_error, 'd message_manager) rust_result" where
  "store_insert env m s =
     (case mm_storage s of
        None \<Rightarrow> Inr s
      | Some db \<Rightarrow>
          and_then (map_err (\<lambda>e. Storage (''Failed to persist message: Storage error: '' @ e))
                      (ms_insert (me_store env) (me_codec env) (message_to_stored m) db)) (\<lambda>db'.
          Inr (s\<lparr>mm_storage := Some db'\<rparr>)))"

text \<open>A call has two parts. The check of the duplicate cache, under its read lock; a duplicate is stored under that
  lock and the call ends. Otherwise the lock is released, the message is stored and delivered, and the cache is
  written at the end, under its write lock; other calls may run in between.\<close>

definition store_duplicate :: "'d manager_env \<Rightarrow> message \<Rightarrow> 'd message_manager \<Rightarrow> 'd message_manager" where
  "store_duplicate env m s =
     (let s1 = s\<lparr>mm_messages := hm_insert (msg_id m) m (mm_messages s)\<rparr>
      in case store_insert env m s1 of Inr s2 \<Rightarrow> s2 | Inl _ \<Rightarrow> s1)"

definition deliver_message ::
    "'d manager_env \<Rightarrow> date_time \<Rightarrow> date_time \<Rightarrow> message \<Rightarrow> 'd message_manager
      \<Rightarrow> ((msg_error, message) rust_result \<times> bool) \<times> 'd message_manager" where
  "deliver_message env recorded pruned m s =
     (let s1 = s\<lparr>mm_messages := hm_insert (msg_id m) m (mm_messages s)\<rparr>
      in case store_insert env m s1 of
           Inl e \<Rightarrow> ((Inl e, False), s1)
         | Inr s2 \<Rightarrow>
             let results = send_through env m (mm_channels s2) (list_names (mm_channels s2));
                 s3 = s2\<lparr>mm_sent := mm_sent s2 @ results\<rparr>;
                 s4 = publish_if (MessageCreated (msg_id m) (msg_title m)
                        (to_lowercase (severity_display_name (msg_severity m))) (msg_message m)
                        (timestamp (msg_timestamp m))) s3
             in ((Inr m, True), record_sent recorded pruned m s4))"

text \<open>A call that no other call overlaps. \<open>checked\<close>, \<open>recorded\<close> and \<open>pruned\<close> are the readings of the clock when the
  duplicate check, the insertion into the cache and the pruning happen. The second component of the result
  says whether the message went on to the channels.\<close>

definition create_message ::
    "'d manager_env \<Rightarrow> date_time \<Rightarrow> date_time \<Rightarrow> date_time \<Rightarrow> message \<Rightarrow> 'd message_manager
      \<Rightarrow> ((msg_error, message) rust_result \<times> bool) \<times> 'd message_manager" where
  "create_message env checked recorded pruned m s =
     (if sent_recently checked m s then ((Inr m, False), store_duplicate env m s)
      else deliver_message env recorded pruned m s)"

lemmas create_message_defs = create_message_def store_duplicate_def deliver_message_def

definition mm_alert ::
    "'d manager_env \<Rightarrow> uuid \<Rightarrow> date_time \<Rightarrow> date_time \<Rightarrow> date_time \<Rightarrow> date_time
      \<Rightarrow> message_severity \<Rightarrow> string \<Rightarrow> string \<Rightarrow> string \<Rightarrow> 'd message_manager
      \<Rightarrow> ((msg_error, message) rust_result \<times> bool) \<times> 'd message_manager" where
  "mm_alert env fresh now t1 t2 t3 sev title msg src s =
     create_message env t1 t2 t3 (message_alert fresh now sev title msg src) s"

definition device_alert ::
    "'d manager_env \<Rightarrow> uuid \<Rightarrow> date_time \<Rightarrow> date_time \<Rightarrow> date_time \<Rightarrow> date_time
      \<Rightarrow> message_severity \<Rightarrow> string \<Rightarrow> string \<Rightarrow> string \<Rightarrow> 'd message_manager
      \<Rightarrow> ((msg_error, message) rust_result \<times> bool) \<times> 'd message_manager" where
  "device_alert env fresh now t1 t2 t3 sev title msg device_id s =
     create_message env t1 t2 t3 (message_device fresh now sev title msg device_id) s"

definition rule_alert ::
    "'d manager_env \<Rightarrow> uuid \<Rightarrow> date_time \<Rightarrow> date_time \<Rightarrow> date_time \<Rightarrow> date_time
      \<Rightarrow> message_severity \<Rightarrow> string \<Rightarrow> string \<Rightarrow> string \<Rightarrow> 'd message_manager
      \<Rightarrow> ((msg_error, message) rust_result \<times> bool) \<times> 'd message_manager" where
  "rule_alert env fresh now t1 t2 t3 sev title msg rid s =
     create_message env t1 t2 t3 (message_rule fresh now sev title msg rid) s"

definition mm_system_message ::
    "'d manager_env \<Rightarrow> uuid \<Rightarrow> date_time \<Rightarrow> date_time \<Rightarrow> date_time \<Rightarrow> date_time
      \<Rightarrow> string \<Rightarrow> string \<Rightarrow> 'd message_manager
      \<Rightarrow> ((msg_error, message) rust_result \<times> bool) \<times> 'd message_manager" where
  "mm_system_message env fresh now t1 t2 t3 title msg s =
     create_message env t1 t2 t3 (message_system fresh now title msg) s"

section \<open>Queries\<close>

definition get_message :: "uuid \<Rightarrow> 'd message_manager \<Rightarrow> message option" where
  "get_message ident s = hm_get (mm_messages s) ident"

definition list_messages :: "'d message_manager \<Rightarrow> message list" where
  "list_messages s = map snd (mm_messages s)"

definition list_messages_by_category :: "string \<Rightarrow> 'd message_manager \<Rightarrow> message list" where
  "list_messages_by_category cat s = filter (\<lambda>m. msg_category m = cat) (map snd (mm_messages s))"

definition list_messages_by_status :: "message_status \<Rightarrow> 'd message_manager \<Rightarrow> message list" where
  "list_messages_by_status st s = filter (\<lambda>m. msg_status m = st) (map snd (mm_messages s))"

definition list_active_messages :: "'d message_manager \<Rightarrow> message list" where
  "list_active_messages s = list_messages_by_status Active s"

definition mm_get_stats :: "'d message_manager \<Rightarrow> message_stats" where
  "mm_get_stats s =
     (let ms = map snd (mm_messages s)
      in \<lparr>st_total = length (mm_messages s), st_active = length (filter msg_is_active ms),
          st_by_category = fold (\<lambda>m. count_in (msg_category m)) ms [],
          st_by_severity = fold (\<lambda>m. count_in (severity_as_str (msg_severity m))) ms [],
          st_by_status = fold (\<lambda>m. count_in (status_as_str (msg_status m))) ms []\<rparr>)"

section \<open>Status changes and deletion\<close>

definition store_update ::
    "'d manager_env \<Rightarrow> stored_message \<Rightarrow> 'd message_manager \<Rightarrow> (string, 'd message_manager) rust_result" where
  "store_update env stored s =
     (case mm_storage s of
        None \<Rightarrow> Inr s
      | Some db \<Rightarrow>
          and_then (ms_update (me_store env) (me_codec env) stored db) (\<lambda>db'. Inr (s\<lparr>mm_storage := Some db'\<rparr>)))"

definition change_message ::
    "'d manager_env \<Rightarrow> (message \<Rightarrow> message) \<Rightarrow> uuid \<Rightarrow> 'd message_manager
      \<Rightarrow> (msg_error, unit) rust_result \<times> 'd message_manager" where
  "change_message env f ident s =
     (case hm_get (mm_messages s) ident of
        None \<Rightarrow> (Inl (NotFound (''Message not found: '' @ ident)), s)
      | Some m \<Rightarrow>
          let s1 = s\<lparr>mm_messages := hm_insert ident (f m) (mm_messages s)\<rparr>
          in case store_update env (message_to_stored (f m)) s1 of
               Inl e \<Rightarrow> (Inl (Storage (''Failed to update message: Storage error: '' @ e)), s1)
             | Inr s2 \<Rightarrow> (Inr (), s2))"

definition mm_acknowledge ::
    "'d manager_env \<Rightarrow> date_time \<Rightarrow> uuid \<Rightarrow> 'd message_manager
      \<Rightarrow> (msg_error, unit) rust_result \<times> 'd message_manager" where
  "mm_acknowledge env now ident s =
     (case change_message env msg_acknowledge ident s of
        (Inl e, s1) \<Rightarrow> (Inl e, s1)
      | (Inr _, s1) \<Rightarrow> (Inr (), publish_if (MessageAcknowledged ident ''api'' (timestamp now)) s1))"

definition mm_resolve ::
    "'d manager_env \<Rightarrow> date_time \<Rightarrow> uuid \<Rightarrow> 'd message_manager
      \<Rightarrow> (msg_error, unit) rust_result \<times> 'd message_manager" where
  "mm_resolve env now ident s =
     (case change_message env msg_resolve ident s of
        (Inl e, s1) \<Rightarrow> (Inl e, s1)
      | (Inr _, s1) \<Rightarrow> (Inr (), publish_if (MessageResolved ident (timestamp now)) s1))"

definition mm_archive ::
    "'d manager_env \<Rightarrow> uuid \<Rightarrow> 'd message_manager \<Rightarrow> (msg_error, unit) rust_result \<times> 'd message_manager" where
  "mm_archive env ident s = change_message env msg_archive ident s"

definition mm_delete ::
    "'d manager_env \<Rightarrow> uuid \<Rightarrow> 'd message_manager \<Rightarrow> (msg_error, unit) rust_result \<times> 'd message_manager" where
  "mm_delete env ident s =
     (if \<not> hm_contains (mm_messages s) ident then (Inl (NotFound (''Message not found: '' @ ident)), s)
      else
        let s1 = s\<lparr>mm_messages := hm_remove ident (mm_messages s)\<rparr>
        in case mm_storage s1 of
             None \<Rightarrow> (Inr (), s1)
           | Some db \<Rightarrow>
               (case ms_delete (me_store env) ident db of
                  Inr (_, db') \<Rightarrow> (Inr (), s1\<lparr>mm_storage := Some db'\<rparr>)
                | Inl e \<Rightarrow> (Inl (Storage (''Failed to delete message: Storage error: '' @ e)), s1)))"

fun remove_messages :: "uuid list \<Rightarrow> (uuid, message) hash_map \<Rightarrow> nat \<times> (uuid, message) hash_map" where
  "remove_messages [] m = (0, m)"
| "remove_messages (i # is) m =
     (let (n, m') = remove_messages is (hm_remove i m) in (if hm_contains m i then n + 1 else n, m'))"

definition delete_multiple ::
    "'d manager_env \<Rightarrow> uuid list \<Rightarrow> 'd message_manager \<Rightarrow> nat \<times> 'd message_manager" where
  "delete_multiple env ids s =
     (let (n, ms) = remove_messages ids (mm_messages s)
      in (n, s\<lparr>mm_messages := ms,
               mm_storage := map_option (fold (\<lambda>i db. case ms_delete (me_store env) i db of
                                                  Inr (_, db') \<Rightarrow> db' | Inl _ \<Rightarrow> db) ids) (mm_storage s)\<rparr>))"

fun change_messages ::
    "(message \<Rightarrow> message) \<Rightarrow> uuid list \<Rightarrow> (uuid, message) hash_map
      \<Rightarrow> stored_message list \<times> (uuid, message) hash_map" where
  "change_messages f [] m = ([], m)"
| "change_messages f (i # is) m =
     (case hm_get m i of
        Some msg \<Rightarrow>
          (let (ps, m') = change_messages f is (hm_insert i (f msg) m) in (message_to_stored (f msg) # ps, m'))
      | None \<Rightarrow> change_messages f is m)"

definition change_multiple ::
    "'d manager_env \<Rightarrow> (message \<Rightarrow> message) \<Rightarrow> uuid list \<Rightarrow> 'd message_manager \<Rightarrow> nat \<times> 'd message_manager" where
  "change_multiple env f ids s =
     (let (to_persist, ms) = change_messages f ids (mm_messages s)
      in (length to_persist,
          fold (\<lambda>stored s. case store_update env stored s of Inr s' \<Rightarrow> s' | Inl _ \<Rightarrow> s) to_persist
            (s\<lparr>mm_messages := ms\<rparr>)))"

definition acknowledge_multiple ::
    "'d manager_env \<Rightarrow> uuid list \<Rightarrow> 'd message_manager \<Rightarrow> nat \<times> 'd message_manager" where
  "acknowledge_multiple env ids s = change_multiple env msg_acknowledge ids s"

definition resolve_multiple ::
    "'d manager_env \<Rightarrow> uuid list \<Rightarrow> 'd message_manager \<Rightarrow> nat \<times> 'd message_manager" where
  "resolve_multiple env ids s = change_multiple env msg_resolve ids s"

definition mm_clear ::
    "'d manager_env \<Rightarrow> 'd message_manager \<Rightarrow> (msg_error, unit) rust_result \<times> 'd message_manager" where
  "mm_clear env s =
     (let s1 = s\<lparr>mm_messages := []\<rparr>
      in case mm_storage s1 of
           None \<Rightarrow> (Inr (), s1)
         | Some db \<Rightarrow>
             (case ms_clear (me_store env) db of
                Inr db' \<Rightarrow> (Inr (), s1\<lparr>mm_storage := Some db'\<rparr>)
              | Inl e \<Rightarrow> (Inl (Storage (''Failed to clear messages: Storage error: '' @ e)), s1)))"

definition mm_cleanup_old ::
    "'d manager_env \<Rightarrow> date_time \<Rightarrow> date_time \<Rightarrow> int \<Rightarrow> 'd message_manager
      \<Rightarrow> (msg_error, nat) rust_result \<times> 'd message_manager" where
  "mm_cleanup_old env now now' older_than_days s =
     (let cutoff = now - older_than_days * 86400 * 1000000000;
          kept = filter (\<lambda>(_, m). \<not> msg_timestamp m < cutoff) (mm_messages s);
          n = length (mm_messages s) - length kept;
          s1 = s\<lparr>mm_messages := kept\<rparr>
      in case mm_storage s1 of
           None \<Rightarrow> (Inr n, s1)
         | Some db \<Rightarrow>
             (case ms_cleanup_old (me_store env) (me_codec env) now' older_than_days db of
                Inr (_, db') \<Rightarrow> (Inr n, s1\<lparr>mm_storage := Some db'\<rparr>)
              | Inl e \<Rightarrow> (Inl (Storage (''Failed to cleanup messages: Storage error: '' @ e)), s1)))"

section \<open>Delivery\<close>

lemma store_insert_memory:
  assumes "store_insert env m s = Inr s'"
  shows "mm_messages s' = mm_messages s" "mm_channels s' = mm_channels s" "mm_dedup_cache s' = mm_dedup_cache s"
    "mm_sent s' = mm_sent s" "mm_published s' = mm_published s" "mm_event_bus s' = mm_event_bus s"
  using assms by (auto simp: store_insert_def split: option.splits)

lemma publish_if_fields [simp]:
  "mm_messages (publish_if ev s) = mm_messages s" "mm_channels (publish_if ev s) = mm_channels s"
  "mm_dedup_cache (publish_if ev s) = mm_dedup_cache s" "mm_sent (publish_if ev s) = mm_sent s"
  "mm_storage (publish_if ev s) = mm_storage s"
  by (simp_all add: publish_if_def)

lemma record_sent_fields [simp]:
  "mm_messages (record_sent a b m s) = mm_messages s" "mm_channels (record_sent a b m s) = mm_channels s"
  "mm_sent (record_sent a b m s) = mm_sent s" "mm_storage (record_sent a b m s) = mm_storage s"
  by (simp_all add: record_sent_def Let_def)

definition wants :: "'d manager_env \<Rightarrow> message \<Rightarrow> 'd channel_registry \<Rightarrow> string \<Rightarrow> bool" where
  "wants env m r n \<longleftrightarrow> hm_contains (cr_channels r) n \<and> is_enabled_effective n r \<and>
     filter_matches (get_filter (me_reg env) n r) m"

lemma send_through_names:
  "map fst (send_through env m r ns) = filter (wants env m r) ns"
proof (induction ns)
  case (Cons n ns)
  have "get_channel n r = None \<longleftrightarrow> \<not> hm_contains (cr_channels r) n"
    by (simp add: get_channel_def map_of_eq_None_iff)
  with Cons show ?case by (auto simp: wants_def split: option.splits)
qed simp

lemma send_through_message:
  "map (fst \<circ> snd) (send_through env m r ns) = replicate (length (send_through env m r ns)) m"
  by (induction ns) (auto split: option.splits)

lemma create_message_messages:
  "mm_messages (snd (create_message env t1 t2 t3 m s)) = hm_insert (msg_id m) m (mm_messages s)"
  by (auto simp: create_message_defs Let_def store_insert_memory split: sum.splits)

lemma create_message_channels [simp]:
  "mm_channels (snd (create_message env t1 t2 t3 m s)) = mm_channels s"
  by (auto simp: create_message_defs Let_def store_insert_memory split: sum.splits)

lemma create_message_sent:
  "mm_sent (snd (create_message env t1 t2 t3 m s)) = mm_sent s @
     (if snd (fst (create_message env t1 t2 t3 m s)) then send_through env m (mm_channels s) (list_names (mm_channels s)) else [])"
  by (auto simp: create_message_defs Let_def store_insert_memory split: sum.splits)

section \<open>Suppression of duplicates\<close>

definition dedup_attempt ::
    "'d manager_env \<Rightarrow> message \<Rightarrow> int \<Rightarrow> int \<Rightarrow> int \<Rightarrow> 'd message_manager \<Rightarrow> bool \<times> 'd message_manager" where
  "dedup_attempt env m t t' t'' s =
     (snd (fst (create_message env t t' t'' m s)), snd (create_message env t t' t'' m s))"

lemma dedup_attempt_True:
  assumes "dedup_attempt env m t t' t'' s = (True, s')"
  shows "\<not> sent_recently t m s"
    and "mm_dedup_cache s' = filter (\<lambda>(_, ts). ts > t'' - 300000000000) (hm_insert (dedup_key m) t' (mm_dedup_cache s))"
  using assms
  by (auto simp: dedup_attempt_def create_message_defs Let_def record_sent_def DEDUP_INTERVAL_SECS_def store_insert_memory
      split: if_splits sum.splits)

lemma dedup_attempt_False:
  "dedup_attempt env m t t' t'' s = (False, s') \<Longrightarrow> mm_dedup_cache s' = mm_dedup_cache s"
  by (auto simp: dedup_attempt_def create_message_defs Let_def store_insert_memory split: if_splits sum.splits)

lemma not_sent_recently:
  assumes "\<not> sent_recently t m s" "hm_get (mm_dedup_cache s) (dedup_key m) = Some u"
  shows "60000000000 \<le> t - u"
  using assms by (simp add: sent_recently_def num_seconds_def DEDUP_INTERVAL_SECS_def split: if_splits)

interpretation dedup: time_gate dedup_key "\<lambda>s. hm_get (mm_dedup_cache s)" "dedup_attempt env"
    "\<lambda>_. 60000000000" "\<lambda>s. hm_wf (mm_dedup_cache s)" origin for env origin
proof unfold_locales
  fix s s' :: "'a message_manager" and m t t' t'' u
  assume wf: "hm_wf (mm_dedup_cache s)"
  show "60000000000 \<le> t - u \<or> (60000000000 :: int) \<le> 0"
    if "dedup_attempt env m t t' t'' s = (True, s')" "hm_get (mm_dedup_cache s) (dedup_key m) = Some u"
    using not_sent_recently [OF dedup_attempt_True(1) [OF that(1)] that(2)] ..
  show "hm_get (mm_dedup_cache s') (dedup_key m) = Some t' \<or> 60000000000 \<le> t'' - t'"
    if "dedup_attempt env m t t' t'' s = (True, s')" "t \<le> t'" "t' \<le> t''"
    using wf by (simp add: dedup_attempt_True(2) [OF that(1)] hm_get_filter)
  show "hm_get (mm_dedup_cache s') j = Some u \<or> 60000000000 \<le> t'' - u"
    if "dedup_attempt env m t t' t'' s = (True, s')" "t \<le> t'" "t' \<le> t''" "j \<noteq> dedup_key m"
      "hm_get (mm_dedup_cache s) j = Some u" for j
    using wf that by (simp add: dedup_attempt_True(2) [OF that(1)] hm_get_filter)
  show "hm_get (mm_dedup_cache s') = hm_get (mm_dedup_cache s)"
    if "dedup_attempt env m t t' t'' s = (False, s')"
    by (simp add: dedup_attempt_False [OF that])
  show "hm_wf (mm_dedup_cache s')" if "dedup_attempt env m t t' t'' s = (b, s')" for b
    using that wf
    by (cases b) (simp_all add: dedup_attempt_True(2) dedup_attempt_False distinct_map_filter)
qed

section \<open>An example environment\<close>

text \<open>A manager over the in-memory database with a codec that knows the messages of the example.\<close>

definition example_message :: "message_status \<Rightarrow> message" where
  "example_message st = (message_system ''a'' 7000000001 ''t'' ''m'')\<lparr>msg_status := st\<rparr>"

definition example_message_codec :: sm_codec where
  "example_message_codec =
     \<lparr>sm_to_json = (\<lambda>s. if s = message_to_stored (example_message Active) then Inr ''active''
                       else if s = message_to_stored (example_message Resolved) then Inr ''resolved''
                       else Inl ''unsupported''),
      sm_from_json = (\<lambda>j. if j = ''active'' then Inr (message_to_stored (example_message Active))
                         else if j = ''resolved'' then Inr (message_to_stored (example_message Resolved))
                         else Inl ''unsupported'')\<rparr>"

definition example_manager_env :: "mem_db manager_env" where
  "example_manager_env = \<lparr>me_reg = example_registry_env, me_store = mem_redb, me_codec = example_message_codec,
     me_msg = example_message_env, me_send = (\<lambda>_ _. Inr ()), me_factory = (\<lambda>_. None)\<rparr>"

section \<open>Properties\<close>

text \<open>Calls that overlap: \<open>CheckDup i\<close> is the first part of call \<open>i\<close>, \<open>Deliver i\<close> the second, of a message
  that passed the check. The trace tells which messages passed the check, and which were delivered and then
  recorded, each with its time.\<close>

datatype create_move = CheckDup nat date_time message | Deliver nat date_time date_time

datatype create_event = Passed message date_time | Recorded message date_time

fun create_step ::
    "'d manager_env \<Rightarrow> create_move \<Rightarrow> 'd message_manager \<times> (nat, message) hash_map
      \<Rightarrow> create_event list \<times> 'd message_manager \<times> (nat, message) hash_map" where
  "create_step env (CheckDup i t m) (s, pending) =
     (if sent_recently t m s then ([], store_duplicate env m s, pending) else ([Passed m t], s, hm_insert i m pending))"
| "create_step env (Deliver i t t') (s, pending) =
     (case hm_get pending i of
        None \<Rightarrow> ([], s, pending)
      | Some m \<Rightarrow>
          (let ((_, sent), s') = deliver_message env t t' m s
           in (if sent then [Recorded m t] else [], s', hm_remove i pending)))"

fun create_trace ::
    "'d manager_env \<Rightarrow> create_move list \<Rightarrow> 'd message_manager \<times> (nat, message) hash_map \<Rightarrow> create_event list" where
  "create_trace env [] st = []"
| "create_trace env (x # xs) st = (let (evs, st') = create_step env x st in evs @ create_trace env xs st')"

fun create_times :: "create_move \<Rightarrow> date_time list" where
  "create_times (CheckDup i t m) = [t]"
| "create_times (Deliver i t t') = [t, t']"

text \<open>Two steps of one call, with nothing in between, are the call.\<close>

lemma create_message_steps:
  "fst (snd (create_step env (Deliver i t' t'') (snd (create_step env (CheckDup i t m) (s, []))))) = snd (create_message env t t' t'' m s)"
  by (auto simp: create_message_def split_beta)

lemma deliver_message_cache:
  "mm_dedup_cache (snd (deliver_message env t t' m s)) =
     (if snd (fst (deliver_message env t t' m s))
      then filter (\<lambda>(_, ts). ts > t' - 300000000000) (hm_insert (dedup_key m) t (mm_dedup_cache s))
      else mm_dedup_cache s)"
  by (auto simp: deliver_message_def Let_def record_sent_def DEDUP_INTERVAL_SECS_def store_insert_memory split: sum.splits)

lemma store_duplicate_cache [simp]: "mm_dedup_cache (store_duplicate env m s) = mm_dedup_cache s"
  by (auto simp: store_duplicate_def Let_def store_insert_memory split: sum.splits)

text \<open>What the cache knows at \<open>now\<close> of a message that was recorded at \<open>r\<close>.\<close>

definition cache_knows :: "'d message_manager \<Rightarrow> string \<Rightarrow> date_time \<Rightarrow> date_time \<Rightarrow> bool" where
  "cache_knows s key r now \<longleftrightarrow> (\<exists>u. hm_get (mm_dedup_cache s) key = Some u \<and> r \<le> u) \<or> 60000000000 \<le> now - r"

lemma create_step_knows:
  assumes "create_step env x (s, pending) = (evs, s', pending')" and "hm_wf (mm_dedup_cache s)"
    and "sorted (now # create_times x)" and "cache_knows s key r now" and "r \<le> now"
  shows "hm_wf (mm_dedup_cache s') \<and> cache_knows s' key r (last (create_times x))
    \<and> (\<forall>m t. Passed m t \<in> set evs \<longrightarrow> dedup_key m = key \<longrightarrow> 60000000000 \<le> t - r)"
proof (cases x)
  case (CheckDup i t m)
  have "60000000000 \<le> t - r" if "\<not> sent_recently t m s" "dedup_key m = key"
    using not_sent_recently [OF that(1)] that(2) assms(3,4) CheckDup by (auto simp: cache_knows_def)
  with assms CheckDup show ?thesis by (auto simp: cache_knows_def split: if_splits)
next
  case (Deliver i t t')
  show ?thesis
  proof (cases "hm_get pending i")
    case None
    with assms Deliver show ?thesis by (auto simp: cache_knows_def)
  next
    case (Some m)
    have s': "s' = snd (deliver_message env t t' m s)" and evs: "\<forall>m t. Passed m t \<notin> set evs"
      using assms(1) Deliver Some by (auto simp: split_beta split: if_splits)
    have times: "now \<le> t" "t \<le> t'" using assms(3) Deliver by auto
    have "cache_knows s' key r t'"
    proof (cases "snd (fst (deliver_message env t t' m s))")
      case False
      with s' assms(4) times show ?thesis by (auto simp: cache_knows_def deliver_message_cache)
    next
      case True
      then have c: "mm_dedup_cache s' = filter (\<lambda>(_, ts). ts > t' - 300000000000) (hm_insert (dedup_key m) t (mm_dedup_cache s))"
        using s' by (simp add: deliver_message_cache)
      show ?thesis
      proof (cases "60000000000 \<le> t' - r")
        case True
        then show ?thesis by (simp add: cache_knows_def)
      next
        case False
        with assms(4) times obtain u where u: "hm_get (mm_dedup_cache s) key = Some u" "r \<le> u"
          by (auto simp: cache_knows_def)
        have "\<exists>u'. hm_get (hm_insert (dedup_key m) t (mm_dedup_cache s)) key = Some u' \<and> r \<le> u'"
          using u times assms(5) by (cases "key = dedup_key m") auto
        with False assms(2) show ?thesis by (auto simp: cache_knows_def c hm_get_filter)
      qed
    qed
    moreover have "hm_wf (mm_dedup_cache s')"
      using assms(2) unfolding s' deliver_message_cache by (simp add: distinct_map_filter)
    ultimately show ?thesis using evs Deliver by simp
  qed
qed

lemma trace_keeps_distance:
  assumes "hm_wf (mm_dedup_cache s)" and "sorted (now # concat (map create_times xs))" and "cache_knows s key r now" and "r \<le> now"
    and "Passed m t \<in> set (create_trace env xs (s, pending))" and "dedup_key m = key"
  shows "60000000000 \<le> t - r"
  using assms(1-5)
proof (induction xs arbitrary: s pending now)
  case (Cons x xs)
  obtain evs s' pending' where st: "create_step env x (s, pending) = (evs, s', pending')" by (metis prod_cases3)
  have times: "sorted (now # create_times x)" "sorted (last (create_times x) # concat (map create_times xs))" "now \<le> last (create_times x)"
    using Cons.prems(2) by (cases x; auto)+
  note step = create_step_knows [OF st Cons.prems(1) times(1) Cons.prems(3,4)]
  show ?case
  proof (cases "Passed m t \<in> set evs")
    case True
    with step assms(6) show ?thesis by blast
  next
    case False
    with Cons.prems(5) st have "Passed m t \<in> set (create_trace env xs (s', pending'))" by simp
    with Cons.IH [OF _ times(2)] step times(3) Cons.prems(4) show ?thesis by auto
  qed
qed simp

text \<open>C11. No message bombing: however the calls of \<open>create_message\<close> overlap, with a clock that does not go
  backwards and any outcomes of storage and channels, a message that passes the duplicate check after
  another one with the same title, source and severity was delivered and recorded, does so at least sixty
  seconds after that. (Between the check of a call and its record the lock is released: calls that overlap
  there can both deliver.)\<close>

theorem duplicates_spaced:
  assumes "hm_wf (mm_dedup_cache s)" and "sorted (concat (map create_times xs))"
  shows "sorted_wrt (\<lambda>x y. \<forall>m r m' t. x = Recorded m r \<and> y = Passed m' t \<and> dedup_key m' = dedup_key m \<longrightarrow> 60000000000 \<le> t - r)
    (create_trace env xs (s, pending))"
  using assms
proof (induction xs arbitrary: s pending)
  case (Cons x xs)
  obtain evs s' pending' where st: "create_step env x (s, pending) = (evs, s', pending')" by (metis prod_cases3)
  have times: "sorted (hd (create_times x) # create_times x)" "sorted (concat (map create_times xs))"
    "sorted (last (create_times x) # concat (map create_times xs))"
    using Cons.prems(2) by (cases x; auto)+
  have one: "length evs \<le> 1" using st by (cases x) (auto simp: split_beta split: option.splits if_splits)
  have wf: "hm_wf (mm_dedup_cache s')"
    using st Cons.prems(1)
    by (cases x) (auto simp: split_beta deliver_message_cache distinct_map_filter split: option.splits if_splits)
  have "60000000000 \<le> t - r"
    if "Recorded m r \<in> set evs" "Passed m' t \<in> set (create_trace env xs (s', pending'))" "dedup_key m' = dedup_key m" for m r m' t
  proof -
    from that(1) st obtain i t' where x: "x = Deliver i r t'" and s': "s' = snd (deliver_message env r t' m s)"
        "snd (fst (deliver_message env r t' m s))"
      by (cases x) (auto simp: split_beta split: option.splits if_splits)
    have "cache_knows s' (dedup_key m) r t'"
      using Cons.prems(1) s' by (auto simp: cache_knows_def deliver_message_cache hm_get_filter)
    moreover have "r \<le> t'" "sorted (t' # concat (map create_times xs))" using times(1,3) x by simp_all
    ultimately show ?thesis using trace_keeps_distance [OF wf _ _ _ that(2,3)] by blast
  qed
  moreover have "sorted_wrt P evs" for P :: "create_event \<Rightarrow> create_event \<Rightarrow> bool" using one by (cases evs) auto
  ultimately show ?case using Cons.IH [OF wf times(2)] st by (auto simp: sorted_wrt_append)
qed simp

theorem duplicates_spaced_witness:
  "60000000000 \<le> (60000000000 :: int) - 0 \<and>
   create_trace example_manager_env
     [CheckDup 0 0 (example_message Active), Deliver 0 0 1, CheckDup 1 30000000000 (example_message Active),
      CheckDup 2 60000000000 (example_message Active)] (manager_new, []) =
     [Passed (example_message Active) 0, Recorded (example_message Active) 0, Passed (example_message Active) 60000000000]"
proof -
  let ?xs = "[CheckDup 0 0 (example_message Active), Deliver 0 0 1, CheckDup 1 30000000000 (example_message Active),
      CheckDup 2 60000000000 (example_message Active)]"
  have tr: "create_trace example_manager_env ?xs (manager_new, []) =
     [Passed (example_message Active) 0, Recorded (example_message Active) 0, Passed (example_message Active) 60000000000]"
    by code_simp
  have "hm_wf (mm_dedup_cache (manager_new :: mem_db message_manager))" "sorted (concat (map create_times ?xs))"
    by (simp_all add: manager_new_def)
  from duplicates_spaced [OF this, of example_manager_env "[]"] tr show ?thesis by (simp add: dedup_key_def)
qed

text \<open>Calls that overlap between check and record deliver both messages at the same time.\<close>

lemma overlapping_duplicates_delivered:
  "create_trace example_manager_env
     [CheckDup 0 0 (example_message Active), CheckDup 1 0 (example_message Active), Deliver 0 1 1, Deliver 1 1 1] (manager_new, []) =
     [Passed (example_message Active) 0, Passed (example_message Active) 0, Recorded (example_message Active) 1, Recorded (example_message Active) 1]"
  by code_simp

text \<open>C10. Delivery is exact: a call of \<open>create_message\<close> either hands the message to each channel that is
  registered, effectively enabled and whose filter accepts it, once and in listing order, and to no
  other channel, or to no channel at all; and it is the former unless the message repeats a recent
  one or the store failed to persist it.\<close>

theorem delivery_exact:
  "case create_message env t1 t2 t3 m s of ((res, forwarded), s') \<Rightarrow>
     (\<exists>sends. mm_sent s' = mm_sent s @ sends
        \<and> map fst sends = (if forwarded then filter (wants env m (mm_channels s)) (list_names (mm_channels s)) else [])
        \<and> map (fst \<circ> snd) sends = replicate (length sends) m)
     \<and> (forwarded \<longleftrightarrow> \<not> sent_recently t1 m s \<and> res = Inr m)"
proof -
  obtain res fw s' where out: "create_message env t1 t2 t3 m s = ((res, fw), s')"
    by (metis surj_pair)
  have "fw \<longleftrightarrow> \<not> sent_recently t1 m s \<and> res = Inr m"
    using out by (auto simp: create_message_defs Let_def split: sum.splits if_splits)
  moreover have "mm_sent s' = mm_sent s @ (if fw then send_through env m (mm_channels s) (list_names (mm_channels s)) else [])"
    using create_message_sent [of env t1 t2 t3 m s] out by simp
  ultimately show ?thesis
    using out send_through_names send_through_message by auto
qed

text \<open>No message is lost in memory: whatever happens to storage and channels, and also when the
  message is suppressed as a duplicate, it can be looked up afterwards by its identifier, and every
  other message is as it was.\<close>

lemma created_message_found:
  "get_message k (snd (create_message env t1 t2 t3 m s)) =
     (if k = msg_id m then Some m else get_message k s)"
  by (simp add: get_message_def create_message_messages)

end
