(* ===== verification/RuleEngine.thy ===== *)
theory RuleEngine
  imports ValueProvider RuleActions RuleStore MessageManager
begin

text \<open>
  \<open>RuleEngine\<close> of \<open>heramind-rules/src/engine.rs\<close>: rule storage and subscription index, evaluation on data
  updates, cooldowns, sustained conditions, action execution and history.

  Every method that reads the clock takes its readings as arguments, one named reading per call in
  the source (record \<open>fire_clock\<close>), so that no relation between two readings is assumed where the
  code makes two calls. What the outside answers during an evaluation (values at evaluation time
  and at the later extraction, devices, extensions) is part of the same record. Two fields record
  the outputs: \<open>eng_published\<close> the events given to the event bus, \<open>eng_spawned\<close> the agent runs
  started. Locks are held for the duration of one definition here, as in the code.
\<close>

section \<open>State and environment\<close>

datatype rule_error = Validation string

record 'd rule_engine =
  eng_rules :: "(rule_id, compiled_rule) hash_map"
  subscription_index :: "(string, rule_id list) hash_map"
  cooldowns :: "(rule_id, instant) hash_map"
  consecutive_action_failures :: "(rule_id, u32) hash_map"
  history :: "rule_execution_result list"
  eng_message_manager :: "'d message_manager option"
  eng_device_executor :: "retry_config option"
  eng_extension_executor :: bool
  eng_agent_trigger :: bool
  eng_rule_store :: "'d option"
  eng_event_bus :: bool
  eng_published :: "heramind_event list"
  eng_spawned :: "(string \<times> string option \<times> json option) list"

record ('d, 'r) engine_env =
  en_text :: "'r text_env"
  en_store :: "'d redb"
  en_codec :: rule_codec
  en_manager :: "'d manager_env"
  en_pow :: "f64 \<Rightarrow> int \<Rightarrow> f64"
  en_fmt_duration :: "duration \<Rightarrow> string"

text \<open>The readings and answers one action execution uses: the identifier and time of a new message,
  the three clock readings of \<open>create_message\<close>, and the answers of devices and extensions.\<close>

record action_oracle =
  ao_fresh :: uuid
  ao_now :: date_time
  ao_checked :: date_time
  ao_recorded :: date_time
  ao_pruned :: date_time
  ao_device :: device_service
  ao_extension :: extension_registry

record fire_clock =
  fc_values :: value_source
  fc_trigger_values :: value_source
  fc_cooldown_check :: instant
  fc_evaluated :: date_time
  fc_since :: date_time
  fc_elapsed :: date_time
  fc_claim_check :: instant
  fc_claimed :: instant
  fc_triggered :: date_time
  fc_start :: instant
  fc_action :: "nat \<Rightarrow> action_oracle"
  fc_state :: date_time
  fc_end :: instant
  fc_done :: date_time
  fc_executed :: date_time

definition MAX_HISTORY_SIZE :: nat where
  "MAX_HISTORY_SIZE = 1000"

definition engine_new :: "'d rule_engine" where
  "engine_new = \<lparr>eng_rules = [], subscription_index = [], cooldowns = [], consecutive_action_failures = [],
     history = [], eng_message_manager = None, eng_device_executor = None, eng_extension_executor = False,
     eng_agent_trigger = False, eng_rule_store = None, eng_event_bus = False, eng_published = [], eng_spawned = []\<rparr>"

definition with_event_bus :: "bool \<Rightarrow> 'd rule_engine \<Rightarrow> 'd rule_engine" where
  "with_event_bus bus e = e\<lparr>eng_event_bus := bus\<rparr>"

definition publish :: "heramind_event \<Rightarrow> 'd rule_engine \<Rightarrow> 'd rule_engine" where
  "publish ev e = (if eng_event_bus e then e\<lparr>eng_published := eng_published e @ [ev]\<rparr> else e)"

definition set_rule_store :: "'d \<Rightarrow> 'd rule_engine \<Rightarrow> 'd rule_engine" where
  "set_rule_store db e = e\<lparr>eng_rule_store := Some db\<rparr>"

definition set_message_manager :: "'d message_manager \<Rightarrow> 'd rule_engine \<Rightarrow> 'd rule_engine" where
  "set_message_manager mm e = e\<lparr>eng_message_manager := Some mm\<rparr>"

definition set_device_action_executor :: "retry_config \<Rightarrow> 'd rule_engine \<Rightarrow> 'd rule_engine" where
  "set_device_action_executor cfg e = e\<lparr>eng_device_executor := Some cfg\<rparr>"

definition set_extension_action_executor :: "'d rule_engine \<Rightarrow> 'd rule_engine" where
  "set_extension_action_executor e = e\<lparr>eng_extension_executor := True\<rparr>"

definition set_agent_trigger_callback :: "'d rule_engine \<Rightarrow> 'd rule_engine" where
  "set_agent_trigger_callback e = e\<lparr>eng_agent_trigger := True\<rparr>"

section \<open>Subscription index\<close>

definition index_push :: "rule_id \<Rightarrow> string \<Rightarrow> (string, rule_id list) hash_map \<Rightarrow> (string, rule_id list) hash_map" where
  "index_push i key idx = hm_insert key (unwrap_or (hm_get idx key) [] @ [i]) idx"

definition index_rule :: "compiled_rule \<Rightarrow> (string, rule_id list) hash_map \<Rightarrow> (string, rule_id list) hash_map" where
  "index_rule r idx =
     (case trigger r of
        DataChange sources \<Rightarrow> fold (\<lambda>s. index_push (compiled_rule.rule_id r) (storage_key s)) sources idx
      | _ \<Rightarrow> idx)"

definition rebuild_all_subscriptions :: "'d rule_engine \<Rightarrow> 'd rule_engine" where
  "rebuild_all_subscriptions e =
     e\<lparr>subscription_index := fold index_rule (map snd (eng_rules e)) []\<rparr>"

definition subscribed_virtual_metric_devices :: "string \<Rightarrow> 'd rule_engine \<Rightarrow> string list" where
  "subscribed_virtual_metric_devices metric_name e =
     (let suf = '':'' @ metric_name
      in concat (map (\<lambda>(key, _).
           case strip_prefix ''device:'' key of
             Some rest \<Rightarrow> (case strip_suffix suf rest of Some device_id \<Rightarrow> [device_id] | None \<Rightarrow> [])
           | None \<Rightarrow> []) (subscription_index e)))"

section \<open>Rule CRUD\<close>

definition add_rule :: "compiled_rule \<Rightarrow> 'd rule_engine \<Rightarrow> (rule_error, unit) rust_result \<times> 'd rule_engine" where
  "add_rule r e =
     (Inr (), rebuild_all_subscriptions (e\<lparr>eng_rules := hm_insert (compiled_rule.rule_id r) r (eng_rules e)\<rparr>))"

definition remove_rule :: "rule_id \<Rightarrow> 'd rule_engine \<Rightarrow> (rule_error, bool) rust_result \<times> 'd rule_engine" where
  "remove_rule i e =
     (let removed = hm_contains (eng_rules e) i;
          e1 = e\<lparr>eng_rules := hm_remove i (eng_rules e)\<rparr>
      in (Inr removed,
          if removed
          then (rebuild_all_subscriptions e1)\<lparr>cooldowns := hm_remove i (cooldowns e1)\<rparr>
          else e1))"

definition update_rule :: "compiled_rule \<Rightarrow> 'd rule_engine \<Rightarrow> (rule_error, unit) rust_result \<times> 'd rule_engine" where
  "update_rule r e =
     (Inr (), rebuild_all_subscriptions (e\<lparr>eng_rules := hm_insert (compiled_rule.rule_id r) r (eng_rules e)\<rparr>))"

definition get_rule :: "rule_id \<Rightarrow> 'd rule_engine \<Rightarrow> compiled_rule option" where
  "get_rule i e = hm_get (eng_rules e) i"

definition list_rules :: "'d rule_engine \<Rightarrow> compiled_rule list" where
  "list_rules e = map snd (eng_rules e)"

definition set_enabled ::
    "date_time \<Rightarrow> rule_id \<Rightarrow> bool \<Rightarrow> 'd rule_engine \<Rightarrow> (rule_error, unit) rust_result \<times> 'd rule_engine" where
  "set_enabled now i b e =
     (case hm_get (eng_rules e) i of
        Some r \<Rightarrow> (Inr (), e\<lparr>eng_rules := hm_insert i (r\<lparr>enabled := b, updated_at := now\<rparr>) (eng_rules e)\<rparr>)
      | None \<Rightarrow> (Inl (Validation (''Rule not found: '' @ i)), e))"

definition list_schedule_rules :: "'d rule_engine \<Rightarrow> (rule_id \<times> string) list" where
  "list_schedule_rules e =
     concat (map (\<lambda>(i, r). if enabled r then (case trigger r of Schedule cron \<Rightarrow> [(i, cron)] | _ \<Rightarrow> []) else [])
       (eng_rules e))"

section \<open>Cooldown\<close>

definition is_in_cooldown :: "instant \<Rightarrow> rule_id \<Rightarrow> compiled_rule \<Rightarrow> 'd rule_engine \<Rightarrow> bool" where
  "is_in_cooldown now i r e =
     (case hm_get (cooldowns e) i of Some prev \<Rightarrow> elapsed_since now prev < cooldown r | None \<Rightarrow> False)"

definition try_claim_cooldown ::
    "instant \<Rightarrow> instant \<Rightarrow> rule_id \<Rightarrow> duration \<Rightarrow> 'd rule_engine \<Rightarrow> bool \<times> 'd rule_engine" where
  "try_claim_cooldown now claimed i cd e =
     (case hm_get (cooldowns e) i of
        Some prev \<Rightarrow>
          if elapsed_since now prev < cd then (False, e)
          else (True, e\<lparr>cooldowns := hm_insert i claimed (cooldowns e)\<rparr>)
      | None \<Rightarrow> (True, e\<lparr>cooldowns := hm_insert i claimed (cooldowns e)\<rparr>))"

section \<open>Rule state and history\<close>

definition persist_rule :: "('d, 'r) engine_env \<Rightarrow> compiled_rule \<Rightarrow> 'd rule_engine \<Rightarrow> 'd rule_engine" where
  "persist_rule env r e =
     (case eng_rule_store e of
        None \<Rightarrow> e
      | Some db \<Rightarrow>
          (case rs_save (en_store env) (en_codec env) r db of
             Inr db' \<Rightarrow> e\<lparr>eng_rule_store := Some db'\<rparr>
           | Inl _ \<Rightarrow> e))"

definition update_condition_since ::
    "('d, 'r) engine_env \<Rightarrow> date_time \<Rightarrow> rule_id \<Rightarrow> bool \<Rightarrow> 'd rule_engine \<Rightarrow> date_time option \<times> 'd rule_engine" where
  "update_condition_since env now i condition_met e =
     (case hm_get (eng_rules e) i of
        None \<Rightarrow> (None, e)
      | Some r \<Rightarrow>
          if condition_met then
            (case condition_since (state r) of
               None \<Rightarrow>
                 let r' = r\<lparr>state := (state r)\<lparr>condition_since := Some now\<rparr>\<rparr>
                 in (Some now, persist_rule env r' (e\<lparr>eng_rules := hm_insert i r' (eng_rules e)\<rparr>))
             | Some t \<Rightarrow> (Some t, e))
          else if condition_since (state r) \<noteq> None then
            let r' = r\<lparr>state := (state r)\<lparr>condition_since := None\<rparr>\<rparr>
            in (None, persist_rule env r' (e\<lparr>eng_rules := hm_insert i r' (eng_rules e)\<rparr>))
          else (None, e))"

definition update_rule_state_after_trigger ::
    "('d, 'r) engine_env \<Rightarrow> date_time \<Rightarrow> rule_id \<Rightarrow> 'd rule_engine \<Rightarrow> 'd rule_engine" where
  "update_rule_state_after_trigger env now i e =
     (case hm_get (eng_rules e) i of
        None \<Rightarrow> e
      | Some r \<Rightarrow>
          let r' = r\<lparr>state := \<lparr>trigger_count = trigger_count (state r) + 1, last_triggered = Some now,
                              condition_since = None\<rparr>\<rparr>
          in persist_rule env r' (e\<lparr>eng_rules := hm_insert i r' (eng_rules e)\<rparr>))"

text \<open>\<open>push_back\<close>, then \<open>pop_front\<close> while the queue is too long.\<close>

definition push_history :: "rule_execution_result \<Rightarrow> rule_execution_result list \<Rightarrow> rule_execution_result list" where
  "push_history res h = (let h' = h @ [res] in drop (length h' - MAX_HISTORY_SIZE) h')"

definition record_history ::
    "('d, 'r) engine_env \<Rightarrow> date_time \<Rightarrow> rule_execution_result \<Rightarrow> 'd rule_engine \<Rightarrow> 'd rule_engine" where
  "record_history env now res e =
     (let e1 = publish (RuleExecuted (res_rule_id res) (res_rule_name res) (success res) (duration_ms res) (timestamp now)) e;
          e2 = (case eng_rule_store e1 of
                  None \<Rightarrow> e1
                | Some db \<Rightarrow>
                    (case rs_save_history (en_store env) (en_codec env) res db of
                       Inr db' \<Rightarrow> e1\<lparr>eng_rule_store := Some db'\<rparr>
                     | Inl _ \<Rightarrow> e1))
      in e2\<lparr>history := push_history res (history e2)\<rparr>)"

definition get_rule_history :: "rule_id \<Rightarrow> 'd rule_engine \<Rightarrow> rule_execution_result list" where
  "get_rule_history i e = filter (\<lambda>r. res_rule_id r = i) (history e)"

section \<open>Actions\<close>

definition substitute_placeholders :: "string \<Rightarrow> string option \<Rightarrow> string option \<Rightarrow> string" where
  "substitute_placeholders message value_display source =
     (let r1 = (case value_display of Some v \<Rightarrow> replace_all ''{value}'' v message | None \<Rightarrow> message)
      in case source of Some s \<Rightarrow> replace_all ''{source_id}'' s r1 | None \<Rightarrow> r1)"

fun rule_value_display :: "'r text_env \<Rightarrow> rule_value \<Rightarrow> string" where
  "rule_value_display env (Number n) = fmt_f64 env n"
| "rule_value_display env (Text s) = s"

type_synonym trigger_info = "f64 option \<times> string option \<times> string option"

definition leaf_trigger :: "'r text_env \<Rightarrow> value_source \<Rightarrow> data_source_id \<Rightarrow> trigger_info" where
  "leaf_trigger env get src =
     (Option.bind (get src) as_number, map_option (rule_value_display env) (get src), Some (storage_key src))"

fun find_first :: "'r text_env \<Rightarrow> value_source \<Rightarrow> rule_condition \<Rightarrow> trigger_info"
  and find_first_in :: "'r text_env \<Rightarrow> value_source \<Rightarrow> rule_condition list \<Rightarrow> trigger_info" where
  "find_first env get (Comparison src _ _ _) = leaf_trigger env get src"
| "find_first env get (Range src _ _) = leaf_trigger env get src"
| "find_first env get (Logical _ cs) = find_first_in env get cs"
| "find_first_in env get [] = (None, None, None)"
| "find_first_in env get (c # cs) =
     (let (v, d, s) = find_first env get c
      in if v \<noteq> None \<or> d \<noteq> None \<or> s \<noteq> None then (v, d, s) else find_first_in env get cs)"

definition extract_trigger_value :: "'r text_env \<Rightarrow> value_source \<Rightarrow> rule_condition \<Rightarrow> trigger_info" where
  "extract_trigger_value env get c = find_first env get c"

fun message_severity_of :: "notify_severity \<Rightarrow> message_severity" where
  "message_severity_of NInfo = Info"
| "message_severity_of NWarning = Warning"
| "message_severity_of NCritical = Critical"
| "message_severity_of NEmergency = Critical"

definition execute_notify ::
    "('d, 'r) engine_env \<Rightarrow> action_oracle \<Rightarrow> string \<Rightarrow> notify_severity \<Rightarrow> 'd rule_engine
      \<Rightarrow> (string, string) rust_result \<times> 'd rule_engine" where
  "execute_notify env ora formatted sev e =
     (case eng_message_manager e of
        Some manager \<Rightarrow>
          let msg = message_alert (ao_fresh ora) (ao_now ora) (message_severity_of sev) ''Rule Triggered'' formatted ''rule_engine'';
              ((res, _), manager') = create_message (en_manager env) (ao_checked ora) (ao_recorded ora) (ao_pruned ora) msg manager;
              e' = e\<lparr>eng_message_manager := Some manager'\<rparr>
          in (case res of
                Inr _ \<Rightarrow> (Inr (''NOTIFY: '' @ formatted), e')
              | Inl err \<Rightarrow> (Inl (''Failed to create message: '' @ msg_error_fmt err), e'))
      | None \<Rightarrow> (Inr (''NOTIFY: '' @ formatted @ '' (logged only)''), e))"

definition params_map :: "json \<Rightarrow> params" where
  "params_map ps = unwrap_or (as_object ps) []"

definition execute_device ::
    "('d, 'r) engine_env \<Rightarrow> action_oracle \<Rightarrow> string \<Rightarrow> string \<Rightarrow> json \<Rightarrow> 'd rule_engine \<Rightarrow> (string, string) rust_result" where
  "execute_device env ora tgt command ps e =
     (case eng_device_executor e of
        Some cfg \<Rightarrow>
          (case snd (execute_command_with_retry (en_pow env)
                  \<lparr>de_device_service = Some (ao_device ora), de_retry_config = cfg\<rparr> tgt command (params_map ps)) of
             Inr _ \<Rightarrow> Inr (''EXECUTE: '' @ tgt @ ''.'' @ command)
           | Inl err \<Rightarrow> Inl (''EXECUTE failed: '' @ err))
      | None \<Rightarrow> Inr (''EXECUTE: '' @ tgt @ ''.'' @ command @ '' (logged only)''))"

definition execute_extension ::
    "action_oracle \<Rightarrow> string \<Rightarrow> string \<Rightarrow> json \<Rightarrow> 'd rule_engine \<Rightarrow> (string, string) rust_result" where
  "execute_extension ora tgt command ps e =
     (if eng_extension_executor e
      then (case extension_execute (ao_extension ora) (with_args ps (extension_command_action_new tgt command)) of
              Inr result \<Rightarrow>
                if xe_success result then Inr (''EXTENSION: '' @ xe_extension_id result @ ''.'' @ xe_command result)
                else Inl (unwrap_or (xe_error result) ''Failed'')
            | Inl err \<Rightarrow> Inl err)
      else Inr (''EXTENSION: '' @ tgt @ ''.'' @ command @ '' (logged only)''))"

fun execute_action ::
    "('d, 'r) engine_env \<Rightarrow> action_oracle \<Rightarrow> string option \<Rightarrow> string option \<Rightarrow> rule_action \<Rightarrow> 'd rule_engine
      \<Rightarrow> (string, string) rust_result \<times> 'd rule_engine" where
  "execute_action env ora tv ts (Notify message sev) e =
     execute_notify env ora (substitute_placeholders message tv ts) sev e"
| "execute_action env ora tv ts (Execute tgt TargetDevice command ps) e = (execute_device env ora tgt command ps e, e)"
| "execute_action env ora tv ts (Execute tgt TargetExtension command ps) e = (execute_extension ora tgt command ps e, e)"
| "execute_action env ora tv ts (TriggerAgent agent_id input dat) e =
     (if eng_agent_trigger e
      then (Inr (''TRIGGER_AGENT: '' @ agent_id @ '' (spawned)''),
            e\<lparr>eng_spawned := eng_spawned e @ [(agent_id, input, dat)]\<rparr>)
      else (Inl ''TRIGGER_AGENT failed: agent trigger callback not initialized'', e))"

text \<open>The loop over the actions: every action is attempted; the names of the successful ones and the
  first error are kept. \<open>n\<close> numbers the actions.\<close>

fun run_actions ::
    "('d, 'r) engine_env \<Rightarrow> (nat \<Rightarrow> action_oracle) \<Rightarrow> string option \<Rightarrow> string option \<Rightarrow> nat \<Rightarrow> rule_action list
      \<Rightarrow> string list \<Rightarrow> string option \<Rightarrow> 'd rule_engine \<Rightarrow> (string list \<times> string option) \<times> 'd rule_engine" where
  "run_actions env os tv ts n [] done err e = ((done, err), e)"
| "run_actions env os tv ts n (a # as) done err e =
     (case execute_action env (os n) tv ts a e of
        (Inr nm, e') \<Rightarrow> run_actions env os tv ts (Suc n) as (done @ [nm]) err e'
      | (Inl x, e') \<Rightarrow> run_actions env os tv ts (Suc n) as done (if err = None then Some x else err) e')"

section \<open>Evaluation on data updates\<close>

text \<open>The \<open>for_duration\<close> check: has the condition been true long enough?\<close>

definition sustained ::
    "('d, 'r) engine_env \<Rightarrow> fire_clock \<Rightarrow> rule_id \<Rightarrow> duration option \<Rightarrow> 'd rule_engine \<Rightarrow> bool \<times> 'd rule_engine" where
  "sustained env clk i dur e =
     (case dur of
        None \<Rightarrow> (True, e)
      | Some d \<Rightarrow>
          (case update_condition_since env (fc_since clk) i True e of
             (Some since_time, e') \<Rightarrow> (\<not> utc_elapsed (fc_elapsed clk) since_time < d, e')
           | (None, e') \<Rightarrow> (False, e')))"

definition elapsed_ms :: "fire_clock \<Rightarrow> u64" where
  "elapsed_ms clk = of_nat (as_millis (elapsed_since (fc_end clk) (fc_start clk)))"

text \<open>What follows a successful claim: announce, run the actions, update the rule, record history.\<close>

definition fire_rule ::
    "('d, 'r) engine_env \<Rightarrow> fire_clock \<Rightarrow> rule_id \<Rightarrow> compiled_rule \<Rightarrow> rule_condition \<Rightarrow> 'd rule_engine \<Rightarrow> 'd rule_engine" where
  "fire_rule env clk i r cond e =
     (let (tv, display, source) = extract_trigger_value (en_text env) (fc_trigger_values clk) cond;
          e1 = publish (RuleTriggered i (name r) (unwrap_or tv (f64_of_int 0)) (map action_type (actions r))
                 (timestamp (fc_triggered clk))) e;
          ((done, err), e2) = run_actions env (fc_action clk) display source 0 (actions r) [] None e1;
          e3 = update_rule_state_after_trigger env (fc_state clk) i e2
      in record_history env (fc_executed clk)
           \<lparr>res_rule_id = i, res_rule_name = name r, success = (err = None), actions_executed = done, error = err,
            duration_ms = elapsed_ms clk, triggered_at = fc_done clk\<rparr> e3)"

text \<open>The result carries, beside what the code returns, whether the rule fired.\<close>

definition evaluate_and_fire ::
    "('d, 'r) engine_env \<Rightarrow> fire_clock \<Rightarrow> rule_id \<Rightarrow> 'd rule_engine \<Rightarrow> (rule_error, bool) rust_result \<times> 'd rule_engine" where
  "evaluate_and_fire env clk i e =
     (case hm_get (eng_rules e) i of
        None \<Rightarrow> (Inl (Validation (''Rule not found: '' @ i)), e)
      | Some r \<Rightarrow>
          if \<not> enabled r then (Inr False, e)
          else if is_in_cooldown (fc_cooldown_check clk) i r e then (Inr False, e)
          else case condition r of
            None \<Rightarrow> (Inr False, e)
          | Some cond \<Rightarrow>
              let condition_met = evaluate (en_text env) (fc_values clk) cond;
                  e1 = publish (RuleEvaluated i (name r) condition_met (timestamp (fc_evaluated clk))) e
              in if \<not> condition_met then (Inr False, snd (update_condition_since env (fc_since clk) i False e1))
                 else
                   let (long_enough, e2) = sustained env clk i (for_duration r) e1
                   in if \<not> long_enough then (Inr False, e2)
                      else
                        let (claimed, e3) = try_claim_cooldown (fc_claim_check clk) (fc_claimed clk) i (cooldown r) e2
                        in if \<not> claimed then (Inr False, e3)
                           else (Inr True, fire_rule env clk i r cond e3))"

fun evaluate_all ::
    "('d, 'r) engine_env \<Rightarrow> (nat \<Rightarrow> fire_clock) \<Rightarrow> nat \<Rightarrow> rule_id list \<Rightarrow> 'd rule_engine \<Rightarrow> rule_id list \<times> 'd rule_engine" where
  "evaluate_all env clks n [] e = ([], e)"
| "evaluate_all env clks n (i # is) e =
     (let (res, e1) = evaluate_and_fire env (clks n) i e;
          (fired, e2) = evaluate_all env clks (Suc n) is e1
      in (if res = Inr True then i # fired else fired, e2))"

definition on_data_update ::
    "('d, 'r) engine_env \<Rightarrow> (nat \<Rightarrow> fire_clock) \<Rightarrow> data_source_id \<Rightarrow> rule_value \<Rightarrow> 'd rule_engine
      \<Rightarrow> rule_id list \<times> 'd rule_engine" where
  "on_data_update env clks source v e =
     (let affected = unwrap_or (hm_get (subscription_index e) (storage_key source)) []
      in if affected = [] then ([], e) else evaluate_all env clks 0 affected e)"

section \<open>Manual and scheduled execution\<close>

text \<open>The error results of \<open>execute_rule\<close>; \<open>fc_evaluated\<close> is the reading made on entry.\<close>

definition not_executed :: "fire_clock \<Rightarrow> rule_id \<Rightarrow> string \<Rightarrow> string \<Rightarrow> u64 \<Rightarrow> rule_execution_result" where
  "not_executed clk i nm err ms =
     \<lparr>res_rule_id = i, res_rule_name = nm, success = False, actions_executed = [], error = Some err,
      duration_ms = ms, triggered_at = fc_evaluated clk\<rparr>"

text \<open>Refund of the cooldown after the first of a series of executions in which every action failed.\<close>

definition settle_failures ::
    "rule_id \<Rightarrow> string list \<Rightarrow> string option \<Rightarrow> 'd rule_engine \<Rightarrow> 'd rule_engine" where
  "settle_failures i done err e =
     (if done = [] \<and> err \<noteq> None
      then
        let count = unwrap_or (hm_get (consecutive_action_failures e) i) 0;
            e1 = e\<lparr>consecutive_action_failures := hm_insert i (count + 1) (consecutive_action_failures e)\<rparr>
        in if count = 0 then e1\<lparr>cooldowns := hm_remove i (cooldowns e1)\<rparr> else e1
      else if done \<noteq> [] then e\<lparr>consecutive_action_failures := hm_remove i (consecutive_action_failures e)\<rparr>
      else e)"

definition run_claimed ::
    "('d, 'r) engine_env \<Rightarrow> fire_clock \<Rightarrow> rule_id \<Rightarrow> compiled_rule \<Rightarrow> 'd rule_engine
      \<Rightarrow> rule_execution_result \<times> 'd rule_engine" where
  "run_claimed env clk i r e =
     (let (_, display, source) = (case condition r of
            Some c \<Rightarrow> extract_trigger_value (en_text env) (fc_trigger_values clk) c
          | None \<Rightarrow> (None, None, None));
          ((done, err), e1) = run_actions env (fc_action clk) display source 0 (actions r) [] None e;
          e2 = settle_failures i done err e1;
          e3 = update_rule_state_after_trigger env (fc_state clk) i e2;
          result = \<lparr>res_rule_id = i, res_rule_name = name r, success = (err = None), actions_executed = done, error = err,
            duration_ms = elapsed_ms clk, triggered_at = fc_evaluated clk\<rparr>
      in (result, record_history env (fc_executed clk) result e3))"

text \<open>The \<open>for_duration\<close> check of \<open>execute_rule\<close>, for scheduled rules only; \<open>Some\<close> is the error text.\<close>

definition schedule_wait ::
    "('d, 'r) engine_env \<Rightarrow> fire_clock \<Rightarrow> rule_id \<Rightarrow> compiled_rule \<Rightarrow> 'd rule_engine \<Rightarrow> string option \<times> 'd rule_engine" where
  "schedule_wait env clk i r e =
     (case (for_duration r, trigger r) of
        (Some dur, Schedule _) \<Rightarrow>
          (case update_condition_since env (fc_since clk) i True e of
             (Some since_time, e') \<Rightarrow>
               let elapsed = utc_elapsed (fc_elapsed clk) since_time
               in (if elapsed < dur
                   then Some (''Condition sustained for '' @ en_fmt_duration env elapsed @ '', requires '' @ en_fmt_duration env dur)
                   else None, e')
           | (None, e') \<Rightarrow> (Some ''Condition timing started, awaiting sustained duration'', e'))
      | _ \<Rightarrow> (None, e))"

definition execute_rule ::
    "('d, 'r) engine_env \<Rightarrow> fire_clock \<Rightarrow> rule_id \<Rightarrow> 'd rule_engine \<Rightarrow> rule_execution_result \<times> 'd rule_engine" where
  "execute_rule env clk i e =
     (case hm_get (eng_rules e) i of
        None \<Rightarrow> (not_executed clk i ''Unknown'' ''Rule not found'' 0, e)
      | Some r \<Rightarrow>
          if is_in_cooldown (fc_cooldown_check clk) i r e
          then (not_executed clk i (name r) ''Rule is in cooldown'' 0, e)
          else if (case condition r of Some c \<Rightarrow> \<not> evaluate (en_text env) (fc_values clk) c | None \<Rightarrow> False)
          then (not_executed clk i (name r) ''Condition not met'' (elapsed_ms clk),
                snd (update_condition_since env (fc_since clk) i False e))
          else
            let (wait, e1) = schedule_wait env clk i r e
            in case wait of
                 Some msg \<Rightarrow> (not_executed clk i (name r) msg (elapsed_ms clk), e1)
               | None \<Rightarrow>
                   let (claimed, e2) = try_claim_cooldown (fc_claim_check clk) (fc_claimed clk) i (cooldown r) e1
                   in if \<not> claimed then (not_executed clk i (name r) ''Rule is in cooldown'' (elapsed_ms clk), e2)
                      else run_claimed env clk i r e2)"

end
