(* ===== verification/EngineInvariants.thy ===== *)
theory EngineInvariants
  imports RuleEngine
begin

text \<open>
  What the operations of the rule engine keep and change: the frame lemmas of the helpers, the
  correctness of the subscription index in every reachable state, the exact condition under which
  a rule fires, the spacing of firings by the cooldown, the bound on the history, and what the
  action loop records.
\<close>

section \<open>Frame lemmas\<close>

lemma publish_fields [simp]:
  "eng_rules (publish ev e) = eng_rules e" "subscription_index (publish ev e) = subscription_index e"
  "cooldowns (publish ev e) = cooldowns e" "history (publish ev e) = history e"
  "consecutive_action_failures (publish ev e) = consecutive_action_failures e"
  "eng_message_manager (publish ev e) = eng_message_manager e" "eng_rule_store (publish ev e) = eng_rule_store e"
  by (simp_all add: publish_def)

lemma persist_rule_fields [simp]:
  "eng_rules (persist_rule env r e) = eng_rules e" "subscription_index (persist_rule env r e) = subscription_index e"
  "cooldowns (persist_rule env r e) = cooldowns e" "history (persist_rule env r e) = history e"
  "consecutive_action_failures (persist_rule env r e) = consecutive_action_failures e"
  "eng_message_manager (persist_rule env r e) = eng_message_manager e"
  by (simp_all add: persist_rule_def split: option.splits sum.splits)

lemma record_history_fields [simp]:
  "eng_rules (record_history env t res e) = eng_rules e"
  "subscription_index (record_history env t res e) = subscription_index e"
  "cooldowns (record_history env t res e) = cooldowns e"
  "history (record_history env t res e) = push_history res (history e)"
  "consecutive_action_failures (record_history env t res e) = consecutive_action_failures e"
  by (simp_all add: record_history_def Let_def split: option.splits sum.splits)

lemma execute_notify_fields:
  "execute_notify env ora s sev e = (res, e') \<Longrightarrow>
   eng_rules e' = eng_rules e \<and> subscription_index e' = subscription_index e \<and> cooldowns e' = cooldowns e
   \<and> history e' = history e \<and> consecutive_action_failures e' = consecutive_action_failures e"
  by (auto simp: execute_notify_def Let_def split: option.splits sum.splits prod.splits)

lemma execute_action_fields:
  "execute_action env ora tv ts a e = (res, e') \<Longrightarrow>
   eng_rules e' = eng_rules e \<and> subscription_index e' = subscription_index e \<and> cooldowns e' = cooldowns e
   \<and> history e' = history e \<and> consecutive_action_failures e' = consecutive_action_failures e"
  by (induction env ora tv ts a e rule: execute_action.induct)
    (auto dest: execute_notify_fields split: if_splits)

lemma run_actions_fields:
  "run_actions env os tv ts n as done err e = (out, e') \<Longrightarrow>
   eng_rules e' = eng_rules e \<and> subscription_index e' = subscription_index e \<and> cooldowns e' = cooldowns e
   \<and> history e' = history e \<and> consecutive_action_failures e' = consecutive_action_failures e"
proof (induction as arbitrary: n "done" err e)
  case (Cons a as)
  obtain res e1 where ex: "execute_action env (os n) tv ts a e = (res, e1)" by (cases "execute_action env (os n) tv ts a e")
  with Cons.prems obtain n' d' x' where "run_actions env os tv ts n' as d' x' e1 = (out, e')"
    by (cases res) auto
  from Cons.IH [OF this] execute_action_fields [OF ex] show ?case by simp
qed simp

text \<open>A rule keeps everything but its state and switches.\<close>

definition same_config :: "compiled_rule \<Rightarrow> compiled_rule \<Rightarrow> bool" where
  "same_config r r' \<longleftrightarrow> compiled_rule.rule_id r' = compiled_rule.rule_id r \<and> trigger r' = trigger r \<and>
     condition r' = condition r \<and> actions r' = actions r \<and> cooldown r' = cooldown r \<and>
     for_duration r' = for_duration r \<and> enabled r' = enabled r \<and> name r' = name r"

lemma same_config_refl [simp]: "same_config r r"
  by (simp add: same_config_def)

lemma same_config_trans: "same_config a b \<Longrightarrow> same_config b c \<Longrightarrow> same_config a c"
  by (simp add: same_config_def)

text \<open>How a step treats the rules: rule \<open>i\<close> at most changes its state, the others not at all.\<close>

definition touches_only :: "rule_id \<Rightarrow> 'd rule_engine \<Rightarrow> 'd rule_engine \<Rightarrow> bool" where
  "touches_only i e e' \<longleftrightarrow>
     subscription_index e' = subscription_index e \<and>
     (\<forall>j. j \<noteq> i \<longrightarrow> hm_get (eng_rules e') j = hm_get (eng_rules e) j \<and> hm_get (cooldowns e') j = hm_get (cooldowns e) j) \<and>
     rel_option same_config (hm_get (eng_rules e) i) (hm_get (eng_rules e') i) \<and>
     (hm_wf (eng_rules e) \<longrightarrow> hm_wf (eng_rules e'))"

lemma rel_same_config_refl [simp]: "rel_option same_config x x"
  by (cases x) auto

lemma rel_same_config_trans:
  "rel_option same_config x y \<Longrightarrow> rel_option same_config y z \<Longrightarrow> rel_option same_config x z"
  by (cases x; cases y; cases z) (auto intro: same_config_trans)

lemma touches_only_refl [simp]: "touches_only i e e"
  by (simp add: touches_only_def)

lemma touches_only_trans: "touches_only i e1 e2 \<Longrightarrow> touches_only i e2 e3 \<Longrightarrow> touches_only i e1 e3"
  by (auto simp: touches_only_def intro: rel_same_config_trans)

lemma touches_only_same:
  "eng_rules e' = eng_rules e \<Longrightarrow> subscription_index e' = subscription_index e \<Longrightarrow> cooldowns e' = cooldowns e \<Longrightarrow> touches_only i e e'"
  by (simp add: touches_only_def)

lemma update_condition_since_touches: "touches_only i e (snd (update_condition_since env t i b e))"
  by (auto simp: update_condition_since_def touches_only_def same_config_def Let_def split: option.splits)

lemma update_condition_since_fields [simp]:
  "cooldowns (snd (update_condition_since env t i b e)) = cooldowns e"
  "history (snd (update_condition_since env t i b e)) = history e"
  by (auto simp: update_condition_since_def Let_def split: option.splits)

lemma update_rule_state_touches: "touches_only i e (update_rule_state_after_trigger env t i e)"
  by (auto simp: update_rule_state_after_trigger_def touches_only_def same_config_def Let_def split: option.splits)

lemma update_rule_state_fields [simp]:
  "cooldowns (update_rule_state_after_trigger env t i e) = cooldowns e"
  "history (update_rule_state_after_trigger env t i e) = history e"
  "subscription_index (update_rule_state_after_trigger env t i e) = subscription_index e"
  by (auto simp: update_rule_state_after_trigger_def Let_def split: option.splits)

lemma sustained_snd:
  "snd (sustained env clk i d e) = (case d of None \<Rightarrow> e | Some _ \<Rightarrow> snd (update_condition_since env (fc_since clk) i True e))"
  by (auto simp: sustained_def split: option.splits prod.splits)

lemma sustained_fields [simp]:
  "cooldowns (snd (sustained env clk i d e)) = cooldowns e" "history (snd (sustained env clk i d e)) = history e"
  by (auto simp: sustained_snd split: option.splits)

lemma sustained_touches: "touches_only i e (snd (sustained env clk i d e))"
  by (auto simp: sustained_snd update_condition_since_touches split: option.splits)

lemma try_claim_fields:
  assumes "try_claim_cooldown t t' i cd e = (b, e')"
  shows "eng_rules e' = eng_rules e" "subscription_index e' = subscription_index e" "history e' = history e"
    and "hm_get (cooldowns e') = (if b then (hm_get (cooldowns e))(i \<mapsto> t') else hm_get (cooldowns e))"
  using assms by (auto simp: try_claim_cooldown_def split: option.splits if_splits)

lemma try_claim_touches: "touches_only i e (snd (try_claim_cooldown t t' i cd e))"
  by (auto simp: try_claim_cooldown_def touches_only_def split: option.splits)

lemma fire_rule_touches: "touches_only i e (fire_rule env clk i r cond e)"
proof -
  obtain tv d s where x: "extract_trigger_value (en_text env) (fc_trigger_values clk) cond = (tv, d, s)"
    by (cases "extract_trigger_value (en_text env) (fc_trigger_values clk) cond")
  let ?e1 = "publish (RuleTriggered i (name r) (unwrap_or tv (f64_of_int 0)) (map action_type (actions r)) (timestamp (fc_triggered clk))) e"
  obtain dn er e2 where ra: "run_actions env (fc_action clk) d s 0 (actions r) [] None ?e1 = ((dn, er), e2)"
    by (metis surj_pair)
  have "touches_only i e e2" using run_actions_fields [OF ra] by (intro touches_only_same) simp_all
  moreover have "touches_only i e2 (update_rule_state_after_trigger env (fc_state clk) i e2)" by (rule update_rule_state_touches)
  ultimately show ?thesis
    by (rule touches_only_trans [THEN touches_only_trans])
      (simp add: fire_rule_def x ra Let_def touches_only_same)
qed

lemma fire_rule_cooldowns [simp]: "cooldowns (fire_rule env clk i r cond e) = cooldowns e"
proof -
  obtain tv d s where x: "extract_trigger_value (en_text env) (fc_trigger_values clk) cond = (tv, d, s)"
    by (cases "extract_trigger_value (en_text env) (fc_trigger_values clk) cond")
  show ?thesis
    by (auto simp: fire_rule_def x Let_def dest: run_actions_fields split: prod.splits)
qed

text \<open>The four ways an evaluation can end.\<close>

lemma evaluate_and_fire_cases:
  assumes "evaluate_and_fire env clk i e = (res, e')"
  obtains (skipped) "res \<noteq> Inr True" "e' = e"
  | (not_met) r c ev where "res = Inr False" "hm_get (eng_rules e) i = Some r" "enabled r" "condition r = Some c"
      "\<not> evaluate (en_text env) (fc_values clk) c"
      "e' = snd (update_condition_since env (fc_since clk) i False (publish ev e))"
  | (waiting) r c ev where "res = Inr False" "hm_get (eng_rules e) i = Some r" "enabled r" "condition r = Some c"
      "evaluate (en_text env) (fc_values clk) c" "e' = snd (sustained env clk i (for_duration r) (publish ev e))"
  | (fired) r c ev e2 e3 where "res = Inr True" "hm_get (eng_rules e) i = Some r" "enabled r" "condition r = Some c"
      "\<not> is_in_cooldown (fc_cooldown_check clk) i r e" "evaluate (en_text env) (fc_values clk) c"
      "sustained env clk i (for_duration r) (publish ev e) = (True, e2)"
      "try_claim_cooldown (fc_claim_check clk) (fc_claimed clk) i (cooldown r) e2 = (True, e3)"
      "e' = fire_rule env clk i r c e3"
proof (cases "hm_get (eng_rules e) i")
  case None
  with assms show thesis by (intro skipped) (auto simp: evaluate_and_fire_def)
next
  case (Some r)
  show thesis
  proof (cases "\<not> enabled r \<or> is_in_cooldown (fc_cooldown_check clk) i r e \<or> condition r = None")
    case True
    with assms Some show thesis by (intro skipped) (auto simp: evaluate_and_fire_def split: if_splits option.splits)
  next
    case False
    then obtain c where act: "enabled r" "\<not> is_in_cooldown (fc_cooldown_check clk) i r e" "condition r = Some c" by auto
    define met where "met = evaluate (en_text env) (fc_values clk) c"
    define ev where "ev = RuleEvaluated i (name r) met (timestamp (fc_evaluated clk))"
    show thesis
    proof (cases met)
      case False
      with assms Some act not_met [of r c ev] show thesis
        by (simp add: evaluate_and_fire_def Let_def met_def [symmetric] ev_def)
    next
      case True
      obtain long e2 where su: "sustained env clk i (for_duration r) (publish ev e) = (long, e2)"
        by (cases "sustained env clk i (for_duration r) (publish ev e)")
      obtain cl e3 where tc: "try_claim_cooldown (fc_claim_check clk) (fc_claimed clk) i (cooldown r) e2 = (cl, e3)"
        by (cases "try_claim_cooldown (fc_claim_check clk) (fc_claimed clk) i (cooldown r) e2")
      have same: "\<not> cl \<Longrightarrow> e3 = e2" using tc by (auto simp: try_claim_cooldown_def split: option.splits if_splits)
      have out: "(res, e') = (if \<not> long then (Inr False, e2) else if \<not> cl then (Inr False, e3)
          else (Inr True, fire_rule env clk i r c e3))"
        using assms Some act True su tc
        by (auto simp: evaluate_and_fire_def Let_def met_def [symmetric] ev_def split: if_splits)
      show thesis
      proof (cases "long \<and> cl")
        case True
        with out su tc Some act \<open>met\<close> fired [of r c ev e2 e3] show thesis by (simp add: met_def)
      next
        case False
        with out same su Some act \<open>met\<close> waiting [of r c ev] show thesis by (auto simp: met_def split: if_splits)
      qed
    qed
  qed
qed

lemma publish_touches: "touches_only i e (publish ev e)"
  by (rule touches_only_same) simp_all

lemma evaluate_and_fire_touches: "touches_only i e (snd (evaluate_and_fire env clk i e))"
proof -
  obtain res e' where ev: "evaluate_and_fire env clk i e = (res, e')" by (cases "evaluate_and_fire env clk i e")
  from ev show ?thesis
  proof (cases rule: evaluate_and_fire_cases)
    case skipped
    with ev show ?thesis by simp
  next
    case (not_met r c pv)
    with ev show ?thesis using touches_only_trans [OF publish_touches update_condition_since_touches] by simp
  next
    case (waiting r c pv)
    with ev show ?thesis using touches_only_trans [OF publish_touches sustained_touches] by simp
  next
    case (fired r c pv e2 e3)
    have "touches_only i e e2"
      using touches_only_trans [OF publish_touches sustained_touches] fired(7) by (metis snd_conv)
    moreover have "touches_only i e2 e3" using try_claim_touches fired(8) by (metis snd_conv)
    ultimately have "touches_only i e e3" by (rule touches_only_trans)
    with fired ev show ?thesis using touches_only_trans fire_rule_touches by fastforce
  qed
qed

lemma evaluate_all_frame:
  "i \<notin> set is \<Longrightarrow> evaluate_all env clks n is e = (fired, e') \<Longrightarrow>
   hm_get (eng_rules e') i = hm_get (eng_rules e) i \<and> hm_get (cooldowns e') i = hm_get (cooldowns e) i"
proof (induction "is" arbitrary: n e fired e')
  case (Cons j js)
  obtain res e1 where ev: "evaluate_and_fire env (clks n) j e = (res, e1)" by (cases "evaluate_and_fire env (clks n) j e")
  obtain f2 e2 where rest: "evaluate_all env clks (Suc n) js e1 = (f2, e2)" by (cases "evaluate_all env clks (Suc n) js e1")
  have e': "e' = e2" using Cons.prems ev rest by simp
  have "touches_only j e e1" using evaluate_and_fire_touches [of j e env "clks n"] ev by simp
  with Cons.IH [OF _ rest] Cons.prems e' show ?case by (auto simp: touches_only_def)
qed simp

lemma settle_failures_touches: "touches_only i e (settle_failures i d x e)"
  by (auto simp: settle_failures_def touches_only_def Let_def)

lemma run_claimed_touches: "touches_only i e (snd (run_claimed env clk i r e))"
proof -
  obtain tv d s where x: "(case condition r of
            Some c \<Rightarrow> extract_trigger_value (en_text env) (fc_trigger_values clk) c
          | None \<Rightarrow> (None, None, None)) = (tv, d, s)" by (metis surj_pair)
  obtain dn er e1 where ra: "run_actions env (fc_action clk) d s 0 (actions r) [] None e = ((dn, er), e1)"
    by (metis surj_pair)
  have "touches_only i e e1" using run_actions_fields [OF ra] by (intro touches_only_same) simp_all
  then have "touches_only i e (settle_failures i dn er e1)" using settle_failures_touches by (rule touches_only_trans)
  then have "touches_only i e (update_rule_state_after_trigger env (fc_state clk) i (settle_failures i dn er e1))"
    using update_rule_state_touches by (rule touches_only_trans)
  then show ?thesis
    by (rule touches_only_trans) (simp add: run_claimed_def x ra Let_def touches_only_same)
qed

lemma schedule_wait_touches: "touches_only i e (snd (schedule_wait env clk i r e))"
proof -
  have "touches_only i e (snd (update_condition_since env (fc_since clk) i True e))" by (rule update_condition_since_touches)
  then show ?thesis
    by (cases "update_condition_since env (fc_since clk) i True e")
      (auto simp: schedule_wait_def Let_def split: option.splits rule_trigger.splits)
qed

lemma execute_rule_touches: "touches_only i e (snd (execute_rule env clk i e))"
proof (cases "hm_get (eng_rules e) i")
  case (Some r)
  obtain w e1 where sw: "schedule_wait env clk i r e = (w, e1)" by (cases "schedule_wait env clk i r e")
  obtain cl e2 where tc: "try_claim_cooldown (fc_claim_check clk) (fc_claimed clk) i (cooldown r) e1 = (cl, e2)"
    by (cases "try_claim_cooldown (fc_claim_check clk) (fc_claimed clk) i (cooldown r) e1")
  have 1: "touches_only i e e1" using schedule_wait_touches [of i e env clk r] sw by simp
  have 2: "touches_only i e e2" using 1 try_claim_touches tc touches_only_trans by (metis snd_conv)
  have 3: "touches_only i e (snd (run_claimed env clk i r e2))" using 2 run_claimed_touches by (rule touches_only_trans)
  show ?thesis
    using Some sw tc 1 2 3 update_condition_since_touches [of i e env "fc_since clk" False]
    by (auto simp: execute_rule_def Let_def split: option.splits)
qed (simp add: execute_rule_def)

section \<open>The subscription index\<close>

definition subscribes :: "compiled_rule \<Rightarrow> string \<Rightarrow> bool" where
  "subscribes r key \<longleftrightarrow> (case trigger r of DataChange ss \<Rightarrow> key \<in> storage_key ` set ss | _ \<Rightarrow> False)"

definition indexed :: "(string, rule_id list) hash_map \<Rightarrow> string \<Rightarrow> rule_id set" where
  "indexed idx key = set (unwrap_or (hm_get idx key) [])"

definition rules_wf :: "'d rule_engine \<Rightarrow> bool" where
  "rules_wf e \<longleftrightarrow> hm_wf (eng_rules e) \<and> (\<forall>i r. hm_get (eng_rules e) i = Some r \<longrightarrow> compiled_rule.rule_id r = i)"

definition index_ok :: "'d rule_engine \<Rightarrow> bool" where
  "index_ok e \<longleftrightarrow> (\<forall>key. indexed (subscription_index e) key = {i. \<exists>r. hm_get (eng_rules e) i = Some r \<and> subscribes r key})"

lemma indexed_push: "indexed (index_push i key idx) k = (if k = key then insert i (indexed idx k) else indexed idx k)"
  by (auto simp: indexed_def index_push_def)

lemma indexed_pushes:
  "indexed (fold (\<lambda>s. index_push i (storage_key s)) ss idx) k =
     indexed idx k \<union> (if k \<in> storage_key ` set ss then {i} else {})"
  by (induction ss arbitrary: idx) (auto simp: indexed_push)

lemma indexed_rule:
  "indexed (index_rule r idx) k = indexed idx k \<union> (if subscribes r k then {compiled_rule.rule_id r} else {})"
  by (simp add: index_rule_def subscribes_def indexed_pushes split: rule_trigger.splits)

lemma indexed_rules:
  "indexed (fold index_rule rs idx) k = indexed idx k \<union> compiled_rule.rule_id ` {r \<in> set rs. subscribes r k}"
  by (induction rs arbitrary: idx) (auto simp: indexed_rule)

lemma rebuild_index_ok:
  assumes "rules_wf e"
  shows "index_ok (rebuild_all_subscriptions e)"
proof -
  have "compiled_rule.rule_id ` {r \<in> set (map snd (eng_rules e)). subscribes r key} =
      {i. \<exists>r. hm_get (eng_rules e) i = Some r \<and> subscribes r key}" for key
  proof (intro set_eqI iffI)
    fix i assume "i \<in> compiled_rule.rule_id ` {r \<in> set (map snd (eng_rules e)). subscribes r key}"
    then obtain j r where "(j, r) \<in> set (eng_rules e)" "subscribes r key" "i = compiled_rule.rule_id r" by auto
    moreover from this(1) assms have "hm_get (eng_rules e) j = Some r" by (simp add: rules_wf_def)
    ultimately show "i \<in> {i. \<exists>r. hm_get (eng_rules e) i = Some r \<and> subscribes r key}"
      using assms by (auto simp: rules_wf_def)
  next
    fix i assume "i \<in> {i. \<exists>r. hm_get (eng_rules e) i = Some r \<and> subscribes r key}"
    then obtain r where r: "hm_get (eng_rules e) i = Some r" "subscribes r key" by auto
    then have "compiled_rule.rule_id r = i" "(i, r) \<in> set (eng_rules e)"
      using assms by (auto simp: rules_wf_def dest: map_of_SomeD)
    with r(2) show "i \<in> compiled_rule.rule_id ` {r \<in> set (map snd (eng_rules e)). subscribes r key}"
      by (force simp: image_iff)
  qed
  then show ?thesis
    by (simp add: index_ok_def rebuild_all_subscriptions_def indexed_rules indexed_def [of "[]"])
qed

section \<open>Reachable states\<close>

datatype engine_op =
    EAdd compiled_rule
  | ERemove rule_id
  | EUpdate compiled_rule
  | ESetEnabled date_time rule_id bool
  | EData "nat \<Rightarrow> fire_clock" data_source_id rule_value
  | EExecute fire_clock rule_id

fun engine_step :: "('d, 'r) engine_env \<Rightarrow> engine_op \<Rightarrow> 'd rule_engine \<Rightarrow> 'd rule_engine" where
  "engine_step env (EAdd r) e = snd (add_rule r e)"
| "engine_step env (ERemove i) e = snd (remove_rule i e)"
| "engine_step env (EUpdate r) e = snd (update_rule r e)"
| "engine_step env (ESetEnabled t i b) e = snd (set_enabled t i b e)"
| "engine_step env (EData clks src v) e = snd (on_data_update env clks src v e)"
| "engine_step env (EExecute clk i) e = snd (execute_rule env clk i e)"

inductive engine_reachable :: "('d, 'r) engine_env \<Rightarrow> 'd rule_engine \<Rightarrow> bool" for env where
  start: "eng_rules e = [] \<Longrightarrow> subscription_index e = [] \<Longrightarrow> history e = [] \<Longrightarrow> engine_reachable env e"
| step: "engine_reachable env e \<Longrightarrow> engine_reachable env (engine_step env op e)"

definition engine_inv :: "'d rule_engine \<Rightarrow> bool" where
  "engine_inv e \<longleftrightarrow> rules_wf e \<and> index_ok e"

lemma rules_wf_insert: "rules_wf e \<Longrightarrow> rules_wf (e\<lparr>eng_rules := hm_insert (compiled_rule.rule_id r) r (eng_rules e)\<rparr>)"
  by (auto simp: rules_wf_def)

lemma rules_wf_rebuild [simp]: "rules_wf (rebuild_all_subscriptions e) = rules_wf e"
  by (simp add: rules_wf_def rebuild_all_subscriptions_def)

lemma engine_inv_put:
  "engine_inv e \<Longrightarrow> engine_inv (rebuild_all_subscriptions (e\<lparr>eng_rules := hm_insert (compiled_rule.rule_id r) r (eng_rules e)\<rparr>))"
  by (simp add: engine_inv_def rules_wf_insert rebuild_index_ok)

lemma engine_inv_touch:
  assumes "engine_inv e" "touches_only i e e'"
  shows "engine_inv e'"
proof -
  have conf: "rel_option same_config (hm_get (eng_rules e) j) (hm_get (eng_rules e') j)" for j
    using assms(2) by (cases "j = i") (auto simp: touches_only_def)
  have sub: "(\<exists>r. hm_get (eng_rules e') j = Some r \<and> subscribes r key) \<longleftrightarrow>
      (\<exists>r. hm_get (eng_rules e) j = Some r \<and> subscribes r key)" for j key
    using conf [of j] by (cases rule: option.rel_cases) (auto simp: same_config_def subscribes_def)
  have "compiled_rule.rule_id r = j" if "hm_get (eng_rules e') j = Some r" for j r
    using conf [of j] that assms(1)
    by (cases rule: option.rel_cases) (auto simp: same_config_def engine_inv_def rules_wf_def)
  moreover have "hm_wf (eng_rules e')" using assms by (auto simp: touches_only_def engine_inv_def rules_wf_def)
  ultimately have "rules_wf e'" by (simp add: rules_wf_def)
  moreover have "index_ok e'"
    using assms by (simp add: index_ok_def engine_inv_def touches_only_def sub)
  ultimately show ?thesis by (simp add: engine_inv_def)
qed

lemma engine_inv_evaluate_all: "engine_inv e \<Longrightarrow> engine_inv (snd (evaluate_all env clks n is e))"
proof (induction "is" arbitrary: n e)
  case (Cons i "is")
  obtain res e1 where ev: "evaluate_and_fire env (clks n) i e = (res, e1)" by (cases "evaluate_and_fire env (clks n) i e")
  with evaluate_and_fire_touches [of i e env "clks n"] Cons.prems have "engine_inv e1" by (auto intro: engine_inv_touch)
  from Cons.IH [OF this, of "Suc n"] ev show ?case by (auto split: prod.splits)
qed simp

lemma engine_inv_remove: "engine_inv e \<Longrightarrow> engine_inv (snd (remove_rule i e))"
proof -
  assume inv: "engine_inv e"
  show ?thesis
  proof (cases "hm_contains (eng_rules e) i")
    case True
    have "rules_wf (e\<lparr>eng_rules := hm_remove i (eng_rules e)\<rparr>)" using inv by (auto simp: engine_inv_def rules_wf_def)
    then have "engine_inv (rebuild_all_subscriptions (e\<lparr>eng_rules := hm_remove i (eng_rules e)\<rparr>))"
      by (simp add: engine_inv_def rebuild_index_ok)
    with True show ?thesis
      by (simp add: remove_rule_def Let_def engine_inv_def rules_wf_def index_ok_def rebuild_all_subscriptions_def)
  next
    case False
    then have "hm_remove i (eng_rules e) = eng_rules e" by (simp add: delete_idem)
    with False inv show ?thesis by (simp add: remove_rule_def Let_def)
  qed
qed

lemma engine_inv_step: "engine_inv e \<Longrightarrow> engine_inv (engine_step env op e)"
proof (cases op)
  case (EAdd r)
  then show "engine_inv e \<Longrightarrow> ?thesis" by (simp add: add_rule_def engine_inv_put)
next
  case (EUpdate r)
  then show "engine_inv e \<Longrightarrow> ?thesis" by (simp add: update_rule_def engine_inv_put)
next
  case (ERemove i)
  then show "engine_inv e \<Longrightarrow> ?thesis" by (simp add: engine_inv_remove)
next
  case (ESetEnabled t i b)
  then show "engine_inv e \<Longrightarrow> ?thesis"
    by (auto simp: set_enabled_def engine_inv_def rules_wf_def index_ok_def subscribes_def
        simp del: map_of_eq_Some_iff split: option.splits)
next
  case (EData clks src v)
  then show "engine_inv e \<Longrightarrow> ?thesis" by (simp add: on_data_update_def Let_def engine_inv_evaluate_all)
next
  case (EExecute clk i)
  then show "engine_inv e \<Longrightarrow> ?thesis" using execute_rule_touches engine_inv_touch by fastforce
qed

lemma engine_reachable_inv: "engine_reachable env e \<Longrightarrow> engine_inv e"
proof (induction rule: engine_reachable.induct)
  case (start e)
  then show ?case by (simp add: engine_inv_def rules_wf_def index_ok_def indexed_def)
qed (rule engine_inv_step)

lemma subscribes_iff: "subscribes r key \<longleftrightarrow> (\<exists>ss. trigger r = DataChange ss \<and> (\<exists>s \<in> set ss. storage_key s = key))"
  by (cases "trigger r") (auto simp: subscribes_def)

lemma affected_iff:
  assumes "engine_reachable env e"
  shows "i \<in> set (unwrap_or (hm_get (subscription_index e) key) []) \<longleftrightarrow>
    (\<exists>r. get_rule i e = Some r \<and> subscribes r key)"
  using engine_reachable_inv [OF assms] unfolding engine_inv_def index_ok_def indexed_def get_rule_def by simp

section \<open>When a rule fires\<close>

text \<open>The specification: the rule exists and is enabled, its condition holds on the values read, it
  has held long enough, and the cooldown is over at both checks.\<close>

definition held_long_enough :: "fire_clock \<Rightarrow> compiled_rule \<Rightarrow> bool" where
  "held_long_enough clk r =
     (case for_duration r of
        None \<Rightarrow> True
      | Some d \<Rightarrow> d \<le> utc_elapsed (fc_elapsed clk) (unwrap_or (condition_since (state r)) (fc_since clk)))"

definition should_fire :: "('d, 'r) engine_env \<Rightarrow> fire_clock \<Rightarrow> rule_id \<Rightarrow> 'd rule_engine \<Rightarrow> bool" where
  "should_fire env clk i e =
     (case get_rule i e of
        None \<Rightarrow> False
      | Some r \<Rightarrow>
          enabled r
          \<and> (case condition r of None \<Rightarrow> False | Some c \<Rightarrow> evaluate (en_text env) (fc_values clk) c)
          \<and> held_long_enough clk r
          \<and> (case hm_get (cooldowns e) i of
               None \<Rightarrow> True
             | Some p \<Rightarrow> cooldown r \<le> elapsed_since (fc_cooldown_check clk) p
                         \<and> cooldown r \<le> elapsed_since (fc_claim_check clk) p))"

lemma sustained_fst:
  assumes "hm_get (eng_rules e) i = Some r"
  shows "fst (sustained env clk i (for_duration r) e) = held_long_enough clk r"
  using assms
  by (auto simp: sustained_def held_long_enough_def update_condition_since_def Let_def split: option.splits)

lemma try_claim_fst:
  "fst (try_claim_cooldown t t' i cd e) =
     (case hm_get (cooldowns e) i of None \<Rightarrow> True | Some p \<Rightarrow> cd \<le> elapsed_since t p)"
  by (auto simp: try_claim_cooldown_def split: option.splits)

lemma is_in_cooldown_iff:
  "is_in_cooldown t i r e = (case hm_get (cooldowns e) i of None \<Rightarrow> False | Some p \<Rightarrow> \<not> cooldown r \<le> elapsed_since t p)"
  by (auto simp: is_in_cooldown_def split: option.splits)

lemma fires_iff_should_fire: "fst (evaluate_and_fire env clk i e) = Inr True \<longleftrightarrow> should_fire env clk i e"
proof (cases "get_rule i e")
  case None
  then show ?thesis by (simp add: should_fire_def evaluate_and_fire_def get_rule_def)
next
  case (Some r)
  then have r: "hm_get (eng_rules e) i = Some r" by (simp add: get_rule_def)
  show ?thesis
  proof (cases "condition r")
    case None
    with r Some show ?thesis by (simp add: should_fire_def evaluate_and_fire_def)
  next
    case (Some c)
    define ev where "ev = RuleEvaluated i (name r) (evaluate (en_text env) (fc_values clk) c) (timestamp (fc_evaluated clk))"
    obtain long e2 where su: "sustained env clk i (for_duration r) (publish ev e) = (long, e2)"
      by (cases "sustained env clk i (for_duration r) (publish ev e)")
    have long: "long = held_long_enough clk r"
      using sustained_fst [of "publish ev e" i r env clk] r su by simp
    have cd: "cooldowns e2 = cooldowns e"
      using sustained_fields(1) [of env clk i "for_duration r" "publish ev e"] su by simp
    have claim: "fst (try_claim_cooldown (fc_claim_check clk) (fc_claimed clk) i (cooldown r) e2) =
        (case hm_get (cooldowns e) i of None \<Rightarrow> True | Some p \<Rightarrow> cooldown r \<le> elapsed_since (fc_claim_check clk) p)"
      by (simp add: try_claim_fst cd)
    show ?thesis
      using r Some su long claim \<open>get_rule i e = Some r\<close>
      by (auto simp: should_fire_def evaluate_and_fire_def Let_def ev_def is_in_cooldown_iff
          split: prod.splits option.splits if_splits)
  qed
qed

section \<open>Cooldown\<close>

text \<open>The claims alone, as the atomic steps that concurrent evaluations of rules interleave: an event
  is a rule with the cooldown it is claimed with.\<close>

definition claim_attempt ::
    "(rule_id \<Rightarrow> duration) \<Rightarrow> rule_id \<Rightarrow> int \<Rightarrow> int \<Rightarrow> int \<Rightarrow> 'd rule_engine \<Rightarrow> bool \<times> 'd rule_engine" where
  "claim_attempt cd i t t' t'' e = try_claim_cooldown (nat t) (nat t') i (cd i) e"

text \<open>A whole evaluation, with the two readings of the claim made explicit.\<close>

definition fire_attempt ::
    "('d, 'r) engine_env \<Rightarrow> rule_id \<times> fire_clock \<Rightarrow> int \<Rightarrow> int \<Rightarrow> int \<Rightarrow> 'd rule_engine \<Rightarrow> bool \<times> 'd rule_engine" where
  "fire_attempt env ev t t' t'' e =
     (let (res, e') = evaluate_and_fire env ((snd ev)\<lparr>fc_claim_check := nat t, fc_claimed := nat t'\<rparr>) (fst ev) e
      in (res = Inr True, e'))"

definition last_claim :: "'d rule_engine \<Rightarrow> rule_id \<Rightarrow> int option" where
  "last_claim e i = map_option int (hm_get (cooldowns e) i)"

lemma elapsed_window: "w \<le> elapsed_since (nat t) p \<Longrightarrow> int w \<le> t - int p \<or> int w \<le> 0"
  by (auto simp: elapsed_since_def)

definition cooldowns_are :: "(rule_id \<Rightarrow> duration) \<Rightarrow> 'd rule_engine \<Rightarrow> bool" where
  "cooldowns_are cd e \<longleftrightarrow> (\<forall>i r. get_rule i e = Some r \<longrightarrow> cooldown r = cd i)"

lemma try_claim_True:
  assumes "try_claim_cooldown t t' i cd e = (True, e')"
  shows "hm_get (cooldowns e) i = Some p \<Longrightarrow> cd \<le> elapsed_since t p"
  using try_claim_fst [of t t' i cd e] assms by simp

interpretation claims: time_gate "\<lambda>i. i" last_claim "claim_attempt cd" "\<lambda>i. int (cd i)" "\<lambda>_. True" 0 for cd
proof unfold_locales
  fix s s' :: "'a rule_engine" and i j :: rule_id and t t' t'' u :: int
  assume t: "0 \<le> t"
  show "int (cd i) \<le> t - u \<or> int (cd i) \<le> 0"
    if "claim_attempt cd i t t' t'' s = (True, s')" "last_claim s i = Some u"
    using that by (auto simp: claim_attempt_def last_claim_def dest!: try_claim_True elapsed_window)
  show "last_claim s' i = Some t' \<or> int (cd i) \<le> t'' - t'"
    if "claim_attempt cd i t t' t'' s = (True, s')" "t \<le> t'" "t' \<le> t''"
    using that t by (simp add: claim_attempt_def last_claim_def try_claim_fields(4))
  show "last_claim s' j = Some u \<or> int (cd j) \<le> t'' - u"
    if "claim_attempt cd i t t' t'' s = (True, s')" "t \<le> t'" "t' \<le> t''" "j \<noteq> i" "last_claim s j = Some u"
    using that by (simp add: claim_attempt_def last_claim_def try_claim_fields(4))
next
  fix s s' :: "'a rule_engine" and i :: rule_id and t t' t'' :: int
  show "last_claim s' = last_claim s" if "claim_attempt cd i t t' t'' s = (False, s')"
    using that by (simp add: claim_attempt_def last_claim_def fun_eq_iff try_claim_fields(4))
qed simp

lemma fire_attempt_outcome:
  assumes "fire_attempt env ev t t' t'' e = (b, e')"
  shows "touches_only (fst ev) e e'"
    and "b \<Longrightarrow> \<exists>r. get_rule (fst ev) e = Some r \<and>
        (\<forall>p. hm_get (cooldowns e) (fst ev) = Some p \<longrightarrow> cooldown r \<le> elapsed_since (nat t) p)"
    and "hm_get (cooldowns e') = (if b then (hm_get (cooldowns e))(fst ev \<mapsto> nat t') else hm_get (cooldowns e))"
proof -
  define clk where "clk = (snd ev)\<lparr>fc_claim_check := nat t, fc_claimed := nat t'\<rparr>"
  obtain res where out: "evaluate_and_fire env clk (fst ev) e = (res, e')" and b: "b = (res = Inr True)"
    using assms by (auto simp: fire_attempt_def clk_def split: prod.splits)
  show "touches_only (fst ev) e e'" using evaluate_and_fire_touches [of "fst ev" e env clk] out by simp
  from out show "hm_get (cooldowns e') = (if b then (hm_get (cooldowns e))(fst ev \<mapsto> nat t') else hm_get (cooldowns e))"
  proof (cases rule: evaluate_and_fire_cases)
    case (fired r c pv e2 e3)
    have "cooldowns e2 = cooldowns e"
      using sustained_fields(1) [of env clk "fst ev" "for_duration r" "publish pv e"] fired(7) by simp
    with fired b try_claim_fields(4) [OF fired(8)] show ?thesis by (simp add: clk_def fun_eq_iff)
  qed (simp_all add: b)
  show "\<exists>r. get_rule (fst ev) e = Some r \<and>
      (\<forall>p. hm_get (cooldowns e) (fst ev) = Some p \<longrightarrow> cooldown r \<le> elapsed_since (nat t) p)" if b
    using fires_iff_should_fire [of env clk "fst ev" e] out b that
    by (auto simp: should_fire_def clk_def split: option.splits)
qed

lemma cooldowns_are_touch:
  assumes "cooldowns_are cd e" "touches_only i e e'"
  shows "cooldowns_are cd e'"
proof -
  have "rel_option same_config (hm_get (eng_rules e) j) (hm_get (eng_rules e') j)" for j
    using assms(2) by (cases "j = i") (auto simp: touches_only_def)
  then show ?thesis
    using assms(1) unfolding cooldowns_are_def get_rule_def
    by (metis (no_types, lifting) option.rel_cases option.inject option.simps(3) same_config_def)
qed

interpretation fires: time_gate fst last_claim "fire_attempt env" "\<lambda>i. int (cd i)" "cooldowns_are cd" 0 for env cd
proof unfold_locales
  fix s s' :: "'a rule_engine" and ev :: "rule_id \<times> fire_clock" and j :: rule_id and t t' t'' u :: int
  assume ok: "cooldowns_are cd s"
  show "cooldowns_are cd s'" if "fire_attempt env ev t t' t'' s = (b, s')" for b
    using cooldowns_are_touch [OF ok fire_attempt_outcome(1) [OF that]] .
  show "last_claim s' = last_claim s" if "fire_attempt env ev t t' t'' s = (False, s')"
    using fire_attempt_outcome(3) [OF that] by (simp add: last_claim_def fun_eq_iff)
  assume t: "0 \<le> t"
  show "int (cd (fst ev)) \<le> t - u \<or> int (cd (fst ev)) \<le> 0"
    if "fire_attempt env ev t t' t'' s = (True, s')" "last_claim s (fst ev) = Some u"
  proof -
    from that(2) obtain p where p: "hm_get (cooldowns s) (fst ev) = Some p" "u = int p" by (auto simp: last_claim_def)
    with fire_attempt_outcome(2) [OF that(1)] ok have "cd (fst ev) \<le> elapsed_since (nat t) p"
      by (auto simp: cooldowns_are_def)
    then show ?thesis using p(2) elapsed_window by simp
  qed
  show "last_claim s' (fst ev) = Some t' \<or> int (cd (fst ev)) \<le> t'' - t'"
    if "fire_attempt env ev t t' t'' s = (True, s')" "t \<le> t'" "t' \<le> t''"
    using that t fire_attempt_outcome(3) [OF that(1)] by (simp add: last_claim_def)
  show "last_claim s' j = Some u \<or> int (cd j) \<le> t'' - u"
    if "fire_attempt env ev t t' t'' s = (True, s')" "t \<le> t'" "t' \<le> t''" "j \<noteq> fst ev" "last_claim s j = Some u"
    using that fire_attempt_outcome(3) [OF that(1)] by (simp add: last_claim_def)
qed

section \<open>History\<close>

lemma push_history_props:
  "push_history res h \<noteq> []" "last (push_history res h) = res" "length (push_history res h) \<le> MAX_HISTORY_SIZE"
  "suffix (butlast (push_history res h)) h"
  by (auto simp: push_history_def Let_def MAX_HISTORY_SIZE_def butlast_append suffix_drop)

lemma fire_rule_history: "\<exists>res. res_rule_id res = i \<and> history (fire_rule env clk i r c e) = push_history res (history e)"
proof -
  obtain tv d s where x: "extract_trigger_value (en_text env) (fc_trigger_values clk) c = (tv, d, s)"
    by (cases "extract_trigger_value (en_text env) (fc_trigger_values clk) c")
  let ?e1 = "publish (RuleTriggered i (name r) (unwrap_or tv (f64_of_int 0)) (map action_type (actions r)) (timestamp (fc_triggered clk))) e"
  obtain dn er e2 where ra: "run_actions env (fc_action clk) d s 0 (actions r) [] None ?e1 = ((dn, er), e2)"
    by (metis surj_pair)
  then have "history e2 = history e" using run_actions_fields [OF ra] by simp
  then show ?thesis
    by (intro exI [of _ "\<lparr>res_rule_id = i, res_rule_name = name r, success = (er = None), actions_executed = dn, error = er,
        duration_ms = elapsed_ms clk, triggered_at = fc_done clk\<rparr>"]) (simp add: fire_rule_def x ra Let_def)
qed

lemma evaluate_history:
  assumes "evaluate_and_fire env clk i e = (res, e')"
  shows "if res = Inr True then \<exists>x. res_rule_id x = i \<and> history e' = push_history x (history e) else history e' = history e"
  using assms
proof (cases rule: evaluate_and_fire_cases)
  case (fired r c pv e2 e3)
  have "history e3 = history e"
    using sustained_fields(2) [of env clk i "for_duration r" "publish pv e"] fired(7) try_claim_fields(3) [OF fired(8)] by simp
  with fired fire_rule_history [of i env clk r c e3] show ?thesis by simp
qed simp_all

lemma run_claimed_history: "history (snd (run_claimed env clk i r e)) = push_history (fst (run_claimed env clk i r e)) (history e)"
  by (auto simp: run_claimed_def Let_def settle_failures_def dest: run_actions_fields split: prod.splits)

lemma schedule_wait_snd:
  "snd (schedule_wait env clk i r e) = e \<or>
   snd (schedule_wait env clk i r e) = snd (update_condition_since env (fc_since clk) i True e)"
  by (auto simp: schedule_wait_def Let_def split: option.splits rule_trigger.splits prod.splits)

lemma schedule_wait_fields [simp]:
  "history (snd (schedule_wait env clk i r e)) = history e" "cooldowns (snd (schedule_wait env clk i r e)) = cooldowns e"
  using schedule_wait_snd [of env clk i r e] by auto

definition history_bounded :: "'d rule_engine \<Rightarrow> bool" where
  "history_bounded e \<longleftrightarrow> length (history e) \<le> MAX_HISTORY_SIZE"

lemma execute_rule_history:
  "history_bounded e \<Longrightarrow> history_bounded (snd (execute_rule env clk i e))"
proof (cases "hm_get (eng_rules e) i")
  case (Some r)
  assume hb: "history_bounded e"
  obtain w e1 where sw: "schedule_wait env clk i r e = (w, e1)" by (cases "schedule_wait env clk i r e")
  obtain cl e2 where tc: "try_claim_cooldown (fc_claim_check clk) (fc_claimed clk) i (cooldown r) e1 = (cl, e2)"
    by (cases "try_claim_cooldown (fc_claim_check clk) (fc_claimed clk) i (cooldown r) e1")
  have "history e1 = history e" using schedule_wait_fields(1) [of env clk i r e] sw by simp
  moreover have "history e2 = history e1" using try_claim_fields(3) [OF tc] .
  ultimately show ?thesis
    using hb Some sw tc push_history_props(3)
    by (auto simp: execute_rule_def Let_def history_bounded_def run_claimed_history split: option.splits)
qed (simp add: execute_rule_def)

lemma evaluate_all_history: "history_bounded e \<Longrightarrow> history_bounded (snd (evaluate_all env clks n is e))"
proof (induction "is" arbitrary: n e)
  case (Cons i "is")
  obtain res e1 where ev: "evaluate_and_fire env (clks n) i e = (res, e1)" by (cases "evaluate_and_fire env (clks n) i e")
  with evaluate_history [OF ev] Cons.prems push_history_props(3) have "history_bounded e1"
    by (auto simp: history_bounded_def split: if_splits)
  from Cons.IH [OF this, of "Suc n"] ev show ?case by (auto split: prod.splits)
qed simp

lemma crud_history [simp]:
  "history (snd (add_rule r e)) = history e" "history (snd (update_rule r e)) = history e"
  "history (snd (remove_rule i e)) = history e" "history (snd (set_enabled t i b e)) = history e"
  by (auto simp: add_rule_def update_rule_def remove_rule_def set_enabled_def rebuild_all_subscriptions_def Let_def
      split: option.splits)

lemma crud_history_bounded [simp]:
  "history_bounded (snd (add_rule r e)) = history_bounded e" "history_bounded (snd (update_rule r e)) = history_bounded e"
  "history_bounded (snd (remove_rule i e)) = history_bounded e" "history_bounded (snd (set_enabled t i b e)) = history_bounded e"
  by (simp_all add: history_bounded_def)

lemma engine_reachable_history: "engine_reachable env e \<Longrightarrow> history_bounded e"
proof (induction rule: engine_reachable.induct)
  case (step e op)
  then show ?case
    by (cases op) (auto simp: execute_rule_history evaluate_all_history on_data_update_def Let_def)
qed (simp add: history_bounded_def)

section \<open>The action loop\<close>

text \<open>What each action returns, when all are executed in order.\<close>

fun action_outcomes ::
    "('d, 'r) engine_env \<Rightarrow> (nat \<Rightarrow> action_oracle) \<Rightarrow> string option \<Rightarrow> string option \<Rightarrow> nat \<Rightarrow> rule_action list
      \<Rightarrow> 'd rule_engine \<Rightarrow> (string, string) rust_result list" where
  "action_outcomes env os tv ts n [] e = []"
| "action_outcomes env os tv ts n (a # as) e =
     (let (res, e') = execute_action env (os n) tv ts a e in res # action_outcomes env os tv ts (Suc n) as e')"

definition successes :: "(string, string) rust_result list \<Rightarrow> string list" where
  "successes outs = map projr (filter (\<lambda>x. \<not> isl x) outs)"

definition first_error :: "(string, string) rust_result list \<Rightarrow> string option" where
  "first_error outs = map_option projl (find isl outs)"

lemma run_actions_outcomes:
  "fst (run_actions env os tv ts n as done err e) =
     (done @ successes (action_outcomes env os tv ts n as e),
      if err = None then first_error (action_outcomes env os tv ts n as e) else err)"
proof (induction as arbitrary: n "done" err e)
  case (Cons a as)
  obtain res e1 where ex: "execute_action env (os n) tv ts a e = (res, e1)" by (cases "execute_action env (os n) tv ts a e")
  with Cons.IH show ?case by (cases res) (auto simp: successes_def first_error_def)
qed (auto simp: successes_def first_error_def)

lemma length_action_outcomes: "length (action_outcomes env os tv ts n as e) = length as"
  by (induction as arbitrary: n e) (auto split: prod.splits)

end
