(* ===== verification/EngineProperties.thy ===== *)
theory EngineProperties
  imports EngineInvariants
begin

text \<open>
  The properties of the rule engine, over the lemmas of \<open>EngineInvariants\<close>, each with an instance on
  a concrete rule. The section on sustained conditions proves the run-level meaning of
  \<open>for_duration\<close>.
\<close>

section \<open>An example engine\<close>

definition sensor :: data_source_id where
  "sensor = ds_device ''s1'' ''temp''"

definition hot_rule :: compiled_rule where
  "hot_rule = (compiled_rule_new ''r1'' 0 ''hot'')
     \<lparr>trigger := DataChange [sensor], condition := Some (Comparison sensor GreaterThan (Fin 5) None),
      actions := [Notify ''too hot: {value}'' NCritical, TriggerAgent ''a'' None None],
      cooldown := from_secs 60\<rparr>"

definition example_engine_env :: "(mem_db, unit) engine_env" where
  "example_engine_env = \<lparr>en_text = example_env, en_store = mem_redb, en_codec = example_rule_codec,
     en_manager = example_manager_env, en_pow = (\<lambda>x _. x), en_fmt_duration = (\<lambda>_. ''d'')\<rparr>"

definition example_oracle :: action_oracle where
  "example_oracle = \<lparr>ao_fresh = ''m'', ao_now = 0, ao_checked = 0, ao_recorded = 0, ao_pruned = 0,
     ao_device = (\<lambda>_ _ _ _. Inr None),
     ao_extension = \<lparr>xr_has_extension = (\<lambda>_. False), xr_execute = (\<lambda>_ _ _. (0, Inl ''none''))\<rparr>\<rparr>"

text \<open>A clock that stands still at \<open>t\<close> nanoseconds, with the sensor at a given value.\<close>

definition clock_at :: "nat \<Rightarrow> rule_value option \<Rightarrow> fire_clock" where
  "clock_at t v = \<lparr>fc_values = (\<lambda>_. v), fc_trigger_values = (\<lambda>_. v), fc_cooldown_check = t, fc_evaluated = int t,
     fc_since = int t, fc_elapsed = int t, fc_claim_check = t, fc_claimed = t, fc_triggered = int t, fc_start = t,
     fc_action = (\<lambda>_. example_oracle), fc_state = int t, fc_end = t, fc_done = int t, fc_executed = int t\<rparr>"

definition example_engine :: "mem_db rule_engine" where
  "example_engine = snd (add_rule hot_rule engine_new)"

lemma example_engine_reachable: "engine_reachable example_engine_env example_engine"
proof -
  have "engine_reachable example_engine_env (engine_step example_engine_env (EAdd hot_rule) engine_new)"
    by (intro engine_reachable.step engine_reachable.start) (simp_all add: engine_new_def)
  then show ?thesis by (simp add: example_engine_def)
qed

lemma example_engine_rule: "get_rule ''r1'' example_engine = Some hot_rule"
  by (simp add: example_engine_def add_rule_def rebuild_all_subscriptions_def get_rule_def hot_rule_def
      compiled_rule_new_def)

section \<open>Sustained conditions\<close>

definition since_of :: "rule_id \<Rightarrow> 'd rule_engine \<Rightarrow> date_time option" where
  "since_of i e = Option.bind (get_rule i e) (\<lambda>r. condition_since (state r))"

text \<open>The evaluation finds the condition false (it is not skipped).\<close>

definition evaluated_false :: "('d, 'r) engine_env \<Rightarrow> rule_id \<Rightarrow> fire_clock \<Rightarrow> 'd rule_engine \<Rightarrow> bool" where
  "evaluated_false env i clk e =
     (case get_rule i e of
        None \<Rightarrow> False
      | Some r \<Rightarrow> enabled r \<and> \<not> is_in_cooldown (fc_cooldown_check clk) i r e
          \<and> (case condition r of None \<Rightarrow> False | Some c \<Rightarrow> \<not> evaluate (en_text env) (fc_values clk) c))"

definition evaluations :: "('d, 'r) engine_env \<Rightarrow> rule_id \<Rightarrow> fire_clock list \<Rightarrow> 'd rule_engine \<Rightarrow> 'd rule_engine" where
  "evaluations env i clks e = fold (\<lambda>clk e. snd (evaluate_and_fire env clk i e)) clks e"

lemma since_of_same: "eng_rules e' = eng_rules e \<Longrightarrow> since_of i e' = since_of i e"
  by (simp add: since_of_def get_rule_def)

lemma since_of_publish [simp]: "since_of i (publish ev e) = since_of i e"
  by (rule since_of_same) simp

lemma since_after_false [simp]: "since_of i (snd (update_condition_since env t i False e)) = None"
  by (auto simp: update_condition_since_def since_of_def get_rule_def Let_def split: option.splits)

lemma since_after_sustained:
  assumes "since_of i (snd (sustained env clk i d e)) = Some t"
  shows "since_of i e = Some t \<or> since_of i e = None \<and> t = fc_since clk"
proof (cases d)
  case None
  with assms show ?thesis by (simp add: sustained_def)
next
  case (Some x)
  then have *: "since_of i (snd (update_condition_since env (fc_since clk) i True e)) = Some t"
    using assms by (simp add: sustained_snd)
  show ?thesis
  proof (cases "hm_get (eng_rules e) i")
    case None
    with * show ?thesis by (simp add: update_condition_since_def since_of_def get_rule_def)
  next
    case (Some r)
    with * show ?thesis
      by (cases "condition_since (state r)")
        (auto simp: update_condition_since_def since_of_def get_rule_def Let_def)
  qed
qed

lemma since_after_fire [simp]: "since_of i (fire_rule env clk i r c e) = None"
proof -
  obtain tv d s where x: "extract_trigger_value (en_text env) (fc_trigger_values clk) c = (tv, d, s)"
    by (cases "extract_trigger_value (en_text env) (fc_trigger_values clk) c")
  have "since_of i (update_rule_state_after_trigger env t i e') = None" for t and e' :: "'a rule_engine"
    by (auto simp: update_rule_state_after_trigger_def since_of_def get_rule_def Let_def split: option.splits)
  then show ?thesis
    by (auto simp: fire_rule_def x Let_def since_of_def get_rule_def split: prod.splits)
qed

lemma since_step:
  assumes "since_of i (snd (evaluate_and_fire env clk i e)) = Some t"
  shows "\<not> evaluated_false env i clk e \<and> (since_of i e = Some t \<or> since_of i e = None \<and> t = fc_since clk)"
proof -
  obtain res e' where ev: "evaluate_and_fire env clk i e = (res, e')" by (cases "evaluate_and_fire env clk i e")
  have nf: "\<not> evaluated_false env i clk e"
  proof
    assume "evaluated_false env i clk e"
    then have "since_of i e' = None"
      using ev by (auto simp: evaluated_false_def evaluate_and_fire_def get_rule_def Let_def split: option.splits)
    with assms ev show False by simp
  qed
  from ev have "since_of i e = Some t \<or> since_of i e = None \<and> t = fc_since clk"
  proof (cases rule: evaluate_and_fire_cases)
    case (waiting r c pv)
    then show ?thesis using since_after_sustained [of i env clk "for_duration r" "publish pv e"] assms ev by simp
  qed (use assms ev in simp_all)
  with nf show ?thesis by simp
qed

lemma since_origin:
  assumes "since_of i e = None" "since_of i (evaluations env i clks e) = Some t"
  shows "\<exists>m < length clks. t = fc_since (clks ! m) \<and>
    (\<forall>j. m \<le> j \<and> j < length clks \<longrightarrow> \<not> evaluated_false env i (clks ! j) (evaluations env i (take j clks) e))"
  using assms(2)
proof (induction clks arbitrary: t rule: rev_induct)
  case Nil
  with assms(1) show ?case by (simp add: evaluations_def)
next
  case (snoc clk clks)
  let ?e = "evaluations env i clks e"
  have "since_of i (snd (evaluate_and_fire env clk i ?e)) = Some t" using snoc.prems by (simp add: evaluations_def)
  from since_step [OF this] have nf: "\<not> evaluated_false env i clk ?e"
    and alt: "since_of i ?e = Some t \<or> since_of i ?e = None \<and> t = fc_since clk" by auto
  from alt show ?case
  proof
    assume "since_of i ?e = Some t"
    from snoc.IH [OF this] obtain m where m: "m < length clks" "t = fc_since (clks ! m)"
      "\<forall>j. m \<le> j \<and> j < length clks \<longrightarrow> \<not> evaluated_false env i (clks ! j) (evaluations env i (take j clks) e)"
      by blast
    with nf show ?thesis by (intro exI [of _ m]) (auto simp: nth_append less_Suc_eq)
  next
    assume "since_of i ?e = None \<and> t = fc_since clk"
    with nf show ?thesis by (intro exI [of _ "length clks"]) (auto simp: nth_append less_Suc_eq)
  qed
qed

lemma evaluations_config:
  "rel_option same_config (get_rule i e) (get_rule i (evaluations env i clks e))"
proof (induction clks arbitrary: e)
  case (Cons clk clks)
  have "rel_option same_config (get_rule i e) (get_rule i (snd (evaluate_and_fire env clk i e)))"
    using evaluate_and_fire_touches [of i e env clk] by (simp add: touches_only_def get_rule_def)
  with Cons show ?case by (auto simp: evaluations_def intro: rel_same_config_trans)
qed (simp add: evaluations_def)

section \<open>Properties\<close>

text \<open>C7. In every reachable state the subscription index is right: a data update of a source looks at
  exactly the rules whose trigger lists a source with the same storage key, whatever sequence of
  additions, removals, updates, switches, evaluations and manual executions came before.\<close>

theorem affected_rules_exact:
  assumes "engine_reachable env e"
  shows "i \<in> set (unwrap_or (hm_get (subscription_index e) (storage_key src)) []) \<longleftrightarrow>
    (\<exists>r ss. get_rule i e = Some r \<and> trigger r = DataChange ss \<and> (\<exists>s \<in> set ss. storage_key s = storage_key src))"
  unfolding affected_iff [OF assms] subscribes_iff by blast

theorem affected_rules_exact_witness:
  "''r1'' \<in> set (unwrap_or (hm_get (subscription_index example_engine) (storage_key sensor)) []) \<longleftrightarrow>
    (\<exists>r ss. get_rule ''r1'' example_engine = Some r \<and> trigger r = DataChange ss
       \<and> (\<exists>s \<in> set ss. storage_key s = storage_key sensor))"
  by (rule affected_rules_exact [OF example_engine_reachable])

text \<open>A data update leaves every rule alone that is not subscribed to the source: neither its stored
  form (with its counters and its sustained-since mark) nor its cooldown changes.\<close>

lemma update_frame:
  assumes "engine_reachable env e"
    and "\<not> (\<exists>r ss s. get_rule i e = Some r \<and> trigger r = DataChange ss \<and> s \<in> set ss \<and> storage_key s = storage_key src)"
  shows "get_rule i (snd (on_data_update env clks src v e)) = get_rule i e
    \<and> hm_get (cooldowns (snd (on_data_update env clks src v e))) i = hm_get (cooldowns e) i"
proof -
  let ?aff = "unwrap_or (hm_get (subscription_index e) (storage_key src)) []"
  have "i \<notin> set ?aff"
    using assms(2) unfolding affected_iff [OF assms(1)] subscribes_iff by blast
  then show ?thesis
    using evaluate_all_frame [of i ?aff env clks 0 e]
    by (cases "evaluate_all env clks 0 ?aff e") (simp add: on_data_update_def Let_def get_rule_def)
qed

text \<open>C1. A rule fires exactly when it should: the evaluation of a rule fires if and only if the rule
  exists, is enabled, has a condition that holds on the values read, has been waiting for its
  \<open>for_duration\<close>, and its cooldown is over at the check and at the claim.\<close>

theorem fires_exactly_when_due:
  "fst (evaluate_and_fire env clk i e) = Inr True \<longleftrightarrow> should_fire env clk i e"
  by (rule fires_iff_should_fire)

text \<open>C2. Firings are spaced by the cooldown: along any run of evaluations of any rules, with clock
  readings that do not go backwards, two firings of the same rule are at least its cooldown apart.
  The cooldowns of the rules are \<open>cd\<close>; evaluations do not change them.\<close>

theorem firings_spaced:
  assumes "cooldowns_are cd e" and "0 \<le> now" and "clocked now evs"
  shows "spaced fst (\<lambda>i. int (cd i)) (fst (gate_run (fire_attempt env) evs e))"
  by (rule fires.gate_spaced [OF assms])

theorem firings_spaced_witness:
  "spaced fst (\<lambda>i. int (from_secs 60)) (fst (gate_run (fire_attempt example_engine_env)
     [((''r1'', clock_at 0 (Some (Number (Fin 9)))), 0, 0, 0), ((''r1'', clock_at 5 (Some (Number (Fin 9)))), 5, 5, 5)]
     example_engine))"
proof (rule firings_spaced [of _ _ 0])
  show "cooldowns_are (\<lambda>_. from_secs 60) example_engine"
    unfolding cooldowns_are_def
    by (auto simp: example_engine_def add_rule_def rebuild_all_subscriptions_def get_rule_def hot_rule_def
        compiled_rule_new_def engine_new_def split: if_splits)
qed simp_all

text \<open>Concurrent evaluations cannot double-fire: whatever order the atomic claims of concurrent
  evaluations come in, two successful claims of one rule are at least its cooldown apart.\<close>

lemma concurrent_claims_spaced:
  assumes "0 \<le> now" and "clocked now claims"
  shows "spaced (\<lambda>i. i) (\<lambda>i. int (cd i)) (fst (gate_run (claim_attempt cd) claims e))"
  by (rule claims.gate_spaced [OF TrueI assms])

text \<open>C8. Sustained means sustained: if a rule with \<open>for_duration\<close> \<open>d\<close> fires at the end of a run of
  evaluations that began with no sustained-since mark, then there is an evaluation in the run, at
  least \<open>d\<close> before, such that no evaluation from then on found the condition false.\<close>

theorem sustained_before_firing:
  assumes "get_rule i e = Some r" and "for_duration r = Some d" and "condition_since (state r) = None"
    and "fst (evaluate_and_fire env clk i (evaluations env i clks e)) = Inr True"
  shows "\<exists>m \<le> length clks. d \<le> utc_elapsed (fc_elapsed clk) (fc_since ((clks @ [clk]) ! m)) \<and>
    (\<forall>j. m \<le> j \<and> j < length clks \<longrightarrow> \<not> evaluated_false env i (clks ! j) (evaluations env i (take j clks) e))"
proof -
  let ?e = "evaluations env i clks e"
  obtain r' where r': "get_rule i ?e = Some r'" "same_config r r'"
    using evaluations_config [of i e env clks] assms(1) by (cases "get_rule i ?e") auto
  have "held_long_enough clk r'" using assms(4) r' by (simp add: fires_iff_should_fire should_fire_def)
  then have d: "d \<le> utc_elapsed (fc_elapsed clk) (unwrap_or (since_of i ?e) (fc_since clk))"
    using r' assms(2) by (simp add: held_long_enough_def same_config_def since_of_def)
  have none: "since_of i e = None" using assms(1,3) by (simp add: since_of_def)
  show ?thesis
  proof (cases "since_of i ?e")
    case None
    with d show ?thesis by (intro exI [of _ "length clks"]) auto
  next
    case (Some t)
    from since_origin [OF none Some] obtain m where "m < length clks" "t = fc_since (clks ! m)"
      "\<forall>j. m \<le> j \<and> j < length clks \<longrightarrow> \<not> evaluated_false env i (clks ! j) (evaluations env i (take j clks) e)" by blast
    with d Some show ?thesis by (intro exI [of _ m]) (simp add: nth_append)
  qed
qed

definition sustained_engine :: "mem_db rule_engine" where
  "sustained_engine = snd (add_rule (hot_rule\<lparr>for_duration := Some 10\<rparr>) engine_new)"

theorem sustained_before_firing_witness:
  "\<exists>m \<le> length [clock_at 0 (Some (Number (Fin 9)))].
     10 \<le> utc_elapsed (fc_elapsed (clock_at 20 (Some (Number (Fin 9)))))
       (fc_since (([clock_at 0 (Some (Number (Fin 9)))] @ [clock_at 20 (Some (Number (Fin 9)))]) ! m)) \<and>
     (\<forall>j. m \<le> j \<and> j < length [clock_at 0 (Some (Number (Fin 9)))] \<longrightarrow>
        \<not> evaluated_false example_engine_env ''r1'' ([clock_at 0 (Some (Number (Fin 9)))] ! j)
          (evaluations example_engine_env ''r1'' (take j [clock_at 0 (Some (Number (Fin 9)))]) sustained_engine))"
proof (rule sustained_before_firing)
  show "get_rule ''r1'' sustained_engine = Some (hot_rule\<lparr>for_duration := Some 10\<rparr>)"
    by (simp add: sustained_engine_def add_rule_def rebuild_all_subscriptions_def get_rule_def hot_rule_def
        compiled_rule_new_def)
  show "fst (evaluate_and_fire example_engine_env (clock_at 20 (Some (Number (Fin 9)))) ''r1''
      (evaluations example_engine_env ''r1'' [clock_at 0 (Some (Number (Fin 9)))] sustained_engine)) = Inr True"
    unfolding fires_iff_should_fire
    by (simp add: evaluations_def evaluate_and_fire_def sustained_engine_def add_rule_def rebuild_all_subscriptions_def
        engine_new_def hot_rule_def compiled_rule_new_def rule_state_default_def clock_at_def is_in_cooldown_def
        example_engine_env_def publish_def sustained_def update_condition_since_def persist_rule_def utc_elapsed_def
        should_fire_def get_rule_def held_long_enough_def Let_def)
qed (simp_all add: hot_rule_def compiled_rule_new_def rule_state_default_def)

text \<open>The history holds the most recent executions: in every reachable state it has at most a
  thousand entries, and an evaluation that fires puts the execution of that rule at the end and
  drops entries only from the front.\<close>

lemma history_keeps_recent:
  assumes "engine_reachable env e"
  shows "length (history e) \<le> MAX_HISTORY_SIZE
    \<and> (fst (evaluate_and_fire env clk i e) = Inr True \<longrightarrow>
        (let h = history (snd (evaluate_and_fire env clk i e))
         in h \<noteq> [] \<and> res_rule_id (last h) = i \<and> suffix (butlast h) (history e) \<and> length h \<le> MAX_HISTORY_SIZE))"
proof -
  obtain res e' where ev: "evaluate_and_fire env clk i e = (res, e')" by (cases "evaluate_and_fire env clk i e")
  have "h \<noteq> [] \<and> res_rule_id (last h) = i \<and> suffix (butlast h) (history e) \<and> length h \<le> MAX_HISTORY_SIZE"
    if "res = Inr True" "h = history e'" for h
    using evaluate_history [OF ev] that push_history_props by (metis (full_types))
  with engine_reachable_history [OF assms] ev show ?thesis
    by (simp add: history_bounded_def Let_def)
qed

text \<open>One failing action does not stop the others: the loop runs every action of the rule in order,
  reports the names of exactly those that succeeded and the first error; the execution counts as a
  success only if no action failed.\<close>

lemma every_action_attempted:
  "case run_actions env os tv ts 0 as [] None e of ((done, err), e') \<Rightarrow>
     (let outs = action_outcomes env os tv ts 0 as e
      in length outs = length as
         \<and> done = successes outs
         \<and> err = first_error outs
         \<and> (err = None \<longleftrightarrow> length done = length as))"
proof -
  let ?o = "action_outcomes env os tv ts 0 as e"
  obtain dn er e' where ra: "run_actions env os tv ts 0 as [] None e = ((dn, er), e')" by (metis surj_pair)
  have out: "dn = successes ?o" "er = first_error ?o"
    using run_actions_outcomes [of env os tv ts 0 as "[]" None e] ra by simp_all
  have "find isl outs = None \<longleftrightarrow> length (filter (\<lambda>x. \<not> isl x) outs) = length outs" for outs :: "(string, string) rust_result list"
    by (metis (no_types, lifting) filter_id_conv find_None_iff length_filter_less less_irrefl)
  then have "er = None \<longleftrightarrow> length dn = length as"
    using length_action_outcomes [of env os tv ts 0 as e] by (simp add: out first_error_def successes_def)
  with ra out show ?thesis by (simp add: Let_def length_action_outcomes)
qed

text \<open>The cooldown is refunded once: when a manual execution runs and every action fails, the
  cooldown it claimed is given back if the failure counter was zero, so the next trigger can retry at
  once; otherwise the claim stays and paces the retries. The counter goes up by one either way.\<close>

lemma refund_first_failure_only:
  assumes "get_rule i e = Some r" and "trigger r = Manual" and "hm_get (cooldowns e) i = None"
    and "\<forall>c. condition r = Some c \<longrightarrow> evaluate (en_text env) (fc_values clk) c"
    and "actions_executed (fst (execute_rule env clk i e)) = []" and "error (fst (execute_rule env clk i e)) \<noteq> None"
  shows "hm_get (cooldowns (snd (execute_rule env clk i e))) i =
      (if unwrap_or (hm_get (consecutive_action_failures e) i) 0 = 0 then None else Some (fc_claimed clk))
    \<and> hm_get (consecutive_action_failures (snd (execute_rule env clk i e))) i =
        Some (unwrap_or (hm_get (consecutive_action_failures e) i) 0 + 1)"
proof -
  let ?e2 = "e\<lparr>cooldowns := hm_insert i (fc_claimed clk) (cooldowns e)\<rparr>"
  have ex: "execute_rule env clk i e = run_claimed env clk i r ?e2"
    using assms(1-4)
    by (auto simp: execute_rule_def get_rule_def is_in_cooldown_def schedule_wait_def try_claim_cooldown_def Let_def
        split: option.splits)
  obtain tv d s where x: "(case condition r of
            Some c \<Rightarrow> extract_trigger_value (en_text env) (fc_trigger_values clk) c
          | None \<Rightarrow> (None, None, None)) = (tv, d, s)" by (metis surj_pair)
  obtain dn er e1 where ra: "run_actions env (fc_action clk) d s 0 (actions r) [] None ?e2 = ((dn, er), e1)"
    by (metis surj_pair)
  have fields: "cooldowns e1 = cooldowns ?e2" "consecutive_action_failures e1 = consecutive_action_failures e"
    using run_actions_fields [OF ra] by auto
  have st: "consecutive_action_failures (update_rule_state_after_trigger env t i y) = consecutive_action_failures y"
    for t and y :: "'a rule_engine"
    by (auto simp: update_rule_state_after_trigger_def Let_def split: option.splits)
  have "dn = []" "er \<noteq> None" using assms(5,6) by (simp_all add: ex run_claimed_def x ra Let_def)
  then show ?thesis
    by (simp add: ex run_claimed_def x ra Let_def settle_failures_def st fields)
qed

end
