(* ===== verification/StatusEmitter.thy ===== *)
theory StatusEmitter
  imports EngineProperties
begin

text \<open>
  The periodic emitter of the virtual metric \<open>__last_seen_age_secs\<close>,
  \<open>heramind-rules/src/device_status_emitter.rs\<close>. The emitter owns the map of values last pushed and
  shares the value provider and the engine; \<open>DeviceService\<close> (crate \<open>heramind-devices\<close>) is a parameter:
  when a device was last seen and after how many seconds it counts as offline. One tick is one call
  of \<open>emit_once\<close>; the interval timer that makes the ticks is not modelled.
\<close>

section \<open>State and readings\<close>

definition DEFAULT_TICK_INTERVAL :: duration where
  "DEFAULT_TICK_INTERVAL = from_secs 60"

definition VIRTUAL_METRIC_NAME :: string where
  "VIRTUAL_METRIC_NAME = ''__last_seen_age_secs''"

record 'd status_emitter =
  em_engine :: "'d rule_engine"
  em_provider :: unified_value_provider
  em_tick_interval :: duration
  last_pushed :: "(string, f64) hash_map"

text \<open>The readings of one tick: the wall clock in seconds, the answers of the device service, the
  time of each write to the provider (milliseconds) and the clocks of each evaluation.\<close>

record tick_readings =
  tk_now :: int
  tk_last_seen :: "string \<Rightarrow> int"
  tk_offline_timeout :: "string \<Rightarrow> u64"
  tk_written :: "string \<Rightarrow> int"
  tk_clocks :: "string \<Rightarrow> nat \<Rightarrow> fire_clock"

definition emitter_new :: "'d rule_engine \<Rightarrow> unified_value_provider \<Rightarrow> 'd status_emitter" where
  "emitter_new e p =
     \<lparr>em_engine = e, em_provider = p, em_tick_interval = DEFAULT_TICK_INTERVAL, last_pushed = []\<rparr>"

definition with_tick_interval :: "duration \<Rightarrow> 'd status_emitter \<Rightarrow> 'd status_emitter" where
  "with_tick_interval d s = s\<lparr>em_tick_interval := d\<rparr>"

section \<open>One tick\<close>

text \<open>\<open>age\<close> is not negative, and \<open>u64 as f64\<close> rounds like \<^const>\<open>f64_of_int\<close>.\<close>

definition age_metric_value :: "tick_readings \<Rightarrow> string \<Rightarrow> f64" where
  "age_metric_value tk device_id =
     (let age = f64_of_int (max (tk_now tk - tk_last_seen tk device_id) 0);
          offline_timeout = f64_of_int (uint (tk_offline_timeout tk device_id))
      in if f64_le offline_timeout age then age else f64_of_int 0)"

definition unchanged_since :: "f64 \<Rightarrow> f64 option \<Rightarrow> bool" where
  "unchanged_since v prev = (case prev of Some w \<Rightarrow> f64_eq w v | None \<Rightarrow> False)"

definition emit_device ::
    "('d, 'r) engine_env \<Rightarrow> tick_readings \<Rightarrow> string \<Rightarrow> 'd status_emitter \<Rightarrow> 'd status_emitter" where
  "emit_device env tk device_id s =
     (if tk_last_seen tk device_id \<le> 0 then s
      else
        let v = age_metric_value tk device_id
        in if unchanged_since v (hm_get (last_pushed s) device_id) then s
           else s\<lparr>last_pushed := hm_insert device_id v (last_pushed s),
                  em_provider := update_device_value (tk_written tk device_id) device_id VIRTUAL_METRIC_NAME v (em_provider s),
                  em_engine := snd (on_data_update env (tk_clocks tk device_id) (ds_device device_id VIRTUAL_METRIC_NAME) (Number v)
                                 (em_engine s))\<rparr>)"

fun emit_devices ::
    "('d, 'r) engine_env \<Rightarrow> tick_readings \<Rightarrow> string list \<Rightarrow> 'd status_emitter \<Rightarrow> 'd status_emitter" where
  "emit_devices env tk [] s = s"
| "emit_devices env tk (d # ds) s = emit_devices env tk ds (emit_device env tk d s)"

definition emit_once :: "('d, 'r) engine_env \<Rightarrow> tick_readings \<Rightarrow> 'd status_emitter \<Rightarrow> 'd status_emitter" where
  "emit_once env tk s =
     (let device_ids = subscribed_virtual_metric_devices VIRTUAL_METRIC_NAME (em_engine s)
      in if device_ids = [] then s else emit_devices env tk device_ids s)"

section \<open>Lemmas\<close>

lemma f64_round_not_nan [simp]: "f64_round i \<noteq> NaN"
  by (simp add: f64_round_def Let_def)

lemma age_metric_value_not_nan: "age_metric_value tk d \<noteq> NaN"
  by (simp add: age_metric_value_def f64_of_int_def Let_def)

lemma unchanged_since_iff: "unchanged_since (age_metric_value tk d) prev \<longleftrightarrow> prev = Some (age_metric_value tk d)"
  using age_metric_value_not_nan [of tk d]
  by (cases "age_metric_value tk d"; cases "the prev") (auto simp: unchanged_since_def split: option.splits)

lemma evaluate_all_index: "subscription_index (snd (evaluate_all env clks n is e)) = subscription_index e"
proof (induction "is" arbitrary: n e)
  case (Cons i js)
  have "subscription_index (snd (evaluate_and_fire env (clks n) i e)) = subscription_index e"
    using evaluate_and_fire_touches [of i e env "clks n"] by (simp add: touches_only_def)
  with Cons show ?case by (simp add: split_beta)
qed simp

lemma on_data_update_index [simp]: "subscription_index (snd (on_data_update env clks d v e)) = subscription_index e"
  by (simp add: on_data_update_def evaluate_all_index Let_def)

text \<open>A device is settled when its current metric value is the one last pushed.\<close>

definition settled :: "tick_readings \<Rightarrow> 'd status_emitter \<Rightarrow> string \<Rightarrow> bool" where
  "settled tk s d \<longleftrightarrow> tk_last_seen tk d \<le> 0 \<or> hm_get (last_pushed s) d = Some (age_metric_value tk d)"

lemma emit_device_settled: "settled tk s d \<Longrightarrow> emit_device env tk d s = s"
  by (auto simp: settled_def emit_device_def unchanged_since_iff Let_def)

lemma emit_device_settles: "settled tk (emit_device env tk d s) d"
  by (simp add: settled_def emit_device_def unchanged_since_iff Let_def)

lemma emit_device_keeps: "settled tk s d' \<Longrightarrow> settled tk (emit_device env tk d s) d'"
  by (cases "d' = d") (auto simp: emit_device_settled settled_def emit_device_def Let_def)

lemma emit_devices_keeps: "settled tk s d \<Longrightarrow> settled tk (emit_devices env tk ds s) d"
  by (induction ds arbitrary: s) (auto intro: emit_device_keeps)

lemma emit_devices_settles: "d \<in> set ds \<Longrightarrow> settled tk (emit_devices env tk ds s) d"
  by (induction ds arbitrary: s) (auto intro: emit_device_settles emit_devices_keeps)

lemma emit_devices_settled: "\<forall>d \<in> set ds. settled tk s d \<Longrightarrow> emit_devices env tk ds s = s"
  by (induction ds) (auto simp: emit_device_settled)

lemma emit_device_index [simp]: "subscription_index (em_engine (emit_device env tk d s)) = subscription_index (em_engine s)"
  by (simp add: emit_device_def Let_def)

lemma emit_devices_index [simp]: "subscription_index (em_engine (emit_devices env tk ds s)) = subscription_index (em_engine s)"
  by (induction ds arbitrary: s) auto

lemma emit_once_devices:
  "emit_once env tk s = emit_devices env tk (subscribed_virtual_metric_devices VIRTUAL_METRIC_NAME (em_engine s)) s"
  by (simp add: emit_once_def Let_def)

lemma emit_once_index [simp]: "subscription_index (em_engine (emit_once env tk s)) = subscription_index (em_engine s)"
  by (simp add: emit_once_devices)

lemma subscribed_devices_cong:
  "subscription_index e = subscription_index e' \<Longrightarrow>
   subscribed_virtual_metric_devices m e = subscribed_virtual_metric_devices m e'"
  by (simp add: subscribed_virtual_metric_devices_def)

lemma settled_same_readings:
  assumes "\<forall>d. tk_last_seen tk' d = tk_last_seen tk d \<and> age_metric_value tk' d = age_metric_value tk d"
  shows "settled tk' s d = settled tk s d"
  using assms by (simp add: settled_def)

text \<open>The provider shows every value last pushed, at every time, as long as values have no time to live
  and the cache has room for the devices of the tick.\<close>

definition shows_pushed :: "'d status_emitter \<Rightarrow> bool" where
  "shows_pushed s \<longleftrightarrow>
     (\<forall>d v t. hm_get (last_pushed s) d = Some v \<longrightarrow>
        get_by_source t (em_provider s) (ds_device d VIRTUAL_METRIC_NAME) = Some (Number v))"

lemma update_device_is_write:
  "update_device_value now d m v p = write_source now (ds_device d m) (Number v) p"
  by (simp add: update_device_value_def update_from_data_source_id_def ds_device_def)

lemma ds_device_inject [simp]: "ds_device d m = ds_device d' m' \<longleftrightarrow> d = d' \<and> m = m'"
  by (auto simp: ds_device_def)

lemma emit_device_shows:
  assumes "shows_pushed s" and "default_ttl_ms (em_provider s) = 0" and "length (cache (em_provider s)) < MAX_CACHE_ENTRIES"
  shows "shows_pushed (emit_device env tk d s)
    \<and> default_ttl_ms (em_provider (emit_device env tk d s)) = 0
    \<and> length (cache (em_provider (emit_device env tk d s))) \<le> Suc (length (cache (em_provider s)))"
proof -
  let ?src = "ds_device d VIRTUAL_METRIC_NAME" and ?v = "age_metric_value tk d"
  have room: "uvp_room (em_provider s) ?src" using assms by (simp add: uvp_room_def)
  have cache: "cache (update_device_value t d VIRTUAL_METRIC_NAME ?v (em_provider s)) =
      hm_insert (cache_key_of ?src) (cache_entry_new t (Number ?v) 0) (cache (em_provider s))" for t
    using write_source_cache [OF room, of t "Number ?v"] assms(2) by (simp add: update_device_is_write del: write_source.simps)
  have ttl: "default_ttl_ms (update_device_value t d VIRTUAL_METRIC_NAME ?v (em_provider s)) = 0" for t
    using assms(2) by (simp add: update_device_value_def update_value_def update_rule_value_def
        update_rule_value_with_ttl_def Let_def)
  show ?thesis
    using assms by (auto simp: emit_device_def shows_pushed_def get_by_source_def cache ttl is_expired_def
        cache_entry_new_def hm_length_insert Let_def split: if_splits)
qed

lemma emit_devices_shows:
  assumes "shows_pushed s" and "default_ttl_ms (em_provider s) = 0"
    and "length (cache (em_provider s)) + length ds \<le> MAX_CACHE_ENTRIES"
  shows "shows_pushed (emit_devices env tk ds s)"
  using assms
proof (induction ds arbitrary: s)
  case (Cons d ds)
  then have "length (cache (em_provider s)) < MAX_CACHE_ENTRIES" by simp
  from emit_device_shows [OF Cons.prems(1,2) this, of env tk d] Cons.prems(3)
  show ?case by (auto intro!: Cons.IH)
qed simp

section \<open>Properties\<close>

lemma small_ages: "f64_of_int 0 = Fin 0" "f64_of_int 300 = Fin (300 * f64_unit)" "f64_of_int 900 = Fin (900 * f64_unit)"
  by (simp_all add: f64_of_int_exact)

text \<open>A quiet fleet wakes nobody: after a tick, a second tick that reads the same last-seen times
  and the same metric values changes nothing, neither the provider nor any rule of the engine, so a
  device that stays online is pushed once and then not again.\<close>

lemma emitter_quiescent:
  assumes "\<forall>d. tk_last_seen tk' d = tk_last_seen tk d \<and> age_metric_value tk' d = age_metric_value tk d"
  shows "emit_once env tk' (emit_once env tk s) = emit_once env tk s"
proof -
  let ?ds = "subscribed_virtual_metric_devices VIRTUAL_METRIC_NAME (em_engine s)"
  have "subscribed_virtual_metric_devices VIRTUAL_METRIC_NAME (em_engine (emit_once env tk s)) = ?ds"
    by (rule subscribed_devices_cong) simp
  moreover have "\<forall>d \<in> set ?ds. settled tk' (emit_once env tk s) d"
    using emit_devices_settles [of _ ?ds tk env s] by (simp add: settled_same_readings [OF assms] emit_once_devices)
  ultimately show ?thesis
    by (metis emit_devices_settled emit_once_devices)
qed

text \<open>After a tick the provider shows, for every subscribed device that was ever seen, zero while
  the device has been silent for less than its offline timeout and its age from then on.\<close>

lemma emitter_reports_age:
  assumes "shows_pushed s" and "default_ttl_ms (em_provider s) = 0"
    and "length (cache (em_provider s))
         + length (subscribed_virtual_metric_devices VIRTUAL_METRIC_NAME (em_engine s)) \<le> MAX_CACHE_ENTRIES"
    and "d \<in> set (subscribed_virtual_metric_devices VIRTUAL_METRIC_NAME (em_engine s))" and "0 < tk_last_seen tk d"
  shows "get_by_source t (em_provider (emit_once env tk s)) (ds_device d VIRTUAL_METRIC_NAME) =
      Some (Number (if f64_le (f64_of_int (uint (tk_offline_timeout tk d))) (f64_of_int (max (tk_now tk - tk_last_seen tk d) 0))
                    then f64_of_int (max (tk_now tk - tk_last_seen tk d) 0) else f64_of_int 0))
    \<and> shows_pushed (emit_once env tk s)"
proof -
  have kept: "shows_pushed (emit_once env tk s)"
    using emit_devices_shows [OF assms(1-3)] by (simp add: emit_once_devices)
  have "settled tk (emit_once env tk s) d"
    using emit_devices_settles [OF assms(4)] by (simp add: emit_once_devices)
  with assms(5) have "hm_get (last_pushed (emit_once env tk s)) d = Some (age_metric_value tk d)"
    by (simp add: settled_def)
  with kept show ?thesis by (simp add: shows_pushed_def age_metric_value_def Let_def)
qed

end
