(* ===== verification/RuleValidator.thy ===== *)
theory RuleValidator
  imports RuleModels
begin

text \<open>
  Resource validation of rules, \<open>heramind-rules/src/validator.rs\<close>: issues found in conditions and
  actions against the known devices and extensions, and the cooldown floor for virtual metrics.
\<close>

section \<open>Errors, resources and issues\<close>

definition VIRTUAL_METRICS :: "string list" where
  "VIRTUAL_METRICS = [''__last_seen_age_secs'']"

datatype validation_error =
    DeviceNotFound string
  | MetricNotSupported string string
  | CommandNotSupported string string
  | InvalidThreshold f64
  | OtherError string

fun error_code :: "validation_error \<Rightarrow> string" where
  "error_code (DeviceNotFound _) = ''DEVICE_NOT_FOUND''"
| "error_code (MetricNotSupported _ _) = ''METRIC_NOT_SUPPORTED''"
| "error_code (CommandNotSupported _ _) = ''COMMAND_NOT_SUPPORTED''"
| "error_code (InvalidThreshold _) = ''INVALID_THRESHOLD''"
| "error_code (OtherError _) = ''VALIDATION_ERROR''"

fun validation_error_fmt :: "'r text_env \<Rightarrow> validation_error \<Rightarrow> string" where
  "validation_error_fmt env (DeviceNotFound d) = ''Device not found: '' @ d"
| "validation_error_fmt env (MetricNotSupported d m) = ''Metric '' @ [CHR 0x27] @ m @ [CHR 0x27] @ '' not supported by device '' @ [CHR 0x27] @ d @ [CHR 0x27]"
| "validation_error_fmt env (CommandNotSupported d c) = ''Command '' @ [CHR 0x27] @ c @ [CHR 0x27] @ '' not supported by device '' @ [CHR 0x27] @ d @ [CHR 0x27]"
| "validation_error_fmt env (InvalidThreshold v) = ''Invalid threshold value: '' @ fmt_f64 env v"
| "validation_error_fmt env (OtherError m) = ''Validation error: '' @ m"

datatype metric_data_type = MNumber | MBoolean | MString | MEnum "string list"

record metric_info =
  mi_name :: string
  mi_data_type :: metric_data_type
  mi_unit :: "string option"
  mi_min_value :: "f64 option"
  mi_max_value :: "f64 option"

record parameter_info =
  pi_name :: string
  pi_param_type :: string
  pi_required :: bool
  pi_default_value :: "json option"

record command_info =
  cmd_name :: string
  cmd_description :: string
  cmd_parameters :: "parameter_info list"

record device_info =
  di_id :: string
  di_name :: string
  di_device_type :: string
  di_metrics :: "metric_info list"
  di_commands :: "command_info list"
  di_online :: bool

record extension_info =
  xi_id :: string
  xi_name :: string
  xi_metrics :: "string list"

record validation_context =
  vc_devices :: "(string, device_info) hash_map"
  vc_extensions :: "(string, extension_info) hash_map"

definition validation_context_new :: validation_context where
  "validation_context_new = \<lparr>vc_devices = [], vc_extensions = []\<rparr>"

definition add_device :: "device_info \<Rightarrow> validation_context \<Rightarrow> validation_context" where
  "add_device d ctx = ctx\<lparr>vc_devices := hm_insert (di_id d) d (vc_devices ctx)\<rparr>"

definition get_device :: "string \<Rightarrow> validation_context \<Rightarrow> device_info option" where
  "get_device i ctx = hm_get (vc_devices ctx) i"

definition add_extension :: "extension_info \<Rightarrow> validation_context \<Rightarrow> validation_context" where
  "add_extension x ctx = ctx\<lparr>vc_extensions := hm_insert (xi_id x) x (vc_extensions ctx)\<rparr>"

definition get_extension :: "string \<Rightarrow> validation_context \<Rightarrow> extension_info option" where
  "get_extension i ctx = hm_get (vc_extensions ctx) i"

datatype validation_severity = SevError | SevWarning | SevInfo

record validation_issue =
  vi_code :: string
  vi_message :: string
  vi_field :: "string option"
  vi_severity :: validation_severity

record rule_validation_result =
  vr_is_valid :: bool
  vr_errors :: "validation_issue list"
  vr_warnings :: "validation_issue list"

definition issue :: "string \<Rightarrow> string \<Rightarrow> string option \<Rightarrow> validation_severity \<Rightarrow> validation_issue" where
  "issue code msg fld sev = \<lparr>vi_code = code, vi_message = msg, vi_field = fld, vi_severity = sev\<rparr>"

section \<open>Conditions\<close>

definition virtual_metric_bad_operator :: "comparison_operator \<Rightarrow> bool" where
  "virtual_metric_bad_operator op \<longleftrightarrow> op \<in> {LessThan, LessEqual, Contains, StartsWith, EndsWith, Regex}"

definition validate_virtual_metric_condition ::
    "string \<Rightarrow> comparison_operator \<Rightarrow> validation_context \<Rightarrow> (validation_error, validation_issue list) rust_result" where
  "validate_virtual_metric_condition device_id op ctx =
     (if get_device device_id ctx = None then Inl (DeviceNotFound device_id)
      else Inr (if virtual_metric_bad_operator op
                then [issue ''VIRTUAL_METRIC_BAD_OPERATOR''
                        (''Operator '' @ [CHR 0x27] @ symbol op @ [CHR 0x27] @ '' is not meaningful for virtual metric (use > or >=)'')
                        (Some ''condition.comparison.operator'') SevWarning]
                else []))"

definition threshold_issues :: "'r text_env \<Rightarrow> metric_info \<Rightarrow> f64 \<Rightarrow> validation_issue list" where
  "threshold_issues env mi threshold =
     (case mi_min_value mi of
        Some mn \<Rightarrow>
          if f64_lt threshold mn
          then [issue ''THRESHOLD_BELOW_MIN''
                  (''Threshold '' @ fmt_f64 env threshold @ '' is below metric minimum '' @ fmt_f64 env mn)
                  (Some ''condition.comparison.threshold'') SevWarning]
          else []
      | None \<Rightarrow> []) @
     (case mi_max_value mi of
        Some mx \<Rightarrow>
          if f64_lt mx threshold
          then [issue ''THRESHOLD_ABOVE_MAX''
                  (''Threshold '' @ fmt_f64 env threshold @ '' is above metric maximum '' @ fmt_f64 env mx)
                  (Some ''condition.comparison.threshold'') SevWarning]
          else []
      | None \<Rightarrow> [])"

definition validate_simple_condition ::
    "'r text_env \<Rightarrow> string \<Rightarrow> string \<Rightarrow> comparison_operator \<Rightarrow> f64 \<Rightarrow> validation_context
      \<Rightarrow> (validation_error, validation_issue list) rust_result" where
  "validate_simple_condition env device_id metric op threshold ctx =
     (if metric \<in> set VIRTUAL_METRICS then validate_virtual_metric_condition device_id op ctx
      else
        and_then (ok_or (DeviceNotFound device_id) (get_device device_id ctx)) (\<lambda>device.
        and_then (ok_or (MetricNotSupported device_id metric) (find (\<lambda>m. mi_name m = metric) (di_metrics device))) (\<lambda>mi.
        Inr (threshold_issues env mi threshold))))"

definition validate_comparison ::
    "'r text_env \<Rightarrow> data_source_id \<Rightarrow> comparison_operator \<Rightarrow> f64 \<Rightarrow> validation_context
      \<Rightarrow> (validation_error, validation_issue list) rust_result" where
  "validate_comparison env src op threshold ctx =
     (case source_type src of
        Device \<Rightarrow> validate_simple_condition env (source_id src) (field_path src) op threshold ctx
      | Extension \<Rightarrow>
          Inr (if get_extension (source_id src) ctx = None
               then [issue ''EXTENSION_NOT_FOUND''
                       (''Extension '' @ [CHR 0x27] @ source_id src @ [CHR 0x27] @ '' is not registered'')
                       (Some ''condition.comparison.source'') SevWarning]
               else [])
      | Transform \<Rightarrow>
          Inr (if source_id src = []
               then [issue ''EMPTY_SOURCE_ID'' ''Source ID cannot be empty'' (Some ''condition.comparison.source'') SevError]
               else []))"

definition validate_range :: "'r text_env \<Rightarrow> data_source_id \<Rightarrow> f64 \<Rightarrow> f64 \<Rightarrow> validation_issue list" where
  "validate_range env src mn mx =
     (if f64_lt mx mn
      then [issue ''INVALID_RANGE'' (''Range min ('' @ fmt_f64 env mn @ '') > max ('' @ fmt_f64 env mx @ '')'')
              (Some ''condition.range'') SevError]
      else []) @
     (if source_id src = []
      then [issue ''EMPTY_SOURCE_ID'' ''Source ID cannot be empty'' (Some ''condition.range.source'') SevError]
      else [])"

definition not_arity_issues :: "logical_operator \<Rightarrow> nat \<Rightarrow> validation_issue list" where
  "not_arity_issues op n =
     (if op = Not \<and> n \<noteq> 1
      then [issue ''not_multi_child''
              (''NOT operator with '' @ show_nat n @
               '' conditions evaluates as NOR (none-true), not NAND. Use exactly one condition.'') None SevWarning]
      else [])"

fun validate_condition ::
    "'r text_env \<Rightarrow> validation_context \<Rightarrow> rule_condition \<Rightarrow> (validation_error, validation_issue list) rust_result"
  and validate_conditions ::
    "'r text_env \<Rightarrow> validation_context \<Rightarrow> rule_condition list \<Rightarrow> (validation_error, validation_issue list) rust_result" where
  "validate_condition env ctx (Comparison src op threshold _) = validate_comparison env src op threshold ctx"
| "validate_condition env ctx (Range src mn mx) = Inr (validate_range env src mn mx)"
| "validate_condition env ctx (Logical op cs) =
     and_then (validate_conditions env ctx cs) (\<lambda>is. Inr (not_arity_issues op (length cs) @ is))"
| "validate_conditions env ctx [] = Inr []"
| "validate_conditions env ctx (c # cs) =
     and_then (validate_condition env ctx c) (\<lambda>is.
     and_then (validate_conditions env ctx cs) (\<lambda>js. Inr (is @ js)))"

section \<open>Actions\<close>

definition missing_parameters :: "string \<Rightarrow> (string \<times> json) list \<Rightarrow> parameter_info list \<Rightarrow> validation_issue list" where
  "missing_parameters command obj ps =
     map (\<lambda>p. issue ''MISSING_PARAMETER'' (''Missing required parameter: '' @ pi_name p)
            (Some (''actions.'' @ command @ ''.params.'' @ pi_name p)) SevError)
       (filter (\<lambda>p. pi_required p \<and> \<not> hm_contains obj (pi_name p)) ps)"

fun validate_action ::
    "validation_context \<Rightarrow> rule_action \<Rightarrow> (validation_error, validation_issue list) rust_result" where
  "validate_action ctx (Notify message _) =
     Inr (if message = []
          then [issue ''EMPTY_MESSAGE'' ''Notify message cannot be empty'' (Some ''actions.notify.message'') SevError] else [])"
| "validate_action ctx (Execute tgt TargetDevice command ps) =
     and_then (ok_or (DeviceNotFound tgt) (get_device tgt ctx)) (\<lambda>device.
     and_then (ok_or (CommandNotSupported tgt command) (find (\<lambda>c. cmd_name c = command) (di_commands device))) (\<lambda>info.
     Inr (case as_object ps of Some obj \<Rightarrow> missing_parameters command obj (cmd_parameters info) | None \<Rightarrow> [])))"
| "validate_action ctx (Execute tgt TargetExtension command ps) =
     Inr (if tgt = []
          then [issue ''EMPTY_EXTENSION_ID'' ''Extension target ID cannot be empty'' (Some ''actions.execute.target'') SevError]
          else [])"
| "validate_action ctx (TriggerAgent agent_id _ _) =
     Inr (if agent_id = []
          then [issue ''EMPTY_AGENT_ID'' ''Agent ID cannot be empty'' (Some ''actions.trigger_agent.agent_id'') SevError]
          else [])"

section \<open>Rules\<close>

text \<open>Sorting the outcome of one check into errors and warnings.\<close>

definition sort_issues ::
    "'r text_env \<Rightarrow> string \<Rightarrow> (validation_error, validation_issue list) rust_result \<Rightarrow> validation_issue list \<times> validation_issue list" where
  "sort_issues env fld r =
     (case r of
        Inr is \<Rightarrow> (filter (\<lambda>i. vi_severity i = SevError) is, filter (\<lambda>i. vi_severity i = SevWarning) is)
      | Inl e \<Rightarrow> ([issue (error_code e) (validation_error_fmt env e) (Some fld) SevError], []))"

definition validate_rule ::
    "'r text_env \<Rightarrow> rule_condition option \<Rightarrow> rule_action list \<Rightarrow> validation_context \<Rightarrow> rule_validation_result" where
  "validate_rule env cond acts ctx =
     (let c = (case cond of Some c \<Rightarrow> sort_issues env ''condition'' (validate_condition env ctx c) | None \<Rightarrow> ([], []));
          as = map (\<lambda>a. sort_issues env ''actions'' (validate_action ctx a)) acts;
          errors = fst c @ concat (map fst as);
          warnings = snd c @ concat (map snd as)
      in \<lparr>vr_is_valid = (errors = []), vr_errors = errors, vr_warnings = warnings\<rparr>)"

definition MIN_VIRTUAL_METRIC_COOLDOWN :: duration where
  "MIN_VIRTUAL_METRIC_COOLDOWN = from_secs 60"

definition uses_virtual :: "rule_condition option \<Rightarrow> bool" where
  "uses_virtual cond =
     (case cond of
        Some c \<Rightarrow> list_ex (\<lambda>s. source_type s = Device \<and> field_path s \<in> set VIRTUAL_METRICS) (extract_sources c)
      | None \<Rightarrow> False)"

definition validate_virtual_metric_cooldown :: "compiled_rule \<Rightarrow> (string, unit) rust_result" where
  "validate_virtual_metric_cooldown r =
     (if \<not> uses_virtual (condition r) then Inr ()
      else if cooldown r < MIN_VIRTUAL_METRIC_COOLDOWN
      then Inl (''Rules using virtual metrics ('' @ join '', '' VIRTUAL_METRICS @ '') must set cooldown >= ''
                @ show_nat (as_millis MIN_VIRTUAL_METRIC_COOLDOWN) @ '' ms (got '' @ show_nat (as_millis (cooldown r))
                @ '' ms). Without a cooldown the rule would fire every 60 seconds.'')
      else Inr ())"

section \<open>What an accepted rule satisfies\<close>

fun comparison_ok :: "validation_context \<Rightarrow> data_source_id \<Rightarrow> bool" where
  "comparison_ok ctx src =
     (case source_type src of
        Device \<Rightarrow>
          (case get_device (source_id src) ctx of
             None \<Rightarrow> False
           | Some d \<Rightarrow> field_path src \<in> set VIRTUAL_METRICS \<or> field_path src \<in> mi_name ` set (di_metrics d))
      | Extension \<Rightarrow> True
      | Transform \<Rightarrow> source_id src \<noteq> [])"

fun condition_ok :: "validation_context \<Rightarrow> rule_condition \<Rightarrow> bool" where
  "condition_ok ctx (Comparison src _ _ _) = comparison_ok ctx src"
| "condition_ok ctx (Range src mn mx) = (\<not> f64_lt mx mn \<and> source_id src \<noteq> [])"
| "condition_ok ctx (Logical _ cs) = list_all (condition_ok ctx) cs"

fun action_ok :: "validation_context \<Rightarrow> rule_action \<Rightarrow> bool" where
  "action_ok ctx (Notify message _) = (message \<noteq> [])"
| "action_ok ctx (Execute tgt TargetDevice command ps) =
     (case get_device tgt ctx of
        None \<Rightarrow> False
      | Some d \<Rightarrow>
          (case find (\<lambda>c. cmd_name c = command) (di_commands d) of
             None \<Rightarrow> False
           | Some info \<Rightarrow>
               (case as_object ps of
                  None \<Rightarrow> True
                | Some obj \<Rightarrow> list_all (\<lambda>p. pi_required p \<longrightarrow> hm_contains obj (pi_name p)) (cmd_parameters info))))"
| "action_ok ctx (Execute tgt TargetExtension command ps) = (tgt \<noteq> [])"
| "action_ok ctx (TriggerAgent agent_id _ _) = (agent_id \<noteq> [])"

definition no_errors :: "(validation_error, validation_issue list) rust_result \<Rightarrow> bool" where
  "no_errors r = (case r of Inr is \<Rightarrow> \<not> list_ex (\<lambda>i. vi_severity i = SevError) is | Inl _ \<Rightarrow> False)"

lemma sort_issues_errors: "fst (sort_issues env fld r) = [] \<longleftrightarrow> no_errors r"
  by (cases r) (auto simp: sort_issues_def no_errors_def filter_empty_conv list_ex_iff)

lemma no_errors_and_then:
  "no_errors (and_then r (\<lambda>is. and_then q (\<lambda>js. Inr (is @ js)))) \<longleftrightarrow> no_errors r \<and> no_errors q"
  by (cases r; cases q) (auto simp: no_errors_def list_ex_iff)

lemma no_errors_prefix:
  "list_all (\<lambda>i. vi_severity i \<noteq> SevError) pre \<Longrightarrow> no_errors (and_then r (\<lambda>is. Inr (pre @ is))) \<longleftrightarrow> no_errors r"
  by (cases r) (auto simp: no_errors_def list_ex_iff list_all_iff)

lemma validate_comparison_ok: "no_errors (validate_comparison env src op t ctx) \<longleftrightarrow> comparison_ok ctx src"
proof (cases "source_type src")
  case Device
  have warn: "no_errors (Inr (threshold_issues env mi t))" for mi
    by (auto simp: no_errors_def threshold_issues_def issue_def list_ex_iff split: option.splits)
  show ?thesis
  proof (cases "get_device (source_id src) ctx")
    case None
    with Device show ?thesis
      by (simp add: validate_comparison_def validate_simple_condition_def validate_virtual_metric_condition_def no_errors_def)
  next
    case (Some d)
    show ?thesis
    proof (cases "find (\<lambda>m. mi_name m = field_path src) (di_metrics d)")
      case None
      then have "field_path src \<notin> mi_name ` set (di_metrics d)" by (auto simp: find_None_iff)
      with Device Some None show ?thesis
        by (auto simp: validate_comparison_def validate_simple_condition_def validate_virtual_metric_condition_def
            no_errors_def issue_def)
    next
      case (Some mi)
      then have "field_path src \<in> mi_name ` set (di_metrics d)" by (auto simp: find_Some_iff image_iff) (metis nth_mem)
      with Device Some \<open>get_device (source_id src) ctx = Some d\<close> warn [of mi] show ?thesis
        by (auto simp: validate_comparison_def validate_simple_condition_def validate_virtual_metric_condition_def
            no_errors_def issue_def)
    qed
  qed
qed (auto simp: validate_comparison_def no_errors_def issue_def)

lemma validate_condition_ok:
  "no_errors (validate_condition env ctx c) \<longleftrightarrow> condition_ok ctx c"
  "no_errors (validate_conditions env ctx cs) \<longleftrightarrow> list_all (condition_ok ctx) cs"
proof (induction env ctx c and env ctx cs rule: validate_condition_validate_conditions.induct)
  case (1 env ctx src op threshold tv)
  show ?case by (simp only: validate_condition.simps condition_ok.simps validate_comparison_ok)
next
  case (2 env ctx src mn mx)
  show ?case by (simp add: no_errors_def validate_range_def issue_def)
next
  case (3 env ctx op cs)
  have "list_all (\<lambda>i. vi_severity i \<noteq> SevError) (not_arity_issues op (length cs))"
    by (simp add: not_arity_issues_def issue_def)
  with 3 show ?case by (simp add: no_errors_prefix)
next
  case (4 env ctx)
  show ?case by (simp add: no_errors_def)
next
  case (5 env ctx c cs)
  then show ?case by (simp add: no_errors_and_then)
qed

lemma validate_action_ok: "no_errors (validate_action ctx a) \<longleftrightarrow> action_ok ctx a"
  by (induction ctx a rule: validate_action.induct)
    (auto simp: no_errors_def issue_def missing_parameters_def list_ex_iff list_all_iff
      split: option.splits)

section \<open>Properties\<close>

text \<open>Validation accepts exactly the well-formed rules: the verdict is valid if and only if every
  device comparison names a known device and one of its metrics (or a virtual one), every transform
  and range has a source, no range is empty by its bounds, every message, extension target and
  agent id is non-empty, and every device command exists and, where parameters are given as an
  object, has its required ones.\<close>

lemma validation_exact:
  "vr_is_valid (validate_rule env cond acts ctx) \<longleftrightarrow>
     (case cond of None \<Rightarrow> True | Some c \<Rightarrow> condition_ok ctx c) \<and> list_all (action_ok ctx) acts"
  by (auto simp: validate_rule_def Let_def sort_issues_errors validate_condition_ok validate_action_ok
      list_all_iff split: option.splits)

end
