(* ===== verification/RulePreview.thy ===== *)
theory RulePreview
  imports RuleModels
begin

text \<open>
  The one-way text preview of a rule, \<open>heramind-rules/src/preview.rs\<close>, and
  \<open>CompiledRule::finalize\<close> of \<open>models.rs\<close>, which refreshes a rule's trigger sources and preview after an
  edit. The text of a JSON value (\<open>serde_json\<close>'s \<open>Display\<close>) is the argument \<open>fmt_json\<close>.
\<close>

section \<open>Conditions and actions as text\<close>

definition quote :: "string \<Rightarrow> string" where
  "quote s = [CHR 0x22] @ s @ [CHR 0x22]"

definition parens_if_compound :: "string \<Rightarrow> string" where
  "parens_if_compound r =
     (if CHR 0x20 \<in> set r \<and> \<not> starts_with r [CHR 0x28] then [CHR 0x28] @ r @ [CHR 0x29] else r)"

definition join_rendered :: "string \<Rightarrow> string list \<Rightarrow> string" where
  "join_rendered sep rs =
     (if length rs = 1 then hd rs else join sep (map parens_if_compound rs))"

fun render_condition :: "'r text_env \<Rightarrow> rule_condition \<Rightarrow> string" where
  "render_condition env (Comparison src op threshold threshold_value) =
     (if is_string_op op \<or> threshold_value \<noteq> None
      then storage_key src @ '' '' @ symbol op @ '' '' @ [CHR 0x27]
           @ unwrap_or threshold_value (fmt_f64 env threshold) @ [CHR 0x27]
      else storage_key src @ '' '' @ symbol op @ '' '' @ fmt_f64 env threshold)"
| "render_condition env (Range src mn mx) =
     storage_key src @ '' BETWEEN '' @ fmt_f64 env mn @ '' AND '' @ fmt_f64 env mx"
| "render_condition env (Logical And cs) = join_rendered '' AND '' (map (render_condition env) cs)"
| "render_condition env (Logical Or cs) = join_rendered '' OR '' (map (render_condition env) cs)"
| "render_condition env (Logical Not cs) =
     (case map (render_condition env) cs of
        first # _ \<Rightarrow> ''NOT ('' @ first @ '')''
      | [] \<Rightarrow> ''NOT ()'')"

fun render_severity :: "notify_severity \<Rightarrow> string" where
  "render_severity NInfo = ''INFO''"
| "render_severity NWarning = ''WARNING''"
| "render_severity NCritical = ''CRITICAL''"
| "render_severity NEmergency = ''EMERGENCY''"

definition render_params :: "(json \<Rightarrow> string) \<Rightarrow> json \<Rightarrow> string" where
  "render_params fmt_json params =
     (case as_object params of
        Some obj \<Rightarrow>
          if obj = [] then []
          else ''('' @ join '', '' (map (\<lambda>(k, v). k @ ''='' @ fmt_json v) obj) @ '')''
      | None \<Rightarrow> [])"

fun render_action :: "(json \<Rightarrow> string) \<Rightarrow> rule_action \<Rightarrow> string" where
  "render_action fmt_json (Notify message severity) =
     ''NOTIFY ['' @ render_severity severity @ ''] '' @ quote message"
| "render_action fmt_json (Execute tgt tgt_type command params) =
     ''EXECUTE '' @ (case tgt_type of TargetDevice \<Rightarrow> ''device'' | TargetExtension \<Rightarrow> ''extension'')
     @ ''.'' @ tgt @ '' '' @ command @ render_params fmt_json params"
| "render_action fmt_json (TriggerAgent agent_id input data) =
     join '' '' ([''TRIGGER AGENT '' @ agent_id]
       @ (case input of Some inp \<Rightarrow> [''INPUT '' @ quote inp] | None \<Rightarrow> [])
       @ (case data of Some d \<Rightarrow> [''DATA '' @ fmt_json d] | None \<Rightarrow> []))"

definition render_duration :: "duration \<Rightarrow> string" where
  "render_duration dur =
     (let secs = as_secs dur in
      if 60 \<le> secs \<and> 60 dvd secs then show_nat (secs div 60) @ ''min'' else show_nat secs @ ''s'')"

section \<open>Rules as text\<close>

definition to_dsl_preview :: "'r text_env \<Rightarrow> (json \<Rightarrow> string) \<Rightarrow> compiled_rule \<Rightarrow> string" where
  "to_dsl_preview env fmt_json rule =
     join [CHR 0x0A]
       ([''RULE '' @ quote (name rule)]
        @ (case trigger rule of
             DataChange _ \<Rightarrow> []
           | Schedule cron \<Rightarrow> [''ON SCHEDULE '' @ quote cron]
           | Manual \<Rightarrow> [''ON MANUAL''])
        @ (case condition rule of Some cond \<Rightarrow> [''WHEN '' @ render_condition env cond] | None \<Rightarrow> [])
        @ (case for_duration rule of Some dur \<Rightarrow> [''FOR '' @ render_duration dur] | None \<Rightarrow> [])
        @ (if actions rule \<noteq> [] then ''DO'' # map (\<lambda>a. ''    '' @ render_action fmt_json a) (actions rule) else [])
        @ [''END''])"

definition finalize :: "'r text_env \<Rightarrow> (json \<Rightarrow> string) \<Rightarrow> date_time \<Rightarrow> compiled_rule \<Rightarrow> compiled_rule" where
  "finalize env fmt_json now rule =
     (let rule = (case trigger rule of
                    DataChange _ \<Rightarrow> rule\<lparr>trigger := DataChange (sources_of (condition rule))\<rparr>
                  | Schedule _ \<Rightarrow> rule
                  | Manual \<Rightarrow> rule)
      in rule\<lparr>dsl_preview := to_dsl_preview env fmt_json rule, updated_at := now\<rparr>)"

section \<open>Lemmas\<close>

fun is_leaf :: "rule_condition \<Rightarrow> bool" where
  "is_leaf (Logical _ _) = False"
| "is_leaf _ = True"

lemma storage_key_starts: "\<not> starts_with (storage_key d @ rest) [CHR 0x28]"
  by (cases "source_type d") (simp_all add: storage_key_def)

lemma leaf_gets_parens:
  "is_leaf c \<Longrightarrow> parens_if_compound (render_condition env c) = [CHR 0x28] @ render_condition env c @ [CHR 0x29]"
  by (cases c) (auto simp: parens_if_compound_def storage_key_starts)

lemma parens_kept: "parens_if_compound ([CHR 0x28] @ s) = [CHR 0x28] @ s"
  by (simp add: parens_if_compound_def)

section \<open>Properties\<close>

text \<open>Finalizing a rule puts its trigger and preview in step with its condition: a data-change
  trigger lists exactly the sources of the condition, other triggers are kept, the stored preview is
  the preview of the finalized rule, and finalizing again only refreshes the time stamp.\<close>

lemma finalize_in_step:
  "trigger (finalize env fmt_json now r) =
     (case trigger r of DataChange _ \<Rightarrow> trigger_from_condition (condition r) | tr \<Rightarrow> tr)
   \<and> dsl_preview (finalize env fmt_json now r) = to_dsl_preview env fmt_json (finalize env fmt_json now r)
   \<and> finalize env fmt_json later (finalize env fmt_json now r) = (finalize env fmt_json now r)\<lparr>updated_at := later\<rparr>"
  by (cases "trigger r")
    (simp_all add: finalize_def trigger_from_condition_def to_dsl_preview_def Let_def)

text \<open>The preview does not determine the rule: for any three leaf conditions, "(a or b) and c"
  and "a or (b and c)" have the same preview text, although their verdicts differ whenever a holds
  and c does not.\<close>

lemma preview_ambiguous:
  assumes "is_leaf a" and "is_leaf b" and "is_leaf c"
  shows "render_condition env (Logical And [Logical Or [a, b], c]) = render_condition env (Logical Or [a, Logical And [b, c]])
    \<and> (evaluate env get a \<and> \<not> evaluate env get c \<longrightarrow>
        \<not> evaluate env get (Logical And [Logical Or [a, b], c]) \<and> evaluate env get (Logical Or [a, Logical And [b, c]]))"
  using assms parens_kept
  by (simp add: join_rendered_def leaf_gets_parens)

end
