(* ===== verification/MessageRestart.thy ===== *)
theory MessageRestart
  imports MessageManager
begin

text \<open>
  The message store is a mirror of the manager's memory: a refinement between the map the manager
  answers from and the table a restart loads. The abstract state is the map from identifiers to
  messages; the concrete one the message table of the database.
\<close>

section \<open>Runs of the manager\<close>

datatype manager_op =
    MCreate date_time date_time date_time message
  | MAcknowledge date_time uuid
  | MResolve date_time uuid
  | MArchive uuid
  | MDelete uuid
  | MDeleteMany "uuid list"
  | MAcknowledgeMany "uuid list"
  | MResolveMany "uuid list"
  | MClear
  | MCleanup date_time date_time int




definition on_store :: "('d \<Rightarrow> bool) \<Rightarrow> 'd message_manager \<Rightarrow> bool" where
  "on_store P s = (case mm_storage s of None \<Rightarrow> True | Some db \<Rightarrow> P db)"






section \<open>The mirror\<close>

fun mirrored :: "sm_codec \<Rightarrow> uuid \<Rightarrow> message option \<Rightarrow> string option \<Rightarrow> bool" where
  "mirrored cd k None v = (v = None)"
| "mirrored cd k (Some m) v =
     (msg_id m = k \<and> (\<exists>j. v = Some j \<and> sm_from_json cd j = Inr (message_to_stored m)))"

definition mirror :: "'d contents \<Rightarrow> sm_codec \<Rightarrow> (uuid, message) hash_map \<Rightarrow> 'd \<Rightarrow> bool" where
  "mirror c cd ms db \<longleftrightarrow> (\<forall>k. mirrored cd k (hm_get ms k) (c db MESSAGES_TABLE k))"



lemma sm_id_stored [simp]: "sm_id (message_to_stored m) = msg_id m"
  by (simp add: message_to_stored_def)

text \<open>The relation between a manager and its store; without a store there is nothing to relate.\<close>

definition mirrors :: "'d contents \<Rightarrow> sm_codec \<Rightarrow> 'd message_manager \<Rightarrow> bool" where
  "mirrors c cd s \<longleftrightarrow> on_store (\<lambda>db. hm_wf (mm_messages s) \<and> mirror c cd (mm_messages s) db) s"






lemma publish_mirrors [simp]: "mirrors c cd (publish_if ev s) = mirrors c cd s"
  by (simp add: mirrors_def on_store_def split: option.split)













section \<open>Restart\<close>







section \<open>Properties\<close>


definition example_manager :: "mem_db message_manager" where
  "example_manager = manager_new\<lparr>mm_storage := Some []\<rparr>"

definition example_run :: "manager_op list" where
  "example_run = [MCreate 0 0 0 (example_message Active), MResolveMany [''a''], MCleanup 9000000000 9000000001 1]"


lemmas example_defs = example_manager_env_def example_message_codec_def example_manager_def example_run_def
  example_message_def example_message_env_def message_system_def message_new_def manager_new_def registry_new_def
  message_to_stored_def mem_redb_def mem_entries_def timestamp_def


end
