(* ===== verification/Alerting.thy ===== *)
theory Alerting
  imports StatusEmitter RuleValidator RulePreview MessageRestart
begin

text \<open>
  Lemmas on the paths that cross components: from a value written to the provider to the rules the
  engine evaluates, and from a rule that fires to the message manager and its channels.
\<close>

section \<open>From the provider to the engine\<close>

lemma changed_verdict_is_source:
  assumes "uvp_room p d" and "evaluate env (get_by_source now (write_source now d v p)) c \<noteq> evaluate env (get_by_source now p) c"
  shows "d \<in> set (extract_sources c)"
proof (rule ccontr)
  assume "d \<notin> set (extract_sources c)"
  then have "cache_key_of d \<notin> cache_key_of ` set (extract_sources c)" by auto
  from uni.verdict_unaffected [OF assms(1) this] assms(2) show False by blast
qed

section \<open>From the engine to the message manager\<close>

text \<open>The message a notify action makes.\<close>

definition alert_of :: "action_oracle \<Rightarrow> string \<Rightarrow> notify_severity \<Rightarrow> message" where
  "alert_of ora body sev =
     message_alert (ao_fresh ora) (ao_now ora) (message_severity_of sev) ''Rule Triggered'' body ''rule_engine''"

lemma alert_of_fields [simp]:
  "msg_id (alert_of ora body sev) = ao_fresh ora" "msg_message (alert_of ora body sev) = body"
  "msg_severity (alert_of ora body sev) = message_severity_of sev" "msg_source_type (alert_of ora body sev) = ''system''"
  "msg_title (alert_of ora body sev) = ''Rule Triggered''" "msg_source (alert_of ora body sev) = ''rule_engine''"
  "msg_category (alert_of ora body sev) = ''alert''"
  by (simp_all add: alert_of_def message_alert_def message_new_def)

lemma execute_notify_manager:
  assumes "eng_message_manager e = Some s" and "execute_notify env ora body sev e = (res, e')"
  shows "eng_message_manager e' =
      Some (snd (create_message (en_manager env) (ao_checked ora) (ao_recorded ora) (ao_pruned ora) (alert_of ora body sev) s))"
    and "isl res \<longleftrightarrow>
      isl (fst (fst (create_message (en_manager env) (ao_checked ora) (ao_recorded ora) (ao_pruned ora) (alert_of ora body sev) s)))"
  using assms by (auto simp: execute_notify_def Let_def alert_of_def split: prod.splits sum.splits)

lemma dedup_key_alert:
  "dedup_key (alert_of o1 t1 s1) = dedup_key (alert_of o2 t2 s2)" if "message_severity_of s1 = message_severity_of s2"
  using that by (simp add: dedup_key_def)

lemma forwarded_recorded:
  assumes "hm_wf (mm_dedup_cache s)" and "snd (fst (create_message env t t' t'' m s))" and "t'' - t' < 300000000000"
  shows "hm_get (mm_dedup_cache (snd (create_message env t t' t'' m s))) (dedup_key m) = Some t'"
proof -
  have "dedup_attempt env m t t' t'' s = (True, snd (create_message env t t' t'' m s))"
    using assms(2) by (simp add: dedup_attempt_def)
  from dedup_attempt_True(2) [OF this] assms show ?thesis by (simp add: hm_get_filter)
qed

lemma sends_mean_forwarded:
  "mm_sent (snd (create_message env t t' t'' m s)) \<noteq> mm_sent s \<Longrightarrow> snd (fst (create_message env t t' t'' m s))"
  using create_message_sent [of env t t' t'' m s] by (auto split: if_splits)

section \<open>Through the action loop\<close>

text \<open>The manager after a list of actions, and the messages it keeps.\<close>

definition manager_of :: "'d rule_engine \<Rightarrow> message list \<Rightarrow> bool" where
  "manager_of e ms \<longleftrightarrow> (\<exists>s. eng_message_manager e = Some s \<and> (\<forall>m \<in> set ms. get_message (msg_id m) s = Some m))"

lemma execute_action_manager:
  assumes "eng_message_manager e = Some s" and "execute_action env ora tv ts a e = (res, e')"
  shows "\<exists>s'. eng_message_manager e' = Some s' \<and>
      (\<forall>k. get_message k s' =
        (case a of Notify body sev \<Rightarrow>
            if k = ao_fresh ora then Some (alert_of ora (substitute_placeholders body tv ts) sev) else get_message k s
         | _ \<Rightarrow> get_message k s))"
proof (cases a)
  case (Notify body sev)
  with assms(2) have "execute_notify env ora (substitute_placeholders body tv ts) sev e = (res, e')" by simp
  from execute_notify_manager(1) [OF assms(1) this] Notify show ?thesis
    by (simp add: get_message_def create_message_messages)
next
  case (Execute tgt tt command ps)
  with assms show ?thesis by (cases tt) auto
next
  case (TriggerAgent agent_id input dat)
  with assms show ?thesis by (auto split: if_splits)
qed

lemma run_actions_manager:
  assumes "eng_message_manager e = Some s" and "inj_on (\<lambda>k. ao_fresh (os k)) {n..<n + length as}"
    and "run_actions env os tv ts n as done err e = (out, e')"
  shows "\<exists>s'. eng_message_manager e' = Some s' \<and>
      (\<forall>k < length as. \<forall>body sev. as ! k = Notify body sev \<longrightarrow>
         get_message (ao_fresh (os (n + k))) s' = Some (alert_of (os (n + k)) (substitute_placeholders body tv ts) sev)) \<and>
      (\<forall>i. i \<notin> (\<lambda>k. ao_fresh (os k)) ` {n..<n + length as} \<longrightarrow> get_message i s' = get_message i s)"
  using assms
proof (induction as arbitrary: n "done" err e s)
  case (Cons a as)
  let ?ids = "(\<lambda>k. ao_fresh (os k)) ` {Suc n..<Suc n + length as}"
  obtain res e1 where ex: "execute_action env (os n) tv ts a e = (res, e1)" by (cases "execute_action env (os n) tv ts a e")
  then obtain s1 where s1: "eng_message_manager e1 = Some s1" "get_message k s1 =
      (case a of Notify body sev \<Rightarrow> if k = ao_fresh (os n) then Some (alert_of (os n) (substitute_placeholders body tv ts) sev)
         else get_message k s | _ \<Rightarrow> get_message k s)" for k
    using execute_action_manager [OF Cons.prems(1)] by blast
  have inj: "inj_on (\<lambda>k. ao_fresh (os k)) {Suc n..<Suc n + length as}"
    using Cons.prems(2) by (rule inj_on_subset) auto
  have new: "ao_fresh (os n) \<notin> ?ids" using Cons.prems(2) by (fastforce simp: inj_on_def)
  obtain done' err' where rest: "run_actions env os tv ts (Suc n) as done' err' e1 = (out, e')"
    using Cons.prems(3) ex by (cases res) auto
  from Cons.IH [OF s1(1) inj rest] obtain s' where s': "eng_message_manager e' = Some s'"
    "\<And>k body sev. k < length as \<Longrightarrow> as ! k = Notify body sev \<Longrightarrow>
       get_message (ao_fresh (os (Suc n + k))) s' = Some (alert_of (os (Suc n + k)) (substitute_placeholders body tv ts) sev)"
    "\<And>i. i \<notin> ?ids \<Longrightarrow> get_message i s' = get_message i s1"
    by blast
  have "get_message (ao_fresh (os (n + k))) s' = Some (alert_of (os (n + k)) (substitute_placeholders body tv ts) sev)"
    if "k < length (a # as)" "(a # as) ! k = Notify body sev" for k body sev
    using that s'(2) [of "k - 1" body sev] s'(3) [OF new] s1(2) by (cases k) auto
  moreover have "get_message i s' = get_message i s" if "i \<notin> (\<lambda>k. ao_fresh (os k)) ` {n..<n + length (a # as)}" for i
  proof -
    from that have "i \<noteq> ao_fresh (os n)" "i \<notin> ?ids" by auto
    with s'(3) s1(2) show ?thesis by (cases a) auto
  qed
  ultimately show ?case using s'(1) by blast
qed auto

lemma update_rule_state_manager [simp]:
  "eng_message_manager (update_rule_state_after_trigger env t i e) = eng_message_manager e"
  by (auto simp: update_rule_state_after_trigger_def persist_rule_def Let_def split: option.splits sum.splits)

lemma record_history_manager [simp]: "eng_message_manager (record_history env t res e) = eng_message_manager e"
  by (auto simp: record_history_def publish_def Let_def split: option.splits sum.splits)

lemma publish_manager [simp]: "eng_message_manager (publish ev e) = eng_message_manager e"
  by (simp add: publish_def)

lemma sustained_manager: "sustained env clk i d e = (b, e') \<Longrightarrow> eng_message_manager e' = eng_message_manager e"
  by (auto simp: sustained_def update_condition_since_def persist_rule_def Let_def
      split: option.splits sum.splits prod.splits if_splits)

lemma try_claim_manager:
  "try_claim_cooldown t t' i cd e = (b, e') \<Longrightarrow> eng_message_manager e' = eng_message_manager e"
  by (auto simp: try_claim_cooldown_def split: option.splits if_splits)

lemma fire_rule_manager:
  assumes "eng_message_manager e = Some s" and "inj_on (\<lambda>k. ao_fresh (fc_action clk k)) {..<length (actions r)}"
    and "k < length (actions r)" and "actions r ! k = Notify body sev"
  shows "\<exists>s' shown. eng_message_manager (fire_rule env clk i r c e) = Some s' \<and>
    get_message (ao_fresh (fc_action clk k)) s' = Some (alert_of (fc_action clk k) shown sev) \<and>
    shown = (case extract_trigger_value (en_text env) (fc_trigger_values clk) c of
       (_, display, source) \<Rightarrow> substitute_placeholders body display source)"
proof -
  obtain tv d src where x: "extract_trigger_value (en_text env) (fc_trigger_values clk) c = (tv, d, src)"
    by (cases "extract_trigger_value (en_text env) (fc_trigger_values clk) c")
  let ?e1 = "publish (RuleTriggered i (name r) (unwrap_or tv (f64_of_int 0)) (map action_type (actions r)) (timestamp (fc_triggered clk))) e"
  obtain dn er e2 where ra: "run_actions env (fc_action clk) d src 0 (actions r) [] None ?e1 = ((dn, er), e2)"
    by (metis surj_pair)
  have "\<exists>s'. eng_message_manager e2 = Some s' \<and>
     get_message (ao_fresh (fc_action clk k)) s' = Some (alert_of (fc_action clk k) (substitute_placeholders body d src) sev)"
    using run_actions_manager [OF _ _ ra, of s] assms by (auto simp: atLeast0LessThan)
  then show ?thesis by (simp add: fire_rule_def x ra Let_def)
qed

section \<open>Spacing of virtual-metric rules\<close>

lemma spaced_weaken:
  assumes "spaced key w adm" and "\<And>x. x \<in> set adm \<Longrightarrow> w' (key (fst x)) \<le> w (key (fst x))"
  shows "spaced key w' adm"
proof -
  have "sorted_wrt (\<lambda>(e, t, t', t'') (f, u, u', u''). key f = key e \<longrightarrow> w' (key e) \<le> u - t') adm"
    by (rule sorted_wrt_mono_rel [OF _ assms(1) [unfolded spaced_def]]) (use assms(2) in fastforce)
  then show ?thesis by (simp add: spaced_def)
qed

section \<open>Which filters accept an alert\<close>

lemma alert_filter:
  assumes "filter_matches f (alert_of ora body sev)"
  shows "source_types f = [] \<or> ''system'' \<in> set (source_types f)" "categories f = [] \<or> ''alert'' \<in> set (categories f)"
    "min_severity f \<noteq> Some Emergency"
  using assms by (cases sev; auto simp: filter_matches_def less_message_severity_def split: if_splits)+

section \<open>An engine with a message manager\<close>

definition listening_manager :: "mem_db message_manager" where
  "listening_manager = manager_new\<lparr>mm_channels := register (example_channel ''a'') registry_new\<rparr>"

definition alerting_engine :: "mem_db rule_engine" where
  "alerting_engine = example_engine\<lparr>eng_message_manager := Some listening_manager\<rparr>"

text \<open>Each action gets its own message identifier.\<close>

definition alert_clock :: fire_clock where
  "alert_clock = (clock_at 7 (Some (Number (Fin 9))))
     \<lparr>fc_action := (\<lambda>k. example_oracle\<lparr>ao_fresh := replicate (Suc k) CHR ''m''\<rparr>)\<rparr>"

lemma alert_clock_fresh: "inj_on (\<lambda>k. ao_fresh (fc_action alert_clock k)) A"
  by (auto simp: inj_on_def alert_clock_def dest: arg_cong [where f = length])

lemma alerting_engine_rule: "get_rule ''r1'' alerting_engine = Some hot_rule"
  using example_engine_rule by (simp add: alerting_engine_def get_rule_def)

lemma alerting_engine_fires: "fst (evaluate_and_fire example_engine_env alert_clock ''r1'' alerting_engine) = Inr True"
  unfolding fires_iff_should_fire should_fire_def alerting_engine_rule
  by (simp add: hot_rule_def compiled_rule_new_def alert_clock_def clock_at_def held_long_enough_def alerting_engine_def
      example_engine_def add_rule_def rebuild_all_subscriptions_def engine_new_def)

end
