(* ===== verification/EventBus.thy ===== *)
theory EventBus
  imports Events
begin

text \<open>
  The event bus of \<open>heramind-core/src/eventbus.rs\<close>: publishing, plain and filtered subscriptions, and the
  accounting of events a slow subscriber loses. The broadcast channel underneath is the crate
  \<open>tokio\<close>: its operations are a record the bus takes as an argument, and \<open>broadcast_laws\<close> names the
  documented behaviour in terms of the sequence of values sent, the oldest one still buffered and
  the position of a receiver. A channel whose buffer overflows forgets its oldest values; a receiver
  that wanted them is told how many it missed and continues with the oldest one left.

  Other tasks may publish between any two steps of a receiver. A receiving loop therefore takes a
  list of the messages that arrive before each of its calls; when the list is used up the
  call is still waiting.
\<close>

section \<open>The channel\<close>

type_synonym bus_msg = "heramind_event \<times> event_metadata"

datatype recv_answer = Got bus_msg | Lagged nat | Closed | Pending

record ('c, 'r) broadcast =
  bc_channel :: "nat \<Rightarrow> 'c"
  bc_send :: "bus_msg \<Rightarrow> 'c \<Rightarrow> bool \<times> 'c"
  bc_subscribe :: "'c \<Rightarrow> 'r \<times> 'c"
  bc_recv :: "'c \<Rightarrow> 'r \<Rightarrow> recv_answer \<times> 'r"
  bc_try_recv :: "'c \<Rightarrow> 'r \<Rightarrow> recv_answer \<times> 'r"
  bc_receiver_count :: "'c \<Rightarrow> nat"

record ('c, 'r) channel_view =
  v_sent :: "'c \<Rightarrow> bus_msg list"
  v_oldest :: "'c \<Rightarrow> nat"
  v_closed :: "'c \<Rightarrow> bool"
  v_pos :: "'r \<Rightarrow> nat"

definition answer_at :: "('c, 'r) channel_view \<Rightarrow> 'c \<Rightarrow> nat \<Rightarrow> recv_answer \<times> nat" where
  "answer_at v c p =
     (if p < v_oldest v c then (Lagged (v_oldest v c - p), v_oldest v c)
      else if p < length (v_sent v c) then (Got (v_sent v c ! p), Suc p)
      else (if v_closed v c then Closed else Pending, p))"

definition send_ok :: "('c, 'r) channel_view \<Rightarrow> bus_msg \<Rightarrow> 'c \<Rightarrow> bool \<times> 'c \<Rightarrow> bool" where
  "send_ok v m c res \<longleftrightarrow>
     v_sent v (snd res) = (if fst res then v_sent v c @ [m] else v_sent v c)
     \<and> v_oldest v c \<le> v_oldest v (snd res) \<and> v_oldest v (snd res) \<le> length (v_sent v c)
     \<and> v_closed v (snd res) = v_closed v c"

definition broadcast_laws :: "('c, 'r) broadcast \<Rightarrow> ('c, 'r) channel_view \<Rightarrow> bool" where
  "broadcast_laws bc v \<longleftrightarrow>
     (\<forall>n. v_sent v (bc_channel bc n) = [] \<and> v_oldest v (bc_channel bc n) = 0 \<and> \<not> v_closed v (bc_channel bc n)) \<and>
     (\<forall>c. v_oldest v c \<le> length (v_sent v c)) \<and>
     (\<forall>m c. send_ok v m c (bc_send bc m c)) \<and>
     (\<forall>c. case bc_subscribe bc c of (r, c') \<Rightarrow>
        v_pos v r = length (v_sent v c) \<and> v_sent v c' = v_sent v c \<and> v_oldest v c' = v_oldest v c
        \<and> v_closed v c' = v_closed v c) \<and>
     (\<forall>c r. v_pos v r \<le> length (v_sent v c) \<longrightarrow>
        apsnd (v_pos v) (bc_recv bc c r) = answer_at v c (v_pos v r)
        \<and> apsnd (v_pos v) (bc_try_recv bc c r) = answer_at v c (v_pos v r))"

section \<open>The bus\<close>

definition DEFAULT_CHANNEL_CAPACITY :: nat where
  "DEFAULT_CHANNEL_CAPACITY = 1000"

record 'c event_bus =
  eb_tx :: 'c
  eb_name :: string
  eb_total_dropped :: u64

definition bus_with_capacity :: "('c, 'r) broadcast \<Rightarrow> nat \<Rightarrow> 'c event_bus" where
  "bus_with_capacity bc capacity = \<lparr>eb_tx = bc_channel bc capacity, eb_name = ''default'', eb_total_dropped = 0\<rparr>"

definition bus_new :: "('c, 'r) broadcast \<Rightarrow> 'c event_bus" where
  "bus_new bc = bus_with_capacity bc DEFAULT_CHANNEL_CAPACITY"

definition bus_with_name :: "('c, 'r) broadcast \<Rightarrow> string \<Rightarrow> 'c event_bus" where
  "bus_with_name bc n = \<lparr>eb_tx = bc_channel bc DEFAULT_CHANNEL_CAPACITY, eb_name = n, eb_total_dropped = 0\<rparr>"

definition total_dropped_count :: "'c event_bus \<Rightarrow> u64" where
  "total_dropped_count b = eb_total_dropped b"

definition subscriber_count :: "('c, 'r) broadcast \<Rightarrow> 'c event_bus \<Rightarrow> nat" where
  "subscriber_count bc b = bc_receiver_count bc (eb_tx b)"

definition publish_with_metadata ::
    "('c, 'r) broadcast \<Rightarrow> heramind_event \<Rightarrow> event_metadata \<Rightarrow> 'c event_bus \<Rightarrow> bool \<times> 'c event_bus" where
  "publish_with_metadata bc e md b =
     (let (ok, c) = bc_send bc (e, md) (eb_tx b) in (ok, b\<lparr>eb_tx := c\<rparr>))"

definition publish_with_source ::
    "('c, 'r) broadcast \<Rightarrow> uuid \<Rightarrow> date_time \<Rightarrow> heramind_event \<Rightarrow> string \<Rightarrow> 'c event_bus \<Rightarrow> bool \<times> 'c event_bus" where
  "publish_with_source bc fresh now e source b = publish_with_metadata bc e (metadata_new fresh now source) b"

definition bus_publish ::
    "('c, 'r) broadcast \<Rightarrow> uuid \<Rightarrow> date_time \<Rightarrow> heramind_event \<Rightarrow> 'c event_bus \<Rightarrow> bool \<times> 'c event_bus" where
  "bus_publish bc fresh now e b = publish_with_source bc fresh now e ''system'' b"

text \<open>Messages published by other tasks, in order.\<close>

fun publish_all :: "('c, 'r) broadcast \<Rightarrow> bus_msg list \<Rightarrow> 'c event_bus \<Rightarrow> 'c event_bus" where
  "publish_all bc [] b = b"
| "publish_all bc ((e, md) # ms) b = publish_all bc ms (snd (publish_with_metadata bc e md b))"

section \<open>Receivers\<close>

record 'r bus_receiver =
  br_rx :: 'r
  br_dropped :: u64

definition bus_subscribe :: "('c, 'r) broadcast \<Rightarrow> 'c event_bus \<Rightarrow> 'r bus_receiver \<times> 'c event_bus" where
  "bus_subscribe bc b =
     (let (r, c) = bc_subscribe bc (eb_tx b) in (\<lparr>br_rx = r, br_dropped = 0\<rparr>, b\<lparr>eb_tx := c\<rparr>))"

text \<open>\<open>fetch_add\<close> on the shared counter of the bus.\<close>

definition count_dropped :: "nat \<Rightarrow> 'c event_bus \<Rightarrow> 'c event_bus" where
  "count_dropped n b = b\<lparr>eb_total_dropped := eb_total_dropped b + of_nat n\<rparr>"

text \<open>A call of \<open>recv\<close> returns an event, or that the bus is closed, or is still waiting.\<close>

datatype recv_outcome = Returned "bus_msg option" | Waiting

text \<open>Each round of the loop has the messages that arrive before \<open>recv\<close> and those that arrive between
  a reported lag and \<open>try_recv\<close>.\<close>

fun bus_recv ::
    "('c, 'r) broadcast \<Rightarrow> (bus_msg list \<times> bus_msg list) list \<Rightarrow> 'c event_bus \<Rightarrow> 'r bus_receiver
      \<Rightarrow> recv_outcome \<times> 'c event_bus \<times> 'r bus_receiver" where
  "bus_recv bc [] b r = (Waiting, b, r)"
| "bus_recv bc ((ms, ms') # rounds) b r =
     (let b = publish_all bc ms b; (a, x) = bc_recv bc (eb_tx b) (br_rx r); r = r\<lparr>br_rx := x\<rparr>
      in case a of
           Got m \<Rightarrow> (Returned (Some m), b, r)
         | Closed \<Rightarrow> (Returned None, b, r)
         | Pending \<Rightarrow> bus_recv bc rounds b r
         | Lagged n \<Rightarrow>
             (let r = r\<lparr>br_dropped := br_dropped r + of_nat n\<rparr>; b = publish_all bc ms' (count_dropped n b);
                  (a', x') = bc_try_recv bc (eb_tx b) (br_rx r); r = r\<lparr>br_rx := x'\<rparr>
              in case a' of
                   Got m \<Rightarrow> (Returned (Some m), b, r)
                 | _ \<Rightarrow> bus_recv bc rounds b r))"

definition bus_try_recv ::
    "('c, 'r) broadcast \<Rightarrow> 'c event_bus \<Rightarrow> 'r bus_receiver \<Rightarrow> bus_msg option \<times> 'r bus_receiver" where
  "bus_try_recv bc b r =
     (let (a, x) = bc_try_recv bc (eb_tx b) (br_rx r)
      in (case a of Got m \<Rightarrow> Some m | _ \<Rightarrow> None, r\<lparr>br_rx := x\<rparr>))"

record 'r filtered_receiver =
  fr_rx :: 'r
  fr_filter :: "heramind_event \<Rightarrow> bool"
  fr_dropped :: u64

definition subscribe_filtered ::
    "('c, 'r) broadcast \<Rightarrow> (heramind_event \<Rightarrow> bool) \<Rightarrow> 'c event_bus \<Rightarrow> 'r filtered_receiver \<times> 'c event_bus" where
  "subscribe_filtered bc f b =
     (let (r, c) = bc_subscribe bc (eb_tx b) in (\<lparr>fr_rx = r, fr_filter = f, fr_dropped = 0\<rparr>, b\<lparr>eb_tx := c\<rparr>))"

fun fr_recv ::
    "('c, 'r) broadcast \<Rightarrow> bus_msg list list \<Rightarrow> 'c event_bus \<Rightarrow> 'r filtered_receiver
      \<Rightarrow> recv_outcome \<times> 'c event_bus \<times> 'r filtered_receiver" where
  "fr_recv bc [] b r = (Waiting, b, r)"
| "fr_recv bc (ms # rounds) b r =
     (let b = publish_all bc ms b; (a, x) = bc_recv bc (eb_tx b) (fr_rx r); r = r\<lparr>fr_rx := x\<rparr>
      in case a of
           Got m \<Rightarrow> if fr_filter r (fst m) then (Returned (Some m), b, r) else fr_recv bc rounds b r
         | Closed \<Rightarrow> (Returned None, b, r)
         | Pending \<Rightarrow> fr_recv bc rounds b r
         | Lagged n \<Rightarrow> fr_recv bc rounds (count_dropped n b) (r\<lparr>fr_dropped := fr_dropped r + of_nat n\<rparr>))"

text \<open>\<open>try_recv\<close> of a filtered receiver loops as long as the channel hands out events.\<close>

partial_function (option) fr_try_recv ::
    "('c, 'r) broadcast \<Rightarrow> 'c event_bus \<Rightarrow> 'r filtered_receiver \<Rightarrow> (bus_msg option \<times> 'r filtered_receiver) option" where
  "fr_try_recv bc b r =
     (let (a, x) = bc_try_recv bc (eb_tx b) (fr_rx r); r' = r\<lparr>fr_rx := x\<rparr>
      in case a of
           Got m \<Rightarrow> if fr_filter r (fst m) then Some (Some m, r') else fr_try_recv bc b r'
         | _ \<Rightarrow> Some (None, r'))"

text \<open>The subscriptions of \<open>FilterBuilder\<close>.\<close>

definition device_events :: "('c, 'r) broadcast \<Rightarrow> 'c event_bus \<Rightarrow> 'r filtered_receiver \<times> 'c event_bus" where
  "device_events bc = subscribe_filtered bc is_device_event"

definition rule_events :: "('c, 'r) broadcast \<Rightarrow> 'c event_bus \<Rightarrow> 'r filtered_receiver \<times> 'c event_bus" where
  "rule_events bc = subscribe_filtered bc is_rule_event"

definition agent_events :: "('c, 'r) broadcast \<Rightarrow> 'c event_bus \<Rightarrow> 'r filtered_receiver \<times> 'c event_bus" where
  "agent_events bc = subscribe_filtered bc is_agent_event"

definition llm_events :: "('c, 'r) broadcast \<Rightarrow> 'c event_bus \<Rightarrow> 'r filtered_receiver \<times> 'c event_bus" where
  "llm_events bc = subscribe_filtered bc is_llm_event"

definition alert_events :: "('c, 'r) broadcast \<Rightarrow> 'c event_bus \<Rightarrow> 'r filtered_receiver \<times> 'c event_bus" where
  "alert_events bc = subscribe_filtered bc is_alert_event"

definition message_events :: "('c, 'r) broadcast \<Rightarrow> 'c event_bus \<Rightarrow> 'r filtered_receiver \<times> 'c event_bus" where
  "message_events bc = subscribe_filtered bc is_message_event"

definition tool_events :: "('c, 'r) broadcast \<Rightarrow> 'c event_bus \<Rightarrow> 'r filtered_receiver \<times> 'c event_bus" where
  "tool_events bc = subscribe_filtered bc is_tool_event"

definition extension_events :: "('c, 'r) broadcast \<Rightarrow> 'c event_bus \<Rightarrow> 'r filtered_receiver \<times> 'c event_bus" where
  "extension_events bc = subscribe_filtered bc is_extension_event"

definition is_extension_output :: "heramind_event \<Rightarrow> bool" where
  "is_extension_output e = (case e of ExtensionOutput _ _ _ _ _ _ \<Rightarrow> True | _ \<Rightarrow> False)"

definition extension_output :: "('c, 'r) broadcast \<Rightarrow> 'c event_bus \<Rightarrow> 'r filtered_receiver \<times> 'c event_bus" where
  "extension_output bc = subscribe_filtered bc is_extension_output"

definition is_extension_lifecycle :: "heramind_event \<Rightarrow> bool" where
  "is_extension_lifecycle e = (case e of ExtensionLifecycle _ _ _ _ \<Rightarrow> True | _ \<Rightarrow> False)"

definition extension_lifecycle :: "('c, 'r) broadcast \<Rightarrow> 'c event_bus \<Rightarrow> 'r filtered_receiver \<times> 'c event_bus" where
  "extension_lifecycle bc = subscribe_filtered bc is_extension_lifecycle"

definition is_from_extension :: "string \<Rightarrow> heramind_event \<Rightarrow> bool" where
  "is_from_extension target_id e = (case e of
       ExtensionOutput extension_id _ _ _ _ _ \<Rightarrow> extension_id = target_id
     | ExtensionLifecycle extension_id _ _ _ \<Rightarrow> extension_id = target_id
     | _ \<Rightarrow> False)"

definition extension_by_id ::
    "('c, 'r) broadcast \<Rightarrow> string \<Rightarrow> 'c event_bus \<Rightarrow> 'r filtered_receiver \<times> 'c event_bus" where
  "extension_by_id bc target_id = subscribe_filtered bc (is_from_extension target_id)"


section \<open>Receiving\<close>

lemma law_oldest: "broadcast_laws bc v \<Longrightarrow> v_oldest v c \<le> length (v_sent v c)"
  by (simp add: broadcast_laws_def)

lemma law_recv:
  assumes "broadcast_laws bc v" and "v_pos v r \<le> length (v_sent v c)"
  shows "bc_recv bc c r = (a, r') \<Longrightarrow> answer_at v c (v_pos v r) = (a, v_pos v r')"
    and "bc_try_recv bc c r = (a, r') \<Longrightarrow> answer_at v c (v_pos v r) = (a, v_pos v r')"
proof -
  have "apsnd (v_pos v) (bc_recv bc c r) = answer_at v c (v_pos v r)"
    and "apsnd (v_pos v) (bc_try_recv bc c r) = answer_at v c (v_pos v r)"
    using assms by (simp_all add: broadcast_laws_def)
  then show "bc_recv bc c r = (a, r') \<Longrightarrow> answer_at v c (v_pos v r) = (a, v_pos v r')"
    and "bc_try_recv bc c r = (a, r') \<Longrightarrow> answer_at v c (v_pos v r) = (a, v_pos v r')" by simp_all
qed

lemma publish_with_metadata_view:
  assumes "broadcast_laws bc v"
  shows "prefix (v_sent v (eb_tx b)) (v_sent v (eb_tx (snd (publish_with_metadata bc e md b))))
    \<and> eb_total_dropped (snd (publish_with_metadata bc e md b)) = eb_total_dropped b"
proof -
  have "send_ok v (e, md) (eb_tx b) (bc_send bc (e, md) (eb_tx b))" using assms by (simp add: broadcast_laws_def)
  then show ?thesis
    by (cases "bc_send bc (e, md) (eb_tx b)") (auto simp: publish_with_metadata_def send_ok_def split: if_splits)
qed

lemma publish_all_view:
  assumes "broadcast_laws bc v"
  shows "prefix (v_sent v (eb_tx b)) (v_sent v (eb_tx (publish_all bc ms b)))
    \<and> eb_total_dropped (publish_all bc ms b) = eb_total_dropped b"
proof (induction ms arbitrary: b)
  case (Cons m ms)
  obtain e md where m: "m = (e, md)" by (cases m)
  let ?b = "snd (publish_with_metadata bc e md b)"
  have "prefix (v_sent v (eb_tx b)) (v_sent v (eb_tx ?b))" "eb_total_dropped ?b = eb_total_dropped b"
    using publish_with_metadata_view [OF assms, of b e md] by simp_all
  with Cons [of ?b] m show ?case by (auto intro: prefix_order.trans)
qed simp

lemma count_dropped_simps [simp]:
  "eb_tx (count_dropped n b) = eb_tx b" "eb_total_dropped (count_dropped n b) = eb_total_dropped b + of_nat n"
  by (simp_all add: count_dropped_def)

definition delivered :: "recv_outcome \<Rightarrow> bus_msg list" where
  "delivered out = (case out of Returned (Some m) \<Rightarrow> [m] | _ \<Rightarrow> [])"

lemma delivered_simps [simp]:
  "delivered (Returned (Some m)) = [m]" "delivered (Returned None) = []" "delivered Waiting = []"
  by (simp_all add: delivered_def)

text \<open>What a receiver did between two states of the bus: it moved forward over \<open>n\<close> lost events that both
  counters show, over \<open>k\<close> lost events that nothing shows, and over the events it returned.\<close>

definition accounted ::
    "('c, 'r) channel_view \<Rightarrow> nat \<Rightarrow> nat \<Rightarrow> bus_msg list \<Rightarrow> 'c event_bus \<Rightarrow> nat \<Rightarrow> u64 \<Rightarrow> 'c event_bus \<Rightarrow> nat \<Rightarrow> u64 \<Rightarrow> bool" where
  "accounted v n k ds b p d b' p' d' \<longleftrightarrow>
     prefix (v_sent v (eb_tx b)) (v_sent v (eb_tx b')) \<and> p' \<le> length (v_sent v (eb_tx b'))
     \<and> p' = p + n + k + length ds \<and> subseq ds (drop p (take p' (v_sent v (eb_tx b'))))
     \<and> d' = d + of_nat n \<and> eb_total_dropped b' = eb_total_dropped b + of_nat n"

lemma take_of_prefix: "prefix xs ys \<Longrightarrow> p \<le> length xs \<Longrightarrow> take p ys = take p xs"
  by (auto simp: prefix_def)

lemma accounted_trans:
  assumes "accounted v n k ds b p d b1 p1 d1" and "accounted v n' k' ds' b1 p1 d1 b2 p2 d2"
  shows "accounted v (n + n') (k + k') (ds @ ds') b p d b2 p2 d2"
proof -
  let ?s = "v_sent v (eb_tx b2)"
  have "p1 \<le> p2" "p \<le> p1" using assms by (auto simp: accounted_def)
  have "take p2 ?s = take p1 ?s @ drop p1 (take p2 ?s)"
    using \<open>p1 \<le> p2\<close> by (metis append_take_drop_id min.absorb1 take_take)
  moreover have "length (take p1 ?s) = p1" using assms by (auto simp: accounted_def)
  ultimately have "drop p (take p2 ?s) = drop p (take p1 ?s) @ drop p1 (take p2 ?s)"
    using \<open>p \<le> p1\<close> by (metis diff_is_0_eq drop_0 drop_append)
  moreover have "take p1 ?s = take p1 (v_sent v (eb_tx b1))"
    using assms by (intro take_of_prefix) (auto simp: accounted_def)
  ultimately have "subseq (ds @ ds') (drop p (take p2 ?s))"
    using assms by (auto simp: accounted_def intro: list_emb_append_mono)
  then show ?thesis using assms by (auto simp: accounted_def intro: prefix_order.trans)
qed


lemma accounted_publish:
  assumes "broadcast_laws bc v" and "accounted v n k ds (publish_all bc ms b) p d b' p' d'"
  shows "accounted v n k ds b p d b' p' d'"
  using assms(2) publish_all_view [OF assms(1), of b ms] by (auto simp: accounted_def intro: prefix_order.trans)

text \<open>One answer of the channel moves the receiver over the events it reports or hands out.\<close>

lemma answer_cases:
  assumes "answer_at v c p = (a, p')"
  obtains (lag) n where "a = Lagged n" "p' = p + n" "p' = v_oldest v c" "0 < n"
    | (got) "a = Got (v_sent v c ! p)" "p' = Suc p" "p < length (v_sent v c)" "v_oldest v c \<le> p"
    | (idle) "a = Closed \<or> a = Pending" "p' = p" "length (v_sent v c) \<le> p"
proof (cases "p < v_oldest v c")
  case True
  with assms have "a = Lagged (v_oldest v c - p)" "p' = v_oldest v c" by (auto simp: answer_at_def)
  with True lag [of "v_oldest v c - p"] show thesis by simp
next
  case False
  with assms got idle show thesis by (auto simp: answer_at_def split: if_splits)
qed

lemma accounted_refl: "p \<le> length (v_sent v (eb_tx b)) \<Longrightarrow> accounted v 0 0 [] b p d b p d"
  by (simp add: accounted_def)

lemma accounted_lag:
  assumes "broadcast_laws bc v" and "p + n = v_oldest v (eb_tx b)"
  shows "accounted v n 0 [] b p d (count_dropped n b) (p + n) (d + of_nat n)"
  using law_oldest [OF assms(1), of "eb_tx b"] assms(2) by (simp add: accounted_def)

lemma accounted_got:
  assumes "p < length (v_sent v (eb_tx b))"
  shows "accounted v 0 0 [v_sent v (eb_tx b) ! p] b p d b (Suc p) d"
  using assms by (simp add: accounted_def take_Suc_conv_app_nth)

text \<open>An answer of \<open>try_recv\<close> is followed by no count.\<close>

lemma accounted_try:
  assumes L: "broadcast_laws bc v" and "p \<le> length (v_sent v (eb_tx b))" and "answer_at v (eb_tx b) p = (a, p')"
  shows "\<exists>k. accounted v 0 k (case a of Got m \<Rightarrow> [m] | _ \<Rightarrow> []) b p d b p' d \<and> (v_oldest v (eb_tx b) \<le> p \<longrightarrow> k = 0)"
  using assms(3)
proof (cases rule: answer_cases)
  case (lag n)
  then show ?thesis using law_oldest [OF L, of "eb_tx b"] by (intro exI [of _ n]) (auto simp: accounted_def)
next
  case got
  with accounted_got [OF got(3), of d] show ?thesis by (intro exI [of _ 0]) simp
next
  case idle
  with accounted_refl [OF assms(2), of d] show ?thesis by (intro exI [of _ 0]) auto
qed

definition unsqueezed :: "(bus_msg list \<times> bus_msg list) list \<Rightarrow> bool" where
  "unsqueezed rounds = list_all (\<lambda>(ms, ms'). ms' = []) rounds"

text \<open>A round of the loop either ends the call or leaves a state from which the next round continues.\<close>

definition recv_round ::
    "('c, 'r) broadcast \<Rightarrow> ('c, 'r) channel_view \<Rightarrow> bus_msg list \<Rightarrow> bus_msg list \<Rightarrow> 'c event_bus \<Rightarrow> 'r bus_receiver \<Rightarrow> bool" where
  "recv_round bc v ms ms' b r \<longleftrightarrow>
     (\<exists>n k ds b1 r1. accounted v n k ds b (v_pos v (br_rx r)) (br_dropped r) b1 (v_pos v (br_rx r1)) (br_dropped r1) \<and>
        (ms' = [] \<longrightarrow> k = 0) \<and>
        ((\<forall>rounds. bus_recv bc ((ms, ms') # rounds) b r = bus_recv bc rounds b1 r1) \<and> ds = [] \<or>
         (\<exists>res. (\<forall>rounds. bus_recv bc ((ms, ms') # rounds) b r = (Returned res, b1, r1)) \<and> ds = delivered (Returned res))))"

lemma recv_round_more:
  assumes "accounted v n k [] b (v_pos v (br_rx r)) (br_dropped r) bb (v_pos v (br_rx rr)) (br_dropped rr)" and "ms' = [] \<Longrightarrow> k = 0"
    and "\<And>rounds. bus_recv bc ((ms, ms') # rounds) b r = bus_recv bc rounds bb rr"
  shows "recv_round bc v ms ms' b r"
  using assms unfolding recv_round_def by blast

lemma recv_round_end:
  assumes "accounted v n k (delivered (Returned res)) b (v_pos v (br_rx r)) (br_dropped r) bb (v_pos v (br_rx rr)) (br_dropped rr)"
    and "ms' = [] \<Longrightarrow> k = 0" and "\<And>rounds. bus_recv bc ((ms, ms') # rounds) b r = (Returned res, bb, rr)"
  shows "recv_round bc v ms ms' b r"
  using assms unfolding recv_round_def by blast

lemma recv_round_lagged:
  assumes L: "broadcast_laws bc v" and a: "bc_recv bc (eb_tx (publish_all bc ms b)) (br_rx r) = (Lagged n, x)"
    and x: "v_pos v x = v_pos v (br_rx r) + n" "v_pos v x = v_oldest v (eb_tx (publish_all bc ms b))"
  shows "recv_round bc v ms ms' b r"
proof -
  let ?b1 = "count_dropped n (publish_all bc ms b)" and ?d = "br_dropped r + of_nat n"
  let ?b = "publish_all bc ms' ?b1"
  have acc: "accounted v n 0 [] b (v_pos v (br_rx r)) (br_dropped r) ?b1 (v_pos v x) ?d"
    using accounted_publish [OF L accounted_lag [OF L]] x by metis
  then have "v_pos v x \<le> length (v_sent v (eb_tx ?b1))" by (simp add: accounted_def)
  then have p: "v_pos v x \<le> length (v_sent v (eb_tx ?b))"
    using publish_all_view [OF L, of ?b1 ms'] by (meson le_trans prefix_length_le)
  obtain a' x' where a': "bc_try_recv bc (eb_tx ?b) x = (a', x')" by fastforce
  obtain k where k: "accounted v 0 k (case a' of Got m \<Rightarrow> [m] | _ \<Rightarrow> []) ?b (v_pos v x) ?d ?b (v_pos v x') ?d"
      "v_oldest v (eb_tx ?b) \<le> v_pos v x \<longrightarrow> k = 0"
    using accounted_try [OF L p law_recv(2) [OF L p a']] by blast
  have acc': "accounted v n k (case a' of Got m \<Rightarrow> [m] | _ \<Rightarrow> []) b (v_pos v (br_rx r)) (br_dropped r) ?b (v_pos v x') ?d"
    using accounted_trans [OF acc accounted_publish [OF L k(1)]] by simp
  have none: "ms' = [] \<Longrightarrow> k = 0" using k(2) x(2) by simp
  show ?thesis
  proof (cases a')
    case (Got m)
    with a a' acc' none show ?thesis
      by (intro recv_round_end [where rr = "r\<lparr>br_dropped := ?d, br_rx := x'\<rparr>" and bb = ?b and res = "Some m" and k = k and n = n])
        (simp_all add: Let_def)
  qed (use a a' acc' none in \<open>auto simp: Let_def intro!: recv_round_more [where rr = "r\<lparr>br_dropped := ?d, br_rx := x'\<rparr>"
        and bb = ?b and k = k and n = n]\<close>)
qed

lemma recv_round_always:
  assumes L: "broadcast_laws bc v" and "v_pos v (br_rx r) \<le> length (v_sent v (eb_tx b))"
  shows "recv_round bc v ms ms' b r"
proof -
  let ?b = "publish_all bc ms b"
  have p: "v_pos v (br_rx r) \<le> length (v_sent v (eb_tx ?b))"
    using assms(2) publish_all_view [OF L, of b ms] by (meson le_trans prefix_length_le)
  obtain a x where a: "bc_recv bc (eb_tx ?b) (br_rx r) = (a, x)" by fastforce
  have "answer_at v (eb_tx ?b) (v_pos v (br_rx r)) = (a, v_pos v x)" using law_recv(1) [OF L p a] .
  then show ?thesis
  proof (cases rule: answer_cases)
    case (lag n)
    with a show ?thesis by (intro recv_round_lagged [OF L]) auto
  next
    case got
    from accounted_publish [OF L accounted_got [OF got(3)]]
    have "accounted v 0 0 [v_sent v (eb_tx ?b) ! v_pos v (br_rx r)] b (v_pos v (br_rx r)) (br_dropped r) ?b (v_pos v x) (br_dropped r)"
      using got(2) by simp
    with a got show ?thesis
      by (intro recv_round_end [where rr = "r\<lparr>br_rx := x\<rparr>" and bb = ?b
            and res = "Some (v_sent v (eb_tx ?b) ! v_pos v (br_rx r))"]) (simp_all add: Let_def)
  next
    case idle
    from accounted_publish [OF L accounted_refl [OF p]]
    have acc: "accounted v 0 0 [] b (v_pos v (br_rx r)) (br_dropped r) ?b (v_pos v x) (br_dropped r)" using idle by simp
    show ?thesis
    proof (rule disjE [OF idle(1)])
      assume "a = Closed"
      with acc a show ?thesis
        by (intro recv_round_end [where rr = "r\<lparr>br_rx := x\<rparr>" and bb = ?b and res = None]) (simp_all add: Let_def)
    next
      assume "a = Pending"
      with acc a show ?thesis
        by (intro recv_round_more [where rr = "r\<lparr>br_rx := x\<rparr>" and bb = ?b]) (simp_all add: Let_def)
    qed
  qed
qed

lemma bus_recv_accounted:
  assumes L: "broadcast_laws bc v" and "v_pos v (br_rx r) \<le> length (v_sent v (eb_tx b))"
    and "bus_recv bc rounds b r = (out, b', r')"
  shows "\<exists>n k. accounted v n k (delivered out) b (v_pos v (br_rx r)) (br_dropped r) b' (v_pos v (br_rx r')) (br_dropped r')
    \<and> (unsqueezed rounds \<longrightarrow> k = 0)"
  using assms(2-)
proof (induction rounds arbitrary: b r)
  case Nil
  then show ?case using accounted_refl by fastforce
next
  case (Cons round rounds)
  obtain ms ms' where round: "round = (ms, ms')" by (cases round)
  from recv_round_always [OF L Cons.prems(1), of ms ms'] obtain n k ds b1 r1 where
    acc: "accounted v n k ds b (v_pos v (br_rx r)) (br_dropped r) b1 (v_pos v (br_rx r1)) (br_dropped r1)" and k: "ms' = [] \<longrightarrow> k = 0"
    and "(\<forall>rounds. bus_recv bc ((ms, ms') # rounds) b r = bus_recv bc rounds b1 r1) \<and> ds = [] \<or>
      (\<exists>res. (\<forall>rounds. bus_recv bc ((ms, ms') # rounds) b r = (Returned res, b1, r1)) \<and> ds = delivered (Returned res))"
    unfolding recv_round_def by blast
  then show ?case
  proof (elim disjE exE conjE)
    assume "\<forall>rounds. bus_recv bc ((ms, ms') # rounds) b r = bus_recv bc rounds b1 r1" and ds: "ds = []"
    then have rest: "bus_recv bc rounds b1 r1 = (out, b', r')" using Cons.prems(2) round by simp
    have "v_pos v (br_rx r1) \<le> length (v_sent v (eb_tx b1))" using acc by (simp add: accounted_def)
    from Cons.IH [OF this rest] obtain n' k' where
      "accounted v n' k' (delivered out) b1 (v_pos v (br_rx r1)) (br_dropped r1) b' (v_pos v (br_rx r')) (br_dropped r')"
      "unsqueezed rounds \<longrightarrow> k' = 0" by blast
    with accounted_trans [OF acc this(1)] ds k round show ?thesis
      by (intro exI [of _ "n + n'"] exI [of _ "k + k'"]) (simp add: unsqueezed_def)
  next
    fix res assume "\<forall>rounds. bus_recv bc ((ms, ms') # rounds) b r = (Returned res, b1, r1)" and "ds = delivered (Returned res)"
    then show ?thesis using acc k Cons.prems(2) round by (intro exI [of _ n] exI [of _ k]) (auto simp: unsqueezed_def)
  qed
qed

text \<open>A subscriber that calls \<open>recv\<close> and \<open>try_recv\<close>, and the events it gets; others publish in between.\<close>

datatype recv_call = Recv "(bus_msg list \<times> bus_msg list) list" | TryRecv "bus_msg list"

fun bus_call ::
    "('c, 'r) broadcast \<Rightarrow> recv_call \<Rightarrow> 'c event_bus \<Rightarrow> 'r bus_receiver \<Rightarrow> bus_msg list \<times> 'c event_bus \<times> 'r bus_receiver" where
  "bus_call bc (Recv rounds) b r = (let (out, b, r) = bus_recv bc rounds b r in (delivered out, b, r))"
| "bus_call bc (TryRecv ms) b r =
     (let b = publish_all bc ms b; (m, r) = bus_try_recv bc b r in (case m of Some m \<Rightarrow> [m] | None \<Rightarrow> [], b, r))"

fun bus_recvs ::
    "('c, 'r) broadcast \<Rightarrow> recv_call list \<Rightarrow> 'c event_bus \<Rightarrow> 'r bus_receiver
      \<Rightarrow> bus_msg list \<times> 'c event_bus \<times> 'r bus_receiver" where
  "bus_recvs bc [] b r = ([], b, r)"
| "bus_recvs bc (c # calls) b r =
     (let (ds, b, r) = bus_call bc c b r; (es, b, r) = bus_recvs bc calls b r in (ds @ es, b, r))"

fun all_counted :: "recv_call \<Rightarrow> bool" where
  "all_counted (Recv rounds) = unsqueezed rounds"
| "all_counted (TryRecv ms) = False"

lemma bus_call_accounted:
  assumes L: "broadcast_laws bc v" and "v_pos v (br_rx r) \<le> length (v_sent v (eb_tx b))"
    and "bus_call bc c b r = (ds, b', r')"
  shows "\<exists>n k. accounted v n k ds b (v_pos v (br_rx r)) (br_dropped r) b' (v_pos v (br_rx r')) (br_dropped r')
    \<and> (all_counted c \<longrightarrow> k = 0)"
proof (cases c)
  case (Recv rounds)
  obtain out where "bus_recv bc rounds b r = (out, b', r')" "ds = delivered out"
    using assms(3) Recv by (cases "bus_recv bc rounds b r") auto
  with bus_recv_accounted [OF L assms(2), of rounds] Recv show ?thesis by fastforce
next
  case (TryRecv ms)
  let ?b = "publish_all bc ms b"
  have p: "v_pos v (br_rx r) \<le> length (v_sent v (eb_tx ?b))"
    using assms(2) publish_all_view [OF L, of b ms] by (meson le_trans prefix_length_le)
  obtain a x where a: "bc_try_recv bc (eb_tx ?b) (br_rx r) = (a, x)" by fastforce
  have out: "ds = (case a of Got m \<Rightarrow> [m] | _ \<Rightarrow> [])" "b' = ?b" "r' = r\<lparr>br_rx := x\<rparr>"
    using assms(3) TryRecv a by (auto simp: bus_try_recv_def Let_def split: recv_answer.splits)
  obtain k where "accounted v 0 k ds ?b (v_pos v (br_rx r)) (br_dropped r) ?b (v_pos v x) (br_dropped r)"
    using accounted_try [OF L p law_recv(2) [OF L p a]] out(1) by blast
  from accounted_publish [OF L this] out TryRecv show ?thesis by (intro exI [of _ 0] exI [of _ k]) simp
qed

lemma bus_recvs_accounted:
  assumes L: "broadcast_laws bc v" and "v_pos v (br_rx r) \<le> length (v_sent v (eb_tx b))"
    and "bus_recvs bc calls b r = (ds, b', r')"
  shows "\<exists>n k. accounted v n k ds b (v_pos v (br_rx r)) (br_dropped r) b' (v_pos v (br_rx r')) (br_dropped r')
    \<and> (list_all all_counted calls \<longrightarrow> k = 0)"
  using assms(2-)
proof (induction calls arbitrary: b r ds)
  case Nil
  then show ?case using accounted_refl by fastforce
next
  case (Cons c calls)
  obtain es b1 r1 where o: "bus_call bc c b r = (es, b1, r1)" by (metis prod_cases3)
  obtain fs where rest: "bus_recvs bc calls b1 r1 = (fs, b', r')" and ds: "ds = es @ fs"
    using Cons.prems(2) o by (cases "bus_recvs bc calls b1 r1") auto
  from bus_call_accounted [OF L Cons.prems(1) o] obtain n k where
    acc: "accounted v n k es b (v_pos v (br_rx r)) (br_dropped r) b1 (v_pos v (br_rx r1)) (br_dropped r1)" "all_counted c \<longrightarrow> k = 0"
    by blast
  then have "v_pos v (br_rx r1) \<le> length (v_sent v (eb_tx b1))" by (simp add: accounted_def)
  from Cons.IH [OF this rest] obtain n' k' where
    "accounted v n' k' fs b1 (v_pos v (br_rx r1)) (br_dropped r1) b' (v_pos v (br_rx r')) (br_dropped r')"
    "list_all all_counted calls \<longrightarrow> k' = 0" by blast
  with accounted_trans [OF acc(1) this(1)] acc(2) ds show ?case
    by (intro exI [of _ "n + n'"] exI [of _ "k + k'"]) simp
qed

section \<open>A channel that satisfies the laws\<close>

text \<open>A buffer of fixed capacity over the sequence of everything sent; receivers are positions in it.\<close>

record ring =
  rg_capacity :: nat
  rg_log :: "bus_msg list"
  rg_receivers :: nat

definition ring_oldest :: "ring \<Rightarrow> nat" where
  "ring_oldest c = length (rg_log c) - max 1 (rg_capacity c)"

definition ring_view :: "(ring, nat) channel_view" where
  "ring_view = \<lparr>v_sent = rg_log, v_oldest = ring_oldest, v_closed = (\<lambda>_. False), v_pos = (\<lambda>p. p)\<rparr>"

definition ring_broadcast :: "(ring, nat) broadcast" where
  "ring_broadcast =
     \<lparr>bc_channel = (\<lambda>n. \<lparr>rg_capacity = n, rg_log = [], rg_receivers = 0\<rparr>),
      bc_send = (\<lambda>m c. if rg_receivers c = 0 then (False, c) else (True, c\<lparr>rg_log := rg_log c @ [m]\<rparr>)),
      bc_subscribe = (\<lambda>c. (length (rg_log c), c\<lparr>rg_receivers := Suc (rg_receivers c)\<rparr>)),
      bc_recv = answer_at ring_view, bc_try_recv = answer_at ring_view, bc_receiver_count = rg_receivers\<rparr>"

lemma ring_broadcast_laws: "broadcast_laws ring_broadcast ring_view"
  by (auto simp: broadcast_laws_def send_ok_def ring_broadcast_def ring_view_def ring_oldest_def apsnd_def map_prod_def)

section \<open>Properties of the bus\<close>

text \<open>C22. The events a subscriber gets by any calls of \<open>recv\<close> and \<open>try_recv\<close>, while other tasks publish, are a
  subsequence, in publication order, of those published since it subscribed. Of the events it passed over
  its own counter and the growth of the bus-wide counter show the same number, never too many; the rest are
  lost where a lag is discarded: by a \<open>try_recv\<close>, or by the retry inside \<open>recv\<close> when others publish between the
  report of a lag and the retry. A subscriber that only calls \<open>recv\<close> and meets no such publication is told of
  every event it lost.\<close>

theorem bus_loss_is_counted:
  assumes "broadcast_laws bc v" and "bus_subscribe bc b = (r, b0)" and "bus_recvs bc calls b0 r = (ds, b', r')"
  shows "\<exists>n k. subseq ds (drop (length (v_sent v (eb_tx b))) (take (v_pos v (br_rx r')) (v_sent v (eb_tx b'))))
    \<and> v_pos v (br_rx r') = length (v_sent v (eb_tx b)) + n + k + length ds
    \<and> v_pos v (br_rx r') \<le> length (v_sent v (eb_tx b'))
    \<and> br_dropped r' = of_nat n \<and> eb_total_dropped b' = eb_total_dropped b + of_nat n
    \<and> (list_all all_counted calls \<longrightarrow> k = 0)"
proof -
  obtain x c where sub: "bc_subscribe bc (eb_tx b) = (x, c)" by fastforce
  with assms(1) have x: "v_pos v x = length (v_sent v (eb_tx b))" "v_sent v c = v_sent v (eb_tx b)"
    by (auto simp: broadcast_laws_def split: prod.splits)
  from sub assms(2) have r: "r = \<lparr>br_rx = x, br_dropped = 0\<rparr>" "b0 = b\<lparr>eb_tx := c\<rparr>" by (simp_all add: bus_subscribe_def)
  with x have "v_pos v (br_rx r) \<le> length (v_sent v (eb_tx b0))" by simp
  from bus_recvs_accounted [OF assms(1) this assms(3)] obtain n k where
    "accounted v n k ds b0 (v_pos v (br_rx r)) (br_dropped r) b' (v_pos v (br_rx r')) (br_dropped r')"
    "list_all all_counted calls \<longrightarrow> k = 0" by blast
  with r x show ?thesis by - (rule exI [of _ n], rule exI [of _ k], auto simp: accounted_def)
qed

definition example_msg :: "int \<Rightarrow> bus_msg" where
  "example_msg t = (DeviceOnline ''d'' ''sensor'' t, metadata_new ''e'' 0 ''system'')"

theorem bus_loss_is_counted_witness:
  "\<exists>b' r' n. bus_recvs ring_broadcast [Recv [([example_msg 1, example_msg 2, example_msg 3], [])]]
       (snd (bus_subscribe ring_broadcast (bus_with_capacity ring_broadcast 2)))
       (fst (bus_subscribe ring_broadcast (bus_with_capacity ring_broadcast 2))) = ([example_msg 2], b', r')
     \<and> v_pos ring_view (br_rx r') = n + length [example_msg 2] \<and> br_dropped r' = of_nat n
     \<and> eb_total_dropped b' = of_nat n"
proof -
  let ?s = "bus_subscribe ring_broadcast (bus_with_capacity ring_broadcast 2)"
    and ?calls = "[Recv [([example_msg 1, example_msg 2, example_msg 3], [])]]"
  obtain ds b' r' where run: "bus_recvs ring_broadcast ?calls (snd ?s) (fst ?s) = (ds, b', r')" by (metis prod_cases3)
  have "ds = [example_msg 2]"
    using run by (simp add: bus_subscribe_def bus_with_capacity_def ring_broadcast_def example_msg_def
        publish_with_metadata_def answer_at_def ring_view_def ring_oldest_def Let_def numeral_2_eq_2)
  with run bus_loss_is_counted [OF ring_broadcast_laws _ run, of "bus_with_capacity ring_broadcast 2"]
  show ?thesis
    by (auto simp: unsqueezed_def bus_with_capacity_def ring_view_def ring_broadcast_def)
qed

section \<open>Filtered receivers\<close>

lemma fr_recv_unlagged:
  assumes L: "broadcast_laws bc v" and "v_oldest v (eb_tx b) \<le> v_pos v (fr_rx r)" and "v_pos v (fr_rx r) \<le> length (v_sent v (eb_tx b))"
    and "find (\<lambda>m. fr_filter r (fst m)) (drop (v_pos v (fr_rx r)) (v_sent v (eb_tx b))) = Some m"
    and "length (v_sent v (eb_tx b)) - v_pos v (fr_rx r) \<le> n"
  shows "\<exists>r'. fr_recv bc (replicate n []) b r = (Returned (Some m), b, r') \<and> fr_dropped r' = fr_dropped r"
  using assms(2-)
proof (induction n arbitrary: r)
  case (Suc n)
  let ?p = "v_pos v (fr_rx r)" and ?s = "v_sent v (eb_tx b)"
  obtain a x where a: "bc_recv bc (eb_tx b) (fr_rx r) = (a, x)" by fastforce
  have "?p < length ?s" using Suc.prems(3) by (metis drop_all find.simps(1) not_le option.distinct(1))
  then have "a = Got (?s ! ?p)" "v_pos v x = Suc ?p"
    using law_recv(1) [OF L Suc.prems(2) a] Suc.prems(1) by (auto simp: answer_at_def)
  moreover have "drop ?p ?s = ?s ! ?p # drop (Suc ?p) ?s" using \<open>?p < length ?s\<close> by (simp add: Cons_nth_drop_Suc)
  ultimately show ?case
    using Suc.IH [of "r\<lparr>fr_rx := x\<rparr>"] Suc.prems a \<open>?p < length ?s\<close> by (auto simp: Let_def split: if_splits)
qed simp

text \<open>A waiting subscriber is served: if an event its filter accepts is still buffered, a call of a
  filtered \<open>recv\<close> returns within as many rounds as there are events ahead of it plus one for a
  reported lag; it returns the first such event, and events that had been overwritten before the
  call are counted.\<close>

lemma filtered_recv_returns:
  assumes "broadcast_laws bc v" and "v_pos v (fr_rx r) \<le> length (v_sent v (eb_tx b))"
    and "find (\<lambda>m. fr_filter r (fst m)) (drop (max (v_pos v (fr_rx r)) (v_oldest v (eb_tx b))) (v_sent v (eb_tx b))) = Some m"
    and "length (v_sent v (eb_tx b)) - v_pos v (fr_rx r) < n"
  shows "\<exists>b' r'. fr_recv bc (replicate n []) b r = (Returned (Some m), b', r')
    \<and> fr_dropped r' = fr_dropped r + of_nat (v_oldest v (eb_tx b) - v_pos v (fr_rx r))
    \<and> eb_total_dropped b' = eb_total_dropped b + of_nat (v_oldest v (eb_tx b) - v_pos v (fr_rx r))"
proof (cases "v_pos v (fr_rx r) < v_oldest v (eb_tx b)")
  case True
  let ?k = "v_oldest v (eb_tx b) - v_pos v (fr_rx r)"
  obtain a x where a: "bc_recv bc (eb_tx b) (fr_rx r) = (a, x)" by fastforce
  have ax: "a = Lagged ?k" "v_pos v x = v_oldest v (eb_tx b)"
    using law_recv(1) [OF assms(1,2) a] True by (auto simp: answer_at_def)
  obtain j where n: "n = Suc j" using assms(4) by (cases n) auto
  have "\<exists>r'. fr_recv bc (replicate j []) (count_dropped ?k b) (r\<lparr>fr_rx := x, fr_dropped := fr_dropped r + of_nat ?k\<rparr>)
      = (Returned (Some m), count_dropped ?k b, r') \<and> fr_dropped r' = fr_dropped r + of_nat ?k"
    using fr_recv_unlagged [OF assms(1), of "count_dropped ?k b" "r\<lparr>fr_rx := x, fr_dropped := fr_dropped r + of_nat ?k\<rparr>" m j]
      ax True assms(3,4) n law_oldest [OF assms(1)] by (simp add: max_def)
  with a ax n show ?thesis by (auto simp: Let_def)
next
  case False
  with assms fr_recv_unlagged [OF assms(1), of b r m n] show ?thesis by (simp add: max_def) blast
qed

lemma fr_try_recv_unlagged:
  assumes L: "broadcast_laws bc v" and "v_oldest v (eb_tx b) \<le> v_pos v (fr_rx r)" and "v_pos v (fr_rx r) \<le> length (v_sent v (eb_tx b))"
  shows "\<exists>r'. fr_try_recv bc b r = Some (find (\<lambda>m. fr_filter r (fst m)) (drop (v_pos v (fr_rx r)) (v_sent v (eb_tx b))), r')
    \<and> fr_dropped r' = fr_dropped r"
  using assms(2,3)
proof (induction "length (v_sent v (eb_tx b)) - v_pos v (fr_rx r)" arbitrary: r)
  case 0
  obtain a x where a: "bc_try_recv bc (eb_tx b) (fr_rx r) = (a, x)" by fastforce
  then have "a = Closed \<or> a = Pending" using law_recv(2) [OF L "0.prems"(2) a] 0 by (auto simp: answer_at_def split: if_splits)
  with a 0 show ?case by (subst fr_try_recv.simps) auto
next
  case (Suc n)
  let ?p = "v_pos v (fr_rx r)" and ?s = "v_sent v (eb_tx b)"
  obtain a x where a: "bc_try_recv bc (eb_tx b) (fr_rx r) = (a, x)" by fastforce
  have "?p < length ?s" using Suc.hyps(2) by simp
  then have ax: "a = Got (?s ! ?p)" "v_pos v x = Suc ?p"
    using law_recv(2) [OF L Suc.prems(2) a] Suc.prems(1) by (auto simp: answer_at_def)
  have d: "drop ?p ?s = ?s ! ?p # drop (Suc ?p) ?s" using \<open>?p < length ?s\<close> by (simp add: Cons_nth_drop_Suc)
  have "\<exists>r'. fr_try_recv bc b (r\<lparr>fr_rx := x\<rparr>) = Some (find (\<lambda>m. fr_filter r (fst m)) (drop (Suc ?p) ?s), r')
      \<and> fr_dropped r' = fr_dropped r"
    using Suc.hyps(1) [of "r\<lparr>fr_rx := x\<rparr>"] Suc.hyps(2) Suc.prems ax \<open>?p < length ?s\<close> by simp
  with a ax d show ?case by (subst fr_try_recv.simps) auto
qed

text \<open>Polling always ends, but loses events without a trace: \<open>try_recv\<close> of a filtered receiver returns
  after finitely many steps; a receiver that has not been overrun gets the first buffered event its
  filter accepts, and one that has been overrun gets nothing, whatever is still buffered, is moved
  past the overwritten events, and its counter does not change.\<close>

lemma filtered_try_recv_returns:
  assumes "broadcast_laws bc v" and "v_pos v (fr_rx r) \<le> length (v_sent v (eb_tx b))"
  shows "\<exists>res r'. fr_try_recv bc b r = Some (res, r') \<and> fr_dropped r' = fr_dropped r
    \<and> (if v_pos v (fr_rx r) < v_oldest v (eb_tx b) then res = None \<and> v_pos v (fr_rx r') = v_oldest v (eb_tx b)
       else res = find (\<lambda>m. fr_filter r (fst m)) (drop (v_pos v (fr_rx r)) (v_sent v (eb_tx b))))"
proof (cases "v_pos v (fr_rx r) < v_oldest v (eb_tx b)")
  case True
  obtain a x where a: "bc_try_recv bc (eb_tx b) (fr_rx r) = (a, x)" by fastforce
  then have "\<exists>k. a = Lagged k" "v_pos v x = v_oldest v (eb_tx b)"
    using law_recv(2) [OF assms a] True by (auto simp: answer_at_def)
  with a True show ?thesis by (subst fr_try_recv.simps) auto
next
  case False
  with fr_try_recv_unlagged [OF assms(1) _ assms(2)] show ?thesis by auto
qed

end
