(* ===== verification/RuleFeed.thy ===== *)
theory RuleFeed
  imports Alerting EventBus
begin

text \<open>
  What feeds the rule engine: the background tasks \<open>init_rule_engine_events\<close> of
  \<open>heramind-api/src/server/types.rs\<close> starts. One task takes device metrics from the event bus, writes
  them to the value provider and announces them to the engine, a second does the same for the outputs
  of extensions, a third runs the rules with a schedule every 30 seconds. One turn of a loop is one
  definition. Printing of JSON values and the crate \<open>cron\<close> are parameters.
\<close>

section \<open>Device metrics\<close>

record 'd rule_feed =
  rf_provider :: unified_value_provider
  rf_engine :: "'d rule_engine"

text \<open>The readings of a turn: the times of the writes to the provider; for each of the updates it
  announces and each evaluation that follows, the times at which the provider is read (for the
  condition, and for the value shown in notifications) and the other readings.\<close>

record feed_readings =
  fd_written :: "nat \<Rightarrow> int"
  fd_read :: "nat \<Rightarrow> nat \<Rightarrow> int"
  fd_shown :: "nat \<Rightarrow> nat \<Rightarrow> int"
  fd_clocks :: "nat \<Rightarrow> nat \<Rightarrow> fire_clock"

definition provider_clock :: "feed_readings \<Rightarrow> unified_value_provider \<Rightarrow> nat \<Rightarrow> nat \<Rightarrow> fire_clock" where
  "provider_clock rd p k n =
     (fd_clocks rd k n)\<lparr>fc_values := get_by_source (fd_read rd k n) p, fc_trigger_values := get_by_source (fd_shown rd k n) p\<rparr>"

fun rule_value_of :: "(json \<Rightarrow> string) \<Rightarrow> metric_value \<Rightarrow> rule_value" where
  "rule_value_of js (Float v) = Number v"
| "rule_value_of js (Integer v) = Number (f64_of_int v)"
| "rule_value_of js (Boolean v) = Number (if v then f64_of_int 1 else f64_of_int 0)"
| "rule_value_of js (String s) = Text s"
| "rule_value_of js (Json v) = Text (js v)"

definition COMMON_PREFIXES :: "string list" where
  "COMMON_PREFIXES = [''values.'', ''value.'', ''data.'', ''telemetry.'', ''metrics.'', ''state.'']"

text \<open>The loop over the prefixes ends with the first that can be stripped.\<close>

fun first_stripped :: "string list \<Rightarrow> string \<Rightarrow> string option" where
  "first_stripped [] metric = None"
| "first_stripped (p # ps) metric =
     (case strip_prefix p metric of Some m \<Rightarrow> Some m | None \<Rightarrow> first_stripped ps metric)"

definition stripped_metric :: "string \<Rightarrow> string option" where
  "stripped_metric metric = first_stripped COMMON_PREFIXES metric"

fun write_feed ::
    "feed_readings \<Rightarrow> string \<Rightarrow> string \<Rightarrow> rule_value \<Rightarrow> unified_value_provider \<Rightarrow> unified_value_provider" where
  "write_feed rd device_id metric (Number v) p =
     (let p = update_value (fd_written rd 0) ''device'' device_id metric v p in
      case stripped_metric metric of
        Some m \<Rightarrow> update_value (fd_written rd 1) ''device'' device_id m v p
      | None \<Rightarrow> p)"
| "write_feed rd device_id metric (Text v) p =
     (let p = update_string_value (fd_written rd 0) ''device'' device_id metric v p in
      case stripped_metric metric of
        Some m \<Rightarrow> update_string_value (fd_written rd 1) ''device'' device_id m v p
      | None \<Rightarrow> p)"

text \<open>The turn of the device task for an event; the first component lists the rules that fired.\<close>

definition device_turn ::
    "('d, 'r) engine_env \<Rightarrow> (json \<Rightarrow> string) \<Rightarrow> feed_readings \<Rightarrow> heramind_event \<Rightarrow> 'd rule_feed
     \<Rightarrow> rule_id list \<times> 'd rule_feed" where
  "device_turn env js rd ev fd =
     (case ev of
        DeviceMetric device_id metric value _ _ _ \<Rightarrow>
          (let rv = rule_value_of js value;
               p = write_feed rd device_id metric rv (rf_provider fd);
               (fired, e) = on_data_update env (provider_clock rd p 0) (ds_device device_id metric) rv (rf_engine fd)
           in case stripped_metric metric of
                Some m \<Rightarrow>
                  (let (fired', e) = on_data_update env (provider_clock rd p 1) (ds_device device_id m) rv e
                   in (fired @ fired', \<lparr>rf_provider = p, rf_engine = e\<rparr>))
              | None \<Rightarrow> (fired, \<lparr>rf_provider = p, rf_engine = e\<rparr>))
      | _ \<Rightarrow> ([], fd))"

section \<open>Outputs of extensions\<close>

definition output_metric :: "string \<Rightarrow> string \<Rightarrow> string" where
  "output_metric extension_id output_name = unwrap_or (strip_prefix (extension_id @ '':'') output_name) output_name"

definition extension_turn ::
    "('d, 'r) engine_env \<Rightarrow> (json \<Rightarrow> string) \<Rightarrow> feed_readings \<Rightarrow> heramind_event \<Rightarrow> 'd rule_feed
     \<Rightarrow> rule_id list \<times> 'd rule_feed" where
  "extension_turn env js rd ev fd =
     (case ev of
        ExtensionOutput extension_id output_name value _ _ _ \<Rightarrow>
          (let metric_name = output_metric extension_id output_name;
               rv = rule_value_of js value;
               p = update_rule_value (fd_written rd 0) ''extension'' extension_id metric_name rv (rf_provider fd);
               (fired, e) = on_data_update env (provider_clock rd p 0) (ds_extension extension_id metric_name) rv (rf_engine fd)
           in (fired, \<lparr>rf_provider = p, rf_engine = e\<rparr>))
      | _ \<Rightarrow> ([], fd))"

section \<open>The tasks on the event bus\<close>

text \<open>One turn of a task: it waits for an event on its subscription (the rounds are what other tasks publish
  meanwhile) and handles it; it ends when the bus is closed.\<close>

datatype 's task_outcome = Ended | Idle 's | Handled "rule_id list" 's

fun feed_task_turn ::
    "(heramind_event \<Rightarrow> 'd rule_feed \<Rightarrow> rule_id list \<times> 'd rule_feed) \<Rightarrow> ('c, 'r) broadcast \<Rightarrow> bus_msg list list
     \<Rightarrow> 'c event_bus \<times> 'r filtered_receiver \<times> 'd rule_feed
     \<Rightarrow> ('c event_bus \<times> 'r filtered_receiver \<times> 'd rule_feed) task_outcome" where
  "feed_task_turn handle bc rounds (b, rx, fd) =
     (case fr_recv bc rounds b rx of
        (Returned (Some (ev, _)), b, rx) \<Rightarrow> (let (fired, fd) = handle ev fd in Handled fired (b, rx, fd))
      | (Returned None, b, rx) \<Rightarrow> Ended
      | (Waiting, b, rx) \<Rightarrow> Idle (b, rx, fd))"

text \<open>The start: at most once, and only when there is a bus. The flag is set first.\<close>

record ('c, 'r, 'd) feed_server =
  fs_bus :: "'c event_bus option"
  fs_initialized :: bool
  fs_engine :: "'d rule_engine"
  fs_device_task :: "'r filtered_receiver option"
  fs_extension_task :: "'r filtered_receiver option"
  fs_cron_task :: bool

definition init_rule_engine_events ::
    "('c, 'r) broadcast \<Rightarrow> ('c, 'r, 'd) feed_server \<Rightarrow> ('c, 'r, 'd) feed_server" where
  "init_rule_engine_events bc s =
     (if fs_initialized s then s
      else
        let s = s\<lparr>fs_initialized := True\<rparr> in
        case fs_bus s of
          None \<Rightarrow> s
        | Some b \<Rightarrow>
            let (rx, b) = device_events bc b; (ext_rx, b) = extension_output bc b in
            s\<lparr>fs_bus := Some b, fs_device_task := Some rx, fs_extension_task := Some ext_rx,
              fs_engine := set_agent_trigger_callback (fs_engine s), fs_cron_task := True\<rparr>)"

section \<open>Scheduled rules\<close>

text \<open>The crate: parsing an expression, and the next scheduled time after a given one.\<close>

record 's cron_lib =
  cn_parse :: "string \<Rightarrow> 's option"
  cn_next_after :: "'s \<Rightarrow> date_time \<Rightarrow> date_time option"

definition CRON_WINDOW :: int where
  "CRON_WINDOW = 30 * 1000000000"

definition schedule_due :: "'s cron_lib \<Rightarrow> date_time \<Rightarrow> string \<Rightarrow> bool" where
  "schedule_due cn now cron_expr =
     (case cn_parse cn cron_expr of
        None \<Rightarrow> False
      | Some sch \<Rightarrow>
          (case cn_next_after cn sch (now - CRON_WINDOW) of
             Some next_time \<Rightarrow> timestamp next_time \<le> timestamp now
           | None \<Rightarrow> False))"

fun run_schedules ::
    "('d, 'r) engine_env \<Rightarrow> 's cron_lib \<Rightarrow> date_time \<Rightarrow> (rule_id \<Rightarrow> fire_clock) \<Rightarrow> (rule_id \<times> string) list
     \<Rightarrow> 'd rule_engine \<Rightarrow> rule_execution_result list \<times> 'd rule_engine" where
  "run_schedules env cn now clks [] e = ([], e)"
| "run_schedules env cn now clks ((i, expr) # rs) e =
     (if schedule_due cn now expr
      then let (res, e) = execute_rule env (clks i) i e; (out, e) = run_schedules env cn now clks rs e in (res # out, e)
      else run_schedules env cn now clks rs e)"

definition cron_tick ::
    "('d, 'r) engine_env \<Rightarrow> 's cron_lib \<Rightarrow> date_time \<Rightarrow> (rule_id \<Rightarrow> fire_clock) \<Rightarrow> 'd rule_engine
     \<Rightarrow> rule_execution_result list \<times> 'd rule_engine" where
  "cron_tick env cn now clks e = run_schedules env cn now clks (list_schedule_rules e) e"

section \<open>An update fires the rules that are due\<close>

lemma should_fire_cong:
  "get_rule i e' = get_rule i e \<Longrightarrow> hm_get (cooldowns e') i = hm_get (cooldowns e) i \<Longrightarrow>
   should_fire env clk i e' = should_fire env clk i e"
  by (simp add: should_fire_def cong: option.case_cong)

lemma evaluate_all_fires:
  assumes "i \<in> set is" and "\<And>n. should_fire env (clks n) i e"
  shows "i \<in> set (fst (evaluate_all env clks n is e))"
  using assms
proof (induction "is" arbitrary: n e)
  case (Cons j js)
  obtain res e1 where ev: "evaluate_and_fire env (clks n) j e = (res, e1)" by fastforce
  obtain fired e2 where rest: "evaluate_all env clks (Suc n) js e1 = (fired, e2)" by fastforce
  show ?case
  proof (cases "j = i")
    case True
    with Cons.prems(2) [of n] ev have "res = Inr True" by (simp flip: fires_iff_should_fire)
    with True ev rest show ?thesis by simp
  next
    case False
    have "touches_only j e e1" using evaluate_and_fire_touches [of j e env "clks n"] ev by simp
    with False have "get_rule i e1 = get_rule i e" "hm_get (cooldowns e1) i = hm_get (cooldowns e) i"
      by (auto simp: touches_only_def get_rule_def)
    with Cons.prems(2) have "should_fire env (clks k) i e1" for k using should_fire_cong by blast
    with Cons.IH [of e1 "Suc n"] Cons.prems(1) False rest ev show ?thesis by auto
  qed
qed simp

lemma on_data_update_fires:
  assumes "engine_reachable env e" and "get_rule i e = Some r" and "subscribes r (storage_key src)"
    and "\<And>n. should_fire env (clks n) i e"
  shows "i \<in> set (fst (on_data_update env clks src v e))"
proof -
  have "i \<in> set (unwrap_or (hm_get (subscription_index e) (storage_key src)) [])"
    using assms(2,3) by (simp add: affected_iff [OF assms(1)])
  with evaluate_all_fires [OF this assms(4)] show ?thesis by (auto simp: on_data_update_def Let_def)
qed

lemma on_data_update_keeps:
  assumes "engine_reachable env e" and "\<And>r. get_rule i e = Some r \<Longrightarrow> \<not> subscribes r (storage_key src)"
  shows "get_rule i (snd (on_data_update env clks src v e)) = get_rule i e"
    and "hm_get (cooldowns (snd (on_data_update env clks src v e))) i = hm_get (cooldowns e) i"
  using update_frame [OF assms(1), of i src] assms(2) by (fastforce simp: subscribes_iff)+

lemma on_data_update_reachable:
  assumes "engine_reachable env e"
  shows "engine_reachable env (snd (on_data_update env clks src v e))"
  using engine_reachable.step [OF assms, of "EData clks src v"] by simp

text \<open>The names under which a metric is announced: its own, and the one without a common prefix.\<close>

definition fed_sources :: "string \<Rightarrow> string \<Rightarrow> data_source_id set" where
  "fed_sources device_id metric = ds_device device_id ` insert metric (set_option (stripped_metric metric))"

lemma device_turn_fires:
  assumes "engine_reachable env (rf_engine fd)" and "get_rule i (rf_engine fd) = Some r"
    and "src \<in> fed_sources d m" and "subscribes r (storage_key src)"
    and "\<And>k n. should_fire env (provider_clock rd (write_feed rd d m (rule_value_of js v) (rf_provider fd)) k n) i (rf_engine fd)"
  shows "i \<in> set (fst (device_turn env js rd (DeviceMetric d m v ts q vi) fd))"
proof -
  let ?rv = "rule_value_of js v" and ?e = "rf_engine fd"
  let ?p = "write_feed rd d m ?rv (rf_provider fd)"
  let ?u = "on_data_update env (provider_clock rd ?p 0) (ds_device d m) ?rv ?e"
  have fst: "fst (device_turn env js rd (DeviceMetric d m v ts q vi) fd) =
      fst ?u @ (case stripped_metric m of
         Some m' \<Rightarrow> fst (on_data_update env (provider_clock rd ?p 1) (ds_device d m') ?rv (snd ?u)) | None \<Rightarrow> [])"
    by (simp add: device_turn_def Let_def split_beta split: option.split)
  show ?thesis
  proof (cases "subscribes r (storage_key (ds_device d m))")
    case True
    with on_data_update_fires [OF assms(1,2), of "ds_device d m" "provider_clock rd ?p 0" ?rv] assms(5) fst
    show ?thesis by simp
  next
    case False
    with assms(3,4) obtain m' where m': "stripped_metric m = Some m'" "src = ds_device d m'"
      by (auto simp: fed_sources_def)
    have keeps: "get_rule i (snd ?u) = get_rule i ?e" "hm_get (cooldowns (snd ?u)) i = hm_get (cooldowns ?e) i"
      using on_data_update_keeps [OF assms(1), of i "ds_device d m"] assms(2) False by auto
    with assms(5) have "should_fire env (provider_clock rd ?p 1 n) i (snd ?u)" for n using should_fire_cong by blast
    with on_data_update_fires [OF on_data_update_reachable [OF assms(1)], where i = i and r = r and src = src] assms(2,4) keeps fst m'
    show ?thesis by simp
  qed
qed

section \<open>What a fed value is read as\<close>

lemma write_feed_is_write:
  "write_feed rd d m v p =
     (let p = write_source (fd_written rd 0) (ds_device d m) v p in
      case stripped_metric m of Some m' \<Rightarrow> write_source (fd_written rd 1) (ds_device d m') v p | None \<Rightarrow> p)"
  by (cases v) (simp_all add: update_from_data_source_id_def update_string_from_data_source_id_def ds_device_def
      Let_def cong: option.case_cong)

lemma default_ttl_write_source [simp]: "default_ttl_ms (write_source t src v p) = default_ttl_ms p"
  by (cases v) (simp_all add: update_from_data_source_id_def update_string_from_data_source_id_def update_value_def
      update_string_value_def update_rule_value_def update_rule_value_with_ttl_def Let_def)

text \<open>With room in the cache for two entries and no time to live, both names of a metric give the value
  that was fed, at any later time.\<close>

lemma fed_value_read:
  assumes "src \<in> fed_sources d m" and "default_ttl_ms p = 0" and "Suc (length (cache p)) < MAX_CACHE_ENTRIES"
  shows "get_by_source t (write_feed rd d m v p) src = Some v"
proof -
  let ?s = "ds_device d m" and ?p1 = "write_source (fd_written rd 0) (ds_device d m) v p"
  have room: "uvp_room p ?s" using assms(2,3) by (simp add: uvp_room_def)
  have c1: "cache ?p1 = hm_insert (cache_key_of ?s) (cache_entry_new (fd_written rd 0) v 0) (cache p)"
    using write_source_cache [OF room, of "fd_written rd 0" v] assms(2) by simp
  have room1: "uvp_room ?p1 s" for s
    using assms(2,3) by (simp add: uvp_room_def c1 hm_length_insert)
  have c2: "cache (write_source (fd_written rd 1) s v ?p1) = hm_insert (cache_key_of s) (cache_entry_new (fd_written rd 1) v 0) (cache ?p1)" for s
    using write_source_cache [OF room1, of "fd_written rd 1" s v] assms(2) by simp
  have read: "get_by_source t p' src = Some v" if "hm_get (cache p') (cache_key_of src) = Some (cache_entry_new t' v 0)" for p' t'
    using that by (simp add: get_by_source_def is_expired_def cache_entry_new_def)
  show ?thesis
  proof (cases "stripped_metric m")
    case None
    with assms(1) have "src = ?s" by (simp add: fed_sources_def)
    with None c1 read [of ?p1] show ?thesis by (simp add: write_feed_is_write del: write_source.simps)
  next
    case (Some m')
    let ?p2 = "write_source (fd_written rd 1) (ds_device d m') v ?p1"
    have "src = ds_device d m' \<or> src = ?s" using assms(1) Some by (auto simp: fed_sources_def)
    then have "\<exists>t'. hm_get (cache ?p2) (cache_key_of src) = Some (cache_entry_new t' v 0)"
      unfolding c2 c1 hm_get_insert by (cases "src = ds_device d m'") auto
    with read [of ?p2] show ?thesis
      by (auto simp: write_feed_is_write Some Let_def simp del: write_source.simps)
  qed
qed

section \<open>Scheduled rules\<close>

text \<open>What is relied on: the crate finds the earliest of the times of a schedule after a given time, and
  these times are whole seconds.\<close>

definition cron_laws :: "'s cron_lib \<Rightarrow> ('s \<Rightarrow> date_time set) \<Rightarrow> bool" where
  "cron_laws cn moments \<longleftrightarrow>
     (\<forall>sch t. case cn_next_after cn sch t of
        None \<Rightarrow> \<forall>u \<in> moments sch. u \<le> t
      | Some u \<Rightarrow> u \<in> moments sch \<and> t < u \<and> (\<forall>w \<in> moments sch. t < w \<longrightarrow> u \<le> w)) \<and>
     (\<forall>sch. \<forall>u \<in> moments sch. 1000000000 dvd u)"

lemma whole_second_le: "1000000000 dvd u \<Longrightarrow> timestamp u \<le> timestamp now \<longleftrightarrow> u \<le> now"
  by (auto simp: timestamp_def)

lemma schedule_due_iff:
  assumes "cron_laws cn moments"
  shows "schedule_due cn now expr \<longleftrightarrow>
    (\<exists>sch u. cn_parse cn expr = Some sch \<and> u \<in> moments sch \<and> u \<le> now \<and> now < u + CRON_WINDOW)"
proof (cases "cn_parse cn expr")
  case (Some sch)
  have next_time: "case cn_next_after cn sch (now - CRON_WINDOW) of
      None \<Rightarrow> \<forall>u \<in> moments sch. u \<le> now - CRON_WINDOW
    | Some u \<Rightarrow> u \<in> moments sch \<and> now - CRON_WINDOW < u \<and> (\<forall>w \<in> moments sch. now - CRON_WINDOW < w \<longrightarrow> u \<le> w)"
    and whole: "\<And>u. u \<in> moments sch \<Longrightarrow> 1000000000 dvd u"
    using assms by (simp_all add: cron_laws_def)
  show ?thesis
  proof (cases "cn_next_after cn sch (now - CRON_WINDOW)")
    case None
    with next_time Some show ?thesis by (fastforce simp: schedule_due_def)
  next
    case (Some u)
    with next_time have u: "u \<in> moments sch" "now - CRON_WINDOW < u" "\<And>w. w \<in> moments sch \<Longrightarrow> now - CRON_WINDOW < w \<Longrightarrow> u \<le> w"
      by auto
    have "schedule_due cn now expr \<longleftrightarrow> u \<le> now"
      using Some \<open>cn_parse cn expr = Some sch\<close> whole_second_le [OF whole [OF u(1)]] by (simp add: schedule_due_def)
    also have "\<dots> \<longleftrightarrow> (\<exists>w. w \<in> moments sch \<and> w \<le> now \<and> now < w + CRON_WINDOW)"
      using u by (metis diff_less_eq order_trans)
    finally show ?thesis using \<open>cn_parse cn expr = Some sch\<close> by simp
  qed
qed (simp add: schedule_due_def)

lemma execute_rule_id [simp]: "res_rule_id (fst (execute_rule env clk i e)) = i"
proof (cases "hm_get (eng_rules e) i")
  case (Some r)
  show ?thesis
    by (simp add: execute_rule_def Some not_executed_def run_claimed_def Let_def split_beta split: option.split)
qed (simp add: execute_rule_def not_executed_def)

text \<open>Each scheduled rule is executed once, on the state of that rule at the beginning, if it is due.\<close>

lemma run_schedules_exact:
  assumes "distinct (map fst rs)"
  shows "\<exists>e'. get_rule i e' = get_rule i e \<and> hm_get (cooldowns e') i = hm_get (cooldowns e) i \<and>
    filter (\<lambda>x. res_rule_id x = i) (fst (run_schedules env cn now clks rs e)) =
      (if \<exists>expr. (i, expr) \<in> set rs \<and> schedule_due cn now expr then [fst (execute_rule env (clks i) i e')] else [])"
  using assms
proof (induction rs arbitrary: e)
  case Nil
  show ?case by auto
next
  case (Cons rule rs)
  obtain j expr where rule: "rule = (j, expr)" by fastforce
  let ?e1 = "if schedule_due cn now expr then snd (execute_rule env (clks j) j e) else e"
  have out: "fst (run_schedules env cn now clks (rule # rs) e) =
      (if schedule_due cn now expr then [fst (execute_rule env (clks j) j e)] else []) @ fst (run_schedules env cn now clks rs ?e1)"
    by (simp add: rule split_beta)
  have keeps: "get_rule i ?e1 = get_rule i e \<and> hm_get (cooldowns ?e1) i = hm_get (cooldowns e) i" if "i \<noteq> j"
    using that execute_rule_touches [of j e env "clks j"] by (simp add: touches_only_def get_rule_def)
  obtain e' where e': "get_rule i e' = get_rule i ?e1" "hm_get (cooldowns e') i = hm_get (cooldowns ?e1) i"
    "filter (\<lambda>x. res_rule_id x = i) (fst (run_schedules env cn now clks rs ?e1)) =
      (if \<exists>expr. (i, expr) \<in> set rs \<and> schedule_due cn now expr then [fst (execute_rule env (clks i) i e')] else [])"
    using Cons.IH [of ?e1] Cons.prems by auto
  show ?case
  proof (cases "i = j")
    case True
    with Cons.prems rule have "\<nexists>x. (i, x) \<in> set rs" by force
    with True e'(3) out rule show ?thesis by (intro exI [of _ e]) auto
  next
    case False
    with keeps e' out rule show ?thesis by (intro exI [of _ e']) auto
  qed
qed

text \<open>The schedule of a rule, if it is to be watched.\<close>

definition watched_schedule :: "compiled_rule \<Rightarrow> string option" where
  "watched_schedule r = (if enabled r then (case trigger r of Schedule cron \<Rightarrow> Some cron | _ \<Rightarrow> None) else None)"

lemma watched_schedule_Some: "watched_schedule r = Some expr \<longleftrightarrow> enabled r \<and> trigger r = Schedule expr"
  by (auto simp: watched_schedule_def split: rule_trigger.splits)

lemma list_schedule_rules_watched:
  "list_schedule_rules e = List.map_filter (\<lambda>(i, r). map_option (Pair i) (watched_schedule r)) (eng_rules e)"
proof -
  have "(if enabled r then (case trigger r of Schedule cron \<Rightarrow> [(i, cron)] | _ \<Rightarrow> []) else []) =
      (case watched_schedule r of None \<Rightarrow> [] | Some cron \<Rightarrow> [(i, cron)])" for i :: rule_id and r
    by (cases "trigger r") (simp_all add: watched_schedule_def)
  moreover have "concat (map (\<lambda>(i, r). case watched_schedule r of None \<Rightarrow> [] | Some cron \<Rightarrow> [(i, cron)]) m) =
      List.map_filter (\<lambda>(i, r). map_option (Pair i) (watched_schedule r)) m" for m :: "(rule_id \<times> compiled_rule) list"
    by (induction m) (auto simp: List.map_filter_simps split: option.split)
  ultimately show ?thesis by (simp add: list_schedule_rules_def)
qed

lemma list_schedule_rules_set:
  "hm_wf (eng_rules e) \<Longrightarrow> (i, expr) \<in> set (list_schedule_rules e) \<longleftrightarrow>
    (\<exists>r. get_rule i e = Some r \<and> watched_schedule r = Some expr)"
  by (force simp: list_schedule_rules_watched List.map_filter_def get_rule_def)

lemma distinct_map_filter_keys:
  "distinct (map fst m) \<Longrightarrow> distinct (map fst (List.map_filter (\<lambda>(i, r). map_option (Pair i) (f r)) m))"
proof (induction m)
  case (Cons a m)
  have "fst ` set (List.map_filter (\<lambda>(i, r). map_option (Pair i) (f r)) m) \<subseteq> fst ` set m"
    by (force simp: List.map_filter_def)
  with Cons show ?case by (cases a; cases "f (snd a)") (auto simp: List.map_filter_simps)
qed (simp add: List.map_filter_simps)

lemma distinct_scheduled: "hm_wf (eng_rules e) \<Longrightarrow> distinct (map fst (list_schedule_rules e))"
  by (simp add: list_schedule_rules_watched distinct_map_filter_keys)

section \<open>Properties\<close>

text \<open>C4. A reading reaches the rules it concerns: when the next device event on the bus is a metric that the
  subscription has not lost, the device task takes it, writes its value to the provider and, for every rule
  whose trigger is a change of data and lists the metric, by its own name or by its name without a common
  prefix, fires the rule if the rule is due on the provider's values after the write.\<close>

theorem metric_event_fires_rules:
  assumes "broadcast_laws bc v" and "fr_filter rx = is_device_event" and "v_pos v (fr_rx rx) \<le> length (v_sent v (eb_tx b))"
    and "find (\<lambda>x. is_device_event (fst x)) (drop (max (v_pos v (fr_rx rx)) (v_oldest v (eb_tx b))) (v_sent v (eb_tx b)))
      = Some (DeviceMetric d m x ts q vi, md)"
    and "length (v_sent v (eb_tx b)) - v_pos v (fr_rx rx) < n"
    and "engine_reachable env (rf_engine fd)" and "get_rule i (rf_engine fd) = Some r"
    and "trigger r = DataChange srcs" and "src \<in> set srcs" and "src \<in> fed_sources d m"
    and "\<And>k j. should_fire env (provider_clock rd (write_feed rd d m (rule_value_of js x) (rf_provider fd)) k j) i (rf_engine fd)"
  shows "\<exists>fired b' rx' fd'. feed_task_turn (device_turn env js rd) bc (replicate n []) (b, rx, fd) = Handled fired (b', rx', fd')
    \<and> i \<in> set fired \<and> rf_provider fd' = write_feed rd d m (rule_value_of js x) (rf_provider fd)"
proof -
  have "subscribes r (storage_key src)" using assms(8,9) by (auto simp: subscribes_iff)
  from device_turn_fires [OF assms(6,7,10) this assms(11)]
  have "i \<in> set (fst (device_turn env js rd (DeviceMetric d m x ts q vi) fd))" by blast
  moreover obtain b' rx' where "fr_recv bc (replicate n []) b rx = (Returned (Some (DeviceMetric d m x ts q vi, md)), b', rx')"
    using filtered_recv_returns [OF assms(1,3) _ assms(5)] assms(2,4) by fastforce
  moreover have "rf_provider (snd (device_turn env js rd (DeviceMetric d m x ts q vi) fd)) =
      write_feed rd d m (rule_value_of js x) (rf_provider fd)"
    by (simp add: device_turn_def Let_def split_beta split: option.split)
  ultimately show ?thesis by (simp add: split_beta)
qed

text \<open>C5. A tick of the scheduler executes each enabled rule with a schedule once if one of the schedule's moments
  lies in the last thirty seconds, and no other rule; the execution sees the rule and its cooldown as they
  were before the tick, whatever rules are executed before it.\<close>

theorem tick_executes_scheduled_rules:
  assumes "cron_laws cn moments" and "engine_reachable env e"
  shows "\<exists>e'. get_rule i e' = get_rule i e \<and> hm_get (cooldowns e') i = hm_get (cooldowns e) i \<and>
    filter (\<lambda>res. res_rule_id res = i) (fst (cron_tick env cn now clks e)) =
      (if \<exists>r expr sch u. get_rule i e = Some r \<and> enabled r \<and> trigger r = Schedule expr \<and> cn_parse cn expr = Some sch
          \<and> u \<in> moments sch \<and> u \<le> now \<and> now < u + CRON_WINDOW
       then [fst (execute_rule env (clks i) i e')] else [])"
proof -
  have wf: "hm_wf (eng_rules e)" using engine_reachable_inv [OF assms(2)] by (simp add: engine_inv_def rules_wf_def)
  have "(\<exists>expr. (i, expr) \<in> set (list_schedule_rules e) \<and> schedule_due cn now expr) \<longleftrightarrow>
      (\<exists>r expr sch u. get_rule i e = Some r \<and> enabled r \<and> trigger r = Schedule expr \<and> cn_parse cn expr = Some sch
          \<and> u \<in> moments sch \<and> u \<le> now \<and> now < u + CRON_WINDOW)"
    unfolding list_schedule_rules_set [OF wf] schedule_due_iff [OF assms(1)] watched_schedule_Some by blast
  with run_schedules_exact [OF distinct_scheduled [OF wf], of i e env cn now clks]
  show ?thesis by (simp add: cron_tick_def)
qed

text \<open>The windows are those before each tick, not those between ticks: a moment between two ticks more than
  thirty seconds apart can fall into neither window, and then no tick executes the rule for it.\<close>

lemma late_tick_misses_schedule:
  assumes "cron_laws cn moments" and "cn_parse cn expr = Some sch"
    and "moments sch \<inter> {a - CRON_WINDOW<..b} = {u}" and "a < u" and "u + CRON_WINDOW \<le> b"
  shows "\<not> schedule_due cn a expr \<and> \<not> schedule_due cn b expr"
proof -
  have only: "w = u" if "w \<in> moments sch" "a - CRON_WINDOW < w" "w \<le> b" for w
  proof -
    from that have "w \<in> moments sch \<inter> {a - CRON_WINDOW<..b}" by simp
    then show ?thesis unfolding assms(3) by simp
  qed
  have "0 < CRON_WINDOW" by (simp add: CRON_WINDOW_def)
  then have ab: "a < b" using assms(4,5) by linarith
  have "\<not> schedule_due cn a expr"
  proof
    assume "schedule_due cn a expr"
    then obtain w where w: "w \<in> moments sch" "w \<le> a" "a - CRON_WINDOW < w"
      using assms(2) by (auto simp: schedule_due_iff [OF assms(1)])
    with ab have "w = u" by (intro only) auto
    with w(2) assms(4) show False by simp
  qed
  moreover have "\<not> schedule_due cn b expr"
  proof
    assume "schedule_due cn b expr"
    then obtain w where w: "w \<in> moments sch" "w \<le> b" "b < w + CRON_WINDOW"
      using assms(2) by (auto simp: schedule_due_iff [OF assms(1)])
    with ab have "w = u" by (intro only) auto
    with w(3) assms(5) show False by simp
  qed
  ultimately show ?thesis ..
qed

text \<open>A moment at second 30, ticks at 29.9999 and, a fifth of a millisecond late, at 60.0001 seconds; and
  after a tick that took long, when two ticks follow at once, a moment that both see.\<close>

definition single_moment :: "unit cron_lib" where
  "single_moment = \<lparr>cn_parse = (\<lambda>_. Some ()), cn_next_after = (\<lambda>_ t. if t < 30000000000 then Some 30000000000 else None)\<rparr>"

lemma single_moment_laws: "cron_laws single_moment (\<lambda>_. {30000000000})"
  by (auto simp: cron_laws_def single_moment_def)

lemma single_moment_parse [simp]: "cn_parse single_moment expr = Some ()"
  by (simp add: single_moment_def)

lemma ticks_miss_and_repeat:
  "\<not> schedule_due single_moment 29999900000 expr \<and> \<not> schedule_due single_moment 60000100000 expr"
  "schedule_due single_moment 40000000000 expr \<and> schedule_due single_moment 40000000001 expr"
  by (simp_all add: schedule_due_iff [OF single_moment_laws] CRON_WINDOW_def)

section \<open>The properties on an example\<close>

definition example_metric :: heramind_event where
  "example_metric = DeviceMetric ''s1'' ''values.temp'' (Float (Fin 9)) 0 None None"

definition fed_bus :: "nat filtered_receiver \<times> ring event_bus" where
  "fed_bus = (let (rx, b) = device_events ring_broadcast (bus_new ring_broadcast)
              in (rx, snd (bus_publish ring_broadcast ''e'' 0 example_metric b)))"

definition example_readings :: feed_readings where
  "example_readings = \<lparr>fd_written = (\<lambda>_. 0), fd_read = (\<lambda>_ _. 0), fd_shown = (\<lambda>_ _. 0), fd_clocks = (\<lambda>_ _. clock_at 7 None)\<rparr>"

definition example_feed :: "mem_db rule_feed" where
  "example_feed = \<lparr>rf_provider = uvp_new, rf_engine = example_engine\<rparr>"

lemma sensor_is_fed: "sensor \<in> fed_sources ''s1'' ''values.temp''"
  by (simp add: fed_sources_def sensor_def stripped_metric_def COMMON_PREFIXES_def strip_prefix_def)

theorem metric_event_fires_rules_witness:
  "\<exists>fired b' rx' fd'. feed_task_turn (device_turn example_engine_env (\<lambda>_. []) example_readings) ring_broadcast (replicate 2 [])
      (snd fed_bus, fst fed_bus, example_feed) = Handled fired (b', rx', fd') \<and> ''r1'' \<in> set fired
    \<and> rf_provider fd' = write_feed example_readings ''s1'' ''values.temp'' (Number (Fin 9)) uvp_new"
proof -
  let ?p = "write_feed example_readings ''s1'' ''values.temp'' (rule_value_of (\<lambda>_. []) (Float (Fin 9))) (rf_provider example_feed)"
  have sent: "v_sent ring_view (eb_tx (snd fed_bus)) = [(example_metric, metadata_new ''e'' 0 ''system'')]"
    "v_pos ring_view (fr_rx (fst fed_bus)) = 0" "v_oldest ring_view (eb_tx (snd fed_bus)) = 0"
    "fr_filter (fst fed_bus) = is_device_event"
    by (simp_all add: fed_bus_def device_events_def subscribe_filtered_def bus_new_def bus_with_capacity_def ring_broadcast_def
        bus_publish_def publish_with_source_def publish_with_metadata_def ring_view_def ring_oldest_def
        DEFAULT_CHANNEL_CAPACITY_def)
  have read: "get_by_source t ?p sensor = Some (Number (Fin 9))" for t
    using fed_value_read [OF sensor_is_fed, of uvp_new t example_readings "Number (Fin 9)"]
    by (simp add: example_feed_def uvp_new_def MAX_CACHE_ENTRIES_def)
  have "fc_values (provider_clock example_readings ?p k j) sensor = Some (Number (Fin 9))" for k j
    using read by (simp add: provider_clock_def del: write_feed.simps)
  moreover have "hm_get (cooldowns example_engine) ''r1'' = None"
    by (simp add: example_engine_def add_rule_def rebuild_all_subscriptions_def engine_new_def)
  ultimately have due: "should_fire example_engine_env (provider_clock example_readings ?p k j) ''r1'' (rf_engine example_feed)" for k j
    by (simp add: should_fire_def example_feed_def example_engine_rule hot_rule_def compiled_rule_new_def
        held_long_enough_def del: write_feed.simps)
  have src: "sensor \<in> set [sensor]" by simp
  have "\<exists>fired b' rx' fd'. feed_task_turn (device_turn example_engine_env (\<lambda>_. []) example_readings) ring_broadcast (replicate 2 [])
      (snd fed_bus, fst fed_bus, example_feed) = Handled fired (b', rx', fd') \<and> ''r1'' \<in> set fired
    \<and> rf_provider fd' = write_feed example_readings ''s1'' ''values.temp'' (rule_value_of (\<lambda>_. []) (Float (Fin 9))) (rf_provider example_feed)"
  proof (rule metric_event_fires_rules [OF ring_broadcast_laws sent(4) _ _ _ _ _ _ src sensor_is_fed due])
    show "engine_reachable example_engine_env (rf_engine example_feed)" "get_rule ''r1'' (rf_engine example_feed) = Some hot_rule"
      using example_engine_reachable example_engine_rule by (simp_all add: example_feed_def)
    show "trigger hot_rule = DataChange [sensor]"
      by (simp add: hot_rule_def trigger_from_condition_def sources_of_def)
    show "find (\<lambda>x. is_device_event (fst x)) (drop (max (v_pos ring_view (fr_rx (fst fed_bus))) (v_oldest ring_view (eb_tx (snd fed_bus))))
        (v_sent ring_view (eb_tx (snd fed_bus)))) =
      Some (DeviceMetric ''s1'' ''values.temp'' (Float (Fin 9)) 0 None None, metadata_new ''e'' 0 ''system'')"
      by (simp add: sent example_metric_def is_device_event_def)
  qed (simp_all add: sent)
  then show ?thesis by (simp add: example_feed_def)
qed

definition nightly_rule :: compiled_rule where
  "nightly_rule = hot_rule\<lparr>trigger := Schedule ''30 * * * * *'', condition := None\<rparr>"

definition nightly_engine :: "mem_db rule_engine" where
  "nightly_engine = snd (add_rule nightly_rule engine_new)"

theorem tick_executes_scheduled_rules_witness:
  "\<exists>e'. get_rule ''r1'' e' = Some nightly_rule \<and>
    filter (\<lambda>res. res_rule_id res = ''r1'')
      (fst (cron_tick example_engine_env single_moment 40000000000 (\<lambda>_. clock_at 7 None) nightly_engine)) =
      [fst (execute_rule example_engine_env (clock_at 7 None) ''r1'' e')]"
proof -
  have "engine_reachable example_engine_env (engine_step example_engine_env (EAdd nightly_rule) engine_new)"
    by (intro engine_reachable.step engine_reachable.start) (simp_all add: engine_new_def)
  then have reach: "engine_reachable example_engine_env nightly_engine" by (simp add: nightly_engine_def)
  have rule: "get_rule ''r1'' nightly_engine = Some nightly_rule"
    by (simp add: nightly_engine_def add_rule_def rebuild_all_subscriptions_def get_rule_def nightly_rule_def hot_rule_def
        compiled_rule_new_def)
  moreover have "enabled nightly_rule" "trigger nightly_rule = Schedule ''30 * * * * *''"
    by (simp_all add: nightly_rule_def hot_rule_def compiled_rule_new_def)
  ultimately show ?thesis
    using tick_executes_scheduled_rules [OF single_moment_laws reach, of "''r1''" 40000000000 "\<lambda>_. clock_at 7 None"]
    by (auto simp: CRON_WINDOW_def)
qed

end
