(* ===== verification/TextUtil.thy ===== *)
theory TextUtil
  imports Prelude
begin

text \<open>
  Operations on texts that several components share: \<open>str::trim\<close>, which removes the characters with
  the Unicode property \<open>White_Space\<close>, here given by their UTF-8 encodings; removal of a trailing
  character; \<open>str::find\<close> of a character; and \<open>str::parse\<close> of an unsigned number.
\<close>

section \<open>White space\<close>

definition white_space :: "string list" where
  "white_space =
     [[CHR 0x09], [CHR 0x0A], [CHR 0x0B], [CHR 0x0C], [CHR 0x0D], [CHR 0x20],
      [CHR 0xC2, CHR 0x85], [CHR 0xC2, CHR 0xA0], [CHR 0xE1, CHR 0x9A, CHR 0x80],
      [CHR 0xE2, CHR 0x80, CHR 0x80], [CHR 0xE2, CHR 0x80, CHR 0x81], [CHR 0xE2, CHR 0x80, CHR 0x82],
      [CHR 0xE2, CHR 0x80, CHR 0x83], [CHR 0xE2, CHR 0x80, CHR 0x84], [CHR 0xE2, CHR 0x80, CHR 0x85],
      [CHR 0xE2, CHR 0x80, CHR 0x86], [CHR 0xE2, CHR 0x80, CHR 0x87], [CHR 0xE2, CHR 0x80, CHR 0x88],
      [CHR 0xE2, CHR 0x80, CHR 0x89], [CHR 0xE2, CHR 0x80, CHR 0x8A], [CHR 0xE2, CHR 0x80, CHR 0xA8],
      [CHR 0xE2, CHR 0x80, CHR 0xA9], [CHR 0xE2, CHR 0x80, CHR 0xAF], [CHR 0xE2, CHR 0x81, CHR 0x9F],
      [CHR 0xE3, CHR 0x80, CHR 0x80]]"

lemma white_space_nonempty: "w \<in> set white_space \<Longrightarrow> w \<noteq> []"
  by (auto simp: white_space_def)

function trim_start :: "string \<Rightarrow> string" where
  "trim_start s =
     (case find (\<lambda>w. prefix w s) white_space of None \<Rightarrow> s | Some w \<Rightarrow> trim_start (drop (length w) s))"
  by pat_completeness auto
termination
proof (relation "measure length")
  fix s w assume "find (\<lambda>w. prefix w s) white_space = Some w"
  then have "w \<in> set white_space" "prefix w s" by (metis find_Some_iff nth_mem)+
  with white_space_nonempty [of w] show "(drop (length w) s, s) \<in> measure length" by (cases w) (auto simp: prefix_def)
qed simp

declare trim_start.simps [simp del]

function trim_end :: "string \<Rightarrow> string" where
  "trim_end s =
     (case find (\<lambda>w. suffix w s) white_space of None \<Rightarrow> s | Some w \<Rightarrow> trim_end (take (length s - length w) s))"
  by pat_completeness auto
termination
proof (relation "measure length")
  fix s w assume "find (\<lambda>w. suffix w s) white_space = Some w"
  then have "w \<in> set white_space" "suffix w s" by (metis find_Some_iff nth_mem)+
  with white_space_nonempty [of w] show "(take (length s - length w) s, s) \<in> measure length"
    by (cases w) (auto simp: suffix_def)
qed simp

declare trim_end.simps [simp del]

definition str_trim :: "string \<Rightarrow> string" where
  "str_trim s = trim_end (trim_start s)"

text \<open>A text with no white space at its ends is left alone.\<close>

definition trimmed :: "string \<Rightarrow> bool" where
  "trimmed s \<longleftrightarrow> (\<forall>w \<in> set white_space. \<not> prefix w s \<and> \<not> suffix w s)"

lemma str_trim_id: "trimmed s \<Longrightarrow> str_trim s = s"
proof -
  assume "trimmed s"
  then have "find (\<lambda>w. prefix w s) white_space = None" "find (\<lambda>w. suffix w s) white_space = None"
    by (auto simp: trimmed_def find_None_iff)
  then show ?thesis by (simp add: str_trim_def trim_start.simps [of s] trim_end.simps [of s])
qed

lemma trimmed_code [code]: "trimmed s = list_all (\<lambda>w. \<not> prefix w s \<and> \<not> suffix w s) white_space"
  by (simp add: trimmed_def list_all_iff)

section \<open>Searching and parsing\<close>

definition trim_end_matches :: "char \<Rightarrow> string \<Rightarrow> string" where
  "trim_end_matches c s = rev (dropWhile (\<lambda>x. x = c) (rev s))"

text \<open>\<open>str::find(c)\<close>: the position of the first occurrence.\<close>

fun str_find :: "char \<Rightarrow> string \<Rightarrow> nat option" where
  "str_find c [] = None"
| "str_find c (x # xs) = (if x = c then Some 0 else map_option Suc (str_find c xs))"

lemma str_find_None_iff: "str_find c s = None \<longleftrightarrow> c \<notin> set s"
  by (induction s) auto

text \<open>\<open>str::parse\<close> for a 64-bit unsigned integer: an optional plus sign and decimal digits whose value fits.\<close>

definition is_digit :: "char \<Rightarrow> bool" where
  "is_digit c = (48 \<le> (of_char c :: nat) \<and> (of_char c :: nat) \<le> 57)"

definition digits_value :: "string \<Rightarrow> nat" where
  "digits_value ds = foldl (\<lambda>n c. 10 * n + (of_char c - 48)) 0 ds"

definition parse_u64 :: "string \<Rightarrow> nat option" where
  "parse_u64 s =
     (let ds = (case s of c # cs \<Rightarrow> if c = CHR ''+'' then cs else s | [] \<Rightarrow> [])
      in if ds \<noteq> [] \<and> list_all is_digit ds \<and> digits_value ds < 2 ^ 64 then Some (digits_value ds) else None)"

lemma show_nat_digits: "c \<in> set (show_nat n) \<Longrightarrow> is_digit c"
proof (induction n rule: show_nat.induct)
  case (1 n)
  have "is_digit (char_of (k + 48))" if "k < 10" for k :: nat using that by (simp add: is_digit_def)
  with 1 show ?case by (cases "n < 10") (auto simp: show_nat.simps [of n])
qed

lemma show_int_plain: "c \<in> set (show_int i) \<Longrightarrow> is_digit c \<or> c = CHR ''-''"
  using show_nat_digits by (auto simp: show_int_def split: if_splits)

end
