(* ===== verification/Scrub.thy ===== *)
theory Scrub
  imports TextUtil
begin

text \<open>
  \<open>scrub_credentials\<close> of \<open>heramind-messages/src/manager.rs\<close>: masking of credentials in the error text
  of a channel before it is logged. Texts are the bytes of their UTF-8 encoding, on which the code's positions
  count; \<open>str::to_lowercase\<close> is an argument, since it is a table of Unicode that may change the number of bytes,
  and a slice at a position inside a character panics. The loop over one key is a function whose termination
  is proved. On ASCII texts the functions are those of the second part, about which the property is proved.
\<close>

section \<open>Searching\<close>

text \<open>\<open>str::find\<close> of a text, and of a character by a predicate with the length as default.\<close>

fun find_sub :: "string \<Rightarrow> string \<Rightarrow> nat option" where
  "find_sub n [] = (if n = [] then Some 0 else None)"
| "find_sub n (c # s) = (if prefix n (c # s) then Some 0 else map_option Suc (find_sub n s))"

definition until :: "(char \<Rightarrow> bool) \<Rightarrow> string \<Rightarrow> nat" where
  "until P s = length (takeWhile (\<lambda>c. \<not> P c) s)"

definition find_char :: "(char \<Rightarrow> bool) \<Rightarrow> string \<Rightarrow> nat option" where
  "find_char P s = (let n = until P s in if n < length s then Some n else None)"

definition is_ascii_digit :: "char \<Rightarrow> bool" where
  "is_ascii_digit c \<longleftrightarrow> (48 :: nat) \<le> of_char c \<and> of_char c \<le> (57 :: nat)"

definition is_ascii_alphanumeric :: "char \<Rightarrow> bool" where
  "is_ascii_alphanumeric c \<longleftrightarrow> is_ascii_digit c \<or> (65 :: nat) \<le> of_char c \<and> of_char c \<le> (90 :: nat)
     \<or> (97 :: nat) \<le> of_char c \<and> of_char c \<le> (122 :: nat)"

definition word_char :: "char \<Rightarrow> bool" where
  "word_char c \<longleftrightarrow> is_ascii_alphanumeric c \<or> c = CHR ''_''"

text \<open>\<open>replace_range(start..end, m)\<close>.\<close>

definition replace_range :: "nat \<Rightarrow> nat \<Rightarrow> string \<Rightarrow> string \<Rightarrow> string" where
  "replace_range start stop m out = take start out @ m @ drop stop out"

section \<open>Credentials in query parameters\<close>

definition CREDENTIAL_KEYS :: "string list" where
  "CREDENTIAL_KEYS = [''token'', ''key'', ''sign'', ''access_token'', ''api_key'', ''apikey'', ''secret'', ''password'',
     ''passwd'', ''pwd'', ''hook_id'', ''client_secret'', ''session_key'']"

text \<open>\<open>str::find\<close> of a character by a predicate that needs more than one byte: the predicate looks at the rest of
  the text. The result is the length if there is none.\<close>

fun find_end :: "(string \<Rightarrow> bool) \<Rightarrow> string \<Rightarrow> nat" where
  "find_end P [] = 0"
| "find_end P (c # s) = (if P (c # s) then 0 else Suc (find_end P s))"

definition starts_white :: "string \<Rightarrow> bool" where
  "starts_white s \<longleftrightarrow> list_ex (\<lambda>w. prefix w s) white_space"

definition ends_value :: "string \<Rightarrow> bool" where
  "ends_value s \<longleftrightarrow> s \<noteq> [] \<and> (hd s = CHR ''&'' \<or> hd s = CHR 0x27 \<or> hd s = CHR 0x22 \<or> hd s = CHR '')'') \<or> starts_white s"

text \<open>\<open>text_boundary_at\<close>: a slice at another position panics.\<close>

definition text_boundary_at :: "string \<Rightarrow> nat \<Rightarrow> bool" where
  "text_boundary_at s i \<longleftrightarrow> i = 0 \<or> i = length s
     \<or> i < length s \<and> \<not> ((128 :: nat) \<le> of_char (s ! i) \<and> of_char (s ! i) < (192 :: nat))"

definition boundary_ok :: "string \<Rightarrow> nat \<Rightarrow> bool" where
  "boundary_ok out pos \<longleftrightarrow> pos = 0 \<or> \<not> word_char (out ! (pos - 1))"

function scrub_key :: "(string \<Rightarrow> string) \<Rightarrow> string \<Rightarrow> nat \<Rightarrow> string \<Rightarrow> string call" where
  "scrub_key lower key cursor out =
     (if cursor < length out then
        if \<not> text_boundary_at out cursor then Panics
        else (case find_sub (lower (key @ ''='')) (lower (drop cursor out)) of
           None \<Rightarrow> Returns out
         | Some p \<Rightarrow>
             let pos = cursor + p; start = pos + length (key @ ''='')
             in if \<not> text_boundary_at out pos \<or> \<not> text_boundary_at out start then Panics
                else let stop = start + find_end ends_value (drop start out)
                     in if \<not> boundary_ok out pos \<or> start \<ge> stop then scrub_key lower key start out
                        else scrub_key lower key (start + 3) (replace_range start stop ''***'' out))
      else Returns out)"
  by pat_completeness auto

lemma find_end_le: "find_end P s \<le> length s"
  by (induction s) auto

lemma char_boundary_le: "text_boundary_at s i \<Longrightarrow> i \<le> length s"
  by (auto simp: text_boundary_at_def)

termination scrub_key
proof (relation "measure (\<lambda>(lower, key, cursor, out). length out - cursor)", goal_cases)
  case (2 lower key cursor out p pos start stop)
  then show ?case using char_boundary_le [of out start] by simp
next
  case (3 lower key cursor out p pos start stop)
  then show ?case
    using char_boundary_le [of out start] find_end_le [of ends_value "drop start out"] by (simp add: replace_range_def)
qed simp

declare scrub_key.simps [simp del]

section \<open>Credentials in URLs\<close>

definition scrub_userinfo :: "string \<Rightarrow> string" where
  "scrub_userinfo out =
     (case find_sub ''://'' out of
        None \<Rightarrow> out
      | Some scheme_end \<Rightarrow>
          let rest_start = scheme_end + 3
          in (case find_char (\<lambda>c. c = CHR ''@'') (drop rest_start out) of
                None \<Rightarrow> out
              | Some at \<Rightarrow>
                  let userinfo = take at (drop rest_start out)
                  in if CHR '':'' \<in> set userinfo \<and> CHR ''/'' \<notin> set userinfo
                     then replace_range rest_start (rest_start + at) ''***:***'' out else out))"

text \<open>The text after a marker, up to the first character that ends it: the last path segment of a
  Feishu webhook and the tail of a Slack webhook.\<close>

definition scrub_after :: "string \<Rightarrow> (string \<Rightarrow> bool) \<Rightarrow> string \<Rightarrow> string" where
  "scrub_after marker P out =
     (case find_sub marker out of
        None \<Rightarrow> out
      | Some pos \<Rightarrow>
          let start = pos + length marker; stop = start + find_end P (drop start out)
          in if start < stop then replace_range start stop ''***'' out else out)"

definition ends_tail :: "string \<Rightarrow> bool" where
  "ends_tail s \<longleftrightarrow> s \<noteq> [] \<and> (hd s = CHR '')'' \<or> hd s = CHR 0x27 \<or> hd s = CHR 0x22) \<or> starts_white s"

definition scrub_feishu :: "string \<Rightarrow> string" where
  "scrub_feishu out = scrub_after ''/hook/'' (\<lambda>s. s \<noteq> [] \<and> hd s = CHR ''/'' \<or> ends_tail s) out"

definition scrub_slack :: "string \<Rightarrow> string" where
  "scrub_slack out = scrub_after ''hooks.slack.com/services/'' ends_tail out"

definition scrub_telegram :: "string \<Rightarrow> string" where
  "scrub_telegram out =
     (case find_sub ''/bot'' out of
        None \<Rightarrow> out
      | Some pos \<Rightarrow>
          let rest = drop (pos + 4) out
          in (case (find_char (\<lambda>c. c = CHR '':'') rest, find_char (\<lambda>c. \<not> is_ascii_digit c) rest) of
                (Some colon, Some nondigit) \<Rightarrow>
                  if 0 < colon \<and> colon = nondigit then
                    let stop = pos + 4 + colon;
                        hash_len = until (\<lambda>c. \<not> (is_ascii_alphanumeric c \<or> c = CHR ''_'' \<or> c = CHR ''-'')) (drop (stop + 1) out)
                    in replace_range (pos + 4) (stop + 1 + hash_len) ''***'' out
                  else out
              | _ \<Rightarrow> out))"

definition scrub_keys :: "(string \<Rightarrow> string) \<Rightarrow> string \<Rightarrow> string call" where
  "scrub_keys lower err = fold (\<lambda>key out. call_then out (scrub_key lower key 0)) CREDENTIAL_KEYS (Returns err)"

definition scrub_credentials :: "(string \<Rightarrow> string) \<Rightarrow> string \<Rightarrow> string call" where
  "scrub_credentials lower err =
     call_then (scrub_keys lower err) (\<lambda>out. Returns (scrub_telegram (scrub_slack (scrub_feishu (scrub_userinfo out)))))"

section \<open>The functions on ASCII texts\<close>

text \<open>There every byte is a character, lower-casing acts on single bytes, and no slice panics.\<close>

definition is_whitespace :: "char \<Rightarrow> bool" where
  "is_whitespace c \<longleftrightarrow> c \<in> {CHR 0x09, CHR 0x0A, CHR 0x0B, CHR 0x0C, CHR 0x0D, CHR 0x20}"

definition value_end :: "char \<Rightarrow> bool" where
  "value_end c \<longleftrightarrow> c = CHR ''&'' \<or> c = CHR 0x27 \<or> c = CHR 0x22 \<or> c = CHR '')'' \<or> is_whitespace c"

lemma find_sub_bound: "find_sub n s = Some p \<Longrightarrow> p + length n \<le> length s"
  by (induction s arbitrary: p) (auto dest: prefix_length_le split: if_splits)

function scrub_key_ascii :: "string \<Rightarrow> nat \<Rightarrow> string \<Rightarrow> string" where
  "scrub_key_ascii key cursor out =
     (if cursor < length out then
        (case find_sub (to_lowercase (key @ ''='')) (to_lowercase (drop cursor out)) of
           None \<Rightarrow> out
         | Some p \<Rightarrow>
             let pos = cursor + p; start = pos + length (key @ ''='');
                 stop = start + until value_end (drop start out)
             in if \<not> boundary_ok out pos \<or> start \<ge> stop then scrub_key_ascii key start out
                else scrub_key_ascii key (start + 3) (replace_range start stop ''***'' out))
      else out)"
  by pat_completeness auto
termination
proof (relation "measure (\<lambda>(key, cursor, out). length out - cursor)", goal_cases)
  case (2 key cursor out p pos start stop)
  then have "start \<le> length out" using find_sub_bound [OF 2(2)] by (simp add: to_lowercase_def)
  with 2 show ?case by simp
next
  case (3 key cursor out p pos start stop)
  then have "start \<le> length out" using find_sub_bound [OF 3(2)] by (simp add: to_lowercase_def)
  moreover have "until value_end (drop start out) \<le> length out - start"
    unfolding until_def by (rule order_trans [OF length_takeWhile_le]) simp
  ultimately show ?case using 3 by (simp add: replace_range_def)
qed simp

declare scrub_key_ascii.simps [simp del]

definition scrub_after_ascii :: "string \<Rightarrow> (char \<Rightarrow> bool) \<Rightarrow> string \<Rightarrow> string" where
  "scrub_after_ascii marker P out =
     (case find_sub marker out of
        None \<Rightarrow> out
      | Some pos \<Rightarrow>
          let start = pos + length marker; stop = start + until P (drop start out)
          in if start < stop then replace_range start stop ''***'' out else out)"

definition tail_end :: "char \<Rightarrow> bool" where
  "tail_end c \<longleftrightarrow> c = CHR '')'' \<or> is_whitespace c \<or> c = CHR 0x27 \<or> c = CHR 0x22"

definition scrub_feishu_ascii :: "string \<Rightarrow> string" where
  "scrub_feishu_ascii out = scrub_after_ascii ''/hook/'' (\<lambda>c. c = CHR ''/'' \<or> tail_end c) out"

definition scrub_slack_ascii :: "string \<Rightarrow> string" where
  "scrub_slack_ascii out = scrub_after_ascii ''hooks.slack.com/services/'' tail_end out"

definition scrub_credentials_ascii :: "string \<Rightarrow> string" where
  "scrub_credentials_ascii err =
     scrub_telegram (scrub_slack_ascii (scrub_feishu_ascii (scrub_userinfo (fold (\<lambda>key. scrub_key_ascii key 0) CREDENTIAL_KEYS err))))"


section \<open>Occurrences of a key and their values\<close>

abbreviation "needle key \<equiv> key @ ''=''"

definition occurs :: "string \<Rightarrow> string \<Rightarrow> nat \<Rightarrow> bool" where
  "occurs key out i \<longleftrightarrow> prefix (to_lowercase (needle key)) (to_lowercase (drop i out))"

definition masked :: "string \<Rightarrow> bool" where
  "masked s \<longleftrightarrow> takeWhile (\<lambda>c. \<not> value_end c) s \<in> {[], ''***''}"

text \<open>Every occurrence of the key that is a word of its own and ends by \<open>n\<close> has a masked value.\<close>

definition clean_upto :: "string \<Rightarrow> nat \<Rightarrow> string \<Rightarrow> bool" where
  "clean_upto key n out \<longleftrightarrow>
     (\<forall>i. occurs key out i \<longrightarrow> boundary_ok out i \<longrightarrow> i + length (needle key) \<le> n \<longrightarrow>
        masked (drop (i + length (needle key)) out))"

definition clean :: "string \<Rightarrow> string \<Rightarrow> bool" where
  "clean key out \<longleftrightarrow> clean_upto key (length out) out"

lemma find_sub_Some:
  "find_sub n s = Some p \<Longrightarrow> prefix n (drop p s) \<and> (\<forall>q < p. \<not> prefix n (drop q s))"
proof (induction s arbitrary: p)
  case (Cons c s)
  show ?case
  proof (cases p)
    case (Suc p')
    with Cons.prems have "\<not> prefix n (c # s)" "find_sub n s = Some p'" by (auto split: if_splits)
    with Cons.IH Suc show ?thesis by (auto simp: less_Suc_eq_0_disj)
  qed (use Cons.prems in \<open>auto split: if_splits\<close>)
qed (auto split: if_splits)

lemma find_sub_None: "n \<noteq> [] \<Longrightarrow> find_sub n s = None \<Longrightarrow> \<not> prefix n (drop q s)"
  by (induction s arbitrary: q) (auto simp: drop_Cons' split: if_splits)

lemma prefix_nth: "prefix xs ys \<longleftrightarrow> length xs \<le> length ys \<and> (\<forall>j < length xs. ys ! j = xs ! j)"
proof -
  have "prefix xs ys \<longleftrightarrow> take (length xs) ys = xs" by (metis append_eq_conv_conj prefix_def take_is_prefix)
  then show ?thesis by (auto simp: list_eq_iff_nth_eq)
qed

lemma occurs_iff:
  "occurs key out i \<longleftrightarrow> i + length (needle key) \<le> length out \<and>
     (\<forall>j < length (needle key). lower_char (out ! (i + j)) = lower_char (needle key ! j))"
proof (cases "i + length (needle key) \<le> length out")
  case True
  then show ?thesis by (auto simp: occurs_def prefix_nth to_lowercase_def simp del: length_append map_append)
next
  case False
  then show ?thesis using prefix_length_le by (fastforce simp: occurs_def to_lowercase_def)
qed

lemma of_char_lower:
  "(of_char (lower_char c) :: nat) =
     (if (65 :: nat) \<le> of_char c \<and> of_char c \<le> (90 :: nat) then of_char c + 32 else of_char c)"
  by (simp add: lower_char_def Let_def)

lemma word_char_code:
  "word_char c \<longleftrightarrow> (let n = (of_char c :: nat) in 48 \<le> n \<and> n \<le> 57 \<or> 65 \<le> n \<and> n \<le> 90 \<or> 97 \<le> n \<and> n \<le> 122 \<or> n = 95)"
proof -
  have "c = CHR ''_'' \<longleftrightarrow> (of_char c :: nat) = 95" using of_char_eq_iff [where 'a = nat, of c "CHR ''_''"] by simp
  then show ?thesis by (simp add: word_char_def is_ascii_alphanumeric_def is_ascii_digit_def Let_def)
qed

lemma lower_char_word:
  assumes "lower_char c = lower_char d" and "word_char d"
  shows "word_char c"
proof -
  have "(of_char (lower_char c) :: nat) = of_char (lower_char d)" using assms(1) by simp
  with assms(2) show ?thesis unfolding of_char_lower word_char_code Let_def by (auto split: if_splits)
qed

lemma lower_char_eq: "lower_char c = lower_char (CHR ''='') \<longleftrightarrow> c = CHR ''=''"
proof
  assume "lower_char c = lower_char (CHR ''='')"
  then have "(of_char (lower_char c) :: nat) = of_char (lower_char (CHR ''=''))" by simp
  then have "(of_char c :: nat) = of_char (CHR ''='')" unfolding of_char_lower by (auto split: if_splits)
  then show "c = CHR ''=''" by (simp only: of_char_eq_iff)
qed simp

lemma occurs_nth:
  assumes "occurs key out i"
  shows "j < length key \<Longrightarrow> lower_char (out ! (i + j)) = lower_char (key ! j)"
    and "out ! (i + length key) = CHR ''=''"
  using assms lower_char_eq by (force simp: occurs_iff nth_append less_Suc_eq)+

section \<open>Masking keeps keys clean\<close>

lemma occurs_prefix:
  assumes "occurs key (pre @ m @ suf) i" and "i + length (needle key) \<le> length pre"
  shows "occurs key (pre @ mid @ suf) i" and "boundary_ok (pre @ m @ suf) i \<Longrightarrow> boundary_ok (pre @ mid @ suf) i"
  using assms by (auto simp: occurs_iff boundary_ok_def nth_append)

lemma occurs_not_in_mask:
  assumes "occurs key (pre @ m @ suf) i" and "list_all word_char key" and "m \<noteq> []"
    and "list_all (\<lambda>c. \<not> word_char c \<and> c \<noteq> CHR ''='') m" and "length pre < i + length (needle key)"
  shows "length pre + length m \<le> i"
proof (rule ccontr)
  assume out: "\<not> length pre + length m \<le> i"
  define q where "q = max i (length pre)"
  have q: "i \<le> q" "q - i < length (needle key)" "length pre \<le> q" "q < length pre + length m"
    using out assms(3,5) by (auto simp: q_def max_def)
  let ?c = "m ! (q - length pre)"
  have c: "(pre @ m @ suf) ! q = ?c" using q by (auto simp: nth_append)
  have "?c \<in> set m" using q by simp
  with assms(4) have not: "\<not> word_char ?c" "?c \<noteq> CHR ''=''" by (auto simp: list_all_iff)
  show False
  proof (cases "q - i < length key")
    case True
    with occurs_nth(1) [OF assms(1) True] q c have "lower_char ?c = lower_char (key ! (q - i))" by simp
    moreover have "word_char (key ! (q - i))" using True assms(2) by (simp add: list_all_iff)
    ultimately show False using lower_char_word not(1) by blast
  next
    case False
    with q have "q = i + length key" by simp
    with occurs_nth(2) [OF assms(1)] c not(2) show False by simp
  qed
qed

lemma occurs_suffix:
  assumes "occurs key (pre @ m @ suf) (length pre + length m + r)"
  shows "occurs key (pre @ mid @ suf) (length pre + length mid + r)"
    and "0 < r \<Longrightarrow> boundary_ok (pre @ m @ suf) (length pre + length m + r) \<Longrightarrow> boundary_ok (pre @ mid @ suf) (length pre + length mid + r)"
    and "occurs key suf r"
proof -
  have "drop (length pre + length x + r) (pre @ x @ suf) = drop r suf" for x by simp
  with assms show "occurs key suf r" "occurs key (pre @ mid @ suf) (length pre + length mid + r)"
    by (auto simp: occurs_def)
  assume "0 < r"
  then have "(pre @ x @ suf) ! (length pre + length x + r - 1) = suf ! (r - 1)" for x
    by (auto simp: nth_append)
  moreover assume "boundary_ok (pre @ m @ suf) (length pre + length m + r)"
  ultimately show "boundary_ok (pre @ mid @ suf) (length pre + length mid + r)"
    using \<open>0 < r\<close> by (simp add: boundary_ok_def)
qed

lemma masked_after_prefix:
  assumes "masked (w @ x)" and "w \<noteq> []" and "last w \<noteq> CHR ''*''"
  shows "masked (w @ y)"
proof (cases "\<exists>c \<in> set w. value_end c")
  case True
  then have "takeWhile (\<lambda>c. \<not> value_end c) (w @ z) = takeWhile (\<lambda>c. \<not> value_end c) w" for z
    by (induction w) auto
  with assms(1) show ?thesis by (simp add: masked_def)
next
  case False
  then have "takeWhile (\<lambda>c. \<not> value_end c) (w @ x) = w @ takeWhile (\<lambda>c. \<not> value_end c) x" by (induction w) auto
  with assms(1,2) have "w @ takeWhile (\<lambda>c. \<not> value_end c) x = ''***''" by (simp add: masked_def)
  then have "set w \<subseteq> {CHR ''*''}" by (metis empty_set insert_absorb2 list.simps(15) set_append sup_ge1)
  with assms(2,3) show ?thesis using last_in_set by blast
qed

text \<open>What a mask must look like and where it may stand so that no clean key is spoilt.\<close>

definition good_mask :: "string \<Rightarrow> string \<Rightarrow> string \<Rightarrow> bool" where
  "good_mask pre m suf \<longleftrightarrow> m \<noteq> [] \<and> list_all (\<lambda>c. \<not> word_char c \<and> c \<noteq> CHR ''='') m \<and> (suf = [] \<or> \<not> word_char (hd suf))
     \<and> pre \<noteq> [] \<and> last pre \<noteq> CHR ''*'' \<and> (last pre = CHR ''='' \<longrightarrow> masked (m @ suf))"

lemma masked_in_prefix:
  assumes "good_mask pre m suf" and "occurs key (pre @ m @ suf) i" and "i + length (needle key) \<le> length pre"
    and "masked (drop (i + length (needle key)) (pre @ mid @ suf))"
  shows "masked (drop (i + length (needle key)) (pre @ m @ suf))"
proof (cases "i + length (needle key) = length pre")
  case True
  then have "length pre - 1 = i + length key" "i + length key < length pre" by auto
  then have "last pre = (pre @ m @ suf) ! (i + length key)"
    using assms(1) by (simp add: good_mask_def last_conv_nth nth_append)
  with occurs_nth(2) [OF assms(2)] assms(1) True show ?thesis by (simp add: good_mask_def)
next
  case False
  let ?w = "drop (i + length (needle key)) pre"
  from False assms(3) have w: "?w \<noteq> []" "last ?w = last pre" by auto
  have split: "drop (i + length (needle key)) (pre @ z) = ?w @ z" for z using assms(3) by simp
  show ?thesis
    using masked_after_prefix [of ?w "mid @ suf" "m @ suf"] assms(1,4) w unfolding split good_mask_def by simp
qed

lemma clean_replace:
  assumes key: "key \<noteq> []" "list_all word_char key" and good: "good_mask pre m suf" and old: "clean key (pre @ mid @ suf)"
  shows "clean key (pre @ m @ suf)"
  unfolding clean_def clean_upto_def
proof (intro allI impI)
  fix i assume occ: "occurs key (pre @ m @ suf) i" and bnd: "boundary_ok (pre @ m @ suf) i"
  have old': "masked (drop (i + length (needle key)) (pre @ mid @ suf))"
    if "occurs key (pre @ mid @ suf) i" "boundary_ok (pre @ mid @ suf) i" for i
    using old that by (simp add: clean_def clean_upto_def occurs_iff)
  show "masked (drop (i + length (needle key)) (pre @ m @ suf))"
  proof (cases "i + length (needle key) \<le> length pre")
    case True
    show ?thesis
      by (rule masked_in_prefix [OF good occ True old' [OF occurs_prefix [OF occ True]]]) (rule bnd)
  next
    case False
    with occurs_not_in_mask [OF occ key(2)] good have "length pre + length m \<le> i" by (simp add: good_mask_def)
    then obtain r where r: "i = length pre + length m + r" using le_Suc_ex by blast
    have suf: "occurs key suf r" using occurs_suffix(3) occ r by simp
    have "0 < r"
    proof (rule ccontr)
      assume "\<not> 0 < r"
      with suf occurs_nth(1) [OF suf, of 0] key have "lower_char (suf ! 0) = lower_char (key ! 0)" "suf \<noteq> []"
        by (auto simp: occurs_iff)
      moreover have "word_char (key ! 0)" using key by (cases key) auto
      ultimately show False using good lower_char_word by (auto simp: good_mask_def hd_conv_nth)
    qed
    with occurs_suffix(1,2) [of key pre m suf r mid] occ bnd r old' [of "length pre + length mid + r"]
    show ?thesis by simp
  qed
qed

section \<open>One pass over a key\<close>

lemma value_end_not_word: "value_end c \<Longrightarrow> \<not> word_char c"
  by (auto simp: value_end_def is_whitespace_def word_char_def is_ascii_alphanumeric_def is_ascii_digit_def)

lemma until_split:
  "s = take (until P s) s @ drop (until P s) s" "drop (until P s) s = [] \<or> P (hd (drop (until P s) s))"
proof -
  have "drop (until P s) s = dropWhile (\<lambda>c. \<not> P c) s" by (simp add: until_def dropWhile_eq_drop)
  then show "drop (until P s) s = [] \<or> P (hd (drop (until P s) s))" using hd_dropWhile [of "\<lambda>c. \<not> P c" s] by auto
qed simp

lemma masked_mask: "suf = [] \<or> value_end (hd suf) \<Longrightarrow> masked (''***'' @ suf)"
  by (cases suf) (auto simp: masked_def value_end_def is_whitespace_def)

lemma found_occurrence:
  assumes "find_sub (to_lowercase (needle key)) (to_lowercase (drop cursor out)) = Some p"
  shows "occurs key out (cursor + p)" and "q < p \<Longrightarrow> \<not> occurs key out (cursor + q)"
  using find_sub_Some [OF assms] by (auto simp: occurs_def to_lowercase_def drop_map add.commute)

lemma found_start:
  assumes "occurs key out pos"
  shows "pos + length (needle key) \<le> length out" "last (take (pos + length (needle key)) out) = CHR ''=''"
    "take (pos + length (needle key)) out \<noteq> []"
proof -
  show len: "pos + length (needle key) \<le> length out" using assms by (simp add: occurs_iff)
  then show "take (pos + length (needle key)) out \<noteq> []" by auto
  with len occurs_nth(2) [OF assms] show "last (take (pos + length (needle key)) out) = CHR ''=''"
    by (simp add: last_conv_nth)
qed

lemma key_mask_good:
  assumes "occurs key out pos"
  shows "good_mask (take (pos + length (needle key)) out) ''***''
     (drop (pos + length (needle key) + until value_end (drop (pos + length (needle key)) out)) out)" (is "good_mask ?pre _ ?suf")
proof -
  let ?s = "drop (pos + length (needle key)) out"
  have "?suf = drop (until value_end ?s) ?s" by (simp add: add.commute)
  with until_split(2) [where P = value_end and s = ?s] have "?suf = [] \<or> value_end (hd ?suf)" by metis
  with found_start(2,3) [OF assms] show ?thesis
    unfolding good_mask_def using value_end_not_word masked_mask by (auto simp: word_char_code)
qed

lemma replace_range_split:
  "start \<le> stop \<Longrightarrow> out = take start out @ take (stop - start) (drop start out) @ drop stop out"
  by (metis append_take_drop_id drop_drop le_add_diff_inverse2)

lemma scrub_key_rule [consumes 1, case_names skip mask stop]:
  assumes "I cursor out"
    and skip: "\<And>cursor out pos. I cursor out \<Longrightarrow> cursor \<le> pos \<Longrightarrow> occurs key out pos \<Longrightarrow>
        (\<And>q. cursor \<le> q \<Longrightarrow> q < pos \<Longrightarrow> \<not> occurs key out q) \<Longrightarrow>
        \<not> boundary_ok out pos \<or> until value_end (drop (pos + length (needle key)) out) = 0 \<Longrightarrow> I (pos + length (needle key)) out"
    and mask: "\<And>cursor out pos. I cursor out \<Longrightarrow> cursor \<le> pos \<Longrightarrow> occurs key out pos \<Longrightarrow>
        (\<And>q. cursor \<le> q \<Longrightarrow> q < pos \<Longrightarrow> \<not> occurs key out q) \<Longrightarrow>
        I (pos + length (needle key) + 3) (take (pos + length (needle key)) out @ ''***''
            @ drop (pos + length (needle key) + until value_end (drop (pos + length (needle key)) out)) out)"
    and stop: "\<And>cursor out. I cursor out \<Longrightarrow> (\<And>q. cursor \<le> q \<Longrightarrow> \<not> occurs key out q) \<Longrightarrow> Q out"
  shows "Q (scrub_key_ascii key cursor out)"
  using assms(1)
proof (induction "length out - cursor" arbitrary: cursor out rule: less_induct)
  case less
  show ?case
  proof (cases "find_sub (to_lowercase (needle key)) (to_lowercase (drop cursor out))")
    case None
    have "\<not> occurs key out q" if "cursor \<le> q" for q
      using find_sub_None [OF _ None, of "q - cursor"] that by (auto simp: occurs_def to_lowercase_def drop_map)
    with stop [OF less.prems] None show ?thesis by (subst scrub_key_ascii.simps) auto
  next
    case (Some p)
    define pos start stp where "pos = cursor + p" and "start = pos + length (needle key)"
      and "stp = start + until value_end (drop start out)"
    have occ: "occurs key out pos" and le: "cursor \<le> pos" using found_occurrence(1) [OF Some] by (simp_all add: pos_def)
    have none: "\<not> occurs key out q" if "cursor \<le> q" "q < pos" for q
      using found_occurrence(2) [OF Some, of "q - cursor"] that by (simp add: pos_def)
    have bounds: "cursor < length out" "start \<le> length out" "cursor < start" "stp \<le> length out"
      using found_start(1) [OF occ] le length_takeWhile_le [of "\<lambda>c. \<not> value_end c" "drop start out"]
      by (simp_all add: start_def stp_def until_def)
    have unfold: "scrub_key_ascii key cursor out =
        (if \<not> boundary_ok out pos \<or> start \<ge> stp then scrub_key_ascii key start out
         else scrub_key_ascii key (start + 3) (replace_range start stp ''***'' out))"
      using bounds(1) Some by (subst scrub_key_ascii.simps) (simp only: if_True option.case pos_def start_def stp_def Let_def)
    show ?thesis
    proof (cases "\<not> boundary_ok out pos \<or> start \<ge> stp")
      case True
      have "Q (scrub_key_ascii key start out)"
        using skip [OF less.prems le occ none] True bounds by (intro less.hyps) (auto simp: start_def stp_def)
      with unfold True show ?thesis by simp
    next
      case False
      have "Q (scrub_key_ascii key (start + 3) (replace_range start stp ''***'' out))"
      proof (rule less.hyps)
        show "length (replace_range start stp ''***'' out) - (start + 3) < length out - cursor"
          using bounds False by (simp add: replace_range_def) linarith
        show "I (start + 3) (replace_range start stp ''***'' out)"
          using mask [OF less.prems le occ none] by (simp add: replace_range_def start_def stp_def)
      qed
      with unfold False show ?thesis by simp
    qed
  qed
qed

lemma scrub_key_keeps:
  assumes "k \<noteq> []" and "list_all word_char k" and "clean k out"
  shows "clean k (scrub_key_ascii key cursor out)"
proof (rule scrub_key_rule [where I = "\<lambda>_. clean k" and Q = "clean k"])
  fix cursor out pos assume old: "clean k out" and occ: "occurs key out pos"
  let ?start = "pos + length (needle key)"
  have "clean k (take ?start out @ take (until value_end (drop ?start out)) (drop ?start out)
      @ drop (?start + until value_end (drop ?start out)) out)"
    using old replace_range_split [of ?start "?start + until value_end (drop ?start out)" out] by simp
  then show "clean k (take ?start out @ ''***'' @ drop (?start + until value_end (drop ?start out)) out)"
    by (rule clean_replace [OF assms(1,2) key_mask_good [OF occ]])
qed (use assms(3) in auto)

text \<open>The cursor never stands inside an occurrence: it follows an equals sign or a mask.\<close>

definition cursor_ok :: "nat \<Rightarrow> string \<Rightarrow> bool" where
  "cursor_ok cursor out \<longleftrightarrow> cursor = 0 \<or> out ! (cursor - 1) \<in> {CHR ''='', CHR ''*''}"

lemma not_straddling:
  assumes "list_all word_char key" and "cursor_ok cursor out" and "occurs key out i" and "\<not> i + length (needle key) \<le> cursor"
  shows "cursor \<le> i"
proof (rule ccontr)
  assume "\<not> cursor \<le> i"
  then have j: "cursor - 1 - i < length key" "i + (cursor - 1 - i) = cursor - 1" "cursor \<noteq> 0" using assms(4) by auto
  from occurs_nth(1) [OF assms(3) j(1)] j(2) have "lower_char (out ! (cursor - 1)) = lower_char (key ! (cursor - 1 - i))" by simp
  moreover have "word_char (key ! (cursor - 1 - i))" using assms(1) j(1) by (simp add: list_all_iff)
  ultimately have "word_char (out ! (cursor - 1))" by (rule lower_char_word)
  with assms(2) j(3) show False by (auto simp: cursor_ok_def word_char_code)
qed

lemma scrub_key_clean:
  assumes key: "key \<noteq> []" "list_all word_char key"
  shows "clean key (scrub_key_ascii key 0 out)"
proof (rule scrub_key_rule [where I = "\<lambda>cursor out. clean_upto key cursor out \<and> cursor_ok cursor out" and Q = "clean key"])
  show "clean_upto key 0 out \<and> cursor_ok 0 out" by (simp add: clean_upto_def cursor_ok_def)
next
  fix cursor out assume inv: "clean_upto key cursor out \<and> cursor_ok cursor out" and none: "\<And>q. cursor \<le> q \<Longrightarrow> \<not> occurs key out q"
  then show "clean key out" using not_straddling [OF key(2)] unfolding clean_def clean_upto_def by blast
next
  fix cursor out pos
  let ?start = "pos + length (needle key)"
  assume inv: "clean_upto key cursor out \<and> cursor_ok cursor out" and le: "cursor \<le> pos" and occ: "occurs key out pos"
    and none: "\<And>q. cursor \<le> q \<Longrightarrow> q < pos \<Longrightarrow> \<not> occurs key out q"
  have first: "i = pos \<or> masked (drop (i + length (needle key)) out)"
    if "occurs key out i" "boundary_ok out i" "i + length (needle key) \<le> ?start" for i
  proof (cases "i + length (needle key) \<le> cursor")
    case True
    with inv that show ?thesis by (simp add: clean_upto_def)
  next
    case False
    with not_straddling [OF key(2) _ that(1)] inv none that(1,3) show ?thesis by fastforce
  qed
  have eq: "out ! (?start - 1) = CHR ''=''" using occurs_nth(2) [OF occ] by simp
  {
    assume skip: "\<not> boundary_ok out pos \<or> until value_end (drop ?start out) = 0"
    then have "boundary_ok out pos \<Longrightarrow> masked (drop ?start out)" by (simp add: masked_def until_def)
    with first eq show "clean_upto key ?start out \<and> cursor_ok ?start out" by (auto simp: clean_upto_def cursor_ok_def)
  }
  let ?pre = "take ?start out" and ?suf = "drop (?start + until value_end (drop ?start out)) out"
  let ?mid = "take (until value_end (drop ?start out)) (drop ?start out)"
  have pre: "length ?pre = ?start" using found_start(1) [OF occ] by simp
  have out: "out = ?pre @ ?mid @ ?suf"
    using replace_range_split [of ?start "?start + until value_end (drop ?start out)" out] by simp
  note good = key_mask_good [OF occ]
  have "masked (drop (i + length (needle key)) (?pre @ ''***'' @ ?suf))"
    if new: "occurs key (?pre @ ''***'' @ ?suf) i" "boundary_ok (?pre @ ''***'' @ ?suf) i" "i + length (needle key) \<le> ?start + 3" for i
  proof (cases "i + length (needle key) \<le> length ?pre")
    case True
    from occurs_prefix [OF new(1) True, of ?mid] new(2) out have old: "occurs key out i" "boundary_ok out i" by auto
    from first [OF old] True pre consider "i = pos" | "masked (drop (i + length (needle key)) (?pre @ ?mid @ ?suf))" using out by metis
    then show ?thesis
    proof cases
      case 1
      then have "drop (i + length (needle key)) (?pre @ ''***'' @ ?suf) = ''***'' @ ?suf" using pre by simp
      with good found_start(2) [OF occ] show ?thesis unfolding good_mask_def by metis
    qed (rule masked_in_prefix [OF good new(1) True])
  next
    case False
    with occurs_not_in_mask [OF new(1) key(2)] new(3) good pre show ?thesis by (simp add: good_mask_def)
  qed
  moreover have "cursor_ok (?start + 3) (?pre @ ''***'' @ ?suf)" using pre by (simp add: cursor_ok_def nth_append)
  ultimately show "clean_upto key (?start + 3) (?pre @ ''***'' @ ?suf) \<and> cursor_ok (?start + 3) (?pre @ ''***'' @ ?suf)"
    by (simp add: clean_upto_def)
qed

section \<open>The later passes\<close>

lemma until_char: "drop (n + until P (drop n out)) out = [] \<or> P (hd (drop (n + until P (drop n out)) out))"
  using until_split(2) [where P = P and s = "drop n out"] by (simp add: add.commute)

lemma find_char_Some: "find_char P s = Some n \<Longrightarrow> drop n s \<noteq> [] \<and> P (hd (drop n s))"
  using until_split(2) [where P = P and s = s] by (auto simp: find_char_def Let_def split: if_splits)

lemma mask_after_marker:
  assumes "k \<noteq> []" and "list_all word_char k" and "clean k out" and "find_sub marker out = Some pos"
    and "marker \<noteq> []" and "last marker \<notin> {CHR ''*'', CHR ''=''}" and "m \<in> {''***'', ''***:***''}"
    and n: "n = length marker" and "pos + n \<le> stop" and "drop stop out = [] \<or> \<not> word_char (hd (drop stop out))"
  shows "clean k (replace_range (pos + n) stop m out)"
proof -
  have "take (pos + length marker) out = take pos out @ marker"
    using find_sub_Some [OF assms(4)] by (auto simp: take_add prefix_def)
  moreover from this assms(5,6) have "good_mask (take (pos + length marker) out) m (drop stop out)"
    using assms(7,10) by (auto simp: good_mask_def word_char_code)
  moreover have "out = take (pos + length marker) out @ take (stop - (pos + length marker)) (drop (pos + length marker) out) @ drop stop out"
    by (rule replace_range_split [OF assms(9) [unfolded n]])
  ultimately show ?thesis unfolding replace_range_def n using clean_replace [OF assms(1,2)] assms(3) by metis
qed

lemma scrub_userinfo_keeps:
  assumes k: "k \<noteq> []" "list_all word_char k" and clean: "clean k out"
  shows "clean k (scrub_userinfo out)"
proof (cases "find_sub ''://'' out")
  case (Some se)
  show ?thesis
  proof (cases "find_char (\<lambda>c. c = CHR ''@'') (drop (se + 3) out)")
    case None
    with Some clean show ?thesis by (simp add: scrub_userinfo_def)
  next
    case at: (Some at)
    from find_char_Some [OF this] have "\<not> word_char (hd (drop (se + 3 + at) out))"
      by (simp add: add.commute word_char_code)
    with mask_after_marker [OF k clean Some, of "''***:***''" 3 "se + 3 + at"] Some at clean show ?thesis
      by (simp add: scrub_userinfo_def Let_def)
  qed
qed (use clean in \<open>simp add: scrub_userinfo_def\<close>)

lemma scrub_after_keeps:
  assumes k: "k \<noteq> []" "list_all word_char k" and clean: "clean k out"
    and marker: "marker \<noteq> []" "last marker \<notin> {CHR ''*'', CHR ''=''}" and P: "\<And>c. P c \<Longrightarrow> \<not> word_char c"
  shows "clean k (scrub_after_ascii marker P out)"
proof (cases "find_sub marker out")
  case (Some pos)
  have "clean k (replace_range (pos + length marker) (pos + length marker + until P (drop (pos + length marker) out)) ''***'' out)"
    using until_char [where P = P] P by (intro mask_after_marker [OF k clean Some marker]) auto
  with Some clean show ?thesis by (simp add: scrub_after_ascii_def Let_def)
qed (use clean in \<open>simp add: scrub_after_ascii_def\<close>)

lemma tail_end_not_word: "tail_end c \<Longrightarrow> \<not> word_char c"
  by (rule value_end_not_word) (auto simp: tail_end_def value_end_def)

lemma feishu_end_not_word: "c = CHR ''/'' \<or> tail_end c \<Longrightarrow> \<not> word_char c"
  using tail_end_not_word by (auto simp: word_char_def is_ascii_alphanumeric_def is_ascii_digit_def)

lemma scrub_telegram_keeps:
  assumes k: "k \<noteq> []" "list_all word_char k" and clean: "clean k out"
  shows "clean k (scrub_telegram out)"
proof (cases "find_sub ''/bot'' out")
  case (Some pos)
  let ?P = "\<lambda>c. \<not> (is_ascii_alphanumeric c \<or> c = CHR ''_'' \<or> c = CHR ''-'')"
  have "clean k (replace_range (pos + 4) (pos + 4 + colon + 1 + until ?P (drop (pos + 4 + colon + 1) out)) ''***'' out)" for colon
    using until_char [where P = ?P and n = "pos + 4 + colon + 1" and out = out]
      mask_after_marker [OF k clean Some, of "''***''" 4 "pos + 4 + colon + 1 + until ?P (drop (pos + 4 + colon + 1) out)"]
    by (auto simp: word_char_def)
  with Some clean show ?thesis by (simp add: scrub_telegram_def Let_def ac_simps split: option.splits)
qed (use clean in \<open>simp add: scrub_telegram_def\<close>)

lemma scrub_keys_clean:
  assumes "list_all (\<lambda>k. k \<noteq> [] \<and> list_all word_char k) keys" and "k \<in> set keys"
  shows "clean k (fold (\<lambda>key. scrub_key_ascii key 0) keys out)"
proof -
  have k: "k \<noteq> []" "list_all word_char k" using assms by (auto simp: list_all_iff)
  have keep: "clean k out \<Longrightarrow> clean k (fold (\<lambda>key. scrub_key_ascii key 0) keys out)" for keys out
    using k by (induction keys arbitrary: out) (auto intro: scrub_key_keeps)
  show ?thesis
    using assms by (induction keys arbitrary: out) (auto intro: scrub_key_clean keep)
qed

lemma to_lowercase_take: "take n (to_lowercase s) = to_lowercase (take n s)"
  by (simp add: to_lowercase_def take_map)

lemma lower_needle: "to_lowercase key = key \<Longrightarrow> to_lowercase (needle key) = needle key"
  by (simp add: to_lowercase_def lower_char_def)

lemma keys_are_words: "list_all (\<lambda>k. k \<noteq> [] \<and> list_all word_char k) CREDENTIAL_KEYS"
  by code_simp

section \<open>The functions agree on ASCII texts\<close>

definition ascii :: "string \<Rightarrow> bool" where
  "ascii s \<longleftrightarrow> list_all (\<lambda>c. of_char c < (128 :: nat)) s"

text \<open>Of \<open>str::to_lowercase\<close>: on ASCII texts it lower-cases the letters.\<close>

definition lowers_ascii :: "(string \<Rightarrow> string) \<Rightarrow> bool" where
  "lowers_ascii lower \<longleftrightarrow> (\<forall>s. ascii s \<longrightarrow> lower s = to_lowercase s)"

lemma ascii_simps [simp]:
  "ascii []" "ascii (c # s) \<longleftrightarrow> of_char c < (128 :: nat) \<and> ascii s" "ascii (s @ t) \<longleftrightarrow> ascii s \<and> ascii t"
  by (simp_all add: ascii_def)

lemma ascii_drop: "ascii s \<Longrightarrow> ascii (drop n s)"
  by (auto simp: ascii_def list_all_iff dest: in_set_dropD)

lemma ascii_take: "ascii s \<Longrightarrow> ascii (take n s)"
  by (auto simp: ascii_def list_all_iff dest: in_set_takeD)

lemma ascii_replace: "ascii out \<Longrightarrow> ascii m \<Longrightarrow> ascii (replace_range a b m out)"
  by (simp add: replace_range_def ascii_drop ascii_take)

lemma ascii_char_boundary: "ascii s \<Longrightarrow> text_boundary_at s i \<longleftrightarrow> i \<le> length s"
  by (cases "i < length s") (auto simp: text_boundary_at_def ascii_def list_all_length)

lemma starts_white_ascii:
  assumes "of_char c < (128 :: nat)"
  shows "starts_white (c # s) \<longleftrightarrow> is_whitespace c"
proof -
  have "c \<noteq> d" if "(128 :: nat) \<le> of_char d" for d using assms that by auto
  then have "c \<noteq> CHR 0xC2" "c \<noteq> CHR 0xE1" "c \<noteq> CHR 0xE2" "c \<noteq> CHR 0xE3" by simp_all
  then show ?thesis by (auto simp: starts_white_def white_space_def is_whitespace_def)
qed

lemma find_end_ascii:
  assumes "ascii s" and "\<And>c s. of_char c < (128 :: nat) \<Longrightarrow> P (c # s) = Q c"
  shows "find_end P s = until Q s"
  using assms(1) by (induction s) (auto simp: until_def assms(2))

lemma ends_value_ascii: "of_char c < (128 :: nat) \<Longrightarrow> ends_value (c # s) = value_end c"
  by (auto simp: ends_value_def value_end_def starts_white_ascii)

lemma ends_tail_ascii: "of_char c < (128 :: nat) \<Longrightarrow> ends_tail (c # s) = tail_end c"
  by (auto simp: ends_tail_def tail_end_def starts_white_ascii)

lemma scrub_key_on_ascii:
  assumes "lowers_ascii lower" and "ascii key" and "ascii out"
  shows "scrub_key lower key cursor out = Returns (scrub_key_ascii key cursor out) \<and> ascii (scrub_key_ascii key cursor out)"
  using assms(3)
proof (induction "length out - cursor" arbitrary: cursor out rule: less_induct)
  case less
  show ?case
  proof (cases "cursor < length out")
    case False
    with less.prems show ?thesis by (simp add: scrub_key.simps [of lower] scrub_key_ascii.simps [of key])
  next
    case True
    have lower: "lower (needle key) = to_lowercase (needle key)" "lower (drop cursor out) = to_lowercase (drop cursor out)"
      using assms(1,2) ascii_drop [OF less.prems] by (simp_all add: lowers_ascii_def)
    show ?thesis
    proof (cases "find_sub (to_lowercase (needle key)) (to_lowercase (drop cursor out))")
      case None
      with True lower less.prems show ?thesis
        by (simp add: scrub_key.simps [of lower] scrub_key_ascii.simps [of key] ascii_char_boundary)
    next
      case (Some p)
      define pos start stp where "pos = cursor + p" and "start = pos + length (needle key)"
        and "stp = start + until value_end (drop start out)"
      note defs = pos_def start_def stp_def
      have bounds: "start \<le> length out" "pos \<le> length out" "cursor < start"
        using found_start(1) [OF found_occurrence(1) [OF Some]] by (simp_all add: start_def pos_def)
      have stp: "stp \<le> length out"
        using bounds(1) length_takeWhile_le [of "\<lambda>c. \<not> value_end c" "drop start out"] by (simp add: stp_def until_def)
      have stop_at: "start + find_end ends_value (drop start out) = stp"
        using find_end_ascii [where P = ends_value and Q = value_end, OF ascii_drop [OF less.prems] ends_value_ascii] by (simp add: stp_def)
      have unfold: "scrub_key lower key cursor out =
          (if \<not> boundary_ok out pos \<or> start \<ge> stp then scrub_key lower key start out
           else scrub_key lower key (start + 3) (replace_range start stp ''***'' out))"
      proof -
        have slices: "text_boundary_at out cursor = True" "text_boundary_at out pos = True" "text_boundary_at out start = True"
          using bounds True by (simp_all add: ascii_char_boundary [OF less.prems])
        show ?thesis
          by (subst scrub_key.simps) (simp only: True if_True if_False not_True_eq_False de_Morgan_disj simp_thms
              Some lower option.case Let_def pos_def [symmetric] start_def [symmetric] stop_at slices)
      qed
      have unfold': "scrub_key_ascii key cursor out =
          (if \<not> boundary_ok out pos \<or> start \<ge> stp then scrub_key_ascii key start out
           else scrub_key_ascii key (start + 3) (replace_range start stp ''***'' out))"
        using True Some by (subst scrub_key_ascii.simps) (simp only: if_True option.case defs Let_def)
      show ?thesis
      proof (cases "\<not> boundary_ok out pos \<or> start \<ge> stp")
        case True
        have "length out - start < length out - cursor" using bounds \<open>cursor < length out\<close> by simp
        from less.hyps [OF this less.prems] True unfold unfold' show ?thesis by simp
      next
        case False
        have "length (replace_range start stp ''***'' out) - (start + 3) < length out - cursor"
          using bounds stp False by (simp add: replace_range_def) linarith
        moreover have "ascii (replace_range start stp ''***'' out)" by (rule ascii_replace [OF less.prems]) simp
        ultimately show ?thesis using less.hyps [of "replace_range start stp ''***'' out" "start + 3"] False unfold unfold' by simp
      qed
    qed
  qed
qed

lemma scrub_keys_on_ascii:
  assumes "lowers_ascii lower" and "list_all ascii keys" and "ascii err"
  shows "fold (\<lambda>key out. call_then out (scrub_key lower key 0)) keys (Returns err) = Returns (fold (\<lambda>key. scrub_key_ascii key 0) keys err)
    \<and> ascii (fold (\<lambda>key. scrub_key_ascii key 0) keys err)"
  using assms(2,3) by (induction keys arbitrary: err) (simp_all add: scrub_key_on_ascii [OF assms(1)])

lemma ascii_scrub_userinfo: "ascii out \<Longrightarrow> ascii (scrub_userinfo out)"
  by (auto simp: scrub_userinfo_def Let_def intro!: ascii_replace split: option.split)

lemma ascii_scrub_telegram: "ascii out \<Longrightarrow> ascii (scrub_telegram out)"
  by (auto simp: scrub_telegram_def Let_def intro!: ascii_replace split: option.split)

lemma scrub_after_on_ascii:
  assumes "ascii out" and "\<And>c s. of_char c < (128 :: nat) \<Longrightarrow> P (c # s) = Q c"
  shows "scrub_after marker P out = scrub_after_ascii marker Q out" and "ascii (scrub_after_ascii marker Q out)"
  using find_end_ascii [where P = P and Q = Q, OF ascii_drop [OF assms(1)] assms(2)] assms(1)
  by (auto simp: scrub_after_def scrub_after_ascii_def Let_def intro!: ascii_replace split: option.split)

lemma credential_keys_ascii: "list_all ascii CREDENTIAL_KEYS"
  by code_simp

lemma scrub_credentials_on_ascii:
  assumes "lowers_ascii lower" and "ascii err"
  shows "scrub_credentials lower err = Returns (scrub_credentials_ascii err)" and "ascii (scrub_credentials_ascii err)"
proof -
  let ?o1 = "fold (\<lambda>key. scrub_key_ascii key 0) CREDENTIAL_KEYS err"
  note keys = scrub_keys_on_ascii [OF assms(1) credential_keys_ascii assms(2)]
  have o2: "ascii (scrub_userinfo ?o1)" using keys ascii_scrub_userinfo by blast
  have feishu: "scrub_feishu (scrub_userinfo ?o1) = scrub_feishu_ascii (scrub_userinfo ?o1)"
    and o3: "ascii (scrub_feishu_ascii (scrub_userinfo ?o1))"
    using scrub_after_on_ascii [OF o2, of "\<lambda>s. s \<noteq> [] \<and> hd s = CHR ''/'' \<or> ends_tail s" "\<lambda>c. c = CHR ''/'' \<or> tail_end c" "''/hook/''"]
    by (simp_all add: scrub_feishu_def scrub_feishu_ascii_def ends_tail_ascii)
  have slack: "scrub_slack (scrub_feishu_ascii (scrub_userinfo ?o1)) = scrub_slack_ascii (scrub_feishu_ascii (scrub_userinfo ?o1))"
    and o4: "ascii (scrub_slack_ascii (scrub_feishu_ascii (scrub_userinfo ?o1)))"
    using scrub_after_on_ascii [OF o3, of ends_tail tail_end "''hooks.slack.com/services/''"]
    by (simp_all add: scrub_slack_def scrub_slack_ascii_def ends_tail_ascii)
  show "scrub_credentials lower err = Returns (scrub_credentials_ascii err)"
    using keys by (simp add: scrub_credentials_def scrub_keys_def scrub_credentials_ascii_def feishu slack)
  show "ascii (scrub_credentials_ascii err)"
    using ascii_scrub_telegram [OF o4] by (simp add: scrub_credentials_ascii_def)
qed

section \<open>Properties\<close>

text \<open>C14. No credential parameter of an ASCII text survives scrubbing: scrubbing returns, and in its result,
  wherever one of the credential keys followed by an equals sign stands as a word of its own, in any mixture
  of upper and lower case, the value after it, up to the next separator, is empty or the mask.\<close>

theorem no_credential_survives:
  assumes "lowers_ascii lower" and "ascii err" and "key \<in> set CREDENTIAL_KEYS"
  shows "\<exists>out. scrub_credentials lower err = Returns out \<and>
    (\<forall>i. lower (take (length key + 1) (drop i out)) = key @ ''='' \<and> (i = 0 \<or> \<not> word_char (out ! (i - 1))) \<longrightarrow>
       (let rest = drop (i + length key + 1) out in take (find_end ends_value rest) rest \<in> {[], ''***''}))"
proof -
  let ?out = "scrub_credentials_ascii err"
  note ascii = scrub_credentials_on_ascii [OF assms(1,2)]
  have key: "key \<noteq> []" "list_all word_char key" using keys_are_words assms(3) by (auto simp: list_all_iff)
  have lower: "to_lowercase key = key" using assms(3) by (auto simp: CREDENTIAL_KEYS_def to_lowercase_def lower_char_def)
  have clean: "clean key ?out"
    unfolding scrub_credentials_ascii_def scrub_feishu_ascii_def scrub_slack_ascii_def
    by (intro scrub_telegram_keeps scrub_after_keeps scrub_userinfo_keeps scrub_keys_clean [OF keys_are_words assms(3)] key)
      (simp_all add: tail_end_not_word feishu_end_not_word)
  have "take (find_end ends_value (drop (i + length key + 1) ?out)) (drop (i + length key + 1) ?out) \<in> {[], ''***''}"
    if at: "lower (take (length key + 1) (drop i ?out)) = key @ ''=''" and bnd: "i = 0 \<or> \<not> word_char (?out ! (i - 1))" for i
  proof -
    have "to_lowercase (take (length key + 1) (drop i ?out)) = key @ ''=''"
      using at assms(1) ascii_take [OF ascii_drop [OF ascii(2)]] by (simp add: lowers_ascii_def)
    then have "occurs key ?out i" unfolding occurs_def using lower by (metis lower_needle take_is_prefix to_lowercase_take)
    moreover have "boundary_ok ?out i" using bnd by (simp add: boundary_ok_def)
    ultimately have "masked (drop (i + length key + 1) ?out)" using clean by (simp add: clean_def clean_upto_def occurs_iff)
    moreover have "find_end ends_value (drop (i + length key + 1) ?out) = until value_end (drop (i + length key + 1) ?out)"
      by (rule find_end_ascii [where P = ends_value and Q = value_end, OF ascii_drop [OF ascii(2)] ends_value_ascii])
    ultimately show ?thesis by (simp only: masked_def until_def takeWhile_eq_take [symmetric])
  qed
  with ascii(1) show ?thesis by (auto simp: Let_def)
qed

theorem no_credential_survives_witness:
  "\<exists>out. scrub_credentials to_lowercase ''h?KEY=ab&x=1'' = Returns out \<and>
    (let rest = drop (2 + length ''key'' + 1) out in take (find_end ends_value rest) rest \<in> {[], ''***''})"
proof -
  have out: "scrub_credentials to_lowercase ''h?KEY=ab&x=1'' = Returns ''h?KEY=***&x=1''" by code_simp
  have "lowers_ascii to_lowercase" "ascii ''h?KEY=ab&x=1''" "''key'' \<in> set CREDENTIAL_KEYS"
    by (simp_all add: lowers_ascii_def CREDENTIAL_KEYS_def)
  note scrubbed = no_credential_survives [OF this]
  have "to_lowercase (take (length ''key'' + 1) (drop 2 ''h?KEY=***&x=1'')) = ''key'' @ ''=''"
    "(2 :: nat) = 0 \<or> \<not> word_char (''h?KEY=***&x=1'' ! (2 - 1))"
    by code_simp+
  with scrubbed show ?thesis unfolding out call.inject by blast
qed

text \<open>Not so for other texts: the capital I with a dot has two bytes and its lower case three, so the positions
  found behind it are one byte too far and the token stays.\<close>

definition lower_dotted :: "string \<Rightarrow> string" where
  "lower_dotted s = to_lowercase (replace_all [CHR 0xC4, CHR 0xB0] [CHR 0x69, CHR 0xCC, CHR 0x87] s)"

lemma dotted_capital_keeps_token:
  "scrub_credentials lower_dotted ([CHR 0xC4, CHR 0xB0] @ '': token=abc'') = Returns ([CHR 0xC4, CHR 0xB0] @ '': token=abc'')"
  by code_simp

end
