(* ===== verification/PushTypes.thy ===== *)
theory PushTypes
  imports Events
begin

text \<open>
  The data model of the data-push crate, \<open>heramind-data-push/src/types.rs\<close>: targets, schedules, retry and
  batch settings, delivery logs; and the filter with change detection of \<open>filter.rs\<close>.
\<close>

section \<open>Configuration\<close>

type_synonym push_target_id = string

datatype push_schedule = EventDriven "string list" | Interval u64

record push_retry_config =
  rc_max_retries :: u32
  rc_backoff_secs :: u64
  rc_max_backoff_secs :: u64

definition push_retry_config_default :: push_retry_config where
  "push_retry_config_default = \<lparr>rc_max_retries = 3, rc_backoff_secs = 5, rc_max_backoff_secs = 300\<rparr>"

datatype batch_format = Flat | Nested

record batch_config =
  bc_batch_size :: nat
  bc_batch_interval_ms :: u64
  bc_format :: batch_format

definition default_batch_size :: nat where
  "default_batch_size = 1"

definition default_batch_interval_ms :: u64 where
  "default_batch_interval_ms = 2000"

definition batch_config_default :: batch_config where
  "batch_config_default =
     \<lparr>bc_batch_size = default_batch_size, bc_batch_interval_ms = default_batch_interval_ms, bc_format = Flat\<rparr>"

definition batch_enabled :: "batch_config \<Rightarrow> bool" where
  "batch_enabled c = (bc_batch_size c > 1)"

datatype push_target_type = Webhook | Mqtt

fun show_target_type :: "push_target_type \<Rightarrow> string" where
  "show_target_type Webhook = ''webhook''"
| "show_target_type Mqtt = ''mqtt''"

record data_source_filter =
  source_patterns :: "string list"
  only_changes :: bool

record push_target =
  pt_id :: push_target_id
  pt_name :: string
  pt_enabled :: bool
  pt_target_type :: push_target_type
  pt_config :: json
  pt_schedule :: push_schedule
  pt_data_filter :: data_source_filter
  pt_template :: "string option"
  pt_retry_config :: push_retry_config
  pt_batch_config :: batch_config
  pt_created_at :: int
  pt_updated_at :: int

datatype delivery_status = DPending | DSuccess | DFailed | DRetrying

record delivery_log =
  dl_id :: uuid
  dl_target_id :: push_target_id
  dl_status :: delivery_status
  dl_data_source_id :: string
  dl_payload_sent :: string
  dl_response :: "string option"
  dl_attempts :: u32
  dl_created_at :: int
  dl_completed_at :: "int option"
  dl_error :: "string option"

record template_context =
  tc_source_id :: string
  tc_value :: json
  tc_timestamp :: int

record push_stats =
  ps_total_targets :: nat
  ps_active_targets :: nat
  ps_total_deliveries :: u64
  ps_successful_deliveries :: u64
  ps_failed_deliveries :: u64

definition push_stats_default :: push_stats where
  "push_stats_default =
     \<lparr>ps_total_targets = 0, ps_active_targets = 0, ps_total_deliveries = 0, ps_successful_deliveries = 0,
      ps_failed_deliveries = 0\<rparr>"

section \<open>Filtering\<close>

definition pattern_matches :: "string \<Rightarrow> string \<Rightarrow> bool" where
  "pattern_matches pattern source_id =
     (if pattern = ''*'' then True
      else case strip_suffix ''*'' pattern of
             Some p \<Rightarrow> starts_with source_id p
           | None \<Rightarrow> starts_with source_id pattern \<or> source_id = pattern)"

definition push_filter_matches :: "data_source_filter \<Rightarrow> string \<Rightarrow> bool" where
  "push_filter_matches f source_id =
     (if source_patterns f = [] then True
      else list_ex (\<lambda>pattern. pattern_matches pattern source_id) (source_patterns f))"

record data_source_matcher =
  dm_filter :: data_source_filter
  dm_last_values :: "(string, string) hash_map"

definition MAX_LAST_VALUES :: nat where
  "MAX_LAST_VALUES = 4096"

definition matcher_new :: "data_source_filter \<Rightarrow> data_source_matcher" where
  "matcher_new f = \<lparr>dm_filter = f, dm_last_values = []\<rparr>"

text \<open>A full map that meets a new source keeps half of its entries: those that come first in the
  iteration order of the hash map, which is the argument \<open>iter\<close>.\<close>

type_synonym map_order = "(string, string) hash_map \<Rightarrow> (string, string) hash_map"

definition make_room :: "map_order \<Rightarrow> string \<Rightarrow> (string, string) hash_map \<Rightarrow> (string, string) hash_map" where
  "make_room iter source_id m =
     (if length m \<ge> MAX_LAST_VALUES \<and> \<not> hm_contains m source_id then take (MAX_LAST_VALUES div 2) (iter m) else m)"

definition should_push ::
    "map_order \<Rightarrow> string \<Rightarrow> string \<Rightarrow> data_source_matcher \<Rightarrow> bool \<times> data_source_matcher" where
  "should_push iter source_id val m =
     (if \<not> push_filter_matches (dm_filter m) source_id then (False, m)
      else if only_changes (dm_filter m) \<and> hm_get (dm_last_values m) source_id = Some val then (False, m)
      else (True, m\<lparr>dm_last_values := hm_insert source_id val (make_room iter source_id (dm_last_values m))\<rparr>))"

section \<open>Lemmas on filtering\<close>

text \<open>The order of iteration of a map enumerates its entries.\<close>

definition enumerates :: "map_order \<Rightarrow> bool" where
  "enumerates iter \<longleftrightarrow> (\<forall>m. set (iter m) \<subseteq> set m \<and> (distinct (map fst m) \<longrightarrow> distinct (map fst (iter m))))"

lemma filter_matches_iff:
  "push_filter_matches f source_id \<longleftrightarrow>
     source_patterns f = [] \<or> (\<exists>p \<in> set (source_patterns f). starts_with source_id p \<or> (\<exists>q. p = q @ ''*'' \<and> starts_with source_id q))"
proof -
  have "pattern_matches p source_id \<longleftrightarrow> starts_with source_id p \<or> (\<exists>q. p = q @ ''*'' \<and> starts_with source_id q)" for p
  proof (cases "strip_suffix ''*'' p")
    case None
    then have "\<not> (\<exists>q. p = q @ ''*'')" using strip_suffix_Some by (metis option.distinct(1))
    with None show ?thesis by (auto simp: pattern_matches_def)
  next
    case (Some q)
    then have "p = q @ ''*''" by simp
    then show ?thesis by (auto simp: pattern_matches_def strip_suffix_def dest: append_prefixD)
  qed
  then show ?thesis by (auto simp: push_filter_matches_def list_ex_iff)
qed

lemma should_push_filter: "should_push iter s v m = (b, m') \<Longrightarrow> dm_filter m' = dm_filter m"
  by (auto simp: should_push_def split: if_splits)

lemma make_room_map:
  assumes "enumerates iter" and "distinct (map fst m)"
  shows "distinct (map fst (make_room iter s m))" and "set (make_room iter s m) \<subseteq> set m"
    and "length m \<le> MAX_LAST_VALUES \<Longrightarrow> length (make_room iter s m) < MAX_LAST_VALUES \<or> make_room iter s m = m \<and> hm_contains m s"
proof -
  have "distinct (map fst (iter m))" "set (iter m) \<subseteq> set m" using assms by (auto simp: enumerates_def)
  then show "distinct (map fst (make_room iter s m))" "set (make_room iter s m) \<subseteq> set m"
    using assms(2) by (auto simp: make_room_def take_map [symmetric] distinct_take dest: in_set_takeD)
  show "length (make_room iter s m) < MAX_LAST_VALUES \<or> make_room iter s m = m \<and> hm_contains m s" if "length m \<le> MAX_LAST_VALUES"
    using that by (auto simp: make_room_def MAX_LAST_VALUES_def)
qed


section \<open>Change detection\<close>

text \<open>The events of a run that the matcher lets through.\<close>

fun pushed :: "map_order \<Rightarrow> (string \<times> string) list \<Rightarrow> data_source_matcher \<Rightarrow> (string \<times> string) list \<times> data_source_matcher" where
  "pushed iter [] m = ([], m)"
| "pushed iter ((s, v) # es) m =
     (let (b, m) = should_push iter s v m; (ps, m) = pushed iter es m in (if b then (s, v) # ps else ps, m))"

abbreviation values_of :: "string \<Rightarrow> (string \<times> string) list \<Rightarrow> string list" where
  "values_of s es \<equiv> map snd (filter (\<lambda>e. fst e = s) es)"

lemma make_room_unneeded:
  assumes "distinct (map fst m)" and "card (insert s (fst ` set m)) \<le> MAX_LAST_VALUES"
  shows "make_room iter s m = m"
proof -
  have "length m = card (fst ` set m)" using assms(1) by (metis distinct_card length_map list.set_map)
  with assms(2) show ?thesis by (auto simp: make_room_def)
qed

lemma last_values_bounded:
  assumes "enumerates iter" and "distinct (map fst (dm_last_values m))" and "length (dm_last_values m) \<le> MAX_LAST_VALUES"
  shows "length (dm_last_values (snd (pushed iter es m))) \<le> MAX_LAST_VALUES"
  using assms(2,3)
proof (induction es arbitrary: m)
  case (Cons e es)
  obtain s v where e: "e = (s, v)" by (cases e)
  obtain b m' where sp: "should_push iter s v m = (b, m')" by fastforce
  note room = make_room_map [OF assms(1) Cons.prems(1), of s]
  have len: "length (hm_insert s v (make_room iter s (dm_last_values m))) \<le> MAX_LAST_VALUES"
    using room(3) [OF Cons.prems(2)] Cons.prems(2) by (elim disjE conjE) (simp_all add: hm_length_insert)
  have "distinct (map fst (dm_last_values m')) \<and> length (dm_last_values m') \<le> MAX_LAST_VALUES"
    using sp Cons.prems room(1) len by (auto simp: should_push_def split: if_splits)
  with Cons.IH [of m'] e sp show ?case by (simp split: prod.splits) (metis snd_conv)
qed simp

text \<open>The values still to be pushed for a source whose last pushed value is \<open>u\<close>.\<close>

definition changes_after :: "string option \<Rightarrow> string list \<Rightarrow> string list" where
  "changes_after u vs = (case u of None \<Rightarrow> remdups_adj vs | Some w \<Rightarrow> tl (remdups_adj (w # vs)))"

lemma changes_after_Cons:
  "changes_after u (v # vs) = (if u = Some v then changes_after u vs else v # changes_after (Some v) vs)"
  by (cases u; cases vs) (auto simp: changes_after_def remdups_adj_Cons split: list.splits)

lemma changes_after_Nil [simp]: "changes_after u [] = []"
  by (cases u) (auto simp: changes_after_def)

lemma pushed_changes:
  assumes "only_changes (dm_filter m)" and "distinct (map fst (dm_last_values m))"
    and "card (fst ` set es \<union> fst ` set (dm_last_values m)) \<le> MAX_LAST_VALUES"
  shows "values_of s (fst (pushed iter es m)) =
    (if push_filter_matches (dm_filter m) s then changes_after (hm_get (dm_last_values m) s) (values_of s es) else [])"
  using assms
proof (induction es arbitrary: m)
  case (Cons e es)
  obtain t v where e: "e = (t, v)" by (cases e)
  obtain b m' where sp: "should_push iter t v m = (b, m')" by fastforce
  have "card (insert t (fst ` set (dm_last_values m))) \<le> MAX_LAST_VALUES"
    using Cons.prems(3) card_mono [of "fst ` set (e # es) \<union> fst ` set (dm_last_values m)" "insert t (fst ` set (dm_last_values m))"] e
    by fastforce
  with Cons.prems have room: "make_room iter t (dm_last_values m) = dm_last_values m" by (intro make_room_unneeded)
  have m': "dm_filter m' = dm_filter m" "distinct (map fst (dm_last_values m'))"
    "dm_last_values m' = (if b then hm_insert t v (dm_last_values m) else dm_last_values m)"
    "b \<longleftrightarrow> push_filter_matches (dm_filter m) t \<and> hm_get (dm_last_values m) t \<noteq> Some v"
    using sp Cons.prems(1,2) room by (auto simp: should_push_def split: if_splits)
  have "fst ` set es \<union> fst ` set (dm_last_values m') \<subseteq> fst ` set (e # es) \<union> fst ` set (dm_last_values m)"
    using m'(3) e by (auto simp: hm_keys_insert)
  with Cons.prems(3) have "card (fst ` set es \<union> fst ` set (dm_last_values m')) \<le> MAX_LAST_VALUES"
    by (meson List.finite_set card_mono finite_UnI finite_imageI le_trans)
  with Cons.IH [of m'] Cons.prems(1) m' have IH: "values_of s (fst (pushed iter es m')) =
    (if push_filter_matches (dm_filter m) s then changes_after (hm_get (dm_last_values m') s) (values_of s es) else [])" by simp
  have "fst (pushed iter (e # es) m) = (if b then e # fst (pushed iter es m') else fst (pushed iter es m'))"
    using e sp by (simp split: prod.splits)
  with IH m'(3,4) e show ?case by (auto simp: changes_after_Cons)
qed simp

text \<open>Change detection is exact: with \<open>only_changes\<close> and at most \<open>MAX_LAST_VALUES\<close> sources, the values
  pushed for a source the filter accepts are the values it reported with adjacent repetitions
  removed, and nothing is pushed for any other source.\<close>

lemma only_changes_pushed:
  assumes "only_changes f" and "card (fst ` set es) \<le> MAX_LAST_VALUES"
  shows "values_of s (fst (pushed iter es (matcher_new f))) = (if push_filter_matches f s then remdups_adj (values_of s es) else [])"
  using pushed_changes [of "matcher_new f" es s iter] assms by (simp add: matcher_new_def changes_after_def)

end
