(* ===== verification/PushStore.thy ===== *)
theory PushStore
  imports PushTypes Redb
begin

text \<open>
  \<open>DataPushStore\<close> of \<open>heramind-data-push/src/store.rs\<close>: push targets and delivery logs in a database. Errors
  are texts (\<open>anyhow\<close>); the JSON codecs are parameters. An entry that does not parse is treated as
  absent by the readers and skipped by the clean-up.
\<close>

section \<open>The store\<close>

definition TARGETS_TABLE :: string where
  "TARGETS_TABLE = ''push_targets''"

definition LOGS_TABLE :: string where
  "LOGS_TABLE = ''delivery_logs''"

record push_codec =
  target_to_str :: "push_target \<Rightarrow> (string, string) rust_result"
  target_from_str :: "string \<Rightarrow> (string, push_target) rust_result"
  log_to_str :: "delivery_log \<Rightarrow> (string, string) rust_result"
  log_from_str :: "string \<Rightarrow> (string, delivery_log) rust_result"

definition push_codec_laws :: "push_codec \<Rightarrow> bool" where
  "push_codec_laws cd \<longleftrightarrow>
     (\<forall>t v. target_to_str cd t = Inr v \<longrightarrow> target_from_str cd v = Inr t) \<and>
     (\<forall>l v. log_to_str cd l = Inr v \<longrightarrow> log_from_str cd v = Inr l)"

text \<open>\<open>open\<close> and \<open>memory\<close>: a fresh or existing database in which both tables have been opened for writing.\<close>

definition ps_open :: "'d redb \<Rightarrow> (string, 'd) rust_result \<Rightarrow> (string, 'd) rust_result" where
  "ps_open rd created =
     and_then created (\<lambda>db.
     and_then (begin_write rd db) (\<lambda>w.
     and_then (open_write rd TARGETS_TABLE w) (\<lambda>w.
     and_then (open_write rd LOGS_TABLE w) (\<lambda>w.
     commit rd w))))"

definition save_target :: "'d redb \<Rightarrow> push_codec \<Rightarrow> push_target \<Rightarrow> 'd \<Rightarrow> (string, 'd) rust_result" where
  "save_target rd cd target db =
     and_then (begin_write rd db) (\<lambda>w.
     and_then (open_write rd TARGETS_TABLE w) (\<lambda>w.
     and_then (target_to_str cd target) (\<lambda>json.
     and_then (tbl_insert rd TARGETS_TABLE (pt_id target) json w) (\<lambda>w.
     commit rd w))))"

definition load_target :: "'d redb \<Rightarrow> push_codec \<Rightarrow> string \<Rightarrow> 'd \<Rightarrow> (string, push_target option) rust_result" where
  "load_target rd cd i db =
     and_then (begin_read rd db) (\<lambda>t.
     and_then (open_read rd TARGETS_TABLE t) (\<lambda>t.
     and_then (tbl_get rd TARGETS_TABLE i t) (\<lambda>v.
     Inr (Option.bind v (\<lambda>v. ok (target_from_str cd v))))))"

definition list_targets :: "'d redb \<Rightarrow> push_codec \<Rightarrow> 'd \<Rightarrow> (string, push_target list) rust_result" where
  "list_targets rd cd db =
     and_then (begin_read rd db) (\<lambda>t.
     and_then (open_read rd TARGETS_TABLE t) (\<lambda>t.
     and_then (tbl_iter rd TARGETS_TABLE t) (\<lambda>es.
     and_then (collect_results es) (\<lambda>kvs.
     Inr (List.map_filter (\<lambda>(_, v). ok (target_from_str cd v)) kvs)))))"

definition delete_target :: "'d redb \<Rightarrow> string \<Rightarrow> 'd \<Rightarrow> (string, bool \<times> 'd) rust_result" where
  "delete_target rd i db =
     and_then (begin_write rd db) (\<lambda>w.
     and_then (open_write rd TARGETS_TABLE w) (\<lambda>w.
     and_then (tbl_get rd TARGETS_TABLE i w) (\<lambda>v.
     let existed = (v \<noteq> None) in
     and_then (if existed then and_then (tbl_remove rd TARGETS_TABLE i w) (\<lambda>(_, w). Inr w) else Inr w) (\<lambda>w.
     and_then (commit rd w) (\<lambda>db'. Inr (existed, db'))))))"

definition save_delivery_log :: "'d redb \<Rightarrow> push_codec \<Rightarrow> delivery_log \<Rightarrow> 'd \<Rightarrow> (string, 'd) rust_result" where
  "save_delivery_log rd cd log db =
     and_then (begin_write rd db) (\<lambda>w.
     and_then (open_write rd LOGS_TABLE w) (\<lambda>w.
     and_then (log_to_str cd log) (\<lambda>json.
     and_then (tbl_insert rd LOGS_TABLE (dl_id log) json w) (\<lambda>w.
     commit rd w))))"

definition update_delivery_log :: "'d redb \<Rightarrow> push_codec \<Rightarrow> delivery_log \<Rightarrow> 'd \<Rightarrow> (string, 'd) rust_result" where
  "update_delivery_log rd cd log db = save_delivery_log rd cd log db"

definition list_delivery_logs ::
    "'d redb \<Rightarrow> push_codec \<Rightarrow> string \<Rightarrow> nat \<Rightarrow> nat \<Rightarrow> 'd \<Rightarrow> (string, delivery_log list \<times> nat) rust_result" where
  "list_delivery_logs rd cd target_id limit offset db =
     and_then (begin_read rd db) (\<lambda>t.
     and_then (open_read rd LOGS_TABLE t) (\<lambda>t.
     and_then (tbl_iter rd LOGS_TABLE t) (\<lambda>es.
     and_then (collect_results es) (\<lambda>kvs.
     let all = filter (\<lambda>l. dl_target_id l = target_id) (List.map_filter (\<lambda>(_, v). ok (log_from_str cd v)) kvs);
         all = sort_key (\<lambda>l. - dl_created_at l) all
     in Inr (take limit (drop offset all), length all)))))"

fun remove_log_keys :: "'d redb \<Rightarrow> string list \<Rightarrow> 'd \<Rightarrow> (string, 'd) rust_result" where
  "remove_log_keys rd [] w = Inr w"
| "remove_log_keys rd (k # ks) w = and_then (tbl_remove rd LOGS_TABLE k w) (\<lambda>(_, w). remove_log_keys rd ks w)"

definition expired_log :: "push_codec \<Rightarrow> int \<Rightarrow> string \<Rightarrow> bool" where
  "expired_log cd before_ts v = (case log_from_str cd v of Inr l \<Rightarrow> dl_created_at l < before_ts | Inl _ \<Rightarrow> False)"

definition cleanup_logs :: "'d redb \<Rightarrow> push_codec \<Rightarrow> int \<Rightarrow> 'd \<Rightarrow> (string, nat \<times> 'd) rust_result" where
  "cleanup_logs rd cd before_ts db =
     and_then (begin_write rd db) (\<lambda>w.
     and_then (open_write rd LOGS_TABLE w) (\<lambda>w.
     and_then (tbl_iter rd LOGS_TABLE w) (\<lambda>es.
     and_then (collect_results es) (\<lambda>kvs.
     let to_remove = map fst (filter (\<lambda>(_, v). expired_log cd before_ts v) kvs) in
     and_then (remove_log_keys rd to_remove w) (\<lambda>w.
     and_then (commit rd w) (\<lambda>db'. Inr (length to_remove, db')))))))"

section \<open>The store as two finite maps\<close>

definition target_map :: "push_codec \<Rightarrow> 'd contents \<Rightarrow> 'd \<Rightarrow> string \<Rightarrow> push_target option" where
  "target_map cd c db i = Option.bind (c db TARGETS_TABLE i) (\<lambda>v. ok (target_from_str cd v))"

definition log_map :: "push_codec \<Rightarrow> 'd contents \<Rightarrow> 'd \<Rightarrow> string \<Rightarrow> delivery_log option" where
  "log_map cd c db i = Option.bind (c db LOGS_TABLE i) (\<lambda>v. ok (log_from_str cd v))"


lemma save_target_maps:
  assumes L: "redb_laws rd c" and K: "push_codec_laws cd" and "save_target rd cd t db = Inr db'"
  shows "target_map cd c db' = (target_map cd c db)(pt_id t \<mapsto> t)" and "log_map cd c db' = log_map cd c db"
proof -
  from assms(3) obtain v where v: "target_to_str cd t = Inr v"
    and "c db' = (c db)(TARGETS_TABLE := (c db TARGETS_TABLE)(pt_id t \<mapsto> v))"
    by (auto simp: save_target_def redb_snapshots [OF L] redb_insert [OF L])
  moreover have "target_from_str cd v = Inr t" using K v by (simp add: push_codec_laws_def)
  ultimately show "target_map cd c db' = (target_map cd c db)(pt_id t \<mapsto> t)" "log_map cd c db' = log_map cd c db"
    by (auto simp: target_map_def log_map_def TARGETS_TABLE_def LOGS_TABLE_def)
qed

lemma save_delivery_log_maps:
  assumes L: "redb_laws rd c" and K: "push_codec_laws cd" and "save_delivery_log rd cd l db = Inr db'"
  shows "log_map cd c db' = (log_map cd c db)(dl_id l \<mapsto> l)" and "target_map cd c db' = target_map cd c db"
proof -
  from assms(3) obtain v where v: "log_to_str cd l = Inr v"
    and "c db' = (c db)(LOGS_TABLE := (c db LOGS_TABLE)(dl_id l \<mapsto> v))"
    by (auto simp: save_delivery_log_def redb_snapshots [OF L] redb_insert [OF L])
  moreover have "log_from_str cd v = Inr l" using K v by (simp add: push_codec_laws_def)
  ultimately show "log_map cd c db' = (log_map cd c db)(dl_id l \<mapsto> l)" "target_map cd c db' = target_map cd c db"
    by (auto simp: target_map_def log_map_def TARGETS_TABLE_def LOGS_TABLE_def)
qed

lemma delete_target_maps:
  assumes L: "redb_laws rd c" and "delete_target rd i db = Inr (b, db')"
  shows "target_map cd c db' = (target_map cd c db)(i := None)" and "log_map cd c db' = log_map cd c db"
    and "b \<longleftrightarrow> c db TARGETS_TABLE i \<noteq> None"
proof -
  from assms(2) obtain w1 w2 v w3 where "begin_write rd db = Inr w1" "open_write rd TARGETS_TABLE w1 = Inr w2"
    and v: "tbl_get rd TARGETS_TABLE i w2 = Inr v" and b: "b = (v \<noteq> None)"
    and w3: "(if v \<noteq> None then and_then (tbl_remove rd TARGETS_TABLE i w2) (\<lambda>(_, w). Inr w) else Inr w2) = Inr w3"
    and "commit rd w3 = Inr db'"
    by (auto simp: delete_target_def Let_def)
  then have c: "c w2 = c db" "c db' = c w3" by (simp_all add: redb_snapshots [OF L])
  have v: "v = c db TARGETS_TABLE i" using redb_get [OF L v] c by simp
  then show "b \<longleftrightarrow> c db TARGETS_TABLE i \<noteq> None" using b by simp
  have "c w3 = (c db)(TARGETS_TABLE := (c db TARGETS_TABLE)(i := None))"
  proof (cases v)
    case None
    with w3 c v show ?thesis by (auto simp: fun_upd_idem)
  next
    case (Some x)
    with w3 c redb_remove [OF L, of TARGETS_TABLE i w2] show ?thesis by auto
  qed
  with c show "target_map cd c db' = (target_map cd c db)(i := None)" "log_map cd c db' = log_map cd c db"
    by (auto simp: target_map_def log_map_def TARGETS_TABLE_def LOGS_TABLE_def)
qed

lemma delete_target_contents:
  assumes L: "redb_laws rd c" and "delete_target rd i db = Inr (b, db')"
  shows "c db' TARGETS_TABLE = (c db TARGETS_TABLE)(i := None)"
proof -
  from assms(2) obtain w1 w2 v w3 where "begin_write rd db = Inr w1" "open_write rd TARGETS_TABLE w1 = Inr w2"
    and v: "tbl_get rd TARGETS_TABLE i w2 = Inr v"
    and w3: "(if v \<noteq> None then and_then (tbl_remove rd TARGETS_TABLE i w2) (\<lambda>(_, w). Inr w) else Inr w2) = Inr w3"
    and "commit rd w3 = Inr db'"
    by (auto simp: delete_target_def Let_def)
  then have c: "c w2 = c db" "c db' = c w3" by (simp_all add: redb_snapshots [OF L])
  have got: "v = c db TARGETS_TABLE i" using redb_get [OF L v] c by simp
  show ?thesis
  proof (cases v)
    case None
    with w3 c got show ?thesis by (auto simp: fun_upd_idem)
  next
    case (Some x)
    with w3 c redb_remove [OF L, of TARGETS_TABLE i w2] show ?thesis by auto
  qed
qed

lemma load_target_map:
  assumes L: "redb_laws rd c" and "load_target rd cd i db = Inr r"
  shows "r = target_map cd c db i"
proof -
  from assms(2) obtain t u v where rd: "begin_read rd db = Inr t" "open_read rd TARGETS_TABLE t = Inr u"
    "tbl_get rd TARGETS_TABLE i u = Inr v" and r: "r = Option.bind v (\<lambda>v. ok (target_from_str cd v))"
    by (auto simp: load_target_def)
  with redb_get [OF L rd(3)] show ?thesis by (simp add: redb_snapshots [OF L] target_map_def)
qed

lemma list_targets_set:
  assumes L: "redb_laws rd c" and "list_targets rd cd db = Inr ts"
  shows "set ts = ran (target_map cd c db)"
    and "length (filter P ts) = card {i. \<exists>t. target_map cd c db i = Some t \<and> P t}"
proof -
  from assms(2) obtain t u kvs where rd: "begin_read rd db = Inr t" "open_read rd TARGETS_TABLE t = Inr u"
    "tbl_iter rd TARGETS_TABLE u = Inr (map Inr kvs)" and ts: "ts = List.map_filter (\<lambda>(_, v). ok (target_from_str cd v)) kvs"
    by (auto simp: list_targets_def collect_results_Inr_iff)
  with redb_iter [OF L rd(3)] have "distinct (map fst kvs)" "map_of kvs = c db TARGETS_TABLE"
    by (simp_all add: redb_snapshots [OF L])
  from decoded_table [OF this] ts show "set ts = ran (target_map cd c db)"
    "length (filter P ts) = card {i. \<exists>t. target_map cd c db i = Some t \<and> P t}"
    by (simp_all add: target_map_def [abs_def])
qed


definition logs_of :: "push_codec \<Rightarrow> 'd contents \<Rightarrow> 'd \<Rightarrow> string \<Rightarrow> string set" where
  "logs_of cd c db target_id = {i. \<exists>l. log_map cd c db i = Some l \<and> dl_target_id l = target_id}"

lemma remove_log_keys_contents:
  assumes L: "redb_laws rd c" and "remove_log_keys rd ks w = Inr w'"
  shows "c w' = (c w)(LOGS_TABLE := (\<lambda>k. if k \<in> set ks then None else c w LOGS_TABLE k))"
  using assms(2)
proof (induction ks arbitrary: w)
  case (Cons k ks)
  then obtain b u where "tbl_remove rd LOGS_TABLE k w = Inr (b, u)" and rest: "remove_log_keys rd ks u = Inr w'" by auto
  with Cons.IH [OF rest] redb_remove [OF L] show ?case by fastforce
qed simp

lemma cleanup_logs_maps:
  assumes L: "redb_laws rd c" and "cleanup_logs rd cd before_ts db = Inr (n, db')"
  shows "log_map cd c db' = (\<lambda>i. case log_map cd c db i of Some l \<Rightarrow> if dl_created_at l < before_ts then None else Some l | None \<Rightarrow> None)"
    and "target_map cd c db' = target_map cd c db"
    and "n = card {i. \<exists>l. log_map cd c db i = Some l \<and> dl_created_at l < before_ts}"
proof -
  from assms(2) obtain w1 w2 kvs w3 where w: "begin_write rd db = Inr w1" "open_write rd LOGS_TABLE w1 = Inr w2"
    "tbl_iter rd LOGS_TABLE w2 = Inr (map Inr kvs)"
    and rm: "remove_log_keys rd (map fst (filter (\<lambda>(_, v). expired_log cd before_ts v) kvs)) w2 = Inr w3"
    and "commit rd w3 = Inr db'" and n: "n = length (filter (\<lambda>(_, v). expired_log cd before_ts v) kvs)"
    by (auto simp: cleanup_logs_def collect_results_Inr_iff Let_def)
  then have c: "c w2 = c db" "c db' = c w3" by (simp_all add: redb_snapshots [OF L])
  from redb_iter [OF L w(3)] c have kvs: "distinct (map fst kvs)" "map_of kvs = c db LOGS_TABLE" by simp_all
  then have mem: "(k, v) \<in> set kvs \<longleftrightarrow> c db LOGS_TABLE k = Some v" for k v by (metis map_of_eq_Some_iff)
  have removed: "k \<in> set (map fst (filter (\<lambda>(_, v). expired_log cd before_ts v) kvs)) \<longleftrightarrow>
      (\<exists>l. log_map cd c db k = Some l \<and> dl_created_at l < before_ts)" for k
  proof -
    have "k \<in> set (map fst (filter (\<lambda>(_, v). expired_log cd before_ts v) kvs)) \<longleftrightarrow>
        (\<exists>v. c db LOGS_TABLE k = Some v \<and> expired_log cd before_ts v)" using mem by force
    also have "\<dots> \<longleftrightarrow> (\<exists>l. log_map cd c db k = Some l \<and> dl_created_at l < before_ts)"
      by (cases "c db LOGS_TABLE k") (auto simp: log_map_def expired_log_def split: sum.splits)
    finally show ?thesis .
  qed
  have db': "c db' = (c db)(LOGS_TABLE := (\<lambda>k. if \<exists>l. log_map cd c db k = Some l \<and> dl_created_at l < before_ts then None
      else c db LOGS_TABLE k))"
    unfolding c remove_log_keys_contents [OF L rm] removed ..
  then show "target_map cd c db' = target_map cd c db"
    by (simp add: target_map_def [abs_def] TARGETS_TABLE_def LOGS_TABLE_def)
  have "log_map cd c db' i = (case log_map cd c db i of Some l \<Rightarrow> if dl_created_at l < before_ts then None else Some l | None \<Rightarrow> None)" for i
    using db' by (cases "log_map cd c db i") (auto simp: log_map_def)
  then show "log_map cd c db' = (\<lambda>i. case log_map cd c db i of Some l \<Rightarrow> if dl_created_at l < before_ts then None else Some l | None \<Rightarrow> None)" by blast
  have "n = card (set (map fst (filter (\<lambda>(_, v). expired_log cd before_ts v) kvs)))"
    using n kvs(1) by (metis (no_types, lifting) distinct_card distinct_map_filter length_map)
  then show "n = card {i. \<exists>l. log_map cd c db i = Some l \<and> dl_created_at l < before_ts}"
    unfolding removed [symmetric] by simp
qed

lemma cleanup_logs_targets:
  assumes L: "redb_laws rd c" and "cleanup_logs rd cd before_ts db = Inr (n, db')"
  shows "c db' TARGETS_TABLE = c db TARGETS_TABLE"
proof -
  from assms(2) obtain w1 w2 w3 ks where "begin_write rd db = Inr w1" "open_write rd LOGS_TABLE w1 = Inr w2"
    "remove_log_keys rd ks w2 = Inr w3" "commit rd w3 = Inr db'"
    by (auto simp: cleanup_logs_def Let_def)
  with remove_log_keys_contents [OF L this(3)] show ?thesis
    by (simp add: redb_snapshots [OF L] TARGETS_TABLE_def LOGS_TABLE_def)
qed

section \<open>Refinement\<close>

text \<open>One call of the store with its answer. A call that fails returns before the commit, so the database stays.\<close>

datatype push_store_op =
    OpSaveTarget push_target
  | OpLoadTarget string
  | OpListTargets
  | OpDeleteTarget string
  | OpSaveLog delivery_log
  | OpUpdateLog delivery_log
  | OpListLogs string nat nat
  | OpCleanup int

datatype push_store_answer =
    Done
  | TheTarget "push_target option"
  | TheTargets "push_target list"
  | Deleted bool
  | TheLogs "delivery_log list" nat
  | Removed nat

definition written :: "'d \<Rightarrow> (string, 'd) rust_result \<Rightarrow> (string, push_store_answer) rust_result \<times> 'd" where
  "written db r = (case r of Inl e \<Rightarrow> (Inl e, db) | Inr db' \<Rightarrow> (Inr Done, db'))"

fun push_store_step ::
    "'d redb \<Rightarrow> push_codec \<Rightarrow> push_store_op \<Rightarrow> 'd \<Rightarrow> (string, push_store_answer) rust_result \<times> 'd" where
  "push_store_step rd cd (OpSaveTarget t) db = written db (save_target rd cd t db)"
| "push_store_step rd cd (OpLoadTarget i) db = (map_sum id TheTarget (load_target rd cd i db), db)"
| "push_store_step rd cd OpListTargets db = (map_sum id TheTargets (list_targets rd cd db), db)"
| "push_store_step rd cd (OpDeleteTarget i) db =
     (case delete_target rd i db of Inl e \<Rightarrow> (Inl e, db) | Inr (b, db') \<Rightarrow> (Inr (Deleted b), db'))"
| "push_store_step rd cd (OpSaveLog l) db = written db (save_delivery_log rd cd l db)"
| "push_store_step rd cd (OpUpdateLog l) db = written db (update_delivery_log rd cd l db)"
| "push_store_step rd cd (OpListLogs tid limit offset) db =
     (map_sum id (\<lambda>(page, tot). TheLogs page tot) (list_delivery_logs rd cd tid limit offset db), db)"
| "push_store_step rd cd (OpCleanup before_ts) db =
     (case cleanup_logs rd cd before_ts db of Inl e \<Rightarrow> (Inl e, db) | Inr (n, db') \<Rightarrow> (Inr (Removed n), db'))"

fun push_store_run ::
    "'d redb \<Rightarrow> push_codec \<Rightarrow> push_store_op list \<Rightarrow> 'd \<Rightarrow> (string, push_store_answer) rust_result list \<times> 'd" where
  "push_store_run rd cd [] db = ([], db)"
| "push_store_run rd cd (x # xs) db =
     (let (r, db) = push_store_step rd cd x db; (rs, db) = push_store_run rd cd xs db in (r # rs, db))"

text \<open>The specification: two finite maps, what a call does to them, and what it may answer.\<close>

type_synonym push_maps = "(string \<Rightarrow> push_target option) \<times> (string \<Rightarrow> delivery_log option)"

fun spec_step :: "push_store_op \<Rightarrow> push_maps \<Rightarrow> push_maps" where
  "spec_step (OpSaveTarget t) (ts, ls) = (ts(pt_id t \<mapsto> t), ls)"
| "spec_step (OpDeleteTarget i) (ts, ls) = (ts(i := None), ls)"
| "spec_step (OpSaveLog l) (ts, ls) = (ts, ls(dl_id l \<mapsto> l))"
| "spec_step (OpUpdateLog l) (ts, ls) = (ts, ls(dl_id l \<mapsto> l))"
| "spec_step (OpCleanup before_ts) (ts, ls) =
     (ts, \<lambda>i. case ls i of Some l \<Rightarrow> if dl_created_at l < before_ts then None else Some l | None \<Rightarrow> None)"
| "spec_step _ maps = maps"

fun spec_answer :: "push_store_op \<Rightarrow> push_maps \<Rightarrow> push_store_answer \<Rightarrow> bool" where
  "spec_answer (OpLoadTarget i) (ts, ls) a \<longleftrightarrow> a = TheTarget (ts i)"
| "spec_answer OpListTargets (ts, ls) a \<longleftrightarrow> (\<exists>all. a = TheTargets all \<and> set all = ran ts \<and> length all = card (dom ts))"
| "spec_answer (OpDeleteTarget i) (ts, ls) a \<longleftrightarrow> a = Deleted (ts i \<noteq> None)"
| "spec_answer (OpListLogs tid limit offset) (ts, ls) a \<longleftrightarrow>
     (\<exists>all. a = TheLogs (take limit (drop offset all)) (length all) \<and> set all = {l \<in> ran ls. dl_target_id l = tid}
        \<and> sorted_wrt (\<lambda>l m. dl_created_at m \<le> dl_created_at l) all
        \<and> length all = card {i. \<exists>l. ls i = Some l \<and> dl_target_id l = tid})"
| "spec_answer (OpCleanup before_ts) (ts, ls) a \<longleftrightarrow> a = Removed (card {i. \<exists>l. ls i = Some l \<and> dl_created_at l < before_ts})"
| "spec_answer _ _ a \<longleftrightarrow> a = Done"

text \<open>A run the specification allows; a call may always fail, and then it changes nothing.\<close>

fun spec_run :: "push_store_op list \<Rightarrow> (string, push_store_answer) rust_result list \<Rightarrow> push_maps \<Rightarrow> push_maps \<Rightarrow> bool" where
  "spec_run [] [] maps maps' \<longleftrightarrow> maps' = maps"
| "spec_run (x # xs) (Inl e # rs) maps maps' \<longleftrightarrow> spec_run xs rs maps maps'"
| "spec_run (x # xs) (Inr a # rs) maps maps' \<longleftrightarrow> spec_answer x maps a \<and> spec_run xs rs (spec_step x maps) maps'"
| "spec_run _ _ _ _ \<longleftrightarrow> False"

definition maps_of :: "push_codec \<Rightarrow> 'd contents \<Rightarrow> 'd \<Rightarrow> push_maps" where
  "maps_of cd c db = (target_map cd c db, log_map cd c db)"

text \<open>Every stored target parses: so it is in a fresh store, and all operations keep it.\<close>

definition targets_parse :: "push_codec \<Rightarrow> 'd contents \<Rightarrow> 'd \<Rightarrow> bool" where
  "targets_parse cd c db \<longleftrightarrow> dom (c db TARGETS_TABLE) = dom (target_map cd c db)"

lemma list_targets_answer:
  assumes L: "redb_laws rd c" and "list_targets rd cd db = Inr ts"
  shows "spec_answer OpListTargets (maps_of cd c db) (TheTargets ts)"
  using list_targets_set(1) [OF assms] list_targets_set(2) [OF assms, of "\<lambda>_. True"] by (simp add: maps_of_def dom_def)

lemma delivery_log_listing:
  assumes "redb_laws rd c" and "list_delivery_logs rd cd tid limit offset db = Inr (page, tot)"
  shows "\<exists>all. set all = {l \<in> ran (log_map cd c db). dl_target_id l = tid}
    \<and> sorted_wrt (\<lambda>l m. dl_created_at m \<le> dl_created_at l) all
    \<and> tot = length all \<and> tot = card (logs_of cd c db tid) \<and> page = take limit (drop offset all)
    \<and> (\<forall>limit' offset'. list_delivery_logs rd cd tid limit' offset' db = Inr (take limit' (drop offset' all), tot))"
proof -
  let ?read = "\<lambda>kvs. filter (\<lambda>l. dl_target_id l = tid) (List.map_filter (\<lambda>(_, v). ok (log_from_str cd v)) kvs)"
  let ?all = "\<lambda>kvs. sort_key (\<lambda>l. - dl_created_at l) (?read kvs)"
  from assms(2) obtain t u kvs where rd: "begin_read rd db = Inr t" "open_read rd LOGS_TABLE t = Inr u"
    "tbl_iter rd LOGS_TABLE u = Inr (map Inr kvs)" and p: "page = take limit (drop offset (?all kvs))" "tot = length (?all kvs)"
    by (auto simp: list_delivery_logs_def collect_results_Inr_iff Let_def)
  have "collect_results (map Inr kvs) = Inr kvs" by (simp add: collect_results_Inr_iff)
  with rd p have all: "list_delivery_logs rd cd tid limit' offset' db = Inr (take limit' (drop offset' (?all kvs)), tot)" for limit' offset'
    by (simp add: list_delivery_logs_def Let_def)
  from redb_iter [OF assms(1) rd(3)] rd have "distinct (map fst kvs)" "map_of kvs = c db LOGS_TABLE"
    by (simp_all add: redb_snapshots [OF assms(1)])
  note dec = decoded_table [where dec = "\<lambda>v. ok (log_from_str cd v)", OF this]
  have "set (?all kvs) = {l \<in> ran (log_map cd c db). dl_target_id l = tid}"
    using dec(1) by (auto simp: log_map_def [abs_def])
  moreover have "sorted_wrt (\<lambda>l m. dl_created_at m \<le> dl_created_at l) (?all kvs)"
    using sorted_sort_key [of "\<lambda>l. - dl_created_at l" "?read kvs"] by (simp add: sorted_map)
  moreover have "tot = card (logs_of cd c db tid)"
    using p(2) dec(2) [of "\<lambda>l. dl_target_id l = tid"] by (simp add: logs_of_def log_map_def)
  ultimately show ?thesis using p all by blast
qed

lemma push_store_step_refines:
  assumes L: "redb_laws rd c" and K: "push_codec_laws cd" and P: "targets_parse cd c db"
    and "push_store_step rd cd x db = (r, db')"
  shows "targets_parse cd c db' \<and> (case r of Inl _ \<Rightarrow> maps_of cd c db' = maps_of cd c db
    | Inr a \<Rightarrow> spec_answer x (maps_of cd c db) a \<and> maps_of cd c db' = spec_step x (maps_of cd c db))"
proof (cases x)
  case (OpSaveTarget t)
  show ?thesis
  proof (cases "save_target rd cd t db")
    case (Inr d)
    then obtain v where "c d = (c db)(TARGETS_TABLE := (c db TARGETS_TABLE)(pt_id t \<mapsto> v))"
      by (auto simp: save_target_def redb_snapshots [OF L] redb_insert [OF L])
    with save_target_maps [OF L K Inr] P Inr OpSaveTarget assms(4) show ?thesis
      by (auto simp: written_def maps_of_def targets_parse_def)
  qed (use P assms(4) OpSaveTarget in \<open>auto simp: written_def\<close>)
next
  case (OpLoadTarget i)
  with P assms(4) load_target_map [OF L, of cd i db] show ?thesis
    by (cases "load_target rd cd i db") (auto simp: maps_of_def)
next
  case OpListTargets
  with P assms(4) list_targets_answer [OF L, of cd db] show ?thesis
    by (cases "list_targets rd cd db") (auto simp: maps_of_def)
next
  case (OpDeleteTarget i)
  show ?thesis
  proof (cases "delete_target rd i db")
    case (Inr p)
    obtain b d where p: "p = (b, d)" by fastforce
    note del = delete_target_maps [OF L Inr [unfolded p]]
    have "c d TARGETS_TABLE = (c db TARGETS_TABLE)(i := None)"
      using Inr p by (rule_tac delete_target_contents [OF L]) simp
    moreover have "b \<longleftrightarrow> target_map cd c db i \<noteq> None" using del(3) P by (auto simp: targets_parse_def dom_def set_eq_iff)
    ultimately show ?thesis
      using del(1,2) [of cd] P Inr p OpDeleteTarget assms(4) by (auto simp: maps_of_def targets_parse_def)
  qed (use P assms(4) OpDeleteTarget in auto)
next
  case (OpSaveLog l)
  show ?thesis
  proof (cases "save_delivery_log rd cd l db")
    case (Inr d)
    have "c d TARGETS_TABLE = c db TARGETS_TABLE"
      using Inr by (auto simp: save_delivery_log_def redb_snapshots [OF L] redb_insert [OF L] TARGETS_TABLE_def LOGS_TABLE_def)
    with save_delivery_log_maps [OF L K Inr] P Inr OpSaveLog assms(4) show ?thesis
      by (auto simp: written_def maps_of_def targets_parse_def)
  qed (use P assms(4) OpSaveLog in \<open>auto simp: written_def\<close>)
next
  case (OpUpdateLog l)
  show ?thesis
  proof (cases "save_delivery_log rd cd l db")
    case (Inr d)
    have "c d TARGETS_TABLE = c db TARGETS_TABLE"
      using Inr by (auto simp: save_delivery_log_def redb_snapshots [OF L] redb_insert [OF L] TARGETS_TABLE_def LOGS_TABLE_def)
    with save_delivery_log_maps [OF L K Inr] P Inr OpUpdateLog assms(4) show ?thesis
      by (auto simp: written_def maps_of_def targets_parse_def update_delivery_log_def)
  qed (use P assms(4) OpUpdateLog in \<open>auto simp: written_def update_delivery_log_def\<close>)
next
  case (OpListLogs tid limit offset)
  show ?thesis
  proof (cases "list_delivery_logs rd cd tid limit offset db")
    case (Inr p)
    obtain page tot where p: "p = (page, tot)" by fastforce
    from delivery_log_listing [OF L Inr [unfolded p]] obtain all where
      "set all = {l \<in> ran (log_map cd c db). dl_target_id l = tid}" "sorted_wrt (\<lambda>l m. dl_created_at m \<le> dl_created_at l) all"
      "tot = length all" "tot = card (logs_of cd c db tid)" "page = take limit (drop offset all)" by blast
    then have "spec_answer (OpListLogs tid limit offset) (maps_of cd c db) (TheLogs page tot)"
      unfolding maps_of_def spec_answer.simps logs_of_def by (intro exI [of _ all]) simp
    moreover from Inr p OpListLogs assms(4) have "r = Inr (TheLogs page tot)" "db' = db" by auto
    ultimately show ?thesis using P OpListLogs by (simp del: spec_answer.simps)
  qed (use P assms(4) OpListLogs in auto)
next
  case (OpCleanup before_ts)
  show ?thesis
  proof (cases "cleanup_logs rd cd before_ts db")
    case (Inr p)
    obtain n d where p: "p = (n, d)" by fastforce
    from Inr p OpCleanup assms(4) have "r = Inr (Removed n)" "db' = d" by auto
    with cleanup_logs_maps [OF L Inr [unfolded p]] cleanup_logs_targets [OF L Inr [unfolded p]] P OpCleanup
    show ?thesis by (simp add: maps_of_def targets_parse_def)
  qed (use P assms(4) OpCleanup in auto)
qed

text \<open>C23. The store of the data-push crate refines two finite maps: in any sequence of saves, loads, listings,
  deletions, log writes, log updates, pages of logs and clean-ups, each successful call answers what the
  maps prescribe (the entry, all entries, whether there was one, the page of the log entries of a target
  newest first with their number, the number of entries removed) and changes the store as it changes the maps,
  and a call that fails changes nothing. The run starts from a store whose stored targets parse.\<close>

theorem push_store_refines_maps:
  assumes "redb_laws rd c" and "push_codec_laws cd" and "targets_parse cd c db"
    and "push_store_run rd cd xs db = (rs, db')"
  shows "spec_run xs rs (maps_of cd c db) (maps_of cd c db')"
  using assms(3,4)
proof (induction xs arbitrary: db rs)
  case (Cons x xs)
  obtain r d where step: "push_store_step rd cd x db = (r, d)" by fastforce
  obtain rs' where rest: "push_store_run rd cd xs d = (rs', db')" and rs: "rs = r # rs'"
    using Cons.prems(2) step by (auto split: prod.splits)
  note one = push_store_step_refines [OF assms(1,2) Cons.prems(1) step]
  with Cons.IH [OF _ rest] have "spec_run xs rs' (maps_of cd c d) (maps_of cd c db')" by blast
  with one rs show ?case by (cases r) simp_all
qed simp

section \<open>Delivery logs\<close>

text \<open>Pages of the delivery log: what is listed for a target is a window of all its log entries, newest
  first; the total is their number; consecutive windows continue each other.\<close>

lemma delivery_log_pages:
  assumes "redb_laws rd c" and "list_delivery_logs rd cd target_id limit offset db = Inr (page, tot)"
    and "list_delivery_logs rd cd target_id limit' (offset + limit) db = Inr (next_page, tot')"
  shows "\<exists>all. set all = {l. l \<in> ran (log_map cd c db) \<and> dl_target_id l = target_id}
    \<and> sorted_wrt (\<lambda>l m. dl_created_at m \<le> dl_created_at l) all
    \<and> tot = length all \<and> tot = card (logs_of cd c db target_id)
    \<and> page = take limit (drop offset all)
    \<and> page @ next_page = take (limit + limit') (drop offset all)"
proof -
  from delivery_log_listing [OF assms(1,2)] obtain all where all:
    "set all = {l \<in> ran (log_map cd c db). dl_target_id l = target_id}"
    "sorted_wrt (\<lambda>l m. dl_created_at m \<le> dl_created_at l) all" "tot = length all" "tot = card (logs_of cd c db target_id)"
    "page = take limit (drop offset all)"
    "list_delivery_logs rd cd target_id limit' (offset + limit) db = Inr (take limit' (drop (offset + limit) all), tot)"
    by blast
  then have "page @ next_page = take (limit + limit') (drop offset all)" using assms(3) by (simp add: take_add add.commute)
  with all show ?thesis by (intro exI [of _ all]) simp
qed

section \<open>Examples\<close>

definition example_target :: push_target where
  "example_target =
     \<lparr>pt_id = ''t1'', pt_name = ''cloud'', pt_enabled = True, pt_target_type = Webhook,
      pt_config = JObject [(''url'', JString ''http://example.com'')], pt_schedule = EventDriven [''device_metric''],
      pt_data_filter = \<lparr>source_patterns = [''device:s1:''], only_changes = False\<rparr>, pt_template = None,
      pt_retry_config = push_retry_config_default, pt_batch_config = batch_config_default,
      pt_created_at = 0, pt_updated_at = 0\<rparr>"

definition example_log :: "string \<Rightarrow> int \<Rightarrow> delivery_log" where
  "example_log i at =
     \<lparr>dl_id = i, dl_target_id = ''t1'', dl_status = DSuccess, dl_data_source_id = ''device:s1:t'', dl_payload_sent = [],
      dl_response = None, dl_attempts = 1, dl_created_at = at, dl_completed_at = Some at, dl_error = None\<rparr>"

text \<open>A codec for the example target and two log entries; everything else does not serialize.\<close>

definition example_push_codec :: push_codec where
  "example_push_codec =
     \<lparr>target_to_str = (\<lambda>t. if t = example_target then Inr ''T'' else Inl ''no''),
      target_from_str = (\<lambda>v. if v = ''T'' then Inr example_target else Inl ''no''),
      log_to_str = (\<lambda>l. if l = example_log ''a'' 1 then Inr ''A'' else if l = example_log ''b'' 3 then Inr ''B'' else Inl ''no''),
      log_from_str = (\<lambda>v. if v = ''A'' then Inr (example_log ''a'' 1) else if v = ''B'' then Inr (example_log ''b'' 3) else Inl ''no'')\<rparr>"

lemma example_simps [simp]:
  "pt_id example_target = ''t1''" "dl_id (example_log i at) = i" "dl_created_at (example_log i at) = at"
  "dl_target_id (example_log i at) = ''t1''" "example_log i at = example_log j at' \<longleftrightarrow> i = j \<and> at = at'"
  by (auto simp: example_target_def example_log_def)

lemma example_push_codec_simps [simp]:
  "target_to_str example_push_codec example_target = Inr ''T''"
  "target_from_str example_push_codec ''T'' = Inr example_target"
  "log_to_str example_push_codec (example_log ''a'' 1) = Inr ''A''"
  "log_to_str example_push_codec (example_log ''b'' 3) = Inr ''B''"
  "log_from_str example_push_codec ''A'' = Inr (example_log ''a'' 1)"
  "log_from_str example_push_codec ''B'' = Inr (example_log ''b'' 3)"
  by (simp_all add: example_push_codec_def)

lemma example_push_codec_laws: "push_codec_laws example_push_codec"
  by (auto simp: push_codec_laws_def example_push_codec_def split: if_splits)

lemma mem_redb_simps [simp]:
  "begin_write mem_redb = Inr" "begin_read mem_redb = Inr" "open_write mem_redb t = Inr" "open_read mem_redb t = Inr"
  "commit mem_redb = Inr" "tbl_insert mem_redb t k v d = Inr (hm_insert (t, k) v d)"
  "tbl_remove mem_redb t k d = Inr (hm_get d (t, k) \<noteq> None, hm_remove (t, k) d)"
  "tbl_get mem_redb t k d = Inr (hm_get d (t, k))" "tbl_iter mem_redb t d = Inr (map Inr (mem_entries t d))"
  by (simp_all add: mem_redb_def)

theorem push_store_refines_maps_witness:
  "\<exists>rs db'. push_store_run mem_redb example_push_codec
       [OpSaveTarget example_target, OpSaveLog (example_log ''a'' 1), OpSaveLog (example_log ''b'' 3), OpCleanup 2, OpDeleteTarget ''t1''] []
       = (rs, db')
     \<and> rs = [Inr Done, Inr Done, Inr Done, Inr (Removed 1), Inr (Deleted True)]
     \<and> log_map example_push_codec mem_contents db' ''b'' = Some (example_log ''b'' 3)"
proof -
  let ?ops = "[OpSaveTarget example_target, OpSaveLog (example_log ''a'' 1), OpSaveLog (example_log ''b'' 3), OpCleanup 2, OpDeleteTarget ''t1'']"
  obtain db' where run: "push_store_run mem_redb example_push_codec ?ops []
      = ([Inr Done, Inr Done, Inr Done, Inr (Removed 1), Inr (Deleted True)], db')"
    by (simp add: save_target_def save_delivery_log_def cleanup_logs_def delete_target_def mem_entries_def written_def
        TARGETS_TABLE_def LOGS_TABLE_def expired_log_def Let_def)
  have "targets_parse example_push_codec mem_contents []" by (simp add: targets_parse_def target_map_def mem_contents_def dom_def)
  from push_store_refines_maps [OF mem_redb_laws example_push_codec_laws this run]
  have "log_map example_push_codec mem_contents db' ''b'' = Some (example_log ''b'' 3)"
    by (auto simp: maps_of_def log_map_def mem_contents_def)
  with run show ?thesis by (simp del: push_store_run.simps)
qed

end
