(* ===== verification/PushTargets.thy ===== *)
theory PushTargets
  imports PushTypes TextUtil
begin

text \<open>
  The destinations of the data-push crate, \<open>heramind-data-push/src/targets/\<close>: the outcome of a delivery
  attempt (\<open>mod.rs\<close>), HTTP requests (\<open>webhook.rs\<close>) and MQTT publications (\<open>mqtt.rs\<close>). The HTTP client
  (\<open>reqwest\<close>), the MQTT client (\<open>rumqttc\<close>) and the reading of a configuration (\<open>serde_json\<close>) are
  parameters: what they answer is an argument of the operation that asks.
\<close>

section \<open>Outcome of an attempt\<close>

datatype delivery_error = RateLimited "duration option" | Other string

fun show_delivery_error :: "delivery_error \<Rightarrow> string" where
  "show_delivery_error (RateLimited retry_after) =
     ''endpoint rate-limited (retry after '' @ show_nat (as_secs (unwrap_or retry_after (from_secs 60))) @ ''s)''"
| "show_delivery_error (Other e) = e"

type_synonym send_result = "(delivery_error, unit) rust_result"

section \<open>Webhooks\<close>

record basic_auth =
  ba_username :: string
  ba_password :: string

record webhook_config =
  wc_url :: string
  wc_method :: string
  wc_headers :: "(string, string) hash_map"
  wc_auth_token :: "string option"
  wc_auth_basic :: "basic_auth option"
  wc_timeout_secs :: u64

definition default_method :: string where
  "default_method = ''POST''"

definition default_timeout :: u64 where
  "default_timeout = 30"

datatype http_method = PUT | POST

datatype http_auth = NoAuth | Bearer string | Basic string string

record http_request =
  rq_method :: http_method
  rq_url :: string
  rq_headers :: "(string \<times> string) list"
  rq_auth :: http_auth
  rq_body :: string

text \<open>A response: its status, the value of the \<open>Retry-After\<close> header when it is present and readable, and
  the body, which may fail to arrive.\<close>

record http_response =
  rs_status :: nat
  rs_retry_after :: "string option"
  rs_text :: "(string, string) rust_result"

definition upper_char :: "char \<Rightarrow> char" where
  "upper_char c =
     (let n = (of_char c :: nat) in if 97 \<le> n \<and> n \<le> 122 then char_of (n - 32) else c)"

definition to_uppercase :: "string \<Rightarrow> string" where
  "to_uppercase = map upper_char"

definition parse_retry_after :: "string option \<Rightarrow> duration option" where
  "parse_retry_after header =
     Option.bind header (\<lambda>v. Option.bind (parse_u64 (str_trim v)) (\<lambda>secs. Some (from_secs (min secs 600))))"

definition webhook_from_config ::
    "(json \<Rightarrow> (string, webhook_config) rust_result) \<Rightarrow> (u64 \<Rightarrow> (string, unit) rust_result) \<Rightarrow> json
      \<Rightarrow> (string, webhook_config) rust_result" where
  "webhook_from_config from_value build config =
     and_then (map_err (\<lambda>e. ''Invalid webhook config: '' @ e) (from_value config)) (\<lambda>wc.
     if wc_url wc = [] then Inl ''Webhook URL is required''
     else and_then (build (wc_timeout_secs wc)) (\<lambda>_. Inr wc))"

definition webhook_validate_config ::
    "(json \<Rightarrow> (string, webhook_config) rust_result) \<Rightarrow> json \<Rightarrow> (string, unit) rust_result" where
  "webhook_validate_config from_value config =
     and_then (map_err (\<lambda>e. ''Invalid webhook config: '' @ e) (from_value config)) (\<lambda>wc.
     if wc_url wc = [] then Inl ''Webhook URL is required'' else Inr ())"

definition webhook_request :: "webhook_config \<Rightarrow> string \<Rightarrow> http_request" where
  "webhook_request wc payload =
     \<lparr>rq_method = (if to_uppercase (wc_method wc) = ''PUT'' then PUT else POST), rq_url = wc_url wc,
      rq_headers = wc_headers wc @ [(''Content-Type'', ''application/json'')],
      rq_auth = (case wc_auth_token wc of
          Some t \<Rightarrow> Bearer t
        | None \<Rightarrow> (case wc_auth_basic wc of Some b \<Rightarrow> Basic (ba_username b) (ba_password b) | None \<Rightarrow> NoAuth)),
      rq_body = payload\<rparr>"

definition is_success :: "nat \<Rightarrow> bool" where
  "is_success status = (200 \<le> status \<and> status < 300)"

text \<open>The status line \<open>show_status\<close> and the first \<open>n\<close> characters of a body are the client's and the
  standard library's business; both only reach the error text.\<close>

definition webhook_outcome ::
    "(nat \<Rightarrow> string) \<Rightarrow> (nat \<Rightarrow> string \<Rightarrow> string) \<Rightarrow> (string, http_response) rust_result \<Rightarrow> send_result" where
  "webhook_outcome show_status take_chars answer =
     (case answer of
        Inl e \<Rightarrow> Inl (Other (''Webhook request failed: '' @ e))
      | Inr response \<Rightarrow>
          if is_success (rs_status response) then Inr ()
          else if rs_status response = 429 \<or> rs_status response = 503
            then Inl (RateLimited (parse_retry_after (rs_retry_after response)))
          else Inl (Other (''Webhook returned status '' @ show_status (rs_status response) @ '': '' @
                 take_chars 500 (case rs_text response of Inr b \<Rightarrow> b | Inl _ \<Rightarrow> []))))"

definition webhook_send ::
    "(nat \<Rightarrow> string) \<Rightarrow> (nat \<Rightarrow> string \<Rightarrow> string) \<Rightarrow> (http_request \<Rightarrow> (string, http_response) rust_result)
      \<Rightarrow> webhook_config \<Rightarrow> string \<Rightarrow> send_result" where
  "webhook_send show_status take_chars http wc payload =
     webhook_outcome show_status take_chars (http (webhook_request wc payload))"

section \<open>MQTT\<close>

record mqtt_config =
  mc_broker :: string
  mc_port :: nat
  mc_topic :: string
  mc_username :: "string option"
  mc_password :: "string option"
  mc_qos :: nat
  mc_client_id :: string

definition default_port :: nat where
  "default_port = 1883"

definition default_qos :: nat where
  "default_qos = 1"

definition default_client_id :: string where
  "default_client_id = ''heramind-push''"

datatype mqtt_qos = AtMostOnce | AtLeastOnce | ExactlyOnce

record mqtt_options =
  mo_client_id :: string
  mo_broker :: string
  mo_port :: nat
  mo_keep_alive :: duration
  mo_credentials :: "(string \<times> string) option"

text \<open>The client is created on the first send; creating it does not talk to the broker.\<close>

record mqtt_target =
  mt_config :: mqtt_config
  mt_client :: "mqtt_options option"

definition mqtt_check :: "mqtt_config \<Rightarrow> (string, unit) rust_result" where
  "mqtt_check mc =
     (if mc_broker mc = [] then Inl ''MQTT broker is required''
      else if mc_topic mc = [] then Inl ''MQTT topic is required''
      else Inr ())"

definition mqtt_from_config ::
    "(json \<Rightarrow> (string, mqtt_config) rust_result) \<Rightarrow> json \<Rightarrow> (string, mqtt_target) rust_result" where
  "mqtt_from_config from_value config =
     and_then (map_err (\<lambda>e. ''Invalid MQTT config: '' @ e) (from_value config)) (\<lambda>mc.
     and_then (mqtt_check mc) (\<lambda>_. Inr \<lparr>mt_config = mc, mt_client = None\<rparr>))"

definition mqtt_validate_config :: "(json \<Rightarrow> (string, mqtt_config) rust_result) \<Rightarrow> json \<Rightarrow> (string, unit) rust_result" where
  "mqtt_validate_config from_value config =
     and_then (map_err (\<lambda>e. ''Invalid MQTT config: '' @ e) (from_value config)) mqtt_check"

definition ensure_connected :: "uuid \<Rightarrow> mqtt_target \<Rightarrow> mqtt_target" where
  "ensure_connected fresh t =
     (case mt_client t of
        Some _ \<Rightarrow> t
      | None \<Rightarrow>
          t\<lparr>mt_client := Some
             \<lparr>mo_client_id = mc_client_id (mt_config t) @ ''-'' @ fresh, mo_broker = mc_broker (mt_config t),
              mo_port = mc_port (mt_config t), mo_keep_alive = from_secs 30,
              mo_credentials = (case (mc_username (mt_config t), mc_password (mt_config t)) of
                  (Some u, Some p) \<Rightarrow> Some (u, p) | _ \<Rightarrow> None)\<rparr>\<rparr>)"

definition mqtt_qos_of :: "nat \<Rightarrow> mqtt_qos" where
  "mqtt_qos_of q = (if q = 0 then AtMostOnce else if q = 2 then ExactlyOnce else AtLeastOnce)"

text \<open>A call under a time-out either runs out of time or answers.\<close>

datatype timed_answer = TimedOut | Answered "(string, unit) rust_result"

text \<open>The UTF-8 bytes of a dash.\<close>

definition em_dash :: string where
  "em_dash = [CHR 0xE2, CHR 0x80, CHR 0x94]"

definition mqtt_send ::
    "uuid \<Rightarrow> (mqtt_options \<Rightarrow> string \<Rightarrow> mqtt_qos \<Rightarrow> string \<Rightarrow> timed_answer) \<Rightarrow> timed_answer \<Rightarrow> string \<Rightarrow> mqtt_target
      \<Rightarrow> send_result \<times> mqtt_target" where
  "mqtt_send fresh publish poll payload t =
     (let t = ensure_connected fresh t
      in case mt_client t of
           None \<Rightarrow> (Inl (Other ''MQTT client not initialized''), t)
         | Some client \<Rightarrow>
             (case publish client (mc_topic (mt_config t)) (mqtt_qos_of (mc_qos (mt_config t))) payload of
                TimedOut \<Rightarrow> (Inl (Other (''MQTT publish timed out '' @ em_dash @ '' broker unreachable or request queue full'')), t)
              | Answered (Inl e) \<Rightarrow> (Inl (Other (''MQTT publish failed: '' @ e)), t)
              | Answered (Inr _) \<Rightarrow>
                  (case poll of
                     TimedOut \<Rightarrow> (Inr (), t)
                   | Answered (Inl e) \<Rightarrow> (Inl (Other (''MQTT broker error: '' @ e)), t)
                   | Answered (Inr _) \<Rightarrow> (Inr (), t))))"

section \<open>Creating a destination\<close>

datatype push_destination = WebhookDestination webhook_config | MqttDestination mqtt_target

record destination_env =
  ds_webhook_from_value :: "json \<Rightarrow> (string, webhook_config) rust_result"
  ds_mqtt_from_value :: "json \<Rightarrow> (string, mqtt_config) rust_result"
  ds_build_client :: "u64 \<Rightarrow> (string, unit) rust_result"

definition create_destination ::
    "destination_env \<Rightarrow> push_target_type \<Rightarrow> json \<Rightarrow> (string, push_destination) rust_result" where
  "create_destination de target_type config =
     (case target_type of
        Webhook \<Rightarrow> and_then (webhook_from_config (ds_webhook_from_value de) (ds_build_client de) config) (\<lambda>w. Inr (WebhookDestination w))
      | Mqtt \<Rightarrow> and_then (mqtt_from_config (ds_mqtt_from_value de) config) (\<lambda>t. Inr (MqttDestination t)))"

definition validate_config :: "destination_env \<Rightarrow> push_destination \<Rightarrow> json \<Rightarrow> (string, unit) rust_result" where
  "validate_config de dest config =
     (case dest of
        WebhookDestination _ \<Rightarrow> webhook_validate_config (ds_webhook_from_value de) config
      | MqttDestination _ \<Rightarrow> mqtt_validate_config (ds_mqtt_from_value de) config)"

section \<open>Lemmas\<close>

text \<open>A destination created from a configuration passes its own validation.\<close>

lemma created_is_valid:
  "create_destination de ty config = Inr dest \<Longrightarrow> validate_config de dest config = Inr ()"
  by (auto simp: create_destination_def validate_config_def webhook_from_config_def webhook_validate_config_def
      mqtt_from_config_def mqtt_validate_config_def split: push_target_type.splits if_splits)

lemma parse_retry_after_bound: "parse_retry_after h = Some d \<Longrightarrow> as_secs d \<le> 600"
  by (auto simp: parse_retry_after_def as_secs_def from_secs_def bind_eq_Some_conv)

lemma webhook_outcome_ok_iff:
  "webhook_outcome ss tk answer = Inr () \<longleftrightarrow> (\<exists>r. answer = Inr r \<and> is_success (rs_status r))"
  by (auto simp: webhook_outcome_def split: sum.splits if_splits)

lemma webhook_rate_limited_iff:
  "webhook_outcome ss tk answer = Inl (RateLimited d) \<longleftrightarrow>
     (\<exists>r. answer = Inr r \<and> rs_status r \<in> {429, 503} \<and> d = parse_retry_after (rs_retry_after r))"
  by (auto simp: webhook_outcome_def is_success_def split: sum.splits if_splits)

lemma ensure_connected_simps [simp]:
  "mt_config (ensure_connected fresh t) = mt_config t" "mt_client (ensure_connected fresh t) \<noteq> None"
  by (simp_all add: ensure_connected_def split: option.splits)

lemma mqtt_send_ok_iff:
  "fst (mqtt_send fresh publish poll payload t) = Inr () \<longleftrightarrow>
     (\<exists>client. mt_client (ensure_connected fresh t) = Some client
        \<and> publish client (mc_topic (mt_config t)) (mqtt_qos_of (mc_qos (mt_config t))) payload = Answered (Inr ())
        \<and> (\<forall>e. poll \<noteq> Answered (Inl e)))"
  by (auto simp: mqtt_send_def Let_def split: option.splits timed_answer.splits sum.splits)

lemma mqtt_client_kept: "mt_client t = Some c \<Longrightarrow> snd (mqtt_send fresh publish poll payload t) = t"
  by (simp add: mqtt_send_def ensure_connected_def Let_def split: timed_answer.splits sum.splits)

end
