(* ===== verification/PushPayload.thy ===== *)
theory PushPayload
  imports PushTypes
begin

text \<open>
  From events to payloads: the event selection and payload construction of
  \<open>heramind-data-push/src/scheduler.rs\<close> and the rendering of \<open>template.rs\<close>. Printing and parsing of JSON
  text, the template engine (\<open>handlebars\<close>) and the reading of stored images are parameters.
\<close>

section \<open>Selecting events\<close>

definition push_type_name :: "heramind_event \<Rightarrow> string option" where
  "push_type_name e = (case e of
       DeviceMetric _ _ _ _ _ _ \<Rightarrow> Some ''device_metric''
     | ExtensionOutput _ _ _ _ _ _ \<Rightarrow> Some ''extension_output''
     | AlertCreated _ _ _ _ _ \<Rightarrow> Some ''alert_created''
     | _ \<Rightarrow> None)"

definition matches_event_type :: "heramind_event \<Rightarrow> string list \<Rightarrow> bool" where
  "matches_event_type e event_types =
     (if event_types = [] then True
      else case push_type_name e of None \<Rightarrow> False | Some n \<Rightarrow> n \<in> set event_types)"

fun metric_to_json :: "metric_value \<Rightarrow> json" where
  "metric_to_json (Float f) = json_of_f64 f"
| "metric_to_json (Integer i) = JInt i"
| "metric_to_json (Boolean b) = JBool b"
| "metric_to_json (String s) = JString s"
| "metric_to_json (Json v) = v"

type_synonym push_item = "string \<times> json \<times> int"

definition extract_event_data :: "heramind_event \<Rightarrow> (string \<times> json \<times> int \<times> bool) option" where
  "extract_event_data e = (case e of
       DeviceMetric device_id metric v ts _ is_virtual \<Rightarrow>
         Some (''device:'' @ device_id @ '':'' @ metric, metric_to_json v, ts, unwrap_or is_virtual False)
     | ExtensionOutput extension_id output_name v ts _ _ \<Rightarrow>
         Some (''extension:'' @ extension_id @ '':'' @ output_name, metric_to_json v, ts, False)
     | _ \<Rightarrow> None)"

text \<open>\<open>/api/images/\<close> addresses anywhere in a value are replaced by the image itself, when it can be read.\<close>

fun resolve_image_urls_in_value :: "(string \<Rightarrow> string option) \<Rightarrow> json \<Rightarrow> json" where
  "resolve_image_urls_in_value img (JString s) =
     JString (if starts_with s ''/api/images/'' then unwrap_or (img s) s else s)"
| "resolve_image_urls_in_value img (JArray xs) = JArray (map (resolve_image_urls_in_value img) xs)"
| "resolve_image_urls_in_value img (JObject m) = JObject (map (\<lambda>(k, v). (k, resolve_image_urls_in_value img v)) m)"
| "resolve_image_urls_in_value img v = v"

definition VIRTUAL_DEDUP_WINDOW_SECS :: nat where
  "VIRTUAL_DEDUP_WINDOW_SECS = 5"

type_synonym recent_virtual = "(string \<times> string \<times> int, instant) hash_map"

definition is_duplicate_virtual ::
    "instant \<Rightarrow> string \<Rightarrow> string \<Rightarrow> int \<Rightarrow> recent_virtual \<Rightarrow> bool \<times> recent_virtual" where
  "is_duplicate_virtual now source_id value_str ts recent =
     (let window = from_secs VIRTUAL_DEDUP_WINDOW_SECS; key = (source_id, value_str, ts);
          seen = (case hm_get recent key of Some t \<Rightarrow> elapsed_since now t < window | None \<Rightarrow> False)
      in if seen then (True, recent)
         else (let recent = hm_insert key now recent
               in (False, if length recent > 512 then filter (\<lambda>(_, t). elapsed_since now t < window) recent else recent)))"

section \<open>Rendering\<close>

record render_env =
  re_template :: "string \<Rightarrow> json \<Rightarrow> (string, string) rust_result"
  re_to_string :: "json \<Rightarrow> (string, string) rust_result"
  re_from_str :: "string \<Rightarrow> (string, json) rust_result"

definition context_json :: "template_context \<Rightarrow> json" where
  "context_json cx = JObject [(''source_id'', JString (tc_source_id cx)), (''value'', tc_value cx), (''timestamp'', JInt (tc_timestamp cx))]"

definition render :: "render_env \<Rightarrow> string option \<Rightarrow> template_context \<Rightarrow> (string, string) rust_result" where
  "render re template cx =
     (case template of
        Some tmpl \<Rightarrow> if tmpl \<noteq> [] then re_template re tmpl (context_json cx) else re_to_string re (context_json cx)
      | None \<Rightarrow> re_to_string re (context_json cx))"

section \<open>Batches\<close>

text \<open>\<open>splitn(3, ':')\<close> of a source identifier: its type, its identifier and its field.\<close>

definition split3 :: "string \<Rightarrow> string \<times> string \<times> string" where
  "split3 s =
     (case split_once (CHR '':'') s of
        None \<Rightarrow> (s, [], [])
      | Some (a, r) \<Rightarrow> (case split_once (CHR '':'') r of None \<Rightarrow> (a, r, []) | Some (b, f) \<Rightarrow> (a, b, f)))"

fun build_nested_chain :: "string list \<Rightarrow> json \<Rightarrow> json" where
  "build_nested_chain [] v = v"
| "build_nested_chain (k # ks) v = JObject [(k, build_nested_chain ks v)]"

fun merge_json :: "json \<Rightarrow> json \<Rightarrow> json"
  and merge_fields :: "(string \<times> json) list \<Rightarrow> (string \<times> json) list \<Rightarrow> (string \<times> json) list" where
  "merge_json (JObject d) (JObject s) = JObject (merge_fields d s)"
| "merge_json d s = s"
| "merge_fields d [] = d"
| "merge_fields d ((k, v) # s) = merge_fields (hm_insert k (merge_json (unwrap_or (hm_get d k) JNull) v) d) s"

definition field_segs :: "string \<Rightarrow> string list" where
  "field_segs field = filter (\<lambda>s. s \<noteq> []) (split_on (CHR ''.'') field)"

definition field_contribution :: "string \<Rightarrow> json \<Rightarrow> json" where
  "field_contribution field v =
     (if field_segs field \<noteq> [] then build_nested_chain (field_segs field) v else JObject [(''_value'', v)])"

record nested_state =
  ns_order :: "(string \<times> string) list"
  ns_datas :: "json list"
  ns_index :: "(string \<times> string, nat) hash_map"
  ns_max_ts :: int

definition nested_init :: nested_state where
  "nested_init = \<lparr>ns_order = [], ns_datas = [], ns_index = [], ns_max_ts = 0\<rparr>"

definition nested_slot :: "string \<times> string \<Rightarrow> nested_state \<Rightarrow> nat \<times> nested_state" where
  "nested_slot key st =
     (case hm_get (ns_index st) key of
        Some i \<Rightarrow> (i, st)
      | None \<Rightarrow> (length (ns_datas st),
          st\<lparr>ns_index := hm_insert key (length (ns_datas st)) (ns_index st), ns_order := ns_order st @ [key],
             ns_datas := ns_datas st @ [JObject []]\<rparr>))"

definition nested_step :: "push_item \<Rightarrow> nested_state \<Rightarrow> nested_state" where
  "nested_step item st =
     (case item of (source_id, v, ts) \<Rightarrow>
        let st = (if ts > ns_max_ts st then st\<lparr>ns_max_ts := ts\<rparr> else st);
            (ty, i, field) = split3 source_id;
            (n, st) = nested_slot (ty, i) st
        in st\<lparr>ns_datas := (ns_datas st)[n := merge_json (ns_datas st ! n) (field_contribution field v)]\<rparr>)"

definition nested_item :: "(string \<times> string) \<times> json \<Rightarrow> json" where
  "nested_item it = (case it of ((ty, i), d) \<Rightarrow> JObject [(''source_type'', JString ty), (''id'', JString i), (''data'', d)])"

definition build_nested_batch_payload :: "push_item list \<Rightarrow> json" where
  "build_nested_batch_payload buffer =
     (let st = fold nested_step buffer nested_init
      in JObject [(''batch'', JBool True), (''format'', JString ''nested''), (''count'', JInt (int (length buffer))),
           (''timestamp'', JInt (ns_max_ts st)), (''items'', JArray (map nested_item (zip (ns_order st) (ns_datas st))))])"

definition is_raw_metric :: "string \<Rightarrow> bool" where
  "is_raw_metric source_id =
     (case split_once (CHR '':'') (rev source_id) of Some (field, _) \<Rightarrow> rev field = ''_raw'' | None \<Rightarrow> False)"

definition flat_item :: "render_env \<Rightarrow> string option \<Rightarrow> push_item \<Rightarrow> json" where
  "flat_item re template item =
     (case item of (source_id, v, ts) \<Rightarrow>
        let cx = \<lparr>tc_source_id = source_id, tc_value = v, tc_timestamp = ts\<rparr>
        in case and_then (render re template cx) (re_from_str re) of
             Inr j \<Rightarrow> j
           | Inl _ \<Rightarrow> context_json cx)"

definition build_flat_batch_payload :: "render_env \<Rightarrow> string option \<Rightarrow> push_item list \<Rightarrow> json" where
  "build_flat_batch_payload re template buffer =
     JObject [(''batch'', JBool True), (''count'', JInt (int (length buffer))), (''items'', JArray (map (flat_item re template) buffer))]"

section \<open>Merging along paths\<close>

lemma merge_json_scalar: "\<not> is_object v \<Longrightarrow> merge_json d v = v"
  by (cases v; cases d) auto

lemma merge_json_single:
  "merge_json d (JObject [(k, v)]) =
     (case d of JObject m \<Rightarrow> JObject (hm_insert k (merge_json (unwrap_or (hm_get m k) JNull) v) m) | _ \<Rightarrow> JObject [(k, v)])"
  by (cases d) auto

lemma json_at_chain: "json_at ks (build_nested_chain ks v) = Some v"
  by (induction ks) auto

lemma merged_chain_at: "\<not> is_object v \<Longrightarrow> json_at ks (merge_json d (build_nested_chain ks v)) = Some v"
  by (induction ks arbitrary: d) (auto simp: merge_json_scalar merge_json_single json_at_chain split: json.splits)

definition incomparable :: "string list \<Rightarrow> string list \<Rightarrow> bool" where
  "incomparable p q \<longleftrightarrow> \<not> prefix p q \<and> \<not> prefix q p"

lemma json_at_chain_elsewhere: "incomparable p q \<Longrightarrow> json_at p (build_nested_chain q v) = None"
proof (induction q arbitrary: p)
  case (Cons k ks)
  then show ?case by (cases p) (auto simp: incomparable_def)
qed (simp add: incomparable_def)

lemma merged_chain_elsewhere: "incomparable p q \<Longrightarrow> json_at p (merge_json d (build_nested_chain q v)) = json_at p d"
proof (induction q arbitrary: p d)
  case (Cons k ks)
  obtain k' p' where p: "p = k' # p'" using Cons.prems by (cases p) (auto simp: incomparable_def)
  have inc: "incomparable p' ks" if "k' = k" using Cons.prems p that by (auto simp: incomparable_def)
  show ?case
  proof (cases d)
    case (JObject m)
    with p Cons.IH [OF inc] json_at_chain_elsewhere [OF inc] show ?thesis
      by (cases "hm_get m k") (auto simp: merge_json_single)
  qed (use p inc json_at_chain_elsewhere in \<open>auto simp: merge_json_single\<close>)
qed (simp add: incomparable_def)

section \<open>Correctness of nested batches\<close>

definition item_path :: "string \<Rightarrow> string list" where
  "item_path source_id = (case split3 source_id of (_, _, field) \<Rightarrow> if field_segs field \<noteq> [] then field_segs field else [''_value''])"

definition item_key :: "string \<Rightarrow> string \<times> string" where
  "item_key source_id = (case split3 source_id of (ty, i, _) \<Rightarrow> (ty, i))"

lemma field_contribution_chain: "split3 s = (ty, i, field) \<Longrightarrow> field_contribution field v = build_nested_chain (item_path s) v"
  by (simp add: field_contribution_def item_path_def)

definition nested_ok :: "nested_state \<Rightarrow> bool" where
  "nested_ok st \<longleftrightarrow> length (ns_order st) = length (ns_datas st) \<and> distinct (ns_order st)
     \<and> (\<forall>k i. hm_get (ns_index st) k = Some i \<longleftrightarrow> i < length (ns_order st) \<and> ns_order st ! i = k)"

abbreviation nested_data :: "nested_state \<Rightarrow> (string \<times> string) \<Rightarrow> json option" where
  "nested_data st \<equiv> map_of (zip (ns_order st) (ns_datas st))"

lemma zip_update_nth:
  assumes "distinct ks" and "length ks = length xs" and "n < length ks"
  shows "map_of (zip ks (xs[n := d])) = (map_of (zip ks xs))(ks ! n \<mapsto> d)"
  using assms
proof (induction ks arbitrary: xs n)
  case (Cons k ks)
  then obtain y ys where xs: "xs = y # ys" by (cases xs) auto
  show ?case
  proof (cases n)
    case (Suc m)
    with Cons xs have "ks ! m \<noteq> k" by auto
    with Cons xs Suc show ?thesis by (auto simp: fun_eq_iff)
  qed (use xs in \<open>auto simp: fun_eq_iff\<close>)
qed simp

lemma nested_slot_spec:
  assumes "nested_ok st" and "nested_slot key st = (n, st')"
  shows "nested_ok st'" and "n < length (ns_order st')" and "ns_order st' ! n = key"
    and "ns_datas st' ! n = unwrap_or (nested_data st key) (JObject [])"
    and "\<And>k. k \<noteq> key \<Longrightarrow> nested_data st' k = nested_data st k"
    and "ns_order st' = (if key \<in> set (ns_order st) then ns_order st else ns_order st @ [key])"
    and "ns_max_ts st' = ns_max_ts st"
proof -
  have ok: "length (ns_order st) = length (ns_datas st)" "distinct (ns_order st)"
    "\<And>k i. hm_get (ns_index st) k = Some i \<longleftrightarrow> i < length (ns_order st) \<and> ns_order st ! i = k"
    using assms(1) unfolding nested_ok_def by blast+
  have "nested_ok st' \<and> n < length (ns_order st') \<and> ns_order st' ! n = key
    \<and> ns_datas st' ! n = unwrap_or (nested_data st key) (JObject []) \<and> (\<forall>k. k \<noteq> key \<longrightarrow> nested_data st' k = nested_data st k)
    \<and> ns_order st' = (if key \<in> set (ns_order st) then ns_order st else ns_order st @ [key]) \<and> ns_max_ts st' = ns_max_ts st"
  proof (cases "hm_get (ns_index st) key")
    case None
    then have new: "key \<notin> set (ns_order st)" using assms(1) by (metis in_set_conv_nth nested_ok_def option.distinct(1))
    then have "nested_data st key = None" using assms(1) by (simp add: nested_ok_def map_of_zip_is_None)
    have st': "n = length (ns_datas st)" "st' = st\<lparr>ns_index := hm_insert key (length (ns_datas st)) (ns_index st),
        ns_order := ns_order st @ [key], ns_datas := ns_datas st @ [JObject []]\<rparr>"
      using None assms(2) by (auto simp: nested_slot_def)
    have "hm_get (ns_index st') k = Some i \<longleftrightarrow> i < length (ns_order st') \<and> ns_order st' ! i = k" for k i
      using new st' ok(1) by (cases "k = key") (auto simp: ok(3) nth_append less_Suc_eq in_set_conv_nth)
    then have "nested_ok st'" unfolding nested_ok_def using ok(1,2) new st' by simp
    moreover have "unwrap_or (nested_data st key) (JObject []) = JObject []" unfolding \<open>nested_data st key = None\<close> by simp
    moreover have "ns_order st' ! n = key" "ns_datas st' ! n = JObject []"
      using st' ok(1) by (simp_all add: nth_append)
    moreover have "nested_data st' k = nested_data st k" if "k \<noteq> key" for k
      using that st' ok(1) by (cases "nested_data st k") (simp_all add: map_add_def del: map_of_zip_is_None)
    ultimately show ?thesis using st' new ok(1) by simp
  next
    case (Some i)
    then have i: "i < length (ns_order st)" "ns_order st ! i = key" by (simp_all add: ok(3))
    then have "nested_data st key = Some (ns_datas st ! i)" using map_of_zip_nth [OF ok(1,2)] ok(1) by metis
    with Some i assms show ?thesis by (auto simp: nested_slot_def)
  qed
  then show "nested_ok st'" "n < length (ns_order st')" "ns_order st' ! n = key"
    "ns_datas st' ! n = unwrap_or (nested_data st key) (JObject [])" "\<And>k. k \<noteq> key \<Longrightarrow> nested_data st' k = nested_data st k"
    "ns_order st' = (if key \<in> set (ns_order st) then ns_order st else ns_order st @ [key])" "ns_max_ts st' = ns_max_ts st" by blast+
qed

lemma nested_step_spec:
  assumes "nested_ok st"
  shows "nested_ok (nested_step (s, v, ts) st)"
    and "nested_data (nested_step (s, v, ts) st) = (nested_data st)
      (item_key s \<mapsto> merge_json (unwrap_or (nested_data st (item_key s)) (JObject [])) (build_nested_chain (item_path s) v))"
    and "ns_order (nested_step (s, v, ts) st) = (if item_key s \<in> set (ns_order st) then ns_order st else ns_order st @ [item_key s])"
    and "ns_max_ts (nested_step (s, v, ts) st) = max (ns_max_ts st) ts"
proof -
  obtain ty i field where sp: "split3 s = (ty, i, field)" by (metis prod_cases3)
  let ?st = "if ts > ns_max_ts st then st\<lparr>ns_max_ts := ts\<rparr> else st"
  obtain n st' where slot: "nested_slot (ty, i) ?st = (n, st')" by fastforce
  have "nested_ok ?st" "ns_order ?st = ns_order st" "nested_data ?st = nested_data st" using assms by (auto simp: nested_ok_def)
  note spec = nested_slot_spec [OF this(1) slot, unfolded this(2,3)]
  have key: "item_key s = (ty, i)" using sp by (simp add: item_key_def)
  have step: "nested_step (s, v, ts) st =
      st'\<lparr>ns_datas := (ns_datas st')[n := merge_json (ns_datas st' ! n) (build_nested_chain (item_path s) v)]\<rparr>"
    using sp slot field_contribution_chain [OF sp] by (simp add: nested_step_def Let_def)
  show "nested_ok (nested_step (s, v, ts) st)" using spec(1) by (simp add: step nested_ok_def)
  show "ns_order (nested_step (s, v, ts) st) = (if item_key s \<in> set (ns_order st) then ns_order st else ns_order st @ [item_key s])"
    using spec(6) key by (simp add: step)
  show "ns_max_ts (nested_step (s, v, ts) st) = max (ns_max_ts st) ts" using spec(7) by (auto simp: step max_def)
  have len: "length (ns_order st') = length (ns_datas st')" "distinct (ns_order st')" using spec(1) by (simp_all add: nested_ok_def)
  have "map_of (zip (ns_order st') ((ns_datas st')[n := d])) = (nested_data st')((ty, i) \<mapsto> d)" for d
    using zip_update_nth [OF len(2,1) spec(2)] spec(3) by simp
  then show "nested_data (nested_step (s, v, ts) st) = (nested_data st)
      (item_key s \<mapsto> merge_json (unwrap_or (nested_data st (item_key s)) (JObject [])) (build_nested_chain (item_path s) v))"
    using spec(4,5) key by (auto simp: step)
qed


lemma nested_init_ok: "nested_ok nested_init"
  by (simp add: nested_ok_def nested_init_def)

lemma nested_fold_ok: "nested_ok st \<Longrightarrow> nested_ok (fold nested_step xs st)"
  by (induction xs arbitrary: st) (auto simp: nested_step_spec)

lemma nested_fold_max_ts:
  "nested_ok st \<Longrightarrow> ns_max_ts (fold nested_step xs st) = fold max (map (snd \<circ> snd) xs) (ns_max_ts st)"
  by (induction xs arbitrary: st) (auto simp: nested_step_spec max.commute)

lemma nested_fold_elsewhere:
  assumes "nested_ok st" and "\<forall>(s, v, ts) \<in> set xs. item_key s = key \<longrightarrow> incomparable p (item_path s)"
    and "nested_data st key = Some d"
  shows "\<exists>d'. nested_data (fold nested_step xs st) key = Some d' \<and> json_at p d' = json_at p d"
  using assms
proof (induction xs arbitrary: st d)
  case (Cons x xs)
  obtain s v ts where x: "x = (s, v, ts)" by (metis prod_cases3)
  let ?st = "nested_step (s, v, ts) st"
  have "\<exists>d'. nested_data ?st key = Some d' \<and> json_at p d' = json_at p d"
    using nested_step_spec(2) [OF Cons.prems(1), of s v ts] Cons.prems(2,3) x merged_chain_elsewhere by (cases "item_key s = key") auto
  then obtain d' where "nested_data ?st key = Some d'" "json_at p d' = json_at p d" by blast
  with Cons.IH [OF nested_step_spec(1) [OF Cons.prems(1)], of s v ts d'] Cons.prems(2) x show ?case by auto
qed simp

definition payload_data :: "push_item list \<Rightarrow> string \<times> string \<Rightarrow> json option" where
  "payload_data buffer = nested_data (fold nested_step buffer nested_init)"

lemma nested_items: "payload_data buffer (ty, i) = Some d \<Longrightarrow>
    \<exists>items. json_at [''items''] (build_nested_batch_payload buffer) = Some (JArray items)
      \<and> JObject [(''source_type'', JString ty), (''id'', JString i), (''data'', d)] \<in> set items"
  using map_of_SomeD [of "zip (ns_order (fold nested_step buffer nested_init)) (ns_datas (fold nested_step buffer nested_init))" "(ty, i)" d]
  by (force simp: payload_data_def build_nested_batch_payload_def Let_def nested_item_def image_iff)

lemma payload_last_value:
  assumes "buffer = xs @ (s, v, ts) # ys" and "\<not> is_object v" and "item_key s = key"
    and "\<forall>(s', v', ts') \<in> set ys. item_key s' = key \<longrightarrow> incomparable (item_path s) (item_path s')"
  obtains d where "payload_data buffer key = Some d" and "json_at (item_path s) d = Some v"
proof -
  let ?st = "fold nested_step xs nested_init" and ?step = "nested_step (s, v, ts)"
  have ok: "nested_ok ?st" using nested_fold_ok nested_init_ok .
  obtain d where d: "nested_data (?step ?st) key = Some d" "json_at (item_path s) d = Some v"
    using nested_step_spec(2) [OF ok, of s v ts] merged_chain_at [OF assms(2)] assms(3) by auto
  from nested_fold_elsewhere [OF nested_step_spec(1) [OF ok] assms(4) d(1)]
  obtain d' where "payload_data buffer key = Some d'" "json_at (item_path s) d' = Some v"
    using d(2) assms(1) by (auto simp: payload_data_def)
  then show ?thesis by (rule that)
qed

text \<open>Nested batches keep the last value of every field: if an event of a batch is not followed by another
  of the same source whose field is the same, an extension or a prefix of its own, then the payload has
  an item for the source, and following the parts of the field in the item's data leads to the value;
  the payload counts all events and carries the newest of their time stamps.\<close>

lemma nested_payload_last_value:
  assumes "buffer = xs @ (s, v, ts) # ys" and "\<not> is_object v" and "item_key s = (ty, i)"
    and "\<forall>(s', v', ts') \<in> set ys. item_key s' = item_key s \<longrightarrow> incomparable (item_path s) (item_path s')"
  shows "\<exists>items d. json_at [''items''] (build_nested_batch_payload buffer) = Some (JArray items)
    \<and> JObject [(''source_type'', JString ty), (''id'', JString i), (''data'', d)] \<in> set items
    \<and> json_at (item_path s) d = Some v
    \<and> json_at [''count''] (build_nested_batch_payload buffer) = Some (JInt (int (length buffer)))
    \<and> json_at [''timestamp''] (build_nested_batch_payload buffer) = Some (JInt (fold max (map (snd \<circ> snd) buffer) 0))"
proof -
  obtain d where "payload_data buffer (ty, i) = Some d" "json_at (item_path s) d = Some v"
    by (rule payload_last_value [OF assms(1-3) assms(4) [unfolded assms(3)]])
  moreover have "json_at [''timestamp''] (build_nested_batch_payload buffer) = Some (JInt (fold max (map (snd \<circ> snd) buffer) 0))"
    using nested_fold_max_ts [OF nested_init_ok, of buffer] by (simp add: build_nested_batch_payload_def Let_def nested_init_def)
  moreover have "json_at [''count''] (build_nested_batch_payload buffer) = Some (JInt (int (length buffer)))"
    by (simp add: build_nested_batch_payload_def Let_def)
  ultimately show ?thesis using nested_items by blast
qed

end
