(* ===== verification/PushDelivery.thy ===== *)
theory PushDelivery
  imports PushStore PushTargets PushPayload TimeGate
begin

text \<open>
  Delivery with retries: \<open>deliver_with_retry\<close>, \<open>flush_batch\<close> and the rate limit on backpressure warnings of
  \<open>heramind-data-push/src/scheduler.rs\<close>. What the destination answers to each attempt, whether a stop
  is seen during the pause after an attempt, and the readings of the clock are arguments. The
  trace of a delivery holds the database, the payloads handed to the destination and the pauses.
\<close>

section \<open>The retry loop\<close>

record 'd push_env =
  pe_redb :: "'d redb"
  pe_codec :: push_codec
  pe_render :: render_env
  pe_destinations :: destination_env
  pe_image :: "string \<Rightarrow> string option"
  pe_order :: map_order

record delivery_oracle =
  do_send :: "nat \<Rightarrow> string \<Rightarrow> send_result"
  do_stopped :: "nat \<Rightarrow> bool"
  do_now :: "nat \<Rightarrow> date_time"
  do_created :: date_time
  do_fresh :: uuid

record 'd delivery_trace =
  dt_db :: 'd
  dt_sends :: "string list"
  dt_pauses :: "nat list"

definition DEFAULT_429_BACKOFF_SECS :: nat where
  "DEFAULT_429_BACKOFF_SECS = 60"

text \<open>A failure to persist the log is only reported.\<close>

definition save_or_warn :: "'d push_env \<Rightarrow> delivery_log \<Rightarrow> 'd delivery_trace \<Rightarrow> 'd delivery_trace" where
  "save_or_warn pe log tr =
     (case save_delivery_log (pe_redb pe) (pe_codec pe) log (dt_db tr) of Inr db \<Rightarrow> tr\<lparr>dt_db := db\<rparr> | Inl _ \<Rightarrow> tr)"

definition effective_backoff :: "push_retry_config \<Rightarrow> nat \<Rightarrow> delivery_error \<Rightarrow> nat \<times> bool" where
  "effective_backoff rc backoff e =
     (case e of
        RateLimited retry_after \<Rightarrow> (case retry_after of Some d \<Rightarrow> as_secs d | None \<Rightarrow> DEFAULT_429_BACKOFF_SECS, True)
      | Other _ \<Rightarrow> (min backoff (unat (rc_max_backoff_secs rc)), False))"

text \<open>\<open>u64::saturating_mul(2)\<close>.\<close>

definition saturating_double :: "nat \<Rightarrow> nat" where
  "saturating_double n = min (2 * n) (2 ^ 64 - 1)"

text \<open>A pause that is cut short when a stop is seen; without a stop channel it always runs to its end.\<close>

definition sleep_or_cancel :: "bool \<Rightarrow> delivery_oracle \<Rightarrow> nat \<Rightarrow> bool" where
  "sleep_or_cancel cancellable orc attempt = (cancellable \<and> do_stopped orc attempt)"

text \<open>The body shared by the two delivery functions: the attempts still to be made, in order.\<close>

fun attempt_loop ::
    "'d push_env \<Rightarrow> push_retry_config \<Rightarrow> bool \<Rightarrow> delivery_oracle \<Rightarrow> string \<Rightarrow> nat list \<Rightarrow> nat \<Rightarrow> delivery_log
      \<Rightarrow> 'd delivery_trace \<Rightarrow> (string, unit) rust_result \<times> 'd delivery_trace" where
  "attempt_loop pe rc cancellable orc payload [] backoff log tr = (Inl ''Max retries exceeded'', tr)"
| "attempt_loop pe rc cancellable orc payload (attempt # rest) backoff log tr =
     (let log = log\<lparr>dl_attempts := of_nat (Suc attempt)\<rparr>; tr = tr\<lparr>dt_sends := dt_sends tr @ [payload]\<rparr>;
          finished = Some (timestamp (do_now orc attempt))
      in case do_send orc attempt payload of
           Inr _ \<Rightarrow>
             (Inr (), save_or_warn pe (log\<lparr>dl_status := DSuccess, dl_completed_at := finished\<rparr>) tr)
         | Inl e \<Rightarrow>
             (let (secs, rate_limited) = effective_backoff rc backoff e; log = log\<lparr>dl_error := Some (show_delivery_error e)\<rparr>
              in if attempt < unat (rc_max_retries rc) then
                   (let log = log\<lparr>dl_status := DRetrying\<rparr>; tr = save_or_warn pe log tr;
                        tr = tr\<lparr>dt_pauses := dt_pauses tr @ [secs]\<rparr>
                    in if sleep_or_cancel cancellable orc attempt then
                         (let msg = ''Cancelled during retry backoff: '' @ show_delivery_error e
                          in (Inl msg, save_or_warn pe (log\<lparr>dl_status := DFailed, dl_error := Some msg, dl_completed_at := finished\<rparr>) tr))
                       else
                         attempt_loop pe rc cancellable orc payload rest
                           (if rate_limited then backoff else saturating_double backoff) log tr)
                 else
                   (Inl (show_delivery_error e),
                    save_or_warn pe (log\<lparr>dl_status := DFailed, dl_completed_at := finished\<rparr>) tr)))"

definition initial_log :: "push_target \<Rightarrow> delivery_oracle \<Rightarrow> string \<Rightarrow> string \<Rightarrow> delivery_log" where
  "initial_log target orc source payload =
     \<lparr>dl_id = do_fresh orc, dl_target_id = pt_id target, dl_status = DPending, dl_data_source_id = source,
      dl_payload_sent = payload, dl_response = None, dl_attempts = 0, dl_created_at = timestamp (do_created orc),
      dl_completed_at = None, dl_error = None\<rparr>"

definition run_attempts ::
    "'d push_env \<Rightarrow> push_target \<Rightarrow> bool \<Rightarrow> delivery_oracle \<Rightarrow> string \<Rightarrow> string \<Rightarrow> 'd delivery_trace
      \<Rightarrow> (string, unit) rust_result \<times> 'd delivery_trace" where
  "run_attempts pe target cancellable orc source payload tr =
     (let rc = pt_retry_config target
      in attempt_loop pe rc cancellable orc payload [0..<Suc (unat (rc_max_retries rc))] (unat (rc_backoff_secs rc))
           (initial_log target orc source payload) tr)"

definition deliver_with_retry ::
    "'d push_env \<Rightarrow> push_target \<Rightarrow> bool \<Rightarrow> delivery_oracle \<Rightarrow> push_item \<Rightarrow> 'd delivery_trace
      \<Rightarrow> (string, unit) rust_result \<times> 'd delivery_trace" where
  "deliver_with_retry pe target cancellable orc item tr =
     (case item of (source_id, v, ts) \<Rightarrow>
        (case render (pe_render pe) (pt_template target) \<lparr>tc_source_id = source_id, tc_value = v, tc_timestamp = ts\<rparr> of
           Inl e \<Rightarrow> (Inl e, tr)
         | Inr payload \<Rightarrow> run_attempts pe target cancellable orc source_id payload tr))"

definition batch_payload :: "'d push_env \<Rightarrow> push_target \<Rightarrow> push_item list \<Rightarrow> string" where
  "batch_payload pe target buffer =
     (let j = (case bc_format (pt_batch_config target) of
          Nested \<Rightarrow> build_nested_batch_payload buffer
        | Flat \<Rightarrow> build_flat_batch_payload (pe_render pe) (pt_template target) buffer)
      in case re_to_string (pe_render pe) j of Inr s \<Rightarrow> s | Inl _ \<Rightarrow> [])"

definition flush_batch ::
    "'d push_env \<Rightarrow> push_target \<Rightarrow> bool \<Rightarrow> delivery_oracle \<Rightarrow> push_item list \<Rightarrow> 'd delivery_trace
      \<Rightarrow> push_item list \<times> 'd delivery_trace" where
  "flush_batch pe target cancellable orc buffer tr =
     (if buffer = [] then (buffer, tr)
      else let buffer = filter (\<lambda>(s, _, _). \<not> is_raw_metric s) buffer
           in if buffer = [] then (buffer, tr)
              else ([], snd (run_attempts pe target cancellable orc (join '','' (map fst buffer)) (batch_payload pe target buffer) tr)))"

section \<open>Backpressure warnings\<close>

definition DATA_PUSH_MAX_INFLIGHT_DELIVERIES :: nat where
  "DATA_PUSH_MAX_INFLIGHT_DELIVERIES = 4"

definition DATA_PUSH_MAX_BUFFER_ENTRIES :: nat where
  "DATA_PUSH_MAX_BUFFER_ENTRIES = 1000"

record drop_counter =
  bd_dropped :: u64
  bd_window_start :: "instant option"

definition drop_counter_default :: drop_counter where
  "drop_counter_default = \<lparr>bd_dropped = 0, bd_window_start = None\<rparr>"

definition record_drop :: "instant \<Rightarrow> drop_counter \<Rightarrow> u64 option \<times> drop_counter" where
  "record_drop now c =
     (case bd_window_start c of
        None \<Rightarrow> (Some 1, \<lparr>bd_dropped = 1, bd_window_start = Some now\<rparr>)
      | Some start \<Rightarrow>
          if as_secs (elapsed_since now start) \<ge> 60 then (Some (bd_dropped c), \<lparr>bd_dropped = 1, bd_window_start = Some now\<rparr>)
          else (None, c\<lparr>bd_dropped := bd_dropped c + 1\<rparr>))"


section \<open>Lemmas on the retry loop\<close>

lemma save_or_warn_simps [simp]:
  "dt_sends (save_or_warn pe l tr) = dt_sends tr" "dt_pauses (save_or_warn pe l tr) = dt_pauses tr"
  by (simp_all add: save_or_warn_def split: sum.splits)

text \<open>How a delivery ends: at attempt \<open>k\<close>, with \<open>lg\<close> the last log written.\<close>

definition ends_at ::
    "'d push_env \<Rightarrow> push_retry_config \<Rightarrow> bool \<Rightarrow> delivery_oracle \<Rightarrow> string \<Rightarrow> nat \<Rightarrow> nat \<Rightarrow> (string, unit) rust_result
      \<Rightarrow> delivery_log \<Rightarrow> 'd delivery_trace \<Rightarrow> bool" where
  "ends_at pe rc cancellable orc payload a k res lg tr' \<longleftrightarrow>
     a \<le> k \<and> k \<le> unat (rc_max_retries rc)
     \<and> (\<forall>j. a \<le> j \<and> j < k \<longrightarrow> isl (do_send orc j payload) \<and> \<not> sleep_or_cancel cancellable orc j)
     \<and> (k = unat (rc_max_retries rc) \<or> \<not> isl (do_send orc k payload) \<or> sleep_or_cancel cancellable orc k)
     \<and> (res = Inr () \<longleftrightarrow> \<not> isl (do_send orc k payload))
     \<and> (\<exists>tr0. tr' = save_or_warn pe lg tr0)
     \<and> dl_attempts lg = of_nat (Suc k) \<and> dl_status lg = (if isl (do_send orc k payload) then DFailed else DSuccess)
     \<and> dl_completed_at lg = Some (timestamp (do_now orc k))"

definition same_delivery :: "delivery_log \<Rightarrow> delivery_log \<Rightarrow> bool" where
  "same_delivery l m \<longleftrightarrow> dl_id m = dl_id l \<and> dl_target_id m = dl_target_id l \<and> dl_payload_sent m = dl_payload_sent l
     \<and> dl_data_source_id m = dl_data_source_id l"

lemma ends_at_here:
  assumes "k \<le> unat (rc_max_retries rc)"
    and "k = unat (rc_max_retries rc) \<or> \<not> isl (do_send orc k payload) \<or> sleep_or_cancel cancellable orc k"
    and "res = Inr () \<longleftrightarrow> \<not> isl (do_send orc k payload)" and "dl_attempts lg = of_nat (Suc k)"
    and "dl_status lg = (if isl (do_send orc k payload) then DFailed else DSuccess)"
    and "dl_completed_at lg = Some (timestamp (do_now orc k))"
  shows "ends_at pe rc cancellable orc payload k k res lg (save_or_warn pe lg tr)"
  using assms by (auto simp: ends_at_def)

lemma ends_at_later:
  assumes "ends_at pe rc cancellable orc payload (Suc a) k res lg tr'"
    and "isl (do_send orc a payload)" and "\<not> sleep_or_cancel cancellable orc a"
  shows "ends_at pe rc cancellable orc payload a k res lg tr'"
  unfolding ends_at_def
proof (intro conjI allI impI)
  fix j assume "a \<le> j \<and> j < k"
  with assms show "isl (do_send orc j payload)" "\<not> sleep_or_cancel cancellable orc j"
    by (cases "j = a"; simp add: ends_at_def)+
qed (use assms(1) in \<open>auto simp: ends_at_def\<close>)

lemma attempt_loop_step:
  assumes "attempt_loop pe rc cancellable orc payload (a # rest) backoff log tr = (res, tr')" and "a \<le> unat (rc_max_retries rc)"
  obtains (over) lg where "ends_at pe rc cancellable orc payload a a res lg tr'" "same_delivery log lg"
      "dt_sends tr' = dt_sends tr @ [payload]"
    | (again) b' log' tr'' where "attempt_loop pe rc cancellable orc payload rest b' log' tr'' = (res, tr')"
      "a < unat (rc_max_retries rc)" "isl (do_send orc a payload)" "\<not> sleep_or_cancel cancellable orc a"
      "same_delivery log log'" "dt_sends tr'' = dt_sends tr @ [payload]"
proof (cases "do_send orc a payload")
  case (Inr u)
  let ?lg = "log\<lparr>dl_attempts := of_nat (Suc a), dl_status := DSuccess, dl_completed_at := Some (timestamp (do_now orc a))\<rparr>"
  from assms Inr have "ends_at pe rc cancellable orc payload a a res ?lg tr'" "dt_sends tr' = dt_sends tr @ [payload]"
    by (auto simp: Let_def intro!: ends_at_here)
  then show thesis by (intro over [of ?lg]) (simp_all add: same_delivery_def)
next
  case (Inl e)
  obtain secs rl where eb: "effective_backoff rc backoff e = (secs, rl)" by fastforce
  let ?log = "log\<lparr>dl_attempts := of_nat (Suc a), dl_error := Some (show_delivery_error e)\<rparr>"
  consider "\<not> a < unat (rc_max_retries rc)" | "a < unat (rc_max_retries rc)" "sleep_or_cancel cancellable orc a"
    | "a < unat (rc_max_retries rc)" "\<not> sleep_or_cancel cancellable orc a" by blast
  then show thesis
  proof cases
    case 1
    let ?lg = "?log\<lparr>dl_status := DFailed, dl_completed_at := Some (timestamp (do_now orc a))\<rparr>"
    from assms Inl eb 1 have "ends_at pe rc cancellable orc payload a a res ?lg tr'" "dt_sends tr' = dt_sends tr @ [payload]"
      by (auto simp: Let_def intro!: ends_at_here)
    then show thesis by (intro over [of ?lg]) (simp_all add: same_delivery_def)
  next
    case 2
    let ?lg = "?log\<lparr>dl_status := DFailed, dl_error := Some (''Cancelled during retry backoff: '' @ show_delivery_error e),
        dl_completed_at := Some (timestamp (do_now orc a))\<rparr>"
    from assms Inl eb 2 have "ends_at pe rc cancellable orc payload a a res ?lg tr'" "dt_sends tr' = dt_sends tr @ [payload]"
      by (auto simp: Let_def intro!: ends_at_here)
    then show thesis by (intro over [of ?lg]) (simp_all add: same_delivery_def)
  next
    case 3
    let ?tr = "save_or_warn pe (?log\<lparr>dl_status := DRetrying\<rparr>) (tr\<lparr>dt_sends := dt_sends tr @ [payload]\<rparr>)"
    from assms(1) Inl eb 3 have "attempt_loop pe rc cancellable orc payload rest (if rl then backoff else saturating_double backoff)
        (?log\<lparr>dl_status := DRetrying\<rparr>) (?tr\<lparr>dt_pauses := dt_pauses ?tr @ [secs]\<rparr>) = (res, tr')" by (simp add: Let_def)
    from again [OF this] 3 Inl show thesis by (simp add: same_delivery_def)
  qed
qed

lemma attempt_loop_ends:
  assumes "attempt_loop pe rc cancellable orc payload [a..<Suc (unat (rc_max_retries rc))] backoff log tr = (res, tr')"
    and "a \<le> unat (rc_max_retries rc)"
  shows "\<exists>k lg. ends_at pe rc cancellable orc payload a k res lg tr' \<and> same_delivery log lg
    \<and> dt_sends tr' = dt_sends tr @ replicate (Suc k - a) payload"
  using assms
proof (induction "unat (rc_max_retries rc) - a" arbitrary: a backoff log tr rule: less_induct)
  case less
  let ?mx = "unat (rc_max_retries rc)"
  have "[a..<Suc ?mx] = a # [Suc a..<Suc ?mx]" using less.prems(2) by (simp add: upt_conv_Cons del: upt_Suc)
  with less.prems have "attempt_loop pe rc cancellable orc payload (a # [Suc a..<Suc ?mx]) backoff log tr = (res, tr')" by simp
  from this less.prems(2) show ?case
  proof (cases rule: attempt_loop_step)
    case (over lg)
    then show ?thesis by force
  next
    case (again b' log' tr'')
    then have "?mx - Suc a < ?mx - a" "Suc a \<le> ?mx" by simp_all
    from less.hyps [OF this(1) again(1) this(2)] obtain k lg where
      e: "ends_at pe rc cancellable orc payload (Suc a) k res lg tr'" "same_delivery log' lg"
        "dt_sends tr' = dt_sends tr'' @ replicate (Suc k - Suc a) payload" by blast
    have "Suc a \<le> k" using e(1) by (simp add: ends_at_def)
    then have "Suc k - a = Suc (Suc k - Suc a)" by simp
    with e(3) again(6) have "dt_sends tr' = dt_sends tr @ replicate (Suc k - a) payload" by simp
    moreover have "same_delivery log lg" using e(2) again(5) by (simp add: same_delivery_def)
    ultimately show ?thesis using ends_at_later [OF e(1) again(3,4)] by blast
  qed
qed

section \<open>Properties of deliveries\<close>

text \<open>C20. Every delivery comes to an end and its end is on record: \<open>deliver_with_retry\<close> with a renderable payload
  hands that payload to the destination \<open>k + 1\<close> times, with \<open>k\<close> at most the configured number of
  retries, and stops at the first attempt that succeeds, after whose failure a stop is seen, or that
  is the last one allowed; it reports success exactly if that attempt succeeded, and unless the
  database refuses the last write, the log of the delivery shows \<open>Success\<close> or \<open>Failed\<close> accordingly, with the number of
  attempts and the time of completion, never a pending or retrying state.\<close>

theorem delivery_concludes:
  assumes "redb_laws (pe_redb pe) c" and "push_codec_laws (pe_codec pe)"
    and "render (pe_render pe) (pt_template target) \<lparr>tc_source_id = s, tc_value = v, tc_timestamp = ts\<rparr> = Inr payload"
    and "deliver_with_retry pe target cancellable orc (s, v, ts) tr = (res, tr')"
  shows "\<exists>k \<le> unat (rc_max_retries (pt_retry_config target)).
      dt_sends tr' = dt_sends tr @ replicate (Suc k) payload
    \<and> (\<forall>j < k. isl (do_send orc j payload) \<and> \<not> (cancellable \<and> do_stopped orc j))
    \<and> (k = unat (rc_max_retries (pt_retry_config target)) \<or> \<not> isl (do_send orc k payload) \<or> cancellable \<and> do_stopped orc k)
    \<and> (res = Inr () \<longleftrightarrow> \<not> isl (do_send orc k payload))
    \<and> (\<exists>lg. dl_id lg = do_fresh orc \<and> dl_target_id lg = pt_id target \<and> dl_payload_sent lg = payload
        \<and> dl_attempts lg = of_nat (Suc k) \<and> dl_completed_at lg = Some (timestamp (do_now orc k))
        \<and> dl_status lg = (if res = Inr () then DSuccess else DFailed)
        \<and> ((\<exists>e. save_delivery_log (pe_redb pe) (pe_codec pe) lg (dt_db tr') = Inl e)
           \<or> log_map (pe_codec pe) c (dt_db tr') (do_fresh orc) = Some lg))"
proof -
  let ?rc = "pt_retry_config target"
  from assms(3,4) have "attempt_loop pe ?rc cancellable orc payload [0..<Suc (unat (rc_max_retries ?rc))]
      (unat (rc_backoff_secs ?rc)) (initial_log target orc s payload) tr = (res, tr')"
    by (simp add: deliver_with_retry_def run_attempts_def Let_def del: upt_Suc)
  from attempt_loop_ends [OF this] obtain k lg where
    e: "ends_at pe ?rc cancellable orc payload 0 k res lg tr'" "same_delivery (initial_log target orc s payload) lg"
      "dt_sends tr' = dt_sends tr @ replicate (Suc k) payload" by auto
  from e(1) obtain tr0 where tr': "tr' = save_or_warn pe lg tr0" by (auto simp: ends_at_def)
  have "dl_id lg = do_fresh orc" using e(2) by (simp add: same_delivery_def initial_log_def)
  then have "(\<exists>e. save_delivery_log (pe_redb pe) (pe_codec pe) lg (dt_db tr') = Inl e)
      \<or> log_map (pe_codec pe) c (dt_db tr') (do_fresh orc) = Some lg"
    using save_delivery_log_maps(1) [OF assms(1,2), of lg "dt_db tr0"] tr'
    by (auto simp: save_or_warn_def split: sum.splits)
  with e show ?thesis
    unfolding ends_at_def same_delivery_def initial_log_def sleep_or_cancel_def by fastforce
qed


definition one_shot_oracle :: delivery_oracle where
  "one_shot_oracle =
     \<lparr>do_send = (\<lambda>j _. if j = 0 then Inl (Other ''down'') else Inr ()), do_stopped = (\<lambda>_. False), do_now = (\<lambda>j. int j * 1000000000),
      do_created = 0, do_fresh = ''a''\<rparr>"

definition example_push_env :: "mem_db push_env" where
  "example_push_env =
     \<lparr>pe_redb = mem_redb, pe_codec = example_push_codec,
      pe_render = \<lparr>re_template = (\<lambda>t _. Inr t), re_to_string = (\<lambda>_. Inr ''{}''), re_from_str = (\<lambda>_. Inl ''no'')\<rparr>,
      pe_destinations = \<lparr>ds_webhook_from_value = (\<lambda>_. Inl ''no''), ds_mqtt_from_value = (\<lambda>_. Inl ''no''), ds_build_client = (\<lambda>_. Inr ())\<rparr>,
      pe_image = (\<lambda>_. None), pe_order = (\<lambda>m. m)\<rparr>"

theorem delivery_concludes_witness:
  "\<exists>res tr' k. deliver_with_retry example_push_env example_target True one_shot_oracle (''device:s1:t'', JInt 5, 7)
       \<lparr>dt_db = [], dt_sends = [], dt_pauses = []\<rparr> = (res, tr')
     \<and> dt_sends tr' = replicate (Suc k) ''{}'' \<and> k \<le> 3 \<and> (res = Inr () \<longleftrightarrow> k \<noteq> 0)"
proof -
  let ?tr = "\<lparr>dt_db = [], dt_sends = [], dt_pauses = []\<rparr> :: mem_db delivery_trace"
  obtain res tr' where run: "deliver_with_retry example_push_env example_target True one_shot_oracle (''device:s1:t'', JInt 5, 7) ?tr = (res, tr')"
    by fastforce
  have "redb_laws (pe_redb example_push_env) mem_contents" "push_codec_laws (pe_codec example_push_env)"
    using mem_redb_laws example_push_codec_laws by (simp_all add: example_push_env_def)
  moreover have "render (pe_render example_push_env) (pt_template example_target)
      \<lparr>tc_source_id = ''device:s1:t'', tc_value = JInt 5, tc_timestamp = 7\<rparr> = Inr ''{}''"
    by (simp add: render_def example_push_env_def example_target_def)
  ultimately obtain k where "k \<le> unat (rc_max_retries (pt_retry_config example_target))"
    "dt_sends tr' = dt_sends ?tr @ replicate (Suc k) ''{}''" "res = Inr () \<longleftrightarrow> \<not> isl (do_send one_shot_oracle k ''{}'')"
    using delivery_concludes [OF _ _ _ run] by blast
  then show ?thesis using run by (auto simp: one_shot_oracle_def example_target_def push_retry_config_default_def)
qed

section \<open>Pauses\<close>

definition pauses_within :: "nat \<Rightarrow> nat \<Rightarrow> 'd delivery_trace \<Rightarrow> 'd delivery_trace \<Rightarrow> bool" where
  "pauses_within n bound tr tr' \<longleftrightarrow>
     (\<exists>ps. dt_pauses tr' = dt_pauses tr @ ps \<and> length ps \<le> n \<and> (\<forall>p \<in> set ps. p \<le> bound))"

lemma pauses_within_here: "dt_pauses tr' = dt_pauses tr \<Longrightarrow> pauses_within n bound tr tr'"
  by (simp add: pauses_within_def)

lemma pauses_within_more:
  assumes "pauses_within n bound tr'' tr'" and "dt_pauses tr'' = dt_pauses tr @ [p]" and "p \<le> bound"
  shows "pauses_within (Suc n) bound tr tr'"
proof -
  from assms(1) obtain ps where "dt_pauses tr' = dt_pauses tr'' @ ps" "length ps \<le> n" "\<forall>p \<in> set ps. p \<le> bound"
    by (auto simp: pauses_within_def)
  with assms(2,3) have "dt_pauses tr' = dt_pauses tr @ p # ps" "length (p # ps) \<le> Suc n" "\<forall>q \<in> set (p # ps). q \<le> bound" by auto
  then show ?thesis unfolding pauses_within_def by blast
qed

lemma attempt_loop_pauses:
  assumes "attempt_loop pe rc cancellable orc payload attempts backoff log tr = (res, tr')"
    and "unat (rc_max_backoff_secs rc) \<le> bound" and "60 \<le> bound"
    and "\<And>j d. do_send orc j payload = Inl (RateLimited (Some d)) \<Longrightarrow> as_secs d \<le> bound"
  shows "pauses_within (length (filter (\<lambda>a. a < unat (rc_max_retries rc)) attempts)) bound tr tr'"
  using assms(1)
proof (induction attempts arbitrary: backoff log tr)
  case (Cons a rest)
  let ?n = "length (filter (\<lambda>a. a < unat (rc_max_retries rc)) rest)"
  show ?case
  proof (cases "do_send orc a payload")
    case (Inl e)
    obtain secs rl where eb: "effective_backoff rc backoff e = (secs, rl)" by fastforce
    have secs: "secs \<le> bound"
      using eb assms(2-4) Inl by (auto simp: effective_backoff_def DEFAULT_429_BACKOFF_SECS_def split: delivery_error.splits option.splits)
    let ?log = "log\<lparr>dl_attempts := of_nat (Suc a), dl_error := Some (show_delivery_error e), dl_status := DRetrying\<rparr>"
    let ?tr = "save_or_warn pe ?log (tr\<lparr>dt_sends := dt_sends tr @ [payload]\<rparr>)\<lparr>dt_pauses := dt_pauses tr @ [secs]\<rparr>"
    consider "\<not> a < unat (rc_max_retries rc)" | "a < unat (rc_max_retries rc)" "sleep_or_cancel cancellable orc a"
      | "a < unat (rc_max_retries rc)" "\<not> sleep_or_cancel cancellable orc a" by blast
    then show ?thesis
    proof cases
      case 1
      with Cons.prems Inl eb show ?thesis by (intro pauses_within_here) (auto simp: Let_def)
    next
      case 2
      with Cons.prems Inl eb have "dt_pauses tr' = dt_pauses ?tr" by (auto simp: Let_def)
      with 2 secs pauses_within_more [OF pauses_within_here, of tr' ?tr] show ?thesis by simp
    next
      case 3
      with Cons.prems Inl eb have "attempt_loop pe rc cancellable orc payload rest (if rl then backoff else saturating_double backoff) ?log ?tr = (res, tr')"
        by (simp add: Let_def)
      from pauses_within_more [OF Cons.IH [OF this]] 3 secs show ?thesis by simp
    qed
  qed (use Cons.prems in \<open>auto simp: Let_def intro!: pauses_within_here\<close>)
qed (auto intro: pauses_within_here)

text \<open>A throttled or failing webhook holds a delivery only so long: the pauses of a delivery number at most
  the configured retries, and each lasts no longer than the configured maximum or ten minutes, whatever
  the endpoint asks for.\<close>

lemma webhook_pauses_bounded:
  assumes "\<And>j p. do_send orc j p = webhook_send show_status take_chars (http j) wc p"
    and "deliver_with_retry pe target cancellable orc item tr = (res, tr')"
  shows "\<exists>ps. dt_pauses tr' = dt_pauses tr @ ps \<and> length ps \<le> unat (rc_max_retries (pt_retry_config target))
    \<and> sum_list ps \<le> unat (rc_max_retries (pt_retry_config target)) * max (unat (rc_max_backoff_secs (pt_retry_config target))) 600"
proof -
  let ?rc = "pt_retry_config target" and ?b = "max (unat (rc_max_backoff_secs (pt_retry_config target))) 600"
  have ra: "as_secs d \<le> ?b" if "do_send orc j p = Inl (RateLimited (Some d))" for j p d
  proof -
    from that obtain r :: http_response where "parse_retry_after (rs_retry_after r) = Some d"
      unfolding assms(1) webhook_send_def webhook_rate_limited_iff by metis
    then show ?thesis using parse_retry_after_bound by (simp add: le_max_iff_disj)
  qed
  obtain s v ts where item: "item = (s, v, ts)" by (metis prod_cases3)
  have "pauses_within (unat (rc_max_retries ?rc)) ?b tr tr'"
  proof (cases "render (pe_render pe) (pt_template target) \<lparr>tc_source_id = s, tc_value = v, tc_timestamp = ts\<rparr>")
    case (Inl e)
    with assms(2) item show ?thesis by (auto simp: deliver_with_retry_def intro: pauses_within_here)
  next
    case (Inr payload)
    with assms(2) item have loop: "attempt_loop pe ?rc cancellable orc payload [0..<Suc (unat (rc_max_retries ?rc))]
        (unat (rc_backoff_secs ?rc)) (initial_log target orc s payload) tr = (res, tr')"
      by (simp add: deliver_with_retry_def run_attempts_def Let_def del: upt_Suc)
    have "filter (\<lambda>a. a < n) [0..<Suc n] = [0..<n]" for n by (simp add: filter_id_conv)
    with attempt_loop_pauses [OF loop, of ?b] ra show ?thesis by (simp del: upt_Suc)
  qed
  then obtain ps where ps: "dt_pauses tr' = dt_pauses tr @ ps" "length ps \<le> unat (rc_max_retries ?rc)" "\<forall>p \<in> set ps. p \<le> ?b"
    by (auto simp: pauses_within_def)
  then have "sum_list ps \<le> length ps * ?b" using sum_list_mono [of ps "\<lambda>p. p" "\<lambda>_. ?b"] by (simp add: sum_list_triv)
  also have "\<dots> \<le> unat (rc_max_retries ?rc) * ?b" using ps(2) by (rule mult_le_mono1)
  finally show ?thesis using ps by blast
qed

section \<open>Batches are flushed whole\<close>

text \<open>Whatever happens, a flush leaves the buffer empty, and unless only raw dumps were buffered the
  destination has been handed one payload for all of it, at least once.\<close>

lemma flush_batch_empties: "fst (flush_batch pe target cancellable orc buffer tr) = []"
  by (simp add: flush_batch_def Let_def)

lemma flush_batch_sends:
  assumes "filter (\<lambda>(s, _, _). \<not> is_raw_metric s) buffer \<noteq> []" (is "?buffer \<noteq> []")
  shows "\<exists>k \<le> unat (rc_max_retries (pt_retry_config target)).
    dt_sends (snd (flush_batch pe target cancellable orc buffer tr)) = dt_sends tr @ replicate (Suc k) (batch_payload pe target ?buffer)"
proof -
  let ?rc = "pt_retry_config target" and ?p = "batch_payload pe target ?buffer"
  obtain res tr' where run: "run_attempts pe target cancellable orc (join '','' (map fst ?buffer)) ?p tr = (res, tr')" by fastforce
  then have "attempt_loop pe ?rc cancellable orc ?p [0..<Suc (unat (rc_max_retries ?rc))]
      (unat (rc_backoff_secs ?rc)) (initial_log target orc (join '','' (map fst ?buffer)) ?p) tr = (res, tr')"
    by (simp add: run_attempts_def Let_def del: upt_Suc)
  from attempt_loop_ends [OF this] obtain k lg where
    "ends_at pe ?rc cancellable orc ?p 0 k res lg tr'" "dt_sends tr' = dt_sends tr @ replicate (Suc k) ?p" by auto
  moreover have "snd (flush_batch pe target cancellable orc buffer tr) = tr'"
    using assms run by (auto simp: flush_batch_def Let_def)
  ultimately show ?thesis by (auto simp: ends_at_def)
qed

section \<open>Rate limits\<close>

text \<open>Both limiters read the clock once: the time that decides is the time that is recorded.\<close>

definition warn_attempt :: "unit \<Rightarrow> int \<Rightarrow> int \<Rightarrow> int \<Rightarrow> drop_counter \<Rightarrow> bool \<times> drop_counter" where
  "warn_attempt u t t' t'' c = (if t' = t then (case record_drop (nat t) c of (r, c') \<Rightarrow> (r \<noteq> None, c')) else (False, c))"

interpretation warnings: time_gate "\<lambda>u. u" "\<lambda>c _. map_option int (bd_window_start c)" warn_attempt "\<lambda>_. 60000000000" "\<lambda>_. True" 0
  by unfold_locales
    (auto simp: warn_attempt_def record_drop_def as_secs_def elapsed_since_def split: if_splits option.splits)

definition virtual_attempt ::
    "string \<times> string \<times> int \<Rightarrow> int \<Rightarrow> int \<Rightarrow> int \<Rightarrow> recent_virtual \<Rightarrow> bool \<times> recent_virtual" where
  "virtual_attempt key t t' t'' recent =
     (if t' = t then (case is_duplicate_virtual (nat t) (fst key) (fst (snd key)) (snd (snd key)) recent of (dup, r) \<Rightarrow> (\<not> dup, r))
      else (False, recent))"

lemma virtual_attempt_True:
  assumes "virtual_attempt key t t' t'' r = (True, r')"
  shows "t' = t" and "hm_get r key = Some u \<Longrightarrow> 5000000000 \<le> nat t - u"
    and "r' = (let r = hm_insert key (nat t) r in if length r > 512 then filter (\<lambda>(_, u). nat t - u < 5000000000) r else r)"
  using assms by (auto simp: virtual_attempt_def is_duplicate_virtual_def elapsed_since_def from_secs_def
      VIRTUAL_DEDUP_WINDOW_SECS_def Let_def split: if_splits option.splits)

lemma virtual_attempt_False: "virtual_attempt key t t' t'' r = (False, r') \<Longrightarrow> r' = r"
  by (auto simp: virtual_attempt_def is_duplicate_virtual_def Let_def split: if_splits option.splits)

interpretation virtuals: time_gate "\<lambda>k. k" "\<lambda>r k. map_option int (hm_get r k)" virtual_attempt "\<lambda>_. 5000000000" "\<lambda>r. hm_wf r" 0
proof unfold_locales
  fix r r' :: recent_virtual and key t t' t'' u
  assume wf: "hm_wf r"
  show "5000000000 \<le> t - u \<or> (5000000000 :: int) \<le> 0"
    if "0 \<le> t" "virtual_attempt key t t' t'' r = (True, r')" "map_option int (hm_get r key) = Some u"
    using virtual_attempt_True(2) [OF that(2)] that by auto
  show "map_option int (hm_get r' key) = Some t' \<or> 5000000000 \<le> t'' - t'"
    if "0 \<le> t" "virtual_attempt key t t' t'' r = (True, r')" "t \<le> t'" "t' \<le> t''"
    using wf that virtual_attempt_True(1) [OF that(2)] unfolding virtual_attempt_True(3) [OF that(2)] Let_def
    by (simp add: hm_get_filter)
  show "map_option int (hm_get r' j) = Some u \<or> 5000000000 \<le> t'' - u"
    if "0 \<le> t" "virtual_attempt key t t' t'' r = (True, r')" "t \<le> t'" "t' \<le> t''" "j \<noteq> key" "map_option int (hm_get r j) = Some u" for j
    using wf that virtual_attempt_True(1) [OF that(2)] unfolding virtual_attempt_True(3) [OF that(2)] Let_def
    by (auto simp: hm_get_filter)
  show "(\<lambda>k. map_option int (hm_get r' k)) = (\<lambda>k. map_option int (hm_get r k))" if "virtual_attempt key t t' t'' r = (False, r')"
    using virtual_attempt_False [OF that] by simp
  show "hm_wf r'" if "virtual_attempt key t t' t'' r = (b, r')" for b
  proof (cases b)
    case True
    with that have "virtual_attempt key t t' t'' r = (True, r')" by simp
    from virtual_attempt_True(3) [OF this] wf show ?thesis by (simp add: Let_def distinct_map_filter)
  next
    case False
    with that virtual_attempt_False [of key t t' t'' r r'] wf show ?thesis by simp
  qed
qed

text \<open>Along a run of drops, warnings are a minute apart; along a run of virtual metrics, two equal ones that
  pass are five seconds apart.\<close>

lemmas warnings_spaced = warnings.gate_spaced
lemmas virtuals_spaced = virtuals.gate_spaced

end
