(* ===== verification/PushScheduler.thy ===== *)
theory PushScheduler
  imports PushDelivery
begin

text \<open>
  The tasks of \<open>PushScheduler\<close>, \<open>heramind-data-push/src/scheduler.rs\<close>: the loop of an event-driven target and
  the loop of an interval target, one step per turn of their \<open>select!\<close>, and the table of running
  tasks. Which branch of a turn is taken is an input; so are the clock, the answers to deliveries and
  the completion of deliveries that run beside the loop. Starting a delivery beside the loop
  appends its item to \<open>tk_spawned\<close>.
\<close>

section \<open>State of a task\<close>

record 'd push_task =
  tk_matcher :: data_source_matcher
  tk_buffer :: "push_item list"
  tk_recent :: recent_virtual
  tk_drops :: drop_counter
  tk_flush_timer :: instant
  tk_in_flight :: nat
  tk_spawned :: "push_item list"
  tk_warnings :: "u64 list"
  tk_trace :: "'d delivery_trace"
  tk_finished :: bool

definition batch_interval :: "push_target \<Rightarrow> duration" where
  "batch_interval target = from_millis (unat (bc_batch_interval_ms (pt_batch_config target)))"

text \<open>A task without an event bus, or whose destination cannot be created, ends at once.\<close>

definition task_new :: "'d push_env \<Rightarrow> bool \<Rightarrow> push_target \<Rightarrow> instant \<Rightarrow> 'd delivery_trace \<Rightarrow> 'd push_task" where
  "task_new pe has_bus target now tr =
     \<lparr>tk_matcher = matcher_new (pt_data_filter target), tk_buffer = [], tk_recent = [], tk_drops = drop_counter_default,
      tk_flush_timer = now + batch_interval target, tk_in_flight = 0, tk_spawned = [], tk_warnings = [], tk_trace = tr,
      tk_finished = (\<not> has_bus \<or> isl (create_destination (pe_destinations pe) (pt_target_type target) (pt_config target)))\<rparr>"

section \<open>Common parts of the loops\<close>

definition flush_task :: "'d push_env \<Rightarrow> push_target \<Rightarrow> delivery_oracle \<Rightarrow> 'd push_task \<Rightarrow> 'd push_task" where
  "flush_task pe target orc tk =
     (let (buffer, tr) = flush_batch pe target True orc (tk_buffer tk) (tk_trace tk)
      in tk\<lparr>tk_buffer := buffer, tk_trace := tr\<rparr>)"

text \<open>The last flush of a task has thirty seconds: \<open>seen\<close> is the number of attempts whose outcome is seen in that
  time.\<close>

definition final_flush :: "'d push_env \<Rightarrow> push_target \<Rightarrow> delivery_oracle \<Rightarrow> nat \<Rightarrow> push_item list \<Rightarrow> 'd delivery_trace \<Rightarrow> 'd delivery_trace" where
  "final_flush pe target orc seen buffer tr =
     (let buffer = filter (\<lambda>(s, _, _). \<not> is_raw_metric s) buffer; rc = pt_retry_config target;
          payload = batch_payload pe target buffer
      in if buffer = [] then tr
         else snd (attempt_loop pe rc False orc payload (take seen [0..<Suc (unat (rc_max_retries rc))]) (unat (rc_backoff_secs rc))
                (initial_log target orc (join '','' (map fst buffer)) payload) tr))"

definition stop_task :: "'d push_env \<Rightarrow> push_target \<Rightarrow> delivery_oracle \<Rightarrow> nat \<Rightarrow> 'd push_task \<Rightarrow> 'd push_task" where
  "stop_task pe target orc seen tk =
     (if tk_buffer tk \<noteq> [] then tk\<lparr>tk_trace := final_flush pe target orc seen (tk_buffer tk) (tk_trace tk), tk_finished := True\<rparr>
      else tk\<lparr>tk_finished := True\<rparr>)"

text \<open>What an event contributes: nothing, or an item, after the filter and the check for repeated virtual
  metrics.\<close>

definition admit_event ::
    "'d push_env \<Rightarrow> instant \<Rightarrow> (json \<Rightarrow> string) \<Rightarrow> heramind_event \<Rightarrow> 'd push_task \<Rightarrow> push_item option \<times> 'd push_task" where
  "admit_event pe now to_text e tk =
     (case extract_event_data e of
        None \<Rightarrow> (None, tk)
      | Some (source_id, v, ts, is_virtual) \<Rightarrow>
          (let (push, m) = should_push (pe_order pe) source_id (to_text v) (tk_matcher tk); tk = tk\<lparr>tk_matcher := m\<rparr>
           in if \<not> push then (None, tk)
              else if is_virtual then
                (let (dup, recent) = is_duplicate_virtual now source_id (to_text v) ts (tk_recent tk); tk = tk\<lparr>tk_recent := recent\<rparr>
                 in if dup then (None, tk) else (Some (source_id, resolve_image_urls_in_value (pe_image pe) v, ts), tk))
              else (Some (source_id, resolve_image_urls_in_value (pe_image pe) v, ts), tk)))"

section \<open>The event-driven loop\<close>

text \<open>The branches of a turn: a stop request; something received, with whether a stop is pending and the
  readings that handling it needs; the flush timer; or the end of a delivery that ran beside the loop.\<close>

datatype task_turn =
    Stopped delivery_oracle nat
  | Received "heramind_event option" bool instant instant instant delivery_oracle nat
  | FlushTimer instant delivery_oracle
  | DeliveryDone

definition deliver_now :: "instant \<Rightarrow> push_item \<Rightarrow> 'd push_task \<Rightarrow> 'd push_task" where
  "deliver_now now item tk =
     (if tk_in_flight tk < DATA_PUSH_MAX_INFLIGHT_DELIVERIES
      then tk\<lparr>tk_in_flight := Suc (tk_in_flight tk), tk_spawned := tk_spawned tk @ [item]\<rparr>
      else (let (w, d) = record_drop now (tk_drops tk)
            in tk\<lparr>tk_drops := d, tk_warnings := tk_warnings tk @ (case w of Some n \<Rightarrow> [n] | None \<Rightarrow> [])\<rparr>))"

definition buffer_event ::
    "'d push_env \<Rightarrow> push_target \<Rightarrow> instant \<Rightarrow> instant \<Rightarrow> delivery_oracle \<Rightarrow> push_item \<Rightarrow> 'd push_task \<Rightarrow> 'd push_task" where
  "buffer_event pe target now now' orc item tk =
     (let was_empty = (tk_buffer tk = []); tk = tk\<lparr>tk_buffer := tk_buffer tk @ [item]\<rparr>;
          tk = (if was_empty then tk\<lparr>tk_flush_timer := now + batch_interval target\<rparr> else tk)
      in if length (tk_buffer tk) \<ge> bc_batch_size (pt_batch_config target) \<or> length (tk_buffer tk) \<ge> DATA_PUSH_MAX_BUFFER_ENTRIES
         then (flush_task pe target orc tk)\<lparr>tk_flush_timer := now' + batch_interval target\<rparr>
         else tk)"

definition event_turn ::
    "'d push_env \<Rightarrow> push_target \<Rightarrow> string list \<Rightarrow> (json \<Rightarrow> string) \<Rightarrow> task_turn \<Rightarrow> 'd push_task \<Rightarrow> 'd push_task" where
  "event_turn pe target event_types to_text turn tk =
     (if tk_finished tk then tk
      else case turn of
        Stopped orc seen \<Rightarrow> stop_task pe target orc seen tk
      | Received result stop_pending checked now now' orc seen \<Rightarrow>
          (if stop_pending then stop_task pe target orc seen tk
           else case result of
                  None \<Rightarrow> stop_task pe target orc seen tk
                | Some e \<Rightarrow>
                    if \<not> matches_event_type e event_types then tk
                    else (case admit_event pe checked to_text e tk of
                            (None, tk) \<Rightarrow> tk
                          | (Some item, tk) \<Rightarrow>
                              if \<not> batch_enabled (pt_batch_config target) then deliver_now now item tk
                              else buffer_event pe target now now' orc item tk))
      | FlushTimer now orc \<Rightarrow>
          (if batch_enabled (pt_batch_config target) \<and> tk_buffer tk \<noteq> []
           then (flush_task pe target orc tk)\<lparr>tk_flush_timer := now + batch_interval target\<rparr>
           else tk)
      | DeliveryDone \<Rightarrow> tk\<lparr>tk_in_flight := tk_in_flight tk - 1\<rparr>)"

section \<open>The interval loop\<close>

text \<open>A closed bus does not end this loop, and it has no bound on its buffer.\<close>

definition interval_turn ::
    "'d push_env \<Rightarrow> push_target \<Rightarrow> (json \<Rightarrow> string) \<Rightarrow> task_turn \<Rightarrow> 'd push_task \<Rightarrow> 'd push_task" where
  "interval_turn pe target to_text turn tk =
     (if tk_finished tk then tk
      else case turn of
        Stopped orc seen \<Rightarrow> stop_task pe target orc seen tk
      | Received result stop_pending checked now now' orc seen \<Rightarrow>
          (if stop_pending then stop_task pe target orc seen tk
           else case result of
                  None \<Rightarrow> tk
                | Some e \<Rightarrow>
                    (case admit_event pe checked to_text e tk of
                       (None, tk) \<Rightarrow> tk
                     | (Some item, tk) \<Rightarrow> tk\<lparr>tk_buffer := tk_buffer tk @ [item]\<rparr>))
      | FlushTimer now orc \<Rightarrow> (if tk_buffer tk \<noteq> [] then flush_task pe target orc tk else tk)
      | DeliveryDone \<Rightarrow> tk)"

section \<open>Running tasks\<close>

text \<open>The table of running tasks: for each target the settings its task was started with. Stopping waits for
  the task to end.\<close>

type_synonym push_handles = "(push_target_id, push_target) hash_map"

definition sched_stop :: "push_target_id \<Rightarrow> push_handles \<Rightarrow> push_handles" where
  "sched_stop i h = hm_remove i h"

definition sched_start :: "push_target \<Rightarrow> push_handles \<Rightarrow> push_handles" where
  "sched_start target h = hm_insert (pt_id target) target (sched_stop (pt_id target) h)"

definition sched_stop_all :: "push_handles \<Rightarrow> push_handles" where
  "sched_stop_all h = []"

section \<open>Lemmas\<close>

lemma flush_task_simps [simp]:
  "tk_buffer (flush_task pe target orc tk) = []"
  "tk_in_flight (flush_task pe target orc tk) = tk_in_flight tk"
  "tk_spawned (flush_task pe target orc tk) = tk_spawned tk"
  using flush_batch_empties [of pe target True orc "tk_buffer tk" "tk_trace tk"]
  by (auto simp: flush_task_def split: prod.splits)

lemma admit_event_frame:
  assumes "admit_event pe now to_text e tk = (r, tk')"
  shows "tk_buffer tk' = tk_buffer tk" "tk_in_flight tk' = tk_in_flight tk" "tk_spawned tk' = tk_spawned tk"
    "tk_finished tk' = tk_finished tk" "dm_filter (tk_matcher tk') = dm_filter (tk_matcher tk)"
  using assms should_push_filter
  by (auto simp: admit_event_def Let_def split: option.splits prod.splits if_splits) (metis+)?

lemma admitted_source:
  assumes "admit_event pe now to_text e tk = (Some (s, v, ts), tk')"
  shows "push_filter_matches (dm_filter (tk_matcher tk)) s" and "\<exists>w b. extract_event_data e = Some (s, w, ts, b)
      \<and> v = resolve_image_urls_in_value (pe_image pe) w"
  using assms by (auto simp: admit_event_def should_push_def Let_def split: option.splits prod.splits if_splits)


definition task_bounded :: "push_target \<Rightarrow> 'd push_task \<Rightarrow> bool" where
  "task_bounded target tk \<longleftrightarrow>
     tk_in_flight tk \<le> DATA_PUSH_MAX_INFLIGHT_DELIVERIES
     \<and> length (tk_buffer tk) < DATA_PUSH_MAX_BUFFER_ENTRIES
     \<and> length (tk_buffer tk) < max 1 (bc_batch_size (pt_batch_config target))
     \<and> dm_filter (tk_matcher tk) = pt_data_filter target
     \<and> (\<forall>item \<in> set (tk_buffer tk @ tk_spawned tk). push_filter_matches (pt_data_filter target) (fst item))"

lemma flush_task_bounded:
  assumes "tk_in_flight tk \<le> DATA_PUSH_MAX_INFLIGHT_DELIVERIES" and "dm_filter (tk_matcher tk) = pt_data_filter target"
    and "\<forall>item \<in> set (tk_spawned tk). push_filter_matches (pt_data_filter target) (fst item)"
  shows "task_bounded target ((flush_task pe target orc tk)\<lparr>tk_flush_timer := t\<rparr>)"
  using assms by (auto simp: task_bounded_def DATA_PUSH_MAX_BUFFER_ENTRIES_def flush_task_def[of pe target orc tk] flush_batch_def Let_def)

lemma stop_task_bounded: "task_bounded target tk \<Longrightarrow> task_bounded target (stop_task pe target orc seen tk)"
  by (simp add: task_bounded_def stop_task_def)

lemma deliver_now_bounded:
  "task_bounded target tk \<Longrightarrow> push_filter_matches (pt_data_filter target) (fst item) \<Longrightarrow> task_bounded target (deliver_now now item tk)"
  by (auto simp: task_bounded_def deliver_now_def split: prod.splits)

lemma buffer_event_bounded:
  assumes "task_bounded target tk" and "push_filter_matches (pt_data_filter target) (fst item)"
  shows "task_bounded target (buffer_event pe target now now' orc item tk)"
proof -
  let ?tk = "tk\<lparr>tk_buffer := tk_buffer tk @ [item]\<rparr>"
  let ?tk' = "if tk_buffer tk = [] then ?tk\<lparr>tk_flush_timer := now + batch_interval target\<rparr> else ?tk"
  have *: "tk_in_flight ?tk' \<le> DATA_PUSH_MAX_INFLIGHT_DELIVERIES" "dm_filter (tk_matcher ?tk') = pt_data_filter target"
    "\<forall>item \<in> set (tk_buffer ?tk' @ tk_spawned ?tk'). push_filter_matches (pt_data_filter target) (fst item)"
    using assms by (auto simp: task_bounded_def)
  show ?thesis
  proof (cases "length (tk_buffer ?tk') \<ge> bc_batch_size (pt_batch_config target) \<or> length (tk_buffer ?tk') \<ge> DATA_PUSH_MAX_BUFFER_ENTRIES")
    case True
    with flush_task_bounded [OF *(1,2)] *(3) show ?thesis by (auto simp: buffer_event_def Let_def)
  next
    case False
    with * have "task_bounded target ?tk'" unfolding task_bounded_def by auto
    with False show ?thesis by (auto simp: buffer_event_def Let_def)
  qed
qed

lemma event_turn_bounded:
  assumes "task_bounded target tk"
  shows "task_bounded target (event_turn pe target event_types to_text turn tk)"
proof (cases turn)
  case (Received result stop_pending checked now now' orc seen)
  show ?thesis
  proof (cases "tk_finished tk \<or> stop_pending \<or> result = None \<or> \<not> matches_event_type (the result) event_types")
    case True
    with Received assms stop_task_bounded [OF assms] show ?thesis by (cases result) (auto simp: event_turn_def)
  next
    case False
    then obtain e where e: "result = Some e" "matches_event_type e event_types" "\<not> tk_finished tk" "\<not> stop_pending" by auto
    obtain r tk' where ad: "admit_event pe checked to_text e tk = (r, tk')" by fastforce
    have tk': "task_bounded target tk'" using assms admit_event_frame [OF ad] by (simp add: task_bounded_def)
    show ?thesis
    proof (cases r)
      case None
      with Received e ad tk' show ?thesis by (simp add: event_turn_def)
    next
      case (Some item)
      then have "push_filter_matches (pt_data_filter target) (fst item)"
        using ad assms admitted_source(1) [of pe checked to_text e tk "fst item" "fst (snd item)" "snd (snd item)" tk'] by (simp add: task_bounded_def)
      with Some Received e ad tk' deliver_now_bounded [OF tk'] buffer_event_bounded [OF tk'] show ?thesis by (simp add: event_turn_def)
    qed
  qed
next
  case (FlushTimer now orc)
  with assms flush_task_bounded [of tk target] show ?thesis by (auto simp: event_turn_def task_bounded_def)
qed (use assms stop_task_bounded [OF assms] in \<open>auto simp: event_turn_def task_bounded_def\<close>)

text \<open>An event-driven target uses bounded memory and pushes only what it was told to: after any sequence of
  turns of its loop there are at most four deliveries under way, fewer events buffered than the batch
  size and than a thousand, and every event buffered or handed to a delivery comes from a source
  that the target's filter accepts.\<close>

lemma event_task_stays_bounded:
  "task_bounded target (fold (event_turn pe target event_types to_text) turns (task_new pe has_bus target now tr))"
proof -
  have "task_bounded target (task_new pe has_bus target now tr)"
    by (simp add: task_bounded_def task_new_def matcher_new_def DATA_PUSH_MAX_BUFFER_ENTRIES_def)
  then show ?thesis by (induction turns arbitrary: now rule: rev_induct) (simp_all add: event_turn_bounded)
qed

text \<open>An interval target has no such bound: each event it admits stays in the buffer until the next tick.\<close>

lemma interval_buffer_grows:
  assumes "\<not> tk_finished tk" and "admit_event pe checked to_text e tk = (Some item, tk')"
  shows "length (tk_buffer (interval_turn pe target to_text (Received (Some e) False checked now now' orc seen) tk)) = Suc (length (tk_buffer tk))"
  using assms admit_event_frame(1) [OF assms(2)] by (simp add: interval_turn_def)

end
