(* ===== verification/PushManager.thy ===== *)
theory PushManager
  imports PushScheduler
begin

text \<open>
  \<open>PushManager\<close> of \<open>heramind-data-push/src/manager.rs\<close>: creating, changing, deleting, starting and stopping push
  targets, keeping the store and the table of running tasks in step; test deliveries with the latest
  telemetry of the sources a target is bound to. The time-series store that answers for telemetry
  is a component of its own: its answers are arguments.
\<close>

section \<open>State and requests\<close>

record 'd push_manager =
  pm_db :: 'd
  pm_handles :: push_handles





section \<open>Operations\<close>












definition get_stats :: "'d push_env \<Rightarrow> 'd push_manager \<Rightarrow> (string, push_stats) rust_result" where
  "get_stats pe m =
     and_then (list_targets (pe_redb pe) (pe_codec pe) (pm_db m)) (\<lambda>ts.
     Inr (push_stats_default\<lparr>ps_total_targets := length ts, ps_active_targets := length (filter pt_enabled ts)\<rparr>))"


section \<open>Test deliveries\<close>











section \<open>Tasks follow the store\<close>


definition running_of :: "(string \<Rightarrow> push_target option) \<Rightarrow> string \<Rightarrow> push_target option" where
  "running_of ts i = (case ts i of Some t \<Rightarrow> if pt_enabled t then Some t else None | None \<Rightarrow> None)"


lemma sched_get [simp]:
  "hm_get (sched_stop i h) j = (if j = i then None else hm_get h j)"
  "hm_get (sched_start t h) j = (if j = pt_id t then Some t else hm_get h j)"
  by (simp_all add: sched_stop_def sched_start_def)

lemma running_of_upd [simp]:
  "running_of (ts(i := x)) j = (if j = i then (case x of Some t \<Rightarrow> if pt_enabled t then Some t else None | None \<Rightarrow> None) else running_of ts j)"
  by (simp add: running_of_def)
















end
