(* ===== verification/DeviceTypes.thy ===== *)
theory DeviceTypes
  imports Events
begin

text \<open>
  Types of the device crate: metric values and their readings (\<open>heramind-devices/src/mdl.rs\<close>), definitions of
  metrics, commands and parameters (\<open>mdl_format.rs\<close>), templates and device configurations (\<open>registry.rs\<close>), their
  stored forms (\<open>heramind-storage/src/device_registry.rs\<close>) and the conversions between the two.

  The two crates declare structurally equal structs that differ only in the type of values and in the
  type of data types, so a definition of a parameter, command or template is one record with these two types
  as parameters, used at both instances. Base64 is a parameter.
\<close>

section \<open>Values\<close>

datatype device_value =
    DvInteger int
  | DvFloat f64
  | DvString string
  | DvBoolean bool
  | DvArray "device_value list"
  | DvBinary string
  | DvNull

fun dv_as_f64 :: "device_value \<Rightarrow> f64 option" where
  "dv_as_f64 (DvFloat v) = Some v"
| "dv_as_f64 (DvInteger v) = Some (f64_of_int v)"
| "dv_as_f64 _ = None"

fun dv_as_i64 :: "device_value \<Rightarrow> int option" where
  "dv_as_i64 (DvInteger v) = Some v"
| "dv_as_i64 (DvFloat v) = Some (f64_as_i64 v)"
| "dv_as_i64 _ = None"

fun dv_as_str :: "device_value \<Rightarrow> string option" where
  "dv_as_str (DvString v) = Some v"
| "dv_as_str _ = None"

fun dv_as_bool :: "device_value \<Rightarrow> bool option" where
  "dv_as_bool (DvBoolean v) = Some v"
| "dv_as_bool _ = None"

fun dv_type_name :: "device_value \<Rightarrow> string" where
  "dv_type_name (DvInteger _) = ''integer''"
| "dv_type_name (DvFloat _) = ''float''"
| "dv_type_name (DvString _) = ''string''"
| "dv_type_name (DvBoolean _) = ''boolean''"
| "dv_type_name (DvArray _) = ''array''"
| "dv_type_name (DvBinary _) = ''binary''"
| "dv_type_name DvNull = ''null''"

text \<open>A float that is not finite becomes the number 0.\<close>

fun to_json_value :: "(string \<Rightarrow> string) \<Rightarrow> device_value \<Rightarrow> json" where
  "to_json_value b64 (DvInteger n) = JInt n"
| "to_json_value b64 (DvFloat f) = (case f of Fin _ \<Rightarrow> JFloat f | _ \<Rightarrow> JInt 0)"
| "to_json_value b64 (DvString s) = JString s"
| "to_json_value b64 (DvBoolean b) = JBool b"
| "to_json_value b64 (DvArray xs) = JArray (map (to_json_value b64) xs)"
| "to_json_value b64 (DvBinary d) = JString (b64 d)"
| "to_json_value b64 DvNull = JNull"

datatype mdl_data_type =
    TInteger
  | TFloat
  | TString
  | TBoolean
  | TArray "mdl_data_type option"
  | TBinary
  | TEnum "string list"

datatype stored_data_type = SFloat | SInteger | SBoolean | SString | SBinary | SEnum "string list"

datatype param_metric_value =
    PmInteger int
  | PmFloat f64
  | PmString string
  | PmBoolean bool
  | PmNull

section \<open>Definitions and templates\<close>

datatype validation_rule =
    Pattern string string
  | Range f64 f64 string
  | Length nat nat string
  | Custom string json

record parameter_group =
  pg_id :: string
  pg_display_name :: string
  pg_description :: string
  pg_collapsed :: bool
  pg_parameters :: "string list"
  pg_order :: int

record ('t, 'v) parameter_definition =
  pd_name :: string
  pd_display_name :: string
  pd_data_type :: 't
  pd_default_value :: "'v option"
  pd_min :: "f64 option"
  pd_max :: "f64 option"
  pd_unit :: string
  pd_allowed_values :: "'v list"
  pd_required :: bool
  pd_visible_when :: "string option"
  pd_group :: "string option"
  pd_help_text :: string
  pd_validation :: "validation_rule list"

record ('t, 'v) command_definition =
  cmd_name :: string
  cmd_display_name :: string
  cmd_description :: string
  cmd_payload_template :: string
  cmd_parameters :: "('t, 'v) parameter_definition list"
  cmd_fixed_values :: "(string, json) hash_map"
  cmd_samples :: "json list"
  cmd_parameter_groups :: "parameter_group list"

record 't metric_definition =
  md_name :: string
  md_display_name :: string
  md_data_type :: 't
  md_unit :: string
  md_min :: "f64 option"
  md_max :: "f64 option"
  md_required :: bool

datatype device_type_mode = Simple | Full

record ('t, 'v) type_template =
  tp_device_type :: string
  tp_name :: string
  tp_description :: string
  tp_categories :: "string list"
  tp_mode :: device_type_mode
  tp_metrics :: "'t metric_definition list"
  tp_uplink_samples :: "json list"
  tp_commands :: "('t, 'v) command_definition list"
  tp_default_offline_timeout_secs :: "u64 option"
  tp_store_raw :: "bool option"

type_synonym device_type_template = "(mdl_data_type, device_value) type_template"

record stored_template = "(stored_data_type, param_metric_value) type_template" +
  tp_builtin_version :: "string option"

definition template_new :: "string \<Rightarrow> string \<Rightarrow> device_type_template" where
  "template_new device_type name =
     \<lparr>tp_device_type = device_type, tp_name = name, tp_description = [], tp_categories = [], tp_mode = Simple,
      tp_metrics = [], tp_uplink_samples = [], tp_commands = [], tp_default_offline_timeout_secs = None, tp_store_raw = None\<rparr>"

definition with_metric :: "mdl_data_type metric_definition \<Rightarrow> device_type_template \<Rightarrow> device_type_template" where
  "with_metric metric t = t\<lparr>tp_metrics := tp_metrics t @ [metric]\<rparr>"

definition with_command ::
    "(mdl_data_type, device_value) command_definition \<Rightarrow> device_type_template \<Rightarrow> device_type_template" where
  "with_command command t = t\<lparr>tp_commands := tp_commands t @ [command]\<rparr>"

section \<open>Devices\<close>

record connection_config =
  cn_telemetry_topic :: "string option"
  cn_command_topic :: "string option"
  cn_json_path :: "string option"
  cn_entity_id :: "string option"
  cn_extra :: "(string, json) hash_map"

record 'c device_config =
  dc_device_id :: string
  dc_name :: string
  dc_device_type :: string
  dc_adapter_type :: string
  dc_connection_config :: 'c
  dc_adapter_id :: "string option"
  dc_last_seen :: int
  dc_offline_timeout_secs :: "u64 option"

definition connection_new :: connection_config where
  "connection_new =
     \<lparr>cn_telemetry_topic = None, cn_command_topic = None, cn_json_path = None, cn_entity_id = None, cn_extra = []\<rparr>"

definition connection_mqtt :: "string \<Rightarrow> string option \<Rightarrow> connection_config" where
  "connection_mqtt telemetry_topic command_topic =
     connection_new\<lparr>cn_telemetry_topic := Some telemetry_topic, cn_command_topic := command_topic\<rparr>"

definition connection_hass :: "string \<Rightarrow> connection_config" where
  "connection_hass entity_id = connection_new\<lparr>cn_entity_id := Some entity_id\<rparr>"

text \<open>The stored form has fields for protocols that the local form no longer has.\<close>

record stored_connection = connection_config +
  cn_host :: "string option"
  cn_port :: "nat option"
  cn_slave_id :: "nat option"
  cn_register_map :: "(string, nat) hash_map option"

datatype device_error =
    NotFoundStr string
  | InvalidParameter string
  | InvalidMetric string
  | InvalidCommand string
  | DeviceSerialization string
  | DeviceStorage string

section \<open>Conversions\<close>

fun convert_metric_data_type :: "stored_data_type \<Rightarrow> mdl_data_type" where
  "convert_metric_data_type SFloat = TFloat"
| "convert_metric_data_type SInteger = TInteger"
| "convert_metric_data_type SBoolean = TBoolean"
| "convert_metric_data_type SString = TString"
| "convert_metric_data_type SBinary = TBinary"
| "convert_metric_data_type (SEnum options) = TEnum options"

fun convert_metric_data_type_to_storage :: "mdl_data_type \<Rightarrow> stored_data_type" where
  "convert_metric_data_type_to_storage TFloat = SFloat"
| "convert_metric_data_type_to_storage TInteger = SInteger"
| "convert_metric_data_type_to_storage TBoolean = SBoolean"
| "convert_metric_data_type_to_storage TString = SString"
| "convert_metric_data_type_to_storage TBinary = SBinary"
| "convert_metric_data_type_to_storage (TArray _) = SString"
| "convert_metric_data_type_to_storage (TEnum options) = SEnum options"

fun stored_metric_value :: "param_metric_value \<Rightarrow> device_value" where
  "stored_metric_value (PmInteger n) = DvInteger n"
| "stored_metric_value (PmFloat f) = DvFloat f"
| "stored_metric_value (PmString s) = DvString s"
| "stored_metric_value (PmBoolean b) = DvBoolean b"
| "stored_metric_value PmNull = DvNull"

fun convert_metric_value_to_storage :: "device_value \<Rightarrow> param_metric_value option" where
  "convert_metric_value_to_storage (DvInteger n) = Some (PmInteger n)"
| "convert_metric_value_to_storage (DvFloat f) = Some (PmFloat f)"
| "convert_metric_value_to_storage (DvString s) = Some (PmString s)"
| "convert_metric_value_to_storage (DvBoolean b) = Some (PmBoolean b)"
| "convert_metric_value_to_storage (DvArray _) = None"
| "convert_metric_value_to_storage DvNull = Some PmNull"
| "convert_metric_value_to_storage (DvBinary _) = None"

definition convert_metric :: "('t \<Rightarrow> 'u) \<Rightarrow> 't metric_definition \<Rightarrow> 'u metric_definition" where
  "convert_metric ty m =
     \<lparr>md_name = md_name m, md_display_name = md_display_name m, md_data_type = ty (md_data_type m), md_unit = md_unit m,
      md_min = md_min m, md_max = md_max m, md_required = md_required m\<rparr>"

definition convert_parameter ::
    "('t \<Rightarrow> 'u) \<Rightarrow> ('v \<Rightarrow> 'w option) \<Rightarrow> ('t, 'v) parameter_definition \<Rightarrow> ('u, 'w) parameter_definition" where
  "convert_parameter ty val p =
     \<lparr>pd_name = pd_name p, pd_display_name = pd_display_name p, pd_data_type = ty (pd_data_type p),
      pd_default_value = Option.bind (pd_default_value p) val, pd_min = pd_min p, pd_max = pd_max p, pd_unit = pd_unit p,
      pd_allowed_values = List.map_filter val (pd_allowed_values p), pd_required = pd_required p,
      pd_visible_when = pd_visible_when p, pd_group = pd_group p, pd_help_text = pd_help_text p, pd_validation = pd_validation p\<rparr>"

definition convert_command ::
    "('t \<Rightarrow> 'u) \<Rightarrow> ('v \<Rightarrow> 'w option) \<Rightarrow> ('t, 'v) command_definition \<Rightarrow> ('u, 'w) command_definition" where
  "convert_command ty val c =
     \<lparr>cmd_name = cmd_name c, cmd_display_name = cmd_display_name c, cmd_description = cmd_description c,
      cmd_payload_template = cmd_payload_template c, cmd_parameters = map (convert_parameter ty val) (cmd_parameters c),
      cmd_fixed_values = cmd_fixed_values c, cmd_samples = cmd_samples c, cmd_parameter_groups = cmd_parameter_groups c\<rparr>"

definition template_to_storage :: "device_type_template \<Rightarrow> stored_template" where
  "template_to_storage t =
     (let ty = convert_metric_data_type_to_storage; val = convert_metric_value_to_storage
      in \<lparr>tp_device_type = tp_device_type t, tp_name = tp_name t, tp_description = tp_description t,
          tp_categories = tp_categories t, tp_mode = tp_mode t, tp_metrics = map (convert_metric ty) (tp_metrics t),
          tp_uplink_samples = tp_uplink_samples t, tp_commands = map (convert_command ty val) (tp_commands t),
          tp_default_offline_timeout_secs = tp_default_offline_timeout_secs t, tp_store_raw = tp_store_raw t,
          tp_builtin_version = None\<rparr>)"

definition template_from_storage :: "stored_template \<Rightarrow> device_type_template" where
  "template_from_storage t =
     (let ty = convert_metric_data_type; val = Some \<circ> stored_metric_value
      in \<lparr>tp_device_type = tp_device_type t, tp_name = tp_name t, tp_description = tp_description t,
          tp_categories = tp_categories t, tp_mode = tp_mode t, tp_metrics = map (convert_metric ty) (tp_metrics t),
          tp_uplink_samples = tp_uplink_samples t, tp_commands = map (convert_command ty val) (tp_commands t),
          tp_default_offline_timeout_secs = tp_default_offline_timeout_secs t, tp_store_raw = tp_store_raw t\<rparr>)"

definition convert_connection_config :: "stored_connection \<Rightarrow> connection_config" where
  "convert_connection_config c =
     \<lparr>cn_telemetry_topic = cn_telemetry_topic c, cn_command_topic = cn_command_topic c, cn_json_path = cn_json_path c,
      cn_entity_id = cn_entity_id c, cn_extra = cn_extra c\<rparr>"

definition convert_connection_config_to_storage :: "connection_config \<Rightarrow> stored_connection" where
  "convert_connection_config_to_storage c =
     \<lparr>cn_telemetry_topic = cn_telemetry_topic c, cn_command_topic = cn_command_topic c, cn_json_path = cn_json_path c,
      cn_entity_id = cn_entity_id c, cn_extra = cn_extra c, cn_host = None, cn_port = None, cn_slave_id = None,
      cn_register_map = None\<rparr>"

definition config_with ::
    "('c \<Rightarrow> 'e) \<Rightarrow> 'c device_config \<Rightarrow> 'e device_config" where
  "config_with conv d =
     \<lparr>dc_device_id = dc_device_id d, dc_name = dc_name d, dc_device_type = dc_device_type d,
      dc_adapter_type = dc_adapter_type d, dc_connection_config = conv (dc_connection_config d),
      dc_adapter_id = dc_adapter_id d, dc_last_seen = dc_last_seen d, dc_offline_timeout_secs = dc_offline_timeout_secs d\<rparr>"

abbreviation config_to_storage :: "connection_config device_config \<Rightarrow> stored_connection device_config" where
  "config_to_storage \<equiv> config_with convert_connection_config_to_storage"

abbreviation config_from_storage :: "stored_connection device_config \<Rightarrow> connection_config device_config" where
  "config_from_storage \<equiv> config_with convert_connection_config"

section \<open>What storing a template loses\<close>

definition storable_value :: "device_value \<Rightarrow> bool" where
  "storable_value v = (case v of DvArray _ \<Rightarrow> False | DvBinary _ \<Rightarrow> False | _ \<Rightarrow> True)"

definition storable_type :: "mdl_data_type \<Rightarrow> bool" where
  "storable_type t = (case t of TArray _ \<Rightarrow> False | _ \<Rightarrow> True)"

definition storable_parameter :: "(mdl_data_type, device_value) parameter_definition \<Rightarrow> bool" where
  "storable_parameter p = (storable_type (pd_data_type p) \<and> pred_option storable_value (pd_default_value p)
     \<and> list_all storable_value (pd_allowed_values p))"

definition storable_template :: "device_type_template \<Rightarrow> bool" where
  "storable_template t = (list_all (\<lambda>m. storable_type (md_data_type m)) (tp_metrics t)
     \<and> list_all (\<lambda>c. list_all storable_parameter (cmd_parameters c)) (tp_commands t))"

lemma config_round_trip [simp]: "config_from_storage (config_to_storage d) = d"
  by (cases d) (simp add: config_with_def convert_connection_config_def convert_connection_config_to_storage_def)

lemma type_round_trip: "convert_metric_data_type (convert_metric_data_type_to_storage t) = t \<longleftrightarrow> storable_type t"
  by (cases t) (simp_all add: storable_type_def)

lemma value_round_trip: "map_option stored_metric_value (convert_metric_value_to_storage v) = Some v \<longleftrightarrow> storable_value v"
  by (cases v) (simp_all add: storable_value_def)

lemma value_unstorable: "convert_metric_value_to_storage v = None \<longleftrightarrow> \<not> storable_value v"
  by (cases v) (simp_all add: storable_value_def)

lemma value_storable: "storable_value v \<Longrightarrow> \<exists>w. convert_metric_value_to_storage v = Some w \<and> stored_metric_value w = v"
  using value_round_trip [of v] by auto

lemma option_round_trip:
  "Option.bind v (\<lambda>x. Option.bind (convert_metric_value_to_storage x) (Some \<circ> stored_metric_value)) = v
     \<longleftrightarrow> pred_option storable_value v"
  using value_round_trip by (cases v) (auto simp: map_conv_bind_option comp_def)

lemma values_kept:
  "List.map_filter (Some \<circ> stored_metric_value) (List.map_filter convert_metric_value_to_storage vs) = filter storable_value vs"
proof (induction vs)
  case (Cons v vs)
  then show ?case using value_unstorable [of v] value_storable [of v]
    by (cases "storable_value v") (auto simp: List.map_filter_simps)
qed (simp add: List.map_filter_simps)

lemma values_round_trip:
  "List.map_filter (Some \<circ> stored_metric_value) (List.map_filter convert_metric_value_to_storage vs) = vs
     \<longleftrightarrow> list_all storable_value vs"
  unfolding values_kept by (metis filter_True filter_id_conv list_all_iff)

lemma map_fixed_iff: "map f xs = xs \<longleftrightarrow> list_all (\<lambda>x. f x = x) xs"
  by (induction xs) auto

lemma metric_round_trip:
  "convert_metric convert_metric_data_type (convert_metric convert_metric_data_type_to_storage m) = m
     \<longleftrightarrow> storable_type (md_data_type m)"
  by (cases m) (simp add: convert_metric_def type_round_trip)

lemma parameter_round_trip:
  "convert_parameter convert_metric_data_type (Some \<circ> stored_metric_value)
     (convert_parameter convert_metric_data_type_to_storage convert_metric_value_to_storage p) = p
     \<longleftrightarrow> storable_parameter p"
  by (cases p) (simp add: convert_parameter_def storable_parameter_def type_round_trip option_round_trip values_round_trip)

lemma command_round_trip:
  "convert_command convert_metric_data_type (Some \<circ> stored_metric_value)
     (convert_command convert_metric_data_type_to_storage convert_metric_value_to_storage c) = c
     \<longleftrightarrow> list_all storable_parameter (cmd_parameters c)"
  by (cases c) (simp add: convert_command_def map_fixed_iff parameter_round_trip)

text \<open>The two conversions lose exactly this: an array type comes back as a string type, and default or allowed
  values that are arrays or binary are dropped.\<close>

lemma conversions_round_trip:
  "template_from_storage (template_to_storage t) = t \<longleftrightarrow> storable_template t"
  by (cases t)
    (simp add: template_from_storage_def template_to_storage_def Let_def storable_template_def map_fixed_iff
      metric_round_trip command_round_trip)

end
