(* ===== verification/StorageErrors.thy ===== *)
theory StorageErrors
  imports Redb
begin

text \<open>
  The error type of the storage crate, \<open>heramind-storage/src/error.rs\<close>, and the conversions from errors of the
  database crate and of the JSON codec that the operator \<open>?\<close> applies.
\<close>

section \<open>Errors\<close>

datatype storage_error =
    StIo string
  | StSerialization string
  | StStorage string
  | StInvalidDimension nat nat
  | StNotFound string
  | StInvalidInput string
  | StValidation string

fun show_storage_error :: "storage_error \<Rightarrow> string" where
  "show_storage_error (StIo e) = ''IO error: '' @ e"
| "show_storage_error (StSerialization e) = ''Serialization error: '' @ e"
| "show_storage_error (StStorage e) = ''Storage error: '' @ e"
| "show_storage_error (StInvalidDimension expected found) =
     ''Invalid dimension: expected '' @ show_nat expected @ '', found '' @ show_nat found"
| "show_storage_error (StNotFound e) = ''Resource not found: '' @ e"
| "show_storage_error (StInvalidInput e) = ''Invalid input: '' @ e"
| "show_storage_error (StValidation e) = ''Validation error: '' @ e"

text \<open>The \<open>From\<close> conversions that \<open>?\<close> applies.\<close>

definition txn_err :: "(string, 'a) rust_result \<Rightarrow> (storage_error, 'a) rust_result" where
  "txn_err r = map_err (\<lambda>e. StStorage (''Redb transaction error: '' @ e)) r"

definition table_err :: "(string, 'a) rust_result \<Rightarrow> (storage_error, 'a) rust_result" where
  "table_err r = map_err (\<lambda>e. StStorage (''Redb table error: '' @ e)) r"

definition io_err :: "(string, 'a) rust_result \<Rightarrow> (storage_error, 'a) rust_result" where
  "io_err r = map_err (\<lambda>e. StStorage (''Redb storage error: '' @ e)) r"

definition commit_err :: "(string, 'a) rust_result \<Rightarrow> (storage_error, 'a) rust_result" where
  "commit_err r = map_err (\<lambda>e. StStorage (''Redb commit error: '' @ e)) r"

definition json_err :: "(string, 'a) rust_result \<Rightarrow> (storage_error, 'a) rust_result" where
  "json_err r = map_err StSerialization r"

lemma storage_err_Inr_iff [simp]:
  "txn_err r = Inr a \<longleftrightarrow> r = Inr a" "table_err r = Inr a \<longleftrightarrow> r = Inr a" "io_err r = Inr a \<longleftrightarrow> r = Inr a"
  "commit_err r = Inr a \<longleftrightarrow> r = Inr a" "json_err r = Inr a \<longleftrightarrow> r = Inr a"
  by (simp_all add: txn_err_def table_err_def io_err_def commit_err_def json_err_def)

lemma storage_err_Inr [simp]:
  "txn_err (Inr a) = Inr a" "table_err (Inr a) = Inr a" "io_err (Inr a) = Inr a" "commit_err (Inr a) = Inr a" "json_err (Inr a) = Inr a"
  by simp_all

end
