(* ===== verification/TypeIndex.thy ===== *)
theory TypeIndex
  imports Prelude
begin

text \<open>
  The interface of an index from device types to the identifiers of the devices of that type. The
  device store keeps one as comma-joined texts in a table, the device registry one as vectors in
  memory; both promise what this locale states, and what makes such an index exact is proved here once.
\<close>

locale type_index =
  fixes ids :: "'v option \<Rightarrow> string list"
    and put :: "string \<Rightarrow> 'v option \<Rightarrow> 'v option"
    and del :: "string \<Rightarrow> 'v option \<Rightarrow> 'v option"
    and valid_id :: "string \<Rightarrow> bool"
  assumes ids_none: "ids None = []"
    and ids_put: "valid_id i \<Longrightarrow> i \<notin> set (ids e) \<Longrightarrow> ids (put i e) = ids e @ [i]"
    and ids_del: "ids (del i e) = filter (\<lambda>j. j \<noteq> i) (ids e)"
begin

definition exact :: "(string \<Rightarrow> 'v option) \<Rightarrow> (string \<Rightarrow> string option) \<Rightarrow> bool" where
  "exact index type_of \<longleftrightarrow> (\<forall>ty. distinct (ids (index ty)) \<and> set (ids (index ty)) = {i. type_of i = Some ty})"

lemma exact_empty: "exact (\<lambda>_. None) (\<lambda>_. None)"
  by (simp add: exact_def ids_none)

lemma exact_ids: "exact index type_of \<Longrightarrow> set (ids (index ty)) = {i. type_of i = Some ty}"
  by (simp add: exact_def)

lemma exact_distinct: "exact index type_of \<Longrightarrow> distinct (ids (index ty))"
  by (simp add: exact_def)

lemma exact_put:
  assumes "exact index type_of" and "valid_id i" and "type_of i = None"
  shows "exact (index(ty := put i (index ty))) (type_of(i \<mapsto> ty))"
  using assms by (auto simp: exact_def ids_put)

lemma exact_del:
  assumes "exact index type_of" and "type_of i = Some ty"
  shows "exact (index(ty := del i (index ty))) (type_of(i := None))"
  using assms by (auto simp: exact_def ids_del)

lemma exact_move:
  assumes "exact index type_of" and "valid_id i" and "type_of i = Some old" and "old \<noteq> ty"
  shows "exact (index(old := del i (index old), ty := put i (index ty))) (type_of(i \<mapsto> ty))"
  using exact_put [OF exact_del [OF assms(1,3)] assms(2), of ty] assms(4) by simp

text \<open>Replacing an entry by one that lists the same identifiers changes nothing.\<close>

lemma exact_refresh:
  assumes "exact index type_of" and "ids e = ids (index ty)"
  shows "exact (index(ty := e)) type_of"
  using assms by (auto simp: exact_def)

text \<open>Looking up the listed identifiers gives each entry of the type once.\<close>

lemma exact_listing:
  assumes "exact index (\<lambda>i. map_option kind (entries i))"
  shows "set (List.map_filter entries (ids (index ty))) = {d. d \<in> ran entries \<and> kind d = ty}"
    and "length (List.map_filter entries (ids (index ty))) = card {i. map_option kind (entries i) = Some ty}"
proof -
  have ids: "set (ids (index ty)) = {i. map_option kind (entries i) = Some ty}" using exact_ids [OF assms] .
  then show "set (List.map_filter entries (ids (index ty))) = {d. d \<in> ran entries \<and> kind d = ty}"
    by (force simp: List.map_filter_def ran_def image_iff)
  have "length (List.map_filter entries (ids (index ty))) = length (ids (index ty))"
    by (rule length_map_filter_all) (use ids in auto)
  then show "length (List.map_filter entries (ids (index ty))) = card {i. map_option kind (entries i) = Some ty}"
    using distinct_card [OF exact_distinct [OF assms, of ty]] ids by simp
qed

end

end
