(* ===== verification/DeviceStore.thy ===== *)
theory DeviceStore
  imports DeviceTypes StorageErrors TypeIndex
begin

text \<open>
  \<open>DeviceRegistryStore\<close> of \<open>heramind-storage/src/device_registry.rs\<close>: templates, device configurations and the
  index from device types to devices, in three tables. The JSON codecs are parameters, as are the
  texts of the built-in templates.
\<close>

section \<open>Templates\<close>

type_synonym stored_device = "stored_connection device_config"

record device_codec =
  template_to_str :: "stored_template \<Rightarrow> (string, string) rust_result"
  template_from_str :: "string \<Rightarrow> (string, stored_template) rust_result"
  device_to_str :: "stored_device \<Rightarrow> (string, string) rust_result"
  device_from_str :: "string \<Rightarrow> (string, stored_device) rust_result"

definition device_codec_laws :: "device_codec \<Rightarrow> bool" where
  "device_codec_laws cd \<longleftrightarrow> (\<forall>d v. device_to_str cd d = Inr v \<longrightarrow> device_from_str cd v = Inr d)"

text \<open>The JSON text of a template reads back as the template. Not so in general: JSON has no text for a float
  that is not finite.\<close>

definition reads_back :: "device_codec \<Rightarrow> stored_template \<Rightarrow> bool" where
  "reads_back cd t \<longleftrightarrow> (\<forall>v. template_to_str cd t = Inr v \<longrightarrow> template_from_str cd v = Inr t)"

definition TEMPLATES_TABLE :: string where
  "TEMPLATES_TABLE = ''device_templates''"

definition DEVICES_TABLE :: string where
  "DEVICES_TABLE = ''device_configs''"

definition TYPE_INDEX_TABLE :: string where
  "TYPE_INDEX_TABLE = ''device_type_index''"

definition dst_save_template :: "'d redb \<Rightarrow> device_codec \<Rightarrow> stored_template \<Rightarrow> 'd \<Rightarrow> (storage_error, 'd) rust_result" where
  "dst_save_template rd cd t db =
     and_then (txn_err (begin_write rd db)) (\<lambda>w.
     and_then (table_err (open_write rd TEMPLATES_TABLE w)) (\<lambda>w.
     and_then (json_err (template_to_str cd t)) (\<lambda>json.
     and_then (io_err (tbl_insert rd TEMPLATES_TABLE (tp_device_type t) json w)) (\<lambda>w.
     commit_err (commit rd w)))))"

definition dst_load_template :: "'d redb \<Rightarrow> device_codec \<Rightarrow> string \<Rightarrow> 'd \<Rightarrow> (storage_error, stored_template option) rust_result" where
  "dst_load_template rd cd device_type db =
     and_then (txn_err (begin_read rd db)) (\<lambda>t.
     and_then (table_err (open_read rd TEMPLATES_TABLE t)) (\<lambda>t.
     and_then (io_err (tbl_get rd TEMPLATES_TABLE device_type t)) (\<lambda>v.
     case v of
       Some json \<Rightarrow> and_then (json_err (template_from_str cd json)) (\<lambda>t. Inr (Some t))
     | None \<Rightarrow> Inr None)))"

definition dst_list_templates :: "'d redb \<Rightarrow> device_codec \<Rightarrow> 'd \<Rightarrow> (storage_error, stored_template list) rust_result" where
  "dst_list_templates rd cd db =
     and_then (txn_err (begin_read rd db)) (\<lambda>t.
     and_then (table_err (open_read rd TEMPLATES_TABLE t)) (\<lambda>t.
     and_then (io_err (tbl_iter rd TEMPLATES_TABLE t)) (\<lambda>es.
     and_then (io_err (collect_results es)) (\<lambda>kvs.
     Inr (List.map_filter (\<lambda>(_, v). ok (template_from_str cd v)) kvs)))))"

definition dst_delete_template :: "'d redb \<Rightarrow> string \<Rightarrow> 'd \<Rightarrow> (storage_error, bool \<times> 'd) rust_result" where
  "dst_delete_template rd device_type db =
     and_then (txn_err (begin_write rd db)) (\<lambda>w.
     and_then (table_err (open_write rd TEMPLATES_TABLE w)) (\<lambda>w.
     and_then (io_err (tbl_remove rd TEMPLATES_TABLE device_type w)) (\<lambda>(deleted, w).
     and_then (commit_err (commit rd w)) (\<lambda>db'. Inr (deleted, db')))))"

definition dst_template_exists :: "'d redb \<Rightarrow> string \<Rightarrow> 'd \<Rightarrow> (storage_error, bool) rust_result" where
  "dst_template_exists rd device_type db =
     and_then (txn_err (begin_read rd db)) (\<lambda>t.
     and_then (table_err (open_read rd TEMPLATES_TABLE t)) (\<lambda>t.
     and_then (io_err (tbl_get rd TEMPLATES_TABLE device_type t)) (\<lambda>v. Inr (v \<noteq> None))))"

text \<open>Built-in templates are written only where none is stored.\<close>

fun seed_builtin_templates ::
    "'d redb \<Rightarrow> device_codec \<Rightarrow> (string \<times> string) list \<Rightarrow> nat \<Rightarrow> 'd \<Rightarrow> (storage_error, nat) rust_result \<times> 'd" where
  "seed_builtin_templates rd cd [] changed db = (Inr changed, db)"
| "seed_builtin_templates rd cd ((device_type, json) # rest) changed db =
     (case dst_load_template rd cd device_type db of
        Inl e \<Rightarrow> (Inl e, db)
      | Inr (Some _) \<Rightarrow> seed_builtin_templates rd cd rest changed db
      | Inr None \<Rightarrow>
          (case template_from_str cd json of
             Inl e \<Rightarrow> (Inl (StSerialization (''Invalid builtin template '' @ device_type @ '': '' @ e)), db)
           | Inr bundled \<Rightarrow>
               (case dst_save_template rd cd bundled db of
                  Inl e \<Rightarrow> (Inl e, db)
                | Inr db' \<Rightarrow> seed_builtin_templates rd cd rest (Suc changed) db')))"

section \<open>Devices\<close>

text \<open>An entry of the index is the comma-joined list of the identifiers of a type.\<close>

definition split_ids :: "string option \<Rightarrow> string list" where
  "split_ids v = (case v of Some s \<Rightarrow> filter (\<lambda>i. i \<noteq> []) (split_on (CHR '','') s) | None \<Rightarrow> [])"

definition index_put :: "string \<Rightarrow> string option \<Rightarrow> string option" where
  "index_put i v = Some (join '','' (let ids = split_ids v in if i \<in> set ids then ids else ids @ [i]))"

definition index_del :: "string \<Rightarrow> string option \<Rightarrow> string option" where
  "index_del i v = (let ids = filter (\<lambda>j. j \<noteq> i) (split_ids v) in if ids = [] then None else Some (join '','' ids))"

definition write_index :: "'d redb \<Rightarrow> (string option \<Rightarrow> string option) \<Rightarrow> string \<Rightarrow> 'd \<Rightarrow> (storage_error, 'd) rust_result" where
  "write_index rd change ty w =
     and_then (io_err (tbl_get rd TYPE_INDEX_TABLE ty w)) (\<lambda>v.
     case change v of
       Some s \<Rightarrow> io_err (tbl_insert rd TYPE_INDEX_TABLE ty s w)
     | None \<Rightarrow> and_then (io_err (tbl_remove rd TYPE_INDEX_TABLE ty w)) (\<lambda>(_, w). Inr w))"

definition dst_save_device :: "'d redb \<Rightarrow> device_codec \<Rightarrow> stored_device \<Rightarrow> 'd \<Rightarrow> (storage_error, 'd) rust_result" where
  "dst_save_device rd cd d db =
     and_then (txn_err (begin_write rd db)) (\<lambda>w.
     and_then (table_err (open_write rd DEVICES_TABLE w)) (\<lambda>w.
     and_then (json_err (device_to_str cd d)) (\<lambda>json.
     and_then (io_err (tbl_insert rd DEVICES_TABLE (dc_device_id d) json w)) (\<lambda>w.
     and_then (table_err (open_write rd TYPE_INDEX_TABLE w)) (\<lambda>w.
     and_then (write_index rd (index_put (dc_device_id d)) (dc_device_type d) w) (\<lambda>w.
     commit_err (commit rd w)))))))"

definition dst_load_device :: "'d redb \<Rightarrow> device_codec \<Rightarrow> string \<Rightarrow> 'd \<Rightarrow> (storage_error, stored_device option) rust_result" where
  "dst_load_device rd cd device_id db =
     and_then (txn_err (begin_read rd db)) (\<lambda>t.
     and_then (table_err (open_read rd DEVICES_TABLE t)) (\<lambda>t.
     and_then (io_err (tbl_get rd DEVICES_TABLE device_id t)) (\<lambda>v.
     case v of
       Some json \<Rightarrow> and_then (json_err (device_from_str cd json)) (\<lambda>d. Inr (Some d))
     | None \<Rightarrow> Inr None)))"

definition dst_list_devices :: "'d redb \<Rightarrow> device_codec \<Rightarrow> 'd \<Rightarrow> (storage_error, stored_device list) rust_result" where
  "dst_list_devices rd cd db =
     and_then (txn_err (begin_read rd db)) (\<lambda>t.
     and_then (table_err (open_read rd DEVICES_TABLE t)) (\<lambda>t.
     and_then (io_err (tbl_iter rd DEVICES_TABLE t)) (\<lambda>es.
     and_then (io_err (collect_results es)) (\<lambda>kvs.
     Inr (List.map_filter (\<lambda>(_, v). ok (device_from_str cd v)) kvs)))))"

fun load_devices :: "'d redb \<Rightarrow> device_codec \<Rightarrow> string list \<Rightarrow> 'd \<Rightarrow> (storage_error, stored_device list) rust_result" where
  "load_devices rd cd [] t = Inr []"
| "load_devices rd cd (i # rest) t =
     and_then (io_err (tbl_get rd DEVICES_TABLE i t)) (\<lambda>v.
     and_then (load_devices rd cd rest t) (\<lambda>ds.
     Inr (case Option.bind v (\<lambda>v. ok (device_from_str cd v)) of Some d \<Rightarrow> d # ds | None \<Rightarrow> ds)))"

definition dst_list_devices_by_type ::
    "'d redb \<Rightarrow> device_codec \<Rightarrow> string \<Rightarrow> 'd \<Rightarrow> (storage_error, stored_device list) rust_result" where
  "dst_list_devices_by_type rd cd device_type db =
     and_then (txn_err (begin_read rd db)) (\<lambda>t.
     and_then (table_err (open_read rd TYPE_INDEX_TABLE t)) (\<lambda>t.
     and_then (io_err (tbl_get rd TYPE_INDEX_TABLE device_type t)) (\<lambda>v.
     if split_ids v = [] then Inr []
     else and_then (table_err (open_read rd DEVICES_TABLE t)) (\<lambda>t. load_devices rd cd (split_ids v) t))))"

definition dst_delete_device :: "'d redb \<Rightarrow> device_codec \<Rightarrow> string \<Rightarrow> 'd \<Rightarrow> (storage_error, string option \<times> 'd) rust_result" where
  "dst_delete_device rd cd device_id db =
     and_then (txn_err (begin_write rd db)) (\<lambda>w.
     and_then (table_err (open_write rd DEVICES_TABLE w)) (\<lambda>w.
     and_then (io_err (tbl_get rd DEVICES_TABLE device_id w)) (\<lambda>v.
     case v of
       None \<Rightarrow> Inr (None, db)
     | Some json \<Rightarrow>
         and_then (json_err (device_from_str cd json)) (\<lambda>d.
         let device_type = dc_device_type d in
         and_then (table_err (open_write rd DEVICES_TABLE w)) (\<lambda>w.
         and_then (io_err (tbl_remove rd DEVICES_TABLE device_id w)) (\<lambda>(_, w).
         and_then (table_err (open_write rd TYPE_INDEX_TABLE w)) (\<lambda>w.
         and_then (write_index rd (index_del device_id) device_type w) (\<lambda>w.
         and_then (commit_err (commit rd w)) (\<lambda>db'. Inr (Some device_type, db'))))))))))"

definition dst_update_device :: "'d redb \<Rightarrow> device_codec \<Rightarrow> string \<Rightarrow> stored_device \<Rightarrow> 'd \<Rightarrow> (storage_error, 'd) rust_result" where
  "dst_update_device rd cd device_id d db =
     (if dc_device_id d \<noteq> device_id then Inl (StInvalidInput ''device_id mismatch'')
      else
        and_then (dst_load_device rd cd device_id db) (\<lambda>old.
        and_then (txn_err (begin_write rd db)) (\<lambda>w.
        and_then (table_err (open_write rd DEVICES_TABLE w)) (\<lambda>w.
        and_then (json_err (device_to_str cd d)) (\<lambda>json.
        and_then (io_err (tbl_insert rd DEVICES_TABLE device_id json w)) (\<lambda>w.
        and_then (case map_option dc_device_type old of
            None \<Rightarrow> Inr w
          | Some old_type \<Rightarrow>
              if old_type = dc_device_type d then Inr w
              else
                and_then (table_err (open_write rd TYPE_INDEX_TABLE w)) (\<lambda>w.
                and_then (write_index rd (index_del device_id) old_type w) (\<lambda>w.
                write_index rd (index_put device_id) (dc_device_type d) w))) (\<lambda>w.
        commit_err (commit rd w))))))))"

definition dst_update_last_seen :: "'d redb \<Rightarrow> device_codec \<Rightarrow> string \<Rightarrow> int \<Rightarrow> 'd \<Rightarrow> (storage_error, 'd) rust_result" where
  "dst_update_last_seen rd cd device_id last_seen db =
     and_then (dst_load_device rd cd device_id db) (\<lambda>r.
     and_then (ok_or (StNotFound device_id) r) (\<lambda>d.
     and_then (json_err (device_to_str cd (d\<lparr>dc_last_seen := last_seen\<rparr>))) (\<lambda>json.
     and_then (txn_err (begin_write rd db)) (\<lambda>w.
     and_then (table_err (open_write rd DEVICES_TABLE w)) (\<lambda>w.
     and_then (io_err (tbl_insert rd DEVICES_TABLE device_id json w)) (\<lambda>w.
     commit_err (commit rd w)))))))"

definition dst_device_exists :: "'d redb \<Rightarrow> string \<Rightarrow> 'd \<Rightarrow> (storage_error, bool) rust_result" where
  "dst_device_exists rd device_id db =
     and_then (txn_err (begin_read rd db)) (\<lambda>t.
     and_then (table_err (open_read rd DEVICES_TABLE t)) (\<lambda>t.
     and_then (io_err (tbl_get rd DEVICES_TABLE device_id t)) (\<lambda>v. Inr (v \<noteq> None))))"

definition dst_device_count :: "'d redb \<Rightarrow> 'd \<Rightarrow> (storage_error, nat) rust_result" where
  "dst_device_count rd db =
     and_then (txn_err (begin_read rd db)) (\<lambda>t.
     and_then (table_err (open_read rd DEVICES_TABLE t)) (\<lambda>t.
     and_then (io_err (tbl_iter rd DEVICES_TABLE t)) (\<lambda>es. Inr (length es))))"

definition dst_template_count :: "'d redb \<Rightarrow> 'd \<Rightarrow> (storage_error, nat) rust_result" where
  "dst_template_count rd db =
     and_then (txn_err (begin_read rd db)) (\<lambda>t.
     and_then (table_err (open_read rd TEMPLATES_TABLE t)) (\<lambda>t.
     and_then (io_err (tbl_iter rd TEMPLATES_TABLE t)) (\<lambda>es. Inr (length es))))"

section \<open>The index in the store\<close>

definition index_id :: "string \<Rightarrow> bool" where
  "index_id i \<longleftrightarrow> i \<noteq> [] \<and> CHR '','' \<notin> set i"

lemma split_joined: "list_all index_id xs \<Longrightarrow> split_ids (Some (join '','' xs)) = xs"
  using split_on_join [of xs "CHR '',''"] by (cases "xs = []") (auto simp: split_ids_def list_all_iff index_id_def)

lemma split_ids_valid: "i \<in> set (split_ids v) \<Longrightarrow> index_id i"
  by (auto simp: split_ids_def index_id_def dest: split_on_parts split: option.splits)

lemma split_put: "index_id i \<Longrightarrow> split_ids (index_put i v) = (if i \<in> set (split_ids v) then split_ids v else split_ids v @ [i])"
  using split_joined [of "split_ids v"] split_joined [of "split_ids v @ [i]"] split_ids_valid [of _ v]
  by (auto simp: index_put_def Let_def list_all_iff)

lemma split_del: "split_ids (index_del i v) = filter (\<lambda>j. j \<noteq> i) (split_ids v)"
  using split_joined [of "filter (\<lambda>j. j \<noteq> i) (split_ids v)"] split_ids_valid [of _ v]
  by (auto simp: index_del_def Let_def list_all_iff) (simp add: split_ids_def)

interpretation stored: type_index split_ids index_put index_del index_id
  by unfold_locales (simp_all add: split_put split_del, simp add: split_ids_def)

section \<open>The tables as maps\<close>

definition stored_devices :: "device_codec \<Rightarrow> 'd contents \<Rightarrow> 'd \<Rightarrow> string \<Rightarrow> stored_device option" where
  "stored_devices cd c db i = Option.bind (c db DEVICES_TABLE i) (\<lambda>v. ok (device_from_str cd v))"

definition stored_templates :: "device_codec \<Rightarrow> 'd contents \<Rightarrow> 'd \<Rightarrow> string \<Rightarrow> stored_template option" where
  "stored_templates cd c db i = Option.bind (c db TEMPLATES_TABLE i) (\<lambda>v. ok (template_from_str cd v))"

abbreviation stored_type :: "device_codec \<Rightarrow> 'd contents \<Rightarrow> 'd \<Rightarrow> string \<Rightarrow> string option" where
  "stored_type cd c db i \<equiv> map_option dc_device_type (stored_devices cd c db i)"

lemmas device_tables = TEMPLATES_TABLE_def DEVICES_TABLE_def TYPE_INDEX_TABLE_def

lemma write_index_contents:
  assumes L: "redb_laws rd c" and "write_index rd change ty w = Inr w'"
  shows "c w' = (c w)(TYPE_INDEX_TABLE := (c w TYPE_INDEX_TABLE)(ty := change (c w TYPE_INDEX_TABLE ty)))"
proof -
  from assms(2) obtain v where v: "tbl_get rd TYPE_INDEX_TABLE ty w = Inr v" by (auto simp: write_index_def)
  with redb_get [OF L v] assms(2) redb_insert [OF L, of TYPE_INDEX_TABLE ty _ w w'] redb_remove [OF L, of TYPE_INDEX_TABLE ty w]
  show ?thesis by (cases "change v") (auto simp: write_index_def split: prod.splits)
qed

lemma save_template_contents:
  assumes L: "redb_laws rd c" and "dst_save_template rd cd t db = Inr db'"
  shows "reads_back cd t \<Longrightarrow> stored_templates cd c db' = (stored_templates cd c db)(tp_device_type t \<mapsto> t)"
    and "stored_devices cd c db' = stored_devices cd c db" and "c db' TYPE_INDEX_TABLE = c db TYPE_INDEX_TABLE"
proof -
  from assms(2) obtain v where v: "template_to_str cd t = Inr v"
    and db': "c db' = (c db)(TEMPLATES_TABLE := (c db TEMPLATES_TABLE)(tp_device_type t \<mapsto> v))"
    by (auto simp: dst_save_template_def redb_snapshots [OF L] redb_insert [OF L])
  then show "stored_devices cd c db' = stored_devices cd c db" "c db' TYPE_INDEX_TABLE = c db TYPE_INDEX_TABLE"
    by (auto simp: stored_devices_def device_tables)
  assume "reads_back cd t"
  with v db' show "stored_templates cd c db' = (stored_templates cd c db)(tp_device_type t \<mapsto> t)"
    by (auto simp: stored_templates_def reads_back_def)
qed

lemma delete_template_contents:
  assumes L: "redb_laws rd c" and "dst_delete_template rd ty db = Inr (b, db')"
  shows "stored_templates cd c db' = (stored_templates cd c db)(ty := None)"
    and "stored_devices cd c db' = stored_devices cd c db" and "c db' TYPE_INDEX_TABLE = c db TYPE_INDEX_TABLE"
proof -
  from assms(2) obtain w1 w2 w3 where "begin_write rd db = Inr w1" "open_write rd TEMPLATES_TABLE w1 = Inr w2"
    "tbl_remove rd TEMPLATES_TABLE ty w2 = Inr (b, w3)" "commit rd w3 = Inr db'" by (auto simp: dst_delete_template_def)
  then have "c db' = (c db)(TEMPLATES_TABLE := (c db TEMPLATES_TABLE)(ty := None))"
    using redb_remove [OF L, of TEMPLATES_TABLE ty w2 b w3] by (simp add: redb_snapshots [OF L])
  then show "stored_templates cd c db' = (stored_templates cd c db)(ty := None)"
    "stored_devices cd c db' = stored_devices cd c db" "c db' TYPE_INDEX_TABLE = c db TYPE_INDEX_TABLE"
    by (auto simp: stored_templates_def stored_devices_def device_tables)
qed

text \<open>What the writing operations do to the three tables.\<close>

lemma device_written:
  assumes K: "device_codec_laws cd" and v: "device_to_str cd d = Inr v"
    and "c db' = (c db)(DEVICES_TABLE := (c db DEVICES_TABLE)(i \<mapsto> v), TYPE_INDEX_TABLE := idx)"
  shows "stored_devices cd c db' = (stored_devices cd c db)(i \<mapsto> d)"
    and "c db' TYPE_INDEX_TABLE = idx" and "stored_templates cd c db' = stored_templates cd c db"
proof -
  have "device_from_str cd v = Inr d" using K v by (simp add: device_codec_laws_def)
  with assms(3) show "stored_devices cd c db' = (stored_devices cd c db)(i \<mapsto> d)" "c db' TYPE_INDEX_TABLE = idx"
    "stored_templates cd c db' = stored_templates cd c db"
    by (auto simp: stored_templates_def stored_devices_def device_tables)
qed

lemma save_device_contents:
  assumes L: "redb_laws rd c" and K: "device_codec_laws cd" and "dst_save_device rd cd d db = Inr db'"
  shows "stored_devices cd c db' = (stored_devices cd c db)(dc_device_id d \<mapsto> d)"
    and "c db' TYPE_INDEX_TABLE = (c db TYPE_INDEX_TABLE)(dc_device_type d := index_put (dc_device_id d) (c db TYPE_INDEX_TABLE (dc_device_type d)))"
    and "stored_templates cd c db' = stored_templates cd c db"
proof -
  from assms(3) obtain v w1 w2 w3 w4 w5 where v: "device_to_str cd d = Inr v" and w: "begin_write rd db = Inr w1"
    "open_write rd DEVICES_TABLE w1 = Inr w2" "tbl_insert rd DEVICES_TABLE (dc_device_id d) v w2 = Inr w3"
    "open_write rd TYPE_INDEX_TABLE w3 = Inr w4" "write_index rd (index_put (dc_device_id d)) (dc_device_type d) w4 = Inr w5"
    "commit rd w5 = Inr db'" by (auto simp: dst_save_device_def)
  have "c db' = (c db)(DEVICES_TABLE := (c db DEVICES_TABLE)(dc_device_id d \<mapsto> v), TYPE_INDEX_TABLE :=
      (c db TYPE_INDEX_TABLE)(dc_device_type d := index_put (dc_device_id d) (c db TYPE_INDEX_TABLE (dc_device_type d))))"
    using w redb_insert [OF L w(3)] write_index_contents [OF L w(5)] by (simp add: redb_snapshots [OF L] device_tables)
  from device_written [OF K v this] show "stored_devices cd c db' = (stored_devices cd c db)(dc_device_id d \<mapsto> d)"
    "c db' TYPE_INDEX_TABLE = (c db TYPE_INDEX_TABLE)(dc_device_type d := index_put (dc_device_id d) (c db TYPE_INDEX_TABLE (dc_device_type d)))"
    "stored_templates cd c db' = stored_templates cd c db" by blast+
qed

lemma load_device_reads:
  assumes L: "redb_laws rd c" and "dst_load_device rd cd i db = Inr r"
  shows "r = stored_devices cd c db i"
proof -
  from assms(2) obtain t u v where rd: "begin_read rd db = Inr t" "open_read rd DEVICES_TABLE t = Inr u"
    "tbl_get rd DEVICES_TABLE i u = Inr v" by (auto simp: dst_load_device_def)
  with redb_get [OF L rd(3)] assms(2) show ?thesis
    by (auto simp: dst_load_device_def redb_snapshots [OF L] stored_devices_def split: option.splits)
qed

lemma update_last_seen_contents:
  assumes L: "redb_laws rd c" and K: "device_codec_laws cd" and "dst_update_last_seen rd cd i s db = Inr db'"
  obtains d where "stored_devices cd c db i = Some d"
    and "stored_devices cd c db' = (stored_devices cd c db)(i \<mapsto> d\<lparr>dc_last_seen := s\<rparr>)"
    and "c db' TYPE_INDEX_TABLE = c db TYPE_INDEX_TABLE" and "stored_templates cd c db' = stored_templates cd c db"
proof -
  from assms(3) obtain r d v w1 w2 w3 where r: "dst_load_device rd cd i db = Inr r" "r = Some d"
    and v: "device_to_str cd (d\<lparr>dc_last_seen := s\<rparr>) = Inr v"
    and w: "begin_write rd db = Inr w1" "open_write rd DEVICES_TABLE w1 = Inr w2" "tbl_insert rd DEVICES_TABLE i v w2 = Inr w3"
      "commit rd w3 = Inr db'"
    by (auto simp: dst_update_last_seen_def elim!: ok_or.elims)
  have "c db' = (c db)(DEVICES_TABLE := (c db DEVICES_TABLE)(i \<mapsto> v), TYPE_INDEX_TABLE := c db TYPE_INDEX_TABLE)"
    using w redb_insert [OF L w(3)] by (auto simp: redb_snapshots [OF L] device_tables fun_eq_iff)
  from device_written [OF K v this] load_device_reads [OF L r(1)] r(2) that show thesis by metis
qed

lemma delete_device_contents:
  assumes L: "redb_laws rd c" and "dst_delete_device rd cd i db = Inr (r, db')"
  shows "stored_devices cd c db' = (stored_devices cd c db)(i := None)" and "r = stored_type cd c db i"
    and "c db' TYPE_INDEX_TABLE = (case stored_type cd c db i of None \<Rightarrow> c db TYPE_INDEX_TABLE
      | Some ty \<Rightarrow> (c db TYPE_INDEX_TABLE)(ty := index_del i (c db TYPE_INDEX_TABLE ty)))"
    and "stored_templates cd c db' = stored_templates cd c db"
proof -
  from assms(2) obtain w1 w2 v where w: "begin_write rd db = Inr w1" "open_write rd DEVICES_TABLE w1 = Inr w2"
    "tbl_get rd DEVICES_TABLE i w2 = Inr v" by (auto simp: dst_delete_device_def)
  have v: "v = c db DEVICES_TABLE i" using redb_get [OF L w(3)] w(1,2) by (simp add: redb_snapshots [OF L])
  have "stored_devices cd c db' = (stored_devices cd c db)(i := None) \<and> r = stored_type cd c db i
    \<and> c db' TYPE_INDEX_TABLE = (case stored_type cd c db i of None \<Rightarrow> c db TYPE_INDEX_TABLE
        | Some ty \<Rightarrow> (c db TYPE_INDEX_TABLE)(ty := index_del i (c db TYPE_INDEX_TABLE ty)))
    \<and> stored_templates cd c db' = stored_templates cd c db"
  proof (cases v)
    case None
    with assms(2) w v show ?thesis by (auto simp: dst_delete_device_def stored_devices_def fun_eq_iff)
  next
    case (Some json)
    with assms(2) w obtain d b w3 w4 w5 w6 where d: "device_from_str cd json = Inr d" and r: "r = Some (dc_device_type d)"
      and x: "open_write rd DEVICES_TABLE w2 = Inr w3" "tbl_remove rd DEVICES_TABLE i w3 = Inr (b, w4)"
        "open_write rd TYPE_INDEX_TABLE w4 = Inr w5" "write_index rd (index_del i) (dc_device_type d) w5 = Inr w6"
        "commit rd w6 = Inr db'" by (auto simp: dst_delete_device_def Let_def)
    have "c db' = (c db)(DEVICES_TABLE := (c db DEVICES_TABLE)(i := None), TYPE_INDEX_TABLE :=
        (c db TYPE_INDEX_TABLE)(dc_device_type d := index_del i (c db TYPE_INDEX_TABLE (dc_device_type d))))"
      using w(1,2) x redb_remove [OF L x(2)] write_index_contents [OF L x(4)] by (simp add: redb_snapshots [OF L] device_tables)
    with Some v d r show ?thesis by (auto simp: stored_templates_def stored_devices_def device_tables fun_eq_iff)
  qed
  then show "stored_devices cd c db' = (stored_devices cd c db)(i := None)" "r = stored_type cd c db i"
    "c db' TYPE_INDEX_TABLE = (case stored_type cd c db i of None \<Rightarrow> c db TYPE_INDEX_TABLE
      | Some ty \<Rightarrow> (c db TYPE_INDEX_TABLE)(ty := index_del i (c db TYPE_INDEX_TABLE ty)))"
    "stored_templates cd c db' = stored_templates cd c db" by blast+
qed

lemma update_device_contents:
  assumes L: "redb_laws rd c" and K: "device_codec_laws cd" and "dst_update_device rd cd i d db = Inr db'"
  shows "stored_devices cd c db' = (stored_devices cd c db)(i \<mapsto> d)" and "dc_device_id d = i"
    and "c db' TYPE_INDEX_TABLE = (case stored_type cd c db i of
        None \<Rightarrow> c db TYPE_INDEX_TABLE
      | Some old \<Rightarrow>
          if old = dc_device_type d then c db TYPE_INDEX_TABLE
          else (c db TYPE_INDEX_TABLE)(old := index_del i (c db TYPE_INDEX_TABLE old),
                 dc_device_type d := index_put i (c db TYPE_INDEX_TABLE (dc_device_type d))))"
    and "stored_templates cd c db' = stored_templates cd c db"
proof -
  let ?T = TYPE_INDEX_TABLE
  let ?idx = "case stored_type cd c db i of None \<Rightarrow> c db ?T
      | Some old \<Rightarrow> if old = dc_device_type d then c db ?T
          else (c db ?T)(old := index_del i (c db ?T old), dc_device_type d := index_put i (c db ?T (dc_device_type d)))"
  have i: "dc_device_id d = i" using assms(3) by (auto simp: dst_update_device_def split: if_splits)
  obtain old v w1 w2 w3 w4 where old: "dst_load_device rd cd i db = Inr old" and v: "device_to_str cd d = Inr v"
    and w: "begin_write rd db = Inr w1" "open_write rd DEVICES_TABLE w1 = Inr w2" "tbl_insert rd DEVICES_TABLE i v w2 = Inr w3"
    and ix: "(case map_option dc_device_type old of None \<Rightarrow> Inr w3
          | Some old_type \<Rightarrow>
              if old_type = dc_device_type d then Inr w3
              else
                and_then (table_err (open_write rd ?T w3)) (\<lambda>w.
                and_then (write_index rd (index_del i) old_type w) (\<lambda>w.
                write_index rd (index_put i) (dc_device_type d) w))) = Inr w4"
    and cm: "commit rd w4 = Inr db'"
    using assms(3) i by (auto simp: dst_update_device_def)
  have old': "map_option dc_device_type old = stored_type cd c db i" using load_device_reads [OF L old] by simp
  have w3: "c w3 = (c db)(DEVICES_TABLE := (c db DEVICES_TABLE)(i \<mapsto> v))"
    using w redb_insert [OF L w(3)] by (simp add: redb_snapshots [OF L])
  then have T3: "c w3 ?T = c db ?T" by (simp add: device_tables)
  have "c w4 = (c w3)(?T := ?idx)"
  proof (cases "stored_type cd c db i")
    case None
    with ix old' T3 show ?thesis by (simp add: fun_upd_idem)
  next
    case (Some o')
    show ?thesis
    proof (cases "o' = dc_device_type d")
      case True
      with ix old' Some T3 show ?thesis by (auto simp: fun_upd_idem)
    next
      case False
      with ix old' Some obtain w5 w6 where x: "open_write rd ?T w3 = Inr w5" "write_index rd (index_del i) o' w5 = Inr w6"
        "write_index rd (index_put i) (dc_device_type d) w6 = Inr w4" by auto
      from write_index_contents [OF L x(3)] write_index_contents [OF L x(2)] redb_snapshots(3) [OF L x(1)] Some False T3
      show ?thesis by auto
    qed
  qed
  with w3 cm have "c db' = (c db)(DEVICES_TABLE := (c db DEVICES_TABLE)(i \<mapsto> v), ?T := ?idx)"
    by (simp add: redb_snapshots [OF L])
  from device_written [OF K v this] i show "stored_devices cd c db' = (stored_devices cd c db)(i \<mapsto> d)" "dc_device_id d = i"
    "c db' ?T = ?idx" "stored_templates cd c db' = stored_templates cd c db" by blast+
qed

section \<open>Listing by type\<close>

definition store_index_exact :: "device_codec \<Rightarrow> 'd contents \<Rightarrow> 'd \<Rightarrow> bool" where
  "store_index_exact cd c db \<longleftrightarrow> stored.exact (c db TYPE_INDEX_TABLE) (stored_type cd c db)"

datatype device_store_op =
    OpSaveDevice stored_device
  | OpUpdateDevice string stored_device
  | OpLastSeen string int
  | OpDeleteDevice string
  | OpSaveTemplate stored_template
  | OpDeleteTemplate string

fun device_store_step :: "'d redb \<Rightarrow> device_codec \<Rightarrow> device_store_op \<Rightarrow> 'd \<Rightarrow> (storage_error, 'd) rust_result" where
  "device_store_step rd cd (OpSaveDevice d) db = dst_save_device rd cd d db"
| "device_store_step rd cd (OpUpdateDevice i d) db = dst_update_device rd cd i d db"
| "device_store_step rd cd (OpLastSeen i s) db = dst_update_last_seen rd cd i s db"
| "device_store_step rd cd (OpDeleteDevice i) db = and_then (dst_delete_device rd cd i db) (\<lambda>(_, db'). Inr db')"
| "device_store_step rd cd (OpSaveTemplate t) db = dst_save_template rd cd t db"
| "device_store_step rd cd (OpDeleteTemplate ty) db = and_then (dst_delete_template rd ty db) (\<lambda>(_, db'). Inr db')"

text \<open>The uses the index survives: identifiers without a comma, saving a device only under its type, and updating
  only devices that exist.\<close>

definition index_safe :: "(string \<Rightarrow> string option) \<Rightarrow> device_store_op \<Rightarrow> bool" where
  "index_safe type_of x = (case x of
       OpSaveDevice d \<Rightarrow> index_id (dc_device_id d) \<and> type_of (dc_device_id d) \<in> {None, Some (dc_device_type d)}
     | OpUpdateDevice i d \<Rightarrow> index_id i \<and> type_of i \<noteq> None
     | _ \<Rightarrow> True)"

inductive device_store_run :: "'d redb \<Rightarrow> device_codec \<Rightarrow> 'd contents \<Rightarrow> 'd \<Rightarrow> 'd \<Rightarrow> bool"
  for rd cd c db0 where
  start: "device_store_run rd cd c db0 db0"
| step: "device_store_run rd cd c db0 db \<Longrightarrow> index_safe (stored_type cd c db) x \<Longrightarrow> device_store_step rd cd x db = Inr db' \<Longrightarrow>
    device_store_run rd cd c db0 db'"

lemma type_updated:
  "stored_devices cd c db' = (stored_devices cd c db)(i := v) \<Longrightarrow> stored_type cd c db' = (stored_type cd c db)(i := map_option dc_device_type v)"
  by auto

lemma store_step_exact:
  assumes L: "redb_laws rd c" and K: "device_codec_laws cd" and "store_index_exact cd c db"
    and "index_safe (stored_type cd c db) x" and "device_store_step rd cd x db = Inr db'"
  shows "store_index_exact cd c db'"
proof (cases x)
  case (OpSaveDevice d)
  note ct = save_device_contents [OF L K, of d db db'] and ex = assms(3) [unfolded store_index_exact_def]
  from OpSaveDevice assms(4,5) have d: "dst_save_device rd cd d db = Inr db'" "index_id (dc_device_id d)"
    "stored_type cd c db (dc_device_id d) = None \<or> stored_type cd c db (dc_device_id d) = Some (dc_device_type d)"
    by (auto simp: index_safe_def)
  show ?thesis
  proof (cases "stored_type cd c db (dc_device_id d)")
    case None
    from stored.exact_put [OF ex d(2) None, of "dc_device_type d"] show ?thesis
      unfolding store_index_exact_def type_updated [OF ct(1) [OF d(1)]] ct(2) [OF d(1)] option.map .
  next
    case (Some ty)
    with d(3) have "(stored_type cd c db)(dc_device_id d \<mapsto> dc_device_type d) = stored_type cd c db" by auto
    moreover have "dc_device_id d \<in> set (split_ids (c db TYPE_INDEX_TABLE (dc_device_type d)))"
      using stored.exact_ids [OF ex] Some d(3) by auto
    ultimately show ?thesis using stored.exact_refresh [OF ex, of "index_put (dc_device_id d) (c db TYPE_INDEX_TABLE (dc_device_type d))"]
      unfolding store_index_exact_def type_updated [OF ct(1) [OF d(1)]] ct(2) [OF d(1)] option.map by (simp add: split_put [OF d(2)])
  qed
next
  case (OpUpdateDevice i d)
  note ct = update_device_contents [OF L K, of i d db db'] and ex = assms(3) [unfolded store_index_exact_def]
  from OpUpdateDevice assms(4,5) obtain old where d: "dst_update_device rd cd i d db = Inr db'" "index_id i"
    "stored_type cd c db i = Some old" by (auto simp: index_safe_def)
  show ?thesis
  proof (cases "old = dc_device_type d")
    case True
    with d(3) have "(stored_type cd c db)(i \<mapsto> dc_device_type d) = stored_type cd c db" by auto
    with ex True d(3) show ?thesis
      unfolding store_index_exact_def type_updated [OF ct(1) [OF d(1)]] ct(3) [OF d(1)] d(3) option.map by simp
  next
    case False
    from stored.exact_move [OF ex d(2,3) this] False show ?thesis
      unfolding store_index_exact_def type_updated [OF ct(1) [OF d(1)]] ct(3) [OF d(1)] d(3) option.map by simp
  qed
next
  case (OpLastSeen i s)
  with assms(5) have "dst_update_last_seen rd cd i s db = Inr db'" by simp
  then obtain d where d: "stored_devices cd c db i = Some d"
    "stored_devices cd c db' = (stored_devices cd c db)(i \<mapsto> d\<lparr>dc_last_seen := s\<rparr>)" "c db' TYPE_INDEX_TABLE = c db TYPE_INDEX_TABLE"
    using update_last_seen_contents [OF L K] by metis
  then have "stored_type cd c db' = stored_type cd c db" by auto
  with assms(3) d(3) show ?thesis by (simp add: store_index_exact_def)
next
  case (OpDeleteDevice i)
  with assms(5) obtain r where d: "dst_delete_device rd cd i db = Inr (r, db')" by auto
  note ct = delete_device_contents [OF L d]
  show ?thesis
  proof (cases "stored_type cd c db i")
    case None
    then have "(stored_type cd c db)(i := None) = stored_type cd c db" by auto
    with assms(3) show ?thesis unfolding store_index_exact_def type_updated [OF ct(1)] ct(3) None by simp
  next
    case (Some ty)
    from stored.exact_del [OF assms(3) [unfolded store_index_exact_def] this] show ?thesis
      unfolding store_index_exact_def type_updated [OF ct(1)] ct(3) Some by simp
  qed
next
  case (OpSaveTemplate t)
  with assms(3,5) save_template_contents [OF L, of cd t db db'] show ?thesis by (simp add: store_index_exact_def)
next
  case (OpDeleteTemplate ty)
  with assms(5) obtain b where "dst_delete_template rd ty db = Inr (b, db')" by auto
  from delete_template_contents [OF L this] assms(3) show ?thesis by (simp add: store_index_exact_def)
qed

lemma load_devices_reads:
  assumes L: "redb_laws rd c" and "load_devices rd cd is' t = Inr ds"
  shows "ds = List.map_filter (stored_devices cd c t) is'"
  using assms(2)
proof (induction is' arbitrary: ds)
  case (Cons i rest)
  then obtain v ds' where v: "tbl_get rd DEVICES_TABLE i t = Inr v" and "load_devices rd cd rest t = Inr ds'"
    and ds: "ds = (case Option.bind v (\<lambda>v. ok (device_from_str cd v)) of Some d \<Rightarrow> d # ds' | None \<Rightarrow> ds')" by auto
  with Cons.IH redb_get [OF L v] show ?case
    by (simp add: stored_devices_def List.map_filter_simps split: option.splits)
qed (simp add: List.map_filter_simps)

lemma list_by_type_reads:
  assumes L: "redb_laws rd c" and "dst_list_devices_by_type rd cd ty db = Inr ds"
  shows "ds = List.map_filter (stored_devices cd c db) (split_ids (c db TYPE_INDEX_TABLE ty))"
proof -
  from assms(2) obtain t1 t2 v where t: "begin_read rd db = Inr t1" "open_read rd TYPE_INDEX_TABLE t1 = Inr t2"
    and v: "tbl_get rd TYPE_INDEX_TABLE ty t2 = Inr v"
    and r: "(if split_ids v = [] then Inr [] else and_then (table_err (open_read rd DEVICES_TABLE t2))
      (\<lambda>t. load_devices rd cd (split_ids v) t)) = Inr ds"
    by (auto simp: dst_list_devices_by_type_def)
  have c: "c t2 = c db" using t by (simp add: redb_snapshots [OF L])
  have v: "v = c db TYPE_INDEX_TABLE ty" using redb_get [OF L v] c by simp
  show ?thesis
  proof (cases "split_ids v = []")
    case False
    with r obtain t3 where t3: "open_read rd DEVICES_TABLE t2 = Inr t3" "load_devices rd cd (split_ids v) t3 = Inr ds" by auto
    then have "c t3 = c db" using c by (simp add: redb_snapshots [OF L])
    then have "stored_devices cd c t3 = stored_devices cd c db" by (simp add: stored_devices_def [abs_def])
    with load_devices_reads [OF L t3(2)] v show ?thesis by simp
  qed (use r v in \<open>simp add: List.map_filter_simps\<close>)
qed

text \<open>Listing stored devices by type: starting from a store whose index is exact, after any sequence of
  successful saves, updates of existing devices, deletions, sightings and changes of templates, with
  identifiers that contain no comma and no save that moves a device to another type, the listing of a type
  has each stored device of that type once and no other device.\<close>

lemma store_lists_type:
  assumes "redb_laws rd c" and "device_codec_laws cd" and "store_index_exact cd c db0" and "device_store_run rd cd c db0 db"
    and "dst_list_devices_by_type rd cd ty db = Inr ds"
  shows "set ds = {d. d \<in> ran (stored_devices cd c db) \<and> dc_device_type d = ty}
    \<and> length ds = card {i. stored_type cd c db i = Some ty}"
proof -
  have ex: "store_index_exact cd c db"
    using assms(4)
  proof induction
    case (step db x db')
    from store_step_exact [OF assms(1,2) step.IH step.hyps(2,3)] show ?case .
  qed (rule assms(3))
  from stored.exact_listing [OF ex [unfolded store_index_exact_def], of ty] show ?thesis
    unfolding list_by_type_reads [OF assms(1,5)] by blast
qed

end
