(* ===== verification/DeviceRegistry.thy ===== *)
theory DeviceRegistry
  imports DeviceStore
begin

text \<open>
  \<open>DeviceRegistry\<close> of \<open>heramind-devices/src/registry.rs\<close>: templates and devices in memory, with an index by type,
  a cache from telemetry topics to devices and optional persistence. The order in which a concurrent
  map is iterated is a parameter, as is the Unicode test for alphanumeric characters.
\<close>

section \<open>State\<close>

type_synonym local_device = "connection_config device_config"

record 'd device_registry =
  dr_templates :: "(string, device_type_template) hash_map"
  dr_devices :: "(string, local_device) hash_map"
  dr_type_index :: "(string, string list) hash_map"
  dr_topic_index :: "(string, string) hash_map"
  dr_storage :: "'d option"
  dr_auto_save :: bool

record 'd device_env =
  de_redb :: "'d redb"
  de_codec :: device_codec
  de_type_chars :: "string \<Rightarrow> bool"
  de_iter :: "(string, local_device) hash_map \<Rightarrow> (string \<times> local_device) list"
  de_iter_templates :: "(string, device_type_template) hash_map \<Rightarrow> (string \<times> device_type_template) list"

definition dr_new :: "'d device_registry" where
  "dr_new =
     \<lparr>dr_templates = [], dr_devices = [], dr_type_index = [], dr_topic_index = [], dr_storage = None, dr_auto_save = False\<rparr>"

text \<open>Persisting, where an error is only reported: with auto-save and a store.\<close>

definition saved_to ::
    "('d \<Rightarrow> (storage_error, 'd) rust_result) \<Rightarrow> 'd device_registry \<Rightarrow> 'd device_registry" where
  "saved_to write r =
     (case dr_storage r of
        None \<Rightarrow> r
      | Some db \<Rightarrow> (case write db of Inr db' \<Rightarrow> r\<lparr>dr_storage := Some db'\<rparr> | Inl _ \<Rightarrow> r))"

definition auto_saved ::
    "('d \<Rightarrow> (storage_error, 'd) rust_result) \<Rightarrow> 'd device_registry \<Rightarrow> 'd device_registry" where
  "auto_saved write r = (if dr_auto_save r then saved_to write r else r)"

definition dr_set_auto_save :: "bool \<Rightarrow> 'd device_registry \<Rightarrow> 'd device_registry" where
  "dr_set_auto_save enabled r = r\<lparr>dr_auto_save := enabled\<rparr>"

definition dr_has_storage :: "'d device_registry \<Rightarrow> bool" where
  "dr_has_storage r = (dr_storage r \<noteq> None)"

section \<open>Templates\<close>

definition validate_template :: "'d device_env \<Rightarrow> device_type_template \<Rightarrow> (device_error, unit) rust_result" where
  "validate_template env t =
     (if tp_device_type t = [] then Inl (InvalidParameter ''device_type cannot be empty'')
      else if \<not> de_type_chars env (tp_device_type t) then
        Inl (InvalidParameter ''device_type can only contain alphanumeric, underscore, and hyphen'')
      else if \<exists>m \<in> set (tp_metrics t). md_name m = [] then Inl (InvalidParameter ''metric name cannot be empty'')
      else if \<exists>c \<in> set (tp_commands t). cmd_name c = [] then Inl (InvalidParameter ''command name cannot be empty'')
      else Inr ())"

definition dr_register_template ::
    "'d device_env \<Rightarrow> device_type_template \<Rightarrow> 'd device_registry \<Rightarrow> (device_error, unit) rust_result \<times> 'd device_registry" where
  "dr_register_template env t r =
     (case validate_template env t of
        Inl e \<Rightarrow> (Inl e, r)
      | Inr _ \<Rightarrow>
          (Inr (), auto_saved (dst_save_template (de_redb env) (de_codec env) (template_to_storage t))
             (r\<lparr>dr_templates := hm_insert (tp_device_type t) t (dr_templates r)\<rparr>)))"

definition dr_get_template :: "string \<Rightarrow> 'd device_registry \<Rightarrow> device_type_template option" where
  "dr_get_template device_type r = hm_get (dr_templates r) device_type"

definition dr_list_templates :: "'d device_env \<Rightarrow> 'd device_registry \<Rightarrow> device_type_template list" where
  "dr_list_templates env r = map snd (de_iter_templates env (dr_templates r))"

definition dr_unregister_template ::
    "'d device_env \<Rightarrow> string \<Rightarrow> 'd device_registry \<Rightarrow> (device_error, unit) rust_result \<times> 'd device_registry" where
  "dr_unregister_template env device_type r =
     (let users = unwrap_or (hm_get (dr_type_index r) device_type) []
      in if users \<noteq> [] then
           (Inl (InvalidParameter (''Cannot unregister template '' @ [CHR 0x27] @ device_type @ [CHR 0x27] @ '': ''
              @ show_nat (length users) @ '' devices still use it'')), r)
         else
           (Inr (), auto_saved (\<lambda>db. and_then (dst_delete_template (de_redb env) device_type db) (\<lambda>(_, db'). Inr db'))
              (r\<lparr>dr_templates := hm_remove device_type (dr_templates r)\<rparr>)))"

section \<open>The type index in memory\<close>

text \<open>\<open>entry(device_type).or_default().push(device_id)\<close>, and removal of an identifier, with the entry itself when it
  becomes empty.\<close>

definition ids_of :: "string list option \<Rightarrow> string list" where
  "ids_of e = unwrap_or e []"

definition push_id :: "string \<Rightarrow> string list option \<Rightarrow> string list option" where
  "push_id i e = Some (ids_of e @ [i])"

definition retain_id :: "string \<Rightarrow> string list option \<Rightarrow> string list option" where
  "retain_id i e = (case e of
       None \<Rightarrow> None
     | Some is' \<Rightarrow> (let kept = filter (\<lambda>j. j \<noteq> i) is' in if kept = [] then None else Some kept))"

definition change_index ::
    "(string list option \<Rightarrow> string list option) \<Rightarrow> string \<Rightarrow> (string, string list) hash_map \<Rightarrow> (string, string list) hash_map" where
  "change_index change ty m = (case change (hm_get m ty) of Some e \<Rightarrow> hm_insert ty e m | None \<Rightarrow> hm_remove ty m)"

section \<open>Devices\<close>

definition template_missing :: "string \<Rightarrow> device_error" where
  "template_missing device_type =
     NotFoundStr (''Device type template '' @ [CHR 0x27] @ device_type @ [CHR 0x27] @ '' not found'')"

definition reregister :: "local_device \<Rightarrow> local_device \<Rightarrow> local_device" where
  "reregister config d =
     d\<lparr>dc_name := dc_name config,
       dc_adapter_id := (case dc_adapter_id config of Some a \<Rightarrow> Some a | None \<Rightarrow> dc_adapter_id d),
       dc_last_seen := (if dc_last_seen config > 0 then dc_last_seen config else dc_last_seen d)\<rparr>"

definition save_new_device :: "'d device_env \<Rightarrow> local_device \<Rightarrow> 'd device_registry \<Rightarrow> (device_error, 'd option) rust_result" where
  "save_new_device env config r =
     (case dr_storage r of
        Some db \<Rightarrow>
          if dr_auto_save r
          then map_err (\<lambda>e. DeviceStorage (''Failed to save device to storage: '' @ show_storage_error e))
                 (and_then (dst_save_device (de_redb env) (de_codec env) (config_to_storage config) db) (\<lambda>db'. Inr (Some db')))
          else Inr (Some db)
      | None \<Rightarrow> Inr None)"

definition dr_register_device ::
    "'d device_env \<Rightarrow> local_device \<Rightarrow> 'd device_registry \<Rightarrow> (device_error, unit) rust_result \<times> 'd device_registry" where
  "dr_register_device env config r =
     (let device_id = dc_device_id config; device_type = dc_device_type config
      in if dr_get_template device_type r = None then (Inl (template_missing device_type), r)
         else if device_id = [] then (Inl (InvalidParameter ''device_id cannot be empty''), r)
         else case hm_get (dr_devices r) device_id of
           Some d \<Rightarrow>
             (let updated = reregister config d
              in (Inr (), auto_saved (dst_save_device (de_redb env) (de_codec env) (config_to_storage updated))
                   (r\<lparr>dr_devices := hm_insert device_id updated (dr_devices r)\<rparr>)))
         | None \<Rightarrow>
             (case save_new_device env config r of
                Inl e \<Rightarrow> (Inl e, r)
              | Inr storage \<Rightarrow>
                  (Inr (), r\<lparr>dr_storage := storage, dr_devices := hm_insert device_id config (dr_devices r),
                     dr_type_index := change_index (push_id device_id) device_type (dr_type_index r)\<rparr>)))"

definition dr_get_device :: "string \<Rightarrow> 'd device_registry \<Rightarrow> local_device option" where
  "dr_get_device device_id r = hm_get (dr_devices r) device_id"

text \<open>The sighting is written through to the store when the device had never been seen or its previous sighting is
  at least fifteen seconds older.\<close>

definition dr_update_last_seen :: "'d device_env \<Rightarrow> string \<Rightarrow> int \<Rightarrow> 'd device_registry \<Rightarrow> 'd device_registry" where
  "dr_update_last_seen env device_id last_seen r =
     (case hm_get (dr_devices r) device_id of
        None \<Rightarrow> r
      | Some d \<Rightarrow>
          (let prev = dc_last_seen d; r = r\<lparr>dr_devices := hm_insert device_id (d\<lparr>dc_last_seen := last_seen\<rparr>) (dr_devices r)\<rparr>
           in if prev = 0 \<or> last_seen - prev \<ge> 15
              then saved_to (dst_update_last_seen (de_redb env) (de_codec env) device_id last_seen) r
              else r))"

definition dr_list_devices :: "'d device_env \<Rightarrow> 'd device_registry \<Rightarrow> local_device list" where
  "dr_list_devices env r = map snd (de_iter env (dr_devices r))"

text \<open>A lookup by topic: the cached device if its current topic is still the one asked for, otherwise the stale
  entry is dropped and all devices are searched.\<close>

definition scan_topic ::
    "'d device_env \<Rightarrow> string \<Rightarrow> 'd device_registry \<Rightarrow> (string \<times> local_device) option \<times> 'd device_registry" where
  "scan_topic env topic r =
     (case find (\<lambda>(_, d). cn_telemetry_topic (dc_connection_config d) = Some topic) (de_iter env (dr_devices r)) of
        None \<Rightarrow> (None, r)
      | Some (i, d) \<Rightarrow> (Some (i, d), r\<lparr>dr_topic_index := hm_insert topic i (dr_topic_index r)\<rparr>))"

definition find_device_by_telemetry_topic ::
    "'d device_env \<Rightarrow> string \<Rightarrow> 'd device_registry \<Rightarrow> (string \<times> local_device) option \<times> 'd device_registry" where
  "find_device_by_telemetry_topic env topic r =
     (case hm_get (dr_topic_index r) topic of
        None \<Rightarrow> scan_topic env topic r
      | Some i \<Rightarrow>
          (let stale = r\<lparr>dr_topic_index := hm_remove topic (dr_topic_index r)\<rparr>
           in case hm_get (dr_devices r) i of
                None \<Rightarrow> scan_topic env topic stale
              | Some d \<Rightarrow>
                  if cn_telemetry_topic (dc_connection_config d) = Some topic then (Some (i, d), r)
                  else scan_topic env topic stale))"

definition dr_list_devices_by_type :: "string \<Rightarrow> 'd device_registry \<Rightarrow> local_device list" where
  "dr_list_devices_by_type device_type r =
     List.map_filter (hm_get (dr_devices r)) (ids_of (hm_get (dr_type_index r) device_type))"

definition dr_unregister_device ::
    "'d device_env \<Rightarrow> string \<Rightarrow> 'd device_registry \<Rightarrow> (device_error, unit) rust_result \<times> 'd device_registry" where
  "dr_unregister_device env device_id r =
     (case hm_get (dr_devices r) device_id of
        None \<Rightarrow> (Inl (NotFoundStr device_id), r)
      | Some d \<Rightarrow>
          (Inr (), auto_saved (\<lambda>db. and_then (dst_delete_device (de_redb env) (de_codec env) device_id db) (\<lambda>(_, db'). Inr db'))
             (r\<lparr>dr_devices := hm_remove device_id (dr_devices r),
                dr_topic_index := (case cn_telemetry_topic (dc_connection_config d) of
                    Some topic \<Rightarrow> hm_remove topic (dr_topic_index r) | None \<Rightarrow> dr_topic_index r),
                dr_type_index := change_index (retain_id device_id) (dc_device_type d) (dr_type_index r)\<rparr>)))"

definition dr_update_device ::
    "'d device_env \<Rightarrow> string \<Rightarrow> local_device \<Rightarrow> 'd device_registry \<Rightarrow> (device_error, unit) rust_result \<times> 'd device_registry" where
  "dr_update_device env device_id config r =
     (let new_type = dc_device_type config
      in if dc_device_id config \<noteq> device_id then (Inl (InvalidParameter ''device_id in config must match the parameter''), r)
         else if dr_get_template new_type r = None then (Inl (template_missing new_type), r)
         else
           (Inr (), auto_saved (dst_update_device (de_redb env) (de_codec env) device_id (config_to_storage config))
              (r\<lparr>dr_devices := hm_insert device_id config (dr_devices r),
                 dr_type_index := (case map_option dc_device_type (hm_get (dr_devices r) device_id) of
                     None \<Rightarrow> dr_type_index r
                   | Some old_type \<Rightarrow>
                       if old_type = new_type then dr_type_index r
                       else change_index (push_id device_id) new_type (change_index (retain_id device_id) old_type (dr_type_index r)))\<rparr>)))"

definition dr_device_count :: "'d device_registry \<Rightarrow> nat" where
  "dr_device_count r = length (dr_devices r)"

definition dr_template_count :: "'d device_registry \<Rightarrow> nat" where
  "dr_template_count r = length (dr_templates r)"

section \<open>Loading and saving\<close>

text \<open>Devices stored before sightings were recorded count as seen at time 1, and are marked so in the store.\<close>

definition load_template :: "stored_template \<Rightarrow> 'd device_registry \<Rightarrow> 'd device_registry" where
  "load_template t r =
     (let t = template_from_storage t in r\<lparr>dr_templates := hm_insert (tp_device_type t) t (dr_templates r)\<rparr>)"

definition load_device :: "stored_device \<Rightarrow> 'd device_registry \<Rightarrow> 'd device_registry" where
  "load_device s r =
     (let d = (config_from_storage s)\<lparr>dc_last_seen := (if dc_last_seen s = 0 then 1 else dc_last_seen s)\<rparr>
      in r\<lparr>dr_devices := hm_insert (dc_device_id d) d (dr_devices r),
           dr_type_index := change_index (push_id (dc_device_id d)) (dc_device_type d) (dr_type_index r)\<rparr>)"

definition dr_load_from_storage ::
    "'d device_env \<Rightarrow> 'd device_registry \<Rightarrow> (device_error, unit) rust_result \<times> 'd device_registry" where
  "dr_load_from_storage env r =
     (case dr_storage r of
        None \<Rightarrow> (Inl (DeviceStorage ''No storage configured''), r)
      | Some db \<Rightarrow>
          (case dst_list_templates (de_redb env) (de_codec env) db of
             Inl e \<Rightarrow> (Inl (DeviceStorage (''Failed to load templates: '' @ show_storage_error e)), r)
           | Inr ts \<Rightarrow>
               (let r = fold load_template ts r
                in case dst_list_devices (de_redb env) (de_codec env) db of
                     Inl e \<Rightarrow> (Inl (DeviceStorage (''Failed to load devices: '' @ show_storage_error e)), r)
                   | Inr ds \<Rightarrow>
                       (let migrated = map dc_device_id (filter (\<lambda>d. dc_last_seen d = 0) ds)
                        in (Inr (), fold (\<lambda>i. saved_to (dst_update_last_seen (de_redb env) (de_codec env) i 1)) migrated
                              (fold load_device ds r))))))"

fun save_templates ::
    "'d device_env \<Rightarrow> device_type_template list \<Rightarrow> 'd \<Rightarrow> (device_error, unit) rust_result \<times> 'd" where
  "save_templates env [] db = (Inr (), db)"
| "save_templates env (t # ts) db =
     (case dst_save_template (de_redb env) (de_codec env) (template_to_storage t) db of
        Inl e \<Rightarrow> (Inl (DeviceStorage (''Failed to save template: '' @ show_storage_error e)), db)
      | Inr db' \<Rightarrow> save_templates env ts db')"

fun save_devices :: "'d device_env \<Rightarrow> local_device list \<Rightarrow> 'd \<Rightarrow> (device_error, unit) rust_result \<times> 'd" where
  "save_devices env [] db = (Inr (), db)"
| "save_devices env (d # ds) db =
     (case dst_save_device (de_redb env) (de_codec env) (config_to_storage d) db of
        Inl e \<Rightarrow> (Inl (DeviceStorage (''Failed to save device: '' @ show_storage_error e)), db)
      | Inr db' \<Rightarrow> save_devices env ds db')"

definition dr_save_to_storage ::
    "'d device_env \<Rightarrow> 'd device_registry \<Rightarrow> (device_error, unit) rust_result \<times> 'd device_registry" where
  "dr_save_to_storage env r =
     (case dr_storage r of
        None \<Rightarrow> (Inl (DeviceStorage ''No storage configured''), r)
      | Some db \<Rightarrow>
          (case save_templates env (dr_list_templates env r) db of
             (Inl e, db') \<Rightarrow> (Inl e, r\<lparr>dr_storage := Some db'\<rparr>)
           | (Inr _, db') \<Rightarrow>
               (let (res, db'') = save_devices env (dr_list_devices env r) db' in (res, r\<lparr>dr_storage := Some db''\<rparr>))))"

text \<open>Opening with persistence, on a database that has been opened; a failure to seed is only reported.\<close>

definition dr_with_persistence ::
    "'d device_env \<Rightarrow> (string \<times> string) list \<Rightarrow> 'd \<Rightarrow> (device_error, 'd device_registry) rust_result" where
  "dr_with_persistence env builtin db =
     (let (_, db) = seed_builtin_templates (de_redb env) (de_codec env) builtin 0 db
      in case dr_load_from_storage env (dr_new\<lparr>dr_storage := Some db, dr_auto_save := True\<rparr>) of
           (Inl e, _) \<Rightarrow> Inl e
         | (Inr _, r) \<Rightarrow> Inr r)"

text \<open>Seeding later, as the server does once more after start-up.\<close>

definition dr_seed_builtin_templates ::
    "'d device_env \<Rightarrow> (string \<times> string) list \<Rightarrow> 'd device_registry \<Rightarrow> (device_error, nat) rust_result \<times> 'd device_registry" where
  "dr_seed_builtin_templates env builtin r =
     (case dr_storage r of
        None \<Rightarrow> (Inl (DeviceStorage ''No storage configured''), r)
      | Some db \<Rightarrow>
          (let (res, db') = seed_builtin_templates (de_redb env) (de_codec env) builtin 0 db
           in (map_err (\<lambda>e. DeviceStorage (''seed_builtin_templates failed: '' @ show_storage_error e)) res, r\<lparr>dr_storage := Some db'\<rparr>)))"

end
