(* ===== verification/RegistryProperties.thy ===== *)
theory RegistryProperties
  imports DeviceRegistry
begin

text \<open>
  Properties of the device registry: its index by type and what a second load does to it, devices and their
  templates, the lookup by topic, and which sightings reach the store.
\<close>

section \<open>The index\<close>

interpretation indexed: type_index ids_of push_id retain_id "\<lambda>_. True"
  by unfold_locales (auto simp: ids_of_def push_id_def retain_id_def Let_def split: option.splits)

lemma change_index_get [simp]: "hm_get (change_index change ty m) = (hm_get m)(ty := change (hm_get m ty))"
  by (auto simp: change_index_def fun_eq_iff split: option.splits)

definition device_types :: "'d device_registry \<Rightarrow> string \<Rightarrow> string option" where
  "device_types r i = map_option dc_device_type (hm_get (dr_devices r) i)"

definition registry_index_exact :: "'d device_registry \<Rightarrow> bool" where
  "registry_index_exact r \<longleftrightarrow> indexed.exact (hm_get (dr_type_index r)) (device_types r)"

lemma device_types_insert: "hm_get devs = (hm_get (dr_devices r))(i \<mapsto> d) \<Longrightarrow>
    device_types (r\<lparr>dr_devices := devs\<rparr>) = (device_types r)(i \<mapsto> dc_device_type d)"
  by (auto simp: device_types_def fun_eq_iff)

lemma saved_to_simps [simp]:
  "dr_templates (saved_to w r) = dr_templates r" "dr_devices (saved_to w r) = dr_devices r"
  "dr_type_index (saved_to w r) = dr_type_index r" "dr_topic_index (saved_to w r) = dr_topic_index r"
  "dr_auto_save (saved_to w r) = dr_auto_save r"
  by (simp_all add: saved_to_def split: option.splits sum.splits)

lemma auto_saved_simps [simp]:
  "dr_templates (auto_saved w r) = dr_templates r" "dr_devices (auto_saved w r) = dr_devices r"
  "dr_type_index (auto_saved w r) = dr_type_index r" "dr_topic_index (auto_saved w r) = dr_topic_index r"
  "dr_auto_save (auto_saved w r) = dr_auto_save r"
  by (simp_all add: auto_saved_def)

section \<open>Reachable registries\<close>

datatype 'd dev_registry_op =
    RegisterTemplate device_type_template
  | UnregisterTemplate string
  | RegisterDevice local_device
  | UnregisterDevice string
  | UpdateDevice string local_device
  | Seen string int
  | FindTopic string
  | SetAutoSave bool

fun dev_registry_step :: "'d device_env \<Rightarrow> 'd dev_registry_op \<Rightarrow> 'd device_registry \<Rightarrow> 'd device_registry" where
  "dev_registry_step env (RegisterTemplate t) r = snd (dr_register_template env t r)"
| "dev_registry_step env (UnregisterTemplate ty) r = snd (dr_unregister_template env ty r)"
| "dev_registry_step env (RegisterDevice d) r = snd (dr_register_device env d r)"
| "dev_registry_step env (UnregisterDevice i) r = snd (dr_unregister_device env i r)"
| "dev_registry_step env (UpdateDevice i d) r = snd (dr_update_device env i d r)"
| "dev_registry_step env (Seen i ts) r = dr_update_last_seen env i ts r"
| "dev_registry_step env (FindTopic topic) r = snd (find_device_by_telemetry_topic env topic r)"
| "dev_registry_step env (SetAutoSave b) r = dr_set_auto_save b r"

text \<open>Every sequence of operations on a new registry in which only registered devices are updated.\<close>

inductive dev_registry_reachable :: "'d device_env \<Rightarrow> 'd device_registry \<Rightarrow> bool" for env where
  fresh: "dev_registry_reachable env (dr_new\<lparr>dr_storage := storage, dr_auto_save := b\<rparr>)"
| step: "dev_registry_reachable env r \<Longrightarrow> (\<And>i d. x = UpdateDevice i d \<Longrightarrow> dr_get_device i r \<noteq> None) \<Longrightarrow>
    dev_registry_reachable env (dev_registry_step env x r)"

definition templates_present :: "'d device_registry \<Rightarrow> bool" where
  "templates_present r \<longleftrightarrow> (\<forall>i ty. device_types r i = Some ty \<longrightarrow> hm_get (dr_templates r) ty \<noteq> None)"

definition registry_inv :: "'d device_registry \<Rightarrow> bool" where
  "registry_inv r \<longleftrightarrow> registry_index_exact r \<and> templates_present r"

lemma registry_inv_cong:
  "dr_templates r' = dr_templates r \<Longrightarrow> dr_type_index r' = dr_type_index r \<Longrightarrow> device_types r' = device_types r \<Longrightarrow>
   registry_inv r' = registry_inv r"
  by (simp add: registry_inv_def registry_index_exact_def templates_present_def)

lemma scan_topic_simps [simp]:
  "dr_devices (snd (scan_topic env topic r)) = dr_devices r" "dr_type_index (snd (scan_topic env topic r)) = dr_type_index r"
  "dr_templates (snd (scan_topic env topic r)) = dr_templates r"
  by (simp_all add: scan_topic_def split: option.splits prod.splits)

lemma find_topic_simps [simp]:
  "dr_devices (snd (find_device_by_telemetry_topic env topic r)) = dr_devices r"
  "dr_type_index (snd (find_device_by_telemetry_topic env topic r)) = dr_type_index r"
  "dr_templates (snd (find_device_by_telemetry_topic env topic r)) = dr_templates r"
  by (simp_all add: find_device_by_telemetry_topic_def Let_def split: option.splits)

lemma register_template_inv:
  assumes "registry_inv r"
  shows "registry_inv (snd (dr_register_template env t r))"
  using assms by (auto simp: dr_register_template_def registry_inv_def registry_index_exact_def templates_present_def
      device_types_def [abs_def] split: sum.splits)

lemma unregister_template_inv:
  assumes "registry_inv r"
  shows "registry_inv (snd (dr_unregister_template env ty r))"
proof (cases "ids_of (hm_get (dr_type_index r) ty) = []")
  case True
  have "device_types r i \<noteq> Some ty" for i
    using indexed.exact_ids [of "hm_get (dr_type_index r)" "device_types r" ty] assms True
    by (auto simp: registry_inv_def registry_index_exact_def)
  with assms True show ?thesis
    by (auto simp: dr_unregister_template_def registry_inv_def registry_index_exact_def templates_present_def ids_of_def
        device_types_def [abs_def])
next
  case False
  with assms show ?thesis by (simp add: dr_unregister_template_def ids_of_def Let_def)
qed

lemma device_written_inv:
  assumes "registry_inv r" and "hm_get (dr_templates r) ty \<noteq> None" and "dr_templates r' = dr_templates r"
    and "device_types r' = (device_types r)(i \<mapsto> ty)"
    and "indexed.exact (hm_get (dr_type_index r')) ((device_types r)(i \<mapsto> ty))"
  shows "registry_inv r'"
  using assms by (auto simp: registry_inv_def registry_index_exact_def templates_present_def)

lemma type_kept: "device_types r i = Some ty \<Longrightarrow> (device_types r)(i \<mapsto> ty) = device_types r"
  by auto

lemma register_device_inv:
  assumes "registry_inv r"
  shows "registry_inv (snd (dr_register_device env d r))"
proof -
  let ?i = "dc_device_id d" and ?ty = "dc_device_type d" and ?r' = "snd (dr_register_device env d r)"
  have ex: "indexed.exact (hm_get (dr_type_index r)) (device_types r)"
    using assms by (simp add: registry_inv_def registry_index_exact_def)
  consider "?r' = r"
    | old where "hm_get (dr_devices r) ?i = Some old" "dr_templates ?r' = dr_templates r" "dr_type_index ?r' = dr_type_index r"
        "dr_devices ?r' = hm_insert ?i (reregister d old) (dr_devices r)"
    | "hm_get (dr_devices r) ?i = None" "hm_get (dr_templates r) ?ty \<noteq> None" "dr_templates ?r' = dr_templates r"
        "dr_type_index ?r' = change_index (push_id ?i) ?ty (dr_type_index r)" "dr_devices ?r' = hm_insert ?i d (dr_devices r)"
    by (cases "dr_get_template ?ty r = None"; cases "?i = []"; cases "hm_get (dr_devices r) ?i"; cases "save_new_device env d r")
      (auto simp: dr_register_device_def Let_def dr_get_template_def)
  then show ?thesis
  proof cases
    case 1
    with assms show ?thesis by simp
  next
    case (2 old)
    then have "device_types ?r' = device_types r" by (auto simp: device_types_def reregister_def fun_eq_iff)
    with registry_inv_cong [OF 2(2,3)] assms show ?thesis by simp
  next
    case 3
    then have new: "device_types r ?i = None" and ty: "device_types ?r' = (device_types r)(?i \<mapsto> ?ty)"
      by (auto simp: device_types_def fun_eq_iff)
    from indexed.exact_put [OF ex _ new, of ?ty] 3(4) show ?thesis
      by (intro device_written_inv [OF assms 3(2,3) ty]) (simp del: fun_upd_apply)
  qed
qed

lemma unregister_device_inv:
  assumes "registry_inv r"
  shows "registry_inv (snd (dr_unregister_device env i r))"
proof (cases "hm_get (dr_devices r) i")
  case None
  with assms show ?thesis by (simp add: dr_unregister_device_def)
next
  case (Some d)
  let ?r' = "snd (dr_unregister_device env i r)"
  have "device_types r i = Some (dc_device_type d)" using Some by (simp add: device_types_def)
  from indexed.exact_del [where index = "hm_get (dr_type_index r)" and type_of = "device_types r", OF _ this] assms
  have "indexed.exact (hm_get (dr_type_index ?r')) ((device_types r)(i := None))"
    using Some by (simp add: dr_unregister_device_def registry_inv_def registry_index_exact_def del: fun_upd_apply)
  moreover have "device_types ?r' = (device_types r)(i := None)" "dr_templates ?r' = dr_templates r"
    using Some by (auto simp: dr_unregister_device_def device_types_def fun_eq_iff)
  ultimately show ?thesis using assms by (auto simp: registry_inv_def registry_index_exact_def templates_present_def)
qed

lemma update_device_inv:
  assumes "registry_inv r" and "dr_get_device i r \<noteq> None"
  shows "registry_inv (snd (dr_update_device env i d r))"
proof (cases "dc_device_id d \<noteq> i \<or> dr_get_template (dc_device_type d) r = None")
  case True
  with assms(1) show ?thesis by (auto simp: dr_update_device_def Let_def)
next
  case False
  let ?r' = "snd (dr_update_device env i d r)" and ?ty = "dc_device_type d"
  from assms(2) obtain old where old: "hm_get (dr_devices r) i = Some old" by (auto simp: dr_get_device_def)
  then have oty: "device_types r i = Some (dc_device_type old)" by (simp add: device_types_def)
  have ex: "indexed.exact (hm_get (dr_type_index r)) (device_types r)"
    using assms(1) by (simp add: registry_inv_def registry_index_exact_def)
  have r': "dr_templates ?r' = dr_templates r" "device_types ?r' = (device_types r)(i \<mapsto> ?ty)"
    "dr_type_index ?r' = (if dc_device_type old = ?ty then dr_type_index r
      else change_index (push_id i) ?ty (change_index (retain_id i) (dc_device_type old) (dr_type_index r)))"
    using False old by (auto simp: dr_update_device_def Let_def device_types_def fun_eq_iff)
  have "indexed.exact (hm_get (dr_type_index ?r')) ((device_types r)(i \<mapsto> ?ty))"
  proof (cases "dc_device_type old = ?ty")
    case True
    with ex r'(3) oty type_kept [of r i ?ty] show ?thesis by simp
  next
    case False
    from indexed.exact_move [OF ex _ oty False] False show ?thesis
      by (simp add: r'(3) fun_upd_other del: fun_upd_apply)
  qed
  with False r' show ?thesis by (intro device_written_inv [OF assms(1)]) (auto simp: dr_get_template_def)
qed

lemma seen_types [simp]:
  "device_types (dr_update_last_seen env i ts r) = device_types r"
  "dr_templates (dr_update_last_seen env i ts r) = dr_templates r" "dr_type_index (dr_update_last_seen env i ts r) = dr_type_index r"
  by (auto simp: dr_update_last_seen_def Let_def device_types_def fun_eq_iff split: option.splits)

lemma reachable_registry_inv: "dev_registry_reachable env r \<Longrightarrow> registry_inv r"
proof (induction rule: dev_registry_reachable.induct)
  case (fresh storage b)
  show ?case using indexed.exact_empty
    by (simp add: registry_inv_def registry_index_exact_def templates_present_def dr_new_def device_types_def [abs_def])
next
  case (step r x)
  have "registry_inv (snd (find_device_by_telemetry_topic env topic r))" for topic
    using step.IH registry_inv_cong [of "snd (find_device_by_telemetry_topic env topic r)" r] by (simp add: device_types_def [abs_def])
  moreover have "registry_inv (dr_set_auto_save b r)" for b
    using step.IH registry_inv_cong [of "dr_set_auto_save b r" r] by (simp add: dr_set_auto_save_def device_types_def [abs_def])
  moreover have "registry_inv (dr_update_last_seen env i ts r)" for i ts
    using step.IH registry_inv_cong [of "dr_update_last_seen env i ts r" r] by simp
  moreover have "registry_inv (snd (dr_update_device env i d r))" if "x = UpdateDevice i d" for i d
    using update_device_inv [OF step.IH] step.hyps(2) [OF that] .
  ultimately show ?case
    using step.IH register_template_inv unregister_template_inv register_device_inv unregister_device_inv by (cases x) simp_all
qed

text \<open>The registry knows its devices by type: in every state that operations on a new registry can lead to, in
  which only registered devices were updated, the listing of a type has each registered device of that
  type once and no other, and the type of every registered device has a template.\<close>

lemma registry_lists_type:
  assumes "dev_registry_reachable env r"
  shows "set (dr_list_devices_by_type ty r) = {d. d \<in> ran (\<lambda>i. dr_get_device i r) \<and> dc_device_type d = ty}
    \<and> length (dr_list_devices_by_type ty r) = card {i. map_option dc_device_type (dr_get_device i r) = Some ty}
    \<and> (\<forall>i d. dr_get_device i r = Some d \<longrightarrow> dr_get_template (dc_device_type d) r \<noteq> None)"
proof -
  have inv: "registry_inv r" using reachable_registry_inv [OF assms] .
  then have ex: "indexed.exact (hm_get (dr_type_index r)) (\<lambda>i. map_option dc_device_type (dr_get_device i r))"
    by (simp add: registry_inv_def registry_index_exact_def device_types_def [abs_def] dr_get_device_def)
  have "dr_list_devices_by_type ty r = List.map_filter (\<lambda>i. dr_get_device i r) (ids_of (hm_get (dr_type_index r) ty))"
    by (simp add: dr_list_devices_by_type_def dr_get_device_def)
  moreover have "dr_get_template (dc_device_type d) r \<noteq> None" if "dr_get_device i r = Some d" for i d
    using inv that by (auto simp: registry_inv_def templates_present_def device_types_def dr_get_device_def dr_get_template_def)
  ultimately show ?thesis using indexed.exact_listing [OF ex, of ty] by metis
qed

section \<open>Loading\<close>

lemma load_template_simps [simp]:
  "dr_devices (fold load_template ts r) = dr_devices r" "dr_type_index (fold load_template ts r) = dr_type_index r"
  "dr_storage (fold load_template ts r) = dr_storage r"
  by (induction ts arbitrary: r) (simp_all add: load_template_def Let_def)

lemma load_device_ids:
  "ids_of (hm_get (dr_type_index (fold load_device ds r)) ty) =
   ids_of (hm_get (dr_type_index r) ty) @ map dc_device_id (filter (\<lambda>d. dc_device_type d = ty) ds)"
proof (induction ds arbitrary: r)
  case (Cons d ds)
  then show ?case by (simp add: load_device_def Let_def config_with_def push_id_def ids_of_def)
qed simp

lemma load_device_known:
  "dr_get_device i (fold load_device ds r) \<noteq> None \<longleftrightarrow> dr_get_device i r \<noteq> None \<or> i \<in> dc_device_id ` set ds"
proof (induction ds arbitrary: r)
  case (Cons d ds)
  have "dr_get_device i (load_device d r) \<noteq> None \<longleftrightarrow> dr_get_device i r \<noteq> None \<or> i = dc_device_id d"
    by (simp add: load_device_def Let_def config_with_def dr_get_device_def)
  with Cons [of "load_device d r"] show ?case by auto
qed simp

lemma fold_saved_simps [simp]:
  "dr_devices (fold (\<lambda>i. saved_to (f i)) is' r) = dr_devices r" "dr_type_index (fold (\<lambda>i. saved_to (f i)) is' r) = dr_type_index r"
  by (induction is' arbitrary: r) simp_all

lemma saved_to_storage: "dr_storage r1 = dr_storage r2 \<Longrightarrow> dr_storage (saved_to w r1) = dr_storage (saved_to w r2)"
  by (simp add: saved_to_def split: option.splits sum.splits)

lemma fold_saved_storage:
  "dr_storage r1 = dr_storage r2 \<Longrightarrow> dr_storage (fold (\<lambda>i. saved_to (f i)) is' r1) = dr_storage (fold (\<lambda>i. saved_to (f i)) is' r2)"
proof (induction is' arbitrary: r1 r2)
  case (Cons i is')
  from Cons.IH [OF saved_to_storage [OF Cons.prems]] show ?case by simp
qed simp

lemma load_result:
  assumes "dr_load_from_storage env r = (Inr (), r')"
  obtains db ds where "dr_storage r = Some db" and "dst_list_devices (de_redb env) (de_codec env) db = Inr ds"
    and "\<And>ty. ids_of (hm_get (dr_type_index r') ty) = ids_of (hm_get (dr_type_index r) ty) @ map dc_device_id (filter (\<lambda>d. dc_device_type d = ty) ds)"
    and "\<And>i. dr_get_device i r' \<noteq> None \<longleftrightarrow> dr_get_device i r \<noteq> None \<or> i \<in> dc_device_id ` set ds"
    and "dr_storage r' = dr_storage (fold (\<lambda>i. saved_to (dst_update_last_seen (de_redb env) (de_codec env) i 1))
      (map dc_device_id (filter (\<lambda>d. dc_last_seen d = 0) ds)) r)"
proof -
  have ld: "dr_storage (fold load_device ds r) = dr_storage r" for ds and r :: "'d device_registry"
    by (induction ds arbitrary: r) (simp_all add: load_device_def Let_def)
  obtain db where db: "dr_storage r = Some db"
    using assms by (cases "dr_storage r") (simp_all add: dr_load_from_storage_def)
  then obtain ts where ts: "dst_list_templates (de_redb env) (de_codec env) db = Inr ts"
    using assms by (cases "dst_list_templates (de_redb env) (de_codec env) db") (simp_all add: dr_load_from_storage_def)
  with db obtain ds where ds: "dst_list_devices (de_redb env) (de_codec env) db = Inr ds"
    using assms by (cases "dst_list_devices (de_redb env) (de_codec env) db") (simp_all add: dr_load_from_storage_def Let_def)
  with db ts have r': "r' = fold (\<lambda>i. saved_to (dst_update_last_seen (de_redb env) (de_codec env) i 1))
      (map dc_device_id (filter (\<lambda>d. dc_last_seen d = 0) ds)) (fold load_device ds (fold load_template ts r))"
    using assms by (simp add: dr_load_from_storage_def Let_def)
  show thesis
  proof (rule that [OF db ds])
    show "dr_storage r' = dr_storage (fold (\<lambda>i. saved_to (dst_update_last_seen (de_redb env) (de_codec env) i 1))
        (map dc_device_id (filter (\<lambda>d. dc_last_seen d = 0) ds)) r)"
      unfolding r' by (rule fold_saved_storage) (simp add: ld)
    show "ids_of (hm_get (dr_type_index r') ty) = ids_of (hm_get (dr_type_index r) ty) @ map dc_device_id (filter (\<lambda>d. dc_device_type d = ty) ds)" for ty
      using load_device_ids [of ds "fold load_template ts r"] by (simp add: r')
    show "dr_get_device i r' \<noteq> None \<longleftrightarrow> dr_get_device i r \<noteq> None \<or> i \<in> dc_device_id ` set ds" for i
      using load_device_known [of i ds "fold load_template ts r"] by (simp add: r' dr_get_device_def)
  qed
qed

lemma migration_keeps_types:
  assumes L: "redb_laws (de_redb env) c" and K: "device_codec_laws (de_codec env)" and "dr_storage r = Some db"
  shows "\<exists>db'. dr_storage (fold (\<lambda>i. saved_to (dst_update_last_seen (de_redb env) (de_codec env) i 1)) is' r) = Some db'
    \<and> stored_type (de_codec env) c db' = stored_type (de_codec env) c db"
  using assms(3)
proof (induction is' arbitrary: r db)
  case (Cons i is')
  let ?w = "dst_update_last_seen (de_redb env) (de_codec env) i 1"
  have "\<exists>db'. dr_storage (saved_to ?w r) = Some db' \<and> stored_type (de_codec env) c db' = stored_type (de_codec env) c db"
  proof (cases "?w db")
    case (Inr db')
    from update_last_seen_contents [OF L K this] obtain d where "stored_devices (de_codec env) c db i = Some d"
      "stored_devices (de_codec env) c db' = (stored_devices (de_codec env) c db)(i \<mapsto> d\<lparr>dc_last_seen := 1\<rparr>)" by metis
    then have "stored_type (de_codec env) c db' = stored_type (de_codec env) c db" by auto
    with Inr Cons.prems show ?thesis by (simp add: saved_to_def)
  qed (use Cons.prems in \<open>simp add: saved_to_def\<close>)
  then obtain db' where "dr_storage (saved_to ?w r) = Some db'" "stored_type (de_codec env) c db' = stored_type (de_codec env) c db" by blast
  with Cons.IH [OF this(1)] show ?case by simp
qed simp

lemma listed_count:
  assumes L: "redb_laws rd c" and "dst_list_devices rd cd db = Inr ds"
  shows "length (filter (\<lambda>d. dc_device_type d = ty) ds) = card {i. stored_type cd c db i = Some ty}"
proof -
  from assms(2) obtain t u kvs where rd: "begin_read rd db = Inr t" "open_read rd DEVICES_TABLE t = Inr u"
    "tbl_iter rd DEVICES_TABLE u = Inr (map Inr kvs)" and ds: "ds = List.map_filter (\<lambda>(_, v). ok (device_from_str cd v)) kvs"
    by (auto simp: dst_list_devices_def collect_results_Inr_iff)
  with redb_iter [OF L rd(3)] have "distinct (map fst kvs)" "map_of kvs = c db DEVICES_TABLE"
    by (simp_all add: redb_snapshots [OF L])
  from decoded_table(2) [OF this, of "\<lambda>d. dc_device_type d = ty"] show ?thesis by (auto simp: ds stored_devices_def)
qed

text \<open>Loading twice doubles the index: the server loads the registry when it opens it and again after seeding
  the built-in templates; if both loads succeed, the listing of every type has twice as many entries as there
  are stored devices of the type.\<close>

lemma second_load_doubles_listing:
  assumes "redb_laws (de_redb env) c" and "device_codec_laws (de_codec env)"
    and "dr_type_index r = []" and "dr_storage r = Some db"
    and "dr_load_from_storage env r = (Inr (), r')" and "dr_load_from_storage env r' = (Inr (), r'')"
  shows "length (dr_list_devices_by_type ty r') = card {i. stored_type (de_codec env) c db i = Some ty}
    \<and> length (dr_list_devices_by_type ty r'') = 2 * length (dr_list_devices_by_type ty r')"
proof -
  let ?cd = "de_codec env" and ?of_type = "filter (\<lambda>d. dc_device_type d = ty)"
  have ls: "dr_list_devices_by_type ty q = List.map_filter (\<lambda>i. dr_get_device i q) (ids_of (hm_get (dr_type_index q) ty))"
    for q :: "'d device_registry" by (simp add: dr_list_devices_by_type_def dr_get_device_def)
  obtain db0 ds where l: "dr_storage r = Some db0" "dst_list_devices (de_redb env) ?cd db0 = Inr ds"
    and ix0: "\<And>ty. ids_of (hm_get (dr_type_index r') ty) = ids_of (hm_get (dr_type_index r) ty) @ map dc_device_id (filter (\<lambda>d. dc_device_type d = ty) ds)"
    and kn: "\<And>i. dr_get_device i r' \<noteq> None \<longleftrightarrow> dr_get_device i r \<noteq> None \<or> i \<in> dc_device_id ` set ds"
    and st: "dr_storage r' = dr_storage (fold (\<lambda>i. saved_to (dst_update_last_seen (de_redb env) ?cd i 1))
      (map dc_device_id (filter (\<lambda>d. dc_last_seen d = 0) ds)) r)" by (rule load_result [OF assms(5)], rule that)
  have ds: "dst_list_devices (de_redb env) ?cd db = Inr ds"
    and ix: "ids_of (hm_get (dr_type_index r') ty) = map dc_device_id (?of_type ds)"
    using l ix0 [of ty] assms(3,4) by (simp_all add: ids_of_def)
  from migration_keeps_types [OF assms(1,2,4)] st obtain db' where db': "dr_storage r' = Some db'"
    "stored_type ?cd c db' = stored_type ?cd c db" by metis
  obtain db1 ds' where l': "dr_storage r' = Some db1" "dst_list_devices (de_redb env) ?cd db1 = Inr ds'"
    and ix1: "\<And>ty. ids_of (hm_get (dr_type_index r'') ty) = ids_of (hm_get (dr_type_index r') ty) @ map dc_device_id (filter (\<lambda>d. dc_device_type d = ty) ds')"
    and kn': "\<And>i. dr_get_device i r'' \<noteq> None \<longleftrightarrow> dr_get_device i r' \<noteq> None \<or> i \<in> dc_device_id ` set ds'"
    by (rule load_result [OF assms(6)], rule that)
  have ds': "dst_list_devices (de_redb env) ?cd db' = Inr ds'"
    and ix': "ids_of (hm_get (dr_type_index r'') ty) = map dc_device_id (?of_type ds) @ map dc_device_id (?of_type ds')"
    using l' ix1 [of ty] db'(1) ix by simp_all
  have "{i. stored_type ?cd c db' i = Some ty} = {i. stored_type ?cd c db i = Some ty}" using fun_cong [OF db'(2)] by metis
  then have "length (?of_type ds) = card {i. stored_type ?cd c db i = Some ty}" "length (?of_type ds') = card {i. stored_type ?cd c db i = Some ty}"
    using listed_count [OF assms(1) ds, of ty] listed_count [OF assms(1) ds', of ty] by simp_all
  moreover have "length (dr_list_devices_by_type ty r') = length (?of_type ds)"
    unfolding ls ix by (subst length_map_filter_all) (use kn in auto)
  moreover have "length (dr_list_devices_by_type ty r'') = length (?of_type ds) + length (?of_type ds')"
    unfolding ls ix' by (subst length_map_filter_all) (use kn kn' in auto)
  ultimately show ?thesis by simp
qed

section \<open>Lookup by topic\<close>

lemma scan_topic_result:
  assumes "set (de_iter env (dr_devices r)) = set (dr_devices r)" and "hm_wf (dr_devices r)" and "scan_topic env topic r = (res, r')"
  shows "case res of Some (i, d) \<Rightarrow> dr_get_device i r = Some d \<and> cn_telemetry_topic (dc_connection_config d) = Some topic
    | None \<Rightarrow> \<forall>i d. dr_get_device i r = Some d \<longrightarrow> cn_telemetry_topic (dc_connection_config d) \<noteq> Some topic"
proof (cases "find (\<lambda>(_, d). cn_telemetry_topic (dc_connection_config d) = Some topic) (de_iter env (dr_devices r))")
  case None
  with assms show ?thesis by (auto simp: scan_topic_def find_None_iff dr_get_device_def hm_get_Some_iff)
next
  case (Some x)
  obtain i d where x: "x = (i, d)" by fastforce
  from Some x have "(i, d) \<in> set (de_iter env (dr_devices r))" "cn_telemetry_topic (dc_connection_config d) = Some topic"
    by (auto simp: find_Some_iff in_set_conv_nth)
  moreover have "res = Some (i, d)" using assms(3) Some x by (simp add: scan_topic_def)
  ultimately show ?thesis using assms(1,2) by (simp add: dr_get_device_def hm_get_Some_iff)
qed

text \<open>Messages of a topic reach the device that has it now: a lookup by telemetry topic returns a registered
  device whose current topic is the one asked for, if there is any, and nothing otherwise, whatever stale
  entries the cache of topics holds; it changes no device.\<close>

lemma topic_lookup_correct:
  assumes "set (de_iter env (dr_devices r)) = set (dr_devices r)" and "hm_wf (dr_devices r)"
    and "find_device_by_telemetry_topic env topic r = (res, r')"
  shows "(case res of
        Some (i, d) \<Rightarrow> dr_get_device i r = Some d \<and> cn_telemetry_topic (dc_connection_config d) = Some topic
      | None \<Rightarrow> \<nexists>i d. dr_get_device i r = Some d \<and> cn_telemetry_topic (dc_connection_config d) = Some topic)
    \<and> dr_devices r' = dr_devices r"
proof -
  let ?stale = "r\<lparr>dr_topic_index := hm_remove topic (dr_topic_index r)\<rparr>"
  have dev: "dr_get_device i ?stale = dr_get_device i r" for i by (simp add: dr_get_device_def)
  have "dr_devices r' = dr_devices r" using find_topic_simps(1) [of env topic r] assms(3) by simp
  moreover consider i d where "res = Some (i, d)" "dr_get_device i r = Some d" "cn_telemetry_topic (dc_connection_config d) = Some topic"
    | "scan_topic env topic r = (res, r')" | "scan_topic env topic ?stale = (res, r')"
    using assms(3) by (auto simp: find_device_by_telemetry_topic_def Let_def dr_get_device_def split: option.splits if_splits)
  then have "case res of
        Some (i, d) \<Rightarrow> dr_get_device i r = Some d \<and> cn_telemetry_topic (dc_connection_config d) = Some topic
      | None \<Rightarrow> \<nexists>i d. dr_get_device i r = Some d \<and> cn_telemetry_topic (dc_connection_config d) = Some topic"
  proof cases
    case 2
    from scan_topic_result [OF assms(1,2) this] show ?thesis by (cases res) auto
  next
    case 3
    from scan_topic_result [OF _ _ this] assms(1,2) show ?thesis by (cases res) (auto simp: dev)
  qed simp
  ultimately show ?thesis by simp
qed

section \<open>Sightings\<close>

text \<open>Sightings that come often never reach the store: as long as each report of a device follows the previous
  one within fifteen seconds, the registry writes none of them to the store, however many there are, while
  its memory has the latest one; the store keeps the sighting from before the series.\<close>

lemma frequent_sightings_not_persisted:
  assumes "dr_get_device i r = Some d" and "0 \<notin> set (dc_last_seen d # ts)"
    and "successively (\<lambda>a b. b - a < 15) (dc_last_seen d # ts)"
  shows "dr_storage (fold (dr_update_last_seen env i) ts r) = dr_storage r
    \<and> map_option dc_last_seen (dr_get_device i (fold (dr_update_last_seen env i) ts r)) = Some (last (dc_last_seen d # ts))"
  using assms
proof (induction ts arbitrary: r d)
  case (Cons t ts)
  let ?r = "dr_update_last_seen env i t r" and ?d = "d\<lparr>dc_last_seen := t\<rparr>"
  have step: "dr_get_device i ?r = Some ?d" "dr_storage ?r = dr_storage r"
    using Cons.prems by (auto simp: dr_update_last_seen_def dr_get_device_def Let_def)
  from Cons.IH [OF step(1)] Cons.prems step(2) show ?case by auto
qed simp

section \<open>Templates across a restart\<close>

lemma load_template_get:
  assumes "st \<in> set ts" and "tp_device_type st = ty" and "\<forall>s \<in> set ts. tp_device_type s = ty \<longrightarrow> s = st"
  shows "dr_get_template ty (fold load_template ts r) = Some (template_from_storage st)"
  using assms
proof (induction ts arbitrary: r rule: rev_induct)
  case (snoc s ts)
  have ty: "tp_device_type (template_from_storage s) = tp_device_type s" by (simp add: template_from_storage_def Let_def)
  show ?case
  proof (cases "tp_device_type s = ty")
    case True
    with snoc.prems ty show ?thesis by (simp add: load_template_def Let_def dr_get_template_def)
  next
    case False
    then have "st \<in> set ts" using snoc.prems(1,2) by auto
    with snoc.IH [OF this snoc.prems(2)] snoc.prems(3)
    have "dr_get_template ty (fold load_template ts r) = Some (template_from_storage st)" by simp
    moreover have "dr_get_template ty (load_template s r') = dr_get_template ty r'" for r' :: "'a device_registry"
      using False ty by (simp add: load_template_def Let_def dr_get_template_def)
    ultimately show ?thesis by simp
  qed
qed simp

lemma load_keeps_templates:
  "dr_templates (fold load_device ds r) = dr_templates r" "dr_templates (fold (\<lambda>i. saved_to (f i)) is' r) = dr_templates r"
  by (induction ds arbitrary: r; simp add: load_device_def Let_def) (induction is' arbitrary: r; simp)

lemma loaded_template:
  assumes L: "redb_laws (de_redb env) c" and "dr_storage r = Some db" and "dr_load_from_storage env r = (Inr (), r')"
    and st: "stored_templates (de_codec env) c db ty = Some st" "tp_device_type st = ty"
    and keyed: "\<forall>k s. stored_templates (de_codec env) c db k = Some s \<and> tp_device_type s = ty \<longrightarrow> k = ty"
  shows "dr_get_template ty r' = Some (template_from_storage st)"
proof -
  obtain ts where ts: "dst_list_templates (de_redb env) (de_codec env) db = Inr ts"
    using assms(2,3) by (cases "dst_list_templates (de_redb env) (de_codec env) db") (simp_all add: dr_load_from_storage_def)
  then obtain ds where "dst_list_devices (de_redb env) (de_codec env) db = Inr ds"
    using assms(2,3) by (cases "dst_list_devices (de_redb env) (de_codec env) db") (simp_all add: dr_load_from_storage_def Let_def)
  with ts assms(2,3) have same: "dr_templates r' = dr_templates (fold load_template ts r)"
    by (auto simp: dr_load_from_storage_def Let_def load_keeps_templates)
  from ts obtain t u kvs where rd: "begin_read (de_redb env) db = Inr t" "open_read (de_redb env) TEMPLATES_TABLE t = Inr u"
    "tbl_iter (de_redb env) TEMPLATES_TABLE u = Inr (map Inr kvs)"
    and map: "ts = List.map_filter (\<lambda>(_, v). ok (template_from_str (de_codec env) v)) kvs"
    by (auto simp: dst_list_templates_def collect_results_Inr_iff)
  with redb_iter [OF L rd(3)] have "distinct (map fst kvs)" "map_of kvs = c db TEMPLATES_TABLE"
    by (simp_all add: redb_snapshots [OF L])
  from decoded_table(1) [OF this, of "\<lambda>v. ok (template_from_str (de_codec env) v)"] map
  have set: "set ts = ran (stored_templates (de_codec env) c db)" by (simp add: stored_templates_def [abs_def])
  then have "st \<in> set ts" using st(1) by (auto simp: ran_def)
  moreover have "\<forall>s \<in> set ts. tp_device_type s = ty \<longrightarrow> s = st"
  proof (intro ballI impI)
    fix s assume "s \<in> set ts" "tp_device_type s = ty"
    then obtain k where "stored_templates (de_codec env) c db k = Some s" unfolding set by (auto simp: ran_def)
    with keyed \<open>tp_device_type s = ty\<close> st(1) show "s = st" by (metis option.inject)
  qed
  ultimately have "dr_get_template ty (fold load_template ts r) = Some (template_from_storage st)"
    using load_template_get [OF _ st(2)] by blast
  with same show ?thesis by (simp add: dr_get_template_def)
qed

text \<open>C24. Templates across a restart: after a template was registered with auto-save and its save succeeded, a registry
  that loads from the same store has this very template exactly if none of its metrics and parameters has
  an array type and no default or allowed value of a parameter is an array or binary. The JSON text of the
  stored form must read back as that form (floats that are not finite do not), and no other entry of the
  store may claim the same type.\<close>

theorem template_round_trip_iff:
  assumes "redb_laws (de_redb env) c" and "reads_back (de_codec env) (template_to_storage t)"
    and "dr_auto_save r" and "dr_storage r = Some db" and "dr_register_template env t r = (Inr (), r1)"
    and "\<not> isl (dst_save_template (de_redb env) (de_codec env) (template_to_storage t) db)"
    and "\<forall>k s. stored_templates (de_codec env) c db k = Some s \<longrightarrow> tp_device_type s = k"
    and "dr_load_from_storage env (dr_new\<lparr>dr_storage := dr_storage r1\<rparr>) = (Inr (), r2)"
  shows "dr_get_template (tp_device_type t) r2 = Some t \<longleftrightarrow> storable_template t"
proof -
  let ?st = "template_to_storage t" and ?cd = "de_codec env"
  obtain db' where db': "dst_save_template (de_redb env) ?cd ?st db = Inr db'"
    using assms(6) by (cases "dst_save_template (de_redb env) ?cd ?st db") auto
  have r1: "dr_storage r1 = Some db'"
    using assms(3-5) db' by (auto simp: dr_register_template_def auto_saved_def saved_to_def split: sum.splits)
  have ty: "tp_device_type ?st = tp_device_type t" by (simp add: template_to_storage_def Let_def)
  have maps: "stored_templates ?cd c db' = (stored_templates ?cd c db)(tp_device_type t \<mapsto> ?st)"
    using save_template_contents(1) [OF assms(1) db' assms(2)] ty by simp
  have "dr_get_template (tp_device_type t) r2 = Some (template_from_storage ?st)"
    using assms(7) maps ty r1 by (intro loaded_template [OF assms(1) _ assms(8)]) (auto split: if_splits)
  then show ?thesis by (simp add: conversions_round_trip)
qed

definition lamp :: device_type_template where
  "lamp = template_new ''lamp'' ''Lamp''"

definition lamp_env :: "mem_db device_env" where
  "lamp_env = \<lparr>de_redb = mem_redb,
     de_codec = \<lparr>template_to_str = (\<lambda>_. Inr ''L''), template_from_str = (\<lambda>_. Inr (template_to_storage lamp)),
       device_to_str = (\<lambda>_. Inl ''unsupported''), device_from_str = (\<lambda>_. Inl ''unsupported'')\<rparr>,
     de_type_chars = (\<lambda>_. True), de_iter = id, de_iter_templates = id\<rparr>"

theorem template_round_trip_iff_witness:
  "\<exists>r1 r2. dr_register_template lamp_env lamp (dr_new\<lparr>dr_storage := Some [], dr_auto_save := True\<rparr>) = (Inr (), r1)
    \<and> dr_load_from_storage lamp_env (dr_new\<lparr>dr_storage := dr_storage r1\<rparr>) = (Inr (), r2)
    \<and> dr_get_template ''lamp'' r2 = Some lamp"
proof -
  let ?r = "dr_new\<lparr>dr_storage := Some [], dr_auto_save := True\<rparr> :: mem_db device_registry"
  obtain r1 where r1: "dr_register_template lamp_env lamp ?r = (Inr (), r1)" "dr_storage r1 = Some [((TEMPLATES_TABLE, ''lamp''), ''L'')]"
    by (simp add: dr_register_template_def validate_template_def lamp_def lamp_env_def template_new_def auto_saved_def saved_to_def
        dst_save_template_def mem_redb_def dr_new_def template_to_storage_def Let_def)
  obtain r2 where r2: "dr_load_from_storage lamp_env (dr_new\<lparr>dr_storage := dr_storage r1\<rparr>) = (Inr (), r2)"
    using r1(2) by (simp add: dr_load_from_storage_def dst_list_templates_def dst_list_devices_def lamp_env_def mem_redb_def
        mem_entries_def device_tables List.map_filter_simps AList.clearjunk.simps Let_def)
  have "dr_get_template (tp_device_type lamp) r2 = Some lamp \<longleftrightarrow> storable_template lamp"
    by (rule template_round_trip_iff [OF _ _ _ _ r1(1) _ _ r2, of mem_contents "[]"])
      (use mem_redb_laws in \<open>simp_all add: lamp_env_def reads_back_def lamp_def template_new_def dst_save_template_def mem_redb_def
        stored_templates_def mem_contents_def\<close>)
  with r1(1) r2 show ?thesis by (auto simp: lamp_def template_new_def storable_template_def)
qed

end
