(* ===== verification/Adapter.thy ===== *)
theory Adapter
  imports DeviceTypes
begin

text \<open>
  What device adapters share: their errors and events with the conversion to events of the bus
  (\<open>heramind-devices/src/adapter.rs\<close>), and the normalisation of time stamps that devices send
  (\<open>adapters/mqtt.rs\<close>, used by the MQTT and the webhook adapter).
\<close>

section \<open>Errors and events\<close>

datatype adapter_error =
    AeConfiguration string
  | AeConnection string
  | AeCommunication string
  | AeDeviceNotFound string
  | AeTimeout nat
  | AeStopped
  | AeOther string

fun show_adapter_error :: "adapter_error \<Rightarrow> string" where
  "show_adapter_error (AeConfiguration e) = ''Configuration error: '' @ e"
| "show_adapter_error (AeConnection e) = ''Connection error: '' @ e"
| "show_adapter_error (AeCommunication e) = ''Communication error: '' @ e"
| "show_adapter_error (AeDeviceNotFound e) = ''Device not found: '' @ e"
| "show_adapter_error (AeTimeout ms) = ''Operation timeout after '' @ show_nat ms @ ''ms''"
| "show_adapter_error AeStopped = ''Adapter is stopped''"
| "show_adapter_error (AeOther e) = ''Adapter error: '' @ e"

datatype connection_status = StDisconnected | StConnecting | StConnected | StReconnecting | StError

fun show_connection_status :: "connection_status \<Rightarrow> string" where
  "show_connection_status StDisconnected = ''disconnected''"
| "show_connection_status StConnecting = ''connecting''"
| "show_connection_status StConnected = ''connected''"
| "show_connection_status StReconnecting = ''reconnecting''"
| "show_connection_status StError = ''error''"

text \<open>The derived \<open>Debug\<close> form.\<close>

fun debug_connection_status :: "connection_status \<Rightarrow> string" where
  "debug_connection_status StDisconnected = ''Disconnected''"
| "debug_connection_status StConnecting = ''Connecting''"
| "debug_connection_status StConnected = ''Connected''"
| "debug_connection_status StReconnecting = ''Reconnecting''"
| "debug_connection_status StError = ''Error''"

record discovered_device_info =
  dd_device_id :: string
  dd_device_type :: string
  dd_name :: "string option"
  dd_endpoint :: "string option"
  dd_capabilities :: "string list"
  dd_timestamp :: int
  dd_metadata :: json

definition discovered_new :: "date_time \<Rightarrow> string \<Rightarrow> string \<Rightarrow> discovered_device_info" where
  "discovered_new now device_id device_type =
     \<lparr>dd_device_id = device_id, dd_device_type = device_type, dd_name = None, dd_endpoint = None, dd_capabilities = [],
      dd_timestamp = timestamp now, dd_metadata = JObject []\<rparr>"

datatype device_event =
    MetricEvent string string device_value int
  | StateEvent string connection_status connection_status int
  | DiscoveryEvent discovered_device_info
  | CommandResultEvent string string bool "string option" int

fun de_device_id :: "device_event \<Rightarrow> string option" where
  "de_device_id (MetricEvent device_id _ _ _) = Some device_id"
| "de_device_id (StateEvent device_id _ _ _) = Some device_id"
| "de_device_id (CommandResultEvent device_id _ _ _ _) = Some device_id"
| "de_device_id (DiscoveryEvent _) = None"

fun de_timestamp :: "device_event \<Rightarrow> int" where
  "de_timestamp (MetricEvent _ _ _ ts) = ts"
| "de_timestamp (StateEvent _ _ _ ts) = ts"
| "de_timestamp (CommandResultEvent _ _ _ _ ts) = ts"
| "de_timestamp (DiscoveryEvent device) = dd_timestamp device"

section \<open>Values on the bus\<close>

text \<open>Elements of an array that are not scalars become \<open>null\<close>, as does a float that is not finite.\<close>

fun scalar_json :: "device_value \<Rightarrow> json" where
  "scalar_json (DvInteger i) = JInt i"
| "scalar_json (DvFloat f) = json_of_f64 f"
| "scalar_json (DvString s) = JString s"
| "scalar_json (DvBoolean b) = JBool b"
| "scalar_json _ = JNull"

fun adapter_metric_value :: "(string \<Rightarrow> string) \<Rightarrow> device_value \<Rightarrow> metric_value" where
  "adapter_metric_value b64 (DvInteger v) = Integer v"
| "adapter_metric_value b64 (DvFloat v) = Float v"
| "adapter_metric_value b64 (DvString v) = String v"
| "adapter_metric_value b64 (DvBoolean v) = Boolean v"
| "adapter_metric_value b64 (DvArray xs) = Json (JArray (map scalar_json xs))"
| "adapter_metric_value b64 (DvBinary v) = String (b64 v)"
| "adapter_metric_value b64 DvNull = String ''null''"

definition json_field :: "string \<Rightarrow> json \<Rightarrow> json option" where
  "json_field k j = (case j of JObject m \<Rightarrow> hm_get m k | _ \<Rightarrow> None)"

definition to_heramind_event :: "(string \<Rightarrow> string) \<Rightarrow> device_event \<Rightarrow> heramind_event" where
  "to_heramind_event b64 e = (case e of
       MetricEvent device_id metric v ts \<Rightarrow> DeviceMetric device_id metric (adapter_metric_value b64 v) ts None None
     | StateEvent device_id _ new_state ts \<Rightarrow>
         (case new_state of
            StConnected \<Rightarrow> DeviceOnline device_id ''unknown'' ts
          | StDisconnected \<Rightarrow> DeviceOffline device_id (Some (debug_connection_status new_state)) ts
          | StError \<Rightarrow> DeviceOffline device_id (Some (debug_connection_status new_state)) ts
          | _ \<Rightarrow> DeviceOnline device_id ''unknown'' ts)
     | DiscoveryEvent d \<Rightarrow>
         DeviceDiscovered (dd_device_id d)
           (unwrap_or (Option.bind (json_field ''source'' (dd_metadata d)) read_string) ''unknown'')
           (Option.bind (json_field ''adapter_id'' (dd_metadata d)) read_string)
           (dd_metadata d)
           (unwrap_or (json_field ''sample'' (dd_metadata d)) JNull)
           (unwrap_or (Option.bind (json_field ''is_binary'' (dd_metadata d)) read_bool) False)
           (dd_timestamp d)
     | CommandResultEvent device_id command success result ts \<Rightarrow>
         DeviceCommandResult device_id command success (map_option JString result) ts)"

section \<open>Publishing adapter\<close>

text \<open>The source an event of an adapter is published under by \<open>EventPublishingAdapter\<close>.\<close>

definition event_source :: "device_event \<Rightarrow> string" where
  "event_source e = (case e of
       DiscoveryEvent d \<Rightarrow> ''adapter:discovery:'' @ dd_device_id d
     | _ \<Rightarrow> ''adapter:'' @ unwrap_or (de_device_id e) ''unknown'')"

section \<open>Time stamps of devices\<close>

text \<open>Division truncates towards zero; the arguments are positive.\<close>

definition normalize_epoch_seconds :: "date_time \<Rightarrow> int \<Rightarrow> int option" where
  "normalize_epoch_seconds now raw =
     Option.bind (if raw > 100000000000000000 then Some (raw div 1000000000)
                  else if raw > 100000000000 then Some (raw div 1000)
                  else if raw > 100000000 then Some raw
                  else None) (\<lambda>secs.
     if secs > timestamp now + 300 then None else Some secs)"

fun json_as_i64 :: "json \<Rightarrow> int option" where
  "json_as_i64 (JInt i) = (if - (2 ^ 63) \<le> i \<and> i < 2 ^ 63 then Some i else Some (f64_as_i64 (f64_of_int i)))"
| "json_as_i64 (JFloat f) = Some (f64_as_i64 f)"
| "json_as_i64 _ = None"

definition extract_client_timestamp :: "date_time \<Rightarrow> json \<Rightarrow> int option" where
  "extract_client_timestamp now j =
     Option.bind (case List.map_filter (\<lambda>f. Option.bind (json_field f j) json_as_i64) [''timestamp'', ''ts'', ''ts_ms'', ''ts_ns'', ''time''] of
         [] \<Rightarrow> None | raw # _ \<Rightarrow> Some raw) (normalize_epoch_seconds now)"

text \<open>A time stamp that is accepted is a plausible second, and a clock value in any of the three units is recognised as
  the second it denotes.\<close>

lemma normalize_epoch_bounds:
  "normalize_epoch_seconds now raw = Some s \<Longrightarrow> 0 < s \<and> 100000000 \<le> s \<and> s \<le> timestamp now + 300"
  by (auto simp: normalize_epoch_seconds_def split: if_splits)

lemma normalize_epoch_units:
  assumes "100000000 < s" and "s \<le> 100000000000" and "s \<le> timestamp now + 300"
  shows "normalize_epoch_seconds now s = Some s"
    and "0 \<le> ms \<Longrightarrow> ms < 1000 \<Longrightarrow> s < 100000000000 \<Longrightarrow> normalize_epoch_seconds now (s * 1000 + ms) = Some s"
    and "0 \<le> ns \<Longrightarrow> ns < 1000000000 \<Longrightarrow> normalize_epoch_seconds now (s * 1000000000 + ns) = Some s"
  using assms by (auto simp: normalize_epoch_seconds_def)

end
