(* ===== verification/Extractor.thy ===== *)
theory Extractor
  imports DeviceRegistry TextUtil
begin

text \<open>
  \<open>UnifiedExtractor\<close> of \<open>heramind-devices/src/unified_extractor.rs\<close>: metrics out of the JSON a device sends, by the
  paths its template defines, or by flattening all fields. JSON text is a parameter. Indexing a text outside its range
  panics in Rust, which is a result of its own here.
\<close>

section \<open>Types\<close>

record extraction_config =
  xc_store_raw :: bool
  xc_auto_extract :: bool
  xc_max_depth :: nat
  xc_include_arrays :: bool

definition extraction_config_default :: extraction_config where
  "extraction_config_default =
     \<lparr>xc_store_raw = True, xc_auto_extract = True, xc_max_depth = 10, xc_include_arrays = False\<rparr>"

record extracted_metric =
  xm_name :: string
  xm_value :: device_value
  xm_source_path :: string

datatype extraction_mode = TemplateDriven | AutoExtract | RawOnly | NoData

record extraction_result =
  xr_raw_stored :: bool
  xr_metrics :: "extracted_metric list"
  xr_mode :: extraction_mode
  xr_warnings :: "string list"

definition SYSTEM_PASS_THROUGH_KEYS :: "string list" where
  "SYSTEM_PASS_THROUGH_KEYS = [''__webhook_image'']"

section \<open>Paths\<close>

text \<open>A plain step: a missing key, an index out of range or a value without parts gives \<open>null\<close>. An index is a
  \<open>usize\<close>, which has 64 bits.\<close>

definition plain_step :: "string \<Rightarrow> json \<Rightarrow> json" where
  "plain_step part current = (case current of
       JObject m \<Rightarrow> unwrap_or (hm_get m part) JNull
     | JArray xs \<Rightarrow> (case parse_u64 part of Some n \<Rightarrow> if n < length xs then xs ! n else JNull | None \<Rightarrow> JNull)
     | _ \<Rightarrow> JNull)"

text \<open>A step with an index in brackets, at position \<open>i\<close> of the path.\<close>

definition bracket_step :: "nat \<Rightarrow> string \<Rightarrow> string \<Rightarrow> json \<Rightarrow> (string, json option) rust_result" where
  "bracket_step i key index_str current =
     and_then (if key = [] then Inr (Some current)
               else case current of
                 JObject m \<Rightarrow> and_then (ok_or (''Key '' @ [CHR 0x27] @ key @ [CHR 0x27] @ '' not found at part '' @ show_nat i)
                               (hm_get m key)) (\<lambda>v. Inr (Some v))
               | _ \<Rightarrow> Inr None) (\<lambda>current.
     case current of
       None \<Rightarrow> Inr None
     | Some v \<Rightarrow>
         and_then (ok_or (''Invalid array index: '' @ index_str) (parse_u64 index_str)) (\<lambda>index.
         case v of
           JArray xs \<Rightarrow> Inr (if index < length xs then Some (xs ! index) else None)
         | _ \<Rightarrow> Inr None))"

fun descend :: "nat \<Rightarrow> string list \<Rightarrow> json \<Rightarrow> (string, json option) rust_result call" where
  "descend i [] current = Returns (Inr (Some current))"
| "descend i (p # ps) current =
     (let part = str_trim p
      in if part = [] \<or> part = ''$'' then descend (Suc i) ps current
         else case (str_find (CHR ''['') part, str_find (CHR '']'') part) of
           (Some a, Some b) \<Rightarrow>
             if b < Suc a then Panics
             else (case bracket_step i (take a part) (take (b - Suc a) (drop (Suc a) part)) current of
                     Inr (Some v) \<Rightarrow> descend (Suc i) ps v
                   | r \<Rightarrow> Returns r)
         | _ \<Rightarrow> descend (Suc i) ps (plain_step part current))"

definition extract_by_path :: "extraction_config \<Rightarrow> json \<Rightarrow> string \<Rightarrow> nat \<Rightarrow> (string, json option) rust_result call" where
  "extract_by_path xc data path depth =
     (let trimmed_path = str_trim path; parts = split_on (CHR ''.'') path;
          actual_depth = length (filter (\<lambda>p. str_trim p \<noteq> [] \<and> p \<noteq> ''$'') parts)
      in if trimmed_path = [] then Returns (Inr None)
         else if trimmed_path = ''$'' then Returns (Inr (Some data))
         else if last trimmed_path = CHR ''.'' then Returns (Inr None)
         else if depth > xc_max_depth xc then Returns (Inl (''Max depth exceeded: '' @ show_nat (xc_max_depth xc)))
         else if list_all (\<lambda>p. p = []) parts then Returns (Inr None)
         else if actual_depth > xc_max_depth xc then
           Returns (Inl (''Max depth '' @ show_nat (xc_max_depth xc) @ '' exceeded: path has '' @ show_nat actual_depth @ '' levels''))
         else descend 0 parts data)"

section \<open>Values and flattening\<close>

definition value_to_metric_value :: "(json \<Rightarrow> string) \<Rightarrow> json \<Rightarrow> device_value" where
  "value_to_metric_value to_text v = (case v of
       JInt i \<Rightarrow> if - (2 ^ 63) \<le> i \<and> i < 2 ^ 63 then DvInteger i else DvFloat (f64_of_int i)
     | JFloat f \<Rightarrow> DvFloat f
     | JString s \<Rightarrow> DvString s
     | JBool b \<Rightarrow> DvBoolean b
     | JNull \<Rightarrow> DvNull
     | JArray xs \<Rightarrow> DvString (to_text v)
     | JObject m \<Rightarrow> DvString (to_text v))"

definition auto_metric :: "(json \<Rightarrow> string) \<Rightarrow> string \<Rightarrow> json \<Rightarrow> extracted_metric" where
  "auto_metric to_text path v =
     \<lparr>xm_name = path, xm_value = value_to_metric_value to_text v, xm_source_path = ''$.'' @ path\<rparr>"

text \<open>The branches of the code for objects that have only objects, only scalars, or both differ in their log text
  only, as do those for small and large arrays.\<close>

fun auto_extract_recursive :: "extraction_config \<Rightarrow> (json \<Rightarrow> string) \<Rightarrow> json \<Rightarrow> string \<Rightarrow> nat \<Rightarrow> extracted_metric list"
  and auto_extract_fields :: "extraction_config \<Rightarrow> (json \<Rightarrow> string) \<Rightarrow> (string \<times> json) list \<Rightarrow> string \<Rightarrow> nat \<Rightarrow> extracted_metric list" where
  "auto_extract_recursive xc to_text data parent_path depth =
     (if depth > xc_max_depth xc then []
      else case data of JObject m \<Rightarrow> auto_extract_fields xc to_text m parent_path depth | _ \<Rightarrow> [])"
| "auto_extract_fields xc to_text [] parent_path depth = []"
| "auto_extract_fields xc to_text ((raw_key, v) # rest) parent_path depth =
     (let key = str_trim raw_key; current_path = (if parent_path = [] then key else parent_path @ ''.'' @ key)
      in (if key = [] \<or> key = ''_raw'' then []
          else case v of
            JObject m \<Rightarrow> if m = [] then [] else auto_extract_recursive xc to_text v current_path (Suc depth)
          | _ \<Rightarrow> [auto_metric to_text current_path v])
         @ auto_extract_fields xc to_text rest parent_path depth)"

definition auto_extract :: "extraction_config \<Rightarrow> (json \<Rightarrow> string) \<Rightarrow> json \<Rightarrow> extracted_metric list" where
  "auto_extract xc to_text data = auto_extract_recursive xc to_text data [] 0"

section \<open>Extraction\<close>

definition path_metric :: "(json \<Rightarrow> string) \<Rightarrow> string \<Rightarrow> json \<Rightarrow> extracted_metric" where
  "path_metric to_text path v = \<lparr>xm_name = path, xm_value = value_to_metric_value to_text v, xm_source_path = path\<rparr>"

fun system_metrics :: "extraction_config \<Rightarrow> (json \<Rightarrow> string) \<Rightarrow> json \<Rightarrow> string list \<Rightarrow> extracted_metric list call" where
  "system_metrics xc to_text raw [] = Returns []"
| "system_metrics xc to_text raw (k # ks) =
     call_then (extract_by_path xc raw k 0) (\<lambda>r.
     call_then (system_metrics xc to_text raw ks) (\<lambda>ms.
     Returns ((case r of Inr (Some v) \<Rightarrow> if v = JNull then [] else [path_metric to_text k v] | _ \<Rightarrow> []) @ ms)))"

fun template_metrics ::
    "extraction_config \<Rightarrow> (json \<Rightarrow> string) \<Rightarrow> json \<Rightarrow> mdl_data_type metric_definition list
      \<Rightarrow> (extracted_metric list \<times> string list) call" where
  "template_metrics xc to_text raw [] = Returns ([], [])"
| "template_metrics xc to_text raw (d # ds) =
     call_then (extract_by_path xc raw (md_name d) 0) (\<lambda>r.
     call_then (template_metrics xc to_text raw ds) (\<lambda>(ms, ws).
     Returns (case r of
         Inr (Some v) \<Rightarrow> (path_metric to_text (md_name d) v # ms, ws)
       | Inr None \<Rightarrow> (ms, ws)
       | Inl e \<Rightarrow> (ms, (md_name d @ '': '' @ e) # ws))))"

definition ux_extract ::
    "extraction_config \<Rightarrow> (json \<Rightarrow> string) \<Rightarrow> 'd device_registry \<Rightarrow> string \<Rightarrow> json \<Rightarrow> extraction_result call" where
  "ux_extract xc to_text reg device_type raw =
     call_then (system_metrics xc to_text raw SYSTEM_PASS_THROUGH_KEYS) (\<lambda>sys.
     let template = dr_get_template device_type reg;
         store_raw = unwrap_or (Option.bind template tp_store_raw) (xc_store_raw xc);
         metrics = sys @ (if store_raw
           then [\<lparr>xm_name = ''_raw'', xm_value = value_to_metric_value to_text raw, xm_source_path = ''$''\<rparr>] else []);
         auto = (metrics @ auto_extract xc to_text raw, [], AutoExtract)
     in call_then (case template of
            Some t \<Rightarrow>
              if tp_metrics t \<noteq> [] then
                call_then (template_metrics xc to_text raw (tp_metrics t)) (\<lambda>(ms, ws). Returns (metrics @ ms, ws, TemplateDriven))
              else Returns auto
          | None \<Rightarrow> Returns (if xc_auto_extract xc then auto else (metrics, [], RawOnly))) (\<lambda>(ms, ws, mode).
        Returns \<lparr>xr_raw_stored = store_raw, xr_metrics = ms, xr_mode = mode, xr_warnings = ws\<rparr>))"

section \<open>Fields of a document\<close>

text \<open>The reference: the paths of a document to its values that are not objects, through at most \<open>n\<close> levels of objects.\<close>

fun leaves :: "nat \<Rightarrow> json \<Rightarrow> (string list \<times> json) list"
  and field_leaves :: "nat \<Rightarrow> (string \<times> json) list \<Rightarrow> (string list \<times> json) list" where
  "leaves n v = (case v of JObject m \<Rightarrow> (case n of 0 \<Rightarrow> [] | Suc n' \<Rightarrow> field_leaves n' m) | _ \<Rightarrow> [([], v)])"
| "field_leaves n [] = []"
| "field_leaves n ((k, v) # rest) = map (\<lambda>(ks, w). (k # ks, w)) (leaves n v) @ field_leaves n rest"

declare leaves.simps [simp del]

lemma leaves_simps [simp]:
  "leaves 0 (JObject m) = []" "leaves (Suc n) (JObject m) = field_leaves n m"
  "\<not> is_object v \<Longrightarrow> leaves n v = [([], v)]"
  by (auto simp: leaves.simps [of _ v] leaves.simps [of _ "JObject m"] split: json.splits)

lemma leaves_numeral: "leaves (numeral n) (JObject m) = field_leaves (pred_numeral n) m"
  by (simp add: numeral_eq_Suc)

text \<open>Documents whose keys are not changed by trimming and have none of the characters that paths give a meaning to.\<close>

definition tame_key :: "string \<Rightarrow> bool" where
  "tame_key k \<longleftrightarrow> trimmed k \<and> k \<noteq> [] \<and> k \<noteq> ''$'' \<and> k \<noteq> ''_raw'' \<and> CHR ''.'' \<notin> set k \<and> CHR ''['' \<notin> set k"

fun tame :: "json \<Rightarrow> bool" and tame_fields :: "(string \<times> json) list \<Rightarrow> bool" where
  "tame v = (case v of JObject m \<Rightarrow> distinct (map fst m) \<and> tame_fields m | _ \<Rightarrow> True)"
| "tame_fields [] = True"
| "tame_fields ((k, v) # rest) = (tame_key k \<and> tame v \<and> tame_fields rest)"

declare tame.simps [simp del]

lemma tame_simps [simp]: "tame (JObject m) \<longleftrightarrow> distinct (map fst m) \<and> tame_fields m" "\<not> is_object v \<Longrightarrow> tame v"
  by (auto simp: tame.simps [of v] tame.simps [of "JObject m"] split: json.splits)

lemma tame_fields_get: "tame_fields m \<Longrightarrow> hm_get m k = Some v \<Longrightarrow> tame_key k \<and> tame v"
  by (induction m) (auto split: if_splits)

lemma json_at_tame: "tame j \<Longrightarrow> json_at ks j = Some v \<Longrightarrow> list_all tame_key ks"
proof (induction ks arbitrary: j)
  case (Cons k ks)
  then obtain m where "j = JObject m" by (cases j) auto
  with Cons show ?case by (auto simp: bind_eq_Some_conv dest: tame_fields_get)
qed simp

lemma json_at_non_object: "\<not> is_object v \<Longrightarrow> json_at ks v = Some w \<longleftrightarrow> ks = [] \<and> w = v"
  by (cases ks; cases v) auto

lemma under_key_iff: "(ks, w) \<in> set (map (\<lambda>(ks, w). (k # ks, w)) xs) \<longleftrightarrow> (\<exists>ks'. ks = k # ks' \<and> (ks', w) \<in> set xs)"
  by force

lemma under_key_fst: "map fst (map (\<lambda>(ks, w). (k # ks, w)) xs) = map ((#) k) (map fst xs)"
  by (induction xs) auto

lemma field_leaves_iff:
  assumes "\<And>v ks w. v \<in> snd ` set m \<Longrightarrow> (ks, w) \<in> set (leaves n v) \<longleftrightarrow> P v ks w" and "distinct (map fst m)"
  shows "(ks, w) \<in> set (field_leaves n m) \<longleftrightarrow> (\<exists>k ks' v. ks = k # ks' \<and> hm_get m k = Some v \<and> P v ks' w)"
  using assms
proof (induction m)
  case (Cons kv m)
  obtain k v where kv: "kv = (k, v)" by (cases kv)
  have "k \<notin> fst ` set m" using Cons.prems(2) kv by simp
  then have new: "hm_get m k = None" by (simp add: hm_get_None_iff)
  have v: "(ks', w) \<in> set (leaves n v) \<longleftrightarrow> P v ks' w" for ks' using Cons.prems(1) kv by simp
  have "(ks, w) \<in> set (field_leaves n (kv # m)) \<longleftrightarrow> (\<exists>ks'. ks = k # ks' \<and> P v ks' w) \<or> (ks, w) \<in> set (field_leaves n m)"
    using v kv by (simp add: under_key_iff del: set_map)
  also have "(ks, w) \<in> set (field_leaves n m) \<longleftrightarrow> (\<exists>k ks' v. ks = k # ks' \<and> hm_get m k = Some v \<and> P v ks' w)"
    using Cons.IH Cons.prems by simp
  finally show ?case by (cases ks) (auto simp: kv new)
qed simp

lemma leaves_iff:
  "tame v \<Longrightarrow> (ks, w) \<in> set (leaves n v) \<longleftrightarrow> json_at ks v = Some w \<and> \<not> is_object w \<and> length ks \<le> n"
proof (induction n arbitrary: v ks w)
  case 0
  then show ?case by (cases "is_object v"; cases v; cases ks) auto
next
  case (Suc n)
  show ?case
  proof (cases "is_object v")
    case True
    then obtain m where JObject: "v = JObject m" by (cases v) auto
    have "v' \<in> snd ` set m \<Longrightarrow> tame v'" for v' using Suc.prems JObject tame_fields_get [of m] by (auto simp: hm_get_Some_iff)
    from field_leaves_iff [OF Suc.IH [OF this]] Suc.prems JObject show ?thesis by (cases ks) (auto simp: bind_eq_Some_conv)
  qed (auto simp: json_at_non_object)
qed

lemma field_leaves_keys: "(ks, w) \<in> set (field_leaves n m) \<Longrightarrow> ks \<noteq> [] \<and> hd ks \<in> fst ` set m"
  by (induction m) auto

lemma field_leaves_distinct:
  "(\<And>v. v \<in> snd ` set m \<Longrightarrow> distinct (map fst (leaves n v))) \<Longrightarrow> distinct (map fst m) \<Longrightarrow> distinct (map fst (field_leaves n m))"
proof (induction m)
  case (Cons kv m)
  obtain k v where kv: "kv = (k, v)" by (cases kv)
  have "distinct (map ((#) k) (map fst (leaves n v)))" using Cons.prems(1) [of v] kv by (simp add: distinct_map inj_on_def)
  moreover have "set (map ((#) k) (map fst (leaves n v))) \<inter> set (map fst (field_leaves n m)) = {}"
    using Cons.prems(2) kv by (fastforce simp: image_iff dest!: field_leaves_keys)
  ultimately show ?case using Cons kv by (simp add: under_key_fst del: map_map set_map)
qed simp

lemma leaves_distinct: "tame v \<Longrightarrow> distinct (map fst (leaves n v))"
proof (induction n arbitrary: v)
  case 0
  then show ?case by (cases "is_object v"; cases v) auto
next
  case (Suc n)
  show ?case
  proof (cases "is_object v")
    case True
    then obtain m where m: "v = JObject m" by (cases v) auto
    then have "v' \<in> snd ` set m \<Longrightarrow> tame v'" for v' using Suc.prems tame_fields_get [of m] by (auto simp: hm_get_Some_iff)
    with Suc m field_leaves_distinct [of m n] show ?thesis by simp
  qed simp
qed

section \<open>Automatic extraction and lookup by path\<close>

lemma join_snoc: "ps \<noteq> [] \<Longrightarrow> join sep (ps @ [k]) = join sep ps @ sep @ k"
  by (induction sep ps rule: join.induct) auto

lemma join_tame_nonempty: "list_all tame_key ps \<Longrightarrow> join ''.'' ps = [] \<longleftrightarrow> ps = []"
  by (cases "(''.'', ps)" rule: join.cases) (auto simp: tame_key_def)

lemma auto_extract_fields_leaves:
  assumes "tame_fields m" and "depth \<le> xc_max_depth xc" and "list_all tame_key ps"
    and "\<And>v ps. tame v \<Longrightarrow> list_all tame_key ps \<Longrightarrow> ps \<noteq> [] \<Longrightarrow> is_object v \<Longrightarrow>
      auto_extract_recursive xc to_text v (join ''.'' ps) (Suc depth)
        = map (\<lambda>(ks, w). auto_metric to_text (join ''.'' (ps @ ks)) w) (leaves (xc_max_depth xc - depth) v)"
  shows "auto_extract_fields xc to_text m (join ''.'' ps) depth
    = map (\<lambda>(ks, w). auto_metric to_text (join ''.'' (ps @ ks)) w) (field_leaves (xc_max_depth xc - depth) m)"
  using assms(1)
proof (induction m)
  case (Cons kv m)
  obtain k v where kv: "kv = (k, v)" by (cases kv)
  have k: "tame_key k" "tame v" using Cons.prems kv by auto
  have path: "(if join ''.'' ps = [] then k else join ''.'' ps @ ''.'' @ k) = join ''.'' (ps @ [k])"
    using assms(3) by (simp add: join_tame_nonempty join_snoc)
  have same: "str_trim k = k" "k \<noteq> []" "k \<noteq> ''_raw''" using k(1) by (auto simp: tame_key_def str_trim_id)
  have first: "auto_extract_fields xc to_text (kv # m) (join ''.'' ps) depth
      = (case v of JObject fs \<Rightarrow> if fs = [] then [] else auto_extract_recursive xc to_text v (join ''.'' (ps @ [k])) (Suc depth)
          | _ \<Rightarrow> [auto_metric to_text (join ''.'' (ps @ [k])) v]) @ auto_extract_fields xc to_text m (join ''.'' ps) depth"
    unfolding kv auto_extract_fields.simps Let_def same path using same by (simp only: simp_thms if_False)
  have "(case v of JObject fs \<Rightarrow> if fs = [] then [] else auto_extract_recursive xc to_text v (join ''.'' (ps @ [k])) (Suc depth)
          | _ \<Rightarrow> [auto_metric to_text (join ''.'' (ps @ [k])) v])
      = map (\<lambda>(ks, w). auto_metric to_text (join ''.'' (ps @ [k] @ ks)) w) (leaves (xc_max_depth xc - depth) v)"
  proof (cases "is_object v")
    case True
    then obtain fs where fs: "v = JObject fs" by (cases v) auto
    show ?thesis
    proof (cases "fs = []")
      case True
      then show ?thesis using fs by (cases "xc_max_depth xc - depth") auto
    qed (use assms(3) assms(4) [of v "ps @ [k]"] k fs in \<open>simp del: auto_extract_recursive.simps\<close>)
  qed (cases v; simp)
  then show ?case using first Cons kv by (simp add: case_prod_unfold comp_def del: auto_extract_recursive.simps)
qed simp

lemma auto_extract_leaves:
  "tame v \<Longrightarrow> list_all tame_key ps \<Longrightarrow> is_object v \<Longrightarrow> auto_extract_recursive xc to_text v (join ''.'' ps) depth
    = map (\<lambda>(ks, w). auto_metric to_text (join ''.'' (ps @ ks)) w) (leaves (Suc (xc_max_depth xc) - depth) v)"
proof (induction "Suc (xc_max_depth xc) - depth" arbitrary: v ps depth)
  case 0
  then show ?case by (cases v) auto
next
  case (Suc n)
  then obtain m where m: "v = JObject m" by (cases v) auto
  have "Suc (xc_max_depth xc) - depth = Suc (xc_max_depth xc - depth)" using Suc.hyps(2) by simp
  with auto_extract_fields_leaves [of m depth xc ps to_text] Suc m show ?case by simp
qed

lemma prefix_before_sep: "c \<notin> set w \<Longrightarrow> prefix w (k @ c # r) \<longleftrightarrow> prefix w k"
proof (induction w arbitrary: k)
  case (Cons x w)
  then show ?case by (cases k) auto
qed simp

lemma suffix_after_sep: "c \<notin> set w \<Longrightarrow> suffix w (r @ c # k) \<longleftrightarrow> suffix w k"
  using prefix_before_sep [of c "rev w" "rev k" "rev r"] by (simp add: suffix_to_prefix)

lemma white_space_no_dot: "w \<in> set white_space \<Longrightarrow> CHR ''.'' \<notin> set w"
  unfolding white_space_def by (simp, elim disjE; simp)

lemma trimmed_join:
  assumes "list_all tame_key ks" and "ks \<noteq> []"
  shows "trimmed (join ''.'' ks)"
proof -
  have t: "\<And>k. k \<in> set ks \<Longrightarrow> trimmed k" using assms(1) by (simp add: list_all_iff tame_key_def)
  obtain k ts where "ks = k # ts" using assms(2) by (cases ks) auto
  then have "prefix w (join ''.'' ks) \<longleftrightarrow> prefix w k" if "w \<in> set white_space" for w
    using prefix_before_sep [OF white_space_no_dot [OF that]] by (cases ts) (auto simp: join_Cons)
  moreover obtain ps l where "ks = ps @ [l]" using assms(2) by (cases ks rule: rev_cases) auto
  then have "suffix w (join ''.'' ks) \<longleftrightarrow> suffix w l" if "w \<in> set white_space" for w
    using suffix_after_sep [OF white_space_no_dot [OF that]] by (cases "ps = []") (auto simp: join_snoc)
  ultimately show ?thesis using t [of k] t [of l] \<open>ks = k # ts\<close> \<open>ks = ps @ [l]\<close> by (metis in_set_conv_decomp list.set_intros(1) trimmed_def)
qed

lemma join_tame_last: "list_all tame_key ks \<Longrightarrow> ks \<noteq> [] \<Longrightarrow> last (join ''.'' ks) \<noteq> CHR ''.''"
proof -
  assume ks: "list_all tame_key ks" "ks \<noteq> []"
  then obtain ps l where l: "ks = ps @ [l]" by (cases ks rule: rev_cases) auto
  with ks have "l \<noteq> []" "last l \<noteq> CHR ''.''" by (auto simp: tame_key_def dest: last_in_set)
  with l show ?thesis by (cases "ps = []") (auto simp: join_snoc)
qed

lemma join_tame_root: "list_all tame_key ks \<Longrightarrow> ks \<noteq> [] \<Longrightarrow> join ''.'' ks \<noteq> ''$''"
proof (cases "(''.'', ks)" rule: join.cases)
  case (3 sep s t ts)
  then have "CHR ''.'' \<in> set (join ''.'' ks)" by auto
  then show ?thesis by auto
qed (auto simp: tame_key_def)

lemma split_join_tame: "list_all tame_key ks \<Longrightarrow> ks \<noteq> [] \<Longrightarrow> split_on (CHR ''.'') (join ''.'' ks) = ks"
  by (rule split_on_join) (auto simp: list_all_iff tame_key_def)

lemma descend_keys: "list_all tame_key ks \<Longrightarrow> json_at ks j = Some v \<Longrightarrow> descend i ks j = Returns (Inr (Some v))"
proof (induction ks arbitrary: i j)
  case (Cons k ks)
  then obtain m u where m: "j = JObject m" "hm_get m k = Some u" "json_at ks u = Some v"
    by (cases j) (auto simp: bind_eq_Some_conv)
  have "str_trim k = k" "k \<noteq> []" "k \<noteq> ''$''" "str_find (CHR ''['') k = None"
    using Cons.prems(1) by (auto simp: tame_key_def str_trim_id str_find_None_iff)
  with m Cons show ?case by (simp add: Let_def plain_step_def)
qed simp

lemma extract_by_path_keys:
  assumes "list_all tame_key ks" and "ks \<noteq> []"
  shows "extract_by_path xc data (join ''.'' ks) 0 =
    (if length ks > xc_max_depth xc
     then Returns (Inl (''Max depth '' @ show_nat (xc_max_depth xc) @ '' exceeded: path has '' @ show_nat (length ks) @ '' levels''))
     else descend 0 ks data)"
proof -
  have "filter (\<lambda>p. str_trim p \<noteq> [] \<and> p \<noteq> ''$'') ks = ks"
    using assms(1) by (auto simp: list_all_iff tame_key_def str_trim_id intro!: filter_True)
  moreover have "\<not> list_all (\<lambda>p. p = []) ks" using assms by (cases ks) (auto simp: tame_key_def)
  ultimately show ?thesis
    using assms by (simp add: extract_by_path_def Let_def str_trim_id trimmed_join split_join_tame join_tame_nonempty join_tame_root join_tame_last)
qed

lemma leaf_by_path:
  assumes "tame data" and "is_object data" and "(ks, v) \<in> set (leaves (Suc (xc_max_depth xc)) data)"
  shows "extract_by_path xc data (join ''.'' ks) 0 =
      Returns (if length ks \<le> xc_max_depth xc then Inr (Some v)
        else Inl (''Max depth '' @ show_nat (xc_max_depth xc) @ '' exceeded: path has '' @ show_nat (Suc (xc_max_depth xc)) @ '' levels''))"
proof -
  have at: "json_at ks data = Some v" "length ks \<le> Suc (xc_max_depth xc)" "\<not> is_object v"
    using assms(3) leaves_iff [OF assms(1)] by auto
  then have "ks \<noteq> []" "list_all tame_key ks" using assms(2) json_at_tame [OF assms(1) at(1)] by auto
  then show ?thesis using extract_by_path_keys [of ks xc data] descend_keys [of ks data v 0] at(1,2) by (auto simp: le_Suc_eq)
qed

text \<open>Flattening finds every field under its path: for a document whose keys are plain words, the automatically
  extracted metrics are the values of the document that are not objects and lie at most one level deeper than the
  depth limit, in order, each once and named by its path; and looking a name of at most the limit up as a path, as a
  template does, leads back to the very value it was extracted from, while the names one level deeper are refused.\<close>

lemma auto_metrics_by_path:
  assumes "tame data" and "is_object data" and "limit = xc_max_depth xc"
  shows "auto_extract xc to_text data = map (\<lambda>(ks, v). auto_metric to_text (join ''.'' ks) v) (leaves (Suc limit) data)
    \<and> distinct (map fst (leaves (Suc limit) data))
    \<and> set (leaves (Suc limit) data) = {(ks, v). json_at ks data = Some v \<and> \<not> is_object v \<and> length ks \<le> Suc limit}
    \<and> (\<forall>(ks, v) \<in> set (leaves (Suc limit) data). extract_by_path xc data (join ''.'' ks) 0 =
        Returns (if length ks \<le> limit then Inr (Some v)
          else Inl (''Max depth '' @ show_nat limit @ '' exceeded: path has '' @ show_nat (Suc limit) @ '' levels'')))"
  using auto_extract_leaves [OF assms(1) _ assms(2), of "[]" xc to_text 0] leaves_distinct [OF assms(1)]
    leaves_iff [OF assms(1)] leaf_by_path [OF assms(1,2)] assms(3)
  by (auto simp: auto_extract_def simp del: auto_extract_recursive.simps)

definition example_reading :: json where
  "example_reading = JObject [(''values'', JObject [(''bat'', JInt 80), (''name'', JString ''cam'')]), (''n'', JNull)]"

lemma example_reading_tame: "tame example_reading \<and> is_object example_reading"
  by (simp add: example_reading_def tame_key_def trimmed_def white_space_def suffix_to_prefix)

end
