(* ===== verification/ImageStore.thy ===== *)
theory ImageStore
  imports Events TextUtil
begin

text \<open>
  \<open>heramind-devices/src/image_storage.rs\<close>: images that devices send are kept as files below
  \<open>images/<device>/<metric>/\<close> of the data directory and referred to by a URL.

  A path is the list of its components. The file system maps a directory and a name in it, which form a path without
  symbolic links, to a file, a directory or a symbolic link; resolving a path follows at most forty links, as Linux
  does. A byte is a \<open>char\<close>. The temporary file an image is staged in is private to the call and not an entry.
  Failures of single input or output operations, and the crates for \<open>uuid\<close> and \<open>base64\<close>, are parameters.
\<close>

section \<open>File formats\<close>

datatype image_storage_error = InvalidPathComponent string | UnknownFileType | IoError string | TooLarge nat

fun show_image_storage_error :: "image_storage_error \<Rightarrow> string" where
  "show_image_storage_error (InvalidPathComponent s) = ''Invalid path component: '' @ s"
| "show_image_storage_error UnknownFileType = ''Unknown file type from magic bytes''"
| "show_image_storage_error (IoError e) = ''I/O error: '' @ e"
| "show_image_storage_error (TooLarge n) = ''Image file too large: '' @ show_nat n @ '' bytes''"

definition detect_extension :: "string \<Rightarrow> string" where
  "detect_extension bytes =
     (if length bytes < 4 then ''bin''
      else if prefix [CHR 0xFF, CHR 0xD8, CHR 0xFF] bytes then ''jpg''
      else if prefix [CHR 0x89, CHR 0x50, CHR 0x4E, CHR 0x47] bytes then ''png''
      else if prefix [CHR 0x47, CHR 0x49, CHR 0x46, CHR 0x38] bytes then ''gif''
      else if length bytes \<ge> 12 \<and> prefix [CHR 0x52, CHR 0x49, CHR 0x46, CHR 0x46] bytes
        \<and> prefix [CHR 0x57, CHR 0x45, CHR 0x42, CHR 0x50] (drop 8 bytes) then ''webp''
      else if prefix [CHR 0x42, CHR 0x4D] bytes then ''bmp''
      else if prefix [CHR 0x49, CHR 0x49, CHR 0x2A, CHR 0x00] bytes then ''tiff''
      else if prefix [CHR 0x4D, CHR 0x4D, CHR 0x00, CHR 0x2A] bytes then ''tiff''
      else ''bin'')"

definition detect_mime_from_bytes :: "string \<Rightarrow> string" where
  "detect_mime_from_bytes bytes =
     (let ext = detect_extension bytes
      in if ext = ''jpg'' then ''image/jpeg'' else if ext = ''png'' then ''image/png'' else if ext = ''gif'' then ''image/gif''
         else if ext = ''webp'' then ''image/webp'' else if ext = ''bmp'' then ''image/bmp'' else if ext = ''tiff'' then ''image/tiff''
         else ''image/jpeg'')"

definition validate_path_component :: "string \<Rightarrow> (image_storage_error, string) rust_result" where
  "validate_path_component c =
     (if c = [] then Inl (InvalidPathComponent ''empty string'')
      else if str_contains c ''..'' then Inl (InvalidPathComponent (''contains path traversal: '' @ c))
      else if CHR ''/'' \<in> set c \<or> CHR 0x5C \<in> set c then Inl (InvalidPathComponent (''contains path separator: '' @ c))
      else if CHR 0x00 \<in> set c then Inl (InvalidPathComponent ''contains null byte'')
      else if length c > 255 then Inl (InvalidPathComponent ''too long (>255 chars)'')
      else Inr c)"

section \<open>Base64 texts\<close>

record image_crates =
  ic_standard_no_pad :: "string \<Rightarrow> string option"
  ic_url_safe_no_pad :: "string \<Rightarrow> string option"
  ic_standard_encode :: "string \<Rightarrow> string"
  ic_content_id :: "string \<Rightarrow> string"

text \<open>\<open>str::split_once\<close> with a text, and \<open>split(pat).nth(1)\<close>.\<close>

fun split_once_str :: "string \<Rightarrow> string \<Rightarrow> (string \<times> string) option" where
  "split_once_str pat [] = None"
| "split_once_str pat (x # xs) =
     (if prefix pat (x # xs) then Some ([], drop (length pat) (x # xs))
      else map_option (\<lambda>(a, b). (x # a, b)) (split_once_str pat xs))"

definition second_part :: "string \<Rightarrow> string \<Rightarrow> string option" where
  "second_part pat s = (case split_once_str pat s of
       None \<Rightarrow> None
     | Some (_, r) \<Rightarrow> (case split_once_str pat r of None \<Rightarrow> Some r | Some (a, _) \<Rightarrow> Some a))"

definition IMG_B64_PREFIXES :: "string list" where
  "IMG_B64_PREFIXES = [''/9j/'', ''iVBORw0KGgo'', ''R0lGOD'', ''UklGR'', ''Qk'', ''SUk'', ''TU0'']"

definition is_ascii_whitespace :: "char \<Rightarrow> bool" where
  "is_ascii_whitespace c \<longleftrightarrow> c \<in> {CHR 0x09, CHR 0x0A, CHR 0x0C, CHR 0x0D, CHR 0x20}"

definition try_decode_base64_image :: "image_crates \<Rightarrow> string \<Rightarrow> string option" where
  "try_decode_base64_image ic s =
     Option.bind (if starts_with s ''data:image/'' then second_part '';base64,'' s
                  else if length s > 100 then
                    (if list_ex (\<lambda>p. starts_with (trim_start s) p) IMG_B64_PREFIXES then Some s else None)
                  else None) (\<lambda>raw_b64.
     let cleaned = filter (\<lambda>b. \<not> is_ascii_whitespace b \<and> b \<noteq> CHR ''='') raw_b64
     in Option.bind (case ic_standard_no_pad ic cleaned of Some d \<Rightarrow> Some d | None \<Rightarrow> ic_url_safe_no_pad ic cleaned) (\<lambda>decoded.
        if detect_extension decoded \<noteq> ''bin'' then Some decoded else None))"

section \<open>File system\<close>

type_synonym path = "string list"

datatype fs_entry = File string | Dir | Link path

type_synonym file_system = "path \<Rightarrow> fs_entry option"

fun resolve :: "file_system \<Rightarrow> nat \<Rightarrow> path \<Rightarrow> path \<Rightarrow> path option" where
  "resolve fs n cur [] = Some cur"
| "resolve fs n cur (c # cs) = (case fs (cur @ [c]) of
       None \<Rightarrow> None
     | Some (Link target) \<Rightarrow> (case n of 0 \<Rightarrow> None | Suc n' \<Rightarrow> resolve fs n' [] (target @ cs))
     | Some _ \<Rightarrow> resolve fs n (cur @ [c]) cs)"

definition MAX_LINKS :: nat where
  "MAX_LINKS = 40"

text \<open>\<open>canonicalize\<close>; the path may lead through a file only at its end, which \<open>resolve\<close> ensures since a file has no
  entries below it.\<close>

definition canonicalize :: "file_system \<Rightarrow> path \<Rightarrow> (string, path) rust_result" where
  "canonicalize fs p = ok_or ''entity not found'' (resolve fs MAX_LINKS [] p)"

text \<open>\<open>create_dir_all\<close>: existing directories and links are followed, missing ones are made.\<close>

fun create_dirs :: "nat \<Rightarrow> path \<Rightarrow> path \<Rightarrow> file_system \<Rightarrow> (string, unit) rust_result \<times> file_system" where
  "create_dirs n cur [] fs = (Inr (), fs)"
| "create_dirs n cur (c # cs) fs = (case fs (cur @ [c]) of
       None \<Rightarrow> create_dirs n (cur @ [c]) cs (fs(cur @ [c] \<mapsto> Dir))
     | Some Dir \<Rightarrow> create_dirs n (cur @ [c]) cs fs
     | Some (Link target) \<Rightarrow> (case n of
         0 \<Rightarrow> (Inl ''too many levels of symbolic links'', fs)
       | Suc n' \<Rightarrow> if resolve fs n' [] target = None then (Inl ''file exists'', fs) else create_dirs n' [] (target @ cs) fs)
     | Some (File _) \<Rightarrow> (Inl ''not a directory'', fs))"

text \<open>The failures of one call: making the directory, staging the bytes, moving the file to a place, looking up and reading a file.\<close>

record io_faults =
  if_create_dir :: "string option"
  if_stage :: "string option"
  if_persist :: "path \<Rightarrow> string option"
  if_stat :: "path \<Rightarrow> string option"
  if_read :: "path \<Rightarrow> string option"

fun fault :: "string option \<Rightarrow> (string, unit) rust_result" where
  "fault None = Inr ()"
| "fault (Some e) = Inl e"

definition fs_create_dir_all :: "io_faults \<Rightarrow> path \<Rightarrow> file_system \<Rightarrow> (string, unit) rust_result \<times> file_system" where
  "fs_create_dir_all io p fs = (case if_create_dir io of Some e \<Rightarrow> (Inl e, fs) | None \<Rightarrow> create_dirs MAX_LINKS [] p fs)"

definition fs_read :: "io_faults \<Rightarrow> path \<Rightarrow> file_system \<Rightarrow> (string, string) rust_result" where
  "fs_read io p fs =
     and_then (fault (if_read io p)) (\<lambda>_.
     and_then (canonicalize fs p) (\<lambda>r. case fs r of Some (File b) \<Rightarrow> Inr b | _ \<Rightarrow> Inl ''not a file''))"

text \<open>The length of a directory entry other than a file is not a matter here: it is below the limit on images.\<close>

definition fs_size :: "io_faults \<Rightarrow> path \<Rightarrow> file_system \<Rightarrow> (string, nat) rust_result" where
  "fs_size io p fs =
     and_then (fault (if_stat io p)) (\<lambda>_.
     and_then (canonicalize fs p) (\<lambda>r. case fs r of Some (File b) \<Rightarrow> Inr (length b) | _ \<Rightarrow> Inr 0))"

definition persist_noclobber :: "io_faults \<Rightarrow> string \<Rightarrow> path \<Rightarrow> string \<Rightarrow> file_system \<Rightarrow> (string, file_system) rust_result" where
  "persist_noclobber io bytes dir name fs =
     and_then (fault (if_persist io (dir @ [name]))) (\<lambda>_.
     and_then (canonicalize fs dir) (\<lambda>d.
     if fs (d @ [name]) = None then Inr (fs(d @ [name] \<mapsto> File bytes)) else Inl ''file exists''))"

section \<open>Saving\<close>

definition existing_matches :: "io_faults \<Rightarrow> path \<Rightarrow> string \<Rightarrow> file_system \<Rightarrow> bool" where
  "existing_matches io p bytes fs = (fs_read io p fs = Inr bytes)"

text \<open>The process-wide counter is an \<open>AtomicU64\<close>, which wraps around.\<close>

fun try_names ::
    "io_faults \<Rightarrow> string \<Rightarrow> path \<Rightarrow> (nat \<Rightarrow> string) \<Rightarrow> nat \<Rightarrow> string \<Rightarrow> nat \<Rightarrow> file_system
      \<Rightarrow> (string, string) rust_result \<times> nat \<times> file_system" where
  "try_names io bytes dir name_of 0 last_err counter fs = (Inl last_err, counter, fs)"
| "try_names io bytes dir name_of (Suc k) last_err counter fs =
     (let name = name_of counter; counter' = (counter + 1) mod 2 ^ 64
      in case persist_noclobber io bytes dir name fs of
           Inr fs' \<Rightarrow> (Inr name, counter', fs')
         | Inl e \<Rightarrow> if existing_matches io (dir @ [name]) bytes fs then (Inr name, counter', fs)
                  else try_names io bytes dir name_of k e counter' fs)"

definition save_name ::
    "io_faults \<Rightarrow> string \<Rightarrow> path \<Rightarrow> string \<Rightarrow> (nat \<Rightarrow> string) \<Rightarrow> nat \<Rightarrow> file_system
      \<Rightarrow> (string, string) rust_result \<times> nat \<times> file_system" where
  "save_name io bytes dir primary name_of counter fs =
     (case persist_noclobber io bytes dir primary fs of
        Inr fs' \<Rightarrow> (Inr primary, counter, fs')
      | Inl e \<Rightarrow> if existing_matches io (dir @ [primary]) bytes fs then (Inr primary, counter, fs)
               else try_names io bytes dir name_of 256 e counter fs)"

definition path_components :: "string \<Rightarrow> path" where
  "path_components s = filter (\<lambda>c. c \<noteq> [] \<and> c \<noteq> ''.'') (split_on (CHR ''/'') s)"

definition save_image_binary ::
    "image_crates \<Rightarrow> io_faults \<Rightarrow> string \<Rightarrow> string \<Rightarrow> int \<Rightarrow> string \<Rightarrow> path \<Rightarrow> nat \<Rightarrow> file_system
      \<Rightarrow> (image_storage_error, string) rust_result \<times> nat \<times> file_system" where
  "save_image_binary ic io device_id metric ts bytes data_dir counter fs =
     (case and_then (validate_path_component device_id) (\<lambda>d. and_then (validate_path_component metric) (\<lambda>m. Inr (d, m))) of
        Inl e \<Rightarrow> (Inl e, counter, fs)
      | Inr (safe_device_id, safe_metric) \<Rightarrow>
          let ext = detect_extension bytes; content_id = ic_content_id ic bytes;
              metric_dir = data_dir @ [''images''] @ path_components safe_device_id @ path_components safe_metric;
              name = (\<lambda>suffix. show_int ts @ ''_'' @ content_id @ suffix @ ''.'' @ ext)
          in case fs_create_dir_all io metric_dir fs of
               (Inl e, fs) \<Rightarrow> (Inl (IoError e), counter, fs)
             | (Inr _, fs) \<Rightarrow> (case if_stage io of
                 Some e \<Rightarrow> (Inl (IoError e), counter, fs)
               | None \<Rightarrow> (case save_name io bytes metric_dir (name []) (\<lambda>n. name (''_'' @ show_nat n)) counter fs of
                   (Inl e, counter, fs) \<Rightarrow> (Inl (IoError e), counter, fs)
                 | (Inr final, counter, fs) \<Rightarrow>
                     (Inr (''/api/images/'' @ safe_device_id @ ''/'' @ safe_metric @ ''/'' @ final), counter, fs))))"

section \<open>Reading\<close>

definition MAX_INTERNAL_IMAGE_BYTES :: nat where
  "MAX_INTERNAL_IMAGE_BYTES = 20 * 1024 * 1024"

definition read_internal_image_url ::
    "io_faults \<Rightarrow> string \<Rightarrow> path \<Rightarrow> file_system \<Rightarrow> (image_storage_error, string \<times> string) rust_result" where
  "read_internal_image_url io url data_dir fs =
     and_then (ok_or (InvalidPathComponent (''not a /api/images/ URL: '' @ url)) (strip_prefix ''/api/images/'' url)) (\<lambda>url_path.
     if CHR 0x00 \<in> set url_path \<or> ''..'' \<in> set (split_on (CHR ''/'') url_path) \<or> starts_with url_path ''/''
     then Inl (InvalidPathComponent ''path traversal is not allowed in /api/images/ URL'')
     else
       and_then (map_err IoError (canonicalize fs (data_dir @ [''images'']))) (\<lambda>canon_images.
       and_then (map_err IoError (canonicalize fs (data_dir @ [''images''] @ path_components url_path))) (\<lambda>canon_file.
       if \<not> prefix canon_images canon_file then Inl (InvalidPathComponent ''image path escapes the images directory'')
       else and_then (map_err IoError (fs_size io canon_file fs)) (\<lambda>len.
         if len > MAX_INTERNAL_IMAGE_BYTES then Inl (TooLarge len)
         else and_then (map_err IoError (fs_read io canon_file fs)) (\<lambda>bytes.
         if detect_extension bytes = ''bin'' then Inl UnknownFileType
         else Inr (bytes, detect_mime_from_bytes bytes))))))"

definition resolve_internal_image_to_data_url ::
    "image_crates \<Rightarrow> io_faults \<Rightarrow> path \<Rightarrow> file_system \<Rightarrow> string \<Rightarrow> string option" where
  "resolve_internal_image_to_data_url ic io data_dir fs url =
     (case read_internal_image_url io url data_dir fs of
        Inr (bytes, mime) \<Rightarrow> Some (''data:'' @ mime @ '';base64,'' @ ic_standard_encode ic bytes)
      | Inl _ \<Rightarrow> None)"

section \<open>Resolution of paths\<close>

lemma resolve_mono: "fs \<subseteq>\<^sub>m fs' \<Longrightarrow> resolve fs n cur p = Some d \<Longrightarrow> resolve fs' n cur p = Some d"
proof (induction fs n cur p rule: resolve.induct)
  case (2 fs n cur c cs)
  then obtain e where e: "fs (cur @ [c]) = Some e" by (auto split: option.splits)
  then have "fs' (cur @ [c]) = Some e" using 2(4) by (auto simp: map_le_def dom_def)
  with 2 e show ?case by (cases e; cases n) auto
qed simp

lemma resolve_append:
  "resolve fs n cur p = Some d \<Longrightarrow> \<exists>n'. \<forall>q. resolve fs n cur (p @ q) = resolve fs n' d q"
proof (induction fs n cur p rule: resolve.induct)
  case (2 fs n cur c cs)
  then obtain e where e: "fs (cur @ [c]) = Some e" by (auto split: option.splits)
  with 2 show ?case by (cases e; cases n) auto
qed auto

lemma resolve_prefix: "resolve fs n cur (p @ q) = Some r \<Longrightarrow> \<exists>d. resolve fs n cur p = Some d"
proof (induction fs n cur p rule: resolve.induct)
  case (2 fs n cur c cs)
  then obtain e where e: "fs (cur @ [c]) = Some e" by (auto split: option.splits)
  with 2 show ?case by (cases e; cases n) auto
qed simp

text \<open>A path without links leads to itself, and every resolved path is of this kind.\<close>

definition real_path :: "file_system \<Rightarrow> path \<Rightarrow> bool" where
  "real_path fs p \<longleftrightarrow> (\<forall>q c. prefix (q @ [c]) p \<longrightarrow> (\<exists>e. fs (q @ [c]) = Some e \<and> (\<forall>t. e \<noteq> Link t)))"

lemma real_path_Nil [simp]: "real_path fs []"
  by (simp add: real_path_def)

lemma real_path_snoc: "real_path fs p \<Longrightarrow> fs (p @ [c]) = Some e \<Longrightarrow> (\<And>t. e \<noteq> Link t) \<Longrightarrow> real_path fs (p @ [c])"
  by (auto simp: real_path_def prefix_snoc)

lemma resolve_real: "real_path fs cur \<Longrightarrow> resolve fs n cur p = Some d \<Longrightarrow> real_path fs d"
proof (induction fs n cur p rule: resolve.induct)
  case (2 fs n cur c cs)
  then obtain e where e: "fs (cur @ [c]) = Some e" by (auto split: option.splits)
  with 2 real_path_snoc [OF 2(4) e] show ?case by (cases e; cases n) auto
qed simp

lemma resolve_unlinked:
  "(\<And>q t. fs (cur @ q) \<noteq> Some (Link t)) \<Longrightarrow> resolve fs n cur p = Some d \<Longrightarrow> d = cur @ p"
proof (induction p arbitrary: cur)
  case (Cons c cs)
  have below: "fs ((cur @ [c]) @ q) \<noteq> Some (Link t)" for q t using Cons.prems(1) [of "c # q"] by simp
  obtain e where e: "fs (cur @ [c]) = Some e" using Cons.prems(2) by (auto split: option.splits)
  with below [of "[]"] Cons.prems(2) have "resolve fs n (cur @ [c]) cs = Some d" by (cases e) auto
  with Cons.IH [OF below] show ?case by simp
qed simp

lemma resolve_real_id: "real_path fs (cur @ p) \<Longrightarrow> resolve fs n cur p = Some (cur @ p)"
proof (induction p arbitrary: cur)
  case (Cons c cs)
  have "prefix (cur @ [c]) (cur @ c # cs)" by (simp add: prefix_def)
  then obtain e where "fs (cur @ [c]) = Some e" "\<And>t. e \<noteq> Link t" using Cons.prems unfolding real_path_def by blast
  with Cons show ?case by (cases e) auto
qed simp

lemma canonicalize_Inr: "canonicalize fs p = Inr d \<longleftrightarrow> resolve fs MAX_LINKS [] p = Some d"
  by (simp add: canonicalize_def)

lemma canonicalize_idem: "canonicalize fs p = Inr d \<Longrightarrow> canonicalize fs d = Inr d"
  using resolve_real [of fs "[]" MAX_LINKS p d] resolve_real_id [of fs "[]" d MAX_LINKS] by (simp add: canonicalize_Inr)

section \<open>Saving changes nothing that is there\<close>

lemma map_le_new: "fs p = None \<Longrightarrow> fs \<subseteq>\<^sub>m fs(p \<mapsto> e)"
  by (auto simp: map_le_def dom_def)

lemma create_dirs_new:
  "create_dirs n cur cs fs = (r, fs') \<Longrightarrow> fs \<subseteq>\<^sub>m fs' \<and> (\<forall>p. fs' p \<noteq> fs p \<longrightarrow> fs' p = Some Dir)"
proof (induction n cur cs fs rule: create_dirs.induct)
  case (2 n cur c cs fs)
  show ?case
  proof (cases "fs (cur @ [c])")
    case None
    let ?fs = "fs(cur @ [c] \<mapsto> Dir)"
    have new: "?fs \<subseteq>\<^sub>m fs'" "\<forall>p. fs' p \<noteq> ?fs p \<longrightarrow> fs' p = Some Dir"
      using 2 None by (simp_all del: fun_upd_apply)
    then have "fs' (cur @ [c]) = Some Dir" by (auto simp: map_le_def)
    moreover have "fs \<subseteq>\<^sub>m fs'" using map_le_trans [OF map_le_new new(1)] None by simp
    ultimately show ?thesis using new(2) by (metis fun_upd_apply)
  next
    case (Some e)
    show ?thesis
    proof (cases e)
      case (File b)
      with 2(4) Some show ?thesis by simp
    next
      case Dir
      with 2(2) [OF Some Dir] 2(4) Some show ?thesis by simp
    next
      case (Link t)
      show ?thesis
      proof (cases n)
        case (Suc n')
        show ?thesis using 2(3) [OF Some Link Suc] 2(4) Some Link Suc by (cases "resolve fs n' [] t = None") simp_all
      qed (use 2(4) Some Link in simp)
    qed
  qed
qed auto

lemma fs_create_dir_all_new:
  "fs_create_dir_all io p fs = (r, fs') \<Longrightarrow> fs \<subseteq>\<^sub>m fs' \<and> (\<forall>p. fs' p \<noteq> fs p \<longrightarrow> fs' p = Some Dir)"
  by (auto simp: fs_create_dir_all_def split: option.splits dest: create_dirs_new)

lemma fault_Inr [simp]: "fault f = Inr u \<longleftrightarrow> f = None"
  by (cases f) auto

lemma persist_noclobber_new:
  "persist_noclobber io bytes dir name fs = Inr fs' \<Longrightarrow>
    \<exists>d. canonicalize fs' dir = Inr d \<and> fs (d @ [name]) = None \<and> fs' = fs(d @ [name] \<mapsto> File bytes)"
proof -
  assume "persist_noclobber io bytes dir name fs = Inr fs'"
  then obtain d where d: "canonicalize fs dir = Inr d" "fs (d @ [name]) = None" "fs' = fs(d @ [name] \<mapsto> File bytes)"
    by (auto simp: persist_noclobber_def split: if_splits)
  then have "canonicalize fs' dir = Inr d" using resolve_mono [OF map_le_new] by (simp add: canonicalize_Inr)
  with d show ?thesis by blast
qed

definition stores :: "file_system \<Rightarrow> path \<Rightarrow> string \<Rightarrow> bool" where
  "stores fs p bytes \<longleftrightarrow> (\<exists>r. canonicalize fs p = Inr r \<and> fs r = Some (File bytes))"

definition adds_file :: "path \<Rightarrow> string \<Rightarrow> string \<Rightarrow> file_system \<Rightarrow> file_system \<Rightarrow> bool" where
  "adds_file dir name bytes fs fs' \<longleftrightarrow> stores fs' (dir @ [name]) bytes \<and>
     (fs' = fs \<or> (\<exists>d. canonicalize fs' dir = Inr d \<and> fs (d @ [name]) = None \<and> fs' = fs(d @ [name] \<mapsto> File bytes)))"

lemma adds_file_extends: "adds_file dir name bytes fs fs' \<Longrightarrow> fs \<subseteq>\<^sub>m fs'"
  by (auto simp: adds_file_def map_le_new)

lemma persist_adds: "persist_noclobber io bytes dir name fs = Inr fs' \<Longrightarrow> adds_file dir name bytes fs fs'"
proof -
  assume "persist_noclobber io bytes dir name fs = Inr fs'"
  then obtain d where d: "canonicalize fs' dir = Inr d" "fs (d @ [name]) = None" "fs' = fs(d @ [name] \<mapsto> File bytes)"
    using persist_noclobber_new by blast
  then obtain n where "\<forall>q. resolve fs' MAX_LINKS [] (dir @ q) = resolve fs' n d q"
    using resolve_append canonicalize_Inr by metis
  then have "canonicalize fs' (dir @ [name]) = Inr (d @ [name])" using d(3) by (simp add: canonicalize_Inr)
  with d show ?thesis by (auto simp: adds_file_def stores_def)
qed

lemma fs_read_Inr:
  "fs_read io p fs = Inr b \<longleftrightarrow> if_read io p = None \<and> (\<exists>r. canonicalize fs p = Inr r \<and> fs r = Some (File b))"
proof (cases "canonicalize fs p")
  case (Inr r)
  then show ?thesis by (cases "fs r"; cases "if_read io p"; cases "the (fs r)") (auto simp: fs_read_def)
qed (cases "if_read io p"; simp add: fs_read_def)

lemma matches_adds: "existing_matches io (dir @ [name]) bytes fs \<Longrightarrow> adds_file dir name bytes fs fs"
  by (auto simp: existing_matches_def fs_read_Inr adds_file_def stores_def)

lemma try_names_adds:
  "try_names io bytes dir name_of k e counter fs = (r, counter', fs') \<Longrightarrow>
    (case r of Inl _ \<Rightarrow> fs' = fs | Inr name \<Rightarrow> (\<exists>n. name = name_of n) \<and> adds_file dir name bytes fs fs')"
proof (induction io bytes dir name_of k e counter fs rule: try_names.induct)
  case (2 io bytes dir name_of k last_err counter fs)
  then show ?case
    by (auto simp: Let_def split: sum.splits if_splits dest: persist_adds matches_adds)
qed auto

lemma save_name_adds:
  "save_name io bytes dir primary name_of counter fs = (r, counter', fs') \<Longrightarrow>
    (case r of Inl _ \<Rightarrow> fs' = fs | Inr name \<Rightarrow> (name = primary \<or> (\<exists>n. name = name_of n)) \<and> adds_file dir name bytes fs fs')"
  unfolding save_name_def
  by (auto split: sum.splits if_splits dest: persist_adds matches_adds) (auto dest: try_names_adds)

lemma validate_path_component_Inr:
  "validate_path_component c = Inr c' \<longleftrightarrow> c' = c \<and> c \<noteq> [] \<and> \<not> str_contains c ''..'' \<and> CHR ''/'' \<notin> set c \<and> CHR 0x5C \<notin> set c
     \<and> CHR 0x00 \<notin> set c \<and> length c \<le> 255"
  by (auto simp: validate_path_component_def)

definition image_name :: "image_crates \<Rightarrow> int \<Rightarrow> string \<Rightarrow> string \<Rightarrow> string" where
  "image_name ic ts bytes suf = show_int ts @ ''_'' @ ic_content_id ic bytes @ suf @ ''.'' @ detect_extension bytes"

definition metric_dir :: "path \<Rightarrow> string \<Rightarrow> string \<Rightarrow> path" where
  "metric_dir data_dir device_id metric = data_dir @ [''images''] @ path_components device_id @ path_components metric"

lemma save_image_Inr:
  assumes "save_image_binary ic io device_id metric ts bytes data_dir counter fs = (Inr url, counter', fs')"
  obtains fs1 name suf where "validate_path_component device_id = Inr device_id" "validate_path_component metric = Inr metric"
    "fs_create_dir_all io (metric_dir data_dir device_id metric) fs = (Inr (), fs1)"
    "name = image_name ic ts bytes suf" "suf = [] \<or> (\<exists>n. suf = ''_'' @ show_nat n)"
    "adds_file (metric_dir data_dir device_id metric) name bytes fs1 fs'"
    "url = ''/api/images/'' @ device_id @ ''/'' @ metric @ ''/'' @ name"
proof -
  have valid: "validate_path_component device_id = Inr device_id" "validate_path_component metric = Inr metric"
    using assms by (auto simp: save_image_binary_def validate_path_component_Inr split: sum.splits)
  from assms obtain fs1 where fs1: "fs_create_dir_all io (metric_dir data_dir device_id metric) fs = (Inr (), fs1)"
    by (auto simp: save_image_binary_def valid metric_dir_def Let_def split: prod.splits sum.splits)
  with assms valid obtain name where
      name: "save_name io bytes (metric_dir data_dir device_id metric) (image_name ic ts bytes [])
        (\<lambda>n. image_name ic ts bytes (''_'' @ show_nat n)) counter fs1 = (Inr name, counter', fs')"
      "url = ''/api/images/'' @ device_id @ ''/'' @ metric @ ''/'' @ name"
    by (auto simp: save_image_binary_def metric_dir_def image_name_def Let_def split: prod.splits sum.splits option.splits)
  from save_name_adds [OF name(1)] obtain suf where "name = image_name ic ts bytes suf" "suf = [] \<or> (\<exists>n. suf = ''_'' @ show_nat n)"
      "adds_file (metric_dir data_dir device_id metric) name bytes fs1 fs'" by auto
  from that [OF valid fs1 this name(2)] show ?thesis .
qed

lemma save_image_Inl:
  assumes "save_image_binary ic io device_id metric ts bytes data_dir counter fs = (Inl e, counter', fs')"
  shows "fs' = fs \<or> (\<exists>r. fs_create_dir_all io (metric_dir data_dir device_id metric) fs = (r, fs'))"
proof (cases "validate_path_component device_id = Inr device_id \<and> validate_path_component metric = Inr metric")
  case True
  obtain r fs1 where fs1: "fs_create_dir_all io (metric_dir data_dir device_id metric) fs = (r, fs1)" by fastforce
  from assms True fs1 have "fs' = fs1"
    by (auto simp: save_image_binary_def metric_dir_def Let_def split: prod.splits sum.splits option.splits dest!: save_name_adds)
  with fs1 show ?thesis by blast
next
  case False
  with assms show ?thesis
    by (auto simp: save_image_binary_def validate_path_component_Inr split: sum.splits)
qed

definition no_faults :: io_faults where
  "no_faults = \<lparr>if_create_dir = None, if_stage = None, if_persist = (\<lambda>_. None), if_stat = (\<lambda>_. None), if_read = (\<lambda>_. None)\<rparr>"

definition example_crates :: image_crates where
  "example_crates = \<lparr>ic_standard_no_pad = (\<lambda>_. None), ic_url_safe_no_pad = (\<lambda>_. None), ic_standard_encode = (\<lambda>_. []),
     ic_content_id = (\<lambda>_. ''5f'')\<rparr>"

definition example_image :: string where
  "example_image = [CHR 0xFF, CHR 0xD8, CHR 0xFF, CHR 0xE0]"

lemma save_image_adds_no_links:
  assumes "save_image_binary ic io device_id metric ts bytes data_dir counter fs = (Inr url, counter', fs')" and "fs' p = Some (Link t)"
  shows "fs p = Some (Link t)"
proof -
  obtain fs1 name where fs1: "fs_create_dir_all io (metric_dir data_dir device_id metric) fs = (Inr (), fs1)"
      "adds_file (metric_dir data_dir device_id metric) name bytes fs1 fs'"
    using save_image_Inr [OF assms(1)] by metis
  have "fs' p = fs1 p" using fs1(2) assms(2) by (auto simp: adds_file_def split: if_splits)
  then show ?thesis using fs_create_dir_all_new [OF fs1(1)] assms(2) by (cases "fs1 p = fs p") auto
qed

text \<open>C26. Images never displace anything: whatever a device sends and whichever operations fail, saving an image keeps
  every file, directory and link as it is; what is new is directories and, if the call succeeds, at most one file, with
  the bytes of the image, in the directory of the device and the metric, under the name that the returned URL ends in.\<close>

theorem image_saving_overwrites_nothing:
  assumes "save_image_binary ic io device_id metric ts bytes data_dir counter fs = (r, counter', fs')"
  shows "fs \<subseteq>\<^sub>m fs' \<and> (\<exists>new. \<forall>p. fs' p = fs p \<or> fs' p = Some Dir \<or>
    p = new \<and> (\<exists>url d name. r = Inr url
      \<and> canonicalize fs' (data_dir @ [''images''] @ path_components device_id @ path_components metric) = Inr d
      \<and> new = d @ [name] \<and> url = ''/api/images/'' @ device_id @ ''/'' @ metric @ ''/'' @ name \<and> fs' new = Some (File bytes)))"
proof (cases r)
  case (Inl e)
  then show ?thesis using save_image_Inl [OF assms [unfolded Inl]] fs_create_dir_all_new by (metis map_le_refl)
next
  case (Inr url)
  then obtain fs1 name where fs1: "fs_create_dir_all io (metric_dir data_dir device_id metric) fs = (Inr (), fs1)"
      "adds_file (metric_dir data_dir device_id metric) name bytes fs1 fs'"
      "url = ''/api/images/'' @ device_id @ ''/'' @ metric @ ''/'' @ name"
    using assms save_image_Inr by metis
  have new: "fs \<subseteq>\<^sub>m fs1" "\<And>p. fs1 p \<noteq> fs p \<Longrightarrow> fs1 p = Some Dir" using fs_create_dir_all_new [OF fs1(1)] by blast+
  have "fs \<subseteq>\<^sub>m fs'" using map_le_trans [OF new(1) adds_file_extends [OF fs1(2)]] .
  moreover have added: "fs' p = fs1 p \<or> (\<exists>d. canonicalize fs' (metric_dir data_dir device_id metric) = Inr d \<and> p = d @ [name] \<and> fs' p = Some (File bytes))" for p
    using fs1(2) by (auto simp: adds_file_def)
  moreover have "\<exists>new. \<forall>p. fs' p = fs p \<or> fs' p = Some Dir \<or> p = new \<and> (\<exists>url d name. r = Inr url
      \<and> canonicalize fs' (metric_dir data_dir device_id metric) = Inr d \<and> new = d @ [name]
      \<and> url = ''/api/images/'' @ device_id @ ''/'' @ metric @ ''/'' @ name \<and> fs' new = Some (File bytes))"
  proof (cases "canonicalize fs' (metric_dir data_dir device_id metric)")
    case (Inl e)
    then show ?thesis using added new(2) by (metis sum.distinct(1))
  next
    case (Inr d)
    show ?thesis
    proof (intro exI [of _ "d @ [name]"] allI)
      fix p
      show "fs' p = fs p \<or> fs' p = Some Dir \<or> p = d @ [name] \<and> (\<exists>url d' name'. r = Inr url
          \<and> canonicalize fs' (metric_dir data_dir device_id metric) = Inr d' \<and> d @ [name] = d' @ [name']
          \<and> url = ''/api/images/'' @ device_id @ ''/'' @ metric @ ''/'' @ name' \<and> fs' (d @ [name]) = Some (File bytes))"
        using added [of p] new(2) [of p] Inr \<open>r = Inr url\<close> fs1(3) by (cases "fs' p = fs1 p") auto
    qed
  qed
  ultimately show ?thesis unfolding metric_dir_def by blast
qed

theorem image_saving_overwrites_nothing_witness:
  "Map.empty \<subseteq>\<^sub>m snd (snd (save_image_binary example_crates no_faults ''cam'' ''shot'' 7 example_image [''data''] 0 Map.empty))"
  using image_saving_overwrites_nothing [of example_crates no_faults "''cam''" "''shot''" 7 example_image "[''data'']" 0 Map.empty] by auto

section \<open>Reading back\<close>

lemma path_components_join:
  "CHR ''/'' \<notin> set a \<Longrightarrow> path_components (a @ ''/'' @ b) = path_components a @ path_components b"
  by (simp add: path_components_def split_on_append split_on_no_sep)

lemma image_name_plain:
  assumes "\<forall>c \<in> set (ic_content_id ic bytes). c \<noteq> CHR ''/'' \<and> c \<noteq> CHR 0x00" and "suf = [] \<or> (\<exists>n. suf = ''_'' @ show_nat n)"
  shows "CHR ''/'' \<notin> set (image_name ic ts bytes suf)" and "CHR 0x00 \<notin> set (image_name ic ts bytes suf)"
    and "path_components (image_name ic ts bytes suf) = [image_name ic ts bytes suf]" and "image_name ic ts bytes suf \<noteq> ''..''"
proof -
  have ext: "detect_extension bytes \<in> {''bin'', ''jpg'', ''png'', ''gif'', ''webp'', ''bmp'', ''tiff''}" by (simp add: detect_extension_def)
  have digits: "\<And>c. is_digit c \<Longrightarrow> c \<noteq> CHR ''/'' \<and> c \<noteq> CHR 0x00" by (auto simp: is_digit_def)
  show slash: "CHR ''/'' \<notin> set (image_name ic ts bytes suf)" and "CHR 0x00 \<notin> set (image_name ic ts bytes suf)"
    using assms ext digits show_int_plain [of _ ts] show_nat_digits by (fastforce simp: image_name_def)+
  have "CHR ''_'' \<in> set (image_name ic ts bytes suf)" by (simp add: image_name_def)
  then have "image_name ic ts bytes suf \<noteq> []" "image_name ic ts bytes suf \<noteq> ''.''" and dots: "image_name ic ts bytes suf \<noteq> ''..''" by auto
  then show "path_components (image_name ic ts bytes suf) = [image_name ic ts bytes suf]" "image_name ic ts bytes suf \<noteq> ''..''"
    using slash by (simp_all add: path_components_def split_on_no_sep)
qed

lemma read_stored_image:
  assumes "stores fs (data_dir @ [''images''] @ p) bytes" and "\<And>q t im. canonicalize fs (data_dir @ [''images'']) = Inr im \<Longrightarrow> fs (im @ q) \<noteq> Some (Link t)"
    and "path_components url_path = p" and "CHR 0x00 \<notin> set url_path" and "''..'' \<notin> set (split_on (CHR ''/'') url_path)"
    and "\<not> starts_with url_path ''/''" and "\<And>p. if_stat io p = None \<and> if_read io p = None"
    and "length bytes \<le> MAX_INTERNAL_IMAGE_BYTES" and "detect_extension bytes \<noteq> ''bin''"
  shows "read_internal_image_url io (''/api/images/'' @ url_path) data_dir fs = Inr (bytes, detect_mime_from_bytes bytes)"
proof -
  obtain r where r: "canonicalize fs (data_dir @ [''images''] @ p) = Inr r" "fs r = Some (File bytes)" using assms(1) by (auto simp: stores_def)
  then obtain im where im: "canonicalize fs (data_dir @ [''images'']) = Inr im"
    using resolve_prefix [of fs MAX_LINKS "[]" "data_dir @ [''images'']" p r] by (auto simp: canonicalize_Inr)
  then obtain n where n: "resolve fs n im p = Some r"
    using r(1) resolve_append [of fs MAX_LINKS "[]" "data_dir @ [''images'']" im] by (auto simp: canonicalize_Inr)
  from resolve_unlinked [OF assms(2) [OF im] n] have "r = im @ p" .
  then have "prefix im r" by simp
  moreover have "fs_read io r fs = Inr bytes" "fs_size io r fs = Inr (length bytes)"
    using canonicalize_idem [OF r(1)] r(2) assms(7) by (simp_all add: fs_read_Inr fs_size_def)
  ultimately show ?thesis using assms(3-6,8,9) r im by (simp add: read_internal_image_url_def)
qed

text \<open>A read only ever discloses images: whatever the URL, what is returned is the contents of a file whose path, free
  of symbolic links, lies below the directory of images, within the size limit and of a known format.\<close>

lemma image_reads_confined:
  assumes "read_internal_image_url io url data_dir fs = Inr (bytes, mime)"
  obtains im r where "canonicalize fs (data_dir @ [''images'']) = Inr im" "prefix im r" "real_path fs r" "fs r = Some (File bytes)"
    "length bytes \<le> MAX_INTERNAL_IMAGE_BYTES" "detect_extension bytes \<noteq> ''bin''" "mime = detect_mime_from_bytes bytes"
proof -
  from assms obtain url_path im r len where r: "canonicalize fs (data_dir @ [''images'']) = Inr im"
      "canonicalize fs (data_dir @ [''images''] @ path_components url_path) = Inr r" "prefix im r" "fs_size io r fs = Inr len"
      "len \<le> MAX_INTERNAL_IMAGE_BYTES" "fs_read io r fs = Inr bytes" "detect_extension bytes \<noteq> ''bin''" "mime = detect_mime_from_bytes bytes"
    by (auto simp: read_internal_image_url_def split: if_splits)
  have "canonicalize fs r = Inr r" using canonicalize_idem r(2) .
  with r(4,6) have "fs r = Some (File bytes)" "len = length bytes" by (auto simp: fs_read_Inr fs_size_def)
  moreover have "real_path fs r" using r(2) resolve_real [of fs "[]"] by (simp add: canonicalize_Inr)
  ultimately show ?thesis using that r by blast
qed

text \<open>C37. What was saved can be read: if saving an image succeeds, a later read of the URL it returned, in the same file
  system, gives back the very bytes with the type they have, provided that the image is of a known format and not over
  the size limit, that there are no symbolic links below the directory of images, that the later read meets no fault, and
  that the identifier made from the contents has no slash and no null character.\<close>

theorem saved_image_read_back:
  assumes "save_image_binary ic io device_id metric ts bytes data_dir counter fs = (Inr url, counter', fs')"
    and "\<forall>im q t. canonicalize fs' (data_dir @ [''images'']) = Inr im \<longrightarrow> fs' (im @ q) \<noteq> Some (Link t)"
    and "\<forall>c \<in> set (ic_content_id ic bytes). c \<noteq> CHR ''/'' \<and> c \<noteq> CHR 0x00"
    and "detect_extension bytes \<noteq> ''bin''" and "length bytes \<le> MAX_INTERNAL_IMAGE_BYTES"
    and "\<forall>p. if_stat later p = None \<and> if_read later p = None"
  shows "read_internal_image_url later url data_dir fs' = Inr (bytes, detect_mime_from_bytes bytes)"
proof -
  obtain fs1 name suf where save: "validate_path_component device_id = Inr device_id" "validate_path_component metric = Inr metric"
      "name = image_name ic ts bytes suf" "suf = [] \<or> (\<exists>n. suf = ''_'' @ show_nat n)"
      "adds_file (metric_dir data_dir device_id metric) name bytes fs1 fs'"
      "url = ''/api/images/'' @ device_id @ ''/'' @ metric @ ''/'' @ name"
    using save_image_Inr [OF assms(1)] by metis
  note plain = image_name_plain [OF assms(3) save(4), of ts, folded save(3)]
  have parts: "CHR ''/'' \<notin> set device_id" "CHR ''/'' \<notin> set metric" "device_id \<noteq> []" "device_id \<noteq> ''..''" "metric \<noteq> ''..''"
      "CHR 0x00 \<notin> set (device_id @ metric)"
    using save(1,2) by (auto simp: validate_path_component_Inr)
  let ?path = "device_id @ ''/'' @ metric @ ''/'' @ name"
  have "path_components ?path = path_components device_id @ path_components metric @ [name]"
    using parts path_components_join plain(3) by metis
  moreover have "stores fs' (data_dir @ [''images''] @ path_components device_id @ path_components metric @ [name]) bytes"
    using save(5) by (simp add: adds_file_def metric_dir_def)
  moreover have "split_on (CHR ''/'') ?path = [device_id, metric, name]"
    using parts plain(1) by (simp add: split_on_append split_on_no_sep)
  moreover have "\<not> starts_with ?path ''/''" using parts(1,3) by (cases device_id) auto
  ultimately show ?thesis
    using read_stored_image [of fs' data_dir "path_components device_id @ path_components metric @ [name]" bytes ?path later]
      assms(2,4-6) parts plain save(6) by auto
qed

theorem saved_image_read_back_witness:
  "case save_image_binary example_crates no_faults ''cam'' ''shot'' 7 example_image [''data''] 0 Map.empty of (r, _, fs') \<Rightarrow>
     (case r of Inr url \<Rightarrow> read_internal_image_url no_faults url [''data''] fs' = Inr (example_image, detect_mime_from_bytes example_image)
      | Inl _ \<Rightarrow> False)"
proof -
  have "case fst (save_image_binary example_crates no_faults ''cam'' ''shot'' 7 example_image [''data''] 0 Map.empty) of
      Inr _ \<Rightarrow> True | Inl _ \<Rightarrow> False" by code_simp
  then obtain url counter' fs' where s: "save_image_binary example_crates no_faults ''cam'' ''shot'' 7 example_image [''data''] 0 Map.empty =
      (Inr url, counter', fs')"
    by (cases "save_image_binary example_crates no_faults ''cam'' ''shot'' 7 example_image [''data''] 0 Map.empty") (auto split: sum.splits)
  have "\<forall>im q t. canonicalize fs' ([''data''] @ [''images'']) = Inr im \<longrightarrow> fs' (im @ q) \<noteq> Some (Link t)"
    using save_image_adds_no_links [OF s] by fastforce
  from saved_image_read_back [OF s this, of no_faults] show ?thesis
    unfolding s by (simp add: example_crates_def example_image_def detect_extension_def no_faults_def MAX_INTERNAL_IMAGE_BYTES_def)
qed

end
