(* ===== verification/RateWindow.thy ===== *)
theory RateWindow
  imports Prelude
begin

text \<open>
  The contract of a counter over fixed windows of a minute, one per key: the first event of a key opens a window,
  further events in the window are let through as long as the count is below the limit, and an event after the end of
  the window opens the next one. The request limiter and the limiter of discovery events of the webhook adapter are two
  implementations that differ in when they forget old windows, which the contract allows.
\<close>

abbreviation minute :: nat where
  "minute \<equiv> 60 * 1000000000"

text \<open>The count and start of the window an event at \<open>now\<close> falls into, given the entry of its key.\<close>

definition window_of :: "instant \<Rightarrow> (nat \<times> instant) option \<Rightarrow> nat \<times> instant" where
  "window_of now e = (case e of
       Some (c, t) \<Rightarrow> if as_secs (elapsed_since now t) < 60 then (c, t) else (0, now)
     | None \<Rightarrow> (0, now))"

lemma within_minute: "as_secs (elapsed_since now t) < 60 \<longleftrightarrow> now < t + minute"
  by (auto simp: as_secs_def elapsed_since_def div_less_iff_less_mult)

lemma window_of_fresh: "window_of now e = (c, t) \<Longrightarrow> now < t + minute"
  by (auto simp: window_of_def within_minute split: option.splits if_splits prod.splits)

text \<open>As time passes a window keeps its count until it ends, and a window not yet opened starts later.\<close>

lemma window_of_later:
  assumes "window_of now e = (c, t)" and "now \<le> now'"
  shows "(\<exists>t'. window_of now' e = (c, t') \<and> t \<le> t') \<or> t + minute \<le> now' \<and> window_of now' e = (0, now')"
  using assms by (auto simp: window_of_def within_minute split: option.splits if_splits prod.splits)

locale window_counter =
  fixes admit :: "nat \<Rightarrow> instant \<Rightarrow> 'k \<Rightarrow> 's \<Rightarrow> bool \<times> 's"
    and entry :: "'s \<Rightarrow> 'k \<Rightarrow> (nat \<times> instant) option"
    and ok :: "'s \<Rightarrow> bool"
  assumes ok_step: "\<lbrakk>ok s; admit limit now k s = (b, s')\<rbrakk> \<Longrightarrow> ok s'"
    and admit_iff: "\<lbrakk>ok s; admit limit now k s = (b, s')\<rbrakk> \<Longrightarrow> b \<longleftrightarrow> fst (window_of now (entry s k)) < limit"
    and admit_entry: "\<lbrakk>ok s; admit limit now k s = (b, s'); window_of now (entry s k) = (c, t)\<rbrakk>
        \<Longrightarrow> entry s' k = Some (if b then Suc c else c, t)"
    and admit_others: "\<lbrakk>ok s; admit limit now k s = (b, s'); j \<noteq> k; now \<le> now'\<rbrakk>
        \<Longrightarrow> window_of now' (entry s' j) = window_of now' (entry s j)"
begin

text \<open>The times at which the events of a key are let through in a run.\<close>

fun admitted :: "nat \<Rightarrow> 'k \<Rightarrow> (instant \<times> 'k) list \<Rightarrow> 's \<Rightarrow> instant list" where
  "admitted limit k [] s = []"
| "admitted limit k ((now, j) # xs) s =
     (let (b, s') = admit limit now j s in (if b \<and> j = k then [now] else []) @ admitted limit k xs s')"

abbreviation before :: "instant \<Rightarrow> instant list \<Rightarrow> nat" where
  "before b ts \<equiv> length (filter (\<lambda>t. t < b) ts)"

lemma admitted_from: "sorted (now # map fst xs) \<Longrightarrow> t \<in> set (admitted limit k xs s) \<Longrightarrow> now \<le> t"
  by (induction xs arbitrary: s) (auto split: prod.splits if_splits)

lemma before_none: "sorted (now # map fst xs) \<Longrightarrow> b \<le> now \<Longrightarrow> before b (admitted limit k xs s) = 0"
  using admitted_from [of now xs _ limit k s] by (fastforce simp: filter_empty_conv)

text \<open>One event: what is let through of the key, and the window that the rest of the run starts with.\<close>

lemma admitted_step:
  assumes "ok s" and "admit limit now j s = (b, s')" and "window_of now (entry s k) = (c, t)"
  obtains c' where "window_of now (entry s' k) = (c', t)"
    and "c' = c + (if b \<and> j = k then 1 else 0)" and "b \<Longrightarrow> j = k \<Longrightarrow> c < limit"
proof (cases "j = k")
  case True
  with assms admit_entry [of s limit now j b s' c t] admit_iff [of s limit now j b s'] window_of_fresh [OF assms(3)]
  show ?thesis using that by (cases b) (auto simp: window_of_def within_minute)
next
  case False
  with assms admit_others [of s limit now j b s' k now] show ?thesis using that by auto
qed

lemma in_window:
  assumes "ok s" and "sorted (now # map fst xs)" and "window_of now (entry s k) = (c, t)" and "b \<le> t + minute"
  shows "before b (admitted limit k xs s) \<le> limit - c"
  using assms
proof (induction xs arbitrary: s now c t)
  case (Cons x xs)
  obtain now' j where x: "x = (now', j)" by (cases x)
  obtain r s' where at: "admit limit now' j s = (r, s')" by (cases "admit limit now' j s")
  have le: "now \<le> now'" "sorted (now' # map fst xs)" using Cons.prems(2) x by auto
  show ?case
  proof (cases "b \<le> now'")
    case True
    then have "before b (admitted limit k (x # xs) s) = 0"
      using before_none [of now' "x # xs" b limit k s] Cons.prems(2) x by simp
    then show ?thesis by simp
  next
    case False
    then obtain t' where t': "window_of now' (entry s k) = (c, t')" "t \<le> t'"
      using window_of_later [OF Cons.prems(3) le(1)] Cons.prems(4) by fastforce
    from admitted_step [OF Cons.prems(1) at t'(1)] obtain c' where c': "window_of now' (entry s' k) = (c', t')"
      "c' = c + (if r \<and> j = k then 1 else 0)" "r \<Longrightarrow> j = k \<Longrightarrow> c < limit" by metis
    have "before b (admitted limit k xs s') \<le> limit - c'"
      using Cons.IH [OF ok_step [OF Cons.prems(1) at] le(2) c'(1)] Cons.prems(4) t'(2) by simp
    then show ?thesis using c'(2,3) x at by auto
  qed
qed simp

lemma in_two_windows:
  assumes "ok s" and "sorted (now # map fst xs)" and "window_of now (entry s k) = (c, t)" and "b \<le> t + 2 * minute"
  shows "before b (admitted limit k xs s) \<le> (limit - c) + limit"
  using assms
proof (induction xs arbitrary: s now c t)
  case (Cons x xs)
  obtain now' j where x: "x = (now', j)" by (cases x)
  obtain r s' where at: "admit limit now' j s = (r, s')" by (cases "admit limit now' j s")
  have le: "now \<le> now'" "sorted (now' # map fst xs)" using Cons.prems(2) x by auto
  from window_of_later [OF Cons.prems(3) le(1)] show ?case
  proof
    assume "\<exists>t'. window_of now' (entry s k) = (c, t') \<and> t \<le> t'"
    then obtain t' where t': "window_of now' (entry s k) = (c, t')" "t \<le> t'" by blast
    from admitted_step [OF Cons.prems(1) at t'(1)] obtain c' where c': "window_of now' (entry s' k) = (c', t')"
      "c' = c + (if r \<and> j = k then 1 else 0)" "r \<Longrightarrow> j = k \<Longrightarrow> c < limit" by metis
    have "before b (admitted limit k xs s') \<le> (limit - c') + limit"
      using Cons.IH [OF ok_step [OF Cons.prems(1) at] le(2) c'(1)] Cons.prems(4) t'(2) by simp
    then show ?thesis using c'(2,3) x at by auto
  next
    assume "t + minute \<le> now' \<and> window_of now' (entry s k) = (0, now')"
    then have "before b (admitted limit k (x # xs) s) \<le> limit - 0"
      using in_window [of s now' "x # xs" k 0 now' b limit] Cons.prems(1,2,4) x by simp
    then show ?thesis by simp
  qed
qed simp

lemma at_most_two_limits:
  assumes "ok s" and "sorted (map fst xs)"
  shows "length (filter (\<lambda>t. start \<le> t \<and> t < start + minute) (admitted limit k xs s)) \<le> 2 * limit"
  using assms
proof (induction xs arbitrary: s)
  case (Cons x xs)
  obtain now j where x: "x = (now, j)" by (cases x)
  obtain r s' where at: "admit limit now j s = (r, s')" by (cases "admit limit now j s")
  show ?case
  proof (cases "now < start")
    case True
    then show ?thesis using Cons ok_step [OF Cons.prems(1) at] x at by simp
  next
    case False
    obtain c t where w: "window_of now (entry s k) = (c, t)" by fastforce
    have "before (start + minute) (admitted limit k (x # xs) s) \<le> (limit - c) + limit"
      using in_two_windows [OF Cons.prems(1) _ w, of "x # xs" "start + minute" limit] Cons.prems(2) False window_of_fresh [OF w] x by simp
    moreover have "length (filter (\<lambda>t. start \<le> t \<and> t < start + minute) ts) \<le> before (start + minute) ts" for ts
      by (induction ts) auto
    ultimately show ?thesis by (smt (verit) le_trans add_mono diff_le_self le_refl mult_2)
  qed
qed simp

end

end
