(* ===== verification/WebhookAdapter.thy ===== *)
theory WebhookAdapter
  imports Adapter Extractor ImageStore RateWindow "HOL-Library.Word"
begin

text \<open>
  The webhook adapter, \<open>heramind-devices/src/adapters/webhook.rs\<close>: devices push data by HTTP, the adapter checks
  credentials and rates, reports devices it does not know, and turns the data into metrics, which it stores and
  publishes.

  Events handed to the adapter's own channel and to the event bus, and points handed to the telemetry storage, are
  appended to lists of the state; the adapter ignores what becomes of them. The registry the adapter looks devices up in
  and the one its extractor was made with are arguments of a call, since both are shared with other components; so are
  the readings of the clock, in the order of the code, and the failures of file operations, one set per metric.
\<close>

unbundle bit_operations_syntax

section \<open>Configuration and state\<close>

record webhook_adapter_config =
  wc_name :: string
  wc_api_key :: "string option"
  wc_allowed_ips :: "string list"
  wc_blocked_ips :: "string list"
  wc_rate_limit_per_minute :: "u32 option"
  wc_storage_dir :: "string option"
  wc_discovery_rate_per_minute :: u32

definition default_discovery_rate :: u32 where
  "default_discovery_rate = 30"

definition webhook_config_new :: "string \<Rightarrow> webhook_adapter_config" where
  "webhook_config_new name =
     \<lparr>wc_name = name, wc_api_key = None, wc_allowed_ips = [], wc_blocked_ips = [], wc_rate_limit_per_minute = None,
      wc_storage_dir = None, wc_discovery_rate_per_minute = default_discovery_rate\<rparr>"

definition with_api_key :: "string \<Rightarrow> webhook_adapter_config \<Rightarrow> webhook_adapter_config" where
  "with_api_key key c = c\<lparr>wc_api_key := Some key\<rparr>"

definition with_allowed_ip :: "string \<Rightarrow> webhook_adapter_config \<Rightarrow> webhook_adapter_config" where
  "with_allowed_ip ip c = c\<lparr>wc_allowed_ips := wc_allowed_ips c @ [ip]\<rparr>"

definition with_blocked_ip :: "string \<Rightarrow> webhook_adapter_config \<Rightarrow> webhook_adapter_config" where
  "with_blocked_ip ip c = c\<lparr>wc_blocked_ips := wc_blocked_ips c @ [ip]\<rparr>"

definition with_rate_limit :: "u32 \<Rightarrow> webhook_adapter_config \<Rightarrow> webhook_adapter_config" where
  "with_rate_limit limit c = c\<lparr>wc_rate_limit_per_minute := Some limit\<rparr>"

record webhook_payload =
  wp_device_id :: "string option"
  wp_timestamp :: "int option"
  wp_quality :: "f32 option"
  wp_data :: json

type_synonym rate_counts = "(string, nat \<times> instant) hash_map"

record webhook_adapter =
  wa_name :: string
  wa_config :: webhook_adapter_config
  wa_event_bus :: "heramind_event list option"
  wa_events :: "device_event list"
  wa_running :: bool
  wa_devices :: "string list"
  wa_telemetry :: "(string \<times> string \<times> int \<times> device_value) list option"
  wa_request_count :: rate_counts
  wa_discovery_count :: rate_counts
  wa_data_dir :: "path option"
  wa_image_counter :: nat
  wa_files :: file_system

definition webhook_new :: "webhook_adapter_config \<Rightarrow> heramind_event list option \<Rightarrow> nat \<Rightarrow> file_system \<Rightarrow> webhook_adapter" where
  "webhook_new config event_bus counter files =
     \<lparr>wa_name = wc_name config, wa_config = config, wa_event_bus = event_bus, wa_events = [], wa_running = False, wa_devices = [],
      wa_telemetry = None, wa_request_count = [], wa_discovery_count = [], wa_data_dir = None, wa_image_counter = counter,
      wa_files = files\<rparr>"

definition wa_set_event_bus :: "heramind_event list \<Rightarrow> webhook_adapter \<Rightarrow> webhook_adapter" where
  "wa_set_event_bus bus wa = wa\<lparr>wa_event_bus := Some bus\<rparr>"

definition wa_set_telemetry_storage :: "(string \<times> string \<times> int \<times> device_value) list \<Rightarrow> webhook_adapter \<Rightarrow> webhook_adapter" where
  "wa_set_telemetry_storage storage wa = wa\<lparr>wa_telemetry := Some storage\<rparr>"

definition wa_set_data_dir :: "path \<Rightarrow> webhook_adapter \<Rightarrow> webhook_adapter" where
  "wa_set_data_dir dir wa = wa\<lparr>wa_data_dir := Some dir\<rparr>"

section \<open>Checks\<close>

definition byte :: "char \<Rightarrow> 8 word" where
  "byte c = of_char c"

definition constant_time_eq :: "string \<Rightarrow> string \<Rightarrow> bool" where
  "constant_time_eq a b =
     (if length a \<noteq> length b then False
      else foldl (\<lambda>result (x, y). result OR (byte x XOR byte y)) 0 (zip a b) = 0)"

definition validate_request :: "webhook_adapter_config \<Rightarrow> string option \<Rightarrow> string option \<Rightarrow> (adapter_error, unit) rust_result" where
  "validate_request c provided_api_key remote_ip =
     and_then (case wc_api_key c of
         None \<Rightarrow> Inr ()
       | Some expected_key \<Rightarrow> (case provided_api_key of
           Some key \<Rightarrow> if constant_time_eq key expected_key then Inr () else Inl (AeConnection ''Invalid API key'')
         | None \<Rightarrow> Inl (AeConnection ''Missing API key''))) (\<lambda>_.
     and_then (case remote_ip of
         Some ip \<Rightarrow> if ip \<in> set (wc_blocked_ips c) then Inl (AeConnection (''IP '' @ ip @ '' is blocked'')) else Inr ()
       | None \<Rightarrow> Inr ()) (\<lambda>_.
     if wc_allowed_ips c \<noteq> [] then
       (case remote_ip of
          Some ip \<Rightarrow> if ip \<notin> set (wc_allowed_ips c) then Inl (AeConnection (''IP '' @ ip @ '' not in whitelist'')) else Inr ()
        | None \<Rightarrow> Inr ())
     else Inr ()))"

text \<open>The per-device token, from the settings of a registered device.\<close>

definition check_token :: "local_device option \<Rightarrow> string option \<Rightarrow> (adapter_error, unit) rust_result" where
  "check_token device_info provided_token =
     (case Option.bind device_info (\<lambda>d. Option.bind (hm_get (cn_extra (dc_connection_config d)) ''webhook_token'') read_string) of
        None \<Rightarrow> Inr ()
      | Some expected \<Rightarrow> (case provided_token of
          Some token \<Rightarrow> if constant_time_eq token expected then Inr () else Inl (AeConnection ''Invalid webhook token'')
        | None \<Rightarrow> Inl (AeConnection ''Webhook token required'')))"

text \<open>Dropping the entries older than a minute.\<close>

definition retain_recent :: "instant \<Rightarrow> rate_counts \<Rightarrow> rate_counts" where
  "retain_recent now counts = filter (\<lambda>(_, _, ts). as_secs (elapsed_since now ts) < 60) counts"

definition admit_request :: "nat \<Rightarrow> instant \<Rightarrow> string \<Rightarrow> rate_counts \<Rightarrow> bool \<times> rate_counts" where
  "admit_request limit now device_id counts =
     (let counts = (if length counts > 1000 then retain_recent now counts else counts);
          (count, ts) = unwrap_or (hm_get counts device_id) (0, now);
          (count, ts) = (if as_secs (elapsed_since now ts) \<ge> 60 then (0, now) else (count, ts))
      in if count \<ge> limit then (False, hm_insert device_id (count, ts) counts)
         else (True, hm_insert device_id (count + 1, ts) counts))"

definition check_rate_limit :: "instant \<Rightarrow> string \<Rightarrow> webhook_adapter \<Rightarrow> (adapter_error, unit) rust_result \<times> webhook_adapter" where
  "check_rate_limit now device_id wa =
     (case wc_rate_limit_per_minute (wa_config wa) of
        None \<Rightarrow> (Inr (), wa)
      | Some limit \<Rightarrow> (case admit_request (unat limit) now device_id (wa_request_count wa) of
          (False, counts) \<Rightarrow> (Inl (AeConnection ''Rate limit exceeded''), wa\<lparr>wa_request_count := counts\<rparr>)
        | (True, counts) \<Rightarrow> (Inr (), wa\<lparr>wa_request_count := counts\<rparr>)))"

definition admit_discovery :: "nat \<Rightarrow> instant \<Rightarrow> string \<Rightarrow> rate_counts \<Rightarrow> bool \<times> rate_counts" where
  "admit_discovery limit now ip_key counts =
     (let counts = retain_recent now counts; (count, ts) = unwrap_or (hm_get counts ip_key) (0, now)
      in if count \<ge> limit then (False, hm_insert ip_key (count, ts) counts)
         else (True, hm_insert ip_key (count + 1, ts) counts))"

section \<open>Emitting metrics\<close>

record webhook_env =
  we_to_text :: "json \<Rightarrow> string"
  we_crates :: image_crates

text \<open>Saving an image changes the file system and the counter of names.\<close>

definition save_for :: "webhook_env \<Rightarrow> io_faults \<Rightarrow> string \<Rightarrow> string \<Rightarrow> int \<Rightarrow> string \<Rightarrow> path \<Rightarrow> webhook_adapter \<Rightarrow> string option \<times> webhook_adapter" where
  "save_for env io device_id metric_name ts bytes dir wa =
     (case save_image_binary (we_crates env) io device_id metric_name ts bytes dir (wa_image_counter wa) (wa_files wa) of
        (r, counter, files) \<Rightarrow>
          (case r of Inr url \<Rightarrow> Some url | Inl _ \<Rightarrow> None, wa\<lparr>wa_image_counter := counter, wa_files := files\<rparr>))"

definition convert_binary_to_url ::
    "webhook_env \<Rightarrow> io_faults \<Rightarrow> string \<Rightarrow> string \<Rightarrow> int \<Rightarrow> device_value \<Rightarrow> webhook_adapter \<Rightarrow> device_value \<times> webhook_adapter" where
  "convert_binary_to_url env io device_id metric_name ts v wa =
     (case v of
        DvBinary bytes \<Rightarrow> (case wa_data_dir wa of
            None \<Rightarrow> (DvBinary bytes, wa)
          | Some dir \<Rightarrow> (case save_for env io device_id metric_name ts bytes dir wa of
              (Some url, wa) \<Rightarrow> (DvString url, wa)
            | (None, wa) \<Rightarrow> (DvBinary bytes, wa)))
      | DvString s \<Rightarrow> (case try_decode_base64_image (we_crates env) s of
            None \<Rightarrow> (DvString s, wa)
          | Some bytes \<Rightarrow> (case wa_data_dir wa of
              None \<Rightarrow> (DvString s, wa)
            | Some dir \<Rightarrow> (case save_for env io device_id metric_name ts bytes dir wa of
                (Some url, wa) \<Rightarrow> (DvString url, wa)
              | (None, wa) \<Rightarrow> (DvString s, wa))))
      | other \<Rightarrow> (other, wa))"

fun webhook_core_value :: "device_value \<Rightarrow> metric_value" where
  "webhook_core_value (DvInteger i) = Integer i"
| "webhook_core_value (DvFloat f) = Float f"
| "webhook_core_value (DvString s) = String s"
| "webhook_core_value (DvBoolean b) = Boolean b"
| "webhook_core_value (DvArray xs) = Json (JArray (map scalar_json xs))"
| "webhook_core_value (DvBinary _) = Json JNull"
| "webhook_core_value DvNull = Json JNull"

definition wa_publish :: "heramind_event \<Rightarrow> webhook_adapter \<Rightarrow> webhook_adapter" where
  "wa_publish e wa = wa\<lparr>wa_event_bus := map_option (\<lambda>es. es @ [e]) (wa_event_bus wa)\<rparr>"

definition emit_metric_event ::
    "webhook_env \<Rightarrow> io_faults \<Rightarrow> string \<Rightarrow> string \<Rightarrow> device_value \<Rightarrow> int \<Rightarrow> webhook_adapter \<Rightarrow> webhook_adapter" where
  "emit_metric_event env io device_id metric_name v ts wa =
     (let (v, wa) = convert_binary_to_url env io device_id metric_name ts v wa;
          wa = wa\<lparr>wa_events := wa_events wa @ [MetricEvent device_id metric_name v ts]\<rparr>;
          wa = wa\<lparr>wa_telemetry := map_option (\<lambda>ps. ps @ [(''device:'' @ device_id, metric_name, ts, v)]) (wa_telemetry wa)\<rparr>
      in wa_publish (DeviceMetric device_id metric_name (webhook_core_value v) ts None None) wa)"

fun emit_metrics :: "webhook_env \<Rightarrow> (nat \<Rightarrow> io_faults) \<Rightarrow> nat \<Rightarrow> string \<Rightarrow> int \<Rightarrow> extracted_metric list \<Rightarrow> webhook_adapter \<Rightarrow> nat \<times> webhook_adapter" where
  "emit_metrics env io n device_id ts [] wa = (n, wa)"
| "emit_metrics env io n device_id ts (m # ms) wa =
     emit_metrics env io (n + 1) device_id ts ms (emit_metric_event env (io n) device_id (xm_name m) (xm_value m) ts wa)"

section \<open>Processing a request\<close>

record webhook_call =
  wk_device_id :: string
  wk_payload :: webhook_payload
  wk_token :: "string option"
  wk_api_key :: "string option"
  wk_remote_ip :: "string option"
  wk_rate_now :: instant
  wk_normalize_now :: date_time
  wk_now :: date_time
  wk_discovery_now :: instant
  wk_io :: "nat \<Rightarrow> io_faults"

definition announce_online :: "string \<Rightarrow> string \<Rightarrow> bool \<Rightarrow> int \<Rightarrow> webhook_adapter \<Rightarrow> webhook_adapter" where
  "announce_online device_id device_type is_registered ts wa =
     (if device_id \<in> set (wa_devices wa) then wa
      else let wa = wa\<lparr>wa_devices := wa_devices wa @ [device_id]\<rparr>
           in if is_registered then wa_publish (DeviceOnline device_id device_type ts) wa else wa)"

definition announce_discovery :: "webhook_call \<Rightarrow> bool \<Rightarrow> int \<Rightarrow> webhook_adapter \<Rightarrow> webhook_adapter" where
  "announce_discovery call is_registered ts wa =
     (if is_registered then wa
      else case admit_discovery (max (unat (wc_discovery_rate_per_minute (wa_config wa))) 1) (wk_discovery_now call)
                (unwrap_or (wk_remote_ip call) ''unknown'') (wa_discovery_count wa) of
        (should_emit, counts) \<Rightarrow>
          let wa = wa\<lparr>wa_discovery_count := counts\<rparr>
          in if should_emit then
               wa_publish (DeviceDiscovered (wk_device_id call) ''webhook'' (Some (wa_name wa))
                   (JObject [(''endpoint'', JString (''webhook:'' @ wa_name wa))]) (wp_data (wk_payload call)) False ts)
                 (wa\<lparr>wa_events := wa_events wa @ [DiscoveryEvent
                    \<lparr>dd_device_id = wk_device_id call, dd_device_type = ''unknown'', dd_name = None,
                     dd_endpoint = Some (''webhook:'' @ wa_name wa), dd_capabilities = [], dd_timestamp = ts,
                     dd_metadata = JObject [(''source'', JString ''webhook''), (''adapter_id'', JString (wa_name wa))]\<rparr>]\<rparr>)
             else wa)"

definition process_webhook ::
    "webhook_env \<Rightarrow> 'd device_registry \<Rightarrow> 'd device_registry \<Rightarrow> webhook_call \<Rightarrow> webhook_adapter
      \<Rightarrow> (adapter_error, nat) rust_result call \<times> webhook_adapter" where
  "process_webhook env registry extractor_registry call wa =
     (let device_info = dr_get_device (wk_device_id call) registry;
          is_registered = (device_info \<noteq> None);
          device_type = (case device_info of Some d \<Rightarrow> dc_device_type d | None \<Rightarrow> ''webhook'')
      in case and_then (validate_request (wa_config wa) (wk_api_key call) (wk_remote_ip call))
                (\<lambda>_. check_token device_info (wk_token call)) of
           Inl e \<Rightarrow> (Returns (Inl e), wa)
         | Inr _ \<Rightarrow>
             (case check_rate_limit (wk_rate_now call) (wk_device_id call) wa of
                (Inl e, wa) \<Rightarrow> (Returns (Inl e), wa)
              | (Inr _, wa) \<Rightarrow>
                  let ts = unwrap_or (Option.bind (wp_timestamp (wk_payload call)) (normalize_epoch_seconds (wk_normalize_now call)))
                             (timestamp (wk_now call));
                      wa = announce_online (wk_device_id call) device_type is_registered ts wa;
                      wa = announce_discovery call is_registered ts wa
                  in case ux_extract extraction_config_default (we_to_text env) extractor_registry device_type (wp_data (wk_payload call)) of
                       Panics \<Rightarrow> (Panics, wa)
                     | Returns result \<Rightarrow>
                         (case emit_metrics env (wk_io call) 0 (wk_device_id call) ts (xr_metrics result) wa of
                            (n, wa) \<Rightarrow> (Returns (Inr n), wa))))"

section \<open>Adapter interface\<close>

definition get_webhook_url :: "string \<Rightarrow> string \<Rightarrow> string" where
  "get_webhook_url base_url device_id = base_url @ ''/api/devices/'' @ device_id @ ''/webhook''"

definition wa_start :: "webhook_adapter \<Rightarrow> (adapter_error, unit) rust_result \<times> webhook_adapter" where
  "wa_start wa = (Inr (), if wa_running wa then wa else wa\<lparr>wa_running := True\<rparr>)"

definition wa_stop :: "webhook_adapter \<Rightarrow> (adapter_error, unit) rust_result \<times> webhook_adapter" where
  "wa_stop wa = (Inr (), wa\<lparr>wa_running := False\<rparr>)"

text \<open>Reading the list of devices fails while another task holds the lock for writing.\<close>

definition wa_device_count :: "bool \<Rightarrow> webhook_adapter \<Rightarrow> nat" where
  "wa_device_count locked wa = (if locked then 0 else length (wa_devices wa))"

definition wa_list_devices :: "bool \<Rightarrow> webhook_adapter \<Rightarrow> string list" where
  "wa_list_devices locked wa = (if locked then [] else wa_devices wa)"

definition wa_send_command :: "webhook_adapter \<Rightarrow> (adapter_error, unit) rust_result" where
  "wa_send_command wa = Inl (AeConfiguration ''Webhook adapter is receive-only and cannot send commands'')"

definition wa_connection_status :: "bool \<Rightarrow> webhook_adapter \<Rightarrow> connection_status" where
  "wa_connection_status locked wa = (if \<not> locked \<and> wa_running wa then StConnected else StDisconnected)"

definition wa_subscribe_device :: "string \<Rightarrow> webhook_adapter \<Rightarrow> (adapter_error, unit) rust_result \<times> webhook_adapter" where
  "wa_subscribe_device device_id wa =
     (Inr (), if device_id \<in> set (wa_devices wa) then wa else wa\<lparr>wa_devices := wa_devices wa @ [device_id]\<rparr>)"

definition wa_unsubscribe_device :: "string \<Rightarrow> webhook_adapter \<Rightarrow> (adapter_error, unit) rust_result \<times> webhook_adapter" where
  "wa_unsubscribe_device device_id wa = (Inr (), wa\<lparr>wa_devices := filter (\<lambda>d. d \<noteq> device_id) (wa_devices wa)\<rparr>)"

section \<open>Comparison of secrets\<close>

lemma byte_inject: "byte x = byte y \<longleftrightarrow> x = y"
proof -
  have "unat (byte c) = of_char c" for c
    using unat_of_nat [where 'a = 8, of "of_char c"] by (simp add: byte_def of_nat_of_char)
  then show ?thesis by (metis char_of_char)
qed

lemma xor_zero_iff: "x XOR y = 0 \<longleftrightarrow> x = y" for x y :: "8 word"
  by (auto simp: bit_eq_iff bit_xor_iff)

lemma or_fold_zero:
  "foldl (\<lambda>result (x, y). result OR (byte x XOR byte y)) r (zip a b) = 0 \<longleftrightarrow> r = 0 \<and> (\<forall>(x, y) \<in> set (zip a b). x = y)"
proof (induction a b arbitrary: r rule: list_induct2')
  case (4 x xs y ys)
  have "r OR (byte x XOR byte y) = 0 \<longleftrightarrow> r = 0 \<and> x = y"
    using byte_inject [of x y] xor_zero_iff [of "byte x" "byte y"] by (auto simp: or_eq_0_iff)
  with 4 show ?case by auto
qed simp_all

text \<open>Comparing secrets without an early exit is still equality.\<close>

lemma constant_time_eq_iff: "constant_time_eq a b \<longleftrightarrow> a = b"
  unfolding constant_time_eq_def or_fold_zero by (auto simp: list_eq_iff_zip_eq)

section \<open>Limiters\<close>

lemma hm_wf_filter: "hm_wf m \<Longrightarrow> hm_wf (filter P m)"
  by (simp add: distinct_map_filter)

lemma retain_recent_get:
  "hm_wf counts \<Longrightarrow> hm_get (retain_recent now counts) k
    = (case hm_get counts k of Some (c, t) \<Rightarrow> if as_secs (elapsed_since now t) < 60 then Some (c, t) else None | None \<Rightarrow> None)"
  by (simp add: retain_recent_def hm_get_filter split: option.splits prod.splits)

lemma retain_recent_wf: "hm_wf counts \<Longrightarrow> hm_wf (retain_recent now counts)"
  by (simp add: retain_recent_def hm_wf_filter)

lemma retain_recent_window:
  "hm_wf counts \<Longrightarrow> now \<le> now' \<Longrightarrow> window_of now' (hm_get (retain_recent now counts) k) = window_of now' (hm_get counts k)"
  by (auto simp: retain_recent_get window_of_def within_minute split: option.splits prod.splits)

interpretation requests: window_counter admit_request hm_get hm_wf
proof
  fix s :: rate_counts and limit now now' k j b s' c t
  let ?s = "if length s > 1000 then retain_recent now s else s"
  assume ok: "hm_wf s" and at: "admit_request limit now k s = (b, s')"
  obtain c0 t0 where w0: "window_of now (hm_get s k) = (c0, t0)" by fastforce
  have wf: "hm_wf ?s" using ok retain_recent_wf by simp
  have same: "now \<le> u \<Longrightarrow> window_of u (hm_get ?s i) = window_of u (hm_get s i)" for u i
    using retain_recent_window [OF ok] by simp
  have "(let (count, ts) = unwrap_or (hm_get ?s k) (0, now) in if as_secs (elapsed_since now ts) \<ge> 60 then (0, now) else (count, ts)) = (c0, t0)"
    using w0 same [of now k] by (auto simp: window_of_def not_less elapsed_since_def as_secs_def split: option.splits if_splits prod.splits)
  then have at': "(b, s') = (if c0 \<ge> limit then (False, hm_insert k (c0, t0) ?s) else (True, hm_insert k (c0 + 1, t0) ?s))"
    using at unfolding admit_request_def Let_def by (auto split: prod.splits if_splits)
  then show "hm_wf s'" using wf by (auto split: if_splits)
  show "b \<longleftrightarrow> fst (window_of now (hm_get s k)) < limit" using at' w0 by (auto split: if_splits)
  show "window_of now (hm_get s k) = (c, t) \<Longrightarrow> hm_get s' k = Some (if b then Suc c else c, t)"
    using at' w0 by (auto split: if_splits)
  show "j \<noteq> k \<Longrightarrow> now \<le> now' \<Longrightarrow> window_of now' (hm_get s' j) = window_of now' (hm_get s j)"
    using at' same by (auto split: if_splits)
qed

interpretation discoveries: window_counter admit_discovery hm_get hm_wf
proof
  fix s :: rate_counts and limit now now' k j b s' c t
  let ?s = "retain_recent now s"
  assume ok: "hm_wf s" and at: "admit_discovery limit now k s = (b, s')"
  obtain c0 t0 where w0: "window_of now (hm_get s k) = (c0, t0)" by fastforce
  have same: "now \<le> u \<Longrightarrow> window_of u (hm_get ?s i) = window_of u (hm_get s i)" for u i
    using retain_recent_window [OF ok] by simp
  have "unwrap_or (hm_get ?s k) (0, now) = (c0, t0)"
    using w0 by (auto simp: window_of_def retain_recent_get [OF ok] split: option.splits if_splits prod.splits)
  then have at': "(b, s') = (if c0 \<ge> limit then (False, hm_insert k (c0, t0) ?s) else (True, hm_insert k (c0 + 1, t0) ?s))"
    using at unfolding admit_discovery_def Let_def by simp
  then show "hm_wf s'" using retain_recent_wf [OF ok] by (auto split: if_splits)
  show "b \<longleftrightarrow> fst (window_of now (hm_get s k)) < limit" using at' w0 by (auto split: if_splits)
  show "window_of now (hm_get s k) = (c, t) \<Longrightarrow> hm_get s' k = Some (if b then Suc c else c, t)"
    using at' w0 by (auto split: if_splits)
  show "j \<noteq> k \<Longrightarrow> now \<le> now' \<Longrightarrow> window_of now' (hm_get s' j) = window_of now' (hm_get s j)"
    using at' same by (auto split: if_splits)
qed

lemma discovery_rate_bounded:
  "hm_wf counts \<Longrightarrow> sorted (map fst xs) \<Longrightarrow>
    length (filter (\<lambda>t. start \<le> t \<and> t < start + minute) (discoveries.admitted limit ip xs counts)) \<le> 2 * limit"
  by (rule discoveries.at_most_two_limits)

section \<open>What a request may change\<close>

text \<open>The steps after the limiter leave the configuration and the request counts alone.\<close>

definition same_limits :: "webhook_adapter \<Rightarrow> webhook_adapter \<Rightarrow> bool" where
  "same_limits wa wa' \<longleftrightarrow> wa_config wa' = wa_config wa \<and> wa_request_count wa' = wa_request_count wa"

lemma same_limits_refl [simp]: "same_limits wa wa"
  by (simp add: same_limits_def)

lemma same_limits_trans: "same_limits wa wa' \<Longrightarrow> same_limits wa' wa'' \<Longrightarrow> same_limits wa wa''"
  by (simp add: same_limits_def)

lemma publish_limits [simp]: "same_limits wa (wa_publish e wa')  \<longleftrightarrow> same_limits wa wa'"
  by (simp add: same_limits_def wa_publish_def)

lemma save_for_limits: "save_for env io d m ts bytes dir wa = (r, wa') \<Longrightarrow> same_limits wa wa'"
  by (auto simp: save_for_def same_limits_def split: prod.splits sum.splits)

lemma convert_limits: "convert_binary_to_url env io d m ts v wa = (v', wa') \<Longrightarrow> same_limits wa wa'"
  by (auto simp: convert_binary_to_url_def split: device_value.splits option.splits prod.splits dest: save_for_limits)

lemma emit_limits: "same_limits wa (emit_metric_event env io d m v ts wa)"
proof -
  obtain v' wa' where "convert_binary_to_url env io d m ts v wa = (v', wa')" by fastforce
  with convert_limits [OF this] show ?thesis by (simp add: emit_metric_event_def wa_publish_def same_limits_def)
qed

lemma emit_all_limits: "emit_metrics env io n d ts ms wa = (k, wa') \<Longrightarrow> same_limits wa wa' \<and> k = n + length ms"
proof (induction ms arbitrary: n wa)
  case (Cons m ms)
  let ?wa = "emit_metric_event env (io n) d (xm_name m) (xm_value m) ts wa"
  have "same_limits ?wa wa' \<and> k = Suc n + length ms" using Cons.IH [of "Suc n" ?wa] Cons.prems by simp
  with emit_limits [of wa env "io n" d "xm_name m" "xm_value m" ts] show ?case by (auto intro: same_limits_trans)
qed simp

lemma announce_limits: "same_limits wa (announce_discovery call r ts (announce_online d ty r' ts' wa))"
  by (auto simp: announce_discovery_def announce_online_def wa_publish_def same_limits_def Let_def split: prod.splits)

section \<open>Credentials\<close>

text \<open>What a request must carry.\<close>

definition authorized :: "webhook_adapter_config \<Rightarrow> local_device option \<Rightarrow> webhook_call \<Rightarrow> bool" where
  "authorized c device call \<longleftrightarrow>
     (wc_api_key c = None \<or> wk_api_key call = wc_api_key c)
     \<and> (case wk_remote_ip call of None \<Rightarrow> True
        | Some ip \<Rightarrow> ip \<notin> set (wc_blocked_ips c) \<and> (wc_allowed_ips c = [] \<or> ip \<in> set (wc_allowed_ips c)))
     \<and> (case device of None \<Rightarrow> True
        | Some d \<Rightarrow> (case hm_get (cn_extra (dc_connection_config d)) ''webhook_token'' of
            Some (JString token) \<Rightarrow> wk_token call = Some token | _ \<Rightarrow> True))"

lemma read_string_Some [simp]: "read_string j = Some s \<longleftrightarrow> j = JString s"
  by (cases j) auto

lemma validate_request_iff:
  "validate_request c key ip = Inr () \<longleftrightarrow> (wc_api_key c = None \<or> key = wc_api_key c)
     \<and> (case ip of None \<Rightarrow> True | Some ip \<Rightarrow> ip \<notin> set (wc_blocked_ips c) \<and> (wc_allowed_ips c = [] \<or> ip \<in> set (wc_allowed_ips c)))"
  by (auto simp: validate_request_def constant_time_eq_iff split: option.splits if_splits)

lemma check_token_iff:
  "check_token device token = Inr () \<longleftrightarrow> (case device of None \<Rightarrow> True
     | Some d \<Rightarrow> (case hm_get (cn_extra (dc_connection_config d)) ''webhook_token'' of
         Some (JString t) \<Rightarrow> token = Some t | _ \<Rightarrow> True))"
  by (auto simp: check_token_def constant_time_eq_iff bind_eq_Some_conv bind_eq_None_conv split: option.splits json.splits if_splits)

lemma checks_Inl:
  "and_then (validate_request c key ip) (\<lambda>_. check_token device token) = Inl e \<Longrightarrow> \<exists>msg. e = AeConnection msg"
  by (auto simp: validate_request_def check_token_def split: option.splits if_splits)

lemma checks_authorized:
  "and_then (validate_request c (wk_api_key call) (wk_remote_ip call)) (\<lambda>_. check_token device (wk_token call)) = Inr ()
    \<longleftrightarrow> authorized c device call"
  by (simp add: validate_request_iff check_token_iff authorized_def)

lemma process_unauthorized:
  assumes "\<not> authorized (wa_config wa) (dr_get_device (wk_device_id call) registry) call"
  shows "\<exists>msg. process_webhook env registry xregistry call wa = (Returns (Inl (AeConnection msg)), wa)"
proof (cases "and_then (validate_request (wa_config wa) (wk_api_key call) (wk_remote_ip call))
    (\<lambda>_. check_token (dr_get_device (wk_device_id call) registry) (wk_token call))")
  case (Inl e)
  with checks_Inl [OF Inl] show ?thesis unfolding process_webhook_def Let_def by auto
next
  case (Inr u)
  with assms checks_authorized show ?thesis by (metis old.unit.exhaust)
qed

text \<open>After the checks, a request either exceeds the rate or is processed to the end: the result is the number of
  extracted metrics, or the panic of the extraction.\<close>

definition extracted :: "webhook_env \<Rightarrow> 'd device_registry \<Rightarrow> 'd device_registry \<Rightarrow> webhook_call \<Rightarrow> extraction_result call" where
  "extracted env registry xregistry call = ux_extract extraction_config_default (we_to_text env) xregistry
     (case dr_get_device (wk_device_id call) registry of Some d \<Rightarrow> dc_device_type d | None \<Rightarrow> ''webhook'') (wp_data (wk_payload call))"

definition processed_result :: "extraction_result call \<Rightarrow> (adapter_error, nat) rust_result call" where
  "processed_result x = (case x of Panics \<Rightarrow> Panics | Returns result \<Rightarrow> Returns (Inr (length (xr_metrics result))))"

lemma process_authorized:
  assumes "authorized (wa_config wa) (dr_get_device (wk_device_id call) registry) call"
    and "process_webhook env registry xregistry call wa = (r, wa')"
  obtains (limited) "check_rate_limit (wk_rate_now call) (wk_device_id call) wa = (Inl (AeConnection ''Rate limit exceeded''), wa')"
      "r = Returns (Inl (AeConnection ''Rate limit exceeded''))"
  | (processed) wa1 where "check_rate_limit (wk_rate_now call) (wk_device_id call) wa = (Inr (), wa1)" "same_limits wa1 wa'"
      "r = processed_result (extracted env registry xregistry call)"
proof -
  obtain q wa1 where q: "check_rate_limit (wk_rate_now call) (wk_device_id call) wa = (q, wa1)" by fastforce
  show ?thesis
  proof (cases q)
    case (Inl e)
    then have "e = AeConnection ''Rate limit exceeded''" using q by (auto simp: check_rate_limit_def split: option.splits prod.splits bool.splits)
    with Inl assms q checks_authorized [of "wa_config wa" call "dr_get_device (wk_device_id call) registry"]
    show ?thesis using limited unfolding process_webhook_def Let_def by simp
  next
    case (Inr u)
    then have q: "check_rate_limit (wk_rate_now call) (wk_device_id call) wa = (Inr (), wa1)" using q by simp
    have "same_limits wa1 wa' \<and> r = processed_result (extracted env registry xregistry call)"
      using assms q checks_authorized [of "wa_config wa" call "dr_get_device (wk_device_id call) registry"]
        announce_limits emit_all_limits same_limits_trans
      unfolding process_webhook_def Let_def extracted_def processed_result_def by (fastforce split: call.splits prod.splits)
    then show ?thesis using processed q by blast
  qed
qed

text \<open>C25. Nothing comes in without credentials: a request without the configured API key, without the token of a
  registered device, from a blocked address or from a known address that is not on a configured list is answered with a
  connection error and changes nothing, be it events, telemetry, files or counters. Every other request is refused exactly
  if its device has used up the configured limit in the current window, in which case only the counts change, and
  otherwise answered with the number of metrics extracted from its data; if the extraction panics, on a malformed
  path of a template, so does the request.\<close>

theorem webhook_requires_credentials:
  assumes "process_webhook env registry xregistry call wa = (r, wa')" and "hm_wf (wa_request_count wa)"
  shows "if \<not> authorized (wa_config wa) (dr_get_device (wk_device_id call) registry) call
    then (\<exists>msg. r = Returns (Inl (AeConnection msg))) \<and> wa' = wa
    else if (case wc_rate_limit_per_minute (wa_config wa) of None \<Rightarrow> False
      | Some limit \<Rightarrow> unat limit \<le> fst (window_of (wk_rate_now call) (hm_get (wa_request_count wa) (wk_device_id call))))
    then r = Returns (Inl (AeConnection ''Rate limit exceeded'')) \<and> (\<exists>counts. wa' = wa\<lparr>wa_request_count := counts\<rparr>)
    else r = processed_result (extracted env registry xregistry call)"
proof (cases "authorized (wa_config wa) (dr_get_device (wk_device_id call) registry) call")
  case True
  have admitted: "fst (admit_request (unat limit) (wk_rate_now call) (wk_device_id call) (wa_request_count wa)) \<longleftrightarrow>
      fst (window_of (wk_rate_now call) (hm_get (wa_request_count wa) (wk_device_id call))) < unat limit" for limit :: u32
    using requests.admit_iff [OF assms(2)] by (metis prod.collapse)
  from True assms(1) show ?thesis
  proof (cases rule: process_authorized)
    case limited
    then obtain limit counts where "wc_rate_limit_per_minute (wa_config wa) = Some limit" "wa' = wa\<lparr>wa_request_count := counts\<rparr>"
      "\<not> fst (admit_request (unat limit) (wk_rate_now call) (wk_device_id call) (wa_request_count wa))"
      by (auto simp: check_rate_limit_def split: option.splits prod.splits bool.splits)
    with admitted limited True show ?thesis by auto
  next
    case (processed wa1)
    then have "wc_rate_limit_per_minute (wa_config wa) = Some limit \<Longrightarrow>
        fst (admit_request (unat limit) (wk_rate_now call) (wk_device_id call) (wa_request_count wa))" for limit
      by (auto simp: check_rate_limit_def split: option.splits prod.splits bool.splits)
    with admitted processed(3) True show ?thesis by (auto split: option.splits)
  qed
qed (use process_unauthorized [of wa call registry env xregistry] assms in auto)

definition guarded_webhook :: webhook_adapter where
  "guarded_webhook = webhook_new (with_api_key ''secret'' (webhook_config_new ''hook'')) (Some []) 0 Map.empty"

definition example_call :: webhook_call where
  "example_call = \<lparr>wk_device_id = ''cam'', wk_payload = \<lparr>wp_device_id = None, wp_timestamp = None, wp_quality = None, wp_data = example_reading\<rparr>,
     wk_token = None, wk_api_key = Some ''guess'', wk_remote_ip = None, wk_rate_now = 0, wk_normalize_now = 0, wk_now = 0,
     wk_discovery_now = 0, wk_io = (\<lambda>_. no_faults)\<rparr>"

definition example_webhook_env :: webhook_env where
  "example_webhook_env = \<lparr>we_to_text = (\<lambda>_. []), we_crates = example_crates\<rparr>"

theorem webhook_requires_credentials_witness:
  "\<exists>msg. process_webhook example_webhook_env (dr_new :: unit device_registry) dr_new example_call guarded_webhook
     = (Returns (Inl (AeConnection msg)), guarded_webhook)"
proof -
  obtain r wa' where run: "process_webhook example_webhook_env (dr_new :: unit device_registry) dr_new example_call guarded_webhook = (r, wa')" by fastforce
  have "\<not> authorized (wa_config guarded_webhook) (dr_get_device (wk_device_id example_call) (dr_new :: unit device_registry)) example_call"
    by (simp add: authorized_def guarded_webhook_def webhook_new_def with_api_key_def webhook_config_new_def example_call_def)
  moreover have "hm_wf (wa_request_count guarded_webhook)" by (simp add: guarded_webhook_def webhook_new_def)
  ultimately show ?thesis using webhook_requires_credentials [OF run] run by auto
qed

section \<open>Rates\<close>

text \<open>A run of requests, each with the state of the registries when it comes in.\<close>

type_synonym 'd hook_request = "'d device_registry \<times> 'd device_registry \<times> webhook_call"

fun webhook_run ::
    "webhook_env \<Rightarrow> 'd hook_request list \<Rightarrow> webhook_adapter \<Rightarrow> (webhook_call \<times> (adapter_error, nat) rust_result call) list" where
  "webhook_run env [] wa = []"
| "webhook_run env ((registry, xregistry, call) # reqs) wa =
     (let (r, wa') = process_webhook env registry xregistry call wa in (call, r) # webhook_run env reqs wa')"

fun refused :: "(adapter_error, nat) rust_result call \<Rightarrow> bool" where
  "refused (Returns (Inl _)) = True"
| "refused _ = False"

definition served :: "string \<Rightarrow> (webhook_call \<times> (adapter_error, nat) rust_result call) list \<Rightarrow> instant list" where
  "served device_id run = map (\<lambda>(c, _). wk_rate_now c) (filter (\<lambda>(c, r). wk_device_id c = device_id \<and> \<not> refused r) run)"

definition passes_checks :: "webhook_adapter_config \<Rightarrow> 'd hook_request \<Rightarrow> bool" where
  "passes_checks c req = (case req of (registry, _, call) \<Rightarrow> authorized c (dr_get_device (wk_device_id call) registry) call)"

lemma process_limiter:
  assumes "process_webhook env registry xregistry call wa = (r, wa')" and "wc_rate_limit_per_minute (wa_config wa) = Some limit"
    and "authorized (wa_config wa) (dr_get_device (wk_device_id call) registry) call"
  shows "admit_request (unat limit) (wk_rate_now call) (wk_device_id call) (wa_request_count wa) = (\<not> refused r, wa_request_count wa')"
    and "wa_config wa' = wa_config wa"
proof -
  obtain b counts where a: "admit_request (unat limit) (wk_rate_now call) (wk_device_id call) (wa_request_count wa) = (b, counts)"
    by fastforce
  from assms(3,1) have "b = (\<not> refused r) \<and> counts = wa_request_count wa' \<and> wa_config wa' = wa_config wa"
  proof (cases rule: process_authorized)
    case limited
    with a assms(2) show ?thesis by (auto simp: check_rate_limit_def split: bool.splits)
  next
    case (processed wa1)
    then have "\<not> refused r" by (simp add: processed_result_def split: call.splits)
    with processed a assms(2) show ?thesis by (auto simp: check_rate_limit_def same_limits_def split: bool.splits)
  qed
  then show "admit_request (unat limit) (wk_rate_now call) (wk_device_id call) (wa_request_count wa) = (\<not> refused r, wa_request_count wa')"
    "wa_config wa' = wa_config wa" using a by simp_all
qed

lemma served_admitted:
  "wc_rate_limit_per_minute (wa_config wa) = Some limit \<Longrightarrow> served k (webhook_run env reqs wa)
    = requests.admitted (unat limit) k (map (\<lambda>(_, _, c). (wk_rate_now c, wk_device_id c)) (filter (passes_checks (wa_config wa)) reqs))
        (wa_request_count wa)"
proof (induction reqs arbitrary: wa)
  case (Cons req reqs)
  obtain registry xregistry call where req: "req = (registry, xregistry, call)" by (metis prod_cases3)
  obtain r wa' where p: "process_webhook env registry xregistry call wa = (r, wa')" by fastforce
  show ?case
  proof (cases "passes_checks (wa_config wa) req")
    case True
    then have "authorized (wa_config wa) (dr_get_device (wk_device_id call) registry) call" by (simp add: passes_checks_def req)
    from process_limiter [OF p Cons.prems this] True Cons.IH [of wa'] Cons.prems req p show ?thesis
      by (auto simp: served_def)
  next
    case False
    with process_unauthorized [of wa call registry env xregistry] p have "refused r" "wa' = wa"
      by (auto simp: passes_checks_def req)
    with False Cons.IH [OF Cons.prems] req p show ?thesis by (simp add: served_def)
  qed
qed (simp add: served_def)

text \<open>Intake is limited per device: whatever requests come in, as long as the clock readings do not go backwards, at
  most twice the configured limit of requests of one device are processed in any span of one minute. (Windows are
  fixed, so a burst at the end of one and a burst at the start of the next can both fall into such a span.)\<close>

lemma webhook_rate_bounded:
  assumes "wc_rate_limit_per_minute (wa_config wa) = Some limit" and "hm_wf (wa_request_count wa)"
    and "sorted (map (\<lambda>(_, _, call). wk_rate_now call) reqs)"
  shows "length (filter (\<lambda>t. start \<le> t \<and> t < start + minute) (served device_id (webhook_run env reqs wa))) \<le> 2 * unat limit"
proof -
  let ?xs = "filter (passes_checks (wa_config wa)) reqs"
  have "map fst (map (\<lambda>(_, _, c). (wk_rate_now c, wk_device_id c)) ?xs) = map (\<lambda>(_, _, c). wk_rate_now c) ?xs" by (simp add: case_prod_unfold)
  moreover have "sorted (map (\<lambda>(_, _, c). wk_rate_now c) ?xs)" using assms(3) sorted_filter by blast
  ultimately show ?thesis unfolding served_admitted [OF assms(1)] by (intro requests.at_most_two_limits [OF assms(2)]) (simp only:)
qed

end
