(* ===== verification/Ingestion.thy ===== *)
theory Ingestion
  imports WebhookAdapter PushPayload
begin

text \<open>
  From the data a device sends to the payload a push target receives: lemmas on the events that the webhook adapter
  publishes for a document and on the nested batch the push scheduler builds from them.
\<close>

section \<open>Published metrics\<close>

text \<open>Values that are passed on as they are: neither bytes nor texts that encode an image.\<close>

definition keeps_value :: "webhook_env \<Rightarrow> device_value \<Rightarrow> bool" where
  "keeps_value env v = (case v of
       DvString s \<Rightarrow> try_decode_base64_image (we_crates env) s = None
     | DvBinary _ \<Rightarrow> False
     | _ \<Rightarrow> True)"

definition metric_event_of :: "webhook_env \<Rightarrow> string \<Rightarrow> int \<Rightarrow> extracted_metric \<Rightarrow> heramind_event \<Rightarrow> bool" where
  "metric_event_of env device_id ts m e \<longleftrightarrow>
     (\<exists>v. e = DeviceMetric device_id (xm_name m) (webhook_core_value v) ts None None \<and> (keeps_value env (xm_value m) \<longrightarrow> v = xm_value m))"

lemma convert_keeps:
  "convert_binary_to_url env io d m ts v wa = (v', wa') \<Longrightarrow> wa_event_bus wa' = wa_event_bus wa \<and> (keeps_value env v \<longrightarrow> v' = v)"
  by (auto simp: convert_binary_to_url_def save_for_def keeps_value_def split: device_value.splits option.splits prod.splits sum.splits)

lemma emit_publishes:
  assumes "wa_event_bus wa = Some es"
  obtains e where "wa_event_bus (emit_metric_event env io d (xm_name m) (xm_value m) ts wa) = Some (es @ [e])" and "metric_event_of env d ts m e"
proof -
  obtain v wa' where v: "convert_binary_to_url env io d (xm_name m) ts (xm_value m) wa = (v, wa')" by fastforce
  let ?e = "DeviceMetric d (xm_name m) (webhook_core_value v) ts None None"
  have "wa_event_bus (emit_metric_event env io d (xm_name m) (xm_value m) ts wa) = Some (es @ [?e])"
    using convert_keeps [OF v] v assms by (simp add: emit_metric_event_def wa_publish_def)
  moreover have "metric_event_of env d ts m ?e" using convert_keeps [OF v] by (auto simp: metric_event_of_def)
  ultimately show ?thesis by (rule that)
qed

lemma emit_all_publishes:
  "emit_metrics env io n d ts ms wa = (k, wa') \<Longrightarrow> wa_event_bus wa = Some es \<Longrightarrow>
    \<exists>evs. wa_event_bus wa' = Some (es @ evs) \<and> list_all2 (metric_event_of env d ts) ms evs"
proof (induction ms arbitrary: n wa es)
  case (Cons m ms)
  obtain e where e: "wa_event_bus (emit_metric_event env (io n) d (xm_name m) (xm_value m) ts wa) = Some (es @ [e])" "metric_event_of env d ts m e"
    using emit_publishes [OF Cons.prems(2)] by blast
  from Cons.IH [OF _ e(1), of "n + 1"] Cons.prems(1)
  obtain evs where "wa_event_bus wa' = Some (es @ e # evs)" "list_all2 (metric_event_of env d ts) ms evs" by auto
  with e(2) show ?case by (intro exI [of _ "e # evs"]) simp
qed simp

section \<open>Items of a payload\<close>

definition published_items :: "heramind_event list \<Rightarrow> push_item list" where
  "published_items es = List.map_filter (\<lambda>e. map_option (\<lambda>(s, v, ts, _). (s, v, ts)) (extract_event_data e)) es"

lemma published_items_append [simp]: "published_items (xs @ ys) = published_items xs @ published_items ys"
  by (simp add: published_items_def map_filter_def)

lemma published_items_metric:
  "metric_event_of env d ts m e \<Longrightarrow> \<exists>j. published_items [e] = [(''device:'' @ d @ '':'' @ xm_name m, j, ts)]
     \<and> (keeps_value env (xm_value m) \<longrightarrow> j = metric_to_json (webhook_core_value (xm_value m)))"
  by (auto simp: metric_event_of_def published_items_def map_filter_def extract_event_data_def)

lemma published_items_sources:
  "list_all2 (metric_event_of env d ts) ms evs \<Longrightarrow>
    map fst (published_items evs) = map (\<lambda>m. ''device:'' @ d @ '':'' @ xm_name m) ms"
proof (induction ms evs rule: list_all2_induct)
  case (Cons m ms e evs)
  with published_items_metric [OF Cons(1)] published_items_append [of "[e]" evs] show ?case by auto
qed (simp add: published_items_def map_filter_def)

lemma split3_device: "CHR '':'' \<notin> set d \<Longrightarrow> split3 (''device:'' @ d @ '':'' @ f) = (''device'', d, f)"
  using split_once_append [of "CHR '':''" "''device''" "d @ '':'' @ f"] split_once_append [of "CHR '':''" d f]
  by (simp add: split3_def)

lemma item_of_path:
  assumes "CHR '':'' \<notin> set d" and "list_all tame_key ks" and "ks \<noteq> []"
  shows "item_key (''device:'' @ d @ '':'' @ join ''.'' ks) = (''device'', d)" and "item_path (''device:'' @ d @ '':'' @ join ''.'' ks) = ks"
proof -
  have "filter (\<lambda>s. s \<noteq> []) ks = ks" using assms(2) by (auto simp: list_all_iff tame_key_def intro!: filter_True)
  then have "field_segs (join ''.'' ks) = ks" using split_join_tame [OF assms(2,3)] by (simp add: field_segs_def)
  then show "item_key (''device:'' @ d @ '':'' @ join ''.'' ks) = (''device'', d)" "item_path (''device:'' @ d @ '':'' @ join ''.'' ks) = ks"
    using split3_device [OF assms(1)] assms(3) by (simp_all add: item_key_def item_path_def)
qed

lemma leaf_paths_incomparable:
  "json_at p j = Some v \<Longrightarrow> \<not> is_object v \<Longrightarrow> json_at q j = Some w \<Longrightarrow> prefix p q \<Longrightarrow> p = q"
proof (induction p arbitrary: j q)
  case Nil
  then show ?case using json_at_non_object by fastforce
next
  case (Cons k p)
  then obtain m q' where "j = JObject m" "q = k # q'" by (cases j; cases q) auto
  with Cons show ?case by (auto simp: bind_eq_Some_conv)
qed

text \<open>Values of a document that survive the journey: no arrays, which are turned into text, integers of 64 bits, finite
  floats and texts that are no images.\<close>

definition plain_leaf :: "webhook_env \<Rightarrow> json \<Rightarrow> bool" where
  "plain_leaf env v = (case v of
       JInt i \<Rightarrow> - (2 ^ 63) \<le> i \<and> i < 2 ^ 63
     | JFloat f \<Rightarrow> (case f of Fin _ \<Rightarrow> True | _ \<Rightarrow> False)
     | JString s \<Rightarrow> try_decode_base64_image (we_crates env) s = None
     | JArray _ \<Rightarrow> False
     | JObject _ \<Rightarrow> False
     | _ \<Rightarrow> True)"

lemma plain_leaf_kept:
  "plain_leaf env v \<Longrightarrow> keeps_value env (value_to_metric_value to_text v) \<and>
     metric_to_json (webhook_core_value (value_to_metric_value to_text v)) = v"
  by (auto simp: plain_leaf_def keeps_value_def value_to_metric_value_def json_of_f64_def split: json.splits f64.splits)

lemma leaves_payload:
  assumes "list_all2 (metric_event_of env d ts) (ms @ map (\<lambda>(ks, v). auto_metric to_text (join ''.'' ks) v) (leaves n data)) evs"
    and "tame data" and "is_object data" and "CHR '':'' \<notin> set d" and "(ks, v) \<in> set (leaves n data)" and "plain_leaf env v"
  shows "\<exists>dj. payload_data (published_items evs) (''device'', d) = Some dj \<and> json_at ks dj = Some v"
proof -
  let ?metric = "\<lambda>(ks, v). auto_metric to_text (join ''.'' ks) v" and ?src = "\<lambda>ks. ''device:'' @ d @ '':'' @ join ''.'' ks"
  obtain L1 L2 where L: "leaves n data = L1 @ (ks, v) # L2" using assms(5) by (meson split_list)
  have "list_all2 (metric_event_of env d ts) ((ms @ map ?metric L1) @ ?metric (ks, v) # map ?metric L2) evs" using assms(1) by (simp add: L)
  then obtain E1 E where E': "evs = E1 @ E" "list_all2 (metric_event_of env d ts) (?metric (ks, v) # map ?metric L2) E"
    unfolding list_all2_append1 by blast
  then obtain e E2 where E: "evs = E1 @ e # E2" "metric_event_of env d ts (auto_metric to_text (join ''.'' ks) v) e"
      "list_all2 (metric_event_of env d ts) (map ?metric L2) E2"
    by (auto simp: list_all2_Cons1)
  have path: "list_all tame_key p \<and> p \<noteq> []" if "(p, w) \<in> set (leaves n data)" for p w
    using that leaves_iff [OF assms(2)] json_at_tame [OF assms(2)] assms(3) by fastforce
  have "published_items [e] = [(?src ks, v, ts)]"
    using published_items_metric [OF E(2)] plain_leaf_kept [OF assms(6), of to_text] by (auto simp: auto_metric_def)
  then have items: "published_items evs = published_items E1 @ (?src ks, v, ts) # published_items E2"
    using published_items_append [of "[e]" E2] E(1) by simp
  have "incomparable (item_path (?src ks)) (item_path s')" if "(s', v', ts') \<in> set (published_items E2)" for s' v' ts'
  proof -
    have "s' \<in> set (map fst (published_items E2))" using that by force
    then obtain p w where p: "(p, w) \<in> set L2" "s' = ?src p" using published_items_sources [OF E(3)] by (auto simp: auto_metric_def)
    then have leaf: "(p, w) \<in> set (leaves n data)" "p \<noteq> ks" using leaves_distinct [OF assms(2), of n] by (auto simp: L rev_image_eqI)
    with assms(5) have "json_at p data = Some w" "\<not> is_object w" "json_at ks data = Some v" "\<not> is_object v"
      using leaves_iff [OF assms(2)] by blast+
    then have "incomparable ks p" using leaf_paths_incomparable leaf(2) unfolding incomparable_def by metis
    then show ?thesis using item_of_path [OF assms(4)] path assms(5) leaf(1) p(2) by metis
  qed
  moreover have "\<not> is_object v" "item_key (?src ks) = (''device'', d)" "item_path (?src ks) = ks"
    using assms(5) leaves_iff [OF assms(2)] item_of_path [OF assms(4)] path by blast+
  ultimately show ?thesis using payload_last_value [OF items, of "(''device'', d)"] by (metis (no_types, lifting) case_prodI2)
qed

lemma announced_items:
  assumes "wa_event_bus wa = Some es"
  obtains pre where "wa_event_bus (announce_discovery call r ts (announce_online d ty r' ts' wa)) = Some (es @ pre)" and "published_items pre = []"
proof -
  have "\<exists>pre. wa_event_bus (announce_online d ty r' ts' wa) = Some (es @ pre) \<and> published_items pre = []"
    using assms by (auto simp: announce_online_def Let_def wa_publish_def published_items_def map_filter_def extract_event_data_def)
  then obtain pre where pre: "wa_event_bus (announce_online d ty r' ts' wa) = Some (es @ pre)" "published_items pre = []" by blast
  have "\<exists>post. wa_event_bus (announce_discovery call r ts wa1) = Some (es1 @ post) \<and> published_items post = []"
    if "wa_event_bus wa1 = Some es1" for wa1 es1
    using that by (auto simp: announce_discovery_def Let_def wa_publish_def published_items_def map_filter_def extract_event_data_def split: prod.splits)
  with pre that show ?thesis by (metis append.assoc append_Nil2 published_items_append)
qed

lemma rate_limit_bus: "check_rate_limit now d wa = (r, wa') \<Longrightarrow> wa_event_bus wa' = wa_event_bus wa"
  by (auto simp: check_rate_limit_def split: option.splits prod.splits bool.splits)

lemma no_system_metrics:
  assumes "tame data" and "is_object data" and "json_at [''__webhook_image''] data = None" and "0 < xc_max_depth xc"
  shows "system_metrics xc to_text data SYSTEM_PASS_THROUGH_KEYS = Returns []"
proof -
  let ?k = "''__webhook_image''"
  obtain m where m: "data = JObject m" using assms(2) by (cases data) auto
  have k: "tame_key ?k" by (simp add: tame_key_def trimmed_def white_space_def suffix_to_prefix)
  then have "str_trim ?k = ?k" "str_find (CHR ''['') ?k = None" by (simp_all add: tame_key_def str_trim_id str_find_None_iff)
  then have "descend 0 [?k] data = Returns (Inr (Some JNull))"
    using assms(3) m by (cases "hm_get m ?k") (simp_all add: Let_def plain_step_def)
  then have "extract_by_path xc data ?k 0 = Returns (Inr (Some JNull))"
    using extract_by_path_keys [of "[?k]" xc data] k assms(4) by simp
  then show ?thesis by (simp add: SYSTEM_PASS_THROUGH_KEYS_def)
qed

text \<open>The events of a request whose data is extracted automatically.\<close>

lemma webhook_publishes:
  assumes "authorized (wa_config wa) (dr_get_device (wk_device_id call) registry) call"
    and "check_rate_limit (wk_rate_now call) (wk_device_id call) wa = (Inr (), wa1)" and "wa_event_bus wa = Some es"
    and "data = wp_data (wk_payload call)" and "tame data" and "is_object data" and "json_at [''__webhook_image''] data = None"
    and "\<And>d t. dr_get_device (wk_device_id call) registry = d \<Longrightarrow>
      dr_get_template (case d of Some d \<Rightarrow> dc_device_type d | None \<Rightarrow> ''webhook'') xregistry = Some t \<Longrightarrow> tp_metrics t = []"
  obtains k wa' pre ms evs ts where "process_webhook env registry xregistry call wa = (Returns (Inr k), wa')" and "wa_event_bus wa' = Some (es @ pre @ evs)" and "published_items pre = []"
    and "list_all2 (metric_event_of env (wk_device_id call) ts)
      (ms @ map (\<lambda>(ks, v). auto_metric (we_to_text env) (join ''.'' ks) v) (leaves 11 data)) evs"
proof -
  define ty where "ty = (case dr_get_device (wk_device_id call) registry of Some d \<Rightarrow> dc_device_type d | None \<Rightarrow> ''webhook'')"
  have auto: "auto_extract extraction_config_default (we_to_text env) data
      = map (\<lambda>(ks, v). auto_metric (we_to_text env) (join ''.'' ks) v) (leaves 11 data)"
    using auto_extract_leaves [OF assms(5) _ assms(6), of "[]" extraction_config_default "we_to_text env" 0]
    by (simp add: auto_extract_def extraction_config_default_def del: auto_extract_recursive.simps)
  have sys: "system_metrics extraction_config_default (we_to_text env) data SYSTEM_PASS_THROUGH_KEYS = Returns []"
    by (rule no_system_metrics [OF assms(5-7)]) (simp add: extraction_config_default_def)
  have none: "dr_get_template ty xregistry = Some t \<Longrightarrow> tp_metrics t = []" for t using assms(8) by (simp add: ty_def)
  obtain res ms where res: "ux_extract extraction_config_default (we_to_text env) xregistry ty data = Returns res"
      "xr_metrics res = ms @ map (\<lambda>(ks, v). auto_metric (we_to_text env) (join ''.'' ks) v) (leaves 11 data)"
    using none unfolding ux_extract_def sys auto Let_def
    by (cases "dr_get_template ty xregistry") (auto simp: extraction_config_default_def)
  define reg where "reg = (dr_get_device (wk_device_id call) registry \<noteq> None)"
  define ts where "ts = unwrap_or (Option.bind (wp_timestamp (wk_payload call)) (normalize_epoch_seconds (wk_normalize_now call))) (timestamp (wk_now call))"
  have bus: "wa_event_bus wa1 = Some es" using rate_limit_bus [OF assms(2)] assms(3) by simp
  obtain k wa' where emit: "emit_metrics env (wk_io call) 0 (wk_device_id call) ts (xr_metrics res)
      (announce_discovery call reg ts (announce_online (wk_device_id call) ty reg ts wa1)) = (k, wa')" by fastforce
  have run: "process_webhook env registry xregistry call wa = (Returns (Inr k), wa')"
    using checks_authorized [THEN iffD2, OF assms(1)] assms(2) emit res(1)
    unfolding process_webhook_def Let_def ty_def [symmetric] reg_def [symmetric] ts_def [symmetric] assms(4) [symmetric] by simp
  obtain pre where pre: "wa_event_bus (announce_discovery call reg ts (announce_online (wk_device_id call) ty reg ts wa1)) = Some (es @ pre)"
      "published_items pre = []" using announced_items [OF bus] .
  from emit_all_publishes [OF emit pre(1)] obtain evs where "wa_event_bus wa' = Some (es @ pre @ evs)"
      "list_all2 (metric_event_of env (wk_device_id call) ts) (xr_metrics res) evs" by auto
  with that run pre(2) res(2) show ?thesis by metis
qed

end
