(* ===== verification/TimeSeries.thy ===== *)
theory TimeSeries
  imports StorageErrors TextUtil Json
begin

text \<open>
  The data types of \<open>heramind-storage/src/timeseries.rs\<close>: data points, aggregation buckets, the retention policy,
  performance counters, batch requests and the write-behind buffer. An \<open>i64\<close> time stamp is an \<open>int\<close>, with the wrap-around
  of arithmetic on it written out; counters are words of their width. A single-precision quality flag is the double of
  the same value. Counters of the memory a \<open>Vec\<close> holds are natural numbers.
\<close>

section \<open>Data points\<close>

record data_point =
  dp_timestamp :: int
  dp_value :: json
  dp_quality :: "f64 option"
  dp_metadata :: "json option"

definition dp_new_with_value :: "int \<Rightarrow> json \<Rightarrow> data_point" where
  "dp_new_with_value ts v = \<lparr>dp_timestamp = ts, dp_value = v, dp_quality = None, dp_metadata = None\<rparr>"

definition dp_new :: "int \<Rightarrow> f64 \<Rightarrow> data_point" where
  "dp_new ts v = dp_new_with_value ts (json_of_f64 v)"

definition dp_new_string :: "int \<Rightarrow> string \<Rightarrow> data_point" where
  "dp_new_string ts v = dp_new_with_value ts (JString v)"

definition dp_new_bool :: "int \<Rightarrow> bool \<Rightarrow> data_point" where
  "dp_new_bool ts v = dp_new_with_value ts (JBool v)"

text \<open>\<open>Value::as_f64\<close>, \<open>as_str\<close> and \<open>as_bool\<close>.\<close>

fun js_as_f64 :: "json \<Rightarrow> f64 option" where
  "js_as_f64 (JInt i) = Some (f64_of_int i)"
| "js_as_f64 (JFloat f) = Some f"
| "js_as_f64 _ = None"

fun js_as_str :: "json \<Rightarrow> string option" where
  "js_as_str (JString s) = Some s"
| "js_as_str _ = None"

fun js_as_bool :: "json \<Rightarrow> bool option" where
  "js_as_bool (JBool b) = Some b"
| "js_as_bool _ = None"

definition dp_as_f64 :: "data_point \<Rightarrow> f64 option" where
  "dp_as_f64 p = js_as_f64 (dp_value p)"

definition dp_as_str :: "data_point \<Rightarrow> string option" where
  "dp_as_str p = js_as_str (dp_value p)"

definition dp_as_bool :: "data_point \<Rightarrow> bool option" where
  "dp_as_bool p = js_as_bool (dp_value p)"

definition dp_with_quality :: "f64 \<Rightarrow> data_point \<Rightarrow> data_point" where
  "dp_with_quality q p = p\<lparr>dp_quality := Some q\<rparr>"

definition dp_with_metadata :: "json \<Rightarrow> data_point \<Rightarrow> data_point" where
  "dp_with_metadata m p = p\<lparr>dp_metadata := Some m\<rparr>"

section \<open>Buckets\<close>

record ts_bucket =
  tb_start :: int
  tb_end :: int
  tb_count :: u32
  tb_sum :: "f64 option"
  tb_min :: "f64 option"
  tb_max :: "f64 option"
  tb_avg :: "f64 option"
  tb_sample_values :: "json list"

definition tb_new :: "int \<Rightarrow> int \<Rightarrow> ts_bucket" where
  "tb_new start end_ts =
     \<lparr>tb_start = start, tb_end = end_ts, tb_count = 0, tb_sum = None, tb_min = None, tb_max = None, tb_avg = None,
      tb_sample_values = []\<rparr>"

definition tb_add :: "json \<Rightarrow> ts_bucket \<Rightarrow> ts_bucket" where
  "tb_add v b =
     (let n = tb_count b + 1
      in case js_as_f64 v of
           Some num \<Rightarrow>
             (let s = f64_add (unwrap_or (tb_sum b) (Fin 0)) num
              in b\<lparr>tb_count := n, tb_sum := Some s,
                   tb_min := Some (case tb_min b of None \<Rightarrow> num | Some m \<Rightarrow> f64_min m num),
                   tb_max := Some (case tb_max b of None \<Rightarrow> num | Some m \<Rightarrow> f64_max m num),
                   tb_avg := Some (f64_div s (f64_of_int (uint n)))\<rparr>)
         | None \<Rightarrow>
             (if length (tb_sample_values b) < 10 then b\<lparr>tb_count := n, tb_sample_values := tb_sample_values b @ [v]\<rparr>
              else b\<lparr>tb_count := n\<rparr>))"

definition tb_is_empty :: "ts_bucket \<Rightarrow> bool" where
  "tb_is_empty b \<longleftrightarrow> tb_count b = 0"

record ts_result =
  tr_source_id :: string
  tr_metric :: string
  tr_points :: "data_point list"
  tr_total_count :: "nat option"

record series_info =
  mi_last_update :: int
  mi_point_count :: u64

section \<open>Retention policy\<close>

record retention_policy =
  rp_default_hours :: "u64 option"
  rp_metric_overrides :: "(string, u64 option) hash_map"
  rp_device_type_overrides :: "(string, u64 option) hash_map"
  rp_image_retention_hours :: "u64 option"

definition rp_new :: "u64 option \<Rightarrow> retention_policy" where
  "rp_new h = \<lparr>rp_default_hours = h, rp_metric_overrides = [], rp_device_type_overrides = [], rp_image_retention_hours = None\<rparr>"

definition rp_default :: retention_policy where
  "rp_default = rp_new (Some (24 * 30))"

definition get_retention_hours :: "retention_policy \<Rightarrow> string \<Rightarrow> string \<Rightarrow> u64 option" where
  "get_retention_hours p device_type metric =
     (case hm_get (rp_metric_overrides p) metric of
        Some retention \<Rightarrow> retention
      | None \<Rightarrow>
          (case hm_get (rp_device_type_overrides p) device_type of
             Some retention \<Rightarrow> retention
           | None \<Rightarrow> rp_default_hours p))"

definition set_metric_retention :: "string \<Rightarrow> u64 option \<Rightarrow> retention_policy \<Rightarrow> retention_policy" where
  "set_metric_retention metric hours p = p\<lparr>rp_metric_overrides := hm_insert metric hours (rp_metric_overrides p)\<rparr>"

definition set_device_type_retention :: "string \<Rightarrow> u64 option \<Rightarrow> retention_policy \<Rightarrow> retention_policy" where
  "set_device_type_retention ty hours p = p\<lparr>rp_device_type_overrides := hm_insert ty hours (rp_device_type_overrides p)\<rparr>"

definition set_image_retention :: "u64 option \<Rightarrow> retention_policy \<Rightarrow> retention_policy" where
  "set_image_retention hours p = p\<lparr>rp_image_retention_hours := hours\<rparr>"

text \<open>\<open>now - (hours as i64 * 3600)\<close> on 64-bit integers: the cast reinterprets the bits, product and difference wrap.\<close>

definition wrap_i64 :: "int \<Rightarrow> int" where
  "wrap_i64 i = sint (word_of_int i :: 64 word)"

definition cutoff_before :: "int \<Rightarrow> u64 \<Rightarrow> int" where
  "cutoff_before now hours = wrap_i64 (now - wrap_i64 (sint hours * 3600))"

definition cutoff_timestamp :: "date_time \<Rightarrow> retention_policy \<Rightarrow> string \<Rightarrow> string \<Rightarrow> int option" where
  "cutoff_timestamp now p device_type metric =
     map_option (cutoff_before (timestamp now)) (get_retention_hours p device_type metric)"

text \<open>The heuristic for image data. The decoders belong to the \<open>base64\<close> crate. Slicing a text at byte 32 panics when
  that byte continues a character.\<close>

record base64_crate =
  b64_standard :: "string \<Rightarrow> string option"
  b64_url_safe_no_pad :: "string \<Rightarrow> string option"

definition is_char_boundary :: "string \<Rightarrow> nat \<Rightarrow> bool" where
  "is_char_boundary s i \<longleftrightarrow> i = length s \<or> (i < length s \<and> \<not> (128 \<le> (of_char (s ! i) :: nat) \<and> (of_char (s ! i) :: nat) < 192))"

definition image_magic :: "string \<Rightarrow> bool" where
  "image_magic decoded \<longleftrightarrow>
     starts_with decoded [CHR 0xFF, CHR 0xD8, CHR 0xFF] \<or> starts_with decoded [CHR 0x89, CHR 0x50, CHR 0x4E, CHR 0x47] \<or>
     starts_with decoded ''GIF8'' \<or> starts_with decoded ''RIFF'' \<or> starts_with decoded [CHR 0x42, CHR 0x4D]"

definition value_looks_like_image :: "base64_crate \<Rightarrow> json \<Rightarrow> bool call" where
  "value_looks_like_image b64 v =
     (case js_as_str v of
        None \<Rightarrow> Returns False
      | Some s \<Rightarrow>
          if starts_with s ''data:image/'' then Returns True
          else if starts_with s ''/api/images/'' then Returns True
          else if length s < 32 then Returns False
          else if \<not> is_char_boundary s 32 then Panics
          else let pre = take 32 s
               in Returns (image_magic
                    (case b64_standard b64 pre of
                       Some d \<Rightarrow> d
                     | None \<Rightarrow> (case b64_url_safe_no_pad b64 pre of Some d \<Rightarrow> d | None \<Rightarrow> []))))"

section \<open>Performance counters\<close>

record perf_stats =
  ps_write_count :: u64
  ps_read_count :: u64
  ps_total_write_ns :: u64
  ps_total_read_ns :: u64
  ps_cache_hits :: u64
  ps_cache_misses :: u64
  ps_cleanup_points_removed :: u64
  ps_last_cleanup_timestamp :: "int option"

definition ps_default :: perf_stats where
  "ps_default =
     \<lparr>ps_write_count = 0, ps_read_count = 0, ps_total_write_ns = 0, ps_total_read_ns = 0, ps_cache_hits = 0,
      ps_cache_misses = 0, ps_cleanup_points_removed = 0, ps_last_cleanup_timestamp = None\<rparr>"

definition avg_write_us :: "perf_stats \<Rightarrow> f64" where
  "avg_write_us s =
     (if ps_write_count s = 0 then Fin 0
      else f64_div (f64_div (f64_of_int (uint (ps_total_write_ns s))) (f64_of_int (uint (ps_write_count s)))) (f64_of_int 1000))"

definition avg_read_us :: "perf_stats \<Rightarrow> f64" where
  "avg_read_us s =
     (if ps_read_count s = 0 then Fin 0
      else f64_div (f64_div (f64_of_int (uint (ps_total_read_ns s))) (f64_of_int (uint (ps_read_count s)))) (f64_of_int 1000))"

definition cache_hit_rate :: "perf_stats \<Rightarrow> f64" where
  "cache_hit_rate s =
     (let n = ps_cache_hits s + ps_cache_misses s
      in if n = 0 then Fin 0 else f64_div (f64_of_int (uint (ps_cache_hits s))) (f64_of_int (uint n)))"

definition record_write :: "duration \<Rightarrow> perf_stats \<Rightarrow> perf_stats" where
  "record_write d s = s\<lparr>ps_write_count := ps_write_count s + 1, ps_total_write_ns := ps_total_write_ns s + of_nat d\<rparr>"

definition record_read :: "duration \<Rightarrow> perf_stats \<Rightarrow> perf_stats" where
  "record_read d s = s\<lparr>ps_read_count := ps_read_count s + 1, ps_total_read_ns := ps_total_read_ns s + of_nat d\<rparr>"

definition record_cache_hit :: "perf_stats \<Rightarrow> perf_stats" where
  "record_cache_hit s = s\<lparr>ps_cache_hits := ps_cache_hits s + 1\<rparr>"

definition record_cache_miss :: "perf_stats \<Rightarrow> perf_stats" where
  "record_cache_miss s = s\<lparr>ps_cache_misses := ps_cache_misses s + 1\<rparr>"

section \<open>Batch requests\<close>

record batch_write_request =
  bw_source_id :: string
  bw_device_type :: "string option"
  bw_metrics :: "(string, data_point list) hash_map"

definition bw_new :: "string \<Rightarrow> batch_write_request" where
  "bw_new source = \<lparr>bw_source_id = source, bw_device_type = None, bw_metrics = []\<rparr>"

definition with_device_type :: "string \<Rightarrow> batch_write_request \<Rightarrow> batch_write_request" where
  "with_device_type ty r = r\<lparr>bw_device_type := Some ty\<rparr>"

text \<open>\<open>map.entry(k).or_default().push(v)\<close>.\<close>

definition push_at :: "'k \<Rightarrow> 'v \<Rightarrow> ('k, 'v list) hash_map \<Rightarrow> ('k, 'v list) hash_map" where
  "push_at k v m = hm_insert k (unwrap_or (hm_get m k) [] @ [v]) m"

definition add_point :: "string \<Rightarrow> data_point \<Rightarrow> batch_write_request \<Rightarrow> batch_write_request" where
  "add_point metric p r = r\<lparr>bw_metrics := push_at metric p (bw_metrics r)\<rparr>"

definition bw_point_count :: "batch_write_request \<Rightarrow> nat" where
  "bw_point_count r = sum_list (map (\<lambda>(_, v). length v) (bw_metrics r))"

definition bw_is_empty :: "batch_write_request \<Rightarrow> bool" where
  "bw_is_empty r \<longleftrightarrow> bw_metrics r = []"

section \<open>Write buffer\<close>

record buffered_write =
  bf_source_id :: string
  bf_metric :: string
  bf_point :: data_point

record write_buffer =
  wb_pending :: "buffered_write list"
  wb_max_size :: nat
  wb_shutdown :: bool

definition wb_new :: "nat \<Rightarrow> write_buffer" where
  "wb_new n = \<lparr>wb_pending = [], wb_max_size = n, wb_shutdown = False\<rparr>"

definition wb_push :: "buffered_write \<Rightarrow> write_buffer \<Rightarrow> bool \<times> write_buffer" where
  "wb_push w b = (let pending = wb_pending b @ [w] in (wb_max_size b \<le> length pending, b\<lparr>wb_pending := pending\<rparr>))"

definition wb_drain :: "write_buffer \<Rightarrow> buffered_write list \<times> write_buffer" where
  "wb_drain b = (wb_pending b, b\<lparr>wb_pending := []\<rparr>)"

text \<open>\<open>usize::saturating_mul\<close> on 64 bits.\<close>

definition hard_cap :: "write_buffer \<Rightarrow> nat" where
  "hard_cap b = min (wb_max_size b * 10) (2 ^ 64 - 1)"

fun requeue_loop :: "nat \<Rightarrow> buffered_write list \<Rightarrow> buffered_write list \<Rightarrow> nat \<Rightarrow> buffered_write list \<times> nat" where
  "requeue_loop cap [] pending dropped = (pending, dropped)"
| "requeue_loop cap (w # ws) pending dropped =
     (if cap \<le> length pending then requeue_loop cap ws pending (Suc dropped)
      else requeue_loop cap ws (pending @ [w]) dropped)"

definition wb_requeue :: "buffered_write list \<Rightarrow> write_buffer \<Rightarrow> nat \<times> write_buffer" where
  "wb_requeue writes b =
     (let (pending, dropped) = requeue_loop (hard_cap b) writes (wb_pending b) 0 in (dropped, b\<lparr>wb_pending := pending\<rparr>))"

definition wb_abort :: "write_buffer \<Rightarrow> write_buffer" where
  "wb_abort b = b\<lparr>wb_shutdown := True\<rparr>"

section \<open>Configuration\<close>

definition DEFAULT_TELEMETRY_CACHE_MB :: nat where
  "DEFAULT_TELEMETRY_CACHE_MB = 256"

definition parse_telemetry_cache_mb :: "string option \<Rightarrow> nat" where
  "parse_telemetry_cache_mb env_val =
     (case Option.bind env_val (\<lambda>s. parse_u64 (str_trim s)) of
        Some mb \<Rightarrow> if 0 < mb then mb else DEFAULT_TELEMETRY_CACHE_MB
      | None \<Rightarrow> DEFAULT_TELEMETRY_CACHE_MB)"

record ts_config =
  tc_retention_policy :: retention_policy
  tc_cache_ttl :: duration
  tc_max_cache_size :: nat
  tc_max_concurrent_writes :: nat
  tc_write_buffer_size :: nat
  tc_write_buffer_flush_interval :: duration

definition ts_config_default :: ts_config where
  "ts_config_default =
     \<lparr>tc_retention_policy = rp_default, tc_cache_ttl = from_secs 60, tc_max_cache_size = 1000,
      tc_max_concurrent_writes = 10, tc_write_buffer_size = 200, tc_write_buffer_flush_interval = from_millis 500\<rparr>"

text \<open>\<open>snap_bucket_size\<close>: the first listed interval that is long enough, else whole hours.\<close>

definition NICE :: "int list" where
  "NICE = [30, 60, 120, 300, 600, 900, 1800, 3600, 7200, 10800, 21600, 43200, 86400]"

text \<open>Division of \<open>i64\<close> values truncates towards zero.\<close>

definition div_i64 :: "int \<Rightarrow> int \<Rightarrow> int" where
  "div_i64 a b = sgn a * sgn b * (\<bar>a\<bar> div \<bar>b\<bar>)"

definition snap_bucket_size :: "int \<Rightarrow> int" where
  "snap_bucket_size raw_secs =
     (case filter (\<lambda>n. raw_secs \<le> n) NICE of
        n # _ \<Rightarrow> n
      | [] \<Rightarrow> wrap_i64 (div_i64 (wrap_i64 (raw_secs + 3599)) 3600 * 3600))"

section \<open>Facts\<close>

lemma get_retention_hours_set:
  "get_retention_hours (set_metric_retention metric hours p) ty m = (if m = metric then hours else get_retention_hours p ty m)"
  by (simp add: get_retention_hours_def set_metric_retention_def split: option.splits)

lemma wrap_i64_id: "- (2 ^ 63) \<le> i \<Longrightarrow> i < 2 ^ 63 \<Longrightarrow> wrap_i64 i = i"
  by (simp add: wrap_i64_def sint_sbintrunc' signed_take_bit_int_eq_self)

lemma push_at_get: "hm_get (push_at k v m) = (hm_get m)(k \<mapsto> unwrap_or (hm_get m k) [] @ [v])"
  by (simp add: push_at_def fun_eq_iff)

text \<open>Re-queueing appends a prefix of the failed writes, up to the cap, and counts the rest as dropped.\<close>

lemma requeue_loop_eq:
  "requeue_loop cap ws pending dropped =
     (pending @ take (cap - length pending) ws, dropped + (length ws - (cap - length pending)))"
proof (induction ws arbitrary: pending dropped)
  case (Cons w ws)
  show ?case
  proof (cases "cap \<le> length pending")
    case False
    then obtain n where "cap = Suc (length pending + n)" using less_imp_Suc_add [of "length pending" cap] by auto
    then show ?thesis using Cons.IH [of "pending @ [w]" dropped] by simp
  qed (simp add: Cons.IH)
qed simp

lemma wb_requeue_eq:
  "wb_requeue ws b =
     (length ws - (hard_cap b - length (wb_pending b)),
      b\<lparr>wb_pending := wb_pending b @ take (hard_cap b - length (wb_pending b)) ws\<rparr>)"
  by (simp add: wb_requeue_def requeue_loop_eq)

lemma snap_bucket_size_ge:
  assumes "raw_secs < 2 ^ 63 - 3599"
  shows "raw_secs \<le> snap_bucket_size raw_secs \<and> 0 < snap_bucket_size raw_secs"
proof (cases "filter (\<lambda>n. raw_secs \<le> n) NICE")
  case Nil
  then have big: "86400 < raw_secs" by (auto simp: NICE_def split: if_splits)
  have q: "div_i64 (raw_secs + 3599) 3600 = (raw_secs + 3599) div 3600" using big by (simp add: div_i64_def)
  have "wrap_i64 (raw_secs + 3599) = raw_secs + 3599" using assms big by (intro wrap_i64_id) auto
  moreover have "wrap_i64 ((raw_secs + 3599) div 3600 * 3600) = (raw_secs + 3599) div 3600 * 3600"
    using assms big by (intro wrap_i64_id) (simp_all add: mult.commute)
  ultimately show ?thesis using Nil big q by (simp add: snap_bucket_size_def)
next
  case (Cons n ns)
  then have "n \<in> set (filter (\<lambda>n. raw_secs \<le> n) NICE)" by simp
  then have "raw_secs \<le> n" "n \<in> set NICE" by simp_all
  then show ?thesis using Cons by (auto simp: snap_bucket_size_def NICE_def simp del: filter.simps)
qed

end
