(* ===== verification/SeriesDb.thy ===== *)
theory SeriesDb
  imports StorageErrors "HOL-Library.Multiset" "HOL-Library.Char_ord" "HOL-Library.List_Lexorder" "HOL-Library.Product_Lexorder"
begin

text \<open>
  The table of time series in the \<open>redb\<close> crate: keys are triples of a source, a metric and a time stamp, ordered as
  tuples, with texts compared byte by byte, which are the library's lexicographic orders on products and lists and its
  order on characters. As in \<open>Redb\<close>, the operations are a record and \<open>series_laws\<close> names the documented behaviour:
  a range scan returns the entries between two keys in ascending order, a table that does not exist has no entries, a
  transaction works on a snapshot, and one that is dropped without a commit changes nothing (\<open>sd_abort\<close> is the
  database after it; what it does besides, such as how much free space is left, may differ, so that a write that has
  failed may succeed when it is tried again).
\<close>

type_synonym series_key = "string \<times> string \<times> int"

datatype table_error = TableDoesNotExist | TableFailure string

record 'd series_db =
  sd_begin_write :: "'d \<Rightarrow> (string, 'd) rust_result"
  sd_begin_read :: "'d \<Rightarrow> (string, 'd) rust_result"
  sd_open_write :: "'d \<Rightarrow> (string, 'd) rust_result"
  sd_open_read :: "'d \<Rightarrow> (table_error, 'd) rust_result"
  sd_insert :: "series_key \<Rightarrow> string \<Rightarrow> 'd \<Rightarrow> (string, 'd) rust_result"
  sd_remove :: "series_key \<Rightarrow> 'd \<Rightarrow> (string, 'd) rust_result"
  sd_range :: "series_key \<Rightarrow> series_key \<Rightarrow> 'd \<Rightarrow> (string, (string, series_key \<times> string) rust_result list) rust_result"
  sd_iter :: "'d \<Rightarrow> (string, (string, series_key \<times> string) rust_result list) rust_result"
  sd_commit :: "'d \<Rightarrow> (string, 'd) rust_result"
  sd_abort :: "'d \<Rightarrow> 'd"

type_synonym 'd series_contents = "'d \<Rightarrow> series_key \<Rightarrow> string option"

definition ascending :: "('k :: linorder \<times> 'v) list \<Rightarrow> bool" where
  "ascending kvs \<longleftrightarrow> sorted_wrt (<) (map fst kvs)"

lemma ascending_distinct: "ascending kvs \<Longrightarrow> distinct (map fst kvs)"
  by (simp add: ascending_def strict_sorted_iff)

text \<open>A scan yields the entries in ascending order, each as a result of its own.\<close>

fun reads :: "(string, 'a) rust_result \<Rightarrow> 'a \<Rightarrow> bool" where
  "reads (Inl _) y = True"
| "reads (Inr x) y = (x = y)"

definition scan_of :: "(string, series_key \<times> string) rust_result list \<Rightarrow> (series_key \<rightharpoonup> string) \<Rightarrow> bool" where
  "scan_of rs m \<longleftrightarrow>
     (\<exists>kvs. ascending kvs \<and> map_of kvs = m \<and> list_all2 reads rs kvs)"

definition series_laws :: "'d series_db \<Rightarrow> 'd series_contents \<Rightarrow> bool" where
  "series_laws sd c \<longleftrightarrow>
     (\<forall>d d'. sd_begin_write sd d = Inr d' \<longrightarrow> c d' = c d) \<and> (\<forall>d d'. sd_begin_read sd d = Inr d' \<longrightarrow> c d' = c d) \<and>
     (\<forall>d d'. sd_open_write sd d = Inr d' \<longrightarrow> c d' = c d) \<and> (\<forall>d d'. sd_open_read sd d = Inr d' \<longrightarrow> c d' = c d) \<and>
     (\<forall>d. sd_open_read sd d = Inl TableDoesNotExist \<longrightarrow> c d = Map.empty) \<and>
     (\<forall>d d'. sd_commit sd d = Inr d' \<longrightarrow> c d' = c d) \<and> (\<forall>d. c (sd_abort sd d) = c d) \<and>
     (\<forall>k v d d'. sd_insert sd k v d = Inr d' \<longrightarrow> c d' = (c d)(k \<mapsto> v)) \<and>
     (\<forall>k d d'. sd_remove sd k d = Inr d' \<longrightarrow> c d' = (c d)(k := None)) \<and>
     (\<forall>a b d rs. sd_range sd a b d = Inr rs \<longrightarrow> scan_of rs (c d |` {a..b})) \<and>
     (\<forall>d rs. sd_iter sd d = Inr rs \<longrightarrow> scan_of rs (c d))"

lemma series_snapshots:
  assumes "series_laws sd c"
  shows "sd_begin_write sd d = Inr d' \<Longrightarrow> c d' = c d" and "sd_begin_read sd d = Inr d' \<Longrightarrow> c d' = c d"
    and "sd_open_write sd d = Inr d' \<Longrightarrow> c d' = c d" and "sd_open_read sd d = Inr d' \<Longrightarrow> c d' = c d"
    and "sd_commit sd d = Inr d' \<Longrightarrow> c d' = c d" and "sd_open_read sd d = Inl TableDoesNotExist \<Longrightarrow> c d = Map.empty"
    and "c (sd_abort sd d) = c d"
  using assms by (simp_all add: series_laws_def)

lemma series_insert: "series_laws sd c \<Longrightarrow> sd_insert sd k v d = Inr d' \<Longrightarrow> c d' = (c d)(k \<mapsto> v)"
  unfolding series_laws_def by (elim conjE) blast

lemma series_remove: "series_laws sd c \<Longrightarrow> sd_remove sd k d = Inr d' \<Longrightarrow> c d' = (c d)(k := None)"
  unfolding series_laws_def by (elim conjE) blast

lemma series_range: "series_laws sd c \<Longrightarrow> sd_range sd a b d = Inr rs \<Longrightarrow> scan_of rs (c d |` {a..b})"
  unfolding series_laws_def by (elim conjE) iprover

lemma series_iter: "series_laws sd c \<Longrightarrow> sd_iter sd d = Inr rs \<Longrightarrow> scan_of rs (c d)"
  unfolding series_laws_def by (elim conjE) iprover

lemma scan_of_entries: "scan_of (map Inr kvs) m \<longleftrightarrow> ascending kvs \<and> map_of kvs = m"
proof -
  have "list_all2 reads (map Inr kvs) kvs' \<longleftrightarrow> kvs' = kvs" for kvs'
    by (auto simp: list_all2_map1 list_all2_eq [symmetric])
  then show ?thesis by (auto simp: scan_of_def)
qed

section \<open>An instance\<close>

text \<open>An association list that satisfies the laws, used to show that they can hold.\<close>

type_synonym mem_series = "(series_key, string) hash_map"

definition mem_scan :: "(series_key \<Rightarrow> bool) \<Rightarrow> mem_series \<Rightarrow> (series_key \<times> string) list" where
  "mem_scan P d = sort_key fst (filter (\<lambda>(k, _). P k) (AList.clearjunk d))"

definition mem_series_db :: "mem_series series_db" where
  "mem_series_db =
     \<lparr>sd_begin_write = Inr, sd_begin_read = Inr, sd_open_write = Inr, sd_open_read = Inr,
      sd_insert = (\<lambda>k v d. Inr (hm_insert k v d)), sd_remove = (\<lambda>k d. Inr (hm_remove k d)),
      sd_range = (\<lambda>a b d. Inr (map Inr (mem_scan (\<lambda>k. a \<le> k \<and> k \<le> b) d))),
      sd_iter = (\<lambda>d. Inr (map Inr (mem_scan (\<lambda>_. True) d))), sd_commit = Inr, sd_abort = id\<rparr>"

lemma mem_scan_laws: "ascending (mem_scan P d)" "map_of (mem_scan P d) = hm_get d |` {k. P k}"
proof -
  let ?xs = "filter (\<lambda>(k, _). P k) (AList.clearjunk d)"
  have dist: "distinct (map fst ?xs)" by (simp add: distinct_map_filter)
  have "mset (map fst (sort_key fst ?xs)) = mset (map fst ?xs)" by (simp only: mset_map mset_sort)
  then have sorted_dist: "distinct (map fst (sort_key fst ?xs))" using dist mset_eq_imp_distinct_iff by blast
  have "sorted (map fst (sort_key fst ?xs))" by simp
  with sorted_dist show "ascending (mem_scan P d)" unfolding ascending_def mem_scan_def
    by (simp only: strict_sorted_iff)
  have "map_of (sort_key fst ?xs) = map_of ?xs"
    by (rule map_of_inject_set [THEN iffD2, OF sorted_dist dist]) simp
  moreover have "map_of ?xs k = (hm_get d |` {k. P k}) k" for k
    using hm_get_filter [OF distinct_clearjunk [of d], of "\<lambda>(k, _). P k" k]
    by (cases "hm_get d k") (simp_all add: restrict_map_def map_of_clearjunk)
  ultimately show "map_of (mem_scan P d) = hm_get d |` {k. P k}" unfolding mem_scan_def by (simp only: fun_eq_iff) simp
qed

lemma mem_series_laws: "series_laws mem_series_db hm_get"
proof -
  have "scan_of (map Inr (mem_scan (\<lambda>k. a \<le> k \<and> k \<le> b) d)) (hm_get d |` {a..b})" for a b d
    by (simp only: scan_of_entries mem_scan_laws) (simp add: atLeastAtMost_def atLeast_def atMost_def Collect_conj_eq)
  moreover have "scan_of (map Inr (mem_scan (\<lambda>_. True) d)) (hm_get d)" for d
    by (simp only: scan_of_entries mem_scan_laws) (simp add: restrict_map_def)
  ultimately show ?thesis unfolding series_laws_def mem_series_db_def
    by (simp add: fun_eq_iff del: split_paired_All)
qed

end
