(* ===== verification/SeriesStore.thy ===== *)
theory SeriesStore
  imports TimeSeries SeriesDb Schema
begin

text \<open>
  \<open>TimeSeriesStore\<close> of \<open>heramind-storage/src/timeseries.rs\<close>: its state and the write path (direct and concurrent
  batches, the write-behind buffer and its flush with the fall-back from one transaction for everything to one per
  series and one per point), and the migration of keys. The cache of latest values belongs to the \<open>moka\<close> crate: it may
  evict entries at any time, so its laws only bound what it holds. Clock readings, durations and whether the lock of
  the counters is free are arguments.
\<close>

section \<open>State\<close>

type_synonym series = "string \<times> string"

record latest_entry =
  le_point :: data_point
  le_cached_at :: instant

record 'c moka =
  mk_new :: "nat \<Rightarrow> 'c"
  mk_get :: "series \<Rightarrow> 'c \<Rightarrow> latest_entry option \<times> 'c"
  mk_insert :: "series \<Rightarrow> latest_entry \<Rightarrow> 'c \<Rightarrow> 'c"
  mk_invalidate :: "series \<Rightarrow> 'c \<Rightarrow> 'c"
  mk_invalidate_all :: "'c \<Rightarrow> 'c"
  mk_iter :: "'c \<Rightarrow> (series \<times> latest_entry) list"
  mk_entry_count :: "'c \<Rightarrow> nat"

definition moka_laws :: "'c moka \<Rightarrow> ('c \<Rightarrow> series \<Rightarrow> latest_entry option) \<Rightarrow> bool" where
  "moka_laws mk held \<longleftrightarrow>
     (\<forall>n. held (mk_new mk n) = Map.empty) \<and>
     (\<forall>k c r c'. mk_get mk k c = (r, c') \<longrightarrow> held c' \<subseteq>\<^sub>m held c \<and> (r = None \<or> r = held c k)) \<and>
     (\<forall>k e c. held (mk_insert mk k e c) \<subseteq>\<^sub>m (held c)(k \<mapsto> e)) \<and>
     (\<forall>k c. held (mk_invalidate mk k c) \<subseteq>\<^sub>m (held c)(k := None)) \<and>
     (\<forall>c. held (mk_invalidate_all mk c) = Map.empty)"

record ('d, 'c) ts_store =
  ts_db :: 'd
  ts_metrics_info :: "(string, series_info) hash_map"
  ts_latest_cache :: 'c
  ts_retention_policy :: retention_policy
  ts_stats :: perf_stats
  ts_cache_ttl :: duration
  ts_path :: string
  ts_write_buffer :: write_buffer
  ts_metrics_initialized :: bool
  ts_retention_in_progress :: bool

record point_codec =
  pc_to_vec :: "data_point \<Rightarrow> (string, string) rust_result"
  pc_from_slice :: "string \<Rightarrow> (string, data_point) rust_result"

definition metric_key :: "series \<Rightarrow> string" where
  "metric_key s = fst s @ '':'' @ snd s"

text \<open>Opening: the store a previous call created for the same path is used again. The database file is opened by the
  \<open>redb\<close> crate, \<open>open_db\<close>.\<close>

definition fresh_store :: "'c moka \<Rightarrow> ts_config \<Rightarrow> string \<Rightarrow> 'd \<Rightarrow> ('d, 'c) ts_store" where
  "fresh_store mk config path db =
     \<lparr>ts_db = db, ts_metrics_info = [], ts_latest_cache = mk_new mk (tc_max_cache_size config),
      ts_retention_policy = tc_retention_policy config, ts_stats = ps_default, ts_cache_ttl = tc_cache_ttl config,
      ts_path = path, ts_write_buffer = wb_new (tc_write_buffer_size config), ts_metrics_initialized = False,
      ts_retention_in_progress = False\<rparr>"

definition ts_with_config ::
    "'d redb \<Rightarrow> u64_codec \<Rightarrow> 'c moka \<Rightarrow> (string \<Rightarrow> (string, 'd) rust_result) \<Rightarrow> ts_config \<Rightarrow> string \<Rightarrow> ('d, 'c) ts_store option
     \<Rightarrow> (storage_error, ('d, 'c) ts_store) rust_result \<times> ('d, 'c) ts_store option" where
  "ts_with_config rd ucd mk open_db config path singleton =
     (case Option.bind singleton (\<lambda>st. if ts_path st = path then Some st else None) of
        Some st \<Rightarrow> (Inr st, singleton)
      | None \<Rightarrow>
          (case and_then (map_err (\<lambda>e. StStorage (''Redb database error: '' @ e)) (open_db path)) (\<lambda>db.
                  map_err (\<lambda>e. StStorage (''schema version: '' @ e)) (check_or_stamp rd ucd db)) of
             Inl e \<Rightarrow> (Inl e, singleton)
           | Inr db \<Rightarrow> let st = fresh_store mk config path db in (Inr st, Some st)))"

section \<open>Counters, policy and cache\<close>

definition ts_reset_stats :: "('d, 'c) ts_store \<Rightarrow> ('d, 'c) ts_store" where
  "ts_reset_stats st = st\<lparr>ts_stats := ps_default\<rparr>"

definition ts_set_retention_policy :: "retention_policy \<Rightarrow> ('d, 'c) ts_store \<Rightarrow> ('d, 'c) ts_store" where
  "ts_set_retention_policy p st = st\<lparr>ts_retention_policy := p\<rparr>"

text \<open>The difference of the two counts is a \<open>usize\<close>.\<close>

definition ts_clean_cache :: "'c moka \<Rightarrow> instant \<Rightarrow> ('d, 'c) ts_store \<Rightarrow> u64 \<times> ('d, 'c) ts_store" where
  "ts_clean_cache mk now st =
     (let cache = ts_latest_cache st;
          expired = map fst (filter (\<lambda>(_, e). ts_cache_ttl st \<le> elapsed_since now (le_cached_at e)) (mk_iter mk cache));
          cache' = fold (mk_invalidate mk) expired cache
      in (of_nat (mk_entry_count mk cache) - of_nat (mk_entry_count mk cache'), st\<lparr>ts_latest_cache := cache'\<rparr>))"

definition ts_clear_cache :: "'c moka \<Rightarrow> ('d, 'c) ts_store \<Rightarrow> ('d, 'c) ts_store" where
  "ts_clear_cache mk st = st\<lparr>ts_latest_cache := mk_invalidate_all mk (ts_latest_cache st)\<rparr>"

definition ts_cache_size :: "'c moka \<Rightarrow> ('d, 'c) ts_store \<Rightarrow> nat" where
  "ts_cache_size mk st = length (mk_iter mk (ts_latest_cache st))"

definition update_cache :: "'c moka \<Rightarrow> instant \<Rightarrow> series \<Rightarrow> data_point \<Rightarrow> ('d, 'c) ts_store \<Rightarrow> ('d, 'c) ts_store" where
  "update_cache mk now s p st =
     st\<lparr>ts_latest_cache := mk_insert mk s \<lparr>le_point = p, le_cached_at = now\<rparr> (ts_latest_cache st)\<rparr>"

section \<open>Transactions\<close>

text \<open>A write transaction on the table; when a step fails the transaction is dropped.\<close>

definition in_write_txn ::
    "'d series_db \<Rightarrow> ('d \<Rightarrow> (storage_error, 'd) rust_result) \<Rightarrow> 'd \<Rightarrow> (storage_error, unit) rust_result \<times> 'd" where
  "in_write_txn sd body db =
     (case and_then (txn_err (sd_begin_write sd db)) (\<lambda>w.
           and_then (table_err (sd_open_write sd w)) (\<lambda>w.
           and_then (body w) (\<lambda>w. commit_err (sd_commit sd w)))) of
        Inl e \<Rightarrow> (Inl e, sd_abort sd db)
      | Inr db' \<Rightarrow> (Inr (), db'))"

fun insert_points ::
    "'d series_db \<Rightarrow> point_codec \<Rightarrow> series \<Rightarrow> data_point list \<Rightarrow> 'd \<Rightarrow> (storage_error, 'd) rust_result" where
  "insert_points sd cd s [] w = Inr w"
| "insert_points sd cd s (p # ps) w =
     and_then (json_err (pc_to_vec cd p)) (\<lambda>v.
     and_then (io_err (sd_insert sd (fst s, snd s, dp_timestamp p) v w)) (\<lambda>w. insert_points sd cd s ps w))"

fun insert_groups ::
    "'d series_db \<Rightarrow> point_codec \<Rightarrow> (series, data_point list) hash_map \<Rightarrow> 'd \<Rightarrow> (storage_error, 'd) rust_result" where
  "insert_groups sd cd [] w = Inr w"
| "insert_groups sd cd ((s, ps) # gs) w = and_then (insert_points sd cd s ps w) (insert_groups sd cd gs)"

text \<open>The index of metrics after a write; an empty batch counts as written at the given default time.\<close>

definition note_metric :: "int \<Rightarrow> series \<Rightarrow> data_point list \<Rightarrow> (string, series_info) hash_map \<Rightarrow> (string, series_info) hash_map" where
  "note_metric none_ts s ps m =
     (let last_ts = (if ps = [] then none_ts else dp_timestamp (last ps))
      in hm_insert (metric_key s)
           (case hm_get m (metric_key s) of
              Some i \<Rightarrow> i\<lparr>mi_last_update := last_ts, mi_point_count := mi_point_count i + of_nat (length ps)\<rparr>
            | None \<Rightarrow> \<lparr>mi_last_update = last_ts, mi_point_count = of_nat (length ps)\<rparr>) m)"

definition write_batch_sync ::
    "'d series_db \<Rightarrow> point_codec \<Rightarrow> series \<Rightarrow> data_point list \<Rightarrow> ('d, 'c) ts_store
     \<Rightarrow> (storage_error, unit) rust_result \<times> ('d, 'c) ts_store" where
  "write_batch_sync sd cd s ps st =
     (case in_write_txn sd (insert_points sd cd s ps) (ts_db st) of
        (Inl e, db) \<Rightarrow> (Inl e, st\<lparr>ts_db := db\<rparr>)
      | (Inr _, db) \<Rightarrow>
          (Inr (), st\<lparr>ts_db := db, ts_metrics_info := note_metric 0 s ps (ts_metrics_info st), ts_metrics_initialized := True\<rparr>))"

definition write_all_groups_sync ::
    "'d series_db \<Rightarrow> point_codec \<Rightarrow> (series, data_point list) hash_map \<Rightarrow> ('d, 'c) ts_store
     \<Rightarrow> (storage_error, unit) rust_result \<times> ('d, 'c) ts_store" where
  "write_all_groups_sync sd cd gs st =
     (case in_write_txn sd (insert_groups sd cd gs) (ts_db st) of
        (Inl e, db) \<Rightarrow> (Inl e, st\<lparr>ts_db := db\<rparr>)
      | (Inr _, db) \<Rightarrow>
          (Inr (), st\<lparr>ts_db := db, ts_metrics_info := fold (\<lambda>(s, ps). note_metric 0 s ps) gs (ts_metrics_info st),
                      ts_metrics_initialized := True\<rparr>))"

section \<open>Flushing the buffer\<close>

fun write_points_isolated ::
    "'d series_db \<Rightarrow> point_codec \<Rightarrow> series \<Rightarrow> data_point list \<Rightarrow> ('d, 'c) ts_store \<Rightarrow> data_point list \<times> ('d, 'c) ts_store" where
  "write_points_isolated sd cd s [] st = ([], st)"
| "write_points_isolated sd cd s (p # ps) st =
     (case write_batch_sync sd cd s [p] st of
        (Inl _, st) \<Rightarrow> (let (failed, st) = write_points_isolated sd cd s ps st in (p # failed, st))
      | (Inr _, st) \<Rightarrow> write_points_isolated sd cd s ps st)"

definition group_writes :: "buffered_write list \<Rightarrow> (series, data_point list) hash_map" where
  "group_writes ws = fold (\<lambda>w. push_at (bf_source_id w, bf_metric w) (bf_point w)) ws []"

definition to_buffered :: "series \<Rightarrow> data_point \<Rightarrow> buffered_write" where
  "to_buffered s p = \<lparr>bf_source_id = fst s, bf_metric = snd s, bf_point = p\<rparr>"

fun flush_groups ::
    "'d series_db \<Rightarrow> point_codec \<Rightarrow> (series, data_point list) hash_map \<Rightarrow> ('d, 'c) ts_store
     \<Rightarrow> buffered_write list \<times> ('d, 'c) ts_store" where
  "flush_groups sd cd [] st = ([], st)"
| "flush_groups sd cd ((s, ps) # gs) st =
     (case write_batch_sync sd cd s ps st of
        (Inr _, st) \<Rightarrow> flush_groups sd cd gs st
      | (Inl _, st) \<Rightarrow>
          (let (failed, st) = write_points_isolated sd cd s ps st; (rest, st) = flush_groups sd cd gs st
           in (map (to_buffered s) failed @ rest, st)))"

definition count_written :: "bool \<Rightarrow> duration \<Rightarrow> nat \<Rightarrow> ('d, 'c) ts_store \<Rightarrow> ('d, 'c) ts_store" where
  "count_written stats_free took n st =
     (if stats_free
      then st\<lparr>ts_stats := (ts_stats st)\<lparr>ps_write_count := ps_write_count (ts_stats st) + of_nat n,
                                      ps_total_write_ns := ps_total_write_ns (ts_stats st) + of_nat took\<rparr>\<rparr>
      else st)"

definition flush_buffer ::
    "'d series_db \<Rightarrow> point_codec \<Rightarrow> bool \<Rightarrow> duration \<Rightarrow> ('d, 'c) ts_store \<Rightarrow> ('d, 'c) ts_store" where
  "flush_buffer sd cd stats_free took st =
     (let (drained, b) = wb_drain (ts_write_buffer st); st = st\<lparr>ts_write_buffer := b\<rparr>
      in if drained = [] then st
         else let groups = group_writes drained; total_count = sum_list (map (\<lambda>(_, ps). length ps) groups)
              in case write_all_groups_sync sd cd groups st of
                   (Inr _, st) \<Rightarrow> count_written stats_free took total_count st
                 | (Inl _, st) \<Rightarrow>
                     (let (failed, st) = flush_groups sd cd groups st;
                          st = (if failed = [] then st
                                else st\<lparr>ts_write_buffer := snd (wb_requeue failed (ts_write_buffer st))\<rparr>)
                      in count_written stats_free took (total_count - length failed) st))"

definition ts_write ::
    "'d series_db \<Rightarrow> point_codec \<Rightarrow> 'c moka \<Rightarrow> instant \<Rightarrow> bool \<Rightarrow> duration \<Rightarrow> series \<Rightarrow> data_point \<Rightarrow> ('d, 'c) ts_store
     \<Rightarrow> (storage_error, unit) rust_result \<times> ('d, 'c) ts_store" where
  "ts_write sd cd mk now stats_free took s p st =
     (let st = update_cache mk now s p st;
          (should_flush, b) = wb_push (to_buffered s p) (ts_write_buffer st);
          st = st\<lparr>ts_write_buffer := b\<rparr>
      in (Inr (), if should_flush then flush_buffer sd cd stats_free took st else st))"

definition ts_flush ::
    "'d series_db \<Rightarrow> point_codec \<Rightarrow> bool \<Rightarrow> duration \<Rightarrow> ('d, 'c) ts_store \<Rightarrow> (storage_error, unit) rust_result \<times> ('d, 'c) ts_store" where
  "ts_flush sd cd stats_free took st = (Inr (), flush_buffer sd cd stats_free took st)"

definition ts_shutdown :: "'d series_db \<Rightarrow> point_codec \<Rightarrow> bool \<Rightarrow> duration \<Rightarrow> ('d, 'c) ts_store \<Rightarrow> ('d, 'c) ts_store" where
  "ts_shutdown sd cd stats_free took st =
     flush_buffer sd cd stats_free took (st\<lparr>ts_write_buffer := wb_abort (ts_write_buffer st)\<rparr>)"

text \<open>A tick of the background task: it flushes, and a tick that finds the shutdown flag set is its last.\<close>

definition flush_tick :: "'d series_db \<Rightarrow> point_codec \<Rightarrow> bool \<Rightarrow> duration \<Rightarrow> ('d, 'c) ts_store \<Rightarrow> bool \<times> ('d, 'c) ts_store" where
  "flush_tick sd cd stats_free took st = (\<not> wb_shutdown (ts_write_buffer st), flush_buffer sd cd stats_free took st)"

section \<open>Batches\<close>

definition ts_write_batch ::
    "'d series_db \<Rightarrow> point_codec \<Rightarrow> date_time \<Rightarrow> series \<Rightarrow> data_point list \<Rightarrow> ('d, 'c) ts_store
     \<Rightarrow> (storage_error, unit) rust_result \<times> ('d, 'c) ts_store" where
  "ts_write_batch sd cd now s ps st =
     (case in_write_txn sd (insert_points sd cd s ps) (ts_db st) of
        (Inl e, db) \<Rightarrow> (Inl e, st\<lparr>ts_db := db\<rparr>)
      | (Inr _, db) \<Rightarrow>
          (Inr (), st\<lparr>ts_db := db, ts_metrics_info := note_metric (timestamp now) s ps (ts_metrics_info st),
                      ts_metrics_initialized := True\<rparr>))"

text \<open>One task of \<open>write_batch_concurrent\<close>: the index of metrics is not touched.\<close>

definition batch_task ::
    "'d series_db \<Rightarrow> point_codec \<Rightarrow> 'c moka \<Rightarrow> instant \<Rightarrow> duration \<Rightarrow> batch_write_request \<Rightarrow> ('d, 'c) ts_store
     \<Rightarrow> (storage_error, nat) rust_result \<times> ('d, 'c) ts_store" where
  "batch_task sd cd mk now took r st =
     (let gs = map (\<lambda>(m, ps). ((bw_source_id r, m), ps)) (bw_metrics r)
      in case in_write_txn sd (insert_groups sd cd gs) (ts_db st) of
           (Inl e, db) \<Rightarrow> (Inl e, st\<lparr>ts_db := db\<rparr>)
         | (Inr _, db) \<Rightarrow>
             (let st = fold (\<lambda>(s, ps) st. if ps = [] then st else update_cache mk now s (last ps) st) gs (st\<lparr>ts_db := db\<rparr>)
              in (Inr (bw_point_count r), st\<lparr>ts_stats := record_write took (ts_stats st)\<rparr>)))"

text \<open>The tasks run in the order \<open>order\<close> in which they get the writer's lock, a permutation of the requests, and all of
  them run whatever the caller is told; the results are read in the order of the requests.\<close>

fun run_tasks ::
    "'d series_db \<Rightarrow> point_codec \<Rightarrow> 'c moka \<Rightarrow> instant \<Rightarrow> duration \<Rightarrow> batch_write_request list \<Rightarrow> nat list \<Rightarrow> ('d, 'c) ts_store
     \<Rightarrow> (nat, (storage_error, nat) rust_result) hash_map \<times> ('d, 'c) ts_store" where
  "run_tasks sd cd mk now took rs [] st = ([], st)"
| "run_tasks sd cd mk now took rs (i # order) st =
     (let (r, st) = batch_task sd cd mk now took (rs ! i) st; (rest, st) = run_tasks sd cd mk now took rs order st
      in ((i, r) # rest, st))"

definition ts_write_batch_concurrent ::
    "'d series_db \<Rightarrow> point_codec \<Rightarrow> 'c moka \<Rightarrow> instant \<Rightarrow> duration \<Rightarrow> nat list \<Rightarrow> batch_write_request list \<Rightarrow> ('d, 'c) ts_store
     \<Rightarrow> (storage_error, nat) rust_result \<times> ('d, 'c) ts_store" where
  "ts_write_batch_concurrent sd cd mk now took order rs st =
     (let (outcomes, st) = run_tasks sd cd mk now took rs order st
      in (and_then (collect_results (List.map_filter (hm_get outcomes) [0..<length rs])) (\<lambda>ns. Inr (sum_list ns)), st))"

section \<open>Migration of keys\<close>

definition KNOWN_PREFIXES :: "string list" where
  "KNOWN_PREFIXES = [''device:'', ''extension:'', ''transform:'']"

fun move_in :: "'d series_db \<Rightarrow> (series_key \<times> string) list \<Rightarrow> 'd \<Rightarrow> (storage_error, 'd) rust_result" where
  "move_in sd [] w = Inr w"
| "move_in sd ((k, v) # kvs) w = and_then (io_err (sd_insert sd k v w)) (move_in sd kvs)"

fun move_out :: "'d series_db \<Rightarrow> (series_key \<times> string) list \<Rightarrow> 'd \<Rightarrow> (storage_error, 'd) rust_result" where
  "move_out sd [] w = Inr w"
| "move_out sd (((new_source, metric, ts), v) # kvs) w =
     and_then (io_err (sd_remove sd (drop 7 new_source, metric, ts) w)) (move_out sd kvs)"

definition to_migrate :: "(series_key \<times> string) list \<Rightarrow> (series_key \<times> string) list" where
  "to_migrate kvs =
     map (\<lambda>((sid, metric, ts), v). ((''device:'' @ sid, metric, ts), v))
       (filter (\<lambda>((sid, metric, ts), v). \<not> list_ex (starts_with sid) KNOWN_PREFIXES) kvs)"

definition migrate_device_prefix :: "'d series_db \<Rightarrow> 'd \<Rightarrow> (storage_error, u64) rust_result \<times> 'd" where
  "migrate_device_prefix sd db =
     (case and_then (txn_err (sd_begin_write sd db)) (\<lambda>w.
           and_then (table_err (sd_open_write sd w)) (\<lambda>w.
           and_then (io_err (sd_iter sd w)) (\<lambda>rs.
           and_then (io_err (collect_results rs)) (\<lambda>kvs.
           and_then (move_in sd (to_migrate kvs) w) (\<lambda>w.
           and_then (move_out sd (to_migrate kvs) w) (\<lambda>w.
           and_then (commit_err (sd_commit sd w)) (\<lambda>db'. Inr (of_nat (length (to_migrate kvs)), db')))))))) of
        Inl e \<Rightarrow> (Inl e, sd_abort sd db)
      | Inr (n, db') \<Rightarrow> (Inr n, db'))"

section \<open>An instance\<close>

text \<open>A cache that never evicts satisfies the laws, and a codec that writes the time stamp and refuses points without a
  value.\<close>

type_synonym map_cache = "(series, latest_entry) hash_map"

definition map_moka :: "map_cache moka" where
  "map_moka =
     \<lparr>mk_new = (\<lambda>_. []), mk_get = (\<lambda>k c. (hm_get c k, c)), mk_insert = hm_insert, mk_invalidate = hm_remove,
      mk_invalidate_all = (\<lambda>_. []), mk_iter = id, mk_entry_count = length\<rparr>"

lemma map_moka_laws: "moka_laws map_moka hm_get"
  by (simp add: moka_laws_def map_moka_def)

definition ts_codec :: point_codec where
  "ts_codec =
     \<lparr>pc_to_vec = (\<lambda>p. if dp_value p = JNull then Inl ''no value'' else Inr (show_int (dp_timestamp p))),
      pc_from_slice = (\<lambda>s. Inr (dp_new_string 0 s))\<rparr>"

definition buffered_store :: "buffered_write list \<Rightarrow> (mem_series, map_cache) ts_store" where
  "buffered_store ws = (fresh_store map_moka ts_config_default ''telemetry.redb'' [])
     \<lparr>ts_write_buffer := (wb_new 200)\<lparr>wb_pending := ws\<rparr>\<rparr>"

definition sample_writes :: "buffered_write list" where
  "sample_writes =
     [to_buffered (''device:a'', ''temp'') (dp_new_bool 7 True),
      to_buffered (''device:a'', ''temp'') (dp_new_with_value 8 JNull)]"

end
