(* ===== verification/SeriesQuery.thy ===== *)
theory SeriesQuery
  imports SeriesStore Events
begin

text \<open>
  The read operations of \<open>heramind-storage/src/timeseries.rs\<close>: range queries in both directions, streaming and bucketed
  aggregation, down-sampling, latest values through the cache, and the listing of metrics. A query sees the table as it
  is, not the writes that are still in the buffer. The blocking pool a query runs on adds an error only when the query
  panics, which none of these does.
\<close>

section \<open>Range queries\<close>

type_synonym scan = "(string, series_key \<times> string) rust_result list"

definition read_table :: "'d series_db \<Rightarrow> 'd \<Rightarrow> (storage_error, 'd option) rust_result" where
  "read_table sd db =
     and_then (txn_err (sd_begin_read sd db)) (\<lambda>t.
     case sd_open_read sd t of
       Inr t' \<Rightarrow> Inr (Some t')
     | Inl TableDoesNotExist \<Rightarrow> Inr None
     | Inl (TableFailure e) \<Rightarrow> Inl (StStorage (''Failed to open table: '' @ e)))"

definition series_range_scan :: "'d series_db \<Rightarrow> series \<Rightarrow> int \<Rightarrow> int \<Rightarrow> 'd \<Rightarrow> (storage_error, scan) rust_result" where
  "series_range_scan sd s start end_ts t = io_err (sd_range sd (fst s, snd s, start) (fst s, snd s, end_ts) t)"

definition ts_result_of :: "series \<Rightarrow> data_point list \<Rightarrow> nat option \<Rightarrow> ts_result" where
  "ts_result_of s ps n = \<lparr>tr_source_id = fst s, tr_metric = snd s, tr_points = ps, tr_total_count = n\<rparr>"

definition below :: "nat option \<Rightarrow> nat \<Rightarrow> bool" where
  "below limit n = (case limit of None \<Rightarrow> True | Some m \<Rightarrow> n < m)"

fun collect_range ::
    "point_codec \<Rightarrow> nat option \<Rightarrow> scan \<Rightarrow> nat \<Rightarrow> u32 \<Rightarrow> data_point list \<Rightarrow> (storage_error, data_point list \<times> u32) rust_result" where
  "collect_range cd limit [] collected n points = Inr (points, n)"
| "collect_range cd limit (r # rs) collected n points =
     and_then (io_err r) (\<lambda>(_, v).
     if below limit collected
     then and_then (json_err (pc_from_slice cd v)) (\<lambda>p. collect_range cd limit rs (Suc collected) (n + 1) (points @ [p]))
     else Inr (points, n + 1))"

definition query_range_impl ::
    "'d series_db \<Rightarrow> point_codec \<Rightarrow> series \<Rightarrow> int \<Rightarrow> int \<Rightarrow> nat option \<Rightarrow> 'd \<Rightarrow> (storage_error, ts_result) rust_result" where
  "query_range_impl sd cd s start end_ts limit db =
     and_then (read_table sd db) (\<lambda>t.
     case t of
       None \<Rightarrow> Inr (ts_result_of s [] None)
     | Some t \<Rightarrow>
         and_then (series_range_scan sd s start end_ts t) (\<lambda>rs.
         and_then (collect_range cd limit rs 0 0 []) (\<lambda>(points, n).
         Inr (ts_result_of s points (map_option (\<lambda>_. unat n) limit)))))"

text \<open>Newest first: the scan is walked from its end, the offset is skipped, and every entry is counted.\<close>

fun collect_range_rev ::
    "point_codec \<Rightarrow> nat option \<Rightarrow> nat \<Rightarrow> scan \<Rightarrow> nat \<Rightarrow> nat \<Rightarrow> u32 \<Rightarrow> data_point list
     \<Rightarrow> (storage_error, data_point list \<times> u32) rust_result" where
  "collect_range_rev cd limit offset [] skipped collected n points = Inr (points, n)"
| "collect_range_rev cd limit offset (r # rs) skipped collected n points =
     (if skipped < offset then collect_range_rev cd limit offset rs (Suc skipped) collected (n + 1) points
      else if below limit collected
      then and_then (io_err r) (\<lambda>(_, v).
           and_then (json_err (pc_from_slice cd v)) (\<lambda>p.
           collect_range_rev cd limit offset rs skipped (Suc collected) (n + 1) (points @ [p])))
      else collect_range_rev cd limit offset rs skipped collected (n + 1) points)"

definition query_range_rev_impl ::
    "'d series_db \<Rightarrow> point_codec \<Rightarrow> series \<Rightarrow> int \<Rightarrow> int \<Rightarrow> nat option \<Rightarrow> nat \<Rightarrow> 'd \<Rightarrow> (storage_error, ts_result) rust_result" where
  "query_range_rev_impl sd cd s start end_ts limit offset db =
     and_then (read_table sd db) (\<lambda>t.
     case t of
       None \<Rightarrow> Inr (ts_result_of s [] None)
     | Some t \<Rightarrow>
         and_then (series_range_scan sd s start end_ts t) (\<lambda>rs.
         and_then (collect_range_rev cd limit offset (rev rs) 0 0 0 []) (\<lambda>(points, n).
         Inr (ts_result_of s points (Some (unat n))))))"

section \<open>Aggregation\<close>

record aggregate_result =
  ag_count :: u64
  ag_sum :: "f64 option"
  ag_min :: "f64 option"
  ag_max :: "f64 option"
  ag_first_value :: "json option"
  ag_last_value :: "json option"

record aggregate_state =
  as_count :: u64
  as_sum :: f64
  as_min :: f64
  as_max :: f64
  as_has_numeric :: bool
  as_first :: "json option"
  as_last :: "json option"

definition aggregate_start :: aggregate_state where
  "aggregate_start =
     \<lparr>as_count = 0, as_sum = Fin 0, as_min = PosInf, as_max = NegInf, as_has_numeric = False, as_first = None, as_last = None\<rparr>"

definition aggregate_point :: "data_point \<Rightarrow> aggregate_state \<Rightarrow> aggregate_state" where
  "aggregate_point p a =
     (let a = a\<lparr>as_count := as_count a + 1,
                as_first := (case as_first a of None \<Rightarrow> Some (dp_value p) | Some v \<Rightarrow> Some v),
                as_last := Some (dp_value p)\<rparr>
      in case js_as_f64 (dp_value p) of
           Some n \<Rightarrow> a\<lparr>as_sum := f64_add (as_sum a) n, as_min := f64_min (as_min a) n, as_max := f64_max (as_max a) n,
                      as_has_numeric := True\<rparr>
         | None \<Rightarrow> a)"

fun aggregate_scan :: "point_codec \<Rightarrow> scan \<Rightarrow> aggregate_state \<Rightarrow> (storage_error, aggregate_state) rust_result" where
  "aggregate_scan cd [] a = Inr a"
| "aggregate_scan cd (r # rs) a =
     and_then (io_err r) (\<lambda>(_, v).
     case pc_from_slice cd v of
       Inr p \<Rightarrow> aggregate_scan cd rs (aggregate_point p a)
     | Inl _ \<Rightarrow> aggregate_scan cd rs a)"

definition aggregate_finish :: "aggregate_state \<Rightarrow> aggregate_result" where
  "aggregate_finish a =
     \<lparr>ag_count = as_count a, ag_sum = (if as_has_numeric a then Some (as_sum a) else None),
      ag_min = (if as_has_numeric a then Some (as_min a) else None),
      ag_max = (if as_has_numeric a then Some (as_max a) else None),
      ag_first_value = as_first a, ag_last_value = as_last a\<rparr>"

definition aggregate_range_impl ::
    "'d series_db \<Rightarrow> point_codec \<Rightarrow> series \<Rightarrow> int \<Rightarrow> int \<Rightarrow> 'd \<Rightarrow> (storage_error, aggregate_result) rust_result" where
  "aggregate_range_impl sd cd s start end_ts db =
     and_then (read_table sd db) (\<lambda>t.
     case t of
       None \<Rightarrow> Inr \<lparr>ag_count = 0, ag_sum = None, ag_min = None, ag_max = None, ag_first_value = None, ag_last_value = None\<rparr>
     | Some t \<Rightarrow>
         and_then (series_range_scan sd s start end_ts t) (\<lambda>rs.
         and_then (aggregate_scan cd rs aggregate_start) (\<lambda>a. Inr (aggregate_finish a))))"

section \<open>Several metrics\<close>

fun collect_lenient ::
    "point_codec \<Rightarrow> nat option \<Rightarrow> scan \<Rightarrow> nat \<Rightarrow> u32 \<Rightarrow> data_point list \<Rightarrow> (storage_error, data_point list \<times> u32) rust_result" where
  "collect_lenient cd limit [] collected n points = Inr (points, n)"
| "collect_lenient cd limit (r # rs) collected n points =
     and_then (io_err r) (\<lambda>(_, v).
     if below limit collected
     then (case pc_from_slice cd v of
             Inr p \<Rightarrow> collect_lenient cd limit rs (Suc collected) (n + 1) (points @ [p])
           | Inl _ \<Rightarrow> collect_lenient cd limit rs collected (n + 1) points)
     else Inr (points, n + 1))"

definition query_single_metric ::
    "'d series_db \<Rightarrow> point_codec \<Rightarrow> series \<Rightarrow> int \<Rightarrow> int \<Rightarrow> nat option \<Rightarrow> 'd \<Rightarrow> (storage_error, ts_result) rust_result" where
  "query_single_metric sd cd s start end_ts limit db =
     and_then (read_table sd db) (\<lambda>t.
     case t of
       None \<Rightarrow> Inr (ts_result_of s [] None)
     | Some t \<Rightarrow>
         and_then (series_range_scan sd s start end_ts t) (\<lambda>rs.
         and_then (collect_lenient cd limit rs 0 0 []) (\<lambda>(points, n).
         Inr (ts_result_of s points (map_option (\<lambda>_. unat n) limit)))))"

definition query_range_batch ::
    "'d series_db \<Rightarrow> point_codec \<Rightarrow> string \<Rightarrow> string list \<Rightarrow> int \<Rightarrow> int \<Rightarrow> 'd \<Rightarrow> (storage_error, (string, ts_result) hash_map) rust_result" where
  "query_range_batch sd cd source metrics start end_ts db =
     (if metrics = [] then Inr []
      else and_then (txn_err (sd_begin_read sd db)) (\<lambda>t.
           if isl (sd_open_read sd t)
           then Inr (fold (\<lambda>m res. hm_insert m (ts_result_of (source, m) [] None) res) metrics [])
           else Inr (fold (\<lambda>m res. case query_single_metric sd cd (source, m) start end_ts None db of
                                       Inr r \<Rightarrow> hm_insert (tr_metric r) r res
                                     | Inl _ \<Rightarrow> res) metrics [])))"

section \<open>Latest values\<close>

definition I64_MIN :: int where
  "I64_MIN = - (2 ^ 63)"

definition I64_MAX :: int where
  "I64_MAX = 2 ^ 63 - 1"

definition last_point :: "point_codec \<Rightarrow> scan \<Rightarrow> (storage_error, data_point option) rust_result" where
  "last_point cd rs =
     (if rs = [] then Inr None
      else and_then (io_err (last rs)) (\<lambda>(_, v). and_then (json_err (pc_from_slice cd v)) (\<lambda>p. Inr (Some p))))"

definition newest_in_table :: "'d series_db \<Rightarrow> point_codec \<Rightarrow> series \<Rightarrow> 'd \<Rightarrow> (storage_error, data_point option) rust_result" where
  "newest_in_table sd cd s t = and_then (series_range_scan sd s I64_MIN I64_MAX t) (last_point cd)"

definition query_latest_uncached ::
    "'d series_db \<Rightarrow> point_codec \<Rightarrow> series \<Rightarrow> 'd \<Rightarrow> (storage_error, data_point option) rust_result" where
  "query_latest_uncached sd cd s db =
     and_then (read_table sd db) (\<lambda>t. case t of None \<Rightarrow> Inr None | Some t \<Rightarrow> newest_in_table sd cd s t)"

definition on_stats :: "(perf_stats \<Rightarrow> perf_stats) \<Rightarrow> ('d, 'c) ts_store \<Rightarrow> ('d, 'c) ts_store" where
  "on_stats f st = st\<lparr>ts_stats := f (ts_stats st)\<rparr>"

text \<open>A fresh entry of the cache, if there is one.\<close>

definition cached_latest :: "'c moka \<Rightarrow> instant \<Rightarrow> series \<Rightarrow> ('d, 'c) ts_store \<Rightarrow> data_point option \<times> ('d, 'c) ts_store" where
  "cached_latest mk now s st =
     (let (entry, cache) = mk_get mk s (ts_latest_cache st)
      in (case entry of
            Some e \<Rightarrow> if elapsed_since now (le_cached_at e) < ts_cache_ttl st then Some (le_point e) else None
          | None \<Rightarrow> None, st\<lparr>ts_latest_cache := cache\<rparr>))"

definition query_latest ::
    "'d series_db \<Rightarrow> point_codec \<Rightarrow> 'c moka \<Rightarrow> instant \<Rightarrow> duration \<Rightarrow> series \<Rightarrow> ('d, 'c) ts_store
     \<Rightarrow> (storage_error, data_point option) rust_result \<times> ('d, 'c) ts_store" where
  "query_latest sd cd mk now took s st =
     (case cached_latest mk now s st of
        (Some p, st) \<Rightarrow> (Inr (Some p), on_stats (record_read took \<circ> record_cache_hit) st)
      | (None, st) \<Rightarrow>
          (case read_table sd (ts_db st) of
             Inl e \<Rightarrow> (Inl e, st)
           | Inr None \<Rightarrow> (Inr None, st)
           | Inr (Some t) \<Rightarrow>
               (case newest_in_table sd cd s t of
                  Inl e \<Rightarrow> (Inl e, st)
                | Inr latest \<Rightarrow>
                    (let st = (case latest of Some p \<Rightarrow> update_cache mk now s p st | None \<Rightarrow> st)
                     in (Inr latest, on_stats (record_read took \<circ> record_cache_miss) st)))))"

fun partition_cached ::
    "'c moka \<Rightarrow> instant \<Rightarrow> string \<Rightarrow> string list \<Rightarrow> (string, data_point) hash_map \<Rightarrow> string list \<Rightarrow> ('d, 'c) ts_store
     \<Rightarrow> (string, data_point) hash_map \<times> string list \<times> ('d, 'c) ts_store" where
  "partition_cached mk now source [] results misses st = (results, misses, st)"
| "partition_cached mk now source (m # ms) results misses st =
     (case cached_latest mk now (source, m) st of
        (Some p, st) \<Rightarrow> partition_cached mk now source ms (hm_insert m p results) misses st
      | (None, st) \<Rightarrow> partition_cached mk now source ms results (misses @ [m]) st)"

fun fetch_misses ::
    "'d series_db \<Rightarrow> point_codec \<Rightarrow> 'c moka \<Rightarrow> instant \<Rightarrow> string \<Rightarrow> 'd \<Rightarrow> string list \<Rightarrow> (string, data_point) hash_map \<Rightarrow> ('d, 'c) ts_store
     \<Rightarrow> (storage_error, (string, data_point) hash_map) rust_result \<times> ('d, 'c) ts_store" where
  "fetch_misses sd cd mk now source t [] results st = (Inr results, st)"
| "fetch_misses sd cd mk now source t (m # ms) results st =
     (case newest_in_table sd cd (source, m) t of
        Inl e \<Rightarrow> (Inl e, st)
      | Inr None \<Rightarrow> fetch_misses sd cd mk now source t ms results st
      | Inr (Some p) \<Rightarrow> fetch_misses sd cd mk now source t ms (hm_insert m p results) (update_cache mk now (source, m) p st))"

definition query_latest_batch ::
    "'d series_db \<Rightarrow> point_codec \<Rightarrow> 'c moka \<Rightarrow> instant \<Rightarrow> duration \<Rightarrow> string \<Rightarrow> string list \<Rightarrow> ('d, 'c) ts_store
     \<Rightarrow> (storage_error, (string, data_point) hash_map) rust_result \<times> ('d, 'c) ts_store" where
  "query_latest_batch sd cd mk now took source metrics st =
     (if metrics = [] then (Inr [], st)
      else let (results, misses, st) = partition_cached mk now source metrics [] [] st;
               finish = (\<lambda>st. on_stats (record_read took \<circ> (record_cache_miss ^^ length misses) \<circ> (record_cache_hit ^^ length results)) st)
           in if misses = [] then (Inr results, finish st)
              else (case read_table sd (ts_db st) of
                      Inl e \<Rightarrow> (Inl e, st)
                    | Inr None \<Rightarrow> (Inr results, st)
                    | Inr (Some t) \<Rightarrow>
                        (case fetch_misses sd cd mk now source t misses results st of
                           (Inl e, st) \<Rightarrow> (Inl e, st)
                         | (Inr results', st) \<Rightarrow> (Inr results', finish st))))"

section \<open>Buckets\<close>

definition bucket_of :: "int \<Rightarrow> int \<Rightarrow> int" where
  "bucket_of width ts = div_i64 ts width * width"

definition add_to_bucket :: "int \<Rightarrow> data_point \<Rightarrow> (int, ts_bucket) hash_map \<Rightarrow> (int, ts_bucket) hash_map" where
  "add_to_bucket width p bs =
     (let key = bucket_of width (dp_timestamp p)
      in hm_insert key (tb_add (dp_value p) (unwrap_or (hm_get bs key) (tb_new key (wrap_i64 (key + width))))) bs)"

definition query_aggregated ::
    "'d series_db \<Rightarrow> point_codec \<Rightarrow> series \<Rightarrow> int \<Rightarrow> int \<Rightarrow> int \<Rightarrow> 'd \<Rightarrow> (storage_error, ts_bucket list) rust_result" where
  "query_aggregated sd cd s start end_ts width db =
     (if width \<le> 0 then Inl (StInvalidInput (''bucket_size_secs must be positive (got '' @ show_int width @ '')''))
      else and_then (query_range_impl sd cd s start end_ts None db) (\<lambda>r.
           Inr (sort_key tb_start (map snd (fold (add_to_bucket width) (tr_points r) [])))))"

text \<open>\<open>i64::saturating_sub\<close>.\<close>

definition sat_sub_i64 :: "int \<Rightarrow> int \<Rightarrow> int" where
  "sat_sub_i64 a b = max I64_MIN (min I64_MAX (a - b))"

definition decode_all :: "point_codec \<Rightarrow> (series_key \<times> string) list \<Rightarrow> data_point list" where
  "decode_all cd kvs = List.map_filter (\<lambda>(_, v). case pc_from_slice cd v of Inr p \<Rightarrow> Some p | Inl _ \<Rightarrow> None) kvs"

fun fill_buckets ::
    "point_codec \<Rightarrow> int \<Rightarrow> int \<Rightarrow> (series_key \<times> string) list \<Rightarrow> data_point option list \<Rightarrow> data_point option list" where
  "fill_buckets cd width aligned [] bs = bs"
| "fill_buckets cd width aligned (((_, _, ts), v) # kvs) bs =
     (let idx = unat (word_of_int (if 0 < width then div_i64 (sat_sub_i64 ts aligned) width else 0) :: u64);
          idx = min idx (length bs - 1)
      in fill_buckets cd width aligned kvs (case pc_from_slice cd v of Inr p \<Rightarrow> bs[idx := Some p] | Inl _ \<Rightarrow> bs))"

definition bucket_count :: "int \<Rightarrow> int \<Rightarrow> int \<Rightarrow> nat" where
  "bucket_count width aligned end_ts =
     max (f64_as_u64 (f64_ceil (f64_div (f64_of_int (wrap_i64 (end_ts - aligned))) (f64_of_int width)))) 1"

definition raw_bucket_size :: "int \<Rightarrow> nat \<Rightarrow> int" where
  "raw_bucket_size span target = f64_as_i64 (f64_ceil (f64_div (f64_of_int span) (f64_of_int (int target))))"

definition query_range_bucketed_impl ::
    "'d series_db \<Rightarrow> point_codec \<Rightarrow> series \<Rightarrow> int \<Rightarrow> int \<Rightarrow> nat \<Rightarrow> 'd \<Rightarrow> (storage_error, ts_result) rust_result" where
  "query_range_bucketed_impl sd cd s start end_ts target db =
     and_then (read_table sd db) (\<lambda>t.
     case t of
       None \<Rightarrow> Inr (ts_result_of s [] None)
     | Some t \<Rightarrow>
         (let span = sat_sub_i64 end_ts start
          in if span \<le> 0 \<or> target = 0 then Inr (ts_result_of s [] None)
             else and_then (series_range_scan sd s start end_ts t) (\<lambda>rs.
                  and_then (io_err (collect_results rs)) (\<lambda>kvs.
                  let n = unat (of_nat (length kvs) :: u32)
                  in if n \<le> target then Inr (ts_result_of s (decode_all cd kvs) (Some n))
                     else let width = snap_bucket_size (raw_bucket_size span target);
                              aligned = bucket_of width start;
                              bs = fill_buckets cd width aligned kvs (replicate (bucket_count width aligned end_ts) None)
                          in Inr (ts_result_of s (List.map_filter id bs) (Some n))))))"

section \<open>Listing metrics\<close>

text \<open>The upper end of a scan over the metrics of a source is the character \<open>U+00FF\<close>, two bytes.\<close>

definition U_FF :: string where
  "U_FF = [CHR 0xC3, CHR 0xBF]"

definition indexed_metrics :: "string \<Rightarrow> (string, series_info) hash_map \<Rightarrow> string list" where
  "indexed_metrics source m = List.map_filter (\<lambda>(k, _). strip_prefix (source @ '':'') k) m"

definition list_metrics ::
    "'d series_db \<Rightarrow> string \<Rightarrow> ('d, 'c) ts_store \<Rightarrow> (storage_error, string list) rust_result \<times> ('d, 'c) ts_store" where
  "list_metrics sd source st =
     (let fast = indexed_metrics source (ts_metrics_info st)
      in if fast \<noteq> [] then (Inr (sort fast), st)
         else (case read_table sd (ts_db st) of
                 Inl e \<Rightarrow> (Inl e, st)
               | Inr None \<Rightarrow> (Inr [], st)
               | Inr (Some t) \<Rightarrow>
                   (case and_then (io_err (sd_range sd (source, [], I64_MIN) (source, U_FF, I64_MAX) t)) (\<lambda>rs. io_err (collect_results rs)) of
                      Inl e \<Rightarrow> (Inl e, st)
                    | Inr kvs \<Rightarrow> (Inr (remdups (map (\<lambda>((_, m, _), _). m) kvs)), st\<lparr>ts_metrics_initialized := True\<rparr>))))"

text \<open>A key of the index is split at its second colon; one with fewer colons is not listed.\<close>

definition split_second :: "string \<Rightarrow> (string \<times> string) option" where
  "split_second k =
     Option.bind (split_once (CHR '':'') k) (\<lambda>(a, r). map_option (\<lambda>(b, m). (a @ '':'' @ b, m)) (split_once (CHR '':'') r))"

definition add_metric :: "string \<Rightarrow> string \<Rightarrow> (string, string set) hash_map \<Rightarrow> (string, string set) hash_map" where
  "add_metric source metric g = hm_insert source (insert metric (unwrap_or (hm_get g source) {})) g"

fun rebuild_index ::
    "(series_key \<times> string) list \<Rightarrow> string set \<Rightarrow> (string, series_info) hash_map \<Rightarrow> (string, series_info) hash_map" where
  "rebuild_index [] seen m = m"
| "rebuild_index (((source, metric, ts), _) # kvs) seen m =
     (let key = metric_key (source, metric)
      in rebuild_index kvs (insert key seen)
           (case hm_get m key of
              None \<Rightarrow> if key \<in> seen then m else hm_insert key \<lparr>mi_last_update = ts, mi_point_count = 0\<rparr> m
            | Some i \<Rightarrow> if key \<in> seen \<and> mi_last_update i < ts then hm_insert key (i\<lparr>mi_last_update := ts\<rparr>) m else m))"

text \<open>The entries before an error of the scan have been indexed when it is returned.\<close>

definition read_prefix :: "scan \<Rightarrow> (series_key \<times> string) list" where
  "read_prefix rs = map projr (takeWhile (\<lambda>r. \<not> isl r) rs)"

definition list_all_metrics_grouped ::
    "'d series_db \<Rightarrow> ('d, 'c) ts_store \<Rightarrow> (storage_error, (string, string set) hash_map) rust_result \<times> ('d, 'c) ts_store" where
  "list_all_metrics_grouped sd st =
     (if ts_metrics_info st \<noteq> []
      then (Inr (fold (\<lambda>(k, _) g. case split_second k of Some (s, m) \<Rightarrow> add_metric s m g | None \<Rightarrow> g) (ts_metrics_info st) []), st)
      else (case read_table sd (ts_db st) of
              Inl e \<Rightarrow> (Inl e, st)
            | Inr None \<Rightarrow> (Inr [], st)
            | Inr (Some t) \<Rightarrow>
                (case io_err (sd_iter sd t) of
                   Inl e \<Rightarrow> (Inl e, st)
                 | Inr rs \<Rightarrow>
                     (let st = st\<lparr>ts_metrics_info := rebuild_index (read_prefix rs) {} (ts_metrics_info st)\<rparr>
                      in case io_err (collect_results rs) of
                           Inl e \<Rightarrow> (Inl e, st)
                         | Inr kvs \<Rightarrow>
                             (Inr (fold (\<lambda>((s, m, _), _). add_metric s m) kvs []), st\<lparr>ts_metrics_initialized := True\<rparr>)))))"

section \<open>Facts\<close>

lemma read_table_cases:
  assumes "read_table sd db = Inr r"
  obtains t0 t where "sd_begin_read sd db = Inr t0" "sd_open_read sd t0 = Inr t" "r = Some t"
    | t0 where "sd_begin_read sd db = Inr t0" "sd_open_read sd t0 = Inl TableDoesNotExist" "r = None"
proof -
  obtain t0 where t0: "sd_begin_read sd db = Inr t0" using assms by (auto simp: read_table_def)
  show thesis
  proof (cases "sd_open_read sd t0")
    case (Inl e)
    with assms t0 that(2) show thesis by (cases e) (simp_all add: read_table_def)
  next
    case (Inr t)
    with assms t0 that(1) show thesis by (simp add: read_table_def)
  qed
qed

lemma read_table_contents:
  assumes "series_laws sd c"
  shows "read_table sd db = Inr (Some t) \<Longrightarrow> c t = c db" and "read_table sd db = Inr None \<Longrightarrow> c db = Map.empty"
  using series_snapshots(2,4,6) [OF assms] by (metis read_table_cases option.distinct(1) option.inject)+

end
