(* ===== verification/SeriesCleanup.thy ===== *)
theory SeriesCleanup
  imports SeriesQuery
begin

text \<open>
  Deletion and retention in \<open>heramind-storage/src/timeseries.rs\<close>. A range is deleted in transactions of at most 1000
  keys, in a loop whose end the code leaves to the database: it is a partial function here, and that it ends is proved
  from the laws of the table. A retention pass looks at every series of the table and may panic in the image heuristic.
\<close>

section \<open>Deleting a range\<close>

definition DELETE_BATCH_SIZE :: nat where
  "DELETE_BATCH_SIZE = 1000"

fun remove_series_keys :: "'d series_db \<Rightarrow> series_key list \<Rightarrow> 'd \<Rightarrow> (storage_error, 'd) rust_result" where
  "remove_series_keys sd [] w = Inr w"
| "remove_series_keys sd (k # ks) w = and_then (io_err (sd_remove sd k w)) (remove_series_keys sd ks)"

text \<open>One pass of the loop: \<open>None\<close> when the range is exhausted, else the number of keys removed and the database after
  the commit.\<close>

definition delete_pass ::
    "'d series_db \<Rightarrow> series \<Rightarrow> int \<Rightarrow> int \<Rightarrow> 'd \<Rightarrow> (storage_error, (nat \<times> 'd) option) rust_result" where
  "delete_pass sd s start end_ts db =
     and_then (txn_err (sd_begin_write sd db)) (\<lambda>w.
     and_then (table_err (sd_open_write sd w)) (\<lambda>w.
     and_then (series_range_scan sd s start end_ts w) (\<lambda>rs.
     and_then (io_err (collect_results (take DELETE_BATCH_SIZE rs))) (\<lambda>kvs.
     if kvs = [] then Inr None
     else and_then (remove_series_keys sd (map fst kvs) w) (\<lambda>w.
          and_then (commit_err (sd_commit sd w)) (\<lambda>db'. Inr (Some (length kvs, db'))))))))"

partial_function (option) delete_loop ::
    "'d series_db \<Rightarrow> series \<Rightarrow> int \<Rightarrow> int \<Rightarrow> nat \<Rightarrow> 'd \<Rightarrow> ((storage_error, nat) rust_result \<times> 'd) option" where
  "delete_loop sd s start end_ts n db =
     (case delete_pass sd s start end_ts db of
        Inl e \<Rightarrow> Some (Inl e, sd_abort sd db)
      | Inr None \<Rightarrow> Some (Inr n, sd_abort sd db)
      | Inr (Some (k, db')) \<Rightarrow>
          if k < DELETE_BATCH_SIZE then Some (Inr (n + k), db') else delete_loop sd s start end_ts (n + k) db')"

definition delete_range ::
    "'d series_db \<Rightarrow> 'c moka \<Rightarrow> series \<Rightarrow> int \<Rightarrow> int \<Rightarrow> ('d, 'c) ts_store
     \<Rightarrow> ((storage_error, nat) rust_result \<times> ('d, 'c) ts_store) option" where
  "delete_range sd mk s start end_ts st =
     map_option (\<lambda>(r, db).
       case r of
         Inl e \<Rightarrow> (Inl e, st\<lparr>ts_db := db\<rparr>)
       | Inr n \<Rightarrow>
           (Inr n, st\<lparr>ts_db := db, ts_latest_cache := mk_invalidate mk s (ts_latest_cache st),
                      ts_metrics_info := (if start = I64_MIN \<and> end_ts = I64_MAX then hm_remove (metric_key s) (ts_metrics_info st)
                                          else ts_metrics_info st)\<rparr>))
       (delete_loop sd s start end_ts 0 (ts_db st))"

definition delete_metric ::
    "'d series_db \<Rightarrow> 'c moka \<Rightarrow> series \<Rightarrow> ('d, 'c) ts_store \<Rightarrow> ((storage_error, nat) rust_result \<times> ('d, 'c) ts_store) option" where
  "delete_metric sd mk s st = delete_range sd mk s I64_MIN I64_MAX st"

section \<open>Retention\<close>

definition has_any_point :: "'d series_db \<Rightarrow> series \<Rightarrow> 'd \<Rightarrow> bool" where
  "has_any_point sd s db =
     (case sd_begin_read sd db of
        Inl _ \<Rightarrow> False
      | Inr t \<Rightarrow>
          (case sd_open_read sd t of
             Inl _ \<Rightarrow> False
           | Inr t \<Rightarrow>
               (case sd_range sd (fst s, snd s, I64_MIN) (fst s, snd s, I64_MAX) t of
                  Inl _ \<Rightarrow> False
                | Inr rs \<Rightarrow> rs \<noteq> [])))"

record cleanup_result =
  cr_points_removed :: u64
  cr_metrics_cleaned :: "string list"

definition effective_hours ::
    "'d series_db \<Rightarrow> point_codec \<Rightarrow> base64_crate \<Rightarrow> retention_policy \<Rightarrow> series \<Rightarrow> 'd \<Rightarrow> u64 option call" where
  "effective_hours sd cd b64c p s db =
     (let explicit_hours = get_retention_hours p [] (snd s)
      in if explicit_hours = rp_default_hours p
         then call_then
                (case rp_image_retention_hours p of
                   Some img \<Rightarrow>
                     if Some img \<noteq> explicit_hours
                     then (case query_latest_uncached sd cd s db of
                             Inr (Some latest) \<Rightarrow> value_looks_like_image b64c (dp_value latest)
                           | _ \<Rightarrow> Returns False)
                     else Returns False
                 | None \<Rightarrow> Returns False)
                (\<lambda>use_image. Returns (if use_image then rp_image_retention_hours p else explicit_hours))
         else Returns explicit_hours)"

text \<open>The cutoff that applies to a series, if its points may expire at all.\<close>

definition expiry :: "int \<Rightarrow> u64 option \<Rightarrow> int option" where
  "expiry now hours = Option.bind hours (\<lambda>h. if cutoff_before now h < now then Some (cutoff_before now h) else None)"

type_synonym cleanup_progress = "(storage_error, u64 \<times> string list) rust_result call"

fun retain_series ::
    "'d series_db \<Rightarrow> point_codec \<Rightarrow> base64_crate \<Rightarrow> 'c moka \<Rightarrow> retention_policy \<Rightarrow> int \<Rightarrow> series list \<Rightarrow> u64 \<Rightarrow> string list
     \<Rightarrow> ('d, 'c) ts_store \<Rightarrow> (cleanup_progress \<times> ('d, 'c) ts_store) option" where
  "retain_series sd cd b64c mk p now [] removed cleaned st = Some (Returns (Inr (removed, cleaned)), st)"
| "retain_series sd cd b64c mk p now (s # ss) removed cleaned st =
     (case effective_hours sd cd b64c p s (ts_db st) of
        Panics \<Rightarrow> Some (Panics, st)
      | Returns hours \<Rightarrow>
          (case expiry now hours of
             None \<Rightarrow> retain_series sd cd b64c mk p now ss removed cleaned st
           | Some cutoff \<Rightarrow>
               Option.bind (delete_range sd mk s I64_MIN cutoff st) (\<lambda>(r, st).
               case r of
                 Inl e \<Rightarrow> Some (Returns (Inl e), st)
               | Inr n \<Rightarrow>
                   if 0 < n
                   then retain_series sd cd b64c mk p now ss (removed + of_nat n)
                          (if metric_key s \<in> set cleaned then cleaned else cleaned @ [metric_key s])
                          (if has_any_point sd s (ts_db st) then st
                           else st\<lparr>ts_metrics_info := hm_remove (metric_key s) (ts_metrics_info st)\<rparr>)
                   else retain_series sd cd b64c mk p now ss removed cleaned st)))"

definition series_of :: "(series_key \<times> string) list \<Rightarrow> series list" where
  "series_of kvs = remdups (map (\<lambda>((source, metric, _), _). (source, metric)) kvs)"

definition nothing_removed :: cleanup_result where
  "nothing_removed = \<lparr>cr_points_removed = 0, cr_metrics_cleaned = []\<rparr>"

definition clear_flag :: "('d, 'c) ts_store \<Rightarrow> ('d, 'c) ts_store" where
  "clear_flag st = st\<lparr>ts_retention_in_progress := False\<rparr>"

definition finish_retention ::
    "date_time \<Rightarrow> cleanup_progress \<times> ('d, 'c) ts_store \<Rightarrow> (storage_error, cleanup_result) rust_result call \<times> ('d, 'c) ts_store" where
  "finish_retention now outcome_st =
     (case outcome_st of
        (Panics, st) \<Rightarrow> (Panics, clear_flag st)
      | (Returns (Inl e), st) \<Rightarrow> (Returns (Inl e), clear_flag st)
      | (Returns (Inr (removed, cleaned)), st) \<Rightarrow>
          (Returns (Inr \<lparr>cr_points_removed = removed, cr_metrics_cleaned = cleaned\<rparr>),
           clear_flag (on_stats (\<lambda>ps. ps\<lparr>ps_cleanup_points_removed := ps_cleanup_points_removed ps + removed,
                                        ps_last_cleanup_timestamp := Some (timestamp now)\<rparr>) st)))"

definition apply_retention ::
    "'d series_db \<Rightarrow> point_codec \<Rightarrow> base64_crate \<Rightarrow> 'c moka \<Rightarrow> date_time \<Rightarrow> ('d, 'c) ts_store
     \<Rightarrow> ((storage_error, cleanup_result) rust_result call \<times> ('d, 'c) ts_store) option" where
  "apply_retention sd cd b64c mk now st =
     (if ts_retention_in_progress st then Some (Returns (Inr nothing_removed), st)
      else let st = st\<lparr>ts_retention_in_progress := True\<rparr>
           in case read_table sd (ts_db st) of
                Inl e \<Rightarrow> Some (Returns (Inl e), clear_flag st)
              | Inr None \<Rightarrow> Some (Returns (Inr nothing_removed), clear_flag st)
              | Inr (Some t) \<Rightarrow>
                  (case and_then (io_err (sd_range sd ([], [], I64_MIN) (U_FF, U_FF, I64_MAX) t)) (\<lambda>rs. io_err (collect_results rs)) of
                     Inl e \<Rightarrow> Some (Returns (Inl e), clear_flag st)
                   | Inr kvs \<Rightarrow>
                       map_option (finish_retention now)
                         (retain_series sd cd b64c mk (ts_retention_policy st) (timestamp now) (series_of kvs) 0 [] st)))"

section \<open>An instance\<close>

definition no_base64 :: base64_crate where
  "no_base64 = \<lparr>b64_standard = (\<lambda>_. None), b64_url_safe_no_pad = (\<lambda>_. None)\<rparr>"

definition two_points :: mem_series where
  "two_points = [((''a'', ''t'', 10), ''x''), ((''a'', ''t'', 9000), ''y'')]"

definition old_and_new :: "(mem_series, map_cache) ts_store" where
  "old_and_new = (buffered_store [])\<lparr>ts_db := two_points, ts_retention_policy := rp_new (Some 1)\<rparr>"

lemma two_points_scans:
  "mem_scan (\<lambda>k. ([], [], I64_MIN) \<le> k \<and> k \<le> (U_FF, U_FF, I64_MAX)) two_points = two_points"
  "mem_scan (\<lambda>k. (''a'', ''t'', I64_MIN) \<le> k \<and> k \<le> (''a'', ''t'', 6400)) two_points = take 1 two_points"
  by (simp_all add: mem_scan_def two_points_def less_eq_prod_def less_prod_def U_FF_def I64_MIN_def I64_MAX_def)

lemma two_points_deletion:
  "delete_loop mem_series_db (''a'', ''t'') I64_MIN 6400 0 two_points = Some (Inr 1, [((''a'', ''t'', 9000), ''y'')])"
proof -
  have "delete_pass mem_series_db (''a'', ''t'') I64_MIN 6400 two_points = Inr (Some (1, [((''a'', ''t'', 9000), ''y'')]))"
    by (simp add: delete_pass_def series_range_scan_def DELETE_BATCH_SIZE_def mem_series_db_def two_points_scans)
      (simp add: two_points_def)
  then show ?thesis by (simp add: delete_loop.simps DELETE_BATCH_SIZE_def)
qed

lemma old_and_new_retention:
  "\<exists>res st'. apply_retention mem_series_db ts_codec no_base64 map_moka 10000000000000 old_and_new = Some (Returns (Inr res), st')"
proof -
  have "expiry 10000 (Some 1) = Some 6400" by (simp add: expiry_def cutoff_before_def wrap_i64_def)
  moreover have "series_of two_points = [(''a'', ''t'')]" by (simp add: series_of_def two_points_def)
  moreover have "ts_db old_and_new = two_points" "ts_retention_policy old_and_new = rp_new (Some 1)"
    "\<not> ts_retention_in_progress old_and_new"
    by (simp_all add: old_and_new_def buffered_store_def fresh_store_def)
  moreover have "read_table mem_series_db two_points = Inr (Some two_points)" by (simp add: read_table_def mem_series_db_def)
  moreover have "sd_range mem_series_db ([], [], I64_MIN) (U_FF, U_FF, I64_MAX) two_points = Inr (map Inr two_points)"
    by (simp add: mem_series_db_def two_points_scans)
  ultimately show ?thesis
    by (simp add: apply_retention_def Let_def effective_hours_def rp_new_def get_retention_hours_def timestamp_def
        delete_range_def two_points_deletion finish_retention_def)
qed

section \<open>Deleting ends, and deletes the range\<close>

definition window :: "series \<Rightarrow> int \<Rightarrow> int \<Rightarrow> series_key set" where
  "window s a b = {(fst s, snd s, t) | t. a \<le> t \<and> t \<le> b}"

lemma window_eq: "{(fst s, snd s, a)..(fst s, snd s, b)} = window s a b"
  by (auto simp: window_def less_eq_prod_def)

lemma series_range_scan_of:
  assumes "series_laws sd c" "series_range_scan sd s a b w = Inr rs"
  shows "scan_of rs (c w |` window s a b)"
  using assms series_range [OF assms(1), of "(fst s, snd s, a)" "(fst s, snd s, b)" w rs]
  by (simp add: series_range_scan_def window_eq)

lemma remove_series_keys_contents:
  assumes "series_laws sd c"
  shows "remove_series_keys sd ks w = Inr w' \<Longrightarrow> c w' = c w |` (- set ks)"
proof (induction ks arbitrary: w)
  case (Cons k ks)
  then obtain w1 where "sd_remove sd k w = Inr w1" and rest: "remove_series_keys sd ks w1 = Inr w'" by auto
  then have "c w1 = (c w)(k := None)" using series_remove [OF assms] by blast
  with Cons.IH [OF rest] show ?case by (auto simp: restrict_map_def)
qed (simp add: restrict_map_def)

lemma scan_prefix_keys:
  assumes "scan_of rs m" "take n rs = map Inr kvs"
  shows "set (map fst kvs) \<subseteq> dom m" "distinct (map fst kvs)" "length kvs < n \<Longrightarrow> dom m = set (map fst kvs)"
    "finite (dom m)"
proof -
  obtain es where es: "ascending es" "map_of es = m" "list_all2 reads rs es" using assms(1) by (auto simp: scan_of_def)
  then have "list_all2 reads (take n rs) (take n es)" by (simp add: list_all2_takeI)
  then have eq: "kvs = take n es" unfolding assms(2) by (simp add: list_all2_map1 list_all2_eq [symmetric])
  have dist: "distinct (map fst es)" using es(1) by (rule ascending_distinct)
  have dom: "dom m = set (map fst es)" by (simp only: es(2) [symmetric] dom_map_of_conv_image_fst set_map)
  show "set (map fst kvs) \<subseteq> dom m" using set_take_subset [of n es] by (auto simp: eq dom)
  show "distinct (map fst kvs)" using dist by (simp add: eq take_map [symmetric])
  show "dom m = set (map fst kvs)" if "length kvs < n" using that by (simp add: eq dom)
  show "finite (dom m)" by (simp add: dom)
qed

lemma delete_pass_cases:
  assumes "series_laws sd c" "delete_pass sd s a b db = Inr r"
  obtains (exhausted) "r = None" "dom (c db) \<inter> window s a b = {}"
    | (removed) n db' K where "r = Some (n, db')" "0 < n" "K \<subseteq> dom (c db) \<inter> window s a b" "card K = n"
        "c db' = c db |` (- K)" "n < DELETE_BATCH_SIZE \<Longrightarrow> K = dom (c db) \<inter> window s a b" "finite (dom (c db) \<inter> window s a b)"
proof -
  obtain w0 w rs kvs where w: "sd_begin_write sd db = Inr w0" "sd_open_write sd w0 = Inr w"
    and rs: "series_range_scan sd s a b w = Inr rs" "collect_results (take DELETE_BATCH_SIZE rs) = Inr kvs"
    and r: "if kvs = [] then r = None
            else \<exists>w1 db'. remove_series_keys sd (map fst kvs) w = Inr w1 \<and> sd_commit sd w1 = Inr db' \<and> r = Some (length kvs, db')"
    using assms(2) by (auto simp: delete_pass_def split: if_splits)
  have cw: "c w = c db" using series_snapshots [OF assms(1)] w by metis
  have scan: "scan_of rs (c db |` window s a b)" using series_range_scan_of [OF assms(1) rs(1)] by (simp add: cw)
  note keys = scan_prefix_keys [OF scan rs(2) [unfolded collect_results_Inr_iff]]
  have dom: "dom (c db |` window s a b) = dom (c db) \<inter> window s a b" by auto
  show thesis
  proof (cases "kvs = []")
    case True
    with r keys(3) have "r = None" "dom (c db) \<inter> window s a b = {}" by (auto simp: dom DELETE_BATCH_SIZE_def)
    then show thesis by (rule exhausted)
  next
    case False
    with r obtain w1 db' where del: "remove_series_keys sd (map fst kvs) w = Inr w1" "sd_commit sd w1 = Inr db'" "r = Some (length kvs, db')" by auto
    have "c db' = c db |` (- set (map fst kvs))"
      using remove_series_keys_contents [OF assms(1) del(1)] series_snapshots(5) [OF assms(1) del(2)] cw by simp
    moreover have "card (set (map fst kvs)) = length kvs" using distinct_card [OF keys(2)] by simp
    ultimately show thesis using del(3) False keys by (intro removed [of "length kvs" db' "set (map fst kvs)"]) (simp_all add: dom)
  qed
qed

lemma restrict_restrict_Compl: "(m |` (- K)) |` (- L) = m |` (- (K \<union> L))"
  by (auto simp: restrict_map_def)

text \<open>The loop always ends; what it removes lies in the range, and when it reports success it has removed the whole
  range.\<close>

lemma delete_loop_ends:
  assumes laws: "series_laws sd c"
  shows "\<exists>r db' K. delete_loop sd s a b n db = Some (r, db') \<and> K \<subseteq> dom (c db) \<inter> window s a b \<and> c db' = c db |` (- K) \<and>
    (\<forall>m. r = Inr m \<longrightarrow> K = dom (c db) \<inter> window s a b \<and> m = n + card K)"
proof (induction "card (dom (c db) \<inter> window s a b)" arbitrary: n db rule: less_induct)
  case less
  have stop: ?case if "delete_loop sd s a b n db = Some (r, sd_abort sd db)"
    "\<And>m. r = Inr m \<Longrightarrow> dom (c db) \<inter> window s a b = {} \<and> m = n" for r
    using that series_snapshots(7) [OF laws, of db] by (intro exI [of _ r] exI [of _ "sd_abort sd db"] exI [of _ "{}"]) auto
  show ?case
  proof (cases "delete_pass sd s a b db")
    case (Inl e)
    then show ?thesis by (intro stop [of "Inl e"]) (simp_all add: delete_loop.simps)
  next
    case (Inr r)
    with laws show ?thesis
    proof (cases rule: delete_pass_cases)
      case exhausted
      with Inr show ?thesis by (intro stop [of "Inr n"]) (simp_all add: delete_loop.simps)
    next
      case (removed k db' K)
      show ?thesis
      proof (cases "k < DELETE_BATCH_SIZE")
        case True
        with removed Inr show ?thesis
          by (intro exI [of _ "Inr (n + k)"] exI [of _ db'] exI [of _ K]) (simp add: delete_loop.simps)
      next
        case False
        have left: "dom (c db') \<inter> window s a b = (dom (c db) \<inter> window s a b) - K" using removed by auto
        have "finite K" using removed by (metis finite_subset)
        with removed left have cards: "card (dom (c db') \<inter> window s a b) = card (dom (c db) \<inter> window s a b) - k"
          by (simp only: left card_Diff_subset)
        have "k \<le> card (dom (c db) \<inter> window s a b)" using card_mono [OF removed(7,3)] removed(4) by simp
        then have fewer: "card (dom (c db') \<inter> window s a b) < card (dom (c db) \<inter> window s a b)" using cards removed(2) by simp
        obtain r db'' L where loop: "delete_loop sd s a b (n + k) db' = Some (r, db'')"
          "L \<subseteq> dom (c db') \<inter> window s a b" "c db'' = c db' |` (- L)"
          "\<And>m. r = Inr m \<Longrightarrow> L = dom (c db') \<inter> window s a b \<and> m = n + k + card L"
          using less [OF fewer, of "n + k"] by blast
        have eq: "delete_loop sd s a b n db = Some (r, db'')" using removed Inr False loop(1) by (simp add: delete_loop.simps)
        have sum: "card (K \<union> L) = k + card L"
          using removed loop(2) left finite_subset [of L "dom (c db) \<inter> window s a b"] finite_subset [of K "dom (c db) \<inter> window s a b"]
          by (subst card_Un_disjoint) auto
        have "K \<union> L \<subseteq> dom (c db) \<inter> window s a b" using removed loop(2) left by blast
        moreover have "c db'' = c db |` (- (K \<union> L))" using loop(3) removed by (simp only: restrict_restrict_Compl)
        moreover have "K \<union> L = dom (c db) \<inter> window s a b \<and> m = n + card (K \<union> L)" if "r = Inr m" for m
          using loop(4) [OF that] left removed sum by auto
        ultimately show ?thesis using eq by blast
      qed
    qed
  qed
qed

text \<open>C18. Deleting a range always ends, whatever the database does: it touches nothing outside the range, and when it
  reports success every point of the range is gone and the number it returns is the number of points there were.\<close>

theorem delete_range_exact:
  assumes "series_laws sd c"
  shows "\<exists>r st'. delete_range sd mk s a b st = Some (r, st') \<and>
    (\<forall>k. k \<notin> window s a b \<longrightarrow> c (ts_db st') k = c (ts_db st) k) \<and>
    (\<forall>n. r = Inr n \<longrightarrow> (\<forall>k \<in> window s a b. c (ts_db st') k = None) \<and> n = card (dom (c (ts_db st)) \<inter> window s a b))"
proof -
  obtain r db' K where loop: "delete_loop sd s a b 0 (ts_db st) = Some (r, db')" "K \<subseteq> dom (c (ts_db st)) \<inter> window s a b"
    "c db' = c (ts_db st) |` (- K)" "\<And>m. r = Inr m \<Longrightarrow> K = dom (c (ts_db st)) \<inter> window s a b \<and> m = 0 + card K"
    using delete_loop_ends [OF assms, of s a b 0 "ts_db st"] by blast
  obtain r' st' where del: "delete_range sd mk s a b st = Some (r', st')" "r' = r" "ts_db st' = db'"
    using loop(1) by (cases r) (simp_all add: delete_range_def)
  have "c db' k = c (ts_db st) k" if "k \<notin> window s a b" for k using that loop(2,3) by (auto simp: restrict_map_def)
  moreover have "c db' k = None" if "r = Inr n" "k \<in> window s a b" for n k
    using that loop(3) loop(4) [OF that(1)] by (auto simp: restrict_map_def domIff)
  ultimately show ?thesis using del loop(4) by (intro exI [of _ r'] exI [of _ st']) auto
qed

theorem delete_range_exact_witness:
  "\<exists>r st'. delete_range mem_series_db map_moka (''a'', ''t'') I64_MIN 6400 old_and_new = Some (r, st') \<and>
    (\<forall>k. k \<notin> window (''a'', ''t'') I64_MIN 6400 \<longrightarrow> hm_get (ts_db st') k = hm_get two_points k) \<and>
    (\<forall>n. r = Inr n \<longrightarrow> (\<forall>k \<in> window (''a'', ''t'') I64_MIN 6400. hm_get (ts_db st') k = None) \<and>
       n = card (dom (hm_get two_points) \<inter> window (''a'', ''t'') I64_MIN 6400))"
  using delete_range_exact [OF mem_series_laws, of map_moka "(''a'', ''t'')" I64_MIN 6400 old_and_new]
  by (simp add: old_and_new_def)

section \<open>Retention removes what has expired\<close>

fun may_expire :: "retention_policy \<Rightarrow> int \<Rightarrow> series_key \<Rightarrow> bool" where
  "may_expire p now (source, metric, t) \<longleftrightarrow>
     (\<exists>hours \<in> {get_retention_hours p [] metric, rp_image_retention_hours p}. \<exists>cutoff. expiry now hours = Some cutoff \<and> t \<le> cutoff)"

definition only_expired :: "retention_policy \<Rightarrow> int \<Rightarrow> (series_key \<rightharpoonup> string) \<Rightarrow> (series_key \<rightharpoonup> string) \<Rightarrow> bool" where
  "only_expired p now m m' \<longleftrightarrow> (\<forall>k. m' k = m k \<or> (m' k = None \<and> may_expire p now k))"

lemma only_expired_refl [simp]: "only_expired p now m m"
  by (simp add: only_expired_def)

lemma only_expired_trans: "only_expired p now m m' \<Longrightarrow> only_expired p now m' m'' \<Longrightarrow> only_expired p now m m''"
  unfolding only_expired_def by metis

lemma effective_hours_choice:
  "effective_hours sd cd b64c p s db = Returns hours \<Longrightarrow> hours \<in> {get_retention_hours p [] (snd s), rp_image_retention_hours p}"
  by (auto simp: effective_hours_def Let_def split: if_splits option.splits call.splits sum.splits elim!: call_then.elims)

lemma delete_range_ends:
  assumes "series_laws sd c"
  obtains r st' where "delete_range sd mk s a b st = Some (r, st')"
    "\<And>k. k \<notin> window s a b \<Longrightarrow> c (ts_db st') k = c (ts_db st) k"
    "\<And>k. c (ts_db st') k = c (ts_db st) k \<or> c (ts_db st') k = None"
    "\<And>n. r = Inr n \<Longrightarrow> c (ts_db st') = c (ts_db st) |` (- window s a b)"
    "\<And>n. r = Inr n \<Longrightarrow> n = card (dom (c (ts_db st)) \<inter> window s a b)"
    "ts_retention_in_progress st' = ts_retention_in_progress st"
proof -
  obtain r db' K where loop: "delete_loop sd s a b 0 (ts_db st) = Some (r, db')" "K \<subseteq> dom (c (ts_db st)) \<inter> window s a b"
    "c db' = c (ts_db st) |` (- K)" "\<And>m. r = Inr m \<Longrightarrow> K = dom (c (ts_db st)) \<inter> window s a b \<and> m = 0 + card K"
    using delete_loop_ends [OF assms, of s a b 0 "ts_db st"] by blast
  obtain st' where del: "delete_range sd mk s a b st = Some (r, st')" "ts_db st' = db'"
      "ts_retention_in_progress st' = ts_retention_in_progress st"
    using loop(1) by (cases r) (simp_all add: delete_range_def)
  show thesis
  proof (rule that [OF del(1)])
    show "c (ts_db st') k = c (ts_db st) k" if "k \<notin> window s a b" for k
      using that loop(2,3) by (auto simp: del(2) restrict_map_def)
    show "c (ts_db st') k = c (ts_db st) k \<or> c (ts_db st') k = None" for k
      by (auto simp: del(2) loop(3) restrict_map_def)
    show "c (ts_db st') = c (ts_db st) |` (- window s a b)" if "r = Inr n" for n
      using loop(3) loop(4) [OF that] by (auto simp: del(2) restrict_map_def domIff fun_eq_iff)
    show "n = card (dom (c (ts_db st)) \<inter> window s a b)" if "r = Inr n" for n
      using loop(4) [OF that] by simp
  qed (rule del(3))
qed

lemma retain_series_step:
  assumes "effective_hours sd cd b64c p s (ts_db st) = Returns hours" "expiry now hours = Some cutoff"
    "delete_range sd mk s I64_MIN cutoff st = Some (Inr n, st1)"
  obtains cleaned' st2 where "retain_series sd cd b64c mk p now (s # ss) removed cleaned st =
      retain_series sd cd b64c mk p now ss (removed + of_nat n) cleaned' st2"
    "ts_db st2 = ts_db st1" "ts_retention_in_progress st2 = ts_retention_in_progress st1"
proof (cases "0 < n")
  case True
  let ?st2 = "if has_any_point sd s (ts_db st1) then st1 else st1\<lparr>ts_metrics_info := hm_remove (metric_key s) (ts_metrics_info st1)\<rparr>"
  show thesis
    by (rule that [of "if metric_key s \<in> set cleaned then cleaned else cleaned @ [metric_key s]" ?st2]) (simp_all add: assms True)
next
  case False
  then show thesis by (intro that [of cleaned st1]) (simp_all add: assms)
qed

lemma retain_series_only_expired:
  assumes laws: "series_laws sd c"
  shows "\<exists>outcome st'. retain_series sd cd b64c mk p now ss removed cleaned st = Some (outcome, st') \<and>
    only_expired p now (c (ts_db st)) (c (ts_db st')) \<and> ts_retention_in_progress st' = ts_retention_in_progress st"
proof (induction ss arbitrary: removed cleaned st)
  case (Cons s ss)
  show ?case
  proof (cases "effective_hours sd cd b64c p s (ts_db st)")
    case (Returns hours)
    show ?thesis
    proof (cases "expiry now hours")
      case None
      with Returns Cons.IH show ?thesis by simp
    next
      case (Some cutoff)
      obtain r st1 where del: "delete_range sd mk s I64_MIN cutoff st = Some (r, st1)"
        "\<And>k. k \<notin> window s I64_MIN cutoff \<Longrightarrow> c (ts_db st1) k = c (ts_db st) k"
        "\<And>k. c (ts_db st1) k = c (ts_db st) k \<or> c (ts_db st1) k = None"
        "ts_retention_in_progress st1 = ts_retention_in_progress st"
        by (rule delete_range_ends [OF laws]) blast
      have "only_expired p now (c (ts_db st)) (c (ts_db st1))"
      proof (unfold only_expired_def, rule allI)
        fix k :: series_key
        have "may_expire p now k" if "k \<in> window s I64_MIN cutoff"
          using that effective_hours_choice [OF Returns] Some by (auto simp: window_def)
        then show "c (ts_db st1) k = c (ts_db st) k \<or> (c (ts_db st1) k = None \<and> may_expire p now k)"
          using del(2,3) by metis
      qed
      then have step: "only_expired p now (c (ts_db st1)) m \<Longrightarrow> only_expired p now (c (ts_db st)) m" for m
        by (rule only_expired_trans)
      show ?thesis
      proof (cases r)
        case (Inl e)
        with Returns Some del(1,4) step [OF only_expired_refl] show ?thesis by simp
      next
        case (Inr n)
        obtain cleaned' st2 where eq: "retain_series sd cd b64c mk p now (s # ss) removed cleaned st =
            retain_series sd cd b64c mk p now ss (removed + of_nat n) cleaned' st2"
          and frame: "ts_db st2 = ts_db st1" "ts_retention_in_progress st2 = ts_retention_in_progress st1"
          using Returns Some del(1) [unfolded Inr] by (rule retain_series_step)
        show ?thesis unfolding eq using Cons.IH [of "removed + of_nat n" cleaned' st2] step del(4) unfolding frame by metis
      qed
    qed
  qed simp
qed simp

lemma finish_retention_frame:
  "ts_db (snd (finish_retention now (x, st))) = ts_db st" "\<not> ts_retention_in_progress (snd (finish_retention now (x, st)))"
  by (simp_all add: finish_retention_def clear_flag_def on_stats_def split: call.splits sum.splits prod.splits)

text \<open>How a pass goes that is not skipped.\<close>

lemma apply_retention_cases:
  assumes "\<not> ts_retention_in_progress st"
  obtains (early) x where "apply_retention sd cd b64c mk now st = Some (x, clear_flag st)" "\<And>r. x = Returns (Inr r) \<Longrightarrow> read_table sd (ts_db st) = Inr None"
    | (pass) t rs kvs where "read_table sd (ts_db st) = Inr (Some t)" "sd_range sd ([], [], I64_MIN) (U_FF, U_FF, I64_MAX) t = Inr rs"
        "rs = map Inr kvs" "apply_retention sd cd b64c mk now st = map_option (finish_retention now)
           (retain_series sd cd b64c mk (ts_retention_policy st) (timestamp now) (series_of kvs) 0 [] (st\<lparr>ts_retention_in_progress := True\<rparr>))"
proof -
  note defs = apply_retention_def Let_def clear_flag_def
  consider (fails) e where "read_table sd (ts_db st) = Inl e" | (none) "read_table sd (ts_db st) = Inr None"
    | (table) t where "read_table sd (ts_db st) = Inr (Some t)" by (cases "read_table sd (ts_db st)") auto
  then show thesis
  proof cases
    case fails
    with assms show thesis by (intro early [of "Returns (Inl e)"]) (simp_all add: defs)
  next
    case none
    with assms show thesis by (intro early [of "Returns (Inr nothing_removed)"]) (simp_all add: defs)
  next
    case (table t)
    show thesis
    proof (cases "and_then (io_err (sd_range sd ([], [], I64_MIN) (U_FF, U_FF, I64_MAX) t)) (\<lambda>rs. io_err (collect_results rs))")
      case (Inl e)
      with assms table show thesis by (intro early [of "Returns (Inl e)"]) (simp_all add: defs)
    next
      case (Inr kvs)
      then obtain rs where rs: "sd_range sd ([], [], I64_MIN) (U_FF, U_FF, I64_MAX) t = Inr rs" "rs = map Inr kvs"
        by (auto simp: collect_results_Inr_iff)
      with assms table Inr show thesis by (intro pass [OF table rs]) (simp add: defs)
    qed
  qed
qed

text \<open>A retention pass always ends, by returning or by a panic, and gives the marker of a running pass back; it
  changes no point, and a point it removes is not younger than the cutoff of a period the policy names for its metric
  or for images.\<close>

lemma retention_removes_only_expired:
  assumes "series_laws sd c"
  shows "\<exists>outcome st'. apply_retention sd cd b64c mk now st = Some (outcome, st') \<and>
    ts_retention_in_progress st' = ts_retention_in_progress st \<and>
    (\<forall>k. c (ts_db st') k = c (ts_db st) k \<or> (c (ts_db st') k = None \<and> may_expire (ts_retention_policy st) (timestamp now) k))"
proof (cases "ts_retention_in_progress st")
  case False
  then show ?thesis
  proof (cases rule: apply_retention_cases [where sd = sd and cd = cd and b64c = b64c and mk = mk and now = now])
    case (early x)
    with False show ?thesis by (simp add: clear_flag_def)
  next
    case (pass t rs kvs)
    define st0 where "st0 = st\<lparr>ts_retention_in_progress := True\<rparr>"
    obtain outcome st1 where run: "retain_series sd cd b64c mk (ts_retention_policy st) (timestamp now) (series_of kvs) 0 [] st0 = Some (outcome, st1)"
      "only_expired (ts_retention_policy st) (timestamp now) (c (ts_db st0)) (c (ts_db st1))"
      using retain_series_only_expired [OF assms] by blast
    then have "apply_retention sd cd b64c mk now st = Some (finish_retention now (outcome, st1))"
      using pass(4) by (simp add: st0_def)
    with run(2) False finish_retention_frame [of now outcome st1] show ?thesis
      by (intro exI [of _ "fst (finish_retention now (outcome, st1))"] exI [of _ "snd (finish_retention now (outcome, st1))"])
        (simp add: only_expired_def st0_def)
  qed
qed (simp add: apply_retention_def)

fun expires :: "retention_policy \<Rightarrow> int \<Rightarrow> series_key \<Rightarrow> bool" where
  "expires p now (source, metric, t) \<longleftrightarrow>
     (case expiry now (get_retention_hours p [] metric) of None \<Rightarrow> False | Some cutoff \<Rightarrow> I64_MIN \<le> t \<and> t \<le> cutoff)"

lemma effective_hours_plain:
  "rp_image_retention_hours p = None \<Longrightarrow> effective_hours sd cd b64c p s db = Returns (get_retention_hours p [] (snd s))"
  by (simp add: effective_hours_def Let_def)

lemma retain_series_exact:
  assumes laws: "series_laws sd c" and plain: "rp_image_retention_hours p = None"
  shows "retain_series sd cd b64c mk p now ss removed cleaned st = Some (Returns (Inr res), st') \<Longrightarrow>
    c (ts_db st') = c (ts_db st) |` {k. \<not> ((fst k, fst (snd k)) \<in> set ss \<and> expires p now k)}"
proof (induction ss arbitrary: removed cleaned st)
  case (Cons s ss)
  note hours = effective_hours_plain [OF plain]
  show ?case
  proof (cases "expiry now (get_retention_hours p [] (snd s))")
    case None
    then have "retain_series sd cd b64c mk p now ss removed cleaned st = Some (Returns (Inr res), st')"
      using Cons.prems by (simp add: hours)
    note IH = Cons.IH [OF this]
    have "(fst k, fst (snd k)) = s \<Longrightarrow> \<not> expires p now k" for k using None by (cases k) auto
    then show ?thesis unfolding IH by (auto simp: restrict_map_def fun_eq_iff)
  next
    case (Some cutoff)
    obtain r st1 where del: "delete_range sd mk s I64_MIN cutoff st = Some (r, st1)"
        "\<And>n. r = Inr n \<Longrightarrow> c (ts_db st1) = c (ts_db st) |` (- window s I64_MIN cutoff)"
      by (rule delete_range_ends [OF laws]) blast
    then obtain n where n: "r = Inr n" using Cons.prems Some by (cases r) (simp_all add: hours)
    obtain cleaned' st2 where "retain_series sd cd b64c mk p now (s # ss) removed cleaned st =
        retain_series sd cd b64c mk p now ss (removed + of_nat n) cleaned' st2" and frame: "ts_db st2 = ts_db st1"
      using hours Some del(1) [unfolded n] by (rule retain_series_step)
    with Cons.prems have "retain_series sd cd b64c mk p now ss (removed + of_nat n) cleaned' st2 = Some (Returns (Inr res), st')" by simp
    note IH = Cons.IH [OF this, unfolded frame del(2) [OF n]]
    have "k \<in> window s I64_MIN cutoff \<longleftrightarrow> (fst k, fst (snd k)) = s \<and> expires p now k" for k
      using Some by (cases k) (auto simp: window_def)
    then show ?thesis unfolding IH by (auto simp: restrict_map_def fun_eq_iff)
  qed
qed (auto simp: restrict_map_def)

text \<open>C17. Under a policy without a period for images, a retention pass that reports success has removed exactly the
  expired points of the series it scans (sources and metrics up to \<open>U+00FF\<close>): those with a time stamp not after the
  cutoff of their metric, when that cutoff lies in the past.\<close>

theorem retention_exact:
  assumes "series_laws sd c" "\<not> ts_retention_in_progress st" "rp_image_retention_hours (ts_retention_policy st) = None"
    "apply_retention sd cd b64c mk now st = Some (Returns (Inr res), st')"
    "([], [], I64_MIN) \<le> k" "k \<le> (U_FF, U_FF, I64_MAX)"
  shows "c (ts_db st') k = (if expires (ts_retention_policy st) (timestamp now) k then None else c (ts_db st) k)"
  using assms(2)
proof (cases rule: apply_retention_cases [where sd = sd and cd = cd and b64c = b64c and mk = mk and now = now])
  case (early x)
  with assms(4) have "read_table sd (ts_db st) = Inr None" "ts_db st' = ts_db st" by (auto simp: clear_flag_def)
  with read_table_contents(2) [OF assms(1)] show ?thesis by simp
next
  case (pass t rs kvs)
  let ?p = "ts_retention_policy st" and ?st0 = "st\<lparr>ts_retention_in_progress := True\<rparr>"
  obtain outcome st1 where run: "retain_series sd cd b64c mk ?p (timestamp now) (series_of kvs) 0 [] ?st0 = Some (outcome, st1)"
    and fin: "finish_retention now (outcome, st1) = (Returns (Inr res), st')"
    using assms(4) pass(4) by auto
  from fin obtain x where "outcome = Returns (Inr x)"
    by (auto simp: finish_retention_def split: call.splits sum.splits)
  with run assms(3) have "c (ts_db st1) = c (ts_db st) |` {k. \<not> ((fst k, fst (snd k)) \<in> set (series_of kvs) \<and> expires ?p (timestamp now) k)}"
    using retain_series_exact [OF assms(1,3)] by fastforce
  moreover have "ts_db st' = ts_db st1" using finish_retention_frame(1) [of now outcome st1] fin by simp
  moreover have "(fst k, fst (snd k)) \<in> set (series_of kvs)" if "c (ts_db st) k = Some v" for v
  proof -
    have "scan_of rs (c t |` {([], [], I64_MIN)..(U_FF, U_FF, I64_MAX)})" using series_range [OF assms(1) pass(2)] .
    then have "hm_get kvs = c (ts_db st) |` {([], [], I64_MIN)..(U_FF, U_FF, I64_MAX)}"
      unfolding pass(3) scan_of_entries read_table_contents(1) [OF assms(1) pass(1)] by blast
    then have "hm_get kvs k = Some v" using that assms(5,6) by (simp add: restrict_map_def)
    then have "(k, v) \<in> set kvs" by (rule map_of_SomeD)
    then have "(\<lambda>((source, metric, _), _). (source, metric)) (k, v) \<in> set (series_of kvs)"
      unfolding series_of_def set_remdups set_map by (rule imageI)
    then show ?thesis by (simp add: case_prod_unfold)
  qed
  ultimately show ?thesis by (cases "c (ts_db st) k") (auto simp: restrict_map_def)
qed

theorem retention_exact_witness:
  "\<exists>res st'. apply_retention mem_series_db ts_codec no_base64 map_moka 10000000000000 old_and_new = Some (Returns (Inr res), st') \<and>
    hm_get (ts_db st') (''a'', ''t'', 10) = None \<and> hm_get (ts_db st') (''a'', ''t'', 9000) = Some ''y''"
proof -
  obtain res st' where run: "apply_retention mem_series_db ts_codec no_base64 map_moka 10000000000000 old_and_new = Some (Returns (Inr res), st')"
    using old_and_new_retention by blast
  have st: "\<not> ts_retention_in_progress old_and_new" "rp_image_retention_hours (ts_retention_policy old_and_new) = None"
    "ts_retention_policy old_and_new = rp_new (Some 1)" "ts_db old_and_new = two_points"
    by (simp_all add: old_and_new_def buffered_store_def fresh_store_def rp_new_def)
  have range: "([], [], I64_MIN) \<le> (''a'', ''t'', t) \<and> (''a'', ''t'', t) \<le> (U_FF, U_FF, I64_MAX)" for t
    by (simp add: less_eq_prod_def U_FF_def)
  have "expiry 10000 (Some 1) = Some 6400" by (simp add: expiry_def cutoff_before_def wrap_i64_def)
  then have "expires (rp_new (Some 1)) 10000 (''a'', ''t'', t) \<longleftrightarrow> I64_MIN \<le> t \<and> t \<le> 6400" for t
    by (simp add: rp_new_def get_retention_hours_def)
  then have "hm_get (ts_db st') (''a'', ''t'', t) = (if I64_MIN \<le> t \<and> t \<le> 6400 then None else hm_get two_points (''a'', ''t'', t))" for t
    using retention_exact [OF mem_series_laws st(1,2) run, of "(''a'', ''t'', t)"] range [of t] st(3,4) by (simp add: timestamp_def)
  from this [of 10] this [of 9000] run show ?thesis by (simp add: I64_MIN_def two_points_def)
qed

text \<open>The image heuristic panics exactly on a text of more than 32 bytes that is not an image link and whose byte 32
  is in the middle of a character.\<close>

lemma image_heuristic_panics_iff:
  "value_looks_like_image b64c v = Panics \<longleftrightarrow>
   (\<exists>s. v = JString s \<and> \<not> starts_with s ''data:image/'' \<and> \<not> starts_with s ''/api/images/'' \<and> 32 < length s \<and>
        128 \<le> (of_char (s ! 32) :: nat) \<and> (of_char (s ! 32) :: nat) < 192)"
proof (cases v)
  case (JString s)
  then show ?thesis by (auto simp: value_looks_like_image_def is_char_boundary_def Let_def)
qed (simp_all add: value_looks_like_image_def)

end
