(* ===== verification/SeriesWrites.thy ===== *)
theory SeriesWrites
  imports SeriesStore
begin

text \<open>
  What the write path of the time-series store keeps: a flush changes the table only at keys of the points it drained,
  each of those ends in the table, under its own key with the bytes of a drained point of that key, or back in the
  buffer, unless the buffer is at its cap; when nothing fails the table is the one that writing the points one by one in
  the order of their arrival gives; the buffer never outgrows its cap.
\<close>

section \<open>Tables as maps\<close>

definition wkey :: "buffered_write \<Rightarrow> series_key" where
  "wkey w = (bf_source_id w, bf_metric w, dp_timestamp (bf_point w))"

definition encoding :: "point_codec \<Rightarrow> data_point \<Rightarrow> string" where
  "encoding cd p = (case pc_to_vec cd p of Inr v \<Rightarrow> v | Inl _ \<Rightarrow> [])"

definition put :: "point_codec \<Rightarrow> buffered_write \<Rightarrow> (series_key \<rightharpoonup> string) \<Rightarrow> (series_key \<rightharpoonup> string)" where
  "put cd w m = m(wkey w \<mapsto> encoding cd (bf_point w))"

lemma to_buffered_series [simp]: "bf_source_id (to_buffered s p) = fst s" "bf_metric (to_buffered s p) = snd s"
  "bf_point (to_buffered s p) = p" "to_buffered (bf_source_id w, bf_metric w) (bf_point w) = w"
  by (simp_all add: to_buffered_def)

lemma insert_points_contents:
  assumes "series_laws sd c"
  shows "insert_points sd cd s ps w = Inr w' \<Longrightarrow> c w' = fold (put cd) (map (to_buffered s) ps) (c w)"
proof (induction ps arbitrary: w)
  case (Cons p ps)
  then obtain v w1 where v: "pc_to_vec cd p = Inr v" and "sd_insert sd (fst s, snd s, dp_timestamp p) v w = Inr w1"
    and rest: "insert_points sd cd s ps w1 = Inr w'" by auto
  then have "c w1 = put cd (to_buffered s p) (c w)"
    using series_insert [OF assms] by (simp add: put_def wkey_def encoding_def)
  with Cons.IH [OF rest] show ?case by simp
qed simp

definition group_list :: "(series, data_point list) hash_map \<Rightarrow> buffered_write list" where
  "group_list gs = concat (map (\<lambda>(s, ps). map (to_buffered s) ps) gs)"

lemma insert_groups_contents:
  assumes "series_laws sd c"
  shows "insert_groups sd cd gs w = Inr w' \<Longrightarrow> c w' = fold (put cd) (group_list gs) (c w)"
proof (induction gs arbitrary: w)
  case (Cons g gs)
  obtain s ps where g: "g = (s, ps)" by (cases g)
  with Cons.prems obtain w1 where "insert_points sd cd s ps w = Inr w1" and rest: "insert_groups sd cd gs w1 = Inr w'" by auto
  then have "c w1 = fold (put cd) (map (to_buffered s) ps) (c w)" by (intro insert_points_contents [OF assms])
  with Cons.IH [OF rest] show ?case by (simp add: g group_list_def)
qed (simp add: group_list_def)

lemma write_txn_fails: "series_laws sd c \<Longrightarrow> in_write_txn sd body db = (Inl e, db') \<Longrightarrow> c db' = c db"
  by (auto simp: in_write_txn_def series_snapshots split: sum.splits)

lemma write_txn_commits:
  assumes "series_laws sd c" "in_write_txn sd body db = (Inr u, db')"
  obtains w w' where "c w = c db" "body w = Inr w'" "c db' = c w'"
  using assms series_snapshots [OF assms(1)] by (auto simp: in_write_txn_def split: sum.splits) metis

lemma write_batch_sync_frame:
  assumes "write_batch_sync sd cd s ps st = (r, st')"
  shows "ts_write_buffer st' = ts_write_buffer st" "ts_stats st' = ts_stats st"
    and "in_write_txn sd (insert_points sd cd s ps) (ts_db st) = (r, ts_db st')"
  using assms by (auto simp: write_batch_sync_def split: prod.splits sum.splits)

lemma write_batch_sync_contents:
  assumes "series_laws sd c" "write_batch_sync sd cd s ps st = (Inr u, st')"
  shows "c (ts_db st') = fold (put cd) (map (to_buffered s) ps) (c (ts_db st))"
proof -
  obtain w w' where "c w = c (ts_db st)" "insert_points sd cd s ps w = Inr w'" "c (ts_db st') = c w'"
    using write_batch_sync_frame(3) [OF assms(2)] by (rule write_txn_commits [OF assms(1)])
  with insert_points_contents [OF assms(1)] show ?thesis by metis
qed

section \<open>Where the drained points go\<close>

text \<open>\<open>stored_from cd W m m'\<close>: the table \<open>m'\<close> differs from \<open>m\<close> only where it holds the bytes of a write of \<open>W\<close>.\<close>

definition stored_from :: "point_codec \<Rightarrow> buffered_write set \<Rightarrow> (series_key \<rightharpoonup> string) \<Rightarrow> (series_key \<rightharpoonup> string) \<Rightarrow> bool" where
  "stored_from cd W m m' \<longleftrightarrow>
     (\<forall>k. m' k = m k \<or> (\<exists>w \<in> W. wkey w = k \<and> m' k = Some (encoding cd (bf_point w))))"

definition landed :: "point_codec \<Rightarrow> buffered_write set \<Rightarrow> (series_key \<rightharpoonup> string) \<Rightarrow> buffered_write \<Rightarrow> bool" where
  "landed cd W m w \<longleftrightarrow> (\<exists>w' \<in> W. wkey w' = wkey w \<and> m (wkey w) = Some (encoding cd (bf_point w')))"

lemma stored_from_refl [simp]: "stored_from cd W m m"
  by (simp add: stored_from_def)

lemma stored_from_trans: "stored_from cd W m m' \<Longrightarrow> stored_from cd W m' m'' \<Longrightarrow> stored_from cd W m m''"
  unfolding stored_from_def by metis

lemma landed_stays: "landed cd W m w \<Longrightarrow> stored_from cd W m m' \<Longrightarrow> landed cd W m' w"
  unfolding stored_from_def landed_def by metis

lemma fold_put_stored:
  "set ws \<subseteq> W \<Longrightarrow> stored_from cd W m (fold (put cd) ws m) \<and> (\<forall>w \<in> set ws. landed cd W (fold (put cd) ws m) w)"
proof (induction ws arbitrary: m)
  case (Cons w ws)
  have step: "stored_from cd W m (put cd w m)" "landed cd W (put cd w m) w"
    using Cons.prems by (auto simp: stored_from_def landed_def put_def)
  with Cons.IH [of "put cd w m"] Cons.prems show ?case
    by (auto intro: stored_from_trans landed_stays)
qed simp

lemma write_batch_sync_stored:
  assumes "series_laws sd c" "write_batch_sync sd cd s ps st = (r, st')" "to_buffered s ` set ps \<subseteq> W"
  shows "stored_from cd W (c (ts_db st)) (c (ts_db st'))"
    and "r = Inr () \<Longrightarrow> p \<in> set ps \<Longrightarrow> landed cd W (c (ts_db st')) (to_buffered s p)"
proof -
  note txn = write_batch_sync_frame(3) [OF assms(2)]
  have done_case: "c (ts_db st') = fold (put cd) (map (to_buffered s) ps) (c (ts_db st))" if "r = Inr ()"
    using write_batch_sync_contents [OF assms(1)] assms(2) that by simp
  have fail_case: "c (ts_db st') = c (ts_db st)" if "r = Inl e" for e
    using write_txn_fails [OF assms(1) txn [unfolded that]] .
  have sub: "set (map (to_buffered s) ps) \<subseteq> W" using assms(3) by simp
  show "stored_from cd W (c (ts_db st)) (c (ts_db st'))"
    using done_case fail_case fold_put_stored [OF sub] by (cases r) auto
  show "r = Inr () \<Longrightarrow> p \<in> set ps \<Longrightarrow> landed cd W (c (ts_db st')) (to_buffered s p)"
    using done_case fold_put_stored [OF sub] by auto
qed

lemma write_points_isolated_stored:
  assumes "series_laws sd c"
  shows "write_points_isolated sd cd s ps st = (failed, st') \<Longrightarrow> to_buffered s ` set ps \<subseteq> W \<Longrightarrow>
    stored_from cd W (c (ts_db st)) (c (ts_db st')) \<and> ts_write_buffer st' = ts_write_buffer st \<and> set failed \<subseteq> set ps \<and>
    (\<forall>p \<in> set ps. landed cd W (c (ts_db st')) (to_buffered s p) \<or> p \<in> set failed)"
proof (induction ps arbitrary: st failed st')
  case (Cons p ps)
  obtain r st1 where wr: "write_batch_sync sd cd s [p] st = (r, st1)" by fastforce
  obtain failed1 st2 where rest: "write_points_isolated sd cd s ps st1 = (failed1, st2)" by fastforce
  have one: "to_buffered s ` set [p] \<subseteq> W" using Cons.prems(2) by simp
  note st1 = write_batch_sync_stored [OF assms wr one] write_batch_sync_frame(1) [OF wr]
  have more: "to_buffered s ` set ps \<subseteq> W" using Cons.prems(2) by simp
  note st2 = Cons.IH [OF rest more]
  have "st' = st2" "failed = (case r of Inl _ \<Rightarrow> p # failed1 | Inr _ \<Rightarrow> failed1)"
    using Cons.prems(1) by (simp_all add: wr rest split: sum.splits)
  with st1 st2 show ?case
    by (cases r) (auto intro: stored_from_trans landed_stays)
qed simp

lemma flush_groups_stored:
  assumes "series_laws sd c"
  shows "flush_groups sd cd gs st = (failed, st') \<Longrightarrow> set (group_list gs) \<subseteq> W \<Longrightarrow>
    stored_from cd W (c (ts_db st)) (c (ts_db st')) \<and> ts_write_buffer st' = ts_write_buffer st \<and> set failed \<subseteq> set (group_list gs) \<and>
    (\<forall>w \<in> set (group_list gs). landed cd W (c (ts_db st')) w \<or> w \<in> set failed)"
proof (induction gs arbitrary: st failed st')
  case (Cons g gs)
  obtain s ps where g: "g = (s, ps)" by (cases g)
  obtain r st1 where wr: "write_batch_sync sd cd s ps st = (r, st1)" by fastforce
  have one: "to_buffered s ` set ps \<subseteq> W" and more: "set (group_list gs) \<subseteq> W"
    using Cons.prems(2) by (simp_all add: g group_list_def)
  have members: "set (group_list (g # gs)) = to_buffered s ` set ps \<union> set (group_list gs)" by (simp add: g group_list_def)
  note st1 = write_batch_sync_stored [OF assms wr one] write_batch_sync_frame(1) [OF wr]
  show ?case
  proof (cases r)
    case (Inr u)
    with Cons.prems(1) have "flush_groups sd cd gs st1 = (failed, st')" by (simp add: g wr)
    from Cons.IH [OF this more] st1 Inr show ?thesis unfolding members
      by (auto intro: stored_from_trans landed_stays)
  next
    case (Inl e)
    obtain failed1 st2 where iso: "write_points_isolated sd cd s ps st1 = (failed1, st2)" by fastforce
    obtain failed2 st3 where rest: "flush_groups sd cd gs st2 = (failed2, st3)" by fastforce
    have "st' = st3" "failed = map (to_buffered s) failed1 @ failed2"
      using Cons.prems(1) by (simp_all add: g wr Inl iso rest)
    with Cons.IH [OF rest more] write_points_isolated_stored [OF assms iso one] st1 show ?thesis unfolding members
      by (auto intro: stored_from_trans landed_stays)
  qed
qed (simp add: group_list_def)

text \<open>When no write failed, the table is the one the writes give in their order.\<close>

lemma write_points_isolated_complete:
  assumes "series_laws sd c"
  shows "write_points_isolated sd cd s ps st = ([], st') \<Longrightarrow> c (ts_db st') = fold (put cd) (map (to_buffered s) ps) (c (ts_db st))"
proof (induction ps arbitrary: st)
  case (Cons p ps)
  then obtain u st1 where "write_batch_sync sd cd s [p] st = (Inr u, st1)" "write_points_isolated sd cd s ps st1 = ([], st')"
    by (auto split: prod.splits sum.splits)
  with Cons.IH write_batch_sync_contents [OF assms] show ?case by fastforce
qed simp

lemma flush_groups_complete:
  assumes "series_laws sd c"
  shows "flush_groups sd cd gs st = ([], st') \<Longrightarrow> c (ts_db st') = fold (put cd) (group_list gs) (c (ts_db st))"
proof (induction gs arbitrary: st)
  case (Cons g gs)
  obtain s ps where g: "g = (s, ps)" by (cases g)
  obtain r st1 where wr: "write_batch_sync sd cd s ps st = (r, st1)" by fastforce
  show ?case
  proof (cases r)
    case (Inr u)
    then have "c (ts_db st1) = fold (put cd) (map (to_buffered s) ps) (c (ts_db st))"
      using write_batch_sync_contents [OF assms] wr by blast
    moreover have "flush_groups sd cd gs st1 = ([], st')" using Cons.prems by (simp add: g wr Inr)
    ultimately show ?thesis using Cons.IH by (simp add: g group_list_def)
  next
    case (Inl e)
    then have same: "c (ts_db st1) = c (ts_db st)"
      using write_txn_fails [OF assms] write_batch_sync_frame(3) [OF wr] by blast
    obtain st2 where iso: "write_points_isolated sd cd s ps st1 = ([], st2)" and rest: "flush_groups sd cd gs st2 = ([], st')"
      using Cons.prems by (auto simp: g wr Inl split: prod.splits)
    show ?thesis using Cons.IH [OF rest] write_points_isolated_complete [OF assms iso] same by (simp add: g group_list_def)
  qed
qed (simp add: group_list_def)

section \<open>Grouping keeps the order within a series\<close>

lemma group_writes_get:
  "unwrap_or (hm_get (group_writes ws) s) [] = map bf_point (filter (\<lambda>w. (bf_source_id w, bf_metric w) = s) ws)"
proof (induction ws rule: rev_induct)
  case (snoc w ws)
  have "group_writes (ws @ [w]) = push_at (bf_source_id w, bf_metric w) (bf_point w) (group_writes ws)"
    by (simp add: group_writes_def)
  with snoc show ?case by (auto simp: push_at_get)
qed (simp add: group_writes_def)

lemma group_writes_wf: "hm_wf (group_writes ws)"
  by (induction ws rule: rev_induct) (simp_all add: group_writes_def push_at_def)

lemma group_list_eq:
  assumes "hm_wf gs"
  shows "filter (\<lambda>w. (bf_source_id w, bf_metric w) = s) (group_list gs) = map (to_buffered s) (unwrap_or (hm_get gs s) [])"
  using assms
proof (induction gs)
  case (Cons g gs)
  obtain t ps where g: "g = (t, ps)" by (cases g)
  have none: "hm_get gs t = None" using Cons.prems by (simp add: g map_of_eq_None_iff)
  have "filter (\<lambda>w. (bf_source_id w, bf_metric w) = s) (map (to_buffered t) ps) = (if t = s then map (to_buffered t) ps else [])"
    by (auto simp: filter_map o_def)
  then show ?case using Cons none by (auto simp: g group_list_def)
qed (simp add: group_list_def)

lemma group_list_filter:
  "filter (\<lambda>w. (bf_source_id w, bf_metric w) = s) (group_list (group_writes ws)) = filter (\<lambda>w. (bf_source_id w, bf_metric w) = s) ws"
proof -
  have "map (to_buffered s) (map bf_point (filter (\<lambda>w. (bf_source_id w, bf_metric w) = s) ws))
      = filter (\<lambda>w. (bf_source_id w, bf_metric w) = s) ws"
    by (induction ws) auto
  then show ?thesis by (simp add: group_list_eq [OF group_writes_wf] group_writes_get)
qed

lemma set_group_list [simp]: "set (group_list (group_writes ws)) = set ws"
proof -
  have "w \<in> set (group_list (group_writes ws)) \<longleftrightarrow> w \<in> set ws" for w
    using arg_cong [OF group_list_filter [of "(bf_source_id w, bf_metric w)" ws], of set] by auto
  then show ?thesis by blast
qed

lemma fold_put_at:
  "fold (put cd) ws m k = (case filter (\<lambda>w. wkey w = k) ws of [] \<Rightarrow> m k | xs \<Rightarrow> Some (encoding cd (bf_point (last xs))))"
  by (induction ws rule: rev_induct) (auto simp: put_def split: list.splits)

lemma fold_put_grouped: "fold (put cd) (group_list (group_writes ws)) m = fold (put cd) ws m"
proof
  fix k :: series_key
  have narrow: "filter (\<lambda>w. wkey w = k) xs = filter (\<lambda>w. wkey w = k) (filter (\<lambda>w. (bf_source_id w, bf_metric w) = (fst k, fst (snd k))) xs)" for xs
    by (induction xs) (auto simp: wkey_def)
  have "filter (\<lambda>w. wkey w = k) (group_list (group_writes ws)) = filter (\<lambda>w. wkey w = k) ws"
    using narrow [of "group_list (group_writes ws)"] narrow [of ws] by (simp only: group_list_filter)
  then show "fold (put cd) (group_list (group_writes ws)) m k = fold (put cd) ws m k" by (simp add: fold_put_at)
qed

section \<open>Flushing\<close>

lemma count_written_frame [simp]:
  "ts_db (count_written f t n st) = ts_db st" "ts_write_buffer (count_written f t n st) = ts_write_buffer st"
  by (simp_all add: count_written_def)

lemma write_all_groups_frame:
  assumes "write_all_groups_sync sd cd gs st = (r, st')"
  shows "ts_write_buffer st' = ts_write_buffer st"
    and "in_write_txn sd (insert_groups sd cd gs) (ts_db st) = (r, ts_db st')"
  using assms by (auto simp: write_all_groups_sync_def split: prod.splits sum.splits)

lemma write_all_groups_contents:
  assumes "series_laws sd c" "write_all_groups_sync sd cd (group_writes ws) st = (r, st')"
  shows "c (ts_db st') = (case r of Inr _ \<Rightarrow> fold (put cd) ws (c (ts_db st)) | Inl _ \<Rightarrow> c (ts_db st))"
proof (cases r)
  case (Inl e)
  with write_txn_fails [OF assms(1)] write_all_groups_frame(2) [OF assms(2)] show ?thesis by fastforce
next
  case (Inr u)
  with write_all_groups_frame(2) [OF assms(2)] have "in_write_txn sd (insert_groups sd cd (group_writes ws)) (ts_db st) = (Inr u, ts_db st')" by simp
  then obtain w w' where "c w = c (ts_db st)" "insert_groups sd cd (group_writes ws) w = Inr w'" "c (ts_db st') = c w'"
    by (rule write_txn_commits [OF assms(1)])
  with insert_groups_contents [OF assms(1)] Inr show ?thesis by (simp add: fold_put_grouped)
qed

text \<open>The two ways a flush of a buffer that is not empty can go.\<close>

lemma flush_buffer_cases:
  assumes "series_laws sd c" "st' = flush_buffer sd cd stats_free took st" "wb_pending (ts_write_buffer st) \<noteq> []"
  obtains (at_once) "c (ts_db st') = fold (put cd) (wb_pending (ts_write_buffer st)) (c (ts_db st))"
      "ts_write_buffer st' = (ts_write_buffer st)\<lparr>wb_pending := []\<rparr>"
      "fst (write_all_groups_sync sd cd (group_writes (wb_pending (ts_write_buffer st))) (st\<lparr>ts_write_buffer := (ts_write_buffer st)\<lparr>wb_pending := []\<rparr>\<rparr>)) = Inr ()"
    | (piecewise) failed where
      "stored_from cd (set (wb_pending (ts_write_buffer st))) (c (ts_db st)) (c (ts_db st'))"
      "\<And>w. w \<in> set (wb_pending (ts_write_buffer st)) \<Longrightarrow> landed cd (set (wb_pending (ts_write_buffer st))) (c (ts_db st')) w \<or> w \<in> set failed"
      "ts_write_buffer st' = (ts_write_buffer st)\<lparr>wb_pending := take (hard_cap (ts_write_buffer st)) failed\<rparr>"
      "failed = [] \<Longrightarrow> c (ts_db st') = fold (put cd) (wb_pending (ts_write_buffer st)) (c (ts_db st))"
proof -
  let ?ws = "wb_pending (ts_write_buffer st)" and ?b = "(ts_write_buffer st)\<lparr>wb_pending := []\<rparr>"
  let ?st = "st\<lparr>ts_write_buffer := ?b\<rparr>"
  obtain r st1 where all: "write_all_groups_sync sd cd (group_writes ?ws) ?st = (r, st1)" by fastforce
  note st1 = write_all_groups_frame(1) [OF all] write_all_groups_contents [OF assms(1) all]
  show thesis
  proof (cases r)
    case (Inr u)
    then have "st' = count_written stats_free took (sum_list (map (\<lambda>(_, ps). length ps) (group_writes ?ws))) st1"
      using assms(2,3) all by (simp add: flush_buffer_def wb_drain_def Let_def)
    with st1 Inr all show thesis by (intro at_once) simp_all
  next
    case (Inl e)
    obtain failed st2 where fg: "flush_groups sd cd (group_writes ?ws) st1 = (failed, st2)" by fastforce
    have fgs: "stored_from cd (set ?ws) (c (ts_db st1)) (c (ts_db st2))" "ts_write_buffer st2 = ts_write_buffer st1"
      "set failed \<subseteq> set ?ws" "\<And>w. w \<in> set ?ws \<Longrightarrow> landed cd (set ?ws) (c (ts_db st2)) w \<or> w \<in> set failed"
      using flush_groups_stored [OF assms(1) fg, of "set ?ws"] by simp_all
    have in_order: "failed = [] \<Longrightarrow> c (ts_db st2) = fold (put cd) ?ws (c (ts_db st1))"
      using flush_groups_complete [OF assms(1), of cd "group_writes ?ws" st1 st2] fg by (simp add: fold_put_grouped)
    have "ts_db st' = ts_db st2" and buf: "ts_write_buffer st' = (if failed = [] then ts_write_buffer st2 else snd (wb_requeue failed (ts_write_buffer st2)))"
      using assms(2,3) all fg Inl by (simp_all add: flush_buffer_def wb_drain_def Let_def)
    moreover have "ts_write_buffer st' = (ts_write_buffer st)\<lparr>wb_pending := take (hard_cap (ts_write_buffer st)) failed\<rparr>"
      using buf fgs(2) st1(1) by (auto simp: wb_requeue_eq hard_cap_def)
    ultimately show thesis using fgs in_order st1(2) Inl by (intro piecewise [of failed]) simp_all
  qed
qed

lemma flush_buffer_empty: "wb_pending (ts_write_buffer st) = [] \<Longrightarrow> flush_buffer sd cd stats_free took st = st"
  by (simp add: flush_buffer_def wb_drain_def)

text \<open>C15. A flush changes the table only at the keys of the writes it drained, to the bytes of such a write, and every
  drained write ends up either in the table, where its key holds the bytes of a drained write of the same key (the
  write itself or another with the same time stamp), or back in the buffer, unless the buffer is full to its cap.\<close>

theorem flush_loses_nothing:
  assumes "series_laws sd c" "st' = flush_buffer sd cd stats_free took st" "w \<in> set (wb_pending (ts_write_buffer st))"
  shows "stored_from cd (set (wb_pending (ts_write_buffer st))) (c (ts_db st)) (c (ts_db st')) \<and>
    (landed cd (set (wb_pending (ts_write_buffer st))) (c (ts_db st')) w \<or> w \<in> set (wb_pending (ts_write_buffer st')) \<or>
     length (wb_pending (ts_write_buffer st')) = hard_cap (ts_write_buffer st))"
proof -
  from assms(3) have ne: "wb_pending (ts_write_buffer st) \<noteq> []" by auto
  from assms(1,2) ne show ?thesis
  proof (cases rule: flush_buffer_cases)
    case at_once
    with fold_put_stored [OF subset_refl] assms(3) show ?thesis by simp
  next
    case (piecewise failed)
    show ?thesis
    proof (cases "length failed \<le> hard_cap (ts_write_buffer st)")
      case True
      with piecewise assms(3) show ?thesis by simp blast
    next
      case False
      with piecewise show ?thesis by simp
    qed
  qed
qed

theorem flush_loses_nothing_witness:
  "stored_from ts_codec (set sample_writes) Map.empty
     (hm_get (ts_db (flush_buffer mem_series_db ts_codec True 5 (buffered_store sample_writes)))) \<and>
   (landed ts_codec (set sample_writes) (hm_get (ts_db (flush_buffer mem_series_db ts_codec True 5 (buffered_store sample_writes)))) (hd sample_writes) \<or>
    hd sample_writes \<in> set (wb_pending (ts_write_buffer (flush_buffer mem_series_db ts_codec True 5 (buffered_store sample_writes)))) \<or>
    length (wb_pending (ts_write_buffer (flush_buffer mem_series_db ts_codec True 5 (buffered_store sample_writes)))) = 2000)"
proof -
  have "hd sample_writes \<in> set (wb_pending (ts_write_buffer (buffered_store sample_writes)))"
    by (simp add: buffered_store_def sample_writes_def)
  from flush_loses_nothing [OF mem_series_laws refl this, of ts_codec True 5] show ?thesis
    by (simp add: buffered_store_def fresh_store_def wb_new_def hard_cap_def)
qed

text \<open>C16. A flush that leaves nothing in the buffer has the effect of writing the buffered points one by one in the
  order of their arrival: a key that no buffered point has keeps its bytes, and any other key holds the bytes of the
  last buffered point with that source, metric and time stamp.\<close>

theorem flush_in_arrival_order:
  assumes "series_laws sd c" "st' = flush_buffer sd cd stats_free took st" "wb_pending (ts_write_buffer st') = []"
    "0 < wb_max_size (ts_write_buffer st)"
  shows "c (ts_db st') k =
    (case filter (\<lambda>w. wkey w = k) (wb_pending (ts_write_buffer st)) of
       [] \<Rightarrow> c (ts_db st) k
     | xs \<Rightarrow> Some (encoding cd (bf_point (last xs))))"
proof (cases "wb_pending (ts_write_buffer st) = []")
  case True
  with assms(2) show ?thesis by (simp add: flush_buffer_empty)
next
  case False
  from assms(1,2) False have "c (ts_db st') = fold (put cd) (wb_pending (ts_write_buffer st)) (c (ts_db st))"
  proof (cases rule: flush_buffer_cases)
    case (piecewise failed)
    have "0 < hard_cap (ts_write_buffer st)" using assms(4) by (simp add: hard_cap_def)
    with piecewise assms(3) show ?thesis by simp
  qed
  then show ?thesis by (simp add: fold_put_at)
qed

theorem flush_in_arrival_order_witness:
  "wb_pending (ts_write_buffer (flush_buffer mem_series_db ts_codec True 5 (buffered_store (take 1 sample_writes)))) = [] \<and>
   hm_get (ts_db (flush_buffer mem_series_db ts_codec True 5 (buffered_store (take 1 sample_writes)))) (''device:a'', ''temp'', 7) = Some (show_int 7)"
proof -
  have empty: "wb_pending (ts_write_buffer (flush_buffer mem_series_db ts_codec True 5 (buffered_store (take 1 sample_writes)))) = []"
    by (simp add: flush_buffer_def buffered_store_def wb_drain_def sample_writes_def group_writes_def push_at_def
        write_all_groups_sync_def in_write_txn_def mem_series_db_def ts_codec_def dp_new_bool_def dp_new_with_value_def
        txn_err_def table_err_def io_err_def commit_err_def json_err_def wb_new_def)
  have "0 < wb_max_size (ts_write_buffer (buffered_store (take 1 sample_writes)))"
    by (simp add: buffered_store_def wb_new_def)
  from flush_in_arrival_order [OF mem_series_laws refl empty this, of "(''device:a'', ''temp'', 7)"] empty show ?thesis
    by (simp add: buffered_store_def sample_writes_def wkey_def encoding_def ts_codec_def dp_new_bool_def
        dp_new_with_value_def)
qed

section \<open>The buffer is bounded\<close>

definition buffer_ok :: "('d, 'c) ts_store \<Rightarrow> bool" where
  "buffer_ok st \<longleftrightarrow> length (wb_pending (ts_write_buffer st)) \<le> hard_cap (ts_write_buffer st)"

datatype series_op =
    OpWrite instant bool duration series data_point
  | OpFlush bool duration
  | OpShutdown bool duration
  | OpTick bool duration
  | OpBatch date_time series "data_point list"

fun run_op :: "'d series_db \<Rightarrow> point_codec \<Rightarrow> 'c moka \<Rightarrow> series_op \<Rightarrow> ('d, 'c) ts_store \<Rightarrow> ('d, 'c) ts_store" where
  "run_op sd cd mk (OpWrite now free took s p) st = snd (ts_write sd cd mk now free took s p st)"
| "run_op sd cd mk (OpFlush free took) st = snd (ts_flush sd cd free took st)"
| "run_op sd cd mk (OpShutdown free took) st = ts_shutdown sd cd free took st"
| "run_op sd cd mk (OpTick free took) st = snd (flush_tick sd cd free took st)"
| "run_op sd cd mk (OpBatch now s ps) st = snd (ts_write_batch sd cd now s ps st)"

lemma hard_cap_frame [simp]:
  "hard_cap (b\<lparr>wb_pending := ws\<rparr>) = hard_cap b" "hard_cap (b\<lparr>wb_shutdown := f\<rparr>) = hard_cap b"
  by (simp_all add: hard_cap_def)

lemma flush_bounds:
  assumes "series_laws sd c"
  shows "buffer_ok st \<or> wb_pending (ts_write_buffer st) \<noteq> [] \<Longrightarrow> buffer_ok (flush_buffer sd cd free took st)"
    and "wb_max_size (ts_write_buffer (flush_buffer sd cd free took st)) = wb_max_size (ts_write_buffer st)"
proof -
  let ?st' = "flush_buffer sd cd free took st"
  have *: "(buffer_ok st \<or> wb_pending (ts_write_buffer st) \<noteq> [] \<longrightarrow> buffer_ok ?st') \<and>
      wb_max_size (ts_write_buffer ?st') = wb_max_size (ts_write_buffer st)"
  proof (cases "wb_pending (ts_write_buffer st) = []")
    case True
    then show ?thesis by (simp add: flush_buffer_empty)
  next
    case False
    from assms refl False show ?thesis
      by (cases rule: flush_buffer_cases [where cd = cd and stats_free = free and took = took])
        (simp_all add: buffer_ok_def)
  qed
  show "buffer_ok st \<or> wb_pending (ts_write_buffer st) \<noteq> [] \<Longrightarrow> buffer_ok ?st'" using * by blast
  show "wb_max_size (ts_write_buffer ?st') = wb_max_size (ts_write_buffer st)" using * by blast
qed

lemma run_op_bounds:
  assumes "series_laws sd c" "buffer_ok st" "wb_max_size (ts_write_buffer st) < 2 ^ 64"
  shows "buffer_ok (run_op sd cd mk op st) \<and> wb_max_size (ts_write_buffer (run_op sd cd mk op st)) = wb_max_size (ts_write_buffer st)"
proof (cases op)
  case (OpWrite now free took s p)
  define st1 where "st1 = (update_cache mk now s p st)\<lparr>ts_write_buffer := snd (wb_push (to_buffered s p) (ts_write_buffer st))\<rparr>"
  have run: "run_op sd cd mk op st = (if fst (wb_push (to_buffered s p) (ts_write_buffer st)) then flush_buffer sd cd free took st1 else st1)"
    by (simp add: OpWrite ts_write_def update_cache_def st1_def split: prod.splits)
  have keep: "wb_max_size (ts_write_buffer st1) = wb_max_size (ts_write_buffer st)" "wb_pending (ts_write_buffer st1) \<noteq> []"
    by (simp_all add: st1_def wb_push_def)
  have "buffer_ok st1" if "\<not> fst (wb_push (to_buffered s p) (ts_write_buffer st))"
    using that assms(3) by (simp add: wb_push_def buffer_ok_def hard_cap_def st1_def)
  then show ?thesis using flush_bounds [OF assms(1), where st = st1] keep by (simp add: run)
next
  case (OpBatch now s ps)
  then show ?thesis using assms(2) by (simp add: ts_write_batch_def buffer_ok_def split: prod.splits sum.splits)
next
  case (OpShutdown free took)
  define st1 where "st1 = st\<lparr>ts_write_buffer := wb_abort (ts_write_buffer st)\<rparr>"
  have "buffer_ok st1" "wb_max_size (ts_write_buffer st1) = wb_max_size (ts_write_buffer st)"
    using assms(2) by (simp_all add: st1_def buffer_ok_def wb_abort_def)
  then show ?thesis using flush_bounds [OF assms(1), where st = st1] OpShutdown by (simp add: ts_shutdown_def st1_def [symmetric])
next
  case (OpFlush free took)
  then show ?thesis using assms(2) flush_bounds [OF assms(1), where st = st] by (simp add: ts_flush_def)
next
  case (OpTick free took)
  then show ?thesis using assms(2) flush_bounds [OF assms(1), where st = st] by (simp add: flush_tick_def)
qed

text \<open>However its writes fail, a store that runs one operation after another never holds more buffered points than
  ten times the size of its buffer.\<close>

lemma write_buffer_bounded:
  assumes "series_laws sd c" "tc_write_buffer_size config < 2 ^ 64"
  shows "length (wb_pending (ts_write_buffer (fold (run_op sd cd mk) ops (fresh_store mk config path db)))) \<le> 10 * tc_write_buffer_size config"
proof -
  let ?ok = "\<lambda>st. buffer_ok st \<and> wb_max_size (ts_write_buffer st) = tc_write_buffer_size config"
  have "?ok (fold (run_op sd cd mk) ops st)" if "?ok st" for st
    using that
  proof (induction ops arbitrary: st)
    case (Cons op ops)
    have "?ok (run_op sd cd mk op st)" using run_op_bounds [OF assms(1), of st cd mk op] Cons.prems assms(2) by simp
    with Cons.IH show ?case by simp
  qed simp
  moreover have "?ok (fresh_store mk config path db)" by (simp add: fresh_store_def buffer_ok_def wb_new_def)
  ultimately have "?ok (fold (run_op sd cd mk) ops (fresh_store mk config path db))" by blast
  then show ?thesis by (simp add: buffer_ok_def hard_cap_def)
qed

section \<open>A flush leaves the cache alone\<close>

definition same_cache :: "('d, 'c) ts_store \<Rightarrow> ('d, 'c) ts_store \<Rightarrow> bool" where
  "same_cache st st' \<longleftrightarrow> ts_latest_cache st' = ts_latest_cache st \<and> ts_cache_ttl st' = ts_cache_ttl st"

lemma write_batch_sync_cache: "same_cache st (snd (write_batch_sync sd cd s ps st))"
  by (simp add: same_cache_def write_batch_sync_def split: prod.splits sum.splits)

lemma write_points_isolated_cache: "same_cache st (snd (write_points_isolated sd cd s ps st))"
proof (induction ps arbitrary: st)
  case (Cons p ps)
  obtain r st1 where wr: "write_batch_sync sd cd s [p] st = (r, st1)" by fastforce
  with write_batch_sync_cache [of st sd cd s "[p]"] Cons.IH [of st1] show ?case
    by (cases r) (simp_all add: same_cache_def case_prod_unfold Let_def)
qed (simp add: same_cache_def)

lemma flush_groups_cache: "same_cache st (snd (flush_groups sd cd gs st))"
proof (induction gs arbitrary: st)
  case (Cons g gs)
  obtain s ps where g: "g = (s, ps)" by (cases g)
  obtain r st1 where wr: "write_batch_sync sd cd s ps st = (r, st1)" by fastforce
  with write_batch_sync_cache [of st sd cd s ps] write_points_isolated_cache [of st1 sd cd s ps] Cons.IH show ?case
    by (cases r) (simp_all add: g same_cache_def case_prod_unfold Let_def)
qed (simp add: same_cache_def)

lemma write_all_groups_cache: "same_cache st (snd (write_all_groups_sync sd cd gs st))"
  by (simp add: same_cache_def write_all_groups_sync_def split: prod.splits sum.splits)

lemma flush_buffer_cache:
  "ts_latest_cache (flush_buffer sd cd stats_free took st) = ts_latest_cache st \<and>
   ts_cache_ttl (flush_buffer sd cd stats_free took st) = ts_cache_ttl st"
proof -
  let ?st = "st\<lparr>ts_write_buffer := snd (wb_drain (ts_write_buffer st))\<rparr>" and ?gs = "group_writes (fst (wb_drain (ts_write_buffer st)))"
  obtain r st1 where wr: "write_all_groups_sync sd cd ?gs ?st = (r, st1)" by fastforce
  with write_all_groups_cache [of ?st sd cd ?gs] flush_groups_cache [of st1 sd cd ?gs] show ?thesis
    by (cases r) (simp_all add: flush_buffer_def same_cache_def case_prod_unfold Let_def count_written_def)
qed

end
