(* ===== verification/SeriesReads.thy ===== *)
theory SeriesReads
  imports SeriesCleanup SeriesWrites
begin

text \<open>
  What the queries of the time-series store return, against a reference: the entries of the table in the order of
  their keys. The listing of metrics and the cached latest value are compared with the table as well.
\<close>

section \<open>The reference\<close>

definition entries_of :: "(series_key \<rightharpoonup> string) \<Rightarrow> (series_key \<times> string) list" where
  "entries_of m = map (\<lambda>k. (k, the (m k))) (sorted_list_of_set (dom m))"

definition page :: "nat option \<Rightarrow> nat \<Rightarrow> 'a list \<Rightarrow> 'a list" where
  "page limit offset xs = (case limit of None \<Rightarrow> drop offset xs | Some n \<Rightarrow> take n (drop offset xs))"

definition decodes :: "point_codec \<Rightarrow> data_point \<Rightarrow> series_key \<times> string \<Rightarrow> bool" where
  "decodes cd p kv \<longleftrightarrow> pc_from_slice cd (snd kv) = Inr p"

lemma ascending_entries_of:
  assumes "ascending kvs" "map_of kvs = m"
  shows "kvs = entries_of m"
proof -
  have dom: "dom m = set (map fst kvs)" by (simp only: assms(2) [symmetric] dom_map_of_conv_image_fst set_map)
  have "sorted_list_of_set (dom m) = map fst kvs"
    using assms(1) ascending_distinct [OF assms(1)] unfolding dom ascending_def
    by (simp only: strict_sorted_iff sorted_list_of_set.idem_if_sorted_distinct)
  moreover have "map (\<lambda>k. (k, the (m k))) (map fst kvs) = kvs"
    using ascending_distinct [OF assms(1)] unfolding map_map by (intro map_idI) (auto simp: assms(2) [symmetric])
  ultimately show ?thesis by (simp add: entries_of_def)
qed

lemma scan_of_reference: "scan_of rs m \<Longrightarrow> list_all2 reads rs (entries_of m)"
  using ascending_entries_of by (auto simp: scan_of_def)

lemma page_Cons: "page limit 0 (x # xs) = (if below limit 0 then x # page (map_option (\<lambda>n. n - 1) limit) 0 xs else [])"
  by (cases limit) (auto simp: page_def below_def take_Cons' split: nat.splits)

section \<open>Pages, newest first\<close>

lemma collect_rev_skips:
  "collect_range_rev cd limit offset rs skipped 0 n [] =
     collect_range_rev cd limit offset (drop (offset - skipped) rs) (max skipped (min offset (skipped + length rs))) 0
       (n + of_nat (min (offset - skipped) (length rs))) []"
proof (induction rs arbitrary: skipped n)
  case (Cons r rs)
  show ?case
  proof (cases "skipped < offset")
    case True
    then obtain d where d: "offset - skipped = Suc d" "offset - Suc skipped = d" by (metis Suc_diff_Suc)
    have "max (Suc skipped) (min offset (Suc skipped + length rs)) = max skipped (min offset (skipped + length (r # rs)))"
      using True by auto
    with True Cons.IH [of "Suc skipped" "n + 1"] d show ?thesis by (simp add: add.assoc)
  qed simp
qed simp

lemma collect_rev_collects:
  assumes "offset \<le> skipped"
  shows "collect_range_rev cd limit offset rs skipped collected n points = Inr (ps, n') \<Longrightarrow> list_all2 reads rs kvs \<Longrightarrow>
    \<exists>qs. ps = points @ qs \<and> list_all2 (decodes cd) qs (page (map_option (\<lambda>m. m - collected) limit) 0 kvs) \<and> n' = n + of_nat (length rs)"
proof (induction rs arbitrary: collected n points kvs)
  case Nil
  then show ?case by (simp add: page_def split: option.splits)
next
  case (Cons r rs)
  from Cons.prems(2) obtain kv kvs' where kvs: "kvs = kv # kvs'" "reads r kv" "list_all2 reads rs kvs'" by (auto simp: list_all2_Cons1)
  have below: "below (map_option (\<lambda>m. m - collected) limit) 0 \<longleftrightarrow> below limit collected"
    by (cases limit) (auto simp: below_def)
  show ?case
  proof (cases "below limit collected")
    case True
    with Cons.prems(1) assms obtain k v p where r: "r = Inr (k, v)" "pc_from_slice cd v = Inr p"
      and rest: "collect_range_rev cd limit offset rs skipped (Suc collected) (n + 1) (points @ [p]) = Inr (ps, n')"
      by (auto split: prod.splits)
    obtain qs where "ps = (points @ [p]) @ qs" "n' = n + 1 + of_nat (length rs)"
      "list_all2 (decodes cd) qs (page (map_option (\<lambda>m. m - Suc collected) limit) 0 kvs')"
      using Cons.IH [OF rest kvs(3)] by blast
    moreover have "decodes cd p kv" using r kvs(2) by (auto simp: decodes_def)
    ultimately show ?thesis using True below
      by (intro exI [of _ "p # qs"]) (simp add: kvs(1) page_Cons option.map_comp o_def)
  next
    case False
    with Cons.prems(1) assms have rest: "collect_range_rev cd limit offset rs skipped collected (n + 1) points = Inr (ps, n')" by simp
    have none: "page (map_option (\<lambda>m. m - collected) limit) 0 xs = ([] :: (series_key \<times> string) list)" for xs
      using False by (cases limit) (simp_all add: page_def below_def)
    show ?thesis using Cons.IH [OF rest kvs(3)] none by simp
  qed
qed

text \<open>C19. A page of the newest-first query is the page of that limit and offset of the points in the range, from the
  newest to the oldest, and the count that comes with it is the number of all points in the range (modulo \<open>2 ^ 32\<close>).\<close>

theorem newest_first_pages:
  assumes "series_laws sd c" "query_range_rev_impl sd cd s start end_ts limit offset db = Inr r"
  shows "list_all2 (decodes cd) (tr_points r) (page limit offset (rev (entries_of (c db |` window s start end_ts)))) \<and>
    (tr_total_count r = Some (length (entries_of (c db |` window s start end_ts)) mod 2 ^ 32) \<or> c db = Map.empty)"
proof (cases "read_table sd db")
  case (Inr t)
  show ?thesis
  proof (cases t)
    case None
    with Inr assms have "c db = Map.empty" "tr_points r = []"
      using read_table_contents(2) by (auto simp: query_range_rev_impl_def ts_result_of_def)
    then show ?thesis by (simp add: entries_of_def page_def split: option.splits)
  next
    case (Some t)
    with Inr assms(2) obtain rs ps n where rs: "series_range_scan sd s start end_ts t = Inr rs"
      and run: "collect_range_rev cd limit offset (rev rs) 0 0 0 [] = Inr (ps, n)"
      and r: "r = ts_result_of s ps (Some (unat n))"
      by (auto simp: query_range_rev_impl_def)
    let ?es = "entries_of (c db |` window s start end_ts)"
    have "c t = c db" using read_table_contents(1) [OF assms(1)] Inr Some by blast
    then have reads: "list_all2 reads rs ?es"
      using scan_of_reference [OF series_range_scan_of [OF assms(1) rs]] by simp
    then have len: "length rs = length ?es" by (rule list_all2_lengthD)
    have "list_all2 reads (drop offset (rev rs)) (drop offset (rev ?es))" using reads by (simp add: list_all2_dropI)
    moreover have "collect_range_rev cd limit offset (drop offset (rev rs)) (min offset (length rs)) 0 (of_nat (min offset (length rs))) [] = Inr (ps, n)"
      using run collect_rev_skips [of cd limit offset "rev rs" 0 0] by simp
    moreover have "offset \<le> min offset (length rs) \<or> drop offset (rev rs) = []" by auto
    ultimately have "list_all2 (decodes cd) ps (page limit 0 (drop offset (rev ?es)))"
      and n: "n = of_nat (min offset (length rs)) + of_nat (length (drop offset (rev rs)))"
      using collect_rev_collects [of offset "min offset (length rs)" cd limit "drop offset (rev rs)" 0 "of_nat (min offset (length rs))" "[]" ps n "drop offset (rev ?es)"]
      by (auto simp: option.map_ident page_def split: option.splits)
    then have "list_all2 (decodes cd) ps (page limit offset (rev ?es))" by (simp add: page_def split: option.splits)
    moreover have "min offset (length rs) + (length rs - offset) = length rs" by simp
    then have "n = of_nat (length rs)" unfolding n by (simp only: length_drop length_rev of_nat_add [symmetric])
    then have "unat n = length ?es mod 2 ^ 32" by (simp add: unat_of_nat len)
    ultimately show ?thesis by (simp add: r ts_result_of_def)
  qed
qed (use assms(2) in \<open>simp add: query_range_rev_impl_def\<close>)

theorem newest_first_pages_witness:
  "\<exists>r. query_range_rev_impl mem_series_db ts_codec (''a'', ''t'') I64_MIN 6400 (Some 5) 0 two_points = Inr r \<and>
    list_all2 (decodes ts_codec) (tr_points r) (page (Some 5) 0 (rev (entries_of (hm_get two_points |` window (''a'', ''t'') I64_MIN 6400)))) \<and>
    (tr_total_count r = Some (length (entries_of (hm_get two_points |` window (''a'', ''t'') I64_MIN 6400)) mod 2 ^ 32) \<or>
     hm_get two_points = Map.empty)"
proof -
  have "\<exists>r. query_range_rev_impl mem_series_db ts_codec (''a'', ''t'') I64_MIN 6400 (Some 5) 0 two_points = Inr r"
    by (simp add: query_range_rev_impl_def read_table_def series_range_scan_def mem_series_db_def two_points_scans below_def ts_codec_def)
      (simp add: two_points_def below_def)
  then obtain r where r: "query_range_rev_impl mem_series_db ts_codec (''a'', ''t'') I64_MIN 6400 (Some 5) 0 two_points = Inr r" by blast
  from r newest_first_pages [OF mem_series_laws r] show ?thesis by blast
qed

section \<open>Latest values\<close>

lemma newest_uncached:
  assumes "series_laws sd c" "query_latest_uncached sd cd s db = Inr r"
  shows "case r of
      None \<Rightarrow> entries_of (c db |` window s I64_MIN I64_MAX) = []
    | Some p \<Rightarrow> entries_of (c db |` window s I64_MIN I64_MAX) \<noteq> [] \<and> decodes cd p (last (entries_of (c db |` window s I64_MIN I64_MAX)))"
proof (cases "read_table sd db")
  case (Inr t)
  show ?thesis
  proof (cases t)
    case None
    with Inr assms read_table_contents(2) [OF assms(1)] show ?thesis by (simp add: query_latest_uncached_def entries_of_def)
  next
    case (Some t)
    with Inr assms(2) obtain rs where rs: "series_range_scan sd s I64_MIN I64_MAX t = Inr rs" and r: "last_point cd rs = Inr r"
      by (auto simp: query_latest_uncached_def newest_in_table_def)
    have "c t = c db" using read_table_contents(1) [OF assms(1)] Inr Some by blast
    then have reads: "list_all2 reads rs (entries_of (c db |` window s I64_MIN I64_MAX))"
      using scan_of_reference [OF series_range_scan_of [OF assms(1) rs]] by simp
    show ?thesis
    proof (cases "rs = []")
      case True
      with reads r show ?thesis by (auto simp: last_point_def)
    next
      case False
      with r obtain k v p where last: "last rs = Inr (k, v)" and p: "pc_from_slice cd v = Inr p" "r = Some p"
        by (auto simp: last_point_def split: prod.splits)
      have ne: "entries_of (c db |` window s I64_MIN I64_MAX) \<noteq> []" using reads False by auto
      have "reads (last rs) (last (entries_of (c db |` window s I64_MIN I64_MAX)))"
        using list_all2_nthD [OF reads, of "length rs - 1"] False ne list_all2_lengthD [OF reads] by (simp add: last_conv_nth)
      moreover note ne
      ultimately show ?thesis using last p by (simp add: decodes_def) (metis snd_conv)
    qed
  qed
qed (use assms(2) in \<open>simp add: query_latest_uncached_def\<close>)

lemma query_latest_result:
  "fst (query_latest sd cd mk now took s st) =
     (case fst (cached_latest mk now s st) of Some p \<Rightarrow> Inr (Some p) | None \<Rightarrow> query_latest_uncached sd cd s (ts_db st))"
  by (simp add: query_latest_def query_latest_uncached_def cached_latest_def split: prod.splits option.splits sum.splits)

text \<open>Until the cached value is too old, asking for the latest value of a series after a write to it gives the
  written point, or, when the cache has dropped it, the newest point of the table.\<close>

lemma latest_after_write:
  assumes "moka_laws mk held" "elapsed_since now' now < ts_cache_ttl st" "st' = snd (ts_write sd cd mk now stats_free took s p st)"
  shows "fst (query_latest sd cd mk now' took' s st') \<in> {Inr (Some p), query_latest_uncached sd cd s (ts_db st')}"
proof -
  define st1 where "st1 = (update_cache mk now s p st)\<lparr>ts_write_buffer := snd (wb_push (to_buffered s p) (ts_write_buffer st))\<rparr>"
  have "ts_latest_cache st1 = mk_insert mk s \<lparr>le_point = p, le_cached_at = now\<rparr> (ts_latest_cache st)" "ts_cache_ttl st1 = ts_cache_ttl st"
    by (simp_all add: st1_def update_cache_def)
  moreover have "st' = st1 \<or> st' = flush_buffer sd cd stats_free took st1"
    by (simp add: assms(3) ts_write_def Let_def case_prod_unfold st1_def update_cache_def)
  ultimately have st': "ts_latest_cache st' = mk_insert mk s \<lparr>le_point = p, le_cached_at = now\<rparr> (ts_latest_cache st)"
      "ts_cache_ttl st' = ts_cache_ttl st"
    using flush_buffer_cache [of sd cd stats_free took st1] by auto
  obtain e cache where get: "mk_get mk s (ts_latest_cache st') = (e, cache)" by fastforce
  have "held (ts_latest_cache st') \<subseteq>\<^sub>m (held (ts_latest_cache st))(s \<mapsto> \<lparr>le_point = p, le_cached_at = now\<rparr>)"
    using assms(1) unfolding moka_laws_def st'(1) by blast
  then have "held (ts_latest_cache st') s = None \<or> held (ts_latest_cache st') s = Some \<lparr>le_point = p, le_cached_at = now\<rparr>"
    unfolding map_le_def
    by (cases "held (ts_latest_cache st') s") (simp, drule bspec [of _ _ s], auto)
  moreover have "e = None \<or> e = held (ts_latest_cache st') s" using assms(1) get unfolding moka_laws_def by blast
  ultimately have "e = None \<or> e = Some \<lparr>le_point = p, le_cached_at = now\<rparr>" by auto
  then have "fst (cached_latest mk now' s st') \<in> {None, Some p}"
    using assms(2) st'(2) by (auto simp: cached_latest_def get)
  then show ?thesis unfolding query_latest_result by auto
qed

lemma latest_after_write_instance:
  "fst (query_latest mem_series_db ts_codec map_moka 9 1 (''a'', ''t'')
     (snd (ts_write mem_series_db ts_codec map_moka 5 True 1 (''a'', ''t'') (dp_new_bool 7 True) (buffered_store []))))
   \<in> {Inr (Some (dp_new_bool 7 True)),
      query_latest_uncached mem_series_db ts_codec (''a'', ''t'')
        (ts_db (snd (ts_write mem_series_db ts_codec map_moka 5 True 1 (''a'', ''t'') (dp_new_bool 7 True) (buffered_store []))))}"
proof -
  have "elapsed_since 9 5 < ts_cache_ttl (buffered_store [])"
    by (simp add: elapsed_since_def buffered_store_def fresh_store_def ts_config_default_def from_secs_def)
  then show ?thesis by (rule latest_after_write [OF map_moka_laws _ refl])
qed

text \<open>A late point, one with an older time stamp than a point already stored, replaces the cached latest value.\<close>

lemma late_point_becomes_latest:
  "fst (query_latest mem_series_db ts_codec map_moka 9 1 (''a'', ''t'')
     (snd (ts_write mem_series_db ts_codec map_moka 5 True 1 (''a'', ''t'') (dp_new_bool 7 True)
       ((buffered_store [])\<lparr>ts_db := two_points\<rparr>)))) = Inr (Some (dp_new_bool 7 True))"
  by (simp add: query_latest_def cached_latest_def ts_write_def update_cache_def map_moka_def wb_push_def
      buffered_store_def fresh_store_def wb_new_def ts_config_default_def from_secs_def elapsed_since_def)

section \<open>Listing metrics\<close>

text \<open>Before anything is written the listing of a source comes from the table: the metrics it has points of, up to the
  character \<open>U+00FF\<close>.\<close>

lemma listing_from_table:
  assumes "series_laws sd c" "indexed_metrics source (ts_metrics_info st) = []" "list_metrics sd source st = (Inr ms, st')"
  shows "set ms = {m. \<exists>t v. c (ts_db st) (source, m, t) = Some v \<and> (source, [], I64_MIN) \<le> (source, m, t) \<and> (source, m, t) \<le> (source, U_FF, I64_MAX)}"
proof -
  obtain r where r: "read_table sd (ts_db st) = Inr r"
    using assms(2,3) by (cases "read_table sd (ts_db st)") (simp_all add: list_metrics_def Let_def)
  show ?thesis
  proof (cases r)
    case None
    with r assms(2,3) read_table_contents(2) [OF assms(1)] show ?thesis by (simp add: list_metrics_def Let_def)
  next
    case (Some t)
    let ?w = "{(source, [], I64_MIN)..(source, U_FF, I64_MAX)}"
    obtain rs kvs where rs: "sd_range sd (source, [], I64_MIN) (source, U_FF, I64_MAX) t = Inr rs" "rs = map Inr kvs"
      and ms: "ms = remdups (map (\<lambda>((_, m, _), _). m) kvs)"
      using assms(2,3) r Some by (auto simp: list_metrics_def Let_def collect_results_Inr_iff split: sum.splits)
    have kvs: "ascending kvs" "map_of kvs = c (ts_db st) |` ?w"
      using series_range [OF assms(1) rs(1)] unfolding rs(2) scan_of_entries read_table_contents(1) [OF assms(1) r [unfolded Some]] by blast+
    have mem: "(k, v) \<in> set kvs \<longleftrightarrow> c (ts_db st) k = Some v \<and> k \<in> ?w" for k v
      using hm_get_Some_iff [OF ascending_distinct [OF kvs(1)], of k v] kvs(2) by (auto simp: restrict_map_def split: if_splits)
    have src: "fst k = source" if "k \<in> ?w" for k using that by (cases k) (auto simp: less_eq_prod_def)
    have ms_set: "set ms = (\<lambda>(k, v). fst (snd k)) ` set kvs" by (simp add: ms case_prod_unfold)
    show ?thesis
    proof (intro set_eqI iffI)
      fix m
      assume "m \<in> set ms"
      then obtain k v where "(k, v) \<in> set kvs" and m: "m = fst (snd k)" unfolding ms_set by auto
      then have kv: "c (ts_db st) k = Some v" "k \<in> ?w" using mem by blast+
      have "k = (source, m, snd (snd k))" using src [OF kv(2)] m by (cases k) simp
      with kv show "m \<in> {m. \<exists>t v. c (ts_db st) (source, m, t) = Some v \<and> (source, [], I64_MIN) \<le> (source, m, t) \<and> (source, m, t) \<le> (source, U_FF, I64_MAX)}"
        by (metis (mono_tags, lifting) atLeastAtMost_iff mem_Collect_eq)
    next
      fix m
      assume "m \<in> {m. \<exists>t v. c (ts_db st) (source, m, t) = Some v \<and> (source, [], I64_MIN) \<le> (source, m, t) \<and> (source, m, t) \<le> (source, U_FF, I64_MAX)}"
      then obtain t v where "((source, m, t), v) \<in> set kvs" using mem by auto
      then show "m \<in> set ms" unfolding ms_set by (rule rev_image_eqI) simp
    qed
  qed
qed

text \<open>After a restart the index is empty, and the first write to a source hides every metric of the source that is
  stored but has not been written since.\<close>

definition restarted :: "(mem_series, map_cache) ts_store" where
  "restarted = (buffered_store [])\<lparr>ts_db := two_points\<rparr>"

lemma stored_metric_hidden:
  "fst (list_metrics mem_series_db ''a'' restarted) = Inr [''t'']"
  "fst (list_metrics mem_series_db ''a'' (snd (ts_write_batch mem_series_db ts_codec 0 (''a'', ''u'') [dp_new_bool 20 True] restarted))) = Inr [''u'']"
proof -
  have scan: "mem_scan (\<lambda>k. (''a'', [], I64_MIN) \<le> k \<and> k \<le> (''a'', U_FF, I64_MAX)) two_points = two_points"
    by (simp add: mem_scan_def two_points_def less_eq_prod_def less_prod_def U_FF_def I64_MIN_def I64_MAX_def)
  show "fst (list_metrics mem_series_db ''a'' restarted) = Inr [''t'']"
    by (simp add: list_metrics_def restarted_def buffered_store_def fresh_store_def indexed_metrics_def List.map_filter_simps
        read_table_def mem_series_db_def scan) (simp add: two_points_def)
  have "indexed_metrics ''a'' (note_metric 0 (''a'', ''u'') [dp_new_bool 20 True] []) = [''u'']"
    by (simp add: indexed_metrics_def note_metric_def metric_key_def List.map_filter_simps strip_prefix_def)
  then show "fst (list_metrics mem_series_db ''a'' (snd (ts_write_batch mem_series_db ts_codec 0 (''a'', ''u'') [dp_new_bool 20 True] restarted))) = Inr [''u'']"
    by (simp add: list_metrics_def ts_write_batch_def in_write_txn_def mem_series_db_def ts_codec_def dp_new_bool_def
        dp_new_with_value_def restarted_def buffered_store_def fresh_store_def timestamp_def)
qed

end
