(* ===== verification/ExtensionSafety.thy ===== *)
theory ExtensionSafety
  imports Prelude
begin

text \<open>
  The safety manager of the extension host (\<open>heramind-core/src/extension/safety.rs\<close>): one
  circuit breaker per extension, a table of disabled extensions and a table of panic counts.

  The methods of a breaker are taken as atomic steps; their interleaving is the order of the
  steps. Wall-clock readings in seconds (\<open>now\<close>) and the monotonic clock (\<open>inst\<close>) are arguments.
  Counters keep their width of 32 bits, so that \<open>fetch_add\<close> wraps as it does in the source.
\<close>

section \<open>The circuit breaker\<close>

datatype circuit_state = CircuitClosed | CircuitOpen | CircuitHalfOpen

definition circuit_u8 :: "circuit_state \<Rightarrow> 8 word" where
  "circuit_u8 s = (case s of CircuitClosed \<Rightarrow> 0 | CircuitOpen \<Rightarrow> 1 | CircuitHalfOpen \<Rightarrow> 2)"

record circuit_breaker =
  cb_state :: "8 word"
  failure_count :: u32
  success_count :: u32
  last_state_change :: nat
  failure_threshold :: u32
  success_threshold :: u32
  cooldown_secs :: nat
  cb_extension_id :: string

definition breaker_new :: "nat \<Rightarrow> string \<Rightarrow> u32 \<Rightarrow> u32 \<Rightarrow> nat \<Rightarrow> circuit_breaker" where
  "breaker_new now ext ft st cd =
     \<lparr>cb_state = circuit_u8 CircuitClosed, failure_count = 0, success_count = 0, last_state_change = now,
      failure_threshold = ft, success_threshold = st, cooldown_secs = cd, cb_extension_id = ext\<rparr>"

definition breaker_with_defaults :: "nat \<Rightarrow> string \<Rightarrow> circuit_breaker" where
  "breaker_with_defaults now ext = breaker_new now ext 5 2 60"

definition get_circuit_state :: "circuit_breaker \<Rightarrow> circuit_state" where
  "get_circuit_state b =
     (if cb_state b = 0 then CircuitClosed else if cb_state b = 1 then CircuitOpen
      else if cb_state b = 2 then CircuitHalfOpen else CircuitClosed)"

definition set_circuit_state :: "nat \<Rightarrow> circuit_state \<Rightarrow> circuit_breaker \<Rightarrow> circuit_breaker" where
  "set_circuit_state now s b = b\<lparr>last_state_change := now, cb_state := circuit_u8 s\<rparr>"

definition allow_request :: "nat \<Rightarrow> circuit_breaker \<Rightarrow> bool \<times> circuit_breaker" where
  "allow_request now b =
     (case get_circuit_state b of
        CircuitClosed \<Rightarrow> (True, b)
      | CircuitOpen \<Rightarrow>
          if cooldown_secs b \<le> now - last_state_change b
          then (True, (set_circuit_state now CircuitHalfOpen b)\<lparr>success_count := 0\<rparr>)
          else (False, b)
      | CircuitHalfOpen \<Rightarrow> (True, b))"

definition breaker_success :: "nat \<Rightarrow> circuit_breaker \<Rightarrow> circuit_breaker" where
  "breaker_success now b =
     (case get_circuit_state b of
        CircuitHalfOpen \<Rightarrow>
          let successes = success_count b + 1; b = b\<lparr>success_count := successes\<rparr> in
          if success_threshold b \<le> successes
          then (set_circuit_state now CircuitClosed b)\<lparr>failure_count := 0, success_count := 0\<rparr>
          else b
      | CircuitClosed \<Rightarrow> b\<lparr>failure_count := 0\<rparr>
      | CircuitOpen \<Rightarrow> (set_circuit_state now CircuitHalfOpen b)\<lparr>success_count := 1\<rparr>)"

definition breaker_failure :: "nat \<Rightarrow> circuit_breaker \<Rightarrow> circuit_breaker" where
  "breaker_failure now b =
     (let failures = failure_count b + 1; b = b\<lparr>failure_count := failures\<rparr> in
      case get_circuit_state b of
        CircuitHalfOpen \<Rightarrow>
          (set_circuit_state now CircuitOpen b)\<lparr>failure_count := failure_threshold b\<rparr>
      | CircuitClosed \<Rightarrow> if failure_threshold b \<le> failures then set_circuit_state now CircuitOpen b else b
      | CircuitOpen \<Rightarrow> b)"

definition breaker_reset :: "nat \<Rightarrow> circuit_breaker \<Rightarrow> circuit_breaker" where
  "breaker_reset now b = (set_circuit_state now CircuitClosed b)\<lparr>failure_count := 0, success_count := 0\<rparr>"

definition breaker_is_open :: "circuit_breaker \<Rightarrow> bool" where
  "breaker_is_open b = (get_circuit_state b = CircuitOpen)"

section \<open>The safety manager\<close>

record disabled_info =
  dis_reason :: string
  disabled_at :: instant
  can_auto_recover :: bool

record panic_info =
  pi_count :: u32
  last_panic :: instant

record safety_manager =
  sm_breakers :: "(string, circuit_breaker) hash_map"
  sm_disabled :: "(string, disabled_info) hash_map"
  sm_panics :: "(string, panic_info) hash_map"

definition safety_new :: safety_manager where
  "safety_new = \<lparr>sm_breakers = [], sm_disabled = [], sm_panics = []\<rparr>"

definition safety_register :: "nat \<Rightarrow> string \<Rightarrow> safety_manager \<Rightarrow> safety_manager" where
  "safety_register now ext sm =
     sm\<lparr>sm_breakers := hm_insert ext (breaker_with_defaults now ext) (sm_breakers sm)\<rparr>"

definition safety_unregister :: "string \<Rightarrow> safety_manager \<Rightarrow> safety_manager" where
  "safety_unregister ext sm =
     sm\<lparr>sm_breakers := hm_remove ext (sm_breakers sm), sm_disabled := hm_remove ext (sm_disabled sm),
        sm_panics := hm_remove ext (sm_panics sm)\<rparr>"

text \<open>\<open>breakers.read().await.get(id)\<close> gives a shared breaker, on which the method then acts.\<close>

definition on_breaker :: "string \<Rightarrow> (circuit_breaker \<Rightarrow> circuit_breaker) \<Rightarrow> safety_manager \<Rightarrow> safety_manager" where
  "on_breaker ext f sm =
     (case hm_get (sm_breakers sm) ext of
        None \<Rightarrow> sm
      | Some b \<Rightarrow> sm\<lparr>sm_breakers := hm_insert ext (f b) (sm_breakers sm)\<rparr>)"

definition enable_extension :: "nat \<Rightarrow> string \<Rightarrow> safety_manager \<Rightarrow> safety_manager" where
  "enable_extension now ext sm =
     (case hm_get (sm_disabled sm) ext of
        None \<Rightarrow> sm
      | Some _ \<Rightarrow>
          (on_breaker ext (breaker_reset now) (sm\<lparr>sm_disabled := hm_remove ext (sm_disabled sm)\<rparr>))
            \<lparr>sm_panics := hm_remove ext (sm_panics sm)\<rparr>)"

definition disable_extension :: "instant \<Rightarrow> string \<Rightarrow> string \<Rightarrow> bool \<Rightarrow> safety_manager \<Rightarrow> safety_manager" where
  "disable_extension inst ext reason recover sm =
     sm\<lparr>sm_disabled := hm_insert ext
          \<lparr>dis_reason = reason, disabled_at = inst, can_auto_recover = recover\<rparr> (sm_disabled sm)\<rparr>"

text \<open>
  \<open>is_allowed\<close> keeps the read guard of \<open>disabled\<close> alive through the body of its \<open>if let\<close>, and the
  auto-recovery in that body calls \<open>enable_extension\<close>, which waits for the write guard of the same
  lock. The write guard is never granted while the read guard is held by the waiting task itself:
  \<open>None\<close> stands for a call that never returns.
\<close>

definition is_allowed :: "nat \<Rightarrow> instant \<Rightarrow> string \<Rightarrow> safety_manager \<Rightarrow> (bool \<times> safety_manager) option" where
  "is_allowed now inst ext sm =
     (case hm_get (sm_disabled sm) ext of
        Some info \<Rightarrow>
          if can_auto_recover info \<and> from_secs 300 < elapsed_since inst (disabled_at info) then None
          else Some (False, sm)
      | None \<Rightarrow>
          (case hm_get (sm_breakers sm) ext of
             None \<Rightarrow> Some (True, sm)
           | Some b \<Rightarrow>
               let (ok, b') = allow_request now b in
               Some (ok, sm\<lparr>sm_breakers := hm_insert ext b' (sm_breakers sm)\<rparr>)))"

definition safety_success :: "nat \<Rightarrow> string \<Rightarrow> safety_manager \<Rightarrow> safety_manager" where
  "safety_success now ext = on_breaker ext (breaker_success now)"

definition safety_failure :: "nat \<Rightarrow> string \<Rightarrow> safety_manager \<Rightarrow> safety_manager" where
  "safety_failure now ext = on_breaker ext (breaker_failure now)"

definition record_panic :: "instant \<Rightarrow> string \<Rightarrow> safety_manager \<Rightarrow> safety_manager" where
  "record_panic inst ext sm =
     (let info = (case hm_get (sm_panics sm) ext of
                    None \<Rightarrow> \<lparr>pi_count = 0, last_panic = inst\<rparr> | Some i \<Rightarrow> i);
          info = info\<lparr>pi_count := pi_count info + 1, last_panic := inst\<rparr>;
          sm = sm\<lparr>sm_panics := hm_insert ext info (sm_panics sm)\<rparr> in
      if 3 \<le> pi_count info
      then disable_extension inst ext ''Too many panics (circuit breaker triggered)'' False sm
      else sm)"

record safety_status =
  st_extension_id :: string
  circuit_state_of :: "circuit_state option"
  st_failure_count :: u32
  is_disabled :: bool
  disable_reason :: "string option"
  st_panic_count :: u32

definition extension_status :: "safety_manager \<Rightarrow> string \<Rightarrow> safety_status" where
  "extension_status sm ext =
     (let b = hm_get (sm_breakers sm) ext; d = hm_get (sm_disabled sm) ext; p = hm_get (sm_panics sm) ext in
      \<lparr>st_extension_id = ext, circuit_state_of = map_option get_circuit_state b,
       st_failure_count = unwrap_or (map_option failure_count b) 0,
       is_disabled = (d \<noteq> None), disable_reason = map_option dis_reason d,
       st_panic_count = unwrap_or (map_option pi_count p) 0\<rparr>)"

definition safety_get_status :: "safety_manager \<Rightarrow> (string, safety_status) hash_map" where
  "safety_get_status sm =
     map (\<lambda>ext. (ext, extension_status sm ext))
       (remdups (map fst (sm_breakers sm) @ map fst (sm_disabled sm) @ map fst (sm_panics sm)))"

definition get_breaker :: "safety_manager \<Rightarrow> string \<Rightarrow> circuit_breaker option" where
  "get_breaker sm ext = hm_get (sm_breakers sm) ext"

section \<open>Runs of the safety manager\<close>

datatype safety_op =
    RegisterOp nat string
  | UnregisterOp string
  | AllowOp nat instant string
  | SuccessOp nat string
  | FailureOp nat string
  | PanicOp instant string
  | DisableOp instant string string bool
  | EnableOp nat string

inductive safety_step :: "safety_manager \<Rightarrow> safety_op \<Rightarrow> safety_manager \<Rightarrow> bool" where
  step_register: "safety_step sm (RegisterOp now ext) (safety_register now ext sm)"
| step_unregister: "safety_step sm (UnregisterOp ext) (safety_unregister ext sm)"
| step_allow: "is_allowed now inst ext sm = Some (ok, sm') \<Longrightarrow> safety_step sm (AllowOp now inst ext) sm'"
| step_success: "safety_step sm (SuccessOp now ext) (safety_success now ext sm)"
| step_failure: "safety_step sm (FailureOp now ext) (safety_failure now ext sm)"
| step_panic: "safety_step sm (PanicOp inst ext) (record_panic inst ext sm)"
| step_disable: "safety_step sm (DisableOp inst ext reason recover) (disable_extension inst ext reason recover sm)"
| step_enable: "safety_step sm (EnableOp now ext) (enable_extension now ext sm)"

inductive safety_run :: "safety_manager \<Rightarrow> safety_op list \<Rightarrow> safety_manager \<Rightarrow> bool" where
  run_nil: "safety_run sm [] sm"
| run_cons: "safety_step sm op sm' \<Longrightarrow> safety_run sm' ops sm'' \<Longrightarrow> safety_run sm (op # ops) sm''"

inductive_cases safety_run_NilE: "safety_run sm [] sm'"
inductive_cases safety_run_ConsE: "safety_run sm (op # ops) sm'"

text \<open>What every breaker of the manager satisfies: the default thresholds, one of the three state
  codes, and counters below the threshold that would have ended the state.\<close>

definition breaker_ok :: "circuit_breaker \<Rightarrow> bool" where
  "breaker_ok b \<longleftrightarrow>
     failure_threshold b = 5 \<and> success_threshold b = 2 \<and> cooldown_secs b = 60 \<and>
     cb_state b \<in> {0, 1, 2} \<and>
     (get_circuit_state b = CircuitClosed \<longrightarrow> failure_count b < 5) \<and>
     (get_circuit_state b = CircuitHalfOpen \<longrightarrow> success_count b < 2)"

definition safety_ok :: "safety_manager \<Rightarrow> bool" where
  "safety_ok sm \<longleftrightarrow> (\<forall>ext b. hm_get (sm_breakers sm) ext = Some b \<longrightarrow> breaker_ok b)"

section \<open>Lemmas\<close>

lemma get_set_circuit_state [simp]: "get_circuit_state (set_circuit_state now s b) = s"
  by (cases s) (simp_all add: get_circuit_state_def set_circuit_state_def circuit_u8_def)

lemma get_circuit_state_counts [simp]:
  "get_circuit_state (b\<lparr>failure_count := n\<rparr>) = get_circuit_state b"
  "get_circuit_state (b\<lparr>success_count := n\<rparr>) = get_circuit_state b"
  by (simp_all add: get_circuit_state_def)

lemma set_circuit_state_fields [simp]:
  "failure_count (set_circuit_state now s b) = failure_count b"
  "success_count (set_circuit_state now s b) = success_count b"
  "failure_threshold (set_circuit_state now s b) = failure_threshold b"
  "success_threshold (set_circuit_state now s b) = success_threshold b"
  "cooldown_secs (set_circuit_state now s b) = cooldown_secs b"
  "last_state_change (set_circuit_state now s b) = now"
  "cb_state (set_circuit_state now s b) = circuit_u8 s"
  by (simp_all add: set_circuit_state_def)

lemma circuit_u8_code [simp]: "circuit_u8 s = 0 \<or> circuit_u8 s = 1 \<or> circuit_u8 s = 2"
  by (cases s) (simp_all add: circuit_u8_def)

lemmas breaker_defs =
  breaker_new_def breaker_with_defaults_def allow_request_def breaker_success_def breaker_failure_def
  breaker_reset_def breaker_ok_def

lemma breaker_ok_new: "breaker_ok (breaker_with_defaults now ext)"
  by (simp add: breaker_defs circuit_u8_def)

lemma breaker_ok_allow: "breaker_ok b \<Longrightarrow> breaker_ok (snd (allow_request now b))"
  by (cases "get_circuit_state b") (auto simp: breaker_defs)

lemma breaker_ok_success: "breaker_ok b \<Longrightarrow> breaker_ok (breaker_success now b)"
  by (cases "get_circuit_state b") (auto simp: breaker_defs Let_def not_le)

lemma breaker_ok_failure: "breaker_ok b \<Longrightarrow> breaker_ok (breaker_failure now b)"
  by (cases "get_circuit_state b") (auto simp: breaker_defs Let_def not_le)

lemma breaker_ok_reset: "breaker_ok (breaker_reset now b)" if "breaker_ok b"
  using that by (auto simp: breaker_defs)

lemmas safety_defs =
  safety_register_def safety_unregister_def safety_success_def safety_failure_def on_breaker_def
  disable_extension_def enable_extension_def

lemma on_breaker_get:
  "hm_get (sm_breakers (on_breaker e f sm)) ext =
     (if ext = e then map_option f (hm_get (sm_breakers sm) e) else hm_get (sm_breakers sm) ext)"
  by (auto simp: on_breaker_def split: option.splits)

lemma on_breaker_others [simp]:
  "sm_disabled (on_breaker e f sm) = sm_disabled sm"
  "sm_panics (on_breaker e f sm) = sm_panics sm"
  by (auto simp: on_breaker_def split: option.splits)

lemma record_panic_breakers [simp]: "sm_breakers (record_panic inst e sm) = sm_breakers sm"
  by (simp add: record_panic_def disable_extension_def Let_def)

lemma is_allowed_cases:
  assumes "is_allowed now inst ext sm = Some (ok, sm')"
  obtains (refused) "hm_get (sm_disabled sm) ext \<noteq> None" "ok = False" "sm' = sm"
    | (unknown) "hm_get (sm_disabled sm) ext = None" "hm_get (sm_breakers sm) ext = None" "ok = True" "sm' = sm"
    | (asked) b where "hm_get (sm_disabled sm) ext = None" "hm_get (sm_breakers sm) ext = Some b"
        "ok = fst (allow_request now b)" "sm' = on_breaker ext (\<lambda>b. snd (allow_request now b)) sm"
  using assms by (auto simp: is_allowed_def on_breaker_def split: option.splits if_splits prod.splits)

text \<open>The breaker and the panic entry of one extension, step by step.\<close>

fun breaker_after :: "string \<Rightarrow> safety_op \<Rightarrow> circuit_breaker \<Rightarrow> circuit_breaker" where
  "breaker_after ext (RegisterOp now e) b = (if e = ext then breaker_with_defaults now e else b)"
| "breaker_after ext (AllowOp now _ e) b = (if e = ext then snd (allow_request now b) else b)"
| "breaker_after ext (SuccessOp now e) b = (if e = ext then breaker_success now b else b)"
| "breaker_after ext (FailureOp now e) b = (if e = ext then breaker_failure now b else b)"
| "breaker_after ext (EnableOp now e) b = (if e = ext then breaker_reset now b else b)"
| "breaker_after ext _ b = b"

lemma step_breaker:
  assumes "safety_step sm op sm'" and "hm_get (sm_breakers sm') ext = Some b'"
  shows "(\<exists>now. op = RegisterOp now ext \<and> b' = breaker_with_defaults now ext)
       \<or> (\<exists>b. hm_get (sm_breakers sm) ext = Some b \<and> (b' = b \<or> b' = breaker_after ext op b))"
  using assms
proof cases
  case (step_allow now inst e ok)
  from step_allow(2) show ?thesis
    by (cases rule: is_allowed_cases) (use step_allow assms(2) in \<open>auto simp: on_breaker_get split: if_splits\<close>)
next
  case (step_enable now e)
  then show ?thesis using assms(2)
    by (auto simp: enable_extension_def on_breaker_get split: if_splits option.splits)
qed (use assms(2) in \<open>auto simp: safety_defs on_breaker_get split: if_splits option.splits\<close>)

lemma breaker_ok_after: "breaker_ok b \<Longrightarrow> breaker_ok (breaker_after ext op b)"
  by (cases op) (auto intro: breaker_ok_new breaker_ok_allow breaker_ok_success breaker_ok_failure breaker_ok_reset)

lemma safety_ok_step: "safety_step sm op sm' \<Longrightarrow> safety_ok sm \<Longrightarrow> safety_ok sm'"
  unfolding safety_ok_def using step_breaker breaker_ok_after breaker_ok_new by metis

lemma safety_ok_run: "safety_run sm ops sm' \<Longrightarrow> safety_ok sm \<Longrightarrow> safety_ok sm'"
  by (induction rule: safety_run.induct) (auto intro: safety_ok_step)

text \<open>Steps that leave the extension's circuit to failures and elapsed time alone.\<close>

fun unhelped :: "string \<Rightarrow> safety_op \<Rightarrow> bool" where
  "unhelped ext (RegisterOp _ e) = (e \<noteq> ext)"
| "unhelped ext (UnregisterOp e) = (e \<noteq> ext)"
| "unhelped ext (SuccessOp _ e) = (e \<noteq> ext)"
| "unhelped ext (EnableOp _ e) = (e \<noteq> ext)"
| "unhelped ext _ = True"

fun asked_before :: "nat \<Rightarrow> string \<Rightarrow> safety_op \<Rightarrow> bool" where
  "asked_before t ext (AllowOp now _ e) = (e = ext \<longrightarrow> now < t)"
| "asked_before t ext _ = True"

fun is_failure :: "string \<Rightarrow> safety_op \<Rightarrow> bool" where
  "is_failure ext (FailureOp _ e) = (e = ext)"
| "is_failure ext _ = False"

lemma unhelped_keeps_breaker:
  assumes "safety_step sm op sm'" and "unhelped ext op" and "hm_get (sm_breakers sm) ext = Some b"
  shows "\<exists>b'. hm_get (sm_breakers sm') ext = Some b'
           \<and> (b' = breaker_after ext op b \<or> b' = b \<and> (\<exists>now inst. op = AllowOp now inst ext))"
  using assms
proof cases
  case (step_allow now inst e ok)
  from step_allow(2) show ?thesis
    by (cases rule: is_allowed_cases) (use step_allow assms in \<open>auto simp: on_breaker_get split: if_splits\<close>)
qed (use assms(2,3) in \<open>auto simp: safety_defs on_breaker_get Let_def split: if_splits option.splits\<close>)

definition open_since :: "nat \<Rightarrow> circuit_breaker \<Rightarrow> bool" where
  "open_since t b \<longleftrightarrow> get_circuit_state b = CircuitOpen \<and> last_state_change b = t \<and> cooldown_secs b = 60"

lemma open_since_after:
  assumes "open_since t b" "unhelped ext op" "asked_before (t + 60) ext op"
  shows "open_since t (breaker_after ext op b)"
  using assms by (cases op) (auto simp: open_since_def allow_request_def breaker_failure_def Let_def)

lemma open_since_run:
  assumes "safety_run sm ops sm'" "hm_get (sm_breakers sm) ext = Some b" "open_since t b"
    and "list_all (unhelped ext) ops" "list_all (asked_before (t + 60) ext) ops"
  shows "\<exists>b'. hm_get (sm_breakers sm') ext = Some b' \<and> open_since t b'"
  using assms
proof (induction arbitrary: b rule: safety_run.induct)
  case (run_cons sm op sm' ops sm'')
  then obtain b' where "hm_get (sm_breakers sm') ext = Some b'" "open_since t b'"
    using unhelped_keeps_breaker [OF run_cons.hyps(1), of ext b] open_since_after [of t b ext op] by auto
  with run_cons show ?case by auto
qed auto

text \<open>Failures with no help: as long as the circuit is closed, every failure has been counted.\<close>

definition counted :: "nat \<Rightarrow> circuit_breaker \<Rightarrow> bool" where
  "counted n b \<longleftrightarrow> breaker_ok b \<and> (get_circuit_state b = CircuitClosed \<longrightarrow> n \<le> unat (failure_count b))"

lemma unat_succ_small: "unat (n :: u32) < 5 \<Longrightarrow> unat (n + 1) = unat n + 1"
  by (simp add: unat_word_ariths)

lemma counted_after:
  assumes "counted n b" "unhelped ext op"
  shows "counted (if is_failure ext op then n + 1 else n) (breaker_after ext op b)"
proof (cases "get_circuit_state b = CircuitClosed \<and> is_failure ext op")
  case True
  then obtain now where op: "op = FailureOp now ext" by (cases op) auto
  from True assms(1) have "unat (failure_count b) < 5"
    by (simp add: counted_def breaker_ok_def word_less_nat_alt)
  with True assms(1) op breaker_ok_after [of b ext op] show ?thesis
    by (auto simp: counted_def breaker_failure_def Let_def unat_succ_small)
next
  case False
  with assms breaker_ok_after [of b ext op] show ?thesis
    by (cases op; cases "get_circuit_state b")
       (auto simp: counted_def allow_request_def breaker_failure_def Let_def)
qed

lemma counted_run:
  assumes "safety_run sm ops sm'" "hm_get (sm_breakers sm) ext = Some b" "counted n b"
    and "list_all (unhelped ext) ops"
  shows "\<exists>b'. hm_get (sm_breakers sm') ext = Some b' \<and> counted (n + length (filter (is_failure ext) ops)) b'"
  using assms
proof (induction arbitrary: b n rule: safety_run.induct)
  case (run_cons sm op sm' ops sm'')
  from run_cons.prems(3) have u: "unhelped ext op" by simp
  obtain b' where b': "hm_get (sm_breakers sm') ext = Some b'" "counted (if is_failure ext op then n + 1 else n) b'"
    using unhelped_keeps_breaker [OF run_cons.hyps(1) u run_cons.prems(1)] counted_after [OF run_cons.prems(2) u]
      run_cons.prems(2) by (metis is_failure.simps(4))
  show ?case using run_cons.IH [OF b'] run_cons.prems(3) by (auto split: if_splits)
qed auto

text \<open>Panics: an extension that is disabled for good stays so until it is enabled or unregistered.\<close>

fun keeps_disabled :: "string \<Rightarrow> safety_op \<Rightarrow> bool" where
  "keeps_disabled ext (UnregisterOp e) = (e \<noteq> ext)"
| "keeps_disabled ext (EnableOp _ e) = (e \<noteq> ext)"
| "keeps_disabled ext (DisableOp _ e _ recover) = (e = ext \<longrightarrow> \<not> recover)"
| "keeps_disabled ext _ = True"

fun is_panic :: "string \<Rightarrow> safety_op \<Rightarrow> bool" where
  "is_panic ext (PanicOp _ e) = (e = ext)"
| "is_panic ext _ = False"

definition panics_of :: "safety_manager \<Rightarrow> string \<Rightarrow> nat" where
  "panics_of sm ext = (case hm_get (sm_panics sm) ext of None \<Rightarrow> 0 | Some i \<Rightarrow> unat (pi_count i))"

definition shut_out :: "safety_manager \<Rightarrow> string \<Rightarrow> bool" where
  "shut_out sm ext \<longleftrightarrow> (\<exists>i. hm_get (sm_disabled sm) ext = Some i \<and> \<not> can_auto_recover i)"

definition panic_progress :: "nat \<Rightarrow> safety_manager \<Rightarrow> string \<Rightarrow> bool" where
  "panic_progress n sm ext \<longleftrightarrow> shut_out sm ext \<or> panics_of sm ext < 3 \<and> n \<le> panics_of sm ext"

lemma record_panic_other: "e \<noteq> ext \<Longrightarrow>
  hm_get (sm_disabled (record_panic inst e sm)) ext = hm_get (sm_disabled sm) ext \<and>
  hm_get (sm_panics (record_panic inst e sm)) ext = hm_get (sm_panics sm) ext"
  by (simp add: record_panic_def disable_extension_def Let_def)

lemma record_panic_same:
  assumes "panics_of sm ext < 3"
  shows "panics_of sm ext = 2 \<and> shut_out (record_panic inst ext sm) ext
       \<or> panics_of (record_panic inst ext sm) ext = panics_of sm ext + 1 \<and> panics_of sm ext < 2"
  using assms
  by (auto simp: record_panic_def disable_extension_def Let_def panics_of_def shut_out_def
      unat_succ_small word_le_nat_alt split: option.splits)

lemma record_panic_shut_out: "shut_out sm ext \<Longrightarrow> shut_out (record_panic inst e sm) ext"
  by (auto simp: record_panic_def disable_extension_def Let_def shut_out_def)

lemma panic_progress_step:
  assumes "safety_step sm op sm'" "keeps_disabled ext op" "panic_progress n sm ext"
  shows "panic_progress (if is_panic ext op then n + 1 else n) sm' ext"
  using assms
proof cases
  case (step_allow now inst e ok)
  from step_allow(2) show ?thesis
    by (cases rule: is_allowed_cases) (use step_allow assms(3) in \<open>auto simp: panic_progress_def shut_out_def panics_of_def\<close>)
next
  case (step_panic inst e)
  then show ?thesis
    using assms(3) record_panic_other [of e ext inst sm] record_panic_same [of sm ext inst] record_panic_shut_out [of sm ext inst e]
    by (cases "e = ext") (auto simp: panic_progress_def shut_out_def panics_of_def)
next
  case (step_enable now e)
  then show ?thesis using assms(2,3)
    by (auto simp: enable_extension_def panic_progress_def shut_out_def panics_of_def split: option.splits)
qed (use assms(2,3) in \<open>auto simp: safety_defs panic_progress_def shut_out_def panics_of_def split: option.splits\<close>)

lemma panic_progress_run:
  assumes "safety_run sm ops sm'" "panic_progress n sm ext" "list_all (keeps_disabled ext) ops"
  shows "panic_progress (n + length (filter (is_panic ext) ops)) sm' ext"
  using assms
proof (induction arbitrary: n rule: safety_run.induct)
  case (run_cons sm op sm' ops sm'')
  have "panic_progress (if is_panic ext op then n + 1 else n) sm' ext"
    using panic_progress_step [OF run_cons.hyps(1)] run_cons.prems by simp
  from run_cons.IH [OF this] run_cons.prems(2) show ?case by (auto split: if_splits)
qed simp

fun keeps_entry :: "string \<Rightarrow> safety_op \<Rightarrow> bool" where
  "keeps_entry ext (UnregisterOp e) = (e \<noteq> ext)"
| "keeps_entry ext (EnableOp _ e) = (e \<noteq> ext)"
| "keeps_entry ext _ = True"

lemma disabled_entry_step:
  assumes "safety_step sm op sm'" "keeps_entry ext op" "hm_get (sm_disabled sm) ext \<noteq> None"
  shows "hm_get (sm_disabled sm') ext \<noteq> None"
  using assms
proof cases
  case (step_allow now inst e ok)
  from step_allow(2) show ?thesis
    by (cases rule: is_allowed_cases) (use assms(3) in auto)
qed (use assms(2,3) in \<open>auto simp: safety_defs record_panic_def Let_def split: option.splits\<close>)

lemma disabled_entry_run:
  "safety_run sm ops sm' \<Longrightarrow> list_all (keeps_entry ext) ops \<Longrightarrow> hm_get (sm_disabled sm) ext \<noteq> None \<Longrightarrow>
   hm_get (sm_disabled sm') ext \<noteq> None"
proof (induction rule: safety_run.induct)
  case (run_cons sm op sm' ops sm'')
  with disabled_entry_step [of sm op sm' ext] show ?case by simp
qed simp

text \<open>Executable runs, for concrete inputs.\<close>

fun safety_exec :: "safety_op list \<Rightarrow> safety_manager \<Rightarrow> safety_manager option" where
  "safety_exec [] sm = Some sm"
| "safety_exec (op # ops) sm =
     (case op of
        RegisterOp now ext \<Rightarrow> safety_exec ops (safety_register now ext sm)
      | UnregisterOp ext \<Rightarrow> safety_exec ops (safety_unregister ext sm)
      | AllowOp now inst ext \<Rightarrow>
          (case is_allowed now inst ext sm of None \<Rightarrow> None | Some (_, sm') \<Rightarrow> safety_exec ops sm')
      | SuccessOp now ext \<Rightarrow> safety_exec ops (safety_success now ext sm)
      | FailureOp now ext \<Rightarrow> safety_exec ops (safety_failure now ext sm)
      | PanicOp inst ext \<Rightarrow> safety_exec ops (record_panic inst ext sm)
      | DisableOp inst ext reason recover \<Rightarrow> safety_exec ops (disable_extension inst ext reason recover sm)
      | EnableOp now ext \<Rightarrow> safety_exec ops (enable_extension now ext sm))"

lemma safety_exec_run: "safety_exec ops sm = Some sm' \<Longrightarrow> safety_run sm ops sm'"
proof (induction ops arbitrary: sm)
  case (Cons op ops)
  then show ?case
    by (auto intro!: safety_run.intros(2) safety_step.intros split: safety_op.splits option.splits)
qed (auto intro: run_nil)

lemma safety_ok_reachable: "safety_run safety_new ops sm \<Longrightarrow> safety_ok sm"
  by (erule safety_ok_run) (simp add: safety_ok_def safety_new_def)

lemma shut_out_refused: "shut_out sm ext \<Longrightarrow> is_allowed now inst ext sm = Some (False, sm)"
  by (auto simp: shut_out_def is_allowed_def)

lemma open_since_refused:
  "hm_get (sm_breakers sm) ext = Some b \<Longrightarrow> open_since t b \<Longrightarrow> now < t + 60 \<Longrightarrow>
   is_allowed now inst ext sm \<noteq> Some (True, sm')"
  by (auto simp: is_allowed_def open_since_def allow_request_def split: option.splits)

section \<open>Properties\<close>

text \<open>In every state the safety manager can reach, each breaker has the default thresholds, a
  closed circuit has counted fewer than five failures and a half-open one fewer than two successes:
  no counter can run past the threshold that ends its state.\<close>

lemma circuit_counters_bounded:
  assumes "safety_run safety_new ops sm" and "hm_get (sm_breakers sm) ext = Some b"
  shows "(get_circuit_state b = CircuitClosed \<longrightarrow> unat (failure_count b) < 5) \<and>
         (get_circuit_state b = CircuitHalfOpen \<longrightarrow> unat (success_count b) < 2) \<and>
         failure_threshold b = 5 \<and> success_threshold b = 2 \<and> cooldown_secs b = 60"
  using safety_ok_reachable [OF assms(1)] assms(2)
  by (auto simp: safety_ok_def breaker_ok_def word_less_nat_alt)

text \<open>Once the circuit of an extension is open, no request is allowed for sixty seconds after it
  opened, whatever happens to other extensions and however many further failures or panics are
  recorded, as long as no success of the extension is recorded and nobody enables, registers or
  unregisters it.\<close>

lemma open_circuit_refuses:
  assumes "safety_run safety_new ops0 sm" and "hm_get (sm_breakers sm) ext = Some b"
    and "get_circuit_state b = CircuitOpen"
    and "safety_run sm ops sm'" and "list_all (unhelped ext) ops"
    and "list_all (asked_before (last_state_change b + 60) ext) ops"
    and "now < last_state_change b + 60"
  shows "is_allowed now inst ext sm' \<noteq> Some (True, sm'')"
proof -
  have "open_since (last_state_change b) b"
    using safety_ok_reachable [OF assms(1)] assms(2,3) by (auto simp: open_since_def safety_ok_def breaker_ok_def)
  with open_since_run [OF assms(4,2) _ assms(5,6)] open_since_refused assms(7) show ?thesis by blast
qed

text \<open>Five failures of an extension with no success in between leave its circuit not closed,
  whatever state it started in and whatever else happens in between.\<close>

lemma five_failures_open_circuit:
  assumes "safety_run safety_new ops0 sm" and "hm_get (sm_breakers sm) ext = Some b"
    and "safety_run sm ops sm'" and "list_all (unhelped ext) ops"
    and "5 \<le> length (filter (is_failure ext) ops)"
  shows "\<exists>b'. hm_get (sm_breakers sm') ext = Some b' \<and> get_circuit_state b' \<noteq> CircuitClosed"
proof -
  have "counted 0 b"
    using safety_ok_reachable [OF assms(1)] assms(2) by (auto simp: counted_def safety_ok_def)
  from counted_run [OF assms(3,2) this assms(4)] assms(5) show ?thesis
    by (auto simp: counted_def breaker_ok_def word_less_nat_alt)
qed

text \<open>After its third panic an extension is refused at every later time, until somebody enables
  or unregisters it or disables it again with auto-recovery.\<close>

lemma three_panics_shut_out:
  assumes "hm_get (sm_panics sm) ext = None" and "safety_run sm ops sm'"
    and "list_all (keeps_disabled ext) ops" and "3 \<le> length (filter (is_panic ext) ops)"
  shows "is_allowed now inst ext sm' = Some (False, sm')"
proof -
  from assms(1) have "panic_progress 0 sm ext" by (simp add: panic_progress_def panics_of_def)
  from panic_progress_run [OF assms(2) this assms(3)] assms(4) show ?thesis
    by (auto simp: panic_progress_def intro: shut_out_refused)
qed

text \<open>An extension disabled with auto-recovery is not allowed again by elapsed time alone: a
  check within five minutes refuses, a later one never returns (it waits for a write lock while it
  holds the read lock), and no check in any later state answers that the extension is allowed until
  somebody enables or unregisters it.\<close>

lemma auto_recovery_never_completes:
  assumes "sm0 = disable_extension inst0 ext reason True sm"
    and "safety_run sm0 ops sm'" and "list_all (keeps_entry ext) ops"
  shows "is_allowed now inst ext sm' \<noteq> Some (True, sm'') \<and>
         is_allowed now inst ext sm0 =
           (if elapsed_since inst inst0 \<le> from_secs 300 then Some (False, sm0) else None)"
proof -
  from assms(1) have "hm_get (sm_disabled sm0) ext \<noteq> None" by (simp add: disable_extension_def)
  from disabled_entry_run [OF assms(2,3) this] show ?thesis
    by (auto simp: assms(1) disable_extension_def is_allowed_def split: option.splits)
qed

text \<open>An extension whose circuit opened is tried again: the first check at least sixty seconds
  later is allowed and half-opens the circuit, two successes then close it with no failure counted,
  and a failure instead opens it for another sixty seconds.\<close>

lemma recovery_after_cooldown:
  assumes "safety_run safety_new ops sm" and "hm_get (sm_breakers sm) ext = Some b"
    and "get_circuit_state b = CircuitOpen" and "hm_get (sm_disabled sm) ext = None"
    and "last_state_change b + 60 \<le> now"
  shows "\<exists>sm1. is_allowed now inst ext sm = Some (True, sm1) \<and>
           (\<exists>c. hm_get (sm_breakers (safety_success t2 ext (safety_success t1 ext sm1))) ext = Some c \<and>
                get_circuit_state c = CircuitClosed \<and> failure_count c = 0) \<and>
           (\<exists>c. hm_get (sm_breakers (safety_failure t1 ext sm1)) ext = Some c \<and> open_since t1 c)"
proof -
  have ok: "breaker_ok b" using safety_ok_reachable [OF assms(1)] assms(2) by (auto simp: safety_ok_def)
  define b1 where "b1 = (set_circuit_state now CircuitHalfOpen b)\<lparr>success_count := 0\<rparr>"
  have "allow_request now b = (True, b1)"
    using ok assms(3,5) by (auto simp: allow_request_def b1_def breaker_ok_def)
  then have "is_allowed now inst ext sm = Some (True, sm\<lparr>sm_breakers := hm_insert ext b1 (sm_breakers sm)\<rparr>)"
    using assms(2,4) by (simp add: is_allowed_def)
  moreover have "get_circuit_state (breaker_success t2 (breaker_success t1 b1)) = CircuitClosed"
    "failure_count (breaker_success t2 (breaker_success t1 b1)) = 0" "open_since t1 (breaker_failure t1 b1)"
    using ok by (simp_all add: b1_def breaker_success_def breaker_failure_def open_since_def breaker_ok_def Let_def)
  ultimately show ?thesis
    by (simp add: safety_success_def safety_failure_def on_breaker_get)
qed

text \<open>A success that arrives while the circuit is open, from a call admitted before it opened, ends
  the cooldown at once.\<close>

lemma late_success_skips_cooldown:
  assumes "hm_get (sm_breakers sm) ext = Some b" "get_circuit_state b = CircuitOpen"
    and "hm_get (sm_disabled sm) ext = None"
  shows "\<exists>sm1. is_allowed now inst ext (safety_success t ext sm) = Some (True, sm1)"
  using assms by (simp add: is_allowed_def safety_success_def on_breaker_get breaker_success_def allow_request_def)

end
