(* ===== verification/EventDispatch.thy ===== *)
theory EventDispatch
  imports Events
begin

text \<open>
  How events reach extensions (\<open>heramind-core/src/extension/event_dispatcher.rs\<close> and
  \<open>extension_event_subscription.rs\<close>): the dispatcher's three tables, the matching of a
  subscription with an event type, and the service that converts the bus's events.

  A push channel (type \<open>'tx\<close>) and an in-process extension (type \<open>'x\<close>) are values the dispatcher
  only stores and hands an event to. What they do with it is the parameter \<open>deliver\<close> on a world of
  type \<open>'w\<close>: the dispatcher ignores the outcome (it only logs a full channel or an error). The
  in-process table is taken as not changing during one dispatch.
\<close>

section \<open>The dispatcher\<close>

record ('x, 'tx) event_dispatcher =
  disp_subscriptions :: "(string, string list) hash_map"
  disp_in_process :: "(string, 'x) hash_map"
  disp_isolated :: "(string, 'tx) hash_map"

definition dispatcher_new :: "('x, 'tx) event_dispatcher" where
  "dispatcher_new = \<lparr>disp_subscriptions = [], disp_in_process = [], disp_isolated = []\<rparr>"

text \<open>Both registrations store an entry of the subscription table only for a non-empty list.\<close>

definition register_in_process_extension ::
    "('x \<Rightarrow> string list) \<Rightarrow> string \<Rightarrow> 'x \<Rightarrow> ('x, 'tx) event_dispatcher \<Rightarrow> ('x, 'tx) event_dispatcher" where
  "register_in_process_extension event_subscriptions ext x d =
     (let types = event_subscriptions x;
          d = d\<lparr>disp_in_process := hm_insert ext x (disp_in_process d)\<rparr> in
      if types \<noteq> [] then d\<lparr>disp_subscriptions := hm_insert ext types (disp_subscriptions d)\<rparr> else d)"

definition register_isolated_extension ::
    "string \<Rightarrow> string list \<Rightarrow> 'tx \<Rightarrow> ('x, 'tx) event_dispatcher \<Rightarrow> ('x, 'tx) event_dispatcher" where
  "register_isolated_extension ext types tx d =
     (let d = d\<lparr>disp_isolated := hm_insert ext tx (disp_isolated d)\<rparr> in
      if types \<noteq> [] then d\<lparr>disp_subscriptions := hm_insert ext types (disp_subscriptions d)\<rparr> else d)"

definition dispatcher_unregister :: "string \<Rightarrow> ('x, 'tx) event_dispatcher \<Rightarrow> ('x, 'tx) event_dispatcher" where
  "dispatcher_unregister ext d =
     d\<lparr>disp_in_process := hm_remove ext (disp_in_process d), disp_isolated := hm_remove ext (disp_isolated d),
       disp_subscriptions := hm_remove ext (disp_subscriptions d)\<rparr>"

definition subscription_matches :: "string \<Rightarrow> string \<Rightarrow> bool" where
  "subscription_matches event_type et =
     (if et = ''all'' then True
      else if et = event_type then True
      else if starts_with event_type (et @ ''::'') then True
      else if length event_type > length et \<and> starts_with event_type et then True
      else False)"

datatype ('x, 'tx) delivery = PushTo string 'tx string json | CallHandler string 'x string json

primrec delivered_to :: "('x, 'tx) delivery \<Rightarrow> string" where
  "delivered_to (PushTo ext _ _ _) = ext"
| "delivered_to (CallHandler ext _ _ _) = ext"

definition deliver_one ::
    "(('x, 'tx) delivery \<Rightarrow> 'w \<Rightarrow> 'w) \<Rightarrow> ('x, 'tx) event_dispatcher \<Rightarrow> string \<Rightarrow> json \<Rightarrow>
     string \<times> string list \<Rightarrow> 'w \<Rightarrow> 'w" where
  "deliver_one deliver d event_type payload entry w =
     (let (ext, event_types) = entry in
      if \<exists>et\<in>set event_types. subscription_matches event_type et
      then (case hm_get (disp_isolated d) ext of
              Some tx \<Rightarrow> deliver (PushTo ext tx event_type payload) w
            | None \<Rightarrow>
                (case hm_get (disp_in_process d) ext of
                   Some x \<Rightarrow> deliver (CallHandler ext x event_type payload) w
                 | None \<Rightarrow> w))
      else w)"

definition dispatch_event ::
    "(('x, 'tx) delivery \<Rightarrow> 'w \<Rightarrow> 'w) \<Rightarrow> ('x, 'tx) event_dispatcher \<Rightarrow> string \<Rightarrow> json \<Rightarrow> 'w \<Rightarrow> 'w" where
  "dispatch_event deliver d event_type payload w =
     fold (deliver_one deliver d event_type payload) (disp_subscriptions d) w"

definition dispatch_event_excluding ::
    "(('x, 'tx) delivery \<Rightarrow> 'w \<Rightarrow> 'w) \<Rightarrow> ('x, 'tx) event_dispatcher \<Rightarrow> string \<Rightarrow> json \<Rightarrow> string \<Rightarrow> 'w \<Rightarrow> 'w" where
  "dispatch_event_excluding deliver d event_type payload exclude w =
     fold (\<lambda>entry w. if fst entry = exclude then w else deliver_one deliver d event_type payload entry w)
       (disp_subscriptions d) w"

section \<open>The subscription service\<close>

text \<open>\<open>serde_json::to_value(event)\<close> is the parameter \<open>to_value\<close> (generated by the derive), a JSON
  value or the text of an error.\<close>

fun extract_timestamp :: "string list \<Rightarrow> json \<Rightarrow> int option" where
  "extract_timestamp [] payload = None"
| "extract_timestamp (name # names) payload =
     (case Option.bind (Option.bind (as_object payload) (\<lambda>obj. map_of obj name)) read_i64 of
        Some ts \<Rightarrow> Some ts
      | None \<Rightarrow> extract_timestamp names payload)"

definition extract_timestamp_from_event :: "date_time \<Rightarrow> json \<Rightarrow> int" where
  "extract_timestamp_from_event now payload =
     unwrap_or (extract_timestamp [''timestamp'', ''time'', ''ts'', ''created_at'', ''occurred_at''] payload)
       (timestamp_millis now)"

text \<open>With \<open>preserve_order\<close>, \<open>Map::remove\<close> fills the gap with the last entry.\<close>

definition swap_remove :: "'k \<Rightarrow> ('k \<times> 'v) list \<Rightarrow> ('k \<times> 'v) list" where
  "swap_remove k m =
     (case dropWhile (\<lambda>e. fst e \<noteq> k) m of
        [] \<Rightarrow> m
      | _ # rest \<Rightarrow> takeWhile (\<lambda>e. fst e \<noteq> k) m @ (if rest = [] then [] else last rest # butlast rest))"

definition convert_to_extension_format ::
    "(heramind_event \<Rightarrow> (string, json) rust_result) \<Rightarrow> date_time \<Rightarrow> heramind_event \<Rightarrow> string \<times> json" where
  "convert_to_extension_format to_value now e =
     (let event_type = type_name_owned e;
          event_json = (case to_value e of
             Inr j \<Rightarrow> j
           | Inl err \<Rightarrow> JObject [(''error'', JString (''Failed to serialize event: '' @ err)),
                               (''event_type'', JString event_type)]);
          payload = (case as_object event_json of
             Some obj \<Rightarrow> JObject (swap_remove ''type'' obj) | None \<Rightarrow> event_json);
          ts = extract_timestamp_from_event now payload in
      (event_type, JObject [(''event_type'', JString event_type), (''payload'', payload), (''timestamp'', JInt ts)]))"

definition subscription_handle_event ::
    "(heramind_event \<Rightarrow> (string, json) rust_result) \<Rightarrow> date_time \<Rightarrow> (('x, 'tx) delivery \<Rightarrow> 'w \<Rightarrow> 'w) \<Rightarrow>
     ('x, 'tx) event_dispatcher \<Rightarrow> heramind_event \<Rightarrow> 'w \<Rightarrow> 'w" where
  "subscription_handle_event to_value now deliver d e w =
     (if is_virtual_metric e then w
      else let (event_type, payload) = convert_to_extension_format to_value now e in
        (case e of
           ExtensionOutput ext _ _ _ _ _ \<Rightarrow> dispatch_event_excluding deliver d event_type payload ext w
         | _ \<Rightarrow> dispatch_event deliver d event_type payload w))"

section \<open>Lemmas\<close>

text \<open>The reference behaviour: who is owed an event.\<close>

definition owed :: "('x, 'tx) event_dispatcher \<Rightarrow> string \<Rightarrow> json \<Rightarrow> string \<Rightarrow> ('x, 'tx) delivery option" where
  "owed d event_type payload ext =
     (case hm_get (disp_subscriptions d) ext of
        None \<Rightarrow> None
      | Some ets \<Rightarrow>
          if \<exists>et\<in>set ets. et = ''all'' \<or> prefix et event_type
          then (case hm_get (disp_isolated d) ext of
                  Some tx \<Rightarrow> Some (PushTo ext tx event_type payload)
                | None \<Rightarrow> map_option (\<lambda>x. CallHandler ext x event_type payload) (hm_get (disp_in_process d) ext))
          else None)"

lemma subscription_matches_iff: "subscription_matches ty et \<longleftrightarrow> et = ''all'' \<or> prefix et ty"
  by (auto simp: subscription_matches_def prefix_def)

lemma deliver_one_owed:
  "hm_get (disp_subscriptions d) (fst entry) = Some (snd entry) \<Longrightarrow>
   deliver_one deliver d ty payload entry w =
     (case owed d ty payload (fst entry) of None \<Rightarrow> w | Some x \<Rightarrow> deliver x w)"
  by (cases entry) (auto simp: deliver_one_def owed_def subscription_matches_iff split: option.splits)

definition deliveries :: "('x, 'tx) event_dispatcher \<Rightarrow> string \<Rightarrow> json \<Rightarrow> string list \<Rightarrow> ('x, 'tx) delivery list" where
  "deliveries d ty payload exts = List.map_filter (owed d ty payload) exts"

lemma dispatch_entries:
  assumes "\<And>e. e \<in> set entries \<Longrightarrow> hm_get (disp_subscriptions d) (fst e) = Some (snd e)"
  shows "fold (\<lambda>e w. if fst e = ex then w else deliver_one deliver d ty payload e w) entries w =
         fold deliver (deliveries d ty payload (filter (\<lambda>x. x \<noteq> ex) (map fst entries))) w"
    and "fold (deliver_one deliver d ty payload) entries w =
         fold deliver (deliveries d ty payload (map fst entries)) w"
  using assms
  by (induction entries arbitrary: w)
     (auto simp: deliveries_def List.map_filter_simps deliver_one_owed split: option.splits)

lemma dispatch_event_deliveries:
  "hm_wf (disp_subscriptions d) \<Longrightarrow>
   dispatch_event deliver d ty payload w =
     fold deliver (deliveries d ty payload (map fst (disp_subscriptions d))) w"
  unfolding dispatch_event_def by (rule dispatch_entries) auto

lemma dispatch_excluding_deliveries:
  "hm_wf (disp_subscriptions d) \<Longrightarrow>
   dispatch_event_excluding deliver d ty payload ex w =
     fold deliver (deliveries d ty payload (filter (\<lambda>x. x \<noteq> ex) (map fst (disp_subscriptions d)))) w"
  unfolding dispatch_event_excluding_def by (rule dispatch_entries) auto

lemma owed_to: "owed d ty payload ext = Some x \<Longrightarrow> delivered_to x = ext"
  by (auto simp: owed_def split: option.splits if_splits)

lemma deliveries_to: "x \<in> set (deliveries d ty payload exts) \<Longrightarrow> delivered_to x \<in> set exts"
  by (auto simp: deliveries_def List.map_filter_def owed_to)

lemma owed_unregistered [simp]: "owed (dispatcher_unregister ext d) ty payload ext = None"
  by (simp add: owed_def dispatcher_unregister_def)

definition dispatcher_ok :: "('x, 'tx) event_dispatcher \<Rightarrow> bool" where
  "dispatcher_ok d \<longleftrightarrow>
     hm_wf (disp_subscriptions d) \<and> hm_wf (disp_in_process d) \<and> hm_wf (disp_isolated d)"

lemma dispatcher_ok_ops [simp, intro]:
  "dispatcher_ok dispatcher_new"
  "dispatcher_ok d \<Longrightarrow> dispatcher_ok (register_in_process_extension subs ext x d)"
  "dispatcher_ok d \<Longrightarrow> dispatcher_ok (register_isolated_extension ext types tx d)"
  "dispatcher_ok d \<Longrightarrow> dispatcher_ok (dispatcher_unregister ext d)"
  by (auto simp: dispatcher_ok_def dispatcher_new_def register_in_process_extension_def
      register_isolated_extension_def dispatcher_unregister_def Let_def)

lemma swap_remove_keys: "hm_wf m \<Longrightarrow> hm_get (swap_remove k m) k = None"
proof -
  assume "hm_wf m"
  moreover have "m = takeWhile (\<lambda>e. fst e \<noteq> k) m @ dropWhile (\<lambda>e. fst e \<noteq> k) m" by simp
  ultimately show ?thesis
  proof (cases "dropWhile (\<lambda>e. fst e \<noteq> k) m")
    case Nil
    then have "\<forall>e\<in>set m. fst e \<noteq> k" by (simp add: dropWhile_eq_Nil_conv)
    moreover have "swap_remove k m = m" unfolding swap_remove_def Nil by simp
    ultimately show ?thesis by (auto simp: map_of_eq_None_iff)
  next
    case (Cons e rest)
    define pre where "pre = takeWhile (\<lambda>e. fst e \<noteq> k) m"
    have m: "m = pre @ e # rest" using Cons by (metis pre_def takeWhile_dropWhile_id)
    have e: "fst e = k" using Cons by (metis (mono_tags, lifting) hd_dropWhile list.sel(1) list.simps(3))
    have "k \<notin> fst ` set rest" "k \<notin> fst ` set pre" using \<open>hm_wf m\<close> unfolding m by (auto simp: e)
    moreover have "rest \<noteq> [] \<Longrightarrow> set (last rest # butlast rest) = set rest"
      by (metis append_butlast_last_id rotate1.simps(2) set_rotate1)
    ultimately show ?thesis
      using Cons by (auto simp: swap_remove_def map_of_eq_None_iff pre_def simp del: set_simps split: if_splits)
  qed
qed

section \<open>Properties\<close>

text \<open>Every event the bus carries reaches exactly the extensions it is owed to, once each: those
  with a subscription that is \<open>all\<close> or a prefix of the event's type, on their push channel when they
  have one and through their handler otherwise. A virtual metric reaches nobody, and an extension's
  own output everybody but that extension.\<close>

lemma events_reach_subscribers:
  fixes d :: "('x, 'tx) event_dispatcher"
  assumes "dispatcher_ok d"
  shows "subscription_handle_event to_value now deliver d e w =
     (let skip = (case e of ExtensionOutput ext _ _ _ _ _ \<Rightarrow> {ext} | _ \<Rightarrow> {});
          (ty, payload) = convert_to_extension_format to_value now e;
          exts = filter (\<lambda>x. x \<notin> skip) (map fst (disp_subscriptions d)) in
      if is_virtual_metric e then w else fold deliver (List.map_filter (owed d ty payload) exts) w)"
  using assms
  by (cases e) (simp_all add: subscription_handle_event_def dispatch_event_deliveries
      dispatch_excluding_deliveries dispatcher_ok_def deliveries_def is_virtual_metric_def split: prod.splits)

end
