(* ===== verification/ExtensionHost.thy ===== *)
theory ExtensionHost
  imports ExtensionSafety EventDispatch EventBus
begin

text \<open>
  The extension registry (\<open>heramind-core/src/extension/registry.rs\<close>): the table of host-side
  extension objects, their cached information and statistics, and the execution of a command under
  the safety manager, with its timeout. The error type is that of the extension SDK
  (\<open>heramind-extension-sdk/src/ipc_types.rs\<close>).

  An extension object (type \<open>'x\<close>) is code the registry calls through a trait; what it describes
  itself as (metadata, metrics, commands, type \<open>'d\<close>) is only copied. The call of a command is a
  parameter on the pair of the registry, which other tasks may change while the command runs, and
  the outside world. Registering with the event dispatcher is a task the registry spawns: it waits
  in \<open>reg_spawned\<close> until it runs.
\<close>

section \<open>Errors and statistics\<close>

datatype (plugins only: code) extension_error =
    ExtCommandNotFound string
  | ExtMetricNotFound string
  | ExtInvalidArguments string
  | ExtExecutionFailed string
  | ExtTimeout string
  | ExtNotFound string
  | ExtInvalidFormat string
  | ExtLoadFailed string
  | ExtSecurityError string
  | ExtSymbolNotFound string
  | ExtIncompatibleVersion nat nat
  | ExtNullPointer
  | ExtAlreadyRegistered string
  | ExtNotSupported string
  | ExtInvalidStreamData string
  | ExtSessionNotFound string
  | ExtSessionAlreadyExists string
  | ExtInferenceFailed string
  | ExtIo string
  | ExtJson string
  | ExtConfigurationError string
  | ExtInternalError string
  | ExtOther string

primrec show_extension_error :: "extension_error \<Rightarrow> string" where
  "show_extension_error (ExtCommandNotFound s) = ''Command not found: '' @ s"
| "show_extension_error (ExtMetricNotFound s) = ''Metric not found: '' @ s"
| "show_extension_error (ExtInvalidArguments s) = ''Invalid arguments: '' @ s"
| "show_extension_error (ExtExecutionFailed s) = ''Execution failed: '' @ s"
| "show_extension_error (ExtTimeout s) = ''Timeout: '' @ s"
| "show_extension_error (ExtNotFound s) = ''Not found: '' @ s"
| "show_extension_error (ExtInvalidFormat s) = ''Invalid format: '' @ s"
| "show_extension_error (ExtLoadFailed s) = ''Load failed: '' @ s"
| "show_extension_error (ExtSecurityError s) = ''Security error: '' @ s"
| "show_extension_error (ExtSymbolNotFound s) = ''Symbol not found: '' @ s"
| "show_extension_error (ExtIncompatibleVersion e g) =
     ''Incompatible version: expected '' @ show_nat e @ '', got '' @ show_nat g"
| "show_extension_error ExtNullPointer = ''Null pointer''"
| "show_extension_error (ExtAlreadyRegistered s) = ''Already registered: '' @ s"
| "show_extension_error (ExtNotSupported s) = ''Not supported: '' @ s"
| "show_extension_error (ExtInvalidStreamData s) = ''Invalid stream data: '' @ s"
| "show_extension_error (ExtSessionNotFound s) = ''Session not found: '' @ s"
| "show_extension_error (ExtSessionAlreadyExists s) = ''Session already exists: '' @ s"
| "show_extension_error (ExtInferenceFailed s) = ''Inference failed: '' @ s"
| "show_extension_error (ExtIo s) = ''IO error: '' @ s"
| "show_extension_error (ExtJson s) = ''JSON error: '' @ s"
| "show_extension_error (ExtConfigurationError s) = ''Configuration error: '' @ s"
| "show_extension_error (ExtInternalError s) = ''Internal error: '' @ s"
| "show_extension_error (ExtOther s) = ''Error: '' @ s"

datatype extension_state = ExtStopped | ExtStarting | ExtRunning | ExtStopping | ExtError

record extension_stats =
  metrics_produced :: u64
  commands_executed :: u64
  total_execution_time_ms :: u64
  last_execution_time_ms :: "int option"
  xs_start_count :: u64
  xs_stop_count :: u64
  xs_error_count :: u64
  xs_last_error :: "string option"

definition stats_default :: extension_stats where
  "stats_default = \<lparr>metrics_produced = 0, commands_executed = 0, total_execution_time_ms = 0,
     last_execution_time_ms = None, xs_start_count = 0, xs_stop_count = 0, xs_error_count = 0, xs_last_error = None\<rparr>"

section \<open>The registry\<close>

record 'd registered_info =
  xi_described :: 'd
  xi_file_path :: "string option"
  xi_state :: extension_state
  xi_stats :: extension_stats
  xi_loaded_at :: "date_time option"

record ('x, 'tx, 'd, 'c) ext_registry =
  reg_extensions :: "(string, 'x) hash_map"
  reg_info :: "(string, 'd registered_info) hash_map"
  reg_safety :: safety_manager
  reg_bus :: "'c event_bus option"
  reg_dispatcher :: "('x, 'tx) event_dispatcher option"
  reg_timeout_secs :: nat
  reg_spawned :: "(string \<times> 'x) list"

definition ext_registry_new :: "('x, 'tx, 'd, 'c) ext_registry" where
  "ext_registry_new = \<lparr>reg_extensions = [], reg_info = [], reg_safety = safety_new, reg_bus = None,
     reg_dispatcher = None, reg_timeout_secs = 300, reg_spawned = []\<rparr>"

definition with_command_timeout_secs ::
    "nat \<Rightarrow> ('x, 'tx, 'd, 'c) ext_registry \<Rightarrow> ('x, 'tx, 'd, 'c) ext_registry" where
  "with_command_timeout_secs secs r = r\<lparr>reg_timeout_secs := secs\<rparr>"

definition publish_lifecycle ::
    "('c, 'r) broadcast \<Rightarrow> uuid \<Rightarrow> date_time \<Rightarrow> string \<Rightarrow> string \<Rightarrow>
     ('x, 'tx, 'd, 'c) ext_registry \<Rightarrow> ('x, 'tx, 'd, 'c) ext_registry" where
  "publish_lifecycle bc fresh now ext st r =
     (case reg_bus r of
        None \<Rightarrow> r
      | Some b \<Rightarrow>
          r\<lparr>reg_bus := Some (snd (publish_with_source bc fresh now
               (ExtensionLifecycle ext st (Some (''Extension '' @ ext @ '' '' @ st)) (timestamp now)) ''extension'' b))\<rparr>)"

definition register_with_path ::
    "('c, 'r) broadcast \<Rightarrow> uuid \<Rightarrow> date_time \<Rightarrow> ('x \<Rightarrow> 'd) \<Rightarrow> string \<Rightarrow> 'x \<Rightarrow> string option \<Rightarrow>
     ('x, 'tx, 'd, 'c) ext_registry \<Rightarrow> (extension_error, unit) rust_result \<times> ('x, 'tx, 'd, 'c) ext_registry" where
  "register_with_path bc fresh now describe ext x file_path r =
     (if hm_contains (reg_extensions r) ext then (Inl (ExtAlreadyRegistered ext), r)
      else
        let r = r\<lparr>reg_extensions := hm_insert ext x (reg_extensions r)\<rparr>;
            r = r\<lparr>reg_safety := safety_register (nat (timestamp now)) ext (reg_safety r)\<rparr>;
            info = \<lparr>xi_described = describe x, xi_file_path = file_path, xi_state = ExtRunning,
                    xi_stats = stats_default\<lparr>xs_start_count := 1\<rparr>, xi_loaded_at = Some now\<rparr>;
            r = r\<lparr>reg_info := hm_insert ext info (reg_info r)\<rparr>;
            r = (if reg_dispatcher r = None then r else r\<lparr>reg_spawned := reg_spawned r @ [(ext, x)]\<rparr>) in
        (Inr (), publish_lifecycle bc fresh now ext ''registered'' r))"

definition ext_register ::
    "('c, 'r) broadcast \<Rightarrow> uuid \<Rightarrow> date_time \<Rightarrow> ('x \<Rightarrow> 'd) \<Rightarrow> string \<Rightarrow> 'x \<Rightarrow>
     ('x, 'tx, 'd, 'c) ext_registry \<Rightarrow> (extension_error, unit) rust_result \<times> ('x, 'tx, 'd, 'c) ext_registry" where
  "ext_register bc fresh now describe ext x r = register_with_path bc fresh now describe ext x None r"

text \<open>One of the spawned registrations runs.\<close>

definition run_spawned ::
    "('x \<Rightarrow> string list) \<Rightarrow> string \<times> 'x \<Rightarrow> ('x, 'tx, 'd, 'c) ext_registry \<Rightarrow> ('x, 'tx, 'd, 'c) ext_registry" where
  "run_spawned event_subscriptions task r =
     r\<lparr>reg_spawned := remove1 task (reg_spawned r),
       reg_dispatcher := map_option (register_in_process_extension event_subscriptions (fst task) (snd task))
                           (reg_dispatcher r)\<rparr>"

definition update_stats ::
    "string \<Rightarrow> (extension_stats \<Rightarrow> extension_stats) \<Rightarrow> ('x, 'tx, 'd, 'c) ext_registry \<Rightarrow> ('x, 'tx, 'd, 'c) ext_registry" where
  "update_stats ext f r =
     (case hm_get (reg_info r) ext of
        None \<Rightarrow> r
      | Some i \<Rightarrow> r\<lparr>reg_info := hm_insert ext (i\<lparr>xi_stats := f (xi_stats i)\<rparr>) (reg_info r)\<rparr>)"

definition ext_unregister ::
    "('c, 'r) broadcast \<Rightarrow> uuid \<Rightarrow> date_time \<Rightarrow> string \<Rightarrow>
     ('x, 'tx, 'd, 'c) ext_registry \<Rightarrow> (extension_error, unit) rust_result \<times> ('x, 'tx, 'd, 'c) ext_registry" where
  "ext_unregister bc fresh now ext r =
     (let r = update_stats ext (\<lambda>s. s\<lparr>xs_stop_count := xs_stop_count s + 1\<rparr>) r;
          r = publish_lifecycle bc fresh now ext ''unregistered'' r;
          r = r\<lparr>reg_extensions := hm_remove ext (reg_extensions r)\<rparr>;
          r = r\<lparr>reg_info := hm_remove ext (reg_info r)\<rparr>;
          r = r\<lparr>reg_safety := safety_unregister ext (reg_safety r)\<rparr>;
          r = r\<lparr>reg_dispatcher := map_option (dispatcher_unregister ext) (reg_dispatcher r)\<rparr> in
      (Inr (), r))"

definition ext_get :: "('x, 'tx, 'd, 'c) ext_registry \<Rightarrow> string \<Rightarrow> 'x option" where
  "ext_get r ext = hm_get (reg_extensions r) ext"

definition ext_get_info :: "('x, 'tx, 'd, 'c) ext_registry \<Rightarrow> string \<Rightarrow> 'd registered_info option" where
  "ext_get_info r ext = hm_get (reg_info r) ext"

definition ext_list :: "('x, 'tx, 'd, 'c) ext_registry \<Rightarrow> 'd registered_info list" where
  "ext_list r = map snd (reg_info r)"

definition ext_contains :: "('x, 'tx, 'd, 'c) ext_registry \<Rightarrow> string \<Rightarrow> bool" where
  "ext_contains r ext \<longleftrightarrow> hm_contains (reg_extensions r) ext"

definition ext_count :: "('x, 'tx, 'd, 'c) ext_registry \<Rightarrow> nat" where
  "ext_count r = length (reg_extensions r)"

text \<open>Calls under \<open>catch_unwind\<close>: \<^const>\<open>Panics\<close> is a panic of the extension.\<close>

definition get_current_metrics ::
    "('x \<Rightarrow> (extension_error, 'm list) rust_result call) \<Rightarrow> ('x, 'tx, 'd, 'c) ext_registry \<Rightarrow> string \<Rightarrow> 'm list" where
  "get_current_metrics produce r ext =
     (case ext_get r ext of
        None \<Rightarrow> []
      | Some x \<Rightarrow> (case produce x of Returns (Inr ms) \<Rightarrow> ms | Returns (Inl _) \<Rightarrow> [] | Panics \<Rightarrow> []))"

definition ext_get_stats ::
    "('x \<Rightarrow> extension_stats call) \<Rightarrow> ('x, 'tx, 'd, 'c) ext_registry \<Rightarrow> string \<Rightarrow>
     (extension_error, extension_stats) rust_result" where
  "ext_get_stats stats_of r ext =
     (case ext_get r ext of
        None \<Rightarrow> Inl (ExtNotFound (''Extension '' @ ext @ '' not found''))
      | Some x \<Rightarrow>
          (case stats_of x of
             Returns s \<Rightarrow> Inr s
           | Panics \<Rightarrow> Inl (ExtExecutionFailed ''Extension panicked while getting stats'')))"

text \<open>\<open>load_from_path\<close> refuses every file; the argument is the extension of the file name.\<close>

definition load_from_path :: "string option \<Rightarrow> string \<Rightarrow> extension_error" where
  "load_from_path file_ext shown_path =
     (if file_ext \<in> {Some ''so'', Some ''dylib'', Some ''dll''}
      then ExtInvalidFormat ''Direct native loading has been removed; use ExtensionRuntime for isolated execution''
      else if file_ext = Some ''wasm''
      then ExtInvalidFormat ''WASM extensions must be loaded via ExtensionRuntime for process isolation''
      else ExtInvalidFormat (''Unsupported extension format: '' @ shown_path))"

section \<open>Executing a command\<close>

datatype command_outcome = Finished "(extension_error, json) rust_result" | TimedOut

type_synonym ('x, 'tx, 'd, 'c, 'w) command_call =
  "'x \<Rightarrow> string \<Rightarrow> json \<Rightarrow> ('x, 'tx, 'd, 'c) ext_registry \<times> 'w \<Rightarrow>
   (command_outcome \<times> nat \<times> date_time) \<times> (('x, 'tx, 'd, 'c) ext_registry \<times> 'w)"

text \<open>After the call: the outcome, the elapsed milliseconds and the time.\<close>

definition finish_command ::
    "string \<Rightarrow> string \<Rightarrow> command_outcome \<Rightarrow> nat \<Rightarrow> date_time \<Rightarrow> ('x, 'tx, 'd, 'c) ext_registry \<Rightarrow>
     (extension_error, json) rust_result \<times> ('x, 'tx, 'd, 'c) ext_registry" where
  "finish_command ext command outcome ms now r =
     (case outcome of
        Finished (Inr v) \<Rightarrow>
          (let r = r\<lparr>reg_safety := safety_success (nat (timestamp now)) ext (reg_safety r)\<rparr> in
           (Inr v, update_stats ext (\<lambda>s. s\<lparr>commands_executed := commands_executed s + 1,
                total_execution_time_ms := total_execution_time_ms s + of_nat ms,
                last_execution_time_ms := Some (timestamp_millis now)\<rparr>) r))
      | Finished (Inl e) \<Rightarrow>
          (let r = r\<lparr>reg_safety := safety_failure (nat (timestamp now)) ext (reg_safety r)\<rparr> in
           (Inl e, update_stats ext (\<lambda>s. s\<lparr>xs_error_count := xs_error_count s + 1,
                xs_last_error := Some (show_extension_error e)\<rparr>) r))
      | TimedOut \<Rightarrow>
          (let r = r\<lparr>reg_safety := safety_failure (nat (timestamp now)) ext (reg_safety r)\<rparr>;
               msg = ''Command '' @ [CHR 0x27] @ command @ [CHR 0x27] @ '' timed out after '' @ show_nat (reg_timeout_secs r) @ '' seconds'' in
           (Inl (ExtTimeout (''Command '' @ [CHR 0x27] @ command @ [CHR 0x27] @ '' on extension '' @ [CHR 0x27] @ ext @ [CHR 0x27] @ '' timed out'')),
            update_stats ext (\<lambda>s. s\<lparr>xs_error_count := xs_error_count s + 1, xs_last_error := Some msg\<rparr>) r)))"

definition execute_command ::
    "nat \<Rightarrow> instant \<Rightarrow> ('x, 'tx, 'd, 'c, 'w) command_call \<Rightarrow> string \<Rightarrow> string \<Rightarrow> json \<Rightarrow>
     ('x, 'tx, 'd, 'c) ext_registry \<times> 'w \<Rightarrow>
     ((extension_error, json) rust_result \<times> ('x, 'tx, 'd, 'c) ext_registry \<times> 'w) option" where
  "execute_command now inst call ext command args st =
     (case is_allowed now inst ext (reg_safety (fst st)) of
        None \<Rightarrow> None
      | Some (allowed, sm) \<Rightarrow>
          let r = (fst st)\<lparr>reg_safety := sm\<rparr> in
          if \<not> allowed
          then Some (Inl (ExtSecurityError (''Extension '' @ [CHR 0x27] @ ext @ [CHR 0x27] @ '' is temporarily disabled by safety policy'')), r, snd st)
          else (case ext_get r ext of
                  None \<Rightarrow> Some (Inl (ExtNotFound ext), r, snd st)
                | Some x \<Rightarrow>
                    let ((outcome, ms, after), (r, w)) = call x command args (r, snd st);
                        (res, r) = finish_command ext command outcome ms after r in
                    Some (res, r, w)))"

definition trait_execute_command ::
    "nat \<Rightarrow> instant \<Rightarrow> ('x, 'tx, 'd, 'c, 'w) command_call \<Rightarrow> string \<Rightarrow> string \<Rightarrow> json \<Rightarrow>
     ('x, 'tx, 'd, 'c) ext_registry \<times> 'w \<Rightarrow>
     ((string, json) rust_result \<times> ('x, 'tx, 'd, 'c) ext_registry \<times> 'w) option" where
  "trait_execute_command now inst call ext command args st =
     map_option (\<lambda>(res, st'). (map_err show_extension_error res, st'))
       (execute_command now inst call ext command args st)"

definition ext_health_check ::
    "('x \<Rightarrow> (extension_error, bool) rust_result) \<Rightarrow> ('x, 'tx, 'd, 'c) ext_registry \<Rightarrow> string \<Rightarrow>
     (extension_error, bool) rust_result" where
  "ext_health_check check r ext = and_then (ok_or (ExtNotFound ext) (ext_get r ext)) check"

definition ext_get_metrics :: "('x \<Rightarrow> 'm list) \<Rightarrow> ('x, 'tx, 'd, 'c) ext_registry \<Rightarrow> string \<Rightarrow> 'm list" where
  "ext_get_metrics metrics_of r ext = (case ext_get r ext of None \<Rightarrow> [] | Some x \<Rightarrow> metrics_of x)"

section \<open>Lemmas\<close>

text \<open>The tables agree: an extension is registered exactly when it has an information entry and a
  circuit breaker.\<close>

definition registry_ok :: "('x, 'tx, 'd, 'c) ext_registry \<Rightarrow> bool" where
  "registry_ok r \<longleftrightarrow>
     (\<forall>ext. (hm_get (reg_extensions r) ext \<noteq> None) = (hm_get (reg_info r) ext \<noteq> None)) \<and>
     (\<forall>ext. (hm_get (reg_extensions r) ext \<noteq> None) = (hm_get (sm_breakers (reg_safety r)) ext \<noteq> None)) \<and>
     safety_ok (reg_safety r)"

lemma publish_lifecycle_fields [simp]:
  "reg_extensions (publish_lifecycle bc fresh now ext st r) = reg_extensions r"
  "reg_info (publish_lifecycle bc fresh now ext st r) = reg_info r"
  "reg_safety (publish_lifecycle bc fresh now ext st r) = reg_safety r"
  "reg_dispatcher (publish_lifecycle bc fresh now ext st r) = reg_dispatcher r"
  "reg_spawned (publish_lifecycle bc fresh now ext st r) = reg_spawned r"
  by (simp_all add: publish_lifecycle_def split: option.splits)

lemma update_stats_fields [simp]:
  "reg_extensions (update_stats ext f r) = reg_extensions r"
  "reg_safety (update_stats ext f r) = reg_safety r"
  "reg_dispatcher (update_stats ext f r) = reg_dispatcher r"
  "reg_spawned (update_stats ext f r) = reg_spawned r"
  by (simp_all add: update_stats_def split: option.splits)

lemma update_stats_info: "hm_get (reg_info (update_stats ext f r)) e =
  (if e = ext then map_option (\<lambda>i. i\<lparr>xi_stats := f (xi_stats i)\<rparr>) (hm_get (reg_info r) ext) else hm_get (reg_info r) e)"
  by (auto simp: update_stats_def split: option.splits)

lemma safety_ok_on_breaker:
  "safety_ok sm \<Longrightarrow> (\<And>b. breaker_ok b \<Longrightarrow> breaker_ok (f b)) \<Longrightarrow> safety_ok (on_breaker ext f sm)"
  by (auto simp: safety_ok_def on_breaker_get split: if_splits)

lemma is_allowed_keeps:
  assumes "is_allowed now inst ext sm = Some (ok, sm')"
  shows "safety_ok sm \<Longrightarrow> safety_ok sm'"
    and "(hm_get (sm_breakers sm') e \<noteq> None) = (hm_get (sm_breakers sm) e \<noteq> None)"
    and "sm_disabled sm' = sm_disabled sm"
  using assms by (cases rule: is_allowed_cases; auto simp: on_breaker_get intro: safety_ok_on_breaker breaker_ok_allow)+

lemma registry_ok_new: "registry_ok ext_registry_new"
  by (simp add: registry_ok_def ext_registry_new_def safety_new_def safety_ok_def)

lemma registry_ok_register:
  "registry_ok r \<Longrightarrow> registry_ok (snd (register_with_path bc fresh now describe ext x path r))"
  by (auto simp: registry_ok_def register_with_path_def Let_def safety_register_def safety_ok_def breaker_ok_new)

lemma registry_ok_unregister: "registry_ok r \<Longrightarrow> registry_ok (snd (ext_unregister bc fresh now ext r))"
  by (auto simp: registry_ok_def ext_unregister_def Let_def safety_unregister_def safety_ok_def update_stats_info)

lemma registry_ok_run_spawned: "registry_ok (run_spawned subs task r) = registry_ok r"
  by (simp add: registry_ok_def run_spawned_def)

lemma registry_ok_finish:
  "registry_ok r \<Longrightarrow> registry_ok (snd (finish_command ext command outcome ms now r))"
  by (cases outcome) (auto simp: registry_ok_def finish_command_def Let_def update_stats_info on_breaker_get
      safety_success_def safety_failure_def breaker_ok_success breaker_ok_failure
      intro!: safety_ok_on_breaker split: sum.splits)

text \<open>Reachable registries: the operations above, a command in its two halves.\<close>

inductive registry_reach :: "('c, 'r) broadcast \<Rightarrow> ('x, 'tx, 'd, 'c) ext_registry \<Rightarrow> bool" for bc where
  reach_new: "registry_reach bc (ext_registry_new\<lparr>reg_bus := bus, reg_dispatcher := disp, reg_timeout_secs := secs\<rparr>)"
| reach_register: "registry_reach bc r \<Longrightarrow> registry_reach bc (snd (register_with_path bc fresh now describe ext x path r))"
| reach_unregister: "registry_reach bc r \<Longrightarrow> registry_reach bc (snd (ext_unregister bc fresh now ext r))"
| reach_spawned: "registry_reach bc r \<Longrightarrow> task \<in> set (reg_spawned r) \<Longrightarrow> registry_reach bc (run_spawned subs task r)"
| reach_check: "registry_reach bc r \<Longrightarrow> is_allowed t inst ext (reg_safety r) = Some (ok, sm) \<Longrightarrow>
    registry_reach bc (r\<lparr>reg_safety := sm\<rparr>)"
| reach_finish: "registry_reach bc r \<Longrightarrow> registry_reach bc (snd (finish_command ext command outcome ms now r))"

lemma registry_reach_ok: "registry_reach bc r \<Longrightarrow> registry_ok r"
proof (induction rule: registry_reach.induct)
  case (reach_check r t inst ext ok sm)
  note keeps = is_allowed_keeps [OF reach_check.hyps(2)]
  show ?case unfolding registry_ok_def
    using reach_check.IH keeps(1,2) by (auto simp: registry_ok_def; blast)
next
  case (reach_new bus disp secs)
  show ?case by (simp add: registry_ok_def ext_registry_new_def safety_new_def safety_ok_def)
qed (simp_all add: registry_ok_register registry_ok_unregister registry_ok_run_spawned registry_ok_finish)

text \<open>A refusal leaves everything as it is, and the extension is not called.\<close>

lemma execute_refused:
  assumes "is_allowed now inst ext (reg_safety r) = Some (False, sm)"
  shows "execute_command now inst call ext command args (r, w) =
     Some (Inl (ExtSecurityError (''Extension '' @ [CHR 0x27] @ ext @ [CHR 0x27]
            @ '' is temporarily disabled by safety policy'')), r, w)"
proof -
  have "sm = reg_safety r"
    using assms
    by (cases rule: is_allowed_cases)
       (auto simp: on_breaker_def allow_request_def update_triv split: circuit_state.splits if_splits)
  with assms show ?thesis by (simp add: execute_command_def)
qed

text \<open>Commands to one extension, one after the other. Each has the times and the arguments of its call, the call itself,
  and the second in which it failed: with an error or by running into the timeout.\<close>

record ('x, 'tx, 'd, 'c, 'w) attempt =
  at_now :: nat
  at_instant :: instant
  at_call :: "('x, 'tx, 'd, 'c, 'w) command_call"
  at_command :: string
  at_args :: json
  at_failed :: nat

definition fails :: "('x, 'tx, 'd, 'c, 'w) attempt \<Rightarrow> bool" where
  "fails a \<longleftrightarrow>
     (\<forall>x command args st. \<exists>outcome ms after w.
        at_call a x command args st = ((outcome, ms, after), (fst st, w)) \<and>
        (\<forall>v. outcome \<noteq> Finished (Inr v)) \<and> nat (timestamp after) = at_failed a)"

fun execute_all ::
    "string \<Rightarrow> ('x, 'tx, 'd, 'c, 'w) attempt list \<Rightarrow> ('x, 'tx, 'd, 'c) ext_registry \<times> 'w \<Rightarrow>
     (('x, 'tx, 'd, 'c) ext_registry \<times> 'w) option" where
  "execute_all ext [] st = Some st"
| "execute_all ext (a # as) st =
     (case execute_command (at_now a) (at_instant a) (at_call a) ext (at_command a) (at_args a) st of
        None \<Rightarrow> None | Some (_, st') \<Rightarrow> execute_all ext as st')"

text \<open>The circuit is closed after \<open>n\<close> failures, or it opened at \<open>t\<close>.\<close>

definition closed_after :: "nat \<Rightarrow> string \<Rightarrow> 'x \<Rightarrow> ('x, 'tx, 'd, 'c) ext_registry \<Rightarrow> bool" where
  "closed_after n ext x r \<longleftrightarrow>
     hm_get (reg_extensions r) ext = Some x \<and> hm_get (sm_disabled (reg_safety r)) ext = None \<and>
     (\<exists>b. hm_get (sm_breakers (reg_safety r)) ext = Some b \<and> get_circuit_state b = CircuitClosed \<and> counted n b)"

definition opened_at :: "nat \<Rightarrow> string \<Rightarrow> ('x, 'tx, 'd, 'c) ext_registry \<Rightarrow> bool" where
  "opened_at t ext r \<longleftrightarrow> hm_get (sm_disabled (reg_safety r)) ext = None \<and>
     (\<exists>b. hm_get (sm_breakers (reg_safety r)) ext = Some b \<and> open_since t b)"

lemma finish_failure:
  "(\<forall>v. outcome \<noteq> Finished (Inr v)) \<Longrightarrow>
   reg_safety (snd (finish_command ext command outcome ms after r)) = safety_failure (nat (timestamp after)) ext (reg_safety r) \<and>
   reg_extensions (snd (finish_command ext command outcome ms after r)) = reg_extensions r"
  by (cases outcome) (auto simp: finish_command_def Let_def split: sum.splits)

lemma failing_failure:
  assumes "get_circuit_state b = CircuitClosed" "counted n b"
  shows "open_since t (breaker_failure t b)
       \<or> get_circuit_state (breaker_failure t b) = CircuitClosed \<and> counted (Suc n) (breaker_failure t b)"
  using counted_after [OF assms(2), of "[]" "FailureOp t []"] assms
  by (auto simp: breaker_failure_def Let_def open_since_def counted_def breaker_ok_def)

lemma failing_step:
  assumes "closed_after n ext x r" and "fails a"
  shows "\<exists>res r' w'. execute_command (at_now a) (at_instant a) (at_call a) ext (at_command a) (at_args a) (r, w) = Some (res, r', w') \<and>
    (opened_at (at_failed a) ext r' \<or> closed_after (Suc n) ext x r')"
proof -
  from assms(1) obtain b where r: "hm_get (reg_extensions r) ext = Some x"
      "hm_get (sm_disabled (reg_safety r)) ext = None" "hm_get (sm_breakers (reg_safety r)) ext = Some b"
    and closed: "get_circuit_state b = CircuitClosed \<and> counted n b"
    by (auto simp: closed_after_def)
  define r1 where "r1 = r\<lparr>reg_safety := (reg_safety r)\<lparr>sm_breakers := hm_insert ext b (sm_breakers (reg_safety r))\<rparr>\<rparr>"
  obtain outcome ms after w' where c: "at_call a x (at_command a) (at_args a) (r1, w) = ((outcome, ms, after), (r1, w'))"
      "\<forall>v. outcome \<noteq> Finished (Inr v)" "nat (timestamp after) = at_failed a"
    using assms(2) unfolding fails_def by (metis fst_conv)
  have "execute_command (at_now a) (at_instant a) (at_call a) ext (at_command a) (at_args a) (r, w) =
      Some (let (res, r') = finish_command ext (at_command a) outcome ms after r1 in (res, r', w'))"
    using r c closed by (auto simp: execute_command_def is_allowed_def allow_request_def ext_get_def r1_def split: prod.splits)
  moreover have "opened_at (at_failed a) ext (snd (finish_command ext (at_command a) outcome ms after r1)) \<or>
      closed_after (Suc n) ext x (snd (finish_command ext (at_command a) outcome ms after r1))"
    using r closed finish_failure [OF c(2), of ext "at_command a" ms after r1] failing_failure [of b n "at_failed a"] c(3)
    by (auto simp: closed_after_def opened_at_def r1_def safety_failure_def on_breaker_get)
  ultimately show ?thesis by (auto split: prod.splits)
qed

lemma failing_trips:
  assumes "closed_after n ext x r" and "\<forall>a\<in>set as. fails a" and "5 \<le> n + length as"
  shows "\<exists>k<length as. \<exists>r' w'. execute_all ext (take (Suc k) as) (r, w) = Some (r', w') \<and> opened_at (at_failed (as ! k)) ext r'"
  using assms
proof (induction as arbitrary: n r w)
  case Nil
  then show ?case by (auto simp: closed_after_def counted_def breaker_ok_def word_less_nat_alt)
next
  case (Cons a as)
  obtain res r1 w1 where one:
      "execute_command (at_now a) (at_instant a) (at_call a) ext (at_command a) (at_args a) (r, w) = Some (res, r1, w1)"
      "opened_at (at_failed a) ext r1 \<or> closed_after (Suc n) ext x r1"
    using failing_step [OF Cons.prems(1)] Cons.prems(2) by (metis list.set_intros(1))
  from one(2) show ?case
  proof
    assume "opened_at (at_failed a) ext r1"
    with one(1) show ?thesis by (intro exI [of _ 0]) simp
  next
    assume "closed_after (Suc n) ext x r1"
    from Cons.IH [OF this] Cons.prems(2,3) obtain k r' w' where
      "k < length as" "execute_all ext (take (Suc k) as) (r1, w1) = Some (r', w')" "opened_at (at_failed (as ! k)) ext r'"
      by fastforce
    with one(1) show ?thesis by (intro exI [of _ "Suc k"]) simp
  qed
qed

section \<open>Properties\<close>

text \<open>In every registry the operations can produce, an extension is registered exactly when it
  has an information entry, and exactly when it has a circuit breaker: no registered extension runs
  unprotected, and no breaker outlives its extension.\<close>

lemma registered_iff_protected:
  assumes "registry_reach bc r"
  shows "ext_contains r ext \<longleftrightarrow> get_breaker (reg_safety r) ext \<noteq> None"
    and "ext_contains r ext \<longleftrightarrow> ext_get_info r ext \<noteq> None"
  using registry_reach_ok [OF assms]
  unfolding registry_ok_def ext_contains_def ext_get_info_def get_breaker_def hm_get_None_iff by blast+

text \<open>C35. An extension whose every command fails or times out is cut off: its circuit closed and the extension not
  disabled at the start, one of the first five commands is the last one; whatever the times of the commands and of
  their failures, from then on every command in the sixty seconds after that failure is answered with a security
  error, the extension is not called, and neither the registry nor the outside world changes.\<close>

theorem failing_extension_cut_off:
  assumes "registry_reach bc r" and "ext_get r ext = Some x"
    and "hm_get (sm_disabled (reg_safety r)) ext = None"
    and "get_circuit_state (the (get_breaker (reg_safety r) ext)) = CircuitClosed"
    and "length as = 5" and "\<forall>a\<in>set as. fails a"
  shows "\<exists>k<5. \<exists>r' w'. execute_all ext (take (Suc k) as) (r, w) = Some (r', w') \<and>
    (\<forall>now<at_failed (as ! k) + 60. \<forall>inst call command args.
       execute_command now inst call ext command args (r', w') =
         Some (Inl (ExtSecurityError (''Extension '' @ [CHR 0x27] @ ext @ [CHR 0x27]
           @ '' is temporarily disabled by safety policy'')), r', w'))"
proof -
  have ok: "registry_ok r" using assms(1) by (rule registry_reach_ok)
  with assms(2) obtain b where b: "hm_get (sm_breakers (reg_safety r)) ext = Some b"
    unfolding registry_ok_def ext_get_def by fastforce
  with ok assms(2-4) have "closed_after 0 ext x r"
    by (auto simp: closed_after_def ext_get_def get_breaker_def counted_def registry_ok_def safety_ok_def)
  from failing_trips [OF this assms(6), of w] assms(5) obtain k r' w' where
    k: "k < 5" "execute_all ext (take (Suc k) as) (r, w) = Some (r', w')" "opened_at (at_failed (as ! k)) ext r'" by auto
  have "\<exists>sm. is_allowed now inst ext (reg_safety r') = Some (False, sm)" if "now < at_failed (as ! k) + 60" for now inst
    using k(3) that by (auto simp: opened_at_def is_allowed_def allow_request_def open_since_def)
  with k show ?thesis by (metis execute_refused)
qed

definition broken_attempt :: "nat \<Rightarrow> (nat, nat, unit, ring, nat) attempt" where
  "broken_attempt t = \<lparr>at_now = t, at_instant = t,
     at_call = (\<lambda>x command args st. ((TimedOut, 300000, int (t + 300) * 1000000000), (fst st, snd st + 1))),
     at_command = ''snap'', at_args = JNull, at_failed = t + 300\<rparr>"

definition one_registered :: "(nat, nat, unit, ring) ext_registry" where
  "one_registered = snd (register_with_path ring_broadcast ''u'' 0 (\<lambda>_. ()) ''cam'' 7 None ext_registry_new)"

lemma one_registered_reach: "registry_reach ring_broadcast one_registered"
proof -
  have "registry_reach ring_broadcast ext_registry_new"
    using reach_new [where bc = ring_broadcast and bus = None and disp = None and secs = 300]
    by (simp add: ext_registry_new_def)
  then show ?thesis unfolding one_registered_def by (rule reach_register)
qed

theorem failing_extension_cut_off_witness:
  "let as = map broken_attempt [0, 300, 600, 900, 1200] in
   \<exists>k<5. \<exists>r' w'. execute_all ''cam'' (take (Suc k) as) (one_registered, 0) = Some (r', w') \<and>
    (\<forall>now<at_failed (as ! k) + 60. \<forall>inst call command args.
       execute_command now inst call ''cam'' command args (r', w') =
         Some (Inl (ExtSecurityError (''Extension '' @ [CHR 0x27] @ ''cam'' @ [CHR 0x27]
           @ '' is temporarily disabled by safety policy'')), r', w'))"
  unfolding Let_def
proof (rule failing_extension_cut_off [OF one_registered_reach])
  show "\<forall>a\<in>set (map broken_attempt [0, 300, 600, 900, 1200]). fails a"
    by (auto simp: fails_def broken_attempt_def timestamp_def)
qed (simp_all add: one_registered_def register_with_path_def ext_registry_new_def ext_get_def get_breaker_def Let_def
    publish_lifecycle_def safety_register_def safety_new_def breaker_with_defaults_def breaker_new_def
    get_circuit_state_def circuit_u8_def)

end
