(* ===== verification/IsolatedManager.thy ===== *)
theory IsolatedManager
  imports ExtensionHost
begin

text \<open>
  The manager of process-isolated extensions
  (\<open>heramind-core/src/extension/isolated/manager.rs\<close>): loading under a lock per extension, unloading,
  commands with a restart of a stopped process, and the monitor that restarts crashed processes
  within a budget.

  A process handle (type \<open>'h\<close>) is reached through the operations of \<open>isolated_api\<close> on an outside
  world of type \<open>'w\<close>; its descriptor (type \<open>'d\<close>) is only stored and asked for its id. A loading
  lock is an asynchronous mutex, which the task that holds it cannot take again: operations get the
  locks their task holds, and \<open>None\<close> is the value of a call that never returns. One task runs at a
  time; the locks of other tasks are taken as eventually released.
\<close>

section \<open>Errors and data\<close>

datatype (plugins only: code) isolated_error =
    SpawnFailed string
  | IpcError string
  | IsoCrashed string
  | IsoTimeout nat
  | InvalidResponse string
  | NotInitialized
  | AlreadyRunning
  | NotRunning
  | TooManyRequests nat
  | LoadError string
  | UnexpectedResponse
  | IsoChannelClosed
  | IsoExtensionError string
  | IsoExecutionFailed string

primrec show_isolated_error :: "isolated_error \<Rightarrow> string" where
  "show_isolated_error (SpawnFailed s) = ''Failed to spawn extension process: '' @ s"
| "show_isolated_error (IpcError s) = ''IPC communication error: '' @ s"
| "show_isolated_error (IsoCrashed s) = ''Extension process crashed: '' @ s"
| "show_isolated_error (IsoTimeout ms) = ''Extension operation timed out after '' @ show_nat ms @ ''ms''"
| "show_isolated_error (InvalidResponse s) = ''Invalid response from extension: '' @ s"
| "show_isolated_error NotInitialized = ''Extension not initialized''"
| "show_isolated_error AlreadyRunning = ''Extension already running''"
| "show_isolated_error NotRunning = ''Extension not running''"
| "show_isolated_error (TooManyRequests n) = ''Too many concurrent requests: limit is '' @ show_nat n"
| "show_isolated_error (LoadError s) = ''Extension load error: '' @ s"
| "show_isolated_error UnexpectedResponse = ''Unexpected response type''"
| "show_isolated_error IsoChannelClosed = ''Response channel closed''"
| "show_isolated_error (IsoExtensionError s) = ''Extension error: '' @ s"
| "show_isolated_error (IsoExecutionFailed s) = ''Command execution failed: '' @ s"

record runtime_state =
  is_running :: bool
  is_isolated :: bool
  rs_loaded_at :: "int option"
  restart_count :: nat
  last_restart_at :: "int option"
  rs_start_count :: nat
  rs_stop_count :: nat
  rs_error_count :: nat
  rs_last_error :: "string option"
  consecutive_crashes :: u32
  last_crash_reason :: "string option"

definition runtime_isolated :: runtime_state where
  "runtime_isolated = \<lparr>is_running = False, is_isolated = True, rs_loaded_at = None, restart_count = 0,
     last_restart_at = None, rs_start_count = 0, rs_stop_count = 0, rs_error_count = 0, rs_last_error = None,
     consecutive_crashes = 0, last_crash_reason = None\<rparr>"

record isolated_config =
  restart_on_crash :: bool
  max_restart_attempts :: nat
  restart_cooldown_secs :: nat

definition isolated_config_default :: isolated_config where
  "isolated_config_default = \<lparr>restart_on_crash = True, max_restart_attempts = 3, restart_cooldown_secs = 5\<rparr>"

record 'd isolated_info =
  ii_descriptor :: 'd
  ii_path :: "string list"
  ii_runtime :: runtime_state

record ('h, 'd) isolated_manager =
  im_extensions :: "(string, 'h) hash_map"
  im_info :: "(string, 'd isolated_info) hash_map"
  im_config :: isolated_config
  im_has_provider :: bool
  im_locks :: "(string, nat) hash_map"
  im_next_lock :: nat

definition isolated_manager_new :: "isolated_config \<Rightarrow> ('h, 'd) isolated_manager" where
  "isolated_manager_new cfg = \<lparr>im_extensions = [], im_info = [], im_config = cfg, im_has_provider = False,
     im_locks = [], im_next_lock = 0\<rparr>"

text \<open>A path is the list of its components. \<open>iso_adopt\<close> is what \<open>load_internal\<close> starts on a loaded
  process: the health monitor and, when the manager has a capability provider, that provider and the
  death notification.\<close>

record ('h, 'd, 'tx, 'w) isolated_api =
  read_manifest :: "string list \<Rightarrow> 'w \<Rightarrow> json option"
  iso_load :: "string list \<Rightarrow> 'w \<Rightarrow> (isolated_error, 'h) rust_result \<times> 'w"
  iso_descriptor :: "'h \<Rightarrow> 'w \<Rightarrow> 'd option"
  desc_id :: "'d \<Rightarrow> string"
  iso_subscriptions :: "'h \<Rightarrow> 'w \<Rightarrow> (isolated_error, string list) rust_result \<times> 'w"
  iso_push_channel :: "'h \<Rightarrow> 'w \<Rightarrow> 'tx option"
  iso_adopt :: "'h \<Rightarrow> bool \<Rightarrow> 'w \<Rightarrow> 'w"
  iso_alive :: "'h \<Rightarrow> 'w \<Rightarrow> bool"
  iso_stop :: "'h \<Rightarrow> 'w \<Rightarrow> (isolated_error, unit) rust_result \<times> 'w"
  iso_mark_stopping :: "'h \<Rightarrow> 'w \<Rightarrow> 'w"
  iso_execute :: "'h \<Rightarrow> string \<Rightarrow> json \<Rightarrow> 'w \<Rightarrow> (isolated_error, json) rust_result \<times> 'w"
  iso_health_check :: "'h \<Rightarrow> 'w \<Rightarrow> (isolated_error, bool) rust_result \<times> 'w"
  iso_crash_info :: "'h \<Rightarrow> 'w \<Rightarrow> u32 \<times> string option"

text \<open>What an operation of the manager reads and changes: the manager, the dispatcher it shares with
  the registry, and the world.\<close>

record ('h, 'd, 'x, 'tx, 'w) iso_world =
  iw_manager :: "('h, 'd) isolated_manager"
  iw_dispatcher :: "('x, 'tx) event_dispatcher"
  iw_outside :: 'w

section \<open>Loading\<close>

definition path_parent :: "string list \<Rightarrow> string list option" where
  "path_parent p = (if p = [] then None else Some (butlast p))"

fun first_manifest_id :: "(string list \<Rightarrow> json option) \<Rightarrow> string list list \<Rightarrow> string option" where
  "first_manifest_id read [] = None"
| "first_manifest_id read (p # ps) =
     (case Option.bind (Option.bind (read p) as_object) (\<lambda>obj. Option.bind (hm_get obj ''id'') read_string) of
        Some i \<Rightarrow> Some i
      | None \<Rightarrow> first_manifest_id read ps)"

definition read_extension_id_from_manifest :: "(string list \<Rightarrow> json option) \<Rightarrow> string list \<Rightarrow> string option" where
  "read_extension_id_from_manifest read path =
     Option.bind (path_parent path) (\<lambda>dir.
     Option.bind (path_parent dir) (\<lambda>up.
     Option.bind (path_parent up) (\<lambda>root.
       first_manifest_id read [root @ [''manifest.json''], dir @ [''manifest.json'']])))"

definition preserved_runtime :: "'d isolated_info option \<Rightarrow> string list \<Rightarrow> runtime_state \<Rightarrow> runtime_state" where
  "preserved_runtime prev path rt =
     (case prev of
        None \<Rightarrow> rt
      | Some p \<Rightarrow>
          if ii_path p = path
          then rt\<lparr>restart_count := restart_count (ii_runtime p), last_restart_at := last_restart_at (ii_runtime p),
                  consecutive_crashes := consecutive_crashes (ii_runtime p),
                  last_crash_reason := last_crash_reason (ii_runtime p)\<rparr>
          else rt)"

definition load_internal ::
    "('h, 'd, 'tx, 'w) isolated_api \<Rightarrow> int \<Rightarrow> string list \<Rightarrow> ('h, 'd, 'x, 'tx, 'w) iso_world \<Rightarrow>
     (isolated_error, 'd) rust_result \<times> ('h, 'd, 'x, 'tx, 'w) iso_world" where
  "load_internal api now path s =
     (case iso_load api path (iw_outside s) of
        (Inl e, w) \<Rightarrow> (Inl e, s\<lparr>iw_outside := w\<rparr>)
      | (Inr h, w) \<Rightarrow>
          (case iso_descriptor api h w of
             None \<Rightarrow> (Inl (SpawnFailed ''Failed to get extension descriptor''), s\<lparr>iw_outside := w\<rparr>)
           | Some desc \<Rightarrow>
               let ext = desc_id api desc;
                   (subs, w) = iso_subscriptions api h w;
                   types = (case subs of Inr ts \<Rightarrow> ts | Inl _ \<Rightarrow> []);
                   s = s\<lparr>iw_outside := w\<rparr>;
                   s = (case iso_push_channel api h w of
                          Some tx \<Rightarrow> s\<lparr>iw_dispatcher := register_isolated_extension ext types tx (iw_dispatcher s)\<rparr>
                        | None \<Rightarrow> s);
                   m = iw_manager s;
                   m = m\<lparr>im_extensions := hm_insert ext h (im_extensions m)\<rparr>;
                   w = iso_adopt api h (im_has_provider m) w;
                   rt = preserved_runtime (hm_get (im_info m) ext) path
                          (runtime_isolated\<lparr>is_running := iso_alive api h w, rs_loaded_at := Some now\<rparr>);
                   m = m\<lparr>im_info := hm_insert ext
                           \<lparr>ii_descriptor = desc, ii_path = path, ii_runtime = rt\<rparr> (im_info m)\<rparr> in
               (Inr desc, s\<lparr>iw_manager := m, iw_outside := w\<rparr>)))"

definition loading_lock :: "string \<Rightarrow> ('h, 'd) isolated_manager \<Rightarrow> nat \<times> ('h, 'd) isolated_manager" where
  "loading_lock ext m =
     (case hm_get (im_locks m) ext of
        Some l \<Rightarrow> (l, m)
      | None \<Rightarrow> (im_next_lock m,
          m\<lparr>im_locks := hm_insert ext (im_next_lock m) (im_locks m), im_next_lock := im_next_lock m + 1\<rparr>))"

definition already_loaded :: "string \<Rightarrow> ('h, 'd) isolated_manager \<Rightarrow> (isolated_error, 'd) rust_result" where
  "already_loaded ext m =
     (case hm_get (im_info m) ext of
        Some i \<Rightarrow> Inr (ii_descriptor i)
      | None \<Rightarrow> Inl (IpcError (''Extension '' @ ext @ '' metadata not found in cache after load'')))"

definition iso_manager_load ::
    "nat list \<Rightarrow> ('h, 'd, 'tx, 'w) isolated_api \<Rightarrow> int \<Rightarrow> string list \<Rightarrow> ('h, 'd, 'x, 'tx, 'w) iso_world \<Rightarrow>
     ((isolated_error, 'd) rust_result \<times> ('h, 'd, 'x, 'tx, 'w) iso_world) option" where
  "iso_manager_load held api now path s =
     (case read_extension_id_from_manifest (\<lambda>p. read_manifest api p (iw_outside s)) path of
        None \<Rightarrow> Some (load_internal api now path s)
      | Some ext \<Rightarrow>
          if hm_contains (im_extensions (iw_manager s)) ext \<and> hm_get (im_info (iw_manager s)) ext \<noteq> None
          then Some (already_loaded ext (iw_manager s), s)
          else
            let (l, m) = loading_lock ext (iw_manager s); s = s\<lparr>iw_manager := m\<rparr> in
            if l \<in> set held then None
            else if hm_contains (im_extensions m) ext then Some (already_loaded ext m, s)
            else
              let (res, s) = load_internal api now path s in
              (case res of
                 Inr d \<Rightarrow> Some (Inr d, s)
               | Inl e \<Rightarrow>
                   let m = iw_manager s in
                   Some (Inl e, s\<lparr>iw_manager := m\<lparr>im_locks := hm_remove ext (im_locks m)\<rparr>\<rparr>)))"

definition iso_manager_unload ::
    "('h, 'd, 'tx, 'w) isolated_api \<Rightarrow> string \<Rightarrow> ('h, 'd, 'x, 'tx, 'w) iso_world \<Rightarrow>
     (isolated_error, unit) rust_result \<times> ('h, 'd, 'x, 'tx, 'w) iso_world" where
  "iso_manager_unload api ext s =
     (let m = iw_manager s;
          s = (case hm_get (im_extensions m) ext of
                 None \<Rightarrow> s
               | Some h \<Rightarrow>
                   let w = iso_mark_stopping api h (iw_outside s);
                       (_, w) = iso_stop api h w in
                   s\<lparr>iw_manager := m\<lparr>im_extensions := hm_remove ext (im_extensions m),
                                    im_info := hm_remove ext (im_info m)\<rparr>,
                     iw_dispatcher := dispatcher_unregister ext (iw_dispatcher s), iw_outside := w\<rparr>);
          m = iw_manager s in
      (Inr (), s\<lparr>iw_manager := m\<lparr>im_locks := hm_remove ext (im_locks m)\<rparr>\<rparr>))"

section \<open>Commands and the lazy restart\<close>

text \<open>The restart policy without budget decay, as the lazy restart checks it.\<close>

definition past_cooldown :: "isolated_config \<Rightarrow> int \<Rightarrow> runtime_state \<Rightarrow> bool" where
  "past_cooldown cfg now rt =
     (case last_restart_at rt of None \<Rightarrow> True | Some t \<Rightarrow> int (restart_cooldown_secs cfg) \<le> now - t)"

definition lazy_restart_allowed :: "isolated_config \<Rightarrow> int \<Rightarrow> runtime_state \<Rightarrow> bool" where
  "lazy_restart_allowed cfg now rt \<longleftrightarrow>
     restart_on_crash cfg \<and> restart_count rt < max_restart_attempts cfg \<and> past_cooldown cfg now rt"

definition note_restart :: "string \<Rightarrow> int \<Rightarrow> ('h, 'd) isolated_manager \<Rightarrow> ('h, 'd) isolated_manager" where
  "note_restart ext now m =
     (case hm_get (im_info m) ext of
        None \<Rightarrow> m
      | Some i \<Rightarrow> m\<lparr>im_info := hm_insert ext (i\<lparr>ii_runtime := (ii_runtime i)
            \<lparr>last_restart_at := Some now, restart_count := restart_count (ii_runtime i) + 1\<rparr>\<rparr>) (im_info m)\<rparr>)"

definition forget_handle :: "string \<Rightarrow> ('h, 'd) isolated_manager \<Rightarrow> ('h, 'd) isolated_manager" where
  "forget_handle ext m = m\<lparr>im_extensions := hm_remove ext (im_extensions m)\<rparr>"

definition try_lazy_restart ::
    "nat list \<Rightarrow> ('h, 'd, 'tx, 'w) isolated_api \<Rightarrow> int \<Rightarrow> string \<Rightarrow> ('h, 'd, 'x, 'tx, 'w) iso_world \<Rightarrow>
     ('h option \<times> ('h, 'd, 'x, 'tx, 'w) iso_world) option" where
  "try_lazy_restart held api now ext s =
     (case hm_get (im_info (iw_manager s)) ext of
        None \<Rightarrow> Some (None, s)
      | Some info \<Rightarrow>
          if \<not> lazy_restart_allowed (im_config (iw_manager s)) now (ii_runtime info) then Some (None, s)
          else
            let (l, m) = loading_lock ext (iw_manager s); s = s\<lparr>iw_manager := m\<rparr>;
                current = hm_get (im_extensions m) ext in
            if l \<in> set held then None
            else if \<exists>h. current = Some h \<and> iso_alive api h (iw_outside s) then Some (current, s)
            else
              let s = (case current of
                         Some h \<Rightarrow> s\<lparr>iw_outside := snd (iso_stop api h (iw_outside s))\<rparr> | None \<Rightarrow> s);
                  s = s\<lparr>iw_manager := forget_handle ext (iw_manager s)\<rparr> in
              (case iso_manager_load (l # held) api now (ii_path info) s of
                 None \<Rightarrow> None
               | Some (Inl _, s) \<Rightarrow> Some (None, s)
               | Some (Inr _, s) \<Rightarrow>
                   let m = note_restart ext now (iw_manager s) in
                   Some (hm_get (im_extensions m) ext, s\<lparr>iw_manager := m\<rparr>)))"

definition iso_manager_execute ::
    "('h, 'd, 'tx, 'w) isolated_api \<Rightarrow> int \<Rightarrow> string \<Rightarrow> string \<Rightarrow> json \<Rightarrow> ('h, 'd, 'x, 'tx, 'w) iso_world \<Rightarrow>
     ((isolated_error, json) rust_result \<times> ('h, 'd, 'x, 'tx, 'w) iso_world) option" where
  "iso_manager_execute api now ext command args s =
     (case hm_get (im_extensions (iw_manager s)) ext of
        None \<Rightarrow> Some (Inl (IpcError (''Extension '' @ ext @ '' not found'')), s)
      | Some h \<Rightarrow>
          let (res, w) = iso_execute api h command args (iw_outside s); s = s\<lparr>iw_outside := w\<rparr> in
          if res = Inl NotRunning
          then (case try_lazy_restart [] api now ext s of
                  None \<Rightarrow> None
                | Some (None, s) \<Rightarrow> Some (res, s)
                | Some (Some h, s) \<Rightarrow>
                    let (res, w) = iso_execute api h command args (iw_outside s) in
                    Some (res, s\<lparr>iw_outside := w\<rparr>))
          else Some (res, s))"

section \<open>Other operations on a process\<close>

text \<open>\<open>get_metrics\<close>, \<open>health_check\<close>, \<open>refresh_descriptor\<close>, \<open>send_config_update\<close>, \<open>get_stats\<close> and
  \<open>get_event_subscriptions\<close> look the process up and call it.\<close>

definition iso_call ::
    "('h \<Rightarrow> 'w \<Rightarrow> (isolated_error, 'a) rust_result \<times> 'w) \<Rightarrow> string \<Rightarrow> ('h, 'd, 'x, 'tx, 'w) iso_world \<Rightarrow>
     (isolated_error, 'a) rust_result \<times> ('h, 'd, 'x, 'tx, 'w) iso_world" where
  "iso_call f ext s =
     (case hm_get (im_extensions (iw_manager s)) ext of
        None \<Rightarrow> (Inl (IpcError (''Extension '' @ ext @ '' not found'')), s)
      | Some h \<Rightarrow> let (res, w) = f h (iw_outside s) in (res, s\<lparr>iw_outside := w\<rparr>))"

definition iso_contains :: "('h, 'd) isolated_manager \<Rightarrow> string \<Rightarrow> bool" where
  "iso_contains m ext \<longleftrightarrow> hm_contains (im_extensions m) ext"

definition iso_list :: "('h, 'd) isolated_manager \<Rightarrow> 'd isolated_info list" where
  "iso_list m = map snd (im_info m)"

definition iso_is_running :: "('h, 'd, 'tx, 'w) isolated_api \<Rightarrow> ('h, 'd, 'x, 'tx, 'w) iso_world \<Rightarrow> string \<Rightarrow> bool" where
  "iso_is_running api s ext =
     (case hm_get (im_extensions (iw_manager s)) ext of Some h \<Rightarrow> iso_alive api h (iw_outside s) | None \<Rightarrow> False)"

definition iso_stop_all ::
    "('h, 'd, 'tx, 'w) isolated_api \<Rightarrow> ('h, 'd, 'x, 'tx, 'w) iso_world \<Rightarrow> ('h, 'd, 'x, 'tx, 'w) iso_world" where
  "iso_stop_all api s =
     s\<lparr>iw_outside := fold (\<lambda>h w. snd (iso_stop api h w)) (map snd (im_extensions (iw_manager s))) (iw_outside s),
       iw_manager := (iw_manager s)\<lparr>im_extensions := [], im_info := []\<rparr>\<rparr>"

section \<open>The death monitor\<close>

text \<open>The monitor's own policy: an hour after the last restart the count is read as zero.\<close>

definition budget_count :: "int \<Rightarrow> runtime_state \<Rightarrow> nat" where
  "budget_count now rt =
     (case last_restart_at rt of
        Some t \<Rightarrow> if 3600 \<le> now - t then 0 else restart_count rt
      | None \<Rightarrow> restart_count rt)"

definition crash_restart_allowed :: "isolated_config \<Rightarrow> int \<Rightarrow> runtime_state \<Rightarrow> bool" where
  "crash_restart_allowed cfg now rt \<longleftrightarrow>
     restart_on_crash cfg \<and> budget_count now rt < max_restart_attempts cfg \<and> past_cooldown cfg now rt"

datatype notice = Restarted string int | RecoveryFailed string string

definition snapshot_crash :: "('h, 'd, 'tx, 'w) isolated_api \<Rightarrow> string \<Rightarrow> ('h, 'd, 'x, 'tx, 'w) iso_world \<Rightarrow> ('h, 'd, 'x, 'tx, 'w) iso_world" where
  "snapshot_crash api ext s =
     (let m = iw_manager s;
          (crashes, reason) = (case hm_get (im_extensions m) ext of
             Some h \<Rightarrow> iso_crash_info api h (iw_outside s) | None \<Rightarrow> (0, None)) in
      case hm_get (im_info m) ext of
        None \<Rightarrow> s
      | Some i \<Rightarrow> s\<lparr>iw_manager := m\<lparr>im_info := hm_insert ext (i\<lparr>ii_runtime := (ii_runtime i)
            \<lparr>consecutive_crashes := crashes, last_crash_reason := reason, is_running := False\<rparr>\<rparr>) (im_info m)\<rparr>\<rparr>)"

text \<open>One dead extension: \<open>now\<close> is when the policy is checked, \<open>later\<close> when the restart is recorded.
  The call of a callback is an entry of the returned list.\<close>

definition recover_one ::
    "('h, 'd, 'tx, 'w) isolated_api \<Rightarrow> int \<Rightarrow> int \<Rightarrow> string \<Rightarrow> ('h, 'd, 'x, 'tx, 'w) iso_world \<Rightarrow>
     (notice list \<times> ('h, 'd, 'x, 'tx, 'w) iso_world) option" where
  "recover_one api now later ext s =
     (case hm_get (im_info (iw_manager s)) ext of
        None \<Rightarrow> Some ([RecoveryFailed ext ''Crash recovery skipped: restart policy limit reached''], s)
      | Some info \<Rightarrow>
          if \<not> crash_restart_allowed (im_config (iw_manager s)) now (ii_runtime info)
          then Some ([RecoveryFailed ext ''Crash recovery skipped: restart policy limit reached''], s)
          else
            let s = s\<lparr>iw_manager := forget_handle ext (iw_manager s)\<rparr> in
            (case iso_manager_load [] api now (ii_path info) s of
               None \<Rightarrow> None
             | Some (Inl e, s) \<Rightarrow> Some ([RecoveryFailed ext (show_isolated_error e)], s)
             | Some (Inr _, s) \<Rightarrow>
                 let s = (case hm_get (im_extensions (iw_manager s)) ext of
                            None \<Rightarrow> s | Some h \<Rightarrow> s\<lparr>iw_outside := snd (iso_health_check api h (iw_outside s))\<rparr>) in
                 Some ([Restarted ext later], s\<lparr>iw_manager := note_restart ext later (iw_manager s)\<rparr>)))"

fun recover_all ::
    "('h, 'd, 'tx, 'w) isolated_api \<Rightarrow> int \<Rightarrow> int \<Rightarrow> string list \<Rightarrow> ('h, 'd, 'x, 'tx, 'w) iso_world \<Rightarrow>
     (notice list \<times> ('h, 'd, 'x, 'tx, 'w) iso_world) option" where
  "recover_all api now later [] s = Some ([], s)"
| "recover_all api now later (ext # exts) s =
     (case recover_one api now later ext s of
        None \<Rightarrow> None
      | Some (ns, s) \<Rightarrow>
          (case recover_all api now later exts s of
             None \<Rightarrow> None | Some (ns', s) \<Rightarrow> Some (ns @ ns', s)))"

definition dead_extensions :: "('h, 'd, 'tx, 'w) isolated_api \<Rightarrow> ('h, 'd, 'x, 'tx, 'w) iso_world \<Rightarrow> string list" where
  "dead_extensions api s =
     map fst (filter (\<lambda>(_, h). \<not> iso_alive api h (iw_outside s)) (im_extensions (iw_manager s)))"

definition on_death_notification ::
    "('h, 'd, 'tx, 'w) isolated_api \<Rightarrow> int \<Rightarrow> int \<Rightarrow> ('h, 'd, 'x, 'tx, 'w) iso_world \<Rightarrow>
     (notice list \<times> ('h, 'd, 'x, 'tx, 'w) iso_world) option" where
  "on_death_notification api now later s =
     (let dead = dead_extensions api s in
      recover_all api now later dead (fold (snapshot_crash api) dead s))"

section \<open>Lemmas\<close>

lemma load_no_locks [simp]: "iso_manager_load [] api now path s \<noteq> None"
  by (auto simp: iso_manager_load_def Let_def split: option.splits prod.splits sum.splits)

lemma recover_one_returns: "recover_one api now later ext s \<noteq> None"
  unfolding recover_one_def Let_def
  by (auto simp del: not_None_eq simp add: load_no_locks [unfolded not_None_eq]
      split: option.splits prod.splits sum.splits dest: arg_cong [where f = "\<lambda>x. x \<noteq> None"])

lemma recover_all_returns: "recover_all api now later exts s \<noteq> None"
proof (induction exts arbitrary: s)
  case (Cons ext exts)
  obtain ns s' where "recover_one api now later ext s = Some (ns, s')"
    using recover_one_returns [of api now later ext s] by auto
  moreover obtain ns' s'' where "recover_all api now later exts s' = Some (ns', s'')"
    using Cons.IH [of s'] by auto
  ultimately show ?case by simp
qed simp

text \<open>The lazy restart waits for the lock it holds.\<close>

lemma loading_lock_again:
  "loading_lock ext m = (l, m') \<Longrightarrow> loading_lock ext m' = (l, m')"
  by (auto simp: loading_lock_def split: option.splits)

lemma loading_lock_fields:
  "loading_lock ext m = (l, m') \<Longrightarrow>
   im_extensions m' = im_extensions m \<and> im_info m' = im_info m \<and> im_config m' = im_config m"
  by (auto simp: loading_lock_def split: option.splits)

lemma loading_lock_forget:
  "loading_lock ext (forget_handle ext m) = (fst (loading_lock ext m), forget_handle ext (snd (loading_lock ext m)))"
  by (auto simp: loading_lock_def forget_handle_def split: option.splits)

lemma load_waits_for_own_lock:
  assumes "read_extension_id_from_manifest (\<lambda>p. read_manifest api p (iw_outside s)) path = Some ext"
    and "hm_get (im_extensions (iw_manager s)) ext = None"
    and "fst (loading_lock ext (iw_manager s)) \<in> set held"
  shows "iso_manager_load held api now path s = None"
  using assms by (auto simp: iso_manager_load_def Let_def map_of_eq_None_iff split: prod.splits)

text \<open>The restart budget of an extension: how often and when it was last restarted.\<close>

definition budget_of :: "('h, 'd) isolated_manager \<Rightarrow> string \<Rightarrow> (nat \<times> int option) option" where
  "budget_of m ext =
     map_option (\<lambda>i. (restart_count (ii_runtime i), last_restart_at (ii_runtime i))) (hm_get (im_info m) ext)"

text \<open>A binary always describes itself with the same id, and the cache files it under that id.\<close>

definition stable_ids :: "('h, 'd, 'tx, 'w) isolated_api \<Rightarrow> (string list \<Rightarrow> string) \<Rightarrow> bool" where
  "stable_ids api id_of \<longleftrightarrow>
     (\<forall>path w h w1 w2 d. iso_load api path w = (Inr h, w1) \<longrightarrow> iso_descriptor api h w2 = Some d \<longrightarrow>
        desc_id api d = id_of path)"

definition filed :: "(string list \<Rightarrow> string) \<Rightarrow> ('h, 'd) isolated_manager \<Rightarrow> bool" where
  "filed id_of m \<longleftrightarrow> (\<forall>ext i. hm_get (im_info m) ext = Some i \<longrightarrow> id_of (ii_path i) = ext)"

text \<open>What an operation on behalf of one extension keeps of the others.\<close>

definition only_touches :: "string \<Rightarrow> ('h, 'd) isolated_manager \<Rightarrow> ('h, 'd) isolated_manager \<Rightarrow> bool" where
  "only_touches ext m m' \<longleftrightarrow>
     im_config m' = im_config m \<and> (\<forall>e. e \<noteq> ext \<longrightarrow> hm_get (im_info m') e = hm_get (im_info m) e)"

lemma only_touches_trans: "only_touches e m m' \<Longrightarrow> only_touches e m' m'' \<Longrightarrow> only_touches e m m''"
  by (simp add: only_touches_def)

lemma preserved_runtime_budget:
  "prev = Some i \<Longrightarrow> ii_path i = path \<Longrightarrow>
   restart_count (preserved_runtime prev path rt) = restart_count (ii_runtime i) \<and>
   last_restart_at (preserved_runtime prev path rt) = last_restart_at (ii_runtime i)"
  by (simp add: preserved_runtime_def)

lemma load_internal_budget:
  assumes "stable_ids api id_of" "filed id_of (iw_manager s)"
    and "hm_get (im_info (iw_manager s)) ext = Some i" "ii_path i = path"
    and "load_internal api now path s = (res, s')"
  shows "filed id_of (iw_manager s') \<and> only_touches ext (iw_manager s) (iw_manager s')
       \<and> budget_of (iw_manager s') ext = budget_of (iw_manager s) ext
       \<and> (\<exists>i'. hm_get (im_info (iw_manager s')) ext = Some i' \<and> ii_path i' = path)"
proof -
  have ext: "id_of path = ext" using assms(2-4) by (auto simp: filed_def)
  show ?thesis
  proof (cases "iso_load api path (iw_outside s)")
    case (Pair r w)
    show ?thesis
    proof (cases r)
      case (Inl e)
      with Pair assms show ?thesis by (auto simp: load_internal_def only_touches_def)
    next
      case (Inr h)
      show ?thesis
      proof (cases "iso_descriptor api h w")
        case None
        with Pair Inr assms show ?thesis by (auto simp: load_internal_def only_touches_def)
      next
        case (Some d)
        have id: "desc_id api d = ext" using assms(1) Pair Inr Some ext unfolding stable_ids_def by blast
        obtain subs w1 where subs: "iso_subscriptions api h w = (subs, w1)" by (cases "iso_subscriptions api h w")
        let ?m = "iw_manager s"
        have s': "im_info (iw_manager s') = hm_insert ext
             \<lparr>ii_descriptor = d, ii_path = path, ii_runtime = preserved_runtime (Some i) path
                (runtime_isolated\<lparr>is_running := iso_alive api h (iso_adopt api h (im_has_provider ?m) w1),
                   rs_loaded_at := Some now\<rparr>)\<rparr> (im_info ?m)"
          "im_config (iw_manager s') = im_config ?m"
          using assms(3,5) Pair Inr Some subs id
          by (auto simp: load_internal_def Let_def split: option.splits)
        show ?thesis
          using assms(2-4) ext preserved_runtime_budget [of "Some i" i path]
          by (auto simp: filed_def only_touches_def budget_of_def s')
      qed
    qed
  qed
qed

lemma budget_of_manager_simps [simp]:
  "budget_of (m\<lparr>im_extensions := x\<rparr>) e = budget_of m e" "budget_of (m\<lparr>im_locks := l\<rparr>) e = budget_of m e"
  "budget_of (forget_handle ext m) e = budget_of m e"
  by (simp_all add: budget_of_def forget_handle_def)

lemma manager_load_budget:
  assumes "stable_ids api id_of" "filed id_of (iw_manager s)"
    and "hm_get (im_info (iw_manager s)) ext = Some i" "ii_path i = path"
    and "iso_manager_load held api now path s = Some (res, s')"
  shows "filed id_of (iw_manager s') \<and> only_touches ext (iw_manager s) (iw_manager s')
       \<and> budget_of (iw_manager s') ext = budget_of (iw_manager s) ext
       \<and> (\<exists>i'. hm_get (im_info (iw_manager s')) ext = Some i')"
proof (cases "read_extension_id_from_manifest (\<lambda>p. read_manifest api p (iw_outside s)) path")
  case None
  with assms(5) have "load_internal api now path s = (res, s')" by (simp add: iso_manager_load_def)
  from load_internal_budget [OF assms(1-4) this] show ?thesis by blast
next
  case (Some e)
  obtain l m where l: "loading_lock e (iw_manager s) = (l, m)" by (cases "loading_lock e (iw_manager s)")
  let ?s = "s\<lparr>iw_manager := m\<rparr>"
  have m: "im_extensions m = im_extensions (iw_manager s)" "im_info m = im_info (iw_manager s)"
    "im_config m = im_config (iw_manager s)" using loading_lock_fields [OF l] by auto
  then have same: "filed id_of m" "only_touches ext (iw_manager s) m" "budget_of m ext = budget_of (iw_manager s) ext"
      "hm_get (im_info (iw_manager ?s)) ext = Some i" "filed id_of (iw_manager ?s)"
    using assms(2,3) by (auto simp: filed_def only_touches_def budget_of_def)
  obtain r s1 where li: "load_internal api now path ?s = (r, s1)" by (cases "load_internal api now path ?s")
  note eff = load_internal_budget [OF assms(1) same(5,4) assms(4) li]
  consider "s' = s" | "s' = ?s" | "s' = s1" | "s' = s1\<lparr>iw_manager := (iw_manager s1)\<lparr>im_locks := hm_remove e (im_locks (iw_manager s1))\<rparr>\<rparr>"
    using assms(5) Some l li by (auto simp: iso_manager_load_def Let_def split: if_splits sum.splits)
  then show ?thesis
  proof cases
    case 1
    with assms(2,3) show ?thesis by (simp add: only_touches_def)
  next
    case 2
    with same show ?thesis by simp
  next
    case 3
    with eff same(2,3) show ?thesis by (auto simp: only_touches_def)
  next
    case 4
    with eff same(2,3) show ?thesis by (auto simp: only_touches_def filed_def)
  qed
qed

fun restarts_of :: "string \<Rightarrow> notice list \<Rightarrow> int list" where
  "restarts_of ext [] = []"
| "restarts_of ext (Restarted e t # ns) = (if e = ext then t # restarts_of ext ns else restarts_of ext ns)"
| "restarts_of ext (RecoveryFailed _ _ # ns) = restarts_of ext ns"

lemma restarts_of_append [simp]: "restarts_of ext (ns @ ns') = restarts_of ext ns @ restarts_of ext ns'"
  by (induction ns rule: restarts_of.induct [of _ ext]) auto

text \<open>The policy on a budget, and one step of it: no restart, or one that it allows.\<close>

definition may_restart :: "isolated_config \<Rightarrow> int \<Rightarrow> nat \<times> int option \<Rightarrow> bool" where
  "may_restart cfg now b \<longleftrightarrow>
     restart_on_crash cfg \<and>
     (case b of
        (c, None) \<Rightarrow> c < max_restart_attempts cfg
      | (c, Some t) \<Rightarrow> int (restart_cooldown_secs cfg) \<le> now - t \<and>
                       (3600 \<le> now - t \<and> 0 < max_restart_attempts cfg \<or> c < max_restart_attempts cfg))"

lemma crash_restart_allowed_iff:
  "crash_restart_allowed cfg now rt \<longrightarrow> may_restart cfg now (restart_count rt, last_restart_at rt)"
  by (auto simp: crash_restart_allowed_def may_restart_def budget_count_def past_cooldown_def split: option.splits if_splits)

definition budget_step ::
    "isolated_config \<Rightarrow> int \<Rightarrow> int \<Rightarrow> (nat \<times> int option) option \<Rightarrow> int list \<Rightarrow> (nat \<times> int option) option \<Rightarrow> bool" where
  "budget_step cfg now later b log b' \<longleftrightarrow>
     log = [] \<and> b' = b \<or>
     (\<exists>c t. b = Some (c, t) \<and> may_restart cfg now (c, t) \<and> log = [later] \<and> b' = Some (c + 1, Some later))"

lemma note_restart_budget:
  "budget_of (note_restart ext t m) ext = map_option (\<lambda>(c, _). (c + 1, Some t)) (budget_of m ext)"
  "only_touches ext m (note_restart ext t m)"
  "filed id_of m \<Longrightarrow> filed id_of (note_restart ext t m)"
  by (auto simp: note_restart_def budget_of_def only_touches_def filed_def split: option.splits)

lemma recover_one_budget:
  assumes "stable_ids api id_of" "filed id_of (iw_manager s)"
    and "recover_one api now later ext s = Some (ns, s')"
  shows "filed id_of (iw_manager s') \<and> only_touches ext (iw_manager s) (iw_manager s')
       \<and> budget_step (im_config (iw_manager s)) now later (budget_of (iw_manager s) ext)
            (restarts_of ext ns) (budget_of (iw_manager s') ext)
       \<and> (\<forall>e. e \<noteq> ext \<longrightarrow> restarts_of e ns = [])"
proof (cases "\<exists>info. hm_get (im_info (iw_manager s)) ext = Some info
    \<and> crash_restart_allowed (im_config (iw_manager s)) now (ii_runtime info)")
  case False
  with assms show ?thesis
    by (auto simp: recover_one_def budget_step_def only_touches_def split: option.splits)
next
  case True
  then obtain info where info: "hm_get (im_info (iw_manager s)) ext = Some info"
      "crash_restart_allowed (im_config (iw_manager s)) now (ii_runtime info)" by blast
  let ?s = "s\<lparr>iw_manager := forget_handle ext (iw_manager s)\<rparr>"
  have same: "filed id_of (iw_manager ?s)" "hm_get (im_info (iw_manager ?s)) ext = Some info"
      "budget_of (iw_manager ?s) ext = budget_of (iw_manager s) ext" "only_touches ext (iw_manager s) (iw_manager ?s)"
    using assms(2) info by (auto simp: filed_def forget_handle_def budget_of_def only_touches_def)
  obtain r s1 where ld: "iso_manager_load [] api now (ii_path info) ?s = Some (r, s1)"
    using load_no_locks [of api now "ii_path info" ?s] by (cases "iso_manager_load [] api now (ii_path info) ?s") auto
  note eff = manager_load_budget [OF assms(1) same(1,2) refl ld]
  have b: "budget_of (iw_manager s) ext = Some (restart_count (ii_runtime info), last_restart_at (ii_runtime info))"
    by (simp add: budget_of_def info)
  show ?thesis
  proof (cases r)
    case (Inl e)
    with assms(3) info ld have "s' = s1" "ns = [RecoveryFailed ext (show_isolated_error e)]"
      by (auto simp: recover_one_def)
    with eff same(3,4) show ?thesis by (auto simp: budget_step_def intro: only_touches_trans)
  next
    case (Inr d)
    with assms(3) info ld have "iw_manager s' = note_restart ext later (iw_manager s1)" "ns = [Restarted ext later]"
      by (auto simp: recover_one_def Let_def split: option.splits)
    with eff same(3,4) b info(2) crash_restart_allowed_iff note_restart_budget [where ext = ext and t = later and m = "iw_manager s1"]
    show ?thesis by (auto simp: budget_step_def intro: only_touches_trans)
  qed
qed

lemma recover_all_budget:
  assumes "stable_ids api id_of" "filed id_of (iw_manager s)" "distinct exts"
    and "recover_all api now later exts s = Some (ns, s')"
  shows "filed id_of (iw_manager s') \<and> im_config (iw_manager s') = im_config (iw_manager s)
       \<and> budget_step (im_config (iw_manager s)) now later (budget_of (iw_manager s) ext)
            (restarts_of ext ns) (budget_of (iw_manager s') ext)
       \<and> (ext \<notin> set exts \<longrightarrow> restarts_of ext ns = [] \<and> budget_of (iw_manager s') ext = budget_of (iw_manager s) ext)"
  using assms(2-)
proof (induction exts arbitrary: s ns)
  case Nil
  then show ?case by (simp add: budget_step_def)
next
  case (Cons e exts)
  obtain ns1 s1 where one: "recover_one api now later e s = Some (ns1, s1)"
    using recover_one_returns [of api now later e s] by auto
  then obtain ns2 where rest: "recover_all api now later exts s1 = Some (ns2, s')" "ns = ns1 @ ns2"
    using Cons.prems(3) by (auto split: option.splits)
  note e1 = recover_one_budget [OF assms(1) Cons.prems(1) one]
  have ih: "filed id_of (iw_manager s') \<and> im_config (iw_manager s') = im_config (iw_manager s1)
       \<and> budget_step (im_config (iw_manager s1)) now later (budget_of (iw_manager s1) ext)
            (restarts_of ext ns2) (budget_of (iw_manager s') ext)
       \<and> (ext \<notin> set exts \<longrightarrow> restarts_of ext ns2 = [] \<and> budget_of (iw_manager s') ext = budget_of (iw_manager s1) ext)"
    using Cons.IH [OF _ _ rest(1)] e1 Cons.prems(2) by simp
  show ?case
  proof (cases "e = ext")
    case True
    with e1 ih Cons.prems(2) rest(2) show ?thesis by (auto simp: only_touches_def)
  next
    case False
    with e1 have "budget_of (iw_manager s1) ext = budget_of (iw_manager s) ext" "restarts_of ext ns1 = []"
      by (auto simp: only_touches_def budget_of_def)
    with e1 ih False rest(2) show ?thesis by (auto simp: only_touches_def)
  qed
qed

lemma snapshot_crash_budget:
  "budget_of (iw_manager (snapshot_crash api e s)) ext = budget_of (iw_manager s) ext"
  "im_config (iw_manager (snapshot_crash api e s)) = im_config (iw_manager s)"
  "filed id_of (iw_manager s) \<Longrightarrow> filed id_of (iw_manager (snapshot_crash api e s))"
  by (auto simp: snapshot_crash_def Let_def budget_of_def filed_def split: option.splits prod.splits)

lemma snapshots_budget:
  "budget_of (iw_manager (fold (snapshot_crash api) es s)) ext = budget_of (iw_manager s) ext \<and>
   im_config (iw_manager (fold (snapshot_crash api) es s)) = im_config (iw_manager s) \<and>
   (filed id_of (iw_manager s) \<longrightarrow> filed id_of (iw_manager (fold (snapshot_crash api) es s)))"
  by (induction es arbitrary: s) (simp_all add: snapshot_crash_budget)

abbreviation handles_wf :: "('h, 'd, 'x, 'tx, 'w) iso_world \<Rightarrow> bool" where
  "handles_wf s \<equiv> hm_wf (im_extensions (iw_manager s))"

lemma load_internal_wf: "handles_wf s \<Longrightarrow> handles_wf (snd (load_internal api now path s))"
  by (auto simp: load_internal_def Let_def split: sum.splits option.splits prod.splits)

lemma manager_load_wf: "iso_manager_load held api now path s = Some (r, s') \<Longrightarrow> handles_wf s \<Longrightarrow> handles_wf s'"
  using load_internal_wf [of s api now path]
    load_internal_wf [of "s\<lparr>iw_manager := snd (loading_lock e (iw_manager s))\<rparr>" api now path for e]
  by (auto simp: iso_manager_load_def Let_def dest: loading_lock_fields
      split: option.splits if_splits prod.splits sum.splits) (metis isolated_manager.select_convs(1) iso_world.select_convs(1) loading_lock_fields snd_conv)+

lemma recover_one_wf: "recover_one api now later ext s = Some (ns, s') \<Longrightarrow> handles_wf s \<Longrightarrow> handles_wf s'"
proof -
  assume a: "recover_one api now later ext s = Some (ns, s')" "handles_wf s"
  have "handles_wf (s\<lparr>iw_manager := forget_handle ext (iw_manager s)\<rparr>)" using a(2) by (simp add: forget_handle_def)
  from manager_load_wf [OF _ this]
  have "iso_manager_load [] api now path (s\<lparr>iw_manager := forget_handle ext (iw_manager s)\<rparr>) = Some (r, s1) \<Longrightarrow>
      handles_wf s1" for path r s1 by blast
  moreover have "im_extensions (note_restart ext later m) = im_extensions m" for m :: "('a, 'b) isolated_manager"
    by (simp add: note_restart_def split: option.splits)
  ultimately show ?thesis using a
    by (auto simp: recover_one_def Let_def split: option.splits if_splits sum.splits)
qed

lemma recover_all_wf: "recover_all api now later exts s = Some (ns, s') \<Longrightarrow> handles_wf s \<Longrightarrow> handles_wf s'"
  by (induction exts arbitrary: s ns) (auto dest: recover_one_wf split: option.splits prod.splits)

lemma snapshots_wf: "handles_wf s \<Longrightarrow> handles_wf (fold (snapshot_crash api) es s)"
proof (induction es arbitrary: s)
  case (Cons e es)
  have "handles_wf (snapshot_crash api e s)"
    using Cons.prems by (simp add: snapshot_crash_def Let_def split: option.splits prod.splits)
  with Cons.IH show ?case by simp
qed simp

lemma notification_budget:
  assumes "stable_ids api id_of" "filed id_of (iw_manager s)" "handles_wf s"
    and "on_death_notification api now later s = Some (ns, s')"
  shows "filed id_of (iw_manager s') \<and> handles_wf s' \<and> im_config (iw_manager s') = im_config (iw_manager s)
       \<and> budget_step (im_config (iw_manager s)) now later (budget_of (iw_manager s) ext)
            (restarts_of ext ns) (budget_of (iw_manager s') ext)"
proof -
  let ?dead = "dead_extensions api s" and ?s = "fold (snapshot_crash api) (dead_extensions api s) s"
  have d: "distinct ?dead" using assms(3)
    by (simp add: dead_extensions_def distinct_map_filter)
  have run: "recover_all api now later ?dead ?s = Some (ns, s')" using assms(4) by (simp add: on_death_notification_def Let_def)
  have "filed id_of (iw_manager ?s)" using snapshots_budget assms(2) by blast
  from recover_all_budget [OF assms(1) this d run, of ext] recover_all_wf [OF run snapshots_wf [OF assms(3)]]
    snapshots_budget [of api ?dead s ext id_of]
  show ?thesis by simp
qed

text \<open>Any number of notifications, with anything happening to the outside world in between.\<close>

fun monitor_run ::
    "('h, 'd, 'tx, 'w) isolated_api \<Rightarrow> (int \<times> int \<times> ('w \<Rightarrow> 'w)) list \<Rightarrow> ('h, 'd, 'x, 'tx, 'w) iso_world \<Rightarrow>
     ((int \<times> notice list) list \<times> ('h, 'd, 'x, 'tx, 'w) iso_world) option" where
  "monitor_run api [] s = Some ([], s)"
| "monitor_run api ((now, later, env) # rounds) s =
     (case on_death_notification api now later (s\<lparr>iw_outside := env (iw_outside s)\<rparr>) of
        None \<Rightarrow> None
      | Some (ns, s) \<Rightarrow>
          (case monitor_run api rounds s of None \<Rightarrow> None | Some (out, s) \<Rightarrow> Some ((now, ns) # out, s)))"

definition restart_log :: "string \<Rightarrow> (int \<times> notice list) list \<Rightarrow> (int \<times> int) list" where
  "restart_log ext out = concat (map (\<lambda>(now, ns). map (Pair now) (restarts_of ext ns)) out)"

fun paced :: "isolated_config \<Rightarrow> nat \<times> int option \<Rightarrow> (int \<times> int) list \<Rightarrow> bool" where
  "paced cfg b [] = True"
| "paced cfg b ((now, later) # log) = (may_restart cfg now b \<and> paced cfg (fst b + 1, Some later) log)"

lemma monitor_run_paced:
  assumes "stable_ids api id_of" "filed id_of (iw_manager s)" "handles_wf s"
    and "monitor_run api rounds s = Some (out, s')" and "budget_of (iw_manager s) ext = Some b"
  shows "paced (im_config (iw_manager s)) b (restart_log ext out)"
  using assms
proof (induction api rounds s arbitrary: out b rule: monitor_run.induct)
  case (1 api s)
  then show ?case by (simp add: restart_log_def)
next
  case (2 api now later env rounds s)
  let ?s = "s\<lparr>iw_outside := env (iw_outside s)\<rparr>"
  from "2.prems"(4) obtain ns s1 out' where one: "on_death_notification api now later ?s = Some (ns, s1)"
    and rest: "monitor_run api rounds s1 = Some (out', s')" "out = (now, ns) # out'"
    by (auto split: option.splits)
  have st: "filed id_of (iw_manager s1)" "handles_wf s1" "im_config (iw_manager s1) = im_config (iw_manager s)"
      "budget_step (im_config (iw_manager s)) now later (Some b) (restarts_of ext ns) (budget_of (iw_manager s1) ext)"
    using notification_budget [OF _ _ _ one, of id_of ext] "2.prems" by simp_all
  note ih = "2.IH" [OF one refl "2.prems"(1) st(1,2) rest(1)]
  from st(4) show ?case
    using ih st(3) rest(2) by (cases b) (auto simp: budget_step_def restart_log_def)
qed

lemma paced_gaps:
  "paced cfg (c, t) log \<Longrightarrow> Suc i < length log \<Longrightarrow>
   int (restart_cooldown_secs cfg) \<le> fst (log ! Suc i) - snd (log ! i) \<and>
   (max_restart_attempts cfg \<le> c + Suc i \<longrightarrow> 3600 \<le> fst (log ! Suc i) - snd (log ! i))"
proof (induction i arbitrary: c t log)
  case 0
  then show ?case
    by (cases log; cases "List.tl log") (auto simp: may_restart_def)
next
  case (Suc i)
  then obtain n l log' where log: "log = (n, l) # log'" by (cases log) auto
  with Suc.prems Suc.IH [of "c + 1" "Some l" log'] show ?case by simp
qed

section \<open>Properties\<close>

text \<open>C36. A crash-looping extension is restarted at a bounded pace: over any run of death
  notifications, with anything happening outside in between, two consecutive restarts are at least
  the cooldown apart, and once the restarts on record reach the maximum number of attempts they are
  at least an hour apart.\<close>

theorem crash_restarts_paced:
  assumes "stable_ids api id_of" and "filed id_of (iw_manager s)" and "hm_wf (im_extensions (iw_manager s))"
    and "monitor_run api rounds s = Some (out, s')"
    and "budget_of (iw_manager s) ext = Some (c, t)"
    and "Suc i < length (restart_log ext out)"
  shows "int (restart_cooldown_secs (im_config (iw_manager s)))
           \<le> fst (restart_log ext out ! Suc i) - snd (restart_log ext out ! i) \<and>
         (max_restart_attempts (im_config (iw_manager s)) \<le> c + Suc i \<longrightarrow>
          3600 \<le> fst (restart_log ext out ! Suc i) - snd (restart_log ext out ! i))"
  using paced_gaps [OF monitor_run_paced [OF assms(1-5)] assms(6)] by blast

text \<open>A command on an extension whose process has stopped never returns when the restart policy
  allows a restart and the manifest beside the binary names the extension: the lazy restart takes the
  extension's loading lock and then calls \<open>load\<close>, which waits for the same lock.\<close>

lemma lazy_restart_never_returns:
  assumes "hm_get (im_extensions (iw_manager s)) ext = Some h"
    and "iso_execute api h command args (iw_outside s) = (Inl NotRunning, w)"
    and "hm_get (im_info (iw_manager s)) ext = Some info"
    and "lazy_restart_allowed (im_config (iw_manager s)) now (ii_runtime info)"
    and "\<not> iso_alive api h w"
    and "read_extension_id_from_manifest (\<lambda>p. read_manifest api p (snd (iso_stop api h w))) (ii_path info) = Some ext"
  shows "iso_manager_execute api now ext command args s = None"
proof -
  obtain l m where l: "loading_lock ext (iw_manager s) = (l, m)" by (cases "loading_lock ext (iw_manager s)")
  have m: "im_extensions m = im_extensions (iw_manager s)" using loading_lock_fields [OF l] by simp
  let ?s = "s\<lparr>iw_outside := snd (iso_stop api h w), iw_manager := forget_handle ext m\<rparr>"
  have "fst (loading_lock ext (forget_handle ext m)) = l"
    using loading_lock_again [OF l] by (simp add: loading_lock_forget)
  then have "iso_manager_load [l] api now (ii_path info) ?s = None"
    using assms(6) by (intro load_waits_for_own_lock [where ext = ext]) (auto simp: forget_handle_def)
  then show ?thesis
    using assms(1-5) l m by (simp add: iso_manager_execute_def try_lazy_restart_def Let_def)
qed

subsection \<open>Witnesses\<close>

definition camera_manifest :: json where
  "camera_manifest = JObject [(''id'', JString ''cam'')]"

definition camera_path :: "string list" where
  "camera_path = [''ext'', ''cam'', ''binaries'', ''linux'', ''ext.so'']"

definition stopped_api :: "(nat, string, nat, nat) isolated_api" where
  "stopped_api =
     \<lparr>read_manifest = (\<lambda>p w. if p = [''ext'', ''cam'', ''manifest.json''] then Some camera_manifest else None),
      iso_load = (\<lambda>p w. (Inr w, w + 1)), iso_descriptor = (\<lambda>h w. Some ''cam''), desc_id = (\<lambda>d. d),
      iso_subscriptions = (\<lambda>h w. (Inr [''Device''], w)), iso_push_channel = (\<lambda>h w. Some h),
      iso_adopt = (\<lambda>h p w. w), iso_alive = (\<lambda>h w. False), iso_stop = (\<lambda>h w. (Inr (), w)),
      iso_mark_stopping = (\<lambda>h w. w), iso_execute = (\<lambda>h c a w. (Inl NotRunning, w)),
      iso_health_check = (\<lambda>h w. (Inr True, w)), iso_crash_info = (\<lambda>h w. (1, None))\<rparr>"

definition camera_manager :: "(nat, string) isolated_manager" where
  "camera_manager = (isolated_manager_new isolated_config_default)
     \<lparr>im_extensions := [(''cam'', 0)],
      im_info := [(''cam'', \<lparr>ii_descriptor = ''cam'', ii_path = camera_path, ii_runtime = runtime_isolated\<rparr>)]\<rparr>"

definition camera_world :: "(nat, string, nat, nat, nat) iso_world" where
  "camera_world = \<lparr>iw_manager = camera_manager, iw_dispatcher = dispatcher_new, iw_outside = 1\<rparr>"

lemma camera_stable: "stable_ids stopped_api (\<lambda>_. ''cam'')" "filed (\<lambda>_. ''cam'') (iw_manager camera_world)"
  "hm_wf (im_extensions (iw_manager camera_world))" "budget_of (iw_manager camera_world) ''cam'' = Some (0, None)"
  by (auto simp: stable_ids_def filed_def stopped_api_def camera_world_def camera_manager_def budget_of_def
      runtime_isolated_def isolated_manager_new_def split: if_splits)

lemma camera_manifest_id:
  "read_extension_id_from_manifest (\<lambda>p. read_manifest stopped_api p w) camera_path = Some ''cam''"
  by (simp add: read_extension_id_from_manifest_def camera_path_def path_parent_def stopped_api_def camera_manifest_def)

definition camera_info :: "string isolated_info" where
  "camera_info = \<lparr>ii_descriptor = ''cam'', ii_path = camera_path, ii_runtime = runtime_isolated\<rparr>"

definition camera_rounds :: "(int \<times> int \<times> (nat \<Rightarrow> nat)) list" where
  "camera_rounds = [(10, 10, id), (20, 20, id)]"

lemmas monitor_simps =
  on_death_notification_def dead_extensions_def snapshot_crash_def recover_one_def iso_manager_load_def
  load_internal_def loading_lock_def forget_handle_def note_restart_def preserved_runtime_def
  register_isolated_extension_def dispatcher_new_def crash_restart_allowed_def budget_count_def past_cooldown_def
  isolated_config_default_def isolated_manager_new_def runtime_isolated_def already_loaded_def Let_def

lemma camera_log:
  "map_option (\<lambda>(out, s). restart_log ''cam'' out) (monitor_run stopped_api camera_rounds camera_world)
     = Some [(10, 10), (20, 20)]"
  using camera_manifest_id
  by (simp add: camera_rounds_def monitor_simps camera_world_def camera_manager_def restart_log_def stopped_api_def
      del: One_nat_def)

theorem crash_restarts_paced_witness:
  "\<exists>out s'. monitor_run stopped_api camera_rounds camera_world = Some (out, s') \<and>
     int (restart_cooldown_secs (im_config (iw_manager camera_world)))
       \<le> fst (restart_log ''cam'' out ! Suc 0) - snd (restart_log ''cam'' out ! 0)"
proof -
  obtain out s' where run: "monitor_run stopped_api camera_rounds camera_world = Some (out, s')"
    and log: "restart_log ''cam'' out = [(10, 10), (20, 20)]"
    using camera_log by auto
  with crash_restarts_paced [OF camera_stable(1-3) run camera_stable(4), of 0] show ?thesis by auto
qed

end
