(* ===== verification/ExtensionRuntime.thy ===== *)
theory ExtensionRuntime
  imports IsolatedManager
begin

text \<open>
  The extension runtime (\<open>heramind-core/src/extension/runtime.rs\<close>): the one entry point of the host,
  which combines the manager of isolated processes with the registry of host-side proxies
  (\<open>proxy.rs\<close>). The manager and the registry share one event dispatcher, kept in the registry's
  state here.

  A proxy (type \<open>'x\<close>) is built from a process handle and its descriptor by the parameter \<open>proxy_of\<close>;
  it does not override \<open>event_subscriptions\<close>, whose default is the empty list.
\<close>

section \<open>The runtime\<close>

definition proxy_event_subscriptions :: "'x \<Rightarrow> string list" where
  "proxy_event_subscriptions x = []"

record ('x, 'h, 'd, 'tx, 'c, 'w) ext_runtime =
  rt_registry :: "('x, 'tx, 'd, 'c) ext_registry"
  rt_manager :: "('h, 'd) isolated_manager"
  rt_outside :: 'w

definition runtime_new ::
    "isolated_config \<Rightarrow> ('x, 'tx, 'd, 'c) ext_registry \<Rightarrow> 'w \<Rightarrow> ('x, 'h, 'd, 'tx, 'c, 'w) ext_runtime" where
  "runtime_new cfg r w =
     \<lparr>rt_registry = r\<lparr>reg_dispatcher := Some dispatcher_new\<rparr>, rt_manager = isolated_manager_new cfg, rt_outside = w\<rparr>"

definition shared_dispatcher :: "('x, 'tx, 'd, 'c) ext_registry \<Rightarrow> ('x, 'tx) event_dispatcher" where
  "shared_dispatcher r = (case reg_dispatcher r of Some d \<Rightarrow> d | None \<Rightarrow> dispatcher_new)"

definition to_iso :: "('x, 'h, 'd, 'tx, 'c, 'w) ext_runtime \<Rightarrow> ('h, 'd, 'x, 'tx, 'w) iso_world" where
  "to_iso rt = \<lparr>iw_manager = rt_manager rt, iw_dispatcher = shared_dispatcher (rt_registry rt), iw_outside = rt_outside rt\<rparr>"

definition from_iso ::
    "('h, 'd, 'x, 'tx, 'w) iso_world \<Rightarrow> ('x, 'h, 'd, 'tx, 'c, 'w) ext_runtime \<Rightarrow> ('x, 'h, 'd, 'tx, 'c, 'w) ext_runtime" where
  "from_iso s rt = rt\<lparr>rt_manager := iw_manager s, rt_outside := iw_outside s,
     rt_registry := (rt_registry rt)\<lparr>reg_dispatcher := Some (iw_dispatcher s)\<rparr>\<rparr>"

definition runtime_load ::
    "('c, 'r) broadcast \<Rightarrow> ('h, 'd, 'tx, 'w) isolated_api \<Rightarrow> ('h \<Rightarrow> 'd option \<Rightarrow> 'x) \<Rightarrow> ('x \<Rightarrow> 'd) \<Rightarrow>
     uuid \<Rightarrow> date_time \<Rightarrow> string list \<Rightarrow> ('x, 'h, 'd, 'tx, 'c, 'w) ext_runtime \<Rightarrow>
     ((extension_error, 'd) rust_result \<times> ('x, 'h, 'd, 'tx, 'c, 'w) ext_runtime) option" where
  "runtime_load bc api proxy_of describe fresh now path rt =
     (case iso_manager_load [] api (timestamp now) path (to_iso rt) of
        None \<Rightarrow> None
      | Some (Inl e, s) \<Rightarrow> Some (Inl (ExtLoadFailed (show_isolated_error e)), from_iso s rt)
      | Some (Inr d, s) \<Rightarrow>
          let rt = from_iso s rt; ext = desc_id api d in
          (case hm_get (im_extensions (rt_manager rt)) ext of
             None \<Rightarrow> Some (Inr d, rt)
           | Some h \<Rightarrow>
               let x = proxy_of h (iso_descriptor api h (rt_outside rt));
                   (res, r) = ext_register bc fresh now describe ext x (rt_registry rt);
                   rt = rt\<lparr>rt_registry := r\<rparr> in
               (case res of Inl e \<Rightarrow> Some (Inl e, rt) | Inr _ \<Rightarrow> Some (Inr d, rt))))"

definition runtime_unload ::
    "('c, 'r) broadcast \<Rightarrow> ('h, 'd, 'tx, 'w) isolated_api \<Rightarrow> uuid \<Rightarrow> date_time \<Rightarrow> string \<Rightarrow>
     ('x, 'h, 'd, 'tx, 'c, 'w) ext_runtime \<Rightarrow>
     (extension_error, unit) rust_result \<times> ('x, 'h, 'd, 'tx, 'c, 'w) ext_runtime" where
  "runtime_unload bc api fresh now ext rt =
     (case iso_manager_unload api ext (to_iso rt) of
        (Inl e, s) \<Rightarrow> (Inl (ExtExecutionFailed (show_isolated_error e)), from_iso s rt)
      | (Inr _, s) \<Rightarrow>
          let rt = from_iso s rt in
          if ext_contains (rt_registry rt) ext
          then (Inr (), rt\<lparr>rt_registry := snd (ext_unregister bc fresh now ext (rt_registry rt))\<rparr>)
          else (Inr (), rt))"

definition refresh_proxy ::
    "('c, 'r) broadcast \<Rightarrow> ('h, 'd, 'tx, 'w) isolated_api \<Rightarrow> ('h \<Rightarrow> 'd option \<Rightarrow> 'x) \<Rightarrow> ('x \<Rightarrow> 'd) \<Rightarrow>
     uuid \<Rightarrow> date_time \<Rightarrow> string \<Rightarrow> ('x, 'h, 'd, 'tx, 'c, 'w) ext_runtime \<Rightarrow>
     (extension_error, unit) rust_result \<times> ('x, 'h, 'd, 'tx, 'c, 'w) ext_runtime" where
  "refresh_proxy bc api proxy_of describe fresh now ext rt =
     (let file_path = Option.bind (ext_get_info (rt_registry rt) ext) xi_file_path in
      case hm_get (im_extensions (rt_manager rt)) ext of
        None \<Rightarrow> (Inl (ExtLoadFailed (''extension '' @ ext @ '' not present in isolated manager'')), rt)
      | Some h \<Rightarrow>
          let x = proxy_of h (iso_descriptor api h (rt_outside rt));
              r = rt_registry rt;
              r = (if ext_contains r ext then snd (ext_unregister bc fresh now ext r) else r);
              (res, r) = register_with_path bc fresh now describe ext x file_path r in
          (res, rt\<lparr>rt_registry := r\<rparr>))"

definition runtime_execute_command ::
    "('h, 'd, 'tx, 'w) isolated_api \<Rightarrow> int \<Rightarrow> string \<Rightarrow> string \<Rightarrow> json \<Rightarrow> ('x, 'h, 'd, 'tx, 'c, 'w) ext_runtime \<Rightarrow>
     ((extension_error, json) rust_result \<times> ('x, 'h, 'd, 'tx, 'c, 'w) ext_runtime) option" where
  "runtime_execute_command api now ext command args rt =
     map_option (\<lambda>(res, s). (map_err (\<lambda>e. ExtExecutionFailed (show_isolated_error e)) res, from_iso s rt))
       (iso_manager_execute api now ext command args (to_iso rt))"

definition runtime_call ::
    "('h \<Rightarrow> 'w \<Rightarrow> (isolated_error, 'a) rust_result \<times> 'w) \<Rightarrow> string \<Rightarrow> ('x, 'h, 'd, 'tx, 'c, 'w) ext_runtime \<Rightarrow>
     (extension_error, 'a) rust_result \<times> ('x, 'h, 'd, 'tx, 'c, 'w) ext_runtime" where
  "runtime_call f ext rt =
     (let (res, s) = iso_call f ext (to_iso rt) in
      (map_err (\<lambda>e. ExtExecutionFailed (show_isolated_error e)) res, from_iso s rt))"

definition runtime_get_metrics ::
    "('h \<Rightarrow> 'w \<Rightarrow> (isolated_error, 'm list) rust_result \<times> 'w) \<Rightarrow> string \<Rightarrow> ('x, 'h, 'd, 'tx, 'c, 'w) ext_runtime \<Rightarrow>
     'm list \<times> ('x, 'h, 'd, 'tx, 'c, 'w) ext_runtime" where
  "runtime_get_metrics f ext rt =
     (let (res, s) = iso_call f ext (to_iso rt) in
      (case res of Inr ms \<Rightarrow> ms | Inl _ \<Rightarrow> [], from_iso s rt))"

record 'd runtime_info =
  ri_descriptor :: 'd
  ri_is_isolated :: bool
  ri_is_running :: bool
  ri_path :: "string list option"
  ri_consecutive_crashes :: u32
  ri_last_crash_reason :: "string option"

definition runtime_info_of :: "'d isolated_info \<Rightarrow> 'd runtime_info" where
  "runtime_info_of i =
     \<lparr>ri_descriptor = ii_descriptor i, ri_is_isolated = True, ri_is_running = is_running (ii_runtime i),
      ri_path = Some (ii_path i), ri_consecutive_crashes = consecutive_crashes (ii_runtime i),
      ri_last_crash_reason = last_crash_reason (ii_runtime i)\<rparr>"

definition runtime_get_info :: "('x, 'h, 'd, 'tx, 'c, 'w) ext_runtime \<Rightarrow> string \<Rightarrow> 'd runtime_info option" where
  "runtime_get_info rt ext = map_option runtime_info_of (hm_get (im_info (rt_manager rt)) ext)"

definition runtime_list :: "('x, 'h, 'd, 'tx, 'c, 'w) ext_runtime \<Rightarrow> 'd runtime_info list" where
  "runtime_list rt = map runtime_info_of (iso_list (rt_manager rt))"

definition runtime_stop_all ::
    "('c, 'r) broadcast \<Rightarrow> ('h, 'd, 'tx, 'w) isolated_api \<Rightarrow> uuid \<Rightarrow> date_time \<Rightarrow>
     ('x, 'h, 'd, 'tx, 'c, 'w) ext_runtime \<Rightarrow> ('x, 'h, 'd, 'tx, 'c, 'w) ext_runtime" where
  "runtime_stop_all bc api fresh now rt =
     (let ids = map (\<lambda>i. desc_id api (ri_descriptor i)) (runtime_list rt);
          rt = from_iso (iso_stop_all api (to_iso rt)) rt in
      rt\<lparr>rt_registry := fold (\<lambda>ext r. if ext_contains r ext then snd (ext_unregister bc fresh now ext r) else r)
            ids (rt_registry rt)\<rparr>)"

section \<open>Lemmas\<close>

text \<open>Spawned registrations of proxies, in any order and number, subscribe nobody.\<close>

lemma run_spawned_proxy_owed:
  assumes "reg_dispatcher r = Some d" "hm_get (disp_subscriptions d) ext = None"
  shows "\<exists>d'. reg_dispatcher (run_spawned proxy_event_subscriptions task r) = Some d' \<and>
           hm_get (disp_subscriptions d') ext = None"
  using assms by (simp add: run_spawned_def register_in_process_extension_def proxy_event_subscriptions_def Let_def)

lemma run_all_spawned_owed:
  assumes "reg_dispatcher r = Some d" "hm_get (disp_subscriptions d) ext = None"
  shows "\<exists>d'. reg_dispatcher (fold (run_spawned proxy_event_subscriptions) tasks r) = Some d' \<and>
           hm_get (disp_subscriptions d') ext = None"
  using assms
proof (induction tasks arbitrary: r d)
  case (Cons task tasks)
  obtain d1 where "reg_dispatcher (run_spawned proxy_event_subscriptions task r) = Some d1"
      "hm_get (disp_subscriptions d1) ext = None"
    using run_spawned_proxy_owed [OF Cons.prems] by blast
  from Cons.IH [OF this] show ?case by simp
qed simp

lemma unregister_dispatcher:
  "reg_dispatcher r = Some d \<Longrightarrow>
   reg_dispatcher (snd (ext_unregister bc fresh now ext r)) = Some (dispatcher_unregister ext d) \<and>
   \<not> ext_contains (snd (ext_unregister bc fresh now ext r)) ext"
  by (simp add: ext_unregister_def ext_contains_def Let_def flip: hm_get_None_iff)

lemma register_dispatcher:
  "\<not> ext_contains r ext \<Longrightarrow>
   fst (register_with_path bc fresh now describe ext x path r) = Inr () \<and>
   reg_dispatcher (snd (register_with_path bc fresh now describe ext x path r)) = reg_dispatcher r"
  by (simp add: register_with_path_def ext_contains_def Let_def)

section \<open>Properties\<close>

text \<open>Refreshing the proxy of an extension, which the server does after every crash recovery,
  takes the extension's event subscriptions away: the refresh succeeds, and whatever spawned
  registrations run afterwards, no event of any type is owed to the extension any more. Unregistering
  the old proxy removes the channel and the subscriptions that the restarted process had just
  registered, and the new proxy declares none.\<close>

lemma proxy_refresh_loses_events:
  assumes "reg_dispatcher (rt_registry rt) = Some d"
    and "hm_get (im_extensions (rt_manager rt)) ext = Some h"
    and "ext_contains (rt_registry rt) ext"
    and "refresh_proxy bc api proxy_of describe fresh now ext rt = (res, rt')"
  shows "res = Inr () \<and>
         (\<exists>d'. reg_dispatcher (fold (run_spawned proxy_event_subscriptions) tasks (rt_registry rt')) = Some d' \<and>
            (\<forall>ty payload. owed d' ty payload ext = None))"
proof -
  let ?r = "snd (ext_unregister bc fresh now ext (rt_registry rt))"
  obtain path x where reg: "register_with_path bc fresh now describe ext x path ?r = (res, rt_registry rt')"
    using assms(2-4) by (auto simp: refresh_proxy_def Let_def split: prod.splits)
  have "reg_dispatcher ?r = Some (dispatcher_unregister ext d)" "\<not> ext_contains ?r ext"
    using unregister_dispatcher [OF assms(1)] by blast+
  with register_dispatcher [of ?r ext bc fresh now describe x path] reg
  have "res = Inr ()" "reg_dispatcher (rt_registry rt') = Some (dispatcher_unregister ext d)"
    by (metis fst_conv snd_conv)+
  moreover from run_all_spawned_owed [OF this(2), of ext tasks]
  obtain d' where "reg_dispatcher (fold (run_spawned proxy_event_subscriptions) tasks (rt_registry rt')) = Some d'"
      "hm_get (disp_subscriptions d') ext = None"
    by (auto simp: dispatcher_unregister_def)
  ultimately show ?thesis by (auto simp: owed_def)
qed

text \<open>Commands sent through the runtime do not consult the safety manager, nor report to it.\<close>

lemma runtime_execute_unguarded:
  assumes "runtime_execute_command api now ext command args rt = Some (res, rt')"
  shows "reg_safety (rt_registry rt') = reg_safety (rt_registry rt)"
    and "\<exists>rt''. runtime_execute_command api now ext command args
           (rt\<lparr>rt_registry := (rt_registry rt)\<lparr>reg_safety := sm\<rparr>\<rparr>) = Some (res, rt'')"
  using assms by (auto simp: runtime_execute_command_def from_iso_def to_iso_def shared_dispatcher_def)

definition recovered_runtime :: "(nat, nat, string, nat, ring, nat) ext_runtime" where
  "recovered_runtime =
     \<lparr>rt_registry = ext_registry_new\<lparr>reg_extensions := [(''cam'', 7)],
        reg_dispatcher := Some (register_isolated_extension ''cam'' [''Device''] 3 dispatcher_new)\<rparr>,
      rt_manager = camera_manager, rt_outside = 1\<rparr>"

end
