(* ===== verification/InFlight.thy ===== *)
theory InFlight
  imports Prelude
begin

text \<open>
  Requests in flight to an extension process
  (\<open>heramind-core/src/extension/isolated/in_flight.rs\<close>): every request gets an id and a oneshot
  channel, a response is routed to the channel registered under its id.

  A oneshot channel is a number; its state is what the receiver would find. Replacing or removing a
  sender that has not sent closes the channel. The counter keeps its 64 bits. The branches for a
  poisoned mutex are left out: no code under the lock panics.
\<close>

section \<open>The tracker\<close>

datatype 'r oneshot = Awaiting | Holds 'r | SenderDropped

record 'r in_flight =
  if_pending :: "(u64, nat) hash_map"
  if_next_id :: u64
  if_channels :: "'r oneshot list"

definition in_flight_new :: "'r in_flight" where
  "in_flight_new = \<lparr>if_pending = [], if_next_id = 1, if_channels = []\<rparr>"

definition drop_sender :: "nat option \<Rightarrow> 'r oneshot list \<Rightarrow> 'r oneshot list" where
  "drop_sender tx chans = (case tx of None \<Rightarrow> chans | Some c \<Rightarrow> chans[c := SenderDropped])"

text \<open>A new channel with its sender filed under an id; a sender it replaces is dropped.\<close>

definition file_sender :: "u64 \<Rightarrow> 'r in_flight \<Rightarrow> nat \<times> 'r in_flight" where
  "file_sender i s =
     (let rx = length (if_channels s) in
      (rx, s\<lparr>if_pending := hm_insert i rx (if_pending s),
             if_channels := drop_sender (hm_get (if_pending s) i) (if_channels s) @ [Awaiting]\<rparr>))"

definition next_request_id :: "'r in_flight \<Rightarrow> u64 \<times> 'r in_flight" where
  "next_request_id s = (if_next_id s, s\<lparr>if_next_id := if_next_id s + 1\<rparr>)"

definition inflight_register :: "'r in_flight \<Rightarrow> (u64 \<times> nat) \<times> 'r in_flight" where
  "inflight_register s =
     (let (i, s) = next_request_id s; (rx, s) = file_sender i s in ((i, rx), s))"

definition register_with_id :: "u64 \<Rightarrow> 'r in_flight \<Rightarrow> nat \<times> 'r in_flight" where
  "register_with_id i s = file_sender i s"

text \<open>Sending to a channel whose receiver is gone fails and is ignored: the value is lost either way.\<close>

definition inflight_complete :: "u64 \<Rightarrow> 'r \<Rightarrow> 'r in_flight \<Rightarrow> bool \<times> 'r in_flight" where
  "inflight_complete i resp s =
     (case hm_get (if_pending s) i of
        None \<Rightarrow> (False, s)
      | Some c \<Rightarrow> (True, s\<lparr>if_pending := hm_remove i (if_pending s), if_channels := (if_channels s)[c := Holds resp]\<rparr>))"

definition inflight_cancel :: "u64 \<Rightarrow> 'r in_flight \<Rightarrow> 'r in_flight" where
  "inflight_cancel i s =
     s\<lparr>if_pending := hm_remove i (if_pending s),
       if_channels := drop_sender (hm_get (if_pending s) i) (if_channels s)\<rparr>"

definition pending_count :: "'r in_flight \<Rightarrow> nat" where
  "pending_count s = length (if_pending s)"

definition cancel_all :: "'r in_flight \<Rightarrow> nat \<times> 'r in_flight" where
  "cancel_all s =
     (length (if_pending s),
      s\<lparr>if_pending := [], if_channels := fold (\<lambda>c. drop_sender (Some c)) (map snd (if_pending s)) (if_channels s)\<rparr>)"

datatype in_flight_error = RequestTimeout nat | ResponseChannelClosed

text \<open>\<open>wait_with_timeout\<close>, when it stops waiting: what the channel then holds decides, and a channel
  that still waits has run into the timeout.\<close>

definition wait_with_timeout ::
    "u64 \<Rightarrow> nat \<Rightarrow> duration \<Rightarrow> 'r in_flight \<Rightarrow> (in_flight_error, 'r) rust_result \<times> 'r in_flight" where
  "wait_with_timeout i rx limit s =
     (case if_channels s ! rx of
        Holds r \<Rightarrow> (Inr r, s)
      | SenderDropped \<Rightarrow> (Inl ResponseChannelClosed, inflight_cancel i s)
      | Awaiting \<Rightarrow> (Inl (RequestTimeout (as_millis limit)), inflight_cancel i s))"

section \<open>Histories\<close>

datatype 'r flight_op = NextIdOp | RegisterOp | RegisterWithOp u64 | CompleteOp u64 'r | CancelOp u64 | CancelAllOp

text \<open>What an operation did: under which id and channel a request was filed.\<close>

datatype 'r flight_event = Filed u64 nat | Completed u64 'r | Cancelled u64 | CancelledAll | IdTaken u64

fun flight_step :: "'r flight_op \<Rightarrow> 'r in_flight \<Rightarrow> 'r flight_event \<times> 'r in_flight" where
  "flight_step NextIdOp s = (let (i, s') = next_request_id s in (IdTaken i, s'))"
| "flight_step RegisterOp s = (let ((i, rx), s') = inflight_register s in (Filed i rx, s'))"
| "flight_step (RegisterWithOp i) s = (let (rx, s') = register_with_id i s in (Filed i rx, s'))"
| "flight_step (CompleteOp i r) s = (Completed i r, snd (inflight_complete i r s))"
| "flight_step (CancelOp i) s = (Cancelled i, inflight_cancel i s)"
| "flight_step CancelAllOp s = (CancelledAll, snd (cancel_all s))"

fun flight_run :: "'r flight_op list \<Rightarrow> 'r in_flight \<Rightarrow> 'r flight_event list \<times> 'r in_flight" where
  "flight_run [] s = ([], s)"
| "flight_run (op # ops) s =
     (let (e, s) = flight_step op s; (es, s) = flight_run ops s in (e # es, s))"

fun concerns :: "u64 \<Rightarrow> 'r flight_event \<Rightarrow> bool" where
  "concerns i (Filed j _) = (j = i)"
| "concerns i (Completed j _) = (j = i)"
| "concerns i (Cancelled j) = (j = i)"
| "concerns i CancelledAll = True"
| "concerns i (IdTaken _) = False"

text \<open>The request on channel \<open>rx\<close> is waiting under an id, or has been answered, according to the
  history.\<close>

definition waiting_in :: "'r flight_event list \<Rightarrow> u64 \<Rightarrow> nat \<Rightarrow> bool" where
  "waiting_in es i rx \<longleftrightarrow>
     (\<exists>pre mid. es = pre @ Filed i rx # mid \<and> (\<forall>e\<in>set mid. \<not> concerns i e))"

definition answered_in :: "'r flight_event list \<Rightarrow> nat \<Rightarrow> 'r \<Rightarrow> bool" where
  "answered_in es rx r \<longleftrightarrow>
     (\<exists>i pre mid post. es = pre @ Filed i rx # mid @ Completed i r # post \<and> (\<forall>e\<in>set mid. \<not> concerns i e))"

section \<open>Lemmas\<close>

lemma flight_run_append:
  "flight_run (ops @ ops') s =
     (let (es, s) = flight_run ops s; (es', s) = flight_run ops' s in (es @ es', s))"
  by (induction ops arbitrary: s) (auto split: prod.splits)

text \<open>Pending senders point to distinct waiting channels.\<close>

definition flight_ok :: "'r in_flight \<Rightarrow> bool" where
  "flight_ok s \<longleftrightarrow>
     hm_wf (if_pending s) \<and>
     (\<forall>i c. hm_get (if_pending s) i = Some c \<longrightarrow> c < length (if_channels s) \<and> if_channels s ! c = Awaiting) \<and>
     (\<forall>i j c. hm_get (if_pending s) i = Some c \<longrightarrow> hm_get (if_pending s) j = Some c \<longrightarrow> i = j)"

lemma length_drop_sender [simp]: "length (drop_sender tx chans) = length chans"
  by (simp add: drop_sender_def split: option.splits)

lemma nth_drop_sender:
  "c < length chans \<Longrightarrow> drop_sender tx chans ! c = (if tx = Some c then SenderDropped else chans ! c)"
  by (auto simp: drop_sender_def nth_list_update split: option.splits)

lemma nth_drop_all:
  "c < length chans \<Longrightarrow>
   fold (\<lambda>c. drop_sender (Some c)) cs chans ! c = (if c \<in> set cs then SenderDropped else chans ! c)"
  by (induction cs arbitrary: chans) (auto simp: nth_drop_sender)

lemma length_drop_all [simp]: "length (fold (\<lambda>c. drop_sender (Some c)) cs chans) = length chans"
  by (induction cs arbitrary: chans) auto

lemma flight_ok_file: "flight_ok s \<Longrightarrow> flight_ok (snd (file_sender i s))"
  by (auto simp: flight_ok_def file_sender_def Let_def nth_append nth_drop_sender less_SucI) (metis nat_neq_iff)+

lemma flight_ok_step: "flight_ok s \<Longrightarrow> flight_ok (snd (flight_step op s))"
proof (cases op)
  case NextIdOp
  then show "flight_ok s \<Longrightarrow> ?thesis" by (simp add: next_request_id_def flight_ok_def)
next
  case RegisterOp
  assume "flight_ok s"
  then have "flight_ok (s\<lparr>if_next_id := if_next_id s + 1\<rparr>)" by (simp add: flight_ok_def)
  from flight_ok_file [OF this, of "if_next_id s"] RegisterOp show ?thesis
    by (simp add: inflight_register_def next_request_id_def case_prod_beta)
next
  case (RegisterWithOp i)
  assume "flight_ok s"
  from flight_ok_file [OF this, of i] RegisterWithOp show ?thesis
    by (simp add: register_with_id_def case_prod_beta)
next
  case (CompleteOp i r)
  assume "flight_ok s"
  with CompleteOp show ?thesis
    by (auto simp: inflight_complete_def flight_ok_def nth_list_update split: option.splits if_splits simp del: map_of_eq_Some_iff)
next
  case (CancelOp i)
  assume "flight_ok s"
  with CancelOp show ?thesis
    by (auto simp: inflight_cancel_def flight_ok_def nth_drop_sender split: if_splits simp del: map_of_eq_Some_iff)
next
  case CancelAllOp
  then show ?thesis by (simp add: cancel_all_def flight_ok_def)
qed

lemma flight_ok_run: "flight_ok s \<Longrightarrow> flight_ok (snd (flight_run ops s))"
proof (induction ops arbitrary: s)
  case (Cons op ops)
  from Cons.IH [OF flight_ok_step [OF Cons.prems, of op]] show ?case by (simp add: case_prod_beta)
qed simp

lemma waiting_in_snoc:
  "waiting_in (es @ [e]) i c \<longleftrightarrow> e = Filed i c \<or> waiting_in es i c \<and> \<not> concerns i e"
proof
  assume "waiting_in (es @ [e]) i c"
  then obtain pre mid where m: "es @ [e] = pre @ Filed i c # mid" "\<forall>x\<in>set mid. \<not> concerns i x"
    by (auto simp: waiting_in_def)
  then show "e = Filed i c \<or> waiting_in es i c \<and> \<not> concerns i e"
    by (cases mid rule: rev_cases) (auto simp: waiting_in_def simp flip: append_Cons append_assoc)
next
  assume "e = Filed i c \<or> waiting_in es i c \<and> \<not> concerns i e"
  then show "waiting_in (es @ [e]) i c"
  proof
    assume "e = Filed i c"
    then have "es @ [e] = es @ Filed i c # []" by simp
    then show ?thesis unfolding waiting_in_def by fastforce
  next
    assume "waiting_in es i c \<and> \<not> concerns i e"
    then obtain pre mid where "es = pre @ Filed i c # mid" "\<forall>x\<in>set mid. \<not> concerns i x" "\<not> concerns i e"
      by (auto simp: waiting_in_def)
    then have "es @ [e] = pre @ Filed i c # (mid @ [e])" "\<forall>x\<in>set (mid @ [e]). \<not> concerns i x" by auto
    then show ?thesis unfolding waiting_in_def by blast
  qed
qed

lemma answered_in_snoc:
  "answered_in (es @ [e]) c r \<longleftrightarrow> answered_in es c r \<or> (\<exists>i. e = Completed i r \<and> waiting_in es i c)"
proof
  assume "answered_in (es @ [e]) c r"
  then obtain i pre mid post where m: "es @ [e] = pre @ Filed i c # mid @ Completed i r # post"
      "\<forall>x\<in>set mid. \<not> concerns i x"
    by (auto simp: answered_in_def)
  then show "answered_in es c r \<or> (\<exists>i. e = Completed i r \<and> waiting_in es i c)"
  proof (cases post rule: rev_cases)
    case Nil
    with m(1) have "(pre @ Filed i c # mid) @ [Completed i r] = es @ [e]" by simp
    with m(2) show ?thesis by (auto simp: waiting_in_def)
  next
    case (snoc post' x)
    with m(1) have "(pre @ Filed i c # mid @ Completed i r # post') @ [x] = es @ [e]" by simp
    with m(2) show ?thesis by (auto simp: answered_in_def)
  qed
next
  assume "answered_in es c r \<or> (\<exists>i. e = Completed i r \<and> waiting_in es i c)"
  then show "answered_in (es @ [e]) c r"
  proof
    assume "answered_in es c r"
    then obtain i pre mid post where "es @ [e] = pre @ Filed i c # mid @ Completed i r # (post @ [e])"
        "\<forall>x\<in>set mid. \<not> concerns i x" by (auto simp: answered_in_def)
    then show ?thesis unfolding answered_in_def by blast
  next
    assume "\<exists>i. e = Completed i r \<and> waiting_in es i c"
    then obtain i pre mid where "es @ [e] = pre @ Filed i c # mid @ Completed i r # []"
        "\<forall>x\<in>set mid. \<not> concerns i x" by (auto simp: waiting_in_def)
    then show ?thesis unfolding answered_in_def by blast
  qed
qed

text \<open>The history determines the state: what is pending and what each channel holds.\<close>

definition tracks :: "'r flight_event list \<Rightarrow> 'r in_flight \<Rightarrow> bool" where
  "tracks es s \<longleftrightarrow>
     flight_ok s \<and>
     (\<forall>i c. (hm_get (if_pending s) i = Some c) = waiting_in es i c) \<and>
     (\<forall>c r. (c < length (if_channels s) \<and> if_channels s ! c = Holds r) = answered_in es c r)"

lemma tracks_filed:
  assumes "tracks es s" and "file_sender i s = (rx, s')"
  shows "tracks (es @ [Filed i rx]) s'"
proof -
  have ok: "flight_ok s" and p: "\<And>j c. waiting_in es j c = (hm_get (if_pending s) j = Some c)"
    and a: "\<And>c r. answered_in es c r = (c < length (if_channels s) \<and> if_channels s ! c = Holds r)"
    using assms(1) by (auto simp: tracks_def)
  have "flight_ok s'" using flight_ok_file [OF ok, of i] assms(2) by simp
  moreover have "(hm_get (if_pending s') j = Some c) = waiting_in (es @ [Filed i rx]) j c" for j c
    using assms(2) by (auto simp: file_sender_def Let_def waiting_in_snoc p split: if_splits)
  moreover have "(c < length (if_channels s') \<and> if_channels s' ! c = Holds r) = answered_in (es @ [Filed i rx]) c r" for c r
    using assms(2) ok
    by (auto simp: file_sender_def Let_def answered_in_snoc a nth_append nth_drop_sender flight_ok_def less_Suc_eq
        split: if_splits)
  ultimately show ?thesis by (simp add: tracks_def)
qed

lemma tracks_step:
  assumes "tracks es s" and "flight_step op s = (e, s')"
  shows "tracks (es @ [e]) s'"
proof -
  have ok: "flight_ok s" and p: "\<And>j c. waiting_in es j c = (hm_get (if_pending s) j = Some c)"
    and a: "\<And>c r. answered_in es c r = (c < length (if_channels s) \<and> if_channels s ! c = Holds r)"
    using assms(1) by (auto simp: tracks_def)
  have ok': "flight_ok s'" using flight_ok_step [OF ok, of op] assms(2) by simp
  note simps = tracks_def ok' waiting_in_snoc answered_in_snoc p a
  show ?thesis
  proof (cases op)
    case NextIdOp
    with assms(2) show ?thesis by (auto simp: simps next_request_id_def)
  next
    case RegisterOp
    then obtain rx where e: "file_sender (if_next_id s) (s\<lparr>if_next_id := if_next_id s + 1\<rparr>) = (rx, s')"
        "e = Filed (if_next_id s) rx"
      using assms(2) by (auto simp: inflight_register_def next_request_id_def split: prod.splits)
    have "tracks es (s\<lparr>if_next_id := if_next_id s + 1\<rparr>)" using assms(1) by (simp add: tracks_def flight_ok_def)
    from tracks_filed [OF this e(1)] e(2) show ?thesis by simp
  next
    case (RegisterWithOp i)
    with assms tracks_filed [of es s i] show ?thesis by (auto simp: register_with_id_def split: prod.splits)
  next
    case (CompleteOp i r)
    with assms(2) ok show ?thesis
      by (auto simp: simps inflight_complete_def nth_list_update flight_ok_def split: option.splits if_splits simp del: map_of_eq_Some_iff)
  next
    case (CancelOp i)
    with assms(2) ok show ?thesis
      by (auto simp: simps inflight_cancel_def nth_drop_sender flight_ok_def split: if_splits simp del: map_of_eq_Some_iff)
  next
    case CancelAllOp
    have "if_channels s ! c = Awaiting" if "(j, c) \<in> set (if_pending s)" for j c
      using ok that by (simp add: flight_ok_def)
    with CancelAllOp assms(2) show ?thesis
      by (fastforce simp: simps cancel_all_def nth_drop_all split: if_splits)
  qed
qed

lemma tracks_run: "tracks es s \<Longrightarrow> flight_run ops s = (es', s') \<Longrightarrow> tracks (es @ es') s'"
proof (induction ops arbitrary: es s es')
  case (Cons op ops)
  obtain e s1 es1 where st: "flight_step op s = (e, s1)" "flight_run ops s1 = (es1, s')" "es' = e # es1"
    using Cons.prems(2) by (auto split: prod.splits)
  from Cons.IH [OF tracks_step [OF Cons.prems(1) st(1)] st(2)] st(3) show ?case by simp
qed simp

lemma tracks_new: "tracks [] in_flight_new"
  by (auto simp: tracks_def in_flight_new_def flight_ok_def waiting_in_def answered_in_def)

fun takes_id :: "'r flight_op \<Rightarrow> bool" where
  "takes_id RegisterOp = True"
| "takes_id NextIdOp = True"
| "takes_id _ = False"

lemma step_next_id: "if_next_id (snd (flight_step op s)) = (if takes_id op then if_next_id s + 1 else if_next_id s)"
  by (cases op) (auto simp: next_request_id_def inflight_register_def register_with_id_def file_sender_def
      inflight_complete_def inflight_cancel_def cancel_all_def Let_def split: option.splits)

lemma registered_id:
  "flight_run ops s = (es, s') \<Longrightarrow> k < length ops \<Longrightarrow> ops ! k = RegisterOp \<Longrightarrow>
   \<exists>rx. es ! k = Filed (if_next_id s + of_nat (length (filter takes_id (take k ops)))) rx"
proof (induction ops arbitrary: s es k)
  case (Cons op ops)
  obtain e s1 es1 where st: "flight_step op s = (e, s1)" "flight_run ops s1 = (es1, s')" "es = e # es1"
    using Cons.prems(1) by (auto split: prod.splits)
  show ?case
  proof (cases k)
    case 0
    with Cons.prems(3) st show ?thesis
      by (auto simp: inflight_register_def next_request_id_def split: prod.splits)
  next
    case (Suc k')
    have "if_next_id s1 = (if takes_id op then if_next_id s + 1 else if_next_id s)"
      using step_next_id [of op s] st(1) by simp
    with Cons.IH [OF st(2), of k'] Cons.prems(2,3) Suc st(3) show ?thesis by (auto simp: algebra_simps)
  qed
qed simp

lemma of_nat_u64_inj: "(of_nat m :: u64) = of_nat n \<Longrightarrow> m < 2 ^ 64 \<Longrightarrow> n < 2 ^ 64 \<Longrightarrow> m = n"
  by (simp add: word_of_nat_eq_iff take_bit_nat_eq_self)

section \<open>Properties\<close>

text \<open>C40. Over any history of registrations, responses and cancellations, in any order, a caller
  receives a response exactly when one was given for the id its request was filed under, while the
  request was still filed: after the registration, and before any other registration, response or
  cancellation under that id. Responses never reach another caller, and none is lost or replaced.\<close>

theorem responses_reach_their_caller:
  assumes "flight_run ops in_flight_new = (es, s)" and "rx < length (if_channels s)"
  shows "(\<exists>s'. wait_with_timeout i rx limit s = (Inr r, s')) \<longleftrightarrow> answered_in es rx r"
proof -
  have "tracks es s" using tracks_run [OF tracks_new assms(1)] by simp
  with assms(2) have "answered_in es rx r \<longleftrightarrow> if_channels s ! rx = Holds r" by (auto simp: tracks_def)
  then show ?thesis by (auto simp: wait_with_timeout_def split: oneshot.splits)
qed

text \<open>Two requests registered through \<open>register\<close> have different ids, and neither has the id 0 that
  the initialisation uses, as long as fewer than 2^64 - 1 operations are made.\<close>

lemma request_ids_distinct:
  assumes "flight_run ops in_flight_new = (es, s)" and "length ops < 2 ^ 64 - 1"
    and "a < b" and "b < length ops" and "ops ! a = RegisterOp" and "ops ! b = RegisterOp"
  shows "\<exists>i j rx ry. es ! a = Filed i rx \<and> es ! b = Filed j ry \<and> i \<noteq> j \<and> i \<noteq> 0 \<and> j \<noteq> 0"
proof -
  define n where "n k = length (filter takes_id (take k ops))" for k
  have id: "\<exists>rx. es ! k = Filed (of_nat (n k + 1)) rx" if "k < length ops" "ops ! k = RegisterOp" for k
    using registered_id [OF assms(1) that] by (simp add: n_def in_flight_new_def algebra_simps)
  have small: "n k \<le> length ops" for k
    unfolding n_def by (rule order.trans [OF length_filter_le]) simp
  have "n (Suc a) = n a + 1"
    using assms(3-5) by (simp add: n_def take_Suc_conv_app_nth)
  moreover have "n (Suc a) \<le> n b"
  proof -
    have "take b ops = take (Suc a) ops @ drop (Suc a) (take b ops)"
      using assms(3) by (metis Suc_leI append_take_drop_id min.absorb1 take_take)
    then show ?thesis by (metis (no_types) filter_append length_append le_add1 n_def)
  qed
  ultimately have "n a < n b" by simp
  then have "(of_nat (n a + 1) :: u64) \<noteq> of_nat (n b + 1)" "(of_nat (n a + 1) :: u64) \<noteq> 0" "(of_nat (n b + 1) :: u64) \<noteq> 0"
    using of_nat_u64_inj [of "n a + 1" "n b + 1"] of_nat_u64_inj [of "n a + 1" 0] of_nat_u64_inj [of "n b + 1" 0]
      small [of a] small [of b] assms(2) by auto
  with id [of a] id [of b] assms(3-6) show ?thesis by fastforce
qed

definition two_calls :: "nat flight_op list" where
  "two_calls = [RegisterOp, RegisterOp, CompleteOp 2 20, CompleteOp 1 10]"

lemma two_calls_run:
  "flight_run two_calls in_flight_new =
     ([Filed 1 0, Filed 2 1, Completed 2 20, Completed 1 10],
      \<lparr>if_pending = [], if_next_id = 3, if_channels = [Holds 10, Holds 20]\<rparr>)"
  by (simp add: two_calls_def in_flight_new_def inflight_register_def next_request_id_def file_sender_def
      inflight_complete_def drop_sender_def)

theorem responses_reach_their_caller_witness:
  "answered_in [Filed 1 0, Filed 2 1, Completed 2 20, Completed 1 10] 1 (20 :: nat)"
  using responses_reach_their_caller [OF two_calls_run, where rx = 1 and i = 2 and limit = 0 and r = 20]
  by (simp add: wait_with_timeout_def)

end
