(* ===== verification/SlidingWindow.thy ===== *)
theory SlidingWindow
  imports Prelude
begin

text \<open>
  The contract of a log of event times per key that forgets old events: at a later time the events that
  still count are those that were logged and still count. The API's rate limiter and the counter of the
  authentication throttle both keep such a log; what bounds the events in every window is proved here
  once.
\<close>

definition few_in_window :: "nat \<Rightarrow> duration \<Rightarrow> instant list \<Rightarrow> bool" where
  "few_in_window m w acc \<longleftrightarrow> (\<forall>a. length (filter (\<lambda>t. a \<le> t \<and> t < a + w) acc) \<le> m)"

lemma few_in_window_Nil [simp]: "few_in_window m w []"
  by (simp add: few_in_window_def)

locale sliding_log =
  fixes step :: "'op \<Rightarrow> 's \<Rightarrow> 'k option \<times> 's"
    and time_of :: "'op \<Rightarrow> instant"
    and log :: "'s \<Rightarrow> 'k \<Rightarrow> instant list"
    and inv :: "'s \<Rightarrow> bool"
    and counts :: "'s \<Rightarrow> instant \<Rightarrow> instant \<Rightarrow> bool"
    and width :: "'s \<Rightarrow> duration"
  assumes step_inv: "inv s \<Longrightarrow> inv (snd (step op s))"
    and step_counts: "counts (snd (step op s)) = counts s"
    and step_log: "inv s \<Longrightarrow> time_of op \<le> t \<Longrightarrow>
      filter (counts s t) (log (snd (step op s)) j) =
      filter (counts s t) (log s j @ (if fst (step op s) = Some j then [time_of op] else []))"
    and counts_window: "a \<le> now \<Longrightarrow> now < a + width s \<Longrightarrow> a \<le> t \<Longrightarrow> counts s now t"
begin

text \<open>From a time on, the log of a key has the same events in force as a list.\<close>

definition follows :: "'k \<Rightarrow> instant list \<Rightarrow> instant \<Rightarrow> 's \<Rightarrow> bool" where
  "follows key acc t0 s \<longleftrightarrow> inv s \<and> (\<forall>t\<ge>t0. filter (counts s t) (log s key) = filter (counts s t) acc)"

lemma follows_inv: "follows key acc t0 s \<Longrightarrow> inv s"
  by (simp add: follows_def)

lemma follows_at: "follows key acc t0 s \<Longrightarrow> t0 \<le> t \<Longrightarrow> filter (counts s t) (log s key) = filter (counts s t) acc"
  by (simp add: follows_def)

lemma follows_step:
  assumes "follows key acc t0 s" "t0 \<le> time_of op"
  shows "follows key (if fst (step op s) = Some key then acc @ [time_of op] else acc) (time_of op) (snd (step op s))"
  using assms step_inv [of s op] step_log [of s op] by (auto simp: follows_def step_counts)

text \<open>An event that finds fewer than \<open>m\<close> in force leaves at most \<open>m\<close> in every window.\<close>

lemma few_in_window_snoc:
  assumes "few_in_window m (width s) acc" "length (filter (counts s now) acc) < m"
  shows "few_in_window m (width s) (acc @ [now])"
  unfolding few_in_window_def
proof
  fix a
  let ?P = "\<lambda>t. a \<le> t \<and> t < a + width s"
  show "length (filter ?P (acc @ [now])) \<le> m"
  proof (cases "?P now")
    case False
    then show ?thesis using assms(1) by (auto simp: few_in_window_def)
  next
    case True
    then have "filter ?P acc = filter ?P (filter (counts s now) acc)"
      by (auto simp: filter_filter counts_window intro!: filter_cong)
    then have "length (filter ?P acc) \<le> length (filter (counts s now) acc)" by (metis length_filter_le)
    with True assms(2) show ?thesis by simp
  qed
qed

end

end
