(* ===== verification/AuthThrottle.thy ===== *)
theory AuthThrottle
  imports SlidingWindow
begin

text \<open>
  The brute-force throttle of the public authentication endpoints
  (\<open>heramind-api/src/auth_users.rs\<close>): a counter of recent events per key, and the two counters the
  login and sign-up endpoints use.

  Times are readings of the monotonic clock, on which a difference saturates at zero. The counter
  checks and records in two separate calls; \<open>times[0]\<close> exists wherever it is read because the two
  counters that are built have positive limits.
\<close>

section \<open>The sliding-window counter\<close>

record sliding_counter =
  wc_events :: "(string, instant list) hash_map"
  wc_max_events :: nat
  wc_window :: duration

definition SWEEP_THRESHOLD :: nat where
  "SWEEP_THRESHOLD = 10000"

definition sliding_counter_new :: "nat \<Rightarrow> duration \<Rightarrow> sliding_counter" where
  "sliding_counter_new m w = \<lparr>wc_events = [], wc_max_events = m, wc_window = w\<rparr>"

definition recent :: "sliding_counter \<Rightarrow> instant \<Rightarrow> instant list \<Rightarrow> instant list" where
  "recent c now evs = filter (\<lambda>t. elapsed_since now t < wc_window c) evs"

definition counter_check :: "instant \<Rightarrow> string \<Rightarrow> sliding_counter \<Rightarrow> (nat, unit) rust_result \<times> sliding_counter" where
  "counter_check now key c =
     (case hm_get (wc_events c) key of
        None \<Rightarrow> (Inr (), c)
      | Some evs \<Rightarrow>
          let evs = recent c now evs; c' = c\<lparr>wc_events := hm_insert key evs (wc_events c)\<rparr> in
          if wc_max_events c \<le> length evs
          then (Inl (max (as_secs (wc_window c - elapsed_since now (evs ! 0))) 1), c')
          else (Inr (), c'))"

definition counter_record :: "instant \<Rightarrow> string \<Rightarrow> sliding_counter \<Rightarrow> sliding_counter" where
  "counter_record now key c =
     (let events = (if SWEEP_THRESHOLD < length (wc_events c)
                    then filter (\<lambda>(_, ts). ts \<noteq> []) (map (\<lambda>(k, ts). (k, recent c now ts)) (wc_events c))
                    else wc_events c);
          evs = (case hm_get events key of Some ts \<Rightarrow> ts | None \<Rightarrow> []) in
      c\<lparr>wc_events := hm_insert key (evs @ [now]) events\<rparr>)"

definition counter_clear :: "string \<Rightarrow> sliding_counter \<Rightarrow> sliding_counter" where
  "counter_clear key c = c\<lparr>wc_events := hm_remove key (wc_events c)\<rparr>"

section \<open>The throttle\<close>

record auth_throttle =
  login_failures :: sliding_counter
  signup_attempts :: sliding_counter

definition throttle_production :: auth_throttle where
  "throttle_production =
     \<lparr>login_failures = sliding_counter_new 5 (from_secs (15 * 60)),
      signup_attempts = sliding_counter_new 10 (from_secs (15 * 60))\<rparr>"

text \<open>The first 64 characters of the name; a character is a byte that does not continue one.\<close>

fun take_chars :: "nat \<Rightarrow> string \<Rightarrow> string" where
  "take_chars n [] = []"
| "take_chars n (c # cs) =
     (let continues = (let k = (of_char c :: nat) in 128 \<le> k \<and> k < 192) in
      if continues then c # take_chars n cs
      else case n of 0 \<Rightarrow> [] | Suc m \<Rightarrow> c # take_chars m cs)"

definition login_user_key :: "string \<Rightarrow> string" where
  "login_user_key username = ''fail:u:'' @ take_chars 64 username"

definition login_ip_key :: "string \<Rightarrow> string" where
  "login_ip_key ip = ''fail:ip:'' @ ip"

definition check_login_throttle ::
    "instant \<Rightarrow> string \<Rightarrow> string option \<Rightarrow> auth_throttle \<Rightarrow> (nat, unit) rust_result \<times> auth_throttle" where
  "check_login_throttle now username ip th =
     (let (res, c) = counter_check now (login_user_key username) (login_failures th);
          th = th\<lparr>login_failures := c\<rparr> in
      case res of
        Inl secs \<Rightarrow> (Inl secs, th)
      | Inr _ \<Rightarrow>
          (case ip of
             None \<Rightarrow> (Inr (), th)
           | Some addr \<Rightarrow>
               let (res, c) = counter_check now (login_ip_key addr) (login_failures th) in
               (res, th\<lparr>login_failures := c\<rparr>)))"

definition record_login_failure :: "instant \<Rightarrow> string \<Rightarrow> string option \<Rightarrow> auth_throttle \<Rightarrow> auth_throttle" where
  "record_login_failure now username ip th =
     (let c = counter_record now (login_user_key username) (login_failures th);
          c = (case ip of None \<Rightarrow> c | Some addr \<Rightarrow> counter_record now (login_ip_key addr) c) in
      th\<lparr>login_failures := c\<rparr>)"

definition clear_login_throttle :: "string \<Rightarrow> string option \<Rightarrow> auth_throttle \<Rightarrow> auth_throttle" where
  "clear_login_throttle username ip th =
     (let c = counter_clear (login_user_key username) (login_failures th);
          c = (case ip of None \<Rightarrow> c | Some addr \<Rightarrow> counter_clear (login_ip_key addr) c) in
      th\<lparr>login_failures := c\<rparr>)"

definition signup_key :: "string \<Rightarrow> string \<Rightarrow> string" where
  "signup_key action ip = action @ '':ip:'' @ ip"

definition check_signup_throttle ::
    "instant \<Rightarrow> string \<Rightarrow> string option \<Rightarrow> auth_throttle \<Rightarrow> (nat, unit) rust_result \<times> auth_throttle" where
  "check_signup_throttle now action ip th =
     (case ip of
        None \<Rightarrow> (Inr (), th)
      | Some addr \<Rightarrow>
          let (res, c) = counter_check now (signup_key action addr) (signup_attempts th) in
          (res, th\<lparr>signup_attempts := c\<rparr>))"

definition record_signup_attempt :: "instant \<Rightarrow> string \<Rightarrow> string option \<Rightarrow> auth_throttle \<Rightarrow> auth_throttle" where
  "record_signup_attempt now action ip th =
     (case ip of None \<Rightarrow> th
      | Some addr \<Rightarrow> th\<lparr>signup_attempts := counter_record now (signup_key action addr) (signup_attempts th)\<rparr>)"

section \<open>Login attempts\<close>

text \<open>What checking the credentials answers, and what the login endpoint then tells the throttle.\<close>

datatype login_answer = LoginAccepted | BadCredentials | LoginError

definition login_settle :: "instant \<Rightarrow> string \<Rightarrow> string option \<Rightarrow> login_answer \<Rightarrow> auth_throttle \<Rightarrow> auth_throttle" where
  "login_settle now username ip answer th =
     (case answer of
        LoginAccepted \<Rightarrow> clear_login_throttle username ip th
      | BadCredentials \<Rightarrow> record_login_failure now username ip th
      | LoginError \<Rightarrow> th)"

text \<open>The login endpoint asks the throttle, evaluates the credentials, which takes bcrypt's time, and only then tells the
  throttle: three steps with nothing held in between, so the steps of different requests mix. A request that the throttle
  let through is pending until its credentials have been evaluated and the throttle has been told.\<close>

record login_system =
  ls_throttle :: auth_throttle
  ls_pending :: "(string \<times> string option) list"

datatype login_move = LoginAsked instant string "string option" | LoginSettled instant string "string option" login_answer

fun move_time :: "login_move \<Rightarrow> instant" where
  "move_time (LoginAsked t _ _) = t"
| "move_time (LoginSettled t _ _ _) = t"

fun login_move_step :: "login_move \<Rightarrow> login_system \<Rightarrow> (nat, login_answer option) rust_result \<times> login_system" where
  "login_move_step (LoginAsked now username ip) s =
     (case check_login_throttle now username ip (ls_throttle s) of
        (Inl secs, th) \<Rightarrow> (Inl secs, s\<lparr>ls_throttle := th\<rparr>)
      | (Inr _, th) \<Rightarrow> (Inr None, \<lparr>ls_throttle = th, ls_pending = (username, ip) # ls_pending s\<rparr>))"
| "login_move_step (LoginSettled now username ip answer) s =
     (if (username, ip) \<in> set (ls_pending s)
      then (Inr (Some answer), \<lparr>ls_throttle = login_settle now username ip answer (ls_throttle s),
                                ls_pending = remove1 (username, ip) (ls_pending s)\<rparr>)
      else (Inr None, s))"

text \<open>The times at which wrong credentials of a name were evaluated, since its last successful login.\<close>

fun login_run :: "string \<Rightarrow> login_move list \<Rightarrow> instant list \<Rightarrow> login_system \<Rightarrow> instant list \<times> login_system" where
  "login_run key [] acc s = (acc, s)"
| "login_run key (m # ms) acc s =
     (let (res, s) = login_move_step m s;
          acc = (case m of
                   LoginAsked now username ip \<Rightarrow> acc
                 | LoginSettled now username ip answer \<Rightarrow>
                     if login_user_key username \<noteq> key then acc
                     else if res = Inr (Some BadCredentials) then acc @ [now]
                     else if res = Inr (Some LoginAccepted) then [] else acc) in
      login_run key ms acc s)"

text \<open>At no moment of the run are more than \<open>c\<close> log-ins of the name under way at once.\<close>

definition pending_for :: "string \<Rightarrow> login_system \<Rightarrow> nat" where
  "pending_for key s = length (filter (\<lambda>(u, _). login_user_key u = key) (ls_pending s))"

fun overlap_at_most :: "nat \<Rightarrow> string \<Rightarrow> login_move list \<Rightarrow> login_system \<Rightarrow> bool" where
  "overlap_at_most c key [] s \<longleftrightarrow> pending_for key s \<le> c"
| "overlap_at_most c key (m # ms) s \<longleftrightarrow> pending_for key s \<le> c \<and> overlap_at_most c key ms (snd (login_move_step m s))"

text \<open>A request that nothing interrupts.\<close>

definition guarded_login ::
    "instant \<Rightarrow> string \<Rightarrow> string option \<Rightarrow> login_answer \<Rightarrow> auth_throttle \<Rightarrow> (nat, login_answer) rust_result \<times> auth_throttle" where
  "guarded_login now username ip answer th =
     (case check_login_throttle now username ip th of
        (Inl secs, th) \<Rightarrow> (Inl secs, th)
      | (Inr _, th) \<Rightarrow> (Inr answer, login_settle now username ip answer th))"

section \<open>Lemmas\<close>

abbreviation counter_wf :: "sliding_counter \<Rightarrow> bool" where
  "counter_wf c \<equiv> hm_wf (wc_events c)"

definition events_of :: "sliding_counter \<Rightarrow> string \<Rightarrow> instant list" where
  "events_of c key = (case hm_get (wc_events c) key of Some ts \<Rightarrow> ts | None \<Rightarrow> [])"

lemma recent_twice: "now \<le> t \<Longrightarrow> recent c t (recent c now evs) = recent c t evs"
  by (auto simp: recent_def elapsed_since_def filter_filter intro!: filter_cong)

lemma recent_append [simp]: "recent c t (xs @ ys) = recent c t xs @ recent c t ys"
  by (simp add: recent_def)

lemma recent_Nil [simp]: "recent c t [] = []"
  by (simp add: recent_def)

lemma recent_update [simp]: "recent (c\<lparr>wc_events := e\<rparr>) = recent c"
  by (intro ext) (simp add: recent_def)

lemma counter_params [simp]:
  "wc_window (counter_record now k c) = wc_window c" "wc_max_events (counter_record now k c) = wc_max_events c"
  "wc_window (counter_clear k c) = wc_window c" "wc_max_events (counter_clear k c) = wc_max_events c"
  "wc_window (snd (counter_check now k c)) = wc_window c" "wc_max_events (snd (counter_check now k c)) = wc_max_events c"
  by (auto simp: counter_record_def counter_clear_def counter_check_def Let_def split: option.splits)

lemma recent_params: "wc_window c' = wc_window c \<Longrightarrow> recent c' = recent c"
  by (intro ext) (simp add: recent_def)

lemma events_of_check:
  "events_of (snd (counter_check now k c)) key = (if key = k then recent c now (events_of c k) else events_of c key)"
  by (auto simp: counter_check_def events_of_def Let_def split: option.splits)

lemma counter_check_ok: "fst (counter_check now k c) = Inr () \<longleftrightarrow>
    length (recent c now (events_of c k)) < wc_max_events c \<or> hm_get (wc_events c) k = None"
  by (auto simp: counter_check_def events_of_def Let_def split: option.splits)

lemma swept_events:
  assumes "hm_wf (m :: (string, instant list) hash_map)"
  shows "hm_wf (filter (\<lambda>(_, ts). ts \<noteq> []) (map (\<lambda>(k, ts). (k, f ts)) m))"
    and "(case hm_get (filter (\<lambda>(_, ts). ts \<noteq> []) (map (\<lambda>(k, ts). (k, f ts)) m)) key of Some ts \<Rightarrow> ts | None \<Rightarrow> []) =
         (case hm_get m key of Some ts \<Rightarrow> f ts | None \<Rightarrow> [])"
proof -
  have wf: "hm_wf (map (\<lambda>(k, ts). (k, f ts)) m)" using assms by (simp add: comp_def case_prod_beta)
  then show "hm_wf (filter (\<lambda>(_, ts). ts \<noteq> []) (map (\<lambda>(k, ts). (k, f ts)) m))" by (rule distinct_map_filter)
  have "hm_get (map (\<lambda>(k, ts). (k, f ts)) m) key = map_option f (hm_get m key)"
    by (induction m) auto
  then show "(case hm_get (filter (\<lambda>(_, ts). ts \<noteq> []) (map (\<lambda>(k, ts). (k, f ts)) m)) key of Some ts \<Rightarrow> ts | None \<Rightarrow> []) =
         (case hm_get m key of Some ts \<Rightarrow> f ts | None \<Rightarrow> [])"
    by (auto simp: hm_get_filter [OF wf] split: option.splits)
qed

lemma events_of_record:
  assumes "counter_wf c"
  shows "counter_wf (counter_record now k c)"
    and "events_of (counter_record now k c) key =
      (let old = (if SWEEP_THRESHOLD < length (wc_events c) then recent c now (events_of c key) else events_of c key) in
       if key = k then old @ [now] else old)"
proof -
  define m where "m = (if SWEEP_THRESHOLD < length (wc_events c)
      then filter (\<lambda>(_, ts). ts \<noteq> []) (map (\<lambda>(k, ts). (k, recent c now ts)) (wc_events c)) else wc_events c)"
  have m: "hm_wf m" "(case hm_get m j of Some ts \<Rightarrow> ts | None \<Rightarrow> []) =
      (if SWEEP_THRESHOLD < length (wc_events c) then recent c now (events_of c j) else events_of c j)" for j
    using swept_events [OF assms, of "recent c now"] assms by (auto simp: m_def events_of_def split: option.splits)
  have r: "counter_record now k c = c\<lparr>wc_events := hm_insert k ((case hm_get m k of Some ts \<Rightarrow> ts | None \<Rightarrow> []) @ [now]) m\<rparr>"
    by (simp add: counter_record_def m_def Let_def)
  show "counter_wf (counter_record now k c)" using m(1) by (simp add: r)
  show "events_of (counter_record now k c) key =
      (let old = (if SWEEP_THRESHOLD < length (wc_events c) then recent c now (events_of c key) else events_of c key) in
       if key = k then old @ [now] else old)"
    using m(2) [of k] m(2) [of key] by (simp add: r events_of_def [of "_\<lparr>wc_events := _\<rparr>"])
qed

text \<open>The counter as a log: a check logs nothing, a record its time. An event counts until it is as old as
  the window. Clearing a key is beyond the contract.\<close>

datatype counter_op = CountCheck instant string | CountRecord instant string

fun counter_time :: "counter_op \<Rightarrow> instant" where
  "counter_time (CountCheck t _) = t"
| "counter_time (CountRecord t _) = t"

fun counter_step :: "counter_op \<Rightarrow> sliding_counter \<Rightarrow> string option \<times> sliding_counter" where
  "counter_step (CountCheck t k) c = (None, snd (counter_check t k c))"
| "counter_step (CountRecord t k) c = (Some k, counter_record t k c)"

definition in_force :: "sliding_counter \<Rightarrow> instant \<Rightarrow> instant \<Rightarrow> bool" where
  "in_force c now t \<longleftrightarrow> elapsed_since now t < wc_window c"

lemma recent_in_force: "recent c now = filter (in_force c now)"
  by (intro ext) (auto simp: recent_def in_force_def intro!: filter_cong)

interpretation counted: sliding_log counter_step counter_time events_of counter_wf in_force wc_window
proof unfold_locales
  fix op c t j
  show "in_force (snd (counter_step op c)) = in_force c"
    by (cases op) (simp_all add: in_force_def fun_eq_iff)
  assume wf: "counter_wf c"
  show "counter_wf (snd (counter_step op c))"
    using wf events_of_record(1) [OF wf]
    by (cases op) (auto simp: counter_check_def Let_def split: option.splits)
  assume t: "counter_time op \<le> t"
  show "filter (in_force c t) (events_of (snd (counter_step op c)) j) =
      filter (in_force c t) (events_of c j @ (if fst (counter_step op c) = Some j then [counter_time op] else []))"
    using t recent_twice [of "counter_time op" t c] unfolding recent_in_force [symmetric]
    by (cases op) (simp_all add: events_of_check events_of_record(2) [OF wf] Let_def)
qed (auto simp: in_force_def elapsed_since_def)

lemmas follows_check = counted.follows_step [where op = "CountCheck now k" for now k, simplified]
lemma follows_record:
  "counted.follows key acc t0 c \<Longrightarrow> t0 \<le> now \<Longrightarrow>
     counted.follows key (if key = k then acc @ [now] else acc) now (counter_record now k c)"
  using counted.follows_step [of key acc t0 c "CountRecord now k"] by (cases "key = k") simp_all

lemma follows_clear:
  assumes "counted.follows key acc t0 c"
  shows "counted.follows key (if key = k then [] else acc) t0 (counter_clear k c)"
proof -
  have "in_force (counter_clear k c) = in_force c" by (simp add: in_force_def fun_eq_iff)
  with assms show ?thesis by (auto simp: counted.follows_def counter_clear_def events_of_def)
qed

lemma keys_differ: "login_user_key u \<noteq> login_ip_key a"
  by (simp add: login_user_key_def login_ip_key_def)

lemma check_login_follows:
  assumes "counted.follows key acc t0 (login_failures th)" "t0 \<le> now"
    and "check_login_throttle now username ip th = (res, th')"
  shows "counted.follows key acc now (login_failures th') \<and>
         wc_max_events (login_failures th') = wc_max_events (login_failures th) \<and>
         wc_window (login_failures th') = wc_window (login_failures th) \<and>
         (res = Inr () \<longrightarrow> fst (counter_check now (login_user_key username) (login_failures th)) = Inr ())"
proof -
  let ?c1 = "snd (counter_check now (login_user_key username) (login_failures th))"
  have f1: "counted.follows key acc now ?c1" by (rule follows_check [OF assms(1,2)])
  have f2: "counted.follows key acc now (snd (counter_check now k ?c1))" for k by (rule follows_check [OF f1 order_refl])
  show ?thesis using f1 f2 assms(3)
    by (auto simp: check_login_throttle_def case_prod_beta Let_def split: sum.splits option.splits)
qed

lemma record_login_follows:
  assumes "counted.follows key acc now (login_failures th)" and "\<And>a. key \<noteq> login_ip_key a"
  shows "counted.follows key (if key = login_user_key username then acc @ [now] else acc) now
           (login_failures (record_login_failure now username ip th))"
proof -
  have f1: "counted.follows key (if key = login_user_key username then acc @ [now] else acc) now
      (counter_record now (login_user_key username) (login_failures th))" (is "counted.follows key ?acc now ?c")
    by (rule follows_record [OF assms(1) order_refl])
  have "counted.follows key ?acc now (counter_record now (login_ip_key a) ?c)" for a
    using follows_record [OF f1 order_refl, of "login_ip_key a"] assms(2) by simp
  with f1 show ?thesis by (auto simp: record_login_failure_def Let_def split: option.splits)
qed

lemma clear_login_follows:
  assumes "counted.follows key acc now (login_failures th)" and "\<And>a. key \<noteq> login_ip_key a"
  shows "counted.follows key (if key = login_user_key username then [] else acc) now
           (login_failures (clear_login_throttle username ip th))"
proof -
  have f1: "counted.follows key (if key = login_user_key username then [] else acc) now
      (counter_clear (login_user_key username) (login_failures th))" (is "counted.follows key ?acc now ?c")
    by (rule follows_clear [OF assms(1)])
  have "counted.follows key ?acc now (counter_clear (login_ip_key a) ?c)" for a
    using follows_clear [OF f1, of "login_ip_key a"] assms(2) by simp
  with f1 show ?thesis by (auto simp: clear_login_throttle_def Let_def split: option.splits)
qed

lemma login_params:
  "wc_max_events (login_failures (login_settle now u ip answer th)) = wc_max_events (login_failures th)"
  "wc_window (login_failures (login_settle now u ip answer th)) = wc_window (login_failures th)"
  by (auto simp: login_settle_def record_login_failure_def clear_login_throttle_def Let_def split: option.splits login_answer.splits)

lemma settle_follows:
  assumes "counted.follows key acc now (login_failures th)" and "key = login_user_key name"
  shows "counted.follows key (if login_user_key username \<noteq> key then acc else if answer = BadCredentials then acc @ [now]
           else if answer = LoginAccepted then [] else acc) now (login_failures (login_settle now username ip answer th))"
  using record_login_follows [OF assms(1), of username ip] clear_login_follows [OF assms(1), of username ip] assms keys_differ
  by (cases answer) (auto simp: login_settle_def)

text \<open>What is left of the budget: in every window that is still open, the evaluated wrong passwords and the requests under way
  together stay under the limit plus the overlap.\<close>

definition budget_left :: "nat \<Rightarrow> duration \<Rightarrow> nat \<Rightarrow> instant \<Rightarrow> instant list \<Rightarrow> nat \<Rightarrow> bool" where
  "budget_left m w c now acc pending \<longleftrightarrow> pending \<le> c \<and> (\<forall>a. now < a + w \<longrightarrow> length (filter (\<lambda>t. a \<le> t) acc) + pending \<le> m + c)"

lemma budget_mono: "budget_left m w c now acc p \<Longrightarrow> now \<le> now' \<Longrightarrow> p' \<le> p \<Longrightarrow> budget_left m w c now' acc p'"
  unfolding budget_left_def by (meson add_left_mono le_trans order_le_less_trans)

lemma budget_checked:
  assumes "length (filter (in_force cn now) acc) \<le> m" and "p \<le> c" and "0 < wc_window cn"
  shows "budget_left m (wc_window cn) c now acc p"
proof -
  have "length (filter (\<lambda>t. a \<le> t) acc) \<le> m" if "now < a + wc_window cn" for a
  proof -
    have "filter (\<lambda>t. a \<le> t) acc = filter (\<lambda>t. a \<le> t) (filter (in_force cn now) acc)"
      using that assms(3) by (auto simp: filter_filter in_force_def elapsed_since_def intro!: filter_cong)
    then show ?thesis using assms(1) by (metis length_filter_le le_trans)
  qed
  with assms(2) show ?thesis by (auto simp: budget_left_def add_mono)
qed

lemma budget_recorded:
  assumes "budget_left m w c now acc p" and "0 < p" and "few_in_window (m + c) w acc"
  shows "budget_left m w c now (acc @ [now]) (p - 1) \<and> few_in_window (m + c) w (acc @ [now])"
proof
  have "length (filter (\<lambda>t. a \<le> t) (acc @ [now])) + (p - 1) \<le> m + c" if "now < a + w" for a
    using assms(1,2) that by (cases "a \<le> now") (auto simp: budget_left_def dest!: spec [of _ a])
  then show "budget_left m w c now (acc @ [now]) (p - 1)" using assms(1) by (auto simp: budget_left_def)
  have "length (filter (\<lambda>t. a \<le> t \<and> t < a + w) (acc @ [now])) \<le> m + c" for a
  proof (cases "a \<le> now \<and> now < a + w")
    case True
    then have "length (filter (\<lambda>t. a \<le> t) acc) + p \<le> m + c" using assms(1) by (simp add: budget_left_def)
    moreover have "length (filter (\<lambda>t. a \<le> t \<and> t < a + w) acc) \<le> length (filter (\<lambda>t. a \<le> t) acc)"
      using length_filter_le [of "\<lambda>t. t < a + w" "filter (\<lambda>t. a \<le> t) acc"] by (simp add: conj_commute)
    ultimately show ?thesis using True assms(2) by simp
  next
    case False
    then show ?thesis using assms(3) by (auto simp: few_in_window_def)
  qed
  then show "few_in_window (m + c) w (acc @ [now])" by (simp add: few_in_window_def)
qed

lemma pending_removed:
  "(u, ip) \<in> set (ls_pending s) \<Longrightarrow> pending_for key \<lparr>ls_throttle = th, ls_pending = remove1 (u, ip) (ls_pending s)\<rparr> =
     pending_for key s - (if login_user_key u = key then 1 else 0) \<and> (login_user_key u = key \<longrightarrow> 0 < pending_for key s)"
  by (auto simp: pending_for_def filter_remove1 length_remove1 length_pos_if_in_set filter_empty_conv intro!: length_pos_if_in_set)

lemma overlap_now: "overlap_at_most c key ms s \<Longrightarrow> pending_for key s \<le> c"
  by (cases ms) simp_all

text \<open>A run of log-ins as far as it concerns one name: the throttle's log follows the guesses, the budget is kept.\<close>

definition throttled :: "nat \<Rightarrow> duration \<Rightarrow> nat \<Rightarrow> string \<Rightarrow> instant list \<Rightarrow> instant \<Rightarrow> login_system \<Rightarrow> bool" where
  "throttled m w c key acc now s \<longleftrightarrow> counted.follows key acc now (login_failures (ls_throttle s)) \<and>
     wc_max_events (login_failures (ls_throttle s)) = Suc m \<and> wc_window (login_failures (ls_throttle s)) = w \<and>
     budget_left m w c now acc (pending_for key s) \<and> few_in_window (m + c) w acc"

lemma throttled_asked:
  assumes "throttled m w c key acc t0 s" "t0 \<le> now" "key = login_user_key name" "0 < w"
    and "login_move_step (LoginAsked now username ip) s = (res, s')" "pending_for key s' \<le> c"
  shows "throttled m w c key acc now s'"
proof -
  obtain r th where chk: "check_login_throttle now username ip (ls_throttle s) = (r, th)" by fastforce
  from assms(1) have inv: "counted.follows key acc t0 (login_failures (ls_throttle s))"
    "budget_left m w c t0 acc (pending_for key s)" by (simp_all add: throttled_def)
  note c1 = check_login_follows [OF inv(1) assms(2) chk]
  have "budget_left m w c now acc (pending_for key s')"
  proof (cases "r = Inr () \<and> login_user_key username = key")
    case True
    with c1 have "length (recent (login_failures (ls_throttle s)) now (events_of (login_failures (ls_throttle s)) key)) \<le> m"
      using assms(1) by (auto simp: counter_check_ok events_of_def throttled_def)
    then have "length (filter (in_force (login_failures (ls_throttle s)) now) acc) \<le> m"
      using counted.follows_at [OF inv(1) assms(2)] by (simp add: recent_in_force)
    from budget_checked [OF this assms(6)] assms(1,4) show ?thesis by (simp add: throttled_def)
  next
    case False
    then have "pending_for key s' = pending_for key s"
      using assms(5) chk by (cases r) (auto simp: pending_for_def)
    then show ?thesis using budget_mono [OF inv(2) assms(2)] by simp
  qed
  with c1 assms(1,5) chk show ?thesis by (cases r) (auto simp: throttled_def)
qed

lemma throttled_settled:
  assumes "throttled m w c key acc t0 s" "t0 \<le> now" "key = login_user_key name" "(username, ip) \<in> set (ls_pending s)"
    and "login_move_step (LoginSettled now username ip answer) s = (res, s')"
  shows "throttled m w c key (if login_user_key username \<noteq> key then acc else if answer = BadCredentials then acc @ [now]
           else if answer = LoginAccepted then [] else acc) now s'"
proof -
  from assms(1,2) have inv: "counted.follows key acc now (login_failures (ls_throttle s))"
    "budget_left m w c now acc (pending_for key s)" "few_in_window (m + c) w acc"
    by (auto simp: throttled_def counted.follows_def intro: budget_mono)
  have s': "s' = \<lparr>ls_throttle = login_settle now username ip answer (ls_throttle s), ls_pending = remove1 (username, ip) (ls_pending s)\<rparr>"
    using assms(4,5) by simp
  have p: "pending_for key s' = pending_for key s - (if login_user_key username = key then 1 else 0)"
    "login_user_key username = key \<Longrightarrow> 0 < pending_for key s"
    using pending_removed [OF assms(4), of key] unfolding s' by auto
  have none: "budget_left m w c now [] (pending_for key s')" using inv(2) p(1) by (auto simp: budget_left_def)
  have less: "budget_left m w c now acc (pending_for key s')" using budget_mono [OF inv(2) order_refl] p(1) by simp
  from settle_follows [OF inv(1) assms(3), of username answer ip] none less budget_recorded [OF inv(2) p(2) inv(3)] inv(3) p(1) assms(1)
  show ?thesis unfolding throttled_def s' by (auto simp: login_params)
qed

lemma login_run_bounded:
  assumes "throttled m w c key acc t0 s" "key = login_user_key name" "0 < w" "sorted (t0 # map move_time ms)"
    and "overlap_at_most c key ms s" "login_run key ms acc s = (acc', s')"
  shows "few_in_window (m + c) w acc'"
  using assms
proof (induction ms arbitrary: acc s t0)
  case (Cons x ms)
  obtain res s1 where step: "login_move_step x s = (res, s1)" by fastforce
  have t: "t0 \<le> move_time x" "sorted (move_time x # map move_time ms)" using Cons.prems(4) by auto
  have rest: "overlap_at_most c key ms s1" using Cons.prems(5) step by simp
  show ?case
  proof (cases x)
    case (LoginAsked now username ip)
    have "throttled m w c key acc now s1"
      using throttled_asked [OF Cons.prems(1) _ Cons.prems(2,3)] t(1) step overlap_now [OF rest] LoginAsked by simp
    from Cons.IH [OF this Cons.prems(2,3) _ rest] show ?thesis using Cons.prems(6) t(2) step LoginAsked by simp
  next
    case (LoginSettled now username ip answer)
    show ?thesis
    proof (cases "(username, ip) \<in> set (ls_pending s)")
      case True
      from throttled_settled [OF Cons.prems(1) _ Cons.prems(2) True] t(1) step LoginSettled
      have "throttled m w c key (if login_user_key username \<noteq> key then acc else if answer = BadCredentials then acc @ [now]
           else if answer = LoginAccepted then [] else acc) now s1" by simp
      moreover have "login_run key ms (if login_user_key username \<noteq> key then acc else if answer = BadCredentials then acc @ [now]
           else if answer = LoginAccepted then [] else acc) s1 = (acc', s')"
        using Cons.prems(6) step LoginSettled True by (cases answer) (auto split: if_splits)
      ultimately show ?thesis using Cons.IH [OF _ Cons.prems(2,3) _ rest] t(2) LoginSettled by simp
    next
      case False
      have "throttled m w c key acc now s"
        using Cons.prems(1) t(1) LoginSettled by (auto simp: throttled_def counted.follows_def intro: budget_mono)
      moreover from False LoginSettled step have "s1 = s" "res = Inr None" by auto
      ultimately show ?thesis using Cons.IH [OF _ Cons.prems(2,3) _ rest, of acc now] Cons.prems(6) t(2) LoginSettled step
        by (auto split: if_splits)
    qed
  qed
qed (simp add: throttled_def)

section \<open>Properties\<close>

text \<open>C29. However many login attempts are made, from however many addresses, for whatever names, and however the requests
  overlap: with at most \<open>c\<close> log-ins of a name under way at once and a clock that does not go back, in no interval of fifteen
  minutes are more than \<open>4 + c\<close> wrong passwords evaluated for the name since its last successful login; with one request after
  the other these are the five of the limit. Requests under way at once all pass the check before any of them is counted.\<close>

theorem password_guesses_bounded:
  assumes "login_run (login_user_key name) moves [] \<lparr>ls_throttle = throttle_production, ls_pending = []\<rparr> = (guesses, s)"
    and "sorted (map move_time moves)"
    and "overlap_at_most c (login_user_key name) moves \<lparr>ls_throttle = throttle_production, ls_pending = []\<rparr>"
  shows "length (filter (\<lambda>t. a \<le> t \<and> t < a + from_secs (15 * 60)) guesses) \<le> 4 + c"
proof -
  have "throttled 4 (from_secs (15 * 60)) c (login_user_key name) [] 0 \<lparr>ls_throttle = throttle_production, ls_pending = []\<rparr>"
    by (simp add: throttled_def counted.follows_def throttle_production_def sliding_counter_new_def events_of_def
        pending_for_def budget_left_def)
  from login_run_bounded [OF this refl _ _ assms(3,1)] assms(2) show ?thesis
    by (simp add: few_in_window_def from_secs_def)
qed

text \<open>A successful login of any account clears the counter of the address it came from.\<close>

lemma success_clears_address:
  assumes "guarded_login now username (Some addr) LoginAccepted th = (Inr LoginAccepted, th')"
  shows "hm_get (wc_events (login_failures th')) (login_ip_key addr) = None"
  using assms keys_differ
  by (auto simp: guarded_login_def login_settle_def clear_login_throttle_def counter_clear_def split: sum.splits prod.splits)

lemmas throttle_run_defs = throttle_production_def sliding_counter_new_def login_settle_def check_login_throttle_def
  record_login_failure_def counter_check_def counter_record_def recent_def elapsed_since_def from_secs_def SWEEP_THRESHOLD_def

text \<open>Six guesses one after the other: the sixth is refused.\<close>

definition six_guesses :: "login_move list" where
  "six_guesses = concat (map (\<lambda>t. [LoginAsked t ''admin'' None, LoginSettled t ''admin'' None BadCredentials]) [1, 2, 3, 4, 5, 6])"

lemma six_guesses_run:
  "login_run (login_user_key ''admin'') six_guesses [] \<lparr>ls_throttle = throttle_production, ls_pending = []\<rparr> =
     ([1, 2, 3, 4, 5], \<lparr>ls_throttle = throttle_production\<lparr>login_failures := (login_failures throttle_production)
        \<lparr>wc_events := [(login_user_key ''admin'', [1, 2, 3, 4, 5])]\<rparr>\<rparr>, ls_pending = []\<rparr>)"
  "overlap_at_most 1 (login_user_key ''admin'') six_guesses \<lparr>ls_throttle = throttle_production, ls_pending = []\<rparr>"
  by (simp_all add: six_guesses_def throttle_run_defs pending_for_def Let_def)

text \<open>Six guesses at once: all are evaluated, and the account is locked only afterwards.\<close>

lemma concurrent_guesses_evaluated:
  "fst (login_run (login_user_key ''admin'')
      (map (\<lambda>t. LoginAsked t ''admin'' None) [1, 2, 3, 4, 5, 6] @
       map (\<lambda>t. LoginSettled t ''admin'' None BadCredentials) [7, 8, 9, 10, 11, 12]) []
      \<lparr>ls_throttle = throttle_production, ls_pending = []\<rparr>) = [7, 8, 9, 10, 11, 12]"
  by (simp add: throttle_run_defs Let_def)

theorem password_guesses_bounded_witness:
  "length (filter (\<lambda>t. 0 \<le> t \<and> t < 0 + from_secs (15 * 60)) [1, 2, 3, 4, 5 :: instant]) \<le> 4 + 1"
  using password_guesses_bounded [OF six_guesses_run(1) _ six_guesses_run(2), of 0] by (simp add: six_guesses_def)

end
