(* ===== verification/AuthUsers.thy ===== *)
theory AuthUsers
  imports AuthThrottle Json
begin

text \<open>
  User accounts, sessions and tokens of the API server (\<open>heramind-api/src/auth_users.rs\<close>), with the
  endpoints' own checks from \<open>handlers/auth_users.rs\<close> and \<open>handlers/setup.rs\<close>.

  The cryptographic and encoding libraries are the parameter \<open>auth_crypto\<close>. The database file is the
  record \<open>auth_db\<close>: a row of the user and session tables is what the binary codec reads from it, or
  \<open>None\<close> when it cannot, and a table that does not exist is an empty one. Every access of the database
  gets a db_fault: \<open>None\<close> when it succeeds and the text of the error otherwise, after which nothing is
  changed. Each operation reads the clock once. The in-memory store of the tests (path \<open>:memory:\<close>) is
  left out.
\<close>

section \<open>Data\<close>

datatype user_role = RoleAdmin | RoleUser | RoleViewer

fun role_as_str :: "user_role \<Rightarrow> string" where
  "role_as_str RoleAdmin = ''admin''"
| "role_as_str RoleUser = ''user''"
| "role_as_str RoleViewer = ''viewer''"

definition role_parse :: "string \<Rightarrow> user_role option" where
  "role_parse s =
     (if s = ''admin'' then Some RoleAdmin else if s = ''user'' then Some RoleUser
      else if s = ''viewer'' then Some RoleViewer else None)"

record user =
  u_id :: string
  u_username :: string
  u_password_hash :: string
  u_role :: user_role
  u_created_at :: int
  u_last_login :: "int option"
  u_active :: bool

record session_info =
  si_user_id :: string
  si_username :: string
  si_role :: user_role
  si_created_at :: int
  si_expires_at :: int

record user_info =
  ui_id :: string
  ui_username :: string
  ui_role :: user_role
  ui_created_at :: int

datatype auth_error =
    InvalidCredentials
  | UserExists
  | UserNotFound
  | UserDisabled
  | InvalidToken string
  | ExpiredToken
  | SessionRevoked
  | AuthInvalidInput string
  | AuthDatabaseError string
  | RegistrationDisabled
  | TooManyAttempts nat

fun show_auth_error :: "auth_error \<Rightarrow> string" where
  "show_auth_error InvalidCredentials = ''Invalid username or password''"
| "show_auth_error UserExists = ''User already exists''"
| "show_auth_error UserNotFound = ''User not found''"
| "show_auth_error UserDisabled = ''User account is disabled''"
| "show_auth_error (InvalidToken m) = ''Invalid token: '' @ m"
| "show_auth_error ExpiredToken = ''Token has expired''"
| "show_auth_error SessionRevoked = ''Session has been revoked''"
| "show_auth_error (AuthInvalidInput m) = ''Invalid input: '' @ m"
| "show_auth_error (AuthDatabaseError m) = ''Database error: '' @ m"
| "show_auth_error RegistrationDisabled =
     ''Self-registration is disabled. Ask an administrator to create your account.''"
| "show_auth_error (TooManyAttempts n) =
     ''Too many attempts '' @ map char_of [0xE2, 0x80, 0x94 :: nat] @ '' try again in '' @ show_nat n @ '' seconds''"

definition auth_error_response :: "auth_error \<Rightarrow> nat \<times> json" where
  "auth_error_response e =
     (let reply = (\<lambda>status message. (status, JObject [(''error'', JString message), (''status'', JInt (int status))])) in
      case e of
        InvalidCredentials \<Rightarrow> reply 401 ''Invalid username or password''
      | UserExists \<Rightarrow> reply 409 ''User already exists''
      | UserNotFound \<Rightarrow> reply 404 ''User not found''
      | UserDisabled \<Rightarrow> reply 403 ''User account is disabled''
      | InvalidToken m \<Rightarrow> reply 401 m
      | ExpiredToken \<Rightarrow> reply 401 ''Token has expired''
      | SessionRevoked \<Rightarrow> reply 401 ''Session has been revoked''
      | AuthInvalidInput m \<Rightarrow> reply 400 m
      | AuthDatabaseError m \<Rightarrow> reply 500 m
      | RegistrationDisabled \<Rightarrow>
          reply 403 ''Self-registration is disabled. Ask an administrator to create your account.''
      | TooManyAttempts secs \<Rightarrow>
          (429, JObject [(''error'', JString (show_auth_error e)), (''status'', JInt 429), (''retry_after'', JInt (int secs))]))"

text \<open>\<open>String::from_utf8\<close> accepts the bytes: one to four bytes per character, no overlong forms, no
  surrogates, nothing above U+10FFFF.\<close>

definition utf8_cont :: "char \<Rightarrow> bool" where
  "utf8_cont c \<longleftrightarrow> (let k = (of_char c :: nat) in 128 \<le> k \<and> k < 192)"

fun utf8_valid :: "string \<Rightarrow> bool" where
  "utf8_valid [] = True"
| "utf8_valid (a # s) =
     (let k = (of_char a :: nat) in
      if k < 128 then utf8_valid s
      else case s of
        [] \<Rightarrow> False
      | b # s2 \<Rightarrow>
          let l = (of_char b :: nat) in
          if 194 \<le> k \<and> k < 224 then utf8_cont b \<and> utf8_valid s2
          else (case s2 of
            [] \<Rightarrow> False
          | c # s3 \<Rightarrow>
              if 224 \<le> k \<and> k < 240
              then utf8_cont b \<and> (k = 224 \<longrightarrow> 160 \<le> l) \<and> (k = 237 \<longrightarrow> l < 160) \<and> utf8_cont c \<and> utf8_valid s3
              else (case s3 of
                [] \<Rightarrow> False
              | d # s4 \<Rightarrow>
                  240 \<le> k \<and> k < 245 \<and> utf8_cont b \<and> (k = 240 \<longrightarrow> 144 \<le> l) \<and> (k = 244 \<longrightarrow> l < 144) \<and>
                  utf8_cont c \<and> utf8_cont d \<and> utf8_valid s4)))"

record auth_crypto =
  bcrypt_hash :: "string \<Rightarrow> nat \<Rightarrow> (string, string) rust_result"
  bcrypt_verify :: "string \<Rightarrow> string \<Rightarrow> bool"
  sha256_hex :: "string \<Rightarrow> string"
  hmac_b64 :: "string \<Rightarrow> string \<Rightarrow> string"
  b64_encode :: "string \<Rightarrow> string"
  b64_decode :: "string \<Rightarrow> string option"
  json_to_string :: "json \<Rightarrow> string"
  json_from_str :: "string \<Rightarrow> json option"

definition token_key :: "auth_crypto \<Rightarrow> string \<Rightarrow> string" where
  "token_key cr token = sha256_hex cr token"

definition JWT_CLOCK_SKEW_SECS :: int where
  "JWT_CLOCK_SKEW_SECS = 30"

section \<open>The database\<close>

record auth_db =
  adb_exists :: bool
  adb_users :: "(string, user option) hash_map"
  adb_sessions :: "(string, session_info option) hash_map"
  adb_allow_registration :: "string option"

type_synonym db_fault = "string option"

definition load_users_from_db :: "db_fault \<Rightarrow> auth_db \<Rightarrow> (string, (string, user) hash_map) rust_result" where
  "load_users_from_db fl db =
     (if \<not> adb_exists db then Inr []
      else case fl of
        Some e \<Rightarrow> Inl e
      | None \<Rightarrow>
          collect_results (map (\<lambda>(k, r). case r of Some u \<Rightarrow> Inr (k, u) | None \<Rightarrow> Inl ''decode'') (adb_users db)))"

definition unexpired :: "int \<Rightarrow> session_info \<Rightarrow> bool" where
  "unexpired now info \<longleftrightarrow> si_expires_at info + JWT_CLOCK_SKEW_SECS > now"

text \<open>The read and the purge of expired rows open the database separately.\<close>

definition load_sessions_from_db ::
    "db_fault \<Rightarrow> db_fault \<Rightarrow> int \<Rightarrow> auth_db \<Rightarrow> (string, session_info) hash_map \<times> auth_db" where
  "load_sessions_from_db rfl wfl now db =
     (if \<not> adb_exists db \<or> rfl \<noteq> None then ([], db)
      else
        let rows = List.map_filter (\<lambda>(k, r). map_option (Pair k) r) (adb_sessions db);
            expired = map fst (filter (\<lambda>(_, i). \<not> unexpired now i) rows) in
        (filter (\<lambda>(_, i). unexpired now i) rows,
         if expired = [] \<or> wfl \<noteq> None then db
         else db\<lparr>adb_sessions := fold hm_remove expired (adb_sessions db)\<rparr>))"

definition save_session_to_db :: "db_fault \<Rightarrow> string \<Rightarrow> session_info \<Rightarrow> auth_db \<Rightarrow> auth_db" where
  "save_session_to_db fl key info db =
     (if fl \<noteq> None then db
      else db\<lparr>adb_exists := True, adb_sessions := hm_insert key (Some info) (adb_sessions db)\<rparr>)"

text \<open>The faults of a revocation: opening the database, reading the table, and writing it twice.\<close>

record revoke_faults =
  rv_open :: db_fault
  rv_read :: db_fault
  rv_write :: db_fault

definition no_revoke_faults :: revoke_faults where
  "no_revoke_faults = \<lparr>rv_open = None, rv_read = None, rv_write = None\<rparr>"

text \<open>The result says whether the revocation is on disk. A table that cannot be read gives no keys to
  remove, which counts as done.\<close>

definition delete_user_sessions_from_db :: "revoke_faults \<Rightarrow> string \<Rightarrow> auth_db \<Rightarrow> bool \<times> auth_db" where
  "delete_user_sessions_from_db fl username db =
     (if \<not> adb_exists db then (True, db)
      else if rv_open fl \<noteq> None then (False, db)
      else
        let keys = (if rv_read fl \<noteq> None then []
                    else map fst (filter (\<lambda>(_, r). case r of Some i \<Rightarrow> si_username i = username | None \<Rightarrow> False)
                           (adb_sessions db))) in
        if keys = [] then (True, db)
        else if rv_write fl \<noteq> None then (False, db)
        else (True, db\<lparr>adb_sessions := fold hm_remove keys (adb_sessions db)\<rparr>))"

definition delete_session_from_db :: "db_fault \<Rightarrow> string \<Rightarrow> auth_db \<Rightarrow> auth_db" where
  "delete_session_from_db fl key db =
     (if \<not> adb_exists db \<or> fl \<noteq> None then db else db\<lparr>adb_sessions := hm_remove key (adb_sessions db)\<rparr>)"

definition save_user_to_db :: "db_fault \<Rightarrow> user \<Rightarrow> auth_db \<Rightarrow> (string, unit) rust_result \<times> auth_db" where
  "save_user_to_db fl u db =
     (case fl of
        Some e \<Rightarrow> (Inl e, db)
      | None \<Rightarrow> (Inr (), db\<lparr>adb_exists := True, adb_users := hm_insert (u_username u) (Some u) (adb_users db)\<rparr>))"

definition delete_user_from_db :: "db_fault \<Rightarrow> string \<Rightarrow> auth_db \<Rightarrow> (string, unit) rust_result \<times> auth_db" where
  "delete_user_from_db fl username db =
     (if \<not> adb_exists db then (Inr (), db)
      else case fl of
        Some e \<Rightarrow> (Inl e, db)
      | None \<Rightarrow> (Inr (), db\<lparr>adb_users := hm_remove username (adb_users db)\<rparr>))"

definition load_allow_registration :: "db_fault \<Rightarrow> auth_db \<Rightarrow> bool" where
  "load_allow_registration fl db \<longleftrightarrow> adb_exists db \<and> fl = None \<and> adb_allow_registration db = Some ''true''"

definition save_allow_registration :: "db_fault \<Rightarrow> bool \<Rightarrow> auth_db \<Rightarrow> auth_db" where
  "save_allow_registration fl allow db =
     (if fl \<noteq> None then db
      else db\<lparr>adb_exists := True, adb_allow_registration := Some (if allow then ''true'' else ''false'')\<rparr>)"

section \<open>The state\<close>

record auth_state =
  as_users :: "(string, user) hash_map"
  as_sessions :: "(string, session_info) hash_map"
  as_jwt_secret :: string
  as_session_duration :: int
  as_allow_registration :: bool
  as_throttle :: auth_throttle
  as_db :: auth_db

definition auth_boot :: "db_fault \<Rightarrow> db_fault \<Rightarrow> db_fault \<Rightarrow> db_fault \<Rightarrow> int \<Rightarrow> string \<Rightarrow> auth_db \<Rightarrow> auth_state" where
  "auth_boot ufl afl srfl swfl now secret db =
     (let users = (case load_users_from_db ufl db of Inr us \<Rightarrow> us | Inl _ \<Rightarrow> []);
          allow = load_allow_registration afl db;
          (sessions, db) = load_sessions_from_db srfl swfl now db in
      \<lparr>as_users = users, as_sessions = sessions, as_jwt_secret = secret, as_session_duration = 7 * 24 * 60 * 60,
       as_allow_registration = allow, as_throttle = throttle_production, as_db = db\<rparr>)"

definition set_allow_registration :: "db_fault \<Rightarrow> bool \<Rightarrow> auth_state \<Rightarrow> auth_state" where
  "set_allow_registration fl allow st =
     st\<lparr>as_allow_registration := allow, as_db := save_allow_registration fl allow (as_db st)\<rparr>"

definition revoke_user_sessions :: "revoke_faults \<Rightarrow> string \<Rightarrow> auth_state \<Rightarrow> auth_state" where
  "revoke_user_sessions fl username st =
     st\<lparr>as_sessions := filter (\<lambda>(_, i). si_username i \<noteq> username) (as_sessions st),
        as_db := snd (delete_user_sessions_from_db fl username (as_db st))\<rparr>"

section \<open>Passwords and tokens\<close>

definition hash_password :: "auth_crypto \<Rightarrow> nat \<Rightarrow> string \<Rightarrow> (auth_error, string) rust_result" where
  "hash_password cr salt password =
     map_err (\<lambda>e. AuthInvalidInput (''Password could not be hashed (likely too long; bcrypt limit is 72 bytes): '' @ e))
       (bcrypt_hash cr password salt)"

definition verify_password :: "auth_crypto \<Rightarrow> string \<Rightarrow> string \<Rightarrow> bool" where
  "verify_password cr password hash =
     (if starts_with hash ''fallback_hash_'' then False
      else if starts_with hash ''$2'' then bcrypt_verify cr password hash
      else sha256_hex cr password = hash)"

definition token_payload :: "auth_state \<Rightarrow> int \<Rightarrow> user \<Rightarrow> json" where
  "token_payload st now u =
     JObject [(''sub'', JString (u_id u)), (''username'', JString (u_username u)),
              (''role'', JString (role_as_str (u_role u))), (''iat'', JInt now),
              (''exp'', JInt (now + as_session_duration st))]"

definition generate_token :: "auth_crypto \<Rightarrow> auth_state \<Rightarrow> int \<Rightarrow> user \<Rightarrow> string" where
  "generate_token cr st now u =
     (let header = b64_encode cr (json_to_string cr (JObject [(''alg'', JString ''HS256''), (''typ'', JString ''JWT'')]));
          payload = b64_encode cr (json_to_string cr (token_payload st now u));
          signature = hmac_b64 cr (as_jwt_secret st) (header @ ''.'' @ payload) in
      header @ ''.'' @ payload @ ''.'' @ signature)"

fun xor_bytes :: "8 word \<Rightarrow> (char \<times> char) list \<Rightarrow> 8 word" where
  "xor_bytes r [] = r"
| "xor_bytes r ((x, y) # ps) = xor_bytes (or r (xor (of_char x) (of_char y))) ps"

definition constant_time_eq_str :: "string \<Rightarrow> string \<Rightarrow> bool" where
  "constant_time_eq_str a b = (if length a \<noteq> length b then False else xor_bytes 0 (zip a b) = 0)"

text \<open>\<open>payload["k"].as_str()\<close> and \<open>.as_i64()\<close>: an absent key is null.\<close>

definition payload_str :: "json \<Rightarrow> string \<Rightarrow> string option" where
  "payload_str j k = Option.bind (json_at [k] j) (\<lambda>v. case v of JString s \<Rightarrow> Some s | _ \<Rightarrow> None)"

definition payload_i64 :: "json \<Rightarrow> string \<Rightarrow> int option" where
  "payload_i64 j k = Option.bind (json_at [k] j)
     (\<lambda>v. case v of JInt i \<Rightarrow> if - (2 ^ 63) \<le> i \<and> i < 2 ^ 63 then Some i else None | _ \<Rightarrow> None)"

definition session_of_payload :: "json \<Rightarrow> session_info" where
  "session_of_payload j =
     \<lparr>si_user_id = unwrap_or (payload_str j ''sub'') [], si_username = unwrap_or (payload_str j ''username'') [],
      si_role = unwrap_or (role_parse (unwrap_or (payload_str j ''role'') ''user'')) RoleUser,
      si_created_at = unwrap_or (payload_i64 j ''iat'') 0, si_expires_at = unwrap_or (payload_i64 j ''exp'') 0\<rparr>"

definition validate_token :: "auth_crypto \<Rightarrow> int \<Rightarrow> auth_state \<Rightarrow> string \<Rightarrow> (auth_error, session_info) rust_result" where
  "validate_token cr now st token =
     (case split_on (CHR ''.'') token of
        [h, p, sig] \<Rightarrow>
          if \<not> constant_time_eq_str sig (hmac_b64 cr (as_jwt_secret st) (h @ ''.'' @ p))
          then Inl (InvalidToken ''Invalid signature'')
          else (case b64_decode cr p of
             None \<Rightarrow> Inl (InvalidToken ''Invalid payload encoding'')
           | Some bytes \<Rightarrow>
               if \<not> utf8_valid bytes then Inl (InvalidToken ''Invalid payload UTF-8'')
               else (case json_from_str cr bytes of
                  None \<Rightarrow> Inl (InvalidToken ''Invalid payload JSON'')
                | Some payload \<Rightarrow>
                    if unwrap_or (payload_i64 payload ''exp'') 0 + JWT_CLOCK_SKEW_SECS < now then Inl ExpiredToken
                    else if \<not> hm_contains (as_sessions st) (token_key cr token) then Inl SessionRevoked
                    else Inr (session_of_payload payload)))
      | _ \<Rightarrow> Inl (InvalidToken ''Invalid token format''))"

section \<open>Operations\<close>

definition session_for :: "auth_state \<Rightarrow> int \<Rightarrow> string \<Rightarrow> string \<Rightarrow> user_role \<Rightarrow> session_info" where
  "session_for st now uid username role =
     \<lparr>si_user_id = uid, si_username = username, si_role = role, si_created_at = now,
      si_expires_at = now + as_session_duration st\<rparr>"

definition auth_register ::
    "auth_crypto \<Rightarrow> db_fault \<Rightarrow> db_fault \<Rightarrow> nat \<Rightarrow> uuid \<Rightarrow> int \<Rightarrow> string \<Rightarrow> string \<Rightarrow> user_role \<Rightarrow> auth_state \<Rightarrow>
     (auth_error, user_info \<times> string) rust_result \<times> auth_state" where
  "auth_register cr ufl sfl salt fresh now username password role st =
     (if length username < 3 then (Inl (AuthInvalidInput ''Username must be at least 3 characters''), st)
      else if length password < 6 then (Inl (AuthInvalidInput ''Password must be at least 6 characters''), st)
      else if hm_contains (as_users st) username then (Inl UserExists, st)
      else (case hash_password cr salt password of
         Inl e \<Rightarrow> (Inl e, st)
       | Inr h \<Rightarrow>
           let u = \<lparr>u_id = fresh, u_username = username, u_password_hash = h, u_role = role, u_created_at = now,
                    u_last_login = None, u_active = True\<rparr> in
           (case save_user_to_db ufl u (as_db st) of
              (Inl e, db) \<Rightarrow> (Inl (AuthDatabaseError (''Failed to save user: '' @ e)), st\<lparr>as_db := db\<rparr>)
            | (Inr _, db) \<Rightarrow>
                let st = st\<lparr>as_db := db, as_users := hm_insert username u (as_users st)\<rparr>;
                    token = generate_token cr st now u;
                    info = session_for st now fresh username role;
                    key = token_key cr token;
                    st = st\<lparr>as_db := save_session_to_db sfl key info (as_db st),
                            as_sessions := hm_insert key info (as_sessions st)\<rparr> in
                (Inr (\<lparr>ui_id = fresh, ui_username = username, ui_role = role, ui_created_at = now\<rparr>, token), st))))"

text \<open>The credentials: the user in memory, or after a wrong password the one in the database when its
  hash differs and fits. The result is the id, role and creation time the session gets, and the users
  with a replaced hash.\<close>

definition check_credentials ::
    "auth_crypto \<Rightarrow> db_fault \<Rightarrow> string \<Rightarrow> string \<Rightarrow> auth_state \<Rightarrow>
     (auth_error, (string \<times> user_role \<times> int) \<times> (string, user) hash_map) rust_result" where
  "check_credentials cr fl username password st =
     (case hm_get (as_users st) username of
        None \<Rightarrow> Inl InvalidCredentials
      | Some u \<Rightarrow>
          if \<not> u_active u then Inl UserDisabled
          else if verify_password cr password (u_password_hash u)
          then Inr ((u_id u, u_role u, u_created_at u), as_users st)
          else (case load_users_from_db fl (as_db st) of
             Inl _ \<Rightarrow> Inl InvalidCredentials
           | Inr db_users \<Rightarrow>
               (case hm_get db_users username of
                  None \<Rightarrow> Inl InvalidCredentials
                | Some d \<Rightarrow>
                    if u_password_hash d \<noteq> u_password_hash u \<and> verify_password cr password (u_password_hash d)
                    then Inr ((u_id d, u_role d, u_created_at d),
                              hm_insert username (u\<lparr>u_password_hash := u_password_hash d\<rparr>) (as_users st))
                    else Inl InvalidCredentials)))"

definition auth_login ::
    "auth_crypto \<Rightarrow> db_fault \<Rightarrow> db_fault \<Rightarrow> int \<Rightarrow> string \<Rightarrow> string \<Rightarrow> auth_state \<Rightarrow>
     (auth_error, string \<times> user_info) rust_result \<times> auth_state" where
  "auth_login cr rfl sfl now username password st =
     (case check_credentials cr rfl username password st of
        Inl e \<Rightarrow> (Inl e, st)
      | Inr ((uid, role, created), users) \<Rightarrow>
          let users = (case hm_get users username of
                         Some u \<Rightarrow> hm_insert username (u\<lparr>u_last_login := Some now\<rparr>) users | None \<Rightarrow> users);
              st = st\<lparr>as_users := users\<rparr> in
          (case hm_get users username of
             None \<Rightarrow> (Inl UserNotFound, st)
           | Some u \<Rightarrow>
               let token = generate_token cr st now u;
                   info = session_for st now uid username role;
                   key = token_key cr token;
                   st = st\<lparr>as_db := save_session_to_db sfl key info (as_db st),
                           as_sessions := filter (\<lambda>(_, i). unexpired now i) (hm_insert key info (as_sessions st))\<rparr> in
               (Inr (token, \<lparr>ui_id = uid, ui_username = username, ui_role = role, ui_created_at = created\<rparr>), st)))"

definition auth_logout :: "auth_crypto \<Rightarrow> db_fault \<Rightarrow> string \<Rightarrow> auth_state \<Rightarrow> auth_state" where
  "auth_logout cr fl token st =
     (let key = token_key cr token in
      st\<lparr>as_db := delete_session_from_db fl key (as_db st), as_sessions := hm_remove key (as_sessions st)\<rparr>)"

definition auth_list_users :: "auth_state \<Rightarrow> user_info list" where
  "auth_list_users st =
     map (\<lambda>(_, u). \<lparr>ui_id = u_id u, ui_username = u_username u, ui_role = u_role u, ui_created_at = u_created_at u\<rparr>)
       (as_users st)"

definition auth_delete_user :: "db_fault \<Rightarrow> revoke_faults \<Rightarrow> string \<Rightarrow> auth_state \<Rightarrow> (auth_error, unit) rust_result \<times> auth_state" where
  "auth_delete_user ufl sfl username st =
     (if \<not> hm_contains (as_users st) username then (Inl UserNotFound, st)
      else (case delete_user_from_db ufl username (as_db st) of
         (Inl e, db) \<Rightarrow> (Inl (AuthDatabaseError (''Failed to delete user: '' @ e)), st\<lparr>as_db := db\<rparr>)
       | (Inr _, db) \<Rightarrow>
           (Inr (), revoke_user_sessions sfl username
                      (st\<lparr>as_db := db, as_users := hm_remove username (as_users st)\<rparr>))))"

definition auth_change_password ::
    "auth_crypto \<Rightarrow> db_fault \<Rightarrow> revoke_faults \<Rightarrow> nat \<Rightarrow> string \<Rightarrow> string \<Rightarrow> string \<Rightarrow> auth_state \<Rightarrow>
     (auth_error, unit) rust_result \<times> auth_state" where
  "auth_change_password cr ufl sfl salt username old_password new_password st =
     (if length new_password < 6 then (Inl (AuthInvalidInput ''Password must be at least 6 characters''), st)
      else (case hm_get (as_users st) username of
         None \<Rightarrow> (Inl UserNotFound, st)
       | Some u \<Rightarrow>
           if \<not> verify_password cr old_password (u_password_hash u) then (Inl InvalidCredentials, st)
           else (case hash_password cr salt new_password of
              Inl e \<Rightarrow> (Inl e, st)
            | Inr h \<Rightarrow>
                let u = u\<lparr>u_password_hash := h\<rparr> in
                (case save_user_to_db ufl u (as_db st) of
                   (Inl e, db) \<Rightarrow> (Inl (AuthDatabaseError (''Failed to change password: '' @ e)), st\<lparr>as_db := db\<rparr>)
                 | (Inr _, db) \<Rightarrow>
                     (Inr (), revoke_user_sessions sfl username
                        (st\<lparr>as_db := db, as_users := hm_insert username u (as_users st)\<rparr>))))))"

section \<open>Histories\<close>

datatype auth_op =
    RegisterUser db_fault db_fault nat uuid int string string user_role
  | LoginUser db_fault db_fault int string string
  | LogoutToken db_fault string
  | DeleteUser db_fault revoke_faults string
  | ChangePassword db_fault revoke_faults nat string string string
  | SetRegistration db_fault bool

text \<open>What happened to tokens: one issued to a user, one logged out, all of a user revoked.\<close>

datatype auth_event = Issued string string | LoggedOut string | Revoked string | Nothing

fun auth_step :: "auth_crypto \<Rightarrow> auth_op \<Rightarrow> auth_state \<Rightarrow> auth_event \<times> auth_state" where
  "auth_step cr (RegisterUser ufl sfl salt fresh now name pw role) st =
     (case auth_register cr ufl sfl salt fresh now name pw role st of
        (Inr (_, token), st) \<Rightarrow> (Issued token name, st) | (Inl _, st) \<Rightarrow> (Nothing, st))"
| "auth_step cr (LoginUser rfl sfl now name pw) st =
     (case auth_login cr rfl sfl now name pw st of
        (Inr (token, _), st) \<Rightarrow> (Issued token name, st) | (Inl _, st) \<Rightarrow> (Nothing, st))"
| "auth_step cr (LogoutToken fl token) st = (LoggedOut token, auth_logout cr fl token st)"
| "auth_step cr (DeleteUser ufl sfl name) st =
     (case auth_delete_user ufl sfl name st of
        (Inr _, st) \<Rightarrow> (Revoked name, st) | (Inl _, st) \<Rightarrow> (Nothing, st))"
| "auth_step cr (ChangePassword ufl sfl salt name old new) st =
     (case auth_change_password cr ufl sfl salt name old new st of
        (Inr _, st) \<Rightarrow> (Revoked name, st) | (Inl _, st) \<Rightarrow> (Nothing, st))"
| "auth_step cr (SetRegistration fl allow) st = (Nothing, set_allow_registration fl allow st)"

fun auth_run :: "auth_crypto \<Rightarrow> auth_op list \<Rightarrow> auth_state \<Rightarrow> auth_event list \<times> auth_state" where
  "auth_run cr [] st = ([], st)"
| "auth_run cr (op # ops) st =
     (let (e, st) = auth_step cr op st; (es, st) = auth_run cr ops st in (e # es, st))"

fun cancels :: "auth_event \<Rightarrow> string \<Rightarrow> string \<Rightarrow> bool" where
  "cancels (LoggedOut t) token name = (t = token)"
| "cancels (Revoked n) token name = (n = name)"
| "cancels _ token name = False"

definition live_for :: "auth_event list \<Rightarrow> string \<Rightarrow> string \<Rightarrow> bool" where
  "live_for es token name \<longleftrightarrow>
     (\<exists>pre post. es = pre @ Issued token name # post \<and> (\<forall>e\<in>set post. \<not> cancels e token name))"

section \<open>Lemmas\<close>

lemma or_word_eq_0: "or (a :: 8 word) b = 0 \<longleftrightarrow> a = 0 \<and> b = 0"
  by (metis or_eq_0_iff)

lemma xor_word_eq_0: "xor (a :: 8 word) b = 0 \<longleftrightarrow> a = b"
proof
  assume "xor a b = 0"
  then have "xor a (xor a b) = a" by simp
  then show "a = b" by (simp add: xor.assoc [symmetric] del: xor.assoc)
qed simp

lemma of_char_word_inj: "(of_char x :: 8 word) = of_char y \<longleftrightarrow> x = y"
proof
  assume "(of_char x :: 8 word) = of_char y"
  then have "(word_of_nat (of_char x) :: 8 word) = word_of_nat (of_char y)" by (simp add: of_nat_of_char)
  then have "(of_char x :: nat) = of_char y"
    by (simp add: word_of_nat_eq_iff take_bit_nat_eq_self)
  then show "x = y" by simp
qed simp

lemma xor_bytes_0: "length a = length b \<Longrightarrow> xor_bytes r (zip a b) = 0 \<longleftrightarrow> r = 0 \<and> a = b"
proof (induction a b arbitrary: r rule: list_induct2)
  case (Cons x xs y ys)
  then show ?case by (auto simp: or_word_eq_0 xor_word_eq_0 of_char_word_inj)
qed simp

lemma live_for_snoc:
  "live_for es token name \<Longrightarrow> \<not> cancels e token name \<Longrightarrow> live_for (es @ [e]) token name"
proof -
  assume "live_for es token name" "\<not> cancels e token name"
  then obtain pre post where "es @ [e] = pre @ Issued token name # (post @ [e])"
      "\<forall>x\<in>set (post @ [e]). \<not> cancels x token name" by (auto simp: live_for_def)
  then show ?thesis unfolding live_for_def by blast
qed

lemma live_for_issued: "live_for (es @ [Issued token name]) token name"
  unfolding live_for_def by (intro exI [of _ es] exI [of _ "[]"]) simp

text \<open>Every session belongs to a token the history left alive, for the session's user.\<close>

definition sessions_live :: "auth_crypto \<Rightarrow> auth_event list \<Rightarrow> auth_state \<Rightarrow> bool" where
  "sessions_live cr es st \<longleftrightarrow>
     (\<forall>key i. (key, i) \<in> set (as_sessions st) \<longrightarrow>
        (\<exists>token. token_key cr token = key \<and> live_for es token (si_username i)))"

lemma sessions_live_keep:
  assumes "sessions_live cr es st" "set (as_sessions st') \<subseteq> set (as_sessions st)"
    and "\<And>key i token. (key, i) \<in> set (as_sessions st') \<Longrightarrow> token_key cr token = key \<Longrightarrow> \<not> cancels e token (si_username i)"
  shows "sessions_live cr (es @ [e]) st'"
  using assms live_for_snoc unfolding sessions_live_def by (metis subsetD)

lemma set_update_subset: "set (AList.update k v m) \<subseteq> insert (k, v) (set m)"
  by (induction m) auto

lemma sessions_live_issue:
  assumes "sessions_live cr es st"
    and "set (as_sessions st') \<subseteq> insert (token_key cr token, i) (set (as_sessions st))" "si_username i = name"
  shows "sessions_live cr (es @ [Issued token name]) st'"
  unfolding sessions_live_def
proof (intro allI impI)
  fix key j
  assume "(key, j) \<in> set (as_sessions st')"
  then consider "key = token_key cr token" "j = i" | "(key, j) \<in> set (as_sessions st)" using assms(2) by blast
  then show "\<exists>t. token_key cr t = key \<and> live_for (es @ [Issued token name]) t (si_username j)"
  proof cases
    case 1
    with live_for_issued assms(3) show ?thesis by metis
  next
    case 2
    with assms(1) obtain t where "token_key cr t = key" "live_for es t (si_username j)" unfolding sessions_live_def by blast
    with live_for_snoc [of es t "si_username j" "Issued token name"] show ?thesis by auto
  qed
qed

lemma register_sessions:
  assumes "auth_register cr ufl sfl salt fresh now name pw role st = (res, st')"
  shows "(\<exists>e. res = Inl e) \<and> as_sessions st' = as_sessions st \<or>
         (\<exists>ui token i. res = Inr (ui, token) \<and> si_username i = name \<and>
            set (as_sessions st') \<subseteq> insert (token_key cr token, i) (set (as_sessions st)))"
proof (cases "\<exists>e. res = Inl e")
  case True
  with assms show ?thesis by (auto simp: auth_register_def Let_def split: if_splits sum.splits prod.splits)
next
  case False
  with assms obtain st2 token ui where "res = Inr (ui, token)"
      "as_sessions st' = hm_insert (token_key cr token) (session_for st2 now fresh name role) (as_sessions st)"
    by (auto simp: auth_register_def Let_def split: if_splits sum.splits prod.splits)
  moreover have "si_username (session_for st2 now fresh name role) = name" by (simp add: session_for_def)
  ultimately show ?thesis using set_update_subset by metis
qed

lemma login_sessions:
  assumes "auth_login cr rfl sfl now name pw st = (res, st')"
  shows "(\<exists>e. res = Inl e) \<and> as_sessions st' = as_sessions st \<or>
         (\<exists>ui token i. res = Inr (token, ui) \<and> si_username i = name \<and>
            set (as_sessions st') \<subseteq> insert (token_key cr token, i) (set (as_sessions st)))"
proof (cases "check_credentials cr rfl name pw st")
  case (Inl e)
  with assms show ?thesis by (auto simp: auth_login_def)
next
  case (Inr r)
  obtain uid role created users where r: "r = ((uid, role, created), users)" by (metis prod.exhaust)
  let ?users = "case hm_get users name of Some u \<Rightarrow> hm_insert name (u\<lparr>u_last_login := Some now\<rparr>) users | None \<Rightarrow> users"
  show ?thesis
  proof (cases "hm_get ?users name")
    case None
    with Inr r assms show ?thesis by (auto simp: auth_login_def Let_def)
  next
    case (Some u)
    let ?st = "st\<lparr>as_users := ?users\<rparr>" and ?i = "session_for (st\<lparr>as_users := ?users\<rparr>) now uid name role"
    have "res = Inr (generate_token cr ?st now u, \<lparr>ui_id = uid, ui_username = name, ui_role = role, ui_created_at = created\<rparr>)"
      and "as_sessions st' = filter (\<lambda>(_, i). unexpired now i)
             (hm_insert (token_key cr (generate_token cr ?st now u)) ?i (as_sessions st))"
      using Inr r assms Some by (auto simp: auth_login_def Let_def)
    moreover have "si_username ?i = name" by (simp add: session_for_def)
    ultimately show ?thesis
      using set_update_subset [of "token_key cr (generate_token cr ?st now u)" ?i "as_sessions st"] by auto
  qed
qed

lemma delete_sessions:
  assumes "auth_delete_user ufl sfl name st = (res, st')"
  shows "(\<exists>e. res = Inl e) \<and> as_sessions st' = as_sessions st \<or>
         res = Inr () \<and> as_sessions st' = filter (\<lambda>(_, i). si_username i \<noteq> name) (as_sessions st)"
  using assms by (auto simp: auth_delete_user_def revoke_user_sessions_def split: if_splits sum.splits prod.splits)

lemma change_sessions:
  assumes "auth_change_password cr ufl sfl salt name old new st = (res, st')"
  shows "(\<exists>e. res = Inl e) \<and> as_sessions st' = as_sessions st \<or>
         res = Inr () \<and> as_sessions st' = filter (\<lambda>(_, i). si_username i \<noteq> name) (as_sessions st)"
  using assms
  by (auto simp: auth_change_password_def revoke_user_sessions_def Let_def
      split: if_splits option.splits sum.splits prod.splits)

lemma sessions_live_step:
  assumes "sessions_live cr es st" "auth_step cr op st = (e, st')"
  shows "sessions_live cr (es @ [e]) st'"
proof (cases op)
  case (RegisterUser ufl sfl salt fresh now name pw role)
  obtain res st1 where r: "auth_register cr ufl sfl salt fresh now name pw role st = (res, st1)" by fastforce
  from register_sessions [OF r] show ?thesis
    using assms r RegisterUser sessions_live_issue [OF assms(1), of st1] sessions_live_keep [OF assms(1), of st1 e]
    by (auto split: sum.splits prod.splits)
next
  case (LoginUser rfl sfl now name pw)
  obtain res st1 where r: "auth_login cr rfl sfl now name pw st = (res, st1)" by fastforce
  from login_sessions [OF r] show ?thesis
    using assms r LoginUser sessions_live_issue [OF assms(1), of st1] sessions_live_keep [OF assms(1), of st1 e]
    by (auto split: sum.splits prod.splits)
next
  case (LogoutToken fl token)
  have e: "e = LoggedOut token" "as_sessions st' = hm_remove (token_key cr token) (as_sessions st)"
    using assms(2) LogoutToken by (auto simp: auth_logout_def Let_def)
  show ?thesis
    by (rule sessions_live_keep [OF assms(1)]) (auto simp: e AList.delete_eq)
next
  case (DeleteUser ufl sfl name)
  obtain res st1 where r: "auth_delete_user ufl sfl name st = (res, st1)" by fastforce
  from delete_sessions [OF r] show ?thesis
    using assms(2) r DeleteUser by (auto intro!: sessions_live_keep [OF assms(1)])
next
  case (ChangePassword ufl sfl salt name old new)
  obtain res st1 where r: "auth_change_password cr ufl sfl salt name old new st = (res, st1)" by fastforce
  from change_sessions [OF r] show ?thesis
    using assms(2) r ChangePassword by (auto intro!: sessions_live_keep [OF assms(1)])
next
  case (SetRegistration fl allow)
  with assms(2) show ?thesis
    by (auto simp: set_allow_registration_def intro!: sessions_live_keep [OF assms(1)])
qed

lemma sessions_live_run:
  "sessions_live cr es st \<Longrightarrow> auth_run cr ops st = (es', st') \<Longrightarrow> sessions_live cr (es @ es') st'"
proof (induction ops arbitrary: es st es')
  case (Cons op ops)
  obtain e st1 es1 where st: "auth_step cr op st = (e, st1)" "auth_run cr ops st1 = (es1, st')" "es' = e # es1"
    using Cons.prems(2) by (auto split: prod.splits)
  from Cons.IH [OF sessions_live_step [OF Cons.prems(1) st(1)] st(2)] st(3) show ?case by simp
qed simp

lemma live_for_was_issued: "live_for es token name \<Longrightarrow> Issued token name \<in> set es"
  by (auto simp: live_for_def)

lemma constant_time_eq_exact: "constant_time_eq_str a b \<longleftrightarrow> a = b"
  by (cases "length a = length b") (auto simp: constant_time_eq_str_def xor_bytes_0)

lemma validated:
  "validate_token cr now st token = Inr info \<longleftrightarrow>
     (\<exists>h p bytes payload. token = h @ ''.'' @ p @ ''.'' @ hmac_b64 cr (as_jwt_secret st) (h @ ''.'' @ p) \<and>
        split_on (CHR ''.'') token = [h, p, hmac_b64 cr (as_jwt_secret st) (h @ ''.'' @ p)] \<and>
        b64_decode cr p = Some bytes \<and> utf8_valid bytes \<and> json_from_str cr bytes = Some payload \<and>
        now \<le> unwrap_or (payload_i64 payload ''exp'') 0 + JWT_CLOCK_SKEW_SECS \<and>
        hm_contains (as_sessions st) (token_key cr token) \<and> info = session_of_payload payload)"
proof -
  have j: "split_on (CHR ''.'') token = [h, p, sig] \<Longrightarrow> token = h @ ''.'' @ p @ ''.'' @ sig" for h p sig
    using join_split_on [of "CHR ''.''" token] by simp
  show ?thesis
    unfolding validate_token_def
    by (auto simp: constant_time_eq_exact dest: j split: list.splits option.splits if_splits)
qed

lemma fold_hm_remove_set: "set (fold hm_remove ks m) = {e \<in> set m. fst e \<notin> set ks}"
  by (induction ks arbitrary: m) (auto simp: AList.delete_eq)

lemma collect_rows_keys:
  "collect_results (map (\<lambda>(k, r). case r of Some u \<Rightarrow> Inr (k, u) | None \<Rightarrow> Inl e) rows) = Inr us \<Longrightarrow>
     rows = map (\<lambda>(k, u). (k, Some u)) us"
proof (induction rows arbitrary: us)
  case (Cons row rows)
  then show ?case
    by (cases row; cases "snd row"; cases "collect_results (map (\<lambda>(k, r). case r of Some u \<Rightarrow> Inr (k, u) | None \<Rightarrow> Inl e) rows)")
      auto
qed simp

section \<open>Properties\<close>

text \<open>C27. Over any history of registrations, log-ins, log-outs, deletions, password changes and storage
  faults on a server that starts without sessions, a token that validates carries the server's own
  signature and was issued to a user whose sessions were not revoked since, and has not been logged out
  since: neither a forged token nor one that was ended is accepted. The digest of the token is assumed
  to collide with no digest of an issued one.\<close>

theorem valid_tokens_are_live:
  assumes "auth_run cr ops st0 = (es, st)" "as_sessions st0 = []"
    and "validate_token cr now st token = Inr info"
    and "inj_on (token_key cr) (insert token {t. \<exists>n. Issued t n \<in> set es})"
  shows "\<exists>h p name. token = h @ ''.'' @ p @ ''.'' @ hmac_b64 cr (as_jwt_secret st) (h @ ''.'' @ p) \<and>
    live_for es token name"
proof -
  have "sessions_live cr es st"
    using sessions_live_run [of cr "[]" st0 ops es st] assms(1,2) by (simp add: sessions_live_def)
  moreover obtain i where "(token_key cr token, i) \<in> set (as_sessions st)"
    using assms(3) by (auto simp: validated)
  ultimately obtain t where t: "token_key cr t = token_key cr token" "live_for es t (si_username i)"
    unfolding sessions_live_def by blast
  with assms(4) have "t = token"
    by (auto simp: inj_on_def dest!: live_for_was_issued)
  with t assms(3) show ?thesis by (auto simp: validated)
qed

definition toy_crypto :: auth_crypto where
  "toy_crypto = \<lparr>bcrypt_hash = (\<lambda>p _. Inr (''$2'' @ p)), bcrypt_verify = (\<lambda>p h. h = ''$2'' @ p),
     sha256_hex = id, hmac_b64 = (\<lambda>k m. k), b64_encode = id, b64_decode = Some,
     json_to_string = (\<lambda>_. ''j''), json_from_str = (\<lambda>_. Some (JObject [(''exp'', JInt 100)]))\<rparr>"

definition empty_db :: auth_db where
  "empty_db = \<lparr>adb_exists = False, adb_users = [], adb_sessions = [], adb_allow_registration = None\<rparr>"

definition fresh_auth :: auth_state where
  "fresh_auth = auth_boot None None None None 0 ''k'' empty_db"

lemmas auth_run_defs = fresh_auth_def empty_db_def toy_crypto_def auth_boot_def load_users_from_db_def
  load_sessions_from_db_def load_allow_registration_def auth_register_def hash_password_def save_user_to_db_def
  generate_token_def token_key_def session_for_def save_session_to_db_def Let_def

theorem valid_tokens_are_live_witness:
  "let st = snd (auth_run toy_crypto [RegisterUser None None 0 ''u'' 0 ''ann'' ''secret'' RoleUser] fresh_auth) in
    (\<exists>h p name. ''j.j.k'' = h @ ''.'' @ p @ ''.'' @ hmac_b64 toy_crypto (as_jwt_secret st) (h @ ''.'' @ p) \<and>
      live_for [Issued ''j.j.k'' ''ann''] ''j.j.k'' name)"
proof -
  let ?r = "auth_run toy_crypto [RegisterUser None None 0 ''u'' 0 ''ann'' ''secret'' RoleUser] fresh_auth"
  have r: "?r = ([Issued ''j.j.k'' ''ann''], snd ?r)" by (simp add: auth_run_defs)
  have v: "validate_token toy_crypto 5 (snd ?r) ''j.j.k'' =
      Inr (session_of_payload (JObject [(''exp'', JInt 100)]))"
    by (simp add: validate_token_def constant_time_eq_exact auth_run_defs payload_i64_def JWT_CLOCK_SKEW_SECS_def)
  show ?thesis unfolding Let_def
    by (rule valid_tokens_are_live [OF r _ v]) (auto simp: auth_run_defs inj_on_def)
qed

lemma delete_removes_rows:
  "delete_user_sessions_from_db no_revoke_faults name db = (b, db') \<Longrightarrow> adb_exists db' \<Longrightarrow>
     (k, Some i) \<in> set (adb_sessions db') \<Longrightarrow> si_username i \<noteq> name"
  by (force simp: delete_user_sessions_from_db_def no_revoke_faults_def Let_def fold_hm_remove_set filter_empty_conv
      split: if_splits option.splits)

lemma delete_sessions_db: "snd (delete_user_sessions_from_db fl name db) = db \<or>
    (\<exists>rows. snd (delete_user_sessions_from_db fl name db) = db\<lparr>adb_sessions := rows\<rparr>)"
  by (auto simp: delete_user_sessions_from_db_def Let_def)

lemma loaded_sessions_from_rows:
  "(k, i) \<in> set (fst (load_sessions_from_db rfl wfl now db)) \<Longrightarrow> adb_exists db \<and> (k, Some i) \<in> set (adb_sessions db)"
  by (auto simp: load_sessions_from_db_def Let_def List.map_filter_def split: if_splits option.splits)

lemma loaded_users_from_rows:
  "load_users_from_db fl db = Inr us \<Longrightarrow> adb_exists db \<and> fst ` set us \<subseteq> fst ` set (adb_users db) \<or> us = []"
  by (force simp: load_users_from_db_def dest!: collect_rows_keys split: if_splits option.splits)

text \<open>C32. A deleted account stays deleted: once the deletion reports success, with its writes to the
  database done, the account cannot log in with any password, and after any later restart from that
  database (even one where reading it fails) neither the account nor any session of it comes back.\<close>

theorem deleted_user_stays_out:
  assumes "auth_delete_user None no_revoke_faults name st = (Inr (), st')"
  shows "auth_login cr rfl sfl now name pw st' = (Inl InvalidCredentials, st') \<and>
    (let st'' = auth_boot ufl afl srfl swfl later secret (as_db st') in
      \<not> hm_contains (as_users st'') name \<and> (\<forall>(k, i)\<in>set (as_sessions st''). si_username i \<noteq> name) \<and>
      fst (auth_login cr rfl sfl now name pw st'') = Inl InvalidCredentials)"
proof -
  let ?db = "(snd (delete_user_from_db None name (as_db st)))"
  let ?b = "auth_boot ufl afl srfl swfl later secret (as_db st')"
  have st': "as_users st' = hm_remove name (as_users st)" "as_db st' = snd (delete_user_sessions_from_db no_revoke_faults name ?db)"
    using assms by (auto simp: auth_delete_user_def revoke_user_sessions_def split: if_splits sum.splits prod.splits)
  have users: "adb_exists (as_db st') \<Longrightarrow> \<not> hm_contains (adb_users (as_db st')) name"
    using delete_sessions_db [of no_revoke_faults name ?db]
    by (auto simp: st' delete_user_from_db_def AList.delete_eq split: if_splits)
  have u: "\<not> hm_contains (as_users ?b) name"
    using users loaded_users_from_rows [of ufl "as_db st'"]
    by (cases "load_users_from_db ufl (as_db st')") (auto simp: auth_boot_def Let_def split: prod.splits)
  have s: "\<forall>(k, i)\<in>set (as_sessions ?b). si_username i \<noteq> name"
  proof clarify
    fix k i assume "(k, i) \<in> set (as_sessions ?b)" "name = si_username i"
    then show False
      using loaded_sessions_from_rows [of k i srfl swfl later "as_db st'"]
        delete_removes_rows [of name ?db "fst (delete_user_sessions_from_db no_revoke_faults name ?db)" "as_db st'" k i]
      by (auto simp: auth_boot_def Let_def st'(2) split: prod.splits)
  qed
  have l: "\<not> hm_contains (as_users x) name \<Longrightarrow> auth_login cr rfl sfl now name pw x = (Inl InvalidCredentials, x)" for x
    by (simp add: auth_login_def check_credentials_def map_of_eq_None_iff [THEN iffD2])
  have "\<not> hm_contains (as_users st') name" by (auto simp: st'(1) AList.delete_eq)
  then show ?thesis using u s l by (simp add: Let_def)
qed

theorem deleted_user_stays_out_witness:
  "let st = snd (auth_run toy_crypto [RegisterUser None None 0 ''u'' 0 ''ann'' ''secret'' RoleUser] fresh_auth);
       st' = snd (auth_delete_user None no_revoke_faults ''ann'' st) in
    auth_login toy_crypto None None 1 ''ann'' ''secret'' st' = (Inl InvalidCredentials, st') \<and>
    \<not> hm_contains (as_users (auth_boot None None None None 2 ''k'' (as_db st'))) ''ann''"
proof -
  let ?st = "snd (auth_run toy_crypto [RegisterUser None None 0 ''u'' 0 ''ann'' ''secret'' RoleUser] fresh_auth)"
  let ?d = "auth_delete_user None no_revoke_faults ''ann'' ?st"
  have "?d = (Inr (), snd ?d)"
    by (simp add: auth_run_defs auth_delete_user_def delete_user_from_db_def)
  from deleted_user_stays_out [OF this, of toy_crypto None None 1 "''secret''" None None None None 2 "''k''"]
  show ?thesis by (simp add: Let_def)
qed

lemma change_password_sound:
  assumes "auth_change_password cr ufl sfl salt name old new st = (Inr (), st')"
  obtains u h where "hm_get (as_users st) name = Some u" "verify_password cr old (u_password_hash u)"
    "bcrypt_hash cr new salt = Inr h" "as_users st' = hm_insert name (u\<lparr>u_password_hash := h\<rparr>) (as_users st)"
    "as_sessions st' = filter (\<lambda>(_, i). si_username i \<noteq> name) (as_sessions st)"
    "as_db st' = snd (delete_user_sessions_from_db sfl name
       ((as_db st)\<lparr>adb_exists := True,
          adb_users := hm_insert (u_username u) (Some (u\<lparr>u_password_hash := h\<rparr>)) (adb_users (as_db st))\<rparr>))"
proof (cases "bcrypt_hash cr new salt")
  case (Inl e)
  with assms show ?thesis
    by (auto simp: auth_change_password_def hash_password_def split: if_splits option.splits)
next
  case (Inr h)
  with assms obtain u where "hm_get (as_users st) name = Some u" "verify_password cr old (u_password_hash u)" "ufl = None"
    by (auto simp: auth_change_password_def hash_password_def save_user_to_db_def Let_def
        split: if_splits option.splits sum.splits)
  with assms Inr that show ?thesis
    by (auto simp: auth_change_password_def hash_password_def save_user_to_db_def revoke_user_sessions_def Let_def
        split: if_splits prod.splits)
qed

text \<open>How an account logs in whose hash bcrypt accepts for one password and refuses for another, in memory and wherever the
  database has a row of it.\<close>

lemma login_by_hash:
  assumes "hm_get (as_users st) name = Some v" "u_active v" "u_password_hash v = h"
    and "starts_with h ''$2''" "bcrypt_verify cr new h" "\<not> bcrypt_verify cr old h"
    and "\<And>us x. load_users_from_db rfl (as_db st) = Inr us \<Longrightarrow> hm_get us name = Some x \<Longrightarrow> u_password_hash x = h"
  shows "fst (auth_login cr rfl tfl now name old st) = Inl InvalidCredentials \<and>
    (\<exists>token ui. fst (auth_login cr rfl tfl now name new st) = Inr (token, ui) \<and> ui_username ui = name)"
proof -
  have "\<not> starts_with h ''fallback_hash_''" using assms(4) by (cases h) auto
  then have v: "verify_password cr pw h = bcrypt_verify cr pw h" for pw using assms(4) by (simp add: verify_password_def)
  have "check_credentials cr rfl name old st = Inl InvalidCredentials"
    using assms(1-3,6,7) by (auto simp: check_credentials_def v split: sum.splits option.splits)
  then show ?thesis using assms(1-3,5) by (simp add: auth_login_def check_credentials_def v Let_def)
qed

lemma loaded_user_row:
  "load_users_from_db fl db = Inr us \<Longrightarrow> adb_exists db \<Longrightarrow> hm_get (adb_users db) name = Some (Some v) \<Longrightarrow> hm_get us name = Some v"
proof -
  have "collect_results (map (\<lambda>(k, r). case r of Some u \<Rightarrow> Inr (k, u) | None \<Rightarrow> Inl ''decode'') m) = Inr us \<Longrightarrow>
      hm_get m name = Some (Some v) \<Longrightarrow> hm_get us name = Some v" for m us
    by (induction m arbitrary: us) (auto split: option.splits sum.splits if_splits)
  then show "load_users_from_db fl db = Inr us \<Longrightarrow> adb_exists db \<Longrightarrow> hm_get (adb_users db) name = Some (Some v) \<Longrightarrow>
      hm_get us name = Some v"
    by (auto simp: load_users_from_db_def split: option.splits)
qed

lemma boot_keeps_users: "adb_users (as_db (auth_boot ufl afl srfl swfl now secret db)) = adb_users db \<and>
    adb_exists (as_db (auth_boot ufl afl srfl swfl now secret db)) = adb_exists db"
  by (auto simp: auth_boot_def load_sessions_from_db_def Let_def split: prod.splits)

text \<open>C30. After a password change that reports success, the account logs in with the new password and not with the old one,
  although a wrong password makes the log-in look the hash up again in the database; and so it does after a restart of the
  server from that database, if its users can be read. The account is active and stored under its own name, and the new hash
  has bcrypt's prefix and is one bcrypt accepts for the new password and refuses for the old.\<close>

theorem password_change_takes_effect:
  assumes "auth_change_password cr ufl sfl salt name old new st = (Inr (), st')"
    and "hm_get (as_users st) name = Some u" "u_active u" "u_username u = name"
    and "bcrypt_hash cr new salt = Inr h" "starts_with h ''$2''" "bcrypt_verify cr new h" "\<not> bcrypt_verify cr old h"
    and "s = st' \<or> s = auth_boot bfl afl srfl swfl booted secret (as_db st') \<and> load_users_from_db bfl (as_db st') = Inr us"
  shows "fst (auth_login cr rfl tfl now name old s) = Inl InvalidCredentials \<and>
    (\<exists>token ui. fst (auth_login cr rfl tfl now name new s) = Inr (token, ui) \<and> ui_username ui = name)"
proof -
  let ?u = "u\<lparr>u_password_hash := h\<rparr>"
  obtain u' h' where "hm_get (as_users st) name = Some u'" "bcrypt_hash cr new salt = Inr h'"
      "as_users st' = hm_insert name (u'\<lparr>u_password_hash := h'\<rparr>) (as_users st)"
      "as_db st' = snd (delete_user_sessions_from_db sfl name
         ((as_db st)\<lparr>adb_exists := True,
            adb_users := hm_insert (u_username u') (Some (u'\<lparr>u_password_hash := h'\<rparr>)) (adb_users (as_db st))\<rparr>))"
    by (rule change_password_sound [OF assms(1)])
  then have users: "as_users st' = hm_insert name ?u (as_users st)"
      and db: "as_db st' = snd (delete_user_sessions_from_db sfl name
           ((as_db st)\<lparr>adb_exists := True, adb_users := hm_insert name (Some ?u) (adb_users (as_db st))\<rparr>))"
    using assms(2,4,5) by auto
  have row: "adb_exists (as_db st')" "hm_get (adb_users (as_db st')) name = Some (Some ?u)"
    using db delete_sessions_db [of sfl name "(as_db st)\<lparr>adb_exists := True, adb_users := hm_insert name (Some ?u) (adb_users (as_db st))\<rparr>"]
    by (auto simp: update_conv)
  then have rows: "adb_exists (as_db s)" "hm_get (adb_users (as_db s)) name = Some (Some ?u)"
    using assms(9) boot_keeps_users [of bfl afl srfl swfl booted secret "as_db st'"] by auto
  have "hm_get (as_users s) name = Some ?u"
    using assms(9) users loaded_user_row [of bfl "as_db st'" us name ?u, OF _ row]
    by (auto simp: update_conv auth_boot_def Let_def split: prod.splits)
  moreover have "u_password_hash x = h" if "load_users_from_db rfl (as_db s) = Inr us'" "hm_get us' name = Some x" for us' x
    using loaded_user_row [OF that(1) rows] that(2) by simp
  ultimately show ?thesis using login_by_hash [of s name ?u h cr new old rfl tfl now] assms(3,6-8) by simp
qed

theorem password_change_takes_effect_witness:
  "let st = snd (auth_run toy_crypto [RegisterUser None None 0 ''u'' 0 ''ann'' ''secret'' RoleUser] fresh_auth);
       st' = snd (auth_change_password toy_crypto None no_revoke_faults 0 ''ann'' ''secret'' ''better'' st) in
    fst (auth_login toy_crypto None None 1 ''ann'' ''secret'' st') = Inl InvalidCredentials \<and>
    (\<exists>token ui. fst (auth_login toy_crypto None None 1 ''ann'' ''better'' st') = Inr (token, ui))"
proof -
  let ?st = "snd (auth_run toy_crypto [RegisterUser None None 0 ''u'' 0 ''ann'' ''secret'' RoleUser] fresh_auth)"
  let ?c = "auth_change_password toy_crypto None no_revoke_faults 0 ''ann'' ''secret'' ''better'' ?st"
  let ?u = "\<lparr>u_id = ''u'', u_username = ''ann'', u_password_hash = ''$2secret'', u_role = RoleUser, u_created_at = 0,
              u_last_login = None, u_active = True\<rparr>"
  have c: "?c = (Inr (), snd ?c)"
    by (simp add: auth_run_defs auth_change_password_def verify_password_def)
  have u: "hm_get (as_users ?st) ''ann'' = Some ?u" by (simp add: auth_run_defs)
  show ?thesis
    using password_change_takes_effect [OF c u, where h = "''$2better''" and rfl = None and tfl = None and now = 1 and s = "snd ?c"]
    by (simp add: Let_def) (auto simp: toy_crypto_def)
qed

end
