(* ===== verification/ApiKeys.thy ===== *)
theory ApiKeys
  imports AuthUsers TextUtil
begin

text \<open>
  API keys of the server: their encryption (\<open>heramind-core/src/crypto.rs\<close>) and the key state
  \<open>AuthState\<close> of \<open>heramind-api/src/auth.rs\<close>.

  The cryptographic and encoding libraries are the parameter \<open>key_libs\<close>; a service is the 32 bytes of
  its AES key, and every encryption takes the nonce it draws. The database file is \<open>key_db\<close>: the rows of
  the two tables, where a missing table is an empty one and a row of the second table is \<open>None\<close> when its
  bytes do not decode. Storage calls take the db_fault they meet, \<open>None\<close> for none. Calls run one at a time,
  so the compare-exchange of the reload always succeeds. Logging and the banner are left out.
\<close>

section \<open>Encryption\<close>

record key_libs =
  kl_sha256_hex :: "string \<Rightarrow> string"
  kl_pbkdf2 :: "string \<Rightarrow> string \<Rightarrow> nat \<Rightarrow> string"
  kl_aes_encrypt :: "string \<Rightarrow> string \<Rightarrow> string \<Rightarrow> string option"
  kl_aes_decrypt :: "string \<Rightarrow> string \<Rightarrow> string \<Rightarrow> string option"
  kl_b64_encode :: "string \<Rightarrow> string"
  kl_b64_decode :: "string \<Rightarrow> string option"
  kl_hex_encode :: "string \<Rightarrow> string"
  kl_hex_decode :: "string \<Rightarrow> string option"

datatype crypto_error = KeyTooShort | EncryptionFailed | DecryptionFailed | InvalidKeyFormat

fun show_crypto_error :: "crypto_error \<Rightarrow> string" where
  "show_crypto_error KeyTooShort = ''Encryption key is too short (min 32 bytes)''"
| "show_crypto_error EncryptionFailed = ''Failed to encrypt data''"
| "show_crypto_error DecryptionFailed = ''Failed to decrypt data''"
| "show_crypto_error InvalidKeyFormat = ''Invalid key format''"

definition DEFAULT_ITERATIONS :: nat where
  "DEFAULT_ITERATIONS = 100000"

definition derive_key :: "key_libs \<Rightarrow> string \<Rightarrow> string" where
  "derive_key kl input =
     (if 32 \<le> length input then take 32 input
      else kl_pbkdf2 kl input ''HeraMind-API-Key-Salt-2024'' DEFAULT_ITERATIONS)"

text \<open>\<open>CryptoService::new\<close> never fails.\<close>

definition crypto_new :: "key_libs \<Rightarrow> string \<Rightarrow> (crypto_error, string) rust_result" where
  "crypto_new kl master = Inr (derive_key kl master)"

text \<open>The key and the key file afterwards: the file's content when it can be read, the freshly drawn
  key, and whether writing the file fails.\<close>

definition from_file_or_generate :: "key_libs \<Rightarrow> string option \<Rightarrow> string \<Rightarrow> bool \<Rightarrow> string \<times> string option" where
  "from_file_or_generate kl file fresh write_fails =
     (case Option.bind file (\<lambda>key_hex.
             Option.bind (kl_hex_decode kl (str_trim key_hex)) (\<lambda>bytes.
               if 32 \<le> length bytes then Some (derive_key kl bytes) else None)) of
        Some key \<Rightarrow> (key, file)
      | None \<Rightarrow> (fresh, if write_fails then file else Some (kl_hex_encode kl fresh)))"

definition from_env_or_generate_with_data_dir ::
    "key_libs \<Rightarrow> string option \<Rightarrow> string option \<Rightarrow> string \<Rightarrow> bool \<Rightarrow> string \<times> string option" where
  "from_env_or_generate_with_data_dir kl env file fresh write_fails =
     (case env of
        Some key_str \<Rightarrow>
          (case crypto_new kl key_str of
             Inr key \<Rightarrow> (key, file)
           | Inl _ \<Rightarrow> from_file_or_generate kl file fresh write_fails)
      | None \<Rightarrow> from_file_or_generate kl file fresh write_fails)"

definition encrypt_str :: "key_libs \<Rightarrow> string \<Rightarrow> string \<Rightarrow> string \<Rightarrow> (crypto_error, string) rust_result" where
  "encrypt_str kl key nonce plaintext =
     (case kl_aes_encrypt kl key nonce plaintext of
        Some ciphertext \<Rightarrow> Inr (kl_b64_encode kl (nonce @ ciphertext))
      | None \<Rightarrow> Inl EncryptionFailed)"

definition decrypt_bytes :: "key_libs \<Rightarrow> string \<Rightarrow> string \<Rightarrow> (crypto_error, string) rust_result" where
  "decrypt_bytes kl key encoded =
     and_then (ok_or DecryptionFailed (kl_b64_decode kl encoded)) (\<lambda>combined.
       if length combined < 12 then Inl DecryptionFailed
       else ok_or DecryptionFailed (kl_aes_decrypt kl key (take 12 combined) (drop 12 combined)))"

definition decrypt_str :: "key_libs \<Rightarrow> string \<Rightarrow> string \<Rightarrow> (crypto_error, string) rust_result" where
  "decrypt_str kl key encoded =
     and_then (decrypt_bytes kl key encoded) (\<lambda>bytes. if utf8_valid bytes then Inr bytes else Inl DecryptionFailed)"

definition hash_api_key :: "key_libs \<Rightarrow> string \<Rightarrow> string" where
  "hash_api_key kl api_key = kl_sha256_hex kl (api_key @ ''HeraMind-API-Key-v1'')"

section \<open>Keys and their database\<close>

record api_key_info =
  ak_id :: string
  ak_name :: string
  ak_created_at :: int
  ak_permissions :: "string list"
  ak_active :: bool

type_synonym api_keys = "(string, string \<times> api_key_info) hash_map"

record key_db =
  kd_exists :: bool
  kd_keys :: "(string, string) hash_map"
  kd_hashes :: "(string, api_key_info option) hash_map"

text \<open>The faults of a load: opening or iterating, opening the key table, reading the table of the
  infos.\<close>

record load_faults =
  lf_open :: db_fault
  lf_keys :: db_fault
  lf_hashes :: db_fault

definition no_load_faults :: load_faults where
  "no_load_faults = \<lparr>lf_open = None, lf_keys = None, lf_hashes = None\<rparr>"

definition migrated_info :: "uuid \<Rightarrow> int \<Rightarrow> api_key_info" where
  "migrated_info fresh now =
     \<lparr>ak_id = fresh, ak_name = ''Migrated Key'', ak_created_at = now, ak_permissions = [''*''], ak_active = True\<rparr>"

definition stored_info :: "load_faults \<Rightarrow> (string \<Rightarrow> uuid) \<Rightarrow> int \<Rightarrow> key_db \<Rightarrow> string \<Rightarrow> api_key_info" where
  "stored_info fl fresh now db hash =
     (case (if lf_hashes fl \<noteq> None then None else hm_get (kd_hashes db) hash) of
        Some (Some info) \<Rightarrow> info
      | _ \<Rightarrow> migrated_info (fresh hash) now)"

definition usable_row :: "key_libs \<Rightarrow> string \<Rightarrow> string \<Rightarrow> bool" where
  "usable_row kl key bytes \<longleftrightarrow> utf8_valid bytes \<and> (\<exists>p. decrypt_bytes kl key bytes = Inr p)"

definition keys_from_db ::
    "key_libs \<Rightarrow> string \<Rightarrow> load_faults \<Rightarrow> (string \<Rightarrow> uuid) \<Rightarrow> int \<Rightarrow> key_db \<Rightarrow> (string, api_keys) rust_result" where
  "keys_from_db kl key fl fresh now db =
     (if \<not> kd_exists db then Inl ''Database file does not exist''
      else case lf_open fl of
        Some e \<Rightarrow> Inl e
      | None \<Rightarrow>
          if lf_keys fl \<noteq> None then Inr []
          else Inr (map (\<lambda>(hash, bytes). (hash, (bytes, stored_info fl fresh now db hash)))
                  (filter (\<lambda>(_, bytes). usable_row kl key bytes) (kd_keys db))))"

text \<open>A fault before the file is open, or inside the transaction.\<close>

record save_faults =
  sf_open :: db_fault
  sf_txn :: db_fault

definition no_save_faults :: save_faults where
  "no_save_faults = \<lparr>sf_open = None, sf_txn = None\<rparr>"

definition keys_to_db :: "save_faults \<Rightarrow> api_keys \<Rightarrow> key_db \<Rightarrow> (string, unit) rust_result \<times> key_db" where
  "keys_to_db fl keys db =
     (case sf_open fl of
        Some e \<Rightarrow> (Inl e, db)
      | None \<Rightarrow>
          let db = db\<lparr>kd_exists := True\<rparr> in
          (case sf_txn fl of
             Some e \<Rightarrow> (Inl e, db)
           | None \<Rightarrow>
               let to_delete = map fst (kd_keys db);
                   table = fold hm_remove to_delete (kd_keys db);
                   hashes = fold hm_remove to_delete (kd_hashes db) in
               (Inr (), db\<lparr>kd_keys := fold (\<lambda>(h, (enc, _)). hm_insert h enc) keys table,
                           kd_hashes := fold (\<lambda>(h, (_, info)). hm_insert h (Some info)) keys hashes\<rparr>)))"

section \<open>The key state\<close>

record key_state =
  ks_keys :: api_keys
  ks_db :: key_db
  ks_key :: string
  ks_last_reload :: nat

text \<open>What a new key draws: the two identifiers, the time and the nonce.\<close>

record key_draw =
  kd_uuid :: uuid
  kd_id :: uuid
  kd_now :: int
  kd_nonce :: string

definition key_text :: "key_draw \<Rightarrow> string" where
  "key_text d = ''nmk_'' @ filter (\<lambda>c. c \<noteq> CHR ''-'') (kd_uuid d)"

definition encrypted_or_plain :: "key_libs \<Rightarrow> string \<Rightarrow> string \<Rightarrow> string \<Rightarrow> string" where
  "encrypted_or_plain kl key nonce text =
     (case encrypt_str kl key nonce text of Inr enc \<Rightarrow> enc | Inl _ \<Rightarrow> text)"

definition generate_default_key :: "key_libs \<Rightarrow> string \<Rightarrow> key_draw \<Rightarrow> api_keys" where
  "generate_default_key kl key d =
     [(hash_api_key kl (key_text d),
       (encrypted_or_plain kl key (kd_nonce d) (key_text d),
        \<lparr>ak_id = kd_id d, ak_name = ''Default API Key'', ak_created_at = kd_now d, ak_permissions = [''*''],
         ak_active = True\<rparr>))]"

definition load_default_keys :: "key_libs \<Rightarrow> string \<Rightarrow> string option \<Rightarrow> key_draw \<Rightarrow> api_keys" where
  "load_default_keys kl key env d =
     (case env of
        None \<Rightarrow> []
      | Some default_key \<Rightarrow>
          [(hash_api_key kl default_key,
            (encrypted_or_plain kl key (kd_nonce d) default_key,
             \<lparr>ak_id = kd_id d, ak_name = ''Default API Key (from env)'', ak_created_at = kd_now d,
              ak_permissions = [''*''], ak_active = True\<rparr>))])"

definition key_boot ::
    "key_libs \<Rightarrow> string \<Rightarrow> load_faults \<Rightarrow> save_faults \<Rightarrow> (string \<Rightarrow> uuid) \<Rightarrow> string option \<Rightarrow> key_draw \<Rightarrow> nat \<Rightarrow> key_db \<Rightarrow>
     key_state" where
  "key_boot kl key lfl sfl fresh env d millis db =
     (let keys = (case keys_from_db kl key lfl fresh (kd_now d) db of
                    Inr ks \<Rightarrow> ks | Inl _ \<Rightarrow> load_default_keys kl key env d);
          keys = (if keys = [] then generate_default_key kl key d else keys) in
      \<lparr>ks_keys = keys, ks_db = snd (keys_to_db sfl keys db), ks_key = key, ks_last_reload = millis\<rparr>)"

text \<open>What a reload sees: the clock in milliseconds, the faults, and the identifiers and time of the
  infos it has to make up.\<close>

record reload_env =
  re_millis :: nat
  re_faults :: load_faults
  re_fresh :: "string \<Rightarrow> uuid"
  re_now :: int

definition reload_keys_from_db :: "key_libs \<Rightarrow> reload_env \<Rightarrow> key_state \<Rightarrow> key_state" where
  "reload_keys_from_db kl re st =
     (if re_millis re - ks_last_reload st < 5000 then st
      else
        let st = st\<lparr>ks_last_reload := re_millis re\<rparr> in
        (case keys_from_db kl (ks_key st) (re_faults re) (re_fresh re) (re_now re) (ks_db st) of
           Inr keys \<Rightarrow>
             st\<lparr>ks_keys := filter (\<lambda>(h, _). hm_contains keys h)
                            (fold (\<lambda>(h, v). hm_insert h v) keys (ks_keys st))\<rparr>
         | Inl _ \<Rightarrow> st))"

definition active_key :: "key_state \<Rightarrow> string \<Rightarrow> bool" where
  "active_key st hash = (case hm_get (ks_keys st) hash of Some (_, info) \<Rightarrow> ak_active info | None \<Rightarrow> False)"

definition validate_key :: "key_libs \<Rightarrow> reload_env \<Rightarrow> string \<Rightarrow> key_state \<Rightarrow> bool \<times> key_state" where
  "validate_key kl re key st =
     (let hash = hash_api_key kl key in
      case hm_get (ks_keys st) hash of
        Some (_, info) \<Rightarrow> (ak_active info, st)
      | None \<Rightarrow> let st = reload_keys_from_db kl re st in (active_key st hash, st))"

definition validate_key_info :: "key_libs \<Rightarrow> reload_env \<Rightarrow> string \<Rightarrow> key_state \<Rightarrow> api_key_info option \<times> key_state" where
  "validate_key_info kl re key st =
     (let hash = hash_api_key kl key in
      case hm_get (ks_keys st) hash of
        Some (_, info) \<Rightarrow> (if ak_active info then Some info else None, st)
      | None \<Rightarrow>
          let st = reload_keys_from_db kl re st in
          (Option.bind (hm_get (ks_keys st) hash) (\<lambda>(_, info). if ak_active info then Some info else None), st))"

definition list_keys :: "key_state \<Rightarrow> (string \<times> api_key_info) list" where
  "list_keys st = map (\<lambda>(h, (_, info)). (h, info)) (ks_keys st)"

definition create_key ::
    "key_libs \<Rightarrow> save_faults \<Rightarrow> key_draw \<Rightarrow> string \<Rightarrow> string list \<Rightarrow> key_state \<Rightarrow>
     (string \<times> api_key_info) \<times> key_state" where
  "create_key kl sfl d name permissions st =
     (let key = key_text d;
          info = \<lparr>ak_id = kd_id d, ak_name = name, ak_created_at = kd_now d, ak_permissions = permissions,
                  ak_active = True\<rparr>;
          enc = encrypted_or_plain kl (ks_key st) (kd_nonce d) key;
          keys = hm_insert (hash_api_key kl key) (enc, info) (ks_keys st) in
      ((key, info), st\<lparr>ks_keys := keys, ks_db := snd (keys_to_db sfl keys (ks_db st))\<rparr>))"

definition delete_key_by_hash :: "save_faults \<Rightarrow> string \<Rightarrow> key_state \<Rightarrow> bool \<times> key_state" where
  "delete_key_by_hash sfl hash st =
     (if hm_contains (ks_keys st) hash
      then let keys = hm_remove hash (ks_keys st) in
        (True, st\<lparr>ks_keys := keys, ks_db := snd (keys_to_db sfl keys (ks_db st))\<rparr>)
      else (False, st))"

definition delete_key :: "key_libs \<Rightarrow> save_faults \<Rightarrow> string \<Rightarrow> key_state \<Rightarrow> bool \<times> key_state" where
  "delete_key kl sfl key st = delete_key_by_hash sfl (hash_api_key kl key) st"

definition init_storage :: "save_faults \<Rightarrow> key_state \<Rightarrow> key_state" where
  "init_storage sfl st = st\<lparr>ks_db := snd (keys_to_db sfl (ks_keys st) (ks_db st))\<rparr>"

definition check_permission :: "key_libs \<Rightarrow> string \<Rightarrow> string \<Rightarrow> key_state \<Rightarrow> bool" where
  "check_permission kl key permission st =
     (case hm_get (ks_keys st) (hash_api_key kl key) of
        None \<Rightarrow> False
      | Some (_, info) \<Rightarrow>
          ak_active info \<and> (''*'' \<in> set (ak_permissions info) \<or> permission \<in> set (ak_permissions info)))"

section \<open>Lemmas\<close>

lemma fold_insert_get:
  "hm_wf keys \<Longrightarrow> map_of (fold (\<lambda>(h, v). hm_insert h (f v)) keys m) h =
     (case hm_get keys h of Some v \<Rightarrow> Some (f v) | None \<Rightarrow> hm_get m h)"
proof (induction keys arbitrary: m)
  case (Cons e keys)
  obtain k v where e: "e = (k, v)" by (cases e)
  show ?case
  proof (cases "h = k")
    case True
    with Cons e have "hm_get keys h = None" by (simp add: map_of_eq_None_iff)
    with True show ?thesis using Cons e by (simp add: update_conv)
  next
    case False
    then show ?thesis using Cons e by (simp add: update_conv split: option.splits)
  qed
qed simp

lemma fold_insert_wf: "hm_wf m \<Longrightarrow> hm_wf (fold (\<lambda>(h, v). hm_insert h (f v)) keys m)"
  by (induction keys arbitrary: m) (auto simp: distinct_update)

lemma tables_cleared: "fold hm_remove (map fst m) m = []"
proof -
  have "set (fold hm_remove (map fst m) m) = {}" by (auto simp: fold_hm_remove_set)
  then show ?thesis by simp
qed

lemma saved_rows:
  assumes "hm_wf keys" "keys_to_db no_save_faults keys db = (res, db')"
  shows "res = Inr () \<and> kd_exists db' \<and> hm_wf (kd_keys db') \<and>
    hm_get (kd_keys db') h = map_option fst (hm_get keys h) \<and>
    (\<forall>v. hm_get keys h = Some v \<longrightarrow> hm_get (kd_hashes db') h = Some (Some (snd v)))"
proof -
  have p: "(\<lambda>(h, (enc, info)). hm_insert h enc) = (\<lambda>(h, v). hm_insert h (fst v))"
      "(\<lambda>(h, (enc, info)). hm_insert h (Some info)) = (\<lambda>(h, v). hm_insert h (Some (snd v)))"
    by (auto simp: fun_eq_iff)
  show ?thesis
    using assms fold_insert_wf [of "[]" fst keys]
    by (auto simp: keys_to_db_def no_save_faults_def Let_def tables_cleared p fold_insert_get split: option.splits)
qed

lemma map_of_filter_rows: "hm_wf m \<Longrightarrow> map_of (filter (\<lambda>(_, v). P v) m) k =
    (case hm_get m k of Some v \<Rightarrow> if P v then Some v else None | None \<Rightarrow> None)"
proof (induction m)
  case (Cons e m)
  obtain k' v where e: "e = (k', v)" by (cases e)
  show ?case
  proof (cases "k = k'")
    case True
    with Cons.prems e have "hm_get m k = None" by (simp add: map_of_eq_None_iff)
    with True Cons e show ?thesis by simp
  next
    case False
    with Cons e show ?thesis by simp
  qed
qed simp

text \<open>What a load without faults finds under a hash.\<close>

lemma loaded_row:
  assumes "kd_exists db" "hm_wf (kd_keys db)" "keys_from_db kl key no_load_faults fresh now db = Inr ks"
  shows "hm_get ks h =
    (case hm_get (kd_keys db) h of
       Some bytes \<Rightarrow> if usable_row kl key bytes then Some (bytes, stored_info no_load_faults fresh now db h) else None
     | None \<Rightarrow> None)"
proof -
  let ?f = "\<lambda>(hash, bytes). (hash, (bytes, stored_info no_load_faults fresh now db hash))"
  have g: "map_of (map ?f m) h = map_option (\<lambda>b. (b, stored_info no_load_faults fresh now db h)) (hm_get m h)" for m
    by (induction m) auto
  have ks: "ks = map ?f (filter (\<lambda>(_, bytes). usable_row kl key bytes) (kd_keys db))"
    using assms(1,3) by (simp add: keys_from_db_def no_load_faults_def)
  show ?thesis
    unfolding ks g map_of_filter_rows [OF assms(2)] by (cases "hm_get (kd_keys db) h") auto
qed

lemma load_without_faults: "kd_exists db \<Longrightarrow> \<exists>ks. keys_from_db kl key no_load_faults fresh now db = Inr ks"
  by (simp add: keys_from_db_def no_load_faults_def)

lemma saved_db:
  assumes "hm_wf keys"
  shows "kd_exists (snd (keys_to_db no_save_faults keys db))" "hm_wf (kd_keys (snd (keys_to_db no_save_faults keys db)))"
    "hm_get (kd_keys (snd (keys_to_db no_save_faults keys db))) h = map_option fst (hm_get keys h)"
    "hm_get keys h = Some v \<Longrightarrow> hm_get (kd_hashes (snd (keys_to_db no_save_faults keys db))) h = Some (Some (snd v))"
  using saved_rows [OF assms, of db "fst (keys_to_db no_save_faults keys db)"
      "snd (keys_to_db no_save_faults keys db)" h] by auto

lemma encrypted_row_usable:
  assumes "kl_aes_encrypt kl key nonce text = Some c" "length nonce = 12"
    and "kl_aes_decrypt kl key nonce c = Some text"
    and "kl_b64_decode kl (kl_b64_encode kl (nonce @ c)) = Some (nonce @ c)"
    and "utf8_valid (kl_b64_encode kl (nonce @ c))"
  shows "usable_row kl key (encrypted_or_plain kl key nonce text)"
  using assms by (simp add: usable_row_def encrypted_or_plain_def encrypt_str_def decrypt_bytes_def)

lemma reload_get:
  assumes "hm_wf (ks_keys st)" "kd_exists (ks_db st)" "hm_wf (kd_keys (ks_db st))" "re_faults re = no_load_faults"
    "5000 \<le> re_millis re - ks_last_reload st"
  shows "hm_get (ks_keys (reload_keys_from_db kl re st)) h =
    (case hm_get (kd_keys (ks_db st)) h of
       Some bytes \<Rightarrow> if usable_row kl (ks_key st) bytes
         then Some (bytes, stored_info no_load_faults (re_fresh re) (re_now re) (ks_db st) h) else None
     | None \<Rightarrow> None)"
proof -
  obtain ks where ks: "keys_from_db kl (ks_key st) no_load_faults (re_fresh re) (re_now re) (ks_db st) = Inr ks"
    using load_without_faults [OF assms(2)] by metis
  have wf: "hm_wf ks"
    using ks assms(2,3) by (auto simp: keys_from_db_def no_load_faults_def comp_def split_def distinct_map_filter)
  have m: "ks_keys (reload_keys_from_db kl re st) =
      filter (\<lambda>(h, _). hm_contains ks h) (fold (\<lambda>(h, v). hm_insert h v) ks (ks_keys st))"
    using assms(4,5) ks by (simp add: reload_keys_from_db_def Let_def)
  have k: "map_of (filter (\<lambda>(h, _). P h) m) x = (if P x then map_of m x else None)" for P x and m :: api_keys
    by (induction m) auto
  show ?thesis
    unfolding m k fold_insert_get [OF wf, where f = "\<lambda>v. v"] loaded_row [OF assms(2,3) ks, symmetric]
    using map_of_eq_None_iff [of ks h] by (cases "hm_get ks h") (simp_all del: map_of_eq_Some_iff)
qed

section \<open>Properties\<close>

text \<open>C33. A created key that is saved without a fault authenticates at once, and after a restart of the server with the same
  encryption key, if the keys load without a fault, it still does, with the same name and permissions. The libraries' laws: decrypting undoes
  encrypting under a twelve-byte nonce, decoding undoes encoding, and base64 text is UTF-8.\<close>

theorem created_key_survives_restart:
  assumes "create_key kl no_save_faults d name perms st = ((key, info), st')" "hm_wf (ks_keys st)"
    and "kl_aes_encrypt kl (ks_key st) (kd_nonce d) (key_text d) = Some c" "length (kd_nonce d) = 12"
    and "kl_aes_decrypt kl (ks_key st) (kd_nonce d) c = Some (key_text d)"
    and "kl_b64_decode kl (kl_b64_encode kl (kd_nonce d @ c)) = Some (kd_nonce d @ c)"
    and "utf8_valid (kl_b64_encode kl (kd_nonce d @ c))"
  shows "fst (validate_key_info kl re key st') = Some info \<and>
    fst (validate_key_info kl re key (key_boot kl (ks_key st) no_load_faults sfl fresh env d2 last_ms (ks_db st'))) =
      Some info \<and> ak_name info = name \<and> ak_permissions info = perms"
proof -
  let ?h = "hash_api_key kl key"
  have c: "key = key_text d" "ak_active info" "ak_name info = name" "ak_permissions info = perms"
    using assms(1) by (auto simp: create_key_def Let_def)
  define enc where "enc = encrypted_or_plain kl (ks_key st) (kd_nonce d) (key_text d)"
  have st': "ks_keys st' = hm_insert ?h (enc, info) (ks_keys st)"
      "ks_db st' = snd (keys_to_db no_save_faults (hm_insert ?h (enc, info) (ks_keys st)) (ks_db st))"
    using assms(1) by (auto simp: create_key_def Let_def enc_def)
  have wf: "hm_wf (ks_keys st')" using assms(2) by (simp add: st' distinct_update)
  have get: "hm_get (ks_keys st') ?h = Some (enc, info)" by (simp add: st' update_conv)
  have db: "ks_db st' = snd (keys_to_db no_save_faults (ks_keys st') (ks_db st))" by (simp add: st')
  have u: "usable_row kl (ks_key st) enc" unfolding enc_def by (rule encrypted_row_usable [OF assms(3-7)])
  obtain ks where ks: "keys_from_db kl (ks_key st) no_load_faults fresh (kd_now d2) (ks_db st') = Inr ks"
    using load_without_faults saved_db(1) [OF wf] db by metis
  have rows: "kd_exists (ks_db st')" "hm_wf (kd_keys (ks_db st'))" "hm_get (kd_keys (ks_db st')) ?h = Some enc"
      "hm_get (kd_hashes (ks_db st')) ?h = Some (Some info)"
    using saved_db [OF wf, where db = "ks_db st"] get by (auto simp flip: db)
  have l: "hm_get ks ?h = Some (enc, info)"
    unfolding loaded_row [OF rows(1,2) ks] using rows(3,4) u by (simp add: stored_info_def no_load_faults_def)
  then have "ks \<noteq> []" by auto
  then have "hm_get (ks_keys (key_boot kl (ks_key st) no_load_faults sfl fresh env d2 last_ms (ks_db st'))) ?h = Some (enc, info)"
    using ks l by (simp add: key_boot_def Let_def)
  then show ?thesis using get c by (simp add: validate_key_info_def Let_def)
qed

text \<open>A digest that neither the keys in memory nor the rows on disk have.\<close>

definition key_gone :: "string \<Rightarrow> key_state \<Rightarrow> bool" where
  "key_gone h st \<longleftrightarrow> \<not> hm_contains (ks_keys st) h \<and> \<not> hm_contains (kd_keys (ks_db st)) h"

lemma fold_insert_keys: "fst ` set (fold (\<lambda>(h, v). hm_insert h (f v)) ks m) = fst ` set ks \<union> fst ` set m"
  by (induction ks arbitrary: m) (auto simp: dom_update split_def)

lemma loaded_keys_subset: "keys_from_db kl key fl fresh now db = Inr ks \<Longrightarrow> fst ` set ks \<subseteq> fst ` set (kd_keys db)"
  by (force simp: keys_from_db_def split: if_splits option.splits)

lemma filter_keys_contains: "hm_contains (filter (\<lambda>(k, _). P k) m) h \<Longrightarrow> P h"
  by auto

lemma reload_gone:
  assumes "key_gone h st"
  shows "key_gone h (reload_keys_from_db kl re st)"
proof (cases "keys_from_db kl (ks_key st) (re_faults re) (re_fresh re) (re_now re) (ks_db st)")
  case (Inl e)
  with assms show ?thesis by (simp add: reload_keys_from_db_def key_gone_def Let_def)
next
  case (Inr ks)
  have "\<not> hm_contains (filter (\<lambda>(k, _). hm_contains ks k) m) h" for m :: api_keys
    using filter_keys_contains [where P = "hm_contains ks" and m = m and h = h] loaded_keys_subset [OF Inr] assms
    by (auto simp: key_gone_def)
  with Inr assms show ?thesis by (simp add: reload_keys_from_db_def key_gone_def Let_def)
qed

lemma validate_gone:
  "key_gone (hash_api_key kl key) st \<Longrightarrow>
     \<not> fst (validate_key kl re key st) \<and> fst (validate_key_info kl re key st) = None"
  "key_gone h st \<Longrightarrow> key_gone h (snd (validate_key kl re key st))"
  using reload_gone [of "hash_api_key kl key" st kl re] reload_gone [of h st kl re]
  by (auto simp: validate_key_def validate_key_info_def active_key_def Let_def key_gone_def
      map_of_eq_None_iff [THEN iffD2] split: option.splits)

lemma boot_gone:
  assumes "\<not> hm_contains (kd_keys db) h" "hash_api_key kl (key_text d) \<noteq> h" "\<forall>v. env = Some v \<longrightarrow> hash_api_key kl v \<noteq> h"
  shows "key_gone h (key_boot kl key lfl sfl fresh env d ms db)"
proof -
  define ks where "ks = (case keys_from_db kl key lfl fresh (kd_now d) db of
                    Inr ks \<Rightarrow> ks | Inl _ \<Rightarrow> load_default_keys kl key env d)"
  have "\<not> hm_contains ks h"
  proof (cases "keys_from_db kl key lfl fresh (kd_now d) db")
    case (Inl e)
    with assms(3) show ?thesis by (auto simp: ks_def load_default_keys_def split: option.splits)
  next
    case (Inr ks')
    with assms(1) loaded_keys_subset [OF Inr] show ?thesis by (auto simp: ks_def)
  qed
  then have k: "\<not> hm_contains (if ks = [] then generate_default_key kl key d else ks) h"
    using assms(2) by (auto simp: generate_default_key_def)
  have f: "fst ` set (fold (\<lambda>(h, (enc, _)). hm_insert h enc) keys []) = fst ` set keys" for keys :: api_keys
    using fold_insert_keys [of fst keys "[]"] by (simp add: split_def)
  have "\<not> hm_contains keys h \<Longrightarrow> \<not> hm_contains (kd_keys (snd (keys_to_db sfl keys db))) h" for keys
    using assms(1) by (simp add: keys_to_db_def Let_def tables_cleared f split: option.splits)
  from this [OF k] k show ?thesis
    by (simp add: key_boot_def key_gone_def Let_def flip: ks_def)
qed

text \<open>A deleted key is refused from then on, once its deletion is on disk: at the next check,
  whether or not that check reads the database again and whatever fault it meets there, and after a
  restart from the database, whatever fault the load meets, unless the server's default key has the
  same digest.\<close>

lemma deleted_key_refused:
  assumes "delete_key kl no_save_faults key st = (True, st')" "hm_wf (ks_keys st)"
    and "hash_api_key kl (key_text d2) \<noteq> hash_api_key kl key"
    and "\<forall>v. env = Some v \<longrightarrow> hash_api_key kl v \<noteq> hash_api_key kl key"
  shows "\<not> fst (validate_key kl re key st') \<and> fst (validate_key_info kl re key st') = None \<and>
    (let st'' = key_boot kl (ks_key st) lfl sfl fresh env d2 ms (ks_db st') in
      \<not> fst (validate_key kl re2 key st'') \<and>
      fst (validate_key_info kl re3 key (snd (validate_key kl re2 other st''))) = None)"
proof -
  let ?h = "hash_api_key kl key"
  have st': "ks_keys st' = hm_remove ?h (ks_keys st)"
      "ks_db st' = snd (keys_to_db no_save_faults (ks_keys st') (ks_db st))"
    using assms(1) by (auto simp: delete_key_def delete_key_by_hash_def Let_def split: if_splits)
  have wf: "hm_wf (ks_keys st')" using assms(2) by (simp add: st' distinct_delete)
  have "hm_get (ks_keys st') ?h = None" by (simp add: st' delete_conv)
  then have "hm_get (kd_keys (ks_db st')) ?h = None" "\<not> hm_contains (ks_keys st') ?h"
    using saved_db(3) [OF wf, of "ks_db st" ?h] by (simp_all add: map_of_eq_None_iff flip: st'(2))
  then have g: "key_gone ?h st'" by (simp add: key_gone_def map_of_eq_None_iff)
  then have b: "key_gone ?h (key_boot kl (ks_key st) lfl sfl fresh env d2 ms (ks_db st'))"
    using boot_gone [OF _ assms(3,4)] by (simp add: key_gone_def)
  show ?thesis
    using validate_gone(1) [OF g] validate_gone(1) [OF b] validate_gone(1) [OF validate_gone(2) [OF b]]
    by (simp add: Let_def)
qed

text \<open>A deletion whose write fails reports success all the same, and the next check of an unknown key
  five seconds or more after the last reload brings the deleted key back.\<close>

lemma unsaved_deletion_undone:
  assumes "delete_key kl sfl key st = (True, st')" "sf_open sfl = Some e" "hm_wf (ks_keys st)"
    and "kd_exists (ks_db st)" "hm_wf (kd_keys (ks_db st))"
    and "hm_get (kd_keys (ks_db st)) (hash_api_key kl key) = Some row" "usable_row kl (ks_key st) row"
    and "hm_get (kd_hashes (ks_db st)) (hash_api_key kl key) = Some (Some info)" "ak_active info"
    and "re_faults re = no_load_faults" "5000 \<le> re_millis re - ks_last_reload st"
  shows "fst (validate_key_info kl re key st') = Some info"
proof -
  let ?h = "hash_api_key kl key"
  have st': "ks_keys st' = hm_remove ?h (ks_keys st)" "ks_db st' = ks_db st" "ks_key st' = ks_key st"
      "ks_last_reload st' = ks_last_reload st"
    using assms(1,2) by (auto simp: delete_key_def delete_key_by_hash_def keys_to_db_def Let_def split: if_splits)
  have "hm_get (ks_keys (reload_keys_from_db kl re st')) ?h = Some (row, info)"
    using reload_get [of st' re kl ?h] assms(3-8,10,11)
    by (simp add: st' distinct_delete stored_info_def no_load_faults_def)
  moreover have "hm_get (ks_keys st') ?h = None" by (simp add: st' delete_conv)
  ultimately show ?thesis using assms(9) by (simp add: validate_key_info_def Let_def)
qed

definition toy_libs :: key_libs where
  "toy_libs = \<lparr>kl_sha256_hex = id, kl_pbkdf2 = (\<lambda>p s n. p), kl_aes_encrypt = (\<lambda>k n p. Some p),
     kl_aes_decrypt = (\<lambda>k n c. Some c), kl_b64_encode = id, kl_b64_decode = Some, kl_hex_encode = id, kl_hex_decode = Some\<rparr>"

definition toy_draw :: "string \<Rightarrow> key_draw" where
  "toy_draw u = \<lparr>kd_uuid = u, kd_id = u, kd_now = 5, kd_nonce = ''0123456789ab''\<rparr>"

definition toy_keys :: key_state where
  "toy_keys = key_boot toy_libs ''k'' no_load_faults no_save_faults id None (toy_draw ''1-1'') 0
     \<lparr>kd_exists = False, kd_keys = [], kd_hashes = []\<rparr>"

definition toy_reload :: reload_env where
  "toy_reload = \<lparr>re_millis = 6000, re_faults = no_load_faults, re_fresh = id, re_now = 9\<rparr>"

lemmas toy_key_defs = toy_keys_def toy_libs_def toy_draw_def toy_reload_def key_boot_def keys_from_db_def
  no_load_faults_def no_save_faults_def generate_default_key_def load_default_keys_def encrypted_or_plain_def encrypt_str_def
  hash_api_key_def key_text_def keys_to_db_def Let_def

theorem created_key_survives_restart_witness:
  "let (r, st) = create_key toy_libs no_save_faults (toy_draw ''2-2'') ''probe'' [''read''] toy_keys;
       st' = key_boot toy_libs ''k'' no_load_faults no_save_faults id None (toy_draw ''3'') 0 (ks_db st) in
    fst (validate_key_info toy_libs toy_reload ''nmk_22'' st') = Some (snd r)"
proof -
  let ?c = "create_key toy_libs no_save_faults (toy_draw ''2-2'') ''probe'' [''read''] toy_keys"
  have c: "?c = ((''nmk_22'', snd (fst ?c)), snd ?c)" by (simp add: create_key_def toy_key_defs)
  have k: "ks_key toy_keys = ''k''" by (simp add: toy_key_defs)
  have h: "hm_wf (ks_keys toy_keys)"
    "kl_aes_encrypt toy_libs (ks_key toy_keys) (kd_nonce (toy_draw ''2-2'')) (key_text (toy_draw ''2-2'')) = Some ''nmk_22''"
    "length (kd_nonce (toy_draw ''2-2'')) = 12"
    "kl_aes_decrypt toy_libs (ks_key toy_keys) (kd_nonce (toy_draw ''2-2'')) ''nmk_22'' = Some (key_text (toy_draw ''2-2''))"
    "kl_b64_decode toy_libs (kl_b64_encode toy_libs (kd_nonce (toy_draw ''2-2'') @ ''nmk_22'')) =
       Some (kd_nonce (toy_draw ''2-2'') @ ''nmk_22'')"
    "utf8_valid (kl_b64_encode toy_libs (kd_nonce (toy_draw ''2-2'') @ ''nmk_22''))"
    by (simp_all add: toy_key_defs)
  show ?thesis
    using created_key_survives_restart [OF c h, where re = toy_reload and fresh = id
        and sfl = no_save_faults and env = None and ?d2.0 = "toy_draw ''3''" and last_ms = 0]
    by (simp add: k split_def Let_def)
qed

end
