(* ===== verification/RateLimiter.thy ===== *)
theory RateLimiter
  imports Json SlidingWindow
begin

text \<open>
  The API server's rate limiter (\<open>heramind-api/src/rate_limit.rs\<close>) and its two middlewares
  (\<open>heramind-api/src/server/middleware.rs\<close>): a sliding window of request times per client, the
  client's identity taken from the request, and the paths that are not limited.

  Times are readings of the monotonic clock; \<open>timestamp > now - window\<close> is written
  \<open>now < timestamp + window\<close>, which says the same without a negative time. The hash of the standard
  library is the parameter \<open>hash\<close>. A header is its value when it is present and readable as text.
\<close>

section \<open>Configuration\<close>

record rate_limit_config =
  max_requests :: nat
  per_duration :: duration
  warn_interval :: duration

definition adaptive_rate_limit :: "nat \<Rightarrow> nat \<Rightarrow> nat" where
  "adaptive_rate_limit cpu_cores total_memory =
     (let total_memory_mb = total_memory div (1024 * 1024);
          cpu_score = cpu_cores * 2000;
          mem_score = total_memory_mb div 2;
          raw = max cpu_score mem_score in
      if raw < 5000 then 5000 else if raw > 100000 then 100000 else raw)"

definition rate_limit_default :: "nat \<Rightarrow> nat \<Rightarrow> rate_limit_config" where
  "rate_limit_default cpu_cores total_memory =
     \<lparr>max_requests = adaptive_rate_limit cpu_cores total_memory, per_duration = from_secs 60, warn_interval = from_secs 5\<rparr>"

section \<open>The limiter\<close>

record client_state =
  cl_history :: "instant list"
  cl_last_warning :: "instant option"

record rate_limiter =
  rl_clients :: "(string, client_state) hash_map"
  rl_config :: rate_limit_config

definition limiter_with_config :: "rate_limit_config \<Rightarrow> rate_limiter" where
  "limiter_with_config cfg = \<lparr>rl_clients = [], rl_config = cfg\<rparr>"

record rate_limit_exceeded =
  wait_seconds :: nat
  should_log :: bool

definition in_window :: "rate_limit_config \<Rightarrow> instant \<Rightarrow> instant \<Rightarrow> bool" where
  "in_window cfg now t \<longleftrightarrow> now < t + per_duration cfg"

definition check_client :: "rate_limit_config \<Rightarrow> instant \<Rightarrow> client_state \<Rightarrow> (rate_limit_exceeded, unit) rust_result \<times> client_state" where
  "check_client cfg now c =
     (let c = c\<lparr>cl_history := filter (in_window cfg now) (cl_history c)\<rparr>;
          accept = (Inr (), c\<lparr>cl_history := cl_history c @ [now], cl_last_warning := None\<rparr>) in
      if max_requests cfg \<le> length (cl_history c)
      then (case cl_history c of
              [] \<Rightarrow> accept
            | oldest # _ \<Rightarrow>
                let wait_time = per_duration cfg - (now - oldest);
                    should_warn = (case cl_last_warning c of
                       Some w \<Rightarrow> warn_interval cfg \<le> elapsed_since now w | None \<Rightarrow> True) in
                if should_warn
                then (Inl \<lparr>wait_seconds = as_secs wait_time, should_log = True\<rparr>, c\<lparr>cl_last_warning := Some now\<rparr>)
                else (Inl \<lparr>wait_seconds = as_secs wait_time, should_log = False\<rparr>, c))
      else accept)"

definition client_of :: "rate_limiter \<Rightarrow> string \<Rightarrow> client_state" where
  "client_of rl key =
     (case hm_get (rl_clients rl) key of Some c \<Rightarrow> c | None \<Rightarrow> \<lparr>cl_history = [], cl_last_warning = None\<rparr>)"

definition check_client_limit ::
    "instant \<Rightarrow> string \<Rightarrow> rate_limiter \<Rightarrow> (rate_limit_exceeded, unit) rust_result \<times> rate_limiter" where
  "check_client_limit now key rl =
     (let (res, c) = check_client (rl_config rl) now (client_of rl key) in
      (res, rl\<lparr>rl_clients := hm_insert key c (rl_clients rl)\<rparr>))"

definition cleanup_old_entries :: "instant \<Rightarrow> rate_limiter \<Rightarrow> rate_limiter" where
  "cleanup_old_entries now rl =
     rl\<lparr>rl_clients := filter (\<lambda>(_, c). cl_history c \<noteq> [])
          (map (\<lambda>(k, c). (k, c\<lparr>cl_history := filter (in_window (rl_config rl) now) (cl_history c)\<rparr>)) (rl_clients rl))\<rparr>"

definition too_many_requests :: "rate_limit_exceeded \<Rightarrow> nat \<times> string \<times> json" where
  "too_many_requests e =
     (429, show_nat (wait_seconds e),
      JObject [(''success'', JBool False),
        (''error'', JObject [(''code'', JString ''RATE_LIMITED''),
           (''message'', JString (''Rate limit exceeded '' @ map char_of [0xE2, 0x80, 0x94 :: nat] @ '' retry after ''
               @ show_nat (wait_seconds e) @ ''s'')),
           (''request_id'', JNull)]),
        (''retry_after'', JInt (int (wait_seconds e)))])"

section \<open>Who the client is\<close>

fun show_hex :: "nat \<Rightarrow> string" where
  "show_hex n =
     (let d = (\<lambda>k. char_of (if k < 10 then k + 48 else k + 87)) in
      if n < 16 then [d n] else show_hex (n div 16) @ [d (n mod 16)])"

declare show_hex.simps [simp del]

type_synonym header_map = "string \<Rightarrow> string option"

definition extract_client_id :: "(string \<Rightarrow> u64) \<Rightarrow> header_map \<Rightarrow> string option \<Rightarrow> string" where
  "extract_client_id hash headers ip =
     (case headers ''x-api-key'' of
        Some api_key \<Rightarrow> ''apikey:_'' @ show_hex (unat (hash api_key))
      | None \<Rightarrow>
        (case Option.bind (headers ''authorization'') (strip_prefix ''Bearer '') of
           Some token \<Rightarrow> ''jwt:'' @ show_hex (unat (hash token))
         | None \<Rightarrow>
           (case headers ''x-session-id'' of
              Some session_id \<Rightarrow> ''session:'' @ show_nat (unat (hash session_id))
            | None \<Rightarrow>
              (case ip of
                 Some addr \<Rightarrow> ''ip:'' @ addr
               | None \<Rightarrow>
                   ''fallback:'' @ show_hex (unat (hash (unwrap_or (headers ''user-agent'') ''unknown'' @ ''|''
                       @ unwrap_or (headers ''accept'') ''unknown'')))))))"

section \<open>The middlewares\<close>

text \<open>\<open>None\<close> lets the request through to the next handler, \<open>Some e\<close> answers 429.\<close>

definition not_rate_limited :: "string \<Rightarrow> bool" where
  "not_rate_limited uri \<longleftrightarrow>
     str_contains uri ''/chat'' \<or> str_contains uri ''/ws'' \<or> str_contains uri ''/events/stream''"

definition limit_as :: "instant \<Rightarrow> string \<Rightarrow> rate_limiter \<Rightarrow> rate_limit_exceeded option \<times> rate_limiter" where
  "limit_as now key rl =
     (case check_client_limit now key rl of (Inr _, rl) \<Rightarrow> (None, rl) | (Inl e, rl) \<Rightarrow> (Some e, rl))"

definition rate_limit_middleware ::
    "(string \<Rightarrow> u64) \<Rightarrow> instant \<Rightarrow> string \<Rightarrow> header_map \<Rightarrow> string option \<Rightarrow> rate_limiter \<Rightarrow>
     rate_limit_exceeded option \<times> rate_limiter" where
  "rate_limit_middleware hash now uri headers ip rl =
     (if not_rate_limited uri then (None, rl) else limit_as now (extract_client_id hash headers ip) rl)"

definition device_segment :: "string \<Rightarrow> string option" where
  "device_segment uri =
     Option.bind (strip_prefix ''/api/devices/'' uri) (\<lambda>rest.
       let seg = hd (split_on (CHR ''/'') rest) in if seg \<noteq> [] \<and> seg \<noteq> ''webhook'' then Some seg else None)"

definition webhook_rate_limit_middleware ::
    "(string \<Rightarrow> u64) \<Rightarrow> instant \<Rightarrow> string \<Rightarrow> header_map \<Rightarrow> string option \<Rightarrow> rate_limiter \<Rightarrow>
     rate_limit_exceeded option \<times> rate_limiter" where
  "webhook_rate_limit_middleware hash now uri headers ip rl =
     (let base_id = extract_client_id hash headers ip in
      limit_as now (case device_segment uri of Some i \<Rightarrow> base_id @ '':'' @ i | None \<Rightarrow> base_id) rl)"

section \<open>Runs\<close>

datatype limiter_op = CheckOp instant string | CleanupOp instant

fun op_time :: "limiter_op \<Rightarrow> instant" where
  "op_time (CheckOp t _) = t"
| "op_time (CleanupOp t) = t"

text \<open>The times of the accepted requests of a client, in order.\<close>

fun limiter_run :: "string \<Rightarrow> limiter_op list \<Rightarrow> rate_limiter \<Rightarrow> instant list \<times> rate_limiter" where
  "limiter_run key [] rl = ([], rl)"
| "limiter_run key (CheckOp t k # ops) rl =
     (let (res, rl) = check_client_limit t k rl; (ts, rl) = limiter_run key ops rl in
      (if k = key \<and> res = Inr () then t # ts else ts, rl))"
| "limiter_run key (CleanupOp t # ops) rl = limiter_run key ops (cleanup_old_entries t rl)"

section \<open>Lemmas\<close>

lemma in_window_mono: "now \<le> now' \<Longrightarrow> in_window cfg now' t \<Longrightarrow> in_window cfg now t"
  by (simp add: in_window_def)

lemma check_client_accepts:
  "fst (check_client cfg now c) = Inr () \<longleftrightarrow>
     length (filter (in_window cfg now) (cl_history c)) < max_requests cfg \<or>
     filter (in_window cfg now) (cl_history c) = []"
  by (auto simp: check_client_def Let_def split: list.splits option.splits)

lemma check_client_history:
  "cl_history (snd (check_client cfg now c)) =
     filter (in_window cfg now) (cl_history c) @ (if fst (check_client cfg now c) = Inr () then [now] else [])"
  by (auto simp: check_client_def Let_def split: list.splits option.splits)

lemma check_rate_limit_client:
  "client_of (snd (check_client_limit now k rl)) key =
     (if key = k then snd (check_client (rl_config rl) now (client_of rl k)) else client_of rl key)"
  "rl_config (snd (check_client_limit now k rl)) = rl_config rl"
  "fst (check_client_limit now k rl) = fst (check_client (rl_config rl) now (client_of rl k))"
  by (simp_all add: check_client_limit_def client_of_def case_prod_beta)

lemma cleanup_config [simp]: "rl_config (cleanup_old_entries now rl) = rl_config rl"
  by (simp add: cleanup_old_entries_def)

abbreviation clients_wf :: "rate_limiter \<Rightarrow> bool" where
  "clients_wf rl \<equiv> hm_wf (rl_clients rl)"

lemma check_wf: "clients_wf rl \<Longrightarrow> clients_wf (snd (check_client_limit now k rl))"
  by (simp add: check_client_limit_def case_prod_beta)

lemma cleanup_wf: "clients_wf rl \<Longrightarrow> clients_wf (cleanup_old_entries now rl)"
  by (auto simp: cleanup_old_entries_def distinct_map_filter comp_def case_prod_beta)

lemma map_of_map_snd: "map_of (map (\<lambda>(k, c). (k, f c)) m) key = map_option f (map_of m key)"
  by (induction m) auto

lemma cleanup_history:
  assumes "clients_wf rl"
  shows "cl_history (client_of (cleanup_old_entries now rl) key) =
         filter (in_window (rl_config rl) now) (cl_history (client_of rl key))"
proof -
  let ?f = "\<lambda>c. c\<lparr>cl_history := filter (in_window (rl_config rl) now) (cl_history c)\<rparr>"
  have "hm_wf (map (\<lambda>(k, c). (k, ?f c)) (rl_clients rl))" using assms by (simp add: comp_def case_prod_beta)
  then show ?thesis
    by (auto simp: cleanup_old_entries_def client_of_def hm_get_filter map_of_map_snd split: option.splits)
qed

lemma filter_in_window_twice:
  "now \<le> t \<Longrightarrow> filter (in_window cfg t) (filter (in_window cfg now) xs) = filter (in_window cfg t) xs"
  by (auto simp: filter_filter intro!: filter_cong dest: in_window_mono)

text \<open>The limiter as a log: a check logs its time when it accepts, a cleanup logs nothing. The limiter
  forgets an event as soon as it leaves the window.\<close>

fun limiter_step :: "limiter_op \<Rightarrow> rate_limiter \<Rightarrow> string option \<times> rate_limiter" where
  "limiter_step (CheckOp t k) rl =
     (let (res, rl) = check_client_limit t k rl in (if res = Inr () then Some k else None, rl))"
| "limiter_step (CleanupOp t) rl = (None, cleanup_old_entries t rl)"

lemma limiter_step_config [simp]: "rl_config (snd (limiter_step op rl)) = rl_config rl"
  by (cases op) (simp_all add: case_prod_beta check_rate_limit_client)

interpretation limited: sliding_log limiter_step op_time "\<lambda>rl k. cl_history (client_of rl k)" clients_wf
    "\<lambda>rl. in_window (rl_config rl)" "\<lambda>rl. per_duration (rl_config rl)"
proof unfold_locales
  fix op rl t j
  assume wf: "clients_wf rl"
  show "clients_wf (snd (limiter_step op rl))"
    using wf by (cases op) (simp_all add: case_prod_beta check_wf cleanup_wf)
  assume t: "op_time op \<le> t"
  show "filter (in_window (rl_config rl) t) (cl_history (client_of (snd (limiter_step op rl)) j)) =
      filter (in_window (rl_config rl) t)
        (cl_history (client_of rl j) @ (if fst (limiter_step op rl) = Some j then [op_time op] else []))"
    using t filter_in_window_twice [of "op_time op" t "rl_config rl"]
    by (cases op) (simp_all add: case_prod_beta check_rate_limit_client check_client_history cleanup_history [OF wf])
qed (auto simp: in_window_def)

text \<open>The history agrees with the accepted requests, is not from the future and within the limit.\<close>

definition agrees :: "string \<Rightarrow> instant list \<Rightarrow> instant \<Rightarrow> rate_limiter \<Rightarrow> bool" where
  "agrees key acc t0 rl \<longleftrightarrow>
     limited.follows key acc t0 rl \<and>
     (\<forall>t\<in>set (cl_history (client_of rl key)). t \<le> t0) \<and>
     length (cl_history (client_of rl key)) \<le> max_requests (rl_config rl)"

lemma agrees_step:
  assumes "agrees key acc t0 rl" "t0 \<le> op_time op" "0 < max_requests (rl_config rl)"
  shows "agrees key (if fst (limiter_step op rl) = Some key then acc @ [op_time op] else acc) (op_time op) (snd (limiter_step op rl))"
proof -
  let ?h = "cl_history (client_of rl key)" and ?rl' = "snd (limiter_step op rl)"
  have wf: "clients_wf rl" using assms(1) limited.follows_inv by (auto simp: agrees_def)
  have le: "\<forall>t\<in>set ?h. t \<le> op_time op" "length ?h \<le> max_requests (rl_config rl)"
    using assms(1,2) by (auto simp: agrees_def intro: order_trans)
  have len: "length (filter P ?h) \<le> max_requests (rl_config rl)" for P
    using le(2) length_filter_le order_trans by blast
  have "(\<forall>t\<in>set (cl_history (client_of ?rl' key)). t \<le> op_time op) \<and>
      length (cl_history (client_of ?rl' key)) \<le> max_requests (rl_config rl)"
    using le len check_client_accepts [of "rl_config rl" "op_time op" "client_of rl key"] assms(3)
    by (cases op) (auto simp: case_prod_beta check_rate_limit_client check_client_history cleanup_history [OF wf])
  with limited.follows_step [of key acc t0 rl op] assms(1,2) show ?thesis by (simp add: agrees_def)
qed

lemma step_room:
  assumes "fst (limiter_step op rl) = Some key" "0 < max_requests (rl_config rl)"
  shows "length (filter (in_window (rl_config rl) (op_time op)) (cl_history (client_of rl key))) < max_requests (rl_config rl)"
  using assms check_client_accepts [of "rl_config rl" "op_time op" "client_of rl key"]
  by (cases op) (auto simp: case_prod_beta check_rate_limit_client split: if_splits)

lemma limiter_run_step:
  "limiter_run key (op # ops) rl =
     (let (ts, rl') = limiter_run key ops (snd (limiter_step op rl)) in
      (if fst (limiter_step op rl) = Some key then op_time op # ts else ts, rl'))"
  by (cases op) (auto simp: case_prod_beta Let_def)

lemma limiter_run_bounded:
  assumes "agrees key acc t0 rl" "few_in_window (max_requests (rl_config rl)) (per_duration (rl_config rl)) acc"
    and "0 < max_requests (rl_config rl)" "sorted (t0 # map op_time ops)" "limiter_run key ops rl = (ts, rl')"
  shows "few_in_window (max_requests (rl_config rl)) (per_duration (rl_config rl)) (acc @ ts) \<and>
    agrees key (acc @ ts) (last (t0 # map op_time ops)) rl' \<and> rl_config rl' = rl_config rl"
  using assms
proof (induction ops arbitrary: acc t0 ts rl)
  case (Cons op ops)
  let ?rl1 = "snd (limiter_step op rl)"
  define acc1 where "acc1 = (if fst (limiter_step op rl) = Some key then acc @ [op_time op] else acc)"
  obtain ts1 rl1 where r1: "limiter_run key ops ?rl1 = (ts1, rl1)" by fastforce
  then have r: "limiter_run key ops ?rl1 = (ts1, rl')"
      "ts = (if fst (limiter_step op rl) = Some key then op_time op # ts1 else ts1)"
    using Cons.prems(5) unfolding limiter_run_step by simp_all
  have t: "t0 \<le> op_time op" "sorted (op_time op # map op_time ops)" using Cons.prems(4) by auto
  have ag: "agrees key acc1 (op_time op) ?rl1"
    unfolding acc1_def by (rule agrees_step [OF Cons.prems(1) t(1) Cons.prems(3)])
  have "few_in_window (max_requests (rl_config rl)) (per_duration (rl_config rl)) acc1"
  proof (cases "fst (limiter_step op rl) = Some key")
    case True
    from step_room [OF this Cons.prems(3)] Cons.prems(1) t(1)
    have "length (filter (in_window (rl_config rl) (op_time op)) acc) < max_requests (rl_config rl)"
      using limited.follows_at [of key acc t0 rl "op_time op"] by (simp add: agrees_def)
    with limited.few_in_window_snoc [OF Cons.prems(2)] True show ?thesis by (simp add: acc1_def)
  qed (use Cons.prems(2) in \<open>simp add: acc1_def\<close>)
  with Cons.IH [OF ag _ _ t(2) r(1)] Cons.prems(3) r(2) show ?case by (auto simp: acc1_def split: if_splits)
qed simp

lemma agrees_new: "agrees key [] 0 (limiter_with_config cfg)"
  by (simp add: agrees_def limited.follows_def) (simp add: limiter_with_config_def client_of_def)

lemma limiter_run_new:
  assumes "limiter_run key ops (limiter_with_config cfg) = (ts, rl)" "sorted (map op_time ops)" "0 < max_requests cfg"
  shows "few_in_window (max_requests cfg) (per_duration cfg) ts \<and> agrees key ts (last (0 # map op_time ops)) rl \<and> rl_config rl = cfg"
  using limiter_run_bounded [OF agrees_new _ _ _ assms(1)] assms(2,3)
  by (simp add: limiter_with_config_def)

section \<open>Properties\<close>

text \<open>C34. In any interval of the configured length, wherever it starts, no more requests of a client
  are accepted than the limit, over any sequence of checks of any clients and cleanups whose times do
  not decrease.\<close>

theorem accepted_requests_bounded:
  assumes "limiter_run key ops (limiter_with_config cfg) = (ts, rl)"
    and "sorted (map op_time ops)" and "0 < max_requests cfg"
  shows "length (filter (\<lambda>t. a \<le> t \<and> t < a + per_duration cfg) ts) \<le> max_requests cfg"
  using limiter_run_new [OF assms] by (simp add: few_in_window_def)

text \<open>A request is refused only when the client has used its whole limit in the interval that ends
  now, and the answer's waiting time is honest to the second: a request made more than that many whole
  seconds later is accepted.\<close>

lemma refusals_justified:
  assumes "limiter_run key ops (limiter_with_config cfg) = (ts, rl)"
    and "sorted (map op_time ops @ [now])" and "0 < max_requests cfg"
    and "check_client_limit now key rl = (Inl e, rl')"
  shows "max_requests cfg \<le> length (filter (in_window cfg now) ts)"
    and "now + from_secs (wait_seconds e + 1) \<le> later \<Longrightarrow> fst (check_client_limit later key rl') = Inr ()"
proof -
  have run: "agrees key ts (last (0 # map op_time ops)) rl" "rl_config rl = cfg"
    using limiter_run_new [OF assms(1) _ assms(3)] assms(2) by (simp_all add: sorted_append)
  have le: "last (0 # map op_time ops) \<le> now"
    using assms(2) by (cases ops rule: rev_cases) (auto simp: sorted_append)
  let ?c = "client_of rl key" and ?h = "filter (in_window cfg now) (cl_history (client_of rl key))"
  have h: "?h = filter (in_window cfg now) ts" "length (cl_history ?c) \<le> max_requests cfg"
      "\<forall>t\<in>set (cl_history ?c). t \<le> now"
    using run le limited.follows_at [of key ts _ rl now] by (auto simp: agrees_def intro: order_trans)
  have res: "fst (check_client cfg now ?c) = Inl e" "client_of rl' key = snd (check_client cfg now ?c)" "rl_config rl' = cfg"
    using assms(4) check_rate_limit_client [of now key rl] run(2) by simp_all
  then have full: "max_requests cfg \<le> length ?h" "?h \<noteq> []"
    using check_client_accepts [of cfg now ?c] by auto
  then show "max_requests cfg \<le> length (filter (in_window cfg now) ts)" using h(1) by simp
  obtain oldest rest where o: "?h = oldest # rest" using full(2) by (cases ?h) auto
  have same: "?h = cl_history ?c" using full(1) h(2) by (metis filter_id_conv length_filter_less linorder_not_less order_trans)
  have hist: "cl_history (client_of rl' key) = ?h"
    using res check_client_history [of cfg now ?c] by simp
  have wait: "wait_seconds e = as_secs (per_duration cfg - (now - oldest))"
    using res(1) full(1) o by (auto simp: check_client_def Let_def split: option.splits if_splits)
  assume later: "now + from_secs (wait_seconds e + 1) \<le> later"
  have "oldest \<le> now" using o h(3) same by (metis list.set_intros(1))
  moreover have "per_duration cfg - (now - oldest) < from_secs (wait_seconds e + 1)"
    using dividend_less_div_times [of 1000000000 "per_duration cfg - (now - oldest)"]
    by (simp add: wait as_secs_def from_secs_def algebra_simps)
  ultimately have "\<not> in_window cfg later oldest" using later by (simp add: in_window_def)
  then have "length (filter (in_window cfg later) ?h) < length ?h" using o by (intro length_filter_less [of oldest]) auto
  also have "\<dots> \<le> max_requests cfg" using h(2) same by simp
  finally show "fst (check_client_limit later key rl') = Inr ()"
    by (simp add: check_rate_limit_client res(3) check_client_accepts hist)
qed

text \<open>The default limit is between 5000 and 100000 requests a minute on any machine.\<close>

lemma adaptive_rate_limit_range: "5000 \<le> adaptive_rate_limit cpus mem \<and> adaptive_rate_limit cpus mem \<le> 100000"
  unfolding adaptive_rate_limit_def Let_def by (simp only: not_less split: if_split) linarith

text \<open>A limit of zero still accepts a first request.\<close>

lemma zero_limit_accepts: "cl_history c = [] \<Longrightarrow> fst (check_client cfg now c) = Inr ()"
  by (simp add: check_client_accepts)

text \<open>The identity is what the request claims before anything is authenticated: a request with an API
  key header whose hash the limiter has not seen is accepted, whoever sends it and however many
  requests its address has made.\<close>

lemma fresh_identity_not_limited:
  assumes "headers ''x-api-key'' = Some key" and "0 < max_requests (rl_config rl)"
    and "hm_get (rl_clients rl) (''apikey:_'' @ show_hex (unat (hash key))) = None"
  shows "fst (rate_limit_middleware hash now uri headers ip rl) = None"
proof -
  have "fst (check_client_limit now (''apikey:_'' @ show_hex (unat (hash key))) rl) = Inr ()"
    using assms(3) by (simp add: check_rate_limit_client client_of_def zero_limit_accepts)
  then show ?thesis
    using assms(1)
    by (auto simp: rate_limit_middleware_def limit_as_def extract_client_id_def split: prod.splits sum.splits)
qed

text \<open>Devices on their own webhook path have separate quotas under one shared key.\<close>

lemma webhook_quota_per_device:
  assumes "device_segment uri = Some i" and "device_segment uri' = Some j" and "i \<noteq> j"
    and "webhook_rate_limit_middleware hash now uri headers ip rl = (res, rl')"
  shows "client_of rl' (extract_client_id hash headers ip @ '':'' @ j) = client_of rl (extract_client_id hash headers ip @ '':'' @ j)"
  using assms check_rate_limit_client(1) [of now "extract_client_id hash headers ip @ '':'' @ i" rl
      "extract_client_id hash headers ip @ '':'' @ j"]
  by (auto simp: webhook_rate_limit_middleware_def limit_as_def Let_def split: prod.splits sum.splits)

definition two_per_second :: rate_limit_config where
  "two_per_second = \<lparr>max_requests = 2, per_duration = 1000000000, warn_interval = 1000000000\<rparr>"

definition limiter_burst :: "limiter_op list" where
  "limiter_burst = [CheckOp 0 ''c'', CheckOp 1 ''c'', CheckOp 2 ''c'']"

definition burst_after :: rate_limiter where
  "burst_after = \<lparr>rl_clients = [(''c'', \<lparr>cl_history = [0, 1], cl_last_warning = Some 2\<rparr>)], rl_config = two_per_second\<rparr>"

lemma burst_run: "limiter_run ''c'' limiter_burst (limiter_with_config two_per_second) = ([0, 1], burst_after)"
  by (simp add: limiter_burst_def burst_after_def limiter_with_config_def two_per_second_def check_client_limit_def
      check_client_def client_of_def in_window_def)

theorem accepted_requests_bounded_witness:
  "length (filter (\<lambda>t. 0 \<le> t \<and> t < 0 + per_duration two_per_second) ([0, 1] :: instant list)) \<le> 2"
  using accepted_requests_bounded [OF burst_run, of 0] by (simp add: limiter_burst_def two_per_second_def)

end
