(* ===== verification/HttpAuth.thy ===== *)
theory HttpAuth
  imports ApiKeys RateLimiter
begin

text \<open>
  Authentication of HTTP requests (\<open>heramind-api/src/auth.rs\<close> and \<open>auth_users.rs\<close>) and the endpoints for
  users, keys and the first set-up (\<open>handlers/auth_users.rs\<close>, \<open>handlers/auth.rs\<close>, \<open>handlers/setup.rs\<close>).

  A middleware answers with an error or with what it puts into the request's extensions, and the state
  it leaves. Headers are those whose value is visible ASCII. Whether a text has an alphabetic or numeric
  character is Unicode's table, given as two parameters.
\<close>

section \<open>State and errors\<close>

record server_auth =
  sa_users :: auth_state
  sa_keys :: key_state
  sa_proxy_secret :: string

record http_auth_error =
  hae_status :: nat
  hae_message :: string

definition unauthorized :: "string \<Rightarrow> http_auth_error" where
  "unauthorized message = \<lparr>hae_status = 401, hae_message = message\<rparr>"

definition forbidden :: "string \<Rightarrow> http_auth_error" where
  "forbidden message = \<lparr>hae_status = 403, hae_message = message\<rparr>"

definition http_auth_error_response :: "http_auth_error \<Rightarrow> nat \<times> json" where
  "http_auth_error_response e =
     (hae_status e, JObject [(''success'', JBool False),
        (''error'', JObject [(''code'', JString (if hae_status e = 401 then ''UNAUTHORIZED'' else ''FORBIDDEN'')),
                             (''message'', JString (hae_message e)), (''request_id'', JNull)]),
        (''status'', JInt (int (hae_status e)))])"

record error_response =
  er_code :: string
  er_message :: string
  er_status :: nat
  er_request_id :: "string option"
  er_hint :: "string option"

section \<open>Middlewares\<close>

definition bearer_of :: "header_map \<Rightarrow> string option" where
  "bearer_of headers = Option.bind (headers ''authorization'') (strip_prefix ''Bearer '')"

definition presented_key :: "header_map \<Rightarrow> string option" where
  "presented_key headers = (case headers ''x-api-key'' of Some k \<Rightarrow> Some k | None \<Rightarrow> bearer_of headers)"

definition api_key_middleware ::
    "key_libs \<Rightarrow> reload_env \<Rightarrow> header_map \<Rightarrow> key_state \<Rightarrow> (http_auth_error, string) rust_result \<times> key_state" where
  "api_key_middleware kl re headers ks =
     (case presented_key headers of
        None \<Rightarrow> (Inl (unauthorized ''Missing API key. Provide X-API-Key header or Authorization: Bearer <key>''), ks)
      | Some key \<Rightarrow>
          let (ok, ks) = validate_key kl re key ks in
          (if ok then Inr key else Inl (unauthorized ''Invalid API key''), ks))"

definition optional_auth_middleware ::
    "key_libs \<Rightarrow> reload_env \<Rightarrow> header_map \<Rightarrow> key_state \<Rightarrow> string option \<times> key_state" where
  "optional_auth_middleware kl re headers ks =
     (case presented_key headers of
        None \<Rightarrow> (None, ks)
      | Some key \<Rightarrow> let (ok, ks) = validate_key kl re key ks in (if ok then Some key else None, ks))"

definition share_proxy_session :: session_info where
  "share_proxy_session =
     \<lparr>si_user_id = ''share-proxy'', si_username = ''share-proxy'', si_role = RoleUser, si_created_at = 0,
      si_expires_at = 2 ^ 63 - 1\<rparr>"

definition key_session :: "api_key_info \<Rightarrow> session_info" where
  "key_session info =
     \<lparr>si_user_id = ''apikey:'' @ ak_id info, si_username = ak_name info,
      si_role = (if ''*'' \<in> set (ak_permissions info) then RoleAdmin else RoleUser),
      si_created_at = ak_created_at info, si_expires_at = 2 ^ 63 - 1\<rparr>"

definition hybrid_auth_middleware ::
    "auth_crypto \<Rightarrow> key_libs \<Rightarrow> int \<Rightarrow> reload_env \<Rightarrow> header_map \<Rightarrow> server_auth \<Rightarrow>
     (http_auth_error, session_info \<times> string option) rust_result \<times> server_auth" where
  "hybrid_auth_middleware cr kl now re headers sa =
     (if headers ''x-internal-proxy'' = Some ''share'' then
        (let secret_ok = (case headers ''x-internal-proxy-secret'' of
                            Some s \<Rightarrow> constant_time_eq_str s (sa_proxy_secret sa) | None \<Rightarrow> False) in
         if \<not> secret_ok then (Inl (unauthorized ''Internal proxy secret missing or invalid''), sa)
         else (Inr (share_proxy_session, None), sa))
      else
        (case Option.bind (bearer_of headers) (\<lambda>token.
                case validate_token cr now (sa_users sa) token of Inr info \<Rightarrow> Some info | Inl _ \<Rightarrow> None) of
           Some info \<Rightarrow> (Inr (info, None), sa)
         | None \<Rightarrow>
             let refused = Inl (unauthorized ''Authentication required. Provide a valid JWT token or API key.'') in
             (case presented_key headers of
                None \<Rightarrow> (refused, sa)
              | Some key \<Rightarrow>
                  let (found, ks) = validate_key_info kl re key (sa_keys sa); sa = sa\<lparr>sa_keys := ks\<rparr> in
                  (case found of
                     Some info \<Rightarrow> (Inr (key_session info, Some key), sa)
                   | None \<Rightarrow> (refused, sa)))))"

definition jwt_auth_middleware ::
    "auth_crypto \<Rightarrow> int \<Rightarrow> header_map \<Rightarrow> auth_state \<Rightarrow> (auth_error, session_info) rust_result" where
  "jwt_auth_middleware cr now headers st =
     and_then (ok_or (InvalidToken ''Missing Authorization header'') (headers ''authorization'')) (\<lambda>auth_header.
       and_then (ok_or (InvalidToken ''Invalid Authorization format'') (strip_prefix ''Bearer '' auth_header)) (\<lambda>token.
         validate_token cr now st token))"

definition optional_jwt_auth_middleware ::
    "auth_crypto \<Rightarrow> int \<Rightarrow> header_map \<Rightarrow> auth_state \<Rightarrow> session_info option" where
  "optional_jwt_auth_middleware cr now headers st =
     Option.bind (bearer_of headers) (\<lambda>token.
       case validate_token cr now st token of Inr info \<Rightarrow> Some info | Inl _ \<Rightarrow> None)"

definition client_ip_for_throttle :: "header_map \<Rightarrow> string \<Rightarrow> string" where
  "client_ip_for_throttle headers addr_ip =
     (let forwarded = (case headers ''x-forwarded-for'' of
                         Some xff \<Rightarrow> str_trim (hd (split_on (CHR '','') xff)) | None \<Rightarrow> []);
          real_ip = (case headers ''x-real-ip'' of Some rip \<Rightarrow> str_trim rip | None \<Rightarrow> []) in
      if forwarded \<noteq> [] then forwarded else if real_ip \<noteq> [] then real_ip else addr_ip)"

section \<open>Log-in, registration and sessions\<close>

text \<open>The clocks a request reads: wall time for tokens, the monotonic clock for throttles, at a log-in once for the check and
  once for the record. The log-in is three steps, between which other requests run: \<open>AuthThrottle.login_move\<close> interleaves
  the first and the last; this is the request that nothing interrupts.\<close>

definition login_answer_of :: "(auth_error, 'a) rust_result \<Rightarrow> login_answer" where
  "login_answer_of res =
     (case res of Inr _ \<Rightarrow> LoginAccepted
      | Inl e \<Rightarrow> if e = InvalidCredentials \<or> e = UserNotFound then BadCredentials else LoginError)"

definition login_handler ::
    "auth_crypto \<Rightarrow> db_fault \<Rightarrow> db_fault \<Rightarrow> int \<Rightarrow> instant \<Rightarrow> instant \<Rightarrow> header_map \<Rightarrow> string \<Rightarrow> string \<Rightarrow> string \<Rightarrow>
     auth_state \<Rightarrow> (auth_error, string \<times> user_info) rust_result \<times> auth_state" where
  "login_handler cr rfl sfl now checked_at settled_at headers addr username password st =
     (let ip = client_ip_for_throttle headers addr;
          (checked, th) = check_login_throttle checked_at username (Some ip) (as_throttle st);
          st = st\<lparr>as_throttle := th\<rparr> in
      case checked of
        Inl secs \<Rightarrow> (Inl (TooManyAttempts secs), st)
      | Inr _ \<Rightarrow>
          let (res, st) = auth_login cr rfl sfl now username password st in
          (res, st\<lparr>as_throttle := login_settle settled_at username (Some ip) (login_answer_of res) (as_throttle st)\<rparr>))"

definition register_handler ::
    "auth_crypto \<Rightarrow> db_fault \<Rightarrow> db_fault \<Rightarrow> nat \<Rightarrow> uuid \<Rightarrow> int \<Rightarrow> instant \<Rightarrow> header_map \<Rightarrow> string \<Rightarrow> string \<Rightarrow> string \<Rightarrow> auth_state \<Rightarrow>
     (auth_error, user_info \<times> string) rust_result \<times> auth_state" where
  "register_handler cr ufl sfl salt fresh now tick headers addr username password st =
     (let ip = client_ip_for_throttle headers addr;
          (checked, th) = check_signup_throttle tick ''reg'' (Some ip) (as_throttle st);
          st = st\<lparr>as_throttle := th\<rparr> in
      case checked of
        Inl secs \<Rightarrow> (Inl (TooManyAttempts secs), st)
      | Inr _ \<Rightarrow>
          let st = st\<lparr>as_throttle := record_signup_attempt tick ''reg'' (Some ip) (as_throttle st)\<rparr> in
          if \<not> as_allow_registration st then (Inl RegistrationDisabled, st)
          else auth_register cr ufl sfl salt fresh now username password RoleUser st)"

definition logout_handler :: "auth_crypto \<Rightarrow> db_fault \<Rightarrow> header_map \<Rightarrow> auth_state \<Rightarrow> json \<times> auth_state" where
  "logout_handler cr fl headers st =
     (JObject [(''message'', JString ''Logged out successfully'')],
      case bearer_of headers of Some token \<Rightarrow> auth_logout cr fl token st | None \<Rightarrow> st)"

definition get_current_user_handler :: "session_info \<Rightarrow> json" where
  "get_current_user_handler u =
     JObject [(''id'', JString (si_user_id u)), (''username'', JString (si_username u)),
              (''role'', JString (role_as_str (si_role u))), (''created_at'', JInt (si_created_at u))]"

definition get_auth_status_handler ::
    "auth_crypto \<Rightarrow> key_libs \<Rightarrow> int \<Rightarrow> reload_env \<Rightarrow> header_map \<Rightarrow> server_auth \<Rightarrow>
     (auth_error, json) rust_result \<times> server_auth" where
  "get_auth_status_handler cr kl now re headers sa =
     (case optional_jwt_auth_middleware cr now headers (sa_users sa) of
        Some info \<Rightarrow>
          (Inr (JObject [(''authenticated'', JBool True), (''method'', JString ''jwt''),
             (''user'', JObject [(''id'', JString (si_user_id info)), (''username'', JString (si_username info)),
                                 (''role'', JString (role_as_str (si_role info)))])]), sa)
      | None \<Rightarrow>
          (case headers ''x-api-key'' of
             None \<Rightarrow> (Inl (InvalidToken ''Authentication required''), sa)
           | Some key \<Rightarrow>
               let (ok, ks) = validate_key kl re key (sa_keys sa) in
               (if ok then Inr (JObject [(''authenticated'', JBool True), (''method'', JString ''api_key'')])
                else Inl (InvalidToken ''Authentication required''), sa\<lparr>sa_keys := ks\<rparr>)))"

definition change_password_handler ::
    "auth_crypto \<Rightarrow> db_fault \<Rightarrow> revoke_faults \<Rightarrow> nat \<Rightarrow> session_info \<Rightarrow> string \<Rightarrow> string \<Rightarrow> auth_state \<Rightarrow>
     (auth_error, unit) rust_result \<times> auth_state" where
  "change_password_handler cr ufl sfl salt u old new st =
     auth_change_password cr ufl sfl salt (si_username u) old new st"

section \<open>Users, for administrators\<close>

definition admin_required :: auth_error where
  "admin_required = AuthInvalidInput ''Admin access required''"

definition list_users_handler :: "session_info \<Rightarrow> auth_state \<Rightarrow> (auth_error, user_info list) rust_result" where
  "list_users_handler u st = (if si_role u \<noteq> RoleAdmin then Inl admin_required else Inr (auth_list_users st))"

definition create_user_handler ::
    "auth_crypto \<Rightarrow> db_fault \<Rightarrow> db_fault \<Rightarrow> nat \<Rightarrow> uuid \<Rightarrow> int \<Rightarrow> session_info \<Rightarrow> string \<Rightarrow> string \<Rightarrow> user_role option \<Rightarrow>
     auth_state \<Rightarrow> (auth_error, user_info) rust_result \<times> auth_state" where
  "create_user_handler cr ufl sfl salt fresh now u username password role st =
     (if si_role u \<noteq> RoleAdmin then (Inl admin_required, st)
      else
        let (res, st) = auth_register cr ufl sfl salt fresh now username password (unwrap_or role RoleUser) st in
        (and_then res (\<lambda>(user, _). Inr user), st))"

definition delete_user_handler ::
    "db_fault \<Rightarrow> revoke_faults \<Rightarrow> session_info \<Rightarrow> string \<Rightarrow> auth_state \<Rightarrow> (auth_error, unit) rust_result \<times> auth_state" where
  "delete_user_handler ufl sfl u username st =
     (if si_role u \<noteq> RoleAdmin then (Inl admin_required, st)
      else if username = si_username u then (Inl (AuthInvalidInput ''Cannot delete your own account''), st)
      else auth_delete_user ufl sfl username st)"

definition get_registration_settings_handler :: "session_info \<Rightarrow> auth_state \<Rightarrow> (auth_error, bool) rust_result" where
  "get_registration_settings_handler u st =
     (if si_role u \<noteq> RoleAdmin then Inl admin_required else Inr (as_allow_registration st))"

definition update_registration_settings_handler ::
    "db_fault \<Rightarrow> session_info \<Rightarrow> bool \<Rightarrow> auth_state \<Rightarrow> (auth_error, bool) rust_result \<times> auth_state" where
  "update_registration_settings_handler fl u allow st =
     (if si_role u \<noteq> RoleAdmin then (Inl admin_required, st) else (Inr allow, set_allow_registration fl allow st))"

section \<open>API keys\<close>

definition extract_api_key :: "header_map \<Rightarrow> (http_auth_error, string) rust_result" where
  "extract_api_key headers = ok_or (unauthorized ''Missing API key'') (presented_key headers)"

text \<open>The guard that opens every key endpoint.\<close>

definition with_valid_key ::
    "key_libs \<Rightarrow> reload_env \<Rightarrow> header_map \<Rightarrow> key_state \<Rightarrow> (key_state \<Rightarrow> 'a \<times> key_state) \<Rightarrow>
     (http_auth_error, 'a) rust_result \<times> key_state" where
  "with_valid_key kl re headers ks body =
     (case extract_api_key headers of
        Inl e \<Rightarrow> (Inl e, ks)
      | Inr key \<Rightarrow>
          let (ok, ks) = validate_key kl re key ks in
          if \<not> ok then (Inl (unauthorized ''Invalid API key''), ks)
          else let (r, ks) = body ks in (Inr r, ks))"

definition key_preview :: "string \<Rightarrow> string" where
  "key_preview key = take (min (length key) 12) key @ ''...''"

definition list_keys_handler ::
    "key_libs \<Rightarrow> reload_env \<Rightarrow> header_map \<Rightarrow> key_state \<Rightarrow>
     (http_auth_error, (api_key_info \<times> string) list) rust_result \<times> key_state" where
  "list_keys_handler kl re headers ks =
     with_valid_key kl re headers ks (\<lambda>ks. (map (\<lambda>(key, info). (info, key_preview key)) (list_keys ks), ks))"

definition create_key_handler ::
    "key_libs \<Rightarrow> reload_env \<Rightarrow> save_faults \<Rightarrow> key_draw \<Rightarrow> header_map \<Rightarrow> string \<Rightarrow> string list \<Rightarrow> key_state \<Rightarrow>
     (http_auth_error, string \<times> api_key_info) rust_result \<times> key_state" where
  "create_key_handler kl re sfl d headers name permissions ks =
     with_valid_key kl re headers ks
       (create_key kl sfl d name (if permissions = [] then [''*''] else permissions))"

text \<open>The digest of the key found is handed to \<open>delete_key\<close>, which takes a key.\<close>

definition delete_key_handler ::
    "key_libs \<Rightarrow> reload_env \<Rightarrow> save_faults \<Rightarrow> header_map \<Rightarrow> string \<Rightarrow> key_state \<Rightarrow>
     (http_auth_error, string \<times> bool) rust_result \<times> key_state" where
  "delete_key_handler kl re sfl headers i ks =
     with_valid_key kl re headers ks (\<lambda>ks.
       case map_option fst (find (\<lambda>(_, info). ak_id info = i) (list_keys ks)) of
         None \<Rightarrow> ((''API key '' @ i @ '' not found'', False), ks)
       | Some key \<Rightarrow>
           let (removed, ks) = delete_key kl sfl key ks in
           (if removed then (''API key '' @ i @ '' deleted'', True)
            else (''Failed to delete API key '' @ i, False), ks))"

definition auth_status_handler :: "key_state \<Rightarrow> bool \<times> nat \<times> bool" where
  "auth_status_handler ks = (True, length (list_keys ks), 0 < length (list_keys ks))"

section \<open>First set-up\<close>

definition is_valid_email :: "string \<Rightarrow> bool" where
  "is_valid_email email =
     (case str_find (CHR 0x40) email of
        Some at_pos \<Rightarrow>
          if at_pos > 0 \<and> at_pos < length email - 1
          then let after_at = drop (at_pos + 1) email in
            CHR ''.'' \<in> set after_at \<and> \<not> starts_with after_at ''.'' \<and> \<not> ends_with after_at ''.''
          else False
      | None \<Rightarrow> False)"

definition setup_status_handler :: "auth_state \<Rightarrow> bool \<times> bool \<times> string" where
  "setup_status_handler st = (let required = auth_list_users st = [] in (required, required, ''1.0''))"

record admin_request =
  ar_username :: string
  ar_password :: string
  ar_email :: "string option"

definition setup_error :: "nat \<Rightarrow> string \<Rightarrow> string \<Rightarrow> error_response" where
  "setup_error status code message =
     \<lparr>er_code = code, er_message = message, er_status = status, er_request_id = None, er_hint = None\<rparr>"

text \<open>The set-up of the first administrator first asks the throttle and whether there are users, and then creates the user;
  the lock on the users is not held in between.\<close>

definition setup_ask ::
    "instant \<Rightarrow> header_map \<Rightarrow> string \<Rightarrow> auth_state \<Rightarrow> (error_response, unit) rust_result \<times> auth_state" where
  "setup_ask tick headers addr st =
     (let ip = client_ip_for_throttle headers addr;
          (checked, th) = check_signup_throttle tick ''setup'' (Some ip) (as_throttle st);
          st = st\<lparr>as_throttle := th\<rparr> in
      case checked of
        Inl secs \<Rightarrow>
          (Inl (setup_error 429 ''TOO_MANY_ATTEMPTS''
             (''Too many setup attempts '' @ map char_of [0xE2, 0x80, 0x94 :: nat] @ '' try again in '' @ show_nat secs
               @ '' seconds'')), st)
      | Inr _ \<Rightarrow>
          let st = st\<lparr>as_throttle := record_signup_attempt tick ''setup'' (Some ip) (as_throttle st)\<rparr> in
          if auth_list_users st \<noteq> []
          then (Inl (setup_error 403 ''SETUP_ALREADY_COMPLETED''
                  ''System has already been initialized. Use /api/auth/login to sign in.''), st)
          else (Inr (), st))"

definition setup_create ::
    "(string \<Rightarrow> bool) \<Rightarrow> (string \<Rightarrow> bool) \<Rightarrow> auth_crypto \<Rightarrow> db_fault \<Rightarrow> db_fault \<Rightarrow> nat \<Rightarrow> uuid \<Rightarrow> int \<Rightarrow>
     admin_request \<Rightarrow> auth_state \<Rightarrow> (error_response, user_info \<times> string) rust_result \<times> auth_state" where
  "setup_create has_letter has_number cr ufl sfl salt fresh now req st =
     (if length (ar_username req) < 3
      then (Inl (setup_error 400 ''INVALID_USERNAME'' ''Username must be at least 3 characters''), st)
      else if (case ar_email req of Some e \<Rightarrow> e \<noteq> [] \<and> \<not> is_valid_email e | None \<Rightarrow> False)
      then (Inl (setup_error 400 ''INVALID_EMAIL'' ''Please provide a valid email address''), st)
      else if length (ar_password req) < 8
      then (Inl (setup_error 400 ''WEAK_PASSWORD'' ''Password must be at least 8 characters''), st)
      else if \<not> has_letter (ar_password req) \<or> \<not> has_number (ar_password req)
      then (Inl (setup_error 400 ''WEAK_PASSWORD'' ''Password must contain both letters and numbers''), st)
      else
        let (res, st) = auth_register cr ufl sfl salt fresh now (ar_username req) (ar_password req) RoleAdmin st in
        (map_err (\<lambda>e. setup_error 500 ''USER_CREATE_FAILED'' (show_auth_error e)) res, st))"

definition initialize_admin_handler ::
    "(string \<Rightarrow> bool) \<Rightarrow> (string \<Rightarrow> bool) \<Rightarrow> auth_crypto \<Rightarrow> db_fault \<Rightarrow> db_fault \<Rightarrow> nat \<Rightarrow> uuid \<Rightarrow> int \<Rightarrow> instant \<Rightarrow> header_map \<Rightarrow>
     string \<Rightarrow> admin_request \<Rightarrow> auth_state \<Rightarrow> (error_response, user_info \<times> string) rust_result \<times> auth_state" where
  "initialize_admin_handler has_letter has_number cr ufl sfl salt fresh now tick headers addr req st =
     (case setup_ask tick headers addr st of
        (Inl e, st) \<Rightarrow> (Inl e, st)
      | (Inr _, st) \<Rightarrow> setup_create has_letter has_number cr ufl sfl salt fresh now req st)"

text \<open>What goes on meanwhile: other accounts' business, and the two steps of other set-ups.\<close>

datatype setup_op =
    AccountOp auth_op
  | OtherAsk instant header_map string
  | OtherCreate db_fault db_fault nat uuid int admin_request

fun setup_step :: "(string \<Rightarrow> bool) \<Rightarrow> (string \<Rightarrow> bool) \<Rightarrow> auth_crypto \<Rightarrow> setup_op \<Rightarrow> auth_state \<Rightarrow> auth_state" where
  "setup_step has_letter has_number cr (AccountOp op) st = snd (auth_step cr op st)"
| "setup_step has_letter has_number cr (OtherAsk tick headers addr) st = snd (setup_ask tick headers addr st)"
| "setup_step has_letter has_number cr (OtherCreate ufl sfl salt fresh now req) st =
     snd (setup_create has_letter has_number cr ufl sfl salt fresh now req st)"

definition setup_run :: "(string \<Rightarrow> bool) \<Rightarrow> (string \<Rightarrow> bool) \<Rightarrow> auth_crypto \<Rightarrow> setup_op list \<Rightarrow> auth_state \<Rightarrow> auth_state" where
  "setup_run has_letter has_number cr ops st = fold (setup_step has_letter has_number cr) ops st"

fun deletes :: "string \<Rightarrow> setup_op \<Rightarrow> bool" where
  "deletes name (AccountOp (DeleteUser _ _ n)) \<longleftrightarrow> n = name"
| "deletes name _ \<longleftrightarrow> False"

section \<open>Lemmas\<close>

lemma key_info_exact:
  "fst (validate_key_info kl re key ks) = Some info \<longleftrightarrow> ak_active info \<and>
     (\<exists>enc. hm_get (ks_keys (snd (validate_key_info kl re key ks))) (hash_api_key kl key) = Some (enc, info))"
  by (auto simp: validate_key_info_def Let_def bind_eq_Some_conv simp del: map_of_eq_Some_iff
      split: option.splits if_splits)

lemma with_valid_key_Inr:
  assumes "with_valid_key kl re headers ks body = (Inr r, ks')"
  obtains key ks1 where "presented_key headers = Some key" "validate_key kl re key ks = (True, ks1)" "body ks1 = (r, ks')"
  using assms by (auto simp: with_valid_key_def extract_api_key_def split: sum.splits prod.splits if_splits option.splits
      elim!: ok_or.elims)

lemma register_makes_user:
  assumes "auth_register cr ufl sfl salt fresh now name pw role st = (Inr r, st')"
  shows "hm_contains (as_users st') name \<and> ui_role (fst r) = role \<and> ui_username (fst r) = name \<and>
    as_throttle st' = as_throttle st"
  using assms by (auto simp: auth_register_def Let_def dom_update split: if_splits sum.splits prod.splits)

section \<open>Properties\<close>

text \<open>C28. Who passes the authentication of the API, exactly: a request that claims to come from the share proxy, if it carries
  the exact secret of this process, and then acts as the user of the share proxy; any other request whose bearer token validates, as that
  token's session; and any other that presents a key whose digest is stored, or found when the stored keys are read again,
  and which is active, under the key's identifier and name, whatever permissions the key has.\<close>

theorem requests_are_authenticated:
  "(\<exists>info sa'. hybrid_auth_middleware cr kl now re headers sa = (Inr (info, key), sa') \<and> si_user_id info = uid \<and> si_username info = name) \<longleftrightarrow>
    (if headers ''x-internal-proxy'' = Some ''share''
     then headers ''x-internal-proxy-secret'' = Some (sa_proxy_secret sa) \<and> key = None \<and> uid = ''share-proxy'' \<and> name = ''share-proxy''
     else if \<exists>token info. bearer_of headers = Some token \<and> validate_token cr now (sa_users sa) token = Inr info
     then key = None \<and> (\<exists>token info. bearer_of headers = Some token \<and> validate_token cr now (sa_users sa) token = Inr info \<and>
       uid = si_user_id info \<and> name = si_username info)
     else \<exists>k ki enc. presented_key headers = Some k \<and> key = Some k \<and> ak_active ki \<and>
       hm_get (ks_keys (snd (validate_key_info kl re k (sa_keys sa)))) (hash_api_key kl k) = Some (enc, ki) \<and>
       uid = ''apikey:'' @ ak_id ki \<and> name = ak_name ki)"
proof (cases "headers ''x-internal-proxy'' = Some ''share''")
  case True
  then show ?thesis
    by (auto simp: hybrid_auth_middleware_def share_proxy_session_def constant_time_eq_exact Let_def
        split: option.splits if_splits)
next
  case no_proxy: False
  let ?jwt = "Option.bind (bearer_of headers) (\<lambda>token.
      case validate_token cr now (sa_users sa) token of Inr info \<Rightarrow> Some info | Inl _ \<Rightarrow> None)"
  show ?thesis
  proof (cases ?jwt)
    case (Some i)
    then obtain token where "bearer_of headers = Some token" "validate_token cr now (sa_users sa) token = Inr i"
      by (cases "bearer_of headers") (auto split: sum.splits)
    with no_proxy Some show ?thesis by (auto simp: hybrid_auth_middleware_def)
  next
    case None
    then have no_token: "\<nexists>token info. bearer_of headers = Some token \<and> validate_token cr now (sa_users sa) token = Inr info"
      by auto
    show ?thesis
    proof (cases "presented_key headers")
      case k: (Some k)
      show ?thesis
      proof (cases "fst (validate_key_info kl re k (sa_keys sa))")
        case refused: None
        obtain found ks where v: "validate_key_info kl re k (sa_keys sa) = (found, ks)" by fastforce
        with refused key_info_exact [of kl re k "sa_keys sa"]
        have "found = None" "\<nexists>ki enc. ak_active ki \<and> hm_get (ks_keys ks) (hash_api_key kl k) = Some (enc, ki)"
          by (auto simp del: map_of_eq_Some_iff)
        with no_proxy None no_token k v show ?thesis
          by (auto simp: hybrid_auth_middleware_def Let_def simp del: map_of_eq_Some_iff)
      next
        case found: (Some ki)
        then obtain enc where ki: "ak_active ki"
          "hm_get (ks_keys (snd (validate_key_info kl re k (sa_keys sa)))) (hash_api_key kl k) = Some (enc, ki)"
          using key_info_exact by metis
        with no_proxy None no_token k found show ?thesis
          by (auto simp: hybrid_auth_middleware_def key_session_def Let_def simp del: map_of_eq_Some_iff split: prod.splits)
      qed
    next
      case no_key: None
      with no_proxy None no_token show ?thesis by (auto simp: hybrid_auth_middleware_def Let_def)
    qed
  qed
qed

definition no_headers :: header_map where
  "no_headers = (\<lambda>_. None)"

definition toy_server :: server_auth where
  "toy_server = \<lparr>sa_users = fresh_auth, sa_keys = toy_keys, sa_proxy_secret = ''s3''\<rparr>"

theorem requests_are_authenticated_witness:
  "\<exists>info sa'. hybrid_auth_middleware toy_crypto toy_libs 5 toy_reload (no_headers(''x-api-key'' \<mapsto> ''nmk_11'')) toy_server
      = (Inr (info, Some ''nmk_11''), sa') \<and> si_user_id info = ''apikey:1-1'' \<and> si_username info = ''Default API Key''"
  unfolding requests_are_authenticated
  by (simp add: no_headers_def bearer_of_def presented_key_def validate_key_info_def toy_server_def toy_key_defs)

text \<open>Deleting a key over HTTP never deletes one: whatever key the caller presents and whatever
  identifier it names, the keys the server holds and the rows on disk are those the check of the
  caller's own key left, and the answer is never a success. The handler passes the stored digest to an
  operation that digests it again; the digest of a stored digest is assumed not to be a stored digest.\<close>

lemma http_key_deletion_deletes_nothing:
  assumes "delete_key_handler kl re sfl headers i ks = (Inr (message, success), ks')"
    and "presented_key headers = Some caller"
    and "\<forall>h. hm_contains (ks_keys (snd (validate_key kl re caller ks))) h \<longrightarrow>
           \<not> hm_contains (ks_keys (snd (validate_key kl re caller ks))) (hash_api_key kl h)"
  shows "\<not> success \<and> ks' = snd (validate_key kl re caller ks)"
proof -
  obtain ks1 where v: "validate_key kl re caller ks = (True, ks1)"
    and b: "(case map_option fst (find (\<lambda>(_, info). ak_id info = i) (list_keys ks1)) of
         None \<Rightarrow> ((''API key '' @ i @ '' not found'', False), ks1)
       | Some key \<Rightarrow>
           let (removed, ks) = delete_key kl sfl key ks1 in
           (if removed then (''API key '' @ i @ '' deleted'', True)
            else (''Failed to delete API key '' @ i, False), ks)) = ((message, success), ks')"
    using assms(1,2) unfolding delete_key_handler_def by (elim with_valid_key_Inr) simp
  show ?thesis
  proof (cases "map_option fst (find (\<lambda>(_, info). ak_id info = i) (list_keys ks1))")
    case None
    with b v show ?thesis by simp
  next
    case (Some h)
    then have "h \<in> fst ` set (list_keys ks1)" by (auto simp: find_Some_iff) (metis fst_conv image_eqI nth_mem)
    then have "hm_contains (ks_keys ks1) h" by (force simp: list_keys_def)
    then have "\<not> hm_contains (ks_keys ks1) (hash_api_key kl h)" using assms(3) v by simp
    with b Some v show ?thesis by (auto simp: delete_key_def delete_key_by_hash_def)
  qed
qed

text \<open>Only administrators manage accounts: on the routes behind the token check, a request that
  lists, creates or deletes a user, or reads or sets whether registration is open, is refused and
  changes nothing unless it carries a token of this server that validates with the role of
  administrator; and not even an administrator deletes the account it acts as.\<close>

lemma only_admins_manage_accounts:
  assumes "jwt_auth_middleware cr now headers st = Inr u"
    and "\<nexists>token info. headers ''authorization'' = Some (''Bearer '' @ token) \<and>
           validate_token cr now st token = Inr info \<and> si_role info = RoleAdmin"
  shows "list_users_handler u st = Inl admin_required \<and>
    create_user_handler cr ufl sfl salt fresh now u name pw role st = (Inl admin_required, st) \<and>
    delete_user_handler ufl rfl u victim st = (Inl admin_required, st) \<and>
    get_registration_settings_handler u st = Inl admin_required \<and>
    update_registration_settings_handler ufl u allow st = (Inl admin_required, st)"
proof -
  have "si_role u \<noteq> RoleAdmin"
    using assms by (auto simp: jwt_auth_middleware_def elim!: ok_or.elims and_then.elims)
  then show ?thesis
    by (simp add: list_users_handler_def create_user_handler_def delete_user_handler_def
        get_registration_settings_handler_def update_registration_settings_handler_def)
qed

lemma set_up_accepts:
  assumes "setup_create has_letter has_number cr ufl sfl salt fresh now req st = (Inr (ui, token), st')"
  shows "ui_role ui = RoleAdmin \<and> ui_username ui = ar_username req \<and> hm_contains (as_users st') (ar_username req) \<and>
    8 \<le> length (ar_password req) \<and> has_letter (ar_password req) \<and> has_number (ar_password req)"
proof -
  have reg: "auth_register cr ufl sfl salt fresh now (ar_username req) (ar_password req) RoleAdmin st = (Inr (ui, token), st')"
    and rules: "8 \<le> length (ar_password req)" "has_letter (ar_password req)" "has_number (ar_password req)"
    using assms by (auto simp: setup_create_def Let_def split: prod.splits if_splits elim!: map_err.elims)
  from register_makes_user [OF reg] rules show ?thesis by simp
qed

lemma register_keeps_users:
  "hm_contains (as_users st) n \<Longrightarrow> hm_contains (as_users (snd (auth_register cr ufl sfl salt fresh now name pw role st))) n"
  by (auto simp: auth_register_def Let_def dom_update split: sum.splits prod.splits)

lemma account_kept:
  assumes "hm_contains (as_users st) n" and "\<not> deletes n op"
  shows "hm_contains (as_users (setup_step has_letter has_number cr op st)) n"
proof (cases op)
  case (AccountOp x)
  show ?thesis
  proof (cases x)
    case (RegisterUser ufl sfl salt fresh now name pw role)
    with AccountOp register_keeps_users [OF assms(1), of cr ufl sfl salt fresh now name pw role] show ?thesis
      by (auto split: prod.splits sum.splits)
  next
    case (LoginUser rfl sfl now name pw)
    with AccountOp assms(1) show ?thesis
      by (auto simp: auth_login_def check_credentials_def Let_def dom_update split: prod.splits sum.splits option.splits if_splits)
  next
    case (LogoutToken fl token)
    with AccountOp assms(1) show ?thesis by (simp add: auth_logout_def Let_def)
  next
    case (DeleteUser ufl sfl name)
    with AccountOp assms show ?thesis
      by (auto simp: auth_delete_user_def revoke_user_sessions_def AList.delete_eq split: prod.splits sum.splits if_splits)
  next
    case (ChangePassword ufl sfl salt name old new)
    with AccountOp assms(1) show ?thesis
      by (auto simp: auth_change_password_def revoke_user_sessions_def Let_def dom_update split: prod.splits sum.splits option.splits if_splits)
  next
    case (SetRegistration fl allow)
    with AccountOp assms(1) show ?thesis by (simp add: set_allow_registration_def)
  qed
next
  case (OtherAsk tick headers addr)
  with assms(1) show ?thesis by (auto simp: setup_ask_def Let_def split: prod.splits sum.splits)
next
  case (OtherCreate ufl sfl salt fresh now req)
  with register_keeps_users [OF assms(1), of cr ufl sfl salt fresh now "ar_username req" "ar_password req" RoleAdmin] assms(1)
  show ?thesis by (auto simp: setup_create_def Let_def split: prod.splits)
qed

lemma account_kept_along:
  "hm_contains (as_users st) n \<Longrightarrow> \<not> list_ex (deletes n) ops \<Longrightarrow>
     hm_contains (as_users (setup_run has_letter has_number cr ops st)) n"
  by (induction ops arbitrary: st) (auto simp: setup_run_def account_kept)

lemma ask_refused:
  assumes "as_users st \<noteq> []"
  shows "\<exists>e th. setup_ask tick headers addr st = (Inl e, st\<lparr>as_throttle := th\<rparr>) \<and> er_status e \<in> {403, 429}"
  using assms by (auto simp: setup_ask_def Let_def setup_error_def auth_list_users_def split: prod.splits sum.splits)

text \<open>C31. The set-up endpoint gives the administrator's account to those who ask while there is no account. A call whose second
  step creates an account found no account when it asked, whatever ran in between, and the account is an administrator with
  the requested name and a password of eight bytes or more holding a letter and a number. Every call that asks later, after
  whatever else ran as long as the account is not deleted, is refused and changes nothing but the throttle. Calls that had all
  asked before are not held apart.\<close>

theorem setup_happens_once:
  assumes "setup_ask tick headers addr st = (Inr (), st1)"
    and "setup_create has_letter has_number cr ufl sfl salt fresh now req (setup_run has_letter has_number cr before st1) =
      (Inr (ui, token), st2)"
    and "\<not> list_ex (deletes (ar_username req)) after" and "later = setup_run has_letter has_number cr after st2"
  shows "as_users st = [] \<and> ui_role ui = RoleAdmin \<and> ui_username ui = ar_username req \<and>
    8 \<le> length (ar_password req) \<and> has_letter (ar_password req) \<and> has_number (ar_password req) \<and>
    (\<exists>e th. initialize_admin_handler has_letter has_number cr ufl2 sfl2 salt2 fresh2 now2 tick2 headers2 addr2 req2 later =
       (Inl e, later\<lparr>as_throttle := th\<rparr>) \<and> er_status e \<in> {403, 429})"
proof -
  have "as_users st = []"
    using assms(1) by (auto simp: setup_ask_def Let_def auth_list_users_def split: prod.splits sum.splits if_splits)
  moreover note made = set_up_accepts [OF assms(2)]
  with assms(3) have "hm_contains (as_users later) (ar_username req)" unfolding assms(4) by (blast intro: account_kept_along)
  then have "as_users later \<noteq> []" by auto
  from ask_refused [OF this, of tick2 headers2 addr2]
  have "\<exists>e th. initialize_admin_handler has_letter has_number cr ufl2 sfl2 salt2 fresh2 now2 tick2 headers2 addr2 req2 later =
       (Inl e, later\<lparr>as_throttle := th\<rparr>) \<and> er_status e \<in> {403, 429}"
    by (auto simp: initialize_admin_handler_def)
  ultimately show ?thesis using made by blast
qed

definition toy_request :: admin_request where
  "toy_request = \<lparr>ar_username = ''root'', ar_password = ''pass1234'', ar_email = None\<rparr>"

lemmas setup_run_defs = initialize_admin_handler_def setup_ask_def setup_create_def client_ip_for_throttle_def no_headers_def check_signup_throttle_def
  record_signup_attempt_def counter_check_def throttle_production_def sliding_counter_new_def auth_list_users_def
  toy_request_def is_valid_email_def auth_run_defs

theorem setup_happens_once_witness:
  "\<exists>ui token st1 st2. setup_ask 0 no_headers ''10.0.0.1'' fresh_auth = (Inr (), st1) \<and>
     setup_create (\<lambda>_. True) (\<lambda>_. True) toy_crypto None None 0 ''u'' 3 toy_request st1 = (Inr (ui, token), st2) \<and>
     ui_role ui = RoleAdmin \<and>
     (\<exists>e. fst (initialize_admin_handler (\<lambda>_. True) (\<lambda>_. True) toy_crypto None None 0 ''v'' 4 1 no_headers ''10.0.0.2''
       toy_request (snd (auth_step toy_crypto (RegisterUser None None 0 ''w'' 4 ''ann'' ''secret'' RoleUser) st2))) = Inl e)"
proof -
  have "\<exists>st1. setup_ask 0 no_headers ''10.0.0.1'' fresh_auth = (Inr (), st1) \<and>
    (\<exists>ui token st2. setup_create (\<lambda>_. True) (\<lambda>_. True) toy_crypto None None 0 ''u'' 3 toy_request st1 = (Inr (ui, token), st2))"
    by (simp add: setup_run_defs)
  then obtain ui token st1 st2 where r: "setup_ask 0 no_headers ''10.0.0.1'' fresh_auth = (Inr (), st1)"
    "setup_create (\<lambda>_. True) (\<lambda>_. True) toy_crypto None None 0 ''u'' 3 toy_request
       (setup_run (\<lambda>_. True) (\<lambda>_. True) toy_crypto [] st1) = (Inr (ui, token), st2)"
    by (auto simp: setup_run_def)
  let ?after = "[AccountOp (RegisterUser None None 0 ''w'' 4 ''ann'' ''secret'' RoleUser)]"
  have "\<not> list_ex (deletes (ar_username toy_request)) ?after" by simp
  from setup_happens_once [OF r this refl, of None None 0 "''v''" 4 1 no_headers "''10.0.0.2''" toy_request] r
  show ?thesis by (force simp: setup_run_def)
qed

text \<open>Two calls that ask before either creates both get an administrator.\<close>

lemma setup_race:
  "\<exists>st1 st2 ui1 t1 st3 ui2 t2 st4. setup_ask 0 no_headers ''10.0.0.1'' fresh_auth = (Inr (), st1) \<and>
     setup_ask 0 no_headers ''10.0.0.2'' st1 = (Inr (), st2) \<and>
     setup_create (\<lambda>_. True) (\<lambda>_. True) toy_crypto None None 0 ''u'' 3 toy_request st2 = (Inr (ui1, t1), st3) \<and>
     setup_create (\<lambda>_. True) (\<lambda>_. True) toy_crypto None None 0 ''v'' 3 (toy_request\<lparr>ar_username := ''eve''\<rparr>) st3 = (Inr (ui2, t2), st4) \<and>
     ui_role ui1 = RoleAdmin \<and> ui_role ui2 = RoleAdmin"
  by (simp add: setup_run_defs signup_key_def counter_record_def SWEEP_THRESHOLD_def Let_def)

lemma setup_open:
  assumes "as_users st = []" "as_throttle st = throttle_production" "3 \<le> length (ar_username req)"
    and "ar_email req = None" "8 \<le> length (ar_password req)" "has_letter (ar_password req)" "has_number (ar_password req)"
    and "bcrypt_hash cr (ar_password req) salt = Inr h"
  shows "\<exists>ui token st'. initialize_admin_handler has_letter has_number cr None sfl salt fresh now tick headers addr req st =
    (Inr (ui, token), st') \<and> ui_role ui = RoleAdmin"
  using assms
  by (simp add: initialize_admin_handler_def setup_ask_def setup_create_def check_signup_throttle_def counter_check_def throttle_production_def
      sliding_counter_new_def auth_list_users_def auth_register_def hash_password_def save_user_to_db_def Let_def)

text \<open>A user table that cannot be read when the server starts (a fault, or one row that does not
  decode) opens the set-up again although accounts exist: the status says that set-up is required, and
  the first caller with a valid request whose account can be saved gets an administrator's token.\<close>

lemma unreadable_user_table_reopens_setup:
  assumes "load_users_from_db ufl db = Inl e" "st = auth_boot ufl afl srfl swfl boot secret db"
    and "3 \<le> length (ar_username req)" "ar_email req = None" "8 \<le> length (ar_password req)"
    and "has_letter (ar_password req)" "has_number (ar_password req)" "bcrypt_hash cr (ar_password req) salt = Inr h"
  shows "setup_status_handler st = (True, True, ''1.0'') \<and>
    (\<exists>ui token st'. initialize_admin_handler has_letter has_number cr None sfl salt fresh now tick headers addr req st =
      (Inr (ui, token), st') \<and> ui_role ui = RoleAdmin)"
proof -
  have "as_users st = []" "as_throttle st = throttle_production"
    using assms(1,2) by (auto simp: auth_boot_def Let_def split: prod.splits)
  with setup_open [of st req has_letter has_number cr salt h sfl fresh now tick headers addr] assms(3-8)
  show ?thesis by (simp add: setup_status_handler_def auth_list_users_def Let_def)
qed

end
