(* ===== verification/ImSessions.thy ===== *)
theory ImSessions
  imports Redb TextUtil
begin

text \<open>
  \<open>ImSessionStore\<close> of \<open>heramind-messages/src/im_bridge/session_store.rs\<close>: for the chats of instant messengers, which
  session of the platform each continues, the invitations, the chats that are allowed in, and the
  credentials of the bridges. Errors are texts (\<open>anyhow\<close>); the JSON codecs are parameters, and so are the
  random tokens and the readings of the clock.
\<close>

section \<open>Data\<close>

definition IM_SESSIONS_TABLE :: string where
  "IM_SESSIONS_TABLE = ''im_sessions''"

definition IM_INVITES_TABLE :: string where
  "IM_INVITES_TABLE = ''im_invites''"

definition IM_ALLOWLIST_TABLE :: string where
  "IM_ALLOWLIST_TABLE = ''im_allowlist''"

definition IM_BRIDGES_TABLE :: string where
  "IM_BRIDGES_TABLE = ''im_bridges''"

record session_key =
  sk_platform :: string
  sk_chat_id :: string

definition composite :: "session_key \<Rightarrow> string" where
  "composite k = sk_platform k @ '':'' @ sk_chat_id k"

record im_session =
  neo_session_id :: string
  bound_agent_id :: string
  im_alias :: "string option"
  im_created_at :: int
  last_active :: int

record invite_record =
  iv_created_at :: int
  iv_used :: bool
  iv_bound_chat_id :: "string option"
  iv_bound_at :: "int option"

record 'd im_env =
  ie_db :: "'d redb"
  ie_session_to_str :: "im_session \<Rightarrow> (string, string) rust_result"
  ie_session_from_str :: "string \<Rightarrow> (string, im_session) rust_result"
  ie_invite_to_str :: "invite_record \<Rightarrow> (string, string) rust_result"
  ie_invite_from_str :: "string \<Rightarrow> (string, invite_record) rust_result"

section \<open>Sessions\<close>

text \<open>A write transaction on one table.\<close>

definition in_table ::
    "'d im_env \<Rightarrow> string \<Rightarrow> ('d \<Rightarrow> (string, 'a \<times> 'd) rust_result) \<Rightarrow> 'd \<Rightarrow> (string, 'a \<times> 'd) rust_result" where
  "in_table env t body db =
     and_then (begin_write (ie_db env) db) (\<lambda>w.
     and_then (open_write (ie_db env) t w) (\<lambda>w.
     and_then (body w) (\<lambda>(x, w).
     and_then (commit (ie_db env) w) (\<lambda>db. Inr (x, db)))))"

definition insert_in :: "'d im_env \<Rightarrow> string \<Rightarrow> string \<Rightarrow> string \<Rightarrow> 'd \<Rightarrow> (string, unit \<times> 'd) rust_result" where
  "insert_in env t k v db = in_table env t (\<lambda>w. and_then (tbl_insert (ie_db env) t k v w) (\<lambda>w. Inr ((), w))) db"

definition remove_in :: "'d im_env \<Rightarrow> string \<Rightarrow> string \<Rightarrow> 'd \<Rightarrow> (string, unit \<times> 'd) rust_result" where
  "remove_in env t k db = in_table env t (\<lambda>w. and_then (tbl_remove (ie_db env) t k w) (\<lambda>(_, w). Inr ((), w))) db"

definition im_table :: "'d im_env \<Rightarrow> string \<Rightarrow> 'd \<Rightarrow> (string, (string \<times> string) list) rust_result" where
  "im_table env t db =
     and_then (begin_read (ie_db env) db) (\<lambda>r.
     and_then (open_read (ie_db env) t r) (\<lambda>r.
     and_then (tbl_iter (ie_db env) t r) collect_results))"

definition im_open :: "'d im_env \<Rightarrow> (string, 'd) rust_result \<Rightarrow> (string, 'd) rust_result" where
  "im_open env created =
     and_then created (\<lambda>db.
     and_then (begin_write (ie_db env) db) (\<lambda>w.
     and_then (open_write (ie_db env) IM_SESSIONS_TABLE w) (\<lambda>w.
     and_then (open_write (ie_db env) IM_INVITES_TABLE w) (\<lambda>w.
     and_then (open_write (ie_db env) IM_ALLOWLIST_TABLE w) (\<lambda>w.
     and_then (open_write (ie_db env) IM_BRIDGES_TABLE w) (\<lambda>w.
     commit (ie_db env) w))))))"

definition im_get :: "'d im_env \<Rightarrow> session_key \<Rightarrow> 'd \<Rightarrow> (string, im_session option) rust_result" where
  "im_get env key db =
     and_then (begin_read (ie_db env) db) (\<lambda>r.
     and_then (open_read (ie_db env) IM_SESSIONS_TABLE r) (\<lambda>r.
     and_then (tbl_get (ie_db env) IM_SESSIONS_TABLE (composite key) r) (\<lambda>v.
     case v of
       Some v \<Rightarrow> and_then (ie_session_from_str env v) (\<lambda>s. Inr (Some s))
     | None \<Rightarrow> Inr None)))"

definition im_put :: "'d im_env \<Rightarrow> session_key \<Rightarrow> im_session \<Rightarrow> 'd \<Rightarrow> (string, unit \<times> 'd) rust_result" where
  "im_put env key s db =
     and_then (ie_session_to_str env s) (\<lambda>json. insert_in env IM_SESSIONS_TABLE (composite key) json db)"

definition get_or_create ::
    "'d im_env \<Rightarrow> int \<Rightarrow> session_key \<Rightarrow> string \<Rightarrow> string \<Rightarrow> 'd \<Rightarrow> (string, im_session \<times> 'd) rust_result" where
  "get_or_create env now key session_id agent_id db =
     and_then (im_get env key db) (\<lambda>found.
     case found of
       Some s \<Rightarrow> Inr (s, db)
     | None \<Rightarrow>
         let s = \<lparr>neo_session_id = session_id, bound_agent_id = agent_id, im_alias = None, im_created_at = now, last_active = now\<rparr>
         in and_then (im_put env key s db) (\<lambda>(_, db). Inr (s, db)))"

definition im_touch :: "'d im_env \<Rightarrow> int \<Rightarrow> session_key \<Rightarrow> 'd \<Rightarrow> (string, unit \<times> 'd) rust_result" where
  "im_touch env now key db =
     and_then (im_get env key db) (\<lambda>found.
     case found of
       Some s \<Rightarrow> im_put env key (s\<lparr>last_active := now\<rparr>) db
     | None \<Rightarrow> Inr ((), db))"

definition im_reset :: "'d im_env \<Rightarrow> session_key \<Rightarrow> 'd \<Rightarrow> (string, unit \<times> 'd) rust_result" where
  "im_reset env key db = remove_in env IM_SESSIONS_TABLE (composite key) db"

text \<open>The keys to remove are collected first; an entry that cannot be read ends the transaction.\<close>

fun stale_keys ::
    "'d im_env \<Rightarrow> int \<Rightarrow> (string, string \<times> string) rust_result list \<Rightarrow> (string, string list) rust_result" where
  "stale_keys env cutoff [] = Inr []"
| "stale_keys env cutoff (x # xs) =
     and_then x (\<lambda>(k, v).
     and_then (ie_session_from_str env v) (\<lambda>s.
     and_then (stale_keys env cutoff xs) (\<lambda>ks.
     Inr (if last_active s < cutoff then k # ks else ks))))"

fun remove_stale :: "'d im_env \<Rightarrow> string list \<Rightarrow> 'd \<Rightarrow> (string, 'd) rust_result" where
  "remove_stale env [] w = Inr w"
| "remove_stale env (k # ks) w =
     and_then (tbl_remove (ie_db env) IM_SESSIONS_TABLE k w) (\<lambda>(_, w). remove_stale env ks w)"

definition evict_expired :: "'d im_env \<Rightarrow> int \<Rightarrow> 'd \<Rightarrow> (string, nat \<times> 'd) rust_result" where
  "evict_expired env cutoff db =
     in_table env IM_SESSIONS_TABLE (\<lambda>w.
       and_then (tbl_iter (ie_db env) IM_SESSIONS_TABLE w) (\<lambda>es.
       and_then (stale_keys env cutoff es) (\<lambda>ks.
       and_then (remove_stale env ks w) (\<lambda>w. Inr (length ks, w))))) db"

section \<open>Invitations, allowed chats, bridges\<close>

definition create_invite :: "'d im_env \<Rightarrow> int \<Rightarrow> string \<Rightarrow> 'd \<Rightarrow> (string, string \<times> 'd) rust_result" where
  "create_invite env now token db =
     and_then (ie_invite_to_str env \<lparr>iv_created_at = now, iv_used = False, iv_bound_chat_id = None, iv_bound_at = None\<rparr>) (\<lambda>json.
     and_then (insert_in env IM_INVITES_TABLE token json db) (\<lambda>(_, db). Inr (token, db)))"

text \<open>Reading and marking are in one transaction.\<close>

definition consume_invite :: "'d im_env \<Rightarrow> int \<Rightarrow> string \<Rightarrow> string \<Rightarrow> 'd \<Rightarrow> (string, bool \<times> 'd) rust_result" where
  "consume_invite env now token chat_id db =
     in_table env IM_INVITES_TABLE (\<lambda>w.
       and_then (tbl_get (ie_db env) IM_INVITES_TABLE token w) (\<lambda>v.
       and_then (case v of Some v \<Rightarrow> and_then (ie_invite_from_str env v) (\<lambda>r. Inr (Some r)) | None \<Rightarrow> Inr None) (\<lambda>existing.
       case existing of
         Some rec \<Rightarrow>
           if iv_used rec then Inr (False, w)
           else and_then (ie_invite_to_str env (rec\<lparr>iv_used := True, iv_bound_chat_id := Some chat_id, iv_bound_at := Some now\<rparr>)) (\<lambda>json.
                and_then (tbl_insert (ie_db env) IM_INVITES_TABLE token json w) (\<lambda>w. Inr (True, w)))
       | None \<Rightarrow> Inr (False, w)))) db"

definition list_invites :: "'d im_env \<Rightarrow> 'd \<Rightarrow> (string, (string \<times> invite_record) list) rust_result" where
  "list_invites env db =
     and_then (im_table env IM_INVITES_TABLE db) (\<lambda>kvs.
     collect_results (map (\<lambda>(k, v). and_then (ie_invite_from_str env v) (\<lambda>r. Inr (k, r))) kvs))"

definition revoke_invite :: "'d im_env \<Rightarrow> string \<Rightarrow> 'd \<Rightarrow> (string, unit \<times> 'd) rust_result" where
  "revoke_invite env token db = remove_in env IM_INVITES_TABLE token db"

definition allow_add :: "'d im_env \<Rightarrow> int \<Rightarrow> string \<Rightarrow> 'd \<Rightarrow> (string, unit \<times> 'd) rust_result" where
  "allow_add env now chat_id db = insert_in env IM_ALLOWLIST_TABLE chat_id (show_int now) db"

definition allow_remove :: "'d im_env \<Rightarrow> string \<Rightarrow> 'd \<Rightarrow> (string, unit \<times> 'd) rust_result" where
  "allow_remove env chat_id db = remove_in env IM_ALLOWLIST_TABLE chat_id db"

definition allow_list :: "'d im_env \<Rightarrow> 'd \<Rightarrow> (string, string list) rust_result" where
  "allow_list env db = and_then (im_table env IM_ALLOWLIST_TABLE db) (\<lambda>kvs. Inr (map fst kvs))"

definition list_sessions :: "'d im_env \<Rightarrow> 'd \<Rightarrow> (string, (string \<times> im_session) list) rust_result" where
  "list_sessions env db =
     and_then (im_table env IM_SESSIONS_TABLE db) (\<lambda>kvs.
     collect_results (map (\<lambda>(k, v). and_then (ie_session_from_str env v) (\<lambda>s. Inr (k, s))) kvs))"

definition persist_bridge :: "'d im_env \<Rightarrow> string \<Rightarrow> string \<Rightarrow> 'd \<Rightarrow> (string, unit \<times> 'd) rust_result" where
  "persist_bridge env platform config_json db = insert_in env IM_BRIDGES_TABLE platform config_json db"

definition delete_bridge :: "'d im_env \<Rightarrow> string \<Rightarrow> 'd \<Rightarrow> (string, unit \<times> 'd) rust_result" where
  "delete_bridge env platform db = remove_in env IM_BRIDGES_TABLE platform db"

definition list_bridges :: "'d im_env \<Rightarrow> 'd \<Rightarrow> (string, (string \<times> string) list) rust_result" where
  "list_bridges env db = im_table env IM_BRIDGES_TABLE db"

section \<open>What the operations do to the tables\<close>

lemma in_table_Inr:
  assumes "redb_laws (ie_db env) c" and "in_table env t body db = Inr (x, db')"
  shows "\<exists>w w'. c w = c db \<and> body w = Inr (x, w') \<and> c db' = c w'"
proof -
  from assms(2) obtain w w1 w2 where "begin_write (ie_db env) db = Inr w" "open_write (ie_db env) t w = Inr w1"
    "body w1 = Inr (x, w2)" "commit (ie_db env) w2 = Inr db'"
    by (auto simp: in_table_def)
  then show ?thesis using redb_snapshots [OF assms(1)] by metis
qed

lemma insert_in_contents:
  assumes "redb_laws (ie_db env) c" and "insert_in env t k v db = Inr (x, db')"
  shows "c db' = (c db)(t := (c db t)(k \<mapsto> v))"
  using in_table_Inr [OF assms(1) assms(2) [unfolded insert_in_def]] by (auto simp: redb_insert [OF assms(1)])

lemma remove_in_contents:
  assumes "redb_laws (ie_db env) c" and "remove_in env t k db = Inr (x, db')"
  shows "c db' = (c db)(t := (c db t)(k := None))"
  using in_table_Inr [OF assms(1) assms(2) [unfolded remove_in_def]] by (auto dest: redb_remove [OF assms(1)])

lemma im_table_contents:
  assumes "redb_laws (ie_db env) c" and "im_table env t db = Inr kvs"
  shows "distinct (map fst kvs) \<and> map_of kvs = c db t"
proof -
  from assms(2) obtain r r' where "begin_read (ie_db env) db = Inr r" "open_read (ie_db env) t r = Inr r'"
    "tbl_iter (ie_db env) t r' = Inr (map Inr kvs)"
    by (auto simp: im_table_def collect_results_Inr_iff)
  with redb_iter [OF assms(1), of t r' kvs] show ?thesis by (simp add: redb_snapshots [OF assms(1)])
qed

lemma im_table_names [simp]:
  "IM_SESSIONS_TABLE \<noteq> IM_INVITES_TABLE" "IM_SESSIONS_TABLE \<noteq> IM_ALLOWLIST_TABLE" "IM_INVITES_TABLE \<noteq> IM_ALLOWLIST_TABLE"
  "IM_SESSIONS_TABLE \<noteq> IM_BRIDGES_TABLE" "IM_INVITES_TABLE \<noteq> IM_BRIDGES_TABLE" "IM_ALLOWLIST_TABLE \<noteq> IM_BRIDGES_TABLE"
  by (simp_all add: IM_SESSIONS_TABLE_def IM_INVITES_TABLE_def IM_ALLOWLIST_TABLE_def IM_BRIDGES_TABLE_def)

lemmas im_table_names' [simp] = im_table_names [symmetric]

text \<open>The tables as maps: the sessions of the chats, the invitations that can be used, the allowed chats.\<close>

definition im_codec_laws :: "'d im_env \<Rightarrow> bool" where
  "im_codec_laws env \<longleftrightarrow>
     (\<forall>s v. ie_session_to_str env s = Inr v \<longrightarrow> ie_session_from_str env v = Inr s) \<and>
     (\<forall>i v. ie_invite_to_str env i = Inr v \<longrightarrow> ie_invite_from_str env v = Inr i)"

definition session_map :: "'d im_env \<Rightarrow> 'd contents \<Rightarrow> 'd \<Rightarrow> session_key \<Rightarrow> im_session option" where
  "session_map env c db k = Option.bind (c db IM_SESSIONS_TABLE (composite k)) (\<lambda>v. ok (ie_session_from_str env v))"

definition usable_invites :: "'d im_env \<Rightarrow> 'd contents \<Rightarrow> 'd \<Rightarrow> string set" where
  "usable_invites env c db =
     {t. \<exists>v i. c db IM_INVITES_TABLE t = Some v \<and> ie_invite_from_str env v = Inr i \<and> \<not> iv_used i}"

definition allowed_chats :: "'d contents \<Rightarrow> 'd \<Rightarrow> string set" where
  "allowed_chats c db = dom (c db IM_ALLOWLIST_TABLE)"

lemma im_get_map:
  assumes "redb_laws (ie_db env) c" and "im_get env k db = Inr r"
  shows "r = session_map env c db k"
proof -
  from assms(2) obtain x y v where rd: "begin_read (ie_db env) db = Inr x" "open_read (ie_db env) IM_SESSIONS_TABLE x = Inr y"
    "tbl_get (ie_db env) IM_SESSIONS_TABLE (composite k) y = Inr v"
    and r: "(case v of Some v \<Rightarrow> and_then (ie_session_from_str env v) (\<lambda>s. Inr (Some s)) | None \<Rightarrow> Inr None) = Inr r"
    by (auto simp: im_get_def)
  from redb_get [OF assms(1) rd(3)] rd(1,2) have "v = c db IM_SESSIONS_TABLE (composite k)"
    by (simp add: redb_snapshots [OF assms(1)])
  with r show ?thesis by (auto simp: session_map_def split: option.splits)
qed

lemma im_get_error:
  "im_get env k db = Inr None \<Longrightarrow> redb_laws (ie_db env) c \<Longrightarrow> c db IM_SESSIONS_TABLE (composite k) = None"
proof -
  assume L: "redb_laws (ie_db env) c" and "im_get env k db = Inr None"
  then obtain x y v where rd: "begin_read (ie_db env) db = Inr x" "open_read (ie_db env) IM_SESSIONS_TABLE x = Inr y"
    "tbl_get (ie_db env) IM_SESSIONS_TABLE (composite k) y = Inr v" "v = None"
    by (auto simp: im_get_def split: option.splits)
  with redb_get [OF L rd(3)] show ?thesis by (simp add: redb_snapshots [OF L])
qed

lemma stale_keys_Inr:
  "stale_keys env cutoff es = Inr ks \<Longrightarrow>
   \<exists>kvs. es = map Inr kvs \<and> set ks = {k. \<exists>v s. (k, v) \<in> set kvs \<and> ie_session_from_str env v = Inr s \<and> last_active s < cutoff}"
proof (induction es arbitrary: ks)
  case (Cons x es)
  then obtain k v s js where x: "x = Inr (k, v)" "ie_session_from_str env v = Inr s" "stale_keys env cutoff es = Inr js"
    "ks = (if last_active s < cutoff then k # js else js)"
    by (auto simp: split_beta)
  from Cons.IH [OF x(3)] obtain kvs where kvs: "es = map Inr kvs"
    "set js = {k. \<exists>v s. (k, v) \<in> set kvs \<and> ie_session_from_str env v = Inr s \<and> last_active s < cutoff}" by blast
  have "set ks = {k'. \<exists>w t. (k', w) \<in> set ((k, v) # kvs) \<and> ie_session_from_str env w = Inr t \<and> last_active t < cutoff}"
    using x(2,4) kvs(2) by auto
  with x(1) kvs(1) show ?case by (intro exI [of _ "(k, v) # kvs"]) simp
qed simp

lemma remove_stale_contents:
  assumes "redb_laws (ie_db env) c" and "remove_stale env ks w = Inr w'"
  shows "c w' = (c w)(IM_SESSIONS_TABLE := (\<lambda>k. if k \<in> set ks then None else c w IM_SESSIONS_TABLE k))"
  using assms(2)
proof (induction ks arbitrary: w)
  case (Cons k ks)
  then obtain b u where "tbl_remove (ie_db env) IM_SESSIONS_TABLE k w = Inr (b, u)" and rest: "remove_stale env ks u = Inr w'" by auto
  with Cons.IH [OF rest] redb_remove [OF assms(1)] show ?case by fastforce
qed simp

lemma evict_expired_contents:
  assumes L: "redb_laws (ie_db env) c" and "evict_expired env cutoff db = Inr (n, db')"
  shows "c db' = (c db)(IM_SESSIONS_TABLE := (\<lambda>k.
    if \<exists>v s. c db IM_SESSIONS_TABLE k = Some v \<and> ie_session_from_str env v = Inr s \<and> last_active s < cutoff then None
    else c db IM_SESSIONS_TABLE k))"
proof -
  from in_table_Inr [OF L assms(2) [unfolded evict_expired_def]] obtain w w' es ks where w: "c w = c db" "c db' = c w'"
    and es: "tbl_iter (ie_db env) IM_SESSIONS_TABLE w = Inr es" "stale_keys env cutoff es = Inr ks" "remove_stale env ks w = Inr w'"
    by auto
  from stale_keys_Inr [OF es(2)] obtain kvs where kvs: "es = map Inr kvs"
    "set ks = {k. \<exists>v s. (k, v) \<in> set kvs \<and> ie_session_from_str env v = Inr s \<and> last_active s < cutoff}" by blast
  from redb_iter [OF L, of IM_SESSIONS_TABLE w kvs] es(1) kvs(1) w(1)
  have "distinct (map fst kvs)" "map_of kvs = c db IM_SESSIONS_TABLE" by simp_all
  then have "(k, v) \<in> set kvs \<longleftrightarrow> c db IM_SESSIONS_TABLE k = Some v" for k v by (metis map_of_eq_Some_iff)
  with kvs(2) have "set ks = {k. \<exists>v s. c db IM_SESSIONS_TABLE k = Some v \<and> ie_session_from_str env v = Inr s \<and> last_active s < cutoff}"
    by simp
  then show ?thesis unfolding w(2) remove_stale_contents [OF L es(3)] w(1) by simp
qed

lemma allow_list_set:
  assumes "redb_laws (ie_db env) c" and "allow_list env db = Inr chats"
  shows "set chats = allowed_chats c db"
proof -
  from assms(2) obtain kvs where kvs: "im_table env IM_ALLOWLIST_TABLE db = Inr kvs" "chats = map fst kvs"
    by (auto simp: allow_list_def)
  from im_table_contents [OF assms(1) kvs(1)] have "dom (c db IM_ALLOWLIST_TABLE) = fst ` set kvs"
    by (metis dom_map_of_conv_image_fst)
  with kvs(2) show ?thesis by (simp add: allowed_chats_def)
qed

text \<open>An invitation is consumed exactly when it can be used, and then no more.\<close>

lemma consume_invite_contents:
  assumes L: "redb_laws (ie_db env) c" and K: "im_codec_laws env" and "consume_invite env now tok chat db = Inr (b, db')"
  shows "b \<longleftrightarrow> tok \<in> usable_invites env c db"
    and "usable_invites env c db' = usable_invites env c db - (if b then {tok} else {})"
    and "t \<noteq> IM_INVITES_TABLE \<Longrightarrow> c db' t = c db t"
proof -
  from in_table_Inr [OF L assms(3) [unfolded consume_invite_def]] obtain w w' v existing where w: "c w = c db" "c db' = c w'"
    and v: "tbl_get (ie_db env) IM_INVITES_TABLE tok w = Inr v"
    and ex: "(case v of Some v \<Rightarrow> and_then (ie_invite_from_str env v) (\<lambda>r. Inr (Some r)) | None \<Rightarrow> Inr None) = Inr existing"
    and res: "(case existing of
         Some rec \<Rightarrow>
           if iv_used rec then Inr (False, w)
           else and_then (ie_invite_to_str env (rec\<lparr>iv_used := True, iv_bound_chat_id := Some chat, iv_bound_at := Some now\<rparr>)) (\<lambda>json.
                and_then (tbl_insert (ie_db env) IM_INVITES_TABLE tok json w) (\<lambda>w. Inr (True, w)))
       | None \<Rightarrow> Inr (False, w)) = Inr (b, w')"
    by auto
  have v: "v = c db IM_INVITES_TABLE tok" using redb_get [OF L v] w(1) by simp
  have "(b \<longleftrightarrow> tok \<in> usable_invites env c db) \<and>
      usable_invites env c db' = usable_invites env c db - (if b then {tok} else {}) \<and> (t \<noteq> IM_INVITES_TABLE \<longrightarrow> c db' t = c db t)"
  proof (cases existing)
    case None
    with ex v have "c db IM_INVITES_TABLE tok = None" by (auto split: option.splits)
    with None res w show ?thesis by (auto simp: usable_invites_def)
  next
    case (Some rec)
    with ex v obtain x where x: "c db IM_INVITES_TABLE tok = Some x" "ie_invite_from_str env x = Inr rec" by (auto split: option.splits)
    show ?thesis
    proof (cases "iv_used rec")
      case True
      with Some res w x show ?thesis by (auto simp: usable_invites_def)
    next
      case False
      with Some res obtain json where j: "ie_invite_to_str env (rec\<lparr>iv_used := True, iv_bound_chat_id := Some chat, iv_bound_at := Some now\<rparr>) = Inr json"
        "tbl_insert (ie_db env) IM_INVITES_TABLE tok json w = Inr w'" "b" by auto
      from K j(1) have "ie_invite_from_str env json = Inr (rec\<lparr>iv_used := True, iv_bound_chat_id := Some chat, iv_bound_at := Some now\<rparr>)"
        by (simp add: im_codec_laws_def)
      with redb_insert [OF L j(2)] w x False j(3) show ?thesis by (auto simp: usable_invites_def)
    qed
  qed
  then show "b \<longleftrightarrow> tok \<in> usable_invites env c db"
    "usable_invites env c db' = usable_invites env c db - (if b then {tok} else {})" "t \<noteq> IM_INVITES_TABLE \<Longrightarrow> c db' t = c db t"
    by blast+
qed

lemma create_invite_contents:
  assumes "redb_laws (ie_db env) c" and "im_codec_laws env" and "create_invite env now tok db = Inr (t, db')"
  shows "usable_invites env c db' = insert tok (usable_invites env c db)" and "u \<noteq> IM_INVITES_TABLE \<Longrightarrow> c db' u = c db u"
proof -
  let ?i = "\<lparr>iv_created_at = now, iv_used = False, iv_bound_chat_id = None, iv_bound_at = None\<rparr>"
  from assms(3) obtain json where j: "ie_invite_to_str env ?i = Inr json" "insert_in env IM_INVITES_TABLE tok json db = Inr ((), db')"
    by (auto simp: create_invite_def)
  moreover have "ie_invite_from_str env json = Inr ?i" using j(1) assms(2) by (simp add: im_codec_laws_def)
  ultimately show "usable_invites env c db' = insert tok (usable_invites env c db)" "u \<noteq> IM_INVITES_TABLE \<Longrightarrow> c db' u = c db u"
    using insert_in_contents [OF assms(1) j(2)] by (auto simp: usable_invites_def)
qed

text \<open>Writing a session.\<close>

lemma im_put_contents:
  assumes "redb_laws (ie_db env) c" and "im_codec_laws env" and "im_put env k s db = Inr (x, db')"
  shows "\<exists>v. ie_session_from_str env v = Inr s \<and> c db' = (c db)(IM_SESSIONS_TABLE := (c db IM_SESSIONS_TABLE)(composite k \<mapsto> v))"
proof -
  from assms(3) obtain v where v: "ie_session_to_str env s = Inr v" "insert_in env IM_SESSIONS_TABLE (composite k) v db = Inr (x, db')"
    by (auto simp: im_put_def)
  moreover have "ie_session_from_str env v = Inr s" using v(1) assms(2) by (simp add: im_codec_laws_def)
  ultimately show ?thesis using insert_in_contents [OF assms(1) v(2)] by blast
qed

text \<open>Keys of different platforms or chats are different: the names of the platforms have no colon.\<close>

lemma at_first_separator:
  "c \<notin> set xs \<Longrightarrow> c \<notin> set xs' \<Longrightarrow> xs @ c # ys = xs' @ c # ys' \<Longrightarrow> xs = xs' \<and> ys = ys'"
proof (induction xs arbitrary: xs')
  case Nil
  then show ?case by (cases xs') auto
next
  case (Cons x xs)
  then show ?case by (cases xs') auto
qed

lemma composite_inject:
  assumes "CHR '':'' \<notin> set (sk_platform k)" and "CHR '':'' \<notin> set (sk_platform k')" and "composite k = composite k'"
  shows "k = k'"
  using at_first_separator [OF assms(1,2), of "sk_chat_id k" "sk_chat_id k'"] assms(3)
  by (simp add: composite_def session_key.equality)

end
