(* ===== verification/ImRouter.thy ===== *)
theory ImRouter
  imports ImSessions Events
begin

text \<open>
  Instant messengers: the registry of bridges (\<open>heramind-messages/src/im_bridge/mod.rs\<close>), the router that
  takes a message in, decides whether its chat may talk to the agents, finds the session of the chat
  and replies (\<open>router.rs\<close>), and what the server does with it: the start with the stored list of allowed
  chats (\<open>start_im_router\<close> in \<open>heramind-api/src/server/types.rs\<close>) and the endpoints for invitations, allowed
  chats and sessions (\<open>handlers/im_bridges.rs\<close>). The server's listener awaits one message before it takes the
  next, so one message is one definition. A bridge is a handle; the answers of the agents, of the
  resolver of the default agent and of the clock are arguments; replies and runs of an agent are
  recorded in the state.
\<close>

section \<open>Platforms and bridges\<close>

datatype im_platform = Telegram | Feishu | Whatsapp

fun platform_as_str :: "im_platform \<Rightarrow> string" where
  "platform_as_str Telegram = ''telegram''"
| "platform_as_str Feishu = ''feishu''"
| "platform_as_str Whatsapp = ''whatsapp''"

definition platform_parse :: "string \<Rightarrow> im_platform option" where
  "platform_parse s =
     (if s = ''telegram'' then Some Telegram
      else if s = ''feishu'' then Some Feishu
      else if s = ''whatsapp'' then Some Whatsapp
      else None)"

definition validate_platform :: "string \<Rightarrow> (string, im_platform) rust_result" where
  "validate_platform s =
     (case platform_parse s of
        Some Telegram \<Rightarrow> Inr Telegram
      | Some Feishu \<Rightarrow> Inr Feishu
      | Some other \<Rightarrow>
          Inl (''Unsupported platform '' @ [CHR 0x27] @ platform_as_str other @ [CHR 0x27] @
               '': only '' @ [CHR 0x27] @ ''telegram'' @ [CHR 0x27] @ '' and '' @ [CHR 0x27] @ ''feishu'' @ [CHR 0x27] @ '' are available'')
      | None \<Rightarrow> Inl (''Unknown platform '' @ [CHR 0x27] @ s @ [CHR 0x27] @ ''. Supported: telegram, feishu''))"

type_synonym 'b bridge_registry = "(im_platform, 'b) hash_map"

definition bridge_register :: "im_platform \<Rightarrow> 'b \<Rightarrow> 'b bridge_registry \<Rightarrow> 'b bridge_registry" where
  "bridge_register p b r = hm_insert p b r"

definition bridge_get :: "im_platform \<Rightarrow> 'b bridge_registry \<Rightarrow> 'b option" where
  "bridge_get p r = hm_get r p"

definition bridge_remove :: "im_platform \<Rightarrow> 'b bridge_registry \<Rightarrow> 'b option \<times> 'b bridge_registry" where
  "bridge_remove p r = (hm_get r p, hm_remove p r)"

definition bridge_list :: "'b bridge_registry \<Rightarrow> im_platform list" where
  "bridge_list r = map fst r"

section \<open>The router\<close>

record inbound_message =
  in_platform :: im_platform
  in_chat_id :: string
  in_sender_id :: string
  in_text :: string
  in_msg_id :: string
  in_timestamp :: int

record ('d, 'b) im_router =
  ir_registry :: "'b bridge_registry"
  ir_store :: 'd
  ir_allowlist :: "string set option"
  ir_seen :: "string set"
  ir_chat_locks :: "string set"
  ir_runs :: "(inbound_message \<times> string) list"
  ir_replies :: "('b \<times> string \<times> string) list"

definition im_router_new :: "'d \<Rightarrow> string set option \<Rightarrow> ('d, 'b) im_router" where
  "im_router_new db allow =
     \<lparr>ir_registry = [], ir_store = db, ir_allowlist = allow, ir_seen = {}, ir_chat_locks = {}, ir_runs = [], ir_replies = []\<rparr>"

text \<open>What one message asks of others: the clock at each write, the default agent, a new session of the
  agents and the outcome of the run within its time limit.\<close>

datatype run_outcome = RunReplied string | RunFailed string | RunTimedOut

record im_answers =
  ia_consumed_at :: int
  ia_allowed_at :: int
  ia_default_agent :: "string option"
  ia_new_session :: "(string, string) rust_result"
  ia_created_at :: int
  ia_run :: run_outcome
  ia_touched_at :: int

text \<open>\<open>split_whitespace\<close>: the pieces between white space.\<close>

fun take_word :: "string \<Rightarrow> string \<times> string" where
  "take_word [] = ([], [])"
| "take_word (c # cs) =
     (if find (\<lambda>w. prefix w (c # cs)) white_space \<noteq> None then ([], c # cs)
      else let (w, rest) = take_word cs in (c # w, rest))"

lemma take_word_length: "length (snd (take_word s)) \<le> length s"
  by (induction s) (auto simp: split_beta)

lemma take_word_shorter: "s \<noteq> [] \<Longrightarrow> find (\<lambda>w. prefix w s) white_space = None \<Longrightarrow> length (snd (take_word s)) < length s"
  using take_word_length by (cases s) (auto simp: split_beta less_Suc_eq_le)

lemma trim_start_length: "length (trim_start s) \<le> length s"
proof (induction s rule: trim_start.induct)
  case (1 s)
  then show ?case by (cases "find (\<lambda>w. prefix w s) white_space") (auto simp: trim_start.simps [of s])
qed

lemma trim_start_clean: "find (\<lambda>w. prefix w (trim_start s)) white_space = None"
proof (induction s rule: trim_start.induct)
  case (1 s)
  then show ?case by (cases "find (\<lambda>w. prefix w s) white_space") (auto simp: trim_start.simps [of s])
qed

function split_whitespace :: "string \<Rightarrow> string list" where
  "split_whitespace s =
     (let s = trim_start s in
      if s = [] then [] else let (w, rest) = take_word s in w # split_whitespace rest)"
  by pat_completeness auto
termination
proof (relation "measure length")
  fix s x p w rest
  assume "x = trim_start s" "x \<noteq> []" "p = take_word x" "(w, rest) = p"
  then have "length rest < length x" using take_word_shorter [of x] trim_start_clean [of s] by (metis snd_conv)
  with \<open>x = trim_start s\<close> trim_start_length [of s] show "(rest, s) \<in> measure length" by simp
qed simp

declare split_whitespace.simps [simp del]

text \<open>The texts of the replies, in UTF-8.\<close>

definition utf8 :: "nat list \<Rightarrow> string" where
  "utf8 bs = map char_of bs"

definition MSG_INVITE_NEEDED :: string where
  "MSG_INVITE_NEEDED = utf8 [233, 156, 128, 232, 166, 129, 233, 130, 128, 232, 175, 183, 231, 160, 129, 239, 188, 140, 232, 175,
     183, 232, 129, 148, 231, 179, 187, 231, 174, 161, 231, 144, 134, 229, 145, 152, 232, 142, 183, 229,
     143, 150]"

definition MSG_BOUND :: string where
  "MSG_BOUND = utf8 [226, 156, 133, 32, 231, 187, 145, 229, 174, 154, 230, 136, 144, 229, 138, 159, 239, 188, 140, 231,
     142, 176, 229, 156, 168, 229, 143, 175, 228, 187, 165, 228, 184, 142, 230, 136, 145, 229, 175, 185,
     232, 175, 157, 228, 186, 134]"

definition MSG_INVITE_INVALID :: string where
  "MSG_INVITE_INVALID = utf8 [233, 130, 128, 232, 175, 183, 230, 151, 160, 230, 149, 136, 230, 136, 150, 229, 183, 178, 228, 189,
     191, 231, 148, 168]"

definition MSG_RESET :: string where
  "MSG_RESET = utf8 [228, 188, 154, 232, 175, 157, 229, 183, 178, 233, 135, 141, 231, 189, 174, 32, 226, 156, 133]"

definition MSG_HELP :: string where
  "MSG_HELP = utf8 [72, 101, 114, 97, 77, 105, 110, 100, 32, 73, 77, 32, 66, 114, 105, 100, 103, 101, 10, 47, 114, 101,
     115, 101, 116, 32, 226, 128, 148, 32, 233, 135, 141, 231, 189, 174, 228, 188, 154, 232, 175, 157,
     228, 184, 138, 228, 184, 139, 230, 150, 135, 10, 47, 104, 101, 108, 112, 32, 226, 128, 148, 32, 230,
     152, 190, 231, 164, 186, 230, 173, 164, 229, 184, 174, 229, 138, 169, 10, 231, 155, 180, 230, 142,
     165, 229, 143, 145, 230, 182, 136, 230, 129, 175, 229, 141, 179, 229, 143, 175, 229, 175, 185, 232,
     175, 157]"

text \<open>A reply goes out when a bridge of the platform is registered; its own failure is ignored.\<close>

definition reply_to :: "inbound_message \<Rightarrow> string \<Rightarrow> ('d, 'b) im_router \<Rightarrow> ('d, 'b) im_router" where
  "reply_to m text st =
     (case bridge_get (in_platform m) (ir_registry st) of
        Some b \<Rightarrow> st\<lparr>ir_replies := ir_replies st @ [(b, in_chat_id m, text)]\<rparr>
      | None \<Rightarrow> st)"

definition is_start :: "string \<Rightarrow> bool" where
  "is_start txt \<longleftrightarrow> txt = ''/start'' \<or> starts_with txt ''/start@'' \<or> starts_with txt ''/start ''"

text \<open>The second word of the command.\<close>

definition invite_token :: "string \<Rightarrow> string option" where
  "invite_token txt = (case split_whitespace txt of _ # tok # _ \<Rightarrow> Some tok | _ \<Rightarrow> None)"

definition start_bind ::
    "'d im_env \<Rightarrow> im_answers \<Rightarrow> inbound_message \<Rightarrow> ('d, 'b) im_router \<Rightarrow> ('d, 'b) im_router" where
  "start_bind env ans m st =
     (case invite_token (str_trim (in_text m)) of
        None \<Rightarrow> reply_to m MSG_INVITE_NEEDED st
      | Some tok \<Rightarrow>
          (case consume_invite env (ia_consumed_at ans) tok (in_chat_id m) (ir_store st) of
             Inr (True, db) \<Rightarrow>
               let st = st\<lparr>ir_store := (case allow_add env (ia_allowed_at ans) (in_chat_id m) db of Inr (_, db') \<Rightarrow> db' | Inl _ \<Rightarrow> db),
                           ir_allowlist := map_option (insert (in_chat_id m)) (ir_allowlist st)\<rparr>
               in reply_to m MSG_BOUND st
           | Inr (False, db) \<Rightarrow> reply_to m MSG_INVITE_INVALID (st\<lparr>ir_store := db\<rparr>)
           | Inl _ \<Rightarrow> reply_to m MSG_INVITE_INVALID st))"

definition is_admitted :: "inbound_message \<Rightarrow> ('d, 'b) im_router \<Rightarrow> bool" where
  "is_admitted m st =
     (case ir_allowlist st of
        Some allow \<Rightarrow> in_sender_id m \<in> allow \<or> in_chat_id m \<in> allow
      | None \<Rightarrow> True)"

definition key_of :: "inbound_message \<Rightarrow> session_key" where
  "key_of m = \<lparr>sk_platform = platform_as_str (in_platform m), sk_chat_id = in_chat_id m\<rparr>"

definition is_reset :: "string \<Rightarrow> bool" where
  "is_reset txt \<longleftrightarrow> txt = ''/reset'' \<or> starts_with txt ''/reset@''"

definition is_help :: "string \<Rightarrow> bool" where
  "is_help txt \<longleftrightarrow> txt = ''/help'' \<or> starts_with txt ''/help@''"

definition reset_chat :: "'d im_env \<Rightarrow> inbound_message \<Rightarrow> ('d, 'b) im_router \<Rightarrow> ('d, 'b) im_router" where
  "reset_chat env m st =
     reply_to m MSG_RESET
       (case im_reset env (key_of m) (ir_store st) of Inr (_, db) \<Rightarrow> st\<lparr>ir_store := db\<rparr> | Inl _ \<Rightarrow> st)"

definition chat_lock_for :: "inbound_message \<Rightarrow> ('d, 'b) im_router \<Rightarrow> ('d, 'b) im_router" where
  "chat_lock_for m st = st\<lparr>ir_chat_locks := insert (composite (key_of m)) (ir_chat_locks st)\<rparr>"

text \<open>The session of the chat: the stored one, or a new one when there is a default agent. \<open>None\<close> is an early return.\<close>

definition chat_session ::
    "'d im_env \<Rightarrow> im_answers \<Rightarrow> inbound_message \<Rightarrow> ('d, 'b) im_router \<Rightarrow> im_session option \<times> ('d, 'b) im_router" where
  "chat_session env ans m st =
     (case im_get env (key_of m) (ir_store st) of
        Inr (Some r) \<Rightarrow> (Some r, st)
      | Inr None \<Rightarrow>
          (case ia_default_agent ans of
             None \<Rightarrow> (None, reply_to m (''No active agent yet '' @ utf8 [226, 128, 148] @ '' ask the operator to create one'') st)
           | Some agent \<Rightarrow>
               (case ia_new_session ans of
                  Inl _ \<Rightarrow> (None, st)
                | Inr sid \<Rightarrow>
                    (case get_or_create env (ia_created_at ans) (key_of m) sid agent (ir_store st) of
                       Inr (r, db) \<Rightarrow> (Some r, st\<lparr>ir_store := db\<rparr>)
                     | Inl _ \<Rightarrow> (None, st))))
      | Inl _ \<Rightarrow> (None, st))"

fun reply_text :: "run_outcome \<Rightarrow> string" where
  "reply_text (RunReplied t) = t"
| "reply_text (RunFailed e) = ''Failed to process: '' @ e"
| "reply_text RunTimedOut = ''Request timed out after 10 minutes. Please try again or simplify your request.''"

definition converse ::
    "'d im_env \<Rightarrow> im_answers \<Rightarrow> inbound_message \<Rightarrow> ('d, 'b) im_router \<Rightarrow> ('d, 'b) im_router" where
  "converse env ans m st =
     (case chat_session env ans m (chat_lock_for m st) of
        (None, st) \<Rightarrow> st
      | (Some r, st) \<Rightarrow>
          let st = st\<lparr>ir_runs := ir_runs st @ [(m, neo_session_id r)]\<rparr>;
              st = (case im_touch env (ia_touched_at ans) (key_of m) (ir_store st) of
                      Inr (_, db) \<Rightarrow> st\<lparr>ir_store := db\<rparr> | Inl _ \<Rightarrow> st)
          in reply_to m (reply_text (ia_run ans)) st)"

definition handle_inbound ::
    "'d im_env \<Rightarrow> im_answers \<Rightarrow> inbound_message \<Rightarrow> ('d, 'b) im_router \<Rightarrow> ('d, 'b) im_router" where
  "handle_inbound env ans m st =
     (let txt = str_trim (in_text m) in
      if is_start txt then start_bind env ans m st
      else if \<not> is_admitted m st then st
      else if in_msg_id m \<in> ir_seen st then st
      else
        let st = st\<lparr>ir_seen := insert (in_msg_id m) (ir_seen st)\<rparr> in
        if is_reset txt then reset_chat env m st
        else if is_help txt then reply_to m MSG_HELP st
        else converse env ans m st)"

definition set_allowlist :: "string set option \<Rightarrow> ('d, 'b) im_router \<Rightarrow> ('d, 'b) im_router" where
  "set_allowlist allow st = st\<lparr>ir_allowlist := allow\<rparr>"

definition add_allowed ::
    "'d im_env \<Rightarrow> int \<Rightarrow> string \<Rightarrow> ('d, 'b) im_router \<Rightarrow> (string, unit) rust_result \<times> ('d, 'b) im_router" where
  "add_allowed env now chat_id st =
     (case allow_add env now chat_id (ir_store st) of
        Inl e \<Rightarrow> (Inl e, st)
      | Inr (_, db) \<Rightarrow> (Inr (), st\<lparr>ir_store := db, ir_allowlist := map_option (insert chat_id) (ir_allowlist st)\<rparr>))"

section \<open>The server around it\<close>

text \<open>The listener: a message of the event bus, of \<open>Telegram\<close> when its platform is unknown.\<close>

definition inbound_of_event :: "heramind_event \<Rightarrow> inbound_message option" where
  "inbound_of_event e =
     (case e of
        ImMessageReceived platform chat sender text msg_id ts \<Rightarrow>
          Some \<lparr>in_platform = (case platform_parse platform of Some p \<Rightarrow> p | None \<Rightarrow> Telegram),
                in_chat_id = chat, in_sender_id = sender, in_text = text, in_msg_id = msg_id, in_timestamp = ts\<rparr>
      | _ \<Rightarrow> None)"

definition im_listen :: "'d im_env \<Rightarrow> im_answers \<Rightarrow> heramind_event \<Rightarrow> ('d, 'b) im_router \<Rightarrow> ('d, 'b) im_router" where
  "im_listen env ans e st = (case inbound_of_event e of Some m \<Rightarrow> handle_inbound env ans m st | None \<Rightarrow> st)"

text \<open>The start: the router begins with the stored list.\<close>

definition start_im_router :: "'d im_env \<Rightarrow> (string, 'd) rust_result \<Rightarrow> (string, ('d, 'b) im_router) rust_result" where
  "start_im_router env created =
     and_then (im_open env created) (\<lambda>db.
     and_then (allow_list env db) (\<lambda>chats.
     Inr (im_router_new db (Some (set chats)))))"

definition create_invite_handler ::
    "'d im_env \<Rightarrow> string \<Rightarrow> int \<Rightarrow> string \<Rightarrow> string option \<Rightarrow> ('d, 'b) im_router \<Rightarrow>
     (string, string \<times> string option) rust_result \<times> ('d, 'b) im_router" where
  "create_invite_handler env plat now token link st =
     (case validate_platform plat of
        Inl e \<Rightarrow> (Inl e, st)
      | Inr p \<Rightarrow>
          (case create_invite env now token (ir_store st) of
             Inl e \<Rightarrow> (Inl e, st)
           | Inr (t, db) \<Rightarrow>
               (Inr (t, case bridge_get p (ir_registry st) of Some _ \<Rightarrow> link | None \<Rightarrow> None), st\<lparr>ir_store := db\<rparr>)))"

definition revoke_invite_handler ::
    "'d im_env \<Rightarrow> string \<Rightarrow> string \<Rightarrow> ('d, 'b) im_router \<Rightarrow> (string, unit) rust_result \<times> ('d, 'b) im_router" where
  "revoke_invite_handler env plat token st =
     (case validate_platform plat of
        Inl e \<Rightarrow> (Inl e, st)
      | Inr _ \<Rightarrow>
          (case revoke_invite env token (ir_store st) of
             Inl e \<Rightarrow> (Inl e, st)
           | Inr (_, db) \<Rightarrow> (Inr (), st\<lparr>ir_store := db\<rparr>)))"

definition remove_allowlist_handler ::
    "'d im_env \<Rightarrow> string \<Rightarrow> string \<Rightarrow> ('d, 'b) im_router \<Rightarrow> (string, unit) rust_result \<times> ('d, 'b) im_router" where
  "remove_allowlist_handler env plat chat_id st =
     (case validate_platform plat of
        Inl e \<Rightarrow> (Inl e, st)
      | Inr _ \<Rightarrow>
          (case allow_remove env chat_id (ir_store st) of
             Inl e \<Rightarrow> (Inl e, st)
           | Inr (_, db) \<Rightarrow>
               let st = st\<lparr>ir_store := db\<rparr> in
               (case allow_list env db of
                  Inl e \<Rightarrow> (Inl e, st)
                | Inr chats \<Rightarrow> (Inr (), set_allowlist (Some (set chats)) st))))"

definition reset_session_handler ::
    "'d im_env \<Rightarrow> string \<Rightarrow> string \<Rightarrow> ('d, 'b) im_router \<Rightarrow> (string, unit) rust_result \<times> ('d, 'b) im_router" where
  "reset_session_handler env plat chat_id st =
     (case validate_platform plat of
        Inl e \<Rightarrow> (Inl e, st)
      | Inr p \<Rightarrow>
          (case im_reset env \<lparr>sk_platform = platform_as_str p, sk_chat_id = chat_id\<rparr> (ir_store st) of
             Inl e \<Rightarrow> (Inl e, st)
           | Inr (_, db) \<Rightarrow> (Inr (), st\<lparr>ir_store := db\<rparr>)))"

text \<open>The hourly clean-up of sessions that were idle for a week.\<close>

definition IM_TTL_SECS :: int where
  "IM_TTL_SECS = 7 * 86400"

definition expiry_tick :: "'d im_env \<Rightarrow> int \<Rightarrow> ('d, 'b) im_router \<Rightarrow> ('d, 'b) im_router" where
  "expiry_tick env now_secs st =
     (case evict_expired env (now_secs - IM_TTL_SECS) (ir_store st) of
        Inr (_, db) \<Rightarrow> st\<lparr>ir_store := db\<rparr>
      | Inl _ \<Rightarrow> st)"

section \<open>Operations and what they keep\<close>

datatype im_op =
    Inbound im_answers inbound_message
  | MintInvite string int string "string option"
  | RevokeInvite string string
  | RemoveAllowed string string
  | AddAllowed int string
  | ResetSession string string
  | ExpiryTick int

fun im_step :: "'d im_env \<Rightarrow> im_op \<Rightarrow> ('d, 'b) im_router \<Rightarrow> ('d, 'b) im_router" where
  "im_step env (Inbound ans m) st = handle_inbound env ans m st"
| "im_step env (MintInvite plat now token link) st = snd (create_invite_handler env plat now token link st)"
| "im_step env (RevokeInvite plat token) st = snd (revoke_invite_handler env plat token st)"
| "im_step env (RemoveAllowed plat chat) st = snd (remove_allowlist_handler env plat chat st)"
| "im_step env (AddAllowed now chat) st = snd (add_allowed env now chat st)"
| "im_step env (ResetSession plat chat) st = snd (reset_session_handler env plat chat st)"
| "im_step env (ExpiryTick now) st = expiry_tick env now st"

fun im_run :: "'d im_env \<Rightarrow> im_op list \<Rightarrow> ('d, 'b) im_router \<Rightarrow> ('d, 'b) im_router" where
  "im_run env [] st = st"
| "im_run env (x # xs) st = im_run env xs (im_step env x st)"

lemma reply_to_fields [simp]:
  "ir_store (reply_to m t st) = ir_store st" "ir_allowlist (reply_to m t st) = ir_allowlist st"
  "ir_runs (reply_to m t st) = ir_runs st" "ir_seen (reply_to m t st) = ir_seen st"
  by (simp_all add: reply_to_def split: option.split)

lemma chat_lock_fields [simp]:
  "ir_store (chat_lock_for m st) = ir_store st" "ir_allowlist (chat_lock_for m st) = ir_allowlist st"
  "ir_runs (chat_lock_for m st) = ir_runs st" "ir_seen (chat_lock_for m st) = ir_seen st"
  by (simp_all add: chat_lock_for_def)

lemma reset_chat_fields [simp]:
  "ir_allowlist (reset_chat env m st) = ir_allowlist st" "ir_runs (reset_chat env m st) = ir_runs st"
  "ir_seen (reset_chat env m st) = ir_seen st"
  by (simp_all add: reset_chat_def split: sum.split prod.split)

lemma chat_session_fields:
  "chat_session env ans m st = (r, st') \<Longrightarrow> ir_allowlist st' = ir_allowlist st \<and> ir_runs st' = ir_runs st \<and> ir_seen st' = ir_seen st"
  by (auto simp: chat_session_def split: sum.splits option.splits)

text \<open>A conversation starts at most one run, of its own message, and leaves the list and the marks alone.\<close>

lemma converse_fields:
  "ir_allowlist (converse env ans m st) = ir_allowlist st" "ir_seen (converse env ans m st) = ir_seen st"
  "\<exists>sids. ir_runs (converse env ans m st) = ir_runs st @ map (Pair m) sids \<and> length sids \<le> 1"
proof -
  obtain r st' where s: "chat_session env ans m (chat_lock_for m st) = (r, st')" by fastforce
  note fields = chat_session_fields [OF s]
  show "ir_allowlist (converse env ans m st) = ir_allowlist st" "ir_seen (converse env ans m st) = ir_seen st"
    using fields by (simp_all add: converse_def s Let_def split: option.split sum.split prod.split)
  show "\<exists>sids. ir_runs (converse env ans m st) = ir_runs st @ map (Pair m) sids \<and> length sids \<le> 1"
  proof (cases r)
    case None
    with fields show ?thesis by (intro exI [of _ "[]"]) (simp add: converse_def s)
  next
    case (Some x)
    with fields show ?thesis
      by (intro exI [of _ "[neo_session_id x]"]) (simp add: converse_def s Let_def split: sum.split prod.split)
  qed
qed

lemma start_bind_fields [simp]:
  "ir_runs (start_bind env ans m st) = ir_runs st" "ir_seen (start_bind env ans m st) = ir_seen st"
  by (simp_all add: start_bind_def Let_def split: option.split sum.split prod.split bool.split)

text \<open>What a message can do to the runs: nothing, or one run of itself when its chat is admitted and the message is
  new.\<close>

lemma handle_inbound_runs:
  "ir_runs (handle_inbound env ans m st) = ir_runs st \<and> ir_seen st \<subseteq> ir_seen (handle_inbound env ans m st) \<or>
   is_admitted m st \<and> in_msg_id m \<notin> ir_seen st \<and> ir_seen (handle_inbound env ans m st) = insert (in_msg_id m) (ir_seen st) \<and>
     (\<exists>sid. ir_runs (handle_inbound env ans m st) = ir_runs st @ [(m, sid)])"
proof -
  obtain sids where c: "ir_runs (converse env ans m (st\<lparr>ir_seen := insert (in_msg_id m) (ir_seen st)\<rparr>)) = ir_runs st @ map (Pair m) sids"
    "length sids \<le> 1"
    using converse_fields(3) [of env ans m "st\<lparr>ir_seen := insert (in_msg_id m) (ir_seen st)\<rparr>"] by auto
  then have "sids = [] \<or> (\<exists>sid. sids = [sid])" by (cases sids) auto
  with c show ?thesis by (auto simp: handle_inbound_def Let_def converse_fields)
qed

section \<open>Each message once\<close>

text \<open>Whatever is delivered again, an agent is run at most once for a message identifier.\<close>

definition runs_marked :: "('d, 'b) im_router \<Rightarrow> bool" where
  "runs_marked st \<longleftrightarrow> distinct (map (in_msg_id \<circ> fst) (ir_runs st)) \<and> (in_msg_id \<circ> fst) ` set (ir_runs st) \<subseteq> ir_seen st"

lemma other_steps_runs:
  "ir_runs (snd (create_invite_handler env plat now token link st)) = ir_runs st"
  "ir_runs (snd (revoke_invite_handler env plat token st)) = ir_runs st"
  "ir_runs (snd (remove_allowlist_handler env plat chat st)) = ir_runs st"
  "ir_runs (snd (add_allowed env now chat st)) = ir_runs st"
  "ir_runs (snd (reset_session_handler env plat chat st)) = ir_runs st"
  "ir_runs (expiry_tick env now st) = ir_runs st"
  "ir_seen (snd (create_invite_handler env plat now token link st)) = ir_seen st"
  "ir_seen (snd (revoke_invite_handler env plat token st)) = ir_seen st"
  "ir_seen (snd (remove_allowlist_handler env plat chat st)) = ir_seen st"
  "ir_seen (snd (add_allowed env now chat st)) = ir_seen st"
  "ir_seen (snd (reset_session_handler env plat chat st)) = ir_seen st"
  "ir_seen (expiry_tick env now st) = ir_seen st"
  by (simp_all add: create_invite_handler_def revoke_invite_handler_def remove_allowlist_handler_def add_allowed_def
      reset_session_handler_def expiry_tick_def set_allowlist_def Let_def split: sum.split prod.split)

lemma im_step_runs:
  "ir_runs (im_step env x st) = ir_runs st \<and> ir_seen st \<subseteq> ir_seen (im_step env x st) \<or>
   (\<exists>ans m sid. x = Inbound ans m \<and> is_admitted m st \<and> in_msg_id m \<notin> ir_seen st \<and>
      ir_seen (im_step env x st) = insert (in_msg_id m) (ir_seen st) \<and> ir_runs (im_step env x st) = ir_runs st @ [(m, sid)])"
  using handle_inbound_runs [of env _ _ st] by (cases x) (auto simp: other_steps_runs)

lemma runs_marked_step: "runs_marked st \<Longrightarrow> runs_marked (im_step env x st)"
  using im_step_runs [of env x st] by (fastforce simp: runs_marked_def)

lemma message_runs_once:
  "start_im_router env created = Inr st \<Longrightarrow> distinct (map (in_msg_id \<circ> fst) (ir_runs (im_run env xs st)))"
proof -
  assume "start_im_router env created = Inr st"
  then have "runs_marked st" by (auto simp: start_im_router_def im_router_new_def runs_marked_def)
  then have "runs_marked (im_run env xs st)" by (induction xs arbitrary: st) (auto intro: runs_marked_step)
  then show ?thesis by (simp add: runs_marked_def)
qed

section \<open>Who may talk to the agents\<close>

text \<open>The chats an invitation binds, with the invitation.\<close>

fun binding :: "'d im_env \<Rightarrow> im_op \<Rightarrow> ('d, 'b) im_router \<Rightarrow> (string \<times> string) list" where
  "binding env (Inbound ans m) st =
     (if is_start (str_trim (in_text m)) then
        (case invite_token (str_trim (in_text m)) of
           None \<Rightarrow> []
         | Some tok \<Rightarrow>
             (case consume_invite env (ia_consumed_at ans) tok (in_chat_id m) (ir_store st) of
                Inr (True, _) \<Rightarrow> [(tok, in_chat_id m)]
              | _ \<Rightarrow> []))
      else [])"
| "binding env _ st = []"

fun bindings :: "'d im_env \<Rightarrow> im_op list \<Rightarrow> ('d, 'b) im_router \<Rightarrow> (string \<times> string) list" where
  "bindings env [] st = []"
| "bindings env (x # xs) st = binding env x st @ bindings env xs (im_step env x st)"

fun minted :: "im_op list \<Rightarrow> string list" where
  "minted [] = []"
| "minted (MintInvite _ _ token _ # xs) = token # minted xs"
| "minted (_ # xs) = minted xs"

fun added :: "im_op list \<Rightarrow> string set" where
  "added [] = {}"
| "added (AddAllowed _ chat # xs) = insert chat (added xs)"
| "added (_ # xs) = added xs"

lemma minted_Cons: "minted (x # xs) = minted [x] @ minted xs"
  by (cases x) auto

lemma added_Cons: "added (x # xs) = added [x] \<union> added xs"
  by (cases x) auto

text \<open>Sessions are in a table of their own.\<close>

lemma session_writes_frame:
  assumes "redb_laws (ie_db env) c" and "t \<noteq> IM_SESSIONS_TABLE"
  shows "im_put env k s db = Inr (x, db') \<Longrightarrow> c db' t = c db t"
    and "im_touch env now k db = Inr (x, db') \<Longrightarrow> c db' t = c db t"
    and "get_or_create env now k sid agent db = Inr (r, db') \<Longrightarrow> c db' t = c db t"
proof -
  have put: "im_put env k s db = Inr (x, db') \<Longrightarrow> c db' t = c db t" for k s x db'
    using insert_in_contents [OF assms(1)] assms(2) by (force simp: im_put_def)
  then show "im_put env k s db = Inr (x, db') \<Longrightarrow> c db' t = c db t" .
  show "im_touch env now k db = Inr (x, db') \<Longrightarrow> c db' t = c db t"
    using put by (auto simp: im_touch_def split: option.splits)
  show "get_or_create env now k sid agent db = Inr (r, db') \<Longrightarrow> c db' t = c db t"
    using put by (force simp: get_or_create_def Let_def split: option.splits)
qed

lemma chat_session_frame:
  assumes "redb_laws (ie_db env) c" and "t \<noteq> IM_SESSIONS_TABLE" and "chat_session env ans m st = (r, st')"
  shows "c (ir_store st') t = c (ir_store st) t"
  using assms(3) session_writes_frame(3) [OF assms(1,2)]
  by (auto simp: chat_session_def split: sum.splits option.splits)

lemma converse_frame:
  assumes "redb_laws (ie_db env) c" and "t \<noteq> IM_SESSIONS_TABLE"
  shows "c (ir_store (converse env ans m st)) t = c (ir_store st) t"
proof -
  obtain r st' where s: "chat_session env ans m (chat_lock_for m st) = (r, st')" by fastforce
  note frame = chat_session_frame [OF assms s]
  show ?thesis
  proof (cases r)
    case None
    with frame show ?thesis by (simp add: converse_def s)
  next
    case (Some x)
    show ?thesis
    proof (cases "im_touch env (ia_touched_at ans) (key_of m) (ir_store st')")
      case (Inl e)
      with Some frame show ?thesis by (simp add: converse_def s Let_def)
    next
      case (Inr p)
      then obtain u db where "im_touch env (ia_touched_at ans) (key_of m) (ir_store st') = Inr (u, db)" by (cases p) auto
      with session_writes_frame(2) [OF assms this] Some frame show ?thesis by (simp add: converse_def s Let_def)
    qed
  qed
qed

lemma reset_chat_frame:
  assumes "redb_laws (ie_db env) c" and "t \<noteq> IM_SESSIONS_TABLE"
  shows "c (ir_store (reset_chat env m st)) t = c (ir_store st) t"
  using remove_in_contents [OF assms(1)] assms(2) by (fastforce simp: reset_chat_def im_reset_def split: sum.split)

text \<open>What a state gives access to: the chats of the running list and of the stored one.\<close>

definition opens_for :: "'d contents \<Rightarrow> ('d, 'b) im_router \<Rightarrow> string set" where
  "opens_for c st = (case ir_allowlist st of Some allow \<Rightarrow> allow | None \<Rightarrow> UNIV) \<union> allowed_chats c (ir_store st)"

lemma allow_add_chats:
  "redb_laws (ie_db env) c \<Longrightarrow> allow_add env now chat db = Inr (x, db') \<Longrightarrow>
   allowed_chats c db' = insert chat (allowed_chats c db) \<and> c db' IM_INVITES_TABLE = c db IM_INVITES_TABLE"
  using insert_in_contents [of env c IM_ALLOWLIST_TABLE] by (auto simp: allow_add_def allowed_chats_def)

lemma usable_invites_cong:
  "c db' IM_INVITES_TABLE = c db IM_INVITES_TABLE \<Longrightarrow> usable_invites env c db' = usable_invites env c db"
  by (simp add: usable_invites_def)

lemma allowed_chats_cong:
  "c db' IM_ALLOWLIST_TABLE = c db IM_ALLOWLIST_TABLE \<Longrightarrow> allowed_chats c db' = allowed_chats c db"
  by (simp add: allowed_chats_def)

lemma start_bind_effect:
  fixes ans :: im_answers and st :: "('d, 'b) im_router"
  assumes L: "redb_laws (ie_db env) c" and K: "im_codec_laws env" and "is_start (str_trim (in_text m))"
  defines "bs \<equiv> binding env (Inbound ans m) st"
  shows "opens_for c (start_bind env ans m st) \<subseteq> opens_for c st \<union> snd ` set bs"
    and "fst ` set bs \<subseteq> usable_invites env c (ir_store st)" and "length bs \<le> 1"
    and "usable_invites env c (ir_store (start_bind env ans m st)) = usable_invites env c (ir_store st) - fst ` set bs"
proof -
  have "opens_for c (start_bind env ans m st) \<subseteq> opens_for c st \<union> snd ` set bs \<and> fst ` set bs \<subseteq> usable_invites env c (ir_store st)
    \<and> length bs \<le> 1 \<and> usable_invites env c (ir_store (start_bind env ans m st)) = usable_invites env c (ir_store st) - fst ` set bs"
  proof (cases "invite_token (str_trim (in_text m))")
    case None
    with assms(3) show ?thesis by (simp add: bs_def start_bind_def opens_for_def)
  next
    case (Some tok)
    let ?r = "consume_invite env (ia_consumed_at ans) tok (in_chat_id m) (ir_store st)"
    show ?thesis
    proof (cases ?r)
      case (Inl e)
      with Some assms(3) show ?thesis by (simp add: bs_def start_bind_def opens_for_def)
    next
      case (Inr p)
      then obtain b db where r: "?r = Inr (b, db)" by (cases p) auto
      note cons = consume_invite_contents [OF L K r]
      have chats: "allowed_chats c db = allowed_chats c (ir_store st)" using cons(3) by (intro allowed_chats_cong) simp
      show ?thesis
      proof (cases b)
        case False
        with Some r assms(3) cons(2) chats show ?thesis by (simp add: bs_def start_bind_def opens_for_def)
      next
        case True
        define db2 where "db2 = (case allow_add env (ia_allowed_at ans) (in_chat_id m) db of Inr (_, db') \<Rightarrow> db' | Inl _ \<Rightarrow> db)"
        have db2: "allowed_chats c db2 \<subseteq> insert (in_chat_id m) (allowed_chats c db)" "usable_invites env c db2 = usable_invites env c db"
        proof -
          have "allowed_chats c db2 \<subseteq> insert (in_chat_id m) (allowed_chats c db) \<and> c db2 IM_INVITES_TABLE = c db IM_INVITES_TABLE"
          proof (cases "allow_add env (ia_allowed_at ans) (in_chat_id m) db")
            case (Inl e)
            then show ?thesis by (auto simp: db2_def)
          next
            case (Inr q)
            then obtain u where "allow_add env (ia_allowed_at ans) (in_chat_id m) db = Inr (u, db2)"
              by (cases q) (simp add: db2_def)
            with allow_add_chats [OF L this] show ?thesis by simp
          qed
          then show "allowed_chats c db2 \<subseteq> insert (in_chat_id m) (allowed_chats c db)"
            "usable_invites env c db2 = usable_invites env c db"
            using usable_invites_cong [of c db2 db env] by simp_all
        qed
        have "start_bind env ans m st =
            reply_to m MSG_BOUND (st\<lparr>ir_store := db2, ir_allowlist := map_option (insert (in_chat_id m)) (ir_allowlist st)\<rparr>)"
          using Some r True by (simp add: start_bind_def Let_def db2_def)
        moreover have "bs = [(tok, in_chat_id m)]" using Some r True assms(3) by (simp add: bs_def)
        ultimately show ?thesis using db2 cons(1,2) chats True by (auto simp: opens_for_def split: option.splits)
      qed
    qed
  qed
  then show "opens_for c (start_bind env ans m st) \<subseteq> opens_for c st \<union> snd ` set bs"
    "fst ` set bs \<subseteq> usable_invites env c (ir_store st)" "length bs \<le> 1"
    "usable_invites env c (ir_store (start_bind env ans m st)) = usable_invites env c (ir_store st) - fst ` set bs" by blast+
qed

lemma other_message_frame:
  assumes "redb_laws (ie_db env) c" and "\<not> is_start (str_trim (in_text m))"
  shows "ir_allowlist (handle_inbound env ans m st) = ir_allowlist st"
    and "t \<noteq> IM_SESSIONS_TABLE \<Longrightarrow> c (ir_store (handle_inbound env ans m st)) t = c (ir_store st) t"
  using assms(2) by (simp_all add: handle_inbound_def Let_def converse_fields converse_frame [OF assms(1)] reset_chat_frame [OF assms(1)])

lemma remove_in_step:
  assumes "redb_laws (ie_db env) c" and "remove_in env u k db = Inr (x, db')"
  shows "t \<noteq> u \<Longrightarrow> c db' t = c db t" and "c db' u = (c db u)(k := None)"
  using remove_in_contents [OF assms] by simp_all

text \<open>An endpoint leaves the state alone or replaces the database (and the list).\<close>

lemma endpoint_cases:
  "snd (create_invite_handler env plat now token link st) = st \<or>
   (\<exists>t db. create_invite env now token (ir_store st) = Inr (t, db) \<and>
      snd (create_invite_handler env plat now token link st) = st\<lparr>ir_store := db\<rparr>)"
  "snd (revoke_invite_handler env plat token st) = st \<or>
   (\<exists>u db. remove_in env IM_INVITES_TABLE token (ir_store st) = Inr (u, db) \<and>
      snd (revoke_invite_handler env plat token st) = st\<lparr>ir_store := db\<rparr>)"
  "snd (remove_allowlist_handler env plat chat st) = st \<or>
   (\<exists>u db. remove_in env IM_ALLOWLIST_TABLE chat (ir_store st) = Inr (u, db) \<and>
      (snd (remove_allowlist_handler env plat chat st) = st\<lparr>ir_store := db\<rparr> \<or>
       (\<exists>chats. allow_list env db = Inr chats \<and>
          snd (remove_allowlist_handler env plat chat st) = st\<lparr>ir_store := db, ir_allowlist := Some (set chats)\<rparr>)))"
  "snd (add_allowed env now chat st) = st \<or>
   (\<exists>u db. allow_add env now chat (ir_store st) = Inr (u, db) \<and>
      snd (add_allowed env now chat st) = st\<lparr>ir_store := db, ir_allowlist := map_option (insert chat) (ir_allowlist st)\<rparr>)"
  "snd (reset_session_handler env plat chat st) = st \<or>
   (\<exists>u db p. validate_platform plat = Inr p \<and>
      remove_in env IM_SESSIONS_TABLE (composite \<lparr>sk_platform = platform_as_str p, sk_chat_id = chat\<rparr>) (ir_store st) = Inr (u, db) \<and>
      snd (reset_session_handler env plat chat st) = st\<lparr>ir_store := db\<rparr>)"
  "expiry_tick env now st = st \<or>
   (\<exists>n db. evict_expired env (now - IM_TTL_SECS) (ir_store st) = Inr (n, db) \<and> expiry_tick env now st = st\<lparr>ir_store := db\<rparr>)"
proof -
  show "snd (create_invite_handler env plat now token link st) = st \<or>
     (\<exists>t db. create_invite env now token (ir_store st) = Inr (t, db) \<and>
        snd (create_invite_handler env plat now token link st) = st\<lparr>ir_store := db\<rparr>)"
    by (cases "validate_platform plat"; cases "create_invite env now token (ir_store st)")
      (auto simp: create_invite_handler_def)
  show "snd (revoke_invite_handler env plat token st) = st \<or>
     (\<exists>u db. remove_in env IM_INVITES_TABLE token (ir_store st) = Inr (u, db) \<and>
        snd (revoke_invite_handler env plat token st) = st\<lparr>ir_store := db\<rparr>)"
    by (cases "validate_platform plat"; cases "remove_in env IM_INVITES_TABLE token (ir_store st)")
      (auto simp: revoke_invite_handler_def revoke_invite_def)
  show "snd (add_allowed env now chat st) = st \<or>
     (\<exists>u db. allow_add env now chat (ir_store st) = Inr (u, db) \<and>
        snd (add_allowed env now chat st) = st\<lparr>ir_store := db, ir_allowlist := map_option (insert chat) (ir_allowlist st)\<rparr>)"
    by (cases "allow_add env now chat (ir_store st)") (auto simp: add_allowed_def)
  show "expiry_tick env now st = st \<or>
     (\<exists>n db. evict_expired env (now - IM_TTL_SECS) (ir_store st) = Inr (n, db) \<and> expiry_tick env now st = st\<lparr>ir_store := db\<rparr>)"
    by (cases "evict_expired env (now - IM_TTL_SECS) (ir_store st)") (auto simp: expiry_tick_def)
  show "snd (reset_session_handler env plat chat st) = st \<or>
     (\<exists>u db p. validate_platform plat = Inr p \<and>
        remove_in env IM_SESSIONS_TABLE (composite \<lparr>sk_platform = platform_as_str p, sk_chat_id = chat\<rparr>) (ir_store st) = Inr (u, db) \<and>
        snd (reset_session_handler env plat chat st) = st\<lparr>ir_store := db\<rparr>)"
  proof (cases "validate_platform plat")
    case (Inr p)
    then show ?thesis
      by (cases "remove_in env IM_SESSIONS_TABLE (composite \<lparr>sk_platform = platform_as_str p, sk_chat_id = chat\<rparr>) (ir_store st)")
        (auto simp: reset_session_handler_def im_reset_def)
  qed (simp add: reset_session_handler_def)
  show "snd (remove_allowlist_handler env plat chat st) = st \<or>
     (\<exists>u db. remove_in env IM_ALLOWLIST_TABLE chat (ir_store st) = Inr (u, db) \<and>
        (snd (remove_allowlist_handler env plat chat st) = st\<lparr>ir_store := db\<rparr> \<or>
         (\<exists>chats. allow_list env db = Inr chats \<and>
            snd (remove_allowlist_handler env plat chat st) = st\<lparr>ir_store := db, ir_allowlist := Some (set chats)\<rparr>)))"
  proof (cases "validate_platform plat")
    case valid: (Inr p)
    show ?thesis
    proof (cases "remove_in env IM_ALLOWLIST_TABLE chat (ir_store st)")
      case (Inr q)
      then obtain u db where "remove_in env IM_ALLOWLIST_TABLE chat (ir_store st) = Inr (u, db)" by (cases q) simp
      with valid show ?thesis
        by (cases "allow_list env db") (auto simp: remove_allowlist_handler_def allow_remove_def set_allowlist_def)
    qed (simp add: valid remove_allowlist_handler_def allow_remove_def)
  qed (simp add: remove_allowlist_handler_def)
qed

text \<open>One operation widens the access by what it binds or what the operator adds, uses up the invitation it binds
  with, and makes new ones only when asked to.\<close>

lemma im_step_access:
  assumes L: "redb_laws (ie_db env) c" and K: "im_codec_laws env"
  shows "opens_for c (im_step env x st) \<subseteq> opens_for c st \<union> snd ` set (binding env x st) \<union> added [x]"
    and "fst ` set (binding env x st) \<subseteq> usable_invites env c (ir_store st)"
    and "length (binding env x st) \<le> 1"
    and "usable_invites env c (ir_store (im_step env x st)) \<subseteq>
      (usable_invites env c (ir_store st) - fst ` set (binding env x st)) \<union> set (minted [x])"
proof -
  have "opens_for c (im_step env x st) \<subseteq> opens_for c st \<union> snd ` set (binding env x st) \<union> added [x]
    \<and> fst ` set (binding env x st) \<subseteq> usable_invites env c (ir_store st) \<and> length (binding env x st) \<le> 1
    \<and> usable_invites env c (ir_store (im_step env x st)) \<subseteq>
      (usable_invites env c (ir_store st) - fst ` set (binding env x st)) \<union> set (minted [x])"
  proof (cases x)
    case (Inbound ans m)
    show ?thesis
    proof (cases "is_start (str_trim (in_text m))")
      case True
      then have "im_step env (Inbound ans m) st = start_bind env ans m st" by (simp add: handle_inbound_def)
      note step = this and bound = start_bind_effect [OF L K True, of ans st]
      have "opens_for c (im_step env x st) \<subseteq> opens_for c st \<union> snd ` set (binding env x st) \<union> added [x]"
        using bound(1) unfolding Inbound step by blast
      moreover have "usable_invites env c (ir_store (im_step env x st)) \<subseteq>
          (usable_invites env c (ir_store st) - fst ` set (binding env x st)) \<union> set (minted [x])"
        using bound(4) unfolding Inbound step by blast
      ultimately show ?thesis using bound(2,3) unfolding Inbound by blast
    next
      case False
      note f = other_message_frame [OF L False, where ans = ans and st = st]
      have "allowed_chats c (ir_store (im_step env x st)) = allowed_chats c (ir_store st)"
        using f(2) Inbound by (intro allowed_chats_cong) simp
      moreover have "usable_invites env c (ir_store (im_step env x st)) = usable_invites env c (ir_store st)"
        using f(2) Inbound by (intro usable_invites_cong) simp
      ultimately show ?thesis using False f(1) Inbound by (simp add: opens_for_def)
    qed
  next
    case (MintInvite plat now token link)
    then have step: "im_step env x st = snd (create_invite_handler env plat now token link st)" by simp
    from endpoint_cases(1) [of env plat now token link st] consider "im_step env x st = st"
      | db t where "create_invite env now token (ir_store st) = Inr (t, db)" "im_step env x st = st\<lparr>ir_store := db\<rparr>"
      unfolding step by blast
    then show ?thesis
    proof cases
      case 2
      note made = create_invite_contents [OF L K 2(1)]
      have "allowed_chats c db = allowed_chats c (ir_store st)" using made(2) by (intro allowed_chats_cong) simp
      with made(1) show ?thesis unfolding 2(2) by (simp add: opens_for_def MintInvite)
    qed (auto simp: MintInvite)
  next
    case (RevokeInvite plat token)
    then have step: "im_step env x st = snd (revoke_invite_handler env plat token st)" by simp
    from endpoint_cases(2) [of env plat token st] consider "im_step env x st = st"
      | db u where "remove_in env IM_INVITES_TABLE token (ir_store st) = Inr (u, db)" "im_step env x st = st\<lparr>ir_store := db\<rparr>"
      unfolding step by blast
    then show ?thesis
    proof cases
      case 2
      note gone = remove_in_step [OF L 2(1)]
      have "usable_invites env c db \<subseteq> usable_invites env c (ir_store st)"
        using gone(2) by (auto simp: usable_invites_def split: if_splits)
      moreover have "allowed_chats c db = allowed_chats c (ir_store st)" using gone(1) by (intro allowed_chats_cong) simp
      ultimately show ?thesis unfolding 2(2) by (simp add: opens_for_def RevokeInvite)
    qed (simp add: RevokeInvite)
  next
    case (RemoveAllowed plat chat)
    then have step: "im_step env x st = snd (remove_allowlist_handler env plat chat st)" by simp
    from endpoint_cases(3) [of env plat chat st] consider "im_step env x st = st"
      | db u where "remove_in env IM_ALLOWLIST_TABLE chat (ir_store st) = Inr (u, db)" "im_step env x st = st\<lparr>ir_store := db\<rparr>"
      | db u chats where "remove_in env IM_ALLOWLIST_TABLE chat (ir_store st) = Inr (u, db)" "allow_list env db = Inr chats"
          "im_step env x st = st\<lparr>ir_store := db, ir_allowlist := Some (set chats)\<rparr>"
      unfolding step by blast
    then show ?thesis
    proof cases
      case 2
      note gone = remove_in_step [OF L 2(1)]
      have "allowed_chats c db \<subseteq> allowed_chats c (ir_store st)"
        using gone(2) by (auto simp: allowed_chats_def split: if_splits)
      moreover have "usable_invites env c db = usable_invites env c (ir_store st)" using gone(1) by (intro usable_invites_cong) simp
      ultimately show ?thesis unfolding 2(2) by (auto simp: opens_for_def RemoveAllowed)
    next
      case 3
      note gone = remove_in_step [OF L 3(1)]
      have "allowed_chats c db \<subseteq> allowed_chats c (ir_store st)"
        using gone(2) by (auto simp: allowed_chats_def split: if_splits)
      moreover have "usable_invites env c db = usable_invites env c (ir_store st)" using gone(1) by (intro usable_invites_cong) simp
      ultimately show ?thesis using allow_list_set [OF L 3(2)] unfolding 3(3) by (auto simp: opens_for_def RemoveAllowed)
    qed (simp add: RemoveAllowed)
  next
    case (AddAllowed now chat)
    then have step: "im_step env x st = snd (add_allowed env now chat st)" by simp
    from endpoint_cases(4) [of env now chat st] consider "im_step env x st = st"
      | db u where "allow_add env now chat (ir_store st) = Inr (u, db)"
        "im_step env x st = st\<lparr>ir_store := db, ir_allowlist := map_option (insert chat) (ir_allowlist st)\<rparr>"
      unfolding step by blast
    then show ?thesis
    proof cases
      case 2
      note chats = allow_add_chats [OF L 2(1)]
      have "usable_invites env c db = usable_invites env c (ir_store st)" using chats by (intro usable_invites_cong) simp
      with chats show ?thesis unfolding 2(2) by (cases "ir_allowlist st") (auto simp: opens_for_def AddAllowed)
    qed (auto simp: AddAllowed)
  next
    case (ResetSession plat chat)
    then have step: "im_step env x st = snd (reset_session_handler env plat chat st)" by simp
    from endpoint_cases(5) [of env plat chat st] consider "im_step env x st = st"
      | db u k where "remove_in env IM_SESSIONS_TABLE k (ir_store st) = Inr (u, db)" "im_step env x st = st\<lparr>ir_store := db\<rparr>"
      unfolding step by blast
    then show ?thesis
    proof cases
      case 2
      note frame = remove_in_step(1) [OF L 2(1)]
      have "allowed_chats c db = allowed_chats c (ir_store st)" using frame by (intro allowed_chats_cong) simp
      moreover have "usable_invites env c db = usable_invites env c (ir_store st)" using frame by (intro usable_invites_cong) simp
      ultimately show ?thesis unfolding 2(2) by (simp add: opens_for_def ResetSession)
    qed (simp add: ResetSession)
  next
    case (ExpiryTick now)
    then have step: "im_step env x st = expiry_tick env now st" by simp
    from endpoint_cases(6) [of env now st] consider "im_step env x st = st"
      | db n where "evict_expired env (now - IM_TTL_SECS) (ir_store st) = Inr (n, db)" "im_step env x st = st\<lparr>ir_store := db\<rparr>"
      unfolding step by blast
    then show ?thesis
    proof cases
      case 2
      note evicted = evict_expired_contents [OF L 2(1)]
      have "allowed_chats c db = allowed_chats c (ir_store st)" unfolding allowed_chats_def evicted by simp
      moreover have "usable_invites env c db = usable_invites env c (ir_store st)" unfolding usable_invites_def evicted by simp
      ultimately show ?thesis unfolding 2(2) by (simp add: opens_for_def ExpiryTick)
    qed (simp add: ExpiryTick)
  qed
  then show "opens_for c (im_step env x st) \<subseteq> opens_for c st \<union> snd ` set (binding env x st) \<union> added [x]"
    "fst ` set (binding env x st) \<subseteq> usable_invites env c (ir_store st)" "length (binding env x st) \<le> 1"
    "usable_invites env c (ir_store (im_step env x st)) \<subseteq>
      (usable_invites env c (ir_store st) - fst ` set (binding env x st)) \<union> set (minted [x])" by blast+
qed

text \<open>Along a run: an invitation binds one chat at most, and only invitations that were there or were made can.\<close>

lemma bindings_once:
  assumes L: "redb_laws (ie_db env) c" and K: "im_codec_laws env"
    and "distinct (minted xs)" and "set (minted xs) \<inter> usable_invites env c (ir_store st) = {}"
  shows "distinct (map fst (bindings env xs st)) \<and>
    fst ` set (bindings env xs st) \<subseteq> usable_invites env c (ir_store st) \<union> set (minted xs)"
  using assms(3,4)
proof (induction xs arbitrary: st)
  case (Cons x xs)
  note acc = im_step_access [OF L K, of x st]
  have m: "set (minted [x]) \<inter> set (minted xs) = {}" "distinct (minted xs)" "set (minted (x # xs)) = set (minted [x]) \<union> set (minted xs)"
    using Cons.prems(1) minted_Cons [of x xs] by simp_all
  have "set (minted xs) \<inter> usable_invites env c (ir_store (im_step env x st)) = {}"
    using acc(4) m(1,3) Cons.prems(2) by blast
  from Cons.IH [OF m(2) this] have IH: "distinct (map fst (bindings env xs (im_step env x st)))"
    "fst ` set (bindings env xs (im_step env x st)) \<subseteq> usable_invites env c (ir_store (im_step env x st)) \<union> set (minted xs)" by blast+
  have "fst ` set (binding env x st) \<inter> fst ` set (bindings env xs (im_step env x st)) = {}"
  proof -
    have "fst ` set (binding env x st) \<inter> set (minted (x # xs)) = {}" using acc(2) Cons.prems(2) by blast
    moreover have "fst ` set (bindings env xs (im_step env x st)) \<subseteq>
        (usable_invites env c (ir_store st) - fst ` set (binding env x st)) \<union> set (minted (x # xs))"
      using IH(2) acc(4) m(3) by blast
    ultimately show ?thesis by blast
  qed
  moreover have "distinct (map fst (binding env x st))" using acc(3) by (cases "binding env x st") auto
  moreover have "fst ` set (bindings env (x # xs) st) \<subseteq> usable_invites env c (ir_store st) \<union> set (minted (x # xs))"
    using acc(2,4) IH(2) m(3) by auto
  ultimately show ?case using IH(1) by auto
qed simp

lemma run_access:
  assumes L: "redb_laws (ie_db env) c" and K: "im_codec_laws env"
  shows "opens_for c (im_run env xs st) \<subseteq> opens_for c st \<union> snd ` set (bindings env xs st) \<union> added xs"
proof (induction xs arbitrary: st)
  case (Cons x xs)
  from im_step_access(1) [OF L K, of x st] Cons.IH [of "im_step env x st"] show ?case
    unfolding im_run.simps bindings.simps added_Cons [of x xs] by fastforce
qed (simp add: opens_for_def)

lemma admitted_opens: "is_admitted m st \<Longrightarrow> in_sender_id m \<in> opens_for c st \<or> in_chat_id m \<in> opens_for c st"
  by (auto simp: is_admitted_def opens_for_def split: option.splits)

text \<open>Every run along the way is of a chat or sender that is in by then.\<close>

lemma runs_access:
  assumes L: "redb_laws (ie_db env) c" and K: "im_codec_laws env"
    and "opens_for c st \<union> snd ` set (bindings env xs st) \<union> added xs \<subseteq> A"
    and "\<forall>r\<in>set (ir_runs st). in_sender_id (fst r) \<in> A \<or> in_chat_id (fst r) \<in> A"
  shows "\<forall>r\<in>set (ir_runs (im_run env xs st)). in_sender_id (fst r) \<in> A \<or> in_chat_id (fst r) \<in> A"
  using assms(3,4)
proof (induction xs arbitrary: st)
  case (Cons x xs)
  have parts: "opens_for c st \<subseteq> A" "snd ` set (binding env x st) \<subseteq> A" "snd ` set (bindings env xs (im_step env x st)) \<subseteq> A"
    "added [x] \<subseteq> A" "added xs \<subseteq> A"
    using Cons.prems(1) added_Cons [of x xs] by auto
  have "opens_for c (im_step env x st) \<subseteq> A" using im_step_access(1) [OF L K, of x st] parts(1,2,4) by blast
  with parts have "opens_for c (im_step env x st) \<union> snd ` set (bindings env xs (im_step env x st)) \<union> added xs \<subseteq> A" by blast
  moreover have "\<forall>r\<in>set (ir_runs (im_step env x st)). in_sender_id (fst r) \<in> A \<or> in_chat_id (fst r) \<in> A"
  proof (cases "ir_runs (im_step env x st) = ir_runs st")
    case True
    with Cons.prems(2) show ?thesis by simp
  next
    case False
    with im_step_runs [of env x st] obtain m sid where "is_admitted m st" "ir_runs (im_step env x st) = ir_runs st @ [(m, sid)]" by blast
    with admitted_opens [of m st c] parts(1) Cons.prems(2) show ?thesis by auto
  qed
  ultimately show ?case unfolding im_run.simps by (rule Cons.IH)
qed simp

lemma start_opens:
  assumes "redb_laws (ie_db env) c" and "start_im_router env created = Inr st"
  shows "opens_for c st = allowed_chats c (ir_store st)" and "ir_runs st = []"
  using allow_list_set [OF assms(1)] assms(2) by (auto simp: start_im_router_def im_router_new_def opens_for_def)

text \<open>A chat that the operator removes is out at once, in the running list and in the stored one.\<close>

lemma removed_chat_shut_out:
  assumes "redb_laws (ie_db env) c"
    and "remove_allowlist_handler env plat chat st = (Inr (), st')"
  shows "opens_for c st' = allowed_chats c (ir_store st) - {chat}"
proof -
  from assms(2) obtain u db chats where rm: "remove_in env IM_ALLOWLIST_TABLE chat (ir_store st) = Inr (u, db)"
    and ls: "allow_list env db = Inr chats" and st': "st' = set_allowlist (Some (set chats)) (st\<lparr>ir_store := db\<rparr>)"
    by (auto simp: remove_allowlist_handler_def allow_remove_def Let_def split: sum.splits)
  have "allowed_chats c db = allowed_chats c (ir_store st) - {chat}"
    using remove_in_step(2) [OF assms(1) rm] by (auto simp: allowed_chats_def split: if_splits)
  with allow_list_set [OF assms(1) ls] show ?thesis unfolding st' by (simp add: opens_for_def set_allowlist_def)
qed

text \<open>C38. From a start with any stored list of chats, over any history of messages and operator requests, an
  agent only runs for a message whose chat or sender is on the stored list, was bound with an invitation or was added
  by the operator. An invitation binds at most one chat, and only invitations that were stored or made bind. The list
  stored at the end grants no more than that.\<close>

theorem only_invited_chats_talk:
  assumes "redb_laws (ie_db env) c" and "im_codec_laws env"
    and "start_im_router env created = Inr st"
    and "distinct (minted xs)" and "set (minted xs) \<inter> usable_invites env c (ir_store st) = {}"
  defines "A \<equiv> allowed_chats c (ir_store st) \<union> snd ` set (bindings env xs st) \<union> added xs"
  shows "(\<forall>r\<in>set (ir_runs (im_run env xs st)). in_sender_id (fst r) \<in> A \<or> in_chat_id (fst r) \<in> A)
    \<and> distinct (map fst (bindings env xs st))
    \<and> fst ` set (bindings env xs st) \<subseteq> usable_invites env c (ir_store st) \<union> set (minted xs)
    \<and> allowed_chats c (ir_store (im_run env xs st)) \<subseteq> A"
proof -
  note start = start_opens [OF assms(1,3)]
  have "\<forall>r\<in>set (ir_runs (im_run env xs st)). in_sender_id (fst r) \<in> A \<or> in_chat_id (fst r) \<in> A"
    by (rule runs_access [OF assms(1,2)]) (auto simp: start A_def)
  moreover have "allowed_chats c (ir_store (im_run env xs st)) \<subseteq> A"
    using run_access [OF assms(1,2), of xs st] unfolding start(1) A_def by (auto simp: opens_for_def)
  ultimately show ?thesis using bindings_once [OF assms(1,2,4,5)] by blast
qed

text \<open>An operator makes an invitation, a chat binds with it and talks.\<close>

definition example_invite :: "bool \<Rightarrow> invite_record" where
  "example_invite used = \<lparr>iv_created_at = 0, iv_used = used, iv_bound_chat_id = (if used then Some ''7'' else None),
     iv_bound_at = (if used then Some 1 else None)\<rparr>"

definition example_session :: "int \<Rightarrow> im_session" where
  "example_session at = \<lparr>neo_session_id = ''s1'', bound_agent_id = ''a1'', im_alias = None, im_created_at = 2, last_active = at\<rparr>"

definition example_im_env :: "mem_db im_env" where
  "example_im_env =
     \<lparr>ie_db = mem_redb,
      ie_session_to_str = (\<lambda>s. if s = example_session 2 then Inr ''B'' else if s = example_session 3 then Inr ''C''
        else if s = example_session 518400 then Inr ''D'' else Inl ''no''),
      ie_session_from_str = (\<lambda>v. if v = ''B'' then Inr (example_session 2) else if v = ''C'' then Inr (example_session 3)
        else if v = ''D'' then Inr (example_session 518400) else Inl ''no''),
      ie_invite_to_str = (\<lambda>i. if i = example_invite False then Inr ''N'' else if i = example_invite True then Inr ''U'' else Inl ''no''),
      ie_invite_from_str = (\<lambda>v. if v = ''N'' then Inr (example_invite False) else if v = ''U'' then Inr (example_invite True) else Inl ''no'')\<rparr>"

lemma example_im_laws: "redb_laws (ie_db example_im_env) mem_contents" "im_codec_laws example_im_env"
  using mem_redb_laws by (auto simp: example_im_env_def im_codec_laws_def example_session_def example_invite_def)

definition example_answers :: im_answers where
  "example_answers = \<lparr>ia_consumed_at = 1, ia_allowed_at = 1, ia_default_agent = Some ''a1'', ia_new_session = Inr ''s1'',
     ia_created_at = 2, ia_run = RunReplied ''hi'', ia_touched_at = 3\<rparr>"

definition example_inbound :: "string \<Rightarrow> string \<Rightarrow> inbound_message" where
  "example_inbound text i = \<lparr>in_platform = Telegram, in_chat_id = ''7'', in_sender_id = ''9'', in_text = text, in_msg_id = i, in_timestamp = 0\<rparr>"

definition example_im_ops :: "im_op list" where
  "example_im_ops =
     [MintInvite ''telegram'' 0 ''tok'' None, Inbound example_answers (example_inbound ''hello'' ''m0''),
      Inbound example_answers (example_inbound ''/start tok'' ''m1''), Inbound example_answers (example_inbound ''hello'' ''m2'')]"

definition example_im_router :: "(mem_db, unit) im_router" where
  "example_im_router = im_router_new [] (Some {})"

lemma example_im_run:
  "start_im_router example_im_env (Inr []) = Inr example_im_router"
  "ir_runs (im_run example_im_env example_im_ops example_im_router) = [(example_inbound ''hello'' ''m2'', ''s1'')]"
  "bindings example_im_env example_im_ops example_im_router = [(''tok'', ''7'')]"
  by code_simp+

theorem only_invited_chats_talk_witness:
  "map fst (bindings example_im_env example_im_ops example_im_router) = [''tok'']
   \<and> in_chat_id (fst (hd (ir_runs (im_run example_im_env example_im_ops example_im_router)))) \<in>
       snd ` set (bindings example_im_env example_im_ops example_im_router)"
proof -
  have "usable_invites example_im_env mem_contents (ir_store example_im_router) = {}" "minted example_im_ops = [''tok'']"
    "added example_im_ops = {}" "allowed_chats mem_contents (ir_store example_im_router) = {}"
    by (auto simp: usable_invites_def allowed_chats_def mem_contents_def example_im_router_def im_router_new_def example_im_ops_def)
  with only_invited_chats_talk [OF example_im_laws example_im_run(1), of example_im_ops] example_im_run(2,3) show ?thesis
    by (simp add: example_inbound_def)
qed

end
