(* ===== verification/ImConversations.thy ===== *)
theory ImConversations
  imports ImRouter
begin

text \<open>
  Continuity of the conversations of \<open>ImRouter\<close>: while nobody resets the chat and it is not idle beyond the time limit, all
  its runs are in one session, whatever the other chats and the operators do.
\<close>

section \<open>Writes to other chats and other tables\<close>

lemma session_map_cong:
  "c db' IM_SESSIONS_TABLE (composite k) = c db IM_SESSIONS_TABLE (composite k) \<Longrightarrow> session_map env c db' k = session_map env c db k"
  by (simp add: session_map_def)

lemma session_writes_other:
  assumes "redb_laws (ie_db env) c" and "composite k' \<noteq> composite k"
  shows "im_put env k' s db = Inr (x, db') \<Longrightarrow> session_map env c db' k = session_map env c db k"
    and "im_touch env now k' db = Inr (x, db') \<Longrightarrow> session_map env c db' k = session_map env c db k"
    and "get_or_create env now k' sid agent db = Inr (r, db') \<Longrightarrow> session_map env c db' k = session_map env c db k"
    and "im_reset env k' db = Inr (x, db') \<Longrightarrow> session_map env c db' k = session_map env c db k"
proof -
  have put: "im_put env k' s db = Inr (x, db') \<Longrightarrow> session_map env c db' k = session_map env c db k" for s x db'
    using insert_in_contents [OF assms(1)] assms(2) by (fastforce simp: im_put_def session_map_def)
  then show "im_put env k' s db = Inr (x, db') \<Longrightarrow> session_map env c db' k = session_map env c db k" .
  show "im_touch env now k' db = Inr (x, db') \<Longrightarrow> session_map env c db' k = session_map env c db k"
    using put by (auto simp: im_touch_def split: option.splits)
  show "get_or_create env now k' sid agent db = Inr (r, db') \<Longrightarrow> session_map env c db' k = session_map env c db k"
    using put by (force simp: get_or_create_def Let_def split: option.splits)
  show "im_reset env k' db = Inr (x, db') \<Longrightarrow> session_map env c db' k = session_map env c db k"
    using remove_in_contents [OF assms(1)] assms(2) by (fastforce simp: im_reset_def session_map_def)
qed

lemma converse_cases:
  obtains (silent) st' where "chat_session env ans m (chat_lock_for m st) = (None, st')" "converse env ans m st = st'"
  | (spoke) r st' where "chat_session env ans m (chat_lock_for m st) = (Some r, st')"
      "ir_runs (converse env ans m st) = ir_runs st @ [(m, neo_session_id r)]"
      "ir_store (converse env ans m st) =
         (case im_touch env (ia_touched_at ans) (key_of m) (ir_store st') of Inr (_, db) \<Rightarrow> db | Inl _ \<Rightarrow> ir_store st')"
proof -
  obtain r st' where s: "chat_session env ans m (chat_lock_for m st) = (r, st')" by fastforce
  show ?thesis
  proof (cases r)
    case None
    with s show ?thesis by (intro silent) (simp_all add: converse_def)
  next
    case (Some x)
    with s chat_session_fields [OF s] show ?thesis
      by (intro spoke [of x st']) (simp_all add: converse_def Let_def split: sum.split prod.split)
  qed
qed

lemma converse_other_session:
  assumes "redb_laws (ie_db env) c" and "composite (key_of m) \<noteq> composite k"
  shows "session_map env c (ir_store (converse env ans m st)) k = session_map env c (ir_store st) k"
proof -
  note frame = session_writes_other [OF assms]
  have cs: "session_map env c (ir_store st') k = session_map env c (ir_store st) k"
    if "chat_session env ans m (chat_lock_for m st) = (r, st')" for r st'
    using that frame(3) by (auto simp: chat_session_def split: sum.splits option.splits)
  show ?thesis
  proof (cases rule: converse_cases [of env ans m st])
    case (silent st')
    with cs show ?thesis by simp
  next
    case (spoke r st')
    then show ?thesis using cs [OF spoke(1)] frame(2)
      by (cases "im_touch env (ia_touched_at ans) (key_of m) (ir_store st')") auto
  qed
qed

section \<open>The chat's own messages\<close>

lemma chat_session_stored:
  assumes "redb_laws (ie_db env) c" and "session_map env c (ir_store st) (key_of m) = Some s"
    and "chat_session env ans m (chat_lock_for m st) = (r, st')"
  shows "st' = chat_lock_for m st \<and> (r = Some s \<or> r = None)"
proof (cases "im_get env (key_of m) (ir_store st)")
  case (Inl e)
  with assms(3) show ?thesis by (auto simp: chat_session_def)
next
  case (Inr x)
  with im_get_map [OF assms(1) Inr] assms(2,3) show ?thesis by (auto simp: chat_session_def)
qed

lemma im_touch_stored:
  assumes L: "redb_laws (ie_db env) c" and K: "im_codec_laws env" and "session_map env c db k = Some s"
    and "im_touch env now k db = Inr (x, db')"
  shows "session_map env c db' k = Some (s\<lparr>last_active := now\<rparr>)"
proof -
  from assms(4) obtain found where got: "im_get env k db = Inr found" by (auto simp: im_touch_def)
  with im_get_map [OF L got] assms(3) have "found = Some s" by simp
  with got assms(4) have "im_put env k (s\<lparr>last_active := now\<rparr>) db = Inr (x, db')" by (simp add: im_touch_def)
  from im_put_contents [OF L K this] show ?thesis by (auto simp: session_map_def)
qed

definition marked :: "inbound_message \<Rightarrow> ('d, 'b) im_router \<Rightarrow> ('d, 'b) im_router" where
  "marked m st = st\<lparr>ir_seen := insert (in_msg_id m) (ir_seen st)\<rparr>"

lemma marked_fields [simp]: "ir_store (marked m st) = ir_store st" "ir_runs (marked m st) = ir_runs st"
  by (simp_all add: marked_def)

text \<open>The message was answered and the time of the answer was written to the chat's session. That write is allowed to fail,
  and then the session keeps the time it had.\<close>

definition recorded :: "'d im_env \<Rightarrow> im_answers \<Rightarrow> inbound_message \<Rightarrow> ('d, 'b) im_router \<Rightarrow> bool" where
  "recorded env ans m st \<longleftrightarrow> ir_runs (handle_inbound env ans m st) \<noteq> ir_runs st \<and>
     (case im_touch env (ia_touched_at ans) (key_of m) (ir_store (snd (chat_session env ans m (chat_lock_for m (marked m st))))) of
        Inr _ \<Rightarrow> True | Inl _ \<Rightarrow> False)"

text \<open>A chat with a session talks in it, and only the time of its last activity changes.\<close>

lemma converse_same_session:
  assumes L: "redb_laws (ie_db env) c" and K: "im_codec_laws env" and s: "session_map env c (ir_store st) (key_of m) = Some s"
    and st: "st = marked m st0" and talk: "handle_inbound env ans m st0 = converse env ans m st"
  shows "session_map env c (ir_store (converse env ans m st)) (key_of m) =
      Some (if recorded env ans m st0 then s\<lparr>last_active := ia_touched_at ans\<rparr> else s)
    \<and> (ir_runs (converse env ans m st) = ir_runs st \<or> ir_runs (converse env ans m st) = ir_runs st @ [(m, neo_session_id s)])"
proof (cases rule: converse_cases [of env ans m st])
  case (silent st')
  with chat_session_stored [OF L s silent(1)] s st talk show ?thesis by (simp add: recorded_def)
next
  case (spoke r st')
  note own = chat_session_stored [OF L s spoke(1)]
  have rec: "recorded env ans m st0 \<longleftrightarrow> (\<exists>p. im_touch env (ia_touched_at ans) (key_of m) (ir_store st) = Inr p)"
    using own spoke(1,2) st talk by (simp add: recorded_def split: sum.splits)
  show ?thesis
  proof (cases "im_touch env (ia_touched_at ans) (key_of m) (ir_store st)")
    case (Inl e)
    with own spoke(2,3) s rec show ?thesis by simp
  next
    case (Inr p)
    then obtain u db where t: "im_touch env (ia_touched_at ans) (key_of m) (ir_store st) = Inr (u, db)" by (cases p) auto
    with im_touch_stored [OF L K s t] own spoke(2,3) rec show ?thesis by simp
  qed
qed

section \<open>One operation\<close>

lemma start_bind_sessions:
  assumes L: "redb_laws (ie_db env) c" and K: "im_codec_laws env"
  shows "session_map env c (ir_store (start_bind env ans m st)) k = session_map env c (ir_store st) k"
proof (cases "invite_token (str_trim (in_text m))")
  case (Some tok)
  show ?thesis
  proof (cases "consume_invite env (ia_consumed_at ans) tok (in_chat_id m) (ir_store st)")
    case (Inr p)
    then obtain b db where r: "consume_invite env (ia_consumed_at ans) tok (in_chat_id m) (ir_store st) = Inr (b, db)" by (cases p) auto
    have one: "session_map env c db k = session_map env c (ir_store st) k"
      using consume_invite_contents(3) [OF L K r, of IM_SESSIONS_TABLE] by (intro session_map_cong) simp
    have two: "session_map env c db' k = session_map env c db k" if "allow_add env at chat db = Inr (x, db')" for at chat x db'
      using insert_in_contents [OF L that [unfolded allow_add_def]] by (intro session_map_cong) simp
    show ?thesis using Some r one two
      by (cases b; cases "allow_add env (ia_allowed_at ans) (in_chat_id m) db") (auto simp: start_bind_def Let_def)
  qed (simp add: Some start_bind_def)
qed (simp add: start_bind_def)

text \<open>What leaves the session of a chat alone, when the chat was last active at \<open>t\<close>: everything but a reset of this chat,
  a clean-up for which \<open>t\<close> is too long ago, and a clock that goes back behind \<open>t\<close>.\<close>

fun leaves_session :: "session_key \<Rightarrow> int \<Rightarrow> im_op \<Rightarrow> bool" where
  "leaves_session k t (Inbound ans m) \<longleftrightarrow> key_of m = k \<longrightarrow> \<not> is_reset (str_trim (in_text m)) \<and> t \<le> ia_touched_at ans"
| "leaves_session k t (ResetSession plat chat) \<longleftrightarrow> \<not> (plat = sk_platform k \<and> chat = sk_chat_id k)"
| "leaves_session k t (ExpiryTick now) \<longleftrightarrow> now - IM_TTL_SECS \<le> t"
| "leaves_session k t _ \<longleftrightarrow> True"

text \<open>The last activity of a chat is the time of its last message that was answered and whose time was written. A run is
  quiet for a chat when each of its operations, at its turn, leaves the session alone for the last activity so far.\<close>

fun active_at :: "'d im_env \<Rightarrow> session_key \<Rightarrow> im_op \<Rightarrow> int \<Rightarrow> ('d, 'b) im_router \<Rightarrow> int" where
  "active_at env k (Inbound ans m) t st = (if key_of m = k \<and> recorded env ans m st then ia_touched_at ans else t)"
| "active_at env k _ t st = t"

fun quiet :: "'d im_env \<Rightarrow> session_key \<Rightarrow> int \<Rightarrow> im_op list \<Rightarrow> ('d, 'b) im_router \<Rightarrow> bool" where
  "quiet env k t [] st = True"
| "quiet env k t (x # xs) st \<longleftrightarrow> leaves_session k t x \<and> quiet env k (active_at env k x t st) xs (im_step env x st)"

text \<open>The chat's session is \<open>sid\<close>, bound to \<open>agent\<close>, and was active at \<open>t\<close> or later.\<close>

definition in_session :: "'d im_env \<Rightarrow> 'd contents \<Rightarrow> session_key \<Rightarrow> int \<Rightarrow> string \<Rightarrow> string \<Rightarrow> ('d, 'b) im_router \<Rightarrow> bool" where
  "in_session env c k t sid agent st \<longleftrightarrow>
     (case session_map env c (ir_store st) k of
        Some s \<Rightarrow> neo_session_id s = sid \<and> bound_agent_id s = agent \<and> t \<le> last_active s
      | None \<Rightarrow> False)"

definition platform_key :: "session_key \<Rightarrow> bool" where
  "platform_key k \<longleftrightarrow> (\<exists>p. sk_platform k = platform_as_str p)"

lemma platform_names_no_colon: "CHR '':'' \<notin> set (platform_as_str p)"
  by (cases p) simp_all

lemma platform_key_inject: "platform_key k \<Longrightarrow> platform_key k' \<Longrightarrow> composite k = composite k' \<longleftrightarrow> k = k'"
  using composite_inject platform_names_no_colon unfolding platform_key_def by metis

lemma key_of_platform [simp]: "platform_key (key_of m)" "platform_key \<lparr>sk_platform = platform_as_str p, sk_chat_id = chat\<rparr>"
  by (auto simp: platform_key_def key_of_def)

lemma validate_platform_name: "validate_platform plat = Inr p \<Longrightarrow> plat = platform_as_str p"
  by (auto simp: validate_platform_def platform_parse_def split: if_splits)

lemma in_session_cong:
  "session_map env c (ir_store st') k = session_map env c (ir_store st) k \<Longrightarrow>
   in_session env c k t sid agent st' = in_session env c k t sid agent st"
  by (simp add: in_session_def)

lemma handle_inbound_cases:
  "is_start (str_trim (in_text m)) \<and> handle_inbound env ans m st = start_bind env ans m st \<or>
   handle_inbound env ans m st \<in> {st, marked m st, reply_to m MSG_HELP (marked m st)} \<or>
   is_reset (str_trim (in_text m)) \<and> handle_inbound env ans m st = reset_chat env m (marked m st) \<or>
   handle_inbound env ans m st = converse env ans m (marked m st)"
  by (cases "is_start (str_trim (in_text m))"; cases "is_admitted m st"; cases "in_msg_id m \<in> ir_seen st";
      cases "is_reset (str_trim (in_text m))"; cases "is_help (str_trim (in_text m))")
    (simp_all add: handle_inbound_def marked_def)

lemma inbound_in_session:
  assumes L: "redb_laws (ie_db env) c" and K: "im_codec_laws env" and "platform_key k"
    and ops: "leaves_session k t (Inbound ans m)" and s: "in_session env c k t sid agent st"
  shows "in_session env c k (active_at env k (Inbound ans m) t st) sid agent (handle_inbound env ans m st)
    \<and> (key_of m = k \<longrightarrow> ir_runs (handle_inbound env ans m st) = ir_runs st \<or> ir_runs (handle_inbound env ans m st) = ir_runs st @ [(m, sid)])"
proof -
  let ?st = "marked m st"
  have s': "in_session env c k t sid agent ?st" using s in_session_cong [of env c ?st k st] by simp
  have idle: "active_at env k (Inbound ans m) t st = t" if "ir_runs (handle_inbound env ans m st) = ir_runs st \<or> key_of m \<noteq> k"
    using that by (auto simp: recorded_def)
  consider (start) "is_start (str_trim (in_text m))" "handle_inbound env ans m st = start_bind env ans m st"
    | (same) "handle_inbound env ans m st \<in> {st, ?st, reply_to m MSG_HELP ?st}"
    | (reset) "is_reset (str_trim (in_text m))" "handle_inbound env ans m st = reset_chat env m ?st"
    | (talk) "handle_inbound env ans m st = converse env ans m ?st"
    using handle_inbound_cases [of m env ans st] by blast
  then show ?thesis
  proof cases
    case start
    then have "active_at env k (Inbound ans m) t st = t" by (intro idle) simp
    with s start show ?thesis by (simp add: in_session_cong [OF start_bind_sessions [OF L K]] del: active_at.simps)
  next
    case same
    then have "active_at env k (Inbound ans m) t st = t" by (intro idle) auto
    with same show ?thesis using s s' in_session_cong [of env c "reply_to m MSG_HELP ?st" k ?st] by (auto simp del: active_at.simps)
  next
    case reset
    with ops have "key_of m \<noteq> k" by auto
    then have "composite (key_of m) \<noteq> composite k" using platform_key_inject assms(3) key_of_platform(1) by blast
    then have "session_map env c (ir_store (reset_chat env m ?st)) k = session_map env c (ir_store ?st) k"
      using session_writes_other(4) [OF L] by (cases "im_reset env (key_of m) (ir_store st)") (auto simp: reset_chat_def)
    with s' \<open>key_of m \<noteq> k\<close> idle show ?thesis unfolding reset(2) by (simp add: in_session_def)
  next
    case talk
    show ?thesis
    proof (cases "key_of m = k")
      case True
      from s' obtain r where r: "session_map env c (ir_store ?st) k = Some r" "neo_session_id r = sid" "bound_agent_id r = agent"
        "t \<le> last_active r" by (auto simp: in_session_def split: option.splits)
      from ops True have "t \<le> ia_touched_at ans" by simp
      with converse_same_session [OF L K _ refl talk, of r] True r show ?thesis unfolding talk by (auto simp: in_session_def)
    next
      case False
      then have "composite (key_of m) \<noteq> composite k" using platform_key_inject assms(3) key_of_platform(1) by blast
      with converse_other_session [OF L this, of ans ?st] s' False show ?thesis unfolding talk by (simp add: in_session_def)
    qed
  qed
qed

lemma store_step_sessions:
  assumes "redb_laws (ie_db env) c" and "im_codec_laws env"
  shows "session_map env c (ir_store (snd (create_invite_handler env plat now token link st))) k = session_map env c (ir_store st) k"
    and "session_map env c (ir_store (snd (revoke_invite_handler env plat token st))) k = session_map env c (ir_store st) k"
    and "session_map env c (ir_store (snd (remove_allowlist_handler env plat chat st))) k = session_map env c (ir_store st) k"
    and "session_map env c (ir_store (snd (add_allowed env now chat st))) k = session_map env c (ir_store st) k"
proof -
  show "session_map env c (ir_store (snd (create_invite_handler env plat now token link st))) k = session_map env c (ir_store st) k"
    using endpoint_cases(1) [of env plat now token link st] create_invite_contents(2) [OF assms, of now token "ir_store st"]
    by (intro session_map_cong) fastforce
  show "session_map env c (ir_store (snd (revoke_invite_handler env plat token st))) k = session_map env c (ir_store st) k"
    using endpoint_cases(2) [of env plat token st] remove_in_step(1) [OF assms(1), of IM_INVITES_TABLE token "ir_store st"]
    by (intro session_map_cong) fastforce
  show "session_map env c (ir_store (snd (remove_allowlist_handler env plat chat st))) k = session_map env c (ir_store st) k"
    using endpoint_cases(3) [of env plat chat st] remove_in_step(1) [OF assms(1), of IM_ALLOWLIST_TABLE chat "ir_store st"]
    by (intro session_map_cong) fastforce
  show "session_map env c (ir_store (snd (add_allowed env now chat st))) k = session_map env c (ir_store st) k"
    using endpoint_cases(4) [of env now chat st] insert_in_contents [OF assms(1), of IM_ALLOWLIST_TABLE chat "show_int now" "ir_store st"]
    by (intro session_map_cong) (fastforce simp: allow_add_def)
qed

lemma reset_handler_other:
  assumes "redb_laws (ie_db env) c" and "platform_key k" and "\<not> (plat = sk_platform k \<and> chat = sk_chat_id k)"
  shows "session_map env c (ir_store (snd (reset_session_handler env plat chat st))) k = session_map env c (ir_store st) k"
proof (cases "validate_platform plat")
  case (Inr p)
  let ?k = "\<lparr>sk_platform = platform_as_str p, sk_chat_id = chat\<rparr>"
  have "?k \<noteq> k" using assms(3) validate_platform_name [OF Inr] by auto
  then have "composite ?k \<noteq> composite k" using platform_key_inject assms(2) key_of_platform(2) by blast
  with Inr session_writes_other(4) [OF assms(1) this] show ?thesis
    by (cases "im_reset env ?k (ir_store st)") (auto simp: reset_session_handler_def)
qed (simp add: reset_session_handler_def)

lemma expiry_keeps_active:
  assumes L: "redb_laws (ie_db env) c" and "session_map env c (ir_store st) k = Some s" and "now - IM_TTL_SECS \<le> last_active s"
  shows "session_map env c (ir_store (expiry_tick env now st)) k = session_map env c (ir_store st) k"
  using endpoint_cases(6) [of env now st]
proof
  assume "\<exists>n db. evict_expired env (now - IM_TTL_SECS) (ir_store st) = Inr (n, db) \<and> expiry_tick env now st = st\<lparr>ir_store := db\<rparr>"
  then obtain n db where ev: "evict_expired env (now - IM_TTL_SECS) (ir_store st) = Inr (n, db)"
    and tick: "expiry_tick env now st = st\<lparr>ir_store := db\<rparr>" by blast
  have "c db IM_SESSIONS_TABLE (composite k) = c (ir_store st) IM_SESSIONS_TABLE (composite k)"
    unfolding evict_expired_contents [OF L ev] using assms(2,3) by (auto simp: session_map_def bind_eq_Some_conv)
  then show ?thesis unfolding tick by (simp add: session_map_def)
qed simp

lemma im_step_in_session:
  assumes L: "redb_laws (ie_db env) c" and K: "im_codec_laws env" and k: "platform_key k"
    and ops: "leaves_session k t x" and s: "in_session env c k t sid agent st"
  shows "in_session env c k (active_at env k x t st) sid agent (im_step env x st)
    \<and> (\<exists>new. ir_runs (im_step env x st) = ir_runs st @ new \<and> (\<forall>r\<in>set new. key_of (fst r) = k \<longrightarrow> snd r = sid))"
proof -
  have "in_session env c k (active_at env k x t st) sid agent (im_step env x st)"
  proof (cases x)
    case (Inbound ans m)
    with inbound_in_session [OF L K k _ s, of ans m] ops show ?thesis by (simp del: active_at.simps leaves_session.simps)
  next
    case (ResetSession plat chat)
    with ops have "\<not> (plat = sk_platform k \<and> chat = sk_chat_id k)" by simp
    with s ResetSession show ?thesis by (simp add: in_session_cong [OF reset_handler_other [OF L k]])
  next
    case (ExpiryTick now)
    from s obtain u where u: "session_map env c (ir_store st) k = Some u" "t \<le> last_active u"
      by (auto simp: in_session_def split: option.splits)
    moreover have "now - IM_TTL_SECS \<le> last_active u" using ops ExpiryTick u(2) by simp
    ultimately show ?thesis using s ExpiryTick by (simp add: in_session_cong [OF expiry_keeps_active [OF L u(1)]])
  qed (use s in \<open>simp_all add: in_session_cong [OF store_step_sessions(1) [OF L K]] in_session_cong [OF store_step_sessions(2) [OF L K]]
    in_session_cong [OF store_step_sessions(3) [OF L K]] in_session_cong [OF store_step_sessions(4) [OF L K]]\<close>)
  moreover have "\<exists>new. ir_runs (im_step env x st) = ir_runs st @ new \<and> (\<forall>r\<in>set new. key_of (fst r) = k \<longrightarrow> snd r = sid)"
  proof (cases "ir_runs (im_step env x st) = ir_runs st")
    case False
    with im_step_runs [of env x st] obtain ans m sid' where m: "x = Inbound ans m" "ir_runs (im_step env x st) = ir_runs st @ [(m, sid')]" by blast
    with inbound_in_session [OF L K k _ s, of ans m] ops show ?thesis by (auto simp del: active_at.simps leaves_session.simps)
  qed simp
  ultimately show ?thesis by blast
qed

lemma im_run_in_session:
  assumes L: "redb_laws (ie_db env) c" and K: "im_codec_laws env" and k: "platform_key k"
    and "quiet env k t xs st" and "in_session env c k t sid agent st"
  shows "(\<exists>t'. in_session env c k t' sid agent (im_run env xs st))
    \<and> (\<exists>new. ir_runs (im_run env xs st) = ir_runs st @ new \<and> (\<forall>r\<in>set new. key_of (fst r) = k \<longrightarrow> snd r = sid))"
  using assms(4,5)
proof (induction xs arbitrary: st t)
  case (Cons x xs)
  from im_step_in_session [OF L K k _ Cons.prems(2), of x] Cons.prems(1) obtain new where
    one: "in_session env c k (active_at env k x t st) sid agent (im_step env x st)" "ir_runs (im_step env x st) = ir_runs st @ new"
      "\<forall>r\<in>set new. key_of (fst r) = k \<longrightarrow> snd r = sid" by auto
  from Cons.IH [OF _ one(1)] Cons.prems(1) obtain t' new' where
    rest: "in_session env c k t' sid agent (im_run env xs (im_step env x st))"
      "ir_runs (im_run env xs (im_step env x st)) = (ir_runs st @ new) @ new'" "\<forall>r\<in>set new'. key_of (fst r) = k \<longrightarrow> snd r = sid"
    unfolding one(2) by auto
  show ?case unfolding im_run.simps using rest one(3) by (intro conjI exI [of _ t'] exI [of _ "new @ new'"]) auto
qed auto

section \<open>A conversation\<close>

text \<open>A chat without a session that talks has got a new one.\<close>

lemma chat_session_created:
  assumes L: "redb_laws (ie_db env) c" and K: "im_codec_laws env" and none: "session_map env c (ir_store st) (key_of m) = None"
    and "chat_session env ans m (chat_lock_for m st) = (Some r, st')"
  shows "session_map env c (ir_store st') (key_of m) = Some r \<and> last_active r = ia_created_at ans"
proof -
  have got: "im_get env (key_of m) (ir_store st) = Inr None"
  proof (cases "im_get env (key_of m) (ir_store st)")
    case (Inr x)
    with im_get_map [OF L Inr] none show ?thesis by simp
  qed (use assms(4) in \<open>simp add: chat_session_def\<close>)
  with assms(4) obtain agent sid db where made: "get_or_create env (ia_created_at ans) (key_of m) sid agent (ir_store st) = Inr (r, db)"
    "ir_store st' = db"
    by (auto simp: chat_session_def split: option.splits sum.splits)
  then obtain u where "im_put env (key_of m) r (ir_store st) = Inr (u, db)" "last_active r = ia_created_at ans"
    using got by (auto simp: get_or_create_def Let_def)
  with im_put_contents [OF L K] made(2) show ?thesis by (fastforce simp: session_map_def)
qed

lemma run_opens_session:
  fixes st :: "('d, 'b) im_router"
  assumes L: "redb_laws (ie_db env) c" and K: "im_codec_laws env"
    and run: "ir_runs (handle_inbound env ans m st) = ir_runs st @ [(m, sid)]" and rec: "recorded env ans m st"
  shows "\<exists>agent. in_session env c (key_of m) (ia_touched_at ans) sid agent (handle_inbound env ans m st)"
proof -
  have talk: "handle_inbound env ans m st = converse env ans m (marked m st)"
    using handle_inbound_cases [of m env ans st] run by auto
  have run': "ir_runs (converse env ans m (marked m st)) = ir_runs st @ [(m, sid)]" using run unfolding talk .
  show ?thesis
  proof (cases "session_map env c (ir_store st) (key_of m)")
    case (Some s)
    then have "session_map env c (ir_store (marked m st)) (key_of m) = Some s" by simp
    from converse_same_session [OF L K this refl talk] run' rec show ?thesis
      unfolding talk by (auto simp: in_session_def)
  next
    case None
    show ?thesis
    proof (cases rule: converse_cases [of env ans m "marked m st"])
      case (silent st')
      with chat_session_fields [OF silent(1)] run' show ?thesis by simp
    next
      case (spoke r st')
      have "session_map env c (ir_store (marked m st)) (key_of m) = None" using None by simp
      note made = chat_session_created [OF L K this spoke(1)]
      have sid: "neo_session_id r = sid" using spoke(2) run' by simp
      obtain u db where touch: "im_touch env (ia_touched_at ans) (key_of m) (ir_store st') = Inr (u, db)"
        using rec spoke(1) by (auto simp: recorded_def split: sum.splits)
      from im_touch_stored [OF L K conjunct1 [OF made] touch] touch spoke(3) sid show ?thesis
        unfolding talk by (simp add: in_session_def)
    qed
  qed
qed

text \<open>C39. After a message of a chat was answered in a session, with the time of the answer written, all its later messages
  are answered in that session and the session is still stored, whatever other chats and operators do, as long as the chat is
  not reset and no clean-up comes later than the time limit after its last answered message: each further answered message
  renews the limit, unless the write of its time fails. The chat's answers do not go back in time.\<close>

theorem chat_stays_in_its_session:
  assumes "redb_laws (ie_db env) c" and "im_codec_laws env"
    and "ir_runs (handle_inbound env ans m st) = ir_runs st @ [(m, sid)]" and "recorded env ans m st"
    and "quiet env (key_of m) (ia_touched_at ans) xs (handle_inbound env ans m st)"
  shows "(\<exists>s. session_map env c (ir_store (im_run env xs (handle_inbound env ans m st))) (key_of m) = Some s \<and> neo_session_id s = sid)
    \<and> (\<exists>new. ir_runs (im_run env xs (handle_inbound env ans m st)) = ir_runs st @ [(m, sid)] @ new
      \<and> (\<forall>r\<in>set new. key_of (fst r) = key_of m \<longrightarrow> snd r = sid))"
proof -
  from run_opens_session [OF assms(1-4)] obtain agent where
    "in_session env c (key_of m) (ia_touched_at ans) sid agent (handle_inbound env ans m st)" by blast
  from im_run_in_session [OF assms(1,2) key_of_platform(1) assms(5) this] assms(3) show ?thesis
    by (fastforce simp: in_session_def split: option.splits)
qed

text \<open>A chat that is in talks, the hourly clean-up passes, another chat resets itself, the chat talks again six days later,
  and the clean-up that comes when the first message is eight days old leaves it alone.\<close>

definition example_chatting :: "(mem_db, unit) im_router" where
  "example_chatting = im_router_new [] (Some {''7'', ''8''})"

definition example_quiet_ops :: "im_op list" where
  "example_quiet_ops =
     [ExpiryTick 604802, ResetSession ''telegram'' ''8'',
      Inbound (example_answers\<lparr>ia_touched_at := 518400\<rparr>) (example_inbound ''and now'' ''m2''), ExpiryTick 691200]"

lemma example_conversation:
  "ir_runs (handle_inbound example_im_env example_answers (example_inbound ''hello'' ''m1'') example_chatting) =
     ir_runs example_chatting @ [(example_inbound ''hello'' ''m1'', ''s1'')]"
  "recorded example_im_env example_answers (example_inbound ''hello'' ''m1'') example_chatting"
  "quiet example_im_env (key_of (example_inbound ''hello'' ''m1'')) (ia_touched_at example_answers) example_quiet_ops
     (handle_inbound example_im_env example_answers (example_inbound ''hello'' ''m1'') example_chatting)"
  "map (snd) (ir_runs (im_run example_im_env example_quiet_ops
     (handle_inbound example_im_env example_answers (example_inbound ''hello'' ''m1'') example_chatting))) = [''s1'', ''s1'']"
  by code_simp+

theorem chat_stays_in_its_session_witness:
  "\<exists>s. session_map example_im_env mem_contents (ir_store (im_run example_im_env example_quiet_ops
       (handle_inbound example_im_env example_answers (example_inbound ''hello'' ''m1'') example_chatting)))
     (key_of (example_inbound ''hello'' ''m1'')) = Some s \<and> neo_session_id s = ''s1''"
  using chat_stays_in_its_session [OF example_im_laws example_conversation(1-3)] by blast

end
