(* ===== verification/Spec2Isabelle.thy ===== *)
theory Spec2Isabelle
  imports RuleFeed Scrub PushManager RegistryProperties Ingestion SeriesReads
    ExtensionRuntime InFlight HttpAuth ImConversations
begin

text \<open>
  HeraMind: a verification development.

  HeraMind is an edge platform. Devices and extensions produce values; rules watch them, and a rule
  that fires notifies people through channels, commands devices and extensions or starts an agent;
  values are kept as time series and pushed to other systems; an HTTP server lets users in. This
  development models, from the crates under \<open>src/crates/\<close>, the rule engine (\<open>heramind-rules\<close>), messages
  and their delivery (\<open>heramind-messages\<close>), the event bus and the host side of extensions
  (\<open>heramind-core\<close>), the data push (\<open>heramind-data-push\<close>), the registry of devices, metric extraction,
  images and the webhook adapter (\<open>heramind-devices\<close>), the stores of all these (\<open>heramind-storage\<close>), and
  authentication and rate limits of the server (\<open>heramind-api\<close>).

  Parts and how they interact.
  \<^item> A device sends a document to the webhook adapter, which checks its token, its request rate and its
    template, extracts metrics and publishes an event per metric on the event bus. A subscriber of
    the bus writes values to the time-series store, another writes them to the value provider of the
    rules and announces them to the rule engine; the push scheduler collects them into payloads and
    delivers these with retries; the event dispatcher hands them to the extensions that subscribed.
  \<^item> The engine looks up the rules subscribed to the source, evaluates their conditions against the
    provider, and fires those that are due: it claims the cooldown, runs the actions, updates the
    rule's state and records the execution. A notify action creates a message in the message manager,
    which keeps it in memory and in a database, suppresses repeats, and hands it to the channels of the
    registry whose filter accepts it. A periodic emitter turns the silence of a device into a virtual
    metric.
  \<^item> An extension runs in a process of its own. The isolated manager starts, stops and restarts
    processes; the runtime puts a proxy of each into the extension registry, which executes commands
    under the safety manager; a request to a process waits in the table of requests in flight.
  \<^item> A request to the server passes the rate limiter and the authentication, by a token of the user
    table's sessions or by an API key; log-in and sign-up are throttled.

  Theories, in the order they build on each other. Shared:
  \<^item> \<open>Prelude\<close>: results, durations, clocks, hash maps as association lists; \<open>TextUtil\<close>: texts; \<open>Float64\<close>: the
    \<open>f64\<close> operations used, exact for finite values; \<open>Json\<close>: JSON values; \<open>Redb\<close>: the database crate as a
    record of operations with its documented laws; \<open>StorageErrors\<close>, \<open>Schema\<close>: errors of the stores and the
    version stamp of a database; \<open>TimeGate\<close>: events kept apart per key.
  \<^item> \<open>DataSource\<close>, \<open>Events\<close>, \<open>EventBus\<close> (\<open>core/datasource/mod.rs\<close>, \<open>core/event.rs\<close>, \<open>core/eventbus.rs\<close>).
  Rules and messages:
  \<^item> \<open>RuleModels\<close> (\<open>rules/models.rs\<close>); \<open>ValueProvider\<close> (\<open>rules/unified_provider.rs\<close>, the in-memory provider of
    \<open>rules/engine.rs\<close>); \<open>RuleActions\<close> (\<open>rules/device_integration.rs\<close>, \<open>extension_integration.rs\<close>); \<open>RuleStore\<close>,
    \<open>RuleValidator\<close>, \<open>RulePreview\<close> (\<open>rules/store.rs\<close>, \<open>validator.rs\<close>, \<open>preview.rs\<close>).
  \<^item> \<open>Messages\<close> (\<open>messages/message.rs\<close>, \<open>channels/filter.rs\<close>), \<open>MessageStore\<close> (\<open>storage/messages.rs\<close>),
    \<open>ChannelRegistry\<close> (\<open>messages/channels/mod.rs\<close>), \<open>MessageManager\<close>, \<open>Scrub\<close> (\<open>messages/manager.rs\<close>),
    \<open>MessageRestart\<close> (what a restart finds).
  \<^item> \<open>RuleEngine\<close> (\<open>rules/engine.rs\<close>): the definitions; \<open>EngineInvariants\<close>: how each operation treats the
    state, reachable states as an inductive predicate; \<open>EngineProperties\<close>; \<open>StatusEmitter\<close>
    (\<open>rules/device_status_emitter.rs\<close>); \<open>Alerting\<close>: the paths from a value to a message; \<open>RuleFeed\<close>
    (\<open>init_rule_engine_events\<close> of \<open>api/server/types.rs\<close>): from an event on the bus to the rules, and the
    scheduler of rules.
  Data push:
  \<^item> \<open>PushTypes\<close> (\<open>data-push/types.rs\<close>, \<open>filter.rs\<close>), \<open>PushTargets\<close> (\<open>targets/\<close>), \<open>PushPayload\<close> (payloads of
    \<open>scheduler.rs\<close>, \<open>template.rs\<close>), \<open>PushStore\<close> (\<open>store.rs\<close>), \<open>PushDelivery\<close> and \<open>PushScheduler\<close> (\<open>scheduler.rs\<close>),
    \<open>PushManager\<close> (\<open>manager.rs\<close>).
  Devices:
  \<^item> \<open>DeviceTypes\<close> (\<open>devices/mdl.rs\<close>, \<open>mdl_format.rs\<close> and the stored forms), \<open>DeviceStore\<close>
    (\<open>storage/device_registry.rs\<close>), \<open>TypeIndex\<close>, \<open>DeviceRegistry\<close>, \<open>RegistryProperties\<close> (\<open>devices/registry.rs\<close>),
    \<open>Extractor\<close> (\<open>devices/unified_extractor.rs\<close>), \<open>ImageStore\<close> (\<open>devices/image_storage.rs\<close>), \<open>RateWindow\<close>,
    \<open>Adapter\<close>, \<open>WebhookAdapter\<close> (\<open>devices/adapter.rs\<close>, \<open>adapters/webhook.rs\<close>), \<open>Ingestion\<close> (from a document to
    the payload of a push target).
  Time series (\<open>storage/timeseries.rs\<close>):
  \<^item> \<open>SeriesDb\<close> (the database crate on keys of three parts), \<open>TimeSeries\<close> (data types), \<open>SeriesStore\<close> and
    \<open>SeriesWrites\<close> (the write path and what it keeps), \<open>SeriesQuery\<close> and \<open>SeriesReads\<close> (queries and what they
    return), \<open>SeriesCleanup\<close> (deletion and retention).
  Extensions (\<open>core/extension/\<close>):
  \<^item> \<open>ExtensionSafety\<close> (\<open>safety.rs\<close>), \<open>EventDispatch\<close> (\<open>event_dispatcher.rs\<close>,
    \<open>extension_event_subscription.rs\<close>), \<open>ExtensionHost\<close> (\<open>registry.rs\<close>), \<open>IsolatedManager\<close>
    (\<open>isolated/manager.rs\<close>), \<open>ExtensionRuntime\<close> (\<open>runtime.rs\<close>, \<open>proxy.rs\<close>), \<open>InFlight\<close>
    (\<open>isolated/in_flight.rs\<close>).
  Server (\<open>api/\<close>):
  \<^item> \<open>SlidingWindow\<close>, \<open>RateLimiter\<close> (\<open>rate_limit.rs\<close>, \<open>server/middleware.rs\<close>), \<open>AuthThrottle\<close> and \<open>AuthUsers\<close>
    (\<open>auth_users.rs\<close>), \<open>ApiKeys\<close> (\<open>auth.rs\<close>, \<open>core/crypto.rs\<close>), \<open>HttpAuth\<close> (\<open>auth.rs\<close>, the handlers of users,
    keys and the first set-up).
  Instant messengers (\<open>messages/im_bridge/\<close>):
  \<^item> \<open>ImSessions\<close> (\<open>session_store.rs\<close>), \<open>ImRouter\<close> (\<open>mod.rs\<close>, \<open>router.rs\<close>, \<open>start_im_router\<close> of
    \<open>api/server/types.rs\<close>, \<open>api/handlers/im_bridges.rs\<close>) and who may talk to the agents,
    \<open>ImConversations\<close> (what keeps a chat in its session).

  State and operations.
  Each component's state is a record with the fields of the Rust struct, and each operation a function
  that returns its result together with the new state; a \<open>Result\<close> is a sum with the error on the left, so
  every early return and every \<open>?\<close> of the source is a branch; a panic is a result of its own where one can
  happen. Every reading of a clock is an argument of its own, named after the place that makes it, so that
  no relation between two readings is assumed where the code makes two calls; fresh identifiers, random
  bytes, faults of a database or of the file system, answers of devices, processes and servers, and the
  codecs are arguments too. Outputs that leave the model (events published, messages handed to channels,
  payloads delivered) are appended to a list in the state. An operation that waits for ever, on a
  lock its own caller holds, has the result \<open>None\<close>.
  One definition is one uninterrupted call. Where the code lets go of its locks in the middle of an operation and a
  property depends on what may run there, the operation is split at that place and the property is about the steps in any
  order: the check and the claim of a rule's cooldown (\<open>RuleEngine\<close>), the check for a duplicate and the delivery of a
  message (\<open>create_move\<close>), the passes of a deletion (\<open>SeriesCleanup\<close>), the check and the record of a log-in (\<open>login_move\<close>),
  the question and the creation of the first set-up (\<open>setup_op\<close>), the two halves of a command to an extension
  (\<open>registry_reach\<close>). The other operations are modelled as if nothing ran inside them, although some release a lock
  or wait in the middle: the histories of message operations, of push targets, of sessions and keys and of the messenger
  router are sequences of whole calls, and a response is handed to its waiting caller in the step that removes the request,
  where the code sends it just after letting the lock go.
  Third-party crates (redb, tokio's broadcast channel, moka, the JSON, cryptography and template
  crates, HTTP and MQTT clients) are records of functions; what is relied on is stated in named predicates
  (\<open>redb_laws\<close>, \<open>series_laws\<close>, \<open>broadcast_laws\<close> and others), each with an instance that satisfies it.

  Interfaces. Every locale is interpreted on the model's own definitions:
  \<^item> \<open>time_gate\<close> (admitted events of a key are spaced): \<open>claims\<close> and \<open>fires\<close> of the engine, \<open>dedup\<close> of the
    message manager, \<open>warnings\<close> and \<open>virtuals\<close> of the data push;
  \<^item> \<open>value_provider\<close> (what is written is read): \<open>mem\<close> and \<open>uni\<close>, the two providers;
  \<^item> \<open>type_index\<close> (an exact index by type): \<open>stored\<close> in the device store, \<open>indexed\<close> in the registry;
  \<^item> \<open>window_counter\<close> (at most so many events per fixed window): \<open>requests\<close> and \<open>discoveries\<close> of the webhook
    adapter;
  \<^item> \<open>sliding_log\<close> (at most so many events in every window): \<open>limited\<close>, the rate limiter of the server, and
    \<open>counted\<close>, the throttle of log-ins.

  What the lemmas show.
  \<^item> Engine: a rule fires exactly when it is due; firings keep the cooldown, also under concurrent claims;
    the subscription index is exact in every reachable state and sufficient for re-evaluation; a
    sustained condition was sustained; every action is attempted; the history is bounded and recent; a
    metric on the bus fires the rules it makes due, and a tick of the scheduler runs the scheduled ones.
  \<^item> Messages: delivery goes to exactly the channels that want the message; a repeat of a delivered message is held
    back for a minute, while calls that overlap between check and record can both deliver; no
    message is lost in memory, across a restart, or between engine and manager; the index of active
    messages, the filters and the toggles of channels are kept; credentials are masked in error texts of ASCII.
  \<^item> Event bus and data push: what a subscriber loses is counted, but for what a polling call discards; a delivery
    ends after a bounded number of attempts with its log written; a target's task runs exactly when the target is
    enabled, but for targets whose deletion failed; the buffer of a task is bounded; the store refines two finite maps.
  \<^item> Devices: a webhook without the device's token changes nothing; data reach the bus unchanged; the
    registry's index and topic cache are exact; templates come back after saving and loading exactly when they
    hold no value the form cannot express; saving an image adds at most one file and replaces none, and it can be read.
  \<^item> Time series: a flush loses no point and equals writing in the order of arrival; queries return pages
    of the table; deletion and retention remove exactly what they say and end.
  \<^item> Extensions: a failing extension is cut off; restarts after crashes keep to their budget; a response
    reaches the caller of its request and no other.
  \<^item> Server: only live tokens, active keys and the internal proxy pass the authentication; a changed
    password or a log-out ends the sessions, and a deleted account stays out; guesses of a password, up to those under way
    at once, and accepted requests are bounded in every window; keys survive a restart; the first set-up is closed once
    an account exists, while calls that asked before that can all succeed.
  \<^item> Instant messengers: only chats that were invited or allowed reach an agent, each message at most
    once, and a chat stays in its session.
  Some properties state behaviour worth knowing when operating the system: restarting a stopped extension
  on demand waits for ever on its own lock, reloading an extension loses its event subscriptions, a user
  table that cannot be read opens the first set-up again, the endpoint that deletes API keys
  deletes none; alerts of different rules suppress each other; a dotted capital I in an error text shifts the masking
  of credentials; guesses of a password sent at once are all evaluated.

  Bounds and termination.
  Functions that recur other than structurally have a measure (the scan of \<open>scrub_key\<close>: the text after the
  cursor; printing of numbers; extraction, whose depth the code limits to ten). Two loops are
  \<open>partial_function\<close>s, proved to end: \<open>delete_loop\<close> (each pass removes at least one key of the range, or
  fails) and \<open>fr_try_recv\<close> (each turn consumes a value of the channel). Names of images are tried at
  most 256 times and symbolic links are followed at most 40 times, as the code and the operating system
  do. No other fuel is used. Durations and instants are natural numbers of nanoseconds, time stamps
  of type \<open>i64\<close> are integers with the wrap-around of arithmetic written out, \<open>u64\<close> and \<open>u32\<close> counters are words
  and wrap.

  Not modelled.
  The clients behind the channels (HTTP, SMTP), the messengers and the language models, the MQTT
  adapter, the timers and tasks of the async runtime, the processes of extensions with their pipes,
  packages and the runner, agents and their tools, the HTTP handlers other than those of
  authentication and of instant messengers, the overlap of an operator's request with a message that
  is being answered, and the stores of sessions, dashboards, agents and settings: they are input and output,
  glue over the modelled components, or repeat the pattern of the stores that are modelled.
\<close>

section \<open>Properties that span components\<close>

text \<open>C3. Event-driven evaluation misses nothing: in every reachable engine state, if writing a value for a
  source to the provider (a write that evicts nothing) changes the verdict of a rule whose data-change
  trigger was derived from its condition, then the update of that source is a run of evaluations of rules
  with this rule among them, and the rule fires in it if it is due on the values read there.\<close>

theorem event_driven_complete:
  assumes "engine_reachable env e" and "get_rule i e = Some r" and "condition r = Some c"
    and "trigger r = trigger_from_condition (condition r)" and "uvp_room p d"
    and "evaluate (en_text env) (get_by_source now (write_source now d v p)) c
         \<noteq> evaluate (en_text env) (get_by_source now p) c"
  shows "(\<exists>is. i \<in> set is \<and> on_data_update env clks d v e = evaluate_all env clks 0 is e)
    \<and> ((\<forall>n. should_fire env (clks n) i e) \<longrightarrow> i \<in> set (fst (on_data_update env clks d v e)))"
proof -
  have sub: "subscribes r (storage_key d)"
    unfolding subscribes_iff using assms(2-4) changed_verdict_is_source [OF assms(5,6)]
    by (auto simp: trigger_from_condition_def sources_of_def)
  then have "i \<in> set (unwrap_or (hm_get (subscription_index e) (storage_key d)) [])"
    unfolding affected_iff [OF assms(1)] using assms(2) by blast
  then show ?thesis
    using on_data_update_fires [OF assms(1,2) sub] by (auto simp: on_data_update_def Let_def)
qed

theorem event_driven_complete_witness:
  "''r1'' \<in> set (fst (on_data_update example_engine_env (\<lambda>_. clock_at 7 (Some (Number (Fin 9)))) sensor (Number (Fin 9)) example_engine))"
proof -
  let ?clks = "\<lambda>_ :: nat. clock_at 7 (Some (Number (Fin 9)))"
  have trigger: "condition hot_rule = Some (Comparison sensor GreaterThan (Fin 5) None)"
    "trigger hot_rule = trigger_from_condition (condition hot_rule)"
    by (simp_all add: hot_rule_def trigger_from_condition_def sources_of_def)
  have room: "uvp_room uvp_new sensor" by (simp add: uvp_room_def uvp_new_def MAX_CACHE_ENTRIES_def)
  from uni.verdict_of_written [OF this, of "en_text example_engine_env" 0 "Fin 9" GreaterThan "Fin 5" None]
  have "evaluate (en_text example_engine_env) (get_by_source 0 (write_source 0 sensor (Number (Fin 9)) uvp_new))
      (Comparison sensor GreaterThan (Fin 5) None)" by (simp del: write_source.simps evaluate.simps)
  moreover have "get_by_source 0 uvp_new sensor = None" by (simp add: get_by_source_def uvp_new_def)
  ultimately have changed: "evaluate (en_text example_engine_env) (get_by_source 0 (write_source 0 sensor (Number (Fin 9)) uvp_new))
        (Comparison sensor GreaterThan (Fin 5) None)
     \<noteq> evaluate (en_text example_engine_env) (get_by_source 0 uvp_new) (Comparison sensor GreaterThan (Fin 5) None)"
    by (simp del: write_source.simps)
  have "hm_get (cooldowns example_engine) ''r1'' = None"
    by (simp add: example_engine_def add_rule_def rebuild_all_subscriptions_def engine_new_def)
  then have "should_fire example_engine_env (clock_at 7 (Some (Number (Fin 9)))) ''r1'' example_engine"
    by (simp add: should_fire_def example_engine_rule hot_rule_def compiled_rule_new_def held_long_enough_def clock_at_def)
  with event_driven_complete [OF example_engine_reachable example_engine_rule trigger room changed, of ?clks] show ?thesis by blast
qed

text \<open>C9. An alarm is not lost between engine and messages: when a rule fires on an engine with a message
  manager, each of its notify actions leaves a message in the manager, found by its own identifier
  and carrying the action's text with the placeholders filled in and its severity; this holds even if
  channels fail, the store fails or the message is suppressed as a duplicate.\<close>

theorem fired_alerts_are_kept:
  assumes "evaluate_and_fire env clk i e = (Inr True, e')" and "get_rule i e = Some r" and "condition r = Some c"
    and "eng_message_manager e = Some s" and "inj_on (\<lambda>k. ao_fresh (fc_action clk k)) {..<length (actions r)}"
    and "k < length (actions r)" and "actions r ! k = Notify body sev"
  shows "\<exists>s' m. eng_message_manager e' = Some s' \<and> get_message (ao_fresh (fc_action clk k)) s' = Some m
    \<and> msg_severity m = message_severity_of sev \<and> msg_status m = Active
    \<and> msg_message m = (case extract_trigger_value (en_text env) (fc_trigger_values clk) c of
        (_, display, source) \<Rightarrow> substitute_placeholders body display source)"
  using assms(1)
proof (cases rule: evaluate_and_fire_cases)
  case (fired r' c' ev e2 e3)
  from fired(2,4) assms(2,3) have same: "r' = r" "c' = c" by (auto simp: get_rule_def)
  have "eng_message_manager e3 = Some s"
    using sustained_manager [OF fired(7)] try_claim_manager [OF fired(8)] assms(4) by simp
  from fire_rule_manager [OF this assms(5-7), of env i c] fired(9) same show ?thesis
    by (fastforce simp: alert_of_def message_alert_def message_new_def)
qed auto

theorem fired_alerts_are_kept_witness:
  "\<exists>s' m. eng_message_manager (snd (evaluate_and_fire example_engine_env alert_clock ''r1'' alerting_engine)) = Some s'
    \<and> get_message ''m'' s' = Some m \<and> msg_severity m = Critical"
proof -
  obtain e' where fired: "evaluate_and_fire example_engine_env alert_clock ''r1'' alerting_engine = (Inr True, e')"
    using alerting_engine_fires by (metis prod.collapse)
  from fired_alerts_are_kept [OF fired alerting_engine_rule, of "Comparison sensor GreaterThan (Fin 5) None" listening_manager 0
      "''too hot: {value}''" NCritical] alert_clock_fresh fired
  show ?thesis by (fastforce simp: hot_rule_def compiled_rule_new_def alerting_engine_def alert_clock_def)
qed

text \<open>Alerts of different rules share one duplicate window: once a notify action has reached a
  channel, a notify action of any rule, with any text, whose severity maps to the same message
  severity and that comes within sixty seconds reports success but reaches no channel.\<close>

lemma alerts_of_rules_suppress_each_other:
  assumes "execute_notify env o1 body1 sev1 e = (res1, e1)" and "eng_message_manager e = Some s"
    and "hm_wf (mm_dedup_cache s)" and "eng_message_manager e1 = Some s1" and "mm_sent s1 \<noteq> mm_sent s"
    and "ao_pruned o1 - ao_recorded o1 < 300000000000"
    and "ao_checked o2 - ao_recorded o1 < 60000000000" and "message_severity_of sev2 = message_severity_of sev1"
  shows "\<exists>e2 s2. execute_notify env o2 body2 sev2 e1 = (Inr (''NOTIFY: '' @ body2), e2)
    \<and> eng_message_manager e2 = Some s2 \<and> mm_sent s2 = mm_sent s1"
proof -
  let ?m1 = "alert_of o1 body1 sev1" and ?m2 = "alert_of o2 body2 sev2"
  let ?c1 = "create_message (en_manager env) (ao_checked o1) (ao_recorded o1) (ao_pruned o1) ?m1 s"
  have s1: "s1 = snd ?c1" using execute_notify_manager(1) [OF assms(2,1)] assms(4) by simp
  with assms(5) have "snd (fst ?c1)" by (intro sends_mean_forwarded) simp
  from forwarded_recorded [OF assms(3) this assms(6)] s1 dedup_key_alert [OF assms(8)]
  have "hm_get (mm_dedup_cache s1) (dedup_key ?m2) = Some (ao_recorded o1)" by metis
  then have "sent_recently (ao_checked o2) ?m2 s1"
    using assms(7) by (auto simp: sent_recently_def num_seconds_def DEDUP_INTERVAL_SECS_def)
  then show ?thesis
    using assms(4) create_message_sent [of "en_manager env" "ao_checked o2" "ao_recorded o2" "ao_pruned o2" ?m2 s1]
    by (auto simp: execute_notify_def alert_of_def [symmetric] create_message_defs Let_def split: sum.splits)
qed

text \<open>Where the alerts of rules can go: a notify action only reaches channels whose filter has no
  source types or lists "system" (never "rule" alone), has no categories or lists "alert", and whose
  least severity is at most critical; a channel that asks for emergencies only receives none, not even
  for a notify action of severity emergency.\<close>

lemma rule_alerts_reach:
  assumes "execute_notify env ora body sev e = (res, e')" and "eng_message_manager e = Some s"
    and "eng_message_manager e' = Some s'"
  shows "\<exists>sends. mm_sent s' = mm_sent s @ sends \<and> (\<forall>(n, m, r) \<in> set sends.
     let f = get_filter (me_reg (en_manager env)) n (mm_channels s)
     in (source_types f = [] \<or> ''system'' \<in> set (source_types f)) \<and> (categories f = [] \<or> ''alert'' \<in> set (categories f))
        \<and> min_severity f \<noteq> Some Emergency)"
proof -
  let ?m = "alert_of ora body sev"
  let ?c = "create_message (en_manager env) (ao_checked ora) (ao_recorded ora) (ao_pruned ora) ?m s"
  define sends where "sends = (if snd (fst ?c) then send_through (en_manager env) ?m (mm_channels s) (list_names (mm_channels s)) else [])"
  have "mm_sent s' = mm_sent s @ sends"
    using execute_notify_manager(1) [OF assms(2,1)] assms(3) create_message_sent [of "en_manager env" _ _ _ ?m s]
    by (simp add: sends_def)
  moreover have "filter_matches (get_filter (me_reg (en_manager env)) n (mm_channels s)) ?m" if "(n, m, r) \<in> set sends" for n m r
  proof -
    have "n \<in> set (map fst (send_through (en_manager env) ?m (mm_channels s) (list_names (mm_channels s))))"
      using that by (force simp: sends_def split: if_splits)
    then show ?thesis by (simp add: send_through_names wants_def)
  qed
  ultimately show ?thesis
    unfolding Let_def using alert_filter by (intro exI [of _ sends] conjI ballI; clarify?; blast)
qed

text \<open>Rules on the periodic virtual metric fire at most once a minute: if every rule of the engine
  passed the cooldown validation, then along any run of evaluations with clock readings that do not go
  backwards two firings of a rule that uses a virtual metric are at least sixty seconds apart.\<close>

lemma virtual_rules_spaced:
  assumes "\<forall>i r. get_rule i e = Some r \<longrightarrow> validate_virtual_metric_cooldown r = Inr ()" and "0 \<le> now" and "clocked now evs"
  shows "spaced fst (\<lambda>i. case get_rule i e of Some r \<Rightarrow> if uses_virtual (condition r) then 60000000000 else 0 | None \<Rightarrow> 0)
    (fst (gate_run (fire_attempt env) evs e))"
proof (rule spaced_weaken)
  let ?cd = "\<lambda>i. case get_rule i e of Some r \<Rightarrow> cooldown r | None \<Rightarrow> 0"
  show "spaced fst (\<lambda>i. int (?cd i)) (fst (gate_run (fire_attempt env) evs e))"
    by (rule fires.gate_spaced [OF _ assms(2,3)]) (simp add: cooldowns_are_def)
  have "60000000000 \<le> cooldown r" if "validate_virtual_metric_cooldown r = Inr ()" "uses_virtual (condition r)" for r
    using that by (simp add: validate_virtual_metric_cooldown_def MIN_VIRTUAL_METRIC_COOLDOWN_def from_secs_def split: if_splits)
  with assms(1) show "(case get_rule (fst (fst x)) e of
       Some r \<Rightarrow> if uses_virtual (condition r) then 60000000000 else 0 | None \<Rightarrow> 0) \<le> int (?cd (fst (fst x)))" for x
    by (fastforce split: option.splits)
qed

text \<open>C6. What a device sends is what a push target receives: a request that passes the checks and the rate limit of the
  webhook adapter, with a JSON object whose keys are plain words, from a device whose type defines no metrics of its own,
  is processed, and in the nested batch that the push scheduler builds from the events published for it, the item of the
  device has every scalar of the object, at most eleven levels deep, at its original path with its original value:
  integers of 64 bits, finite floats, booleans, nulls and texts that do not encode an image.\<close>

theorem webhook_data_round_trip:
  assumes "authorized (wa_config wa) (dr_get_device (wk_device_id call) registry) call"
    and "check_rate_limit (wk_rate_now call) (wk_device_id call) wa = (Inr (), wa1)" and "wa_event_bus wa = Some es"
    and "data = wp_data (wk_payload call)" and "tame data" and "is_object data" and "json_at [''__webhook_image''] data = None"
    and "\<forall>t. dr_get_template (case dr_get_device (wk_device_id call) registry of Some d \<Rightarrow> dc_device_type d | None \<Rightarrow> ''webhook'') xregistry
      = Some t \<longrightarrow> tp_metrics t = []"
    and "CHR '':'' \<notin> set (wk_device_id call)"
  shows "\<exists>n wa' published received. process_webhook env registry xregistry call wa = (Returns (Inr n), wa')
    \<and> wa_event_bus wa' = Some (es @ published)
    \<and> (\<forall>ks v. json_at ks data = Some v \<and> plain_leaf env v \<and> length ks \<le> 11 \<longrightarrow>
        json_at ks received = Some v
        \<and> (\<exists>items. json_at [''items''] (build_nested_batch_payload (published_items published)) = Some (JArray items)
            \<and> JObject [(''source_type'', JString ''device''), (''id'', JString (wk_device_id call)), (''data'', received)] \<in> set items))"
proof -
  obtain n wa' pre ms evs ts where run: "process_webhook env registry xregistry call wa = (Returns (Inr n), wa')"
      "wa_event_bus wa' = Some (es @ pre @ evs)" "published_items pre = []"
      "list_all2 (metric_event_of env (wk_device_id call) ts)
        (ms @ map (\<lambda>(ks, v). auto_metric (we_to_text env) (join ''.'' ks) v) (leaves 11 data)) evs"
    by (rule webhook_publishes [OF assms(1-7), of xregistry env]) (use assms(8) in auto)
  have items: "published_items (pre @ evs) = published_items evs" using run(3) by simp
  have "\<exists>dj. payload_data (published_items evs) (''device'', wk_device_id call) = Some dj \<and> json_at ks dj = Some v"
    if "json_at ks data = Some v" "plain_leaf env v" "length ks \<le> 11" for ks v
  proof (rule leaves_payload [OF run(4) assms(5,6,9)])
    have "\<not> is_object v" using that(2) by (cases v) (auto simp: plain_leaf_def)
    then show "(ks, v) \<in> set (leaves 11 data)" using leaves_iff [OF assms(5)] that by simp
  qed (use that in auto)
  then have "json_at ks (the (payload_data (published_items evs) (''device'', wk_device_id call))) = Some v
      \<and> (\<exists>items. json_at [''items''] (build_nested_batch_payload (published_items evs)) = Some (JArray items)
        \<and> JObject [(''source_type'', JString ''device''), (''id'', JString (wk_device_id call)),
             (''data'', the (payload_data (published_items evs) (''device'', wk_device_id call)))] \<in> set items)"
    if "json_at ks data = Some v \<and> plain_leaf env v \<and> length ks \<le> 11" for ks v
    using that nested_items by fastforce
  with run(1,2) items show ?thesis by (intro exI [of _ n] exI [of _ wa'] exI [of _ "pre @ evs"]
      exI [of _ "the (payload_data (published_items evs) (''device'', wk_device_id call))"] conjI [OF run(1)]) simp
qed

theorem webhook_data_round_trip_witness:
  "\<exists>n wa' published received. process_webhook example_webhook_env (dr_new :: unit device_registry) dr_new example_call
       (webhook_new (webhook_config_new ''hook'') (Some []) 0 Map.empty) = (Returns (Inr n), wa')
    \<and> wa_event_bus wa' = Some ([] @ published)
    \<and> json_at [''values'', ''bat''] received = Some (JInt 80) \<and> json_at [''n''] received = Some JNull"
proof -
  let ?wa = "webhook_new (webhook_config_new ''hook'') (Some []) 0 Map.empty"
  have "authorized (wa_config ?wa) (dr_get_device (wk_device_id example_call) (dr_new :: unit device_registry)) example_call"
    by (simp add: authorized_def webhook_new_def webhook_config_new_def example_call_def dr_get_device_def dr_new_def)
  moreover have "check_rate_limit (wk_rate_now example_call) (wk_device_id example_call) ?wa = (Inr (), ?wa)"
    by (simp add: check_rate_limit_def webhook_new_def webhook_config_new_def)
  moreover have "wa_event_bus ?wa = Some []" "example_reading = wp_data (wk_payload example_call)"
      "json_at [''__webhook_image''] example_reading = None" "CHR '':'' \<notin> set (wk_device_id example_call)"
    by (simp_all add: webhook_new_def example_call_def example_reading_def)
  moreover have "json_at [''values'', ''bat''] example_reading = Some (JInt 80)" "json_at [''n''] example_reading = Some JNull"
    by (simp_all add: example_reading_def)
  ultimately show ?thesis
    using webhook_data_round_trip [of ?wa example_call "dr_new :: unit device_registry" ?wa "[]" example_reading dr_new example_webhook_env]
      example_reading_tame
    by (fastforce simp: dr_get_template_def dr_new_def plain_leaf_def simp del: json_at.simps)
qed

end
